(* ===== verification/Colony_Prelude.thy ===== *)
theory Colony_Prelude
  imports Main "HOL-Library.AList" "HOL-Library.Word" "HOL-Library.Sublist"
    "HOL-Library.List_Lexorder" "HOL-Library.Char_ord"
begin

text \<open>
  The shared vocabulary of the development: Rust's \<open>Result\<close> and \<open>Option\<close>
  combinators, byte strings with the parts of \<open>str\<close> the sources call, integer parsing,
  fixed-width arithmetic, and hash and ordered maps as association lists.

  A Rust \<open>String\<close> is its UTF-8 byte sequence, a HOL \<open>string\<close>. \<open>len\<close> is
  \<open>length\<close>; \<open>chars().count()\<close> counts the bytes that start a character.
  A \<open>HashMap\<close> or \<open>DashMap\<close> is an association list with distinct keys; where the
  source iterates over one, the list order is the iteration order, and since every
  theorem quantifies over the lists it holds for every order.
\<close>

section \<open>Proof collections\<close>

named_theorems res_simps \<open>unfolding of the result combinators\<close>
named_theorems str_simps \<open>unfolding of the byte-string operations\<close>
named_theorems store_simps \<open>lookup laws of the association-list stores\<close>

section \<open>Results\<close>

text \<open>\<open>Result<T, E>\<close> is \<open>'e + 't\<close>; \<open>and_then\<close> is the \<open>?\<close> operator.\<close>

definition and_then :: "'e + 'a \<Rightarrow> ('a \<Rightarrow> 'e + 'b) \<Rightarrow> 'e + 'b" where
  "and_then r f = (case r of Inl e \<Rightarrow> Inl e | Inr a \<Rightarrow> f a)"

definition map_err :: "('e \<Rightarrow> 'f) \<Rightarrow> 'e + 'a \<Rightarrow> 'f + 'a" where
  "map_err f r = (case r of Inl e \<Rightarrow> Inl (f e) | Inr a \<Rightarrow> Inr a)"

definition map_ok :: "('a \<Rightarrow> 'b) \<Rightarrow> 'e + 'a \<Rightarrow> 'e + 'b" where
  "map_ok f r = (case r of Inl e \<Rightarrow> Inl e | Inr a \<Rightarrow> Inr (f a))"

definition ok_or :: "'e \<Rightarrow> 'a option \<Rightarrow> 'e + 'a" where
  "ok_or e x = (case x of None \<Rightarrow> Inl e | Some a \<Rightarrow> Inr a)"

text \<open>\<open>r.ok()\<close>\<close>

definition ok_of :: "'e + 'a \<Rightarrow> 'a option" where
  "ok_of r = (case r of Inl e \<Rightarrow> None | Inr a \<Rightarrow> Some a)"

text \<open>\<open>opt.map(f).transpose()\<close>: run a fallible step on the value, if there is one.\<close>

definition map_transpose :: "('a \<Rightarrow> 'e + 'b) \<Rightarrow> 'a option \<Rightarrow> 'e + 'b option" where
  "map_transpose f x = (case x of None \<Rightarrow> Inr None | Some a \<Rightarrow> map_ok Some (f a))"

text \<open>\<open>iter.map(f).collect::<Result<Vec<_>, _>>()\<close>: the first error wins.\<close>

fun collect_res :: "('a \<Rightarrow> 'e + 'b) \<Rightarrow> 'a list \<Rightarrow> 'e + 'b list" where
  "collect_res f [] = Inr []"
| "collect_res f (x # xs) = and_then (f x) (\<lambda>y. map_ok (\<lambda>ys. y # ys) (collect_res f xs))"

lemma and_then_simps [simp]:
  "and_then (Inl e) f = Inl e"
  "and_then (Inr a) f = f a"
  by (simp_all add: and_then_def)

lemma and_then_Inr [res_simps]:
  "and_then r f = Inr b \<longleftrightarrow> (\<exists>a. r = Inr a \<and> f a = Inr b)"
  by (auto simp: and_then_def split: sum.splits)

lemma and_thenE:
  assumes "and_then r f = Inr b"
  obtains a where "r = Inr a" and "f a = Inr b"
  using assms by (auto simp: res_simps)

lemma map_err_simps [simp]:
  "map_err f (Inl e) = Inl (f e)"
  "map_err f (Inr a) = Inr a"
  by (simp_all add: map_err_def)

lemma map_err_Inr [res_simps]: "map_err f r = Inr a \<longleftrightarrow> r = Inr a"
  by (auto simp: map_err_def split: sum.splits)

lemma map_ok_simps [simp]:
  "map_ok f (Inl e) = Inl e"
  "map_ok f (Inr a) = Inr (f a)"
  by (simp_all add: map_ok_def)

lemma map_ok_Inr [res_simps]: "map_ok f r = Inr b \<longleftrightarrow> (\<exists>a. r = Inr a \<and> b = f a)"
  by (auto simp: map_ok_def split: sum.splits)

lemma ok_or_simps [simp]:
  "ok_or e None = Inl e"
  "ok_or e (Some a) = Inr a"
  by (simp_all add: ok_or_def)

lemma ok_or_Inr [res_simps]: "ok_or e x = Inr a \<longleftrightarrow> x = Some a"
  by (auto simp: ok_or_def split: option.splits)

lemma ok_of_simps [simp]:
  "ok_of (Inl e) = None"
  "ok_of (Inr a) = Some a"
  by (simp_all add: ok_of_def)

lemma ok_of_Some [res_simps]: "ok_of r = Some a \<longleftrightarrow> r = Inr a"
  by (auto simp: ok_of_def split: sum.splits)

lemma map_transpose_simps [simp]:
  "map_transpose f None = Inr None"
  "map_transpose f (Some a) = map_ok Some (f a)"
  by (simp_all add: map_transpose_def)

lemma map_transpose_Inr [res_simps]:
  "map_transpose f x = Inr y \<longleftrightarrow>
     (x = None \<and> y = None) \<or> (\<exists>a b. x = Some a \<and> f a = Inr b \<and> y = Some b)"
  by (cases x) (auto simp: res_simps)

lemma collect_res_Inr [res_simps]:
  "collect_res f xs = Inr ys \<longleftrightarrow> list_all2 (\<lambda>x y. f x = Inr y) xs ys"
proof (induction xs arbitrary: ys)
  case (Cons x xs)
  then show ?case by (cases ys) (auto simp: res_simps)
qed auto

section \<open>Byte strings\<close>

definition byte :: "char \<Rightarrow> nat" where
  [code_abbrev]: "byte c = of_char c"

definition is_ascii_digit :: "char \<Rightarrow> bool" where
  "is_ascii_digit c \<longleftrightarrow> 48 \<le> byte c \<and> byte c \<le> 57"

definition is_ascii_lowercase :: "char \<Rightarrow> bool" where
  "is_ascii_lowercase c \<longleftrightarrow> 97 \<le> byte c \<and> byte c \<le> 122"

definition is_ascii_uppercase :: "char \<Rightarrow> bool" where
  "is_ascii_uppercase c \<longleftrightarrow> 65 \<le> byte c \<and> byte c \<le> 90"

definition is_ascii_alphanumeric :: "char \<Rightarrow> bool" where
  "is_ascii_alphanumeric c \<longleftrightarrow> is_ascii_digit c \<or> is_ascii_lowercase c \<or> is_ascii_uppercase c"

definition is_ascii_hexdigit :: "char \<Rightarrow> bool" where
  "is_ascii_hexdigit c \<longleftrightarrow>
     is_ascii_digit c \<or> (97 \<le> byte c \<and> byte c \<le> 102) \<or> (65 \<le> byte c \<and> byte c \<le> 70)"

definition is_ascii_graphic :: "char \<Rightarrow> bool" where
  "is_ascii_graphic c \<longleftrightarrow> 33 \<le> byte c \<and> byte c \<le> 126"

definition ascii_lower :: "char \<Rightarrow> char" where
  "ascii_lower c = (if is_ascii_uppercase c then char_of (byte c + 32) else c)"

definition to_ascii_lowercase :: "string \<Rightarrow> string" where
  "to_ascii_lowercase s = map ascii_lower s"

definition eq_ignore_ascii_case :: "string \<Rightarrow> string \<Rightarrow> bool" where
  "eq_ignore_ascii_case s t \<longleftrightarrow> to_ascii_lowercase s = to_ascii_lowercase t"

text \<open>\<open>s.chars().count()\<close>: every byte that is not a UTF-8 continuation byte starts a character.\<close>

definition chars_count :: "string \<Rightarrow> nat" where
  "chars_count s = length (filter (\<lambda>c. byte c < 128 \<or> 192 \<le> byte c) s)"

definition starts_with :: "string \<Rightarrow> string \<Rightarrow> bool" where
  "starts_with s p \<longleftrightarrow> take (length p) s = p"

definition strip_prefix :: "string \<Rightarrow> string \<Rightarrow> string option" where
  "strip_prefix p s = (if starts_with s p then Some (drop (length p) s) else None)"

text \<open>\<open>s.split(c)\<close> for a character \<open>c\<close>: always at least one piece.\<close>

fun split_on :: "char \<Rightarrow> string \<Rightarrow> string list" where
  "split_on c [] = [[]]"
| "split_on c (x # xs) =
     (if x = c then [] # split_on c xs
      else case split_on c xs of [] \<Rightarrow> [[x]] | y # ys \<Rightarrow> (x # y) # ys)"

text \<open>\<open>s.split_once(c)\<close>: the parts before and after the first separator, if there is one.\<close>

definition split_once :: "char \<Rightarrow> string \<Rightarrow> (string \<times> string) option" where
  "split_once c s = (if c \<in> set s
     then Some (takeWhile (\<lambda>x. x \<noteq> c) s, tl (dropWhile (\<lambda>x. x \<noteq> c) s)) else None)"

lemma split_once_hit: "c \<notin> set a \<Longrightarrow> split_once c (a @ c # b) = Some (a, b)"
  by (simp add: split_once_def takeWhile_append dropWhile_append)

fun join_with :: "char \<Rightarrow> string list \<Rightarrow> string" where
  "join_with c [] = []"
| "join_with c [x] = x"
| "join_with c (x # y # ys) = x @ c # join_with c (y # ys)"

text \<open>
  Unicode white space (\<open>char::is_whitespace\<close>) on UTF-8: the number of bytes of the
  white-space character at the head of the string, 0 if there is none. The characters
  are U+0009 to U+000D, U+0020, U+0085, U+00A0, U+1680, U+2000 to U+200A, U+2028,
  U+2029, U+202F, U+205F and U+3000.
\<close>

definition ws1 :: "nat \<Rightarrow> bool" where
  "ws1 a \<longleftrightarrow> 9 \<le> a \<and> a \<le> 13 \<or> a = 32"

definition ws2 :: "nat \<Rightarrow> nat \<Rightarrow> bool" where
  "ws2 a b \<longleftrightarrow> a = 194 \<and> (b = 133 \<or> b = 160)"

definition ws3 :: "nat \<Rightarrow> nat \<Rightarrow> nat \<Rightarrow> bool" where
  "ws3 a b c \<longleftrightarrow>
     a = 225 \<and> b = 154 \<and> c = 128
   \<or> a = 226 \<and> b = 128 \<and> (128 \<le> c \<and> c \<le> 138 \<or> c = 168 \<or> c = 169 \<or> c = 175)
   \<or> a = 226 \<and> b = 129 \<and> c = 159
   \<or> a = 227 \<and> b = 128 \<and> c = 128"

fun ws_len :: "string \<Rightarrow> nat" where
  "ws_len [] = 0"
| "ws_len (a # r) =
     (if ws1 (byte a) then 1
      else case r of
          [] \<Rightarrow> 0
        | b # r' \<Rightarrow>
           if ws2 (byte a) (byte b) then 2
           else (case r' of [] \<Rightarrow> 0 | c # _ \<Rightarrow> if ws3 (byte a) (byte b) (byte c) then 3 else 0))"

lemma ws_len_le: "ws_len s \<le> length s"
  by (cases s) (auto split: list.split)

lemma ws_len_append: "ws_len p \<noteq> 0 \<Longrightarrow> ws_len (p @ x) = ws_len p"
  by (cases p) (auto split: list.splits if_splits)

function trim_start :: "string \<Rightarrow> string" where
  "trim_start s = (if ws_len s = 0 then s else trim_start (drop (ws_len s) s))"
  by pat_completeness auto
termination
proof (relation "measure length")
  fix s :: string
  assume "ws_len s \<noteq> 0"
  moreover from this have "s \<noteq> []" by auto
  ultimately show "(drop (ws_len s) s, s) \<in> measure length" by simp
qed simp

declare trim_start.simps [simp del]

lemma ws_len_trim_start [simp]: "ws_len (trim_start s) = 0"
proof (induction s rule: trim_start.induct)
  case (1 s)
  then show ?case by (subst trim_start.simps) auto
qed

lemma trim_start_id: "ws_len s = 0 \<Longrightarrow> trim_start s = s"
  by (simp add: trim_start.simps)

lemma length_trim_start: "length (trim_start s) \<le> length s"
proof (induction s rule: trim_start.induct)
  case (1 s)
  then show ?case by (subst trim_start.simps) (auto intro: order_trans)
qed

text \<open>The length of the white-space character the string ends in, 0 if there is none.\<close>

definition ws_suffix_len :: "string \<Rightarrow> nat" where
  "ws_suffix_len s =
     (if 1 \<le> length s \<and> ws_len (drop (length s - 1) s) = 1 then 1
      else if 2 \<le> length s \<and> ws_len (drop (length s - 2) s) = 2 then 2
      else if 3 \<le> length s \<and> ws_len (drop (length s - 3) s) = 3 then 3
      else 0)"

lemma ws_suffix_len_le: "ws_suffix_len s \<le> length s"
  by (auto simp: ws_suffix_len_def)

function trim_end :: "string \<Rightarrow> string" where
  "trim_end s = (if ws_suffix_len s = 0 then s
     else trim_end (take (length s - ws_suffix_len s) s))"
  by pat_completeness auto
termination
proof (relation "measure length")
  fix s :: string
  assume "ws_suffix_len s \<noteq> 0"
  with ws_suffix_len_le [of s] show "(take (length s - ws_suffix_len s) s, s) \<in> measure length"
    by simp
qed simp

declare trim_end.simps [simp del]

lemma ws_suffix_len_trim_end [simp]: "ws_suffix_len (trim_end s) = 0"
proof (induction s rule: trim_end.induct)
  case (1 s)
  then show ?case by (subst trim_end.simps) auto
qed

lemma trim_end_id: "ws_suffix_len s = 0 \<Longrightarrow> trim_end s = s"
  by (simp add: trim_end.simps)

lemma prefix_trim_end: "prefix (trim_end s) s"
proof (induction s rule: trim_end.induct)
  case (1 s)
  show ?case
  proof (cases "ws_suffix_len s = 0")
    case False
    with "1.IH" have "prefix (trim_end s) (take (length s - ws_suffix_len s) s)"
      by (simp add: trim_end.simps [of s])
    then show ?thesis using take_is_prefix prefix_order.trans by blast
  qed (simp add: trim_end.simps)
qed

lemma ws_len_prefix: "prefix p s \<Longrightarrow> ws_len s = 0 \<Longrightarrow> ws_len p = 0"
  using ws_len_append by (fastforce simp: prefix_def)

definition trim :: "string \<Rightarrow> string" where
  "trim s = trim_end (trim_start s)"

lemma ws_len_trim [simp]: "ws_len (trim s) = 0"
  unfolding trim_def by (rule ws_len_prefix [OF prefix_trim_end]) simp

lemma trim_idem [simp]: "trim (trim s) = trim s"
proof -
  have "trim_start (trim s) = trim s" by (simp add: trim_start_id)
  moreover have "trim_end (trim s) = trim s" by (simp add: trim_def trim_end_id)
  ultimately show ?thesis by (simp add: trim_def [of "trim s"])
qed

lemma length_trim: "length (trim s) \<le> length s"
  unfolding trim_def
  using prefix_length_le [OF prefix_trim_end] length_trim_start order_trans by blast

lemma split_on_nonempty [simp]: "split_on c s \<noteq> []"
  by (induction s) (auto split: list.splits)

lemma split_on_Cons_other: "x \<noteq> c \<Longrightarrow> \<exists>y ys. split_on c s = y # ys \<and> split_on c (x # s) = (x # y) # ys"
  using split_on_nonempty [of c s] by (cases "split_on c s") auto

lemma join_with_Cons_hd: "join_with c ((x # y) # ys) = x # join_with c (y # ys)"
  by (cases ys) auto

lemma join_split [simp]: "join_with c (split_on c s) = s"
proof (induction s)
  case (Cons x xs)
  show ?case
  proof (cases "x = c")
    case True
    with Cons show ?thesis using split_on_nonempty [of c xs] by (cases "split_on c xs") auto
  next
    case False
    from split_on_Cons_other [OF this, of xs] Cons show ?thesis
      by (auto simp: join_with_Cons_hd simp del: split_on.simps)
  qed
qed simp

lemma split_on_no_sep: "p \<in> set (split_on c s) \<Longrightarrow> c \<notin> set p"
  by (induction s arbitrary: p) (auto split: list.splits if_splits)

lemma starts_with_prefix: "starts_with s p \<longleftrightarrow> prefix p s"
  unfolding starts_with_def prefix_def by (metis append_take_drop_id append_eq_conv_conj)

lemma strip_prefix_Some: "strip_prefix p s = Some r \<longleftrightarrow> s = p @ r"
  unfolding strip_prefix_def starts_with_def
  by (metis append_eq_conv_conj append_take_drop_id option.inject option.distinct(1))

subsection \<open>Integer parsing\<close>

text \<open>
  \<open>str::parse::<iN>\<close>: an optional sign, at least one decimal digit, and the value in
  range; everything else is an error.
\<close>

fun digits_value :: "int \<Rightarrow> string \<Rightarrow> int option" where
  "digits_value acc [] = Some acc"
| "digits_value acc (c # cs) =
     (if is_ascii_digit c then digits_value (acc * 10 + int (byte c) - 48) cs else None)"

definition in_range :: "int \<Rightarrow> int \<Rightarrow> int option \<Rightarrow> int option" where
  "in_range lo hi v = (case v of None \<Rightarrow> None | Some n \<Rightarrow> if lo \<le> n \<and> n \<le> hi then Some n else None)"

definition parse_signed :: "int \<Rightarrow> int \<Rightarrow> string \<Rightarrow> int option" where
  "parse_signed lo hi s = (case s of
       [] \<Rightarrow> None
     | c # cs \<Rightarrow>
        if c = CHR ''-'' then (if cs = [] then None else in_range lo hi (map_option uminus (digits_value 0 cs)))
        else if c = CHR ''+'' then (if cs = [] then None else in_range lo hi (digits_value 0 cs))
        else in_range lo hi (digits_value 0 s))"

abbreviation parse_i32 :: "string \<Rightarrow> int option" where
  "parse_i32 \<equiv> parse_signed (- 2147483648) 2147483647"

abbreviation parse_i64 :: "string \<Rightarrow> int option" where
  "parse_i64 \<equiv> parse_signed (- 9223372036854775808) 9223372036854775807"

lemma in_range_Some: "in_range lo hi v = Some n \<Longrightarrow> lo \<le> n \<and> n \<le> hi"
  by (auto simp: in_range_def split: option.splits if_splits)

lemma parse_signed_range: "parse_signed lo hi s = Some n \<Longrightarrow> lo \<le> n \<and> n \<le> hi"
  by (auto simp: parse_signed_def dest: in_range_Some split: list.splits if_splits)

fun show_nat :: "nat \<Rightarrow> string" where
  "show_nat n = (if n < 10 then [char_of (48 + n)] else show_nat (n div 10) @ [char_of (48 + n mod 10)])"

declare show_nat.simps [simp del]

text \<open>\<open>{n:0w}\<close>: decimal, padded with zeros to width \<open>w\<close>.\<close>

definition show_int :: "int \<Rightarrow> string" where
  "show_int n = (if n < 0 then CHR ''-'' # show_nat (nat (- n)) else show_nat (nat n))"

definition show_padded :: "nat \<Rightarrow> nat \<Rightarrow> string" where
  "show_padded w n = replicate (w - length (show_nat n)) CHR ''0'' @ show_nat n"

lemma show_nat_length_le: "n < 10 ^ k \<Longrightarrow> 0 < k \<Longrightarrow> length (show_nat n) \<le> k"
proof (induction k arbitrary: n)
  case (Suc k)
  show ?case
  proof (cases "n < 10")
    case False
    with Suc.prems have "k \<noteq> 0" "n div 10 < 10 ^ k"
      by (cases k; simp add: div_less_iff_less_mult mult.commute)+
    with Suc.IH [of "n div 10"] False show ?thesis by (simp add: show_nat.simps [of n])
  qed (simp add: show_nat.simps)
qed simp

lemma show_padded_length: "n < 10 ^ k \<Longrightarrow> 0 < k \<Longrightarrow> length (show_padded k n) = k"
  using show_nat_length_le [of n k] by (simp add: show_padded_def)

text \<open>\<open>str::parse::<uN>\<close>: an optional plus sign and decimal digits, in range.\<close>

definition parse_unsigned :: "int \<Rightarrow> string \<Rightarrow> nat option" where
  "parse_unsigned hi s = (let ds = (case s of c # cs \<Rightarrow> if c = CHR ''+'' then cs else s | [] \<Rightarrow> [])
     in if ds = [] then None else map_option nat (in_range 0 hi (digits_value 0 ds)))"

abbreviation parse_u32 :: "string \<Rightarrow> nat option" where
  "parse_u32 \<equiv> parse_unsigned 4294967295"

abbreviation parse_u64 :: "string \<Rightarrow> nat option" where
  "parse_u64 \<equiv> parse_unsigned 18446744073709551615"

lemma digits_value_append:
  "digits_value a (s @ [c]) = (case digits_value a s of None \<Rightarrow> None
     | Some n \<Rightarrow> if is_ascii_digit c then Some (n * 10 + int (byte c) - 48) else None)"
  by (induction s arbitrary: a) auto

lemma byte_digit: "d < 10 \<Longrightarrow> byte (char_of (48 + d)) = 48 + d"
  by (simp add: byte_def of_char_of)

lemma digits_value_show_nat: "digits_value 0 (show_nat n) = Some (int n)"
proof (induction n rule: show_nat.induct)
  case (1 n)
  show ?case
  proof (cases "n < 10")
    case True
    then show ?thesis by (simp add: show_nat.simps [of n] byte_digit is_ascii_digit_def)
  next
    case False
    have "int n = int (n div 10) * 10 + int (n mod 10)" by presburger
    with False 1 show ?thesis
      by (simp add: show_nat.simps [of n] digits_value_append byte_digit is_ascii_digit_def)
  qed
qed

lemma show_nat_digits: "c \<in> set (show_nat n) \<Longrightarrow> is_ascii_digit c"
  by (induction n rule: show_nat.induct) (subst (asm) show_nat.simps; auto simp: byte_digit is_ascii_digit_def split: if_splits)

lemma show_nat_nonempty [simp]: "show_nat n \<noteq> []"
  by (subst show_nat.simps) simp

lemma parse_show_nat: "int n \<le> hi \<Longrightarrow> parse_unsigned hi (show_nat n) = Some n"
proof -
  assume "int n \<le> hi"
  obtain c cs where s: "show_nat n = c # cs" by (meson neq_Nil_conv show_nat_nonempty)
  then have "c \<noteq> CHR ''+''" using show_nat_digits [of c n] by (auto simp: is_ascii_digit_def byte_def)
  with \<open>int n \<le> hi\<close> digits_value_show_nat [of n] s show ?thesis
    by (simp add: parse_unsigned_def in_range_def Let_def del: digits_value.simps)
qed

lemma show_nat_inj: "show_nat m = show_nat n \<longleftrightarrow> m = n"
  using digits_value_show_nat by (metis option.inject of_nat_eq_iff)

section \<open>Machine integers\<close>

text \<open>
  An integer the sources only compare, divide or widen is a \<open>nat\<close> (or \<open>int\<close> when it is
  signed). Where they add or multiply, it is a word: \<open>+\<close> and \<open>*\<close> wrap, as in a release build.
\<close>

type_synonym u64 = "64 word"
type_synonym u128 = "128 word"

definition saturating_add :: "u64 \<Rightarrow> u64 \<Rightarrow> u64" where
  "saturating_add a b = (if unat a + unat b < 2 ^ 64 then a + b else - 1)"

definition checked_mul :: "u64 \<Rightarrow> u64 \<Rightarrow> u64 option" where
  "checked_mul a b = (if unat a * unat b < 2 ^ 64 then Some (a * b) else None)"

lemma unat_saturating_add: "unat (saturating_add a b) = min (unat a + unat b) (2 ^ 64 - 1)"
  unfolding saturating_add_def by (auto simp: unat_word_ariths unsigned_minus_1_eq_mask mask_eq_exp_minus_1)

lemma checked_mul_Some: "checked_mul a b = Some c \<Longrightarrow> unat c = unat a * unat b"
  unfolding checked_mul_def by (auto simp: unat_word_ariths split: if_splits)

section \<open>Hash maps as association lists\<close>

text \<open>\<open>m.entry(k).or_default()\<close> followed by an in-place change of the value.\<close>

definition entry_upd :: "'k \<Rightarrow> 'v \<Rightarrow> ('v \<Rightarrow> 'v) \<Rightarrow> ('k \<times> 'v) list \<Rightarrow> ('k \<times> 'v) list" where
  "entry_upd k d f m = AList.update k (f (case map_of m k of None \<Rightarrow> d | Some v \<Rightarrow> v)) m"

definition keys_ok :: "('k \<times> 'v) list \<Rightarrow> bool" where
  "keys_ok m \<longleftrightarrow> distinct (map fst m)"

lemma map_of_update [store_simps]: "map_of (AList.update k v m) = (map_of m)(k \<mapsto> v)"
  by (simp add: update_conv')

lemma map_of_delete [store_simps]: "map_of (AList.delete k m) = (map_of m)(k := None)"
  by (simp add: delete_conv')

lemma map_of_entry_upd [store_simps]:
  "map_of (entry_upd k d f m) = (map_of m)(k \<mapsto> f (case map_of m k of None \<Rightarrow> d | Some v \<Rightarrow> v))"
  by (simp add: entry_upd_def store_simps)

lemma keys_ok_Nil [simp]: "keys_ok []"
  by (simp add: keys_ok_def)

lemma keys_ok_update [simp]: "keys_ok m \<Longrightarrow> keys_ok (AList.update k v m)"
  by (simp add: keys_ok_def distinct_update)

lemma keys_ok_delete [simp]: "keys_ok m \<Longrightarrow> keys_ok (AList.delete k m)"
  by (simp add: keys_ok_def distinct_delete)

lemma keys_ok_entry_upd [simp]: "keys_ok m \<Longrightarrow> keys_ok (entry_upd k d f m)"
  by (simp add: entry_upd_def)

lemma keys_ok_filter [simp]: "keys_ok m \<Longrightarrow> keys_ok (filter P m)"
  unfolding keys_ok_def by (induction m) auto

lemma keys_ok_mem: "keys_ok m \<Longrightarrow> (k, v) \<in> set m \<longleftrightarrow> map_of m k = Some v"
  by (auto simp: keys_ok_def dest: map_of_SomeD)

section \<open>Ordered maps\<close>

text \<open>
  A \<open>BTreeMap\<close> is an association list in strictly increasing key order, the order its
  iterators yield. \<open>btree_add\<close> is \<open>*m.entry(k).or_default() += v\<close>. Strings compare bytewise.
\<close>

fun btree_add :: "'k::linorder \<Rightarrow> 'v::monoid_add \<Rightarrow> ('k \<times> 'v) list \<Rightarrow> ('k \<times> 'v) list" where
  "btree_add k v [] = [(k, 0 + v)]"
| "btree_add k v ((k', w) # m) =
     (if k < k' then (k, 0 + v) # (k', w) # m
      else if k = k' then (k', w + v) # m
      else (k', w) # btree_add k v m)"

definition btree_get :: "('k \<times> 'v::zero) list \<Rightarrow> 'k \<Rightarrow> 'v" where
  "btree_get m k = (case map_of m k of None \<Rightarrow> 0 | Some v \<Rightarrow> v)"

definition btree_ok :: "('k::linorder \<times> 'v) list \<Rightarrow> bool" where
  "btree_ok m \<longleftrightarrow> sorted_wrt (<) (map fst m)"

lemma btree_ok_Nil [simp]: "btree_ok []"
  by (simp add: btree_ok_def)

lemma btree_keys_add: "fst ` set (btree_add k v m) = insert k (fst ` set m)"
proof (induction m)
  case (Cons x m)
  then show ?case by (cases x) (simp add: insert_commute)
qed simp

lemma btree_ok_add [simp]: "btree_ok m \<Longrightarrow> btree_ok (btree_add k v m)"
proof (induction m)
  case (Cons x m)
  obtain k' w where x: "x = (k', w)" by fastforce
  with Cons have IH: "btree_ok (btree_add k v m)" and lt: "\<forall>y \<in> fst ` set m. k' < y"
    by (auto simp: btree_ok_def)
  show ?case
  proof (cases "k < k' \<or> k = k'")
    case True
    with Cons.prems lt x show ?thesis by (auto simp: btree_ok_def intro: less_trans)
  next
    case False
    then have "k' < k" by auto
    with lt have "\<forall>y \<in> fst ` set (btree_add k v m). k' < y" by (auto simp: btree_keys_add)
    with IH False x show ?thesis by (auto simp: btree_ok_def)
  qed
qed (simp add: btree_ok_def)

lemma btree_ok_keys: "btree_ok m \<Longrightarrow> keys_ok m"
  by (simp add: btree_ok_def keys_ok_def strict_sorted_iff)

lemma btree_map_of_add [store_simps]:
  "btree_ok m \<Longrightarrow> map_of (btree_add k v m) = (map_of m)(k \<mapsto> btree_get m k + v)"
proof (induction m)
  case (Cons x m)
  obtain k' w where x: "x = (k', w)" by fastforce
  with Cons have IH: "map_of (btree_add k v m) = (map_of m)(k \<mapsto> btree_get m k + v)"
    and lt: "\<And>y. y \<in> fst ` set m \<Longrightarrow> k' < y" by (auto simp: btree_ok_def)
  have "map_of m k = None" if "k < k'" using that lt by (force simp: map_of_eq_None_iff)
  then show ?case using IH x by (auto simp: btree_get_def fun_upd_twist)
qed (auto simp: btree_get_def)

lemma btree_sum_add:
  fixes v :: "'v::comm_monoid_add"
  shows "sum_list (map snd (btree_add k v m)) = sum_list (map snd m) + v"
  by (induction m) (auto simp: ac_simps)

text \<open>An \<open>i64\<close> that wraps.\<close>

definition wrap_i64 :: "int \<Rightarrow> int" where
  "wrap_i64 x = (x + 2 ^ 63) mod 2 ^ 64 - 2 ^ 63"

lemma wrap_i64_id: "- (2 ^ 63) \<le> x \<Longrightarrow> x < 2 ^ 63 \<Longrightarrow> wrap_i64 x = x"
  by (simp add: wrap_i64_def)

end
