(* ===== verification/Colony_Interfaces.thy ===== *)
theory Colony_Interfaces
  imports Colony_Prelude "HOL-Library.Product_Lexorder"
begin

text \<open>
  The contracts several components share, each a locale with the laws its provider
  promises and the client lemmas proved once from them. The component theories
  interpret them on the definitions translated from the source.
\<close>

section \<open>Wire enums: a spelling for each constructor\<close>

locale wire_enum =
  fixes as_str :: "'a \<Rightarrow> string" and from_str :: "string \<Rightarrow> 'a option"
  assumes from_as: "from_str (as_str x) = Some x"
    and as_from: "from_str s = Some x \<Longrightarrow> as_str x = s"
begin

lemma as_str_inj: "as_str x = as_str y \<longleftrightarrow> x = y"
  by (metis from_as option.inject)

lemma from_str_iff: "from_str s = Some x \<longleftrightarrow> s = as_str x"
  using from_as as_from by blast

lemma from_str_None: "from_str s = None \<longleftrightarrow> s \<notin> range as_str"
proof
  assume "from_str s = None"
  then show "s \<notin> range as_str" using from_as by auto
next
  assume "s \<notin> range as_str"
  then show "from_str s = None" using as_from by (cases "from_str s") auto
qed

end

section \<open>Posting indexes: a key to the subscribers filed under it\<close>

text \<open>
  \<open>tracks get keys live i\<close>: under every key the index holds exactly the live items
  whose entry names that key.
\<close>

definition tracks ::
  "('i \<Rightarrow> 'k \<Rightarrow> 'p list) \<Rightarrow> ('e \<Rightarrow> 'k list) \<Rightarrow> ('p \<Rightarrow> 'e option) \<Rightarrow> 'i \<Rightarrow> bool" where
  "tracks get keys live i \<longleftrightarrow>
     (\<forall>k p. p \<in> set (get i k) \<longleftrightarrow> (\<exists>e. live p = Some e \<and> k \<in> set (keys e)))"

locale posting_index =
  fixes get :: "'i \<Rightarrow> 'k \<Rightarrow> 'p list"
    and push :: "'k \<Rightarrow> 'p \<Rightarrow> 'i \<Rightarrow> 'i"
    and retain_not :: "'k \<Rightarrow> 'p \<Rightarrow> 'i \<Rightarrow> 'i"
    and tidy :: "'i \<Rightarrow> bool"
  assumes set_push: "set (get (push k p i) k') = (if k' = k then insert p (set (get i k)) else set (get i k'))"
    and set_retain_not: "set (get (retain_not k p i) k') = (if k' = k then set (get i k) - {p} else set (get i k'))"
    and tidy_push: "tidy i \<Longrightarrow> tidy (push k p i)"
    and tidy_retain_not: "tidy i \<Longrightarrow> tidy (retain_not k p i)"
begin

lemma set_push_all:
  "set (get (fold (\<lambda>k. push k p) ks i) k') = (if k' \<in> set ks then insert p (set (get i k')) else set (get i k'))"
  by (induction ks arbitrary: i) (auto simp: set_push)

lemma set_retain_all:
  "set (get (fold (\<lambda>k. retain_not k p) ks i) k') = (if k' \<in> set ks then set (get i k') - {p} else set (get i k'))"
  by (induction ks arbitrary: i) (auto simp: set_retain_not)

lemma tidy_push_all: "tidy i \<Longrightarrow> tidy (fold (\<lambda>k. push k p) ks i)"
  by (induction ks arbitrary: i) (auto intro: tidy_push)

lemma tidy_retain_all: "tidy i \<Longrightarrow> tidy (fold (\<lambda>k. retain_not k p) ks i)"
  by (induction ks arbitrary: i) (auto intro: tidy_retain_not)

lemma tracks_push:
  assumes "tracks get keys live i" and "live p = None"
  shows "tracks get keys (live(p \<mapsto> e)) (fold (\<lambda>k. push k p) (keys e) i)"
  using assms unfolding tracks_def by (auto simp: set_push_all)

lemma tracks_retain:
  assumes "tracks get keys live i" and "live p = Some e"
  shows "tracks get keys (live(p := None)) (fold (\<lambda>k. retain_not k p) (keys e) i)"
  using assms unfolding tracks_def by (auto simp: set_retain_all)

end

section \<open>Append-only books\<close>

locale append_only_book =
  fixes items :: "'b \<Rightarrow> 'e list" and extends :: "'b \<Rightarrow> 'b \<Rightarrow> bool"
  assumes extends_iff: "extends old new \<longleftrightarrow>
    length (items old) \<le> length (items new) \<and> take (length (items old)) (items new) = items old"
begin

lemma extends_prefix: "extends old new \<longleftrightarrow> prefix (items old) (items new)"
proof -
  have "take (length (items old)) (items new) = items old \<longleftrightarrow> prefix (items old) (items new)"
    unfolding prefix_def by (metis append_take_drop_id append_eq_conv_conj)
  then show ?thesis using extends_iff prefix_length_le by blast
qed

lemma extends_refl: "extends b b"
  by (simp add: extends_prefix)

lemma extends_trans: "extends a b \<Longrightarrow> extends b c \<Longrightarrow> extends a c"
  using prefix_order.trans by (auto simp: extends_prefix)

lemma extends_antisym: "extends a b \<Longrightarrow> extends b a \<Longrightarrow> items a = items b"
  using prefix_order.antisym by (auto simp: extends_prefix)

lemma extends_keeps: "extends old new \<Longrightarrow> i < length (items old) \<Longrightarrow> items new ! i = items old ! i"
  unfolding extends_prefix prefix_def by (auto simp: nth_append)

end

section \<open>Selection loops\<close>

text \<open>
  The shape of \<open>let mut best = None; for x in xs { if wins(x, best) { best = Some(x) } }\<close>.
\<close>

fun pick_loop :: "('a \<Rightarrow> 'a \<Rightarrow> bool) \<Rightarrow> 'a option \<Rightarrow> 'a list \<Rightarrow> 'a option" where
  "pick_loop wins best [] = best"
| "pick_loop wins None (x # xs) = pick_loop wins (Some x) xs"
| "pick_loop wins (Some c) (x # xs) = pick_loop wins (Some (if wins x c then x else c)) xs"

lemma pick_loop_Some: "\<exists>m. pick_loop wins (Some c) xs = Some m"
  by (induction xs arbitrary: c) auto

lemma pick_loop_None_iff [simp]: "pick_loop wins None xs = None \<longleftrightarrow> xs = []"
proof (cases xs)
  case (Cons x xs')
  then show ?thesis using pick_loop_Some [of wins x xs'] by auto
qed simp

lemma pick_loop_append: "pick_loop wins b (xs @ ys) = pick_loop wins (pick_loop wins b xs) ys"
  by (induction wins b xs rule: pick_loop.induct) auto

lemma pick_loop_mem: "pick_loop wins b xs = Some m \<Longrightarrow> m \<in> set xs \<or> b = Some m"
  by (induction wins b xs rule: pick_loop.induct) (auto split: if_splits)

locale selection =
  fixes wins :: "'a \<Rightarrow> 'a \<Rightarrow> bool" and rank :: "'a \<Rightarrow> 'r::linorder"
  assumes wins_rank: "wins x c \<Longrightarrow> rank c \<le> rank x"
    and loses_rank: "\<not> wins x c \<Longrightarrow> rank x \<le> rank c"
begin

lemma pick_rank:
  "pick_loop wins b xs = Some m \<Longrightarrow>
     (\<forall>x \<in> set xs. rank x \<le> rank m) \<and> (\<forall>c. b = Some c \<longrightarrow> rank c \<le> rank m)"
proof (induction xs arbitrary: b)
  case (Cons x xs)
  show ?case
  proof (cases b)
    case None
    with Cons show ?thesis by fastforce
  next
    case (Some c)
    let ?d = "if wins x c then x else c"
    from Some Cons.prems have "pick_loop wins (Some ?d) xs = Some m" by simp
    from Cons.IH [OF this] have "\<forall>x \<in> set xs. rank x \<le> rank m" "rank ?d \<le> rank m" by auto
    moreover have "rank x \<le> rank ?d" "rank c \<le> rank ?d"
      using wins_rank loses_rank by auto
    ultimately show ?thesis using Some by auto
  qed
qed auto

lemma pick_maximal:
  assumes "pick_loop wins None xs = Some m"
  shows "m \<in> set xs" and "\<And>x. x \<in> set xs \<Longrightarrow> rank x \<le> rank m"
  using pick_loop_mem [OF assms] pick_rank [OF assms] by auto

lemma pick_exists: "x \<in> set xs \<Longrightarrow> \<exists>m. pick_loop wins None xs = Some m"
  by (cases "pick_loop wins None xs") auto

end

text \<open>A challenger that must be strictly better: the earliest of the best wins.\<close>

locale first_selection = selection wins rank for wins :: "'a \<Rightarrow> 'a \<Rightarrow> bool" and rank :: "'a \<Rightarrow> 'r::linorder" +
  assumes wins_strict: "wins x c \<longleftrightarrow> rank c < rank x"
begin

lemma pick_stays:
  assumes "\<And>x. x \<in> set xs \<Longrightarrow> rank x \<le> rank m"
  shows "pick_loop wins (Some m) xs = Some m"
  using assms
proof (induction xs)
  case (Cons x xs)
  then have "\<not> wins x m" by (simp add: wins_strict not_less)
  with Cons show ?case by simp
qed simp

lemma pick_first:
  assumes "pick_loop wins None (xs @ ys) = Some m" and "m' \<in> set xs" and "rank m' = rank m"
  shows "pick_loop wins None xs = Some m"
proof -
  obtain a where a: "pick_loop wins None xs = Some a" using pick_exists [OF assms(2)] by blast
  from assms(1) a have "pick_loop wins (Some a) ys = Some m" by (simp add: pick_loop_append)
  moreover have "pick_loop wins (Some a) ys = Some a"
  proof (rule pick_stays)
    fix y assume "y \<in> set ys"
    then have "rank y \<le> rank m" using pick_maximal(2) [OF assms(1)] by simp
    moreover have "rank m' \<le> rank a" using pick_maximal(2) [OF a assms(2)] .
    ultimately show "rank y \<le> rank a" using assms(3) by simp
  qed
  ultimately show ?thesis using a by simp
qed

end

text \<open>A challenger that only has to match: the latest of the best wins.\<close>

locale last_selection = selection wins rank for wins :: "'a \<Rightarrow> 'a \<Rightarrow> bool" and rank :: "'a \<Rightarrow> 'r::linorder" +
  assumes wins_weak: "wins x c \<longleftrightarrow> rank c \<le> rank x"
begin

lemma pick_snoc_wins:
  assumes "\<And>x. x \<in> set xs \<Longrightarrow> rank x \<le> rank m"
  shows "pick_loop wins None (xs @ [m]) = Some m"
proof (cases "pick_loop wins None xs")
  case None
  then show ?thesis by (simp add: pick_loop_append)
next
  case (Some a)
  then have "rank a \<le> rank m" using assms pick_maximal(1) by blast
  with Some show ?thesis by (simp add: pick_loop_append wins_weak)
qed

lemma pick_snoc_loses:
  assumes "pick_loop wins None xs = Some a" and "rank y < rank a"
  shows "pick_loop wins None (xs @ [y]) = Some a"
  using assms by (auto simp: pick_loop_append wins_weak leD)

end

section \<open>Machines and their invariants\<close>

locale invariant_machine =
  fixes start :: "'s \<Rightarrow> bool" and step :: "'s \<Rightarrow> 's \<Rightarrow> bool" and inv :: "'s \<Rightarrow> bool"
  assumes inv_start: "start s \<Longrightarrow> inv s"
    and inv_step: "step s t \<Longrightarrow> inv s \<Longrightarrow> inv t"
begin

lemma inv_steps: "step\<^sup>*\<^sup>* s t \<Longrightarrow> inv s \<Longrightarrow> inv t"
  by (induction rule: rtranclp_induct) (auto intro: inv_step)

lemma inv_reachable: "start s \<Longrightarrow> step\<^sup>*\<^sup>* s t \<Longrightarrow> inv t"
  using inv_start inv_steps by blast

end

section \<open>Stores where the greatest version wins\<close>

text \<open>
  A replica that is offered records: it takes one whose key it admits when it holds none for
  the key, or one of a smaller version.
\<close>

locale version_store =
  fixes get :: "'s \<Rightarrow> 'k \<Rightarrow> 'r option"
    and offer :: "'r \<Rightarrow> 's \<Rightarrow> 's"
    and key :: "'r \<Rightarrow> 'k"
    and ver :: "'r \<Rightarrow> 'v::linorder"
    and admits :: "'s \<Rightarrow> 'k \<Rightarrow> bool"
  assumes get_offer: "get (offer r s) k = (if k = key r \<and> admits s k
      \<and> (case get s k of None \<Rightarrow> True | Some old \<Rightarrow> ver old < ver r) then Some r else get s k)"
    and admits_offer: "admits (offer r s) k = admits s k"
begin

lemma admits_fold: "admits (fold offer rs s) k = admits s k"
  by (induction rs arbitrary: s) (simp_all add: admits_offer)

lemma offer_mono: "get s k = Some old \<Longrightarrow> \<exists>new. get (offer r s) k = Some new \<and> ver old \<le> ver new"
  by (auto simp: get_offer)

lemma fold_mono: "get s k = Some old \<Longrightarrow> \<exists>new. get (fold offer rs s) k = Some new \<and> ver old \<le> ver new"
proof (induction rs arbitrary: s old)
  case (Cons r rs)
  from offer_mono [OF Cons.prems, of r] obtain mid where "get (offer r s) k = Some mid" "ver old \<le> ver mid" by blast
  with Cons.IH [of "offer r s" mid] show ?case by auto
qed simp

lemma fold_origin:
  "get (fold offer rs s) k = Some r \<Longrightarrow> get s k = Some r \<or> r \<in> set rs \<and> key r = k \<and> admits s k"
proof (induction rs arbitrary: s)
  case (Cons r' rs)
  with Cons.IH [of "offer r' s"] have "get (offer r' s) k = Some r \<or> r \<in> set rs \<and> key r = k \<and> admits s k"
    by (simp add: admits_offer)
  then show ?case by (auto simp: get_offer split: if_splits)
qed simp

lemma fold_takes:
  "r \<in> set rs \<Longrightarrow> admits s (key r) \<Longrightarrow> \<exists>new. get (fold offer rs s) (key r) = Some new \<and> ver r \<le> ver new"
proof (induction rs arbitrary: s)
  case (Cons r' rs)
  show ?case
  proof (cases "r = r'")
    case True
    have "\<exists>mid. get (offer r s) (key r) = Some mid \<and> ver r \<le> ver mid"
      using Cons.prems(2) by (auto simp: get_offer split: option.split)
    then obtain mid where mid: "get (offer r s) (key r) = Some mid" "ver r \<le> ver mid" by blast
    from fold_mono [OF mid(1), of rs] mid(2) show ?thesis by (auto simp: True)
  next
    case False
    with Cons show ?thesis by (simp add: admits_offer)
  qed
qed simp

text \<open>The records a replica has seen for a key: what it held, and what it was offered.\<close>

definition seen :: "'r list \<Rightarrow> 's \<Rightarrow> 'k \<Rightarrow> 'r set" where
  "seen rs s k = {r. get s k = Some r \<or> r \<in> set rs \<and> key r = k \<and> admits s k}"

definition one_per_version :: "'r set \<Rightarrow> bool" where
  "one_per_version X \<longleftrightarrow> (\<forall>a \<in> X. \<forall>b \<in> X. key a = key b \<and> ver a = ver b \<longrightarrow> a = b)"

lemma fold_newest:
  assumes "get (fold offer rs s) k = Some m"
  shows "m \<in> seen rs s k \<and> (\<forall>r \<in> seen rs s k. ver r \<le> ver m)"
proof (intro conjI ballI)
  show "m \<in> seen rs s k" using fold_origin [OF assms] by (auto simp: seen_def)
next
  fix r assume "r \<in> seen rs s k"
  then show "ver r \<le> ver m"
    using fold_mono [of s k r rs] fold_takes [of r rs s] assms by (auto simp: seen_def)
qed

lemma fold_None: "get (fold offer rs s) k = None \<longleftrightarrow> seen rs s k = {}"
proof
  assume none: "get (fold offer rs s) k = None"
  show "seen rs s k = {}"
  proof (rule ccontr)
    assume "seen rs s k \<noteq> {}"
    then obtain r where "get s k = Some r \<or> r \<in> set rs \<and> key r = k \<and> admits s k" by (auto simp: seen_def)
    with none fold_mono [of s k r rs] fold_takes [of r rs s] show False by auto
  qed
next
  assume "seen rs s k = {}"
  then show "get (fold offer rs s) k = None"
    using fold_newest [of rs s k] by (cases "get (fold offer rs s) k") auto
qed

text \<open>What a replica ends with depends on what it has seen only, not on the order or the repeats.\<close>

lemma convergence:
  assumes "seen rs s k = seen rs' s' k" and "\<forall>r \<in> seen rs s k. key r = k" and "one_per_version (seen rs s k)"
  shows "get (fold offer rs s) k = get (fold offer rs' s') k"
proof (cases "get (fold offer rs s) k")
  case None
  then show ?thesis using assms(1) fold_None [of rs s k] fold_None [of rs' s' k] by simp
next
  case (Some m)
  then have "get (fold offer rs' s') k \<noteq> None" using assms(1) fold_None [of rs s k] fold_None [of rs' s' k] by simp
  then obtain m' where m': "get (fold offer rs' s') k = Some m'" by blast
  note new = fold_newest [OF Some] fold_newest [OF m']
  then have "m \<in> seen rs s k" "m' \<in> seen rs s k" "ver m = ver m'" using assms(1) by (auto intro: antisym)
  with assms(2,3) have "m = m'" by (auto simp: one_per_version_def)
  with Some m' show ?thesis by simp
qed

end

end
