(* ===== verification/Nostr_Event.thy ===== *)
theory Nostr_Event
  imports Colony_Interfaces
begin

text \<open>
  The data every component reads: Nostr events and filters as the \<open>nostr\<close> crate hands
  them over, the relay's \<open>StoredEvent\<close> wrapper (\<open>buzz-core/src/event.rs\<close>), and the two
  small readers of event tags, \<open>buzz-core/src/event_tags.rs\<close> and
  \<open>buzz-core/src/agent_reply.rs\<close>.

  The \<open>nostr\<close> crate is not part of the repository. Its values enter the model as the
  observations the sources make of them: a tag is the triple of \<open>tag.kind().to_string()\<close>,
  \<open>tag.content()\<close> and \<open>tag.as_slice()\<close>, with no relation assumed between the three; ids
  and public keys are their hex spelling; a kind is its \<open>u16\<close> value.
\<close>

section \<open>Events, tags and filters\<close>

type_synonym uuid = nat
type_synonym community_id = nat
type_synonym kind = nat
type_synonym pubkey = string

record tag =
  tag_kind :: string
  tag_content :: "string option"
  tag_slice :: "string list"

record nevent =
  ev_id :: string
  ev_pubkey :: pubkey
  ev_created_at :: nat
  ev_kind :: kind
  ev_tags :: "tag list"
  ev_content :: string

text \<open>
  \<open>BTreeSet\<close> and \<open>BTreeMap\<close> fields are the sequences their iterators yield; a
  \<open>SingleLetterTag\<close> key is its \<open>to_string()\<close>.
\<close>

record nfilter =
  f_ids :: "string list option"
  f_authors :: "pubkey list option"
  f_kinds :: "kind list option"
  f_since :: "nat option"
  f_until :: "nat option"
  f_generic_tags :: "(string \<times> string list) list"

record StoredEvent =
  se_event :: nevent
  se_received_at :: nat
  se_channel_id :: "uuid option"
  se_verified :: bool

definition StoredEvent_new :: "nat \<Rightarrow> nevent \<Rightarrow> uuid option \<Rightarrow> StoredEvent" where
  "StoredEvent_new now ev ch = \<lparr>se_event = ev, se_received_at = now, se_channel_id = ch, se_verified = False\<rparr>"

definition is_verified :: "StoredEvent \<Rightarrow> bool" where
  "is_verified se = se_verified se"

definition with_received_at :: "nevent \<Rightarrow> nat \<Rightarrow> uuid option \<Rightarrow> bool \<Rightarrow> StoredEvent" where
  "with_received_at ev at ch v = \<lparr>se_event = ev, se_received_at = at, se_channel_id = ch, se_verified = v\<rparr>"

section \<open>Single-valued tags\<close>

datatype TagLookupError = Missing | Duplicate

text \<open>The loop of \<open>optional_tag\<close> over the remaining tags, with \<open>found\<close> so far.\<close>

fun optional_tag_loop :: "string \<Rightarrow> string option \<Rightarrow> tag list \<Rightarrow> TagLookupError + string option" where
  "optional_tag_loop name found [] = Inr found"
| "optional_tag_loop name found (t # ts) =
     (case tag_slice t of
        [] \<Rightarrow> optional_tag_loop name found ts
      | first # rest \<Rightarrow>
         if first \<noteq> name then optional_tag_loop name found ts
         else (case rest of
             [] \<Rightarrow> Inl Missing
           | value # _ \<Rightarrow>
              if found \<noteq> None then Inl Duplicate else optional_tag_loop name (Some value) ts))"

definition optional_tag :: "nevent \<Rightarrow> string \<Rightarrow> TagLookupError + string option" where
  "optional_tag ev name = optional_tag_loop name None (ev_tags ev)"

definition single_tag :: "nevent \<Rightarrow> string \<Rightarrow> TagLookupError + string" where
  "single_tag ev name = and_then (optional_tag ev name) (ok_or Missing)"

text \<open>The values a decision tag of this name carries, in order: what a reader would see.\<close>

definition named_slices :: "string \<Rightarrow> tag list \<Rightarrow> string list list" where
  "named_slices name ts = filter (\<lambda>sl. sl \<noteq> [] \<and> hd sl = name) (map tag_slice ts)"

lemma named_slices_simps [simp]:
  "named_slices name [] = []"
  "named_slices name (t # ts) =
     (if tag_slice t \<noteq> [] \<and> hd (tag_slice t) = name then tag_slice t # named_slices name ts
      else named_slices name ts)"
  by (simp_all add: named_slices_def)

lemma optional_tag_loop_found:
  "optional_tag_loop name (Some v) ts = Inr r \<longleftrightarrow> named_slices name ts = [] \<and> r = Some v"
  by (induction ts) (auto split: list.splits if_splits)

lemma optional_tag_loop_None:
  "optional_tag_loop name None ts = Inr None \<longleftrightarrow> named_slices name ts = []"
  by (induction ts) (auto simp: optional_tag_loop_found split: list.splits if_splits)

lemma optional_tag_loop_Some:
  "optional_tag_loop name None ts = Inr (Some v) \<longleftrightarrow>
     (\<exists>extra. named_slices name ts = [name # v # extra])"
  by (induction ts) (auto simp: optional_tag_loop_found split: list.splits if_splits)

lemma optional_tag_None [res_simps]:
  "optional_tag ev name = Inr None \<longleftrightarrow> named_slices name (ev_tags ev) = []"
  by (simp add: optional_tag_def optional_tag_loop_None)

lemma optional_tag_Some [res_simps]:
  "optional_tag ev name = Inr (Some v) \<longleftrightarrow>
     (\<exists>extra. named_slices name (ev_tags ev) = [name # v # extra])"
  by (simp add: optional_tag_def optional_tag_loop_Some)

lemma single_tag_eq:
  "single_tag ev name = Inr v \<longleftrightarrow> (\<exists>extra. named_slices name (ev_tags ev) = [name # v # extra])"
  by (auto simp: single_tag_def res_simps)

section \<open>Scoped agent replies\<close>

definition AGENT_REPLY_TAG :: string where
  "AGENT_REPLY_TAG = ''agent-reply''"

definition has_agent_reply :: "nevent \<Rightarrow> bool" where
  "has_agent_reply ev \<longleftrightarrow>
     list_ex (\<lambda>t. case tag_slice t of [] \<Rightarrow> False | v # _ \<Rightarrow> v = AGENT_REPLY_TAG) (ev_tags ev)"

record AgentReplyModel =
  ar_target :: pubkey
  ar_model_id :: string

datatype AgentReplyError =
  ReplyNotExactlyOne | ReplyMalformed | ReplyTargetInvalid | ReplyTargetNotLowercase
  | ReplyTargetNotMentioned | ReplyModelInvalid

text \<open>
  \<open>PublicKey::from_hex\<close> is the crate's: the parameter \<open>from_hex\<close> maps a string to the
  canonical hex of the key it parses to, if it parses. The stream-message kind is 9.
\<close>

definition parse_agent_reply_tags ::
  "(string \<Rightarrow> pubkey option) \<Rightarrow> nat \<Rightarrow> string list list \<Rightarrow> AgentReplyError + AgentReplyModel option" where
  "parse_agent_reply_tags from_hex kind tags =
     (case filter (\<lambda>t. t \<noteq> [] \<and> hd t = AGENT_REPLY_TAG) tags of
        [] \<Rightarrow> Inr None
      | t # others \<Rightarrow>
         if others \<noteq> [] \<or> kind \<noteq> 9 then Inl ReplyNotExactlyOne
         else if length t \<noteq> 4 \<or> t ! 1 \<noteq> ''1'' then Inl ReplyMalformed
         else (case from_hex (t ! 2) of
             None \<Rightarrow> Inl ReplyTargetInvalid
           | Some tgt \<Rightarrow>
              if t ! 2 \<noteq> tgt then Inl ReplyTargetNotLowercase
              else if \<not> list_ex (\<lambda>u. u \<noteq> [] \<and> hd u = ''p'' \<and> 2 \<le> length u \<and> u ! 1 = t ! 2) tags
                then Inl ReplyTargetNotMentioned
              else if t ! 3 = [] \<or> 256 < length (t ! 3) \<or> \<not> list_all is_ascii_graphic (t ! 3)
                then Inl ReplyModelInvalid
              else Inr (Some \<lparr>ar_target = tgt, ar_model_id = t ! 3\<rparr>)))"

definition parse_agent_reply ::
  "(string \<Rightarrow> pubkey option) \<Rightarrow> nevent \<Rightarrow> AgentReplyError + AgentReplyModel option" where
  "parse_agent_reply from_hex ev =
     parse_agent_reply_tags from_hex (ev_kind ev) (map tag_slice (ev_tags ev))"

definition model_stays_on_provider :: "string \<Rightarrow> string option \<Rightarrow> bool \<Rightarrow> bool" where
  "model_stays_on_provider mid provider fixed_route =
     (if fixed_route then True
      else case split_once CHR ''/'' mid of
          None \<Rightarrow> True
        | Some (pre, _) \<Rightarrow> (case provider of None \<Rightarrow> False | Some p \<Rightarrow> pre = p))"

lemma reply_slice_iff:
  "(case sl of [] \<Rightarrow> False | v # _ \<Rightarrow> v = n) \<longleftrightarrow> sl \<noteq> [] \<and> hd sl = n"
  by (cases sl) auto

lemma has_agent_reply_iff: "has_agent_reply ev \<longleftrightarrow> named_slices AGENT_REPLY_TAG (ev_tags ev) \<noteq> []"
  by (auto simp: has_agent_reply_def named_slices_def reply_slice_iff list_ex_iff filter_empty_conv)

lemma parse_agent_reply_iff:
  "parse_agent_reply from_hex ev = Inr None \<longleftrightarrow> \<not> has_agent_reply ev"
  by (auto simp: parse_agent_reply_def parse_agent_reply_tags_def has_agent_reply_iff named_slices_def
      split: list.splits option.splits)

end
