(* ===== verification/Kind.thy ===== *)
theory Kind
  imports Nostr_Event
begin

text \<open>
  The registry of event kinds, \<open>buzz-core/src/kind.rs\<close>: one constant per kind, the
  tables that drive read gating, and the classifiers the relay routes on. A \<open>u32\<close> kind
  is a \<open>nat\<close>; the registry is proved to fit the 16 bits of the wire.
\<close>

named_theorems kind_defs \<open>the numeric values of the kind constants\<close>

section \<open>The constants\<close>

definition KIND_PROFILE :: nat where [kind_defs]: "KIND_PROFILE = 0"
definition KIND_TEXT_NOTE :: nat where [kind_defs]: "KIND_TEXT_NOTE = 1"
definition KIND_CONTACT_LIST :: nat where [kind_defs]: "KIND_CONTACT_LIST = 3"
definition KIND_MUTE_LIST :: nat where [kind_defs]: "KIND_MUTE_LIST = 10000"
definition KIND_PIN_LIST :: nat where [kind_defs]: "KIND_PIN_LIST = 10001"
definition KIND_NIP65_RELAY_LIST_METADATA :: nat where [kind_defs]: "KIND_NIP65_RELAY_LIST_METADATA = 10002"
definition KIND_BOOKMARK_LIST :: nat where [kind_defs]: "KIND_BOOKMARK_LIST = 10003"
definition KIND_EMOJI_LIST :: nat where [kind_defs]: "KIND_EMOJI_LIST = 10030"
definition KIND_FOLLOW_SET :: nat where [kind_defs]: "KIND_FOLLOW_SET = 30000"
definition KIND_BOOKMARK_SET :: nat where [kind_defs]: "KIND_BOOKMARK_SET = 30003"
definition KIND_EMOJI_SET :: nat where [kind_defs]: "KIND_EMOJI_SET = 30030"
definition KIND_CHANNEL_METADATA :: nat where [kind_defs]: "KIND_CHANNEL_METADATA = 41"
definition KIND_DELETION :: nat where [kind_defs]: "KIND_DELETION = 5"
definition KIND_REACTION :: nat where [kind_defs]: "KIND_REACTION = 7"
definition KIND_GIFT_WRAP :: nat where [kind_defs]: "KIND_GIFT_WRAP = 1059"
definition KIND_FILE_METADATA :: nat where [kind_defs]: "KIND_FILE_METADATA = 1063"
definition KIND_LONG_FORM :: nat where [kind_defs]: "KIND_LONG_FORM = 30023"
definition KIND_USER_STATUS :: nat where [kind_defs]: "KIND_USER_STATUS = 30315"
definition KIND_READ_STATE :: nat where [kind_defs]: "KIND_READ_STATE = 30078"
definition KIND_AUTH :: nat where [kind_defs]: "KIND_AUTH = 22242"
definition KIND_BLOSSOM_AUTH :: nat where [kind_defs]: "KIND_BLOSSOM_AUTH = 24242"
definition KIND_NOSTR_IDENTITY_BINDING :: nat where [kind_defs]: "KIND_NOSTR_IDENTITY_BINDING = 24243"
definition KIND_HTTP_AUTH :: nat where [kind_defs]: "KIND_HTTP_AUTH = 27235"
definition KIND_AGENT_PROFILE :: nat where [kind_defs]: "KIND_AGENT_PROFILE = 10100"
definition KIND_AGENT_ENGRAM :: nat where [kind_defs]: "KIND_AGENT_ENGRAM = 30174"
definition KIND_EVENT_REMINDER :: nat where [kind_defs]: "KIND_EVENT_REMINDER = 30300"
definition KIND_PUSH_LEASE :: nat where [kind_defs]: "KIND_PUSH_LEASE = 30350"
definition KIND_PRIVATE_MANAGED_AGENT :: nat where [kind_defs]: "KIND_PRIVATE_MANAGED_AGENT = 30194"
definition KIND_PERSONA :: nat where [kind_defs]: "KIND_PERSONA = 30175"
definition KIND_BLOCK_CATALOG_ENTRY :: nat where [kind_defs]: "KIND_BLOCK_CATALOG_ENTRY = 30178"
definition KIND_COMPANY_PROFILE :: nat where [kind_defs]: "KIND_COMPANY_PROFILE = 30179"
definition KIND_INITIATIVE :: nat where [kind_defs]: "KIND_INITIATIVE = 30180"
definition KIND_TASK :: nat where [kind_defs]: "KIND_TASK = 30181"
definition KIND_COHORT :: nat where [kind_defs]: "KIND_COHORT = 30201"
definition KIND_TEMPLATE :: nat where [kind_defs]: "KIND_TEMPLATE = 30202"
definition KIND_PARTY :: nat where [kind_defs]: "KIND_PARTY = 30182"
definition KIND_PARTY_RELATIONSHIP :: nat where [kind_defs]: "KIND_PARTY_RELATIONSHIP = 30183"
definition KIND_PRICE_BOOK :: nat where [kind_defs]: "KIND_PRICE_BOOK = 30184"
definition KIND_ATTRIBUTION_RULEBOOK :: nat where [kind_defs]: "KIND_ATTRIBUTION_RULEBOOK = 30185"
definition KIND_CORRECTION_BOOK :: nat where [kind_defs]: "KIND_CORRECTION_BOOK = 30186"
definition KIND_LEDGER_BUDGET :: nat where [kind_defs]: "KIND_LEDGER_BUDGET = 30187"
definition KIND_PRICE_FEED :: nat where [kind_defs]: "KIND_PRICE_FEED = 30188"
definition KIND_DELEGATION_GRANT :: nat where [kind_defs]: "KIND_DELEGATION_GRANT = 30189"
definition KIND_EMPLOYEE :: nat where [kind_defs]: "KIND_EMPLOYEE = 30190"
definition KIND_JOB_HEAD :: nat where [kind_defs]: "KIND_JOB_HEAD = 30191"
definition KIND_WORKSPACE_TAB_HEAD :: nat where [kind_defs]: "KIND_WORKSPACE_TAB_HEAD = 30192"
definition KIND_BLOCK_ACTION :: nat where [kind_defs]: "KIND_BLOCK_ACTION = 40010"
definition KIND_BLOCK_RECEIPT :: nat where [kind_defs]: "KIND_BLOCK_RECEIPT = 40011"
definition KIND_BLOCK_MANIFEST :: nat where [kind_defs]: "KIND_BLOCK_MANIFEST = 40012"
definition KIND_COMPANY_ACTION :: nat where [kind_defs]: "KIND_COMPANY_ACTION = 40013"
definition KIND_COMPANY_RECEIPT :: nat where [kind_defs]: "KIND_COMPANY_RECEIPT = 40014"
definition KIND_PARTY_ACTION :: nat where [kind_defs]: "KIND_PARTY_ACTION = 40015"
definition KIND_PARTY_RECEIPT :: nat where [kind_defs]: "KIND_PARTY_RECEIPT = 40016"
definition KIND_DISCOVERY_ACTION :: nat where [kind_defs]: "KIND_DISCOVERY_ACTION = 40017"
definition KIND_DISCOVERY_RECEIPT :: nat where [kind_defs]: "KIND_DISCOVERY_RECEIPT = 40018"
definition KIND_DISCOVERY_WORKER_ACTION :: nat where [kind_defs]: "KIND_DISCOVERY_WORKER_ACTION = 40019"
definition KIND_DISCOVERY_WORKER_RECEIPT :: nat where [kind_defs]: "KIND_DISCOVERY_WORKER_RECEIPT = 40020"
definition KIND_DISCOVERY_WORKSPACE_ACTION :: nat where [kind_defs]: "KIND_DISCOVERY_WORKSPACE_ACTION = 40021"
definition KIND_DISCOVERY_WORKSPACE_RECEIPT :: nat where [kind_defs]: "KIND_DISCOVERY_WORKSPACE_RECEIPT = 40022"
definition KIND_WORKSPACE_TAB_ACTION :: nat where [kind_defs]: "KIND_WORKSPACE_TAB_ACTION = 44400"
definition KIND_WORKSPACE_TAB_RECEIPT :: nat where [kind_defs]: "KIND_WORKSPACE_TAB_RECEIPT = 44401"
definition KIND_LEDGER_ACTION :: nat where [kind_defs]: "KIND_LEDGER_ACTION = 40023"
definition KIND_LEDGER_RECEIPT :: nat where [kind_defs]: "KIND_LEDGER_RECEIPT = 40024"
definition KIND_CONTENT_CAMPAIGN :: nat where [kind_defs]: "KIND_CONTENT_CAMPAIGN = 30195"
definition KIND_CONTENT_POST :: nat where [kind_defs]: "KIND_CONTENT_POST = 30196"
definition KIND_CONTENT_STYLE :: nat where [kind_defs]: "KIND_CONTENT_STYLE = 30197"
definition KIND_CONTENT_BRAND_KIT :: nat where [kind_defs]: "KIND_CONTENT_BRAND_KIT = 30198"
definition KIND_CONTENT_LIBRARY :: nat where [kind_defs]: "KIND_CONTENT_LIBRARY = 30199"
definition KIND_ASK_STATE :: nat where [kind_defs]: "KIND_ASK_STATE = 30200"
definition KIND_CONTENT_DECISION :: nat where [kind_defs]: "KIND_CONTENT_DECISION = 40025"
definition KIND_TASK_REPORT :: nat where [kind_defs]: "KIND_TASK_REPORT = 40026"
definition KIND_TEAM :: nat where [kind_defs]: "KIND_TEAM = 30176"
definition KIND_MANAGED_AGENT :: nat where [kind_defs]: "KIND_MANAGED_AGENT = 30177"
definition KIND_TEAM_CATALOG :: nat where [kind_defs]: "KIND_TEAM_CATALOG = 30193"
definition KIND_REPORT :: nat where [kind_defs]: "KIND_REPORT = 1984"
definition KIND_PRODUCT_FEEDBACK :: nat where [kind_defs]: "KIND_PRODUCT_FEEDBACK = 42000"
definition KIND_NIP29_PUT_USER :: nat where [kind_defs]: "KIND_NIP29_PUT_USER = 9000"
definition KIND_NIP29_REMOVE_USER :: nat where [kind_defs]: "KIND_NIP29_REMOVE_USER = 9001"
definition KIND_NIP29_EDIT_METADATA :: nat where [kind_defs]: "KIND_NIP29_EDIT_METADATA = 9002"
definition KIND_NIP29_DELETE_EVENT :: nat where [kind_defs]: "KIND_NIP29_DELETE_EVENT = 9005"
definition KIND_NIP29_CREATE_GROUP :: nat where [kind_defs]: "KIND_NIP29_CREATE_GROUP = 9007"
definition KIND_NIP29_DELETE_GROUP :: nat where [kind_defs]: "KIND_NIP29_DELETE_GROUP = 9008"
definition KIND_NIP29_CREATE_INVITE :: nat where [kind_defs]: "KIND_NIP29_CREATE_INVITE = 9009"
definition KIND_NIP29_JOIN_REQUEST :: nat where [kind_defs]: "KIND_NIP29_JOIN_REQUEST = 9021"
definition KIND_NIP29_LEAVE_REQUEST :: nat where [kind_defs]: "KIND_NIP29_LEAVE_REQUEST = 9022"
definition KIND_MODERATION_BAN :: nat where [kind_defs]: "KIND_MODERATION_BAN = 9040"
definition KIND_MODERATION_UNBAN :: nat where [kind_defs]: "KIND_MODERATION_UNBAN = 9041"
definition KIND_MODERATION_TIMEOUT :: nat where [kind_defs]: "KIND_MODERATION_TIMEOUT = 9042"
definition KIND_MODERATION_UNTIMEOUT :: nat where [kind_defs]: "KIND_MODERATION_UNTIMEOUT = 9043"
definition KIND_MODERATION_RESOLVE_REPORT :: nat where [kind_defs]: "KIND_MODERATION_RESOLVE_REPORT = 9044"
definition RELAY_ADMIN_ADD_MEMBER :: nat where [kind_defs]: "RELAY_ADMIN_ADD_MEMBER = 9030"
definition RELAY_ADMIN_REMOVE_MEMBER :: nat where [kind_defs]: "RELAY_ADMIN_REMOVE_MEMBER = 9031"
definition RELAY_ADMIN_CHANGE_ROLE :: nat where [kind_defs]: "RELAY_ADMIN_CHANGE_ROLE = 9032"
definition RELAY_ADMIN_SET_WORKSPACE_PROFILE :: nat where [kind_defs]: "RELAY_ADMIN_SET_WORKSPACE_PROFILE = 9033"
definition KIND_NIP43_MEMBERSHIP_LIST :: nat where [kind_defs]: "KIND_NIP43_MEMBERSHIP_LIST = 13534"
definition KIND_NIP43_MEMBER_ADDED :: nat where [kind_defs]: "KIND_NIP43_MEMBER_ADDED = 8000"
definition KIND_NIP43_MEMBER_REMOVED :: nat where [kind_defs]: "KIND_NIP43_MEMBER_REMOVED = 8001"
definition KIND_NIP43_LEAVE_REQUEST :: nat where [kind_defs]: "KIND_NIP43_LEAVE_REQUEST = 28936"
definition KIND_HIRE_REQUEST :: nat where [kind_defs]: "KIND_HIRE_REQUEST = 9045"
definition KIND_EMPLOYEE_UPDATE :: nat where [kind_defs]: "KIND_EMPLOYEE_UPDATE = 9046"
definition KIND_IA_ARCHIVE_REQUEST :: nat where [kind_defs]: "KIND_IA_ARCHIVE_REQUEST = 9035"
definition KIND_IA_UNARCHIVE_REQUEST :: nat where [kind_defs]: "KIND_IA_UNARCHIVE_REQUEST = 9036"
definition KIND_IA_ARCHIVED :: nat where [kind_defs]: "KIND_IA_ARCHIVED = 8002"
definition KIND_IA_UNARCHIVED :: nat where [kind_defs]: "KIND_IA_UNARCHIVED = 8003"
definition KIND_IA_ARCHIVED_LIST :: nat where [kind_defs]: "KIND_IA_ARCHIVED_LIST = 13535"
definition KIND_NIP29_GROUP_METADATA :: nat where [kind_defs]: "KIND_NIP29_GROUP_METADATA = 39000"
definition KIND_NIP29_GROUP_ADMINS :: nat where [kind_defs]: "KIND_NIP29_GROUP_ADMINS = 39001"
definition KIND_NIP29_GROUP_MEMBERS :: nat where [kind_defs]: "KIND_NIP29_GROUP_MEMBERS = 39002"
definition KIND_NIP29_GROUP_ROLES :: nat where [kind_defs]: "KIND_NIP29_GROUP_ROLES = 39003"
definition KIND_THREAD_SUMMARY :: nat where [kind_defs]: "KIND_THREAD_SUMMARY = 39005"
definition KIND_WINDOW_BOUNDS :: nat where [kind_defs]: "KIND_WINDOW_BOUNDS = 39006"
definition KIND_WORKFLOW_DEF :: nat where [kind_defs]: "KIND_WORKFLOW_DEF = 30620"
definition KIND_DM_VISIBILITY :: nat where [kind_defs]: "KIND_DM_VISIBILITY = 30622"
definition PARAM_REPLACEABLE_KIND_MIN :: nat where [kind_defs]: "PARAM_REPLACEABLE_KIND_MIN = 30000"
definition PARAM_REPLACEABLE_KIND_MAX :: nat where [kind_defs]: "PARAM_REPLACEABLE_KIND_MAX = 39999"
definition EPHEMERAL_KIND_MIN :: nat where [kind_defs]: "EPHEMERAL_KIND_MIN = 20000"
definition EPHEMERAL_KIND_MAX :: nat where [kind_defs]: "EPHEMERAL_KIND_MAX = 29999"
definition KIND_PRESENCE_UPDATE :: nat where [kind_defs]: "KIND_PRESENCE_UPDATE = 20001"
definition KIND_PAIRING :: nat where [kind_defs]: "KIND_PAIRING = 24134"
definition KIND_TYPING_INDICATOR :: nat where [kind_defs]: "KIND_TYPING_INDICATOR = 20002"
definition KIND_AGENT_OBSERVER_FRAME :: nat where [kind_defs]: "KIND_AGENT_OBSERVER_FRAME = 24200"
definition KIND_HUDDLE_REACTION :: nat where [kind_defs]: "KIND_HUDDLE_REACTION = 24810"
definition KIND_STREAM_MESSAGE :: nat where [kind_defs]: "KIND_STREAM_MESSAGE = 9"
definition KIND_STREAM_MESSAGE_V2 :: nat where [kind_defs]: "KIND_STREAM_MESSAGE_V2 = 40002"
definition KIND_STREAM_MESSAGE_EDIT :: nat where [kind_defs]: "KIND_STREAM_MESSAGE_EDIT = 40003"
definition KIND_STREAM_MESSAGE_PINNED :: nat where [kind_defs]: "KIND_STREAM_MESSAGE_PINNED = 40004"
definition KIND_STREAM_MESSAGE_BOOKMARKED :: nat where [kind_defs]: "KIND_STREAM_MESSAGE_BOOKMARKED = 40005"
definition KIND_STREAM_MESSAGE_SCHEDULED :: nat where [kind_defs]: "KIND_STREAM_MESSAGE_SCHEDULED = 40006"
definition KIND_STREAM_REMINDER :: nat where [kind_defs]: "KIND_STREAM_REMINDER = 40007"
definition KIND_STREAM_MESSAGE_DIFF :: nat where [kind_defs]: "KIND_STREAM_MESSAGE_DIFF = 40008"
definition KIND_CANVAS :: nat where [kind_defs]: "KIND_CANVAS = 40100"
definition KIND_SYSTEM_MESSAGE :: nat where [kind_defs]: "KIND_SYSTEM_MESSAGE = 40099"
definition KIND_CHANNEL_SUMMARY :: nat where [kind_defs]: "KIND_CHANNEL_SUMMARY = 40901"
definition KIND_PRESENCE_SNAPSHOT :: nat where [kind_defs]: "KIND_PRESENCE_SNAPSHOT = 40902"
definition KIND_DM_OPEN :: nat where [kind_defs]: "KIND_DM_OPEN = 41010"
definition KIND_DM_ADD_MEMBER :: nat where [kind_defs]: "KIND_DM_ADD_MEMBER = 41011"
definition KIND_DM_HIDE :: nat where [kind_defs]: "KIND_DM_HIDE = 41012"
definition KIND_DM_CREATED :: nat where [kind_defs]: "KIND_DM_CREATED = 41001"
definition KIND_JOB_REQUEST :: nat where [kind_defs]: "KIND_JOB_REQUEST = 43001"
definition KIND_JOB_ACCEPTED :: nat where [kind_defs]: "KIND_JOB_ACCEPTED = 43002"
definition KIND_JOB_PROGRESS :: nat where [kind_defs]: "KIND_JOB_PROGRESS = 43003"
definition KIND_JOB_RESULT :: nat where [kind_defs]: "KIND_JOB_RESULT = 43004"
definition KIND_JOB_CANCEL :: nat where [kind_defs]: "KIND_JOB_CANCEL = 43005"
definition KIND_JOB_ERROR :: nat where [kind_defs]: "KIND_JOB_ERROR = 43006"
definition KIND_JOB_FILING :: nat where [kind_defs]: "KIND_JOB_FILING = 43010"
definition KIND_JOB_CLAIM :: nat where [kind_defs]: "KIND_JOB_CLAIM = 43011"
definition KIND_JOB_HEARTBEAT :: nat where [kind_defs]: "KIND_JOB_HEARTBEAT = 43012"
definition KIND_JOB_OUTCOME :: nat where [kind_defs]: "KIND_JOB_OUTCOME = 43013"
definition KIND_JOB_CHECKPOINT :: nat where [kind_defs]: "KIND_JOB_CHECKPOINT = 43014"
definition KIND_MEMBER_ADDED_NOTIFICATION :: nat where [kind_defs]: "KIND_MEMBER_ADDED_NOTIFICATION = 44100"
definition KIND_MEMBER_REMOVED_NOTIFICATION :: nat where [kind_defs]: "KIND_MEMBER_REMOVED_NOTIFICATION = 44101"
definition KIND_AGENT_TURN_METRIC :: nat where [kind_defs]: "KIND_AGENT_TURN_METRIC = 44200"
definition KIND_USAGE_RECORD :: nat where [kind_defs]: "KIND_USAGE_RECORD = 44210"
definition KIND_ASK :: nat where [kind_defs]: "KIND_ASK = 44300"
definition KIND_ASK_RESOLUTION :: nat where [kind_defs]: "KIND_ASK_RESOLUTION = 44301"
definition KIND_ASK_WITHDRAWAL :: nat where [kind_defs]: "KIND_ASK_WITHDRAWAL = 44302"
definition KIND_DECISION_LOG :: nat where [kind_defs]: "KIND_DECISION_LOG = 44303"
definition KIND_FORUM_POST :: nat where [kind_defs]: "KIND_FORUM_POST = 45001"
definition KIND_FORUM_VOTE :: nat where [kind_defs]: "KIND_FORUM_VOTE = 45002"
definition KIND_FORUM_COMMENT :: nat where [kind_defs]: "KIND_FORUM_COMMENT = 45003"
definition KIND_WORKFLOW_TRIGGER :: nat where [kind_defs]: "KIND_WORKFLOW_TRIGGER = 46020"
definition KIND_APPROVAL_GRANT :: nat where [kind_defs]: "KIND_APPROVAL_GRANT = 46030"
definition KIND_APPROVAL_DENY :: nat where [kind_defs]: "KIND_APPROVAL_DENY = 46031"
definition KIND_WORKFLOW_TRIGGERED :: nat where [kind_defs]: "KIND_WORKFLOW_TRIGGERED = 46001"
definition KIND_WORKFLOW_STEP_STARTED :: nat where [kind_defs]: "KIND_WORKFLOW_STEP_STARTED = 46002"
definition KIND_WORKFLOW_STEP_COMPLETED :: nat where [kind_defs]: "KIND_WORKFLOW_STEP_COMPLETED = 46003"
definition KIND_WORKFLOW_STEP_FAILED :: nat where [kind_defs]: "KIND_WORKFLOW_STEP_FAILED = 46004"
definition KIND_WORKFLOW_COMPLETED :: nat where [kind_defs]: "KIND_WORKFLOW_COMPLETED = 46005"
definition KIND_WORKFLOW_FAILED :: nat where [kind_defs]: "KIND_WORKFLOW_FAILED = 46006"
definition KIND_WORKFLOW_CANCELLED :: nat where [kind_defs]: "KIND_WORKFLOW_CANCELLED = 46007"
definition KIND_WORKFLOW_APPROVAL_REQUESTED :: nat where [kind_defs]: "KIND_WORKFLOW_APPROVAL_REQUESTED = 46010"
definition KIND_WORKFLOW_APPROVAL_GRANTED :: nat where [kind_defs]: "KIND_WORKFLOW_APPROVAL_GRANTED = 46011"
definition KIND_WORKFLOW_APPROVAL_DENIED :: nat where [kind_defs]: "KIND_WORKFLOW_APPROVAL_DENIED = 46012"
definition KIND_AUDIT_ENTRY :: nat where [kind_defs]: "KIND_AUDIT_ENTRY = 48001"
definition KIND_HUDDLE_STARTED :: nat where [kind_defs]: "KIND_HUDDLE_STARTED = 48100"
definition KIND_HUDDLE_PARTICIPANT_JOINED :: nat where [kind_defs]: "KIND_HUDDLE_PARTICIPANT_JOINED = 48101"
definition KIND_HUDDLE_PARTICIPANT_LEFT :: nat where [kind_defs]: "KIND_HUDDLE_PARTICIPANT_LEFT = 48102"
definition KIND_HUDDLE_ENDED :: nat where [kind_defs]: "KIND_HUDDLE_ENDED = 48103"
definition KIND_HUDDLE_GUIDELINES :: nat where [kind_defs]: "KIND_HUDDLE_GUIDELINES = 48106"
definition KIND_MEDIA_UPLOAD :: nat where [kind_defs]: "KIND_MEDIA_UPLOAD = 49001"
definition KIND_GIT_REPO_ANNOUNCEMENT :: nat where [kind_defs]: "KIND_GIT_REPO_ANNOUNCEMENT = 30617"
definition KIND_GIT_REPO_STATE :: nat where [kind_defs]: "KIND_GIT_REPO_STATE = 30618"
definition KIND_GIT_PATCH :: nat where [kind_defs]: "KIND_GIT_PATCH = 1617"
definition KIND_GIT_PULL_REQUEST :: nat where [kind_defs]: "KIND_GIT_PULL_REQUEST = 1618"
definition KIND_GIT_PR_UPDATE :: nat where [kind_defs]: "KIND_GIT_PR_UPDATE = 1619"
definition KIND_GIT_ISSUE :: nat where [kind_defs]: "KIND_GIT_ISSUE = 1621"
definition KIND_GIT_STATUS_OPEN :: nat where [kind_defs]: "KIND_GIT_STATUS_OPEN = 1630"
definition KIND_GIT_STATUS_MERGED :: nat where [kind_defs]: "KIND_GIT_STATUS_MERGED = 1631"
definition KIND_GIT_STATUS_CLOSED :: nat where [kind_defs]: "KIND_GIT_STATUS_CLOSED = 1632"
definition KIND_GIT_STATUS_DRAFT :: nat where [kind_defs]: "KIND_GIT_STATUS_DRAFT = 1633"
definition KIND_PROJECT :: nat where [kind_defs]: "KIND_PROJECT = 30621"

section \<open>Tables\<close>

definition AUTHOR_ONLY_KINDS :: "nat list" where
  "AUTHOR_ONLY_KINDS = [
     KIND_EVENT_REMINDER, KIND_PUSH_LEASE, KIND_PRIVATE_MANAGED_AGENT, KIND_DISCOVERY_ACTION,
     KIND_DISCOVERY_WORKER_ACTION, KIND_DISCOVERY_WORKSPACE_ACTION]"

definition RESULT_GATED_KINDS :: "nat list" where
  "RESULT_GATED_KINDS = [
     KIND_DM_VISIBILITY, KIND_AGENT_TURN_METRIC, KIND_USAGE_RECORD, KIND_DISCOVERY_RECEIPT,
     KIND_DISCOVERY_WORKER_RECEIPT, KIND_DISCOVERY_WORKSPACE_RECEIPT]"

definition P_GATED_KINDS :: "nat list" where
  "P_GATED_KINDS = [
     KIND_AGENT_OBSERVER_FRAME, KIND_MEMBER_ADDED_NOTIFICATION, KIND_MEMBER_REMOVED_NOTIFICATION,
     KIND_GIFT_WRAP, KIND_DM_VISIBILITY, KIND_DISCOVERY_RECEIPT, KIND_DISCOVERY_WORKER_RECEIPT,
     KIND_DISCOVERY_WORKSPACE_RECEIPT, KIND_AGENT_TURN_METRIC, KIND_USAGE_RECORD]"

definition SHARED_GATED_KINDS :: "nat list" where
  "SHARED_GATED_KINDS = [
     KIND_PERSONA, KIND_TEAM_CATALOG]"

definition ALL_KINDS :: "nat list" where
  "ALL_KINDS = [
     KIND_PROFILE, KIND_TEXT_NOTE, KIND_CONTACT_LIST, KIND_MUTE_LIST, KIND_PIN_LIST,
     KIND_NIP65_RELAY_LIST_METADATA, KIND_BOOKMARK_LIST, KIND_EMOJI_LIST, KIND_FOLLOW_SET,
     KIND_BOOKMARK_SET, KIND_EMOJI_SET, KIND_CHANNEL_METADATA, KIND_DELETION, KIND_REACTION,
     KIND_GIFT_WRAP, KIND_FILE_METADATA, KIND_AGENT_PROFILE, KIND_AGENT_ENGRAM,
     KIND_EVENT_REMINDER, KIND_PERSONA, KIND_BLOCK_CATALOG_ENTRY, KIND_COMPANY_PROFILE,
     KIND_INITIATIVE, KIND_TASK, KIND_COHORT, KIND_TEMPLATE, KIND_BLOCK_ACTION, KIND_BLOCK_RECEIPT,
     KIND_BLOCK_MANIFEST, KIND_COMPANY_ACTION, KIND_COMPANY_RECEIPT, KIND_PARTY,
     KIND_PARTY_RELATIONSHIP, KIND_PARTY_ACTION, KIND_PARTY_RECEIPT, KIND_DISCOVERY_ACTION,
     KIND_DISCOVERY_RECEIPT, KIND_DISCOVERY_WORKER_ACTION, KIND_DISCOVERY_WORKER_RECEIPT,
     KIND_DISCOVERY_WORKSPACE_ACTION, KIND_DISCOVERY_WORKSPACE_RECEIPT, KIND_WORKSPACE_TAB_ACTION,
     KIND_WORKSPACE_TAB_RECEIPT, KIND_PRICE_BOOK, KIND_ATTRIBUTION_RULEBOOK, KIND_CORRECTION_BOOK,
     KIND_LEDGER_BUDGET, KIND_DELEGATION_GRANT, KIND_HIRE_REQUEST, KIND_EMPLOYEE,
     KIND_EMPLOYEE_UPDATE, KIND_JOB_HEAD, KIND_WORKSPACE_TAB_HEAD, KIND_JOB_FILING, KIND_JOB_CLAIM,
     KIND_JOB_HEARTBEAT, KIND_JOB_OUTCOME, KIND_JOB_CHECKPOINT, KIND_LEDGER_ACTION,
     KIND_LEDGER_RECEIPT, KIND_CONTENT_CAMPAIGN, KIND_CONTENT_POST, KIND_CONTENT_STYLE,
     KIND_CONTENT_BRAND_KIT, KIND_CONTENT_LIBRARY, KIND_ASK_STATE, KIND_CONTENT_DECISION,
     KIND_TASK_REPORT, KIND_TEAM, KIND_MANAGED_AGENT, KIND_TEAM_CATALOG,
     KIND_PRIVATE_MANAGED_AGENT, KIND_REPORT, KIND_PRODUCT_FEEDBACK, KIND_NIP29_PUT_USER,
     KIND_NIP29_REMOVE_USER, KIND_NIP29_EDIT_METADATA, KIND_NIP29_DELETE_EVENT,
     KIND_NIP29_CREATE_GROUP, KIND_NIP29_DELETE_GROUP, KIND_NIP29_CREATE_INVITE,
     KIND_NIP29_JOIN_REQUEST, KIND_NIP29_LEAVE_REQUEST, KIND_MODERATION_BAN, KIND_MODERATION_UNBAN,
     KIND_MODERATION_TIMEOUT, KIND_MODERATION_UNTIMEOUT, KIND_MODERATION_RESOLVE_REPORT,
     RELAY_ADMIN_ADD_MEMBER, RELAY_ADMIN_REMOVE_MEMBER, RELAY_ADMIN_CHANGE_ROLE,
     RELAY_ADMIN_SET_WORKSPACE_PROFILE, KIND_NIP43_MEMBERSHIP_LIST, KIND_NIP43_MEMBER_ADDED,
     KIND_NIP43_MEMBER_REMOVED, KIND_NIP43_LEAVE_REQUEST, KIND_IA_ARCHIVE_REQUEST,
     KIND_IA_UNARCHIVE_REQUEST, KIND_IA_ARCHIVED, KIND_IA_UNARCHIVED, KIND_IA_ARCHIVED_LIST,
     KIND_NIP29_GROUP_METADATA, KIND_NIP29_GROUP_ADMINS, KIND_NIP29_GROUP_MEMBERS,
     KIND_NIP29_GROUP_ROLES, KIND_THREAD_SUMMARY, KIND_WINDOW_BOUNDS, KIND_PRESENCE_UPDATE,
     KIND_TYPING_INDICATOR, KIND_HUDDLE_REACTION, KIND_BLOSSOM_AUTH, KIND_PAIRING,
     KIND_AGENT_OBSERVER_FRAME, KIND_HTTP_AUTH, KIND_STREAM_MESSAGE, KIND_STREAM_MESSAGE_V2,
     KIND_STREAM_MESSAGE_EDIT, KIND_STREAM_MESSAGE_PINNED, KIND_STREAM_MESSAGE_BOOKMARKED,
     KIND_STREAM_MESSAGE_SCHEDULED, KIND_STREAM_REMINDER, KIND_STREAM_MESSAGE_DIFF, KIND_CANVAS,
     KIND_SYSTEM_MESSAGE, KIND_CHANNEL_SUMMARY, KIND_PRESENCE_SNAPSHOT, KIND_DM_VISIBILITY,
     KIND_DM_OPEN, KIND_DM_ADD_MEMBER, KIND_DM_HIDE, KIND_DM_CREATED, KIND_JOB_REQUEST,
     KIND_JOB_ACCEPTED, KIND_JOB_PROGRESS, KIND_JOB_RESULT, KIND_JOB_CANCEL, KIND_JOB_ERROR,
     KIND_MEMBER_ADDED_NOTIFICATION, KIND_MEMBER_REMOVED_NOTIFICATION, KIND_AGENT_TURN_METRIC,
     KIND_USAGE_RECORD, KIND_ASK, KIND_ASK_RESOLUTION, KIND_ASK_WITHDRAWAL, KIND_DECISION_LOG,
     KIND_WORKFLOW_DEF, KIND_LONG_FORM, KIND_USER_STATUS, KIND_READ_STATE, KIND_FORUM_POST,
     KIND_FORUM_VOTE, KIND_FORUM_COMMENT, KIND_WORKFLOW_TRIGGER, KIND_APPROVAL_GRANT,
     KIND_APPROVAL_DENY, KIND_WORKFLOW_TRIGGERED, KIND_WORKFLOW_STEP_STARTED,
     KIND_WORKFLOW_STEP_COMPLETED, KIND_WORKFLOW_STEP_FAILED, KIND_WORKFLOW_COMPLETED,
     KIND_WORKFLOW_FAILED, KIND_WORKFLOW_CANCELLED, KIND_WORKFLOW_APPROVAL_REQUESTED,
     KIND_WORKFLOW_APPROVAL_GRANTED, KIND_WORKFLOW_APPROVAL_DENIED, KIND_AUDIT_ENTRY,
     KIND_HUDDLE_STARTED, KIND_HUDDLE_PARTICIPANT_JOINED, KIND_HUDDLE_PARTICIPANT_LEFT,
     KIND_HUDDLE_ENDED, KIND_HUDDLE_GUIDELINES, KIND_MEDIA_UPLOAD, KIND_GIT_REPO_ANNOUNCEMENT,
     KIND_GIT_REPO_STATE, KIND_GIT_PATCH, KIND_GIT_PULL_REQUEST, KIND_GIT_PR_UPDATE,
     KIND_GIT_ISSUE, KIND_GIT_STATUS_OPEN, KIND_GIT_STATUS_MERGED, KIND_GIT_STATUS_CLOSED,
     KIND_GIT_STATUS_DRAFT, KIND_PROJECT]"

section \<open>Classifiers\<close>

definition is_ephemeral :: "nat \<Rightarrow> bool" where
  "is_ephemeral k \<longleftrightarrow> EPHEMERAL_KIND_MIN \<le> k \<and> k \<le> EPHEMERAL_KIND_MAX"

definition is_replaceable :: "nat \<Rightarrow> bool" where
  "is_replaceable k \<longleftrightarrow> k = 0 \<or> k = 3 \<or> k = KIND_CHANNEL_METADATA \<or> (10000 \<le> k \<and> k \<le> 19999)"

definition is_parameterized_replaceable :: "nat \<Rightarrow> bool" where
  "is_parameterized_replaceable k \<longleftrightarrow> PARAM_REPLACEABLE_KIND_MIN \<le> k \<and> k \<le> PARAM_REPLACEABLE_KIND_MAX"

definition is_workflow_execution_kind :: "nat \<Rightarrow> bool" where
  "is_workflow_execution_kind k \<longleftrightarrow> KIND_WORKFLOW_TRIGGERED \<le> k \<and> k \<le> KIND_WORKFLOW_APPROVAL_DENIED"

definition is_moderation_command_kind :: "nat \<Rightarrow> bool" where
  "is_moderation_command_kind k \<longleftrightarrow> k \<in> set [
     KIND_MODERATION_BAN, KIND_MODERATION_UNBAN, KIND_MODERATION_TIMEOUT,
     KIND_MODERATION_UNTIMEOUT, KIND_MODERATION_RESOLVE_REPORT]"

definition is_relay_admin_kind :: "nat \<Rightarrow> bool" where
  "is_relay_admin_kind k \<longleftrightarrow> k \<in> set [
     RELAY_ADMIN_ADD_MEMBER, RELAY_ADMIN_REMOVE_MEMBER, RELAY_ADMIN_CHANGE_ROLE,
     RELAY_ADMIN_SET_WORKSPACE_PROFILE]"

definition is_identity_archive_request_kind :: "nat \<Rightarrow> bool" where
  "is_identity_archive_request_kind k \<longleftrightarrow> k \<in> set [
     KIND_IA_ARCHIVE_REQUEST, KIND_IA_UNARCHIVE_REQUEST]"

definition is_command_kind :: "nat \<Rightarrow> bool" where
  "is_command_kind k \<longleftrightarrow> k \<in> set [
     KIND_WORKFLOW_DEF, KIND_DM_OPEN, KIND_DM_ADD_MEMBER, KIND_DM_HIDE, KIND_WORKFLOW_TRIGGER,
     KIND_APPROVAL_GRANT, KIND_APPROVAL_DENY, KIND_COMPANY_ACTION, KIND_PARTY_ACTION,
     KIND_LEDGER_ACTION, KIND_DISCOVERY_ACTION, KIND_DISCOVERY_WORKER_ACTION,
     KIND_DISCOVERY_WORKSPACE_ACTION, KIND_WORKSPACE_TAB_ACTION]"

definition is_relay_only_kind :: "nat \<Rightarrow> bool" where
  "is_relay_only_kind k \<longleftrightarrow> k \<in> set [
     KIND_NIP43_MEMBERSHIP_LIST, KIND_CHANNEL_SUMMARY, KIND_PRESENCE_SNAPSHOT, KIND_DM_VISIBILITY,
     KIND_THREAD_SUMMARY, KIND_WINDOW_BOUNDS, KIND_BLOCK_CATALOG_ENTRY, KIND_COMPANY_PROFILE,
     KIND_INITIATIVE, KIND_TASK, KIND_COHORT, KIND_TEMPLATE, KIND_COMPANY_RECEIPT, KIND_PARTY,
     KIND_PARTY_RELATIONSHIP, KIND_PARTY_RECEIPT, KIND_LEDGER_RECEIPT, KIND_PRICE_BOOK,
     KIND_ATTRIBUTION_RULEBOOK, KIND_CORRECTION_BOOK, KIND_LEDGER_BUDGET, KIND_DISCOVERY_RECEIPT,
     KIND_DISCOVERY_WORKER_RECEIPT, KIND_DISCOVERY_WORKSPACE_RECEIPT, KIND_WORKSPACE_TAB_RECEIPT,
     KIND_WORKSPACE_TAB_HEAD, KIND_ASK_STATE]"

definition is_shared_gated_kind :: "nat \<Rightarrow> bool" where
  "is_shared_gated_kind k \<longleftrightarrow> k \<in> set SHARED_GATED_KINDS"

definition event_kind_u32 :: "nevent \<Rightarrow> nat" where
  "event_kind_u32 ev = ev_kind ev"

definition event_kind_i32 :: "nevent \<Rightarrow> int" where
  "event_kind_i32 ev = int (ev_kind ev)"

text \<open>The loop of \<open>event_is_shared\<close>: the running count, \<open>None\<close> for an early \<open>return false\<close>.\<close>

fun shared_count :: "nat \<Rightarrow> tag list \<Rightarrow> nat option" where
  "shared_count n [] = Some n"
| "shared_count n (t # ts) =
     (if length (tag_slice t) = 2 \<and> tag_slice t ! 0 = ''shared'' then
        (if tag_slice t ! 1 \<noteq> ''true'' then None else shared_count (n + 1) ts)
      else if tag_slice t \<noteq> [] \<and> tag_slice t ! 0 = ''shared'' then None
      else shared_count n ts)"

definition event_is_shared :: "nevent \<Rightarrow> bool" where
  "event_is_shared ev \<longleftrightarrow> shared_count 0 (ev_tags ev) = Some 1"

text \<open>\<open>pubkey.to_bytes()\<close> and the requester's bytes are compared as their hex.\<close>

definition is_unshared_gated_event :: "nevent \<Rightarrow> pubkey \<Rightarrow> bool" where
  "is_unshared_gated_event ev requester =
     (if \<not> is_shared_gated_kind (event_kind_u32 ev) then False
      else if ev_pubkey ev = requester then False
      else \<not> event_is_shared ev)"

section \<open>Facts about the registry\<close>

lemma shared_count_Cons:
  "shared_count n (t # ts) =
     (if tag_slice t \<noteq> [] \<and> hd (tag_slice t) = ''shared''
      then (if tag_slice t = [''shared'', ''true''] then shared_count (n + 1) ts else None)
      else shared_count n ts)"
proof -
  consider "tag_slice t = []" | a where "tag_slice t = [a]" | a b where "tag_slice t = [a, b]"
    | a b c cs where "tag_slice t = a # b # c # cs"
    by (metis list.exhaust)
  then show ?thesis by cases simp_all
qed

declare shared_count.simps(2) [simp del]

lemma Cons_replicate_iff: "x # xs = replicate k x \<longleftrightarrow> 0 < k \<and> xs = replicate (k - 1) x"
  by (cases k) auto

lemma Cons_replicate_other: "y \<noteq> x \<Longrightarrow> y # xs \<noteq> replicate k x"
  by (cases k) auto

lemma shared_count_eq:
  "shared_count n ts = Some m \<longleftrightarrow>
     named_slices ''shared'' ts = replicate (m - n) [''shared'', ''true''] \<and> n \<le> m"
proof (induction ts arbitrary: n)
  case Nil
  then show ?case by auto
next
  case (Cons t ts)
  define S where "S = [''shared'', ''true'']"
  have IH: "shared_count n ts = Some m \<longleftrightarrow> named_slices ''shared'' ts = replicate (m - n) S \<and> n \<le> m" for n
    unfolding S_def by (rule Cons.IH)
  show ?case
    unfolding shared_count_Cons named_slices_simps S_def [symmetric]
    using IH [of n] IH [of "n + 1"] by (auto simp: Cons_replicate_iff Cons_replicate_other)
qed

text \<open>
  The registry has no collision: the 183 registered kinds are pairwise different, and
  each fits the 16-bit kind of a Nostr event.
\<close>

theorem all_kinds_distinct_u16:
  "distinct ALL_KINDS \<and> list_all (\<lambda>k. k < 2 ^ 16) ALL_KINDS \<and> length ALL_KINDS = 183"
  by (simp add: ALL_KINDS_def kind_defs)

text \<open>
  The storage classes never overlap: no kind is at once ephemeral and replaceable,
  ephemeral and parameterized-replaceable, or plainly and parameterized replaceable, and
  no kind is both a client command and relay-only.
\<close>

theorem kind_classes_exclusive:
  "\<not> (is_ephemeral k \<and> is_replaceable k)
   \<and> \<not> (is_ephemeral k \<and> is_parameterized_replaceable k)
   \<and> \<not> (is_replaceable k \<and> is_parameterized_replaceable k)
   \<and> \<not> (is_command_kind k \<and> is_relay_only_kind k)"
proof (intro conjI)
  show "\<not> (is_command_kind k \<and> is_relay_only_kind k)"
    unfolding is_command_kind_def is_relay_only_kind_def kind_defs by auto
qed (auto simp: is_ephemeral_def is_replaceable_def is_parameterized_replaceable_def kind_defs)

text \<open>
  The shared-tag gate opens for a foreign reader exactly when the tags named
  \<open>shared\<close> are one tag, and that tag is \<open>["shared", "true"]\<close>; the author always reads.
\<close>

theorem unshared_gate_exact:
  "is_unshared_gated_event ev reader \<longleftrightarrow>
     ev_kind ev \<in> {KIND_PERSONA, KIND_TEAM_CATALOG} \<and> reader \<noteq> ev_pubkey ev
     \<and> named_slices ''shared'' (ev_tags ev) \<noteq> [[''shared'', ''true'']]"
proof -
  have "event_is_shared ev \<longleftrightarrow> named_slices ''shared'' (ev_tags ev) = [[''shared'', ''true'']]"
    unfolding event_is_shared_def shared_count_eq by (simp del: named_slices_simps)
  then show ?thesis
    by (auto simp: is_unshared_gated_event_def is_shared_gated_kind_def SHARED_GATED_KINDS_def
        event_kind_u32_def)
qed

end
