(* ===== verification/Event_Filter.thy ===== *)
theory Event_Filter
  imports Kind
begin

text \<open>
  NIP-01 filter matching and the result-level read gate, \<open>buzz-core/src/filter.rs\<close>.
  \<open>Uuid::to_string\<close> belongs to the \<open>uuid\<close> crate and is the parameter \<open>uuid_str\<close>.
\<close>

section \<open>The matcher\<close>

definition tag_values :: "string \<Rightarrow> nevent \<Rightarrow> string list" where
  "tag_values key ev =
     List.map_filter tag_content (filter (\<lambda>t. tag_kind t = key) (ev_tags ev))"

definition has_tag_kind :: "string \<Rightarrow> nevent \<Rightarrow> bool" where
  "has_tag_kind key ev \<longleftrightarrow> list_ex (\<lambda>t. tag_kind t = key) (ev_tags ev)"

text \<open>One round of the loop over \<open>f.generic_tags\<close>; \<open>False\<close> is the early \<open>return false\<close>.\<close>

definition generic_tag_ok :: "(uuid \<Rightarrow> string) \<Rightarrow> StoredEvent \<Rightarrow> string \<times> string list \<Rightarrow> bool" where
  "generic_tag_ok uuid_str se kv =
     (let key = fst kv; vals = snd kv;
          has_match = list_ex (\<lambda>v. v \<in> set (tag_values key (se_event se))) vals
      in if \<not> has_match \<and> key = ''h'' then
           (if \<not> has_tag_kind ''h'' (se_event se) then
              (case se_channel_id se of
                 Some ch \<Rightarrow> list_ex (\<lambda>v. v = uuid_str ch) vals
               | None \<Rightarrow> False)
            else False)
         else if \<not> has_match then False
         else True)"

definition filter_match_one :: "(uuid \<Rightarrow> string) \<Rightarrow> nfilter \<Rightarrow> StoredEvent \<Rightarrow> bool" where
  "filter_match_one uuid_str f se =
     (let ev = se_event se in
      if (case f_kinds f of None \<Rightarrow> False | Some ks \<Rightarrow> ev_kind ev \<notin> set ks) then False
      else if ev_kind ev = KIND_CANVAS
              \<and> (case f_kinds f of None \<Rightarrow> False | Some ks \<Rightarrow> KIND_CANVAS \<in> set ks)
              \<and> ''e'' \<notin> fst ` set (f_generic_tags f)
              \<and> has_tag_kind ''e'' ev then False
      else if (case f_authors f of None \<Rightarrow> False | Some as \<Rightarrow> ev_pubkey ev \<notin> set as) then False
      else if (case f_since f of None \<Rightarrow> False | Some t \<Rightarrow> ev_created_at ev < t) then False
      else if (case f_until f of None \<Rightarrow> False | Some t \<Rightarrow> t < ev_created_at ev) then False
      else if (case f_ids f of None \<Rightarrow> False
               | Some ids \<Rightarrow> \<not> list_ex (\<lambda>i. starts_with (ev_id ev) i) ids) then False
      else list_all (generic_tag_ok uuid_str se) (f_generic_tags f))"

definition filters_match :: "(uuid \<Rightarrow> string) \<Rightarrow> nfilter list \<Rightarrow> StoredEvent \<Rightarrow> bool" where
  "filters_match uuid_str fs se \<longleftrightarrow> list_ex (\<lambda>f. filter_match_one uuid_str f se) fs"

section \<open>The result-level read gate\<close>

definition reader_authorized_for_event :: "nevent \<Rightarrow> pubkey \<Rightarrow> bool" where
  "reader_authorized_for_event ev reader =
     (let kind = event_kind_u32 ev in
      if kind \<notin> set RESULT_GATED_KINDS then True
      else if kind = KIND_USAGE_RECORD \<and> ev_pubkey ev = reader then True
      else list_ex (\<lambda>t. tag_content t = Some reader) (filter (\<lambda>t. tag_kind t = ''p'') (ev_tags ev)))"

section \<open>What a match says\<close>

lemma tag_values_mem:
  "v \<in> set (tag_values key ev) \<longleftrightarrow>
     (\<exists>t \<in> set (ev_tags ev). tag_kind t = key \<and> tag_content t = Some v)"
  by (force simp: tag_values_def List.map_filter_def)

lemma filter_match_kind:
  "filter_match_one u f se \<Longrightarrow> f_kinds f = Some ks \<Longrightarrow> ev_kind (se_event se) \<in> set ks"
  by (auto simp: filter_match_one_def Let_def split: if_splits)

lemma filter_match_tag:
  assumes "filter_match_one u f se" and "(key, vals) \<in> set (f_generic_tags f)" and "key \<noteq> ''h''"
  shows "\<exists>v \<in> set vals. v \<in> set (tag_values key (se_event se))"
proof -
  have "generic_tag_ok u se (key, vals)"
    using assms(1,2) by (auto simp: filter_match_one_def Let_def list_all_iff split: if_splits)
  then show ?thesis using assms(3)
    by (auto simp: generic_tag_ok_def Let_def list_ex_iff split: if_splits)
qed

lemma filters_match_Cons:
  "filters_match u (f # fs) se \<longleftrightarrow> filter_match_one u f se \<or> filters_match u fs se"
  by (simp add: filters_match_def)

text \<open>
  A filter matches exactly when every constraint it sets holds, an unset one being no
  constraint: kind, author, time window and id prefix, and for each tag key a value in
  common with the event, where \<open>#h\<close> falls back to the relay-assigned channel only for an
  event with no \<open>h\<close> tag at all. A thread-scoped canvas additionally needs a filter that
  is kindless or names \<open>#e\<close>.
\<close>

theorem filter_match_spec:
  "filter_match_one uuid_str f se \<longleftrightarrow>
     pred_option (\<lambda>ks. ev_kind (se_event se) \<in> set ks) (f_kinds f)
   \<and> pred_option (\<lambda>as. ev_pubkey (se_event se) \<in> set as) (f_authors f)
   \<and> pred_option (\<lambda>t. t \<le> ev_created_at (se_event se)) (f_since f)
   \<and> pred_option (\<lambda>t. ev_created_at (se_event se) \<le> t) (f_until f)
   \<and> pred_option (list_ex (\<lambda>i. prefix i (ev_id (se_event se)))) (f_ids f)
   \<and> list_all (\<lambda>(key, vals).
        set vals \<inter> set (tag_values key (se_event se)) \<noteq> {}
        \<or> key = ''h'' \<and> list_all (\<lambda>t. tag_kind t \<noteq> ''h'') (ev_tags (se_event se))
           \<and> (\<exists>ch. se_channel_id se = Some ch \<and> uuid_str ch \<in> set vals)) (f_generic_tags f)
   \<and> (f_kinds f = None \<or> ''e'' \<in> fst ` set (f_generic_tags f)
       \<or> ev_kind (se_event se) \<noteq> KIND_CANVAS \<or> has_tag_kind ''e'' (se_event se) = False)"
proof -
  have tag: "generic_tag_ok uuid_str se (key, vals) \<longleftrightarrow>
      set vals \<inter> set (tag_values key (se_event se)) \<noteq> {}
      \<or> key = ''h'' \<and> list_all (\<lambda>t. tag_kind t \<noteq> ''h'') (ev_tags (se_event se))
         \<and> (\<exists>ch. se_channel_id se = Some ch \<and> uuid_str ch \<in> set vals)" for key vals
    by (auto simp: generic_tag_ok_def Let_def list_ex_iff list_all_iff has_tag_kind_def split: option.splits)
  have tags: "list_all (generic_tag_ok uuid_str se) (f_generic_tags f) \<longleftrightarrow>
      list_all (\<lambda>(key, vals). set vals \<inter> set (tag_values key (se_event se)) \<noteq> {}
        \<or> key = ''h'' \<and> list_all (\<lambda>t. tag_kind t \<noteq> ''h'') (ev_tags (se_event se))
           \<and> (\<exists>ch. se_channel_id se = Some ch \<and> uuid_str ch \<in> set vals)) (f_generic_tags f)"
    by (rule list.pred_cong) (auto simp: tag simp del: Int_iff)
  show ?thesis
    unfolding filter_match_one_def Let_def tags starts_with_prefix
    by (cases "f_kinds f"; cases "f_authors f"; cases "f_since f"; cases "f_until f"; cases "f_ids f")
       auto
qed

text \<open>
  The result gate: a gated event reaches a reader only if one of its \<open>p\<close> tags names
  that reader, or the event is a usage record and the reader is its own author.
\<close>

theorem result_gate_exact:
  "reader_authorized_for_event ev reader \<longleftrightarrow>
     ev_kind ev \<notin> set RESULT_GATED_KINDS
   \<or> ev_kind ev = KIND_USAGE_RECORD \<and> ev_pubkey ev = reader
   \<or> reader \<in> set (tag_values ''p'' ev)"
  by (auto simp: reader_authorized_for_event_def Let_def event_kind_u32_def list_ex_iff tag_values_mem)

text \<open>
  A thread's canvas is never selected by a subscription whose filters all name kinds
  and none of which names a thread root by \<open>#e\<close>.
\<close>

theorem thread_canvas_hidden:
  assumes "ev_kind (se_event se) = KIND_CANVAS" and "has_tag_kind ''e'' (se_event se)"
    and "\<forall>f \<in> set fs. f_kinds f \<noteq> None \<and> ''e'' \<notin> fst ` set (f_generic_tags f)"
  shows "\<not> filters_match uuid_str fs se"
proof -
  have "\<not> filter_match_one uuid_str f se" if "f \<in> set fs" for f
    using assms that by (auto simp: filter_match_one_def Let_def)
  then show ?thesis by (auto simp: filters_match_def list_ex_iff)
qed

definition demo_tag :: "string \<Rightarrow> string \<Rightarrow> tag" where
  "demo_tag k v = \<lparr>tag_kind = k, tag_content = Some v, tag_slice = [k, v]\<rparr>"

definition demo_event :: "nat \<Rightarrow> tag list \<Rightarrow> nevent" where
  "demo_event k ts = \<lparr>ev_id = ''aa'', ev_pubkey = ''bb'', ev_created_at = 10, ev_kind = k,
     ev_tags = ts, ev_content = ''hi''\<rparr>"

definition demo_filter :: "nat list \<Rightarrow> (string \<times> string list) list \<Rightarrow> nfilter" where
  "demo_filter ks ts = \<lparr>f_ids = None, f_authors = None, f_kinds = Some ks, f_since = None,
     f_until = None, f_generic_tags = ts\<rparr>"

lemmas demo_defs = demo_tag_def demo_event_def demo_filter_def

theorem filter_match_spec_witness:
  "filter_match_one (\<lambda>_. ''c'') (demo_filter [9] [(''h'', [''c''])])
     (StoredEvent_new 0 (demo_event 9 [demo_tag ''p'' ''bob'']) (Some 7))"
  unfolding filter_match_spec
  by (simp add: demo_defs StoredEvent_new_def tag_values_def List.map_filter_def KIND_CANVAS_def)

theorem result_gate_exact_witness:
  "reader_authorized_for_event (demo_event KIND_USAGE_RECORD [demo_tag ''p'' ''bob'']) ''bob''
   \<and> \<not> reader_authorized_for_event (demo_event KIND_USAGE_RECORD [demo_tag ''p'' ''bob'']) ''eve''"
  unfolding result_gate_exact
  by (simp add: demo_defs tag_values_def List.map_filter_def RESULT_GATED_KINDS_def)

theorem thread_canvas_hidden_witness:
  "\<not> filters_match (\<lambda>_. ''c'') [demo_filter [40100] [(''h'', [''c''])]]
     (StoredEvent_new 0 (demo_event 40100 [demo_tag ''h'' ''c'', demo_tag ''e'' ''root'']) (Some 7))"
  by (rule thread_canvas_hidden)
     (simp_all add: demo_defs StoredEvent_new_def KIND_CANVAS_def has_tag_kind_def)

end
