(* ===== verification/Subscription.thy ===== *)
theory Subscription
  imports Event_Filter
begin

text \<open>
  The relay's subscription registry, \<open>buzz-relay/src/subscription.rs\<close>: the table of live
  subscriptions, the five posting indexes that make fan-out sub-linear, and every
  operation on them. A \<open>DashMap\<close> is an association list; one call of an operation is one
  atomic step. Gauges and tracing are left out; they do not feed back.

  The main result is that fan-out through the indexes delivers an event to exactly the
  live subscriptions that match it, as a scan of the whole table would.
\<close>

section \<open>State\<close>

type_synonym conn_id = nat
type_synonym sub_id = string
type_synonym sub_entry = "nfilter list \<times> community_id \<times> uuid option"
type_synonym posting = "conn_id \<times> sub_id"

record IndexKey =
  ik_channel_id :: uuid
  ik_kind :: kind

record GlobalPKindIndexKey =
  gk_community_id :: community_id
  gk_kind :: kind
  gk_p :: string

record RemovedSubscription =
  rs_community_id :: community_id
  rs_channel_id :: "uuid option"

record SubscriptionRegistry =
  subs :: "(conn_id \<times> (sub_id \<times> sub_entry) list) list"
  channel_kind_index :: "((community_id \<times> IndexKey) \<times> posting list) list"
  channel_wildcard_index :: "((community_id \<times> uuid) \<times> posting list) list"
  global_kind_index :: "((community_id \<times> kind) \<times> posting list) list"
  global_p_kind_index :: "(GlobalPKindIndexKey \<times> posting list) list"
  global_wildcard_index :: "(community_id \<times> posting list) list"

definition registry_new :: SubscriptionRegistry where
  "registry_new = \<lparr>subs = [], channel_kind_index = [], channel_wildcard_index = [],
     global_kind_index = [], global_p_kind_index = [], global_wildcard_index = []\<rparr>"

section \<open>Reading filters and events\<close>

text \<open>The loops that collect into a vector what a \<open>HashSet\<close> has not seen keep the first of each.\<close>

definition push_unseen :: "'a \<Rightarrow> 'a list \<Rightarrow> 'a list" where
  "push_unseen x xs = (if x \<in> set xs then xs else xs @ [x])"

fun extract_kinds_loop :: "kind list \<Rightarrow> nfilter list \<Rightarrow> kind list option" where
  "extract_kinds_loop kinds [] = Some kinds"
| "extract_kinds_loop kinds (f # fs) =
     (case f_kinds f of
        Some ks \<Rightarrow> extract_kinds_loop (fold push_unseen ks kinds) fs
      | None \<Rightarrow> None)"

definition extract_kinds_from_filters :: "nfilter list \<Rightarrow> kind list option" where
  "extract_kinds_from_filters fs = extract_kinds_loop [] fs"

definition p_kind_keys :: "community_id \<Rightarrow> kind list \<Rightarrow> string list \<Rightarrow> GlobalPKindIndexKey list" where
  "p_kind_keys c ks ps =
     concat (map (\<lambda>k. map (\<lambda>p. \<lparr>gk_community_id = c, gk_kind = k, gk_p = p\<rparr>) ps) ks)"

fun extract_p_loop ::
  "community_id \<Rightarrow> GlobalPKindIndexKey list \<Rightarrow> nfilter list \<Rightarrow> GlobalPKindIndexKey list option" where
  "extract_p_loop c keys [] = Some keys"
| "extract_p_loop c keys (f # fs) =
     (case f_kinds f of
        None \<Rightarrow> None
      | Some ks \<Rightarrow>
         if ks = [] then extract_p_loop c keys fs
         else (case map_of (f_generic_tags f) ''p'' of
             None \<Rightarrow> None
           | Some ps \<Rightarrow>
              if ps = [] then None
              else extract_p_loop c (fold push_unseen (p_kind_keys c ks ps) keys) fs))"

definition extract_global_p_kind_index_keys ::
  "community_id \<Rightarrow> nfilter list \<Rightarrow> GlobalPKindIndexKey list option" where
  "extract_global_p_kind_index_keys c fs = extract_p_loop c [] fs"

definition event_p_tag_values :: "StoredEvent \<Rightarrow> string list" where
  "event_p_tag_values se =
     fold (\<lambda>t vals. if tag_kind t \<noteq> ''p'' then vals
             else case tag_content t of None \<Rightarrow> vals | Some v \<Rightarrow> push_unseen v vals)
       (ev_tags (se_event se)) []"

section \<open>Posting lists\<close>

text \<open>\<open>index.entry(key).or_default().push(posting)\<close>\<close>

definition idx_push :: "'k \<Rightarrow> posting \<Rightarrow> ('k \<times> posting list) list \<Rightarrow> ('k \<times> posting list) list" where
  "idx_push k p i = entry_upd k [] (\<lambda>ps. ps @ [p]) i"

text \<open>\<open>get_mut(key)\<close>, \<open>retain\<close> everything but the posting, and drop an emptied key.\<close>

definition idx_retain_not :: "'k \<Rightarrow> posting \<Rightarrow> ('k \<times> posting list) list \<Rightarrow> ('k \<times> posting list) list" where
  "idx_retain_not k p i = (case map_of i k of
       None \<Rightarrow> i
     | Some ps \<Rightarrow>
        (let ps' = filter (\<lambda>(cid, sid). \<not> (cid = fst p \<and> sid = snd p)) ps
         in if ps' = [] then AList.delete k i else AList.update k ps' i))"

definition idx_get :: "('k \<times> posting list) list \<Rightarrow> 'k \<Rightarrow> posting list" where
  "idx_get i k = (case map_of i k of None \<Rightarrow> [] | Some ps \<Rightarrow> ps)"

section \<open>Operations\<close>

definition remove_from_index ::
  "conn_id \<Rightarrow> sub_id \<Rightarrow> nfilter list \<Rightarrow> community_id \<Rightarrow> uuid option
   \<Rightarrow> SubscriptionRegistry \<Rightarrow> SubscriptionRegistry" where
  "remove_from_index conn sub filters com ch r = (case ch of
     Some ch_id \<Rightarrow>
       (case extract_kinds_from_filters filters of
          None \<Rightarrow> r\<lparr>channel_wildcard_index :=
                    idx_retain_not (com, ch_id) (conn, sub) (channel_wildcard_index r)\<rparr>
        | Some kinds \<Rightarrow>
           if kinds = [] then r
           else r\<lparr>channel_kind_index :=
                  fold (\<lambda>k. idx_retain_not (com, \<lparr>ik_channel_id = ch_id, ik_kind = k\<rparr>) (conn, sub))
                    kinds (channel_kind_index r)\<rparr>)
   | None \<Rightarrow>
       (case extract_global_p_kind_index_keys com filters of
          Some keys \<Rightarrow> r\<lparr>global_p_kind_index :=
                    fold (\<lambda>k. idx_retain_not k (conn, sub)) keys (global_p_kind_index r)\<rparr>
        | None \<Rightarrow>
           (case extract_kinds_from_filters filters of
              None \<Rightarrow> r\<lparr>global_wildcard_index :=
                        idx_retain_not com (conn, sub) (global_wildcard_index r)\<rparr>
            | Some kinds \<Rightarrow>
               if kinds = [] then r
               else r\<lparr>global_kind_index :=
                      fold (\<lambda>k. idx_retain_not (com, k) (conn, sub)) kinds (global_kind_index r)\<rparr>)))"

definition remove_subscription ::
  "conn_id \<Rightarrow> sub_id \<Rightarrow> SubscriptionRegistry \<Rightarrow> RemovedSubscription option \<times> SubscriptionRegistry" where
  "remove_subscription conn sub r = (case map_of (subs r) conn of
     None \<Rightarrow> (None, r)
   | Some conn_subs \<Rightarrow>
      (case map_of conn_subs sub of
         None \<Rightarrow> (None, r)
       | Some (filters, com, ch) \<Rightarrow>
          (Some \<lparr>rs_community_id = com, rs_channel_id = ch\<rparr>,
           remove_from_index conn sub filters com ch
             (r\<lparr>subs := AList.update conn (AList.delete sub conn_subs) (subs r)\<rparr>))))"

definition add_to_index ::
  "conn_id \<Rightarrow> sub_id \<Rightarrow> nfilter list \<Rightarrow> community_id \<Rightarrow> uuid option
   \<Rightarrow> SubscriptionRegistry \<Rightarrow> SubscriptionRegistry" where
  "add_to_index conn sub filters com ch r = (case ch of
     Some ch_id \<Rightarrow>
       (case extract_kinds_from_filters filters of
          None \<Rightarrow> r\<lparr>channel_wildcard_index :=
                    idx_push (com, ch_id) (conn, sub) (channel_wildcard_index r)\<rparr>
        | Some kinds \<Rightarrow>
           if kinds = [] then r
           else r\<lparr>channel_kind_index :=
                  fold (\<lambda>k. idx_push (com, \<lparr>ik_channel_id = ch_id, ik_kind = k\<rparr>) (conn, sub))
                    kinds (channel_kind_index r)\<rparr>)
   | None \<Rightarrow>
       (case extract_global_p_kind_index_keys com filters of
          Some keys \<Rightarrow> r\<lparr>global_p_kind_index :=
                    fold (\<lambda>k. idx_push k (conn, sub)) keys (global_p_kind_index r)\<rparr>
        | None \<Rightarrow>
           (case extract_kinds_from_filters filters of
              None \<Rightarrow> r\<lparr>global_wildcard_index :=
                        idx_push com (conn, sub) (global_wildcard_index r)\<rparr>
            | Some kinds \<Rightarrow>
               if kinds = [] then r
               else r\<lparr>global_kind_index :=
                      fold (\<lambda>k. idx_push (com, k) (conn, sub)) kinds (global_kind_index r)\<rparr>)))"

definition register_scoped ::
  "community_id \<Rightarrow> conn_id \<Rightarrow> sub_id \<Rightarrow> nfilter list \<Rightarrow> uuid option
   \<Rightarrow> SubscriptionRegistry \<Rightarrow> RemovedSubscription option \<times> SubscriptionRegistry" where
  "register_scoped com conn sub filters ch r =
     (case remove_subscription conn sub r of (removed, r1) \<Rightarrow>
        (removed,
         add_to_index conn sub filters com ch
           (r1\<lparr>subs := entry_upd conn [] (AList.update sub (filters, com, ch)) (subs r1)\<rparr>)))"

definition remove_connection ::
  "conn_id \<Rightarrow> SubscriptionRegistry \<Rightarrow> RemovedSubscription list \<times> SubscriptionRegistry" where
  "remove_connection conn r = (case map_of (subs r) conn of
     None \<Rightarrow> ([], r)
   | Some conn_subs \<Rightarrow>
      (map (\<lambda>(sub, filters, com, ch). \<lparr>rs_community_id = com, rs_channel_id = ch\<rparr>) conn_subs,
       fold (\<lambda>(sub, filters, com, ch). remove_from_index conn sub filters com ch) conn_subs
         (r\<lparr>subs := AList.delete conn (subs r)\<rparr>)))"

text \<open>The removal loop of \<open>remove_channel_subscriptions_scoped\<close> over the collected ids.\<close>

fun remove_subs_loop ::
  "conn_id \<Rightarrow> sub_id list \<Rightarrow> SubscriptionRegistry
   \<Rightarrow> (sub_id \<times> RemovedSubscription) list \<times> SubscriptionRegistry" where
  "remove_subs_loop conn [] r = ([], r)"
| "remove_subs_loop conn (sub # rest) r =
     (case remove_subscription conn sub r of
        (None, r1) \<Rightarrow> remove_subs_loop conn rest r1
      | (Some removed, r1) \<Rightarrow>
         (case remove_subs_loop conn rest r1 of (out, r2) \<Rightarrow> ((sub, removed) # out, r2)))"

definition remove_channel_subscriptions_scoped ::
  "community_id \<Rightarrow> conn_id \<Rightarrow> uuid \<Rightarrow> SubscriptionRegistry
   \<Rightarrow> (sub_id \<times> RemovedSubscription) list \<times> SubscriptionRegistry" where
  "remove_channel_subscriptions_scoped com conn ch r =
     (let sub_ids = (case map_of (subs r) conn of
           None \<Rightarrow> []
         | Some conn_subs \<Rightarrow>
            map fst (filter (\<lambda>(sub, filters, c, h). c = com \<and> h = Some ch) conn_subs))
      in remove_subs_loop conn sub_ids r)"

definition channel_subscriber_conns_scoped ::
  "community_id \<Rightarrow> uuid \<Rightarrow> SubscriptionRegistry \<Rightarrow> conn_id list" where
  "channel_subscriber_conns_scoped com ch r =
     remdups (concat (map (\<lambda>((c, key), ps). if c = com \<and> ik_channel_id key = ch then map fst ps else [])
                        (channel_kind_index r))
              @ map fst (idx_get (channel_wildcard_index r) (com, ch)))"

definition sub_lookup :: "SubscriptionRegistry \<Rightarrow> conn_id \<Rightarrow> sub_id \<Rightarrow> sub_entry option" where
  "sub_lookup r conn sub = (case map_of (subs r) conn of
     None \<Rightarrow> None | Some conn_subs \<Rightarrow> map_of conn_subs sub)"

text \<open>\<open>push_match\<close>: re-check the candidate against the table, and keep it once.\<close>

definition push_match ::
  "(uuid \<Rightarrow> string) \<Rightarrow> SubscriptionRegistry \<Rightarrow> community_id \<Rightarrow> StoredEvent
   \<Rightarrow> posting \<Rightarrow> posting list \<Rightarrow> posting list" where
  "push_match uuid_str r com se cand results =
     (case sub_lookup r (fst cand) (snd cand) of
        None \<Rightarrow> results
      | Some (filters, sub_com, sub_ch) \<Rightarrow>
         if sub_com = com \<and> sub_ch = se_channel_id se \<and> filters_match uuid_str filters se
         then push_unseen cand results else results)"

definition fan_out_scoped ::
  "(uuid \<Rightarrow> string) \<Rightarrow> community_id \<Rightarrow> StoredEvent \<Rightarrow> SubscriptionRegistry \<Rightarrow> posting list" where
  "fan_out_scoped uuid_str com se r =
     (let kind = ev_kind (se_event se); try = fold (push_match uuid_str r com se) in
      case se_channel_id se of
        Some ch \<Rightarrow>
          try (idx_get (channel_wildcard_index r) (com, ch))
            (try (idx_get (channel_kind_index r) (com, \<lparr>ik_channel_id = ch, ik_kind = kind\<rparr>)) [])
      | None \<Rightarrow>
          try (idx_get (global_wildcard_index r) com)
            (try (idx_get (global_kind_index r) (com, kind))
               (fold (\<lambda>p. try (idx_get (global_p_kind_index r)
                                 \<lparr>gk_community_id = com, gk_kind = kind, gk_p = p\<rparr>))
                  (event_p_tag_values se) [])))"

definition get_filters :: "conn_id \<Rightarrow> sub_id \<Rightarrow> SubscriptionRegistry \<Rightarrow> nfilter list option" where
  "get_filters conn sub r = map_option fst (sub_lookup r conn sub)"

definition total_subscriptions :: "SubscriptionRegistry \<Rightarrow> nat" where
  "total_subscriptions r = sum_list (map (\<lambda>(c, m). length m) (subs r))"

definition total_connections :: "SubscriptionRegistry \<Rightarrow> nat" where
  "total_connections r = length (subs r)"

definition per_community_subscriptions :: "SubscriptionRegistry \<Rightarrow> (community_id \<times> nat) list" where
  "per_community_subscriptions r =
     fold (\<lambda>(c, m). fold (\<lambda>(sub, filters, com, ch). entry_upd com 0 Suc) m) (subs r) []"

section \<open>The indexes as functions of the entries\<close>

text \<open>The keys an entry is filed under, one list per index.\<close>

fun ck_keys :: "sub_entry \<Rightarrow> (community_id \<times> IndexKey) list" where
  "ck_keys (fs, com, Some ch) = (case extract_kinds_from_filters fs of
     None \<Rightarrow> [] | Some ks \<Rightarrow> map (\<lambda>k. (com, \<lparr>ik_channel_id = ch, ik_kind = k\<rparr>)) ks)"
| "ck_keys (fs, com, None) = []"

fun cw_keys :: "sub_entry \<Rightarrow> (community_id \<times> uuid) list" where
  "cw_keys (fs, com, Some ch) = (if extract_kinds_from_filters fs = None then [(com, ch)] else [])"
| "cw_keys (fs, com, None) = []"

fun gp_keys :: "sub_entry \<Rightarrow> GlobalPKindIndexKey list" where
  "gp_keys (fs, com, Some ch) = []"
| "gp_keys (fs, com, None) = (case extract_global_p_kind_index_keys com fs of None \<Rightarrow> [] | Some ks \<Rightarrow> ks)"

fun gk_keys :: "sub_entry \<Rightarrow> (community_id \<times> kind) list" where
  "gk_keys (fs, com, Some ch) = []"
| "gk_keys (fs, com, None) =
     (if extract_global_p_kind_index_keys com fs \<noteq> None then []
      else case extract_kinds_from_filters fs of None \<Rightarrow> [] | Some ks \<Rightarrow> map (Pair com) ks)"

fun gw_keys :: "sub_entry \<Rightarrow> community_id list" where
  "gw_keys (fs, com, Some ch) = []"
| "gw_keys (fs, com, None) =
     (if extract_global_p_kind_index_keys com fs = None \<and> extract_kinds_from_filters fs = None
      then [com] else [])"

lemma add_to_index_proj:
  "subs (add_to_index c s fs com ch r) = subs r"
  "channel_kind_index (add_to_index c s fs com ch r) =
     fold (\<lambda>k. idx_push k (c, s)) (ck_keys (fs, com, ch)) (channel_kind_index r)"
  "channel_wildcard_index (add_to_index c s fs com ch r) =
     fold (\<lambda>k. idx_push k (c, s)) (cw_keys (fs, com, ch)) (channel_wildcard_index r)"
  "global_kind_index (add_to_index c s fs com ch r) =
     fold (\<lambda>k. idx_push k (c, s)) (gk_keys (fs, com, ch)) (global_kind_index r)"
  "global_p_kind_index (add_to_index c s fs com ch r) =
     fold (\<lambda>k. idx_push k (c, s)) (gp_keys (fs, com, ch)) (global_p_kind_index r)"
  "global_wildcard_index (add_to_index c s fs com ch r) =
     fold (\<lambda>k. idx_push k (c, s)) (gw_keys (fs, com, ch)) (global_wildcard_index r)"
  by (cases ch; simp add: add_to_index_def fold_map comp_def split: option.split)+

lemma remove_from_index_proj:
  "subs (remove_from_index c s fs com ch r) = subs r"
  "channel_kind_index (remove_from_index c s fs com ch r) =
     fold (\<lambda>k. idx_retain_not k (c, s)) (ck_keys (fs, com, ch)) (channel_kind_index r)"
  "channel_wildcard_index (remove_from_index c s fs com ch r) =
     fold (\<lambda>k. idx_retain_not k (c, s)) (cw_keys (fs, com, ch)) (channel_wildcard_index r)"
  "global_kind_index (remove_from_index c s fs com ch r) =
     fold (\<lambda>k. idx_retain_not k (c, s)) (gk_keys (fs, com, ch)) (global_kind_index r)"
  "global_p_kind_index (remove_from_index c s fs com ch r) =
     fold (\<lambda>k. idx_retain_not k (c, s)) (gp_keys (fs, com, ch)) (global_p_kind_index r)"
  "global_wildcard_index (remove_from_index c s fs com ch r) =
     fold (\<lambda>k. idx_retain_not k (c, s)) (gw_keys (fs, com, ch)) (global_wildcard_index r)"
  by (cases ch; simp add: remove_from_index_def fold_map comp_def split: option.split)+

definition idx_tidy :: "('k \<times> posting list) list \<Rightarrow> bool" where
  "idx_tidy i \<longleftrightarrow> keys_ok i \<and> (\<forall>ps \<in> snd ` set i. ps \<noteq> [])"

lemma set_update_subset: "snd ` set (AList.update k v m) \<subseteq> insert v (snd ` set m)"
  by (induction m) auto

lemma set_delete_subset: "set (AList.delete k m) \<subseteq> set m"
  by (auto simp: AList.delete_eq)

lemma idx_get_mem: "p \<in> set (idx_get i k) \<longleftrightarrow> (\<exists>ps. map_of i k = Some ps \<and> p \<in> set ps)"
  by (cases "map_of i k") (auto simp: idx_get_def)

lemma idx_get_push:
  "idx_get (idx_push k p i) k' = (if k' = k then idx_get i k @ [p] else idx_get i k')"
  by (simp add: idx_get_def idx_push_def store_simps split: option.split)

lemma idx_get_retain_not:
  "idx_get (idx_retain_not k p i) k' = (if k' = k then filter (\<lambda>q. q \<noteq> p) (idx_get i k) else idx_get i k')"
proof -
  have "(\<lambda>(cid, sid). \<not> (cid = fst p \<and> sid = snd p)) = (\<lambda>q. q \<noteq> p)"
    by (auto simp: fun_eq_iff prod_eq_iff)
  then show ?thesis
    by (auto simp: idx_get_def idx_retain_not_def Let_def store_simps split: option.split)
qed

interpretation px: posting_index idx_get idx_push idx_retain_not idx_tidy
proof
  fix i :: "('k \<times> posting list) list" and k :: 'k and p :: posting
  assume tidy: "idx_tidy i"
  then have ok: "keys_ok i" by (simp add: idx_tidy_def)
  have "\<forall>ps \<in> snd ` set (AList.update k (v @ [p]) i). ps \<noteq> []" for v
    using tidy set_update_subset [of k "v @ [p]" i] unfolding idx_tidy_def by blast
  then show "idx_tidy (idx_push k p i)"
    by (simp add: idx_tidy_def idx_push_def entry_upd_def ok)
  have "\<forall>ps \<in> snd ` set (AList.delete k i). ps \<noteq> []"
    using tidy set_delete_subset [of k i] unfolding idx_tidy_def by blast
  moreover have "\<forall>ps \<in> snd ` set (AList.update k v i). ps \<noteq> []" if "v \<noteq> []" for v
    using that tidy set_update_subset [of k v i] unfolding idx_tidy_def by blast
  ultimately show "idx_tidy (idx_retain_not k p i)"
    using tidy by (simp add: idx_tidy_def idx_retain_not_def Let_def ok split: option.split)
qed (auto simp: idx_get_push idx_get_retain_not)

section \<open>The registry invariant\<close>

definition live :: "SubscriptionRegistry \<Rightarrow> posting \<Rightarrow> sub_entry option" where
  "live r p = sub_lookup r (fst p) (snd p)"

definition subs_ok :: "SubscriptionRegistry \<Rightarrow> bool" where
  "subs_ok r \<longleftrightarrow> keys_ok (subs r) \<and> (\<forall>m \<in> snd ` set (subs r). keys_ok m)"

definition idx_inv :: "(sub_entry \<Rightarrow> 'k list) \<Rightarrow> (posting \<Rightarrow> sub_entry option) \<Rightarrow> ('k \<times> posting list) list \<Rightarrow> bool" where
  "idx_inv keys lv i \<longleftrightarrow> tracks idx_get keys lv i \<and> idx_tidy i"

definition indexes_inv :: "(posting \<Rightarrow> sub_entry option) \<Rightarrow> SubscriptionRegistry \<Rightarrow> bool" where
  "indexes_inv lv r \<longleftrightarrow>
     idx_inv ck_keys lv (channel_kind_index r) \<and> idx_inv cw_keys lv (channel_wildcard_index r)
   \<and> idx_inv gk_keys lv (global_kind_index r) \<and> idx_inv gp_keys lv (global_p_kind_index r)
   \<and> idx_inv gw_keys lv (global_wildcard_index r)"

definition registry_inv :: "SubscriptionRegistry \<Rightarrow> bool" where
  "registry_inv r \<longleftrightarrow> subs_ok r \<and> indexes_inv (live r) r"

lemma idx_inv_push:
  "idx_inv keys lv i \<Longrightarrow> lv p = None \<Longrightarrow> idx_inv keys (lv(p \<mapsto> e)) (fold (\<lambda>k. idx_push k p) (keys e) i)"
  by (simp add: idx_inv_def px.tracks_push px.tidy_push_all)

lemma idx_inv_retain:
  "idx_inv keys lv i \<Longrightarrow> lv p = Some e \<Longrightarrow> idx_inv keys (lv(p := None)) (fold (\<lambda>k. idx_retain_not k p) (keys e) i)"
  by (simp add: idx_inv_def px.tracks_retain px.tidy_retain_all)

lemma indexes_inv_add:
  "indexes_inv lv r \<Longrightarrow> lv (c, s) = None \<Longrightarrow>
     indexes_inv (lv((c, s) \<mapsto> (fs, com, ch))) (add_to_index c s fs com ch r)"
  unfolding indexes_inv_def add_to_index_proj by (blast intro: idx_inv_push)

lemma indexes_inv_remove:
  "indexes_inv lv r \<Longrightarrow> lv (c, s) = Some (fs, com, ch) \<Longrightarrow>
     indexes_inv (lv((c, s) := None)) (remove_from_index c s fs com ch r)"
  unfolding indexes_inv_def remove_from_index_proj by (blast intro: idx_inv_retain)

lemma indexes_inv_subs [simp]: "indexes_inv lv (r\<lparr>subs := x\<rparr>) = indexes_inv lv r"
  by (simp add: indexes_inv_def)

lemma live_cong: "subs r = subs r' \<Longrightarrow> live r = live r'"
  by (simp add: live_def sub_lookup_def fun_eq_iff)

lemma live_add [simp]: "live (add_to_index c s fs com ch r) = live r"
  by (rule live_cong) (simp add: add_to_index_proj)

lemma live_remove [simp]: "live (remove_from_index c s fs com ch r) = live r"
  by (rule live_cong) (simp add: remove_from_index_proj)

lemma live_insert:
  "live (r\<lparr>subs := entry_upd c [] (AList.update s e) (subs r)\<rparr>) = (live r)((c, s) \<mapsto> e)"
  by (auto simp: live_def sub_lookup_def store_simps fun_eq_iff split: option.split)

lemma live_delete:
  "map_of (subs r) c = Some m \<Longrightarrow>
     live (r\<lparr>subs := AList.update c (AList.delete s m) (subs r)\<rparr>) = (live r)((c, s) := None)"
  by (auto simp: live_def sub_lookup_def store_simps fun_eq_iff split: option.split)

lemma subs_ok_conn: "subs_ok r \<Longrightarrow> map_of (subs r) c = Some m \<Longrightarrow> keys_ok m"
  unfolding subs_ok_def by (metis imageI map_of_SomeD snd_conv)

lemma subs_ok_update: "subs_ok r \<Longrightarrow> keys_ok m \<Longrightarrow> subs_ok (r\<lparr>subs := AList.update c m (subs r)\<rparr>)"
  using set_update_subset [of c m "subs r"] keys_ok_update [of "subs r" c m]
  unfolding subs_ok_def by (auto 0 3 simp: subset_iff)

lemma subs_ok_cong: "subs r = subs r' \<Longrightarrow> subs_ok r = subs_ok r'"
  by (simp add: subs_ok_def)

lemma subs_ok_remove_index [simp]: "subs_ok (remove_from_index c s fs com ch r) = subs_ok r"
  by (rule subs_ok_cong) (simp add: remove_from_index_proj)

lemma subs_ok_add_index [simp]: "subs_ok (add_to_index c s fs com ch r) = subs_ok r"
  by (rule subs_ok_cong) (simp add: add_to_index_proj)

section \<open>Every operation keeps the invariant\<close>

lemma registry_inv_new: "registry_inv registry_new"
  by (simp add: registry_inv_def registry_new_def subs_ok_def indexes_inv_def idx_inv_def
      tracks_def idx_get_def idx_tidy_def live_def sub_lookup_def)

lemma remove_subscription_cases:
  obtains (absent) "live r (c, s) = None" "remove_subscription c s r = (None, r)"
  | (present) m fs com ch where "map_of (subs r) c = Some m" "live r (c, s) = Some (fs, com, ch)"
      "remove_subscription c s r = (Some \<lparr>rs_community_id = com, rs_channel_id = ch\<rparr>,
         remove_from_index c s fs com ch (r\<lparr>subs := AList.update c (AList.delete s m) (subs r)\<rparr>))"
  by (cases "map_of (subs r) c"; cases "live r (c, s)")
     (auto simp: remove_subscription_def live_def sub_lookup_def)

lemma remove_subscription_inv:
  assumes "registry_inv r"
  shows "registry_inv (snd (remove_subscription c s r))"
    and "live (snd (remove_subscription c s r)) = (live r)((c, s) := None)"
proof -
  have "registry_inv (snd (remove_subscription c s r))
      \<and> live (snd (remove_subscription c s r)) = (live r)((c, s) := None)"
  proof (cases rule: remove_subscription_cases [where r = r and c = c and s = s])
    case absent
    with assms show ?thesis by (auto simp: fun_eq_iff)
  next
    case (present m fs com ch)
    let ?r = "r\<lparr>subs := AList.update c (AList.delete s m) (subs r)\<rparr>"
    have "indexes_inv ((live r)((c, s) := None)) (remove_from_index c s fs com ch ?r)"
      by (rule indexes_inv_remove) (use assms present in \<open>simp_all add: registry_inv_def\<close>)
    moreover have "subs_ok ?r"
      using assms present(1) by (auto simp: registry_inv_def intro!: subs_ok_update dest: subs_ok_conn)
    ultimately show ?thesis
      using present by (simp add: registry_inv_def live_delete)
  qed
  then show "registry_inv (snd (remove_subscription c s r))"
    and "live (snd (remove_subscription c s r)) = (live r)((c, s) := None)" by simp_all
qed

lemma register_scoped_inv:
  assumes "registry_inv r"
  shows "registry_inv (snd (register_scoped com c s fs ch r))"
    and "live (snd (register_scoped com c s fs ch r)) = (live r)((c, s) \<mapsto> (fs, com, ch))"
proof -
  obtain x r1 where r1: "remove_subscription c s r = (x, r1)" by fastforce
  let ?r2 = "r1\<lparr>subs := entry_upd c [] (AList.update s (fs, com, ch)) (subs r1)\<rparr>"
  have inv1: "registry_inv r1" and live1: "live r1 = (live r)((c, s) := None)"
    using remove_subscription_inv [OF assms, of c s] r1 by simp_all
  have res: "snd (register_scoped com c s fs ch r) = add_to_index c s fs com ch ?r2"
    by (simp add: register_scoped_def r1)
  have live2: "live ?r2 = (live r)((c, s) \<mapsto> (fs, com, ch))"
    by (simp add: live_insert live1)
  have "indexes_inv ((live r1)((c, s) \<mapsto> (fs, com, ch))) (add_to_index c s fs com ch ?r2)"
    by (rule indexes_inv_add) (use inv1 live1 in \<open>simp_all add: registry_inv_def\<close>)
  moreover have "keys_ok (case map_of (subs r1) c of None \<Rightarrow> [] | Some v \<Rightarrow> v)"
    using inv1 by (auto simp: registry_inv_def split: option.split dest: subs_ok_conn)
  then have "subs_ok ?r2"
    using inv1 by (simp add: entry_upd_def registry_inv_def subs_ok_update)
  ultimately show "registry_inv (snd (register_scoped com c s fs ch r))"
    unfolding res registry_inv_def using live2 live1 by simp
  show "live (snd (register_scoped com c s fs ch r)) = (live r)((c, s) \<mapsto> (fs, com, ch))"
    unfolding res using live2 by simp
qed

text \<open>
  \<open>remove_connection\<close> first drops the connection's table and then cleans the indexes one
  subscription at a time: the indexes keep tracking what is left to clean.
\<close>

definition live_with :: "conn_id \<Rightarrow> (sub_id \<times> sub_entry) list \<Rightarrow> (posting \<Rightarrow> sub_entry option) \<Rightarrow> posting \<Rightarrow> sub_entry option" where
  "live_with c xs lv p = (if fst p = c then map_of xs (snd p) else lv p)"

lemma live_with_tl:
  "s \<notin> fst ` set xs \<Longrightarrow> (live_with c ((s, e) # xs) lv)((c, s) := None) = live_with c xs lv"
  by (rule ext) (auto simp: live_with_def intro: sym [OF iffD2 [OF map_of_eq_None_iff]])

lemma indexes_inv_remove_all:
  "keys_ok xs \<Longrightarrow> indexes_inv (live_with c xs lv) r \<Longrightarrow>
     indexes_inv (live_with c [] lv) (fold (\<lambda>(s, fs, com, ch). remove_from_index c s fs com ch) xs r)"
proof (induction xs arbitrary: r)
  case (Cons x xs)
  obtain s fs com ch where x: "x = (s, fs, com, ch)" by (cases x) auto
  from Cons.prems x have s: "s \<notin> fst ` set xs" and ok: "keys_ok xs" by (auto simp: keys_ok_def)
  have "indexes_inv ((live_with c (x # xs) lv)((c, s) := None)) (remove_from_index c s fs com ch r)"
    by (rule indexes_inv_remove) (use Cons.prems in simp, simp add: x live_with_def)
  then have "indexes_inv (live_with c xs lv) (remove_from_index c s fs com ch r)"
    unfolding x live_with_tl [OF s] .
  from Cons.IH [OF ok this] show ?case by (simp add: x)
qed simp

lemma subs_fold_remove [simp]:
  "subs (fold (\<lambda>(s, fs, com, ch). remove_from_index c s fs com ch) xs r) = subs r"
  by (induction xs arbitrary: r) (auto simp: remove_from_index_proj)

lemma live_delete_conn: "live (r\<lparr>subs := AList.delete c (subs r)\<rparr>) = live_with c [] (live r)"
  by (auto simp: live_def sub_lookup_def live_with_def store_simps fun_eq_iff split: option.split)

lemma live_with_same: "map_of (subs r) c = Some m \<Longrightarrow> live_with c m (live r) = live r"
  by (auto simp: live_def sub_lookup_def live_with_def fun_eq_iff split: option.split)

lemma remove_connection_inv:
  assumes "registry_inv r"
  shows "registry_inv (snd (remove_connection c r))"
    and "live (snd (remove_connection c r)) = live_with c [] (live r)"
proof -
  have "registry_inv (snd (remove_connection c r)) \<and> live (snd (remove_connection c r)) = live_with c [] (live r)"
  proof (cases "map_of (subs r) c")
    case None
    then have "live_with c [] (live r) = live r"
      by (auto simp: live_with_def live_def sub_lookup_def fun_eq_iff split: option.split)
    with None assms show ?thesis by (simp add: remove_connection_def)
  next
    case (Some m)
    let ?r1 = "r\<lparr>subs := AList.delete c (subs r)\<rparr>"
    let ?r2 = "fold (\<lambda>(s, fs, com, ch). remove_from_index c s fs com ch) m ?r1"
    have live2: "live ?r2 = live_with c [] (live r)"
      using live_cong [of ?r2 ?r1] live_delete_conn [where r = r and c = c] by simp
    have "subs_ok ?r1"
      using assms set_delete_subset [of c "subs r"] by (auto simp: registry_inv_def subs_ok_def)
    then have "subs_ok ?r2" using subs_ok_cong [of ?r2 ?r1] by simp
    moreover have "indexes_inv (live_with c m (live r)) ?r1"
      using assms by (simp add: live_with_same [OF Some] registry_inv_def)
    then have "indexes_inv (live_with c [] (live r)) ?r2"
      using assms Some by (intro indexes_inv_remove_all) (auto simp: registry_inv_def dest: subs_ok_conn)
    ultimately show ?thesis
      using Some live2 by (simp add: remove_connection_def registry_inv_def)
  qed
  then show "registry_inv (snd (remove_connection c r))"
    and "live (snd (remove_connection c r)) = live_with c [] (live r)" by simp_all
qed

lemma remove_subs_loop_inv:
  "registry_inv r \<Longrightarrow> registry_inv (snd (remove_subs_loop c ids r))
     \<and> live (snd (remove_subs_loop c ids r)) = (\<lambda>p. if fst p = c \<and> snd p \<in> set ids then None else live r p)"
proof (induction ids arbitrary: r)
  case (Cons s ids)
  obtain x r1 where r1: "remove_subscription c s r = (x, r1)" by fastforce
  then have "snd (remove_subs_loop c (s # ids) r) = snd (remove_subs_loop c ids r1)"
    by (auto split: option.split prod.split)
  moreover have "registry_inv r1" and "live r1 = (live r)((c, s) := None)"
    using remove_subscription_inv [OF Cons.prems, of c s] r1 by simp_all
  ultimately show ?case using Cons.IH [of r1] by (auto simp: fun_eq_iff)
qed simp

lemma remove_channel_inv:
  assumes "registry_inv r"
  shows "registry_inv (snd (remove_channel_subscriptions_scoped com c ch r))"
    and "live (snd (remove_channel_subscriptions_scoped com c ch r)) =
      (\<lambda>p. if fst p = c \<and> (\<exists>fs. live r p = Some (fs, com, Some ch)) then None else live r p)"
proof -
  define ids where "ids = (case map_of (subs r) c of None \<Rightarrow> []
     | Some m \<Rightarrow> map fst (filter (\<lambda>(s, fs, c', h). c' = com \<and> h = Some ch) m))"
  have mem: "s \<in> set ids \<longleftrightarrow> (\<exists>fs. live r (c, s) = Some (fs, com, Some ch))" for s
  proof (cases "map_of (subs r) c")
    case (Some m)
    then have "keys_ok m" using assms by (auto simp: registry_inv_def dest: subs_ok_conn)
    have "s \<in> set ids \<longleftrightarrow> (\<exists>fs. (s, fs, com, Some ch) \<in> set m)"
      by (force simp: ids_def Some)
    then show ?thesis by (simp add: live_def sub_lookup_def Some keys_ok_mem [OF \<open>keys_ok m\<close>])
  qed (simp add: ids_def live_def sub_lookup_def)
  have "remove_channel_subscriptions_scoped com c ch r = remove_subs_loop c ids r"
    by (simp add: remove_channel_subscriptions_scoped_def ids_def)
  then show "registry_inv (snd (remove_channel_subscriptions_scoped com c ch r))"
    and "live (snd (remove_channel_subscriptions_scoped com c ch r)) =
      (\<lambda>p. if fst p = c \<and> (\<exists>fs. live r p = Some (fs, com, Some ch)) then None else live r p)"
    using remove_subs_loop_inv [OF assms, of c ids] by (auto simp: mem fun_eq_iff)
qed

section \<open>The registry as a machine\<close>

inductive registry_step :: "SubscriptionRegistry \<Rightarrow> SubscriptionRegistry \<Rightarrow> bool" where
  register: "registry_step r (snd (register_scoped com c s fs ch r))"
| close: "registry_step r (snd (remove_subscription c s r))"
| disconnect: "registry_step r (snd (remove_connection c r))"
| revoke: "registry_step r (snd (remove_channel_subscriptions_scoped com c ch r))"

inductive_cases registry_stepE: "registry_step r r'"

interpretation rm: invariant_machine "\<lambda>r. r = registry_new" registry_step registry_inv
proof
  fix r r'
  assume "registry_step r r'" and "registry_inv r"
  then show "registry_inv r'"
    by (auto elim!: registry_stepE intro: register_scoped_inv remove_subscription_inv
        remove_connection_inv remove_channel_inv)
qed (simp add: registry_inv_new)

section \<open>Fan-out\<close>

definition delivers :: "(uuid \<Rightarrow> string) \<Rightarrow> SubscriptionRegistry \<Rightarrow> community_id \<Rightarrow> StoredEvent \<Rightarrow> posting \<Rightarrow> bool" where
  "delivers u r com se p \<longleftrightarrow>
     (\<exists>fs. live r p = Some (fs, com, se_channel_id se) \<and> filters_match u fs se)"

lemma set_push_unseen [simp]: "set (push_unseen x xs) = insert x (set xs)"
  by (auto simp: push_unseen_def)

lemma distinct_push_unseen [simp]: "distinct xs \<Longrightarrow> distinct (push_unseen x xs)"
  by (auto simp: push_unseen_def)

lemma set_fold_push_unseen: "set (fold push_unseen ys xs) = set xs \<union> set ys"
  by (induction ys arbitrary: xs) auto

lemma push_match_eq:
  "push_match u r com se p res = (if delivers u r com se p then push_unseen p res else res)"
  by (auto simp: push_match_def delivers_def live_def split: option.splits prod.splits)

lemma set_try: "set (fold (push_match u r com se) ps res) = set res \<union> {p \<in> set ps. delivers u r com se p}"
  by (induction ps arbitrary: res) (auto simp: push_match_eq)

lemma distinct_try: "distinct res \<Longrightarrow> distinct (fold (push_match u r com se) ps res)"
  by (induction ps arbitrary: res) (auto simp: push_match_eq)

lemma set_try_all:
  "set (fold (\<lambda>x. fold (push_match u r com se) (g x)) xs res) =
     set res \<union> {p. (\<exists>x \<in> set xs. p \<in> set (g x)) \<and> delivers u r com se p}"
  by (induction xs arbitrary: res) (auto simp: set_try)

lemma distinct_try_all:
  "distinct res \<Longrightarrow> distinct (fold (\<lambda>x. fold (push_match u r com se) (g x)) xs res)"
  by (induction xs arbitrary: res) (auto simp: distinct_try)

lemma extract_kinds_loop_Some:
  "extract_kinds_loop acc fs = Some ks \<Longrightarrow>
     set acc \<subseteq> set ks \<and> (\<forall>f \<in> set fs. \<exists>fk. f_kinds f = Some fk \<and> set fk \<subseteq> set ks)"
proof (induction fs arbitrary: acc)
  case (Cons f fs)
  then show ?case
    by (fastforce simp: set_fold_push_unseen split: option.splits)
qed simp

lemma filters_match_extract_kinds:
  assumes "filters_match u fs se" and "extract_kinds_from_filters fs = Some ks"
  shows "ev_kind (se_event se) \<in> set ks"
proof -
  from assms(1) obtain f where "f \<in> set fs" "filter_match_one u f se"
    by (auto simp: filters_match_def list_ex_iff)
  with extract_kinds_loop_Some [OF assms(2) [unfolded extract_kinds_from_filters_def]]
  show ?thesis using filter_match_kind by fastforce
qed

lemma extract_p_loop_Some:
  "extract_p_loop c acc fs = Some keys \<Longrightarrow>
     set acc \<subseteq> set keys \<and>
     (\<forall>f \<in> set fs. \<exists>ks. f_kinds f = Some ks \<and>
        (ks = [] \<or> (\<exists>ps. map_of (f_generic_tags f) ''p'' = Some ps \<and> set (p_kind_keys c ks ps) \<subseteq> set keys)))"
proof (induction fs arbitrary: acc)
  case (Cons f fs)
  then obtain ks where ks: "f_kinds f = Some ks" by (auto split: option.splits)
  show ?case
  proof (cases "ks = []")
    case True
    with Cons ks show ?thesis by simp
  next
    case False
    with Cons.prems ks obtain ps where ps: "map_of (f_generic_tags f) ''p'' = Some ps"
        "extract_p_loop c (fold push_unseen (p_kind_keys c ks ps) acc) fs = Some keys"
      by (auto split: option.splits if_splits)
    from Cons.IH [OF ps(2)] ks ps(1) False show ?thesis
      by (auto simp: set_fold_push_unseen)
  qed
qed simp

lemma event_p_tag_values_mem: "v \<in> set (event_p_tag_values se) \<longleftrightarrow> v \<in> set (tag_values ''p'' (se_event se))"
proof -
  have "set (fold (\<lambda>t vals. if tag_kind t \<noteq> ''p'' then vals
          else case tag_content t of None \<Rightarrow> vals | Some v \<Rightarrow> push_unseen v vals) ts acc)
      = set acc \<union> {v. \<exists>t \<in> set ts. tag_kind t = ''p'' \<and> tag_content t = Some v}" for ts acc
    by (induction ts arbitrary: acc) (auto split: option.splits)
  from this [of "ev_tags (se_event se)" "[]"] show ?thesis
    unfolding event_p_tag_values_def tag_values_mem by simp
qed

lemma filters_match_extract_p:
  assumes "filters_match u fs se" and "extract_global_p_kind_index_keys com fs = Some keys"
  shows "\<exists>p \<in> set (event_p_tag_values se).
    \<lparr>gk_community_id = com, gk_kind = ev_kind (se_event se), gk_p = p\<rparr> \<in> set keys"
proof -
  from assms(1) obtain f where f: "f \<in> set fs" "filter_match_one u f se"
    by (auto simp: filters_match_def list_ex_iff)
  with extract_p_loop_Some [OF assms(2) [unfolded extract_global_p_kind_index_keys_def]]
  obtain ks where ks: "f_kinds f = Some ks" "ks = [] \<or> (\<exists>ps. map_of (f_generic_tags f) ''p'' = Some ps
      \<and> set (p_kind_keys com ks ps) \<subseteq> set keys)" by blast
  have k: "ev_kind (se_event se) \<in> set ks" using filter_match_kind [OF f(2) ks(1)] .
  with ks(2) obtain ps where ps: "map_of (f_generic_tags f) ''p'' = Some ps"
      "set (p_kind_keys com ks ps) \<subseteq> set keys" by auto
  from filter_match_tag [OF f(2) map_of_SomeD [OF ps(1)]]
  obtain v where "v \<in> set ps" "v \<in> set (tag_values ''p'' (se_event se))" by auto
  with k ps(2) show ?thesis
    by (intro bexI [of _ v]) (auto simp: p_kind_keys_def event_p_tag_values_mem)
qed

lemma tracksD:
  "tracks idx_get keys lv i \<Longrightarrow> lv p = Some e \<Longrightarrow> k \<in> set (keys e) \<Longrightarrow> p \<in> set (idx_get i k)"
  unfolding tracks_def by blast

lemmas registry_tracks = registry_inv_def indexes_inv_def idx_inv_def

lemma fan_out_complete_channel:
  assumes inv: "registry_inv r" and d: "delivers u r com se p" and ch: "se_channel_id se = Some ch"
  shows "p \<in> set (idx_get (channel_wildcard_index r) (com, ch))
    \<or> p \<in> set (idx_get (channel_kind_index r) (com, \<lparr>ik_channel_id = ch, ik_kind = ev_kind (se_event se)\<rparr>))"
proof -
  from d ch obtain fs where fs: "live r p = Some (fs, com, Some ch)" "filters_match u fs se"
    by (auto simp: delivers_def)
  show ?thesis
  proof (cases "extract_kinds_from_filters fs")
    case None
    then show ?thesis using inv fs(1) by (auto simp: registry_tracks intro: tracksD [of cw_keys])
  next
    case (Some ks)
    with filters_match_extract_kinds [OF fs(2)] show ?thesis
      using inv fs(1) by (auto simp: registry_tracks intro!: tracksD [of ck_keys])
  qed
qed

lemma fan_out_complete_global:
  assumes inv: "registry_inv r" and d: "delivers u r com se p" and ch: "se_channel_id se = None"
  shows "p \<in> set (idx_get (global_wildcard_index r) com)
    \<or> p \<in> set (idx_get (global_kind_index r) (com, ev_kind (se_event se)))
    \<or> (\<exists>v \<in> set (event_p_tag_values se). p \<in> set (idx_get (global_p_kind_index r)
          \<lparr>gk_community_id = com, gk_kind = ev_kind (se_event se), gk_p = v\<rparr>))"
proof -
  from d ch obtain fs where fs: "live r p = Some (fs, com, None)" "filters_match u fs se"
    by (auto simp: delivers_def)
  show ?thesis
  proof (cases "extract_global_p_kind_index_keys com fs")
    case (Some keys)
    from filters_match_extract_p [OF fs(2) this] Some show ?thesis
      using inv fs(1) by (auto simp: registry_tracks intro!: tracksD [of gp_keys])
  next
    case None
    then show ?thesis
      using inv fs filters_match_extract_kinds [OF fs(2)]
      by (cases "extract_kinds_from_filters fs")
         (auto simp: registry_tracks intro: tracksD [of gw_keys] tracksD [of gk_keys])
  qed
qed

lemma fan_out_set:
  assumes "registry_inv r"
  shows "set (fan_out_scoped u com se r) = {p. delivers u r com se p}"
proof (rule set_eqI)
  fix p
  show "p \<in> set (fan_out_scoped u com se r) \<longleftrightarrow> p \<in> {p. delivers u r com se p}"
  proof (cases "se_channel_id se")
    case None
    show ?thesis
      using fan_out_complete_global [OF assms _ None, of u com p]
      unfolding fan_out_scoped_def Let_def None option.case set_try set_try_all by auto
  next
    case (Some ch)
    show ?thesis
      using fan_out_complete_channel [OF assms _ Some, of u com p]
      unfolding fan_out_scoped_def Let_def Some option.case set_try by auto
  qed
qed

lemma fan_out_distinct: "distinct (fan_out_scoped u com se r)"
  by (cases "se_channel_id se") (simp_all add: fan_out_scoped_def Let_def distinct_try distinct_try_all)

section \<open>Counting\<close>

lemma per_community_inner:
  "(case map_of (fold (\<lambda>(sub, fs, com, ch). entry_upd com 0 Suc) m acc) k of None \<Rightarrow> 0 | Some n \<Rightarrow> n)
   = (case map_of acc k of None \<Rightarrow> 0 | Some n \<Rightarrow> n) + length (filter (\<lambda>(sub, fs, com, ch). com = k) m)"
  by (induction m arbitrary: acc) (auto simp: store_simps split: option.splits)

lemma per_community_outer:
  "(case map_of (fold (\<lambda>(c, m). fold (\<lambda>(sub, fs, com, ch). entry_upd com 0 Suc) m) xs acc) k of None \<Rightarrow> 0 | Some n \<Rightarrow> n)
   = (case map_of acc k of None \<Rightarrow> 0 | Some n \<Rightarrow> n)
     + length (filter (\<lambda>(sub, fs, com, ch). com = k) (concat (map snd xs)))"
proof (induction xs arbitrary: acc)
  case (Cons x xs)
  then show ?case
    by (cases x) (simp add: per_community_inner del: fold_simps add: fold_simps(2))
qed simp

section \<open>Properties of the registry\<close>

lemma registry_reachable_inv: "registry_step\<^sup>*\<^sup>* registry_new r \<Longrightarrow> registry_inv r"
  using rm.inv_reachable by blast

lemma live_sub_lookup: "live r (c, s) = sub_lookup r c s"
  by (simp add: live_def)

text \<open>
  C1: index-driven fan-out is exact. In every state the registry can reach through
  registrations, closes, disconnects and revocations, an event is delivered to precisely
  the live subscriptions of its community and channel scope whose filters match it, each
  of them once.
\<close>

theorem fan_out_exact:
  assumes "registry_step\<^sup>*\<^sup>* registry_new r"
  shows "set (fan_out_scoped uuid_str com se r) =
      {(c, s). \<exists>fs. sub_lookup r c s = Some (fs, com, se_channel_id se) \<and> filters_match uuid_str fs se}
    \<and> distinct (fan_out_scoped uuid_str com se r)"
  using fan_out_set [OF registry_reachable_inv [OF assms]] fan_out_distinct
  by (auto simp: delivers_def live_def)

definition demo_registry :: SubscriptionRegistry where
  "demo_registry = snd (register_scoped 1 5 ''s'' [demo_filter [9] [(''p'', [''bob''])]] None registry_new)"

definition demo_dm :: StoredEvent where
  "demo_dm = StoredEvent_new 0 (demo_event 9 [demo_tag ''p'' ''bob'']) None"

lemma demo_registry_reachable: "registry_step\<^sup>*\<^sup>* registry_new demo_registry"
  unfolding demo_registry_def by (rule r_into_rtranclp) (rule registry_step.register)

lemma demo_registry_lookup:
  "sub_lookup demo_registry c s =
     (if c = 5 \<and> s = ''s'' then Some ([demo_filter [9] [(''p'', [''bob''])]], 1, None) else None)"
proof -
  have "live demo_registry = (live registry_new)((5, ''s'') \<mapsto> ([demo_filter [9] [(''p'', [''bob''])]], 1, None))"
    unfolding demo_registry_def by (rule register_scoped_inv) (rule registry_inv_new)
  then have "live demo_registry (c, s) = (if c = 5 \<and> s = ''s'' then Some ([demo_filter [9] [(''p'', [''bob''])]], 1, None) else None)"
    by (simp add: live_def sub_lookup_def registry_new_def)
  then show ?thesis by (simp add: live_sub_lookup)
qed

lemma demo_dm_match: "filters_match u [demo_filter [9] [(''p'', [''bob''])]] demo_dm"
  by (simp add: filters_match_def filter_match_one_def generic_tag_ok_def Let_def demo_dm_def demo_defs StoredEvent_new_def
      KIND_CANVAS_def tag_values_def List.map_filter_def)

theorem fan_out_exact_witness: "set (fan_out_scoped (\<lambda>_. ''c'') 1 demo_dm demo_registry) = {(5, ''s'')}"
  using fan_out_exact [OF demo_registry_reachable, of "\<lambda>_. ''c''" 1 demo_dm] demo_dm_match
  by (auto simp: demo_registry_lookup demo_dm_def StoredEvent_new_def split: if_splits)

text \<open>
  Tenant and channel isolation holds in any registry state at all, even one whose
  indexes are stale: nothing is delivered outside the event's community and channel scope,
  or to a subscription whose filters do not match.
\<close>

theorem fan_out_isolated:
  "set (fan_out_scoped uuid_str com se r) \<subseteq>
     {(c, s). \<exists>fs. sub_lookup r c s = Some (fs, com, se_channel_id se) \<and> filters_match uuid_str fs se}"
proof -
  have "p \<in> set (fan_out_scoped uuid_str com se r) \<Longrightarrow> delivers uuid_str r com se p" for p
    by (cases "se_channel_id se") (auto simp: fan_out_scoped_def Let_def set_try set_try_all)
  then show ?thesis by (auto simp: delivers_def live_def)
qed

text \<open>
  The indexes never leak: in a reachable state with no live subscription, all five
  indexes are empty.
\<close>

theorem registry_no_leak:
  assumes "registry_step\<^sup>*\<^sup>* registry_new r" and "\<forall>c s. sub_lookup r c s = None"
  shows "channel_kind_index r = [] \<and> channel_wildcard_index r = [] \<and> global_kind_index r = []
    \<and> global_p_kind_index r = [] \<and> global_wildcard_index r = []"
proof -
  have empty: "i = []" if "idx_inv keys (live r) i" for keys and i :: "('k \<times> posting list) list"
  proof (cases i)
    case (Cons x xs)
    obtain k ps where x: "x = (k, ps)" by (cases x)
    with Cons that have "ps \<noteq> []" by (auto simp: idx_inv_def idx_tidy_def)
    moreover have "idx_get i k = ps" by (simp add: idx_get_def Cons x)
    ultimately obtain p where "p \<in> set (idx_get i k)" by (cases ps) auto
    with that obtain e where "live r p = Some e" unfolding idx_inv_def tracks_def by blast
    with assms(2) show ?thesis by (simp add: live_def)
  qed
  show ?thesis
    using registry_reachable_inv [OF assms(1)] by (auto simp: registry_inv_def indexes_inv_def intro: empty)
qed

theorem registry_no_leak_witness:
  "global_p_kind_index (snd (remove_connection 5 demo_registry)) = []"
proof -
  have reach: "registry_step\<^sup>*\<^sup>* registry_new (snd (remove_connection 5 demo_registry))"
    by (rule rtranclp.rtrancl_into_rtrancl [OF demo_registry_reachable]) (rule registry_step.disconnect)
  have "\<forall>c s. sub_lookup (snd (remove_connection 5 demo_registry)) c s = None"
    using remove_connection_inv(2) [OF registry_reachable_inv [OF demo_registry_reachable], of 5]
    by (auto simp: live_sub_lookup [symmetric] live_with_def demo_registry_lookup [folded live_sub_lookup])
  from registry_no_leak [OF reach this] show ?thesis by simp
qed

text \<open>
  Registering replaces exactly the subscription with that connection and id, leaves
  every other one alone, and reports the scope of the one it replaced.
\<close>

theorem register_replaces:
  assumes "registry_step\<^sup>*\<^sup>* registry_new r"
  shows "sub_lookup (snd (register_scoped com c s fs ch r)) c' s' =
      (if c' = c \<and> s' = s then Some (fs, com, ch) else sub_lookup r c' s')
    \<and> fst (register_scoped com c s fs ch r) =
      map_option (\<lambda>(fs', com', ch'). \<lparr>rs_community_id = com', rs_channel_id = ch'\<rparr>) (sub_lookup r c s)"
proof
  show "sub_lookup (snd (register_scoped com c s fs ch r)) c' s' =
      (if c' = c \<and> s' = s then Some (fs, com, ch) else sub_lookup r c' s')"
    using register_scoped_inv(2) [OF registry_reachable_inv [OF assms], of com c s fs ch]
    by (auto simp: live_sub_lookup [symmetric])
  show "fst (register_scoped com c s fs ch r) =
      map_option (\<lambda>(fs', com', ch'). \<lparr>rs_community_id = com', rs_channel_id = ch'\<rparr>) (sub_lookup r c s)"
    by (cases rule: remove_subscription_cases [where r = r and c = c and s = s])
       (simp_all add: register_scoped_def live_sub_lookup)
qed

theorem register_replaces_witness:
  "sub_lookup (snd (register_scoped 2 5 ''s'' [] (Some 8) demo_registry)) 5 ''s'' = Some ([], 2, Some 8)
   \<and> fst (register_scoped 2 5 ''s'' [] (Some 8) demo_registry) = Some \<lparr>rs_community_id = 1, rs_channel_id = None\<rparr>"
  using register_replaces [OF demo_registry_reachable, of 2 5 "''s''" "[]" "Some 8" 5 "''s''"]
  by (simp add: demo_registry_lookup)

text \<open>
  Revoking a connection's access to a channel takes effect at once: no later event of
  that channel in that community is delivered to the connection.
\<close>

theorem revoked_connection_receives_nothing:
  assumes "registry_step\<^sup>*\<^sup>* registry_new r" and "se_channel_id se = Some ch"
  shows "c \<notin> fst ` set (fan_out_scoped uuid_str com se (snd (remove_channel_subscriptions_scoped com c ch r)))"
proof -
  let ?r = "snd (remove_channel_subscriptions_scoped com c ch r)"
  have inv: "registry_inv r" by (rule registry_reachable_inv [OF assms(1)])
  have "\<not> delivers uuid_str ?r com se (c, s)" for s
    using assms(2) by (auto simp: delivers_def remove_channel_inv(2) [OF inv] split: if_splits)
  then show ?thesis using fan_out_set [OF remove_channel_inv(1) [OF inv]] by auto
qed

theorem revoked_connection_witness:
  "5 \<notin> fst ` set (fan_out_scoped (\<lambda>_. ''c'') 1 (demo_dm\<lparr>se_channel_id := Some 3\<rparr>)
     (snd (remove_channel_subscriptions_scoped 1 5 3 demo_registry)))"
  by (rule revoked_connection_receives_nothing [OF demo_registry_reachable]) simp

lemma ck_keys_scope:
  "(\<exists>key. (com, key) \<in> set (ck_keys e) \<and> ik_channel_id key = ch) \<longleftrightarrow>
     (\<exists>fs ks. e = (fs, com, Some ch) \<and> extract_kinds_from_filters fs = Some ks \<and> ks \<noteq> [])"
proof (cases e rule: ck_keys.cases)
  case (1 fs com' ch')
  then show ?thesis
  proof (cases "extract_kinds_from_filters fs")
    case (Some ks)
    with 1 show ?thesis by (cases ks) auto
  qed auto
qed auto

lemma cw_keys_scope:
  "(com, ch) \<in> set (cw_keys e) \<longleftrightarrow> (\<exists>fs. e = (fs, com, Some ch) \<and> extract_kinds_from_filters fs = None)"
  by (cases e rule: cw_keys.cases) auto

text \<open>
  The connections reported for a channel are exactly those holding a subscription
  scoped to it, apart from subscriptions whose filters can match no kind.
\<close>

theorem channel_conns_exact:
  assumes "registry_step\<^sup>*\<^sup>* registry_new r"
  shows "set (channel_subscriber_conns_scoped com ch r) =
      {c. \<exists>s fs. sub_lookup r c s = Some (fs, com, Some ch) \<and> extract_kinds_from_filters fs \<noteq> Some []}
    \<and> distinct (channel_subscriber_conns_scoped com ch r)"
proof -
  have inv: "registry_inv r" by (rule registry_reachable_inv [OF assms])
  have ok: "keys_ok (channel_kind_index r)" using inv by (auto simp: registry_tracks idx_tidy_def)
  have kind: "(\<exists>key ps. ((com, key), ps) \<in> set (channel_kind_index r) \<and> ik_channel_id key = ch \<and> (c, s) \<in> set ps)
      \<longleftrightarrow> (\<exists>key. (c, s) \<in> set (idx_get (channel_kind_index r) (com, key)) \<and> ik_channel_id key = ch)" for c s
    unfolding keys_ok_mem [OF ok] idx_get_mem by blast
  have ck: "(c, s) \<in> set (idx_get (channel_kind_index r) k) \<longleftrightarrow> (\<exists>e. live r (c, s) = Some e \<and> k \<in> set (ck_keys e))" for c s k
    using inv unfolding registry_tracks tracks_def by blast
  have cw: "(c, s) \<in> set (idx_get (channel_wildcard_index r) k) \<longleftrightarrow> (\<exists>e. live r (c, s) = Some e \<and> k \<in> set (cw_keys e))" for c s k
    using inv unfolding registry_tracks tracks_def by blast
  have ck': "(\<exists>key. (c, s) \<in> set (idx_get (channel_kind_index r) (com, key)) \<and> ik_channel_id key = ch)
      \<longleftrightarrow> (\<exists>fs ks. sub_lookup r c s = Some (fs, com, Some ch) \<and> extract_kinds_from_filters fs = Some ks \<and> ks \<noteq> [])" for c s
  proof -
    have "(\<exists>key. (c, s) \<in> set (idx_get (channel_kind_index r) (com, key)) \<and> ik_channel_id key = ch)
        \<longleftrightarrow> (\<exists>e. sub_lookup r c s = Some e \<and> (\<exists>key. (com, key) \<in> set (ck_keys e) \<and> ik_channel_id key = ch))"
      unfolding ck live_sub_lookup by blast
    then show ?thesis unfolding ck_keys_scope by blast
  qed
  have cw': "(c, s) \<in> set (idx_get (channel_wildcard_index r) (com, ch))
      \<longleftrightarrow> (\<exists>fs. sub_lookup r c s = Some (fs, com, Some ch) \<and> extract_kinds_from_filters fs = None)" for c s
    unfolding cw live_sub_lookup cw_keys_scope by blast
  have "c \<in> set (channel_subscriber_conns_scoped com ch r) \<longleftrightarrow>
      (\<exists>s. (\<exists>key ps. ((com, key), ps) \<in> set (channel_kind_index r) \<and> ik_channel_id key = ch \<and> (c, s) \<in> set ps)
         \<or> (c, s) \<in> set (idx_get (channel_wildcard_index r) (com, ch)))" for c
    unfolding channel_subscriber_conns_scoped_def by (force split: if_splits)
  then have "c \<in> set (channel_subscriber_conns_scoped com ch r) \<longleftrightarrow>
      (\<exists>s fs. sub_lookup r c s = Some (fs, com, Some ch) \<and> extract_kinds_from_filters fs \<noteq> Some [])" for c
    unfolding kind ck' cw' by (metis not_None_eq option.inject)
  moreover have "distinct (channel_subscriber_conns_scoped com ch r)"
    by (simp add: channel_subscriber_conns_scoped_def)
  ultimately show ?thesis by blast
qed

theorem channel_conns_exact_witness:
  "set (channel_subscriber_conns_scoped 1 3
     (snd (register_scoped 1 6 ''t'' [demo_filter [9] []] (Some 3) demo_registry))) = {6}"
proof -
  let ?r = "snd (register_scoped 1 6 ''t'' [demo_filter [9] []] (Some 3) demo_registry)"
  have reach: "registry_step\<^sup>*\<^sup>* registry_new ?r"
    by (rule rtranclp.rtrancl_into_rtrancl [OF demo_registry_reachable]) (rule registry_step.register)
  have "live ?r = (live demo_registry)((6, ''t'') \<mapsto> ([demo_filter [9] []], 1, Some 3))"
    by (rule register_scoped_inv(2) [OF registry_reachable_inv [OF demo_registry_reachable]])
  then have look: "sub_lookup ?r c s = (if c = 6 \<and> s = ''t'' then Some ([demo_filter [9] []], 1, Some 3)
      else sub_lookup demo_registry c s)" for c s
    unfolding live_sub_lookup [symmetric] by simp
  have "sub_lookup demo_registry c s \<noteq> Some (fs, 1, Some 3)" for c s fs
    by (simp add: demo_registry_lookup)
  moreover have "extract_kinds_from_filters [demo_filter [9] []] \<noteq> Some []"
    by (simp add: extract_kinds_from_filters_def demo_filter_def push_unseen_def)
  ultimately show ?thesis
    unfolding conjunct1 [OF channel_conns_exact [OF reach]] look by (auto split: if_splits)
qed

text \<open>
  Closing a subscription never changes the number of connections reported, so a
  connection whose last subscription was closed is still counted.
\<close>

theorem close_keeps_connection_count:
  "total_connections (snd (remove_subscription c s r)) = total_connections r"
proof (cases rule: remove_subscription_cases [where r = r and c = c and s = s])
  case (present m fs com ch)
  have "c \<in> fst ` set (subs r)" using map_of_SomeD [OF present(1)] by force
  then have "length (AList.update c x (subs r)) = length (subs r)" for x
    by (induction "subs r") (auto simp: update_Some_unfold length_map [of fst, symmetric] update_keys simp del: length_map)
  with present show ?thesis by (simp add: total_connections_def remove_from_index_proj)
qed simp

text \<open>
  The per-community snapshot counts every live subscription under its own community.
\<close>

theorem per_community_counts:
  "(case map_of (per_community_subscriptions r) com of None \<Rightarrow> 0 | Some n \<Rightarrow> n) =
     length (filter (\<lambda>(sub, fs, com', ch). com' = com) (concat (map snd (subs r))))"
  using per_community_outer [of "subs r" "[]" com] by (simp add: per_community_subscriptions_def)

end
