(* ===== verification/Subscription_Race.thy ===== *)
theory Subscription_Race
  imports Subscription
begin

text \<open>
  The registry operations one map access at a time. The tables of
  \<open>buzz-relay/src/subscription.rs\<close> are \<open>DashMap\<close>s behind an \<open>Arc\<close>, shared by all connection
  tasks: an access to one of them is atomic, an operation made of several is not.
  \<open>Subscription\<close> treats an operation as one step; here registering and closing a channel
  subscription without a kind constraint are cut at the points where no guard on the
  wildcard index is held, and one interleaving is followed to its end.
\<close>

section \<open>The accesses\<close>

definition table_insert ::
  "community_id \<Rightarrow> conn_id \<Rightarrow> sub_id \<Rightarrow> nfilter list \<Rightarrow> uuid option \<Rightarrow> SubscriptionRegistry \<Rightarrow> SubscriptionRegistry" where
  "table_insert com conn sub filters ch r =
     r\<lparr>subs := entry_upd conn [] (AList.update sub (filters, com, ch)) (subs r)\<rparr>"

definition table_remove :: "conn_id \<Rightarrow> sub_id \<Rightarrow> SubscriptionRegistry \<Rightarrow> SubscriptionRegistry" where
  "table_remove conn sub r = (case map_of (subs r) conn of
     None \<Rightarrow> r
   | Some conn_subs \<Rightarrow> r\<lparr>subs := AList.update conn (AList.delete sub conn_subs) (subs r)\<rparr>)"

text \<open>
  The guarded part of \<open>remove_from_index\<close>: \<open>retain\<close>, then the test \<open>entries.is_empty()\<close>,
  whose outcome is returned. The guard is dropped here.
\<close>

definition wildcard_retain ::
  "community_id \<Rightarrow> uuid \<Rightarrow> conn_id \<Rightarrow> sub_id \<Rightarrow> SubscriptionRegistry \<Rightarrow> bool \<times> SubscriptionRegistry" where
  "wildcard_retain com ch conn sub r = (case map_of (channel_wildcard_index r) (com, ch) of
     None \<Rightarrow> (False, r)
   | Some ps \<Rightarrow>
      (let ps' = filter (\<lambda>(cid, sid). \<not> (cid = conn \<and> sid = sub)) ps
       in (ps' = [], r\<lparr>channel_wildcard_index := AList.update (com, ch) ps' (channel_wildcard_index r)\<rparr>)))"

text \<open>The removal of the key that follows, decided by the earlier test.\<close>

definition wildcard_remove ::
  "community_id \<Rightarrow> uuid \<Rightarrow> bool \<Rightarrow> SubscriptionRegistry \<Rightarrow> SubscriptionRegistry" where
  "wildcard_remove com ch was_empty r =
     (if was_empty then r\<lparr>channel_wildcard_index := AList.delete (com, ch) (channel_wildcard_index r)\<rparr> else r)"

text \<open>
  One interleaving of a close by \<open>(a, s)\<close> with a registration by \<open>(b, t)\<close>: the new
  subscriber enters the table, the close empties the posting list, the new subscriber is
  posted, the close removes the key.
\<close>

definition close_race ::
  "community_id \<Rightarrow> uuid \<Rightarrow> posting \<Rightarrow> posting \<Rightarrow> nfilter list \<Rightarrow> SubscriptionRegistry \<Rightarrow> SubscriptionRegistry" where
  "close_race com ch a b gs r =
     (let r1 = table_insert com (fst b) (snd b) gs (Some ch) r;
          r2 = table_remove (fst a) (snd a) r1
      in case wildcard_retain com ch (fst a) (snd a) r2 of (was_empty, r3) \<Rightarrow>
           wildcard_remove com ch was_empty (add_to_index (fst b) (snd b) gs com (Some ch) r3))"

section \<open>Without interference the accesses are the operations\<close>

lemma delete_update_same: "AList.delete k (AList.update k v m) = AList.delete k m"
  by (induction m) auto

lemma register_sequential:
  assumes "sub_lookup r b t = None"
  shows "snd (register_scoped com b t gs ch r) = add_to_index b t gs com ch (table_insert com b t gs ch r)"
  using assms
  by (auto simp: register_scoped_def remove_subscription_def sub_lookup_def table_insert_def split: option.splits)

lemma close_sequential:
  assumes "sub_lookup r a s = Some (fs, com, Some ch)" and "extract_kinds_from_filters fs = None"
  shows "snd (remove_subscription a s r) =
    (case wildcard_retain com ch a s (table_remove a s r) of (was_empty, r') \<Rightarrow> wildcard_remove com ch was_empty r')"
proof -
  obtain m where m: "map_of (subs r) a = Some m" and "map_of m s = Some (fs, com, Some ch)"
    using assms(1) by (auto simp: sub_lookup_def split: option.splits)
  then have close: "snd (remove_subscription a s r) =
      remove_from_index a s fs com (Some ch) (table_remove a s r)"
    by (simp add: remove_subscription_def table_remove_def)
  show ?thesis unfolding close
    by (cases "map_of (channel_wildcard_index (table_remove a s r)) (com, ch)")
      (simp_all add: remove_from_index_def assms(2) idx_retain_not_def wildcard_retain_def
        wildcard_remove_def Let_def delete_update_same)
qed

section \<open>The lost subscriber\<close>

lemma table_remove_lookup:
  "sub_lookup (table_remove a s r) b t = (if b = a \<and> t = s then None else sub_lookup r b t)"
  by (auto simp: table_remove_def sub_lookup_def store_simps split: option.splits)

lemma table_insert_lookup:
  "sub_lookup (table_insert com b t gs ch r) c u = (if c = b \<and> u = t then Some (gs, com, ch) else sub_lookup r c u)"
  by (auto simp: table_insert_def sub_lookup_def store_simps split: option.splits)

lemma wildcard_retain_last:
  assumes "idx_get (channel_wildcard_index r) (com, ch) = [a]"
  shows "wildcard_retain com ch (fst a) (snd a) r =
    (True, r\<lparr>channel_wildcard_index := AList.update (com, ch) [] (channel_wildcard_index r)\<rparr>)"
proof -
  have "map_of (channel_wildcard_index r) (com, ch) = Some [a]"
    using assms by (simp add: idx_get_def split: option.splits)
  then show ?thesis by (simp add: wildcard_retain_def Let_def split: prod.split)
qed

lemma close_race_index:
  assumes "extract_kinds_from_filters gs = None" and "idx_get (channel_wildcard_index r) (com, ch) = [a]"
  shows "channel_kind_index (close_race com ch a b gs r) = channel_kind_index r"
    and "idx_get (channel_wildcard_index (close_race com ch a b gs r)) (com, ch) = []"
    and "subs (close_race com ch a b gs r) =
      subs (table_remove (fst a) (snd a) (table_insert com (fst b) (snd b) gs (Some ch) r))"
proof -
  let ?r2 = "table_remove (fst a) (snd a) (table_insert com (fst b) (snd b) gs (Some ch) r)"
  have same: "channel_wildcard_index ?r2 = channel_wildcard_index r" "channel_kind_index ?r2 = channel_kind_index r"
    by (simp_all add: table_remove_def table_insert_def split: option.split)
  have retain: "wildcard_retain com ch (fst a) (snd a) ?r2 =
      (True, ?r2\<lparr>channel_wildcard_index := AList.update (com, ch) [] (channel_wildcard_index r)\<rparr>)"
    using wildcard_retain_last [of ?r2] assms(2) by (simp add: same)
  show "channel_kind_index (close_race com ch a b gs r) = channel_kind_index r"
    and "idx_get (channel_wildcard_index (close_race com ch a b gs r)) (com, ch) = []"
    and "subs (close_race com ch a b gs r) = subs ?r2"
    by (simp_all add: close_race_def retain wildcard_remove_def add_to_index_proj assms(1) same idx_get_def store_simps)
qed

text \<open>
  Closing the last kind-unconstrained subscription of a channel while another
  connection registers one can lose the newcomer: the registry then lists it as live, yet
  no event of the channel is ever delivered to it from that state, although the same two
  operations one after the other deliver every event its filters match.
\<close>

theorem concurrent_close_loses_subscriber:
  assumes "registry_step\<^sup>*\<^sup>* registry_new r"
    and "sub_lookup r (fst a) (snd a) = Some (fs, com, Some ch)" and "extract_kinds_from_filters fs = None"
    and "idx_get (channel_wildcard_index r) (com, ch) = [a]"
    and "sub_lookup r (fst b) (snd b) = None" and "extract_kinds_from_filters gs = None"
    and "se_channel_id se = Some ch" and "filters_match uuid_str gs se"
  shows "sub_lookup (close_race com ch a b gs r) (fst b) (snd b) = Some (gs, com, Some ch)
    \<and> b \<notin> set (fan_out_scoped uuid_str com se (close_race com ch a b gs r))
    \<and> b \<in> set (fan_out_scoped uuid_str com se
          (snd (register_scoped com (fst b) (snd b) gs (Some ch) (snd (remove_subscription (fst a) (snd a) r)))))"
proof (intro conjI)
  let ?r = "close_race com ch a b gs r"
  let ?q = "snd (register_scoped com (fst b) (snd b) gs (Some ch) (snd (remove_subscription (fst a) (snd a) r)))"
  note idx = close_race_index [OF assms(6,4), of b]
  have "a \<noteq> b" using assms(2,5) by auto
  then show "sub_lookup ?r (fst b) (snd b) = Some (gs, com, Some ch)"
    using table_remove_lookup [of "fst a" "snd a" "table_insert com (fst b) (snd b) gs (Some ch) r" "fst b" "snd b"]
    by (auto simp: sub_lookup_def idx(3) prod_eq_iff table_insert_lookup [unfolded sub_lookup_def])
  have "idx_inv ck_keys (live r) (channel_kind_index r)"
    using registry_reachable_inv [OF assms(1)] by (simp add: registry_inv_def indexes_inv_def)
  moreover have "live r b = None" using assms(5) by (simp add: live_def)
  ultimately have "b \<notin> set (idx_get (channel_kind_index r) k)" for k
    unfolding idx_inv_def tracks_def by (metis option.distinct(1))
  then show "b \<notin> set (fan_out_scoped uuid_str com se ?r)"
    using assms(7) by (simp add: fan_out_scoped_def Let_def set_try idx)
  note inv = remove_subscription_inv [OF registry_reachable_inv [OF assms(1)], of "fst a" "snd a"]
  have "live ?q b = Some (gs, com, Some ch)" using register_scoped_inv(2) [OF inv(1)] by simp
  then have "delivers uuid_str ?q com se b" using assms(7,8) by (simp add: delivers_def)
  then show "b \<in> set (fan_out_scoped uuid_str com se ?q)"
    using fan_out_set [OF register_scoped_inv(1) [OF inv(1)]] by simp
qed

definition open_filter :: nfilter where
  "open_filter = (demo_filter [] [])\<lparr>f_kinds := None\<rparr>"

definition lone_registry :: SubscriptionRegistry where
  "lone_registry = snd (register_scoped 2 5 ''s'' [open_filter] (Some 3) registry_new)"

definition lone_event :: StoredEvent where
  "lone_event = StoredEvent_new 0 (demo_event 9 []) (Some 3)"

lemma open_filter_wild: "extract_kinds_from_filters [open_filter] = None"
  by (simp add: extract_kinds_from_filters_def open_filter_def)

lemma lone_registry_reachable: "registry_step\<^sup>*\<^sup>* registry_new lone_registry"
  unfolding lone_registry_def by (rule r_into_rtranclp) (rule registry_step.register)

lemma lone_registry_lookup:
  "sub_lookup lone_registry c s = (if c = 5 \<and> s = ''s'' then Some ([open_filter], 2, Some 3) else None)"
proof -
  have "live lone_registry (c, s) = (if c = 5 \<and> s = ''s'' then Some ([open_filter], 2, Some 3) else None)"
    unfolding lone_registry_def register_scoped_inv(2) [OF registry_inv_new]
    by (simp add: live_def sub_lookup_def registry_new_def)
  then show ?thesis by (simp add: live_sub_lookup)
qed

lemma lone_registry_wildcard: "idx_get (channel_wildcard_index lone_registry) (2, 3) = [(5, ''s'')]"
  by (simp add: lone_registry_def register_scoped_def remove_subscription_def registry_new_def add_to_index_def
      open_filter_wild idx_get_def idx_push_def store_simps)

lemma lone_event_channel: "se_channel_id lone_event = Some 3"
  by (simp add: lone_event_def StoredEvent_new_def)

lemma open_filter_match: "filters_match u [open_filter] lone_event"
  by (simp add: filters_match_def filter_match_one_def generic_tag_ok_def Let_def open_filter_def lone_event_def demo_defs StoredEvent_new_def
      KIND_CANVAS_def tag_values_def List.map_filter_def)

theorem concurrent_close_loses_subscriber_witness:
  "sub_lookup (close_race 2 3 (5, ''s'') (6, ''t'') [open_filter] lone_registry) 6 ''t'' = Some ([open_filter], 2, Some 3)
    \<and> (6, ''t'') \<notin> set (fan_out_scoped (\<lambda>_. ''c'') 2 lone_event
         (close_race 2 3 (5, ''s'') (6, ''t'') [open_filter] lone_registry))"
  using concurrent_close_loses_subscriber [OF lone_registry_reachable, of "(5, ''s'')" "[open_filter]" 2 3
      "(6, ''t'')" "[open_filter]" lone_event "\<lambda>_. ''c''"]
  by (simp add: lone_registry_lookup lone_registry_wildcard open_filter_wild open_filter_match lone_event_channel)

end
