(* ===== verification/Channel.thy ===== *)
theory Channel
  imports Colony_Interfaces
begin

text \<open>
  \<open>buzz-core/src/channel.rs\<close>: the canonical channel name, and the visibility, type and
  role enums with their wire spellings. A role is ordered by its permission level.
  The \<open>FromStr\<close> errors are formatted messages in the source; here they are
  constructors that carry the rejected string.
\<close>

section \<open>Canonical names\<close>

text \<open>The bytes of the leading character, if it is a hash sign or white space; else 0.\<close>

fun hash_or_ws_len :: "string \<Rightarrow> nat" where
  "hash_or_ws_len [] = 0"
| "hash_or_ws_len (c # cs) = (if c = CHR ''#'' then 1 else ws_len (c # cs))"

function trim_start_hash_ws :: "string \<Rightarrow> string" where
  "trim_start_hash_ws s =
     (if hash_or_ws_len s = 0 then s else trim_start_hash_ws (drop (hash_or_ws_len s) s))"
  by pat_completeness auto
termination
proof (relation "measure length")
  fix s :: string
  assume "hash_or_ws_len s \<noteq> 0"
  moreover from this have "s \<noteq> []" by auto
  ultimately show "(drop (hash_or_ws_len s) s, s) \<in> measure length" by simp
qed simp

declare trim_start_hash_ws.simps [simp del]

definition canonical_channel_name :: "string \<Rightarrow> string" where
  "canonical_channel_name name = trim_end (trim_start_hash_ws name)"

section \<open>Enums\<close>

datatype EnumError = UnknownVisibility string | UnknownChannelType string | UnknownRole string

datatype ChannelVisibility = Open | Private

fun visibility_as_str :: "ChannelVisibility \<Rightarrow> string" where
  "visibility_as_str Open = ''open''"
| "visibility_as_str Private = ''private''"

definition visibility_from_str :: "string \<Rightarrow> EnumError + ChannelVisibility" where
  "visibility_from_str s =
     (if s = ''open'' then Inr Open
      else if s = ''private'' then Inr Private
      else Inl (UnknownVisibility s))"

datatype ChannelType = Stream | Forum | Dm | Workflow

fun channel_type_as_str :: "ChannelType \<Rightarrow> string" where
  "channel_type_as_str Stream = ''stream''"
| "channel_type_as_str Forum = ''forum''"
| "channel_type_as_str Dm = ''dm''"
| "channel_type_as_str Workflow = ''workflow''"

definition channel_type_from_str :: "string \<Rightarrow> EnumError + ChannelType" where
  "channel_type_from_str s =
     (if s = ''stream'' then Inr Stream
      else if s = ''forum'' then Inr Forum
      else if s = ''dm'' then Inr Dm
      else if s = ''workflow'' then Inr Workflow
      else Inl (UnknownChannelType s))"

datatype MemberRole = Owner | Admin | Member | Guest | Bot

fun role_as_str :: "MemberRole \<Rightarrow> string" where
  "role_as_str Owner = ''owner''"
| "role_as_str Admin = ''admin''"
| "role_as_str Member = ''member''"
| "role_as_str Guest = ''guest''"
| "role_as_str Bot = ''bot''"

fun is_elevated :: "MemberRole \<Rightarrow> bool" where
  "is_elevated Owner = True"
| "is_elevated Admin = True"
| "is_elevated _ = False"

fun permission_level :: "MemberRole \<Rightarrow> nat" where
  "permission_level Owner = 4"
| "permission_level Admin = 3"
| "permission_level Member = 2"
| "permission_level Guest = 1"
| "permission_level Bot = 0"

definition has_at_least :: "MemberRole \<Rightarrow> MemberRole \<Rightarrow> bool" where
  "has_at_least self required \<longleftrightarrow> permission_level self \<ge> permission_level required"

definition role_from_str :: "string \<Rightarrow> EnumError + MemberRole" where
  "role_from_str s =
     (if s = ''owner'' then Inr Owner
      else if s = ''admin'' then Inr Admin
      else if s = ''member'' then Inr Member
      else if s = ''guest'' then Inr Guest
      else if s = ''bot'' then Inr Bot
      else Inl (UnknownRole s))"

section \<open>Wire spellings\<close>

interpretation visibility: wire_enum visibility_as_str "\<lambda>s. ok_of (visibility_from_str s)"
proof
  fix x show "ok_of (visibility_from_str (visibility_as_str x)) = Some x"
    by (cases x) (simp_all add: visibility_from_str_def)
next
  fix s x assume "ok_of (visibility_from_str s) = Some x"
  then show "visibility_as_str x = s" by (auto simp: visibility_from_str_def split: if_splits)
qed

interpretation channel_type: wire_enum channel_type_as_str "\<lambda>s. ok_of (channel_type_from_str s)"
proof
  fix x show "ok_of (channel_type_from_str (channel_type_as_str x)) = Some x"
    by (cases x) (simp_all add: channel_type_from_str_def)
next
  fix s x assume "ok_of (channel_type_from_str s) = Some x"
  then show "channel_type_as_str x = s" by (auto simp: channel_type_from_str_def split: if_splits)
qed

interpretation role: wire_enum role_as_str "\<lambda>s. ok_of (role_from_str s)"
proof
  fix x show "ok_of (role_from_str (role_as_str x)) = Some x"
    by (cases x) (simp_all add: role_from_str_def)
next
  fix s x assume "ok_of (role_from_str s) = Some x"
  then show "role_as_str x = s" by (auto simp: role_from_str_def split: if_splits)
qed

section \<open>The role order\<close>

lemma permission_level_inj: "permission_level a = permission_level b \<longleftrightarrow> a = b"
  by (cases a; cases b) simp_all

instantiation MemberRole :: linorder
begin

definition less_eq_MemberRole :: "MemberRole \<Rightarrow> MemberRole \<Rightarrow> bool" where
  "a \<le> b \<longleftrightarrow> permission_level a \<le> permission_level b"

definition less_MemberRole :: "MemberRole \<Rightarrow> MemberRole \<Rightarrow> bool" where
  "a < b \<longleftrightarrow> permission_level a < permission_level b"

instance
  by standard (auto simp: less_eq_MemberRole_def less_MemberRole_def permission_level_inj)

end

lemma has_at_least_le: "has_at_least a b \<longleftrightarrow> b \<le> a"
  by (simp add: has_at_least_def less_eq_MemberRole_def)

lemma has_at_least_trans: "has_at_least a b \<Longrightarrow> has_at_least b c \<Longrightarrow> has_at_least a c"
  by (simp add: has_at_least_le)

section \<open>Properties\<close>

lemma hash_or_ws_len_trim_start [simp]: "hash_or_ws_len (trim_start_hash_ws s) = 0"
proof (induction s rule: trim_start_hash_ws.induct)
  case (1 s)
  then show ?case by (subst trim_start_hash_ws.simps) auto
qed

lemma trim_start_hash_ws_id: "hash_or_ws_len s = 0 \<Longrightarrow> trim_start_hash_ws s = s"
  by (simp add: trim_start_hash_ws.simps)

lemma hash_or_ws_len_prefix: "prefix p s \<Longrightarrow> hash_or_ws_len s = 0 \<Longrightarrow> hash_or_ws_len p = 0"
proof (cases p)
  case (Cons a p')
  assume "prefix p s" "hash_or_ws_len s = 0"
  with Cons obtain s' where "s = a # s'" by (cases s) auto
  with Cons \<open>prefix p s\<close> \<open>hash_or_ws_len s = 0\<close> show ?thesis
    using ws_len_prefix [of p s] by (auto split: if_splits simp del: ws_len.simps)
qed simp

lemma canonical_head: "hash_or_ws_len (canonical_channel_name s) = 0"
  unfolding canonical_channel_name_def
  by (rule hash_or_ws_len_prefix [OF prefix_trim_end]) simp

text \<open>
  A canonical channel name starts with neither a hash sign nor white space, ends
  in no white space, and canonicalising it again changes nothing.
\<close>

theorem canonical_name_stable:
  "hash_or_ws_len (canonical_channel_name s) = 0
   \<and> ws_suffix_len (canonical_channel_name s) = 0
   \<and> canonical_channel_name (canonical_channel_name s) = canonical_channel_name s"
proof -
  let ?c = "canonical_channel_name s"
  have e: "ws_suffix_len ?c = 0" by (simp add: canonical_channel_name_def)
  have "canonical_channel_name ?c = ?c"
    by (simp add: canonical_channel_name_def [of ?c] trim_start_hash_ws_id canonical_head trim_end_id e)
  with e canonical_head show ?thesis by blast
qed

text \<open>
  The wire spellings of visibility, channel type and role are read back to the value
  they were written from, and only those spellings are accepted.
\<close>

theorem channel_enums_roundtrip:
  "visibility_from_str s = Inr v \<longleftrightarrow> s = visibility_as_str v"
  "channel_type_from_str s = Inr t \<longleftrightarrow> s = channel_type_as_str t"
  "role_from_str s = Inr r \<longleftrightarrow> s = role_as_str r"
  using visibility.from_str_iff channel_type.from_str_iff role.from_str_iff
  by (simp_all add: res_simps)

end
