(* ===== verification/Git_Perms.thy ===== *)
theory Git_Perms
  imports Channel
begin

text \<open>
  \<open>buzz-core/src/git_perms.rs\<close>: ref patterns, protection rules and the push policy.

  The two \<open>unreachable!()\<close> arms of \<open>RefPattern::matches\<close> are the value \<open>None\<close> of an
  \<open>option\<close>, which the callers hand on, so that a panic is visible in every result.
\<close>

section \<open>Ref patterns\<close>

definition MAX_PROTECTION_RULES :: nat where
  "MAX_PROTECTION_RULES = 50"

definition MAX_PATTERN_LENGTH :: nat where
  "MAX_PATTERN_LENGTH = 256"

definition MAX_WILDCARDS_PER_PATTERN :: nat where
  "MAX_WILDCARDS_PER_PATTERN = 3"

datatype PatternSegment = Literal string | Wildcard | RecursiveWildcard

record RefPattern =
  rp_raw :: string
  rp_segments :: "PatternSegment list"

datatype PatternError =
    PatternEmpty
  | TooLong
  | MissingRefsPrefix
  | InvalidSegment string
  | TooManyWildcards

definition glob_char :: "char \<Rightarrow> bool" where
  "glob_char c \<longleftrightarrow> c = CHR ''*'' \<or> c = CHR ''?'' \<or> c = CHR ''['' \<or> c = CHR '']''"

definition segment_char :: "char \<Rightarrow> bool" where
  "segment_char c \<longleftrightarrow> is_ascii_alphanumeric c \<or> c = CHR ''.'' \<or> c = CHR ''_'' \<or> c = CHR ''-''"

text \<open>The loop over the parts: \<open>n\<close> is their number, \<open>i\<close> the index, \<open>wc\<close> the wildcards so far.\<close>

fun parse_parts :: "nat \<Rightarrow> nat \<Rightarrow> nat \<Rightarrow> string list \<Rightarrow> PatternError + PatternSegment list" where
  "parse_parts n i wc [] = Inr []"
| "parse_parts n i wc (part # parts) =
     (if part = ''**'' then
        if i \<noteq> n - 1 then Inl (InvalidSegment ''** must be the last segment'')
        else if wc + 1 > MAX_WILDCARDS_PER_PATTERN then Inl TooManyWildcards
        else map_ok (\<lambda>segs. RecursiveWildcard # segs) (parse_parts n (i + 1) (wc + 1) parts)
      else if part = ''*'' then
        if wc + 1 > MAX_WILDCARDS_PER_PATTERN then Inl TooManyWildcards
        else map_ok (\<lambda>segs. Wildcard # segs) (parse_parts n (i + 1) (wc + 1) parts)
      else if part = [] then Inl (InvalidSegment [])
      else if list_ex glob_char part then Inl (InvalidSegment part)
      else if \<not> list_all segment_char part then Inl (InvalidSegment part)
      else map_ok (\<lambda>segs. Literal part # segs) (parse_parts n (i + 1) wc parts))"

definition ref_pattern_parse :: "string \<Rightarrow> PatternError + RefPattern" where
  "ref_pattern_parse pattern =
     (if pattern = [] then Inl PatternEmpty
      else if length pattern > MAX_PATTERN_LENGTH then Inl TooLong
      else if \<not> starts_with pattern ''refs/'' then Inl MissingRefsPrefix
      else
        let parts = split_on CHR ''/'' pattern
        in map_ok (\<lambda>segs. \<lparr>rp_raw = pattern, rp_segments = segs\<rparr>) (parse_parts (length parts) 0 0 parts))"

text \<open>\<open>pats.iter().zip(segs).all(...)\<close>: stops at the first mismatch, panics on \<open>**\<close>.\<close>

fun zip_all_match :: "PatternSegment list \<Rightarrow> string list \<Rightarrow> bool option" where
  "zip_all_match (Wildcard # ps) (s # ss) = zip_all_match ps ss"
| "zip_all_match (Literal lit # ps) (s # ss) = (if lit = s then zip_all_match ps ss else Some False)"
| "zip_all_match (RecursiveWildcard # ps) (s # ss) = None"
| "zip_all_match [] ss = Some True"
| "zip_all_match ps [] = Some True"

definition ref_pattern_matches :: "RefPattern \<Rightarrow> string \<Rightarrow> bool option" where
  "ref_pattern_matches p ref_name =
     (let ref_segments = split_on CHR ''/'' ref_name; segs = rp_segments p
      in if segs \<noteq> [] \<and> last segs = RecursiveWildcard then
           let prefix_len = length segs - 1
           in if length ref_segments \<le> prefix_len then Some False
              else zip_all_match (take prefix_len segs) (take prefix_len ref_segments)
         else if length ref_segments \<noteq> length segs then Some False
         else zip_all_match segs ref_segments)"

section \<open>Updates and rules\<close>

datatype UpdateKind = Create | FastForward | NonFastForward | Delete

definition ZERO_OID :: string where
  "ZERO_OID = replicate 40 CHR ''0''"

definition update_kind_classify :: "string \<Rightarrow> string \<Rightarrow> bool \<Rightarrow> UpdateKind" where
  "update_kind_classify old_oid new_oid is_ancestor =
     (if old_oid = ZERO_OID then Create
      else if new_oid = ZERO_OID then Delete
      else if is_ancestor then FastForward
      else NonFastForward)"

record RefUpdate =
  ru_ref_name :: string
  ru_kind :: UpdateKind
  ru_old_oid :: string
  ru_new_oid :: string

record ProtectionRule =
  pr_pattern :: RefPattern
  pr_push_role :: "MemberRole option"
  pr_no_force_push :: bool
  pr_no_delete :: bool
  pr_require_patch :: bool

datatype RuleParseError =
    TooFewValues
  | TooManyRules
  | InvalidPattern PatternError
  | UnknownRule string
  | InvalidRole string

definition stricter_role :: "MemberRole option \<Rightarrow> MemberRole \<Rightarrow> MemberRole option" where
  "stricter_role push_role role = Some (case push_role of
       None \<Rightarrow> role
     | Some existing \<Rightarrow> if permission_level role > permission_level existing then role else existing)"

fun parse_rule_strs ::
  "ProtectionRule \<Rightarrow> string list \<Rightarrow> string list \<Rightarrow> RuleParseError + (ProtectionRule \<times> string list)" where
  "parse_rule_strs rule unknown [] = Inr (rule, unknown)"
| "parse_rule_strs rule unknown (rule_str # rest) =
     (case strip_prefix ''push:'' rule_str of
        Some role_str \<Rightarrow>
          and_then (map_err (\<lambda>_. InvalidRole role_str) (role_from_str role_str)) (\<lambda>role.
            if role = Bot \<or> role = Guest then Inl (InvalidRole role_str)
            else parse_rule_strs (rule\<lparr>pr_push_role := stricter_role (pr_push_role rule) role\<rparr>) unknown rest)
      | None \<Rightarrow>
          if rule_str = ''no-force-push'' then parse_rule_strs (rule\<lparr>pr_no_force_push := True\<rparr>) unknown rest
          else if rule_str = ''no-delete'' then parse_rule_strs (rule\<lparr>pr_no_delete := True\<rparr>) unknown rest
          else if rule_str = ''require-patch'' then parse_rule_strs (rule\<lparr>pr_require_patch := True\<rparr>) unknown rest
          else parse_rule_strs rule (unknown @ [rule_str]) rest)"

definition parse_protection_tag_with_warnings ::
  "string list \<Rightarrow> RuleParseError + (ProtectionRule \<times> string list)" where
  "parse_protection_tag_with_warnings vals =
     (if length vals < 2 then Inl TooFewValues
      else and_then (map_err InvalidPattern (ref_pattern_parse (hd vals))) (\<lambda>pattern.
        parse_rule_strs
          \<lparr>pr_pattern = pattern, pr_push_role = None, pr_no_force_push = False,
           pr_no_delete = False, pr_require_patch = False\<rparr> [] (tl vals)))"

definition parse_protection_tag :: "string list \<Rightarrow> RuleParseError + ProtectionRule" where
  "parse_protection_tag vals = map_ok fst (parse_protection_tag_with_warnings vals)"

record ParsedProtection =
  pp_rules :: "ProtectionRule list"
  pp_unknown_rules :: "string list"

fun parse_protection_loop ::
  "ParsedProtection \<Rightarrow> string list list \<Rightarrow> RuleParseError + ParsedProtection" where
  "parse_protection_loop acc [] = Inr acc"
| "parse_protection_loop acc (tag # tags) =
     (if tag = [] \<or> hd tag \<noteq> ''buzz-protect'' then parse_protection_loop acc tags
      else if length (pp_rules acc) \<ge> MAX_PROTECTION_RULES then Inl TooManyRules
      else and_then (parse_protection_tag_with_warnings (tl tag)) (\<lambda>(rule, unknowns).
        parse_protection_loop
          \<lparr>pp_rules = pp_rules acc @ [rule], pp_unknown_rules = pp_unknown_rules acc @ unknowns\<rparr> tags))"

definition parse_protection_tags :: "string list list \<Rightarrow> RuleParseError + ParsedProtection" where
  "parse_protection_tags tags = parse_protection_loop \<lparr>pp_rules = [], pp_unknown_rules = []\<rparr> tags"

section \<open>Policy\<close>

definition default_min_role :: "string \<Rightarrow> UpdateKind \<Rightarrow> MemberRole" where
  "default_min_role ref_name kind =
     (let is_branch = starts_with ref_name ''refs/heads/''; is_tag = starts_with ref_name ''refs/tags/''
      in case kind of
          Create \<Rightarrow> if is_branch \<or> is_tag then Member else Admin
        | FastForward \<Rightarrow> if is_branch then Member else if is_tag then Admin else Admin
        | NonFastForward \<Rightarrow> Admin
        | Delete \<Rightarrow> Admin)"

record EffectiveRules =
  er_push_role :: "MemberRole option"
  er_no_force_push :: bool
  er_no_delete :: bool
  er_require_patch :: bool
  er_has_explicit_match :: bool

definition union_rule :: "ProtectionRule \<Rightarrow> EffectiveRules \<Rightarrow> EffectiveRules" where
  "union_rule rule e =
     \<lparr>er_push_role = (case pr_push_role rule of None \<Rightarrow> er_push_role e
                      | Some role \<Rightarrow> stricter_role (er_push_role e) role),
      er_no_force_push = (er_no_force_push e \<or> pr_no_force_push rule),
      er_no_delete = (er_no_delete e \<or> pr_no_delete rule),
      er_require_patch = (er_require_patch e \<or> pr_require_patch rule),
      er_has_explicit_match = True\<rparr>"

fun for_ref_loop :: "string \<Rightarrow> EffectiveRules \<Rightarrow> ProtectionRule list \<Rightarrow> EffectiveRules option" where
  "for_ref_loop ref_name e [] = Some e"
| "for_ref_loop ref_name e (rule # rules) =
     (case ref_pattern_matches (pr_pattern rule) ref_name of
        None \<Rightarrow> None
      | Some b \<Rightarrow> for_ref_loop ref_name (if b then union_rule rule e else e) rules)"

definition effective_rules_for_ref :: "string \<Rightarrow> ProtectionRule list \<Rightarrow> EffectiveRules option" where
  "effective_rules_for_ref ref_name rules = for_ref_loop ref_name
     \<lparr>er_push_role = None, er_no_force_push = False, er_no_delete = False,
      er_require_patch = False, er_has_explicit_match = False\<rparr> rules"

record Denial =
  dn_ref_name :: string
  dn_reason :: string

definition min_push_role :: "MemberRole option \<Rightarrow> MemberRole \<Rightarrow> MemberRole" where
  "min_push_role push_role default_role = (case push_role of
       Some explicit \<Rightarrow> if permission_level explicit \<ge> permission_level default_role then explicit else default_role
     | None \<Rightarrow> default_role)"

definition judge_update :: "RefUpdate \<Rightarrow> MemberRole \<Rightarrow> EffectiveRules \<Rightarrow> Denial + unit" where
  "judge_update update role effective =
     (let deny = (\<lambda>reason. Inl \<lparr>dn_ref_name = ru_ref_name update, dn_reason = reason\<rparr>);
          default_role = default_min_role (ru_ref_name update) (ru_kind update);
          min_role = min_push_role (er_push_role effective) default_role
      in if \<not> er_has_explicit_match effective then
           if \<not> has_at_least role default_role then
             deny (''requires '' @ role_as_str default_role @ '' role (you have '' @ role_as_str role
                   @ ''), using built-in defaults'')
           else Inr ()
         else if er_require_patch effective then
           deny ''direct push denied: require-patch is set, submit a NIP-34 patch''
         else if \<not> has_at_least role min_role then
           deny (''requires '' @ role_as_str min_role @ '' role (you have '' @ role_as_str role @ '')'')
         else if er_no_force_push effective \<and> ru_kind update = NonFastForward then
           deny ''non-fast-forward update denied: no-force-push is set''
         else if er_no_delete effective \<and> ru_kind update = Delete then
           deny ''ref deletion denied: no-delete is set''
         else Inr ())"

definition evaluate_ref_update ::
  "RefUpdate \<Rightarrow> MemberRole \<Rightarrow> ProtectionRule list \<Rightarrow> (Denial + unit) option" where
  "evaluate_ref_update update role rules =
     map_option (judge_update update role) (effective_rules_for_ref (ru_ref_name update) rules)"

fun collect_denials ::
  "MemberRole \<Rightarrow> ProtectionRule list \<Rightarrow> RefUpdate list \<Rightarrow> Denial list option" where
  "collect_denials role rules [] = Some []"
| "collect_denials role rules (u # us) =
     (case evaluate_ref_update u role rules of
        None \<Rightarrow> None
      | Some (Inl d) \<Rightarrow> map_option (\<lambda>ds. d # ds) (collect_denials role rules us)
      | Some (Inr _) \<Rightarrow> collect_denials role rules us)"

definition evaluate_push ::
  "RefUpdate list \<Rightarrow> MemberRole \<Rightarrow> ProtectionRule list \<Rightarrow> (Denial list + unit) option" where
  "evaluate_push updates role rules =
     map_option (\<lambda>denials. if denials = [] then Inr () else Inl denials) (collect_denials role rules updates)"

section \<open>What a pattern matches\<close>

fun segment_str :: "PatternSegment \<Rightarrow> string" where
  "segment_str (Literal lit) = lit"
| "segment_str Wildcard = ''*''"
| "segment_str RecursiveWildcard = ''**''"

fun segment_fits :: "PatternSegment \<Rightarrow> string \<Rightarrow> bool" where
  "segment_fits (Literal lit) s \<longleftrightarrow> lit = s"
| "segment_fits Wildcard s \<longleftrightarrow> True"
| "segment_fits RecursiveWildcard s \<longleftrightarrow> False"

text \<open>The meaning of a pattern: segment by segment, \<open>**\<close> at the end for one or more.\<close>

definition pattern_covers :: "PatternSegment list \<Rightarrow> string list \<Rightarrow> bool" where
  "pattern_covers segs ss \<longleftrightarrow>
     list_all2 segment_fits segs ss
   \<or> (\<exists>pre a b. segs = pre @ [RecursiveWildcard] \<and> ss = a @ b \<and> b \<noteq> [] \<and> list_all2 segment_fits pre a)"

definition segments_ok :: "PatternSegment list \<Rightarrow> bool" where
  "segments_ok segs \<longleftrightarrow> RecursiveWildcard \<notin> set (butlast segs)"

definition wildcard_count :: "PatternSegment list \<Rightarrow> nat" where
  "wildcard_count segs = length (filter (\<lambda>s. s = Wildcard \<or> s = RecursiveWildcard) segs)"

lemma parse_parts_shape:
  assumes "parse_parts n i wc parts = Inr segs" and "n = i + length parts" and "wc \<le> MAX_WILDCARDS_PER_PATTERN"
  shows "map segment_str segs = parts" and "segments_ok segs"
    and "wc + wildcard_count segs \<le> MAX_WILDCARDS_PER_PATTERN"
proof -
  have "map segment_str segs = parts \<and> segments_ok segs \<and> wc + wildcard_count segs \<le> MAX_WILDCARDS_PER_PATTERN"
    using assms
  proof (induction n i wc parts arbitrary: segs rule: parse_parts.induct)
    case (1 n i wc)
    then show ?case by (simp add: segments_ok_def wildcard_count_def)
  next
    case (2 n i wc part parts)
    consider (rec) "part = ''**''" | (wild) "part = ''*''" | (lit) "part \<noteq> ''**''" "part \<noteq> ''*''" by blast
    then show ?case
    proof cases
      case rec
      with 2 show ?thesis
        by (auto simp: res_simps segments_ok_def wildcard_count_def split: if_splits)
    next
      case wild
      with 2 show ?thesis
        by (fastforce simp: res_simps segments_ok_def wildcard_count_def split: if_splits)
    next
      case lit
      with 2 show ?thesis
        by (fastforce simp: res_simps segments_ok_def wildcard_count_def split: if_splits)
    qed
  qed
  then show "map segment_str segs = parts" "segments_ok segs"
    "wc + wildcard_count segs \<le> MAX_WILDCARDS_PER_PATTERN" by auto
qed

lemma zip_all_match_fits:
  "RecursiveWildcard \<notin> set ps \<Longrightarrow> length ps = length ss \<Longrightarrow>
     zip_all_match ps ss = Some (list_all2 segment_fits ps ss)"
  by (induction ps ss rule: zip_all_match.induct) auto

lemma list_all2_no_recursive: "list_all2 segment_fits ps ss \<Longrightarrow> RecursiveWildcard \<notin> set ps"
  by (induction rule: list_all2_induct) auto

lemma matches_covers:
  assumes "segments_ok (rp_segments p)"
  shows "ref_pattern_matches p r = Some (pattern_covers (rp_segments p) (split_on CHR ''/'' r))"
proof (cases "rp_segments p \<noteq> [] \<and> last (rp_segments p) = RecursiveWildcard")
  case True
  then obtain pre where pre: "rp_segments p = pre @ [RecursiveWildcard]" by (metis append_butlast_last_id)
  then have no: "RecursiveWildcard \<notin> set pre" using assms by (simp add: segments_ok_def)
  let ?ss = "split_on CHR ''/'' r" and ?n = "length pre"
  have not_flat: "\<not> list_all2 segment_fits (pre @ [RecursiveWildcard]) ?ss"
    using list_all2_no_recursive by fastforce
  have "pattern_covers (rp_segments p) ?ss \<longleftrightarrow> ?n < length ?ss \<and> list_all2 segment_fits pre (take ?n ?ss)"
  proof
    assume "pattern_covers (rp_segments p) ?ss"
    then obtain a b where ab: "?ss = a @ b" "b \<noteq> []" "list_all2 segment_fits pre a"
      using pre not_flat by (auto simp: pattern_covers_def)
    moreover have "length a = ?n" using ab(3) by (simp add: list_all2_lengthD)
    ultimately show "?n < length ?ss \<and> list_all2 segment_fits pre (take ?n ?ss)" by auto
  next
    assume *: "?n < length ?ss \<and> list_all2 segment_fits pre (take ?n ?ss)"
    moreover have "?ss = take ?n ?ss @ drop ?n ?ss" "drop ?n ?ss \<noteq> []" using * by auto
    ultimately show "pattern_covers (rp_segments p) ?ss" unfolding pattern_covers_def pre by blast
  qed
  with pre no show ?thesis
    by (auto simp: ref_pattern_matches_def Let_def zip_all_match_fits)
next
  case False
  then have "\<nexists>pre. rp_segments p = pre @ [RecursiveWildcard]" by auto
  then have cov: "pattern_covers (rp_segments p) ss \<longleftrightarrow> list_all2 segment_fits (rp_segments p) ss" for ss
    by (auto simp: pattern_covers_def)
  have "RecursiveWildcard \<notin> set (rp_segments p)"
    using False assms unfolding segments_ok_def
    by (cases "rp_segments p" rule: rev_cases) auto
  with False show ?thesis
  proof (cases "length (split_on CHR ''/'' r) = length (rp_segments p)")
    case False
    then have "\<not> list_all2 segment_fits (rp_segments p) (split_on CHR ''/'' r)"
      by (auto dest: list_all2_lengthD)
    with False \<open>\<not> (rp_segments p \<noteq> [] \<and> last (rp_segments p) = RecursiveWildcard)\<close>
    show ?thesis by (auto simp: ref_pattern_matches_def Let_def cov)
  qed (auto simp: ref_pattern_matches_def Let_def cov zip_all_match_fits)
qed

lemma ref_pattern_parse_ok:
  assumes "ref_pattern_parse s = Inr p"
  shows "rp_raw p = s" and "map segment_str (rp_segments p) = split_on CHR ''/'' s"
    and "segments_ok (rp_segments p)" and "wildcard_count (rp_segments p) \<le> MAX_WILDCARDS_PER_PATTERN"
    and "length s \<le> MAX_PATTERN_LENGTH"
proof -
  obtain segs where segs: "parse_parts (length (split_on CHR ''/'' s)) 0 0 (split_on CHR ''/'' s) = Inr segs"
    "p = \<lparr>rp_raw = s, rp_segments = segs\<rparr>" "length s \<le> MAX_PATTERN_LENGTH"
    using assms by (auto simp: ref_pattern_parse_def Let_def res_simps split: if_splits)
  from parse_parts_shape [OF segs(1)] segs
  show "rp_raw p = s" "map segment_str (rp_segments p) = split_on CHR ''/'' s" "segments_ok (rp_segments p)"
    "wildcard_count (rp_segments p) \<le> MAX_WILDCARDS_PER_PATTERN" "length s \<le> MAX_PATTERN_LENGTH"
    by simp_all
qed

section \<open>What the policy allows\<close>

definition rule_ok :: "ProtectionRule \<Rightarrow> bool" where
  "rule_ok rule \<longleftrightarrow> segments_ok (rp_segments (pr_pattern rule))"

definition rule_applies :: "string \<Rightarrow> ProtectionRule \<Rightarrow> bool" where
  "rule_applies ref_name rule \<longleftrightarrow> pattern_covers (rp_segments (pr_pattern rule)) (split_on CHR ''/'' ref_name)"

text \<open>What one rule permits, on its own.\<close>

definition rule_permits :: "MemberRole \<Rightarrow> UpdateKind \<Rightarrow> ProtectionRule \<Rightarrow> bool" where
  "rule_permits role kind rule \<longleftrightarrow>
     \<not> pr_require_patch rule
   \<and> pred_option (\<lambda>required. required \<le> role) (pr_push_role rule)
   \<and> \<not> (pr_no_force_push rule \<and> kind = NonFastForward)
   \<and> \<not> (pr_no_delete rule \<and> kind = Delete)"

text \<open>The abstract policy: the built-in default and every rule that applies agree.\<close>

definition push_permitted :: "RefUpdate \<Rightarrow> MemberRole \<Rightarrow> ProtectionRule list \<Rightarrow> bool" where
  "push_permitted u role rules \<longleftrightarrow>
     default_min_role (ru_ref_name u) (ru_kind u) \<le> role
   \<and> list_all (rule_permits role (ru_kind u)) (filter (rule_applies (ru_ref_name u)) rules)"

lemma parse_rule_strs_pattern:
  "parse_rule_strs rule unknown strs = Inr (rule', unknown') \<Longrightarrow> pr_pattern rule' = pr_pattern rule"
  by (induction rule unknown strs rule: parse_rule_strs.induct)
    (auto simp: res_simps split: option.splits if_splits)

lemma parse_protection_tag_ok:
  assumes "parse_protection_tag_with_warnings vals = Inr (rule, unknown)"
  shows "rule_ok rule"
proof -
  from assms obtain p where p: "ref_pattern_parse (hd vals) = Inr p" and "pr_pattern rule = p"
    by (auto simp: parse_protection_tag_with_warnings_def res_simps split: if_splits dest: parse_rule_strs_pattern)
  with ref_pattern_parse_ok(3) [OF p] show ?thesis by (simp add: rule_ok_def)
qed

lemma parse_protection_loop_ok:
  assumes "parse_protection_loop acc tags = Inr p" and "list_all rule_ok (pp_rules acc)"
    and "length (pp_rules acc) \<le> MAX_PROTECTION_RULES"
  shows "list_all rule_ok (pp_rules p) \<and> length (pp_rules p) \<le> MAX_PROTECTION_RULES"
  using assms
proof (induction acc tags rule: parse_protection_loop.induct)
  case (2 acc tag tags)
  then show ?case
    by (auto simp: res_simps split: if_splits prod.splits dest!: parse_protection_tag_ok)
qed simp

lemma parsed_rules_ok:
  assumes "parse_protection_tags tags = Inr p"
  shows "list_all rule_ok (pp_rules p)" and "length (pp_rules p) \<le> MAX_PROTECTION_RULES"
  using parse_protection_loop_ok [OF assms [unfolded parse_protection_tags_def]] by auto

lemma for_ref_loop_total:
  "list_all rule_ok rules \<Longrightarrow>
     for_ref_loop ref_name e rules = Some (fold union_rule (filter (rule_applies ref_name) rules) e)"
  by (induction rules arbitrary: e) (auto simp: rule_ok_def rule_applies_def matches_covers)

lemma stricter_role_le: "pred_option (\<lambda>r. r \<le> role) (stricter_role x y) \<longleftrightarrow> pred_option (\<lambda>r. r \<le> role) x \<and> y \<le> role"
  by (cases x) (auto simp: stricter_role_def less_eq_MemberRole_def)

lemma union_rules_permit:
  "\<not> er_require_patch (fold union_rule rules e)
   \<and> pred_option (\<lambda>r. r \<le> role) (er_push_role (fold union_rule rules e))
   \<and> \<not> (er_no_force_push (fold union_rule rules e) \<and> kind = NonFastForward)
   \<and> \<not> (er_no_delete (fold union_rule rules e) \<and> kind = Delete)
   \<longleftrightarrow> list_all (rule_permits role kind) rules
     \<and> \<not> er_require_patch e \<and> pred_option (\<lambda>r. r \<le> role) (er_push_role e)
     \<and> \<not> (er_no_force_push e \<and> kind = NonFastForward) \<and> \<not> (er_no_delete e \<and> kind = Delete)"
proof (induction rules arbitrary: e)
  case (Cons rule rules)
  show ?case
    unfolding fold_simps Cons.IH list.pred_inject
    by (cases "pr_push_role rule") (auto simp: union_rule_def rule_permits_def stricter_role_le)
qed simp

lemma union_rules_explicit:
  "er_has_explicit_match (fold union_rule rules e) \<longleftrightarrow> rules \<noteq> [] \<or> er_has_explicit_match e"
  by (induction rules arbitrary: e) (auto simp: union_rule_def)

lemma min_push_role_le: "min_push_role x d \<le> role \<longleftrightarrow> d \<le> role \<and> pred_option (\<lambda>r. r \<le> role) x"
  by (cases x) (auto simp: min_push_role_def less_eq_MemberRole_def)

lemma judge_update_Inr:
  "judge_update u role e = Inr x \<longleftrightarrow>
     default_min_role (ru_ref_name u) (ru_kind u) \<le> role
   \<and> (er_has_explicit_match e \<longrightarrow>
        \<not> er_require_patch e \<and> pred_option (\<lambda>r. r \<le> role) (er_push_role e)
      \<and> \<not> (er_no_force_push e \<and> ru_kind u = NonFastForward) \<and> \<not> (er_no_delete e \<and> ru_kind u = Delete))"
  by (auto simp: judge_update_def Let_def has_at_least_le min_push_role_le)

lemma judge_update_denies:
  "case judge_update u role e of Inl d \<Rightarrow> dn_ref_name d = ru_ref_name u | Inr _ \<Rightarrow> True"
  unfolding judge_update_def Let_def by (simp only: sum.case Denial.simps split: if_split) blast

lemma evaluate_ref_update_total:
  assumes "list_all rule_ok rules"
  shows "\<exists>x. evaluate_ref_update u role rules = Some x \<and> ((x = Inr ()) \<longleftrightarrow> push_permitted u role rules)
    \<and> (\<forall>d. x = Inl d \<longrightarrow> dn_ref_name d = ru_ref_name u)"
proof -
  define e0 where "e0 = \<lparr>er_push_role = None, er_no_force_push = False, er_no_delete = False,
      er_require_patch = False, er_has_explicit_match = False\<rparr>"
  define rs where "rs = filter (rule_applies (ru_ref_name u)) rules"
  define e where "e = fold union_rule rs e0"
  have ev: "evaluate_ref_update u role rules = Some (judge_update u role e)"
    by (simp add: evaluate_ref_update_def effective_rules_for_ref_def for_ref_loop_total [OF assms] e_def rs_def e0_def)
  have e0: "\<not> er_require_patch e0" "er_push_role e0 = None" "\<not> er_no_force_push e0" "\<not> er_no_delete e0"
    "\<not> er_has_explicit_match e0" by (simp_all add: e0_def)
  have permit: "\<not> er_require_patch e \<and> pred_option (\<lambda>r. r \<le> role) (er_push_role e)
      \<and> \<not> (er_no_force_push e \<and> ru_kind u = NonFastForward) \<and> \<not> (er_no_delete e \<and> ru_kind u = Delete)
      \<longleftrightarrow> list_all (rule_permits role (ru_kind u)) rs"
    unfolding e_def union_rules_permit by (simp add: e0)
  have "er_has_explicit_match e \<longleftrightarrow> rs \<noteq> []" unfolding e_def union_rules_explicit by (simp add: e0)
  then have "judge_update u role e = Inr () \<longleftrightarrow> push_permitted u role rules"
    unfolding judge_update_Inr push_permitted_def permit rs_def [symmetric] by auto
  moreover have "judge_update u role e = Inl d \<Longrightarrow> dn_ref_name d = ru_ref_name u" for d
    using judge_update_denies [of u role e] by simp
  ultimately show ?thesis using ev by blast
qed

lemma collect_denials_total:
  assumes "list_all rule_ok rules"
  shows "\<exists>ds. collect_denials role rules us = Some ds
    \<and> map dn_ref_name ds = map ru_ref_name (filter (\<lambda>u. \<not> push_permitted u role rules) us)"
proof (induction us)
  case (Cons u us)
  obtain x where "evaluate_ref_update u role rules = Some x" "(x = Inr ()) \<longleftrightarrow> push_permitted u role rules"
    "\<forall>d. x = Inl d \<longrightarrow> dn_ref_name d = ru_ref_name u"
    using evaluate_ref_update_total [OF assms] by blast
  with Cons show ?case by (cases x) auto
qed simp

section \<open>Properties\<close>

text \<open>
  C19: a push to a repository whose rules parsed never panics, and it is allowed exactly
  when every ref update meets the built-in default role and every protection rule whose
  pattern covers the ref permits it; otherwise one denial is reported for each refused
  ref, in the order of the push.
\<close>

theorem evaluate_push_refines:
  assumes "parse_protection_tags tags = Inr p"
  shows "\<exists>ds. evaluate_push us role (pp_rules p) = Some (if ds = [] then Inr () else Inl ds)
    \<and> map dn_ref_name ds = map ru_ref_name (filter (\<lambda>u. \<not> push_permitted u role (pp_rules p)) us)"
proof -
  obtain ds where ds: "collect_denials role (pp_rules p) us = Some ds"
    and "map dn_ref_name ds = map ru_ref_name (filter (\<lambda>u. \<not> push_permitted u role (pp_rules p)) us)"
    using collect_denials_total [OF parsed_rules_ok(1) [OF assms]] by blast
  moreover have "evaluate_push us role (pp_rules p) = Some (if ds = [] then Inr () else Inl ds)"
    by (simp add: evaluate_push_def ds)
  ultimately show ?thesis by blast
qed

definition demo_rules :: "string list list" where
  "demo_rules = [[''buzz-protect'', ''refs/heads/*'', ''push:member'', ''no-force-push'']]"

definition demo_update :: "UpdateKind \<Rightarrow> RefUpdate" where
  "demo_update k = \<lparr>ru_ref_name = ''refs/heads/main'', ru_kind = k, ru_old_oid = ''a'', ru_new_oid = ''b''\<rparr>"

definition demo_protection :: ParsedProtection where
  "demo_protection = \<lparr>pp_rules = [\<lparr>pr_pattern = \<lparr>rp_raw = ''refs/heads/*'',
       rp_segments = [Literal ''refs'', Literal ''heads'', Wildcard]\<rparr>, pr_push_role = Some Member,
       pr_no_force_push = True, pr_no_delete = False, pr_require_patch = False\<rparr>], pp_unknown_rules = []\<rparr>"

lemmas pattern_eval = ref_pattern_parse_def starts_with_def glob_char_def segment_char_def
  is_ascii_alphanumeric_def is_ascii_digit_def is_ascii_lowercase_def is_ascii_uppercase_def byte_def
  MAX_PATTERN_LENGTH_def MAX_WILDCARDS_PER_PATTERN_def

lemma demo_rules_parse: "parse_protection_tags demo_rules = Inr demo_protection"
  by (simp add: parse_protection_tags_def demo_rules_def demo_protection_def MAX_PROTECTION_RULES_def
      parse_protection_tag_with_warnings_def strip_prefix_def role_from_str_def stricter_role_def pattern_eval)

theorem evaluate_push_refines_witness:
  "\<exists>ds. evaluate_push [demo_update FastForward, demo_update NonFastForward] Owner (pp_rules demo_protection) =
      Some (if ds = [] then Inr () else Inl ds)
    \<and> map dn_ref_name ds = map ru_ref_name (filter (\<lambda>u. \<not> push_permitted u Owner (pp_rules demo_protection))
        [demo_update FastForward, demo_update NonFastForward])"
  by (rule evaluate_push_refines [OF demo_rules_parse])

text \<open>
  Protection rules only restrict and roles only enable: an update that is allowed to a
  role under some rules stays allowed to every higher role under any subset of the rules,
  in any order.
\<close>

theorem protection_only_restricts:
  assumes "list_all rule_ok rules'" and "set rules \<subseteq> set rules'" and "role' \<le> role"
    and "evaluate_ref_update u role' rules' = Some (Inr ())"
  shows "evaluate_ref_update u role rules = Some (Inr ())"
proof -
  have ok: "list_all rule_ok rules" using assms(1,2) by (auto simp: list_all_iff)
  have mono: "rule_permits role' k r \<Longrightarrow> rule_permits role k r" for k r
    using assms(3) by (cases "pr_push_role r") (auto simp: rule_permits_def)
  have "push_permitted u role' rules'" using evaluate_ref_update_total [OF assms(1), of u role'] assms(4) by auto
  then have "push_permitted u role rules"
    using assms(2,3) mono by (auto simp: push_permitted_def list_all_iff)
  then show ?thesis using evaluate_ref_update_total [OF ok, of u role] by auto
qed

theorem protection_only_restricts_witness:
  "evaluate_ref_update (demo_update FastForward) Admin [] = Some (Inr ())"
proof (rule protection_only_restricts)
  show "list_all rule_ok (pp_rules demo_protection)" by (rule parsed_rules_ok [OF demo_rules_parse])
  show "evaluate_ref_update (demo_update FastForward) Member (pp_rules demo_protection) = Some (Inr ())"
    by (simp add: evaluate_ref_update_def effective_rules_for_ref_def demo_protection_def demo_update_def
        ref_pattern_matches_def union_rule_def stricter_role_def judge_update_Inr default_min_role_def
        starts_with_def less_eq_MemberRole_def)
  show "Member \<le> Admin" by (simp add: less_eq_MemberRole_def)
qed simp

text \<open>
  Guests and bots can change no ref, whatever the rules say.
\<close>

theorem guests_and_bots_never_push:
  "evaluate_ref_update u Guest rules \<noteq> Some (Inr x) \<and> evaluate_ref_update u Bot rules \<noteq> Some (Inr x)"
proof -
  have "Member \<le> default_min_role r k" for r k
    by (cases k) (auto simp: default_min_role_def Let_def less_eq_MemberRole_def)
  moreover have "\<not> Member \<le> Guest" "\<not> Member \<le> Bot" by (simp_all add: less_eq_MemberRole_def)
  ultimately have "\<not> default_min_role r k \<le> Guest" "\<not> default_min_role r k \<le> Bot" for r k
    using order_trans by blast+
  then show ?thesis by (auto simp: evaluate_ref_update_def judge_update_Inr)
qed

text \<open>
  A pattern that parses keeps its text, its segments spell that text, it holds at most
  three wildcards with \<open>**\<close> only at the end, and matching a ref is the declarative
  segment-by-segment meaning and never reaches the \<open>unreachable!()\<close> arms.
\<close>

theorem parsed_pattern_matches:
  assumes "ref_pattern_parse s = Inr p"
  shows "rp_raw p = s \<and> join_with CHR ''/'' (map segment_str (rp_segments p)) = s
    \<and> wildcard_count (rp_segments p) \<le> 3 \<and> segments_ok (rp_segments p)
    \<and> ref_pattern_matches p r = Some (pattern_covers (rp_segments p) (split_on CHR ''/'' r))"
  using ref_pattern_parse_ok [OF assms] matches_covers by (simp add: MAX_WILDCARDS_PER_PATTERN_def)

theorem parsed_pattern_matches_witness:
  "ref_pattern_matches \<lparr>rp_raw = ''refs/heads/**'', rp_segments = [Literal ''refs'', Literal ''heads'', RecursiveWildcard]\<rparr> ''refs/heads/a/b''
     = Some (pattern_covers [Literal ''refs'', Literal ''heads'', RecursiveWildcard] (split_on CHR ''/'' ''refs/heads/a/b''))"
proof -
  have "ref_pattern_parse ''refs/heads/**'' =
      Inr \<lparr>rp_raw = ''refs/heads/**'', rp_segments = [Literal ''refs'', Literal ''heads'', RecursiveWildcard]\<rparr>"
    by (simp add: pattern_eval)
  from parsed_pattern_matches [OF this, of "''refs/heads/a/b''"] show ?thesis by (simp only: RefPattern.simps)
qed

end
