(* ===== verification/Usage_Record.thy ===== *)
theory Usage_Record
  imports Colony_Interfaces
begin

text \<open>
  The evidence the cost ledger reads: the \<open>kind:44210\<close> usage record of
  \<open>buzz-core/src/usage_record.rs\<close> with its structural validation, and the parts of
  \<open>buzz-core/src/company.rs\<close> it rests on: the work-context snapshot, its identifier rule
  and the deterministic cost classification.

  Token counts and amounts are 64-bit words. The messages of the errors are constructors.
  Encryption (NIP-44, in the \<open>nostr\<close> crate) is a pair of parameters.
\<close>

section \<open>Work context (company.rs)\<close>

datatype CommercialPurpose =
  ClientDelivery | Sales | Marketing | Administration | InternalProduct | Uncertain

datatype CostClassification = Cogs | Opex | NeedsReview

datatype AttributionState = Explicit | Inherited | ImplicitTask

record AgentWorkContext =
  wc_task_id :: string
  wc_initiative_id :: "string option"
  wc_owning_team_id :: "string option"
  wc_cost_centre_id :: string
  wc_commercial_purpose :: CommercialPurpose
  wc_cost_classification :: CostClassification
  wc_attribution_state :: AttributionState
  wc_client_organization_id :: "string option"

datatype CompanyContractError = InvalidIdentifier string | CostClassificationMismatch

definition MAX_ID_LEN :: nat where
  "MAX_ID_LEN = 128"

definition classify_cost :: "CommercialPurpose \<Rightarrow> string option \<Rightarrow> CostClassification" where
  "classify_cost purpose client_organization_id = (case purpose of
       ClientDelivery \<Rightarrow>
         (case client_organization_id of
            Some client \<Rightarrow> if trim client \<noteq> [] then Cogs else NeedsReview
          | None \<Rightarrow> NeedsReview)
     | Uncertain \<Rightarrow> NeedsReview
     | Sales \<Rightarrow> Opex
     | Marketing \<Rightarrow> Opex
     | Administration \<Rightarrow> Opex
     | InternalProduct \<Rightarrow> Opex)"

definition id_byte :: "char \<Rightarrow> bool" where
  "id_byte c \<longleftrightarrow> is_ascii_lowercase c \<or> is_ascii_digit c
     \<or> c = CHR ''.'' \<or> c = CHR ''_'' \<or> c = CHR '':'' \<or> c = CHR ''-''"

definition validate_id :: "string \<Rightarrow> string \<Rightarrow> CompanyContractError + unit" where
  "validate_id val field = (case val of
       [] \<Rightarrow> Inl (InvalidIdentifier field)
     | first # rest \<Rightarrow>
        if length val > MAX_ID_LEN
           \<or> (\<not> is_ascii_lowercase first \<and> \<not> is_ascii_digit first)
           \<or> \<not> list_all id_byte rest
        then Inl (InvalidIdentifier field)
        else Inr ())"

definition validate_optional_id :: "string option \<Rightarrow> string \<Rightarrow> CompanyContractError + unit" where
  "validate_optional_id val field = (case val of
       Some v \<Rightarrow> validate_id v field
     | None \<Rightarrow> Inr ())"

definition work_context_validate :: "AgentWorkContext \<Rightarrow> CompanyContractError + unit" where
  "work_context_validate wc =
     and_then (validate_id (wc_task_id wc) ''workContext.taskId'') (\<lambda>_.
     and_then (validate_optional_id (wc_initiative_id wc) ''workContext.initiativeId'') (\<lambda>_.
     and_then (validate_optional_id (wc_owning_team_id wc) ''workContext.owningTeamId'') (\<lambda>_.
     and_then (validate_id (wc_cost_centre_id wc) ''workContext.costCentreId'') (\<lambda>_.
     and_then (validate_optional_id (wc_client_organization_id wc) ''workContext.clientOrganizationId'') (\<lambda>_.
       if wc_cost_classification wc \<noteq> classify_cost (wc_commercial_purpose wc) (wc_client_organization_id wc)
       then Inl CostClassificationMismatch
       else Inr ())))))"

section \<open>Usage records (usage_record.rs)\<close>

record UsageBreakdown =
  input_uncached_tokens :: u64
  cache_read_tokens :: u64
  cache_write_5m_tokens :: u64
  cache_write_1h_tokens :: u64
  output_tokens :: u64

datatype PaymentMode = Metered | Imputed

datatype UsageSource = Wire | AdapterEstimate | Manual

datatype UsageTokenField = CacheRead | CacheWrite5m | CacheWrite1h

record UsageRecordPayload =
  ur_source :: UsageSource
  ur_provider :: string
  ur_request_id :: string
  ur_model :: "string option"
  ur_timestamp :: string
  ur_payment_mode :: PaymentMode
  ur_tokens :: "UsageBreakdown option"
  ur_unknown_token_fields :: "UsageTokenField list"
  ur_amount_nanousd :: "u64 option"
  ur_observed_cost_nanousd :: "u64 option"
  ur_harness :: "string option"
  ur_session_id :: "string option"
  ur_turn_id :: "string option"
  ur_http_status :: "nat option"
  ur_description :: "string option"
  ur_agent_pubkey :: "string option"
  ur_channel_id :: "string option"
  ur_work_context :: "AgentWorkContext option"

datatype UsageRecordError =
    BlankProvider
  | BlankRequestId
  | BothTokensAndAmount
  | NeitherTokensNorAmount
  | ObservedWithAmount
  | BadWorkContext CompanyContractError
  | UnknownFieldsOnWire
  | UnknownFieldsWithoutTokens
  | CryptoError string

definition usage_record_validate :: "UsageRecordPayload \<Rightarrow> UsageRecordError + unit" where
  "usage_record_validate p =
     (if trim (ur_provider p) = [] then Inl BlankProvider
      else if trim (ur_request_id p) = [] then Inl BlankRequestId
      else if ur_tokens p \<noteq> None \<and> ur_amount_nanousd p \<noteq> None then Inl BothTokensAndAmount
      else if ur_tokens p = None \<and> ur_amount_nanousd p = None then Inl NeitherTokensNorAmount
      else if ur_observed_cost_nanousd p \<noteq> None \<and> ur_amount_nanousd p \<noteq> None then Inl ObservedWithAmount
      else and_then (case ur_work_context p of
                       Some wc \<Rightarrow> map_err BadWorkContext (work_context_validate wc)
                     | None \<Rightarrow> Inr ()) (\<lambda>_.
        if ur_source p = Wire \<and> ur_unknown_token_fields p \<noteq> [] then Inl UnknownFieldsOnWire
        else if ur_tokens p = None \<and> ur_unknown_token_fields p \<noteq> [] then Inl UnknownFieldsWithoutTokens
        else Inr ()))"

definition encrypt_usage_record ::
  "(UsageRecordPayload \<Rightarrow> UsageRecordError + string) \<Rightarrow> UsageRecordPayload \<Rightarrow> UsageRecordError + string" where
  "encrypt_usage_record encrypt_observer_payload payload =
     and_then (usage_record_validate payload) (\<lambda>_. encrypt_observer_payload payload)"

definition decrypt_usage_record ::
  "('ev \<Rightarrow> UsageRecordError + UsageRecordPayload) \<Rightarrow> 'ev \<Rightarrow> UsageRecordError + UsageRecordPayload" where
  "decrypt_usage_record decrypt_observer_payload event =
     and_then (decrypt_observer_payload event) (\<lambda>payload.
       map_ok (\<lambda>_. payload) (usage_record_validate payload))"

section \<open>Properties\<close>

lemma validate_ok_shape:
  assumes "usage_record_validate p = Inr u"
  shows "(ur_tokens p = None) \<longleftrightarrow> (ur_amount_nanousd p \<noteq> None)"
    and "ur_amount_nanousd p \<noteq> None \<Longrightarrow> ur_observed_cost_nanousd p = None"
    and "pred_option (\<lambda>wc. work_context_validate wc = Inr ()) (ur_work_context p)"
  using assms by (auto simp: usage_record_validate_def res_simps split: if_splits option.splits)

text \<open>
  A decrypted usage record carries exactly one of a token count and an amount, an
  observed cost only beside tokens, and a work context whose classification is the one
  its purpose and client give.
\<close>

theorem decrypted_record_valid:
  assumes "decrypt_usage_record dec ev = Inr p"
  shows "(ur_tokens p = None) = (ur_amount_nanousd p \<noteq> None)
    \<and> \<not> (ur_amount_nanousd p \<noteq> None \<and> ur_observed_cost_nanousd p \<noteq> None)
    \<and> pred_option (\<lambda>wc. wc_cost_classification wc =
         classify_cost (wc_commercial_purpose wc) (wc_client_organization_id wc)) (ur_work_context p)"
proof -
  have v: "usage_record_validate p = Inr ()" using assms by (auto simp: decrypt_usage_record_def res_simps)
  have "pred_option (\<lambda>wc. wc_cost_classification wc =
         classify_cost (wc_commercial_purpose wc) (wc_client_organization_id wc)) (ur_work_context p)"
    using validate_ok_shape(3) [OF v]
    by (cases "ur_work_context p") (auto simp: work_context_validate_def res_simps split: if_splits)
  with validate_ok_shape(1,2) [OF v] show ?thesis by auto
qed

definition demo_tokens :: UsageBreakdown where
  "demo_tokens = \<lparr>input_uncached_tokens = 1000000, cache_read_tokens = 0, cache_write_5m_tokens = 0,
     cache_write_1h_tokens = 0, output_tokens = 500\<rparr>"

definition demo_payload :: UsageRecordPayload where
  "demo_payload = \<lparr>ur_source = Wire, ur_provider = ''p'', ur_request_id = ''r'', ur_model = Some ''m'',
     ur_timestamp = ''t'', ur_payment_mode = Metered, ur_tokens = Some demo_tokens,
     ur_unknown_token_fields = [], ur_amount_nanousd = None, ur_observed_cost_nanousd = None,
     ur_harness = None, ur_session_id = None, ur_turn_id = None, ur_http_status = None,
     ur_description = None, ur_agent_pubkey = None, ur_channel_id = None, ur_work_context = None\<rparr>"

lemma trim_single: "\<not> ws1 (byte c) \<Longrightarrow> trim [c] = [c]"
  by (simp add: trim_def trim_start_id trim_end_id ws_suffix_len_def)

theorem decrypted_record_valid_witness:
  "(ur_tokens demo_payload = None) = (ur_amount_nanousd demo_payload \<noteq> None)"
proof -
  have "decrypt_usage_record (\<lambda>_. Inr demo_payload) () = Inr demo_payload"
    by (simp add: decrypt_usage_record_def usage_record_validate_def demo_payload_def trim_single ws1_def byte_def)
  from conjunct1 [OF decrypted_record_valid [OF this]] show ?thesis .
qed

end
