(* ===== verification/Price_Conditions.thy ===== *)
theory Price_Conditions
  imports Usage_Record
begin

text \<open>
  \<open>buzz-core/src/ledger/conditions.rs\<close>: when a price row applies. A window is a daily
  interval in the vendor's local time; a row's conditions are a conjunction.
\<close>

section \<open>Daily windows\<close>

definition MINUTES_PER_DAY :: nat where
  "MINUTES_PER_DAY = 24 * 60"

record DailyWindow =
  start_minute :: nat
  end_minute :: nat
  utc_offset_minutes :: int

definition local_day_minute :: "DailyWindow \<Rightarrow> nat \<Rightarrow> nat" where
  "local_day_minute w at_unix =
     (let utc_minutes = int (at_unix div 60);
          local_minutes = utc_minutes + utc_offset_minutes w
      in nat (local_minutes mod int MINUTES_PER_DAY))"

definition window_contains :: "DailyWindow \<Rightarrow> nat \<Rightarrow> bool" where
  "window_contains w at_unix =
     (let day_minute = local_day_minute w at_unix
      in if start_minute w < end_minute w
         then day_minute \<ge> start_minute w \<and> day_minute < end_minute w
         else day_minute \<ge> start_minute w \<or> day_minute < end_minute w)"

definition window_is_valid :: "DailyWindow \<Rightarrow> bool" where
  "window_is_valid w \<longleftrightarrow>
     start_minute w < MINUTES_PER_DAY
   \<and> end_minute w \<le> MINUTES_PER_DAY
   \<and> start_minute w \<noteq> end_minute w
   \<and> utc_offset_minutes w > - 1440
   \<and> utc_offset_minutes w < 1440"

section \<open>Conditions\<close>

record PriceConditions =
  pc_provider :: "string option"
  pc_tier :: "string option"
  pc_min_input_tokens :: "u64 option"
  pc_max_input_tokens :: "u64 option"
  pc_hours :: "DailyWindow list"

record CallFacts =
  cf_input_tokens :: u64
  cf_at_unix :: nat
  cf_provider :: "string option"
  cf_tier :: "string option"

text \<open>A name the row requires, against a name that may not have been observed.\<close>

definition name_agrees :: "string option \<Rightarrow> string option \<Rightarrow> bool" where
  "name_agrees required observed = (case required of
       None \<Rightarrow> True
     | Some r \<Rightarrow> (case observed of None \<Rightarrow> False | Some ob \<Rightarrow> eq_ignore_ascii_case ob r))"

definition conditions_matches :: "PriceConditions \<Rightarrow> CallFacts \<Rightarrow> bool" where
  "conditions_matches c facts =
     (if \<not> name_agrees (pc_provider c) (cf_provider facts) then False
      else if \<not> name_agrees (pc_tier c) (cf_tier facts) then False
      else if (case pc_min_input_tokens c of Some mn \<Rightarrow> cf_input_tokens facts < mn | None \<Rightarrow> False) then False
      else if (case pc_max_input_tokens c of Some mx \<Rightarrow> cf_input_tokens facts \<ge> mx | None \<Rightarrow> False) then False
      else if pc_hours c \<noteq> [] \<and> \<not> list_ex (\<lambda>w. window_contains w (cf_at_unix facts)) (pc_hours c) then False
      else True)"

definition specificity :: "PriceConditions \<Rightarrow> nat" where
  "specificity c = of_bool (pc_tier c \<noteq> None) + of_bool (pc_min_input_tokens c \<noteq> None)
     + of_bool (pc_max_input_tokens c \<noteq> None) + of_bool (pc_hours c \<noteq> [])"

definition conditions_is_valid :: "PriceConditions \<Rightarrow> bool" where
  "conditions_is_valid c =
     (if (case (pc_min_input_tokens c, pc_max_input_tokens c) of (Some mn, Some mx) \<Rightarrow> mn \<ge> mx | _ \<Rightarrow> False)
      then False
      else if (case pc_tier c of Some t \<Rightarrow> trim t = [] | None \<Rightarrow> False) then False
      else if (case pc_provider c of Some p \<Rightarrow> trim p = [] | None \<Rightarrow> False) then False
      else list_all window_is_valid (pc_hours c))"

definition is_unconditional :: "PriceConditions \<Rightarrow> bool" where
  "is_unconditional c \<longleftrightarrow> pc_provider c = None \<and> specificity c = 0"

section \<open>Lemmas\<close>

lemma local_day_minute_lt [simp]: "local_day_minute w t < MINUTES_PER_DAY"
  by (simp add: local_day_minute_def MINUTES_PER_DAY_def Let_def nat_less_iff)

lemma specificity_le: "specificity c \<le> 4"
  by (simp add: specificity_def)

lemma unconditional_matches: "is_unconditional c \<Longrightarrow> conditions_matches c facts"
  by (simp add: is_unconditional_def specificity_def conditions_matches_def name_agrees_def split: if_splits)

lemma local_day_minute_hit:
  assumes "m < MINUTES_PER_DAY"
  shows "\<exists>t. local_day_minute w t = m"
proof -
  let ?n = "nat ((int m - utc_offset_minutes w) mod 1440)"
  have "(int ?n + utc_offset_minutes w) mod 1440 = int m mod 1440"
    by (simp add: mod_add_left_eq)
  then have "local_day_minute w (60 * ?n) = m"
    using assms by (simp add: local_day_minute_def MINUTES_PER_DAY_def Let_def)
  then show ?thesis ..
qed

lemma valid_window_hit: "window_is_valid w \<Longrightarrow> \<exists>t. window_contains w t"
proof -
  assume w: "window_is_valid w"
  then obtain t where "local_day_minute w t = start_minute w"
    using local_day_minute_hit by (auto simp: window_is_valid_def)
  with w have "window_contains w t" by (auto simp: window_contains_def Let_def window_is_valid_def)
  then show ?thesis ..
qed

section \<open>Properties\<close>

text \<open>
  A valid window contains some instant, and swapping its start and end gives exactly
  the complementary instants, also when one of the two wraps midnight.
\<close>

theorem window_complement:
  assumes "window_is_valid w"
  shows "(\<exists>t. window_contains w t)
    \<and> window_contains (w\<lparr>start_minute := end_minute w, end_minute := start_minute w\<rparr>) t = (\<not> window_contains w t)"
proof -
  have "local_day_minute (w\<lparr>start_minute := a, end_minute := b\<rparr>) t = local_day_minute w t" for a b
    by (simp add: local_day_minute_def)
  then show ?thesis
    using assms valid_window_hit [OF assms] by (auto simp: window_contains_def Let_def window_is_valid_def)
qed

theorem window_complement_witness:
  "window_contains \<lparr>start_minute = 360, end_minute = 1320, utc_offset_minutes = 480\<rparr> 0
     = (\<not> window_contains \<lparr>start_minute = 1320, end_minute = 360, utc_offset_minutes = 480\<rparr> 0)"
  using window_complement [of "\<lparr>start_minute = 1320, end_minute = 360, utc_offset_minutes = 480\<rparr>" 0]
  by (simp add: window_is_valid_def MINUTES_PER_DAY_def)

text \<open>
  A row the validity check accepts can be met by some call, with one exception the
  check does not see: a bound of zero on the input tokens, which no call is below.
\<close>

theorem valid_row_satisfiable:
  assumes "conditions_is_valid c"
  shows "(\<exists>facts. conditions_matches c facts) = (pc_max_input_tokens c \<noteq> Some 0)"
proof
  assume "\<exists>facts. conditions_matches c facts"
  then show "pc_max_input_tokens c \<noteq> Some 0" by (auto simp: conditions_matches_def split: if_splits)
next
  assume pos: "pc_max_input_tokens c \<noteq> Some 0"
  have "\<exists>t. pc_hours c \<noteq> [] \<longrightarrow> list_ex (\<lambda>w. window_contains w t) (pc_hours c)"
    using assms valid_window_hit by (cases "pc_hours c") (auto simp: conditions_is_valid_def split: if_splits)
  then obtain t where t: "pc_hours c \<noteq> [] \<longrightarrow> list_ex (\<lambda>w. window_contains w t) (pc_hours c)" ..
  let ?n = "case pc_min_input_tokens c of None \<Rightarrow> 0 | Some mn \<Rightarrow> mn"
  have "pc_max_input_tokens c = Some mx \<Longrightarrow> ?n < mx" for mx
    using assms pos by (auto simp: conditions_is_valid_def word_gt_0 not_le split: option.splits if_splits)
  then have "conditions_matches c \<lparr>cf_input_tokens = ?n, cf_at_unix = t, cf_provider = pc_provider c, cf_tier = pc_tier c\<rparr>"
    using t by (auto simp: conditions_matches_def name_agrees_def eq_ignore_ascii_case_def not_le split: option.splits)
  then show "\<exists>facts. conditions_matches c facts" ..
qed

theorem valid_row_satisfiable_witness:
  "(\<exists>facts. conditions_matches \<lparr>pc_provider = None, pc_tier = None, pc_min_input_tokens = None,
      pc_max_input_tokens = Some 0, pc_hours = []\<rparr> facts) = False"
  using valid_row_satisfiable [of "\<lparr>pc_provider = None, pc_tier = None, pc_min_input_tokens = None,
      pc_max_input_tokens = Some 0, pc_hours = []\<rparr>"]
  by (simp add: conditions_is_valid_def)

end
