(* ===== verification/Price_Book.thy ===== *)
theory Price_Book
  imports Price_Conditions
begin

text \<open>
  \<open>buzz-core/src/ledger/prices.rs\<close>: the append-only, effective-dated price book and the
  pricing of one call. Rates and token counts are 64-bit words, costs 128-bit words.
  \<open>serde\<close>'s reading of the JSON object into \<open>PriceRatesWire\<close> is derived code; the
  hand-written \<open>PriceRates::deserialize\<close> that follows it is modelled.
\<close>

section \<open>Rates\<close>

record PriceRates =
  input_nanousd_per_mtok :: u64
  cache_read_nanousd_per_mtok :: u64
  cache_write_5m_nanousd_per_mtok :: u64
  cache_write_1h_nanousd_per_mtok :: u64
  output_nanousd_per_mtok :: u64

definition TOKENS_PER_RATE_UNIT :: u128 where
  "TOKENS_PER_RATE_UNIT = 1000000"

record PriceRatesWire =
  w_input_per_mtok :: "u64 option"
  w_cache_read_per_mtok :: "u64 option"
  w_cache_write_5m_per_mtok :: "u64 option"
  w_cache_write_1h_per_mtok :: "u64 option"
  w_output_per_mtok :: "u64 option"
  w_input_per_token :: "u64 option"
  w_cache_read_per_token :: "u64 option"
  w_cache_write_5m_per_token :: "u64 option"
  w_cache_write_1h_per_token :: "u64 option"
  w_output_per_token :: "u64 option"

datatype PriceRatesError = RateDoesNotFit u64 | NeitherUnitComplete

definition scale_rate :: "u64 \<Rightarrow> PriceRatesError + u64" where
  "scale_rate per_token = ok_or (RateDoesNotFit per_token) (checked_mul per_token (ucast TOKENS_PER_RATE_UNIT))"

definition price_rates_deserialize :: "PriceRatesWire \<Rightarrow> PriceRatesError + PriceRates" where
  "price_rates_deserialize wire =
     (case (w_input_per_mtok wire, w_cache_read_per_mtok wire, w_cache_write_5m_per_mtok wire,
            w_cache_write_1h_per_mtok wire, w_output_per_mtok wire) of
        (Some i, Some r, Some w5, Some w1h, Some out) \<Rightarrow>
          Inr \<lparr>input_nanousd_per_mtok = i, cache_read_nanousd_per_mtok = r,
               cache_write_5m_nanousd_per_mtok = w5, cache_write_1h_nanousd_per_mtok = w1h,
               output_nanousd_per_mtok = out\<rparr>
      | _ \<Rightarrow>
     (case (w_input_per_token wire, w_cache_read_per_token wire, w_cache_write_5m_per_token wire,
            w_cache_write_1h_per_token wire, w_output_per_token wire) of
        (Some i, Some r, Some w5, Some w1h, Some out) \<Rightarrow>
          and_then (scale_rate i) (\<lambda>i'.
          and_then (scale_rate r) (\<lambda>r'.
          and_then (scale_rate w5) (\<lambda>w5'.
          and_then (scale_rate w1h) (\<lambda>w1h'.
          and_then (scale_rate out) (\<lambda>out'.
            Inr \<lparr>input_nanousd_per_mtok = i', cache_read_nanousd_per_mtok = r',
                 cache_write_5m_nanousd_per_mtok = w5', cache_write_1h_nanousd_per_mtok = w1h',
                 output_nanousd_per_mtok = out'\<rparr>)))))
      | _ \<Rightarrow> Inl NeitherUnitComplete))"

section \<open>The book\<close>

datatype PriceOrigin = OwnerOrigin | Catalog

record PriceEntry =
  pe_model :: string
  pe_effective_from :: nat
  pe_rates :: PriceRates
  pe_conditions :: PriceConditions
  pe_note :: "string option"
  pe_origin :: PriceOrigin

definition alias_matches :: "string \<Rightarrow> string \<Rightarrow> bool" where
  "alias_matches alias observed = (case strip_prefix alias observed of
       None \<Rightarrow> False
     | Some remainder \<Rightarrow>
        (case strip_prefix ''-'' remainder of
           None \<Rightarrow> False
         | Some date \<Rightarrow>
             let digits = filter (\<lambda>c. c \<noteq> CHR ''-'') date;
                 separators = length date - chars_count digits
             in chars_count digits = 8 \<and> list_all is_ascii_digit digits
                \<and> (separators = 0 \<or> (separators = 2 \<and> length date = 10))))"

definition div_round_half_up :: "u128 \<Rightarrow> u128 \<Rightarrow> u128" where
  "div_round_half_up val divisor = (val + divisor div 2) div divisor"

record PriceBook =
  pb_entries :: "PriceEntry list"

text \<open>The \<open>wins\<close> of the loop: specificity, then date, then the owner over the catalog.\<close>

definition price_wins :: "PriceEntry \<Rightarrow> PriceEntry \<Rightarrow> bool" where
  "price_wins entry current =
     (let s = specificity (pe_conditions entry); s' = specificity (pe_conditions current);
          t = pe_effective_from entry; t' = pe_effective_from current
      in if s > s' then True
         else if s < s' then False
         else if t > t' then True
         else if t < t' then False
         else \<not> (pe_origin entry = Catalog \<and> pe_origin current = OwnerOrigin))"

definition price_candidate ::
  "CallFacts \<Rightarrow> (string \<Rightarrow> bool) \<Rightarrow> (PriceEntry \<Rightarrow> bool) \<Rightarrow> PriceEntry \<Rightarrow> bool" where
  "price_candidate facts is_match scope e \<longleftrightarrow>
     scope e \<and> is_match (pe_model e) \<and> pe_effective_from e \<le> cf_at_unix facts
     \<and> conditions_matches (pe_conditions e) facts"

definition rates_matching ::
  "PriceBook \<Rightarrow> CallFacts \<Rightarrow> (string \<Rightarrow> bool) \<Rightarrow> (PriceEntry \<Rightarrow> bool) \<Rightarrow> PriceEntry option" where
  "rates_matching book facts is_match scope =
     pick_loop price_wins None (filter (price_candidate facts is_match scope) (pb_entries book))"

definition or_else :: "'a option \<Rightarrow> 'a option \<Rightarrow> 'a option" where
  "or_else a b = (case a of Some x \<Rightarrow> Some x | None \<Rightarrow> b)"

definition best_in_scope ::
  "PriceBook \<Rightarrow> string \<Rightarrow> CallFacts \<Rightarrow> (PriceEntry \<Rightarrow> bool) \<Rightarrow> PriceEntry option" where
  "best_in_scope book model facts scope =
     or_else (rates_matching book facts (\<lambda>candidate. candidate = model) scope)
             (rates_matching book facts (\<lambda>candidate. alias_matches candidate model) scope)"

definition names_provider :: "PriceEntry \<Rightarrow> bool" where
  "names_provider e \<longleftrightarrow> pc_provider (pe_conditions e) \<noteq> None"

definition entry_for_call :: "PriceBook \<Rightarrow> string \<Rightarrow> CallFacts \<Rightarrow> PriceEntry option" where
  "entry_for_call book model facts =
     or_else (best_in_scope book model facts names_provider)
             (best_in_scope book model facts (\<lambda>e. \<not> names_provider e))"

definition rates_for_call :: "PriceBook \<Rightarrow> string \<Rightarrow> CallFacts \<Rightarrow> PriceRates option" where
  "rates_for_call book model facts = map_option pe_rates (entry_for_call book model facts)"

definition rates_for :: "PriceBook \<Rightarrow> string \<Rightarrow> nat \<Rightarrow> PriceRates option" where
  "rates_for book model at_unix = rates_for_call book model
     \<lparr>cf_input_tokens = 0, cf_at_unix = at_unix, cf_provider = None, cf_tier = None\<rparr>"

definition price_book_extends :: "PriceBook \<Rightarrow> PriceBook \<Rightarrow> bool" where
  "price_book_extends old new \<longleftrightarrow>
     length (pb_entries new) \<ge> length (pb_entries old)
   \<and> take (length (pb_entries old)) (pb_entries new) = pb_entries old"

section \<open>Pricing a call\<close>

definition total_input_tokens :: "UsageBreakdown \<Rightarrow> u64" where
  "total_input_tokens tokens =
     saturating_add (saturating_add (saturating_add (input_uncached_tokens tokens) (cache_read_tokens tokens))
       (cache_write_5m_tokens tokens)) (cache_write_1h_tokens tokens)"

datatype PriceBasis = Observed | ProviderRow | ListRow

record PricedCall =
  pcall_cost_nanousd :: u128
  pcall_basis :: PriceBasis

definition apply_rates :: "PriceRates \<Rightarrow> UsageBreakdown \<Rightarrow> u128" where
  "apply_rates rates tokens =
     (let scaled = ucast (input_uncached_tokens tokens) * ucast (input_nanousd_per_mtok rates)
        + ucast (cache_read_tokens tokens) * ucast (cache_read_nanousd_per_mtok rates)
        + ucast (cache_write_5m_tokens tokens) * ucast (cache_write_5m_nanousd_per_mtok rates)
        + ucast (cache_write_1h_tokens tokens) * ucast (cache_write_1h_nanousd_per_mtok rates)
        + ucast (output_tokens tokens) * ucast (output_nanousd_per_mtok rates)
      in div_round_half_up scaled TOKENS_PER_RATE_UNIT)"

definition price_facts :: "PriceBook \<Rightarrow> string \<Rightarrow> UsageBreakdown \<Rightarrow> CallFacts \<Rightarrow> PricedCall option" where
  "price_facts book model tokens facts = (case entry_for_call book model facts of
       None \<Rightarrow> None
     | Some entry \<Rightarrow>
         let basis = (if pc_provider (pe_conditions entry) \<noteq> None then ProviderRow else ListRow)
         in Some \<lparr>pcall_cost_nanousd = apply_rates (pe_rates entry) tokens, pcall_basis = basis\<rparr>)"

definition price_call :: "PriceBook \<Rightarrow> string \<Rightarrow> UsageBreakdown \<Rightarrow> nat \<Rightarrow> string option \<Rightarrow> u128 option" where
  "price_call book model tokens at_unix tier =
     (let facts = \<lparr>cf_input_tokens = total_input_tokens tokens, cf_at_unix = at_unix,
                   cf_provider = None, cf_tier = tier\<rparr>
      in map_option pcall_cost_nanousd (price_facts book model tokens facts))"

definition price_tokens :: "PriceBook \<Rightarrow> string \<Rightarrow> UsageBreakdown \<Rightarrow> nat \<Rightarrow> u128 option" where
  "price_tokens book model tokens at_unix = price_call book model tokens at_unix None"

section \<open>Contracts\<close>

interpretation prices: append_only_book pb_entries price_book_extends
  by standard (auto simp: price_book_extends_def)

definition price_rank :: "PriceEntry \<Rightarrow> nat \<times> nat \<times> nat" where
  "price_rank e = (specificity (pe_conditions e), pe_effective_from e, if pe_origin e = OwnerOrigin then 1 else 0)"

lemma price_wins_rank: "price_wins e c \<longleftrightarrow> price_rank c \<le> price_rank e"
  by (cases "pe_origin e"; cases "pe_origin c") (auto simp: price_wins_def price_rank_def Let_def)

interpretation price: last_selection price_wins price_rank
  by standard (auto simp: price_wins_rank)

section \<open>Which row prices a call\<close>

text \<open>The four stages of the search, in order: provider rows before list rows, exact before alias.\<close>

definition price_stages :: "string \<Rightarrow> ((string \<Rightarrow> bool) \<times> (PriceEntry \<Rightarrow> bool)) list" where
  "price_stages model =
     [((\<lambda>m. m = model), names_provider), ((\<lambda>m. alias_matches m model), names_provider),
      ((\<lambda>m. m = model), \<lambda>e. \<not> names_provider e), ((\<lambda>m. alias_matches m model), \<lambda>e. \<not> names_provider e)]"

definition stage_rows ::
  "PriceBook \<Rightarrow> CallFacts \<Rightarrow> (string \<Rightarrow> bool) \<times> (PriceEntry \<Rightarrow> bool) \<Rightarrow> PriceEntry list" where
  "stage_rows book facts = (\<lambda>(is_match, scope). filter (price_candidate facts is_match scope) (pb_entries book))"

fun first_stage :: "PriceEntry list list \<Rightarrow> PriceEntry option" where
  "first_stage [] = None"
| "first_stage (rows # rest) = or_else (pick_loop price_wins None rows) (first_stage rest)"

lemma or_else_simps [simp]: "or_else None b = b" "or_else (Some x) b = Some x"
  by (simp_all add: or_else_def)

lemma or_else_None [simp]: "or_else a None = a"
  by (cases a) auto

lemma or_else_assoc: "or_else (or_else a b) c = or_else a (or_else b c)"
  by (cases a) auto

lemma entry_for_call_stages:
  "entry_for_call book model facts = first_stage (map (stage_rows book facts) (price_stages model))"
  by (simp add: entry_for_call_def best_in_scope_def rates_matching_def price_stages_def stage_rows_def or_else_assoc)

lemma first_stage_None: "first_stage rs = None \<longleftrightarrow> list_all (\<lambda>r. r = []) rs"
  by (induction rs) (auto simp: or_else_def split: option.splits)

lemma first_stage_Some:
  "first_stage rs = Some e \<Longrightarrow>
     \<exists>pre row post. rs = pre @ row # post \<and> list_all (\<lambda>r. r = []) pre \<and> pick_loop price_wins None row = Some e"
proof (induction rs)
  case (Cons r rs)
  show ?case
  proof (cases "pick_loop price_wins None r")
    case None
    with Cons obtain pre row post where
      "rs = pre @ row # post \<and> list_all (\<lambda>r. r = []) pre \<and> pick_loop price_wins None row = Some e" by auto
    with None have "r # rs = (r # pre) @ row # post \<and> list_all (\<lambda>r. r = []) (r # pre)
        \<and> pick_loop price_wins None row = Some e" by simp
    then show ?thesis by blast
  next
    case (Some m)
    with Cons.prems have "r # rs = [] @ r # rs \<and> list_all (\<lambda>r. r = []) [] \<and> pick_loop price_wins None r = Some e"
      by simp
    then show ?thesis by blast
  qed
qed simp

lemma stage_rows_append:
  "stage_rows (book\<lparr>pb_entries := pb_entries book @ es\<rparr>) facts st =
     stage_rows book facts st @ filter (price_candidate facts (fst st) (snd st)) es"
  by (cases st) (simp add: stage_rows_def)

lemma first_stage_cong:
  "list_all2 (\<lambda>r r'. pick_loop price_wins None r = pick_loop price_wins None r') rs rs' \<Longrightarrow>
     first_stage rs = first_stage rs'"
  by (induction rule: list_all2_induct) auto

lemma entry_for_call_append:
  assumes "\<And>st. st \<in> set (price_stages model) \<Longrightarrow>
    pick_loop price_wins None (stage_rows book facts st @ filter (price_candidate facts (fst st) (snd st)) es)
      = pick_loop price_wins None (stage_rows book facts st)"
  shows "entry_for_call (book\<lparr>pb_entries := pb_entries book @ es\<rparr>) model facts = entry_for_call book model facts"
  unfolding entry_for_call_stages
proof (rule first_stage_cong)
  show "list_all2 (\<lambda>r r'. pick_loop price_wins None r = pick_loop price_wins None r')
     (map (stage_rows (book\<lparr>pb_entries := pb_entries book @ es\<rparr>) facts) (price_stages model))
     (map (stage_rows book facts) (price_stages model))"
    using assms by (auto simp: list_all2_conv_all_nth stage_rows_append)
qed

section \<open>Exact cost\<close>

definition cost_sum :: "PriceRates \<Rightarrow> UsageBreakdown \<Rightarrow> nat" where
  "cost_sum r t =
     unat (input_uncached_tokens t) * unat (input_nanousd_per_mtok r)
   + unat (cache_read_tokens t) * unat (cache_read_nanousd_per_mtok r)
   + unat (cache_write_5m_tokens t) * unat (cache_write_5m_nanousd_per_mtok r)
   + unat (cache_write_1h_tokens t) * unat (cache_write_1h_nanousd_per_mtok r)
   + unat (output_tokens t) * unat (output_nanousd_per_mtok r)"

definition token_counts :: "UsageBreakdown \<Rightarrow> u64 list" where
  "token_counts t = [input_uncached_tokens t, cache_read_tokens t, cache_write_5m_tokens t,
     cache_write_1h_tokens t, output_tokens t]"

lemma unat_ucast_u64: "unat (ucast (x :: u64) :: u128) = unat x"
  by (simp add: unsigned_ucast_eq take_bit_nat_eq_self_iff order_less_le_trans [OF unsigned_less])

lemma prod_bound: "unat (a :: u64) < 2 ^ 61 \<Longrightarrow> unat a * unat (b :: u64) \<le> 2 ^ 125"
proof -
  assume "unat a < 2 ^ 61"
  moreover have "unat b \<le> 2 ^ 64" using unsigned_less [of b, where 'a = nat] by simp
  ultimately have "unat a * unat b \<le> 2 ^ 61 * 2 ^ 64" by (intro mult_le_mono) auto
  then show ?thesis by (simp flip: power_add)
qed

lemma cost_sum_bound: "list_all (\<lambda>n. unat n < 2 ^ 61) (token_counts t) \<Longrightarrow> cost_sum r t \<le> 5 * 2 ^ 125"
  unfolding cost_sum_def token_counts_def
  using prod_bound [of "input_uncached_tokens t" "input_nanousd_per_mtok r"]
    prod_bound [of "cache_read_tokens t" "cache_read_nanousd_per_mtok r"]
    prod_bound [of "cache_write_5m_tokens t" "cache_write_5m_nanousd_per_mtok r"]
    prod_bound [of "cache_write_1h_tokens t" "cache_write_1h_nanousd_per_mtok r"]
    prod_bound [of "output_tokens t" "output_nanousd_per_mtok r"]
  by simp

lemma unat_sum128: "unat (a :: u128) + unat b < 2 ^ 128 \<Longrightarrow> unat (a + b) = unat a + unat b"
  by (simp add: unat_word_ariths)

lemma unat_prod128: "unat (a :: u128) * unat b < 2 ^ 128 \<Longrightarrow> unat (a * b) = unat a * unat b"
  by (simp add: unat_word_ariths)

lemma apply_rates_value:
  "unat (apply_rates r t) = (cost_sum r t mod 2 ^ 128 + 500000) mod 2 ^ 128 div 1000000"
proof -
  have "unat (apply_rates r t) = (unat (of_nat (cost_sum r t) :: u128) + 500000) mod 2 ^ 128 div 1000000"
    unfolding apply_rates_def div_round_half_up_def TOKENS_PER_RATE_UNIT_def cost_sum_def Let_def
    by (simp add: unat_div unat_word_ariths unat_ucast_u64 mod_simps)
  then show ?thesis by (simp add: unsigned_of_nat take_bit_eq_mod)
qed

section \<open>Properties\<close>

text \<open>
  The row that prices a call is a best one of the first stage that has any candidate:
  rows naming the call's provider before list rows, an exact model before its dated
  alias, and within the stage the most specific, then the latest, then the owner's; a
  call is unpriced only when no stage has a candidate.
\<close>

theorem entry_for_call_best:
  "case entry_for_call book model facts of
     None \<Rightarrow> list_all (\<lambda>st. stage_rows book facts st = []) (price_stages model)
   | Some e \<Rightarrow> \<exists>pre st post. price_stages model = pre @ st # post
       \<and> list_all (\<lambda>st'. stage_rows book facts st' = []) pre
       \<and> e \<in> set (stage_rows book facts st)
       \<and> list_all (\<lambda>e'. price_rank e' \<le> price_rank e) (stage_rows book facts st)"
proof (cases "entry_for_call book model facts")
  case None
  then have "list_all (\<lambda>st. stage_rows book facts st = []) (price_stages model)"
    by (simp add: entry_for_call_stages first_stage_None list.pred_map comp_def)
  with None show ?thesis by simp
next
  case (Some e)
  then obtain pre row post where
    "map (stage_rows book facts) (price_stages model) = pre @ row # post"
    "list_all (\<lambda>r. r = []) pre" and pick: "pick_loop price_wins None row = Some e"
    unfolding entry_for_call_stages using first_stage_Some by blast
  then obtain p st q where "price_stages model = p @ st # q" "map (stage_rows book facts) p = pre"
    "stage_rows book facts st = row"
    by (auto simp: map_eq_append_conv)
  moreover have "list_all (\<lambda>st'. stage_rows book facts st' = []) p"
    using \<open>list_all (\<lambda>r. r = []) pre\<close> \<open>map (stage_rows book facts) p = pre\<close>
    by (auto simp: list.pred_map comp_def)
  moreover have "e \<in> set row" "list_all (\<lambda>e'. price_rank e' \<le> price_rank e) row"
    using price.pick_maximal [OF pick] by (auto simp: list_all_iff)
  ultimately show ?thesis unfolding Some option.case by blast
qed

text \<open>
  A published price is history: appending rows that take effect later never changes
  which row prices a call made before them.
\<close>

theorem price_history_stable:
  assumes "price_book_extends old new"
    and "list_all (\<lambda>e. cf_at_unix facts < pe_effective_from e) (drop (length (pb_entries old)) (pb_entries new))"
  shows "entry_for_call new model facts = entry_for_call old model facts"
proof -
  let ?es = "drop (length (pb_entries old)) (pb_entries new)"
  have "pb_entries new = pb_entries old @ ?es"
    using assms(1) append_take_drop_id [of "length (pb_entries old)" "pb_entries new"]
    by (simp add: price_book_extends_def)
  then have new: "new = old\<lparr>pb_entries := pb_entries old @ ?es\<rparr>" by simp
  have none: "filter (price_candidate facts im sc) ?es = []" for im sc
    using assms(2) by (auto simp: filter_empty_conv price_candidate_def list_all_iff)
  show ?thesis by (subst new) (rule entry_for_call_append, simp add: none)
qed

definition demo_rates :: PriceRates where
  "demo_rates = \<lparr>input_nanousd_per_mtok = 3000000000, cache_read_nanousd_per_mtok = 0,
     cache_write_5m_nanousd_per_mtok = 0, cache_write_1h_nanousd_per_mtok = 0,
     output_nanousd_per_mtok = 15000000000\<rparr>"

definition any_call :: PriceConditions where
  "any_call = \<lparr>pc_provider = None, pc_tier = None, pc_min_input_tokens = None,
     pc_max_input_tokens = None, pc_hours = []\<rparr>"

definition demo_row :: "nat \<Rightarrow> PriceOrigin \<Rightarrow> PriceEntry" where
  "demo_row t origin = \<lparr>pe_model = ''m'', pe_effective_from = t, pe_rates = demo_rates,
     pe_conditions = any_call, pe_note = None, pe_origin = origin\<rparr>"

definition demo_facts :: CallFacts where
  "demo_facts = \<lparr>cf_input_tokens = 0, cf_at_unix = 20, cf_provider = Some ''p'', cf_tier = None\<rparr>"

theorem price_history_stable_witness:
  "entry_for_call \<lparr>pb_entries = [demo_row 10 OwnerOrigin, demo_row 30 OwnerOrigin]\<rparr> ''m'' demo_facts
     = entry_for_call \<lparr>pb_entries = [demo_row 10 OwnerOrigin]\<rparr> ''m'' demo_facts"
  by (rule price_history_stable) (simp_all add: price_book_extends_def demo_facts_def demo_row_def)

text \<open>
  A catalog refresh never displaces a price the owner published for the same model,
  conditions and instant: appending the catalog's row changes the price of no call.
\<close>

theorem catalog_never_displaces_owner:
  assumes "r \<in> set (pb_entries book)" and "pe_origin r = OwnerOrigin" and "pe_origin c = Catalog"
    and "pe_model c = pe_model r" and "pe_conditions c = pe_conditions r" and "pe_effective_from c = pe_effective_from r"
  shows "entry_for_call (book\<lparr>pb_entries := pb_entries book @ [c]\<rparr>) model facts = entry_for_call book model facts"
proof (rule entry_for_call_append)
  fix st assume st: "st \<in> set (price_stages model)"
  have scope: "snd st c = snd st r"
    using st assms(5) by (auto simp: price_stages_def names_provider_def)
  have same: "price_candidate facts (fst st) (snd st) c = price_candidate facts (fst st) (snd st) r"
    by (simp add: price_candidate_def scope assms)
  show "pick_loop price_wins None (stage_rows book facts st @ filter (price_candidate facts (fst st) (snd st)) [c])
      = pick_loop price_wins None (stage_rows book facts st)"
  proof (cases "price_candidate facts (fst st) (snd st) r")
    case True
    then have r: "r \<in> set (stage_rows book facts st)" using assms(1) by (cases st) (simp add: stage_rows_def)
    then obtain a where a: "pick_loop price_wins None (stage_rows book facts st) = Some a"
      using price.pick_exists by blast
    have "price_rank c < price_rank r" using assms by (simp add: price_rank_def)
    also have "price_rank r \<le> price_rank a" by (rule price.pick_maximal(2) [OF a r])
    finally have "price_rank c < price_rank a" .
    with a same True show ?thesis by (simp add: price.pick_snoc_loses)
  next
    case False
    with same show ?thesis by simp
  qed
qed

theorem catalog_never_displaces_owner_witness:
  "entry_for_call \<lparr>pb_entries = [demo_row 10 OwnerOrigin, demo_row 10 Catalog]\<rparr> ''m'' demo_facts
     = entry_for_call \<lparr>pb_entries = [demo_row 10 OwnerOrigin]\<rparr> ''m'' demo_facts"
  using catalog_never_displaces_owner [of "demo_row 10 OwnerOrigin" "\<lparr>pb_entries = [demo_row 10 OwnerOrigin]\<rparr>"
      "demo_row 10 Catalog" "''m''" demo_facts]
  by (simp add: demo_row_def)

text \<open>
  C38: as long as no token count reaches 2 to the 61, the 128-bit arithmetic of a cost does
  not wrap and the cost is the sum over the five categories of count times rate, divided
  once by a million and rounded half up.
\<close>

theorem price_exact:
  assumes "list_all (\<lambda>n. unat n < 2 ^ 61) (token_counts t)"
  shows "unat (apply_rates r t) = (cost_sum r t + 500000) div 1000000
    \<and> 1000000 * unat (apply_rates r t) \<le> cost_sum r t + 500000
    \<and> cost_sum r t < 1000000 * unat (apply_rates r t) + 500000"
proof -
  have "cost_sum r t + 500000 < 2 ^ 128" using cost_sum_bound [OF assms, of r] by simp
  then have "unat (apply_rates r t) = (cost_sum r t + 500000) div 1000000"
    by (simp add: apply_rates_value)
  then show ?thesis by linarith
qed

theorem price_exact_witness: "unat (apply_rates demo_rates demo_tokens) = 3007500000"
proof -
  have "list_all (\<lambda>n. unat n < 2 ^ 61) (token_counts demo_tokens)"
    by (simp add: token_counts_def demo_tokens_def)
  from conjunct1 [OF price_exact [OF this]] show ?thesis
    by (simp add: cost_sum_def demo_rates_def demo_tokens_def)
qed

text \<open>
  A row in the older per-token unit is read exactly: every rate of the result is a
  million times the published one, and a rate that would not fit is refused.
\<close>

theorem old_unit_exact:
  assumes "price_rates_deserialize w = Inr r" and "w_input_per_mtok w = None"
  shows "list_all2 (\<lambda>old new. \<exists>v. old = Some v \<and> unat new = 1000000 * unat v)
     [w_input_per_token w, w_cache_read_per_token w, w_cache_write_5m_per_token w,
      w_cache_write_1h_per_token w, w_output_per_token w]
     [input_nanousd_per_mtok r, cache_read_nanousd_per_mtok r, cache_write_5m_nanousd_per_mtok r,
      cache_write_1h_nanousd_per_mtok r, output_nanousd_per_mtok r]"
proof -
  have scale: "scale_rate a = Inr b \<Longrightarrow> unat b = 1000000 * unat a" for a b
    by (auto simp: scale_rate_def TOKENS_PER_RATE_UNIT_def res_simps dest: checked_mul_Some)
  show ?thesis using assms
    by (auto simp: price_rates_deserialize_def res_simps split: option.splits dest!: scale)
qed

theorem old_unit_exact_witness:
  "price_rates_deserialize \<lparr>w_input_per_mtok = None, w_cache_read_per_mtok = None, w_cache_write_5m_per_mtok = None,
      w_cache_write_1h_per_mtok = None, w_output_per_mtok = None, w_input_per_token = Some 3000,
      w_cache_read_per_token = Some 0, w_cache_write_5m_per_token = Some 0,
      w_cache_write_1h_per_token = Some 0, w_output_per_token = Some 15000\<rparr> = Inr demo_rates
   \<and> unat (input_nanousd_per_mtok demo_rates) = 3000000000"
proof -
  let ?w = "\<lparr>w_input_per_mtok = None, w_cache_read_per_mtok = None, w_cache_write_5m_per_mtok = None,
      w_cache_write_1h_per_mtok = None, w_output_per_mtok = None, w_input_per_token = Some 3000,
      w_cache_read_per_token = Some 0, w_cache_write_5m_per_token = Some 0,
      w_cache_write_1h_per_token = Some 0, w_output_per_token = Some 15000\<rparr>"
  have "price_rates_deserialize ?w = Inr demo_rates"
    by (simp add: price_rates_deserialize_def scale_rate_def checked_mul_def TOKENS_PER_RATE_UNIT_def demo_rates_def)
  with old_unit_exact [OF this] show ?thesis by simp
qed

text \<open>The date test of an alias accepts its two dashes anywhere, not only as in a date.\<close>

lemma alias_dashes_anywhere: "alias_matches ''m'' ''m-1-2345678-''"
  by (simp add: alias_matches_def strip_prefix_def starts_with_def chars_count_def is_ascii_digit_def byte_def)

end
