(* ===== verification/Attribution.thy ===== *)
theory Attribution
  imports Usage_Record
begin

text \<open>
  \<open>buzz-core/src/ledger/attribution.rs\<close>: attribution rules with their tie-break, owner
  corrections, and budgets. Both books are append-only.
\<close>

record RuleAssignment =
  ra_cost_centre_id :: string
  ra_owning_team_id :: "string option"
  ra_commercial_purpose :: CommercialPurpose
  ra_client_organization_id :: "string option"
  ra_task_id :: "string option"

record AttributionRule =
  ar_id :: string
  ar_priority :: nat
  ar_match_provider :: "string option"
  ar_match_harness :: "string option"
  ar_match_agent_pubkey :: "string option"
  ar_match_channel_id :: "string option"
  ar_match_model :: "string option"
  ar_assign :: RuleAssignment

definition matcher_ok :: "string option \<Rightarrow> string option \<Rightarrow> bool" where
  "matcher_ok matcher val = (case matcher of None \<Rightarrow> True | Some expected \<Rightarrow> val = Some expected)"

definition rule_matches :: "AttributionRule \<Rightarrow> UsageRecordPayload \<Rightarrow> bool" where
  "rule_matches rule rec \<longleftrightarrow>
     matcher_ok (ar_match_provider rule) (Some (ur_provider rec))
   \<and> matcher_ok (ar_match_harness rule) (ur_harness rec)
   \<and> matcher_ok (ar_match_model rule) (ur_model rec)
   \<and> matcher_ok (ar_match_agent_pubkey rule) (ur_agent_pubkey rec)
   \<and> matcher_ok (ar_match_channel_id rule) (ur_channel_id rec)"

record Rulebook =
  rb_rules :: "AttributionRule list"

definition rule_wins :: "AttributionRule \<Rightarrow> AttributionRule \<Rightarrow> bool" where
  "rule_wins rule current \<longleftrightarrow> ar_priority rule > ar_priority current"

definition best_match :: "Rulebook \<Rightarrow> UsageRecordPayload \<Rightarrow> AttributionRule option" where
  "best_match book rec = pick_loop rule_wins None (filter (\<lambda>r. rule_matches r rec) (rb_rules book))"

definition rulebook_extends :: "Rulebook \<Rightarrow> Rulebook \<Rightarrow> bool" where
  "rulebook_extends old new \<longleftrightarrow>
     length (rb_rules new) \<ge> length (rb_rules old) \<and> take (length (rb_rules old)) (rb_rules new) = rb_rules old"

record Correction =
  co_id :: string
  co_usage_record_event_id :: string
  co_assign :: RuleAssignment
  co_reason :: string
  co_corrected_at :: nat

record CorrectionBook =
  cb_corrections :: "Correction list"

definition correction_book_extends :: "CorrectionBook \<Rightarrow> CorrectionBook \<Rightarrow> bool" where
  "correction_book_extends old new \<longleftrightarrow>
     length (cb_corrections new) \<ge> length (cb_corrections old)
   \<and> take (length (cb_corrections old)) (cb_corrections new) = cb_corrections old"

record Budget =
  bg_cost_centre_id :: string
  bg_period :: string
  bg_amount_nanousd :: u64

section \<open>Contracts\<close>

interpretation rules: append_only_book rb_rules rulebook_extends
  by standard (auto simp: rulebook_extends_def)

interpretation corrections: append_only_book cb_corrections correction_book_extends
  by standard (auto simp: correction_book_extends_def)

interpretation rule_choice: first_selection rule_wins ar_priority
  by standard (auto simp: rule_wins_def)

section \<open>Properties\<close>

text \<open>
  Publishing more rules never re-routes work an existing rule claims, unless a new
  rule that matches it has a strictly higher priority.
\<close>

theorem new_rules_never_reroute:
  assumes "rulebook_extends old new" and "best_match old rec = Some r"
    and "list_all (\<lambda>r'. \<not> (rule_matches r' rec \<and> ar_priority r < ar_priority r'))
           (drop (length (rb_rules old)) (rb_rules new))"
  shows "best_match new rec = Some r"
proof -
  let ?more = "drop (length (rb_rules old)) (rb_rules new)"
  have new: "rb_rules new = rb_rules old @ ?more"
    using assms(1) append_take_drop_id [of "length (rb_rules old)" "rb_rules new"]
    by (simp add: rulebook_extends_def)
  have "pick_loop rule_wins (Some r) (filter (\<lambda>r. rule_matches r rec) ?more) = Some r"
    using assms(3) by (intro rule_choice.pick_stays) (auto simp: list_all_iff not_less)
  then show ?thesis
    using assms(2) unfolding best_match_def by (subst new) (simp add: pick_loop_append)
qed

definition demo_rule :: "string \<Rightarrow> nat \<Rightarrow> AttributionRule" where
  "demo_rule i p = \<lparr>ar_id = i, ar_priority = p, ar_match_provider = None, ar_match_harness = None,
     ar_match_agent_pubkey = None, ar_match_channel_id = None, ar_match_model = None,
     ar_assign = \<lparr>ra_cost_centre_id = ''c'', ra_owning_team_id = None, ra_commercial_purpose = Sales,
       ra_client_organization_id = None, ra_task_id = None\<rparr>\<rparr>"

lemma demo_rule_matches [simp]: "rule_matches (demo_rule i p) rec"
  by (simp add: rule_matches_def demo_rule_def matcher_ok_def)

lemma demo_rule_priority [simp]: "ar_priority (demo_rule i p) = p"
  by (simp add: demo_rule_def)

theorem new_rules_never_reroute_witness:
  "best_match \<lparr>rb_rules = [demo_rule ''a'' 1, demo_rule ''b'' 1]\<rparr> demo_payload = Some (demo_rule ''a'' 1)"
proof (rule new_rules_never_reroute)
  show "rulebook_extends \<lparr>rb_rules = [demo_rule ''a'' 1]\<rparr> \<lparr>rb_rules = [demo_rule ''a'' 1, demo_rule ''b'' 1]\<rparr>"
    by (simp add: rulebook_extends_def)
qed (simp_all add: best_match_def)

end
