(* ===== verification/Ledger_Engine.thy ===== *)
theory Ledger_Engine
  imports Price_Book Attribution "HOL-Library.Multiset"
begin

text \<open>
  \<open>buzz-core/src/ledger/engine.rs\<close>: \<open>compute_ledger\<close>, the pure function from usage records
  and the books to a report, in the order of the source: sort, dedupe, price, attribute,
  correct, aggregate.

  The only foreign call is \<open>chrono::DateTime::parse_from_rfc3339(..).timestamp()\<close>; it is
  the parameter \<open>rfc3339\<close>. \<open>HashMap\<close>s are association lists, \<open>BTreeMap\<close>s ordered ones;
  sums are 128-bit words, which wrap.
\<close>

section \<open>Data\<close>

record StoredUsageRecord =
  sr_event_id :: string
  sr_created_at :: nat
  sr_payload :: UsageRecordPayload

datatype AttributionMethod =
    ByContext
  | ByRule string
  | ByCorrection string
  | Unattributed

datatype MissingSide = LedgerSide | ProviderReport

datatype LedgerException =
    DuplicateConflict (dc_key: string) (dc_kept: string) (dc_dropped: string)
  | UnpricedModel string string
  | BadTimestamp string string
  | ReconcileDrift string string u128 u128
  | ReconcileMissingDay string string MissingSide

record LedgerEntry =
  le_event_id :: string
  le_day :: string
  le_provider :: string
  le_source :: UsageSource
  le_model :: "string option"
  le_payment_mode :: PaymentMode
  le_cost_nanousd :: "u128 option"
  le_price_basis :: "PriceBasis option"
  le_original_classification :: CostClassification
  le_effective_classification :: CostClassification
  le_effective_assignment :: "RuleAssignment option"
  le_attributed_by :: AttributionMethod

record ClassTotals =
  ct_cogs :: u128
  ct_opex :: u128
  ct_needs_review :: u128

record DailySum =
  ds_provider :: string
  ds_day :: string
  ds_metered_nanousd :: u128

record BudgetStatus =
  bs_cost_centre_id :: string
  bs_period :: string
  bs_budget_nanousd :: u128
  bs_actual_nanousd :: u128

record LedgerReport =
  lr_entries :: "LedgerEntry list"
  lr_totals :: ClassTotals
  lr_metered_nanousd :: u128
  lr_imputed_nanousd :: u128
  lr_by_cost_centre :: "(string \<times> u128) list"
  lr_by_day :: "DailySum list"
  lr_budget_status :: "BudgetStatus list"
  lr_exceptions :: "LedgerException list"

definition NEEDS_REVIEW_COST_CENTRE :: string where
  "NEEDS_REVIEW_COST_CENTRE = ''needs-review''"

section \<open>Days\<close>

text \<open>
  Every quantity is non-negative: \<open>z\<close> is at least 719468, so the branch for a negative
  \<open>z\<close> is never taken and the signed division agrees with \<open>div\<close>.
\<close>

definition civil_from_days :: "nat \<Rightarrow> nat \<times> nat \<times> nat" where
  "civil_from_days days =
     (let z = days + 719468;
          era = z div 146097;
          doe = z - era * 146097;
          yoe = (doe - doe div 1460 + doe div 36524 - doe div 146096) div 365;
          y = yoe + era * 400;
          doy = doe - (365 * yoe + yoe div 4 - yoe div 100);
          mp = (5 * doy + 2) div 153;
          d = doy - (153 * mp + 2) div 5 + 1;
          m = (if mp < 10 then mp + 3 else mp - 9);
          year = (if m \<le> 2 then y + 1 else y)
      in (year, m, d))"

definition utc_day :: "nat \<Rightarrow> string" where
  "utc_day unix_seconds =
     (let (year, m, d) = civil_from_days (unix_seconds div 86400)
      in show_padded 4 year @ ''-'' @ show_padded 2 m @ ''-'' @ show_padded 2 d)"

definition parse_rfc3339 :: "(string \<Rightarrow> int option) \<Rightarrow> string \<Rightarrow> nat option" where
  "parse_rfc3339 rfc3339 timestamp = (case rfc3339 timestamp of
       None \<Rightarrow> None
     | Some seconds \<Rightarrow> if seconds \<ge> 0 then Some (nat seconds) else None)"

definition utc_day_for :: "(string \<Rightarrow> int option) \<Rightarrow> StoredUsageRecord \<Rightarrow> string" where
  "utc_day_for rfc3339 rec = utc_day (case parse_rfc3339 rfc3339 (ur_timestamp (sr_payload rec)) of
       Some s \<Rightarrow> s | None \<Rightarrow> sr_created_at rec)"

section \<open>Sort and dedupe\<close>

definition dedupe_key :: "StoredUsageRecord \<Rightarrow> string" where
  "dedupe_key rec = (case ur_source (sr_payload rec) of
       Manual \<Rightarrow> sr_event_id rec
     | _ \<Rightarrow> ur_provider (sr_payload rec) @ '':'' @ ur_request_id (sr_payload rec))"

definition record_order :: "StoredUsageRecord \<Rightarrow> nat \<times> string" where
  "record_order r = (sr_created_at r, sr_event_id r)"

type_synonym dedupe_state = "(string \<times> StoredUsageRecord) list \<times> StoredUsageRecord list \<times> LedgerException list"

fun dedupe_step :: "StoredUsageRecord \<Rightarrow> dedupe_state \<Rightarrow> dedupe_state" where
  "dedupe_step rec (seen, counted, exceptions) =
     (let key = dedupe_key rec
      in case map_of seen key of
          None \<Rightarrow> (AList.update key rec seen, counted @ [rec], exceptions)
        | Some kept \<Rightarrow>
           (seen, counted,
            if sr_payload kept \<noteq> sr_payload rec
            then exceptions @ [DuplicateConflict key (sr_event_id kept) (sr_event_id rec)]
            else exceptions))"

definition dedupe :: "StoredUsageRecord list \<Rightarrow> dedupe_state" where
  "dedupe ordered = fold dedupe_step ordered ([], [], [])"

definition latest_corrections :: "CorrectionBook \<Rightarrow> (string \<times> Correction) list" where
  "latest_corrections corrections =
     fold (\<lambda>c m. AList.update (co_usage_record_event_id c) c m) (cb_corrections corrections) []"

section \<open>Price, attribute, correct\<close>

definition price_record ::
  "PriceBook \<Rightarrow> StoredUsageRecord \<Rightarrow> nat \<Rightarrow> LedgerException list \<times> u128 option \<times> PriceBasis option" where
  "price_record prices rec at_unix =
     (let payload = sr_payload rec
      in case (ur_tokens payload, ur_amount_nanousd payload) of
          (Some tokens, _) \<Rightarrow>
            if ur_observed_cost_nanousd payload \<noteq> None
            then ([], map_option ucast (ur_observed_cost_nanousd payload), Some Observed)
            else
              let model = (case ur_model payload of Some m \<Rightarrow> m | None \<Rightarrow> []);
                  facts = \<lparr>cf_input_tokens = total_input_tokens tokens, cf_at_unix = at_unix,
                           cf_provider = Some (ur_provider payload), cf_tier = None\<rparr>
              in (case price_facts prices model tokens facts of
                    Some priced \<Rightarrow> ([], Some (pcall_cost_nanousd priced), Some (pcall_basis priced))
                  | None \<Rightarrow> ([UnpricedModel (sr_event_id rec) model], None, None))
        | (None, Some amount) \<Rightarrow> ([], Some (ucast amount), None)
        | (None, None) \<Rightarrow> ([], None, None))"

definition attribute_record ::
  "Rulebook \<Rightarrow> UsageRecordPayload \<Rightarrow> CostClassification \<times> RuleAssignment option \<times> AttributionMethod" where
  "attribute_record rules payload = (case ur_work_context payload of
       Some ctx \<Rightarrow>
         (classify_cost (wc_commercial_purpose ctx) (wc_client_organization_id ctx),
          Some \<lparr>ra_cost_centre_id = wc_cost_centre_id ctx, ra_owning_team_id = wc_owning_team_id ctx,
                ra_commercial_purpose = wc_commercial_purpose ctx,
                ra_client_organization_id = wc_client_organization_id ctx,
                ra_task_id = Some (wc_task_id ctx)\<rparr>,
          ByContext)
     | None \<Rightarrow>
         (case best_match rules payload of
            Some rule \<Rightarrow>
              (classify_cost (ra_commercial_purpose (ar_assign rule)) (ra_client_organization_id (ar_assign rule)),
               Some (ar_assign rule), ByRule (ar_id rule))
          | None \<Rightarrow> (NeedsReview, None, Unattributed)))"

definition correct_record ::
  "(string \<times> Correction) list \<Rightarrow> string
    \<Rightarrow> CostClassification \<times> RuleAssignment option \<times> AttributionMethod
    \<Rightarrow> CostClassification \<times> RuleAssignment option \<times> AttributionMethod" where
  "correct_record latest event_id attributed = (case map_of latest event_id of
       Some c \<Rightarrow>
         (classify_cost (ra_commercial_purpose (co_assign c)) (ra_client_organization_id (co_assign c)),
          Some (co_assign c), ByCorrection (co_id c))
     | None \<Rightarrow> attributed)"

text \<open>One turn of the loop: the exceptions it pushes, and the entry.\<close>

definition ledger_entry_for ::
  "(string \<Rightarrow> int option) \<Rightarrow> PriceBook \<Rightarrow> Rulebook \<Rightarrow> (string \<times> Correction) list \<Rightarrow> StoredUsageRecord
    \<Rightarrow> LedgerException list \<times> LedgerEntry" where
  "ledger_entry_for rfc3339 prices rules latest rec =
     (let payload = sr_payload rec;
          (bad, at_unix) = (case parse_rfc3339 rfc3339 (ur_timestamp payload) of
               Some seconds \<Rightarrow> ([], seconds)
             | None \<Rightarrow> ([BadTimestamp (sr_event_id rec) (ur_timestamp payload)], sr_created_at rec));
          (unpriced, cost, basis) = price_record prices rec at_unix;
          (original, assigned, how) = attribute_record rules payload;
          (classification, assignment, attributed_by) =
             correct_record latest (sr_event_id rec) (original, assigned, how);
          classification' = (if cost = None then NeedsReview else classification)
      in (bad @ unpriced,
          \<lparr>le_event_id = sr_event_id rec, le_day = utc_day at_unix, le_provider = ur_provider payload,
           le_source = ur_source payload, le_model = ur_model payload,
           le_payment_mode = ur_payment_mode payload, le_cost_nanousd = cost, le_price_basis = basis,
           le_original_classification = original, le_effective_classification = classification',
           le_effective_assignment = assignment, le_attributed_by = attributed_by\<rparr>))"

section \<open>Aggregate\<close>

record Aggregates =
  ag_totals :: ClassTotals
  ag_metered :: u128
  ag_imputed :: u128
  ag_by_cost_centre :: "(string \<times> u128) list"
  ag_by_day :: "((string \<times> string) \<times> u128) list"
  ag_by_centre_period :: "((string \<times> string) \<times> u128) list"

definition add_total :: "CostClassification \<Rightarrow> u128 \<Rightarrow> ClassTotals \<Rightarrow> ClassTotals" where
  "add_total cls cost t = (case cls of
       Cogs \<Rightarrow> t\<lparr>ct_cogs := ct_cogs t + cost\<rparr>
     | Opex \<Rightarrow> t\<lparr>ct_opex := ct_opex t + cost\<rparr>
     | NeedsReview \<Rightarrow> t\<lparr>ct_needs_review := ct_needs_review t + cost\<rparr>)"

definition entry_centre :: "LedgerEntry \<Rightarrow> string" where
  "entry_centre entry = (case le_effective_assignment entry of
       Some a \<Rightarrow> ra_cost_centre_id a | None \<Rightarrow> NEEDS_REVIEW_COST_CENTRE)"

definition entry_period :: "LedgerEntry \<Rightarrow> string" where
  "entry_period entry = (if length (le_day entry) \<ge> 7 then take 7 (le_day entry) else le_day entry)"

definition aggregate_entry :: "LedgerEntry \<Rightarrow> Aggregates \<Rightarrow> Aggregates" where
  "aggregate_entry entry ag = (case le_cost_nanousd entry of
       None \<Rightarrow> ag
     | Some cost \<Rightarrow>
         \<lparr>ag_totals = add_total (le_effective_classification entry) cost (ag_totals ag),
          ag_metered = (case le_payment_mode entry of Metered \<Rightarrow> ag_metered ag + cost | Imputed \<Rightarrow> ag_metered ag),
          ag_imputed = (case le_payment_mode entry of Metered \<Rightarrow> ag_imputed ag | Imputed \<Rightarrow> ag_imputed ag + cost),
          ag_by_cost_centre = btree_add (entry_centre entry) cost (ag_by_cost_centre ag),
          ag_by_day = (if le_payment_mode entry = Metered
             then btree_add (le_provider entry, le_day entry) cost (ag_by_day ag) else ag_by_day ag),
          ag_by_centre_period = btree_add (entry_centre entry, entry_period entry) cost (ag_by_centre_period ag)\<rparr>)"

definition aggregate :: "LedgerEntry list \<Rightarrow> Aggregates" where
  "aggregate entries = fold aggregate_entry entries
     \<lparr>ag_totals = \<lparr>ct_cogs = 0, ct_opex = 0, ct_needs_review = 0\<rparr>, ag_metered = 0, ag_imputed = 0,
      ag_by_cost_centre = [], ag_by_day = [], ag_by_centre_period = []\<rparr>"

definition budget_status :: "Aggregates \<Rightarrow> Budget \<Rightarrow> BudgetStatus" where
  "budget_status ag budget =
     \<lparr>bs_cost_centre_id = bg_cost_centre_id budget, bs_period = bg_period budget,
      bs_budget_nanousd = ucast (bg_amount_nanousd budget),
      bs_actual_nanousd = btree_get (ag_by_centre_period ag) (bg_cost_centre_id budget, bg_period budget)\<rparr>"

definition compute_ledger ::
  "(string \<Rightarrow> int option) \<Rightarrow> StoredUsageRecord list \<Rightarrow> PriceBook \<Rightarrow> Rulebook \<Rightarrow> CorrectionBook \<Rightarrow> Budget list
    \<Rightarrow> LedgerReport" where
  "compute_ledger rfc3339 records prices rules corrections budgets =
     (let ordered = sort_key record_order records;
          (seen, counted, conflicts) = dedupe ordered;
          latest = latest_corrections corrections;
          processed = map (ledger_entry_for rfc3339 prices rules latest) counted;
          entries = map snd processed;
          ag = aggregate entries
      in \<lparr>lr_entries = entries, lr_totals = ag_totals ag, lr_metered_nanousd = ag_metered ag,
          lr_imputed_nanousd = ag_imputed ag, lr_by_cost_centre = ag_by_cost_centre ag,
          lr_by_day = map (\<lambda>((provider, day), metered). \<lparr>ds_provider = provider, ds_day = day,
             ds_metered_nanousd = metered\<rparr>) (ag_by_day ag),
          lr_budget_status = map (budget_status ag) budgets,
          lr_exceptions = conflicts @ concat (map fst processed)\<rparr>)"

section \<open>What the aggregates add up to\<close>

definition entry_cost :: "LedgerEntry \<Rightarrow> u128" where
  "entry_cost e = (case le_cost_nanousd e of None \<Rightarrow> 0 | Some c \<Rightarrow> c)"

text \<open>The money of the entries that satisfy \<open>P\<close>.\<close>

definition spend :: "(LedgerEntry \<Rightarrow> bool) \<Rightarrow> LedgerEntry list \<Rightarrow> u128" where
  "spend P es = sum_list (map entry_cost (filter P es))"

lemma spend_Nil [simp]: "spend P [] = 0"
  by (simp add: spend_def)

lemma spend_Cons [simp]: "spend P (e # es) = (if P e then entry_cost e else 0) + spend P es"
  by (simp add: spend_def)

lemma spend_split: "spend P es = spend (\<lambda>e. P e \<and> Q e) es + spend (\<lambda>e. P e \<and> \<not> Q e) es"
  by (induction es) auto

definition maps_ok :: "Aggregates \<Rightarrow> bool" where
  "maps_ok ag \<longleftrightarrow> btree_ok (ag_by_cost_centre ag) \<and> btree_ok (ag_by_day ag) \<and> btree_ok (ag_by_centre_period ag)"

lemma aggregate_entry_ok: "maps_ok ag \<Longrightarrow> maps_ok (aggregate_entry e ag)"
  by (auto simp: maps_ok_def aggregate_entry_def split: option.split)

lemma fold_aggregate_totals:
  "ct_cogs (ag_totals (fold aggregate_entry es ag)) = ct_cogs (ag_totals ag) + spend (\<lambda>e. le_effective_classification e = Cogs) es"
  "ct_opex (ag_totals (fold aggregate_entry es ag)) = ct_opex (ag_totals ag) + spend (\<lambda>e. le_effective_classification e = Opex) es"
  "ct_needs_review (ag_totals (fold aggregate_entry es ag)) =
     ct_needs_review (ag_totals ag) + spend (\<lambda>e. le_effective_classification e = NeedsReview) es"
  by (induction es arbitrary: ag)
    (auto simp: aggregate_entry_def add_total_def entry_cost_def split: option.split CostClassification.split)

lemma fold_aggregate_modes:
  "ag_metered (fold aggregate_entry es ag) = ag_metered ag + spend (\<lambda>e. le_payment_mode e = Metered) es"
  "ag_imputed (fold aggregate_entry es ag) = ag_imputed ag + spend (\<lambda>e. le_payment_mode e = Imputed) es"
  by (induction es arbitrary: ag)
    (auto simp: aggregate_entry_def entry_cost_def split: option.split PaymentMode.split)

lemma fold_aggregate_sums:
  "sum_list (map snd (ag_by_cost_centre (fold aggregate_entry es ag))) =
     sum_list (map snd (ag_by_cost_centre ag)) + spend (\<lambda>e. True) es"
  "sum_list (map snd (ag_by_day (fold aggregate_entry es ag))) =
     sum_list (map snd (ag_by_day ag)) + spend (\<lambda>e. le_payment_mode e = Metered) es"
  by (induction es arbitrary: ag)
    (auto simp: aggregate_entry_def entry_cost_def btree_sum_add split: option.split)

lemma btree_get_add: "btree_ok m \<Longrightarrow> btree_get (btree_add k v m) k' = (if k' = k then btree_get m k + v else btree_get m k')"
  by (simp add: btree_get_def store_simps)

lemma fold_aggregate_period:
  "maps_ok ag \<Longrightarrow> btree_get (ag_by_centre_period (fold aggregate_entry es ag)) k =
     btree_get (ag_by_centre_period ag) k + spend (\<lambda>e. (entry_centre e, entry_period e) = k) es"
proof (induction es arbitrary: ag)
  case (Cons e es)
  have "btree_get (ag_by_centre_period (aggregate_entry e ag)) k =
      btree_get (ag_by_centre_period ag) k + (if (entry_centre e, entry_period e) = k then entry_cost e else 0)"
    using Cons.prems by (auto simp: aggregate_entry_def entry_cost_def maps_ok_def btree_get_add split: option.split)
  with Cons.IH [OF aggregate_entry_ok [OF Cons.prems]] show ?case by simp
qed simp

lemmas aggregate_sums = fold_aggregate_totals fold_aggregate_modes fold_aggregate_sums

lemma maps_ok_empty: "maps_ok \<lparr>ag_totals = t, ag_metered = m, ag_imputed = i,
    ag_by_cost_centre = [], ag_by_day = [], ag_by_centre_period = []\<rparr>"
  by (simp add: maps_ok_def)

lemma compute_ledger_fields:
  fixes rfc3339 records prices rules corrections budgets
  defines "rep \<equiv> compute_ledger rfc3339 records prices rules corrections budgets"
  defines "counted \<equiv> fst (snd (dedupe (sort_key record_order records)))"
  defines "processed \<equiv> map (ledger_entry_for rfc3339 prices rules (latest_corrections corrections)) counted"
  shows "lr_entries rep = map snd processed"
    and "lr_totals rep = ag_totals (aggregate (lr_entries rep))"
    and "lr_metered_nanousd rep = ag_metered (aggregate (lr_entries rep))"
    and "lr_imputed_nanousd rep = ag_imputed (aggregate (lr_entries rep))"
    and "lr_by_cost_centre rep = ag_by_cost_centre (aggregate (lr_entries rep))"
    and "map ds_metered_nanousd (lr_by_day rep) = map snd (ag_by_day (aggregate (lr_entries rep)))"
    and "lr_budget_status rep = map (budget_status (aggregate (lr_entries rep))) budgets"
    and "lr_exceptions rep = snd (snd (dedupe (sort_key record_order records))) @ concat (map fst processed)"
  unfolding rep_def processed_def counted_def compute_ledger_def Let_def
  by (auto split: prod.splits)

text \<open>
  C4: no money is lost or counted twice: the three classification totals, the metered and
  imputed totals, and the cost-centre totals all add up to the costs of the counted
  entries, and the per-day sums add up to the metered total.
\<close>

theorem ledger_conserves:
  fixes rfc3339 records prices rules corrections budgets
  defines "rep \<equiv> compute_ledger rfc3339 records prices rules corrections budgets"
  shows "ct_cogs (lr_totals rep) + ct_opex (lr_totals rep) + ct_needs_review (lr_totals rep)
      = sum_list (map entry_cost (lr_entries rep))
    \<and> lr_metered_nanousd rep + lr_imputed_nanousd rep = sum_list (map entry_cost (lr_entries rep))
    \<and> sum_list (map snd (lr_by_cost_centre rep)) = sum_list (map entry_cost (lr_entries rep))
    \<and> sum_list (map ds_metered_nanousd (lr_by_day rep)) = lr_metered_nanousd rep"
proof -
  note f = compute_ledger_fields [of rfc3339 records prices rules corrections budgets, folded rep_def]
  let ?es = "lr_entries rep"
  have all: "spend (\<lambda>e. True) ?es = sum_list (map entry_cost ?es)" by (simp add: spend_def)
  have cls: "spend (\<lambda>e. le_effective_classification e = Cogs) es + spend (\<lambda>e. le_effective_classification e = Opex) es
      + spend (\<lambda>e. le_effective_classification e = NeedsReview) es = spend (\<lambda>e. True) es" for es
  proof (induction es)
    case (Cons e es)
    then show ?case by (cases "le_effective_classification e") (auto simp: algebra_simps)
  qed simp
  have mode: "spend (\<lambda>e. le_payment_mode e = Metered) es + spend (\<lambda>e. le_payment_mode e = Imputed) es
      = spend (\<lambda>e. True) es" for es
  proof (induction es)
    case (Cons e es)
    then show ?case by (cases "le_payment_mode e") (auto simp: algebra_simps)
  qed simp
  show ?thesis
    unfolding f(2-6) aggregate_def aggregate_sums all [symmetric]
    using cls [of ?es] mode [of ?es] by simp
qed

section \<open>What is counted\<close>

lemma find_snoc: "find P (xs @ [x]) = (case find P xs of None \<Rightarrow> if P x then Some x else None | Some y \<Rightarrow> Some y)"
  by (induction xs) auto

lemma find_key_None: "find (\<lambda>r. f r = k) xs = None \<longleftrightarrow> k \<notin> f ` set xs"
  by (auto simp: find_None_iff)

lemma dedupe_snoc: "dedupe (xs @ [x]) = dedupe_step x (dedupe xs)"
  by (simp add: dedupe_def)

lemma dedupe_spec:
  assumes "dedupe xs = (seen, counted, exc)"
  shows "\<And>k. map_of seen k = find (\<lambda>r. dedupe_key r = k) xs"
    and "distinct (map dedupe_key counted)"
    and "dedupe_key ` set counted = dedupe_key ` set xs"
    and "\<And>c. c \<in> set counted \<Longrightarrow> find (\<lambda>r. dedupe_key r = dedupe_key c) xs = Some c"
    and "\<And>r c. r \<in> set xs \<Longrightarrow> c \<in> set counted \<Longrightarrow> dedupe_key r = dedupe_key c \<Longrightarrow> sr_payload r \<noteq> sr_payload c
           \<Longrightarrow> DuplicateConflict (dedupe_key r) (sr_event_id c) (sr_event_id r) \<in> set exc"
proof -
  have "(\<forall>k. map_of seen k = find (\<lambda>r. dedupe_key r = k) xs) \<and> distinct (map dedupe_key counted)
    \<and> dedupe_key ` set counted = dedupe_key ` set xs
    \<and> (\<forall>c \<in> set counted. find (\<lambda>r. dedupe_key r = dedupe_key c) xs = Some c)
    \<and> (\<forall>r \<in> set xs. \<forall>c \<in> set counted. dedupe_key r = dedupe_key c \<longrightarrow> sr_payload r \<noteq> sr_payload c
         \<longrightarrow> DuplicateConflict (dedupe_key r) (sr_event_id c) (sr_event_id r) \<in> set exc)"
    using assms
  proof (induction xs arbitrary: seen counted exc rule: rev_induct)
    case Nil
    then show ?case by (auto simp: dedupe_def)
  next
    case (snoc x xs)
    obtain seen0 counted0 exc0 where d: "dedupe xs = (seen0, counted0, exc0)" by (cases "dedupe xs") auto
    note IH = snoc.IH [OF d]
    show ?case
    proof (cases "map_of seen0 (dedupe_key x)")
      case None
      then have fresh: "dedupe_key x \<notin> dedupe_key ` set xs" using IH find_key_None by metis
      from None snoc.prems d have
        "seen = AList.update (dedupe_key x) x seen0" "counted = counted0 @ [x]" "exc = exc0"
        by (auto simp: dedupe_snoc Let_def)
      moreover have "dedupe_key r \<noteq> dedupe_key x" if "r \<in> set xs" for r using fresh that by (metis imageI)
      ultimately show ?thesis using IH fresh None
        by (auto simp: find_snoc store_simps split: option.split)
    next
      case (Some kept)
      from Some snoc.prems d have st: "seen = seen0" "counted = counted0"
        and exc: "exc = (if sr_payload kept \<noteq> sr_payload x
          then exc0 @ [DuplicateConflict (dedupe_key x) (sr_event_id kept) (sr_event_id x)] else exc0)"
        by (auto simp: dedupe_snoc Let_def)
      have kept: "find (\<lambda>r. dedupe_key r = dedupe_key x) xs = Some kept" using IH Some by metis
      then have "dedupe_key x \<in> dedupe_key ` set xs" using find_key_None by (metis option.distinct(1))
      moreover have "c \<in> set counted \<Longrightarrow> dedupe_key x = dedupe_key c \<Longrightarrow> c = kept" for c
        using IH kept st by force
      ultimately show ?thesis using IH kept st exc
        by (auto simp: find_snoc split: option.split)
    qed
  qed
  then show "\<And>k. map_of seen k = find (\<lambda>r. dedupe_key r = k) xs" "distinct (map dedupe_key counted)"
    "dedupe_key ` set counted = dedupe_key ` set xs"
    "\<And>c. c \<in> set counted \<Longrightarrow> find (\<lambda>r. dedupe_key r = dedupe_key c) xs = Some c"
    "\<And>r c. r \<in> set xs \<Longrightarrow> c \<in> set counted \<Longrightarrow> dedupe_key r = dedupe_key c \<Longrightarrow> sr_payload r \<noteq> sr_payload c
       \<Longrightarrow> DuplicateConflict (dedupe_key r) (sr_event_id c) (sr_event_id r) \<in> set exc"
    by blast+
qed

lemma sorted_find_least:
  assumes "sorted (map f xs)" and "find P xs = Some c" and "r \<in> set xs" and "P r"
  shows "f c \<le> f r"
  using assms by (induction xs) (auto split: if_splits)

text \<open>
  Of the records that share a dedupe key exactly one is counted, the earliest by
  creation time and event id; a dropped record whose content differs from the counted one
  is reported as a conflict naming both.
\<close>

theorem each_request_counted_once:
  fixes rfc3339 records prices rules corrections budgets
  defines "rep \<equiv> compute_ledger rfc3339 records prices rules corrections budgets"
    and "counted \<equiv> fst (snd (dedupe (sort_key record_order records)))"
  shows "map le_event_id (lr_entries rep) = map sr_event_id counted
    \<and> distinct (map dedupe_key counted) \<and> dedupe_key ` set counted = dedupe_key ` set records
    \<and> list_all (\<lambda>c. list_all (\<lambda>r. record_order c \<le> record_order r)
         (filter (\<lambda>r. dedupe_key r = dedupe_key c) records)) counted
    \<and> list_all (\<lambda>(r, c). DuplicateConflict (dedupe_key r) (sr_event_id c) (sr_event_id r) \<in> set (lr_exceptions rep))
         (filter (\<lambda>(r, c). dedupe_key r = dedupe_key c \<and> sr_payload r \<noteq> sr_payload c) (List.product records counted))"
proof -
  let ?xs = "sort_key record_order records"
  obtain seen exc where d: "dedupe ?xs = (seen, counted, exc)"
    unfolding counted_def by (cases "dedupe ?xs") auto
  note spec = dedupe_spec [OF d]
  note f = compute_ledger_fields [of rfc3339 records prices rules corrections budgets, folded rep_def counted_def]
  have "le_event_id (snd (ledger_entry_for rfc3339 prices rules latest r)) = sr_event_id r" for latest r
    by (simp add: ledger_entry_for_def Let_def split: prod.splits option.splits)
  then have ids: "map le_event_id (lr_entries rep) = map sr_event_id counted"
    unfolding f(1) by (simp add: comp_def)
  have least: "record_order c \<le> record_order r"
    if "c \<in> set counted" "r \<in> set records" "dedupe_key r = dedupe_key c" for c r
    using sorted_find_least [where f = record_order, OF _ spec(4) [OF that(1)], of r] that by simp
  have conflict: "DuplicateConflict (dedupe_key r) (sr_event_id c) (sr_event_id r) \<in> set (lr_exceptions rep)"
    if "r \<in> set records" "c \<in> set counted" "dedupe_key r = dedupe_key c" "sr_payload r \<noteq> sr_payload c" for r c
    using spec(5) [of r c] that f(8) d by simp
  have keys: "dedupe_key ` set counted = dedupe_key ` set records" using spec(3) by simp
  show ?thesis
    using ids spec(2) keys least conflict by (auto simp: list_all_iff)
qed

text \<open>
  The report depends only on which records there are, never on the order they arrive
  in, as long as no two different records share a creation time and event id.
\<close>

theorem ledger_order_independent:
  assumes "mset records = mset records'" and "inj_on record_order (set records)"
  shows "compute_ledger rfc3339 records prices rules corrections budgets
     = compute_ledger rfc3339 records' prices rules corrections budgets"
  unfolding compute_ledger_def sort_key_eq_sort_key [OF assms] ..

definition demo_book :: PriceBook where
  "demo_book = \<lparr>pb_entries = [demo_row 0 OwnerOrigin]\<rparr>"

definition demo_record :: "string \<Rightarrow> nat \<Rightarrow> StoredUsageRecord" where
  "demo_record i t = \<lparr>sr_event_id = i, sr_created_at = t, sr_payload = demo_payload\<rparr>"

theorem ledger_order_independent_witness:
  "compute_ledger (\<lambda>_. None) [demo_record ''a'' 1, demo_record ''b'' 2] demo_book \<lparr>rb_rules = []\<rparr> \<lparr>cb_corrections = []\<rparr> []
     = compute_ledger (\<lambda>_. None) [demo_record ''b'' 2, demo_record ''a'' 1] demo_book \<lparr>rb_rules = []\<rparr> \<lparr>cb_corrections = []\<rparr> []"
  by (rule ledger_order_independent) (simp_all add: demo_record_def record_order_def)

text \<open>
  Corrections only add: with or without them the ledger has the same entries with the
  same day, cost, basis and original classification; a corrected entry takes the
  assignment of the last correction that names it.
\<close>

theorem corrections_keep_evidence:
  fixes rfc3339 records prices rules corrections budgets
  defines "rep \<equiv> compute_ledger rfc3339 records prices rules corrections budgets"
    and "raw \<equiv> compute_ledger rfc3339 records prices rules \<lparr>cb_corrections = []\<rparr> budgets"
  shows "list_all2 (\<lambda>e e0. le_event_id e = le_event_id e0 \<and> le_day e = le_day e0 \<and> le_payment_mode e = le_payment_mode e0
      \<and> le_cost_nanousd e = le_cost_nanousd e0 \<and> le_price_basis e = le_price_basis e0
      \<and> le_original_classification e = le_original_classification e0
      \<and> le_effective_assignment e = (case map_of (rev (map (\<lambda>c. (co_usage_record_event_id c, c)) (cb_corrections corrections))) (le_event_id e) of
           Some c \<Rightarrow> Some (co_assign c) | None \<Rightarrow> le_effective_assignment e0))
     (lr_entries rep) (lr_entries raw)"
proof -
  note f = compute_ledger_fields(1) [of rfc3339 records prices rules corrections budgets, folded rep_def]
  note f0 = compute_ledger_fields(1) [of rfc3339 records prices rules "\<lparr>cb_corrections = []\<rparr>" budgets, folded raw_def]
  have upd: "map_of (fold (\<lambda>c m. AList.update (co_usage_record_event_id c) c m) cs m) k =
      (case map_of (rev (map (\<lambda>c. (co_usage_record_event_id c, c)) cs)) k of Some c \<Rightarrow> Some c | None \<Rightarrow> map_of m k)" for cs m k
    by (induction cs arbitrary: m) (auto simp: store_simps map_add_def split: option.splits)
  have latest: "map_of (latest_corrections corrections) k =
      map_of (rev (map (\<lambda>c. (co_usage_record_event_id c, c)) (cb_corrections corrections))) k" for k
    unfolding latest_corrections_def upd by (simp split: option.split)
  have none: "latest_corrections \<lparr>cb_corrections = []\<rparr> = []" by (simp add: latest_corrections_def)
  have "list_all2 P (map g xs) (map h xs)" if "\<And>x. P (g x) (h x)" for P xs and g h :: "StoredUsageRecord \<Rightarrow> LedgerEntry"
    using that by (induction xs) auto
  then show ?thesis
    unfolding f f0 none map_map latest [symmetric]
    by (rule) (auto simp: ledger_entry_for_def correct_record_def Let_def split: prod.splits option.splits)
qed

text \<open>
  Unknown money is never silently zero or attributed: an entry without a cost is
  classified for review, and for records that passed validation it comes with an
  exception naming the record and its model.
\<close>

theorem unpriced_is_surfaced:
  fixes rfc3339 records prices rules corrections budgets
  defines "rep \<equiv> compute_ledger rfc3339 records prices rules corrections budgets"
  assumes "list_all (\<lambda>r. usage_record_validate (sr_payload r) = Inr ()) records"
  shows "list_all (\<lambda>e. le_effective_classification e = NeedsReview
       \<and> UnpricedModel (le_event_id e) (case le_model e of Some m \<Rightarrow> m | None \<Rightarrow> []) \<in> set (lr_exceptions rep))
     (filter (\<lambda>e. le_cost_nanousd e = None) (lr_entries rep))"
proof -
  let ?counted = "fst (snd (dedupe (sort_key record_order records)))"
  let ?entry = "ledger_entry_for rfc3339 prices rules (latest_corrections corrections)"
  note f = compute_ledger_fields [of rfc3339 records prices rules corrections budgets, folded rep_def]
  have one: "le_effective_classification (snd (?entry r)) = NeedsReview
       \<and> UnpricedModel (le_event_id (snd (?entry r)))
           (case le_model (snd (?entry r)) of Some m \<Rightarrow> m | None \<Rightarrow> []) \<in> set (fst (?entry r))"
    if "usage_record_validate (sr_payload r) = Inr ()" "le_cost_nanousd (snd (?entry r)) = None" for r
    using that validate_ok_shape(1) [OF that(1)]
    by (auto simp: ledger_entry_for_def price_record_def Let_def split: prod.splits option.splits if_splits)
  have "set ?counted \<subseteq> set records"
  proof
    fix c assume c: "c \<in> set ?counted"
    obtain seen cs exc where d: "dedupe (sort_key record_order records) = (seen, cs, exc)" by (cases "dedupe (sort_key record_order records)") auto
    with c dedupe_spec(4) [OF d, of c] have "find (\<lambda>r. dedupe_key r = dedupe_key c) (sort_key record_order records) = Some c" by simp
    then have "c \<in> set (sort_key record_order records)" by (metis find_Some_iff nth_mem)
    then show "c \<in> set records" by simp
  qed
  then show ?thesis
    using assms(2) one unfolding f(1) f(8) by (fastforce simp: list_all_iff)
qed

lemma demo_payload_valid: "usage_record_validate demo_payload = Inr ()"
  by (simp add: usage_record_validate_def demo_payload_def trim_single ws1_def byte_def)

theorem unpriced_is_surfaced_witness:
  "list_all (\<lambda>e. le_effective_classification e = NeedsReview
       \<and> UnpricedModel (le_event_id e) (case le_model e of Some m \<Rightarrow> m | None \<Rightarrow> [])
           \<in> set (lr_exceptions (compute_ledger (\<lambda>_. None) [demo_record ''a'' 1] \<lparr>pb_entries = []\<rparr> \<lparr>rb_rules = []\<rparr> \<lparr>cb_corrections = []\<rparr> [])))
     (filter (\<lambda>e. le_cost_nanousd e = None)
       (lr_entries (compute_ledger (\<lambda>_. None) [demo_record ''a'' 1] \<lparr>pb_entries = []\<rparr> \<lparr>rb_rules = []\<rparr> \<lparr>cb_corrections = []\<rparr> [])))"
  by (rule unpriced_is_surfaced) (simp add: demo_record_def demo_payload_valid)

lemma unat_sum_list: "sum_list (map unat xs) < 2 ^ 128 \<Longrightarrow> unat (sum_list xs) = sum_list (map unat (xs :: u128 list))"
proof (induction xs)
  case (Cons x xs)
  then have "unat (sum_list xs) = sum_list (map unat xs)" by simp
  with Cons.prems show ?case by (simp add: unat_sum128)
qed simp

lemma unat_spend:
  "sum_list (map (\<lambda>e. unat (entry_cost e)) es) < 2 ^ 128 \<Longrightarrow>
     unat (spend P es) = sum_list (map (\<lambda>e. unat (entry_cost e)) (filter P es))"
proof -
  assume "sum_list (map (\<lambda>e. unat (entry_cost e)) es) < 2 ^ 128"
  moreover have "sum_list (map g (filter P es)) \<le> sum_list (map g es)" for g :: "LedgerEntry \<Rightarrow> nat"
    by (induction es) auto
  ultimately have "sum_list (map unat (map entry_cost (filter P es))) < 2 ^ 128"
    by (auto simp: comp_def intro: order_le_less_trans)
  from unat_sum_list [OF this] show ?thesis by (simp add: spend_def comp_def)
qed

text \<open>
  While the costs together stay below 2 to the 128 no total wraps: each is the exact
  sum of the costs of its entries, and a budget's actual is the exact spend of its cost
  centre in its month.
\<close>

theorem ledger_totals_exact:
  fixes rfc3339 records prices rules corrections budgets
  defines "rep \<equiv> compute_ledger rfc3339 records prices rules corrections budgets"
  assumes "sum_list (map (\<lambda>e. unat (entry_cost e)) (lr_entries rep)) < 2 ^ 128"
  shows "unat (ct_cogs (lr_totals rep)) =
      sum_list (map (\<lambda>e. unat (entry_cost e)) (filter (\<lambda>e. le_effective_classification e = Cogs) (lr_entries rep)))
    \<and> unat (ct_opex (lr_totals rep)) =
      sum_list (map (\<lambda>e. unat (entry_cost e)) (filter (\<lambda>e. le_effective_classification e = Opex) (lr_entries rep)))
    \<and> unat (lr_metered_nanousd rep) =
      sum_list (map (\<lambda>e. unat (entry_cost e)) (filter (\<lambda>e. le_payment_mode e = Metered) (lr_entries rep)))
    \<and> list_all (\<lambda>b. unat (bs_actual_nanousd b) = sum_list (map (\<lambda>e. unat (entry_cost e))
         (filter (\<lambda>e. (entry_centre e, entry_period e) = (bs_cost_centre_id b, bs_period b)) (lr_entries rep))))
       (lr_budget_status rep)"
proof -
  note f = compute_ledger_fields [of rfc3339 records prices rules corrections budgets, folded rep_def]
  have period: "btree_get (ag_by_centre_period (aggregate es)) k = spend (\<lambda>e. (entry_centre e, entry_period e) = k) es" for es k
    unfolding aggregate_def by (subst fold_aggregate_period) (simp_all add: maps_ok_empty btree_get_def)
  have "list_all (\<lambda>b. unat (bs_actual_nanousd b) = sum_list (map (\<lambda>e. unat (entry_cost e))
         (filter (\<lambda>e. (entry_centre e, entry_period e) = (bs_cost_centre_id b, bs_period b)) (lr_entries rep))))
       (lr_budget_status rep)"
    unfolding f(7) list.pred_map by (simp add: list_all_iff budget_status_def period unat_spend [OF assms(2)])
  then show ?thesis
    unfolding f(2,3) aggregate_def aggregate_sums by (simp add: unat_spend [OF assms(2)])
qed

theorem ledger_totals_exact_witness:
  "let rep = compute_ledger (\<lambda>_. None) [demo_record ''a'' 1] demo_book \<lparr>rb_rules = []\<rparr> \<lparr>cb_corrections = []\<rparr> []
   in unat (lr_metered_nanousd rep) =
        sum_list (map (\<lambda>e. unat (entry_cost e)) (filter (\<lambda>e. le_payment_mode e = Metered) (lr_entries rep)))"
proof -
  let ?rep = "compute_ledger (\<lambda>_. None) [demo_record ''a'' 1] demo_book \<lparr>rb_rules = []\<rparr> \<lparr>cb_corrections = []\<rparr> []"
  have "\<exists>e. lr_entries ?rep = [e]" by (simp add: compute_ledger_def dedupe_def Let_def)
  then obtain e where "lr_entries ?rep = [e]" ..
  then have "sum_list (map (\<lambda>e. unat (entry_cost e)) (lr_entries ?rep)) < 2 ^ 128"
    using unsigned_less [of "entry_cost e", where 'a = nat] by simp
  from ledger_totals_exact [OF this] show ?thesis unfolding Let_def by blast
qed

lemma sort_key_insert_dup:
  assumes "r \<in> set xs" and "inj_on f (set xs)"
  obtains a b where "sort_key f xs = a @ r # b" and "sort_key f (r # xs) = a @ r # r # b"
proof -
  have "r \<in> set (sort_key f xs)" using assms(1) by simp
  then obtain a b where ab: "sort_key f xs = a @ r # b" by (meson split_list)
  have "sorted (map f (sort_key f xs))" by simp
  then have s: "sorted (map f (a @ r # r # b))" unfolding ab by (auto simp: sorted_append)
  have "mset (sort_key f xs) = mset xs" by simp
  then have m: "mset (r # xs) = mset (a @ r # r # b)" unfolding ab by simp
  have "inj_on f (set (r # xs))" using assms by (simp add: insert_absorb)
  from sort_key_inj_key_eq [OF m this s] ab that show ?thesis by blast
qed

lemma dedupe_step_seen:
  assumes "dedupe_key r \<in> fst ` set (fst st)"
  shows "fst (dedupe_step r st) = fst st \<and> fst (snd (dedupe_step r st)) = fst (snd st)"
proof -
  obtain seen counted exc where st: "st = (seen, counted, exc)" by (cases st) auto
  with assms have "\<exists>k. map_of seen (dedupe_key r) = Some k"
    using map_of_eq_None_iff [of seen "dedupe_key r"] by auto
  with st show ?thesis by (auto simp: Let_def)
qed

lemma dedupe_fold_cong:
  "fst s = fst t \<Longrightarrow> fst (snd s) = fst (snd t) \<Longrightarrow>
     fst (snd (fold dedupe_step xs s)) = fst (snd (fold dedupe_step xs t))"
proof (induction xs arbitrary: s t)
  case (Cons x xs)
  have "fst (dedupe_step x s) = fst (dedupe_step x t) \<and> fst (snd (dedupe_step x s)) = fst (snd (dedupe_step x t))"
  proof -
    obtain seen counted es et where "s = (seen, counted, es)" "t = (seen, counted, et)"
      using Cons.prems by (metis prod.collapse)
    then show ?thesis by (simp add: Let_def split: option.split)
  qed
  then show ?case unfolding fold_simps by (intro Cons.IH) (erule conjunct1, erule conjunct2)
qed simp

lemma dedupe_repeat: "fst (snd (dedupe (a @ r # r # b))) = fst (snd (dedupe (a @ r # b)))"
proof -
  let ?s = "fold dedupe_step (a @ [r]) ([], [], [])"
  obtain seen counted exc where d: "dedupe (a @ [r]) = (seen, counted, exc)" by (cases "dedupe (a @ [r])") auto
  then have s: "?s = (seen, counted, exc)" by (simp only: dedupe_def)
  have "map_of seen (dedupe_key r) \<noteq> None"
    unfolding dedupe_spec(1) [OF d] find_key_None by simp
  then have "dedupe_key r \<in> fst ` set (fst ?s)" unfolding s by (simp add: map_of_eq_None_iff)
  from dedupe_step_seen [OF this] have "fst (snd (fold dedupe_step b (dedupe_step r ?s))) = fst (snd (fold dedupe_step b ?s))"
    by (intro dedupe_fold_cong) auto
  then show ?thesis by (simp add: dedupe_def)
qed

text \<open>
  Republishing a record changes no entry, total, cost centre, day or budget of the
  report; only its conflicts may be reported again.
\<close>

theorem republish_idempotent:
  fixes rfc3339 records prices rules corrections budgets r
  defines "again \<equiv> compute_ledger rfc3339 (r # records) prices rules corrections budgets"
  assumes "r \<in> set records" and "inj_on record_order (set records)"
  shows "again = (compute_ledger rfc3339 records prices rules corrections budgets)\<lparr>lr_exceptions := lr_exceptions again\<rparr>"
proof -
  obtain a b where "sort_key record_order records = a @ r # b" "sort_key record_order (r # records) = a @ r # r # b"
    using sort_key_insert_dup [OF assms(2,3)] .
  then have same: "fst (snd (dedupe (sort_key record_order (r # records)))) = fst (snd (dedupe (sort_key record_order records)))"
    by (simp add: dedupe_repeat)
  obtain s1 c1 e1 where d1: "dedupe (sort_key record_order (r # records)) = (s1, c1, e1)" by (metis prod.collapse)
  obtain s2 c2 e2 where d2: "dedupe (sort_key record_order records) = (s2, c2, e2)" by (metis prod.collapse)
  from same have "c1 = c2" unfolding d1 d2 by simp
  then show ?thesis unfolding again_def compute_ledger_def Let_def d1 d2 by simp
qed

theorem republish_idempotent_witness:
  "compute_ledger (\<lambda>_. None) [demo_record ''a'' 1, demo_record ''a'' 1] demo_book \<lparr>rb_rules = []\<rparr> \<lparr>cb_corrections = []\<rparr> []
     = (compute_ledger (\<lambda>_. None) [demo_record ''a'' 1] demo_book \<lparr>rb_rules = []\<rparr> \<lparr>cb_corrections = []\<rparr> [])
         \<lparr>lr_exceptions := lr_exceptions (compute_ledger (\<lambda>_. None) [demo_record ''a'' 1, demo_record ''a'' 1] demo_book
            \<lparr>rb_rules = []\<rparr> \<lparr>cb_corrections = []\<rparr> [])\<rparr>"
  by (rule republish_idempotent) simp_all

end
