(* ===== verification/Reconcile.thy ===== *)
theory Reconcile
  imports Ledger_Engine
begin

text \<open>
  \<open>buzz-core/src/ledger/reconcile.rs\<close>: the comparison of the ledger's metered daily sums
  with the provider's own daily cost report, and the diagnosis of a difference.
\<close>

record ProviderDailyCost =
  pd_provider :: string
  pd_day :: string
  pd_amount_nanousd :: u128

definition abs_diff :: "u128 \<Rightarrow> u128 \<Rightarrow> u128" where
  "abs_diff a b = (if a < b then b - a else a - b)"

definition sum_by_day :: "('a \<Rightarrow> (string \<times> string)) \<Rightarrow> ('a \<Rightarrow> u128) \<Rightarrow> 'a list \<Rightarrow> ((string \<times> string) \<times> u128) list" where
  "sum_by_day key amount rows = fold (\<lambda>r. btree_add (key r) (amount r)) rows []"

definition reconcile ::
  "DailySum list \<Rightarrow> ProviderDailyCost list \<Rightarrow> u128 \<Rightarrow> LedgerException list" where
  "reconcile ledger_by_day provider_rows tolerance_nanousd =
     (let ledger = sum_by_day (\<lambda>s. (ds_provider s, ds_day s)) ds_metered_nanousd ledger_by_day;
          provider = sum_by_day (\<lambda>r. (pd_provider r, pd_day r)) pd_amount_nanousd provider_rows
      in concat (map (\<lambda>((slug, day), ledger_amount).
             case map_of provider (slug, day) of
               None \<Rightarrow> [ReconcileMissingDay slug day ProviderReport]
             | Some provider_amount \<Rightarrow>
                 if abs_diff ledger_amount provider_amount > tolerance_nanousd
                 then [ReconcileDrift slug day ledger_amount provider_amount]
                 else []) ledger)
         @ concat (map (\<lambda>((slug, day), amount).
             if map_of ledger (slug, day) = None then [ReconcileMissingDay slug day LedgerSide] else []) provider))"

fun diagnose :: "LedgerException \<Rightarrow> string option" where
  "diagnose (ReconcileDrift p d ledger_nanousd provider_nanousd) =
     Some (if provider_nanousd > ledger_nanousd
       then ''provider reports more than the ledger: the provider key is being used outside Colony, a price entry is stale, or usage records are missing''
       else ''ledger reports more than the provider: a request was probably counted twice'')"
| "diagnose (ReconcileMissingDay p d LedgerSide) =
     Some ''the provider billed for a day the ledger has no records for''"
| "diagnose (ReconcileMissingDay p d ProviderReport) =
     Some ''the ledger has spend for a day absent from the provider report''"
| "diagnose _ = None"

section \<open>Lemmas\<close>

definition day_total :: "('a \<Rightarrow> (string \<times> string)) \<Rightarrow> ('a \<Rightarrow> u128) \<Rightarrow> 'a list \<Rightarrow> string \<times> string \<Rightarrow> u128 option" where
  "day_total key amount rows k =
     (if k \<in> key ` set rows then Some (sum_list (map amount (filter (\<lambda>r. key r = k) rows))) else None)"

lemma sum_by_day_snoc: "sum_by_day key amount (rows @ [r]) = btree_add (key r) (amount r) (sum_by_day key amount rows)"
  by (simp add: sum_by_day_def)

lemma sum_by_day_ok: "btree_ok (sum_by_day key amount rows)"
proof (induction rows rule: rev_induct)
  case Nil
  then show ?case by (simp add: sum_by_day_def)
next
  case (snoc r rows)
  then show ?case by (simp add: sum_by_day_snoc)
qed

lemma map_of_sum_by_day: "map_of (sum_by_day key amount rows) k = day_total key amount rows k"
proof (induction rows arbitrary: k rule: rev_induct)
  case Nil
  then show ?case by (simp add: sum_by_day_def day_total_def)
next
  case (snoc r rows)
  have "btree_get (sum_by_day key amount rows) (key r) = sum_list (map amount (filter (\<lambda>x. key x = key r) rows))"
  proof (cases "key r \<in> key ` set rows")
    case False
    then have "filter (\<lambda>x. key x = key r) rows = []" unfolding filter_empty_conv by (metis imageI)
    with False show ?thesis by (simp add: btree_get_def snoc day_total_def)
  qed (simp add: btree_get_def snoc day_total_def)
  then show ?case
    using snoc by (auto simp: sum_by_day_snoc store_simps sum_by_day_ok day_total_def)
qed

lemma sum_by_day_mem: "(k, v) \<in> set (sum_by_day key amount rows) \<longleftrightarrow> day_total key amount rows k = Some v"
  unfolding map_of_sum_by_day [symmetric] by (rule keys_ok_mem [OF btree_ok_keys [OF sum_by_day_ok]])

lemma reconcile_mem:
  fixes ledger_by_day provider_rows
  defines "L \<equiv> day_total (\<lambda>s. (ds_provider s, ds_day s)) ds_metered_nanousd ledger_by_day"
    and "P \<equiv> day_total (\<lambda>r. (pd_provider r, pd_day r)) pd_amount_nanousd provider_rows"
  shows "x \<in> set (reconcile ledger_by_day provider_rows tol) \<longleftrightarrow>
      (\<exists>s d a. L (s, d) = Some a \<and> x \<in> set (case P (s, d) of None \<Rightarrow> [ReconcileMissingDay s d ProviderReport]
           | Some b \<Rightarrow> if abs_diff a b > tol then [ReconcileDrift s d a b] else []))
    \<or> (\<exists>s d a. P (s, d) = Some a \<and> L (s, d) = None \<and> x = ReconcileMissingDay s d LedgerSide)"
  unfolding reconcile_def Let_def map_of_sum_by_day L_def P_def
  by (force simp flip: sum_by_day_mem split: if_splits)

lemma reconcile_empty:
  fixes ledger_by_day provider_rows
  defines "L \<equiv> day_total (\<lambda>s. (ds_provider s, ds_day s)) ds_metered_nanousd ledger_by_day"
    and "P \<equiv> day_total (\<lambda>r. (pd_provider r, pd_day r)) pd_amount_nanousd provider_rows"
  shows "reconcile ledger_by_day provider_rows tol = [] \<longleftrightarrow>
    (\<forall>k. rel_option (\<lambda>l q. abs_diff l q \<le> tol) (L k) (P k))"
proof
  assume empty: "reconcile ledger_by_day provider_rows tol = []"
  show "\<forall>k. rel_option (\<lambda>l q. abs_diff l q \<le> tol) (L k) (P k)"
  proof
    fix k :: "string \<times> string"
    obtain s d where k: "k = (s, d)" by fastforce
    have mem: "x \<in> set (case P (s, d) of None \<Rightarrow> [ReconcileMissingDay s d ProviderReport]
         | Some b \<Rightarrow> if abs_diff a b > tol then [ReconcileDrift s d a b] else []) \<Longrightarrow> L (s, d) = Some a \<Longrightarrow> False"
      "P (s, d) = Some a \<Longrightarrow> L (s, d) = None \<Longrightarrow> False" for x a
      using empty reconcile_mem [of _ ledger_by_day provider_rows tol, folded L_def P_def] by fastforce+
    show "rel_option (\<lambda>l q. abs_diff l q \<le> tol) (L k) (P k)"
      using mem(1) [of "ReconcileMissingDay s d ProviderReport"]
        mem(1) [of "ReconcileDrift s d (the (L k)) (the (P k))"] mem(2)
      by (cases "L k"; cases "P k") (auto simp: k split: if_splits intro: leI)
  qed
next
  assume agree: "\<forall>k. rel_option (\<lambda>l q. abs_diff l q \<le> tol) (L k) (P k)"
  have "x \<notin> set (reconcile ledger_by_day provider_rows tol)" for x
  proof
    assume "x \<in> set (reconcile ledger_by_day provider_rows tol)"
    then consider (drift) s d a b where "L (s, d) = Some a" "P (s, d) = Some b" "abs_diff a b > tol"
      | (unreported) s d a where "L (s, d) = Some a" "P (s, d) = None"
      | (unbooked) s d a where "P (s, d) = Some a" "L (s, d) = None"
      unfolding reconcile_mem L_def [symmetric] P_def [symmetric]
      by (auto split: option.splits if_splits)
    then show False
    proof cases
      case (drift s d a b)
      with agree [rule_format, of "(s, d)"] show ?thesis by simp
    next
      case (unreported s d a)
      with agree [rule_format, of "(s, d)"] show ?thesis by simp
    next
      case (unbooked s d a)
      with agree [rule_format, of "(s, d)"] show ?thesis by simp
    qed
  qed
  then show "reconcile ledger_by_day provider_rows tol = []" by (metis list.set_intros(1) neq_Nil_conv)
qed

text \<open>The ledger's daily sums are the day totals of its metered, priced entries.\<close>

definition metered_priced :: "LedgerEntry \<Rightarrow> bool" where
  "metered_priced e \<longleftrightarrow> le_payment_mode e = Metered \<and> le_cost_nanousd e \<noteq> None"

lemma fold_aggregate_by_day:
  "ag_by_day (fold aggregate_entry es ag) =
     fold (\<lambda>e. btree_add (le_provider e, le_day e) (entry_cost e)) (filter metered_priced es) (ag_by_day ag)"
proof (induction es arbitrary: ag)
  case (Cons e es)
  then show ?case
    by (cases "le_cost_nanousd e") (simp_all add: aggregate_entry_def metered_priced_def entry_cost_def)
qed simp

lemma day_total_of_map:
  "keys_ok m \<Longrightarrow> day_total (\<lambda>s. (ds_provider s, ds_day s)) ds_metered_nanousd
     (map (\<lambda>((provider, day), metered). \<lparr>ds_provider = provider, ds_day = day, ds_metered_nanousd = metered\<rparr>) m) = map_of m"
proof (induction m)
  case (Cons x m)
  obtain p d v where x: "x = ((p, d), v)" by (metis surj_pair)
  let ?rows = "map (\<lambda>((provider, day), metered). \<lparr>ds_provider = provider, ds_day = day, ds_metered_nanousd = metered\<rparr>) m"
  from Cons.prems have ok: "keys_ok m" and "(p, d) \<notin> fst ` set m" by (auto simp: keys_ok_def x)
  then have none: "filter (\<lambda>s. (ds_provider s, ds_day s) = (p, d)) ?rows = []"
    unfolding filter_empty_conv by force
  show ?case
  proof
    fix k
    show "day_total (\<lambda>s. (ds_provider s, ds_day s)) ds_metered_nanousd
       (map (\<lambda>((provider, day), metered). \<lparr>ds_provider = provider, ds_day = day, ds_metered_nanousd = metered\<rparr>) (x # m)) k
       = map_of (x # m) k"
      using fun_cong [OF Cons.IH [OF ok], of k] none by (auto simp: day_total_def x split: if_splits)
  qed
qed (simp add: day_total_def fun_eq_iff)

lemma ledger_by_day_total:
  fixes rfc3339 records prices rules corrections budgets
  defines "rep \<equiv> compute_ledger rfc3339 records prices rules corrections budgets"
  shows "day_total (\<lambda>s. (ds_provider s, ds_day s)) ds_metered_nanousd (lr_by_day rep) =
    day_total (\<lambda>e. (le_provider e, le_day e)) entry_cost (filter metered_priced (lr_entries rep))"
proof -
  let ?m = "sum_by_day (\<lambda>e. (le_provider e, le_day e)) entry_cost (filter metered_priced (lr_entries rep))"
  have "lr_by_day rep = map (\<lambda>((provider, day), metered). \<lparr>ds_provider = provider, ds_day = day,
      ds_metered_nanousd = metered\<rparr>) (ag_by_day (aggregate (lr_entries rep)))"
    unfolding rep_def compute_ledger_def Let_def by (simp split: prod.splits)
  also have "ag_by_day (aggregate (lr_entries rep)) = ?m"
    by (simp add: aggregate_def fold_aggregate_by_day sum_by_day_def)
  finally show ?thesis
    using day_total_of_map [OF btree_ok_keys [OF sum_by_day_ok]] by (simp add: map_of_sum_by_day fun_eq_iff)
qed

text \<open>
  Reconciliation reports a drift for exactly the provider-days both sides have whose
  totals differ by more than the tolerance, and a missing day for exactly the days only one
  side has.
\<close>

theorem reconcile_exact:
  fixes ledger_by_day provider_rows
  defines "L \<equiv> day_total (\<lambda>s. (ds_provider s, ds_day s)) ds_metered_nanousd ledger_by_day"
    and "P \<equiv> day_total (\<lambda>r. (pd_provider r, pd_day r)) pd_amount_nanousd provider_rows"
  shows "(ReconcileDrift slug day l q \<in> set (reconcile ledger_by_day provider_rows tol)) =
      (L (slug, day) = Some l \<and> P (slug, day) = Some q \<and> tol < abs_diff l q)
    \<and> (ReconcileMissingDay slug day ProviderReport \<in> set (reconcile ledger_by_day provider_rows tol)) =
      (L (slug, day) \<noteq> None \<and> P (slug, day) = None)
    \<and> (ReconcileMissingDay slug day LedgerSide \<in> set (reconcile ledger_by_day provider_rows tol)) =
      (L (slug, day) = None \<and> P (slug, day) \<noteq> None)"
  unfolding reconcile_mem L_def [symmetric] P_def [symmetric]
  by (auto split: option.splits if_splits) (rule exI [of _ slug], rule exI [of _ day], simp)

end
