(* ===== verification/Event_Queue.thy ===== *)
theory Event_Queue
  imports Nostr_Event "HOL-Library.Multiset"
begin

text \<open>
  \<open>buzz-acp/src/queue.rs\<close>: the agent harness's per-channel event queue. One turn per
  channel is in flight at a time; a flush picks the channel whose head event is oldest.

  \<open>Instant::now()\<close> is an argument of the operations that read the clock; instants and
  durations are nanoseconds. Hash maps are association lists, the in-flight set a set.
  The back-off delay is computed with the exact rational value of the \<open>f64\<close> expression,
  rounded down to a nanosecond; the sub-second reading is the argument \<open>nanos\<close>.
  Logging is left out.
\<close>

section \<open>State\<close>

type_synonym instant = nat

definition MAX_PENDING_PER_CHANNEL :: nat where
  "MAX_PENDING_PER_CHANNEL = 500"

definition MAX_BATCH_EVENTS :: nat where
  "MAX_BATCH_EVENTS = 50"

definition MAX_RETRIES :: nat where
  "MAX_RETRIES = 10"

definition BASE_RETRY_DELAY_SECS :: nat where
  "BASE_RETRY_DELAY_SECS = 5"

definition MAX_RETRY_DELAY_SECS :: nat where
  "MAX_RETRY_DELAY_SECS = 300"

definition IN_FLIGHT_DEADLINE_BUFFER_SECS :: nat where
  "IN_FLIGHT_DEADLINE_BUFFER_SECS = 100"

definition DEFAULT_IN_FLIGHT_DEADLINE_SECS :: nat where
  "DEFAULT_IN_FLIGHT_DEADLINE_SECS = 7300"

definition from_secs :: "nat \<Rightarrow> nat" where
  "from_secs s = s * 1000000000"

datatype DedupMode = Drop | Queue

record QueuedEvent =
  qe_channel_id :: uuid
  qe_event :: nevent
  qe_received_at :: instant
  qe_prompt_tag :: string

record BatchEvent =
  be_event :: nevent
  be_prompt_tag :: string
  be_received_at :: instant

datatype CancelReason = Interrupt | Steer

record FlushBatch =
  fb_channel_id :: uuid
  fb_events :: "BatchEvent list"
  fb_cancelled_events :: "BatchEvent list"
  fb_cancel_reason :: "CancelReason option"

record EventQueue =
  eq_queues :: "(uuid \<times> QueuedEvent list) list"
  eq_in_flight_channels :: "uuid set"
  eq_in_flight_deadlines :: "(uuid \<times> instant) list"
  eq_in_flight_batch_sizes :: "(uuid \<times> nat) list"
  eq_retry_after :: "(uuid \<times> instant) list"
  eq_retry_counts :: "(uuid \<times> nat) list"
  eq_dedup_mode :: DedupMode
  eq_cancelled_batches :: "(uuid \<times> BatchEvent list) list"
  eq_cancel_reasons :: "(uuid \<times> CancelReason) list"
  eq_withheld_native_steer :: "(uuid \<times> QueuedEvent list) list"
  eq_in_flight_deadline :: nat

definition event_queue_new :: "DedupMode \<Rightarrow> EventQueue" where
  "event_queue_new mode =
     \<lparr>eq_queues = [], eq_in_flight_channels = {}, eq_in_flight_deadlines = [], eq_in_flight_batch_sizes = [],
      eq_retry_after = [], eq_retry_counts = [], eq_dedup_mode = mode, eq_cancelled_batches = [],
      eq_cancel_reasons = [], eq_withheld_native_steer = [],
      eq_in_flight_deadline = from_secs DEFAULT_IN_FLIGHT_DEADLINE_SECS\<rparr>"

definition with_in_flight_deadline :: "nat \<Rightarrow> EventQueue \<Rightarrow> EventQueue" where
  "with_in_flight_deadline max_turn_duration_secs q =
     q\<lparr>eq_in_flight_deadline := from_secs (max_turn_duration_secs + IN_FLIGHT_DEADLINE_BUFFER_SECS)\<rparr>"

definition extend_in_flight_deadline :: "instant \<Rightarrow> uuid \<Rightarrow> nat \<Rightarrow> EventQueue \<Rightarrow> EventQueue" where
  "extend_in_flight_deadline now channel_id max_turn_secs q =
     (case map_of (eq_in_flight_deadlines q) channel_id of
        None \<Rightarrow> q
      | Some current \<Rightarrow>
          let extended = now + from_secs (max_turn_secs + IN_FLIGHT_DEADLINE_BUFFER_SECS)
          in if extended > current
             then q\<lparr>eq_in_flight_deadlines := AList.update channel_id extended (eq_in_flight_deadlines q)\<rparr>
             else q)"

section \<open>Operations\<close>

text \<open>\<open>entry(k).or_default()\<close> read, and \<open>while len > MAX { pop_back }\<close>.\<close>

definition queue_of :: "EventQueue \<Rightarrow> uuid \<Rightarrow> QueuedEvent list" where
  "queue_of q ch = (case map_of (eq_queues q) ch of None \<Rightarrow> [] | Some es \<Rightarrow> es)"

definition set_queue :: "uuid \<Rightarrow> QueuedEvent list \<Rightarrow> EventQueue \<Rightarrow> EventQueue" where
  "set_queue ch es q = q\<lparr>eq_queues := AList.update ch es (eq_queues q)\<rparr>"

definition drop_queue :: "uuid \<Rightarrow> EventQueue \<Rightarrow> EventQueue" where
  "drop_queue ch q = q\<lparr>eq_queues := AList.delete ch (eq_queues q)\<rparr>"

definition push :: "QueuedEvent \<Rightarrow> EventQueue \<Rightarrow> bool \<times> EventQueue" where
  "push event q =
     (if eq_dedup_mode q = Drop \<and> qe_channel_id event \<in> eq_in_flight_channels q
         \<and> \<not> has_agent_reply (qe_event event)
      then (False, q)
      else
        let queue = queue_of q (qe_channel_id event);
            queue' = (if length queue \<ge> MAX_PENDING_PER_CHANNEL then tl queue else queue)
        in (True, set_queue (qe_channel_id event) (queue' @ [event]) q))"

definition recover_withheld_for_expired_channel :: "uuid \<Rightarrow> EventQueue \<Rightarrow> EventQueue" where
  "recover_withheld_for_expired_channel ch q =
     (case map_of (eq_withheld_native_steer q) ch of
        None \<Rightarrow> q
      | Some entries \<Rightarrow>
          let q' = q\<lparr>eq_withheld_native_steer := AList.delete ch (eq_withheld_native_steer q)\<rparr>
          in set_queue ch (take MAX_PENDING_PER_CHANNEL (entries @ queue_of q' ch)) q')"

definition release_in_flight :: "uuid \<Rightarrow> EventQueue \<Rightarrow> EventQueue" where
  "release_in_flight ch q =
     q\<lparr>eq_in_flight_batch_sizes := AList.delete ch (eq_in_flight_batch_sizes q),
       eq_in_flight_channels := eq_in_flight_channels q - {ch},
       eq_in_flight_deadlines := AList.delete ch (eq_in_flight_deadlines q)\<rparr>"

text \<open>The expiry block that opens both \<open>flush_next\<close> and \<open>has_flushable_work\<close>.\<close>

definition expire_in_flight :: "instant \<Rightarrow> EventQueue \<Rightarrow> EventQueue" where
  "expire_in_flight now q =
     (let expired = map fst (filter (\<lambda>(ch, deadline). now \<ge> deadline) (eq_in_flight_deadlines q))
      in fold (\<lambda>ch q. recover_withheld_for_expired_channel ch (release_in_flight ch q)) expired q)"

definition not_throttled :: "instant \<Rightarrow> EventQueue \<Rightarrow> uuid \<Rightarrow> bool" where
  "not_throttled now q ch = (case map_of (eq_retry_after q) ch of None \<Rightarrow> True | Some t \<Rightarrow> t \<le> now)"

definition is_scoped :: "BatchEvent \<Rightarrow> bool" where
  "is_scoped entry = has_agent_reply (be_event entry)"

definition begin_in_flight :: "instant \<Rightarrow> uuid \<Rightarrow> nat \<Rightarrow> EventQueue \<Rightarrow> EventQueue" where
  "begin_in_flight now ch n q =
     q\<lparr>eq_in_flight_channels := insert ch (eq_in_flight_channels q),
       eq_in_flight_deadlines := AList.update ch (now + eq_in_flight_deadline q) (eq_in_flight_deadlines q),
       eq_in_flight_batch_sizes := AList.update ch n (eq_in_flight_batch_sizes q)\<rparr>"

fun position :: "('a \<Rightarrow> bool) \<Rightarrow> 'a list \<Rightarrow> nat option" where
  "position P [] = None"
| "position P (x # xs) = (if P x then Some 0 else map_option Suc (position P xs))"

definition remove_nth :: "nat \<Rightarrow> 'a list \<Rightarrow> 'a list" where
  "remove_nth i xs = take i xs @ drop (Suc i) xs"

definition drop_cancelled :: "uuid \<Rightarrow> EventQueue \<Rightarrow> EventQueue" where
  "drop_cancelled ch q =
     q\<lparr>eq_cancelled_batches := AList.delete ch (eq_cancelled_batches q),
       eq_cancel_reasons := AList.delete ch (eq_cancel_reasons q)\<rparr>"

text \<open>First case: a scoped request of a cancelled batch is sent again on its own.\<close>

definition flush_scoped :: "instant \<Rightarrow> EventQueue \<Rightarrow> (FlushBatch \<times> EventQueue) option" where
  "flush_scoped now q =
     (case find (\<lambda>(ch, events). ch \<notin> eq_in_flight_channels q \<and> not_throttled now q ch \<and> list_ex is_scoped events)
             (eq_cancelled_batches q) of
        None \<Rightarrow> None
      | Some (ch, recovered) \<Rightarrow>
          (case position is_scoped recovered of
             None \<Rightarrow> None
           | Some index \<Rightarrow>
               let events = [recovered ! index];
                   rest = remove_nth index recovered;
                   cancel_reason = map_of (eq_cancel_reasons q) ch;
                   q' = (if rest = [] then drop_cancelled ch q
                         else q\<lparr>eq_cancelled_batches := AList.update ch rest (eq_cancelled_batches q)\<rparr>)
               in Some (\<lparr>fb_channel_id = ch, fb_events = events, fb_cancelled_events = [],
                         fb_cancel_reason = cancel_reason\<rparr>,
                        begin_in_flight now ch (length events) q')))"

text \<open>
  \<open>min_by_key\<close> on the received time of the head event: the first of the oldest, in
  iteration order.
\<close>

definition head_time :: "uuid \<times> QueuedEvent list \<Rightarrow> instant" where
  "head_time p = qe_received_at (hd (snd p))"

definition head_older :: "uuid \<times> QueuedEvent list \<Rightarrow> uuid \<times> QueuedEvent list \<Rightarrow> bool" where
  "head_older x c \<longleftrightarrow> head_time x < head_time c"

definition queue_ready :: "instant \<Rightarrow> EventQueue \<Rightarrow> uuid \<times> QueuedEvent list \<Rightarrow> bool" where
  "queue_ready now q = (\<lambda>(ch, es). es \<noteq> [] \<and> ch \<notin> eq_in_flight_channels q \<and> not_throttled now q ch)"

definition oldest_channel :: "instant \<Rightarrow> EventQueue \<Rightarrow> uuid option" where
  "oldest_channel now q = map_option fst (pick_loop head_older None (filter (queue_ready now q) (eq_queues q)))"

text \<open>Fallback: a cancelled batch with nothing to merge it into is sent again as it was.\<close>

definition flush_cancelled :: "instant \<Rightarrow> EventQueue \<Rightarrow> (FlushBatch \<times> EventQueue) option" where
  "flush_cancelled now q =
     (case find (\<lambda>ch. ch \<notin> eq_in_flight_channels q) (map fst (eq_cancelled_batches q)) of
        None \<Rightarrow> None
      | Some ch \<Rightarrow>
          let cancelled = (case map_of (eq_cancelled_batches q) ch of None \<Rightarrow> [] | Some es \<Rightarrow> es);
              cancel_reason = map_of (eq_cancel_reasons q) ch
          in Some (\<lparr>fb_channel_id = ch, fb_events = cancelled, fb_cancelled_events = [],
                    fb_cancel_reason = cancel_reason\<rparr>,
                   begin_in_flight now ch (length cancelled) (drop_cancelled ch q)))"

definition to_batch :: "QueuedEvent \<Rightarrow> BatchEvent" where
  "to_batch qe = \<lparr>be_event = qe_event qe, be_prompt_tag = qe_prompt_tag qe, be_received_at = qe_received_at qe\<rparr>"

definition to_queued :: "uuid \<Rightarrow> BatchEvent \<Rightarrow> QueuedEvent" where
  "to_queued ch be = \<lparr>qe_channel_id = ch, qe_event = be_event be, qe_received_at = be_received_at be,
     qe_prompt_tag = be_prompt_tag be\<rparr>"

definition drain_count :: "QueuedEvent list \<Rightarrow> nat" where
  "drain_count queue = (case position (\<lambda>entry. has_agent_reply (qe_event entry)) queue of
       Some index \<Rightarrow> if index = 0 then 1 else min MAX_BATCH_EVENTS index
     | None \<Rightarrow> min MAX_BATCH_EVENTS (length queue))"

definition flush_queue :: "instant \<Rightarrow> uuid \<Rightarrow> EventQueue \<Rightarrow> FlushBatch \<times> EventQueue" where
  "flush_queue now ch q =
     (let queue = queue_of q ch;
          n = drain_count queue;
          events = sort_key (\<lambda>be. ev_created_at (be_event be)) (map to_batch (take n queue));
          q1 = (if drop n queue = [] then drop_queue ch q else set_queue ch (drop n queue) q);
          q2 = begin_in_flight now ch (length events) q1;
          is_scoped_reply = list_ex is_scoped events;
          cancelled_events = (if is_scoped_reply then [] else
             case map_of (eq_cancelled_batches q2) ch of None \<Rightarrow> [] | Some es \<Rightarrow> es);
          cancel_reason = (if cancelled_events = [] then None else map_of (eq_cancel_reasons q2) ch);
          q3 = (if is_scoped_reply then q2 else drop_cancelled ch q2)
      in (\<lparr>fb_channel_id = ch, fb_events = events, fb_cancelled_events = cancelled_events,
           fb_cancel_reason = cancel_reason\<rparr>, q3))"

definition flush_next :: "instant \<Rightarrow> EventQueue \<Rightarrow> FlushBatch option \<times> EventQueue" where
  "flush_next now q0 =
     (let q = expire_in_flight now q0
      in case flush_scoped now q of
          Some (b, q') \<Rightarrow> (Some b, q')
        | None \<Rightarrow>
           (case oldest_channel now q of
              Some ch \<Rightarrow> (let (b, q') = flush_queue now ch q in (Some b, q'))
            | None \<Rightarrow>
               (case flush_cancelled now q of
                  Some (b, q') \<Rightarrow> (Some b, q')
                | None \<Rightarrow> (None, q))))"

definition mark_complete :: "instant \<Rightarrow> uuid \<Rightarrow> EventQueue \<Rightarrow> EventQueue" where
  "mark_complete now ch q0 =
     (let q = release_in_flight ch q0
      in case map_of (eq_retry_after q) ch of
          Some deadline \<Rightarrow>
            if deadline > now then q
            else q\<lparr>eq_retry_after := AList.delete ch (eq_retry_after q),
                   eq_retry_counts := AList.delete ch (eq_retry_counts q)\<rparr>
        | None \<Rightarrow> q\<lparr>eq_retry_counts := AList.delete ch (eq_retry_counts q)\<rparr>)"

definition capped_secs :: "nat \<Rightarrow> nat" where
  "capped_secs attempt = min (BASE_RETRY_DELAY_SECS * 2 ^ min (attempt - 1) 6) MAX_RETRY_DELAY_SECS"

text \<open>Seconds times \<open>0.8 + nanos / u32::MAX * 0.4\<close>, in nanoseconds.\<close>

definition jittered_delay :: "nat \<Rightarrow> nat \<Rightarrow> nat" where
  "jittered_delay secs nanos = from_secs secs * (4 * 4294967295 + 2 * nanos) div (5 * 4294967295)"

definition requeue :: "instant \<Rightarrow> nat \<Rightarrow> FlushBatch \<Rightarrow> EventQueue \<Rightarrow> FlushBatch option \<times> EventQueue" where
  "requeue now nanos batch q =
     (let ch = fb_channel_id batch;
          attempt = (case map_of (eq_retry_counts q) ch of None \<Rightarrow> 0 | Some n \<Rightarrow> n) + 1
      in if attempt > MAX_RETRIES then
           (Some batch, q\<lparr>eq_retry_counts := AList.delete ch (eq_retry_counts q),
                          eq_retry_after := AList.delete ch (eq_retry_after q)\<rparr>)
         else
           let q1 = q\<lparr>eq_retry_counts := AList.update ch attempt (eq_retry_counts q)\<rparr>;
               queue = map (to_queued ch) (fb_events batch) @ queue_of q1 ch;
               q2 = set_queue ch (take MAX_PENDING_PER_CHANNEL queue) q1
           in (None, q2\<lparr>eq_retry_after :=
                 AList.update ch (now + jittered_delay (capped_secs attempt) nanos) (eq_retry_after q2)\<rparr>))"

definition requeue_preserve_timestamps :: "FlushBatch \<Rightarrow> EventQueue \<Rightarrow> EventQueue" where
  "requeue_preserve_timestamps batch q =
     (let ch = fb_channel_id batch
      in set_queue ch (take MAX_PENDING_PER_CHANNEL (map (to_queued ch) (fb_events batch) @ queue_of q ch)) q)"

definition requeue_as_cancelled :: "FlushBatch \<Rightarrow> CancelReason \<Rightarrow> EventQueue \<Rightarrow> EventQueue" where
  "requeue_as_cancelled batch reason q =
     q\<lparr>eq_cancelled_batches :=
         entry_upd (fb_channel_id batch) [] (\<lambda>es. es @ fb_cancelled_events batch @ fb_events batch) (eq_cancelled_batches q),
       eq_cancel_reasons := AList.update (fb_channel_id batch) reason (eq_cancel_reasons q)\<rparr>"

definition has_flushable_work :: "instant \<Rightarrow> EventQueue \<Rightarrow> bool \<times> EventQueue" where
  "has_flushable_work now q0 =
     (let q = expire_in_flight now q0
      in (list_ex (queue_ready now q) (eq_queues q)
          \<or> list_ex (\<lambda>ch. ch \<notin> eq_in_flight_channels q) (map fst (eq_cancelled_batches q)), q))"

definition has_undispatched_work :: "EventQueue \<Rightarrow> bool" where
  "has_undispatched_work q \<longleftrightarrow>
     list_ex (\<lambda>(ch, es). es \<noteq> [] \<and> ch \<notin> eq_in_flight_channels q) (eq_queues q)
   \<or> list_ex (\<lambda>ch. ch \<notin> eq_in_flight_channels q) (map fst (eq_cancelled_batches q))
   \<or> list_ex (\<lambda>(ch, es). es \<noteq> [] \<and> ch \<notin> eq_in_flight_channels q) (eq_withheld_native_steer q)"

definition pending_channels :: "EventQueue \<Rightarrow> nat" where
  "pending_channels q = length (eq_queues q)"

definition drain_channel :: "uuid \<Rightarrow> EventQueue \<Rightarrow> string list \<times> EventQueue" where
  "drain_channel ch q =
     (let ids = map (\<lambda>e. ev_id (qe_event e)) (queue_of q ch)
      in (ids, q\<lparr>eq_queues := AList.delete ch (eq_queues q),
                 eq_retry_after := AList.delete ch (eq_retry_after q),
                 eq_retry_counts := AList.delete ch (eq_retry_counts q),
                 eq_cancelled_batches := AList.delete ch (eq_cancelled_batches q),
                 eq_cancel_reasons := AList.delete ch (eq_cancel_reasons q),
                 eq_withheld_native_steer := AList.delete ch (eq_withheld_native_steer q)\<rparr>))"

definition is_channel_in_flight :: "uuid \<Rightarrow> EventQueue \<Rightarrow> bool" where
  "is_channel_in_flight ch q \<longleftrightarrow> ch \<in> eq_in_flight_channels q"

definition has_in_flight :: "EventQueue \<Rightarrow> bool" where
  "has_in_flight q \<longleftrightarrow> eq_in_flight_channels q \<noteq> {}"

definition mark_native_steer_pending :: "uuid \<Rightarrow> string \<Rightarrow> EventQueue \<Rightarrow> bool \<times> EventQueue" where
  "mark_native_steer_pending ch event_id q =
     (case map_of (eq_queues q) ch of
        None \<Rightarrow> (False, q)
      | Some es \<Rightarrow>
          (case position (\<lambda>qe. ev_id (qe_event qe) = event_id) es of
             None \<Rightarrow> (False, q)
           | Some pos \<Rightarrow>
               let rest = remove_nth pos es;
                   q' = (if rest = [] then drop_queue ch q else set_queue ch rest q)
               in (True, q'\<lparr>eq_withheld_native_steer :=
                     entry_upd ch [] (\<lambda>ws. ws @ [es ! pos]) (eq_withheld_native_steer q')\<rparr>)))"

definition set_withheld :: "uuid \<Rightarrow> QueuedEvent list \<Rightarrow> EventQueue \<Rightarrow> EventQueue" where
  "set_withheld ch es q = q\<lparr>eq_withheld_native_steer :=
     (if es = [] then AList.delete ch (eq_withheld_native_steer q)
      else AList.update ch es (eq_withheld_native_steer q))\<rparr>"

definition release_native_steer :: "uuid \<Rightarrow> string \<Rightarrow> EventQueue \<Rightarrow> EventQueue" where
  "release_native_steer ch event_id q =
     (case map_of (eq_withheld_native_steer q) ch of
        None \<Rightarrow> q
      | Some entries \<Rightarrow>
          (case position (\<lambda>qe. ev_id (qe_event qe) = event_id) entries of
             None \<Rightarrow> q
           | Some pos \<Rightarrow>
               let q' = set_withheld ch (remove_nth pos entries) q
               in set_queue ch (take MAX_PENDING_PER_CHANNEL (entries ! pos # queue_of q' ch)) q'))"

definition remove_event :: "uuid \<Rightarrow> string \<Rightarrow> EventQueue \<Rightarrow> EventQueue" where
  "remove_event ch event_id q =
     (let keep = filter (\<lambda>qe. ev_id (qe_event qe) \<noteq> event_id);
          q1 = (case map_of (eq_withheld_native_steer q) ch of
                  None \<Rightarrow> q
                | Some entries \<Rightarrow> set_withheld ch (keep entries) q)
      in case map_of (eq_queues q1) ch of
          None \<Rightarrow> q1
        | Some es \<Rightarrow> if keep es = [] then drop_queue ch q1 else set_queue ch (keep es) q1)"

definition compact_expired_state :: "instant \<Rightarrow> EventQueue \<Rightarrow> EventQueue" where
  "compact_expired_state now q0 =
     (let q = q0\<lparr>eq_retry_after := filter (\<lambda>(_, deadline). deadline > now) (eq_retry_after q0)\<rparr>
      in q\<lparr>eq_retry_counts := filter (\<lambda>(ch, _).
             map_of (eq_retry_after q) ch \<noteq> None \<or> queue_of q ch \<noteq> [] \<or> ch \<in> eq_in_flight_channels q)
           (eq_retry_counts q)\<rparr>)"

text \<open>What \<open>dispatch_pending\<close> does with a flushed batch when the pool has no free agent.\<close>

definition pool_exhausted :: "instant \<Rightarrow> FlushBatch \<Rightarrow> EventQueue \<Rightarrow> EventQueue" where
  "pool_exhausted now batch q = mark_complete now (fb_channel_id batch) (requeue_preserve_timestamps batch q)"

section \<open>Invariant\<close>

definition map_pred :: "('k \<Rightarrow> 'v \<Rightarrow> bool) \<Rightarrow> ('k \<times> 'v) list \<Rightarrow> bool" where
  "map_pred P m \<longleftrightarrow> keys_ok m \<and> (\<forall>k v. map_of m k = Some v \<longrightarrow> P k v)"

lemma map_pred_Nil [simp]: "map_pred P []"
  by (simp add: map_pred_def)

lemma map_pred_update [simp]: "map_pred P m \<Longrightarrow> P k v \<Longrightarrow> map_pred P (AList.update k v m)"
  by (auto simp: map_pred_def store_simps)

lemma map_pred_delete [simp]: "map_pred P m \<Longrightarrow> map_pred P (AList.delete k m)"
  by (auto simp: map_pred_def store_simps)

lemma map_pred_keys: "map_pred P m \<Longrightarrow> keys_ok m"
  by (simp add: map_pred_def)

lemma map_pred_filter [simp]: "map_pred P m \<Longrightarrow> map_pred P (filter Q m)"
proof -
  assume m: "map_pred P m"
  have "map_of m k = Some v" if "map_of (filter Q m) k = Some v" for k v
    using map_of_SomeD [OF that] keys_ok_mem [OF map_pred_keys [OF m]] by simp
  with m show ?thesis by (auto simp: map_pred_def)
qed

lemma map_predD: "map_pred P m \<Longrightarrow> map_of m k = Some v \<Longrightarrow> P k v"
  by (simp add: map_pred_def)

definition of_channel :: "uuid \<Rightarrow> QueuedEvent list \<Rightarrow> bool" where
  "of_channel ch es \<longleftrightarrow> list_all (\<lambda>e. qe_channel_id e = ch) es"

definition bounded_queue :: "uuid \<Rightarrow> QueuedEvent list \<Rightarrow> bool" where
  "bounded_queue ch es \<longleftrightarrow> length es \<le> MAX_PENDING_PER_CHANNEL \<and> of_channel ch es"

definition flight_ok :: "EventQueue \<Rightarrow> bool" where
  "flight_ok q \<longleftrightarrow>
     keys_ok (eq_in_flight_deadlines q) \<and> dom (map_of (eq_in_flight_deadlines q)) = eq_in_flight_channels q
   \<and> keys_ok (eq_in_flight_batch_sizes q) \<and> dom (map_of (eq_in_flight_batch_sizes q)) = eq_in_flight_channels q"

definition queue_inv :: "EventQueue \<Rightarrow> bool" where
  "queue_inv q \<longleftrightarrow>
     map_pred bounded_queue (eq_queues q) \<and> flight_ok q
   \<and> keys_ok (eq_retry_after q) \<and> map_pred (\<lambda>ch n. n \<le> MAX_RETRIES) (eq_retry_counts q)
   \<and> keys_ok (eq_cancelled_batches q) \<and> map_pred of_channel (eq_withheld_native_steer q)"

lemma of_channel_simps [simp]:
  "of_channel ch []" "of_channel ch (e # es) \<longleftrightarrow> qe_channel_id e = ch \<and> of_channel ch es"
  "of_channel ch (es @ es') \<longleftrightarrow> of_channel ch es \<and> of_channel ch es'"
  "of_channel ch (map (to_queued ch) bs)"
  by (auto simp: of_channel_def to_queued_def list_all_iff)

lemma of_channel_subset: "of_channel ch es \<Longrightarrow> set es' \<subseteq> set es \<Longrightarrow> of_channel ch es'"
  by (auto simp: of_channel_def list_all_iff)

lemma of_channel_parts [simp]:
  assumes "of_channel ch es"
  shows "of_channel ch (take n es)" "of_channel ch (drop n es)" "of_channel ch (tl es)"
    "of_channel ch (filter P es)" "of_channel ch (remove_nth n es)"
  using assms
  by (auto intro!: of_channel_subset [OF assms] simp: remove_nth_def dest: in_set_takeD in_set_dropD list.set_sel(2))
    (metis list.set_sel(2) tl_Nil)

lemma bounded_take [simp]: "of_channel ch es \<Longrightarrow> bounded_queue ch (take MAX_PENDING_PER_CHANNEL es)"
  by (simp add: bounded_queue_def)

lemma queue_of_bounded: "queue_inv q \<Longrightarrow> bounded_queue ch (queue_of q ch)"
  by (auto simp: queue_inv_def queue_of_def bounded_queue_def dest: map_predD split: option.split)

lemma withheld_channel: "queue_inv q \<Longrightarrow> map_of (eq_withheld_native_steer q) ch = Some es \<Longrightarrow> of_channel ch es"
  by (auto simp: queue_inv_def dest: map_predD)

lemma queue_inv_parts [simp]:
  assumes "queue_inv q"
  shows "bounded_queue ch es \<Longrightarrow> queue_inv (set_queue ch es q)"
    and "queue_inv (drop_queue ch q)" and "queue_inv (release_in_flight ch q)"
    and "queue_inv (begin_in_flight now ch n q)" and "queue_inv (drop_cancelled ch q)"
    and "of_channel ch es \<Longrightarrow> queue_inv (set_withheld ch es q)"
    and "queue_inv (q\<lparr>eq_withheld_native_steer := AList.delete ch (eq_withheld_native_steer q)\<rparr>)"
    and "queue_inv (q\<lparr>eq_cancelled_batches := AList.update ch bs (eq_cancelled_batches q)\<rparr>)"
    and "queue_inv (q\<lparr>eq_retry_after := AList.update ch t (eq_retry_after q)\<rparr>)"
    and "queue_inv (q\<lparr>eq_retry_counts := AList.delete ch (eq_retry_counts q)\<rparr>)"
  using assms
  by (auto simp: queue_inv_def set_queue_def drop_queue_def release_in_flight_def begin_in_flight_def
      drop_cancelled_def set_withheld_def flight_ok_def store_simps)

lemma position_Some: "position P xs = Some i \<Longrightarrow> i < length xs \<and> P (xs ! i)"
  by (induction xs arbitrary: i) (auto split: if_splits)

lemma position_None: "position P xs = None \<longleftrightarrow> \<not> list_ex P xs"
  by (induction xs) auto

lemma recover_inv [simp]:
  assumes "queue_inv q" shows "queue_inv (recover_withheld_for_expired_channel ch q)"
proof (cases "map_of (eq_withheld_native_steer q) ch")
  case (Some es)
  let ?q = "q\<lparr>eq_withheld_native_steer := AList.delete ch (eq_withheld_native_steer q)\<rparr>"
  have q: "queue_inv ?q" using assms by simp
  have "of_channel ch (es @ queue_of ?q ch)"
    using withheld_channel [OF assms Some] queue_of_bounded [OF q, of ch] by (simp add: bounded_queue_def)
  with q Some show ?thesis by (simp add: recover_withheld_for_expired_channel_def Let_def del: take_append)
qed (simp add: recover_withheld_for_expired_channel_def assms)

lemma expire_inv [simp]: "queue_inv q \<Longrightarrow> queue_inv (expire_in_flight now q)"
proof -
  have "queue_inv (fold (\<lambda>id q. recover_withheld_for_expired_channel id (release_in_flight id q)) ids q)"
    if "queue_inv q" for ids q
    using that by (induction ids arbitrary: q) auto
  then show "queue_inv q \<Longrightarrow> queue_inv (expire_in_flight now q)" by (simp add: expire_in_flight_def Let_def)
qed

lemma push_inv: "queue_inv q \<Longrightarrow> queue_inv (snd (push e q))"
proof -
  assume q: "queue_inv q"
  let ?es = "queue_of q (qe_channel_id e)"
  let ?es' = "if length ?es \<ge> MAX_PENDING_PER_CHANNEL then tl ?es else ?es"
  have "bounded_queue (qe_channel_id e) ?es" using queue_of_bounded [OF q] .
  then have "bounded_queue (qe_channel_id e) (?es' @ [e])"
    by (auto simp: bounded_queue_def MAX_PENDING_PER_CHANNEL_def)
  with q show ?thesis by (simp add: push_def Let_def)
qed

lemma flush_queue_inv: "queue_inv q \<Longrightarrow> queue_inv (snd (flush_queue now ch q))"
proof -
  assume q: "queue_inv q"
  then have "bounded_queue ch (drop n (queue_of q ch))" for n
    using queue_of_bounded [OF q, of ch] by (auto simp: bounded_queue_def)
  with q show ?thesis by (simp add: flush_queue_def Let_def)
qed

lemma flush_next_cases:
  obtains (scoped) b q' where "flush_scoped now (expire_in_flight now q) = Some (b, q')"
      "flush_next now q = (Some b, q')"
  | (queue) ch where "flush_scoped now (expire_in_flight now q) = None"
      "oldest_channel now (expire_in_flight now q) = Some ch"
      "flush_next now q = (Some (fst (flush_queue now ch (expire_in_flight now q))),
        snd (flush_queue now ch (expire_in_flight now q)))"
  | (cancelled) b q' where "flush_scoped now (expire_in_flight now q) = None"
      "oldest_channel now (expire_in_flight now q) = None"
      "flush_cancelled now (expire_in_flight now q) = Some (b, q')" "flush_next now q = (Some b, q')"
  | (idle) "flush_scoped now (expire_in_flight now q) = None"
      "oldest_channel now (expire_in_flight now q) = None"
      "flush_cancelled now (expire_in_flight now q) = None"
      "flush_next now q = (None, expire_in_flight now q)"
proof (cases "flush_scoped now (expire_in_flight now q)")
  case None
  show ?thesis
  proof (cases "oldest_channel now (expire_in_flight now q)")
    case (Some ch)
    with None show ?thesis by (intro that(2)) (simp_all add: flush_next_def case_prod_beta Let_def)
  next
    case no: None
    show ?thesis
    proof (cases "flush_cancelled now (expire_in_flight now q)")
      case (Some p)
      with None no show ?thesis by (cases p) (auto intro: that(3) simp: flush_next_def)
    qed (use None no in \<open>auto intro: that(4) simp: flush_next_def\<close>)
  qed
next
  case (Some p)
  then show ?thesis by (cases p) (auto intro: that(1) simp: flush_next_def)
qed

lemma flush_scoped_inv: "flush_scoped now r = Some (b, r') \<Longrightarrow> queue_inv r \<Longrightarrow> queue_inv r'"
  by (auto simp: flush_scoped_def Let_def split: option.splits prod.splits)

lemma flush_cancelled_inv: "flush_cancelled now r = Some (b, r') \<Longrightarrow> queue_inv r \<Longrightarrow> queue_inv r'"
  by (auto simp: flush_cancelled_def Let_def split: option.splits)

lemma flush_next_inv: "queue_inv q \<Longrightarrow> queue_inv (snd (flush_next now q))"
  by (cases rule: flush_next_cases [where now = now and q = q])
    (auto intro: flush_scoped_inv flush_cancelled_inv flush_queue_inv)

lemma mark_complete_inv: "queue_inv q \<Longrightarrow> queue_inv (mark_complete now ch q)"
proof -
  assume "queue_inv q"
  then have "queue_inv (release_in_flight ch q)" by simp
  then show ?thesis
    by (auto simp: mark_complete_def Let_def queue_inv_def flight_ok_def split: option.split)
qed

lemma requeue_inv: "queue_inv q \<Longrightarrow> queue_inv (snd (requeue now nanos b q))"
proof -
  assume q: "queue_inv q"
  let ?ch = "fb_channel_id b"
  let ?n = "(case map_of (eq_retry_counts q) ?ch of None \<Rightarrow> 0 | Some n \<Rightarrow> n) + 1"
  let ?q = "q\<lparr>eq_retry_counts := AList.update ?ch ?n (eq_retry_counts q)\<rparr>"
  have "queue_inv ?q" if "\<not> ?n > MAX_RETRIES" using q that by (simp add: queue_inv_def flight_ok_def)
  moreover have "of_channel ?ch (map (to_queued ?ch) (fb_events b) @ queue_of ?q ?ch)"
    using queue_of_bounded [OF q, of ?ch] by (simp add: bounded_queue_def queue_of_def)
  moreover have "queue_inv (q\<lparr>eq_retry_counts := AList.delete ?ch (eq_retry_counts q),
      eq_retry_after := AList.delete ?ch (eq_retry_after q)\<rparr>)"
    using q by (simp add: queue_inv_def flight_ok_def)
  ultimately show ?thesis by (simp add: requeue_def Let_def del: take_append)
qed

lemma steer_inv:
  assumes "queue_inv q"
  shows "queue_inv (snd (mark_native_steer_pending ch i q))"
    and "queue_inv (release_native_steer ch i q)" and "queue_inv (remove_event ch i q)"
proof -
  have chan: "map_of (eq_queues q) ch = Some es \<Longrightarrow> bounded_queue ch es" for es
    using assms by (auto simp: queue_inv_def dest: map_predD)
  have upd: "queue_inv r \<Longrightarrow> qe_channel_id e = ch \<Longrightarrow>
      queue_inv (r\<lparr>eq_withheld_native_steer := entry_upd ch [] (\<lambda>ws. ws @ [e]) (eq_withheld_native_steer r)\<rparr>)" for r e
    by (auto simp: queue_inv_def flight_ok_def entry_upd_def split: option.split intro!: map_pred_update dest: map_predD)
  have nth: "of_channel ch es \<Longrightarrow> position P es = Some i \<Longrightarrow> qe_channel_id (es ! i) = ch" for P es i
    using position_Some [of P es i] by (auto simp: of_channel_def list_all_iff)
  have rem: "bounded_queue ch es \<Longrightarrow> bounded_queue ch (remove_nth n es)" for es n
    by (auto simp: bounded_queue_def remove_nth_def of_channel_simps)
  show "queue_inv (snd (mark_native_steer_pending ch i q))"
    using assms chan rem nth by (auto simp: mark_native_steer_pending_def Let_def bounded_queue_def intro!: upd split: option.split)
  have rel: "queue_inv (set_queue ch (take MAX_PENDING_PER_CHANNEL (e # queue_of r ch)) r)"
    if "queue_inv r" "qe_channel_id e = ch" for r e
    using that queue_of_bounded [OF that(1), of ch] by (simp add: bounded_queue_def)
  show "queue_inv (release_native_steer ch i q)"
    using assms withheld_channel [OF assms] nth
    by (auto simp: release_native_steer_def Let_def intro!: rel split: option.split)
  let ?keep = "filter (\<lambda>qe. ev_id (qe_event qe) \<noteq> i)"
  let ?q1 = "case map_of (eq_withheld_native_steer q) ch of None \<Rightarrow> q | Some es \<Rightarrow> set_withheld ch (?keep es) q"
  have q1: "queue_inv ?q1" using assms withheld_channel [OF assms] by (auto split: option.split)
  have "map_of (eq_queues ?q1) ch = Some es \<Longrightarrow> bounded_queue ch (?keep es)" for es
    using chan [of es] by (auto simp: set_withheld_def bounded_queue_def split: option.splits intro: order_trans [OF length_filter_le])
  with q1 show "queue_inv (remove_event ch i q)" by (auto simp: remove_event_def Let_def split: option.split)
qed

section \<open>The queue as a machine\<close>

inductive queue_step :: "EventQueue \<Rightarrow> EventQueue \<Rightarrow> bool" where
  pushed: "queue_step q (snd (push e q))"
| flushed: "queue_step q (snd (flush_next now q))"
| completed: "queue_step q (mark_complete now ch q)"
| requeued: "queue_step q (snd (requeue now nanos b q))"
| preserved: "queue_step q (requeue_preserve_timestamps b q)"
| cancelled: "queue_step q (requeue_as_cancelled b reason q)"
| polled: "queue_step q (snd (has_flushable_work now q))"
| drained: "queue_step q (snd (drain_channel ch q))"
| withheld: "queue_step q (snd (mark_native_steer_pending ch i q))"
| released: "queue_step q (release_native_steer ch i q)"
| removed: "queue_step q (remove_event ch i q)"
| compacted: "queue_step q (compact_expired_state now q)"
| extended: "queue_step q (extend_in_flight_deadline now ch secs q)"
| configured: "queue_step q (with_in_flight_deadline secs q)"

inductive_cases queue_stepE: "queue_step q q'"

lemma other_steps_inv:
  assumes "queue_inv q"
  shows "queue_inv (requeue_preserve_timestamps b q)" and "queue_inv (requeue_as_cancelled b reason q)"
    and "queue_inv (snd (has_flushable_work now q))" and "queue_inv (snd (drain_channel ch q))"
    and "queue_inv (compact_expired_state now q)" and "queue_inv (extend_in_flight_deadline now ch secs q)"
    and "queue_inv (with_in_flight_deadline secs q)"
proof -
  let ?ch = "fb_channel_id b"
  have "of_channel ?ch (map (to_queued ?ch) (fb_events b) @ queue_of q ?ch)"
    using queue_of_bounded [OF assms, of ?ch] by (simp add: bounded_queue_def)
  with assms show "queue_inv (requeue_preserve_timestamps b q)"
    by (simp add: requeue_preserve_timestamps_def Let_def del: take_append)
  show "queue_inv (requeue_as_cancelled b reason q)"
    using assms by (simp add: requeue_as_cancelled_def queue_inv_def flight_ok_def)
  show "queue_inv (snd (has_flushable_work now q))" using assms by (simp add: has_flushable_work_def Let_def)
  show "queue_inv (snd (drain_channel ch q))"
    using assms by (simp add: drain_channel_def Let_def queue_inv_def flight_ok_def)
  show "queue_inv (compact_expired_state now q)"
    using assms by (simp add: compact_expired_state_def Let_def queue_inv_def flight_ok_def)
  show "queue_inv (extend_in_flight_deadline now ch secs q)"
    using assms by (auto simp: extend_in_flight_deadline_def Let_def queue_inv_def flight_ok_def store_simps split: option.split)
  show "queue_inv (with_in_flight_deadline secs q)"
    using assms by (simp add: with_in_flight_deadline_def queue_inv_def flight_ok_def)
qed

lemma queue_inv_new: "queue_inv (event_queue_new mode)"
  by (simp add: event_queue_new_def queue_inv_def flight_ok_def)

interpretation eqm: invariant_machine "\<lambda>q. \<exists>mode. q = event_queue_new mode" queue_step queue_inv
proof
  show "\<exists>mode. q = event_queue_new mode \<Longrightarrow> queue_inv q" for q using queue_inv_new by blast
  show "queue_step q q' \<Longrightarrow> queue_inv q \<Longrightarrow> queue_inv q'" for q q'
    by (erule queue_stepE) (simp_all add: push_inv flush_next_inv mark_complete_inv requeue_inv steer_inv other_steps_inv)
qed

section \<open>Pending events\<close>

text \<open>Every event the queue still owes the agent, as a multiset.\<close>

definition total_mset :: "('v \<Rightarrow> 'a multiset) \<Rightarrow> ('k \<times> 'v) list \<Rightarrow> 'a multiset" where
  "total_mset f m = sum_list (map (\<lambda>p. f (snd p)) m)"

definition pending :: "EventQueue \<Rightarrow> BatchEvent multiset" where
  "pending q = total_mset (\<lambda>es. mset (map to_batch es)) (eq_queues q)
     + total_mset mset (eq_cancelled_batches q)
     + total_mset (\<lambda>es. mset (map to_batch es)) (eq_withheld_native_steer q)"

lemma total_mset_update:
  assumes "keys_ok m"
  shows "total_mset f (AList.update k v m) + (case map_of m k of None \<Rightarrow> {#} | Some w \<Rightarrow> f w) = total_mset f m + f v"
  using assms
proof (induction m)
  case (Cons p m)
  obtain k' w where p: "p = (k', w)" by fastforce
  show ?case
  proof (cases "k' = k")
    case True
    with Cons.prems p show ?thesis by (simp add: total_mset_def ac_simps)
  next
    case False
    with Cons p show ?thesis by (simp add: total_mset_def keys_ok_def ac_simps)
  qed
qed (simp add: total_mset_def)

lemma total_mset_delete:
  assumes "keys_ok m"
  shows "total_mset f (AList.delete k m) + (case map_of m k of None \<Rightarrow> {#} | Some w \<Rightarrow> f w) = total_mset f m"
  using assms
proof (induction m)
  case (Cons p m)
  obtain k' w where p: "p = (k', w)" by fastforce
  show ?case
  proof (cases "k' = k")
    case True
    with Cons.prems p have "AList.delete k m = m" by (intro delete_id) (simp add: keys_ok_def)
    with True p show ?thesis by (simp add: total_mset_def ac_simps)
  next
    case False
    with Cons p show ?thesis by (simp add: total_mset_def keys_ok_def ac_simps)
  qed
qed (simp add: total_mset_def)

lemma mset_take_drop: "mset (map f (take n xs)) + mset (map f (drop n xs)) = mset (map f xs)"
  by (metis append_take_drop_id map_append mset_append)

lemma mset_remove_nth: "i < length xs \<Longrightarrow> add_mset (xs ! i) (mset (remove_nth i xs)) = mset xs"
  unfolding remove_nth_def by (metis Cons_nth_drop_Suc append_take_drop_id mset.simps(2) mset_append union_mset_add_mset_right)

lemma mset_move: "A + w = B + r \<Longrightarrow> w = t + r \<Longrightarrow> A + t = (B :: 'a multiset)"
  by (metis add_right_cancel union_assoc)

lemma total_mset_rest:
  assumes "keys_ok m" and "map_of m k = Some w" and "f [] = {#}" and "f w = t + f rest"
  shows "total_mset f (if rest = [] then AList.delete k m else AList.update k rest m) + t = total_mset f m"
proof (rule mset_move [OF _ assms(4)])
  show "total_mset f (if rest = [] then AList.delete k m else AList.update k rest m) + f w = total_mset f m + f rest"
    using total_mset_update [OF assms(1), of f k rest] total_mset_delete [OF assms(1), of f k] assms(2,3)
    by simp
qed

lemma queue_inv_keys:
  assumes "queue_inv q"
  shows "keys_ok (eq_queues q)" "keys_ok (eq_cancelled_batches q)" "keys_ok (eq_withheld_native_steer q)"
  using assms by (auto simp: queue_inv_def intro: map_pred_keys)

lemma find_mem: "find P xs = Some x \<Longrightarrow> x \<in> set xs \<and> P x"
  by (metis find_Some_iff nth_mem)

lemma oldest_channel_Some:
  assumes "queue_inv q" and "oldest_channel now q = Some ch"
  shows "map_of (eq_queues q) ch = Some (queue_of q ch)" and "queue_ready now q (ch, queue_of q ch)"
proof -
  obtain es where pick: "pick_loop head_older None (filter (queue_ready now q) (eq_queues q)) = Some (ch, es)"
    using assms(2) by (auto simp: oldest_channel_def)
  from pick_loop_mem [OF this] have m: "(ch, es) \<in> set (eq_queues q)" "queue_ready now q (ch, es)" by auto
  then have "map_of (eq_queues q) ch = Some es"
    using keys_ok_mem [OF queue_inv_keys(1) [OF assms(1)]] by blast
  with m show "map_of (eq_queues q) ch = Some (queue_of q ch)" "queue_ready now q (ch, queue_of q ch)"
    by (simp_all add: queue_of_def)
qed

lemma flush_queue_pending:
  assumes "queue_inv q" and "map_of (eq_queues q) ch = Some (queue_of q ch)"
    and "flush_queue now ch q = (b, q')"
  shows "pending q' + mset (fb_events b) + mset (fb_cancelled_events b) = pending q"
proof -
  let ?es = "queue_of q ch" and ?f = "\<lambda>es. mset (map to_batch es)"
  let ?n = "drain_count ?es"
  let ?m = "if drop ?n ?es = [] then AList.delete ch (eq_queues q) else AList.update ch (drop ?n ?es) (eq_queues q)"
  note q = queue_inv_keys [OF assms(1)]
  have ev: "mset (fb_events b) = ?f (take ?n ?es)" using assms(3) by (auto simp: flush_queue_def Let_def)
  have queues: "eq_queues q' = ?m" "eq_withheld_native_steer q' = eq_withheld_native_steer q"
    using assms(3) by (auto simp: flush_queue_def Let_def drop_queue_def set_queue_def begin_in_flight_def drop_cancelled_def)
  have 1: "total_mset ?f (eq_queues q') + mset (fb_events b) = total_mset ?f (eq_queues q)"
    unfolding queues ev by (rule total_mset_rest [OF q(1) assms(2)]) (simp_all only: mset_take_drop list.map mset.simps)
  have 2: "total_mset mset (eq_cancelled_batches q') + mset (fb_cancelled_events b) = total_mset mset (eq_cancelled_batches q)"
    using total_mset_delete [OF q(2), of mset ch] assms(3)
    by (auto simp: flush_queue_def Let_def drop_queue_def set_queue_def begin_in_flight_def drop_cancelled_def split: if_splits option.splits)
  show ?thesis unfolding pending_def queues(2) 1 [symmetric] 2 [symmetric] by (simp only: ac_simps)
qed

lemma flush_scoped_pending:
  assumes "queue_inv q" and "flush_scoped now q = Some (b, q')"
  shows "pending q' + mset (fb_events b) + mset (fb_cancelled_events b) = pending q"
proof -
  have k: "keys_ok (eq_cancelled_batches q)" using assms(1) by (simp add: queue_inv_def)
  obtain ch es i where f: "find (\<lambda>(id, events). id \<notin> eq_in_flight_channels q \<and> not_throttled now q id \<and> list_ex is_scoped events)
      (eq_cancelled_batches q) = Some (ch, es)" and i: "position is_scoped es = Some i"
    using assms(2) by (auto simp: flush_scoped_def split: option.splits)
  have "(ch, es) \<in> set (eq_cancelled_batches q)" using find_mem [OF f] by blast
  then have m: "map_of (eq_cancelled_batches q) ch = Some es" using keys_ok_mem [OF k] by simp
  have q': "eq_queues q' = eq_queues q" "eq_withheld_native_steer q' = eq_withheld_native_steer q"
    "eq_cancelled_batches q' = (if remove_nth i es = [] then AList.delete ch (eq_cancelled_batches q)
       else AList.update ch (remove_nth i es) (eq_cancelled_batches q))"
    "fb_events b = [es ! i]" "fb_cancelled_events b = []"
    using assms(2) by (auto simp: flush_scoped_def f i Let_def begin_in_flight_def drop_cancelled_def)
  have 1: "total_mset mset (eq_cancelled_batches q') + {#es ! i#} = total_mset mset (eq_cancelled_batches q)"
    unfolding q' by (rule total_mset_rest [OF k m]) (use mset_remove_nth [of i es] position_Some [OF i] in auto)
  show ?thesis unfolding pending_def q'(1,2,4,5) 1 [symmetric] by (simp add: ac_simps)
qed

lemma flush_cancelled_Some:
  assumes "flush_cancelled now q = Some (b, q')"
  obtains es where "fb_channel_id b \<notin> eq_in_flight_channels q" "map_of (eq_cancelled_batches q) (fb_channel_id b) = Some es"
    "fb_events b = es" "fb_cancelled_events b = []"
    "q' = begin_in_flight now (fb_channel_id b) (length es) (drop_cancelled (fb_channel_id b) q)"
proof -
  obtain ch where f: "find (\<lambda>ch. ch \<notin> eq_in_flight_channels q) (map fst (eq_cancelled_batches q)) = Some ch"
    using assms by (auto simp: flush_cancelled_def split: option.splits)
  from find_mem [OF f] have "ch \<notin> eq_in_flight_channels q" "ch \<in> fst ` set (eq_cancelled_batches q)" by auto
  moreover from this(2) obtain es where "map_of (eq_cancelled_batches q) ch = Some es"
    using map_of_eq_None_iff [of "eq_cancelled_batches q" ch] by (metis not_None_eq)
  ultimately show ?thesis using assms f that by (auto simp: flush_cancelled_def Let_def)
qed

lemma flush_cancelled_pending:
  assumes "queue_inv q" and "flush_cancelled now q = Some (b, q')"
  shows "pending q' + mset (fb_events b) + mset (fb_cancelled_events b) = pending q"
proof -
  obtain es where es: "map_of (eq_cancelled_batches q) (fb_channel_id b) = Some es" "fb_events b = es" "fb_cancelled_events b = []"
    and q': "q' = begin_in_flight now (fb_channel_id b) (length es) (drop_cancelled (fb_channel_id b) q)"
    using flush_cancelled_Some [OF assms(2)] by metis
  have 1: "total_mset mset (AList.delete (fb_channel_id b) (eq_cancelled_batches q)) + mset es = total_mset mset (eq_cancelled_batches q)"
    using total_mset_delete [OF queue_inv_keys(2) [OF assms(1)], of mset "fb_channel_id b"] by (simp add: es)
  show ?thesis unfolding pending_def q' es 1 [symmetric] by (simp add: begin_in_flight_def drop_cancelled_def ac_simps)
qed

lemma flush_queue_fields:
  "fb_channel_id (fst (flush_queue now ch q)) = ch"
  "fb_events (fst (flush_queue now ch q)) =
     sort_key (\<lambda>be. ev_created_at (be_event be)) (map to_batch (take (drain_count (queue_of q ch)) (queue_of q ch)))"
  "eq_in_flight_channels (snd (flush_queue now ch q)) = insert ch (eq_in_flight_channels q)"
  "map_of (eq_in_flight_deadlines (snd (flush_queue now ch q))) ch = Some (now + eq_in_flight_deadline q)"
  "list_ex is_scoped (fb_events (fst (flush_queue now ch q))) \<Longrightarrow> fb_cancelled_events (fst (flush_queue now ch q)) = []"
  "queue_of (snd (flush_queue now ch q)) ch = drop (drain_count (queue_of q ch)) (queue_of q ch)"
  by (auto simp: flush_queue_def Let_def begin_in_flight_def drop_queue_def set_queue_def drop_cancelled_def
      queue_of_def store_simps)

lemma flush_scoped_Some:
  assumes "flush_scoped now q = Some (b, q')"
  shows "fb_channel_id b \<notin> eq_in_flight_channels q" and "length (fb_events b) = 1" and "fb_cancelled_events b = []"
    and "eq_in_flight_channels q' = insert (fb_channel_id b) (eq_in_flight_channels q)"
    and "map_of (eq_in_flight_deadlines q') (fb_channel_id b) = Some (now + eq_in_flight_deadline q)"
proof -
  obtain ch es where f: "find (\<lambda>(id, events). id \<notin> eq_in_flight_channels q \<and> not_throttled now q id \<and> list_ex is_scoped events)
      (eq_cancelled_batches q) = Some (ch, es)"
    using assms by (auto simp: flush_scoped_def split: option.splits)
  from find_mem [OF this] have "ch \<notin> eq_in_flight_channels q" by simp
  with assms f show "fb_channel_id b \<notin> eq_in_flight_channels q" "length (fb_events b) = 1" "fb_cancelled_events b = []"
    "eq_in_flight_channels q' = insert (fb_channel_id b) (eq_in_flight_channels q)"
    "map_of (eq_in_flight_deadlines q') (fb_channel_id b) = Some (now + eq_in_flight_deadline q)"
    by (auto simp: flush_scoped_def Let_def begin_in_flight_def drop_cancelled_def store_simps split: option.splits if_splits)
qed

lemma flush_scoped_None:
  "flush_scoped now q = None \<longleftrightarrow>
     list_all (\<lambda>(ch, es). \<not> (ch \<notin> eq_in_flight_channels q \<and> not_throttled now q ch \<and> list_ex is_scoped es)) (eq_cancelled_batches q)"
proof (cases "find (\<lambda>(ch, es). ch \<notin> eq_in_flight_channels q \<and> not_throttled now q ch \<and> list_ex is_scoped es) (eq_cancelled_batches q)")
  case None
  then have "flush_scoped now q = None" by (simp add: flush_scoped_def)
  with None show ?thesis by (force simp: find_None_iff list_all_iff)
next
  case (Some p)
  obtain ch es where p: "p = (ch, es)" by fastforce
  with find_mem [OF Some] have m: "(ch, es) \<in> set (eq_cancelled_batches q)" "list_ex is_scoped es"
    "ch \<notin> eq_in_flight_channels q" "not_throttled now q ch" by auto
  then obtain i where "position is_scoped es = Some i" using position_None [of is_scoped es] by auto
  with Some p m show ?thesis by (force simp: flush_scoped_def Let_def list_all_iff)
qed

lemma drain_count_bounds:
  assumes "es \<noteq> []"
  shows "1 \<le> drain_count es" and "drain_count es \<le> MAX_BATCH_EVENTS" and "drain_count es \<le> length es"
  using assms
  by (auto simp: drain_count_def MAX_BATCH_EVENTS_def Suc_le_eq split: option.splits if_splits dest: position_Some)

lemma position_take: "position P xs = Some i \<Longrightarrow> j \<le> i \<Longrightarrow> \<not> list_ex P (take j xs)"
proof (induction xs arbitrary: i j)
  case (Cons x xs)
  then show ?case by (cases j) (auto split: if_splits)
qed simp

lemma take_no_scoped: "\<not> list_ex P xs \<Longrightarrow> \<not> list_ex P (take n xs)"
  by (auto simp: list_ex_iff dest: in_set_takeD)

lemma drained_scoped:
  assumes "es \<noteq> []" and "list_ex is_scoped (map to_batch (take (drain_count es) es))"
  shows "drain_count es = 1"
proof -
  let ?P = "\<lambda>e. has_agent_reply (qe_event e)"
  have sc: "list_ex ?P (take (drain_count es) es)"
    using assms(2) by (simp add: list_ex_iff is_scoped_def to_batch_def)
  show ?thesis
  proof (cases "position ?P es")
    case None
    then show ?thesis using sc take_no_scoped by (auto simp: position_None)
  next
    case (Some i)
    then show ?thesis
      using sc position_take [OF Some, of "drain_count es"] by (auto simp: drain_count_def split: if_splits)
  qed
qed

interpretation oldest: first_selection head_older "\<lambda>p. - int (head_time p)"
  by standard (auto simp: head_older_def)

lemma oldest_channel_None: "oldest_channel now q = None \<longleftrightarrow> \<not> list_ex (queue_ready now q) (eq_queues q)"
  by (auto simp: oldest_channel_def filter_empty_conv list_ex_iff)

lemma flush_cancelled_None:
  "flush_cancelled now q = None \<longleftrightarrow> \<not> list_ex (\<lambda>ch. ch \<notin> eq_in_flight_channels q) (map fst (eq_cancelled_batches q))"
proof -
  let ?f = "find (\<lambda>ch. ch \<notin> eq_in_flight_channels q) (map fst (eq_cancelled_batches q))"
  have "flush_cancelled now q = None \<longleftrightarrow> ?f = None"
    by (cases ?f) (simp_all add: flush_cancelled_def Let_def)
  then show ?thesis by (simp add: find_None_iff list_ex_iff)
qed

section \<open>Properties\<close>

text \<open>
  In every reachable state each channel's queue holds at most 500 events, all of that
  channel; exactly the in-flight channels have a deadline and a batch size; and no retry
  counter is above ten.
\<close>

theorem queue_bounded:
  assumes "queue_step\<^sup>*\<^sup>* (event_queue_new mode) q"
  shows "list_all (\<lambda>(ch, es). length es \<le> 500 \<and> list_all (\<lambda>e. qe_channel_id e = ch) es) (eq_queues q)
    \<and> fst ` set (eq_in_flight_deadlines q) = eq_in_flight_channels q
    \<and> fst ` set (eq_in_flight_batch_sizes q) = eq_in_flight_channels q
    \<and> list_all (\<lambda>(ch, n). n \<le> 10) (eq_retry_counts q)"
proof -
  have inv: "queue_inv q" using eqm.inv_reachable assms by blast
  have "bounded_queue ch es" if "(ch, es) \<in> set (eq_queues q)" for ch es
    using that inv keys_ok_mem [OF queue_inv_keys(1) [OF inv]] by (auto simp: queue_inv_def dest: map_predD)
  moreover have "n \<le> MAX_RETRIES" if "(ch, n) \<in> set (eq_retry_counts q)" for ch n
  proof -
    have mp: "map_pred (\<lambda>ch n. n \<le> MAX_RETRIES) (eq_retry_counts q)" using inv by (simp add: queue_inv_def)
    have "map_of (eq_retry_counts q) ch = Some n" using that keys_ok_mem [OF map_pred_keys [OF mp]] by blast
    then show ?thesis using map_predD [OF mp] by blast
  qed
  moreover have "flight_ok q" using inv by (simp add: queue_inv_def)
  ultimately show ?thesis
    by (auto simp: list_all_iff bounded_queue_def of_channel_def MAX_PENDING_PER_CHANNEL_def MAX_RETRIES_def
        flight_ok_def dom_map_of_conv_image_fst)
qed

definition demo_queued :: "string \<Rightarrow> instant \<Rightarrow> QueuedEvent" where
  "demo_queued i t = \<lparr>qe_channel_id = 1,
     qe_event = \<lparr>ev_id = i, ev_pubkey = ''p'', ev_created_at = 7, ev_kind = 9, ev_tags = [], ev_content = []\<rparr>,
     qe_received_at = t, qe_prompt_tag = ''m''\<rparr>"

definition demo_queue :: EventQueue where
  "demo_queue = snd (push (demo_queued ''a'' 3) (event_queue_new Queue))"

lemma demo_queue_reachable: "queue_step\<^sup>*\<^sup>* (event_queue_new Queue) demo_queue"
  unfolding demo_queue_def by (intro r_into_rtranclp pushed)

lemma demo_queue_state:
  "demo_queue = (event_queue_new Queue)\<lparr>eq_queues := [(1, [demo_queued ''a'' 3])]\<rparr>"
  by (simp add: demo_queue_def push_def event_queue_new_def queue_of_def set_queue_def demo_queued_def MAX_PENDING_PER_CHANNEL_def)

theorem queue_bounded_witness:
  "list_all (\<lambda>(ch, es). length es \<le> 500 \<and> list_all (\<lambda>e. qe_channel_id e = ch) es) (eq_queues demo_queue)"
  using queue_bounded [OF demo_queue_reachable] by blast

text \<open>
  One turn per channel: a flush only ever takes a channel that is not in flight once
  stuck turns have expired, marks exactly that channel in flight, and arms its deadline; if
  it returns nothing it has changed nothing but that expiry.
\<close>

theorem one_turn_per_channel:
  "case flush_next now q of
     (None, q') \<Rightarrow> q' = expire_in_flight now q
   | (Some b, q') \<Rightarrow>
       fb_channel_id b \<notin> eq_in_flight_channels (expire_in_flight now q)
     \<and> eq_in_flight_channels q' = insert (fb_channel_id b) (eq_in_flight_channels (expire_in_flight now q))
     \<and> map_of (eq_in_flight_deadlines q') (fb_channel_id b) = Some (now + eq_in_flight_deadline (expire_in_flight now q))"
proof (cases rule: flush_next_cases [where now = now and q = q])
  case (scoped b q')
  then show ?thesis using flush_scoped_Some [OF scoped(1)] by simp
next
  case (queue ch)
  obtain es where "pick_loop head_older None (filter (queue_ready now (expire_in_flight now q)) (eq_queues (expire_in_flight now q))) = Some (ch, es)"
    using queue(2) by (auto simp: oldest_channel_def)
  from pick_loop_mem [OF this] have "ch \<notin> eq_in_flight_channels (expire_in_flight now q)"
    by (auto simp: queue_ready_def)
  then show ?thesis using queue(3) by (simp add: flush_queue_fields)
next
  case (cancelled b q')
  obtain es where "fb_channel_id b \<notin> eq_in_flight_channels (expire_in_flight now q)"
    "map_of (eq_cancelled_batches (expire_in_flight now q)) (fb_channel_id b) = Some es"
    "fb_events b = es" "fb_cancelled_events b = []"
    "q' = begin_in_flight now (fb_channel_id b) (length es) (drop_cancelled (fb_channel_id b) (expire_in_flight now q))"
    by (rule flush_cancelled_Some [OF cancelled(3)])
  with cancelled(4) show ?thesis
    by (simp add: begin_in_flight_def drop_cancelled_def store_simps)
qed simp

text \<open>
  What the expiry that opens a flush gives up: of a channel whose deadline has passed with events withheld for
  steering, those beyond the cap once they are put before the ones that are queued.
\<close>

definition expired_channels :: "instant \<Rightarrow> EventQueue \<Rightarrow> uuid list" where
  "expired_channels now q = map fst (filter (\<lambda>(ch, deadline). now \<ge> deadline) (eq_in_flight_deadlines q))"

definition beyond_cap :: "EventQueue \<Rightarrow> uuid \<Rightarrow> BatchEvent multiset" where
  "beyond_cap q ch = (case map_of (eq_withheld_native_steer q) ch of None \<Rightarrow> {#}
     | Some entries \<Rightarrow> mset (map to_batch (drop MAX_PENDING_PER_CHANNEL (entries @ queue_of q ch))))"

definition given_up :: "instant \<Rightarrow> EventQueue \<Rightarrow> BatchEvent multiset" where
  "given_up now q = sum_list (map (beyond_cap q) (expired_channels now q))"

lemma release_fields [simp]:
  "pending (release_in_flight ch q) = pending q" "beyond_cap (release_in_flight ch q) ch' = beyond_cap q ch'"
  by (simp_all add: release_in_flight_def pending_def beyond_cap_def queue_of_def split: option.split)

lemma recover_beyond_cap: "ch' \<noteq> ch \<Longrightarrow> beyond_cap (recover_withheld_for_expired_channel ch q) ch' = beyond_cap q ch'"
  by (simp add: recover_withheld_for_expired_channel_def beyond_cap_def queue_of_def set_queue_def store_simps Let_def split: option.split)

lemma mset_overflow:
  assumes "A' + Q = A + T" and "W' + E = W" and "T + D = E + Q"
  shows "A' + C + W' + D = A + C + (W :: 'a multiset)"
proof -
  have "(A' + C + W' + D) + (E + Q) = (A' + Q) + C + (W' + E) + D" by (simp add: ac_simps)
  also have "\<dots> = (A + C + W) + (T + D)" unfolding assms(1,2) by (simp add: ac_simps)
  finally show ?thesis unfolding assms(3) by simp
qed

lemma recover_pending:
  assumes "queue_inv q"
  shows "pending (recover_withheld_for_expired_channel ch q) + beyond_cap q ch = pending q"
proof (cases "map_of (eq_withheld_native_steer q) ch")
  case (Some entries)
  let ?f = "\<lambda>es. mset (map to_batch es)" and ?all = "entries @ queue_of q ch"
  note keys = queue_inv_keys [OF assms]
  have queue: "total_mset ?f (AList.update ch (take MAX_PENDING_PER_CHANNEL ?all) (eq_queues q)) + ?f (queue_of q ch)
      = total_mset ?f (eq_queues q) + ?f (take MAX_PENDING_PER_CHANNEL ?all)"
    using total_mset_update [OF keys(1), of ?f ch "take MAX_PENDING_PER_CHANNEL ?all"] by (simp add: queue_of_def split: option.splits)
  have withheld: "total_mset ?f (AList.delete ch (eq_withheld_native_steer q)) + ?f entries = total_mset ?f (eq_withheld_native_steer q)"
    using total_mset_delete [OF keys(3), of ?f ch] Some by simp
  have parts: "?f (take MAX_PENDING_PER_CHANNEL ?all) + ?f (drop MAX_PENDING_PER_CHANNEL ?all) = ?f entries + ?f (queue_of q ch)"
    by (simp only: mset_take_drop) simp
  have "recover_withheld_for_expired_channel ch q =
      q\<lparr>eq_withheld_native_steer := AList.delete ch (eq_withheld_native_steer q),
        eq_queues := AList.update ch (take MAX_PENDING_PER_CHANNEL ?all) (eq_queues q)\<rparr>"
    using Some by (simp add: recover_withheld_for_expired_channel_def Let_def set_queue_def queue_of_def)
  then show ?thesis using Some mset_overflow [OF queue withheld parts, of "total_mset mset (eq_cancelled_batches q)"]
    by (simp add: pending_def beyond_cap_def del: take_append drop_append map_append)
qed (simp add: recover_withheld_for_expired_channel_def beyond_cap_def)

lemma expire_pending:
  assumes "queue_inv q"
  shows "pending (expire_in_flight now q) + given_up now q = pending q"
proof -
  let ?f = "\<lambda>ch q. recover_withheld_for_expired_channel ch (release_in_flight ch q)"
  have folded: "pending (fold ?f chs q)
      + sum_list (map (beyond_cap q) chs) = pending q" if "queue_inv q" "distinct chs" for chs q
    using that
  proof (induction chs arbitrary: q)
    case (Cons ch chs)
    let ?q = "recover_withheld_for_expired_channel ch (release_in_flight ch q)"
    have inv: "queue_inv (release_in_flight ch q)" "queue_inv ?q" using Cons.prems by simp_all
    have "beyond_cap ?q x = beyond_cap q x" if "x \<in> set chs" for x
    proof -
      have "x \<noteq> ch" using that Cons.prems(2) by auto
      then show ?thesis by (simp add: recover_beyond_cap)
    qed
    then have same: "map (beyond_cap ?q) chs = map (beyond_cap q) chs" by simp
    have "pending (fold ?f (ch # chs) q) + sum_list (map (beyond_cap q) (ch # chs)) =
        (pending (fold ?f chs ?q) + sum_list (map (beyond_cap ?q) chs)) + beyond_cap q ch"
      unfolding same by (simp add: ac_simps)
    also have "\<dots> = pending q" using Cons.IH [OF inv(2)] recover_pending [OF inv(1), of ch] Cons.prems by simp
    finally show ?case .
  qed simp
  have "distinct (expired_channels now q)"
    using assms unfolding expired_channels_def by (auto simp: queue_inv_def flight_ok_def keys_ok_def distinct_map_filter)
  from folded [OF assms this] show ?thesis
    unfolding given_up_def expire_in_flight_def Let_def expired_channels_def [symmetric] .
qed

lemma nothing_given_up:
  assumes "\<forall>(ch, entries)\<in>set (eq_withheld_native_steer q). length entries + length (queue_of q ch) \<le> MAX_PENDING_PER_CHANNEL"
  shows "given_up now q = {#}"
proof -
  have "beyond_cap q ch = {#}" for ch using assms by (auto simp: beyond_cap_def simp del: drop_append dest!: map_of_SomeD split: option.split)
  then have "sum_list (map (beyond_cap q) chs) = {#}" for chs by (induction chs) simp_all
  then show ?thesis unfolding given_up_def .
qed

text \<open>
  C21: A flush loses and duplicates nothing but what its opening expiry gives up: what was pending before it
  is what is pending after, the events and cancelled events of the batch it returns, and those
  given up: in a channel whose deadline has passed with events withheld for a steer, these are put back before the queued
  ones, and the last beyond the cap are dropped.
\<close>

theorem flush_conserves_events:
  assumes "queue_step\<^sup>*\<^sup>* (event_queue_new mode) q" and "flush_next now q = (batch, q')"
  shows "pending q' + (case batch of None \<Rightarrow> {#} | Some b \<Rightarrow> mset (fb_events b) + mset (fb_cancelled_events b)) + given_up now q = pending q"
proof -
  let ?E = "expire_in_flight now q"
  have q: "queue_inv q" using eqm.inv_reachable assms(1) by metis
  then have inv: "queue_inv ?E" by simp
  have "case flush_next now q of (None, q') \<Rightarrow> pending q' = pending ?E
      | (Some b, q') \<Rightarrow> pending q' + mset (fb_events b) + mset (fb_cancelled_events b) = pending ?E"
  proof (cases rule: flush_next_cases [where now = now and q = q])
    case (scoped b q')
    then show ?thesis using flush_scoped_pending [OF inv] by simp
  next
    case (queue ch)
    then show ?thesis
      using flush_queue_pending [OF inv oldest_channel_Some(1) [OF inv queue(2)] surjective_pairing] by simp
  next
    case (cancelled b q')
    then show ?thesis using flush_cancelled_pending [OF inv] by simp
  qed simp
  then have "pending q' + (case batch of None \<Rightarrow> {#} | Some b \<Rightarrow> mset (fb_events b) + mset (fb_cancelled_events b)) = pending ?E"
    using assms(2) by (cases batch) (simp_all add: ac_simps)
  then show ?thesis using expire_pending [OF q] by simp
qed

theorem flush_conserves_events_witness:
  "pending (snd (flush_next 5 demo_queue)) + (case fst (flush_next 5 demo_queue) of None \<Rightarrow> {#}
     | Some b \<Rightarrow> mset (fb_events b) + mset (fb_cancelled_events b)) + given_up 5 demo_queue = pending demo_queue"
  by (rule flush_conserves_events [OF demo_queue_reachable prod.collapse [symmetric]])

text \<open>
  The poll tells the truth: it reports flushable work exactly when a flush at the same
  instant would return a batch, and leaves the same expired state behind.
\<close>

theorem poll_predicts_flush:
  "fst (has_flushable_work now q) = (fst (flush_next now q) \<noteq> None)
   \<and> snd (has_flushable_work now q) = expire_in_flight now q"
proof -
  let ?E = "expire_in_flight now q"
  have "flush_scoped now ?E \<noteq> None \<Longrightarrow> flush_cancelled now ?E \<noteq> None"
    unfolding flush_scoped_None flush_cancelled_None by (force simp: list_all_iff list_ex_iff)
  moreover have "fst (has_flushable_work now q) = (oldest_channel now ?E \<noteq> None \<or> flush_cancelled now ?E \<noteq> None)"
    by (simp add: has_flushable_work_def Let_def oldest_channel_None flush_cancelled_None)
  moreover have "snd (has_flushable_work now q) = ?E" by (simp add: has_flushable_work_def Let_def)
  ultimately show ?thesis
    by (cases rule: flush_next_cases [where now = now and q = q]) auto
qed

text \<open>
  Fairness: unless a recovered scoped request goes first, a flush serves a channel
  whose oldest event has waited at least as long as that of any other ready channel, and
  takes between one and fifty events from the front of its queue, ordered by creation time.
\<close>

theorem flush_serves_oldest:
  assumes "queue_step\<^sup>*\<^sup>* (event_queue_new mode) q"
    and "flush_scoped now (expire_in_flight now q) = None"
    and "(ch', es') \<in> set (eq_queues (expire_in_flight now q))" and "queue_ready now (expire_in_flight now q) (ch', es')"
  shows "\<exists>b q' es n. flush_next now q = (Some b, q')
    \<and> map_of (eq_queues (expire_in_flight now q)) (fb_channel_id b) = Some es
    \<and> head_time (fb_channel_id b, es) \<le> head_time (ch', es')
    \<and> 1 \<le> n \<and> n \<le> 50 \<and> n \<le> length es
    \<and> fb_events b = sort_key (\<lambda>be. ev_created_at (be_event be)) (map to_batch (take n es))"
proof -
  let ?E = "expire_in_flight now q"
  have inv: "queue_inv ?E" using eqm.inv_reachable assms(1) by (metis expire_inv)
  have "(ch', es') \<in> set (filter (queue_ready now ?E) (eq_queues ?E))" using assms(3,4) by simp
  then obtain p where pick: "pick_loop head_older None (filter (queue_ready now ?E) (eq_queues ?E)) = Some p"
    using oldest.pick_exists by blast
  then have oc: "oldest_channel now ?E = Some (fst p)" by (simp add: oldest_channel_def)
  note m = oldest_channel_Some [OF inv oc]
  have "p \<in> set (eq_queues ?E)" using pick_loop_mem [OF pick] by auto
  then have es: "snd p = queue_of ?E (fst p)"
    using m(1) keys_ok_mem [OF queue_inv_keys(1) [OF inv], of "fst p" "snd p"] by simp
  have "- int (head_time (ch', es')) \<le> - int (head_time p)"
    using oldest.pick_maximal(2) [OF pick] assms(3,4) by simp
  then have older: "head_time (fst p, queue_of ?E (fst p)) \<le> head_time (ch', es')" by (simp flip: es)
  have ne: "queue_of ?E (fst p) \<noteq> []" using m(2) by (simp add: queue_ready_def)
  have fl: "flush_next now q = (Some (fst (flush_queue now (fst p) ?E)), snd (flush_queue now (fst p) ?E))"
    using assms(2) oc by (simp add: flush_next_def Let_def case_prod_beta)
  let ?b = "fst (flush_queue now (fst p) ?E)" and ?es = "queue_of ?E (fst p)"
  have "fb_channel_id ?b = fst p" by (rule flush_queue_fields(1))
  then show ?thesis
    using fl m(1) older drain_count_bounds [OF ne] flush_queue_fields(2) [of now "fst p" ?E]
    unfolding MAX_BATCH_EVENTS_def
    by (intro exI [of _ ?b] exI [of _ "snd (flush_queue now (fst p) ?E)"] exI [of _ ?es] exI [of _ "drain_count ?es"]) simp
qed

theorem flush_serves_oldest_witness:
  "\<exists>b q' es n. flush_next 5 demo_queue = (Some b, q')
    \<and> map_of (eq_queues (expire_in_flight 5 demo_queue)) (fb_channel_id b) = Some es
    \<and> head_time (fb_channel_id b, es) \<le> head_time (1, [demo_queued ''a'' 3])
    \<and> 1 \<le> n \<and> n \<le> 50 \<and> n \<le> length es
    \<and> fb_events b = sort_key (\<lambda>be. ev_created_at (be_event be)) (map to_batch (take n es))"
proof (rule flush_serves_oldest [OF demo_queue_reachable])
  have e: "expire_in_flight 5 demo_queue = demo_queue"
    by (simp add: expire_in_flight_def demo_queue_state event_queue_new_def)
  show "flush_scoped 5 (expire_in_flight 5 demo_queue) = None"
    unfolding e by (simp add: flush_scoped_def demo_queue_state event_queue_new_def)
  show "(1, [demo_queued ''a'' 3]) \<in> set (eq_queues (expire_in_flight 5 demo_queue))"
    unfolding e by (simp add: demo_queue_state)
  show "queue_ready 5 (expire_in_flight 5 demo_queue) (1, [demo_queued ''a'' 3])"
    unfolding e by (simp add: demo_queue_state event_queue_new_def queue_ready_def not_throttled_def)
qed

text \<open>
  A scoped reply runs alone: on a channel that is not throttled, a batch that contains
  one consists of that event only and carries no cancelled events.
\<close>

theorem scoped_reply_runs_alone:
  assumes "queue_step\<^sup>*\<^sup>* (event_queue_new mode) q" and "flush_next now q = (Some b, q')"
    and "list_ex is_scoped (fb_events b)" and "not_throttled now (expire_in_flight now q) (fb_channel_id b)"
  shows "length (fb_events b) = 1 \<and> fb_cancelled_events b = []"
proof (cases rule: flush_next_cases [where now = now and q = q])
  case (scoped b' q'')
  then show ?thesis using flush_scoped_Some(2,3) [OF scoped(1)] assms(2) by simp
next
  case (queue ch)
  let ?E = "expire_in_flight now q"
  have inv: "queue_inv ?E" using eqm.inv_reachable assms(1) by (metis expire_inv)
  have b: "b = fst (flush_queue now ch ?E)" using queue(3) assms(2) by simp
  have ne: "queue_of ?E ch \<noteq> []" using oldest_channel_Some(2) [OF inv queue(2)] by (simp add: queue_ready_def)
  have "list_ex is_scoped (map to_batch (take (drain_count (queue_of ?E ch)) (queue_of ?E ch)))"
    using assms(3) unfolding b flush_queue_fields(2) by (simp add: list_ex_iff)
  then have "drain_count (queue_of ?E ch) = 1" by (rule drained_scoped [OF ne])
  moreover have "1 \<le> length (queue_of ?E ch)" using ne by (simp add: Suc_le_eq)
  ultimately show ?thesis using assms(3) unfolding b by (simp add: flush_queue_fields)
next
  case (cancelled b' q'')
  let ?E = "expire_in_flight now q"
  have b: "b' = b" using cancelled(4) assms(2) by simp
  obtain es where es: "fb_channel_id b \<notin> eq_in_flight_channels ?E"
    "map_of (eq_cancelled_batches ?E) (fb_channel_id b) = Some es" "fb_events b = es" "fb_cancelled_events b = []"
    "q'' = begin_in_flight now (fb_channel_id b) (length es) (drop_cancelled (fb_channel_id b) ?E)"
    by (rule flush_cancelled_Some [OF cancelled(3) [unfolded b]])
  then have False
    using cancelled(1) assms(3,4) map_of_SomeD [OF es(2)] unfolding flush_scoped_None by (auto simp: list_all_iff)
  then show ?thesis ..
next
  case idle
  with assms(2) show ?thesis by simp
qed

definition demo_scoped :: QueuedEvent where
  "demo_scoped = (demo_queued ''s'' 4)\<lparr>qe_event := \<lparr>ev_id = ''s'', ev_pubkey = ''p'', ev_created_at = 8, ev_kind = 9,
     ev_tags = [\<lparr>tag_kind = ''agent-reply'', tag_content = None, tag_slice = [''agent-reply'']\<rparr>], ev_content = []\<rparr>\<rparr>"

definition demo_scoped_queue :: EventQueue where
  "demo_scoped_queue = snd (push demo_scoped (event_queue_new Queue))"

lemma demo_scoped_state:
  "demo_scoped_queue = (event_queue_new Queue)\<lparr>eq_queues := [(1, [demo_scoped])]\<rparr>"
  by (simp add: demo_scoped_queue_def push_def event_queue_new_def queue_of_def set_queue_def demo_scoped_def
      demo_queued_def MAX_PENDING_PER_CHANNEL_def)

theorem scoped_reply_runs_alone_witness:
  "\<exists>b q'. flush_next 5 demo_scoped_queue = (Some b, q') \<and> length (fb_events b) = 1 \<and> fb_cancelled_events b = []"
proof -
  have reach: "queue_step\<^sup>*\<^sup>* (event_queue_new Queue) demo_scoped_queue"
    unfolding demo_scoped_queue_def by (intro r_into_rtranclp pushed)
  have e: "expire_in_flight 5 demo_scoped_queue = demo_scoped_queue"
    by (simp add: expire_in_flight_def demo_scoped_state event_queue_new_def)
  have sc: "flush_scoped 5 demo_scoped_queue = None"
    by (simp add: flush_scoped_def demo_scoped_state event_queue_new_def)
  have oc: "oldest_channel 5 demo_scoped_queue = Some 1"
    by (simp add: oldest_channel_def demo_scoped_state event_queue_new_def queue_ready_def not_throttled_def)
  let ?b = "fst (flush_queue 5 1 demo_scoped_queue)"
  have fl: "flush_next 5 demo_scoped_queue = (Some ?b, snd (flush_queue 5 1 demo_scoped_queue))"
    by (simp add: flush_next_def e sc oc case_prod_beta)
  have scoped: "has_agent_reply (qe_event demo_scoped)"
    by (simp add: has_agent_reply_def demo_scoped_def AGENT_REPLY_TAG_def)
  have "fb_events ?b = [to_batch demo_scoped]"
    unfolding flush_queue_fields by (simp add: demo_scoped_state queue_of_def drain_count_def scoped)
  then have "list_ex is_scoped (fb_events ?b)" using scoped by (simp add: is_scoped_def to_batch_def)
  moreover have "not_throttled 5 (expire_in_flight 5 demo_scoped_queue) (fb_channel_id ?b)"
    unfolding e by (simp add: not_throttled_def demo_scoped_state event_queue_new_def)
  ultimately show ?thesis using scoped_reply_runs_alone [OF reach fl] fl by blast
qed

text \<open>
  The back-off of a requeue: with a sub-second reading below a thousand million the
  delay of the ten attempts lies between 80 and 90 percent of the capped exponential
  delay, so it is at least four seconds and never reaches 270 seconds.
\<close>

theorem retry_delay_bounds:
  assumes "1 \<le> attempt" and "nanos < 1000000000"
  shows "4 * from_secs (capped_secs attempt) \<le> 5 * jittered_delay (capped_secs attempt) nanos + 4
    \<and> 10 * jittered_delay (capped_secs attempt) nanos \<le> 9 * from_secs (capped_secs attempt)
    \<and> from_secs 4 \<le> jittered_delay (capped_secs attempt) nanos
    \<and> jittered_delay (capped_secs attempt) nanos \<le> from_secs 270"
proof -
  define S where "S = from_secs (capped_secs attempt)"
  have d: "jittered_delay (capped_secs attempt) nanos = S * (17179869180 + 2 * nanos) div 21474836475"
    by (simp add: jittered_delay_def S_def)
  have "S * 17179869180 div 21474836475 \<le> S * (17179869180 + 2 * nanos) div 21474836475"
    by (intro div_le_mono mult_le_mono) auto
  then have lo: "S * 4 div 5 \<le> jittered_delay (capped_secs attempt) nanos"
    unfolding d using div_mult2_eq [of "S * 17179869180" 4294967295 5] by simp
  have "S * (17179869180 + 2 * nanos) div 21474836475 \<le> S * 19179869180 div 21474836475"
    using assms(2) by (intro div_le_mono mult_le_mono) auto
  also have "10 * (S * 19179869180 div 21474836475) \<le> 9 * S" by linarith
  finally have hi: "10 * jittered_delay (capped_secs attempt) nanos \<le> 9 * S" unfolding d by linarith
  have "5 \<le> capped_secs attempt" by (simp add: capped_secs_def BASE_RETRY_DELAY_SECS_def MAX_RETRY_DELAY_SECS_def)
  moreover have "capped_secs attempt \<le> 300" by (simp add: capped_secs_def MAX_RETRY_DELAY_SECS_def)
  ultimately have "5000000000 \<le> S" "S \<le> 300000000000" by (simp_all add: S_def from_secs_def)
  with lo hi have "4 * S \<le> 5 * jittered_delay (capped_secs attempt) nanos + 4"
      "4000000000 \<le> jittered_delay (capped_secs attempt) nanos"
      "jittered_delay (capped_secs attempt) nanos \<le> 270000000000" by linarith+
  with hi show ?thesis unfolding S_def by (simp add: from_secs_def)
qed

theorem retry_delay_bounds_witness:
  "10 * jittered_delay (capped_secs 10) 999999999 \<le> 9 * from_secs (capped_secs 10)"
  using retry_delay_bounds [of 10 999999999] by simp

text \<open>
  A dispatch round that finds no free agent puts the batch back, but not all of it: the
  cancelled events merged into the batch are dropped, exactly those and nothing else.
\<close>

theorem exhausted_pool_drops_cancelled:
  assumes "queue_step\<^sup>*\<^sup>* (event_queue_new mode) q" and "flush_scoped now (expire_in_flight now q) = None"
    and "oldest_channel now (expire_in_flight now q) = Some ch" and "flush_next now q = (Some b, q')"
  shows "pending (pool_exhausted now b q') + mset (fb_cancelled_events b) = pending (expire_in_flight now q)"
proof -
  let ?E = "expire_in_flight now q" and ?f = "\<lambda>es. mset (map to_batch es)"
  have inv: "queue_inv ?E" using eqm.inv_reachable assms(1) by (metis expire_inv)
  have fq: "flush_queue now ch ?E = (b, q')"
    using assms(2-4) by (simp add: flush_next_def Let_def case_prod_beta prod_eq_iff)
  note m = oldest_channel_Some [OF inv assms(3)]
  have inv': "queue_inv q'" using flush_queue_inv [OF inv, of now ch] fq by simp
  have ch: "fb_channel_id b = ch" using flush_queue_fields(1) [of now ch ?E] fq by simp
  have rest: "queue_of q' ch = drop (drain_count (queue_of ?E ch)) (queue_of ?E ch)"
    using flush_queue_fields(6) [of now ch ?E] fq by simp
  have "length (fb_events b) = length (take (drain_count (queue_of ?E ch)) (queue_of ?E ch))"
    using flush_queue_fields(2) [of now ch ?E] fq by simp
  then have "length (fb_events b) + length (queue_of q' ch) = length (queue_of ?E ch)"
    unfolding rest by simp
  then have short: "length (fb_events b) + length (queue_of q' ch) \<le> MAX_PENDING_PER_CHANNEL"
    using queue_of_bounded [OF inv, of ch] by (simp add: bounded_queue_def)
  have same: "to_batch (to_queued ch be) = be" for be by (simp add: to_batch_def to_queued_def)
  have "pending (pool_exhausted now b q') = pending (set_queue ch (map (to_queued ch) (fb_events b) @ queue_of q' ch) q')"
    using short by (auto simp: pool_exhausted_def mark_complete_def requeue_preserve_timestamps_def release_in_flight_def
        ch Let_def pending_def set_queue_def split: option.split)
  also have "\<dots> = pending q' + mset (fb_events b)"
  proof -
    have "total_mset ?f (AList.update ch (map (to_queued ch) (fb_events b) @ queue_of q' ch) (eq_queues q'))
        = total_mset ?f (eq_queues q') + mset (fb_events b)"
      using total_mset_update [OF queue_inv_keys(1) [OF inv'], of ?f ch "map (to_queued ch) (fb_events b) @ queue_of q' ch"]
      by (simp add: queue_of_def comp_def same split: option.splits)
    then show ?thesis by (simp add: pending_def set_queue_def ac_simps)
  qed
  finally show ?thesis using flush_queue_pending [OF inv m(1) fq] by (simp add: ac_simps)
qed

definition demo_merged :: EventQueue where
  "demo_merged = requeue_as_cancelled
     \<lparr>fb_channel_id = 1, fb_events = [to_batch (demo_queued ''z'' 1)], fb_cancelled_events = [], fb_cancel_reason = None\<rparr>
     Steer demo_queue"

lemma demo_merged_state:
  "demo_merged = (event_queue_new Queue)\<lparr>eq_queues := [(1, [demo_queued ''a'' 3])],
     eq_cancelled_batches := [(1, [to_batch (demo_queued ''z'' 1)])], eq_cancel_reasons := [(1, Steer)]\<rparr>"
  by (simp add: demo_merged_def requeue_as_cancelled_def demo_queue_state event_queue_new_def entry_upd_def)

theorem exhausted_pool_drops_cancelled_witness:
  "\<exists>b q'. flush_next 5 demo_merged = (Some b, q') \<and> mset (fb_cancelled_events b) = {#to_batch (demo_queued ''z'' 1)#}
     \<and> pending (pool_exhausted 5 b q') + {#to_batch (demo_queued ''z'' 1)#} = pending demo_merged"
proof -
  have reach: "queue_step\<^sup>*\<^sup>* (event_queue_new Queue) demo_merged"
    unfolding demo_merged_def
    by (rule rtranclp.rtrancl_into_rtrancl [OF demo_queue_reachable]) (rule queue_step.cancelled)
  have e: "expire_in_flight 5 demo_merged = demo_merged"
    by (simp add: expire_in_flight_def demo_merged_state event_queue_new_def)
  have plain: "\<not> has_agent_reply (qe_event (demo_queued i t))" for i t by (simp add: has_agent_reply_def demo_queued_def)
  have sc: "flush_scoped 5 (expire_in_flight 5 demo_merged) = None"
    unfolding e by (simp add: flush_scoped_def demo_merged_state event_queue_new_def is_scoped_def to_batch_def plain)
  have oc: "oldest_channel 5 (expire_in_flight 5 demo_merged) = Some 1"
    unfolding e by (simp add: oldest_channel_def demo_merged_state event_queue_new_def queue_ready_def not_throttled_def)
  let ?b = "fst (flush_queue 5 1 demo_merged)"
  have fl: "flush_next 5 demo_merged = (Some ?b, snd (flush_queue 5 1 demo_merged))"
    using sc oc by (simp add: flush_next_def e case_prod_beta Let_def)
  have "fb_cancelled_events ?b = [to_batch (demo_queued ''z'' 1)]"
    by (simp add: flush_queue_def Let_def demo_merged_state event_queue_new_def queue_of_def drain_count_def plain
        begin_in_flight_def drop_queue_def is_scoped_def to_batch_def MAX_BATCH_EVENTS_def)
  then show ?thesis using exhausted_pool_drops_cancelled [OF reach sc oc fl] fl by (auto simp: e)
qed

end
