(* ===== verification/Job_Wire.thy ===== *)
theory Job_Wire
  imports Nostr_Event
begin

text \<open>
  \<open>buzz-core/src/job.rs\<close>: the wire format of the job queue, the five requests and the head
  the relay publishes. Every decision tag must appear exactly once.

  \<open>serde_json\<close> is not part of the repository: what it reads an artifact, a checkpoint or a
  head body into, and what it writes a head body as, are parameters. A head body is the
  observations \<open>parse_job_head\<close> makes of the JSON object: \<open>get(key).as_str()\<close>, and the two
  structured fields, each absent, unreadable (\<open>Inl\<close>) or read.
\<close>

section \<open>Constants and statuses\<close>

definition JOB_LEASE_SECS :: int where
  "JOB_LEASE_SECS = 120"

definition JOB_HEARTBEAT_SECS :: int where
  "JOB_HEARTBEAT_SECS = 30"

definition MAX_JOB_ATTEMPTS :: int where
  "MAX_JOB_ATTEMPTS = 3"

definition MAX_JOB_INSTRUCTION :: nat where
  "MAX_JOB_INSTRUCTION = 8000"

definition MAX_NONCE :: nat where
  "MAX_NONCE = 64"

definition MAX_JOB_DETAIL :: nat where
  "MAX_JOB_DETAIL = 16000"

definition MAX_JOB_STAMP :: nat where
  "MAX_JOB_STAMP = 256"

definition MAX_CHECKPOINT_TEXT :: nat where
  "MAX_CHECKPOINT_TEXT = 4000"

definition MAX_ARTIFACT_TEXT :: nat where
  "MAX_ARTIFACT_TEXT = 4000"

datatype JobStatus = JobOpen | JobLeased | JobDone | JobFailed | JobAbandoned

fun job_status_as_str :: "JobStatus \<Rightarrow> string" where
  "job_status_as_str JobOpen = ''open''"
| "job_status_as_str JobLeased = ''leased''"
| "job_status_as_str JobDone = ''done''"
| "job_status_as_str JobFailed = ''failed''"
| "job_status_as_str JobAbandoned = ''abandoned''"

definition job_status_parse :: "string \<Rightarrow> JobStatus option" where
  "job_status_parse s =
     (if s = ''open'' then Some JobOpen
      else if s = ''leased'' then Some JobLeased
      else if s = ''done'' then Some JobDone
      else if s = ''failed'' then Some JobFailed
      else if s = ''abandoned'' then Some JobAbandoned
      else None)"

definition is_terminal :: "JobStatus \<Rightarrow> bool" where
  "is_terminal s \<longleftrightarrow> s = JobDone \<or> s = JobFailed \<or> s = JobAbandoned"

datatype JobParseError =
    MissingTag string
  | DuplicateTag string
  | InvalidHex string
  | InvalidInstruction
  | InvalidNonce
  | InvalidDetail
  | UnknownStatus string
  | NotAnOutcome string
  | InvalidStamp string
  | InvalidNumber string
  | InvalidHeadContent
  | InvalidCheckpoint
  | InvalidArtifact
  | MissingArtifact

section \<open>Messages\<close>

record ParsedJobFiling =
  jf_employee_hex :: string
  jf_instruction :: string
  jf_channel :: "string option"
  jf_thread_hex :: "string option"
  jf_parent_job_hex :: "string option"
  jf_task_id :: "string option"

record TaskCheckpoint =
  tc_summary :: string
  tc_resume_token :: "string option"
  tc_progress :: "nat option"

datatype TaskArtifactKind = ArtifactEvent | ArtifactUrl | ArtifactPath | ArtifactText

record TaskArtifact =
  ta_kind :: TaskArtifactKind
  ta_reference :: string
  ta_label :: "string option"

record ParsedJobCheckpoint =
  jc_job_hex :: string
  jc_attempt :: int
  jc_sequence :: int
  jc_checkpoint :: TaskCheckpoint

record ParsedJobClaim =
  jl_job_hex :: string
  jl_nonce :: string

record ParsedJobHeartbeat =
  jb_job_hex :: string
  jb_attempt :: int

record ParsedJobOutcome =
  jo_job_hex :: string
  jo_attempt :: int
  jo_status :: JobStatus
  jo_detail :: string
  jo_provider :: "string option"
  jo_model :: "string option"
  jo_artifacts :: "TaskArtifact list"

datatype TaskRunStatus = RunQueued | RunExecuting | RunRecoverable | RunDelivered | RunFailed | RunAbandoned

record ParsedJobHead =
  jh_job_hex :: string
  jh_employee_hex :: string
  jh_originator_hex :: string
  jh_filed_by_hex :: string
  jh_status :: JobStatus
  jh_attempts :: int
  jh_lease_holder_hex :: "string option"
  jh_lease_expires_at :: "int option"
  jh_instruction :: string
  jh_result :: "string option"
  jh_failure :: "string option"
  jh_provider :: "string option"
  jh_model :: "string option"
  jh_task_id :: "string option"
  jh_run_status :: "TaskRunStatus option"
  jh_checkpoint_sequence :: int
  jh_checkpoint :: "TaskCheckpoint option"
  jh_checkpoint_event_hex :: "string option"
  jh_artifacts :: "TaskArtifact list"
  jh_outcome_event_hex :: "string option"

record HeadBody =
  hb_text :: "string \<Rightarrow> string option"
  hb_checkpoint :: "(unit + TaskCheckpoint) option"
  hb_artifacts :: "(unit + TaskArtifact list) option"

section \<open>Field readers\<close>

fun lookup_error :: "TagLookupError \<Rightarrow> string \<Rightarrow> JobParseError" where
  "lookup_error Missing name = MissingTag name"
| "lookup_error Duplicate name = DuplicateTag name"

definition job_tag :: "nevent \<Rightarrow> string \<Rightarrow> JobParseError + string" where
  "job_tag ev name = map_err (\<lambda>e. lookup_error e name) (single_tag ev name)"

definition job_optional :: "nevent \<Rightarrow> string \<Rightarrow> JobParseError + string option" where
  "job_optional ev name = map_err (\<lambda>e. lookup_error e name) (optional_tag ev name)"

definition hex64 :: "string \<Rightarrow> string \<Rightarrow> JobParseError + string" where
  "hex64 field val =
     (let normalized = to_ascii_lowercase (trim val)
      in if length normalized \<noteq> 64 \<or> \<not> list_all is_ascii_hexdigit normalized
         then Inl (InvalidHex field)
         else Inr normalized)"

definition optional_hex64 :: "nevent \<Rightarrow> string \<Rightarrow> JobParseError + string option" where
  "optional_hex64 ev name = and_then (job_optional ev name) (map_transpose (hex64 name))"

definition optional_stamp :: "nevent \<Rightarrow> string \<Rightarrow> JobParseError + string option" where
  "optional_stamp ev name = and_then (job_optional ev name) (map_transpose (\<lambda>val.
     let trimmed = trim val
     in if trimmed = [] \<or> chars_count trimmed > MAX_JOB_STAMP then Inl (InvalidStamp name) else Inr trimmed))"

definition instruction :: "string \<Rightarrow> JobParseError + string" where
  "instruction content =
     (let trimmed = trim content
      in if trimmed = [] \<or> chars_count trimmed > MAX_JOB_INSTRUCTION then Inl InvalidInstruction else Inr trimmed)"

definition detail :: "string \<Rightarrow> JobParseError + string" where
  "detail content =
     (let trimmed = trim content
      in if chars_count trimmed > MAX_JOB_DETAIL then Inl InvalidDetail else Inr trimmed)"

definition bounded_text :: "string \<Rightarrow> nat \<Rightarrow> bool" where
  "bounded_text val cap = (let trimmed = trim val in trimmed \<noteq> [] \<and> chars_count trimmed \<le> cap)"

definition validate_task_id :: "string \<Rightarrow> JobParseError + string" where
  "validate_task_id val =
     (let trimmed = trim val
      in if trimmed = [] \<or> chars_count trimmed > 128 then Inl InvalidCheckpoint else Inr trimmed)"

definition validate_checkpoint :: "TaskCheckpoint \<Rightarrow> JobParseError + TaskCheckpoint" where
  "validate_checkpoint c =
     (if \<not> bounded_text (tc_summary c) MAX_CHECKPOINT_TEXT
         \<or> (case tc_resume_token c of Some t \<Rightarrow> \<not> bounded_text t MAX_CHECKPOINT_TEXT | None \<Rightarrow> False)
         \<or> (case tc_progress c of Some p \<Rightarrow> p > 100 | None \<Rightarrow> False)
      then Inl InvalidCheckpoint
      else Inr c)"

definition read_artifact :: "(string \<Rightarrow> TaskArtifact option) \<Rightarrow> string list \<Rightarrow> JobParseError + TaskArtifact" where
  "read_artifact json_artifact parts =
     (if length parts \<noteq> 2 then Inl InvalidArtifact
      else and_then (ok_or InvalidArtifact (json_artifact (parts ! 1))) (\<lambda>a.
        if \<not> bounded_text (ta_reference a) MAX_ARTIFACT_TEXT
           \<or> (case ta_label a of Some l \<Rightarrow> \<not> bounded_text l MAX_ARTIFACT_TEXT | None \<Rightarrow> False)
           \<or> (ta_kind a = ArtifactEvent \<and> ok_of (hex64 ''artifact.ref'' (ta_reference a)) = None)
        then Inl InvalidArtifact
        else Inr a))"

definition artifact_tags ::
  "(string \<Rightarrow> TaskArtifact option) \<Rightarrow> nevent \<Rightarrow> JobParseError + TaskArtifact list" where
  "artifact_tags json_artifact ev = collect_res (read_artifact json_artifact) (named_slices ''artifact'' (ev_tags ev))"

definition parse_number :: "(string \<Rightarrow> int option) \<Rightarrow> string \<Rightarrow> string \<Rightarrow> JobParseError + int" where
  "parse_number parse field val = ok_or (InvalidNumber field) (parse val)"

section \<open>Parsers\<close>

definition parse_job_filing :: "nevent \<Rightarrow> JobParseError + ParsedJobFiling" where
  "parse_job_filing ev =
     and_then (and_then (job_tag ev ''p'') (hex64 ''p'')) (\<lambda>employee_hex.
     and_then (instruction (ev_content ev)) (\<lambda>instr.
     and_then (job_optional ev ''h'') (\<lambda>channel.
     and_then (optional_hex64 ev ''e'') (\<lambda>thread_hex.
     and_then (optional_hex64 ev ''job'') (\<lambda>parent_job_hex.
     and_then (and_then (job_optional ev ''task'') (map_transpose validate_task_id)) (\<lambda>task_id.
       Inr \<lparr>jf_employee_hex = employee_hex, jf_instruction = instr, jf_channel = channel,
            jf_thread_hex = thread_hex, jf_parent_job_hex = parent_job_hex, jf_task_id = task_id\<rparr>))))))"

definition parse_job_claim :: "nevent \<Rightarrow> JobParseError + ParsedJobClaim" where
  "parse_job_claim ev =
     and_then (map_ok trim (job_tag ev ''nonce'')) (\<lambda>nonce.
       if nonce = [] \<or> chars_count nonce > MAX_NONCE then Inl InvalidNonce
       else and_then (and_then (job_tag ev ''job'') (hex64 ''job'')) (\<lambda>job_hex.
         Inr \<lparr>jl_job_hex = job_hex, jl_nonce = nonce\<rparr>))"

definition lease_reference :: "nevent \<Rightarrow> JobParseError + string \<times> int" where
  "lease_reference ev =
     and_then (and_then (job_tag ev ''attempt'') (parse_number parse_i32 ''attempt'')) (\<lambda>attempt.
     and_then (and_then (job_tag ev ''job'') (hex64 ''job'')) (\<lambda>job_hex. Inr (job_hex, attempt)))"

definition parse_job_heartbeat :: "nevent \<Rightarrow> JobParseError + ParsedJobHeartbeat" where
  "parse_job_heartbeat ev =
     map_ok (\<lambda>(job_hex, attempt). \<lparr>jb_job_hex = job_hex, jb_attempt = attempt\<rparr>) (lease_reference ev)"

definition parse_job_checkpoint ::
  "(string \<Rightarrow> TaskCheckpoint option) \<Rightarrow> nevent \<Rightarrow> JobParseError + ParsedJobCheckpoint" where
  "parse_job_checkpoint json_checkpoint ev =
     and_then (lease_reference ev) (\<lambda>(job_hex, attempt).
     and_then (and_then (job_tag ev ''sequence'') (parse_number parse_i64 ''sequence'')) (\<lambda>sequence.
       if sequence < 1 then Inl (InvalidNumber ''sequence'')
       else and_then (and_then (ok_or InvalidCheckpoint (json_checkpoint (ev_content ev))) validate_checkpoint) (\<lambda>checkpoint.
         Inr \<lparr>jc_job_hex = job_hex, jc_attempt = attempt, jc_sequence = sequence, jc_checkpoint = checkpoint\<rparr>)))"

definition parse_job_outcome ::
  "(string \<Rightarrow> TaskArtifact option) \<Rightarrow> nevent \<Rightarrow> JobParseError + ParsedJobOutcome" where
  "parse_job_outcome json_artifact ev =
     and_then (job_tag ev ''status'') (\<lambda>raw.
     and_then (ok_or (UnknownStatus raw) (job_status_parse raw)) (\<lambda>status.
       if \<not> (status = JobDone \<or> status = JobFailed) then Inl (NotAnOutcome raw)
       else
         and_then (lease_reference ev) (\<lambda>(job_hex, attempt).
         and_then (artifact_tags json_artifact ev) (\<lambda>artifacts.
         and_then (if status = JobDone then map_ok (\<lambda>t. t \<noteq> None) (job_optional ev ''task'') else Inr False) (\<lambda>has_task.
           if has_task \<and> artifacts = [] then Inl MissingArtifact
           else
             and_then (detail (ev_content ev)) (\<lambda>d.
             and_then (optional_stamp ev ''provider'') (\<lambda>provider.
             and_then (optional_stamp ev ''model'') (\<lambda>model.
               Inr \<lparr>jo_job_hex = job_hex, jo_attempt = attempt, jo_status = status, jo_detail = d,
                    jo_provider = provider, jo_model = model, jo_artifacts = artifacts\<rparr>))))))))"

definition run_status_of :: "JobStatus \<Rightarrow> int \<Rightarrow> TaskRunStatus" where
  "run_status_of status attempts = (case status of
       JobOpen \<Rightarrow> if attempts = 0 then RunQueued else RunRecoverable
     | JobLeased \<Rightarrow> RunExecuting
     | JobDone \<Rightarrow> RunDelivered
     | JobFailed \<Rightarrow> RunFailed
     | JobAbandoned \<Rightarrow> RunAbandoned)"

definition parse_job_head :: "(string \<Rightarrow> HeadBody option) \<Rightarrow> nevent \<Rightarrow> JobParseError + ParsedJobHead" where
  "parse_job_head json_object ev =
     and_then (job_tag ev ''status'') (\<lambda>raw_status.
     and_then (ok_or (UnknownStatus raw_status) (job_status_parse raw_status)) (\<lambda>status.
     and_then (and_then (job_tag ev ''attempts'') (parse_number parse_i32 ''attempts'')) (\<lambda>attempts.
     and_then (and_then (job_optional ev ''lease-expires'') (map_transpose (parse_number parse_i64 ''lease-expires''))) (\<lambda>lease_expires_at.
     and_then (if trim (ev_content ev) = [] then Inl InvalidHeadContent
               else ok_or InvalidHeadContent (json_object (ev_content ev))) (\<lambda>obj.
     and_then (and_then (job_optional ev ''task'') (map_transpose validate_task_id)) (\<lambda>task_id.
     and_then (and_then (job_optional ev ''checkpoint-seq'') (map_transpose (parse_number parse_i64 ''checkpoint-seq''))) (\<lambda>seq.
     and_then (and_then (map_transpose (map_err (\<lambda>_. InvalidHeadContent)) (hb_checkpoint obj)) (map_transpose validate_checkpoint)) (\<lambda>checkpoint.
     and_then (map_transpose (map_err (\<lambda>_. InvalidHeadContent)) (hb_artifacts obj)) (\<lambda>artifacts.
     and_then (and_then (job_tag ev ''d'') (hex64 ''d'')) (\<lambda>job_hex.
     and_then (and_then (job_tag ev ''employee'') (hex64 ''employee'')) (\<lambda>employee_hex.
     and_then (and_then (job_tag ev ''originator'') (hex64 ''originator'')) (\<lambda>originator_hex.
     and_then (and_then (job_tag ev ''filed-by'') (hex64 ''filed-by'')) (\<lambda>filed_by_hex.
     and_then (optional_hex64 ev ''lease-holder'') (\<lambda>lease_holder_hex.
     and_then (instruction (case hb_text obj ''instruction'' of Some t \<Rightarrow> t | None \<Rightarrow> [])) (\<lambda>instr.
     and_then (map_transpose detail (hb_text obj ''result'')) (\<lambda>res.
     and_then (map_transpose detail (hb_text obj ''failure'')) (\<lambda>failure.
     and_then (optional_stamp ev ''provider'') (\<lambda>provider.
     and_then (optional_stamp ev ''model'') (\<lambda>model.
     and_then (optional_hex64 ev ''checkpoint-event'') (\<lambda>checkpoint_event_hex.
     and_then (optional_hex64 ev ''outcome-event'') (\<lambda>outcome_event_hex.
       Inr \<lparr>jh_job_hex = job_hex, jh_employee_hex = employee_hex, jh_originator_hex = originator_hex,
            jh_filed_by_hex = filed_by_hex, jh_status = status, jh_attempts = attempts,
            jh_lease_holder_hex = lease_holder_hex, jh_lease_expires_at = lease_expires_at,
            jh_instruction = instr, jh_result = res, jh_failure = failure,
            jh_provider = provider, jh_model = model, jh_task_id = task_id,
            jh_run_status = map_option (\<lambda>_. run_status_of status attempts) task_id,
            jh_checkpoint_sequence = (case seq of Some s \<Rightarrow> s | None \<Rightarrow> 0),
            jh_checkpoint = checkpoint, jh_checkpoint_event_hex = checkpoint_event_hex,
            jh_artifacts = (case artifacts of Some a \<Rightarrow> a | None \<Rightarrow> []),
            jh_outcome_event_hex = outcome_event_hex\<rparr>)))))))))))))))))))))"

definition head_fields :: "string \<Rightarrow> string option \<Rightarrow> string option \<Rightarrow> (string \<times> string) list" where
  "head_fields instr res failure = (''instruction'', instr)
     # (case res of Some r \<Rightarrow> [(''result'', r)] | None \<Rightarrow> [])
     @ (case failure of Some f \<Rightarrow> [(''failure'', f)] | None \<Rightarrow> [])"

definition job_head_content ::
  "((string \<times> string) list \<Rightarrow> string) \<Rightarrow> string \<Rightarrow> string option \<Rightarrow> string option \<Rightarrow> string" where
  "job_head_content json_to_string instr res failure = json_to_string (head_fields instr res failure)"

section \<open>Lemmas\<close>

interpretation job_status: wire_enum job_status_as_str job_status_parse
proof
  fix x show "job_status_parse (job_status_as_str x) = Some x" by (cases x) (simp_all add: job_status_parse_def)
next
  fix s x assume "job_status_parse s = Some x"
  then show "job_status_as_str x = s" by (auto simp: job_status_parse_def split: if_splits)
qed

definition is_lower_hex :: "char \<Rightarrow> bool" where
  "is_lower_hex c \<longleftrightarrow> is_ascii_hexdigit c \<and> \<not> is_ascii_uppercase c"

lemma ascii_lower_not_upper: "\<not> is_ascii_uppercase (ascii_lower c)"
proof (cases "is_ascii_uppercase c")
  case True
  then have "byte (char_of (byte c + 32)) = byte c + 32" by (simp add: byte_def is_ascii_uppercase_def)
  with True show ?thesis by (simp add: ascii_lower_def is_ascii_uppercase_def)
qed (simp add: ascii_lower_def)

lemma lower_hex_fixed: "list_all is_lower_hex s \<Longrightarrow> to_ascii_lowercase s = s"
  by (induction s) (auto simp: to_ascii_lowercase_def ascii_lower_def is_lower_hex_def)

lemma hex_no_ws: "list_all is_ascii_hexdigit s \<Longrightarrow> ws_len s = 0"
proof (cases s)
  case (Cons a r)
  assume "list_all is_ascii_hexdigit s"
  with Cons have "48 \<le> byte a" "byte a \<le> 102" by (auto simp: is_ascii_hexdigit_def is_ascii_digit_def)
  then have "\<not> ws1 (byte a)" "\<And>b. \<not> ws2 (byte a) b" "\<And>b c. \<not> ws3 (byte a) b c"
    by (auto simp: ws1_def ws2_def ws3_def)
  with Cons show ?thesis by (auto split: list.split)
qed simp

lemma hex_trim: "list_all is_ascii_hexdigit s \<Longrightarrow> trim s = s"
proof -
  assume h: "list_all is_ascii_hexdigit s"
  have "ws_len (drop n s) = 0" for n
    using h by (intro hex_no_ws) (auto simp: list_all_iff dest: in_set_dropD)
  then have "ws_suffix_len s = 0" by (simp add: ws_suffix_len_def)
  with hex_no_ws [OF h] show ?thesis by (simp add: trim_def trim_start_id trim_end_id)
qed

lemma hex64_canonical:
  assumes "hex64 field v = Inr h"
  shows "length h = 64" and "list_all is_lower_hex h" and "hex64 field' h = Inr h"
proof -
  have h: "length h = 64" "list_all is_ascii_hexdigit h" "h = map ascii_lower (trim v)"
    using assms by (auto simp: hex64_def Let_def to_ascii_lowercase_def split: if_splits)
  have "list_all (\<lambda>c. \<not> is_ascii_uppercase c) h" by (simp add: h(3) list_all_iff ascii_lower_not_upper)
  then show lower: "list_all is_lower_hex h" using h(2) by (auto simp: list_all_iff is_lower_hex_def)
  show "length h = 64" by (rule h)
  show "hex64 field' h = Inr h" using h lower_hex_fixed [OF lower] hex_trim [OF h(2)] by (simp add: hex64_def)
qed

lemma job_tag_Inr [res_simps]:
  "job_tag ev name = Inr v \<longleftrightarrow> (\<exists>extra. named_slices name (ev_tags ev) = [name # v # extra])"
  by (auto simp: job_tag_def res_simps single_tag_eq)

lemma job_optional_Inr [res_simps]:
  "job_optional ev name = Inr None \<longleftrightarrow> named_slices name (ev_tags ev) = []"
  by (auto simp: job_optional_def res_simps)

lemma lease_reference_Inr:
  assumes "lease_reference ev = Inr (j, a)"
  shows "length j = 64" and "list_all is_lower_hex j" and "- 2147483648 \<le> a" and "a \<le> 2147483647"
    and "length (named_slices ''job'' (ev_tags ev)) = 1" and "length (named_slices ''attempt'' (ev_tags ev)) = 1"
  using assms parse_signed_range
  by (auto simp: lease_reference_def res_simps parse_number_def hex64_canonical)

section \<open>Properties\<close>

text \<open>
  An outcome that parses reports done or failed and nothing else, names its job and
  its lease attempt exactly once (the job in canonical lower-case hex, the attempt a 32-bit
  number), and a delivered outcome of a Task comes with at least one artifact.
\<close>

theorem job_outcome_sound:
  assumes "parse_job_outcome json_artifact ev = Inr r"
  shows "(jo_status r = JobDone \<or> jo_status r = JobFailed)
    \<and> (\<exists>extra. named_slices ''status'' (ev_tags ev) = [''status'' # job_status_as_str (jo_status r) # extra])
    \<and> length (named_slices ''job'' (ev_tags ev)) = 1 \<and> length (named_slices ''attempt'' (ev_tags ev)) = 1
    \<and> length (jo_job_hex r) = 64 \<and> list_all is_lower_hex (jo_job_hex r)
    \<and> - 2147483648 \<le> jo_attempt r \<and> jo_attempt r \<le> 2147483647
    \<and> (jo_status r = JobDone \<and> named_slices ''task'' (ev_tags ev) \<noteq> [] \<and> jo_artifacts r = []) = False"
proof -
  obtain raw status extra where raw: "named_slices ''status'' (ev_tags ev) = [''status'' # raw # extra]"
    and st: "job_status_parse raw = Some status" "status = JobDone \<or> status = JobFailed"
    using assms by (auto simp: parse_job_outcome_def res_simps split: if_splits)
  obtain j a arts has_task where lr: "lease_reference ev = Inr (j, a)"
    and task: "(if status = JobDone then map_ok (\<lambda>t. t \<noteq> None) (job_optional ev ''task'') else Inr False) = Inr has_task"
    and "\<not> (has_task \<and> arts = [])"
    and r: "jo_job_hex r = j" "jo_attempt r = a" "jo_status r = status" "jo_artifacts r = arts"
    using assms raw st by (auto simp: parse_job_outcome_def res_simps split: if_splits) (blast | metis)+
  have "has_task" if "status = JobDone" "named_slices ''task'' (ev_tags ev) \<noteq> []"
    using task that job_optional_Inr [of ev "''task''"] by (auto simp: res_simps)
  with \<open>\<not> (has_task \<and> arts = [])\<close> have "(status = JobDone \<and> named_slices ''task'' (ev_tags ev) \<noteq> [] \<and> arts = []) = False"
    by blast
  moreover have "raw = job_status_as_str status" using st(1) job_status.as_from by simp
  ultimately show ?thesis using raw st(2) lease_reference_Inr [OF lr] unfolding r by auto
qed

definition demo_hex :: string where
  "demo_hex = replicate 64 CHR ''a''"

lemma demo_hex64: "hex64 field demo_hex = Inr demo_hex"
proof -
  have "list_all is_lower_hex demo_hex"
    by (simp add: demo_hex_def list_all_iff is_lower_hex_def is_ascii_hexdigit_def is_ascii_uppercase_def is_ascii_digit_def byte_def)
  moreover from this have "list_all is_ascii_hexdigit demo_hex" by (auto simp: list_all_iff is_lower_hex_def)
  ultimately show ?thesis
    using lower_hex_fixed hex_trim by (simp add: hex64_def demo_hex_def)
qed

definition wire_tag :: "string \<Rightarrow> string \<Rightarrow> tag" where
  "wire_tag n v = \<lparr>tag_kind = n, tag_content = Some v, tag_slice = [n, v]\<rparr>"

definition wire_event :: "tag list \<Rightarrow> string \<Rightarrow> nevent" where
  "wire_event ts c = \<lparr>ev_id = [], ev_pubkey = [], ev_created_at = 0, ev_kind = 0, ev_tags = ts, ev_content = c\<rparr>"

lemma trim_Nil [simp]: "trim [] = []"
  by (simp add: trim_def trim_start_id trim_end_id ws_suffix_len_def)

lemmas wire_eval = job_tag_def job_optional_def single_tag_def optional_tag_def wire_tag_def wire_event_def
  parse_number_def parse_signed_def in_range_def is_ascii_digit_def byte_def job_status_parse_def demo_hex64

theorem job_outcome_sound_witness:
  "\<exists>r. parse_job_outcome (\<lambda>_. None) (wire_event [wire_tag ''status'' ''done'', wire_tag ''job'' demo_hex, wire_tag ''attempt'' ''1''] []) = Inr r
     \<and> length (jo_job_hex r) = 64"
proof -
  let ?ev = "wire_event [wire_tag ''status'' ''done'', wire_tag ''job'' demo_hex, wire_tag ''attempt'' ''1''] []"
  have "\<exists>r. parse_job_outcome (\<lambda>_. None) ?ev = Inr r"
    by (simp add: parse_job_outcome_def lease_reference_def artifact_tags_def detail_def optional_stamp_def
        chars_count_def wire_eval)
  then obtain r where r: "parse_job_outcome (\<lambda>_. None) ?ev = Inr r" ..
  with job_outcome_sound [OF r] show ?thesis by blast
qed

text \<open>
  A checkpoint that parses carries a sequence number of at least one that fits 64 bits,
  a non-blank bounded summary, a bounded resume token and a progress of at most a hundred.
\<close>

theorem job_checkpoint_sound:
  assumes "parse_job_checkpoint json_checkpoint ev = Inr c"
  shows "1 \<le> jc_sequence c \<and> jc_sequence c \<le> 9223372036854775807
    \<and> bounded_text (tc_summary (jc_checkpoint c)) 4000
    \<and> pred_option (\<lambda>t. bounded_text t 4000) (tc_resume_token (jc_checkpoint c))
    \<and> pred_option (\<lambda>p. p \<le> 100) (tc_progress (jc_checkpoint c))
    \<and> json_checkpoint (ev_content ev) = Some (jc_checkpoint c)"
  using assms parse_signed_range
  by (auto simp: parse_job_checkpoint_def validate_checkpoint_def parse_number_def res_simps MAX_CHECKPOINT_TEXT_def
      option.pred_set split: if_splits option.splits)

theorem job_checkpoint_sound_witness:
  "\<exists>c. parse_job_checkpoint (\<lambda>_. Some \<lparr>tc_summary = demo_hex, tc_resume_token = None, tc_progress = Some 50\<rparr>)
       (wire_event [wire_tag ''job'' demo_hex, wire_tag ''attempt'' ''1'', wire_tag ''sequence'' ''7''] []) = Inr c
     \<and> 1 \<le> jc_sequence c"
proof -
  let ?j = "\<lambda>_. Some \<lparr>tc_summary = demo_hex, tc_resume_token = None, tc_progress = Some 50\<rparr>"
  let ?ev = "wire_event [wire_tag ''job'' demo_hex, wire_tag ''attempt'' ''1'', wire_tag ''sequence'' ''7''] []"
  have "trim demo_hex = demo_hex" using hex64_canonical(2) [OF demo_hex64]
    by (intro hex_trim) (auto simp: list_all_iff is_lower_hex_def)
  then have "bounded_text demo_hex 4000" by (simp add: bounded_text_def chars_count_def demo_hex_def byte_def)
  then have "\<exists>c. parse_job_checkpoint ?j ?ev = Inr c"
    by (simp add: parse_job_checkpoint_def lease_reference_def validate_checkpoint_def MAX_CHECKPOINT_TEXT_def wire_eval)
  then obtain c where c: "parse_job_checkpoint ?j ?ev = Inr c" ..
  with job_checkpoint_sound [OF c] show ?thesis by blast
qed

text \<open>
  The head body and its reader agree: given a JSON library that reads back the object
  it wrote, a head built from an instruction, result and failure parses to those texts,
  trimmed.
\<close>

theorem head_content_roundtrip:
  assumes "json_object (json_to_string (head_fields i res failure)) =
      Some \<lparr>hb_text = map_of (head_fields i res failure), hb_checkpoint = None, hb_artifacts = None\<rparr>"
    and "ev_content ev = job_head_content json_to_string i res failure"
    and "parse_job_head json_object ev = Inr h"
  shows "jh_instruction h = trim i \<and> jh_result h = map_option trim res \<and> jh_failure h = map_option trim failure
    \<and> jh_checkpoint h = None \<and> jh_artifacts h = []"
proof -
  have obj: "json_object (ev_content ev) =
      Some \<lparr>hb_text = map_of (head_fields i res failure), hb_checkpoint = None, hb_artifacts = None\<rparr>"
    using assms(1,2) by (simp add: job_head_content_def)
  have texts: "map_of (head_fields i res failure) ''instruction'' = Some i"
    "map_of (head_fields i res failure) ''result'' = res" "map_of (head_fields i res failure) ''failure'' = failure"
    by (cases res; cases failure; simp add: head_fields_def)+
  have d: "map_transpose detail x = Inr y \<Longrightarrow> y = map_option trim x" for x y
    by (cases x) (auto simp: detail_def Let_def res_simps split: if_splits)
  have ins: "instruction x = Inr y \<Longrightarrow> y = trim x" for x y
    by (auto simp: instruction_def Let_def split: if_splits)
  have body: "x = y" if "(if P then Inl e else ok_or e' (Some y)) = Inr x" for P e e' and x y :: HeadBody
    using that by (simp split: if_splits)
  show ?thesis using assms(3) unfolding parse_job_head_def obj
    by (elim and_thenE) (drule body, drule d, drule d, drule ins, auto simp: texts)
qed

lemma demo_hex_trim: "trim demo_hex = demo_hex"
  using hex64_canonical(2) [OF demo_hex64] by (intro hex_trim) (auto simp: list_all_iff is_lower_hex_def)

theorem head_content_roundtrip_witness:
  "\<exists>h. parse_job_head (\<lambda>_. Some \<lparr>hb_text = map_of (head_fields demo_hex None None), hb_checkpoint = None, hb_artifacts = None\<rparr>)
       (wire_event [wire_tag ''status'' ''open'', wire_tag ''attempts'' ''0'', wire_tag ''d'' demo_hex, wire_tag ''employee'' demo_hex,
          wire_tag ''originator'' demo_hex, wire_tag ''filed-by'' demo_hex] (job_head_content (\<lambda>_. demo_hex) demo_hex None None)) = Inr h
     \<and> jh_instruction h = demo_hex"
proof -
  let ?j = "\<lambda>_. Some \<lparr>hb_text = map_of (head_fields demo_hex None None), hb_checkpoint = None, hb_artifacts = None\<rparr>"
  let ?ev = "wire_event [wire_tag ''status'' ''open'', wire_tag ''attempts'' ''0'', wire_tag ''d'' demo_hex, wire_tag ''employee'' demo_hex,
      wire_tag ''originator'' demo_hex, wire_tag ''filed-by'' demo_hex] (job_head_content (\<lambda>_. demo_hex) demo_hex None None)"
  have ne: "demo_hex \<noteq> []" by (simp add: demo_hex_def)
  have cnt: "chars_count demo_hex \<le> 8000" by (simp add: chars_count_def demo_hex_def byte_def)
  have "\<exists>h. parse_job_head ?j ?ev = Inr h"
    using ne cnt
    by (simp add: parse_job_head_def optional_hex64_def optional_stamp_def instruction_def job_head_content_def
        head_fields_def demo_hex_trim MAX_JOB_INSTRUCTION_def wire_eval)
  then obtain h where h: "parse_job_head ?j ?ev = Inr h" ..
  have "jh_instruction h = trim demo_hex"
    using head_content_roundtrip [where json_object = ?j and json_to_string = "\<lambda>_. demo_hex" and i = demo_hex
        and res = None and failure = None, OF refl _ h]
    by (simp add: wire_event_def)
  with h show ?thesis by (simp add: demo_hex_trim)
qed

end
