(* ===== verification/Sql_Table.thy ===== *)
theory Sql_Table
  imports Colony_Prelude
begin

text \<open>
  A table of the database as the sources use one: rows under a primary key, a \<open>CHECK\<close> on
  each row and a unique index, the two rows of which clash when they agree on its columns. A
  statement is one atomic step: it changes what its \<open>WHERE\<close> clause matches, or fails and
  changes nothing. The order of the list is that of the storage.

  \<open>db_fault\<close> says what happened to a statement that was sent: it ran, it never arrived, or it
  ran and its answer was lost.
\<close>

datatype db_fault = NoFault | NotSent | AnswerLost

datatype DbError = CheckViolation | UniqueViolation | Unavailable

type_synonym ('k, 'r) table = "('k \<times> 'r) list"

section \<open>Statements\<close>

fun clash_free :: "('k \<times> 'r \<Rightarrow> 'k \<times> 'r \<Rightarrow> bool) \<Rightarrow> ('k, 'r) table \<Rightarrow> bool" where
  "clash_free clash [] = True"
| "clash_free clash (x # tbl) \<longleftrightarrow> list_all (\<lambda>y. \<not> clash x y) tbl \<and> clash_free clash tbl"

definition sql_insert ::
  "('k \<times> 'r \<Rightarrow> bool) \<Rightarrow> ('k \<times> 'r \<Rightarrow> 'k \<times> 'r \<Rightarrow> bool) \<Rightarrow> 'k \<Rightarrow> 'r \<Rightarrow> ('k, 'r) table
   \<Rightarrow> (DbError + unit) \<times> ('k, 'r) table" where
  "sql_insert check clash k row tbl =
     (if \<not> check (k, row) then (Inl CheckViolation, tbl)
      else if k \<in> fst ` set tbl \<or> list_ex (clash (k, row)) tbl then (Inl UniqueViolation, tbl)
      else (Inr (), tbl @ [(k, row)]))"

text \<open>\<open>ON CONFLICT DO NOTHING\<close>: whether the row was inserted.\<close>

definition sql_insert_ignore ::
  "('k \<times> 'r \<Rightarrow> bool) \<Rightarrow> ('k \<times> 'r \<Rightarrow> 'k \<times> 'r \<Rightarrow> bool) \<Rightarrow> 'k \<Rightarrow> 'r \<Rightarrow> ('k, 'r) table
   \<Rightarrow> (DbError + bool) \<times> ('k, 'r) table" where
  "sql_insert_ignore check clash k row tbl =
     (case sql_insert check clash k row tbl of
        (Inl UniqueViolation, _) \<Rightarrow> (Inr False, tbl)
      | (Inl e, _) \<Rightarrow> (Inl e, tbl)
      | (Inr _, tbl') \<Rightarrow> (Inr True, tbl'))"

text \<open>\<open>UPDATE ... WHERE ... RETURNING\<close>: the rows changed, as they now are.\<close>

definition changed :: "('k \<times> 'r \<Rightarrow> bool) \<Rightarrow> ('r \<Rightarrow> 'r) \<Rightarrow> ('k, 'r) table \<Rightarrow> ('k, 'r) table" where
  "changed cond change tbl = map (\<lambda>x. if cond x then (fst x, change (snd x)) else x) tbl"

definition sql_update ::
  "('k \<times> 'r \<Rightarrow> bool) \<Rightarrow> ('k \<times> 'r \<Rightarrow> 'k \<times> 'r \<Rightarrow> bool) \<Rightarrow> ('k \<times> 'r \<Rightarrow> bool) \<Rightarrow> ('r \<Rightarrow> 'r) \<Rightarrow> ('k, 'r) table
   \<Rightarrow> (DbError + ('k, 'r) table) \<times> ('k, 'r) table" where
  "sql_update check clash cond change tbl =
     (let hit = map (\<lambda>x. (fst x, change (snd x))) (filter cond tbl) in
      if \<not> list_all check hit then (Inl CheckViolation, tbl)
      else if \<not> clash_free clash (changed cond change tbl) then (Inl UniqueViolation, tbl)
      else (Inr hit, changed cond change tbl))"

text \<open>\<open>DELETE ... WHERE\<close>: the number of rows deleted.\<close>

definition sql_delete :: "('k \<times> 'r \<Rightarrow> bool) \<Rightarrow> ('k, 'r) table \<Rightarrow> nat \<times> ('k, 'r) table" where
  "sql_delete cond tbl = (length (filter cond tbl), filter (\<lambda>x. \<not> cond x) tbl)"

text \<open>A statement or a read that may fail, and what is left of the table.\<close>

definition sql_call ::
  "db_fault \<Rightarrow> ('t \<Rightarrow> (DbError + 'a) \<times> 't) \<Rightarrow> 't \<Rightarrow> (DbError + 'a) \<times> 't" where
  "sql_call fault statement t = (case fault of
       NotSent \<Rightarrow> (Inl Unavailable, t)
     | AnswerLost \<Rightarrow> (Inl Unavailable, snd (statement t))
     | NoFault \<Rightarrow> statement t)"

definition sql_read :: "db_fault \<Rightarrow> 'a \<Rightarrow> DbError + 'a" where
  "sql_read fault answer = (if fault = NoFault then Inr answer else Inl Unavailable)"

definition run_if :: "db_fault \<Rightarrow> ('t \<Rightarrow> 't) \<Rightarrow> 't \<Rightarrow> 't" where
  "run_if fault effect t = (if fault = NotSent then t else effect t)"

lemma sql_call_state: "snd (sql_call fault statement t) \<in> {t, snd (statement t)}"
  by (cases fault) (simp_all add: sql_call_def)

lemma sql_call_Inr: "sql_call fault statement t = (Inr a, t') \<longleftrightarrow> fault = NoFault \<and> statement t = (Inr a, t')"
  by (cases fault) (simp_all add: sql_call_def)

lemma sql_read_Inr [res_simps]: "sql_read fault x = Inr a \<longleftrightarrow> fault = NoFault \<and> a = x"
  by (auto simp: sql_read_def)

lemma sql_read_NoFault [simp]: "sql_read NoFault x = Inr x"
  by (simp add: sql_read_def)

lemma sql_call_NoFault [simp]: "sql_call NoFault s t = s t"
  by (simp add: sql_call_def)

text \<open>Reading one row by its key after a statement.\<close>

lemma map_of_changed:
  "map_of (changed cond change tbl) k =
     (case map_of tbl k of None \<Rightarrow> None | Some r \<Rightarrow> Some (if cond (k, r) then change r else r))"
  by (induction tbl) (auto simp: changed_def)

lemma keys_ok_changed [simp]: "keys_ok (changed cond change tbl) = keys_ok tbl"
proof -
  have "map fst (changed cond change tbl) = map fst tbl" by (simp add: changed_def)
  then show ?thesis by (simp add: keys_ok_def)
qed

lemma changed_none: "filter cond tbl = [] \<Longrightarrow> changed cond f tbl = tbl"
  by (induction tbl) (auto simp: changed_def split: if_splits)

lemma map_of_deleted:
  assumes "keys_ok tbl"
  shows "map_of (snd (sql_delete cond tbl)) k =
     (case map_of tbl k of None \<Rightarrow> None | Some r \<Rightarrow> if cond (k, r) then None else Some r)"
  using assms
proof (induction tbl)
  case (Cons x tbl)
  have "map_of tbl (fst x) = None" using Cons.prems by (auto simp: keys_ok_def map_of_eq_None_iff)
  then show ?case using Cons by (cases x) (auto simp: keys_ok_def sql_delete_def split: option.split)
qed (simp add: sql_delete_def)

lemma map_of_filter_keys: "map_of (filter (\<lambda>x. Q (fst x)) tbl) k = (if Q k then map_of tbl k else None)"
  by (induction tbl) auto

lemma map_of_append_new: "k \<notin> fst ` set tbl \<Longrightarrow> map_of (tbl @ [(k, r)]) k' = (if k' = k then Some r else map_of tbl k')"
  by (induction tbl) auto

section \<open>What every statement keeps\<close>

text \<open>
  The contract of a table: no two rows under one key, every row passes the check, and no two
  rows clash. It needs of the index only that two rows clash or do not, whichever comes first.
\<close>

definition sql_table_ok ::
  "('k \<times> 'r \<Rightarrow> bool) \<Rightarrow> ('k \<times> 'r \<Rightarrow> 'k \<times> 'r \<Rightarrow> bool) \<Rightarrow> ('k, 'r) table \<Rightarrow> bool" where
  "sql_table_ok check clash tbl \<longleftrightarrow> keys_ok tbl \<and> list_all check tbl \<and> clash_free clash tbl"

locale indexed_table =
  fixes check :: "'k \<times> 'r \<Rightarrow> bool" and clash :: "'k \<times> 'r \<Rightarrow> 'k \<times> 'r \<Rightarrow> bool"
  assumes clash_sym: "clash x y \<Longrightarrow> clash y x"
begin

lemma clash_free_append:
  "clash_free clash (xs @ ys) \<longleftrightarrow> clash_free clash xs \<and> clash_free clash ys \<and> (\<forall>x\<in>set xs. \<forall>y\<in>set ys. \<not> clash x y)"
  by (induction xs) (auto simp: list_all_iff)

lemma clash_free_filter: "clash_free clash tbl \<Longrightarrow> clash_free clash (filter P tbl)"
  by (induction tbl) (auto simp: list_all_iff)

lemma clash_free_distinct:
  "clash_free clash tbl \<Longrightarrow> x \<in> set tbl \<Longrightarrow> y \<in> set tbl \<Longrightarrow> clash x y \<Longrightarrow> x = y"
  by (induction tbl) (auto simp: list_all_iff dest: clash_sym)

lemma empty_ok: "sql_table_ok check clash []"
  by (simp add: sql_table_ok_def)

lemma insert_ok: "sql_table_ok check clash tbl \<Longrightarrow> sql_table_ok check clash (snd (sql_insert check clash k row tbl))"
  by (auto simp: sql_table_ok_def sql_insert_def keys_ok_def clash_free_append list_ex_iff dest: clash_sym)

lemma insert_ignore_state:
  "snd (sql_insert_ignore check clash k row tbl) = snd (sql_insert check clash k row tbl)"
  by (auto simp: sql_insert_ignore_def sql_insert_def)

lemma insert_ignore_ok:
  "sql_table_ok check clash tbl \<Longrightarrow> sql_table_ok check clash (snd (sql_insert_ignore check clash k row tbl))"
  unfolding insert_ignore_state by (rule insert_ok)

lemma update_ok:
  assumes "sql_table_ok check clash tbl"
  shows "sql_table_ok check clash (snd (sql_update check clash cond change tbl))"
proof -
  have rows: "list_all check (changed cond change tbl)"
    if "list_all check (map (\<lambda>x. (fst x, change (snd x))) (filter cond tbl))"
    using that assms by (auto simp: sql_table_ok_def changed_def list_all_iff)
  show ?thesis using assms rows by (auto simp: sql_update_def Let_def sql_table_ok_def)
qed

lemma delete_ok: "sql_table_ok check clash tbl \<Longrightarrow> sql_table_ok check clash (snd (sql_delete cond tbl))"
  by (auto simp: sql_table_ok_def sql_delete_def clash_free_filter list_all_iff)

end

end
