(* ===== verification/Job_Store.thy ===== *)
theory Job_Store
  imports Job_Wire Sql_Table
begin

text \<open>
  \<open>buzz-db/src/jobs.rs\<close> and the table it works on (\<open>schema/schema.sql\<close>): each statement is
  one atomic step on the rows of \<open>jobs\<close>, its \<open>WHERE\<close> clause a condition on the row and
  \<open>NULL\<close> in a comparison a condition that does not hold. A statement whose row would break
  a \<open>CHECK\<close> of the table fails and changes nothing.

  \<open>BYTEA\<close> values are their lower-case hex spelling, so 32 bytes are 64 characters. The
  \<open>status\<close> column is the \<open>JobStatus\<close> its \<open>CHECK\<close> lets it spell, timestamps and counters are
  integers, and a \<open>JSONB\<close> value is an array of artifacts or something else. The rows are
  an association list whose order is that of the storage. \<open>deadpool\<close> and connection errors
  are left to the callers.
\<close>

section \<open>Rows\<close>

datatype jsonb = JsonArray "TaskArtifact list" | JsonOther string

record JobRow =
  jr_job_id :: string
  jr_employee :: string
  jr_filed_by :: string
  jr_originator :: string
  jr_channel_id :: "uuid option"
  jr_thread :: "string option"
  jr_task_id :: "string option"
  jr_instruction :: string
  jr_status :: JobStatus
  jr_lease_holder :: "string option"
  jr_lease_expires_at :: "int option"
  jr_attempts :: int
  jr_result :: "string option"
  jr_failure :: "string option"
  jr_provider :: "string option"
  jr_model :: "string option"
  jr_checkpoint_seq :: int
  jr_checkpoint :: "TaskCheckpoint option"
  jr_checkpoint_event :: "string option"
  jr_checkpoint_at :: "int option"
  jr_artifacts :: "jsonb option"
  jr_outcome_event :: "string option"
  jr_escalated_ask :: "string option"
  jr_created_at :: int
  jr_updated_at :: int

text \<open>A row of the table has one more column, the stamp of the last head.\<close>

record jobs_row = JobRow +
  jr_head_at :: int

type_synonym job_key = "community_id \<times> string"
type_synonym jobs_table = "(job_key \<times> jobs_row) list"

definition row_to_job :: "jobs_row \<Rightarrow> JobRow" where
  "row_to_job row = JobRow.truncate row"

record TenantJobRow =
  tj_community_id :: community_id
  tj_host :: string
  tj_job :: JobRow

record NewJob =
  nj_job_id :: string
  nj_employee :: string
  nj_filed_by :: string
  nj_originator :: string
  nj_channel_id :: "uuid option"
  nj_thread :: "string option"
  nj_task_id :: "string option"
  nj_instruction :: string

record FinishedJob =
  fj_job_id :: string
  fj_holder :: string
  fj_attempt :: int
  fj_status :: JobStatus
  fj_detail :: string
  fj_provider :: "string option"
  fj_model :: "string option"
  fj_artifacts :: "jsonb option"
  fj_outcome_event :: "string option"
  fj_now :: int

record JobCheckpoint =
  ck_job_id :: string
  ck_holder :: string
  ck_attempt :: int
  ck_sequence :: int
  ck_checkpoint :: TaskCheckpoint
  ck_event :: string
  ck_now :: int
  ck_lease_expires_at :: int

section \<open>The constraints of the table\<close>

definition octets :: "nat \<Rightarrow> string \<Rightarrow> bool" where
  "octets n s \<longleftrightarrow> length s = 2 * n"

definition opt_octets :: "nat \<Rightarrow> string option \<Rightarrow> bool" where
  "opt_octets n v \<longleftrightarrow> (case v of None \<Rightarrow> True | Some s \<Rightarrow> octets n s)"

definition btrim :: "string \<Rightarrow> string" where
  "btrim s = rev (dropWhile (\<lambda>c. c = CHR '' '') (rev (dropWhile (\<lambda>c. c = CHR '' '') s)))"

definition nonempty_array :: "jsonb \<Rightarrow> bool" where
  "nonempty_array v \<longleftrightarrow> (case v of JsonArray xs \<Rightarrow> xs \<noteq> [] | JsonOther _ \<Rightarrow> False)"

definition lease_check :: "jobs_row \<Rightarrow> bool" where
  "lease_check row \<longleftrightarrow>
     (jr_status row = JobOpen \<and> jr_lease_holder row = None \<and> jr_lease_expires_at row = None)
     \<or> (jr_status row = JobLeased \<and> jr_lease_holder row \<noteq> None \<and> jr_lease_expires_at row \<noteq> None)
     \<or> jr_status row \<in> {JobDone, JobFailed, JobAbandoned}"

definition checkpoint_check :: "jobs_row \<Rightarrow> bool" where
  "checkpoint_check row \<longleftrightarrow> 0 \<le> jr_checkpoint_seq row
     \<and> (jr_checkpoint_seq row = 0 \<and> jr_checkpoint row = None \<and> jr_checkpoint_event row = None \<and> jr_checkpoint_at row = None
        \<or> 0 < jr_checkpoint_seq row \<and> jr_checkpoint row \<noteq> None \<and> jr_checkpoint_event row \<noteq> None \<and> jr_checkpoint_at row \<noteq> None)"

definition delivery_check :: "jobs_row \<Rightarrow> bool" where
  "delivery_check row \<longleftrightarrow>
     (case jr_artifacts row of None \<Rightarrow> True | Some v \<Rightarrow> nonempty_array v)
     \<and> (jr_task_id row = None \<or> jr_status row \<noteq> JobDone \<or> (jr_artifacts row \<noteq> None \<and> jr_outcome_event row \<noteq> None))"

definition shape_check :: "jobs_row \<Rightarrow> bool" where
  "shape_check row \<longleftrightarrow>
     octets 32 (jr_job_id row) \<and> octets 32 (jr_employee row) \<and> octets 32 (jr_filed_by row) \<and> octets 32 (jr_originator row)
     \<and> opt_octets 32 (jr_thread row) \<and> opt_octets 32 (jr_lease_holder row) \<and> opt_octets 32 (jr_escalated_ask row)
     \<and> opt_octets 32 (jr_checkpoint_event row) \<and> opt_octets 32 (jr_outcome_event row)
     \<and> (case jr_task_id row of None \<Rightarrow> True
        | Some t \<Rightarrow> 1 \<le> chars_count (btrim t) \<and> chars_count (btrim t) \<le> 128)"

definition row_ok :: "jobs_row \<Rightarrow> bool" where
  "row_ok row \<longleftrightarrow> shape_check row \<and> lease_check row \<and> checkpoint_check row \<and> delivery_check row"

section \<open>Statements\<close>

text \<open>An \<open>UPDATE ... WHERE\<close> the primary key \<open>AND\<close> a condition, \<open>RETURNING\<close> the row.\<close>

definition update_row ::
  "(jobs_row \<Rightarrow> bool) \<Rightarrow> (jobs_row \<Rightarrow> jobs_row) \<Rightarrow> job_key \<Rightarrow> jobs_table \<Rightarrow> (DbError + jobs_row option) \<times> jobs_table" where
  "update_row cond change key tbl = (case map_of tbl key of
       None \<Rightarrow> (Inr None, tbl)
     | Some row \<Rightarrow>
         if \<not> cond row then (Inr None, tbl)
         else if row_ok (change row) then (Inr (Some (change row)), AList.update key (change row) tbl)
         else (Inl CheckViolation, tbl))"

definition as_jobs :: "(DbError + jobs_row option) \<times> jobs_table \<Rightarrow> (DbError + JobRow option) \<times> jobs_table" where
  "as_jobs = map_prod (map_ok (map_option row_to_job)) id"

definition new_row :: "int \<Rightarrow> NewJob \<Rightarrow> jobs_row" where
  "new_row now job = \<lparr>jr_job_id = nj_job_id job, jr_employee = nj_employee job, jr_filed_by = nj_filed_by job,
     jr_originator = nj_originator job, jr_channel_id = nj_channel_id job, jr_thread = nj_thread job,
     jr_task_id = nj_task_id job, jr_instruction = nj_instruction job, jr_status = JobOpen, jr_lease_holder = None,
     jr_lease_expires_at = None, jr_attempts = 0, jr_result = None, jr_failure = None, jr_provider = None,
     jr_model = None, jr_checkpoint_seq = 0, jr_checkpoint = None, jr_checkpoint_event = None, jr_checkpoint_at = None,
     jr_artifacts = None, jr_outcome_event = None, jr_escalated_ask = None, jr_created_at = now, jr_updated_at = now,
     jr_head_at = 0\<rparr>"

definition insert_job :: "int \<Rightarrow> community_id \<Rightarrow> NewJob \<Rightarrow> jobs_table \<Rightarrow> (DbError + JobRow option) \<times> jobs_table" where
  "insert_job now community job tbl =
     (let key = (community, nj_job_id job); row = new_row now job
      in if \<not> row_ok row then (Inl CheckViolation, tbl)
         else if map_of tbl key \<noteq> None then (Inr None, tbl)
         else (Inr (Some (row_to_job row)), AList.update key row tbl))"

definition find_job :: "community_id \<Rightarrow> string \<Rightarrow> jobs_table \<Rightarrow> JobRow option" where
  "find_job community job_id tbl = map_option row_to_job (map_of tbl (community, job_id))"

definition claim_job ::
  "community_id \<Rightarrow> string \<Rightarrow> string \<Rightarrow> int \<Rightarrow> int \<Rightarrow> int \<Rightarrow> jobs_table \<Rightarrow> (DbError + JobRow option) \<times> jobs_table" where
  "claim_job community job_id holder max_attempts now lease_expires_at tbl = as_jobs (update_row
     (\<lambda>row. jr_attempts row < max_attempts
        \<and> (jr_status row = JobOpen
           \<or> jr_status row = JobLeased \<and> (case jr_lease_expires_at row of Some d \<Rightarrow> d < now | None \<Rightarrow> False)))
     (\<lambda>row. row\<lparr>jr_status := JobLeased, jr_lease_holder := Some holder, jr_lease_expires_at := Some lease_expires_at,
                jr_attempts := jr_attempts row + 1, jr_updated_at := now\<rparr>)
     (community, job_id) tbl)"

definition holds_job :: "string \<Rightarrow> int \<Rightarrow> jobs_row \<Rightarrow> bool" where
  "holds_job holder attempt row \<longleftrightarrow>
     jr_status row = JobLeased \<and> jr_lease_holder row = Some holder \<and> jr_attempts row = attempt"

definition heartbeat_job ::
  "community_id \<Rightarrow> string \<Rightarrow> string \<Rightarrow> int \<Rightarrow> int \<Rightarrow> int \<Rightarrow> jobs_table \<Rightarrow> (DbError + JobRow option) \<times> jobs_table" where
  "heartbeat_job community job_id holder attempt now lease_expires_at tbl = as_jobs (update_row
     (holds_job holder attempt)
     (\<lambda>row. row\<lparr>jr_lease_expires_at := Some lease_expires_at, jr_updated_at := now\<rparr>)
     (community, job_id) tbl)"

definition not_expired :: "int \<Rightarrow> jobs_row \<Rightarrow> bool" where
  "not_expired now row \<longleftrightarrow> (case jr_lease_expires_at row of Some d \<Rightarrow> now \<le> d | None \<Rightarrow> False)"

definition checkpoint_job ::
  "community_id \<Rightarrow> JobCheckpoint \<Rightarrow> jobs_table \<Rightarrow> (DbError + JobRow option) \<times> jobs_table" where
  "checkpoint_job community ck tbl = as_jobs (update_row
     (\<lambda>row. holds_job (ck_holder ck) (ck_attempt ck) row \<and> not_expired (ck_now ck) row
        \<and> jr_checkpoint_seq row < ck_sequence ck)
     (\<lambda>row. row\<lparr>jr_checkpoint_seq := ck_sequence ck, jr_checkpoint := Some (ck_checkpoint ck),
                jr_checkpoint_event := Some (ck_event ck), jr_checkpoint_at := Some (ck_now ck),
                jr_lease_expires_at := Some (ck_lease_expires_at ck), jr_updated_at := ck_now ck\<rparr>)
     (community, ck_job_id ck) tbl)"

definition finish_job ::
  "community_id \<Rightarrow> FinishedJob \<Rightarrow> jobs_table \<Rightarrow> (DbError + JobRow option) \<times> jobs_table" where
  "finish_job community oc tbl =
     (let done = fj_status oc = JobDone
      in as_jobs (update_row
     (\<lambda>row. holds_job (fj_holder oc) (fj_attempt oc) row
        \<and> (jr_task_id row = None \<or> not_expired (fj_now oc) row)
        \<and> (\<not> done \<or> jr_task_id row = None
           \<or> (case fj_artifacts oc of Some v \<Rightarrow> nonempty_array v | None \<Rightarrow> False) \<and> fj_outcome_event oc \<noteq> None))
     (\<lambda>row. row\<lparr>jr_status := fj_status oc,
                jr_result := (if done then Some (fj_detail oc) else jr_result row),
                jr_failure := (if fj_status oc = JobFailed then Some (fj_detail oc) else jr_failure row),
                jr_provider := (if done then fj_provider oc else jr_provider row),
                jr_model := (if done then fj_model oc else jr_model row),
                jr_artifacts := (if done then fj_artifacts oc else jr_artifacts row),
                jr_outcome_event := fj_outcome_event oc,
                jr_lease_expires_at := None,
                jr_updated_at := fj_now oc\<rparr>)
     (community, fj_job_id oc) tbl))"

text \<open>
  The sweep: the rows due, oldest deadline first and at most \<open>limit\<close> of them, that belong to
  a community; \<open>hosts\<close> is the table of communities. With one statement at a time nothing is
  locked, so nothing is skipped.
\<close>

definition due_rows :: "int \<Rightarrow> nat \<Rightarrow> jobs_table \<Rightarrow> jobs_table" where
  "due_rows now limit tbl = take limit (sort_key (\<lambda>(_, row). the (jr_lease_expires_at row))
     (filter (\<lambda>(_, row). jr_status row = JobLeased
        \<and> (case jr_lease_expires_at row of Some d \<Rightarrow> d < now | None \<Rightarrow> False)) tbl))"

definition lapse :: "int \<Rightarrow> int \<Rightarrow> jobs_row \<Rightarrow> jobs_row" where
  "lapse now max_attempts row = row\<lparr>jr_status := (if jr_attempts row \<ge> max_attempts then JobAbandoned else JobOpen),
     jr_lease_holder := None, jr_lease_expires_at := None, jr_updated_at := now\<rparr>"

definition tenant_row :: "(community_id \<Rightarrow> string option) \<Rightarrow> job_key \<times> jobs_row \<Rightarrow> TenantJobRow" where
  "tenant_row hosts = (\<lambda>((community, _), row).
     \<lparr>tj_community_id = community, tj_host = the (hosts community), tj_job = row_to_job row\<rparr>)"

definition expire_due_leases ::
  "(community_id \<Rightarrow> string option) \<Rightarrow> int \<Rightarrow> int \<Rightarrow> nat \<Rightarrow> jobs_table \<Rightarrow> (DbError + TenantJobRow list) \<times> jobs_table" where
  "expire_due_leases hosts now max_attempts limit tbl =
     (let moved = map (\<lambda>(key, row). (key, lapse now max_attempts row))
                    (filter (\<lambda>((community, _), _). hosts community \<noteq> None) (due_rows now limit tbl))
      in if list_all (\<lambda>(_, row). row_ok row) moved
         then (Inr (map (tenant_row hosts) moved), fold (\<lambda>(key, row). AList.update key row) moved tbl)
         else (Inl CheckViolation, tbl))"

definition list_jobs_needing_escalation ::
  "(community_id \<Rightarrow> string option) \<Rightarrow> int \<Rightarrow> nat \<Rightarrow> jobs_table \<Rightarrow> TenantJobRow list" where
  "list_jobs_needing_escalation hosts unclaimed_before limit tbl =
     map (tenant_row hosts) (take limit (sort_key (\<lambda>(_, row). jr_created_at row)
       (filter (\<lambda>((community, _), row). hosts community \<noteq> None \<and> jr_escalated_ask row = None
          \<and> (jr_status row = JobAbandoned \<or> jr_status row = JobOpen \<and> jr_created_at row < unclaimed_before)) tbl)))"

definition stamp_head ::
  "community_id \<Rightarrow> string \<Rightarrow> int \<Rightarrow> jobs_table \<Rightarrow> (DbError + (int \<times> JobRow) option) \<times> jobs_table" where
  "stamp_head community job_id now tbl =
     map_prod (map_ok (map_option (\<lambda>row. (jr_head_at row, row_to_job row)))) id (update_row (\<lambda>_. True)
       (\<lambda>row. row\<lparr>jr_head_at := max (jr_head_at row + 1) now\<rparr>) (community, job_id) tbl)"

definition record_escalation ::
  "int \<Rightarrow> community_id \<Rightarrow> string \<Rightarrow> string \<Rightarrow> jobs_table \<Rightarrow> (DbError + bool) \<times> jobs_table" where
  "record_escalation now community job_id ask_event tbl =
     map_prod (map_ok (\<lambda>row. row \<noteq> None)) id (update_row (\<lambda>row. jr_escalated_ask row = None)
       (\<lambda>row. row\<lparr>jr_escalated_ask := Some ask_event, jr_updated_at := now\<rparr>) (community, job_id) tbl)"

definition clear_escalation ::
  "int \<Rightarrow> community_id \<Rightarrow> string \<Rightarrow> jobs_table \<Rightarrow> (DbError + unit) \<times> jobs_table" where
  "clear_escalation now community job_id tbl =
     map_prod (map_ok (\<lambda>_. ())) id (update_row (\<lambda>_. True)
       (\<lambda>row. row\<lparr>jr_escalated_ask := None, jr_updated_at := now\<rparr>) (community, job_id) tbl)"

end
