(* ===== verification/Job_Broker.thy ===== *)
theory Job_Broker
  imports Job_Store Kind
begin

text \<open>
  \<open>buzz-relay/src/job_broker.rs\<close>: the five requests that move a job, the head that is
  published after each move, and the checks on what a delivered Task names as evidence.
  \<open>buzz-relay/src/job_runtime.rs\<close>: the two timers.

  What is not in these files enters as the record \<open>job_env\<close>: the clock, the employees, the
  Task heads, the stored events and their threads, the codecs, the employees' keys, and the
  outcome of filing an ask. \<open>je_fault\<close> says how a statement fails: before it takes effect, or
  after, with its answer lost. A refusal carries a short text without the values the code
  formats into it. A handler is one step; its statements are steps of their own in
  \<open>Job_Lease\<close>.
\<close>

section \<open>Environment and state\<close>

datatype ask_outcome = AskApplied | AskDuplicate | AskRefused | AskFailed

record job_env =
  je_now :: int
  je_finished_at :: int
  je_fault :: "string \<Rightarrow> db_fault"
  je_employee :: "community_id \<Rightarrow> string \<Rightarrow> string option"
  je_task_home :: "community_id \<Rightarrow> string \<Rightarrow> string + string"
  je_event :: "community_id \<Rightarrow> string \<Rightarrow> StoredEvent option"
  je_thread :: "community_id \<Rightarrow> string \<Rightarrow> (uuid \<times> string option) option"
  je_verifies :: "nevent \<Rightarrow> bool"
  je_parse_uuid :: "string \<Rightarrow> uuid option"
  je_show_uuid :: "uuid \<Rightarrow> string"
  je_json_artifact :: "string \<Rightarrow> TaskArtifact option"
  je_json_checkpoint :: "string \<Rightarrow> TaskCheckpoint option"
  je_json_text :: "(string \<times> string) list \<Rightarrow> TaskCheckpoint option \<Rightarrow> jsonb option \<Rightarrow> string"
  je_keys :: "community_id \<Rightarrow> string \<Rightarrow> string option"
  je_sign :: "string \<Rightarrow> kind \<Rightarrow> string \<Rightarrow> string list list \<Rightarrow> nat \<Rightarrow> nevent option"
  je_hosts :: "community_id \<Rightarrow> string option"
  je_relay_keys :: "string option"
  je_ask :: "nevent \<Rightarrow> ask_outcome"
  je_sha256_hex :: "string \<Rightarrow> string"
  je_pubkey_ok :: "string \<Rightarrow> bool"

text \<open>The table, the heads and asks that were stored, and those that were fanned out.\<close>

record job_state =
  js_jobs :: jobs_table
  js_stored :: "(community_id \<times> nevent) list"
  js_fanned :: "(community_id \<times> nevent) list"

datatype JobOutcome =
  Filed | AlreadyFiled | Claimed | ClaimLost | LeaseExtended | Checkpointed | CheckpointIgnored
  | LeaseGone | Finished | OutcomeIgnored

datatype JobEventError = Rejected string | Internal string

text \<open>A statement sent to the database, and a read of it.\<close>

definition db_call ::
  "job_env \<Rightarrow> string \<Rightarrow> (jobs_table \<Rightarrow> (DbError + 'a) \<times> jobs_table) \<Rightarrow> job_state \<Rightarrow> (DbError + 'a) \<times> job_state" where
  "db_call E label statement st = (case je_fault E label of
       NotSent \<Rightarrow> (Inl Unavailable, st)
     | AnswerLost \<Rightarrow> (Inl Unavailable, st\<lparr>js_jobs := snd (statement (js_jobs st))\<rparr>)
     | NoFault \<Rightarrow> (fst (statement (js_jobs st)), st\<lparr>js_jobs := snd (statement (js_jobs st))\<rparr>))"

definition db_read :: "job_env \<Rightarrow> string \<Rightarrow> 'a \<Rightarrow> string + 'a" where
  "db_read E label answer = (if je_fault E label = NoFault then Inr answer else Inl ''database error'')"

definition hex32 :: "string \<Rightarrow> string + string" where
  "hex32 val = (if even (length val) \<and> list_all is_ascii_hexdigit val
     then Inr (to_ascii_lowercase val) else Inl ''not hex'')"

section \<open>The head\<close>

definition run_status_word :: "JobStatus \<Rightarrow> int \<Rightarrow> string" where
  "run_status_word status attempts = (case status of
       JobOpen \<Rightarrow> if attempts = 0 then ''queued'' else ''recoverable''
     | JobLeased \<Rightarrow> ''executing''
     | JobDone \<Rightarrow> ''delivered''
     | JobFailed \<Rightarrow> ''failed''
     | JobAbandoned \<Rightarrow> ''abandoned'')"

definition opt_tag :: "string \<Rightarrow> string option \<Rightarrow> string list list" where
  "opt_tag name v = (case v of None \<Rightarrow> [] | Some x \<Rightarrow> [[name, x]])"

definition head_tags :: "job_env \<Rightarrow> JobRow \<Rightarrow> string list list" where
  "head_tags E job =
     [[''d'', jr_job_id job], [''employee'', jr_employee job], [''originator'', jr_originator job],
      [''filed-by'', jr_filed_by job], [''status'', job_status_as_str (jr_status job)],
      [''attempts'', show_int (jr_attempts job)], [''p'', jr_originator job]]
     @ opt_tag ''lease-holder'' (jr_lease_holder job)
     @ opt_tag ''lease-expires'' (map_option show_int (jr_lease_expires_at job))
     @ opt_tag ''h'' (map_option (je_show_uuid E) (jr_channel_id job))
     @ opt_tag ''e'' (jr_thread job)
     @ opt_tag ''provider'' (jr_provider job)
     @ opt_tag ''model'' (jr_model job)
     @ (case jr_task_id job of None \<Rightarrow> []
        | Some t \<Rightarrow> [[''task'', t], [''run-status'', run_status_word (jr_status job) (jr_attempts job)]])
     @ (if 0 < jr_checkpoint_seq job then [[''checkpoint-seq'', show_int (jr_checkpoint_seq job)]] else [])
     @ opt_tag ''checkpoint-event'' (jr_checkpoint_event job)
     @ opt_tag ''outcome-event'' (jr_outcome_event job)"

definition build_job_head :: "job_env \<Rightarrow> string \<Rightarrow> JobRow \<Rightarrow> int \<Rightarrow> string + nevent" where
  "build_job_head E keys job head_at =
     ok_or ''could not be signed'' (je_sign E keys KIND_JOB_HEAD
       (je_json_text E (head_fields (jr_instruction job) (jr_result job) (jr_failure job)) (jr_checkpoint job) (jr_artifacts job))
       (head_tags E job) (nat (max head_at 0)))"

text \<open>Storing an event and fanning it out, each best effort.\<close>

definition store_event :: "job_env \<Rightarrow> community_id \<Rightarrow> nevent \<Rightarrow> job_state \<Rightarrow> job_state" where
  "store_event E community ev st =
     (if je_fault E (''insert event '' @ ev_id ev) = NotSent then st else st\<lparr>js_stored := js_stored st @ [(community, ev)]\<rparr>)"

definition fan_out_event :: "job_env \<Rightarrow> community_id \<Rightarrow> nevent \<Rightarrow> job_state \<Rightarrow> job_state" where
  "fan_out_event E community ev st =
     (if je_fault E (''publish event '' @ ev_id ev) = NotSent then st else st\<lparr>js_fanned := js_fanned st @ [(community, ev)]\<rparr>)"

definition publish_job_head :: "job_env \<Rightarrow> community_id \<Rightarrow> string \<Rightarrow> job_state \<Rightarrow> job_state" where
  "publish_job_head E community job_id st =
     (case db_call E (''stamp '' @ job_id) (stamp_head community job_id (je_now E)) st of
        (Inl _, st1) \<Rightarrow> st1
      | (Inr None, st1) \<Rightarrow> st1
      | (Inr (Some (head_at, job)), st1) \<Rightarrow>
         (case and_then (db_read E (''head employee '' @ job_id) (je_employee E community (jr_employee job))) (\<lambda>employee.
               and_then (ok_or ''no employee'' employee) (\<lambda>_.
               and_then (ok_or ''no key'' (je_keys E community (jr_employee job))) (\<lambda>keys.
               build_job_head E keys job head_at))) of
            Inl _ \<Rightarrow> st1
          | Inr ev \<Rightarrow> fan_out_event E community ev (store_event E community ev st1)))"

section \<open>Filing\<close>

definition resolve_originator ::
  "job_env \<Rightarrow> community_id \<Rightarrow> string \<Rightarrow> string option \<Rightarrow> jobs_table \<Rightarrow> string + string" where
  "resolve_originator E community filed_by parent_job_hex tbl =
     and_then (db_read E ''filer'' (je_employee E community filed_by)) (\<lambda>filer.
       if filer = None then Inr filed_by
       else
         and_then (ok_or ''an employee must name the job it is delegating from'' parent_job_hex) (\<lambda>parent_hex.
         and_then (hex32 parent_hex) (\<lambda>parent_id.
         and_then (db_read E ''parent'' (find_job community parent_id tbl)) (\<lambda>found.
         and_then (ok_or ''no job to delegate from'' found) (\<lambda>parent.
           if jr_employee parent \<noteq> filed_by then Inl ''owed by another employee''
           else Inr (jr_originator parent))))))"

definition check_task_home :: "job_env \<Rightarrow> community_id \<Rightarrow> ParsedJobFiling \<Rightarrow> string + unit" where
  "check_task_home E community filing = (case jf_task_id filing of
       None \<Rightarrow> Inr ()
     | Some task_id \<Rightarrow>
         and_then (je_task_home E community task_id) (\<lambda>home.
         and_then (ok_or ''missing home channel'' (jf_channel filing)) (\<lambda>channel.
           if channel \<noteq> home then Inl ''channel does not match Task home''
           else if jf_thread_hex filing = None then Inl ''missing canonical thread''
           else Inr ())))"

definition filing_job :: "job_env \<Rightarrow> community_id \<Rightarrow> nevent \<Rightarrow> jobs_table \<Rightarrow> string + NewJob" where
  "filing_job E community ev tbl =
     and_then (map_err (\<lambda>_. ''invalid job filing'') (parse_job_filing ev)) (\<lambda>filing.
     and_then (hex32 (jf_employee_hex filing)) (\<lambda>employee.
     and_then (db_read E ''employee'' (je_employee E community employee)) (\<lambda>found.
     and_then (ok_or ''not an employee of this community'' found) (\<lambda>status.
       if status \<noteq> ''active'' then Inl ''has been retired''
       else
         and_then (resolve_originator E community (ev_pubkey ev) (jf_parent_job_hex filing) tbl) (\<lambda>originator.
         and_then (check_task_home E community filing) (\<lambda>_.
         and_then (map_transpose hex32 (jf_thread_hex filing)) (\<lambda>thread.
         and_then (map_transpose (\<lambda>v. ok_or ''not a channel id'' (je_parse_uuid E v)) (jf_channel filing)) (\<lambda>channel_id.
           Inr \<lparr>nj_job_id = ev_id ev, nj_employee = employee, nj_filed_by = ev_pubkey ev, nj_originator = originator,
                nj_channel_id = channel_id, nj_thread = thread, nj_task_id = jf_task_id filing,
                nj_instruction = jf_instruction filing\<rparr>))))))))"

definition handle_filing :: "job_env \<Rightarrow> community_id \<Rightarrow> nevent \<Rightarrow> job_state \<Rightarrow> (string + JobOutcome) \<times> job_state" where
  "handle_filing E community ev st = (case filing_job E community ev (js_jobs st) of
       Inl e \<Rightarrow> (Inl e, st)
     | Inr job \<Rightarrow>
        (case db_call E ''insert'' (insert_job (je_now E) community job) st of
           (Inl _, st1) \<Rightarrow> (Inl ''database error'', st1)
         | (Inr inserted, st1) \<Rightarrow>
            (Inr (if inserted = None then AlreadyFiled else Filed), publish_job_head E community (nj_job_id job) st1)))"

section \<open>Claims, heartbeats and checkpoints\<close>

definition load_job :: "job_env \<Rightarrow> community_id \<Rightarrow> string \<Rightarrow> jobs_table \<Rightarrow> string + JobRow" where
  "load_job E community job_id tbl =
     and_then (db_read E ''find'' (find_job community job_id tbl)) (ok_or ''no job in this community'')"

definition handle_claim :: "job_env \<Rightarrow> community_id \<Rightarrow> nevent \<Rightarrow> job_state \<Rightarrow> (string + JobOutcome) \<times> job_state" where
  "handle_claim E community ev st =
     (case and_then (map_err (\<lambda>_. ''invalid job claim'') (parse_job_claim ev)) (\<lambda>claim.
           and_then (hex32 (jl_job_hex claim)) (\<lambda>job_id.
           and_then (load_job E community job_id (js_jobs st)) (\<lambda>job.
             if jr_originator job \<noteq> ev_pubkey ev then Inl ''belongs to another member'' else Inr job_id))) of
        Inl e \<Rightarrow> (Inl e, st)
      | Inr job_id \<Rightarrow>
         (case db_call E ''claim'' (claim_job community job_id (ev_pubkey ev) MAX_JOB_ATTEMPTS (je_now E)
                 (je_now E + JOB_LEASE_SECS)) st of
            (Inl _, st1) \<Rightarrow> (Inl ''database error'', st1)
          | (Inr claimed, st1) \<Rightarrow>
             (Inr (if claimed = None then ClaimLost else Claimed), publish_job_head E community job_id st1)))"

definition handle_heartbeat :: "job_env \<Rightarrow> community_id \<Rightarrow> nevent \<Rightarrow> job_state \<Rightarrow> (string + JobOutcome) \<times> job_state" where
  "handle_heartbeat E community ev st =
     (case and_then (map_err (\<lambda>_. ''invalid job heartbeat'') (parse_job_heartbeat ev)) (\<lambda>beat_for.
           map_ok (\<lambda>job_id. (job_id, jb_attempt beat_for)) (hex32 (jb_job_hex beat_for))) of
        Inl e \<Rightarrow> (Inl e, st)
      | Inr (job_id, attempt) \<Rightarrow>
         (case db_call E ''heartbeat'' (heartbeat_job community job_id (ev_pubkey ev) attempt (je_now E)
                 (je_now E + JOB_LEASE_SECS)) st of
            (Inl _, st1) \<Rightarrow> (Inl ''database error'', st1)
          | (Inr (Some _), st1) \<Rightarrow> (Inr LeaseExtended, publish_job_head E community job_id st1)
          | (Inr None, st1) \<Rightarrow> (Inr LeaseGone, st1)))"

definition handle_checkpoint :: "job_env \<Rightarrow> community_id \<Rightarrow> nevent \<Rightarrow> job_state \<Rightarrow> (string + JobOutcome) \<times> job_state" where
  "handle_checkpoint E community ev st =
     (case and_then (map_err (\<lambda>_. ''invalid job checkpoint'') (parse_job_checkpoint (je_json_checkpoint E) ev)) (\<lambda>parsed.
           map_ok (\<lambda>job_id. (job_id, parsed)) (hex32 (jc_job_hex parsed))) of
        Inl e \<Rightarrow> (Inl e, st)
      | Inr (job_id, parsed) \<Rightarrow>
         (case db_call E ''checkpoint'' (checkpoint_job community
                 \<lparr>ck_job_id = job_id, ck_holder = ev_pubkey ev, ck_attempt = jc_attempt parsed,
                  ck_sequence = jc_sequence parsed, ck_checkpoint = jc_checkpoint parsed, ck_event = ev_id ev,
                  ck_now = je_now E, ck_lease_expires_at = je_now E + JOB_LEASE_SECS\<rparr>) st of
            (Inl _, st1) \<Rightarrow> (Inl ''database error'', st1)
          | (Inr (Some _), st1) \<Rightarrow> (Inr Checkpointed, publish_job_head E community job_id st1)
          | (Inr None, st1) \<Rightarrow>
             (case db_read E ''reread'' (find_job community job_id (js_jobs st1)) of
                Inl e \<Rightarrow> (Inl e, st1)
              | Inr found \<Rightarrow>
                 if (case found of Some job \<Rightarrow> jr_checkpoint_event job = Some (ev_id ev) | None \<Rightarrow> False)
                 then (Inr Checkpointed, publish_job_head E community job_id st1)
                 else (Inr CheckpointIgnored, st1))))"

section \<open>Outcomes\<close>

definition is_recorded_outcome :: "JobRow \<Rightarrow> nevent \<Rightarrow> bool" where
  "is_recorded_outcome job ev \<longleftrightarrow> jr_outcome_event job = Some (ev_id ev)"

definition task_outcome_holds_current_lease :: "JobRow \<Rightarrow> string \<Rightarrow> int \<Rightarrow> int \<Rightarrow> bool" where
  "task_outcome_holds_current_lease job author attempt now \<longleftrightarrow>
     jr_status job = JobLeased \<and> jr_lease_holder job = Some author \<and> jr_attempts job = attempt
     \<and> (case jr_lease_expires_at job of Some deadline \<Rightarrow> now \<le> deadline | None \<Rightarrow> False)"

definition TASK_ARTIFACT_EVENT_KINDS :: "kind list" where
  "TASK_ARTIFACT_EVENT_KINDS = [KIND_STREAM_MESSAGE, KIND_STREAM_MESSAGE_V2, KIND_STREAM_MESSAGE_DIFF, KIND_CANVAS,
     KIND_FORUM_POST, KIND_FORUM_COMMENT]"

definition MAX_TASK_EVENT_ARTIFACTS :: nat where
  "MAX_TASK_EVENT_ARTIFACTS = 16"

fun reference_loop :: "string list \<Rightarrow> TaskArtifact list \<Rightarrow> string + (string \<times> string) list" where
  "reference_loop seen [] = Inr []"
| "reference_loop seen (a # rest) =
     (let normalized = to_ascii_lowercase (ta_reference a)
      in if normalized \<in> set seen then reference_loop seen rest
         else and_then (hex32 (ta_reference a)) (\<lambda>bytes.
           map_ok (\<lambda>refs. (normalized, bytes) # refs) (reference_loop (normalized # seen) rest)))"

definition unique_task_event_references :: "TaskArtifact list \<Rightarrow> string + (string \<times> string) list" where
  "unique_task_event_references artifacts =
     (let event_artifacts = filter (\<lambda>a. ta_kind a = ArtifactEvent) artifacts
      in if MAX_TASK_EVENT_ARTIFACTS < length event_artifacts then Inl ''too many event artifacts''
         else reference_loop [] event_artifacts)"

definition require_exact_artifact_tag :: "nevent \<Rightarrow> string \<Rightarrow> string \<Rightarrow> string + unit" where
  "require_exact_artifact_tag ev name expected = (case named_slices name (ev_tags ev) of
       [parts] \<Rightarrow> if length parts = 2 \<and> parts ! 1 = expected then Inr () else Inl ''wrong fence''
     | _ \<Rightarrow> Inl ''wrong fence'')"

definition validate_task_event_artifact ::
  "job_env \<Rightarrow> string \<Rightarrow> StoredEvent option \<Rightarrow> (uuid \<times> string option) option \<Rightarrow> JobRow \<Rightarrow> string \<Rightarrow> string \<Rightarrow> int
   \<Rightarrow> string + unit" where
  "validate_task_event_artifact E reference stored thread_metadata job task_id outcome_author attempt =
     and_then (ok_or ''not found'' stored) (\<lambda>s.
       if ev_id (se_event s) \<noteq> to_ascii_lowercase reference then Inl ''not the exact event''
       else if \<not> is_verified s \<or> \<not> je_verifies E (se_event s) then Inl ''invalid signature''
       else if ev_kind (se_event s) \<notin> set TASK_ARTIFACT_EVENT_KINDS then Inl ''not a content event''
       else if ev_pubkey (se_event s) \<noteq> outcome_author then Inl ''not signed by the delivering worker''
       else
         and_then (ok_or ''no canonical channel'' (jr_channel_id job)) (\<lambda>channel_id.
           if se_channel_id s \<noteq> Some channel_id then Inl ''different channel''
           else
             and_then (ok_or ''no canonical thread'' (jr_thread job)) (\<lambda>expected_thread.
             and_then (ok_or ''not in the canonical thread'' thread_metadata) (\<lambda>(thread_channel, root).
               if thread_channel \<noteq> channel_id \<or> root \<noteq> Some expected_thread then Inl ''different thread''
               else
                 and_then (require_exact_artifact_tag (se_event s) ''task'' task_id) (\<lambda>_.
                 and_then (require_exact_artifact_tag (se_event s) ''job'' (jr_job_id job)) (\<lambda>_.
                 require_exact_artifact_tag (se_event s) ''attempt'' (show_int attempt)))))))"

fun validate_references ::
  "job_env \<Rightarrow> community_id \<Rightarrow> JobRow \<Rightarrow> string \<Rightarrow> string \<Rightarrow> int \<Rightarrow> string list \<Rightarrow> JobEventError + unit" where
  "validate_references E community job task_id author attempt [] = Inr ()"
| "validate_references E community job task_id author attempt (reference # rest) =
     (let stored = je_event E community reference
      in and_then (map_err Internal (if stored = None then Inr None
             else db_read E ''thread'' (je_thread E community (ev_id (se_event (the stored)))))) (\<lambda>metadata.
         and_then (map_err Rejected (validate_task_event_artifact E reference stored metadata job task_id author attempt)) (\<lambda>_.
         validate_references E community job task_id author attempt rest)))"

definition validate_task_event_artifacts ::
  "job_env \<Rightarrow> community_id \<Rightarrow> nevent \<Rightarrow> JobRow \<Rightarrow> string \<Rightarrow> ParsedJobOutcome \<Rightarrow> JobEventError + unit" where
  "validate_task_event_artifacts E community ev job task_id outcome =
     and_then (map_err Rejected (unique_task_event_references (jo_artifacts outcome))) (\<lambda>references.
     and_then (map_err Internal (db_read E ''artifacts'' ())) (\<lambda>_.
     validate_references E community job task_id (ev_pubkey ev) (jo_attempt outcome) (map fst references)))"

text \<open>Everything \<open>handle_outcome\<close> decides before it writes: \<open>None\<close> for an outcome on record.\<close>

definition outcome_checked ::
  "job_env \<Rightarrow> community_id \<Rightarrow> nevent \<Rightarrow> jobs_table \<Rightarrow> JobEventError + (string \<times> ParsedJobOutcome) option" where
  "outcome_checked E community ev tbl =
     and_then (map_err (\<lambda>_. Rejected ''invalid job outcome'') (parse_job_outcome (je_json_artifact E) ev)) (\<lambda>outcome.
     and_then (map_err Rejected (hex32 (jo_job_hex outcome))) (\<lambda>job_id.
     and_then (map_err Internal (db_read E ''find'' (find_job community job_id tbl))) (\<lambda>found.
     and_then (ok_or (Rejected ''no job in this community'') found) (\<lambda>job.
       if is_recorded_outcome job ev then Inr None
       else if jr_task_id job \<noteq> None \<and> jo_status outcome = JobDone \<and> jo_artifacts outcome = []
       then Inl (Rejected ''a delivered Task requires an artifact'')
       else
         and_then (case (jo_status outcome, jr_task_id job) of
             (JobDone, Some task_id) \<Rightarrow>
               if \<not> task_outcome_holds_current_lease job (ev_pubkey ev) (jo_attempt outcome) (je_now E)
               then Inl (Rejected ''does not hold the current lease'')
               else validate_task_event_artifacts E community ev job task_id outcome
           | _ \<Rightarrow> Inr ()) (\<lambda>_. Inr (Some (job_id, outcome)))))))"

definition finished_job :: "job_env \<Rightarrow> nevent \<Rightarrow> string \<Rightarrow> ParsedJobOutcome \<Rightarrow> FinishedJob" where
  "finished_job E ev job_id outcome = \<lparr>fj_job_id = job_id, fj_holder = ev_pubkey ev, fj_attempt = jo_attempt outcome,
     fj_status = jo_status outcome, fj_detail = jo_detail outcome, fj_provider = jo_provider outcome,
     fj_model = jo_model outcome,
     fj_artifacts = (if jo_artifacts outcome = [] then None else Some (JsonArray (jo_artifacts outcome))),
     fj_outcome_event = Some (ev_id ev), fj_now = je_finished_at E\<rparr>"

definition handle_outcome :: "job_env \<Rightarrow> community_id \<Rightarrow> nevent \<Rightarrow> job_state \<Rightarrow> (JobEventError + JobOutcome) \<times> job_state" where
  "handle_outcome E community ev st = (case outcome_checked E community ev (js_jobs st) of
       Inl e \<Rightarrow> (Inl e, st)
     | Inr None \<Rightarrow> (Inr OutcomeIgnored, st)
     | Inr (Some (job_id, outcome)) \<Rightarrow>
        (case db_call E ''finish'' (finish_job community (finished_job E ev job_id outcome)) st of
           (Inl _, st1) \<Rightarrow> (Inl (Internal ''database error''), st1)
         | (Inr (Some _), st1) \<Rightarrow> (Inr Finished, publish_job_head E community job_id st1)
         | (Inr None, st1) \<Rightarrow>
            (case db_read E ''reread'' (find_job community job_id (js_jobs st1)) of
               Inl e \<Rightarrow> (Inl (Internal e), st1)
             | Inr current \<Rightarrow>
                (if (case current of Some job \<Rightarrow> is_recorded_outcome job ev | None \<Rightarrow> False) then Inr OutcomeIgnored
                 else Inl (Rejected ''superseded or already ended''), st1))))"

definition handle_job_event :: "job_env \<Rightarrow> community_id \<Rightarrow> nevent \<Rightarrow> job_state \<Rightarrow> (JobEventError + JobOutcome) \<times> job_state" where
  "handle_job_event E community ev st =
     (let rejected = map_prod (map_err Rejected) id
      in if ev_kind ev = KIND_JOB_FILING then rejected (handle_filing E community ev st)
         else if ev_kind ev = KIND_JOB_CLAIM then rejected (handle_claim E community ev st)
         else if ev_kind ev = KIND_JOB_HEARTBEAT then rejected (handle_heartbeat E community ev st)
         else if ev_kind ev = KIND_JOB_CHECKPOINT then rejected (handle_checkpoint E community ev st)
         else if ev_kind ev = KIND_JOB_OUTCOME then handle_outcome E community ev st
         else (Inl (Rejected ''not a job event''), st))"

end
