(* ===== verification/Job_Timers.thy ===== *)
theory Job_Timers
  imports Job_Broker
begin

text \<open>
  \<open>buzz-relay/src/job_runtime.rs\<close>: the pass that takes back lapsed leases and the pass that
  asks a human about a job with nowhere left to go. Filing the ask is \<open>ask_broker.rs\<close>, a
  parameter that gives its outcome.
\<close>

definition DEFAULT_JOB_UNCLAIMED_AFTER_SECS :: int where
  "DEFAULT_JOB_UNCLAIMED_AFTER_SECS = 60 * 60"

definition MAX_LEASES_PER_TICK :: nat where
  "MAX_LEASES_PER_TICK = 200"

definition MAX_ESCALATIONS_PER_TICK :: nat where
  "MAX_ESCALATIONS_PER_TICK = 100"

definition publish_reclaimed :: "job_env \<Rightarrow> TenantJobRow \<Rightarrow> job_state \<Rightarrow> job_state" where
  "publish_reclaimed E row = publish_job_head E (tj_community_id row) (jr_job_id (tj_job row))"

definition run_job_lease_tick :: "job_env \<Rightarrow> int \<Rightarrow> job_state \<Rightarrow> (string + nat) \<times> job_state" where
  "run_job_lease_tick E now st =
     (case db_call E ''expire'' (expire_due_leases (je_hosts E) now MAX_JOB_ATTEMPTS MAX_LEASES_PER_TICK) st of
        (Inl _, st1) \<Rightarrow> (Inl ''database error'', st1)
      | (Inr reclaimed, st1) \<Rightarrow> (Inr (length reclaimed), fold (publish_reclaimed E) reclaimed st1))"

definition job_need_key :: "job_env \<Rightarrow> string \<Rightarrow> string" where
  "job_need_key E job_id = ''job-'' @ take 32 (je_sha256_hex E job_id)"

fun take_chars :: "nat \<Rightarrow> string \<Rightarrow> string" where
  "take_chars n [] = []"
| "take_chars n (c # cs) =
     (if 128 \<le> byte c \<and> byte c < 192 then c # take_chars n cs
      else (case n of 0 \<Rightarrow> [] | Suc m \<Rightarrow> c # take_chars m cs))"

definition truncate_headline :: "string \<Rightarrow> string" where
  "truncate_headline s = take_chars 80 s @ (if 80 < chars_count s then map char_of [226, 128, 166 :: nat] else [])"

definition stall_content :: "job_env \<Rightarrow> JobRow \<Rightarrow> string" where
  "stall_content E job =
     (let quoted = CHR 0x22 # truncate_headline (jr_instruction job) @ [CHR 0x22]
      in je_json_text E
        [(''headline'', if jr_status job = JobAbandoned
             then quoted @ '' was tried '' @ show_int (jr_attempts job) @ '' times and never finished''
             else quoted @ '' has been waiting unclaimed''),
         (''cost_of_delay'', if jr_status job = JobAbandoned
             then ''every machine that took this job stopped before reporting back; nothing will pick it up again without you''
             else ''no machine of yours has claimed it, so this work has not started and will not start on its own'')]
        None None)"

definition stall_tags :: "job_env \<Rightarrow> JobRow \<Rightarrow> string list list" where
  "stall_tags E job = [[''ask-type'', ''stall''], [''p'', jr_originator job], [''initiative'', ''no-initiative''],
     [''need'', job_need_key E (jr_job_id job)], [''task'', jr_job_id job]]"

definition release_escalation :: "job_env \<Rightarrow> community_id \<Rightarrow> string \<Rightarrow> job_state \<Rightarrow> job_state" where
  "release_escalation E community job_id st = snd (db_call E (''clear '' @ job_id) (clear_escalation (je_now E) community job_id) st)"

definition build_stall_ask :: "job_env \<Rightarrow> JobRow \<Rightarrow> string + nevent" where
  "build_stall_ask E job =
     and_then (if je_pubkey_ok E (jr_originator job) then Inr () else Inl ''not a pubkey'') (\<lambda>_.
       ok_or ''failed to sign'' (case je_relay_keys E of None \<Rightarrow> None
         | Some keys \<Rightarrow> je_sign E keys KIND_ASK (stall_content E job) (stall_tags E job) (nat (je_now E))))"

text \<open>The slot of the job is taken before the ask is filed, and given back when filing fails.\<close>

definition file_stall_ask :: "job_env \<Rightarrow> community_id \<Rightarrow> string \<Rightarrow> nevent \<Rightarrow> job_state \<Rightarrow> (string + bool) \<times> job_state" where
  "file_stall_ask E community job_id ev st =
     (case db_call E (''record '' @ job_id) (record_escalation (je_now E) community job_id (ev_id ev)) st of
        (Inl _, st1) \<Rightarrow> (Inl ''database error'', st1)
      | (Inr claimed, st1) \<Rightarrow>
         if \<not> claimed then (Inr False, st1)
         else (case je_ask E ev of
             AskDuplicate \<Rightarrow> (Inr False, st1)
           | AskRefused \<Rightarrow> (Inl ''refused'', release_escalation E community job_id st1)
           | AskFailed \<Rightarrow> (Inl ''failed to file'', release_escalation E community job_id st1)
           | AskApplied \<Rightarrow>
              (Inr True, if je_fault E (''insert event '' @ ev_id ev) \<noteq> NoFault then store_event E community ev st1
                         else fan_out_event E community ev (store_event E community ev st1))))"

definition escalate :: "job_env \<Rightarrow> TenantJobRow \<Rightarrow> job_state \<Rightarrow> (string + bool) \<times> job_state" where
  "escalate E candidate st = (case build_stall_ask E (tj_job candidate) of
       Inl e \<Rightarrow> (Inl e, st)
     | Inr ev \<Rightarrow> file_stall_ask E (tj_community_id candidate) (jr_job_id (tj_job candidate)) ev st)"

fun escalate_all :: "job_env \<Rightarrow> TenantJobRow list \<Rightarrow> job_state \<Rightarrow> nat \<times> job_state" where
  "escalate_all E [] st = (0, st)"
| "escalate_all E (candidate # rest) st = (case escalate E candidate st of (res, st1) \<Rightarrow>
     (case escalate_all E rest st1 of (filed, st2) \<Rightarrow> ((if res = Inr True then filed + 1 else filed), st2)))"

definition saturating_sub_i64 :: "int \<Rightarrow> int \<Rightarrow> int" where
  "saturating_sub_i64 a b = max (- (2 ^ 63)) (min (2 ^ 63 - 1) (a - b))"

definition run_job_escalation_tick :: "job_env \<Rightarrow> int \<Rightarrow> int \<Rightarrow> job_state \<Rightarrow> (string + nat) \<times> job_state" where
  "run_job_escalation_tick E now unclaimed_after_secs st =
     (if je_relay_keys E = None then (Inl ''requires a durable relay signing key'', st)
      else case db_read E ''candidates'' (list_jobs_needing_escalation (je_hosts E)
                  (saturating_sub_i64 now unclaimed_after_secs) MAX_ESCALATIONS_PER_TICK (js_jobs st)) of
          Inl e \<Rightarrow> (Inl e, st)
        | Inr candidates \<Rightarrow> (case escalate_all E candidates st of (filed, st1) \<Rightarrow> (Inr filed, st1)))"

end
