(* ===== verification/Job_Lease.thy ===== *)
theory Job_Lease
  imports Job_Store
begin

text \<open>
  What the job table promises, for any sequence of statements by any callers: the lease of a
  job as an abstract machine with four phases, the simulation of the statements by it, and
  the fencing of workers that follows.
\<close>

section \<open>Statements as steps\<close>

datatype store_call =
    DoInsert int community_id NewJob
  | DoClaim community_id string string int int int
  | DoHeartbeat community_id string string int int int
  | DoCheckpoint community_id JobCheckpoint
  | DoFinish community_id FinishedJob
  | DoExpire "community_id \<Rightarrow> string option" int int nat
  | DoStamp community_id string int
  | DoRecord int community_id string string
  | DoClear int community_id string

definition one_row :: "job_key \<Rightarrow> (DbError + JobRow option) \<times> jobs_table \<Rightarrow> (job_key \<times> JobRow) list \<times> jobs_table" where
  "one_row key = (\<lambda>(res, tbl). (case res of Inr (Some row) \<Rightarrow> [(key, row)] | _ \<Rightarrow> [], tbl))"

text \<open>The rows a statement moved, and the table after it; stamps and escalations move none.\<close>

fun store_perform :: "store_call \<Rightarrow> jobs_table \<Rightarrow> (job_key \<times> JobRow) list \<times> jobs_table" where
  "store_perform (DoInsert now c job) tbl = one_row (c, nj_job_id job) (insert_job now c job tbl)"
| "store_perform (DoClaim c j h cap now expires) tbl = one_row (c, j) (claim_job c j h cap now expires tbl)"
| "store_perform (DoHeartbeat c j h n now expires) tbl = one_row (c, j) (heartbeat_job c j h n now expires tbl)"
| "store_perform (DoCheckpoint c ck) tbl = one_row (c, ck_job_id ck) (checkpoint_job c ck tbl)"
| "store_perform (DoFinish c oc) tbl = one_row (c, fj_job_id oc) (finish_job c oc tbl)"
| "store_perform (DoExpire hosts now cap limit) tbl = (case expire_due_leases hosts now cap limit tbl of
     (res, tbl') \<Rightarrow> (case res of Inr rows \<Rightarrow> map (\<lambda>r. ((tj_community_id r, jr_job_id (tj_job r)), tj_job r)) rows
                      | Inl _ \<Rightarrow> [], tbl'))"
| "store_perform (DoStamp c j now) tbl = ([], snd (stamp_head c j now tbl))"
| "store_perform (DoRecord now c j ask) tbl = ([], snd (record_escalation now c j ask tbl))"
| "store_perform (DoClear now c j) tbl = ([], snd (clear_escalation now c j tbl))"

type_synonym store_log = "(store_call \<times> (job_key \<times> JobRow) list) list"

fun store_run :: "store_call list \<Rightarrow> jobs_table \<Rightarrow> store_log \<times> jobs_table" where
  "store_run [] tbl = ([], tbl)"
| "store_run (call # calls) tbl = (case store_perform call tbl of (rows, tbl1) \<Rightarrow>
     (case store_run calls tbl1 of (log, tbl2) \<Rightarrow> ((call, rows) # log, tbl2)))"

section \<open>The lease as a machine\<close>

datatype lease_phase = Absent | Waiting int | Held string int int | Over

definition phase_of :: "jobs_row option \<Rightarrow> lease_phase" where
  "phase_of r = (case r of None \<Rightarrow> Absent
     | Some row \<Rightarrow> (case jr_status row of
         JobOpen \<Rightarrow> Waiting (jr_attempts row)
       | JobLeased \<Rightarrow> Held (the (jr_lease_holder row)) (jr_attempts row) (the (jr_lease_expires_at row))
       | _ \<Rightarrow> Over))"

text \<open>
  What one entry of the log does to the lease of one job; \<open>None\<close> where it must not happen.
\<close>

fun lease_next :: "job_key \<Rightarrow> lease_phase \<Rightarrow> store_call \<times> (job_key \<times> JobRow) list \<Rightarrow> lease_phase option" where
  "lease_next k ph (call, rows) = (case map_of rows k of
       None \<Rightarrow> Some ph
     | Some row \<Rightarrow> (case (call, ph) of
         (DoInsert _ _ _, Absent) \<Rightarrow> Some (Waiting 0)
       | (DoClaim _ _ h cap _ expires, Waiting n) \<Rightarrow>
           if jr_attempts row = n + 1 \<and> n < cap then Some (Held h (n + 1) expires) else None
       | (DoClaim _ _ h cap now expires, Held _ n d) \<Rightarrow>
           if jr_attempts row = n + 1 \<and> n < cap \<and> d < now then Some (Held h (n + 1) expires) else None
       | (DoHeartbeat _ _ h n _ expires, Held h' n' _) \<Rightarrow>
           if h = h' \<and> n = n' then Some (Held h n expires) else None
       | (DoCheckpoint _ ck, Held h n d) \<Rightarrow>
           if ck_holder ck = h \<and> ck_attempt ck = n \<and> ck_now ck \<le> d then Some (Held h n (ck_lease_expires_at ck)) else None
       | (DoFinish _ oc, Held h n _) \<Rightarrow> if fj_holder oc = h \<and> fj_attempt oc = n then Some Over else None
       | (DoExpire _ now cap _, Held _ n d) \<Rightarrow>
           if d < now \<and> (jr_status row = JobAbandoned \<longleftrightarrow> cap \<le> n)
           then Some (if cap \<le> n then Over else Waiting n) else None
       | _ \<Rightarrow> None))"

fun lease_steps :: "job_key \<Rightarrow> lease_phase \<Rightarrow> store_log \<Rightarrow> lease_phase option" where
  "lease_steps k ph [] = Some ph"
| "lease_steps k ph (e # es) = (case lease_next k ph e of None \<Rightarrow> None | Some ph1 \<Rightarrow> lease_steps k ph1 es)"

section \<open>The table simulates the machine\<close>

definition table_ok :: "jobs_table \<Rightarrow> bool" where
  "table_ok tbl \<longleftrightarrow> keys_ok tbl \<and> (\<forall>k row. map_of tbl k = Some row \<longrightarrow> row_ok row \<and> jr_job_id row = snd k)"

lemma row_to_job_simps [simp]:
  "jr_attempts (row_to_job row) = jr_attempts row" "jr_status (row_to_job row) = jr_status row"
  "jr_job_id (row_to_job row) = jr_job_id row" "jr_originator (row_to_job row) = jr_originator row"
  "jr_lease_holder (row_to_job row) = jr_lease_holder row"
  "jr_lease_expires_at (row_to_job row) = jr_lease_expires_at row"
  "jr_outcome_event (row_to_job row) = jr_outcome_event row" "jr_task_id (row_to_job row) = jr_task_id row"
  "jr_escalated_ask (row_to_job row) = jr_escalated_ask row" "jr_employee (row_to_job row) = jr_employee row"
  "jr_checkpoint_event (row_to_job row) = jr_checkpoint_event row"
  "jr_channel_id (row_to_job row) = jr_channel_id row" "jr_thread (row_to_job row) = jr_thread row"
  "jr_created_at (row_to_job row) = jr_created_at row" "jr_instruction (row_to_job row) = jr_instruction row"
  by (simp_all add: row_to_job_def JobRow.truncate_def)

lemma update_row_cases:
  obtains (kept) res where "update_row cond change key tbl = (res, tbl)" "res = Inr None \<or> res = Inl CheckViolation"
  | (moved) row where "map_of tbl key = Some row" "cond row" "row_ok (change row)"
      "update_row cond change key tbl = (Inr (Some (change row)), AList.update key (change row) tbl)"
proof (cases "map_of tbl key")
  case None
  then show thesis by (intro kept [of "Inr None"]) (simp_all add: update_row_def)
next
  case (Some row)
  show thesis
  proof (cases "cond row \<and> row_ok (change row)")
    case True
    with Some show thesis by (intro moved [of row]) (simp_all add: update_row_def)
  next
    case False
    with Some show thesis
      by (intro kept [of "if cond row then Inl CheckViolation else Inr None"]) (auto simp: update_row_def)
  qed
qed

lemma table_okD: "table_ok tbl \<Longrightarrow> map_of tbl k = Some row \<Longrightarrow> row_ok row \<and> jr_job_id row = snd k"
  unfolding table_ok_def by blast

lemma table_ok_Nil [simp]: "table_ok []"
  by (simp add: table_ok_def)

lemma table_ok_update:
  assumes "table_ok tbl" and "row_ok row" and "jr_job_id row = snd key"
  shows "table_ok (AList.update key row tbl)"
  using assms unfolding table_ok_def by (simp add: store_simps del: split_paired_All)

lemma update_row_ok:
  assumes "table_ok tbl" and "\<And>row. jr_job_id (change row) = jr_job_id row"
  shows "table_ok (snd (update_row cond change key tbl))"
proof (cases rule: update_row_cases [of cond change key tbl])
  case (moved row)
  with table_okD [OF assms(1)] assms show ?thesis by (simp add: table_ok_update)
qed (use assms(1) in simp)

text \<open>One statement on one row: the phase of its key follows the rule, every other key is left alone.\<close>

lemma update_row_simulates:
  assumes "table_ok tbl" and "(rows, tbl') = one_row key (as_jobs (update_row cond change key tbl))"
    and "\<And>row. map_of tbl key = Some row \<Longrightarrow> cond row \<Longrightarrow> row_ok row \<Longrightarrow> row_ok (change row)
      \<Longrightarrow> lease_next key (phase_of (Some row)) (call, [(key, row_to_job (change row))]) = Some (phase_of (Some (change row)))"
  shows "lease_next k (phase_of (map_of tbl k)) (call, rows) = Some (phase_of (map_of tbl' k))"
proof (cases rule: update_row_cases [of cond change key tbl])
  case (kept res)
  with assms(2) have "rows = []" "tbl' = tbl" by (auto simp: one_row_def as_jobs_def)
  then show ?thesis by simp
next
  case (moved row)
  with assms(2) have eq: "rows = [(key, row_to_job (change row))]" "tbl' = AList.update key (change row) tbl"
    by (auto simp: one_row_def as_jobs_def)
  have "row_ok row" using table_okD [OF assms(1) moved(1)] by blast
  with moved assms(3) eq show ?thesis by (cases "k = key") (simp_all add: store_simps)
qed

lemma row_ok_leased:
  "row_ok row \<Longrightarrow> jr_status row = JobLeased \<Longrightarrow> \<exists>h d. jr_lease_holder row = Some h \<and> jr_lease_expires_at row = Some d"
  by (auto simp: row_ok_def lease_check_def)

lemma holds_job_phase:
  "holds_job h n row \<Longrightarrow> row_ok row \<Longrightarrow> phase_of (Some row) = Held h n (the (jr_lease_expires_at row))"
  by (simp add: holds_job_def phase_of_def)

lemma lapsed_simps [simp]:
  "jr_job_id (lapse now cap row) = jr_job_id row" "jr_originator (lapse now cap row) = jr_originator row"
  "jr_attempts (lapse now cap row) = jr_attempts row"
  by (simp_all add: lapse_def)

lemma fold_update_lookup:
  "distinct (map fst moved) \<Longrightarrow>
     map_of (fold (\<lambda>(key, row). AList.update key row) moved tbl) k
     = (case map_of moved k of None \<Rightarrow> map_of tbl k | Some row \<Rightarrow> Some row)"
proof (induction moved arbitrary: tbl)
  case (Cons e moved)
  obtain key row where e: "e = (key, row)" by (cases e)
  with Cons.prems have "map_of moved key = None" by (simp add: map_of_eq_None_iff)
  with Cons e show ?case by (simp add: store_simps split: option.splits)
qed simp

lemma fold_update_keys_ok: "keys_ok tbl \<Longrightarrow> keys_ok (fold (\<lambda>(key, row). AList.update key row) moved tbl)"
  by (induction moved arbitrary: tbl) auto

lemma due_rows_in:
  assumes "keys_ok tbl"
  shows "distinct (map fst (due_rows now limit tbl))"
    and "(k, row) \<in> set (due_rows now limit tbl) \<Longrightarrow> map_of tbl k = Some row \<and> jr_status row = JobLeased
      \<and> (\<exists>d. jr_lease_expires_at row = Some d \<and> d < now)"
proof -
  let ?P = "\<lambda>(_ :: job_key, row). jr_status row = JobLeased \<and> (case jr_lease_expires_at row of Some d \<Rightarrow> d < now | None \<Rightarrow> False)"
  let ?s = "sort_key (\<lambda>(_, row). the (jr_lease_expires_at row)) (filter ?P tbl)"
  have "distinct (map fst (filter ?P tbl))" using keys_ok_filter [OF assms] by (simp add: keys_ok_def)
  then have "distinct (map fst ?s)"
    by (metis (no_types, lifting) distinct_map distinct_sort set_sort)
  then show "distinct (map fst (due_rows now limit tbl))"
    unfolding due_rows_def by (simp add: distinct_take take_map [symmetric])
  assume "(k, row) \<in> set (due_rows now limit tbl)"
  then have "(k, row) \<in> set (filter ?P tbl)" unfolding due_rows_def by (auto dest: in_set_takeD)
  with keys_ok_mem [OF assms] show "map_of tbl k = Some row \<and> jr_status row = JobLeased
      \<and> (\<exists>d. jr_lease_expires_at row = Some d \<and> d < now)" by (auto split: option.splits)
qed

text \<open>What the sweep moves, as a function of the table.\<close>

definition swept :: "(community_id \<Rightarrow> string option) \<Rightarrow> int \<Rightarrow> int \<Rightarrow> nat \<Rightarrow> jobs_table \<Rightarrow> jobs_table" where
  "swept hosts now cap limit tbl = map (\<lambda>(key, row). (key, lapse now cap row))
     (filter (\<lambda>((community, _), _). hosts community \<noteq> None) (due_rows now limit tbl))"

lemma map_of_distinct_mem: "distinct (map fst xs) \<Longrightarrow> map_of xs k = Some v \<longleftrightarrow> (k, v) \<in> set xs"
  by (auto dest: map_of_SomeD)

lemma swept_in:
  assumes "keys_ok tbl"
  shows "distinct (map fst (swept hosts now cap limit tbl))"
    and "map_of (swept hosts now cap limit tbl) k = Some row' \<Longrightarrow>
      \<exists>row d. map_of tbl k = Some row \<and> row' = lapse now cap row \<and> jr_status row = JobLeased
        \<and> jr_lease_expires_at row = Some d \<and> d < now"
proof -
  let ?due = "filter (\<lambda>((community, _), _). hosts community \<noteq> None) (due_rows now limit tbl)"
  have d: "distinct (map fst ?due)" using due_rows_in(1) [OF assms] by (rule distinct_map_filter)
  have "map fst (swept hosts now cap limit tbl) = map fst ?due" by (simp add: swept_def case_prod_unfold)
  with d show dist: "distinct (map fst (swept hosts now cap limit tbl))" by metis
  assume "map_of (swept hosts now cap limit tbl) k = Some row'"
  then have "(k, row') \<in> set (swept hosts now cap limit tbl)" by (rule map_of_SomeD)
  then obtain row where "(k, row) \<in> set (due_rows now limit tbl)" "row' = lapse now cap row"
    unfolding swept_def by auto
  with due_rows_in(2) [OF assms] show "\<exists>row d. map_of tbl k = Some row \<and> row' = lapse now cap row \<and> jr_status row = JobLeased
        \<and> jr_lease_expires_at row = Some d \<and> d < now" by blast
qed

lemma expire_eq:
  "expire_due_leases hosts now cap limit tbl =
     (if list_all (\<lambda>(_, row). row_ok row) (swept hosts now cap limit tbl)
      then (Inr (map (tenant_row hosts) (swept hosts now cap limit tbl)),
            fold (\<lambda>(key, row). AList.update key row) (swept hosts now cap limit tbl) tbl)
      else (Inl CheckViolation, tbl))"
  by (simp add: expire_due_leases_def swept_def Let_def)

lemma swept_rows:
  assumes "table_ok tbl"
  shows "map (\<lambda>r. ((tj_community_id r, jr_job_id (tj_job r)), tj_job r)) (map (tenant_row hosts) (swept hosts now cap limit tbl))
    = map (\<lambda>(key, row). (key, row_to_job row)) (swept hosts now cap limit tbl)"
proof -
  have "keys_ok tbl" using assms by (simp add: table_ok_def)
  have "jr_job_id row' = snd key" if "(key, row') \<in> set (swept hosts now cap limit tbl)" for key row'
  proof -
    from that obtain row where "map_of tbl key = Some row" "row' = lapse now cap row"
      using swept_in [OF \<open>keys_ok tbl\<close>, of hosts now cap limit] map_of_distinct_mem by metis
    with table_okD [OF assms] show ?thesis by simp
  qed
  then show ?thesis by (auto simp: tenant_row_def)
qed

lemma expire_simulates:
  assumes "table_ok tbl" and "store_perform (DoExpire hosts now cap limit) tbl = (rows, tbl')"
  shows "table_ok tbl' \<and> lease_next k (phase_of (map_of tbl k)) (DoExpire hosts now cap limit, rows) = Some (phase_of (map_of tbl' k))"
proof (cases "list_all (\<lambda>(_, row). row_ok row) (swept hosts now cap limit tbl)")
  case False
  with assms show ?thesis by (simp add: expire_eq)
next
  case True
  have keys: "keys_ok tbl" using assms(1) by (simp add: table_ok_def)
  note in_tbl = swept_in [OF keys, of hosts now cap limit]
  have rows: "rows = map (\<lambda>(key, row). (key, row_to_job row)) (swept hosts now cap limit tbl)"
    and tbl': "tbl' = fold (\<lambda>(key, row). AList.update key row) (swept hosts now cap limit tbl) tbl"
    using assms(2) True swept_rows [OF assms(1), of hosts now cap limit] by (simp_all add: expire_eq del: map_map)
  have look: "map_of tbl' k = (case map_of (swept hosts now cap limit tbl) k of None \<Rightarrow> map_of tbl k | Some row \<Rightarrow> Some row)" for k
    unfolding tbl' by (rule fold_update_lookup [OF in_tbl(1)])
  have "row_ok row \<and> jr_job_id row = snd k" if "map_of tbl' k = Some row" for k row
  proof (cases "map_of (swept hosts now cap limit tbl) k")
    case None
    with that look table_okD [OF assms(1)] show ?thesis by simp
  next
    case (Some r)
    with True have "row_ok r" by (auto simp: list_all_iff dest: map_of_SomeD)
    moreover from in_tbl(2) [OF Some] obtain old where old: "map_of tbl k = Some old" "r = lapse now cap old" by blast
    with table_okD [OF assms(1) old(1)] have "jr_job_id r = snd k" by simp
    ultimately show ?thesis using that look [of k] Some by simp
  qed
  moreover have "keys_ok tbl'" unfolding tbl' by (rule fold_update_keys_ok [OF keys])
  ultimately have "table_ok tbl'" unfolding table_ok_def by blast
  moreover have "lease_next k (phase_of (map_of tbl k)) (DoExpire hosts now cap limit, rows) = Some (phase_of (map_of tbl' k))"
  proof (cases "map_of (swept hosts now cap limit tbl) k")
    case None
    with look [of k] show ?thesis by (simp add: rows map_of_map)
  next
    case (Some r)
    from in_tbl(2) [OF this] obtain row d where row: "map_of tbl k = Some row" "r = lapse now cap row"
      "jr_status row = JobLeased" "jr_lease_expires_at row = Some d" "d < now" by blast
    with Some look [of k] show ?thesis by (simp add: rows map_of_map phase_of_def lapse_def)
  qed
  ultimately show ?thesis by blast
qed


lemma insert_job_cases:
  obtains (kept) res where "insert_job now c job tbl = (res, tbl)" "res = Inr None \<or> res = Inl CheckViolation"
  | (moved) "map_of tbl (c, nj_job_id job) = None" "row_ok (new_row now job)"
      "insert_job now c job tbl = (Inr (Some (row_to_job (new_row now job))),
         AList.update (c, nj_job_id job) (new_row now job) tbl)"
  by (cases "row_ok (new_row now job)"; cases "map_of tbl (c, nj_job_id job)") (auto simp: insert_job_def Let_def)

lemma one_row_ok: "table_ok (snd (update_row cond change key tbl)) \<Longrightarrow>
    table_ok (snd (one_row key (as_jobs (update_row cond change key tbl))))"
  by (simp add: one_row_def as_jobs_def case_prod_unfold)

lemma insert_simulates:
  assumes "table_ok tbl" and "store_perform (DoInsert now c job) tbl = (rows, tbl')"
  shows "table_ok tbl' \<and> lease_next k (phase_of (map_of tbl k)) (DoInsert now c job, rows) = Some (phase_of (map_of tbl' k))"
proof (cases rule: insert_job_cases [of now c job tbl])
  case (kept res)
  with assms show ?thesis by (auto simp: one_row_def)
next
  case moved
  with assms(2) have eq: "rows = [((c, nj_job_id job), row_to_job (new_row now job))]"
    "tbl' = AList.update (c, nj_job_id job) (new_row now job) tbl"
    by (auto simp: one_row_def)
  have "jr_job_id (new_row now job) = nj_job_id job" by (simp add: new_row_def)
  with moved eq show ?thesis
    using table_ok_update [OF assms(1) moved(2), of "(c, nj_job_id job)"]
    by (cases "k = (c, nj_job_id job)") (simp_all add: store_simps phase_of_def new_row_def)
qed

lemma claim_simulates:
  assumes "table_ok tbl" and "store_perform (DoClaim c j h cap now expires) tbl = (rows, tbl')"
  shows "lease_next k (phase_of (map_of tbl k)) (DoClaim c j h cap now expires, rows) = Some (phase_of (map_of tbl' k))"
proof (rule update_row_simulates [OF assms(1)])
  show "(rows, tbl') = one_row (c, j) (as_jobs (update_row
     (\<lambda>row. jr_attempts row < cap
        \<and> (jr_status row = JobOpen
           \<or> jr_status row = JobLeased \<and> (case jr_lease_expires_at row of Some d \<Rightarrow> d < now | None \<Rightarrow> False)))
     (\<lambda>row. row\<lparr>jr_status := JobLeased, jr_lease_holder := Some h, jr_lease_expires_at := Some expires,
                jr_attempts := jr_attempts row + 1, jr_updated_at := now\<rparr>)
     (c, j) tbl))"
    using assms(2) by (simp add: claim_job_def)
qed (auto simp: phase_of_def split: option.splits)

lemma held_simulates:
  assumes "table_ok tbl" and "(rows, tbl') = one_row key (as_jobs (update_row cond change key tbl))"
    and "\<And>row. cond row \<Longrightarrow> holds_job h n row"
    and "\<And>row d. cond row \<Longrightarrow> holds_job h n row \<Longrightarrow> jr_lease_expires_at row = Some d \<Longrightarrow> row_ok (change row)
      \<Longrightarrow> lease_next key (Held h n d) (call, [(key, row_to_job (change row))]) = Some (phase_of (Some (change row)))"
  shows "lease_next k (phase_of (map_of tbl k)) (call, rows) = Some (phase_of (map_of tbl' k))"
proof (rule update_row_simulates [OF assms(1,2)])
  fix row
  assume row: "map_of tbl key = Some row" "cond row" "row_ok row" "row_ok (change row)"
  note held = assms(3) [OF row(2)]
  then obtain d where d: "jr_lease_expires_at row = Some d"
    using row_ok_leased [OF row(3)] by (auto simp: holds_job_def)
  with assms(4) [OF row(2) held d row(4)] holds_job_phase [OF held row(3)]
  show "lease_next key (phase_of (Some row)) (call, [(key, row_to_job (change row))]) = Some (phase_of (Some (change row)))"
    by simp
qed

lemma heartbeat_simulates:
  assumes "table_ok tbl" and "store_perform (DoHeartbeat c j h n now expires) tbl = (rows, tbl')"
  shows "lease_next k (phase_of (map_of tbl k)) (DoHeartbeat c j h n now expires, rows) = Some (phase_of (map_of tbl' k))"
  by (rule held_simulates [OF assms(1) assms(2) [symmetric, simplified store_perform.simps heartbeat_job_def]])
    (auto simp: phase_of_def holds_job_def)

lemma checkpoint_simulates:
  assumes "table_ok tbl" and "store_perform (DoCheckpoint c ck) tbl = (rows, tbl')"
  shows "lease_next k (phase_of (map_of tbl k)) (DoCheckpoint c ck, rows) = Some (phase_of (map_of tbl' k))"
  by (rule held_simulates [OF assms(1) assms(2) [symmetric, simplified store_perform.simps checkpoint_job_def]])
    (auto simp: phase_of_def holds_job_def not_expired_def)

lemma finish_simulates:
  assumes "table_ok tbl" and "store_perform (DoFinish c oc) tbl = (rows, tbl')"
  shows "lease_next k (phase_of (map_of tbl k)) (DoFinish c oc, rows) = Some (phase_of (map_of tbl' k))"
  by (rule held_simulates [OF assms(1) assms(2) [symmetric, simplified store_perform.simps finish_job_def Let_def]])
    (auto simp: phase_of_def holds_job_def row_ok_def lease_check_def)

text \<open>Stamps and escalations change no phase.\<close>

lemma phase_of_silent [simp]:
  "phase_of (Some (row\<lparr>jr_head_at := x\<rparr>)) = phase_of (Some row)"
  "phase_of (Some (row\<lparr>jr_escalated_ask := a, jr_updated_at := t\<rparr>)) = phase_of (Some row)"
  by (cases "jr_status row"; simp add: phase_of_def)+

lemma silent_simulates:
  assumes "table_ok tbl" and "\<And>row. jr_job_id (change row) = jr_job_id row"
    and "\<And>row. phase_of (Some (change row)) = phase_of (Some row)"
  shows "table_ok (snd (update_row cond change key tbl))
    \<and> phase_of (map_of (snd (update_row cond change key tbl)) k) = phase_of (map_of tbl k)"
proof (cases rule: update_row_cases [of cond change key tbl])
  case (kept res)
  with assms(1) show ?thesis by simp
next
  case (moved row)
  with assms(3) [of row] update_row_ok [OF assms(1,2), of cond key] show ?thesis by (simp add: store_simps)
qed

lemma store_simulates:
  assumes "table_ok tbl" and "store_perform call tbl = (rows, tbl')"
  shows "table_ok tbl' \<and> lease_next k (phase_of (map_of tbl k)) (call, rows) = Some (phase_of (map_of tbl' k))"
proof (cases call)
  case (DoInsert now c job)
  with insert_simulates [OF assms(1)] assms(2) show ?thesis by simp
next
  case (DoClaim c j h cap now expires)
  then have "tbl' = snd (store_perform (DoClaim c j h cap now expires) tbl)" using assms(2) by simp
  then have "table_ok tbl'"
    by (simp add: claim_job_def) (intro one_row_ok update_row_ok assms(1); simp)
  with DoClaim claim_simulates [OF assms(1)] assms(2) show ?thesis by simp
next
  case (DoHeartbeat c j h n now expires)
  then have "tbl' = snd (store_perform (DoHeartbeat c j h n now expires) tbl)" using assms(2) by simp
  then have "table_ok tbl'"
    by (simp add: heartbeat_job_def) (intro one_row_ok update_row_ok assms(1); simp)
  with DoHeartbeat heartbeat_simulates [OF assms(1)] assms(2) show ?thesis by simp
next
  case (DoCheckpoint c ck)
  then have "tbl' = snd (store_perform (DoCheckpoint c ck) tbl)" using assms(2) by simp
  then have "table_ok tbl'"
    by (simp add: checkpoint_job_def) (intro one_row_ok update_row_ok assms(1); simp)
  with DoCheckpoint checkpoint_simulates [OF assms(1)] assms(2) show ?thesis by simp
next
  case (DoFinish c oc)
  then have "tbl' = snd (store_perform (DoFinish c oc) tbl)" using assms(2) by simp
  then have "table_ok tbl'"
    by (simp add: finish_job_def Let_def) (intro one_row_ok update_row_ok assms(1); simp)
  with DoFinish finish_simulates [OF assms(1)] assms(2) show ?thesis by simp
next
  case (DoExpire hosts now cap limit)
  with expire_simulates [OF assms(1)] assms(2) show ?thesis by simp
next
  case (DoStamp c j now)
  with assms silent_simulates [OF assms(1), of "\<lambda>row. row\<lparr>jr_head_at := max (jr_head_at row + 1) now\<rparr>" "\<lambda>_. True" "(c, j)" k]
  show ?thesis by (auto simp: stamp_head_def)
next
  case (DoRecord now c j ask)
  with assms silent_simulates [OF assms(1), of "\<lambda>row. row\<lparr>jr_escalated_ask := Some ask, jr_updated_at := now\<rparr>"
      "\<lambda>row. jr_escalated_ask row = None" "(c, j)" k]
  show ?thesis by (auto simp: record_escalation_def)
next
  case (DoClear now c j)
  with assms silent_simulates [OF assms(1), of "\<lambda>row. row\<lparr>jr_escalated_ask := None, jr_updated_at := now\<rparr>"
      "\<lambda>_. True" "(c, j)" k]
  show ?thesis by (auto simp: clear_escalation_def)
qed

end
