(* ===== verification/Job_Queue.thy ===== *)
theory Job_Queue
  imports Job_Timers Job_Lease
begin

text \<open>
  The queue as a whole: what the broker and the timers keep of every row, in any order of
  requests and ticks, under any faults of the database.
\<close>

section \<open>What holds of a row\<close>

definition hex_id :: "string \<Rightarrow> bool" where
  "hex_id s \<longleftrightarrow> length s = 64 \<and> list_all is_lower_hex s"

definition i64 :: "int \<Rightarrow> bool" where
  "i64 n \<longleftrightarrow> - 9223372036854775808 \<le> n \<and> n \<le> 9223372036854775807"

definition stamp_ok :: "string \<Rightarrow> bool" where
  "stamp_ok s \<longleftrightarrow> trim s = s \<and> s \<noteq> [] \<and> chars_count s \<le> MAX_JOB_STAMP"

definition row_text :: "JobRow \<Rightarrow> bool" where
  "row_text row \<longleftrightarrow> hex_id (jr_job_id row) \<and> hex_id (jr_employee row) \<and> hex_id (jr_filed_by row) \<and> hex_id (jr_originator row)
     \<and> pred_option hex_id (jr_thread row) \<and> pred_option hex_id (jr_lease_holder row)
     \<and> pred_option hex_id (jr_checkpoint_event row) \<and> pred_option hex_id (jr_outcome_event row)
     \<and> pred_option (\<lambda>t. validate_task_id t = Inr t) (jr_task_id row)
     \<and> instruction (jr_instruction row) = Inr (jr_instruction row)
     \<and> pred_option (\<lambda>d. detail d = Inr d) (jr_result row) \<and> pred_option (\<lambda>d. detail d = Inr d) (jr_failure row)
     \<and> pred_option stamp_ok (jr_provider row) \<and> pred_option stamp_ok (jr_model row)
     \<and> pred_option (\<lambda>c. validate_checkpoint c = Inr c) (jr_checkpoint row)
     \<and> i64 (jr_checkpoint_seq row) \<and> pred_option i64 (jr_lease_expires_at row)"

text \<open>The life of a job: its attempts, who may hold it, and what an end leaves behind.\<close>

definition row_life :: "JobRow \<Rightarrow> bool" where
  "row_life row \<longleftrightarrow> 0 \<le> jr_attempts row \<and> jr_attempts row \<le> MAX_JOB_ATTEMPTS
     \<and> (jr_status row = JobOpen \<longrightarrow> jr_attempts row < MAX_JOB_ATTEMPTS)
     \<and> (jr_status row = JobLeased \<longrightarrow> 1 \<le> jr_attempts row \<and> jr_lease_holder row = Some (jr_originator row))
     \<and> (jr_status row = JobAbandoned \<longrightarrow> jr_attempts row = MAX_JOB_ATTEMPTS \<and> jr_lease_holder row = None)
     \<and> (jr_status row \<in> {JobDone, JobFailed} \<longrightarrow> 1 \<le> jr_attempts row \<and> jr_lease_holder row = Some (jr_originator row)
          \<and> jr_outcome_event row \<noteq> None)"

definition row_inv :: "jobs_row \<Rightarrow> bool" where
  "row_inv row \<longleftrightarrow> row_text (row_to_job row) \<and> row_life (row_to_job row) \<and> 0 \<le> jr_head_at row"

definition jobs_inv :: "jobs_table \<Rightarrow> bool" where
  "jobs_inv tbl \<longleftrightarrow> table_ok tbl \<and> (\<forall>k row. map_of tbl k = Some row \<longrightarrow> row_inv row)"

lemma jobs_invD: "jobs_inv tbl \<Longrightarrow> map_of tbl k = Some row \<Longrightarrow> row_inv row \<and> row_ok row \<and> jr_job_id row = snd k"
  unfolding jobs_inv_def using table_okD by blast

section \<open>Statements that keep it\<close>

text \<open>
  The statements the broker and the timers send, by what they know of the arguments; \<open>staff\<close>
  are the keys of employees.
\<close>

definition new_job_ok :: "NewJob \<Rightarrow> bool" where
  "new_job_ok job \<longleftrightarrow> hex_id (nj_job_id job) \<and> hex_id (nj_employee job) \<and> hex_id (nj_filed_by job)
     \<and> hex_id (nj_originator job) \<and> pred_option hex_id (nj_thread job)
     \<and> pred_option (\<lambda>t. validate_task_id t = Inr t) (nj_task_id job)
     \<and> instruction (nj_instruction job) = Inr (nj_instruction job)"

fun good_call :: "(community_id \<times> string) set \<Rightarrow> jobs_table \<Rightarrow> store_call \<Rightarrow> bool" where
  "good_call staff tbl (DoInsert now c job) \<longleftrightarrow> new_job_ok job
     \<and> ((c, nj_originator job) \<notin> staff
        \<or> (\<exists>k row. map_of tbl k = Some row \<and> fst k = c \<and> nj_originator job = jr_originator row))"
| "good_call staff tbl (DoClaim c j h cap now expires) \<longleftrightarrow> cap = MAX_JOB_ATTEMPTS \<and> i64 expires
     \<and> (\<forall>row. map_of tbl (c, j) = Some row \<longrightarrow> jr_originator row = h)"
| "good_call staff tbl (DoHeartbeat c j h n now expires) \<longleftrightarrow> i64 expires"
| "good_call staff tbl (DoCheckpoint c ck) \<longleftrightarrow> i64 (ck_sequence ck) \<and> i64 (ck_lease_expires_at ck) \<and> hex_id (ck_event ck)
     \<and> validate_checkpoint (ck_checkpoint ck) = Inr (ck_checkpoint ck)"
| "good_call staff tbl (DoFinish c oc) \<longleftrightarrow> fj_status oc \<in> {JobDone, JobFailed} \<and> detail (fj_detail oc) = Inr (fj_detail oc)
     \<and> pred_option stamp_ok (fj_provider oc) \<and> pred_option stamp_ok (fj_model oc)
     \<and> (\<exists>e. fj_outcome_event oc = Some e \<and> hex_id e)"
| "good_call staff tbl (DoExpire hosts now cap limit) \<longleftrightarrow> cap = MAX_JOB_ATTEMPTS"
| "good_call staff tbl _ \<longleftrightarrow> True"

lemma row_to_job_more [simp]:
  "jr_filed_by (row_to_job row) = jr_filed_by row" "jr_result (row_to_job row) = jr_result row"
  "jr_failure (row_to_job row) = jr_failure row" "jr_provider (row_to_job row) = jr_provider row"
  "jr_model (row_to_job row) = jr_model row" "jr_checkpoint_seq (row_to_job row) = jr_checkpoint_seq row"
  "jr_checkpoint (row_to_job row) = jr_checkpoint row" "jr_artifacts (row_to_job row) = jr_artifacts row"
  by (simp_all add: row_to_job_def JobRow.truncate_def)

lemma jobs_inv_update_row:
  assumes "jobs_inv tbl" and "\<And>row. jr_job_id (change row) = jr_job_id row"
    and "\<And>row. map_of tbl key = Some row \<Longrightarrow> row_inv row \<Longrightarrow> cond row \<Longrightarrow> row_inv (change row)"
  shows "jobs_inv (snd (update_row cond change key tbl))"
proof (cases rule: update_row_cases [of cond change key tbl])
  case (kept res)
  with assms(1) show ?thesis by simp
next
  case (moved row)
  have "table_ok (snd (update_row cond change key tbl))"
    using assms(1,2) by (intro update_row_ok) (simp_all add: jobs_inv_def)
  moreover have "row_inv (change row)" using assms(3) moved jobs_invD [OF assms(1) moved(1)] by blast
  ultimately show ?thesis using moved assms(1) unfolding jobs_inv_def by (simp add: store_simps del: split_paired_All)
qed

lemma inv_simps: "row_inv row \<longleftrightarrow> row_text (row_to_job row) \<and> row_life (row_to_job row) \<and> 0 \<le> jr_head_at row"
  by (simp add: row_inv_def)

lemma snd_one_row [simp]: "snd (one_row key r) = snd r"
  by (simp add: one_row_def case_prod_unfold)

lemma snd_as_jobs [simp]: "snd (as_jobs r) = snd r"
  by (simp add: as_jobs_def)

lemma insert_inv:
  assumes "jobs_inv tbl" and "new_job_ok job"
  shows "jobs_inv (snd (insert_job now c job tbl))"
proof (cases rule: insert_job_cases [of now c job tbl])
  case moved
  have "row_inv (new_row now job)" using assms(2)
    by (simp add: inv_simps new_row_def new_job_ok_def row_text_def row_life_def MAX_JOB_ATTEMPTS_def i64_def)
  moreover have "table_ok (AList.update (c, nj_job_id job) (new_row now job) tbl)"
    using assms(1) moved(2) by (intro table_ok_update) (simp_all add: jobs_inv_def new_row_def)
  ultimately show ?thesis using moved assms(1) unfolding jobs_inv_def by (simp add: store_simps del: split_paired_All)
qed (use assms(1) in simp)

lemma lapse_inv: "row_inv row \<Longrightarrow> row_ok row \<Longrightarrow> jr_status row = JobLeased \<Longrightarrow>
    row_inv (lapse now MAX_JOB_ATTEMPTS row) \<and> row_ok (lapse now MAX_JOB_ATTEMPTS row)"
  by (auto simp: inv_simps lapse_def row_text_def row_life_def row_ok_def shape_check_def opt_octets_def lease_check_def
      checkpoint_check_def delivery_check_def)

lemma sweep_inv:
  assumes "jobs_inv tbl"
  shows "jobs_inv (snd (expire_due_leases hosts now MAX_JOB_ATTEMPTS limit tbl))"
    and "\<exists>rows. fst (expire_due_leases hosts now MAX_JOB_ATTEMPTS limit tbl) = Inr rows"
proof -
  let ?S = "swept hosts now MAX_JOB_ATTEMPTS limit tbl"
  have keys: "keys_ok tbl" using assms by (simp add: jobs_inv_def table_ok_def)
  note in_tbl = swept_in [OF keys, of hosts now MAX_JOB_ATTEMPTS limit]
  have S: "row_inv row \<and> row_ok row" if "map_of ?S k = Some row" for k row
    using in_tbl(2) [OF that] lapse_inv jobs_invD [OF assms] by blast
  then have ok: "list_all (\<lambda>(_, row). row_ok row) ?S"
    using map_of_distinct_mem [OF in_tbl(1)] by (auto simp: list_all_iff simp del: split_paired_All)
  then show "\<exists>rows. fst (expire_due_leases hosts now MAX_JOB_ATTEMPTS limit tbl) = Inr rows" by (simp add: expire_eq)
  have "table_ok (snd (expire_due_leases hosts now MAX_JOB_ATTEMPTS limit tbl))"
    using expire_simulates [of tbl hosts now MAX_JOB_ATTEMPTS limit] assms
    by (simp add: jobs_inv_def case_prod_unfold)
  moreover have "row_inv row" if "map_of (snd (expire_due_leases hosts now MAX_JOB_ATTEMPTS limit tbl)) k = Some row" for k row
  proof (cases "map_of ?S k")
    case None
    with that ok fold_update_lookup [OF in_tbl(1), of tbl k] jobs_invD [OF assms, of k row]
    show ?thesis by (simp add: expire_eq)
  next
    case (Some r)
    with that ok S [OF Some] fold_update_lookup [OF in_tbl(1), of tbl k] show ?thesis by (simp add: expire_eq)
  qed
  ultimately show "jobs_inv (snd (expire_due_leases hosts now MAX_JOB_ATTEMPTS limit tbl))" unfolding jobs_inv_def by blast
qed

lemma good_call_inv:
  assumes "jobs_inv tbl" and "good_call staff tbl call"
  shows "jobs_inv (snd (store_perform call tbl))"
proof (cases call)
  case (DoInsert now c job)
  with assms insert_inv show ?thesis by simp
next
  case (DoClaim c j h cap now expires)
  have "jobs_inv (snd (claim_job c j h cap now expires tbl))"
    unfolding claim_job_def snd_as_jobs
    by (rule jobs_inv_update_row [OF assms(1)])
      (use assms(2) DoClaim in \<open>auto simp: inv_simps row_text_def row_life_def split: JobStatus.splits\<close>)
  with DoClaim show ?thesis by simp
next
  case (DoHeartbeat c j h n now expires)
  have "jobs_inv (snd (heartbeat_job c j h n now expires tbl))"
    unfolding heartbeat_job_def snd_as_jobs
    by (rule jobs_inv_update_row [OF assms(1)])
      (use assms(2) DoHeartbeat in \<open>auto simp: inv_simps row_text_def row_life_def holds_job_def\<close>)
  with DoHeartbeat show ?thesis by simp
next
  case (DoCheckpoint c ck)
  have "jobs_inv (snd (checkpoint_job c ck tbl))"
    unfolding checkpoint_job_def snd_as_jobs
    by (rule jobs_inv_update_row [OF assms(1)])
      (use assms(2) DoCheckpoint in \<open>auto simp: inv_simps row_text_def row_life_def holds_job_def\<close>)
  with DoCheckpoint show ?thesis by simp
next
  case (DoFinish c oc)
  have "jobs_inv (snd (finish_job c oc tbl))"
    unfolding finish_job_def Let_def snd_as_jobs
    by (rule jobs_inv_update_row [OF assms(1)])
      (use assms(2) DoFinish in \<open>auto simp: inv_simps row_text_def row_life_def holds_job_def\<close>)
  with DoFinish show ?thesis by simp
next
  case (DoExpire hosts now cap limit)
  with assms sweep_inv(1) show ?thesis by (simp add: case_prod_unfold)
next
  case (DoStamp c j now)
  have "jobs_inv (snd (stamp_head c j now tbl))"
    unfolding stamp_head_def snd_map_prod id_apply
    by (rule jobs_inv_update_row [OF assms(1)]) (auto simp: inv_simps row_text_def row_life_def)
  with DoStamp show ?thesis by simp
next
  case (DoRecord now c j ask)
  have "jobs_inv (snd (record_escalation now c j ask tbl))"
    unfolding record_escalation_def snd_map_prod id_apply
    by (rule jobs_inv_update_row [OF assms(1)]) (auto simp: inv_simps row_text_def row_life_def)
  with DoRecord show ?thesis by simp
next
  case (DoClear now c j)
  have "jobs_inv (snd (clear_escalation now c j tbl))"
    unfolding clear_escalation_def snd_map_prod id_apply
    by (rule jobs_inv_update_row [OF assms(1)]) (auto simp: inv_simps row_text_def row_life_def)
  with DoClear show ?thesis by simp
qed

section \<open>The broker sends only such statements\<close>

inductive job_move :: "(community_id \<times> string) set \<Rightarrow> jobs_table \<Rightarrow> jobs_table \<Rightarrow> bool" for staff where
  "good_call staff tbl call \<Longrightarrow> job_move staff tbl (snd (store_perform call tbl))"

interpretation jm: invariant_machine "\<lambda>tbl. tbl = []" "job_move staff" jobs_inv for staff
proof
  show "tbl = [] \<Longrightarrow> jobs_inv tbl" for tbl by (simp add: jobs_inv_def)
  show "job_move staff tbl tbl' \<Longrightarrow> jobs_inv tbl \<Longrightarrow> jobs_inv tbl'" for tbl tbl'
    by (auto elim!: job_move.cases intro: good_call_inv)
qed

text \<open>
  The relay signs with the keys it is given (\<open>EventBuilder\<close> of the \<open>nostr\<close> crate): the event has
  the kind, content, time and tags it was built from, without a \<open>p\<close> tag that names its author.
\<close>

definition relay_sign_law :: "job_env \<Rightarrow> bool" where
  "relay_sign_law E \<longleftrightarrow> (\<forall>keys kind content tags t ev. je_sign E keys kind content tags t = Some ev \<longrightarrow>
     ev_kind ev = kind \<and> ev_content ev = content \<and> ev_created_at ev = t \<and> hex_id (ev_id ev)
     \<and> map tag_slice (ev_tags ev) = filter (\<lambda>sl. sl \<noteq> [''p'', ev_pubkey ev]) tags)"

text \<open>What a handler does, as a sequence of acts: statements, heads, and other events.\<close>

inductive job_act :: "(community_id \<times> string) set \<Rightarrow> job_env \<Rightarrow> job_state \<Rightarrow> job_state \<Rightarrow> bool" for staff E where
  sends: "good_call staff (js_jobs st) call \<Longrightarrow> job_act staff E st (st\<lparr>js_jobs := snd (store_perform call (js_jobs st))\<rparr>)"
| publishes: "job_act staff E st (publish_job_head E c j st)"
| stores: "ev_kind ev \<noteq> KIND_JOB_HEAD \<Longrightarrow> job_act staff E st (store_event E c ev st)"
| fans: "job_act staff E st (fan_out_event E c ev st)"

abbreviation job_moves :: "(community_id \<times> string) set \<Rightarrow> job_env \<Rightarrow> job_state \<Rightarrow> job_state \<Rightarrow> bool" where
  "job_moves staff E \<equiv> (job_act staff E)\<^sup>*\<^sup>*"

lemma stored_jobs [simp]:
  "js_jobs (store_event E c ev st) = js_jobs st" "js_jobs (fan_out_event E c ev st) = js_jobs st"
  by (simp_all add: store_event_def fan_out_event_def)

lemma publish_jobs: "js_jobs (publish_job_head E c j st) = js_jobs (snd (db_call E (''stamp '' @ j) (stamp_head c j (je_now E)) st))"
  by (simp add: publish_job_head_def split: prod.split sum.split option.split)

lemma act_table: "job_act staff E st st' \<Longrightarrow> (job_move staff)\<^sup>*\<^sup>* (js_jobs st) (js_jobs st')"
proof (induction rule: job_act.induct)
  case (publishes st c j)
  have "job_move staff (js_jobs st) (snd (store_perform (DoStamp c j (je_now E)) (js_jobs st)))" by (rule job_move.intros) simp
  then show ?case by (auto simp: publish_jobs db_call_def split: db_fault.split)
qed (auto intro: job_move.intros)

lemma acts_table: "job_moves staff E st st' \<Longrightarrow> (job_move staff)\<^sup>*\<^sup>* (js_jobs st) (js_jobs st')"
  by (induction rule: rtranclp_induct) (auto dest: act_table intro: rtranclp_trans)

lemma db_call_moves:
  assumes "good_call staff (js_jobs st) call" and "snd (statement (js_jobs st)) = snd (store_perform call (js_jobs st))"
  shows "job_moves staff E st (snd (db_call E label statement st))"
  using sends [OF assms(1)] assms(2) by (auto simp: db_call_def split: db_fault.splits)

lemma publish_moves: "job_moves staff E st (publish_job_head E c j st)"
  by (rule r_into_rtranclp) (rule publishes)

lemma then_publish: "job_moves staff E st st1 \<Longrightarrow> job_moves staff E st (publish_job_head E c j st1)"
  by (rule rtranclp_trans [OF _ publish_moves])

definition event_ok :: "nevent \<Rightarrow> bool" where
  "event_ok ev \<longleftrightarrow> hex_id (ev_id ev) \<and> hex_id (ev_pubkey ev)"

definition clock_ok :: "job_env \<Rightarrow> bool" where
  "clock_ok E \<longleftrightarrow> i64 (je_now E + JOB_LEASE_SECS)"

lemma hex64_id: "hex64 field v = Inr h \<Longrightarrow> hex_id h"
  using hex64_canonical by (simp add: hex_id_def)

lemma hex_id_hex: "hex_id s \<Longrightarrow> list_all is_ascii_hexdigit s"
  by (auto simp: hex_id_def list_all_iff is_lower_hex_def)

lemma hex_id_hex64: "hex_id s \<Longrightarrow> hex64 field s = Inr s"
  using hex_trim [OF hex_id_hex] lower_hex_fixed by (simp add: hex64_def hex_id_def hex_id_hex)

lemma hex32_id: "hex_id s \<Longrightarrow> hex32 s = Inr s"
  using hex_id_hex lower_hex_fixed by (simp add: hex32_def hex_id_def)

lemma optional_hex64_id: "optional_hex64 ev name = Inr v \<Longrightarrow> pred_option hex_id v"
  by (cases v) (auto simp: optional_hex64_def res_simps hex64_id)

lemma map_transpose_hex32: "pred_option hex_id v \<Longrightarrow> map_transpose hex32 v = Inr v"
  by (cases v) (simp_all add: hex32_id)

lemma instruction_canonical: "instruction c = Inr i \<Longrightarrow> instruction i = Inr i"
  by (auto simp: instruction_def Let_def split: if_splits)

lemma detail_canonical: "detail c = Inr d \<Longrightarrow> detail d = Inr d"
  by (auto simp: detail_def Let_def split: if_splits)

lemma stamp_canonical: "optional_stamp ev name = Inr v \<Longrightarrow> pred_option stamp_ok v"
  by (cases v) (auto simp: optional_stamp_def stamp_ok_def res_simps Let_def split: if_splits)

lemma task_id_canonical: "validate_task_id c = Inr t \<Longrightarrow> validate_task_id t = Inr t"
  by (auto simp: validate_task_id_def Let_def split: if_splits)

lemma checkpoint_canonical: "validate_checkpoint c = Inr c' \<Longrightarrow> validate_checkpoint c' = Inr c'"
  by (auto simp: validate_checkpoint_def split: if_splits)

lemma filing_facts:
  assumes "parse_job_filing ev = Inr filing"
  shows "hex_id (jf_employee_hex filing)" and "instruction (jf_instruction filing) = Inr (jf_instruction filing)"
    and "pred_option hex_id (jf_thread_hex filing)" and "pred_option hex_id (jf_parent_job_hex filing)"
    and "pred_option (\<lambda>t. validate_task_id t = Inr t) (jf_task_id filing)"
proof -
  obtain p task where fields: "hex64 ''p'' p = Inr (jf_employee_hex filing)" "instruction (ev_content ev) = Inr (jf_instruction filing)"
    "optional_hex64 ev ''e'' = Inr (jf_thread_hex filing)" "optional_hex64 ev ''job'' = Inr (jf_parent_job_hex filing)"
    "map_transpose validate_task_id task = Inr (jf_task_id filing)"
    using assms by (auto simp: parse_job_filing_def and_then_Inr)
  show "hex_id (jf_employee_hex filing)" by (rule hex64_id [OF fields(1)])
  show "instruction (jf_instruction filing) = Inr (jf_instruction filing)" by (rule instruction_canonical [OF fields(2)])
  show "pred_option hex_id (jf_thread_hex filing)" by (rule optional_hex64_id [OF fields(3)])
  show "pred_option hex_id (jf_parent_job_hex filing)" by (rule optional_hex64_id [OF fields(4)])
  show "pred_option (\<lambda>t. validate_task_id t = Inr t) (jf_task_id filing)"
    using fields(5) by (cases task) (auto simp: res_simps task_id_canonical)
qed

lemma filing_job_ok:
  assumes "filing_job E c ev tbl = Inr job" and "event_ok ev" and "jobs_inv tbl"
  shows "new_job_ok job" and "nj_job_id job = ev_id ev" and "nj_filed_by job = ev_pubkey ev"
    and "(je_employee E c (ev_pubkey ev) = None \<and> nj_originator job = ev_pubkey ev)
      \<or> (\<exists>k row. map_of tbl k = Some row \<and> fst k = c \<and> jr_employee row = ev_pubkey ev \<and> nj_originator job = jr_originator row)"
proof -
  obtain filing originator channel_id where f: "parse_job_filing ev = Inr filing"
    and o: "resolve_originator E c (ev_pubkey ev) (jf_parent_job_hex filing) tbl = Inr originator"
    and job: "job = \<lparr>nj_job_id = ev_id ev, nj_employee = jf_employee_hex filing, nj_filed_by = ev_pubkey ev,
      nj_originator = originator, nj_channel_id = channel_id, nj_thread = jf_thread_hex filing, nj_task_id = jf_task_id filing,
      nj_instruction = jf_instruction filing\<rparr>"
    using assms(1) by (auto simp: filing_job_def res_simps hex32_id filing_facts map_transpose_hex32 split: if_splits)
  from o have "(je_employee E c (ev_pubkey ev) = None \<and> originator = ev_pubkey ev)
      \<or> (\<exists>j row. map_of tbl (c, j) = Some row \<and> jr_employee row = ev_pubkey ev \<and> originator = jr_originator row)"
    by (force simp: resolve_originator_def db_read_def find_job_def res_simps split: if_splits)
  with job show orig: "(je_employee E c (ev_pubkey ev) = None \<and> nj_originator job = ev_pubkey ev)
      \<or> (\<exists>k row. map_of tbl k = Some row \<and> fst k = c \<and> jr_employee row = ev_pubkey ev \<and> nj_originator job = jr_originator row)"
    by force
  then have "hex_id (nj_originator job)"
    using assms(2) jobs_invD [OF assms(3)] by (auto simp: event_ok_def inv_simps row_text_def simp del: split_paired_Ex)
  then show "new_job_ok job" using filing_facts [OF f] assms(2) by (simp add: new_job_ok_def event_ok_def job)
  show "nj_job_id job = ev_id ev" "nj_filed_by job = ev_pubkey ev" by (simp_all add: job)
qed

lemma sent_moves:
  assumes "db_call E label statement st = (res, st1)" and "good_call staff (js_jobs st) call"
    and "snd (statement (js_jobs st)) = snd (store_perform call (js_jobs st))"
  shows "job_moves staff E st st1"
  using db_call_moves [of staff st call statement E label] assms by simp

lemma filing_moves:
  assumes "event_ok ev" and "jobs_inv (js_jobs st)" and "\<And>k. je_employee E c k = None \<Longrightarrow> (c, k) \<notin> staff"
  shows "job_moves staff E st (snd (handle_filing E c ev st))"
proof (cases "filing_job E c ev (js_jobs st)")
  case (Inr job)
  obtain res st1 where call: "db_call E ''insert'' (insert_job (je_now E) c job) st = (res, st1)" by fastforce
  have "job_moves staff E st st1"
    using filing_job_ok [OF Inr assms(1,2)] assms(3)
    by (intro sent_moves [OF call, of _ "DoInsert (je_now E) c job"]) (auto simp del: split_paired_Ex)
  with Inr call then_publish show ?thesis by (cases res) (simp_all add: handle_filing_def)
qed (simp add: handle_filing_def)

lemma claim_moves:
  assumes "clock_ok E"
  shows "job_moves staff E st (snd (handle_claim E c ev st))"
proof (cases "and_then (map_err (\<lambda>_. ''invalid job claim'') (parse_job_claim ev)) (\<lambda>claim.
     and_then (hex32 (jl_job_hex claim)) (\<lambda>job_id.
     and_then (load_job E c job_id (js_jobs st)) (\<lambda>job.
       if jr_originator job \<noteq> ev_pubkey ev then Inl ''belongs to another member'' else Inr job_id)))")
  case (Inr j)
  obtain res st1 where call: "db_call E ''claim'' (claim_job c j (ev_pubkey ev) MAX_JOB_ATTEMPTS (je_now E)
      (je_now E + JOB_LEASE_SECS)) st = (res, st1)" by fastforce
  have "\<forall>row. map_of (js_jobs st) (c, j) = Some row \<longrightarrow> jr_originator row = ev_pubkey ev"
    using Inr by (auto simp: res_simps load_job_def db_read_def find_job_def split: if_splits)
  then have "job_moves staff E st st1"
    using assms by (intro sent_moves [OF call, of _ "DoClaim c j (ev_pubkey ev) MAX_JOB_ATTEMPTS (je_now E) (je_now E + JOB_LEASE_SECS)"])
      (simp_all add: clock_ok_def)
  with Inr call then_publish show ?thesis by (cases res) (simp_all add: handle_claim_def)
qed (simp add: handle_claim_def)

lemma heartbeat_moves:
  assumes "clock_ok E"
  shows "job_moves staff E st (snd (handle_heartbeat E c ev st))"
proof (cases "and_then (map_err (\<lambda>_. ''invalid job heartbeat'') (parse_job_heartbeat ev)) (\<lambda>beat_for.
     map_ok (\<lambda>job_id. (job_id, jb_attempt beat_for)) (hex32 (jb_job_hex beat_for)))")
  case (Inr beat)
  obtain j n where beat: "beat = (j, n)" by (cases beat)
  obtain res st1 where call: "db_call E ''heartbeat'' (heartbeat_job c j (ev_pubkey ev) n (je_now E)
      (je_now E + JOB_LEASE_SECS)) st = (res, st1)" by fastforce
  have "job_moves staff E st st1"
    using assms by (intro sent_moves [OF call, of _ "DoHeartbeat c j (ev_pubkey ev) n (je_now E) (je_now E + JOB_LEASE_SECS)"])
      (simp_all add: clock_ok_def)
  with Inr beat call then_publish show ?thesis
    by (cases res) (simp_all add: handle_heartbeat_def split: option.split)
qed (simp add: handle_heartbeat_def)

lemma checkpoint_facts:
  assumes "parse_job_checkpoint json ev = Inr p"
  shows "i64 (jc_sequence p)" and "1 \<le> jc_sequence p" and "validate_checkpoint (jc_checkpoint p) = Inr (jc_checkpoint p)"
proof -
  from assms obtain v ck where "parse_i64 v = Some (jc_sequence p)" "validate_checkpoint ck = Inr (jc_checkpoint p)"
    and seq: "1 \<le> jc_sequence p"
    by (auto simp: parse_job_checkpoint_def parse_number_def res_simps split: if_splits)
  then show "i64 (jc_sequence p)" "validate_checkpoint (jc_checkpoint p) = Inr (jc_checkpoint p)"
    using parse_signed_range by (auto simp: i64_def checkpoint_canonical)
  from seq show "1 \<le> jc_sequence p" .
qed

lemma checkpoint_moves:
  assumes "clock_ok E" and "event_ok ev"
  shows "job_moves staff E st (snd (handle_checkpoint E c ev st))"
proof (cases "and_then (map_err (\<lambda>_. ''invalid job checkpoint'') (parse_job_checkpoint (je_json_checkpoint E) ev)) (\<lambda>parsed.
     map_ok (\<lambda>job_id. (job_id, parsed)) (hex32 (jc_job_hex parsed)))")
  case (Inr r)
  obtain j p where r: "r = (j, p)" by (cases r)
  then have p: "parse_job_checkpoint (je_json_checkpoint E) ev = Inr p" using Inr by (auto simp: res_simps)
  let ?ck = "\<lparr>ck_job_id = j, ck_holder = ev_pubkey ev, ck_attempt = jc_attempt p, ck_sequence = jc_sequence p,
    ck_checkpoint = jc_checkpoint p, ck_event = ev_id ev, ck_now = je_now E, ck_lease_expires_at = je_now E + JOB_LEASE_SECS\<rparr>"
  obtain res st1 where call: "db_call E ''checkpoint'' (checkpoint_job c ?ck) st = (res, st1)" by fastforce
  have moved: "job_moves staff E st st1"
    using assms checkpoint_facts [OF p]
    by (intro sent_moves [OF call, of _ "DoCheckpoint c ?ck"]) (simp_all add: clock_ok_def event_ok_def)
  with Inr r call then_publish [OF moved] show ?thesis
    by (cases res) (auto simp: handle_checkpoint_def split: option.split sum.split)
qed (simp add: handle_checkpoint_def)

lemma outcome_facts:
  assumes "parse_job_outcome json ev = Inr r"
  shows "jo_status r \<in> {JobDone, JobFailed}" and "detail (jo_detail r) = Inr (jo_detail r)"
    and "pred_option stamp_ok (jo_provider r)" and "pred_option stamp_ok (jo_model r)"
  using assms
  by (auto simp: parse_job_outcome_def and_then_Inr intro: detail_canonical stamp_canonical split: if_splits)

lemma outcome_checked_parse:
  "outcome_checked E c ev tbl = Inr (Some (j, r)) \<Longrightarrow> parse_job_outcome (je_json_artifact E) ev = Inr r"
  by (auto simp: outcome_checked_def and_then_Inr map_err_Inr split: if_splits)

lemma outcome_moves:
  assumes "event_ok ev"
  shows "job_moves staff E st (snd (handle_outcome E c ev st))"
proof (cases "outcome_checked E c ev (js_jobs st)")
  case (Inr r)
  show ?thesis
  proof (cases r)
    case (Some jr)
    obtain j p where jr: "jr = (j, p)" by (cases jr)
    note p = outcome_facts [OF outcome_checked_parse [OF Inr [unfolded Some jr]]]
    obtain res st1 where call: "db_call E ''finish'' (finish_job c (finished_job E ev j p)) st = (res, st1)" by fastforce
    have moved: "job_moves staff E st st1"
      using assms p by (intro sent_moves [OF call, of _ "DoFinish c (finished_job E ev j p)"])
        (simp_all add: finished_job_def event_ok_def)
    with Inr Some jr call then_publish [OF moved] show ?thesis
      by (cases res) (auto simp: handle_outcome_def split: option.split sum.split)
  qed (use Inr in \<open>simp add: handle_outcome_def\<close>)
qed (simp add: handle_outcome_def)

lemma job_event_moves:
  assumes "event_ok ev" and "clock_ok E" and "jobs_inv (js_jobs st)" and "\<And>k. je_employee E c k = None \<Longrightarrow> (c, k) \<notin> staff"
  shows "job_moves staff E st (snd (handle_job_event E c ev st))"
  using filing_moves [OF assms(1,3,4)] claim_moves [OF assms(2)] heartbeat_moves [OF assms(2)]
    checkpoint_moves [OF assms(2,1)] outcome_moves [OF assms(1)]
  by (simp add: handle_job_event_def Let_def)

lemma fold_publish_moves: "job_moves staff E st (fold (publish_reclaimed E) rows st)"
proof (induction rows arbitrary: st)
  case (Cons row rows)
  from rtranclp_trans [OF publish_moves Cons.IH] show ?case by (simp add: publish_reclaimed_def)
qed simp

lemma lease_tick_moves: "job_moves staff E st (snd (run_job_lease_tick E now st))"
proof -
  obtain res st1 where call: "db_call E ''expire'' (expire_due_leases (je_hosts E) now MAX_JOB_ATTEMPTS MAX_LEASES_PER_TICK) st
      = (res, st1)" by fastforce
  have "job_moves staff E st st1"
    by (rule sent_moves [OF call, of _ "DoExpire (je_hosts E) now MAX_JOB_ATTEMPTS MAX_LEASES_PER_TICK"])
      (simp_all add: case_prod_unfold)
  with rtranclp_trans [OF this fold_publish_moves] call show ?thesis by (cases res) (simp_all add: run_job_lease_tick_def)
qed

lemma file_stall_moves:
  assumes "ev_kind ev \<noteq> KIND_JOB_HEAD"
  shows "job_moves staff E st (snd (file_stall_ask E c j ev st))"
proof -
  obtain res st1 where call: "db_call E (''record '' @ j) (record_escalation (je_now E) c j (ev_id ev)) st = (res, st1)" by fastforce
  have moved: "job_moves staff E st st1"
    by (rule sent_moves [OF call, of _ "DoRecord (je_now E) c j (ev_id ev)"]) simp_all
  have "job_moves staff E st1 (release_escalation E c j st1)"
    unfolding release_escalation_def by (rule db_call_moves [of _ _ "DoClear (je_now E) c j"]) simp_all
  with moved have released: "job_moves staff E st (release_escalation E c j st1)" by (rule rtranclp_trans)
  have stored: "job_moves staff E st (store_event E c ev st1)"
    by (rule rtranclp.rtrancl_into_rtrancl [OF moved stores [OF assms]])
  have "job_moves staff E st (fan_out_event E c ev (store_event E c ev st1))"
    by (rule rtranclp.rtrancl_into_rtrancl [OF stored fans])
  with stored moved released call show ?thesis by (cases res) (auto simp: file_stall_ask_def split: ask_outcome.split)
qed

lemma stall_kind: "relay_sign_law E \<Longrightarrow> build_stall_ask E job = Inr ev \<Longrightarrow> ev_kind ev \<noteq> KIND_JOB_HEAD"
  by (auto simp: build_stall_ask_def relay_sign_law_def res_simps KIND_ASK_def KIND_JOB_HEAD_def split: if_splits option.splits)

lemma escalate_moves: "relay_sign_law E \<Longrightarrow> job_moves staff E st (snd (escalate E cand st))"
  using file_stall_moves stall_kind by (simp add: escalate_def split: sum.split)

lemma escalate_all_moves: "relay_sign_law E \<Longrightarrow> job_moves staff E st (snd (escalate_all E cands st))"
proof (induction cands arbitrary: st)
  case (Cons cand cands)
  from rtranclp_trans [OF escalate_moves [OF Cons.prems] Cons.IH [OF Cons.prems]] show ?case by (simp add: case_prod_unfold)
qed simp

lemma escalation_tick_moves: "relay_sign_law E \<Longrightarrow> job_moves staff E st (snd (run_job_escalation_tick E now after st))"
  using escalate_all_moves by (simp add: run_job_escalation_tick_def case_prod_unfold split: sum.split)

end
