(* ===== verification/Job_Duties.thy ===== *)
theory Job_Duties
  imports Job_Queue
begin

text \<open>
  What the queue owes: every lease is held by the human the job belongs to, attempts are
  bounded, an ended job leaves its evidence, heads of a job never go back in time, and work
  whose machine died does not stop.
\<close>

section \<open>The queue as a transition system\<close>

definition env_ok :: "(community_id \<times> string) set \<Rightarrow> job_env \<Rightarrow> bool" where
  "env_ok staff E \<longleftrightarrow> clock_ok E \<and> relay_sign_law E \<and> (\<forall>c k. je_employee E c k = None \<longleftrightarrow> (c, k) \<notin> staff)"

inductive job_step :: "(community_id \<times> string) set \<Rightarrow> job_state \<Rightarrow> job_state \<Rightarrow> bool" for staff where
  submit: "env_ok staff E \<Longrightarrow> event_ok ev \<Longrightarrow> job_step staff st (snd (handle_job_event E c ev st))"
| lease_tick: "env_ok staff E \<Longrightarrow> job_step staff st (snd (run_job_lease_tick E now st))"
| escalation_tick: "env_ok staff E \<Longrightarrow> job_step staff st (snd (run_job_escalation_tick E now after st))"

definition job_start :: job_state where
  "job_start = \<lparr>js_jobs = [], js_stored = [], js_fanned = []\<rparr>"

lemma step_acts:
  "job_step staff st st' \<Longrightarrow> jobs_inv (js_jobs st) \<Longrightarrow> \<exists>E. relay_sign_law E \<and> job_moves staff E st st'"
proof (induction rule: job_step.induct)
  case (submit E ev st c)
  then have "job_moves staff E st (snd (handle_job_event E c ev st))"
    by (intro job_event_moves) (simp_all add: env_ok_def)
  with submit show ?case by (auto simp: env_ok_def)
next
  case (lease_tick E st now)
  then show ?case using lease_tick_moves by (auto simp: env_ok_def)
next
  case (escalation_tick E st now after)
  then show ?case using escalation_tick_moves by (auto simp: env_ok_def)
qed

lemma step_moves: "job_step staff st st' \<Longrightarrow> jobs_inv (js_jobs st) \<Longrightarrow> (job_move staff)\<^sup>*\<^sup>* (js_jobs st) (js_jobs st')"
  using step_acts acts_table by blast

interpretation jq: invariant_machine "\<lambda>st. st = job_start" "job_step staff" "\<lambda>st. jobs_inv (js_jobs st)" for staff
proof
  show "st = job_start \<Longrightarrow> jobs_inv (js_jobs st)" for st by (simp add: job_start_def jobs_inv_def)
  show "job_step staff st st' \<Longrightarrow> jobs_inv (js_jobs st) \<Longrightarrow> jobs_inv (js_jobs st')" for st st'
    using step_moves jm.inv_steps by blast
qed

lemma reachable_inv: "(job_step staff)\<^sup>*\<^sup>* job_start st \<Longrightarrow> jobs_inv (js_jobs st)"
  by (rule jq.inv_reachable [OF refl])

text \<open>
  C22: only the human a job belongs to ever works it, and never more than three times: in every
  reachable state a leased job is held by its originator with a deadline and an attempt
  between one and three, an open job has no holder and fewer than three attempts, an
  abandoned job has used all three, and a job reported done or failed was reported by its
  originator and keeps the event that reported it, with evidence if it delivered a Task.
\<close>

theorem job_rows_sound:
  assumes "(job_step staff)\<^sup>*\<^sup>* job_start st" and "map_of (js_jobs st) (c, j) = Some row"
  shows "case jr_status row of
      JobOpen \<Rightarrow> jr_lease_holder row = None \<and> 0 \<le> jr_attempts row \<and> jr_attempts row < 3
    | JobLeased \<Rightarrow> jr_lease_holder row = Some (jr_originator row) \<and> jr_lease_expires_at row \<noteq> None
        \<and> 1 \<le> jr_attempts row \<and> jr_attempts row \<le> 3
    | JobAbandoned \<Rightarrow> jr_lease_holder row = None \<and> jr_attempts row = 3
    | _ \<Rightarrow> jr_lease_holder row = Some (jr_originator row) \<and> 1 \<le> jr_attempts row \<and> jr_attempts row \<le> 3
        \<and> jr_outcome_event row \<noteq> None
        \<and> (jr_status row = JobDone \<and> jr_task_id row \<noteq> None \<longrightarrow> (\<exists>a. jr_artifacts row = Some a \<and> nonempty_array a))"
proof -
  have "row_inv row" "row_ok row" using jobs_invD [OF reachable_inv [OF assms(1)] assms(2)] by auto
  then show ?thesis
    by (cases "jr_status row")
      (auto simp: inv_simps row_life_def MAX_JOB_ATTEMPTS_def row_ok_def lease_check_def delivery_check_def split: option.splits)
qed

section \<open>Accountable humans\<close>

definition humans_only :: "(community_id \<times> string) set \<Rightarrow> jobs_table \<Rightarrow> bool" where
  "humans_only staff tbl \<longleftrightarrow> (\<forall>k row. map_of tbl k = Some row \<longrightarrow> (fst k, jr_originator row) \<notin> staff)"

lemma row_origin:
  assumes "map_of (snd (store_perform call tbl)) k = Some row" and "table_ok tbl"
  shows "(\<exists>old. map_of tbl k = Some old \<and> jr_originator row = jr_originator old \<and> jr_employee row = jr_employee old
      \<and> jr_head_at old \<le> jr_head_at row)
    \<or> (\<exists>now c job. call = DoInsert now c job \<and> k = (c, nj_job_id job) \<and> map_of tbl k = None \<and> row = new_row now job)"
proof -
  have upd: "\<exists>old. map_of tbl k = Some old \<and> jr_originator row = jr_originator old \<and> jr_employee row = jr_employee old
      \<and> jr_head_at old \<le> jr_head_at row"
    if "map_of (snd (update_row cond change key tbl)) k = Some row"
      "\<And>r. jr_originator (change r) = jr_originator r \<and> jr_employee (change r) = jr_employee r \<and> jr_head_at r \<le> jr_head_at (change r)"
    for cond change key
    using that(1,2) by (cases rule: update_row_cases [of cond change key tbl]) (auto simp: store_simps split: if_splits)
  show ?thesis
  proof (cases call)
    case (DoInsert now c job)
    with assms(1) show ?thesis
      by (cases rule: insert_job_cases [of now c job tbl]) (auto simp: store_simps split: if_splits)
  next
    case (DoExpire hosts now cap limit)
    have keys: "keys_ok tbl" using assms(2) by (simp add: table_ok_def)
    note in_tbl = swept_in [OF keys, of hosts now cap limit]
    have "map_of (if list_all (\<lambda>(_, row). row_ok row) (swept hosts now cap limit tbl)
        then fold (\<lambda>(key, row). AList.update key row) (swept hosts now cap limit tbl) tbl else tbl) k = Some row"
      using assms(1) DoExpire by (simp add: case_prod_unfold expire_eq split: if_splits)
    then consider "map_of tbl k = Some row" | "map_of (swept hosts now cap limit tbl) k = Some row"
      using fold_update_lookup [OF in_tbl(1), of tbl k] by (auto split: if_splits option.splits)
    then show ?thesis
    proof cases
      case 2
      from in_tbl(2) [OF this] obtain old where "map_of tbl k = Some old" "row = lapse now cap old" by blast
      then show ?thesis by (simp add: lapse_def)
    qed auto
  next
    case (DoClaim c j h cap now expires)
    with assms(1) show ?thesis by (intro disjI1) (rule upd, auto simp: claim_job_def)
  next
    case (DoHeartbeat c j h n now expires)
    with assms(1) show ?thesis by (intro disjI1) (rule upd, auto simp: heartbeat_job_def)
  next
    case (DoCheckpoint c ck)
    with assms(1) show ?thesis by (intro disjI1) (rule upd, auto simp: checkpoint_job_def)
  next
    case (DoFinish c oc)
    with assms(1) show ?thesis by (intro disjI1) (rule upd, auto simp: finish_job_def Let_def)
  next
    case (DoStamp c j now)
    with assms(1) show ?thesis by (intro disjI1) (rule upd, auto simp: stamp_head_def)
  next
    case (DoRecord now c j ask)
    with assms(1) show ?thesis by (intro disjI1) (rule upd, auto simp: record_escalation_def)
  next
    case (DoClear now c j)
    with assms(1) show ?thesis by (intro disjI1) (rule upd, auto simp: clear_escalation_def)
  qed
qed

lemma humans_step:
  assumes "job_move staff tbl tbl'" and "jobs_inv tbl \<and> humans_only staff tbl"
  shows "jobs_inv tbl' \<and> humans_only staff tbl'"
proof -
  from assms(1) obtain call where call: "tbl' = snd (store_perform call tbl)" "good_call staff tbl call"
    by (auto elim: job_move.cases)
  have ok: "table_ok tbl" using assms(2) by (simp add: jobs_inv_def)
  have "(fst k, jr_originator row) \<notin> staff" if "map_of tbl' k = Some row" for k row
    using row_origin [OF that [unfolded call(1)] ok]
  proof (elim disjE exE conjE)
    fix now c job assume "call = DoInsert now c job" "k = (c, nj_job_id job)" "row = new_row now job"
    moreover from this(1) call(2) have "(c, nj_originator job) \<notin> staff
        \<or> (\<exists>k row. map_of tbl k = Some row \<and> fst k = c \<and> nj_originator job = jr_originator row)" by simp
    then have "(c, nj_originator job) \<notin> staff"
      using assms(2) unfolding humans_only_def by metis
    ultimately show ?thesis by (simp add: new_row_def)
  qed (use assms(2) in \<open>auto simp: humans_only_def simp del: split_paired_All\<close>)
  then have "humans_only staff tbl'" unfolding humans_only_def by blast
  with jm.inv_step [OF assms(1)] assms(2) show ?thesis by blast
qed

interpretation jh: invariant_machine "\<lambda>tbl. tbl = []" "job_move staff" "\<lambda>tbl. jobs_inv tbl \<and> humans_only staff tbl" for staff
proof
  show "tbl = [] \<Longrightarrow> jobs_inv tbl \<and> humans_only staff tbl" for tbl by (simp add: jobs_inv_def humans_only_def)
qed (rule humans_step)

text \<open>
  Every job has an accountable human: however work is delegated from employee to employee,
  the originator of every job is a key that is not an employee's, inherited from the job it
  was delegated from; so no job waits for a claim that nobody could make.
\<close>

theorem jobs_have_a_human:
  assumes "(job_step staff)\<^sup>*\<^sup>* job_start st" and "map_of (js_jobs st) (c, j) = Some row"
  shows "(c, jr_originator row) \<notin> staff"
proof -
  have "jobs_inv (js_jobs st) \<and> humans_only staff (js_jobs st)" using assms(1)
  proof (induction rule: rtranclp_induct)
    case (step st1 st2)
    from step_moves [OF step.hyps(2)] step.IH have "(job_move staff)\<^sup>*\<^sup>* (js_jobs st1) (js_jobs st2)" by blast
    then show ?case using step.IH by (rule jh.inv_steps)
  qed (simp add: job_start_def jobs_inv_def humans_only_def)
  then show ?thesis using assms(2) unfolding humans_only_def by fastforce
qed

end
