(* ===== verification/Job_Heads.thy ===== *)
theory Job_Heads
  imports Job_Duties
begin

text \<open>
  The heads of a job, which are all that its worker and its watchers see: their order, and
  that what is published reads back as what the table holds.
\<close>

section \<open>Heads rise\<close>

text \<open>The times of the stored heads of a job, in the order they were stored.\<close>

definition head_times :: "community_id \<Rightarrow> string \<Rightarrow> job_state \<Rightarrow> nat list" where
  "head_times c j st = map (\<lambda>(_, ev). ev_created_at ev) (filter (\<lambda>(c', ev). c' = c \<and> ev_kind ev = KIND_JOB_HEAD
     \<and> named_slices ''d'' (ev_tags ev) = [[''d'', j]]) (js_stored st))"

definition heads_inv :: "job_state \<Rightarrow> bool" where
  "heads_inv st \<longleftrightarrow> (\<forall>c j. sorted_wrt (<) (head_times c j st)
     \<and> (\<forall>t \<in> set (head_times c j st). \<exists>row. map_of (js_jobs st) (c, j) = Some row \<and> int t \<le> jr_head_at row))"

lemma row_stays:
  assumes "table_ok tbl" and "map_of tbl k = Some old"
  shows "\<exists>row. map_of (snd (store_perform call tbl)) k = Some row \<and> jr_head_at old \<le> jr_head_at row"
proof -
  obtain rows tbl' where run: "store_perform call tbl = (rows, tbl')" by fastforce
  have "lease_next k (phase_of (Some old)) (call, rows) = Some (phase_of (map_of tbl' k))"
    using store_simulates [OF assms(1) run, of k] assms(2) by simp
  moreover have "lease_next k ph e = Some Absent \<Longrightarrow> ph = Absent" for ph e
    by (cases e; cases "fst e"; cases ph) (auto split: option.splits if_splits)
  ultimately have "map_of tbl' k \<noteq> None" by (cases "jr_status old") (fastforce simp: phase_of_def)+
  then obtain row where row: "map_of tbl' k = Some row" by blast
  with row_origin [of call tbl k row] run assms show ?thesis by auto
qed

lemma head_times_parts:
  "js_stored st' = js_stored st \<Longrightarrow> head_times c j st' = head_times c j st"
  "js_stored st' = js_stored st @ [(c', ev)] \<Longrightarrow> head_times c j st' = head_times c j st
     @ (if c' = c \<and> ev_kind ev = KIND_JOB_HEAD \<and> named_slices ''d'' (ev_tags ev) = [[''d'', j]] then [ev_created_at ev] else [])"
  by (simp_all add: head_times_def)

lemma heads_inv_same:
  assumes "heads_inv st" and "js_stored st' = js_stored st"
    and "\<And>k old. map_of (js_jobs st) k = Some old \<Longrightarrow> \<exists>row. map_of (js_jobs st') k = Some row \<and> jr_head_at old \<le> jr_head_at row"
  shows "heads_inv st'"
  using assms(1) assms(3) unfolding heads_inv_def head_times_parts(1) [OF assms(2)] by (meson order_trans)

lemma named_slices_append: "named_slices n (xs @ ys) = named_slices n xs @ named_slices n ys"
  by (simp add: named_slices_def)

text \<open>The tags of a signed event, by name: those it was built with, but for a \<open>p\<close> that names the author.\<close>

lemma signed_slices:
  assumes "relay_sign_law E" and "je_sign E keys kind content tags t = Some ev" and "name \<noteq> ''p''"
  shows "named_slices name (ev_tags ev) = filter (\<lambda>sl. sl \<noteq> [] \<and> hd sl = name) tags"
proof -
  have "map tag_slice (ev_tags ev) = filter (\<lambda>sl. sl \<noteq> [''p'', ev_pubkey ev]) tags"
    using assms(1,2) unfolding relay_sign_law_def by blast
  then have "named_slices name (ev_tags ev) = filter (\<lambda>sl. (sl \<noteq> [] \<and> hd sl = name) \<and> sl \<noteq> [''p'', ev_pubkey ev]) tags"
    by (simp add: named_slices_def conj_commute)
  also have "\<dots> = filter (\<lambda>sl. sl \<noteq> [] \<and> hd sl = name) tags"
    using assms(3) by (intro filter_cong) auto
  finally show ?thesis .
qed

lemma filter_opt_tag:
  "filter (\<lambda>sl. sl \<noteq> [] \<and> hd sl = name) (opt_tag n v) = (if n = name then opt_tag n v else [])"
  by (cases v) (auto simp: opt_tag_def)

lemma filter_task_tags:
  "filter (\<lambda>sl. sl \<noteq> [] \<and> hd sl = name) (case v of None \<Rightarrow> [] | Some t \<Rightarrow> [[''task'', t], [''run-status'', w]])
     = (if name = ''task'' then opt_tag ''task'' v else if name = ''run-status'' then opt_tag ''run-status'' (map_option (\<lambda>_. w) v) else [])"
  by (cases v) (auto simp: opt_tag_def)

lemma filter_seq_tag:
  "filter (\<lambda>sl. sl \<noteq> [] \<and> hd sl = name) (if b then [[''checkpoint-seq'', v]] else [])
     = (if name = ''checkpoint-seq'' then opt_tag ''checkpoint-seq'' (if b then Some v else None) else [])"
  by (simp add: opt_tag_def)

lemmas head_slices = head_tags_def filter_opt_tag filter_task_tags filter_seq_tag

lemma head_event:
  assumes "relay_sign_law E" and "build_job_head E keys job head_at = Inr ev"
  shows "ev_kind ev = KIND_JOB_HEAD" and "ev_created_at ev = nat (max head_at 0)"
    and "named_slices ''d'' (ev_tags ev) = [[''d'', jr_job_id job]]"
proof -
  obtain content where sign: "je_sign E keys KIND_JOB_HEAD content (head_tags E job) (nat (max head_at 0)) = Some ev"
    using assms(2) by (auto simp: build_job_head_def res_simps)
  then show "ev_kind ev = KIND_JOB_HEAD" "ev_created_at ev = nat (max head_at 0)"
    using assms(1) unfolding relay_sign_law_def by blast+
  show "named_slices ''d'' (ev_tags ev) = [[''d'', jr_job_id job]]"
    by (subst signed_slices [OF assms(1) sign]; simp add: head_slices)
qed

text \<open>What publishing a head does: nothing is stored, or one head with the stamp just taken.\<close>

lemma publish_effect:
  assumes "jobs_inv (js_jobs st)" and "relay_sign_law E" and "st' = publish_job_head E c j st"
  shows "js_stored st' = js_stored st
    \<or> (\<exists>old row ev. map_of (js_jobs st) (c, j) = Some old \<and> map_of (js_jobs st') (c, j) = Some row
        \<and> jr_head_at row = max (jr_head_at old + 1) (je_now E) \<and> js_stored st' = js_stored st @ [(c, ev)]
        \<and> ev_kind ev = KIND_JOB_HEAD \<and> named_slices ''d'' (ev_tags ev) = [[''d'', j]] \<and> ev_created_at ev = nat (max (jr_head_at row) 0))"
proof -
  obtain res st1 where call: "db_call E (''stamp '' @ j) (stamp_head c j (je_now E)) st = (res, st1)" by fastforce
  have stored: "js_stored st1 = js_stored st" using call by (auto simp: db_call_def split: db_fault.splits)
  show ?thesis
  proof (cases "\<exists>head_at job ev. res = Inr (Some (head_at, job)) \<and> js_stored st' = js_stored st1 @ [(c, ev)]
      \<and> (\<exists>keys. build_job_head E keys job head_at = Inr ev)")
    case False
    then have "js_stored st' = js_stored st1"
      unfolding assms(3) publish_job_head_def call
      by (auto simp: store_event_def fan_out_event_def res_simps split: sum.split option.split prod.split)
    with stored show ?thesis by simp
  next
    case True
    then obtain head_at job ev keys where r: "res = Inr (Some (head_at, job))" "js_stored st' = js_stored st1 @ [(c, ev)]"
      "build_job_head E keys job head_at = Inr ev" by blast
    let ?ch = "\<lambda>row. row\<lparr>jr_head_at := max (jr_head_at row + 1) (je_now E)\<rparr>"
    from r(1) call have "fst (stamp_head c j (je_now E) (js_jobs st)) = Inr (Some (head_at, job))"
      "js_jobs st1 = snd (stamp_head c j (je_now E) (js_jobs st))"
      by (auto simp: db_call_def split: db_fault.splits)
    then obtain old where old: "map_of (js_jobs st) (c, j) = Some old" "head_at = max (jr_head_at old + 1) (je_now E)"
      "job = row_to_job (?ch old)" "js_jobs st1 = AList.update (c, j) (?ch old) (js_jobs st)"
      by (cases rule: update_row_cases [of "\<lambda>_. True" ?ch "(c, j)" "js_jobs st"]) (auto simp: stamp_head_def res_simps)
    have "js_jobs st' = js_jobs st1" unfolding assms(3) publish_jobs call by simp
    moreover have "jr_job_id job = j" using jobs_invD [OF assms(1) old(1)] old(3) by simp
    ultimately show ?thesis
      using head_event [OF assms(2) r(3)] old r(2) stored by (intro disjI2 exI [of _ old] exI [of _ "?ch old"] exI [of _ ev]) (auto simp: store_simps)
  qed
qed

lemma act_heads:
  assumes "job_act staff E st st'" and "jobs_inv (js_jobs st)" and "heads_inv st" and "relay_sign_law E"
  shows "heads_inv st'"
  using assms(1)
proof cases
  case (sends call)
  then show ?thesis
    using row_stays [of "js_jobs st" _ _ call] assms(2) by (intro heads_inv_same [OF assms(3)]) (simp_all add: jobs_inv_def)
next
  case (publishes c j)
  have stays: "\<exists>row. map_of (js_jobs st') k = Some row \<and> jr_head_at old \<le> jr_head_at row"
    if "map_of (js_jobs st) k = Some old" for k old
  proof -
    have "js_jobs st' = js_jobs st \<or> js_jobs st' = snd (store_perform (DoStamp c j (je_now E)) (js_jobs st))"
      unfolding publishes by (auto simp: publish_jobs db_call_def split: db_fault.split)
    then show ?thesis using row_stays [OF _ that, of "DoStamp c j (je_now E)"] assms(2) that by (auto simp: jobs_inv_def)
  qed
  from publish_effect [OF assms(2,4) publishes] show ?thesis
  proof (elim disjE exE conjE)
    assume "js_stored st' = js_stored st"
    then show ?thesis by (rule heads_inv_same [OF assms(3) _ stays])
  next
    fix old row ev
    assume new: "map_of (js_jobs st) (c, j) = Some old" "map_of (js_jobs st') (c, j) = Some row"
      "jr_head_at row = max (jr_head_at old + 1) (je_now E)" "js_stored st' = js_stored st @ [(c, ev)]"
      "ev_kind ev = KIND_JOB_HEAD" "named_slices ''d'' (ev_tags ev) = [[''d'', j]]" "ev_created_at ev = nat (max (jr_head_at row) 0)"
    have below: "t < ev_created_at ev \<and> int (ev_created_at ev) \<le> jr_head_at row" if "t \<in> set (head_times c j st)" for t
    proof -
      from that assms(3) new(1) have "int t \<le> jr_head_at old" unfolding heads_inv_def by fastforce
      with new(3,7) show ?thesis by auto
    qed
    show ?thesis unfolding heads_inv_def
    proof (intro allI conjI ballI)
      fix c' j'
      have old_inv: "sorted_wrt (<) (head_times c' j' st)"
        "\<And>t. t \<in> set (head_times c' j' st) \<Longrightarrow> \<exists>row. map_of (js_jobs st) (c', j') = Some row \<and> int t \<le> jr_head_at row"
        using assms(3) unfolding heads_inv_def by blast+
      show "sorted_wrt (<) (head_times c' j' st')"
        using old_inv(1) below by (cases "(c', j') = (c, j)") (auto simp: head_times_parts(2) [OF new(4)] new(5,6) sorted_wrt_append)
      fix t assume "t \<in> set (head_times c' j' st')"
      then consider "t \<in> set (head_times c' j' st)" | "(c', j') = (c, j)" "t = ev_created_at ev"
        by (auto simp: head_times_parts(2) [OF new(4)] new(5,6) split: if_splits)
      then show "\<exists>row. map_of (js_jobs st') (c', j') = Some row \<and> int t \<le> jr_head_at row"
      proof cases
        case 1
        from old_inv(2) [OF this] stays show ?thesis by (meson order_trans)
      next
        case 2
        have "0 \<le> jr_head_at old" using jobs_invD [OF assms(2) new(1)] by (simp add: inv_simps)
        with 2 new(2,3,7) show ?thesis by auto
      qed
    qed
  qed
next
  case (stores ev c)
  have "head_times c' j st' = head_times c' j st" for c' j
    using stores by (auto simp: store_event_def head_times_def)
  with assms(3) stores show ?thesis by (simp add: heads_inv_def)
next
  case (fans c ev)
  then show ?thesis by (intro heads_inv_same [OF assms(3)]) (auto simp: fan_out_event_def)
qed

text \<open>
  The heads of a job never go back: in every reachable state the heads stored for a job
  have strictly increasing times, however many were published within a second and whatever
  the clock did, so the one that replaces all others is the last one published.
\<close>

theorem heads_rise:
  assumes "(job_step staff)\<^sup>*\<^sup>* job_start st"
  shows "sorted_wrt (<) (head_times c j st)"
proof -
  have "heads_inv st" using assms
  proof (induction rule: rtranclp_induct)
    case (step st1 st2)
    have inv: "jobs_inv (js_jobs st1)" by (rule reachable_inv [OF step.hyps(1)])
    obtain E where E: "relay_sign_law E" "job_moves staff E st1 st2" using step_acts [OF step.hyps(2) inv] by blast
    from E(2) have "jobs_inv (js_jobs st2) \<and> heads_inv st2"
    proof (induction rule: rtranclp_induct)
      case (step y z)
      with act_heads [OF step.hyps(2)] E(1) jm.inv_steps [OF act_table [OF step.hyps(2)]] show ?case by blast
    qed (use step.IH inv in blast)
    then show ?case ..
  qed (simp add: heads_inv_def head_times_def job_start_def)
  then show ?thesis unfolding heads_inv_def by blast
qed

section \<open>Heads read back\<close>

text \<open>\<open>serde_json\<close> reads back the object it wrote for a job, field by field, and does not write an empty text.\<close>

definition head_text_of :: "job_env \<Rightarrow> JobRow \<Rightarrow> string" where
  "head_text_of E job = je_json_text E (head_fields (jr_instruction job) (jr_result job) (jr_failure job)) (jr_checkpoint job) (jr_artifacts job)"

definition head_json_law :: "job_env \<Rightarrow> (string \<Rightarrow> HeadBody option) \<Rightarrow> JobRow \<Rightarrow> bool" where
  "head_json_law E json_object job \<longleftrightarrow> trim (head_text_of E job) \<noteq> []
     \<and> json_object (head_text_of E job) = Some \<lparr>hb_text = map_of (head_fields (jr_instruction job) (jr_result job) (jr_failure job)),
         hb_checkpoint = map_option Inr (jr_checkpoint job),
         hb_artifacts = map_option (\<lambda>v. case v of JsonArray xs \<Rightarrow> Inr xs | JsonOther _ \<Rightarrow> Inl ()) (jr_artifacts job)\<rparr>"

lemma parse_show_int:
  assumes "lo \<le> n" and "n \<le> hi"
  shows "parse_signed lo hi (show_int n) = Some n"
proof (cases "n < 0")
  case True
  with assms digits_value_show_nat [of "nat (- n)"] show ?thesis
    by (simp add: show_int_def parse_signed_def in_range_def)
next
  case False
  obtain x xs where x: "show_nat (nat n) = x # xs" by (cases "show_nat (nat n)") (use show_nat_nonempty in auto)
  then have "is_ascii_digit x" using show_nat_digits [of x "nat n"] by simp
  then have "x \<noteq> CHR ''-''" "x \<noteq> CHR ''+''" by (auto simp: is_ascii_digit_def byte_def)
  with False assms x digits_value_show_nat [of "nat n"] show ?thesis
    by (simp add: show_int_def parse_signed_def in_range_def)
qed

lemma job_tag_of: "named_slices name (ev_tags ev) = [[name, v]] \<Longrightarrow> job_tag ev name = Inr v"
  by (simp add: job_tag_Inr)

lemma job_optional_of: "named_slices name (ev_tags ev) = opt_tag name v \<Longrightarrow> job_optional ev name = Inr v"
  by (cases v) (auto simp: job_optional_def res_simps opt_tag_def)

lemma optional_hex64_of: "named_slices name (ev_tags ev) = opt_tag name v \<Longrightarrow> pred_option hex_id v \<Longrightarrow> optional_hex64 ev name = Inr v"
  by (cases v) (simp_all add: optional_hex64_def job_optional_of hex_id_hex64)

lemma optional_stamp_of: "named_slices name (ev_tags ev) = opt_tag name v \<Longrightarrow> pred_option stamp_ok v \<Longrightarrow> optional_stamp ev name = Inr v"
  by (cases v) (auto simp: optional_stamp_def job_optional_of stamp_ok_def)

lemma transpose_same: "pred_option (\<lambda>x. f x = Inr x) v \<Longrightarrow> map_transpose f v = Inr v"
  by (cases v) simp_all

lemma head_fields_of:
  "map_of (head_fields i r f) ''instruction'' = Some i" "map_of (head_fields i r f) ''result'' = r"
  "map_of (head_fields i r f) ''failure'' = f"
  by (auto simp: head_fields_def split: option.split)

text \<open>The tags of a head, one by one, and the texts of a row, each of which its reader leaves as it is.\<close>

lemma head_slots:
  assumes "relay_sign_law E" and "je_sign E keys KIND_JOB_HEAD content (head_tags E job) t = Some ev"
  shows "job_tag ev ''status'' = Inr (job_status_as_str (jr_status job))"
    and "job_tag ev ''attempts'' = Inr (show_int (jr_attempts job))" and "job_tag ev ''d'' = Inr (jr_job_id job)"
    and "job_tag ev ''employee'' = Inr (jr_employee job)" and "job_tag ev ''originator'' = Inr (jr_originator job)"
    and "job_tag ev ''filed-by'' = Inr (jr_filed_by job)"
    and "named_slices ''lease-holder'' (ev_tags ev) = opt_tag ''lease-holder'' (jr_lease_holder job)"
    and "named_slices ''lease-expires'' (ev_tags ev) = opt_tag ''lease-expires'' (map_option show_int (jr_lease_expires_at job))"
    and "named_slices ''provider'' (ev_tags ev) = opt_tag ''provider'' (jr_provider job)"
    and "named_slices ''model'' (ev_tags ev) = opt_tag ''model'' (jr_model job)"
    and "named_slices ''task'' (ev_tags ev) = opt_tag ''task'' (jr_task_id job)"
    and "named_slices ''checkpoint-seq'' (ev_tags ev) = opt_tag ''checkpoint-seq''
       (if 0 < jr_checkpoint_seq job then Some (show_int (jr_checkpoint_seq job)) else None)"
    and "named_slices ''checkpoint-event'' (ev_tags ev) = opt_tag ''checkpoint-event'' (jr_checkpoint_event job)"
    and "named_slices ''outcome-event'' (ev_tags ev) = opt_tag ''outcome-event'' (jr_outcome_event job)"
proof -
  have slices: "named_slices name (ev_tags ev) = filter (\<lambda>sl. sl \<noteq> [] \<and> hd sl = name) (head_tags E job)" if "name \<noteq> ''p''" for name
    by (rule signed_slices [OF assms that])
  show "job_tag ev ''status'' = Inr (job_status_as_str (jr_status job))"
    "job_tag ev ''attempts'' = Inr (show_int (jr_attempts job))" "job_tag ev ''d'' = Inr (jr_job_id job)"
    "job_tag ev ''employee'' = Inr (jr_employee job)" "job_tag ev ''originator'' = Inr (jr_originator job)"
    "job_tag ev ''filed-by'' = Inr (jr_filed_by job)"
    by (rule job_tag_of; subst slices; simp add: head_slices)+
  show "named_slices ''lease-holder'' (ev_tags ev) = opt_tag ''lease-holder'' (jr_lease_holder job)"
    "named_slices ''lease-expires'' (ev_tags ev) = opt_tag ''lease-expires'' (map_option show_int (jr_lease_expires_at job))"
    "named_slices ''provider'' (ev_tags ev) = opt_tag ''provider'' (jr_provider job)"
    "named_slices ''model'' (ev_tags ev) = opt_tag ''model'' (jr_model job)"
    "named_slices ''task'' (ev_tags ev) = opt_tag ''task'' (jr_task_id job)"
    "named_slices ''checkpoint-seq'' (ev_tags ev) = opt_tag ''checkpoint-seq''
       (if 0 < jr_checkpoint_seq job then Some (show_int (jr_checkpoint_seq job)) else None)"
    "named_slices ''checkpoint-event'' (ev_tags ev) = opt_tag ''checkpoint-event'' (jr_checkpoint_event job)"
    "named_slices ''outcome-event'' (ev_tags ev) = opt_tag ''outcome-event'' (jr_outcome_event job)"
    by (subst slices; simp add: head_slices)+
qed

lemma row_texts_read:
  assumes "row_text job"
  shows "hex64 ''d'' (jr_job_id job) = Inr (jr_job_id job)" and "hex64 ''employee'' (jr_employee job) = Inr (jr_employee job)"
    and "hex64 ''originator'' (jr_originator job) = Inr (jr_originator job)" and "hex64 ''filed-by'' (jr_filed_by job) = Inr (jr_filed_by job)"
    and "map_transpose validate_task_id (jr_task_id job) = Inr (jr_task_id job)"
    and "map_transpose validate_checkpoint (jr_checkpoint job) = Inr (jr_checkpoint job)"
    and "map_transpose detail (jr_result job) = Inr (jr_result job)" and "map_transpose detail (jr_failure job) = Inr (jr_failure job)"
    and "instruction (jr_instruction job) = Inr (jr_instruction job)"
  using assms unfolding row_text_def by (blast intro: transpose_same hex_id_hex64)+

lemma row_numbers_read:
  assumes "row_text job" and "row_life job"
  shows "parse_number parse_i32 ''attempts'' (show_int (jr_attempts job)) = Inr (jr_attempts job)"
    and "map_transpose (parse_number parse_i64 ''lease-expires'') (map_option show_int (jr_lease_expires_at job)) = Inr (jr_lease_expires_at job)"
    and "map_transpose (parse_number parse_i64 ''checkpoint-seq'')
      (if 0 < jr_checkpoint_seq job then Some (show_int (jr_checkpoint_seq job)) else None)
    = Inr (if 0 < jr_checkpoint_seq job then Some (jr_checkpoint_seq job) else None)"
proof -
  show "parse_number parse_i32 ''attempts'' (show_int (jr_attempts job)) = Inr (jr_attempts job)"
    using assms(2) by (subst parse_number_def, subst parse_show_int) (simp_all add: row_life_def MAX_JOB_ATTEMPTS_def)
  have number: "parse_number parse_i64 name (show_int n) = Inr n" if "i64 n" for name n
    using that by (subst parse_number_def, subst parse_show_int) (simp_all add: i64_def)
  show "map_transpose (parse_number parse_i64 ''lease-expires'') (map_option show_int (jr_lease_expires_at job)) = Inr (jr_lease_expires_at job)"
    using assms(1) number by (cases "jr_lease_expires_at job") (simp_all add: row_text_def)
  show "map_transpose (parse_number parse_i64 ''checkpoint-seq'')
      (if 0 < jr_checkpoint_seq job then Some (show_int (jr_checkpoint_seq job)) else None)
    = Inr (if 0 < jr_checkpoint_seq job then Some (jr_checkpoint_seq job) else None)"
    using assms(1) number by (simp add: row_text_def)
qed

text \<open>What a reader of the head sees of a row.\<close>

definition head_view :: "JobRow \<Rightarrow> ParsedJobHead" where
  "head_view job = \<lparr>jh_job_hex = jr_job_id job, jh_employee_hex = jr_employee job, jh_originator_hex = jr_originator job,
     jh_filed_by_hex = jr_filed_by job, jh_status = jr_status job, jh_attempts = jr_attempts job,
     jh_lease_holder_hex = jr_lease_holder job, jh_lease_expires_at = jr_lease_expires_at job,
     jh_instruction = jr_instruction job, jh_result = jr_result job, jh_failure = jr_failure job,
     jh_provider = jr_provider job, jh_model = jr_model job, jh_task_id = jr_task_id job,
     jh_run_status = map_option (\<lambda>_. run_status_of (jr_status job) (jr_attempts job)) (jr_task_id job),
     jh_checkpoint_sequence = jr_checkpoint_seq job, jh_checkpoint = jr_checkpoint job,
     jh_checkpoint_event_hex = jr_checkpoint_event job,
     jh_artifacts = (case jr_artifacts job of Some (JsonArray xs) \<Rightarrow> xs | _ \<Rightarrow> []),
     jh_outcome_event_hex = jr_outcome_event job\<rparr>"

text \<open>
  C39: the head of a job tells the truth: for every job of a reachable state, the head the relay
  builds from its row is one the head parser accepts, and what it reads is the row: who owes,
  filed and owns the work, its status and attempts, the lease, the texts, the checkpoint, the
  artifacts and the outcome.
\<close>

theorem head_reads_back:
  assumes "(job_step staff)\<^sup>*\<^sup>* job_start st" and "map_of (js_jobs st) (c, j) = Some row"
    and "relay_sign_law E" and "head_json_law E json_object (row_to_job row)" and "build_job_head E keys (row_to_job row) t = Inr ev"
  shows "parse_job_head json_object ev = Inr (head_view (row_to_job row))"
proof -
  let ?job = "row_to_job row"
  have inv: "row_text ?job" "row_life ?job" "row_ok row"
    using jobs_invD [OF reachable_inv [OF assms(1)] assms(2)] by (simp_all add: inv_simps)
  have sign: "je_sign E keys KIND_JOB_HEAD (head_text_of E ?job) (head_tags E ?job) (nat (max t 0)) = Some ev"
    using assms(5) by (simp add: build_job_head_def ok_or_Inr head_text_of_def)
  then have content: "ev_content ev = head_text_of E ?job" using assms(3) unfolding relay_sign_law_def by blast
  note slots = head_slots [OF assms(3) sign]
  have checkpoint: "map_transpose (map_err (\<lambda>_. InvalidHeadContent)) (map_option Inr (jr_checkpoint ?job)) = Inr (jr_checkpoint ?job)"
    by (cases "jr_checkpoint ?job") simp_all
  have artifacts: "map_transpose (map_err (\<lambda>_. InvalidHeadContent))
      (map_option (\<lambda>v. case v of JsonArray xs \<Rightarrow> Inr xs | JsonOther _ \<Rightarrow> Inl ()) (jr_artifacts ?job))
    = Inr (map_option (\<lambda>v. case v of JsonArray xs \<Rightarrow> xs | JsonOther _ \<Rightarrow> []) (jr_artifacts ?job))"
    using inv(3) by (auto simp: row_ok_def delivery_check_def nonempty_array_def split: option.splits jsonb.splits)
  note texts = inv(1) [unfolded row_text_def]
  have opt_ids: "optional_hex64 ev ''lease-holder'' = Inr (jr_lease_holder ?job)"
    "optional_hex64 ev ''checkpoint-event'' = Inr (jr_checkpoint_event ?job)" "optional_hex64 ev ''outcome-event'' = Inr (jr_outcome_event ?job)"
    using texts optional_hex64_of [OF slots(7)] optional_hex64_of [OF slots(13)] optional_hex64_of [OF slots(14)] by blast+
  have stamps: "optional_stamp ev ''provider'' = Inr (jr_provider ?job)" "optional_stamp ev ''model'' = Inr (jr_model ?job)"
    using texts optional_stamp_of [OF slots(9)] optional_stamp_of [OF slots(10)] by blast+
  have view: "(case if 0 < jr_checkpoint_seq ?job then Some (jr_checkpoint_seq ?job) else None of Some s \<Rightarrow> s | None \<Rightarrow> 0) = jr_checkpoint_seq ?job"
    "(case map_option (\<lambda>v. case v of JsonArray xs \<Rightarrow> xs | JsonOther _ \<Rightarrow> []) (jr_artifacts ?job) of Some a \<Rightarrow> a | None \<Rightarrow> [])
      = (case jr_artifacts ?job of Some (JsonArray xs) \<Rightarrow> xs | _ \<Rightarrow> [])"
    using inv(3) by (auto simp: row_ok_def checkpoint_check_def split: option.split jsonb.split)
  show ?thesis
    unfolding parse_job_head_def content
    by (simp only: assms(4) [unfolded head_json_law_def] and_then_simps slots(1-6) job_status.from_as ok_or_simps if_False
        row_numbers_read [OF inv(1,2)] row_texts_read [OF inv(1)] job_optional_of [OF slots(8)] job_optional_of [OF slots(11)]
        job_optional_of [OF slots(12)] checkpoint artifacts opt_ids stamps HeadBody.simps head_fields_of option.case view head_view_def)
qed

end
