(* ===== verification/Job_Outcomes.thy ===== *)
theory Job_Outcomes
  imports Job_Heads
begin

text \<open>
  How work ends: an outcome settles a job once, a delivered Task has evidence, and work whose
  machine died is taken up again or handed to a human.
\<close>

section \<open>Settling\<close>

lemma find_job_eq: "find_job c j tbl = map_option row_to_job (map_of tbl (c, j))"
  by (simp add: find_job_def)

text \<open>A head changes nothing of a job but its stamp.\<close>

lemma publish_same_jobs: "find_job c' j' (js_jobs (publish_job_head E c j st)) = find_job c' j' (js_jobs st)"
proof -
  let ?ch = "\<lambda>row. row\<lparr>jr_head_at := max (jr_head_at row + 1) (je_now E)\<rparr>"
  have same: "row_to_job (?ch row) = row_to_job row" for row by (simp add: row_to_job_def JobRow.truncate_def)
  have "find_job c' j' (snd (update_row (\<lambda>_. True) ?ch (c, j) (js_jobs st))) = find_job c' j' (js_jobs st)"
  proof (cases rule: update_row_cases [of "\<lambda>_. True" ?ch "(c, j)" "js_jobs st"])
    case (moved row)
    have "snd (update_row (\<lambda>_. True) ?ch (c, j) (js_jobs st)) = AList.update (c, j) (?ch row) (js_jobs st)"
      unfolding moved(4) by simp
    with moved(1) show ?thesis unfolding find_job_eq by (cases "(c', j') = (c, j)") (simp_all only: store_simps same, auto simp: same)
  qed simp
  then show ?thesis by (auto simp: publish_jobs db_call_def stamp_head_def split: db_fault.split)
qed

lemma as_jobs_moved:
  assumes "as_jobs (update_row cond change key tbl) = (Inr (Some new), tbl')"
  shows "\<exists>row. map_of tbl key = Some row \<and> cond row \<and> new = row_to_job (change row) \<and> tbl' = AList.update key (change row) tbl"
proof (cases rule: update_row_cases [of cond change key tbl])
  case (kept res)
  with assms show ?thesis by (auto simp: as_jobs_def)
next
  case (moved row)
  from assms moved(4) have "new = row_to_job (change row)" "tbl' = AList.update key (change row) tbl" by (auto simp: as_jobs_def)
  with moved(1,2) show ?thesis by blast
qed

lemma as_jobs_kept:
  assumes "as_jobs (update_row cond change key tbl) = (res, tbl')" and "\<And>new. res \<noteq> Inr (Some new)"
  shows "tbl' = tbl"
proof (cases rule: update_row_cases [of cond change key tbl])
  case (kept r)
  with assms(1) show ?thesis by (auto simp: as_jobs_def)
next
  case (moved row)
  with assms(1) have "res = Inr (Some (row_to_job (change row)))" by (auto simp: as_jobs_def)
  with assms(2) show ?thesis by blast
qed

lemma finish_effect:
  assumes "finish_job c oc tbl = (Inr (Some new), tbl')"
  shows "\<exists>row. map_of tbl (c, fj_job_id oc) = Some row \<and> holds_job (fj_holder oc) (fj_attempt oc) row
    \<and> (jr_task_id row = None \<or> not_expired (fj_now oc) row)
    \<and> find_job c (fj_job_id oc) tbl' = Some new \<and> jr_status new = fj_status oc \<and> jr_outcome_event new = fj_outcome_event oc
    \<and> jr_task_id new = jr_task_id row"
  using as_jobs_moved [OF assms [unfolded finish_job_def Let_def]]
  by (elim exE conjE) (auto simp: find_job_eq store_simps simp del: not_expired_def)

text \<open>
  An outcome settles a job once: when a report is accepted, its author held the job and the
  attempt it reports, and from then on the job has the reported status and names the report;
  the same report sent again, at any time before the next change of the job, is acknowledged
  and changes nothing; and a report that is not accepted leaves every job as it was, unless
  the answer of the database was lost on the way.
\<close>

theorem outcome_settles_once:
  assumes "handle_outcome E c ev st = (res, st')"
  shows "(res = Inr Finished \<longrightarrow> (\<exists>r j row job. parse_job_outcome (je_json_artifact E) ev = Inr r \<and> hex32 (jo_job_hex r) = Inr j
      \<and> map_of (js_jobs st) (c, j) = Some row \<and> holds_job (ev_pubkey ev) (jo_attempt r) row
      \<and> find_job c j (js_jobs st') = Some job \<and> jr_status job = jo_status r \<and> jr_outcome_event job = Some (ev_id ev)
      \<and> (\<forall>E' st2. je_json_artifact E' = je_json_artifact E \<and> je_fault E' ''find'' = NoFault
          \<and> find_job c j (js_jobs st2) = Some job \<longrightarrow> handle_outcome E' c ev st2 = (Inr OutcomeIgnored, st2))))
    \<and> (res \<noteq> Inr Finished \<and> je_fault E ''finish'' \<noteq> AnswerLost \<longrightarrow> st' = st)"
proof (cases "outcome_checked E c ev (js_jobs st)")
  case (Inl e)
  with assms show ?thesis by (auto simp: handle_outcome_def)
next
  case (Inr checked)
  show ?thesis
  proof (cases checked)
    case None
    with assms Inr show ?thesis by (auto simp: handle_outcome_def)
  next
    case (Some jr)
    obtain j r where jr: "jr = (j, r)" by (cases jr)
    have parse: "parse_job_outcome (je_json_artifact E) ev = Inr r" and j: "hex32 (jo_job_hex r) = Inr j"
      using Inr Some jr by (auto simp: outcome_checked_def and_then_Inr map_err_Inr split: if_splits)
    obtain fres st1 where call: "db_call E ''finish'' (finish_job c (finished_job E ev j r)) st = (fres, st1)" by fastforce
    show ?thesis
    proof (cases "\<exists>new. fres = Inr (Some new)")
      case False
      have "st1 = st" if "je_fault E ''finish'' \<noteq> AnswerLost"
      proof -
        have "snd (finish_job c (finished_job E ev j r) (js_jobs st)) = js_jobs st" if nofault: "je_fault E ''finish'' = NoFault"
        proof -
          have "finish_job c (finished_job E ev j r) (js_jobs st) = (fres, js_jobs st1)"
            using call nofault by (auto simp: db_call_def split: prod.splits)
          with as_jobs_kept [of _ _ _ _ fres "js_jobs st1"] False show ?thesis unfolding finish_job_def Let_def by fastforce
        qed
        with that call show ?thesis by (auto simp: db_call_def split: db_fault.splits)
      qed
      with assms Inr Some jr call False show ?thesis
        by (auto simp: handle_outcome_def split: sum.splits option.splits if_splits)
    next
      case True
      then obtain new where new: "fres = Inr (Some new)" by blast
      with assms Inr Some jr call have res: "res = Inr Finished" "st' = publish_job_head E c j st1"
        by (auto simp: handle_outcome_def)
      from call new have "finish_job c (finished_job E ev j r) (js_jobs st) = (Inr (Some new), js_jobs st1)"
        by (auto simp: db_call_def prod_eq_iff split: db_fault.splits)
      from finish_effect [OF this] obtain row where row: "map_of (js_jobs st) (c, j) = Some row"
        "holds_job (ev_pubkey ev) (jo_attempt r) row" "find_job c j (js_jobs st1) = Some new" "jr_status new = jo_status r"
        "jr_outcome_event new = Some (ev_id ev)"
        by (auto simp: finished_job_def)
      have "handle_outcome E' c ev st2 = (Inr OutcomeIgnored, st2)"
        if "je_json_artifact E' = je_json_artifact E" "je_fault E' ''find'' = NoFault" "find_job c j (js_jobs st2) = Some new" for E' st2
      proof -
        have "outcome_checked E' c ev (js_jobs st2) = Inr None"
          using that parse j row(5) by (simp add: outcome_checked_def db_read_def is_recorded_outcome_def)
        then show ?thesis by (simp add: handle_outcome_def)
      qed
      with res row parse j show ?thesis by (auto simp: publish_same_jobs)
    qed
  qed
qed

end
