(* ===== verification/Job_Evidence.thy ===== *)
theory Job_Evidence
  imports Job_Outcomes
begin

text \<open>
  The evidence of a delivered Task: what \<open>handle_outcome\<close> has established about every event
  an accepted outcome names.
\<close>

section \<open>What the checks establish\<close>

definition evidence_for ::
  "job_env \<Rightarrow> community_id \<Rightarrow> JobRow \<Rightarrow> string \<Rightarrow> string \<Rightarrow> int \<Rightarrow> string \<Rightarrow> bool" where
  "evidence_for E c job task_id author attempt reference \<longleftrightarrow>
     (\<exists>s ch th. je_event E c reference = Some s \<and> ev_id (se_event s) = to_ascii_lowercase reference
        \<and> je_verifies E (se_event s) \<and> ev_kind (se_event s) \<in> set TASK_ARTIFACT_EVENT_KINDS
        \<and> ev_pubkey (se_event s) = author
        \<and> jr_channel_id job = Some ch \<and> se_channel_id s = Some ch
        \<and> jr_thread job = Some th \<and> je_thread E c (ev_id (se_event s)) = Some (ch, Some th)
        \<and> named_slices ''task'' (ev_tags (se_event s)) = [[''task'', task_id]]
        \<and> named_slices ''job'' (ev_tags (se_event s)) = [[''job'', jr_job_id job]]
        \<and> named_slices ''attempt'' (ev_tags (se_event s)) = [[''attempt'', show_int attempt]])"

lemma named_slices_hd: "sl \<in> set (named_slices name ts) \<Longrightarrow> sl \<noteq> [] \<and> hd sl = name"
  by (auto simp: named_slices_def)

lemma exact_tag:
  assumes "require_exact_artifact_tag ev name expected = Inr u"
  shows "named_slices name (ev_tags ev) = [[name, expected]]"
proof -
  obtain parts where parts: "named_slices name (ev_tags ev) = [parts]" "length parts = 2" "parts ! 1 = expected"
    using assms by (auto simp: require_exact_artifact_tag_def split: list.splits if_splits)
  moreover from parts(1) named_slices_hd [of parts name "ev_tags ev"] have "hd parts = name" by simp
  ultimately show ?thesis by (cases parts; cases "tl parts") auto
qed

lemma artifact_checked:
  assumes "validate_task_event_artifact E reference (je_event E c reference) metadata job task_id author attempt = Inr u"
    and "\<And>s. je_event E c reference = Some s \<Longrightarrow> metadata = je_thread E c (ev_id (se_event s))"
  shows "evidence_for E c job task_id author attempt reference"
proof -
  obtain s where s: "je_event E c reference = Some s"
    using assms(1) by (auto simp: validate_task_event_artifact_def res_simps)
  with assms show ?thesis
    unfolding evidence_for_def validate_task_event_artifact_def
    by (auto simp: res_simps split: if_splits dest!: exact_tag)
qed

lemma references_checked:
  "validate_references E c job task_id author attempt refs = Inr u \<Longrightarrow> reference \<in> set refs
    \<Longrightarrow> evidence_for E c job task_id author attempt reference"
proof (induction refs)
  case (Cons r rest)
  from Cons.prems(1) obtain metadata u' where md: "(if je_event E c r = None then Inr None
       else db_read E ''thread'' (je_thread E c (ev_id (se_event (the (je_event E c r)))))) = Inr metadata"
    and v: "validate_task_event_artifact E r (je_event E c r) metadata job task_id author attempt = Inr u'"
    and rest: "validate_references E c job task_id author attempt rest = Inr u"
    by (auto simp: Let_def res_simps)
  from md have "metadata = je_thread E c (ev_id (se_event s))" if "je_event E c r = Some s" for s
    using that by (auto simp: db_read_def split: if_splits)
  with v have "evidence_for E c job task_id author attempt r" by (rule artifact_checked)
  with Cons rest show ?case by auto
qed simp

lemma reference_loop_covers:
  "reference_loop seen artifacts = Inr refs \<Longrightarrow> a \<in> set artifacts
    \<Longrightarrow> to_ascii_lowercase (ta_reference a) \<in> set seen \<union> fst ` set refs"
proof (induction seen artifacts arbitrary: refs rule: reference_loop.induct)
  case (2 seen b rest)
  show ?case
  proof (cases "to_ascii_lowercase (ta_reference b) \<in> set seen")
    case True
    with 2 show ?thesis by (auto simp: Let_def)
  next
    case False
    with "2.prems"(1) obtain bytes refs' where "reference_loop (to_ascii_lowercase (ta_reference b) # seen) rest = Inr refs'"
      "refs = (to_ascii_lowercase (ta_reference b), bytes) # refs'" by (auto simp: Let_def res_simps)
    with False "2.prems"(2) "2.IH"(2) [OF refl False] show ?thesis by fastforce
  qed
qed simp

lemma artifacts_checked:
  assumes "validate_task_event_artifacts E c ev job task_id outcome = Inr u"
  shows "a \<in> set (jo_artifacts outcome) \<Longrightarrow> ta_kind a = ArtifactEvent
      \<Longrightarrow> evidence_for E c job task_id (ev_pubkey ev) (jo_attempt outcome) (to_ascii_lowercase (ta_reference a))"
    and "length (filter (\<lambda>a. ta_kind a = ArtifactEvent) (jo_artifacts outcome)) \<le> 16"
proof -
  from assms(1) obtain refs where refs: "unique_task_event_references (jo_artifacts outcome) = Inr refs"
    and v: "validate_references E c job task_id (ev_pubkey ev) (jo_attempt outcome) (map fst refs) = Inr u"
    by (auto simp: validate_task_event_artifacts_def res_simps)
  from refs have loop: "reference_loop [] (filter (\<lambda>a. ta_kind a = ArtifactEvent) (jo_artifacts outcome)) = Inr refs"
    and "length (filter (\<lambda>a. ta_kind a = ArtifactEvent) (jo_artifacts outcome)) \<le> 16"
    by (auto simp: unique_task_event_references_def Let_def MAX_TASK_EVENT_ARTIFACTS_def split: if_splits)
  then show "length (filter (\<lambda>a. ta_kind a = ArtifactEvent) (jo_artifacts outcome)) \<le> 16" by blast
  assume a: "a \<in> set (jo_artifacts outcome)" "ta_kind a = ArtifactEvent"
  from reference_loop_covers [OF loop, of a] a have "to_ascii_lowercase (ta_reference a) \<in> set (map fst refs)" by simp
  with v show "evidence_for E c job task_id (ev_pubkey ev) (jo_attempt outcome) (to_ascii_lowercase (ta_reference a))"
    by (rule references_checked)
qed

lemma db_read_Inr: "db_read E label answer = Inr b \<longleftrightarrow> je_fault E label = NoFault \<and> b = answer"
  by (auto simp: db_read_def)

lemma finished_checked:
  assumes "handle_outcome E c ev st = (Inr Finished, st')"
  shows "\<exists>j r job. outcome_checked E c ev (js_jobs st) = Inr (Some (j, r)) \<and> parse_job_outcome (je_json_artifact E) ev = Inr r
    \<and> hex32 (jo_job_hex r) = Inr j \<and> find_job c j (js_jobs st) = Some job
    \<and> (jr_task_id job \<noteq> None \<and> jo_status r = JobDone \<longrightarrow> jo_artifacts r \<noteq> []
        \<and> task_outcome_holds_current_lease job (ev_pubkey ev) (jo_attempt r) (je_now E)
        \<and> (\<exists>u. validate_task_event_artifacts E c ev job (the (jr_task_id job)) r = Inr u))"
proof -
  from assms obtain j r where checked: "outcome_checked E c ev (js_jobs st) = Inr (Some (j, r))"
    by (auto simp: handle_outcome_def split: sum.splits option.splits prod.splits if_splits)
  let ?lease = "\<lambda>job r. case (jo_status r, jr_task_id job) of
             (JobDone, Some task_id) \<Rightarrow>
               if \<not> task_outcome_holds_current_lease job (ev_pubkey ev) (jo_attempt r) (je_now E)
               then Inl (Rejected ''does not hold the current lease'')
               else validate_task_event_artifacts E c ev job task_id r
           | _ \<Rightarrow> Inr ()"
  obtain r' j' job where parts: "parse_job_outcome (je_json_artifact E) ev = Inr r'" "hex32 (jo_job_hex r') = Inr j'"
    "find_job c j' (js_jobs st) = Some job"
    and gates: "(if is_recorded_outcome job ev then Inr None
       else if jr_task_id job \<noteq> None \<and> jo_status r' = JobDone \<and> jo_artifacts r' = []
       then Inl (Rejected ''a delivered Task requires an artifact'')
       else and_then (?lease job r') (\<lambda>_. Inr (Some (j', r')))) = (Inr (Some (j, r)) :: JobEventError + (string \<times> ParsedJobOutcome) option)"
    using checked unfolding outcome_checked_def and_then_Inr map_err_Inr ok_or_Inr db_read_Inr
    by (elim exE conjE) (rule that, assumption+, simp, assumption)
  from gates have some: "jr_task_id job \<noteq> None \<and> jo_status r' = JobDone \<Longrightarrow> jo_artifacts r' \<noteq> []"
    and gate: "and_then (?lease job r') (\<lambda>_. Inr (Some (j', r'))) = Inr (Some (j, r))"
    by (metis Inl_Inr_False old.sum.inject(2) option.distinct(1))+
  from gate have same: "j' = j" "r' = r" by (auto simp: and_then_Inr)
  have "task_outcome_holds_current_lease job (ev_pubkey ev) (jo_attempt r) (je_now E)
      \<and> (\<exists>u. validate_task_event_artifacts E c ev job t r = Inr u)" if "jr_task_id job = Some t" "jo_status r = JobDone" for t
    using gate that unfolding same by (auto simp: and_then_Inr split: if_splits)
  with checked parts some show ?thesis unfolding same by auto
qed

text \<open>
  C11: a Task is delivered only with evidence: when an outcome reports a Task done and is
  accepted, its author held the current attempt with the lease unexpired, it names at least
  one artifact and at most sixteen events, and every event it names is stored, verified, a
  content event signed by that author, posted in the channel and thread of the job, and
  marked with exactly this task, this job and this attempt.
\<close>

theorem delivered_task_has_evidence:
  assumes "handle_outcome E c ev st = (Inr Finished, st')"
    and "parse_job_outcome (je_json_artifact E) ev = Inr r" and "jo_status r = JobDone"
    and "hex32 (jo_job_hex r) = Inr j" and "find_job c j (js_jobs st) = Some job" and "jr_task_id job = Some task_id"
  shows "jr_status job = JobLeased \<and> jr_lease_holder job = Some (ev_pubkey ev) \<and> jr_attempts job = jo_attempt r
    \<and> (\<exists>deadline. jr_lease_expires_at job = Some deadline \<and> je_now E \<le> deadline)
    \<and> jo_artifacts r \<noteq> [] \<and> length (filter (\<lambda>a. ta_kind a = ArtifactEvent) (jo_artifacts r)) \<le> 16
    \<and> (\<forall>a \<in> set (jo_artifacts r). ta_kind a = ArtifactEvent \<longrightarrow>
        evidence_for E c job task_id (ev_pubkey ev) (jo_attempt r) (to_ascii_lowercase (ta_reference a)))"
proof -
  from finished_checked [OF assms(1)] assms(2-6) obtain u where
    lease: "task_outcome_holds_current_lease job (ev_pubkey ev) (jo_attempt r) (je_now E)" and some: "jo_artifacts r \<noteq> []"
    and checked: "validate_task_event_artifacts E c ev job task_id r = Inr u" by auto
  from lease some artifacts_checked [OF checked] show ?thesis
    by (auto simp: task_outcome_holds_current_lease_def split: option.splits)
qed

end
