(* ===== verification/Job_Recovery.thy ===== *)
theory Job_Recovery
  imports Job_Evidence
begin

text \<open>
  Work whose machine died goes on: the human it belongs to can claim it again, and the sweep
  takes back every lapsed lease in as many passes as its limit needs.
\<close>

section \<open>Claiming again\<close>

definition takeable :: "int \<Rightarrow> JobRow \<Rightarrow> bool" where
  "takeable now job \<longleftrightarrow> jr_status job = JobOpen
     \<or> jr_status job = JobLeased \<and> jr_attempts job < 3
       \<and> (case jr_lease_expires_at job of Some deadline \<Rightarrow> deadline < now | None \<Rightarrow> False)"

lemma claim_succeeds:
  assumes "jobs_inv tbl" and "find_job c j tbl = Some job" and "takeable now job" and "jr_originator job = h"
  shows "\<exists>tbl'. claim_job c j h MAX_JOB_ATTEMPTS now expires tbl
      = (Inr (Some (job\<lparr>jr_status := JobLeased, jr_lease_holder := Some h, jr_lease_expires_at := Some expires,
           jr_attempts := jr_attempts job + 1, jr_updated_at := now\<rparr>)), tbl')
    \<and> find_job c j tbl' = Some (job\<lparr>jr_status := JobLeased, jr_lease_holder := Some h, jr_lease_expires_at := Some expires,
           jr_attempts := jr_attempts job + 1, jr_updated_at := now\<rparr>)"
proof -
  obtain row where row: "map_of tbl (c, j) = Some row" "job = row_to_job row"
    using assms(2) by (auto simp: find_job_eq)
  have inv: "row_life (row_to_job row)" "row_ok row" using jobs_invD [OF assms(1) row(1)] by (simp_all add: inv_simps)
  let ?new = "row\<lparr>jr_status := JobLeased, jr_lease_holder := Some h, jr_lease_expires_at := Some expires,
                jr_attempts := jr_attempts row + 1, jr_updated_at := now\<rparr>"
  have "row_ok ?new"
    using inv(2) assms(4) row(2) by (auto simp: row_ok_def shape_check_def opt_octets_def lease_check_def checkpoint_check_def delivery_check_def)
  moreover have "jr_attempts row < MAX_JOB_ATTEMPTS
        \<and> (jr_status row = JobOpen
           \<or> jr_status row = JobLeased \<and> (case jr_lease_expires_at row of Some d \<Rightarrow> d < now | None \<Rightarrow> False))"
    using assms(3) inv(1) by (auto simp: row(2) takeable_def row_life_def MAX_JOB_ATTEMPTS_def)
  moreover have "row_to_job ?new = job\<lparr>jr_status := JobLeased, jr_lease_holder := Some h, jr_lease_expires_at := Some expires,
           jr_attempts := jr_attempts job + 1, jr_updated_at := now\<rparr>"
    by (simp add: row(2) row_to_job_def JobRow.truncate_def)
  ultimately show ?thesis
    by (simp add: claim_job_def as_jobs_def update_row_def row(1) find_job_eq store_simps)
qed

text \<open>
  Work is never stuck with a dead machine: whenever a job is open, or its lease has passed
  its deadline and it has attempts left, a claim by the human it belongs to wins it, whatever
  happened before: the job is then leased to that human for the next attempt, with the full
  lease from now.
\<close>

theorem lapsed_job_is_claimed:
  assumes "(job_step staff)\<^sup>*\<^sup>* job_start st" and "find_job c j (js_jobs st) = Some job" and "takeable (je_now E) job"
    and "ev_kind ev = KIND_JOB_CLAIM" and "parse_job_claim ev = Inr claim" and "jl_job_hex claim = j"
    and "ev_pubkey ev = jr_originator job" and "je_fault E ''find'' = NoFault" and "je_fault E ''claim'' = NoFault"
  shows "fst (handle_job_event E c ev st) = Inr Claimed
    \<and> find_job c j (js_jobs (snd (handle_job_event E c ev st))) = Some (job\<lparr>jr_status := JobLeased,
        jr_lease_holder := Some (ev_pubkey ev), jr_lease_expires_at := Some (je_now E + 120),
        jr_attempts := jr_attempts job + 1, jr_updated_at := je_now E\<rparr>)"
proof -
  have inv: "jobs_inv (js_jobs st)" by (rule reachable_inv [OF assms(1)])
  from claim_succeeds [OF this assms(2,3) assms(7) [symmetric], of "je_now E + JOB_LEASE_SECS"] obtain tbl' where claimed:
    "claim_job c j (ev_pubkey ev) MAX_JOB_ATTEMPTS (je_now E) (je_now E + JOB_LEASE_SECS) (js_jobs st)
      = (Inr (Some (job\<lparr>jr_status := JobLeased, jr_lease_holder := Some (ev_pubkey ev),
           jr_lease_expires_at := Some (je_now E + JOB_LEASE_SECS), jr_attempts := jr_attempts job + 1,
           jr_updated_at := je_now E\<rparr>)), tbl')"
    and found: "find_job c j tbl' = Some (job\<lparr>jr_status := JobLeased, jr_lease_holder := Some (ev_pubkey ev),
           jr_lease_expires_at := Some (je_now E + JOB_LEASE_SECS), jr_attempts := jr_attempts job + 1,
           jr_updated_at := je_now E\<rparr>)" by blast
  have "hex_id j"
    using assms(2) jobs_invD [OF inv, of "(c, j)"] by (auto simp: find_job_eq inv_simps row_text_def)
  then have "hex32 j = Inr j" by (rule hex32_id)
  with assms claimed have "handle_job_event E c ev st = (Inr Claimed, publish_job_head E c j (st\<lparr>js_jobs := tbl'\<rparr>))"
    by (simp add: handle_job_event_def Let_def handle_claim_def load_job_def db_read_def db_call_def
        KIND_JOB_CLAIM_def KIND_JOB_FILING_def)
  with found show ?thesis by (simp add: publish_same_jobs JOB_LEASE_SECS_def)
qed

section \<open>The sweep drains\<close>

definition overdue :: "int \<Rightarrow> JobRow \<Rightarrow> bool" where
  "overdue now job \<longleftrightarrow> jr_status job = JobLeased
     \<and> (case jr_lease_expires_at job of Some deadline \<Rightarrow> deadline < now | None \<Rightarrow> False)"

definition taken_back :: "int \<Rightarrow> JobRow \<Rightarrow> JobRow" where
  "taken_back now job = (if overdue now job
     then job\<lparr>jr_status := (if 3 \<le> jr_attempts job then JobAbandoned else JobOpen), jr_lease_holder := None,
       jr_lease_expires_at := None, jr_updated_at := now\<rparr> else job)"

abbreviation overdue_jobs :: "int \<Rightarrow> jobs_table \<Rightarrow> jobs_table" where
  "overdue_jobs now tbl \<equiv> filter (\<lambda>(_, row). overdue now (row_to_job row)) tbl"

lemma taken_back_twice: "taken_back now (taken_back now job) = taken_back now job"
  by (simp add: taken_back_def overdue_def)

lemma lapse_taken_back: "overdue now (row_to_job row) \<Longrightarrow> row_to_job (lapse now MAX_JOB_ATTEMPTS row) = taken_back now (row_to_job row)"
  by (simp add: taken_back_def lapse_def row_to_job_def JobRow.truncate_def MAX_JOB_ATTEMPTS_def)

lemma due_rows_overdue:
  "due_rows now limit tbl = take limit (sort_key (\<lambda>(_, row). the (jr_lease_expires_at row)) (overdue_jobs now tbl))"
  by (simp add: due_rows_def overdue_def)

lemma overdue_keys:
  "keys_ok tbl \<Longrightarrow> k \<in> fst ` set (overdue_jobs now tbl) \<longleftrightarrow> (\<exists>job. find_job (fst k) (snd k) tbl = Some job \<and> overdue now job)"
proof -
  assume keys: "keys_ok tbl"
  have "k \<in> fst ` set (overdue_jobs now tbl) \<longleftrightarrow> (\<exists>row. (k, row) \<in> set tbl \<and> overdue now (row_to_job row))" by force
  also have "\<dots> \<longleftrightarrow> (\<exists>job. find_job (fst k) (snd k) tbl = Some job \<and> overdue now job)"
    using keys by (auto simp: find_job_eq keys_ok_def map_of_distinct_mem)
  finally show ?thesis .
qed

lemma fold_publish_jobs: "find_job c j (js_jobs (fold (publish_reclaimed E) rows st)) = find_job c j (js_jobs st)"
  by (induction rows arbitrary: st) (simp_all add: publish_reclaimed_def publish_same_jobs)

text \<open>One pass, seen through the jobs: those it takes are taken back, and they are as many as its limit allows.\<close>

lemma tick_view:
  fixes now :: int
  assumes "jobs_inv (js_jobs st)" and "je_fault E ''expire'' = NoFault" and "\<And>c. je_hosts E c \<noteq> None"
  defines "due \<equiv> due_rows now MAX_LEASES_PER_TICK (js_jobs st)" and "st1 \<equiv> snd (run_job_lease_tick E now st)"
  shows "find_job c j (js_jobs st1)
    = map_option (if (c, j) \<in> fst ` set due then taken_back now else id) (find_job c j (js_jobs st))"
proof -
  let ?tbl = "js_jobs st"
  let ?S = "swept (je_hosts E) now MAX_JOB_ATTEMPTS MAX_LEASES_PER_TICK ?tbl"
  have keys: "keys_ok ?tbl" using assms(1) by (simp add: jobs_inv_def table_ok_def)
  have "filter (\<lambda>((community, _), _). je_hosts E community \<noteq> None) due = due"
    using assms(3) by (simp add: case_prod_unfold)
  then have S: "?S = map (\<lambda>(key, row). (key, lapse now MAX_JOB_ATTEMPTS row)) due" by (simp add: swept_def due_def)
  obtain rows where "fst (expire_due_leases (je_hosts E) now MAX_JOB_ATTEMPTS MAX_LEASES_PER_TICK ?tbl) = Inr rows"
    using sweep_inv(2) [OF assms(1)] by blast
  then have "st1 = fold (publish_reclaimed E) rows
      (st\<lparr>js_jobs := fold (\<lambda>(key, row). AList.update key row) ?S ?tbl\<rparr>)"
    using assms(2) unfolding st1_def run_job_lease_tick_def db_call_def by (auto simp: expire_eq split: if_splits)
  then have "find_job c j (js_jobs st1) = find_job c j (fold (\<lambda>(key, row). AList.update key row) ?S ?tbl)"
    by (simp add: fold_publish_jobs)
  also have "\<dots> = (case map_of ?S (c, j) of None \<Rightarrow> find_job c j ?tbl | Some row \<Rightarrow> Some (row_to_job row))"
    using fold_update_lookup [OF swept_in(1) [OF keys]] by (simp add: find_job_eq split: option.split)
  also have "\<dots> = map_option (if (c, j) \<in> fst ` set due then taken_back now else id) (find_job c j ?tbl)"
  proof (cases "map_of due (c, j)")
    case None
    then have "(c, j) \<notin> fst ` set due" by (simp add: map_of_eq_None_iff)
    with None show ?thesis by (simp add: S map_of_map option.map_id)
  next
    case (Some row)
    then have mem: "((c, j), row) \<in> set due" by (rule map_of_SomeD)
    from due_rows_in(2) [OF keys mem [unfolded due_def]] have "map_of ?tbl (c, j) = Some row" "overdue now (row_to_job row)"
      by (auto simp: overdue_def)
    moreover from mem have "(c, j) \<in> fst ` set due" by force
    ultimately show ?thesis using Some by (simp add: S map_of_map find_job_eq lapse_taken_back)
  qed
  finally show ?thesis .
qed

lemma tick_count:
  fixes now :: int
  assumes "jobs_inv (js_jobs st)" and "je_fault E ''expire'' = NoFault" and "\<And>c. je_hosts E c \<noteq> None"
  defines "st1 \<equiv> snd (run_job_lease_tick E now st)"
  shows "length (overdue_jobs now (js_jobs st1)) = length (overdue_jobs now (js_jobs st)) - MAX_LEASES_PER_TICK"
    and "jobs_inv (js_jobs st1)"
proof -
  show inv1: "jobs_inv (js_jobs st1)"
    unfolding st1_def by (rule jm.inv_steps [OF acts_table [OF lease_tick_moves] assms(1)])
  let ?due = "due_rows now MAX_LEASES_PER_TICK (js_jobs st)"
  let ?O = "\<lambda>st. fst ` set (overdue_jobs now (js_jobs st))"
  have keys: "keys_ok (js_jobs st)" "keys_ok (js_jobs st1)" using assms(1) inv1 by (simp_all add: jobs_inv_def table_ok_def)
  have count: "card (fst ` set (overdue_jobs now tbl)) = length (overdue_jobs now tbl)" if "keys_ok tbl" for tbl
    using keys_ok_filter [OF that] distinct_card unfolding keys_ok_def by (metis length_map list.set_map)
  have "card (fst ` set ?due) = length ?due"
    using due_rows_in(1) [OF keys(1)] distinct_card by (metis length_map list.set_map)
  then have due: "card (fst ` set ?due) = min (length (overdue_jobs now (js_jobs st))) MAX_LEASES_PER_TICK"
    by (simp add: due_rows_overdue)
  have sub: "fst ` set ?due \<subseteq> ?O st" by (auto simp: due_rows_overdue image_iff dest!: in_set_takeD) 
  have "k \<in> ?O st1 \<longleftrightarrow> k \<in> ?O st - fst ` set ?due" for k
    unfolding overdue_keys [OF keys(2)] overdue_keys [OF keys(1)] Diff_iff
    using tick_view [OF assms(1-3), of "fst k" "snd k" now]
    by (auto simp: st1_def taken_back_def overdue_def split: if_splits)
  then have "?O st1 = ?O st - fst ` set ?due" by blast
  then have "card (?O st1) = card (?O st) - card (fst ` set ?due)" using sub by (simp add: card_Diff_subset)
  then show "length (overdue_jobs now (js_jobs st1)) = length (overdue_jobs now (js_jobs st)) - MAX_LEASES_PER_TICK"
    unfolding count [OF keys(1)] count [OF keys(2)] due by simp
qed

lemma ticks_drain:
  assumes "je_fault E ''expire'' = NoFault" and "\<And>c. je_hosts E c \<noteq> None"
  shows "jobs_inv (js_jobs st) \<Longrightarrow> length (overdue_jobs now (js_jobs st)) \<le> MAX_LEASES_PER_TICK * n
    \<Longrightarrow> find_job c j (js_jobs (((\<lambda>s. snd (run_job_lease_tick E now s)) ^^ n) st)) = map_option (taken_back now) (find_job c j (js_jobs st))"
proof (induction n arbitrary: st)
  case 0
  have "keys_ok (js_jobs st)" using 0(1) by (simp add: jobs_inv_def table_ok_def)
  from overdue_keys [OF this, of "(c, j)" now] have iff: "(c, j) \<in> fst ` set (overdue_jobs now (js_jobs st))
      \<longleftrightarrow> (\<exists>job. find_job c j (js_jobs st) = Some job \<and> overdue now job)" by (simp only: fst_conv snd_conv)
  have "overdue_jobs now (js_jobs st) = []" using 0(2) by simp
  with iff have "\<not> overdue now job" if "find_job c j (js_jobs st) = Some job" for job
    using that by (simp only: list.set image_empty empty_iff) blast
  then show ?case by (cases "find_job c j (js_jobs st)") (simp_all add: taken_back_def)
next
  case (Suc n)
  let ?st1 = "snd (run_job_lease_tick E now st)"
  note count = tick_count [OF Suc.prems(1) assms, of now]
  have "find_job c j (js_jobs (((\<lambda>s. snd (run_job_lease_tick E now s)) ^^ n) ?st1)) = map_option (taken_back now) (find_job c j (js_jobs ?st1))"
    using Suc.prems(2) count by (intro Suc.IH) simp_all
  also have "\<dots> = map_option (taken_back now) (find_job c j (js_jobs st))"
    unfolding tick_view [OF Suc.prems(1) assms] by (simp add: option.map_comp o_def taken_back_twice)
  finally show ?case by (simp add: funpow_Suc_right del: funpow.simps)
qed

text \<open>
  The sweep leaves nobody waiting on a dead machine: when at most 200 n leases are past
  their deadline and their communities exist, n passes that reach the database take them all
  back and touch no other job: each is open again, or abandoned if it has had its three
  attempts.
\<close>

theorem lease_sweep_drains:
  assumes "(job_step staff)\<^sup>*\<^sup>* job_start st" and "je_fault E ''expire'' = NoFault" and "\<forall>c. je_hosts E c \<noteq> None"
    and "length (overdue_jobs now (js_jobs st)) \<le> 200 * n"
    and "st' = ((\<lambda>s. snd (run_job_lease_tick E now s)) ^^ n) st"
  shows "find_job c j (js_jobs st') = map_option (taken_back now) (find_job c j (js_jobs st))"
  using ticks_drain [of E, OF assms(2) _ reachable_inv [OF assms(1)], of now n c j] assms(3-5) by (simp add: MAX_LEASES_PER_TICK_def)

end
