(* ===== verification/Job_Fencing.thy ===== *)
theory Job_Fencing
  imports Job_Lease
begin

text \<open>
  What the simulation gives for a history of statements by any callers: an attempt of a job
  has one worker, a superseded worker changes nothing, a job that ended stays ended, and a
  lease is exclusive until its deadline.
\<close>

section \<open>Reading the log\<close>

fun wins :: "job_key \<Rightarrow> store_call \<times> (job_key \<times> JobRow) list \<Rightarrow> (string \<times> int) option" where
  "wins k (DoClaim _ _ h _ _ _, rows) = map_option (\<lambda>row. (h, jr_attempts row)) (map_of rows k)"
| "wins k _ = None"

fun works_as :: "job_key \<Rightarrow> store_call \<times> (job_key \<times> JobRow) list \<Rightarrow> (string \<times> int) option" where
  "works_as k (DoHeartbeat _ _ h n _ _, rows) = map_option (\<lambda>_. (h, n)) (map_of rows k)"
| "works_as k (DoCheckpoint _ ck, rows) = map_option (\<lambda>_. (ck_holder ck, ck_attempt ck)) (map_of rows k)"
| "works_as k (DoFinish _ oc, rows) = map_option (\<lambda>_. (fj_holder oc, fj_attempt oc)) (map_of rows k)"
| "works_as k _ = None"

fun releases :: "job_key \<Rightarrow> store_call \<times> (job_key \<times> JobRow) list \<Rightarrow> bool" where
  "releases k (DoFinish _ _, rows) \<longleftrightarrow> map_of rows k \<noteq> None"
| "releases k (DoExpire _ _ _ _, rows) \<longleftrightarrow> map_of rows k \<noteq> None"
| "releases k _ \<longleftrightarrow> False"

fun ends :: "job_key \<Rightarrow> store_call \<times> (job_key \<times> JobRow) list \<Rightarrow> bool" where
  "ends k (DoFinish _ _, rows) \<longleftrightarrow> map_of rows k \<noteq> None"
| "ends k (DoExpire _ _ cap _, rows) \<longleftrightarrow> (case map_of rows k of Some row \<Rightarrow> jr_status row = JobAbandoned | None \<Rightarrow> False)"
| "ends k _ \<longleftrightarrow> False"

fun extends :: "job_key \<Rightarrow> store_call \<times> (job_key \<times> JobRow) list \<Rightarrow> int option" where
  "extends k (DoClaim _ _ _ _ _ d, rows) = map_option (\<lambda>_. d) (map_of rows k)"
| "extends k (DoHeartbeat _ _ _ _ _ d, rows) = map_option (\<lambda>_. d) (map_of rows k)"
| "extends k (DoCheckpoint _ ck, rows) = map_option (\<lambda>_. ck_lease_expires_at ck) (map_of rows k)"
| "extends k _ = None"

fun takes_at :: "job_key \<Rightarrow> store_call \<times> (job_key \<times> JobRow) list \<Rightarrow> int option" where
  "takes_at k (DoClaim _ _ _ _ now _, rows) = map_option (\<lambda>_. now) (map_of rows k)"
| "takes_at k (DoExpire _ now _ _, rows) = map_option (\<lambda>_. now) (map_of rows k)"
| "takes_at k _ = None"

section \<open>Runs of the machine\<close>

lemma run_simulates:
  assumes "table_ok tbl" and "store_run calls tbl = (log, tbl')"
  shows "table_ok tbl' \<and> lease_steps k (phase_of (map_of tbl k)) log = Some (phase_of (map_of tbl' k))"
  using assms
proof (induction calls arbitrary: tbl log)
  case (Cons call calls)
  obtain rows tbl1 where step: "store_perform call tbl = (rows, tbl1)" by fastforce
  obtain log1 where rest: "store_run calls tbl1 = (log1, tbl')" and log: "log = (call, rows) # log1"
    using Cons.prems(2) step by (auto split: prod.splits)
  from store_simulates [OF Cons.prems(1) step] Cons.IH [OF _ rest] log show ?case by simp
qed simp

lemma lease_steps_append:
  "lease_steps k ph (xs @ ys) = (case lease_steps k ph xs of None \<Rightarrow> None | Some ph1 \<Rightarrow> lease_steps k ph1 ys)"
  by (induction xs arbitrary: ph) (auto split: option.splits)

lemma log_cut:
  assumes "lease_steps k ph log = Some ph'" and "i < length log"
  obtains ph1 ph2 where "lease_steps k ph (take i log) = Some ph1" "lease_next k ph1 (log ! i) = Some ph2"
    "lease_steps k ph2 (drop (Suc i) log) = Some ph'"
proof -
  have "log = take i log @ log ! i # drop (Suc i) log" using assms(2) by (rule id_take_nth_drop)
  then have "lease_steps k ph (take i log @ log ! i # drop (Suc i) log) = Some ph'" using assms(1) by simp
  then show thesis
    using that by (auto simp: lease_steps_append split: option.splits)
qed

text \<open>What an entry does, read off the machine.\<close>

lemma next_wins:
  assumes "lease_next k ph e = Some ph'" and "wins k e = Some (h, n)"
  shows "(\<exists>d. ph' = Held h n d) \<and> (ph = Waiting (n - 1) \<or> (\<exists>h' d t. ph = Held h' (n - 1) d \<and> takes_at k e = Some t \<and> d < t))"
  using assms by (cases e; cases "fst e"; cases ph) (auto split: option.splits if_splits)

lemma next_works:
  assumes "lease_next k ph e = Some ph'" and "works_as k e = Some (h, n)"
  shows "\<exists>d. ph = Held h n d"
  using assms by (cases e; cases "fst e"; cases ph) (auto split: option.splits if_splits)

lemma next_quiet:
  assumes "lease_next k ph e = Some ph'" and "wins k e = None" and "\<not> releases k e" and "ph' = Held h n d"
  shows "\<exists>d'. ph = Held h n d' \<and> (extends k e = None \<longrightarrow> d' = d)"
  using assms by (cases e; cases "fst e"; cases ph) (auto split: option.splits if_splits)

lemma next_releases:
  assumes "lease_next k ph e = Some ph'" and "releases k e"
  shows "ph' = Over \<or> (\<exists>h n d t. ph = Held h n d \<and> takes_at k e = Some t \<and> d < t)"
  using assms by (cases e; cases "fst e"; cases ph) (auto split: option.splits if_splits)

lemma next_extends:
  assumes "lease_next k ph e = Some ph'" and "extends k e = Some d"
  shows "\<exists>h n. ph' = Held h n d"
  using assms by (cases e; cases "fst e"; cases ph) (auto split: option.splits if_splits)

lemma next_still:
  assumes "lease_next k (Held h n d) e = Some ph'" and "extends k e = None"
  shows "ph' = Held h n d \<or> releases k e"
  using assms by (cases e; cases "fst e") (auto split: option.splits if_splits)

lemma next_over:
  assumes "lease_next k Over e = Some ph'"
  shows "ph' = Over \<and> wins k e = None \<and> works_as k e = None"
  using assms by (cases e; cases "fst e") (auto split: option.splits if_splits)

lemma next_ends:
  assumes "lease_next k ph e = Some ph'" and "ends k e"
  shows "ph' = Over"
  using assms by (cases e; cases "fst e"; cases ph) (auto split: option.splits if_splits)

text \<open>Where a holder comes from, that attempts only grow, and that an end is an end.\<close>

lemma held_since:
  assumes "lease_steps k Absent log = Some (Held h n d)"
  shows "\<exists>j < length log. wins k (log ! j) = Some (h, n)
    \<and> (\<forall>m. j < m \<and> m < length log \<longrightarrow> wins k (log ! m) = None \<and> \<not> releases k (log ! m))"
  using assms
proof (induction log arbitrary: d rule: rev_induct)
  case (snoc e log)
  then obtain ph where ph: "lease_steps k Absent log = Some ph" "lease_next k ph e = Some (Held h n d)"
    by (auto simp: lease_steps_append split: option.splits)
  show ?case
  proof (cases "wins k e")
    case None
    have quiet: "\<not> releases k e"
      using next_releases [OF ph(2)] ph(2) by (cases e; cases "fst e"; cases ph) (auto split: option.splits if_splits)
    from next_quiet [OF ph(2) None quiet refl] obtain d' where "ph = Held h n d'" by blast
    from snoc.IH [OF ph(1) [unfolded this]] obtain j where
      j: "j < length log" "wins k (log ! j) = Some (h, n)"
        "\<forall>m. j < m \<and> m < length log \<longrightarrow> wins k (log ! m) = None \<and> \<not> releases k (log ! m)" by blast
    with None quiet show ?thesis by (intro exI [of _ j]) (auto simp: nth_append less_Suc_eq)
  next
    case (Some w)
    then have "w = (h, n)" using next_wins [OF ph(2), of "fst w" "snd w"] by (cases w) auto
    with Some show ?thesis by (intro exI [of _ "length log"]) (auto simp: nth_append)
  qed
qed simp

definition reached :: "int \<Rightarrow> lease_phase \<Rightarrow> bool" where
  "reached n ph \<longleftrightarrow> ph = Over \<or> (\<exists>m \<ge> n. ph = Waiting m \<or> (\<exists>h d. ph = Held h m d))"

lemma reached_next:
  assumes "lease_next k ph e = Some ph'" and "reached n ph"
  shows "reached n ph'"
  using assms unfolding reached_def by (cases e; cases "fst e"; cases ph) (auto split: option.splits if_splits)

lemma reached_steps: "lease_steps k ph log = Some ph' \<Longrightarrow> reached n ph \<Longrightarrow> reached n ph'"
  by (induction log arbitrary: ph) (auto dest: reached_next split: option.splits)

lemma over_steps:
  "lease_steps k Over log = Some ph' \<Longrightarrow> ph' = Over \<and> (\<forall>e \<in> set log. wins k e = None \<and> works_as k e = None)"
proof (induction log)
  case (Cons e log)
  then obtain ph1 where ph1: "lease_next k Over e = Some ph1" "lease_steps k ph1 log = Some ph'"
    by (auto split: option.splits)
  with next_over [OF ph1(1)] Cons.IH show ?case by simp
qed simp

lemma still_steps:
  assumes "lease_steps k (Held h n d) es = Some ph" and "\<And>e. e \<in> set es \<Longrightarrow> extends k e = None"
  shows "ph = Held h n d \<or> ph = Over \<or> (\<exists>e \<in> set es. \<exists>t. takes_at k e = Some t \<and> d < t)"
  using assms
proof (induction es)
  case (Cons e es)
  then obtain ph1 where ph1: "lease_next k (Held h n d) e = Some ph1" "lease_steps k ph1 es = Some ph"
    by (auto split: option.splits)
  from next_still [OF ph1(1)] Cons.prems(2) next_releases [OF ph1(1)]
  consider "ph1 = Held h n d" | "ph1 = Over" | t where "takes_at k e = Some t" "d < t" by fastforce
  then show ?case
  proof cases
    case 1
    with ph1(2) Cons.IH Cons.prems(2) show ?thesis by auto
  next
    case 2
    with ph1(2) over_steps show ?thesis by blast
  qed auto
qed simp

text \<open>Entry \<open>i\<close> of a run, with what came before it and, of an earlier entry, what lies between.\<close>

lemma run_entry:
  assumes "store_run calls [] = (log, tbl)" and "i < length log"
  obtains ph ph' where "lease_steps k Absent (take i log) = Some ph" "lease_next k ph (log ! i) = Some ph'"
proof -
  have "lease_steps k Absent log = Some (phase_of (map_of tbl k))"
    using run_simulates [OF table_ok_Nil assms(1), of k] by (simp add: phase_of_def)
  from log_cut [OF this assms(2)] that show thesis by blast
qed

lemma run_between:
  assumes "store_run calls [] = (log, tbl)" and "i < length log" and "j < i"
  obtains ph1 ph2 ph ph' where "lease_steps k Absent (take j log) = Some ph1" "lease_next k ph1 (log ! j) = Some ph2"
    "lease_steps k ph2 (drop (Suc j) (take i log)) = Some ph" "lease_next k ph (log ! i) = Some ph'"
proof -
  from run_entry [OF assms(1,2), of k] obtain ph ph' where
    ph: "lease_steps k Absent (take i log) = Some ph" "lease_next k ph (log ! i) = Some ph'" by blast
  have "j < length (take i log)" using assms(2,3) by simp
  from log_cut [OF ph(1) this] obtain ph1 ph2 where
    "lease_steps k Absent (take j (take i log)) = Some ph1" "lease_next k ph1 (take i log ! j) = Some ph2"
    "lease_steps k ph2 (drop (Suc j) (take i log)) = Some ph" by blast
  with ph assms(3) that show thesis by simp
qed

section \<open>Properties\<close>

text \<open>
  C2: a job has one worker per attempt. In any history of the table, whoever issued the
  statements and in whatever order they interleave: a heartbeat, checkpoint or outcome that
  takes effect is by the seat that won that attempt, and since that claim nobody else won the
  job and the lease was neither swept nor finished; each claim that wins has a greater
  attempt than every earlier one; and once the job has ended, no claim, heartbeat, checkpoint
  or outcome takes effect on it again.
\<close>

theorem worker_is_fenced:
  assumes "store_run calls [] = (log, tbl)" and "i < length log"
  shows "(\<forall>h n. works_as k (log ! i) = Some (h, n) \<longrightarrow> (\<exists>j < i. wins k (log ! j) = Some (h, n)
      \<and> (\<forall>m. j < m \<and> m < i \<longrightarrow> wins k (log ! m) = None \<and> \<not> releases k (log ! m))))
    \<and> (\<forall>j < i. \<forall>h n h' n'. wins k (log ! j) = Some (h, n) \<and> wins k (log ! i) = Some (h', n') \<longrightarrow> n < n')
    \<and> (\<forall>j < i. ends k (log ! j) \<longrightarrow> wins k (log ! i) = None \<and> works_as k (log ! i) = None)"
proof (intro conjI allI impI)
  fix h n assume works: "works_as k (log ! i) = Some (h, n)"
  obtain ph ph' where ph: "lease_steps k Absent (take i log) = Some ph" "lease_next k ph (log ! i) = Some ph'"
    by (rule run_entry [OF assms, of k]) (rule that)
  from next_works [OF ph(2) works] obtain d where "ph = Held h n d" by blast
  from held_since [OF ph(1) [unfolded this]] show "\<exists>j < i. wins k (log ! j) = Some (h, n)
      \<and> (\<forall>m. j < m \<and> m < i \<longrightarrow> wins k (log ! m) = None \<and> \<not> releases k (log ! m))"
    using assms(2) by auto
next
  fix j h n h' n' assume ji: "j < i" and w: "wins k (log ! j) = Some (h, n) \<and> wins k (log ! i) = Some (h', n')"
  obtain ph1 ph2 ph ph' where ph: "lease_next k ph1 (log ! j) = Some ph2"
    "lease_steps k ph2 (drop (Suc j) (take i log)) = Some ph" "lease_next k ph (log ! i) = Some ph'"
    by (rule run_between [OF assms ji, of k]) (rule that)
  have "reached n ph2" using next_wins [OF ph(1)] w by (auto simp: reached_def)
  from reached_steps [OF ph(2) this] next_wins [OF ph(3)] w show "n < n'" by (auto simp: reached_def)
next
  fix j assume ji: "j < i" and e: "ends k (log ! j)"
  obtain ph1 ph2 ph ph' where ph: "lease_next k ph1 (log ! j) = Some ph2"
    "lease_steps k ph2 (drop (Suc j) (take i log)) = Some ph" "lease_next k ph (log ! i) = Some ph'"
    by (rule run_between [OF assms ji, of k]) (rule that)
  have "ph = Over" using over_steps [of k "drop (Suc j) (take i log)" ph] ph(2) next_ends [OF ph(1) e] by simp
  with next_over [of k "log ! i" ph'] ph(3) show "wins k (log ! i) = None" and "works_as k (log ! i) = None" by simp_all
qed

text \<open>
  A lease is exclusive until its deadline: between the last extension of a lease and the
  next claim that wins the job, the job was taken, by that claim or by the sweep, at a time
  past the deadline of the extension.
\<close>

theorem lease_is_exclusive:
  assumes "store_run calls [] = (log, tbl)" and "i < length log" and "j < i"
    and "extends k (log ! j) = Some d" and "\<forall>m. j < m \<and> m < i \<longrightarrow> extends k (log ! m) = None"
    and "wins k (log ! i) = Some (h, n)"
  shows "\<exists>m t. j < m \<and> m \<le> i \<and> takes_at k (log ! m) = Some t \<and> d < t"
proof -
  obtain ph1 ph2 ph ph' where ph: "lease_next k ph1 (log ! j) = Some ph2"
    "lease_steps k ph2 (drop (Suc j) (take i log)) = Some ph" "lease_next k ph (log ! i) = Some ph'"
    by (rule run_between [OF assms(1-3), of k]) (rule that)
  from next_extends [OF ph(1) assms(4)] obtain h0 n0 where held: "ph2 = Held h0 n0 d" by blast
  let ?mid = "drop (Suc j) (take i log)"
  have none: "extends k e = None" if "e \<in> set ?mid" for e
  proof -
    from that obtain m where "m < length ?mid" "e = ?mid ! m" by (metis in_set_conv_nth)
    with assms(2,5) show ?thesis by auto
  qed
  from still_steps [OF ph(2) [unfolded held]] none
  consider "ph = Held h0 n0 d" | "ph = Over" | e t where "e \<in> set ?mid" "takes_at k e = Some t" "d < t" by blast
  then show ?thesis
  proof cases
    case 1
    with next_wins [OF ph(3) assms(6)] assms(3) show ?thesis by auto
  next
    case 2
    with next_wins [OF ph(3) assms(6)] show ?thesis by simp
  next
    case 3
    then obtain m where "m < length ?mid" "e = ?mid ! m" by (metis in_set_conv_nth)
    with 3 assms(2) show ?thesis by (intro exI [of _ "Suc j + m"]) auto
  qed
qed

section \<open>A history\<close>

text \<open>A job is filed and claimed; the worker hangs, and another seat takes the lapsed lease over and reports.\<close>

definition demo_id :: "char \<Rightarrow> string" where
  "demo_id c = replicate 64 c"

definition demo_new :: NewJob where
  "demo_new = \<lparr>nj_job_id = demo_id CHR ''a'', nj_employee = demo_id CHR ''b'', nj_filed_by = demo_id CHR ''c'',
     nj_originator = demo_id CHR ''c'', nj_channel_id = None, nj_thread = None, nj_task_id = None,
     nj_instruction = ''Draft the update''\<rparr>"

definition lease_calls :: "store_call list" where
  "lease_calls = [DoInsert 0 1 demo_new, DoClaim 1 (demo_id CHR ''a'') (demo_id CHR ''c'') 3 10 130,
     DoClaim 1 (demo_id CHR ''a'') (demo_id CHR ''c'') 3 200 320,
     DoHeartbeat 1 (demo_id CHR ''a'') (demo_id CHR ''c'') 2 230 350]"

lemma demo_octets [simp]: "octets 32 (demo_id c)"
  by (simp add: octets_def demo_id_def)

lemma lease_history:
  "length (fst (store_run lease_calls [])) = 4"
  "wins (1, demo_id CHR ''a'') (fst (store_run lease_calls []) ! 1) = Some (demo_id CHR ''c'', 1)"
  "extends (1, demo_id CHR ''a'') (fst (store_run lease_calls []) ! 1) = Some 130"
  "wins (1, demo_id CHR ''a'') (fst (store_run lease_calls []) ! 2) = Some (demo_id CHR ''c'', 2)"
  "works_as (1, demo_id CHR ''a'') (fst (store_run lease_calls []) ! 3) = Some (demo_id CHR ''c'', 2)"
  by (simp_all add: lease_calls_def demo_new_def insert_job_def new_row_def one_row_def as_jobs_def claim_job_def
      heartbeat_job_def update_row_def row_ok_def shape_check_def lease_check_def checkpoint_check_def delivery_check_def
      opt_octets_def holds_job_def Let_def)

lemma worker_is_fenced_witness:
  "\<exists>j < 3. wins (1, demo_id CHR ''a'') (fst (store_run lease_calls []) ! j) = Some (demo_id CHR ''c'', 2)"
  using worker_is_fenced [of lease_calls "fst (store_run lease_calls [])" "snd (store_run lease_calls [])" 3 "(1, demo_id CHR ''a'')"]
    lease_history by auto

lemma lease_is_exclusive_witness:
  "\<exists>m t. 1 < m \<and> m \<le> 2 \<and> takes_at (1, demo_id CHR ''a'') (fst (store_run lease_calls []) ! m) = Some t \<and> 130 < t"
  by (rule lease_is_exclusive [of lease_calls "fst (store_run lease_calls [])" "snd (store_run lease_calls [])" 2 1
        "(1, demo_id CHR ''a'')" 130 "demo_id CHR ''c''" 2]) (use lease_history in auto)

end
