(* ===== verification/Job_Examples.thy ===== *)
theory Job_Examples
  imports Job_Recovery Job_Fencing
begin

text \<open>
  One run of the queue, evaluated: a human files a Task for an employee, a machine claims it
  and delivers it with a message as evidence. The properties of the queue are applied to it.
\<close>

section \<open>The cast\<close>

lemma demo_hex_ids [simp]:
  "hex_id (demo_id CHR ''a'')" "hex_id (demo_id CHR ''b'')" "hex_id (demo_id CHR ''c'')" "hex_id (demo_id CHR ''d'')"
  "hex_id (demo_id CHR ''e'')" "hex_id (demo_id CHR ''f'')" "hex_id (demo_id CHR ''7'')"
  by (simp_all add: hex_id_def demo_id_def list_all_iff is_lower_hex_def is_ascii_hexdigit_def is_ascii_uppercase_def is_ascii_digit_def
      byte_def)

lemma hex_id_texts:
  assumes "hex_id s"
  shows "hex64 field s = Inr s" and "hex32 s = Inr s" and "trim s = s" and "to_ascii_lowercase s = s"
  using assms hex_id_hex64 hex32_id hex_trim [OF hex_id_hex] lower_hex_fixed by (auto simp: hex_id_def)

lemma demo_chars [simp]: "byte c < 128 \<Longrightarrow> chars_count (demo_id c) = 64" "demo_id c \<noteq> []" "demo_id c = demo_id c' \<longleftrightarrow> c = c'"
  by (simp_all add: demo_id_def chars_count_def)

definition run_sign :: "string \<Rightarrow> kind \<Rightarrow> string \<Rightarrow> string list list \<Rightarrow> nat \<Rightarrow> nevent option" where
  "run_sign keys kind content tags t = Some \<lparr>ev_id = demo_id CHR ''f'', ev_pubkey = demo_id CHR ''b'', ev_created_at = t,
     ev_kind = kind, ev_tags = map (\<lambda>sl. \<lparr>tag_kind = [], tag_content = None, tag_slice = sl\<rparr>)
       (filter (\<lambda>sl. sl \<noteq> [''p'', demo_id CHR ''b'']) tags), ev_content = content\<rparr>"

definition demo_staff :: "(community_id \<times> string) set" where
  "demo_staff = {(1, demo_id CHR ''b'')}"

definition demo_message :: StoredEvent where
  "demo_message = \<lparr>se_event = \<lparr>ev_id = demo_id CHR ''d'', ev_pubkey = demo_id CHR ''c'', ev_created_at = 150,
       ev_kind = KIND_STREAM_MESSAGE, ev_tags = [wire_tag ''task'' (demo_id CHR ''7''), wire_tag ''job'' (demo_id CHR ''a''),
         wire_tag ''attempt'' ''1''], ev_content = ''done''\<rparr>,
     se_received_at = 150, se_channel_id = Some 1, se_verified = True\<rparr>"

definition run_env :: "int \<Rightarrow> job_env" where
  "run_env now = \<lparr>je_now = now, je_finished_at = now, je_fault = (\<lambda>_. NoFault),
     je_employee = (\<lambda>c k. if (c, k) = (1, demo_id CHR ''b'') then Some ''active'' else None),
     je_task_home = (\<lambda>_ _. Inr ''ch''),
     je_event = (\<lambda>_ i. if i = demo_id CHR ''d'' then Some demo_message else None),
     je_thread = (\<lambda>_ _. Some (1, Some (demo_id CHR ''e''))), je_verifies = (\<lambda>_. True),
     je_parse_uuid = (\<lambda>_. Some 1), je_show_uuid = (\<lambda>_. ''ch''),
     je_json_artifact = (\<lambda>_. Some \<lparr>ta_kind = ArtifactEvent, ta_reference = demo_id CHR ''d'', ta_label = None\<rparr>),
     je_json_checkpoint = (\<lambda>_. None), je_json_text = (\<lambda>_ _ _. demo_id CHR ''d''), je_keys = (\<lambda>_ _. Some ''key''), je_sign = run_sign,
     je_hosts = (\<lambda>_. Some ''host''), je_relay_keys = Some ''key'', je_ask = (\<lambda>_. AskApplied), je_sha256_hex = id,
     je_pubkey_ok = (\<lambda>_. True)\<rparr>"

lemma run_env_fields [simp]:
  "je_now (run_env t) = t" "je_finished_at (run_env t) = t" "je_fault (run_env t) l = NoFault"
  "je_event (run_env t) c i = (if i = demo_id CHR ''d'' then Some demo_message else None)"
  "je_thread (run_env t) c i = Some (1, Some (demo_id CHR ''e''))" "je_verifies (run_env t) ev" "je_hosts (run_env t) c = Some ''host''"
  "je_json_text (run_env t) fs cp av = demo_id CHR ''d''" "je_sign (run_env t) = run_sign"
  by (simp_all add: run_env_def)

definition run_event :: "string \<Rightarrow> kind \<Rightarrow> tag list \<Rightarrow> string \<Rightarrow> nevent" where
  "run_event i k ts content = \<lparr>ev_id = i, ev_pubkey = demo_id CHR ''c'', ev_created_at = 0, ev_kind = k, ev_tags = ts,
     ev_content = content\<rparr>"

definition demo_filing :: nevent where
  "demo_filing = run_event (demo_id CHR ''a'') KIND_JOB_FILING [wire_tag ''p'' (demo_id CHR ''b''), wire_tag ''h'' ''ch'',
     wire_tag ''e'' (demo_id CHR ''e''), wire_tag ''task'' (demo_id CHR ''7'')] (demo_id CHR ''b'')"

definition demo_claim :: nevent where
  "demo_claim = run_event (demo_id CHR ''b'') KIND_JOB_CLAIM [wire_tag ''nonce'' (demo_id CHR ''a''), wire_tag ''job'' (demo_id CHR ''a'')] []"

definition demo_outcome :: nevent where
  "demo_outcome = run_event (demo_id CHR ''f'') KIND_JOB_OUTCOME [wire_tag ''status'' ''done'', wire_tag ''attempt'' ''1'',
     wire_tag ''job'' (demo_id CHR ''a''), wire_tag ''task'' (demo_id CHR ''7''), wire_tag ''artifact'' ''{}''] []"

lemma run_env_ok: "env_ok demo_staff (run_env t)" if "0 \<le> t" "t < 1000"
  using that by (auto simp: env_ok_def clock_ok_def i64_def JOB_LEASE_SECS_def relay_sign_law_def run_env_def run_sign_def demo_staff_def o_def)

section \<open>The run\<close>

definition demo_filed :: job_state where
  "demo_filed = snd (handle_job_event (run_env 100) 1 demo_filing job_start)"

definition demo_claimed :: job_state where
  "demo_claimed = snd (handle_job_event (run_env 110) 1 demo_claim demo_filed)"

lemma demo_reachable:
  "(job_step demo_staff)\<^sup>*\<^sup>* job_start demo_filed" "(job_step demo_staff)\<^sup>*\<^sup>* job_start demo_claimed"
proof -
  have "job_step demo_staff job_start demo_filed"
    unfolding demo_filed_def by (rule job_step.submit) (simp_all add: run_env_ok event_ok_def demo_filing_def run_event_def)
  then show filed: "(job_step demo_staff)\<^sup>*\<^sup>* job_start demo_filed" by (rule r_into_rtranclp)
  have "job_step demo_staff demo_filed demo_claimed"
    unfolding demo_claimed_def by (rule job_step.submit) (simp_all add: run_env_ok event_ok_def demo_claim_def run_event_def)
  with filed show "(job_step demo_staff)\<^sup>*\<^sup>* job_start demo_claimed" by (rule rtranclp.rtrancl_into_rtrancl)
qed

definition run_row :: jobs_row where
  "run_row = \<lparr>jr_job_id = demo_id CHR ''a'', jr_employee = demo_id CHR ''b'', jr_filed_by = demo_id CHR ''c'',
     jr_originator = demo_id CHR ''c'', jr_channel_id = Some 1, jr_thread = Some (demo_id CHR ''e''), jr_task_id = Some (demo_id CHR ''7''),
     jr_instruction = demo_id CHR ''b'', jr_status = JobOpen, jr_lease_holder = None,
     jr_lease_expires_at = None, jr_attempts = 0, jr_result = None, jr_failure = None, jr_provider = None,
     jr_model = None, jr_checkpoint_seq = 0, jr_checkpoint = None, jr_checkpoint_event = None, jr_checkpoint_at = None,
     jr_artifacts = None, jr_outcome_event = None, jr_escalated_ask = None, jr_created_at = 100, jr_updated_at = 100,
     jr_head_at = 100\<rparr>"

lemma demo_parses: "parse_job_filing demo_filing = Inr \<lparr>jf_employee_hex = demo_id CHR ''b'', jf_instruction = demo_id CHR ''b'',
     jf_channel = Some ''ch'', jf_thread_hex = Some (demo_id CHR ''e''), jf_parent_job_hex = None, jf_task_id = Some (demo_id CHR ''7'')\<rparr>"
  by (simp add: demo_filing_def run_event_def parse_job_filing_def wire_eval optional_hex64_def hex_id_texts instruction_def
      MAX_JOB_INSTRUCTION_def validate_task_id_def)

lemma demo_btrim: "btrim (demo_id CHR ''7'') = demo_id CHR ''7''"
  by (simp add: btrim_def demo_id_def)

lemma run_row_ok: "row_ok (run_row\<lparr>jr_head_at := h\<rparr>)"
  by (simp add: run_row_def row_ok_def shape_check_def opt_octets_def lease_check_def checkpoint_check_def delivery_check_def demo_btrim byte_def)

lemma demo_filed_jobs: "js_jobs demo_filed = [((1, demo_id CHR ''a''), run_row)]"
proof -
  have ids: "ev_id demo_filing = demo_id CHR ''a''" "ev_pubkey demo_filing = demo_id CHR ''c''" "ev_kind demo_filing = KIND_JOB_FILING"
    by (simp_all add: demo_filing_def run_event_def)
  have job: "filing_job (run_env 100) 1 demo_filing [] = Inr \<lparr>nj_job_id = demo_id CHR ''a'', nj_employee = demo_id CHR ''b'',
      nj_filed_by = demo_id CHR ''c'', nj_originator = demo_id CHR ''c'', nj_channel_id = Some 1, nj_thread = Some (demo_id CHR ''e''),
      nj_task_id = Some (demo_id CHR ''7''), nj_instruction = demo_id CHR ''b''\<rparr>"
    by (simp add: filing_job_def demo_parses ids hex_id_texts db_read_def run_env_def resolve_originator_def check_task_home_def)
  have "insert_job 100 1 \<lparr>nj_job_id = demo_id CHR ''a'', nj_employee = demo_id CHR ''b'',
      nj_filed_by = demo_id CHR ''c'', nj_originator = demo_id CHR ''c'', nj_channel_id = Some 1, nj_thread = Some (demo_id CHR ''e''),
      nj_task_id = Some (demo_id CHR ''7''), nj_instruction = demo_id CHR ''b''\<rparr> []
    = (Inr (Some (row_to_job (run_row\<lparr>jr_head_at := 0\<rparr>))), [((1, demo_id CHR ''a''), run_row\<lparr>jr_head_at := 0\<rparr>)])"
    using run_row_ok [of 0] by (simp add: insert_job_def new_row_def run_row_def Let_def)
  with job have "handle_filing (run_env 100) 1 demo_filing job_start
      = (Inr Filed, publish_job_head (run_env 100) 1 (demo_id CHR ''a'')
          (job_start\<lparr>js_jobs := [((1, demo_id CHR ''a''), run_row\<lparr>jr_head_at := 0\<rparr>)]\<rparr>))"
    by (simp add: handle_filing_def job_start_def db_call_def)
  then have fd: "demo_filed = publish_job_head (run_env 100) 1 (demo_id CHR ''a'')
      (job_start\<lparr>js_jobs := [((1, demo_id CHR ''a''), run_row\<lparr>jr_head_at := 0\<rparr>)]\<rparr>)"
    by (simp add: demo_filed_def handle_job_event_def Let_def ids)
  have "js_jobs demo_filed = snd (stamp_head 1 (demo_id CHR ''a'') 100 [((1, demo_id CHR ''a''), run_row\<lparr>jr_head_at := 0\<rparr>)])"
    unfolding fd publish_jobs by (simp add: db_call_def)
  also have "\<dots> = [((1, demo_id CHR ''a''), run_row\<lparr>jr_head_at := 100\<rparr>)]"
    using run_row_ok [of 100] by (simp add: stamp_head_def update_row_def)
  also have "run_row\<lparr>jr_head_at := 100\<rparr> = run_row" by (simp add: run_row_def)
  finally show ?thesis .
qed

definition demo_leased :: jobs_row where
  "demo_leased = run_row\<lparr>jr_status := JobLeased, jr_lease_holder := Some (demo_id CHR ''c''), jr_lease_expires_at := Some 230,
     jr_attempts := 1, jr_updated_at := 110, jr_head_at := 110\<rparr>"

lemma demo_leased_ok: "row_ok (demo_leased\<lparr>jr_head_at := h\<rparr>)"
  by (simp add: demo_leased_def run_row_def row_ok_def shape_check_def opt_octets_def lease_check_def checkpoint_check_def
      delivery_check_def demo_btrim byte_def)

lemma demo_claim_parses:
  "parse_job_claim demo_claim = Inr \<lparr>jl_job_hex = demo_id CHR ''a'', jl_nonce = demo_id CHR ''a''\<rparr>"
  "ev_kind demo_claim = KIND_JOB_CLAIM" "ev_pubkey demo_claim = demo_id CHR ''c''"
  by (simp_all add: demo_claim_def run_event_def parse_job_claim_def wire_eval hex_id_texts MAX_NONCE_def)

lemma demo_claim_wins:
  "fst (handle_job_event (run_env 110) 1 demo_claim demo_filed) = Inr Claimed"
  "js_jobs demo_claimed = [((1, demo_id CHR ''a''), demo_leased)]"
proof -
  have "claim_job 1 (demo_id CHR ''a'') (demo_id CHR ''c'') MAX_JOB_ATTEMPTS 110 (110 + JOB_LEASE_SECS) [((1, demo_id CHR ''a''), run_row)]
    = (Inr (Some (row_to_job (demo_leased\<lparr>jr_head_at := 100\<rparr>))), [((1, demo_id CHR ''a''), demo_leased\<lparr>jr_head_at := 100\<rparr>)])"
    using demo_leased_ok [of 100]
    by (simp add: claim_job_def update_row_def as_jobs_def demo_leased_def run_row_def MAX_JOB_ATTEMPTS_def JOB_LEASE_SECS_def)
  then have event: "handle_job_event (run_env 110) 1 demo_claim demo_filed = (Inr Claimed, publish_job_head (run_env 110) 1 (demo_id CHR ''a'')
      (demo_filed\<lparr>js_jobs := [((1, demo_id CHR ''a''), demo_leased\<lparr>jr_head_at := 100\<rparr>)]\<rparr>))"
    by (simp add: handle_job_event_def Let_def handle_claim_def demo_claim_parses demo_filed_jobs load_job_def db_read_def db_call_def
        hex_id_texts find_job_def KIND_JOB_CLAIM_def KIND_JOB_FILING_def) (simp add: run_row_def)?
  then show "fst (handle_job_event (run_env 110) 1 demo_claim demo_filed) = Inr Claimed" by simp
  have "js_jobs demo_claimed = snd (stamp_head 1 (demo_id CHR ''a'') 110 [((1, demo_id CHR ''a''), demo_leased\<lparr>jr_head_at := 100\<rparr>)])"
    unfolding demo_claimed_def event snd_conv publish_jobs by (simp add: db_call_def)
  also have "\<dots> = [((1, demo_id CHR ''a''), demo_leased\<lparr>jr_head_at := 110\<rparr>)]"
    using demo_leased_ok [of 110] by (simp add: stamp_head_def update_row_def)
  also have "demo_leased\<lparr>jr_head_at := 110\<rparr> = demo_leased" by (simp add: demo_leased_def)
  finally show "js_jobs demo_claimed = [((1, demo_id CHR ''a''), demo_leased)]" .
qed

definition demo_report :: ParsedJobOutcome where
  "demo_report = \<lparr>jo_job_hex = demo_id CHR ''a'', jo_attempt = 1, jo_status = JobDone, jo_detail = [], jo_provider = None, jo_model = None,
     jo_artifacts = [\<lparr>ta_kind = ArtifactEvent, ta_reference = demo_id CHR ''d'', ta_label = None\<rparr>]\<rparr>"

lemma demo_counts: "chars_count (demo_id CHR ''d'') = 64" "chars_count [] = 0"
  by (simp_all add: byte_def) (simp add: chars_count_def)

lemma demo_outcome_parses:
  "parse_job_outcome (je_json_artifact (run_env t)) demo_outcome = Inr demo_report"
  "ev_pubkey demo_outcome = demo_id CHR ''c''" "ev_id demo_outcome = demo_id CHR ''f''"
  by (simp_all add: demo_outcome_def run_event_def parse_job_outcome_def lease_reference_def artifact_tags_def read_artifact_def detail_def
      optional_stamp_def demo_counts bounded_text_def MAX_ARTIFACT_TEXT_def wire_eval hex_id_texts run_env_def demo_report_def)

lemma demo_fields:
  "jo_job_hex demo_report = demo_id CHR ''a''" "jo_status demo_report = JobDone" "jo_attempt demo_report = 1"
  "jo_artifacts demo_report = [\<lparr>ta_kind = ArtifactEvent, ta_reference = demo_id CHR ''d'', ta_label = None\<rparr>]"
  "jr_task_id demo_leased = Some (demo_id CHR ''7'')" "jr_status demo_leased = JobLeased" "jr_attempts demo_leased = 1"
  "jr_lease_holder demo_leased = Some (demo_id CHR ''c'')" "jr_lease_expires_at demo_leased = Some 230"
  "jr_outcome_event demo_leased = None"
  by (simp_all add: demo_report_def demo_leased_def run_row_def)

lemma demo_one: "show_nat (Suc 0) = ''1''"
  by code_simp

lemma demo_evidence:
  "validate_task_event_artifacts (run_env t) 1 demo_outcome (row_to_job demo_leased) (demo_id CHR ''7'') demo_report = Inr ()"
proof -
  have refs: "unique_task_event_references (jo_artifacts demo_report) = Inr [(demo_id CHR ''d'', demo_id CHR ''d'')]"
    by (simp add: demo_report_def unique_task_event_references_def MAX_TASK_EVENT_ARTIFACTS_def hex_id_texts)
  have "validate_task_event_artifact (run_env t) (demo_id CHR ''d'') (Some demo_message) (Some (1, Some (demo_id CHR ''e'')))
      (row_to_job demo_leased) (demo_id CHR ''7'') (demo_id CHR ''c'') 1 = Inr ()"
    by (simp add: validate_task_event_artifact_def demo_message_def hex_id_texts is_verified_def TASK_ARTIFACT_EVENT_KINDS_def
        demo_leased_def run_row_def require_exact_artifact_tag_def named_slices_def wire_tag_def show_int_def demo_one)
  with refs show ?thesis
    by (simp add: validate_task_event_artifacts_def db_read_def demo_outcome_parses) (simp add: demo_report_def)
qed

lemma demo_delivers: "fst (handle_outcome (run_env 200) 1 demo_outcome demo_claimed) = Inr Finished"
proof -
  let ?row = "demo_leased\<lparr>jr_status := JobDone, jr_result := Some [], jr_failure := None, jr_provider := None, jr_model := None,
     jr_artifacts := Some (JsonArray [\<lparr>ta_kind = ArtifactEvent, ta_reference = demo_id CHR ''d'', ta_label = None\<rparr>]),
     jr_outcome_event := Some (demo_id CHR ''f''), jr_lease_expires_at := None, jr_updated_at := 200\<rparr>"
  have checked: "outcome_checked (run_env 200) 1 demo_outcome [((1, demo_id CHR ''a''), demo_leased)]
      = Inr (Some (demo_id CHR ''a'', demo_report))"
    by (simp add: outcome_checked_def demo_outcome_parses db_read_def find_job_def is_recorded_outcome_def demo_evidence [simplified]
        task_outcome_holds_current_lease_def demo_fields hex_id_texts)
  have "row_ok ?row"
    by (simp add: demo_leased_def run_row_def row_ok_def shape_check_def opt_octets_def lease_check_def checkpoint_check_def
        delivery_check_def demo_btrim byte_def nonempty_array_def)
  then have "fst (finish_job 1 (finished_job (run_env 200) demo_outcome (demo_id CHR ''a'') demo_report)
      [((1, demo_id CHR ''a''), demo_leased)]) = Inr (Some (row_to_job ?row))"
    by (simp add: finish_job_def as_jobs_def update_row_def finished_job_def demo_report_def demo_outcome_parses nonempty_array_def
        holds_job_def not_expired_def demo_leased_def run_row_def)
  with checked show ?thesis by (simp add: handle_outcome_def demo_claim_wins(2) db_call_def)
qed

section \<open>The properties on this run\<close>

lemma run_row_at: "map_of (js_jobs demo_claimed) (1, demo_id CHR ''a'') = Some demo_leased"
  by (simp add: demo_claim_wins)

lemma job_rows_sound_witness:
  "jr_lease_holder demo_leased = Some (jr_originator demo_leased) \<and> 1 \<le> jr_attempts demo_leased \<and> jr_attempts demo_leased \<le> 3"
  using job_rows_sound [OF demo_reachable(2) run_row_at] by (simp add: demo_fields)

lemma jobs_have_a_human_witness: "(1, jr_originator demo_leased) \<notin> demo_staff"
  by (rule jobs_have_a_human [OF demo_reachable(2) run_row_at])

lemma heads_rise_witness: "sorted_wrt (<) (head_times 1 (demo_id CHR ''a'') demo_claimed)"
  by (rule heads_rise [OF demo_reachable(2)])

definition demo_json :: "string \<Rightarrow> HeadBody option" where
  "demo_json content = Some \<lparr>hb_text = map_of (head_fields (demo_id CHR ''b'') None None), hb_checkpoint = None, hb_artifacts = None\<rparr>"

lemma head_reads_back_witness:
  "\<exists>ev. build_job_head (run_env 110) ''key'' (row_to_job demo_leased) 110 = Inr ev
     \<and> parse_job_head demo_json ev = Inr (head_view (row_to_job demo_leased))"
proof -
  obtain ev where ev: "build_job_head (run_env 110) ''key'' (row_to_job demo_leased) 110 = Inr ev"
    by (simp add: build_job_head_def run_sign_def)
  have "relay_sign_law (run_env 110)" using run_env_ok [of 110] by (simp add: env_ok_def)
  moreover have "trim (demo_id CHR ''d'') \<noteq> []" by (simp add: hex_id_texts)
  then have "head_json_law (run_env 110) demo_json (row_to_job demo_leased)"
    by (simp add: head_json_law_def head_text_of_def demo_json_def demo_leased_def run_row_def)
  ultimately show ?thesis using head_reads_back [OF demo_reachable(2) run_row_at _ _ ev] ev by blast
qed

lemma outcome_settles_once_witness:
  "\<exists>job. find_job 1 (demo_id CHR ''a'') (js_jobs (snd (handle_outcome (run_env 200) 1 demo_outcome demo_claimed))) = Some job
     \<and> jr_status job = JobDone"
proof -
  have call: "handle_outcome (run_env 200) 1 demo_outcome demo_claimed
      = (Inr Finished, snd (handle_outcome (run_env 200) 1 demo_outcome demo_claimed))"
    using demo_delivers by (simp add: prod_eq_iff)
  have "jo_job_hex demo_report = demo_id CHR ''a''" "hex32 (demo_id CHR ''a'') = Inr (demo_id CHR ''a'')" "jo_status demo_report = JobDone"
    by (simp_all add: demo_fields hex_id_texts)
  with outcome_settles_once [OF call] show ?thesis by (auto simp: demo_outcome_parses simp del: run_env_fields)
qed

lemma delivered_task_has_evidence_witness:
  "evidence_for (run_env 200) 1 (row_to_job demo_leased) (demo_id CHR ''7'') (demo_id CHR ''c'') 1 (demo_id CHR ''d'')"
proof -
  have call: "handle_outcome (run_env 200) 1 demo_outcome demo_claimed
      = (Inr Finished, snd (handle_outcome (run_env 200) 1 demo_outcome demo_claimed))"
    using demo_delivers by (simp add: prod_eq_iff)
  have "hex32 (jo_job_hex demo_report) = Inr (demo_id CHR ''a'')" "jo_status demo_report = JobDone"
    "find_job 1 (demo_id CHR ''a'') (js_jobs demo_claimed) = Some (row_to_job demo_leased)"
    "jr_task_id (row_to_job demo_leased) = Some (demo_id CHR ''7'')"
    using run_row_at by (simp_all add: demo_fields hex_id_texts find_job_def)
  from delivered_task_has_evidence [OF call demo_outcome_parses(1) this(2,1,3,4)]
  show ?thesis by (simp add: demo_fields demo_outcome_parses hex_id_texts)
qed

lemma lapsed_job_is_claimed_witness:
  "fst (handle_job_event (run_env 300) 1 demo_claim demo_claimed) = Inr Claimed"
proof -
  have "find_job 1 (demo_id CHR ''a'') (js_jobs demo_claimed) = Some (row_to_job demo_leased)"
    using run_row_at by (simp add: find_job_def)
  moreover have "takeable (je_now (run_env 300)) (row_to_job demo_leased)" by (simp add: takeable_def demo_fields)
  moreover have "ev_pubkey demo_claim = jr_originator (row_to_job demo_leased)"
    by (simp add: demo_claim_parses demo_leased_def run_row_def)
  ultimately show ?thesis
    using lapsed_job_is_claimed [OF demo_reachable(2) _ _ demo_claim_parses(2,1)] by simp
qed

lemma lease_sweep_drains_witness:
  "\<exists>job. find_job 1 (demo_id CHR ''a'') (js_jobs (snd (run_job_lease_tick (run_env 300) 300 demo_claimed))) = Some job \<and> jr_status job = JobOpen"
proof -
  have found: "find_job 1 (demo_id CHR ''a'') (js_jobs demo_claimed) = Some (row_to_job demo_leased)"
    using run_row_at by (simp add: find_job_def)
  have "find_job 1 (demo_id CHR ''a'') (js_jobs (snd (run_job_lease_tick (run_env 300) 300 demo_claimed)))
      = map_option (taken_back 300) (find_job 1 (demo_id CHR ''a'') (js_jobs demo_claimed))"
    by (rule lease_sweep_drains [OF demo_reachable(2), of "run_env 300" 300 1]) (simp_all add: demo_claim_wins)
  then show ?thesis unfolding found by (simp add: taken_back_def overdue_def demo_fields)
qed

end
