(* ===== verification/Block_Action.thy ===== *)
theory Block_Action
  imports Kind
begin

text \<open>
  The two tag readers of \<open>buzz-acp/src/queue.rs\<close>: the narrow check of a signed Block action
  before it is forwarded to an agent, and the NIP-10 thread tags of a message.
  \<open>Uuid::parse_str\<close> and \<open>serde_json\<close> are parameters; error messages are constructors.
\<close>

record ParsedBlockAction =
  ba_instance_event_id :: string
  ba_manifest_event_id :: string
  ba_action_id :: string
  ba_instance_id :: uuid
  ba_idempotency_key :: uuid
  ba_processor_pubkey :: string

definition is_lower_hex_64 :: "string \<Rightarrow> bool" where
  "is_lower_hex_64 val \<longleftrightarrow> length val = 64 \<and> list_all (\<lambda>b. is_ascii_hexdigit b \<and> \<not> is_ascii_uppercase b) val"

datatype BlockActionError =
    NotABlockAction
  | InvalidHTag
  | NotOneProcessor
  | InvalidActionTag
  | InvalidInstanceRef
  | InvalidManifestRef
  | NotOneChannel
  | MissingProcessor
  | MissingAction
  | InvalidActionId
  | InvalidInstanceId
  | InvalidIdempotencyKey
  | MissingInstanceRef
  | MissingManifestRef
  | ContentNotObject

record BlockScan =
  bs_channel_count :: nat
  bs_processor :: "string option"
  bs_action :: "(string \<times> string \<times> string) option"
  bs_instance_event_id :: "string option"
  bs_manifest_event_id :: "string option"

definition scan_tag :: "(string \<Rightarrow> uuid option) \<Rightarrow> string list \<Rightarrow> BlockScan \<Rightarrow> BlockActionError + BlockScan" where
  "scan_tag parse_uuid parts s =
     (if parts = [] then Inr s
      else if hd parts = ''h'' then
        if length parts \<noteq> 2 \<or> parse_uuid (parts ! 1) = None then Inl InvalidHTag
        else Inr (s\<lparr>bs_channel_count := bs_channel_count s + 1\<rparr>)
      else if hd parts = ''p'' then
        if length parts \<noteq> 2 \<or> \<not> is_lower_hex_64 (parts ! 1) \<or> bs_processor s \<noteq> None then Inl NotOneProcessor
        else Inr (s\<lparr>bs_processor := Some (parts ! 1)\<rparr>)
      else if hd parts = ''block-action'' then
        if length parts \<noteq> 5 \<or> parts ! 1 \<noteq> ''1'' \<or> bs_action s \<noteq> None then Inl InvalidActionTag
        else Inr (s\<lparr>bs_action := Some (parts ! 2, parts ! 3, parts ! 4)\<rparr>)
      else if hd parts = ''e'' \<and> 3 < length parts \<and> parts ! 3 = ''block-instance'' then
        if length parts \<noteq> 4 \<or> \<not> is_lower_hex_64 (parts ! 1) \<or> bs_instance_event_id s \<noteq> None then Inl InvalidInstanceRef
        else Inr (s\<lparr>bs_instance_event_id := Some (parts ! 1)\<rparr>)
      else if hd parts = ''e'' \<and> 3 < length parts \<and> parts ! 3 = ''block-manifest'' then
        if length parts \<noteq> 4 \<or> \<not> is_lower_hex_64 (parts ! 1) \<or> bs_manifest_event_id s \<noteq> None then Inl InvalidManifestRef
        else Inr (s\<lparr>bs_manifest_event_id := Some (parts ! 1)\<rparr>)
      else Inr s)"

fun scan_tags :: "(string \<Rightarrow> uuid option) \<Rightarrow> BlockScan \<Rightarrow> string list list \<Rightarrow> BlockActionError + BlockScan" where
  "scan_tags parse_uuid s [] = Inr s"
| "scan_tags parse_uuid s (t # ts) = and_then (scan_tag parse_uuid t s) (\<lambda>s'. scan_tags parse_uuid s' ts)"

definition action_byte :: "nat \<Rightarrow> char \<Rightarrow> bool" where
  "action_byte index c =
     (if is_ascii_lowercase c then True
      else if is_ascii_digit c \<or> c = CHR ''.'' \<or> c = CHR ''_'' \<or> c = CHR ''-'' then index > 0
      else False)"

definition valid_action_id :: "string \<Rightarrow> bool" where
  "valid_action_id a \<longleftrightarrow> a \<noteq> [] \<and> length a \<le> 64 \<and> list_all (\<lambda>(i, c). action_byte i c) (List.enumerate 0 a)"

definition parse_block_action ::
  "(string \<Rightarrow> uuid option) \<Rightarrow> (string \<Rightarrow> bool) \<Rightarrow> nevent \<Rightarrow> BlockActionError + ParsedBlockAction" where
  "parse_block_action parse_uuid is_json_object ev =
     (if event_kind_u32 ev \<noteq> KIND_BLOCK_ACTION then Inl NotABlockAction
      else and_then (scan_tags parse_uuid
             \<lparr>bs_channel_count = 0, bs_processor = None, bs_action = None,
              bs_instance_event_id = None, bs_manifest_event_id = None\<rparr> (map tag_slice (ev_tags ev))) (\<lambda>s.
        if bs_channel_count s \<noteq> 1 then Inl NotOneChannel
        else
          and_then (ok_or MissingProcessor (bs_processor s)) (\<lambda>processor_pubkey.
          and_then (ok_or MissingAction (bs_action s)) (\<lambda>(action_id, inst, key).
            if \<not> valid_action_id action_id then Inl InvalidActionId
            else
              and_then (ok_or InvalidInstanceId (parse_uuid inst)) (\<lambda>instance_id.
              and_then (ok_or InvalidIdempotencyKey (parse_uuid key)) (\<lambda>idempotency_key.
              and_then (ok_or MissingInstanceRef (bs_instance_event_id s)) (\<lambda>instance_event_id.
              and_then (ok_or MissingManifestRef (bs_manifest_event_id s)) (\<lambda>manifest_event_id.
                if \<not> is_json_object (ev_content ev) then Inl ContentNotObject
                else Inr \<lparr>ba_instance_event_id = instance_event_id, ba_manifest_event_id = manifest_event_id,
                          ba_action_id = action_id, ba_instance_id = instance_id,
                          ba_idempotency_key = idempotency_key, ba_processor_pubkey = processor_pubkey\<rparr>))))))))"

definition block_action_targets_processor ::
  "(string \<Rightarrow> uuid option) \<Rightarrow> (string \<Rightarrow> bool) \<Rightarrow> nevent \<Rightarrow> string \<Rightarrow> bool" where
  "block_action_targets_processor parse_uuid is_json_object ev processor_pubkey =
     (case parse_block_action parse_uuid is_json_object ev of
        Inr a \<Rightarrow> ba_processor_pubkey a = processor_pubkey
      | Inl _ \<Rightarrow> False)"

section \<open>Thread tags\<close>

record ThreadTags =
  tt_root_event_id :: "string option"
  tt_parent_event_id :: "string option"
  tt_mentioned_pubkeys :: "string list"

type_synonym thread_scan = "string option \<times> string option \<times> string list"

fun thread_tag_step :: "string list \<Rightarrow> thread_scan \<Rightarrow> thread_scan" where
  "thread_tag_step parts (root, reply, mentions) =
     (if parts \<noteq> [] \<and> hd parts = ''e'' \<and> length parts \<ge> 4 then
        if parts ! 3 = ''root'' then (Some (parts ! 1), reply, mentions)
        else if parts ! 3 = ''reply'' then (root, Some (parts ! 1), mentions)
        else (root, reply, mentions)
      else if parts \<noteq> [] \<and> hd parts = ''p'' \<and> length parts \<ge> 2 then (root, reply, mentions @ [parts ! 1])
      else (root, reply, mentions))"

definition parse_thread_tags :: "nevent \<Rightarrow> ThreadTags" where
  "parse_thread_tags ev =
     (let (root, reply, mentions) = fold thread_tag_step (map tag_slice (ev_tags ev)) (None, None, []);
          (root_event_id, parent_event_id) = (case (root, reply) of
              (Some r, Some p) \<Rightarrow> (Some r, Some p)
            | (Some r, None) \<Rightarrow> (Some r, Some r)
            | (None, Some p) \<Rightarrow> (Some p, Some p)
            | (None, None) \<Rightarrow> (None, None))
      in \<lparr>tt_root_event_id = root_event_id, tt_parent_event_id = parent_event_id, tt_mentioned_pubkeys = mentions\<rparr>)"

section \<open>Lemmas\<close>

definition slices_of :: "string \<Rightarrow> string list list \<Rightarrow> string list list" where
  "slices_of n ts = filter (\<lambda>t. t \<noteq> [] \<and> hd t = n) ts"

lemma slices_of_simps [simp]:
  "slices_of n [] = []"
  "slices_of n (t # ts) = (if t \<noteq> [] \<and> hd t = n then t # slices_of n ts else slices_of n ts)"
  by (simp_all add: slices_of_def)

lemma scan_processor:
  "scan_tags u s ts = Inr s' \<Longrightarrow>
     slices_of ''p'' ts = (if bs_processor s' = bs_processor s then [] else [[''p'', the (bs_processor s')]])
   \<and> (bs_processor s' = bs_processor s \<or> bs_processor s = None \<and> is_lower_hex_64 (the (bs_processor s')))
   \<and> bs_channel_count s' = bs_channel_count s + length (slices_of ''h'' ts)"
proof (induction u s ts rule: scan_tags.induct)
  case (2 u s t ts)
  then obtain s1 where s1: "scan_tag u t s = Inr s1" and rest: "scan_tags u s1 ts = Inr s'"
    by (auto simp: res_simps)
  note IH = "2.IH" [OF rest]
  consider (h) "t \<noteq> []" "hd t = ''h''" | (p) "t \<noteq> []" "hd t = ''p''"
    | (other) "t = [] \<or> hd t \<noteq> ''h'' \<and> hd t \<noteq> ''p''" by blast
  then show ?case
  proof cases
    case h
    with s1 have "bs_processor s1 = bs_processor s" "bs_channel_count s1 = bs_channel_count s + 1"
      by (auto simp: scan_tag_def split: if_splits)
    with h IH show ?thesis by simp
  next
    case p
    then obtain v where v: "t = [''p'', v]" "is_lower_hex_64 v" "bs_processor s = None"
      "bs_processor s1 = Some v" "bs_channel_count s1 = bs_channel_count s"
      using s1 by (cases t rule: list.exhaust; cases "tl t") (auto simp: scan_tag_def split: if_splits)
    with IH show ?thesis by auto
  next
    case other
    with s1 have "bs_processor s1 = bs_processor s" "bs_channel_count s1 = bs_channel_count s"
      by (auto simp: scan_tag_def split: if_splits)
    with other IH show ?thesis by auto
  qed
qed simp

section \<open>Properties\<close>

lemma valid_action_id_start:
  assumes "valid_action_id a"
  shows "length a \<le> 64 \<and> (\<exists>c cs. a = c # cs \<and> is_ascii_lowercase c)"
  using assms by (cases a) (auto simp: valid_action_id_def action_byte_def split: if_splits)

text \<open>
  A Block action is addressed unambiguously: one that parses is of the Block-action kind,
  has exactly one \<open>h\<close> tag and exactly one \<open>p\<close> tag, which is the lower-case key of its
  processor, names an action of at most 64 characters that starts with a letter, and
  targets exactly that one processor.
\<close>

theorem block_action_unambiguous:
  assumes "parse_block_action u j ev = Inr a"
  shows "ev_kind ev = KIND_BLOCK_ACTION
    \<and> length (slices_of ''h'' (map tag_slice (ev_tags ev))) = 1
    \<and> slices_of ''p'' (map tag_slice (ev_tags ev)) = [[''p'', ba_processor_pubkey a]]
    \<and> is_lower_hex_64 (ba_processor_pubkey a)
    \<and> length (ba_action_id a) \<le> 64 \<and> (\<exists>c cs. ba_action_id a = c # cs \<and> is_ascii_lowercase c)
    \<and> block_action_targets_processor u j ev k = (k = ba_processor_pubkey a)"
proof -
  let ?s0 = "\<lparr>bs_channel_count = 0, bs_processor = None, bs_action = None,
      bs_instance_event_id = None, bs_manifest_event_id = None\<rparr>"
  have "ev_kind ev = KIND_BLOCK_ACTION"
    using assms by (simp add: parse_block_action_def event_kind_u32_def split: if_splits)
  moreover obtain s where s: "scan_tags u ?s0 (map tag_slice (ev_tags ev)) = Inr s" "bs_channel_count s = 1"
      "bs_processor s = Some (ba_processor_pubkey a)"
    using assms by (auto simp: parse_block_action_def res_simps split: if_splits)
  moreover have "valid_action_id (ba_action_id a)"
    using assms by (auto simp: parse_block_action_def res_simps split: if_splits)
  moreover have "block_action_targets_processor u j ev k = (k = ba_processor_pubkey a)"
    using assms by (auto simp: block_action_targets_processor_def)
  ultimately show ?thesis
    using scan_processor [OF s(1)] valid_action_id_start by simp
qed

definition demo_key :: string where
  "demo_key = replicate 64 CHR ''a''"

definition demo_action :: nevent where
  "demo_action = \<lparr>ev_id = [], ev_pubkey = [], ev_created_at = 0, ev_kind = KIND_BLOCK_ACTION,
     ev_tags = map (\<lambda>parts. \<lparr>tag_kind = hd parts, tag_content = Some (parts ! 1), tag_slice = parts\<rparr>)
       [[''h'', ''1''], [''p'', demo_key], [''block-action'', ''1'', ''approve'', ''2'', ''3''],
        [''e'', demo_key, [], ''block-instance''], [''e'', demo_key, [], ''block-manifest'']],
     ev_content = ''{}''\<rparr>"

lemma demo_key_hex: "is_lower_hex_64 demo_key"
  by (simp add: is_lower_hex_64_def demo_key_def list_all_iff is_ascii_hexdigit_def is_ascii_uppercase_def
      is_ascii_digit_def byte_def)

theorem block_action_unambiguous_witness:
  "\<exists>a. parse_block_action (\<lambda>t. Some (length t)) (\<lambda>c. c = ''{}'') demo_action = Inr a
     \<and> ba_processor_pubkey a = demo_key"
proof -
  have "\<exists>a. parse_block_action (\<lambda>t. Some (length t)) (\<lambda>c. c = ''{}'') demo_action = Inr a"
    by (simp add: parse_block_action_def demo_action_def event_kind_u32_def scan_tag_def res_simps
        demo_key_hex valid_action_id_def action_byte_def is_ascii_lowercase_def byte_def)
  then obtain a where a: "parse_block_action (\<lambda>t. Some (length t)) (\<lambda>c. c = ''{}'') demo_action = Inr a" ..
  have "slices_of ''p'' (map tag_slice (ev_tags demo_action)) = [[''p'', demo_key]]"
    by (simp add: demo_action_def slices_of_def)
  with block_action_unambiguous [OF a] a show ?thesis by simp
qed

text \<open>A message has a parent exactly when it has a root.\<close>

lemma thread_root_and_parent:
  "tt_root_event_id (parse_thread_tags ev) = None \<longleftrightarrow> tt_parent_event_id (parse_thread_tags ev) = None"
  by (auto simp: parse_thread_tags_def Let_def split: prod.splits option.splits)

end
