(* ===== verification/Pairing_Wire.thy ===== *)
theory Pairing_Wire
  imports Nostr_Event
begin

text \<open>
  The wire level of NIP-AB device pairing: \<open>buzz-core/src/pairing/types.rs\<close>, the key
  derivations of \<open>crypto.rs\<close> and the QR URI of \<open>qr.rs\<close>.

  What these files call in other crates (\<open>nostr\<close>, \<open>hex\<close>, \<open>percent_encoding\<close>, \<open>url\<close>,
  \<open>serde_json\<close>) is one record of parameters, \<open>pairing_lib\<close>. Keys are a secret string,
  public keys their hex spelling, byte arrays strings. Zeroing of memory is left out.
  The formatted texts of the errors are constructors.
\<close>

section \<open>Messages\<close>

datatype PayloadType = Nsec | Bunker | Connect | Custom

datatype AbortReason = AbortSasMismatch | UserDenied | AbortTimeout | ProtocolError | AbortUnknown

datatype PairingMessage =
    Offer (offer_session_id: string) (offer_version: nat)
  | SasConfirm (confirm_hash: string)
  | Payload (payload_type: PayloadType) (payload_text: string)
  | Complete (complete_success: bool)
  | Abort (abort_reason: AbortReason)

section \<open>The libraries\<close>

record pairing_lib =
  lib_pubkey :: "string \<Rightarrow> pubkey"
  lib_pk_bytes :: "pubkey \<Rightarrow> string"
  lib_pk_from_hex :: "string \<Rightarrow> pubkey option"
  lib_shared_key :: "string \<Rightarrow> pubkey \<Rightarrow> string option"
  lib_hkdf_extract :: "string \<Rightarrow> string \<Rightarrow> string"
  lib_hkdf_expand :: "string \<Rightarrow> string \<Rightarrow> nat \<Rightarrow> string"
  lib_encrypt :: "string \<Rightarrow> pubkey \<Rightarrow> string \<Rightarrow> nat \<Rightarrow> string option"
  lib_decrypt :: "string \<Rightarrow> pubkey \<Rightarrow> string \<Rightarrow> string option"
  lib_sign :: "string \<Rightarrow> nat \<Rightarrow> string \<Rightarrow> string list list \<Rightarrow> nat \<Rightarrow> nevent option"
  lib_verify :: "nevent \<Rightarrow> bool"
  lib_to_json :: "PairingMessage \<Rightarrow> string option"
  lib_from_json :: "string \<Rightarrow> PairingMessage option"
  lib_hex_encode :: "string \<Rightarrow> string"
  lib_hex_decode :: "string \<Rightarrow> string option"
  lib_percent_encode :: "string \<Rightarrow> string"
  lib_percent_decode :: "string \<Rightarrow> string"
  lib_url_parse :: "string \<Rightarrow> (string \<times> bool) option"

text \<open>\<open>lib_url_parse\<close> gives the scheme of a URL and whether it has a host.\<close>

section \<open>Key derivation\<close>

definition INFO_SESSION_ID :: string where
  "INFO_SESSION_ID = ''nostr-pair-session-id''"

definition INFO_SAS :: string where
  "INFO_SAS = ''nostr-pair-sas-v1''"

definition INFO_TRANSCRIPT :: string where
  "INFO_TRANSCRIPT = ''nostr-pair-transcript-v1''"

definition hkdf32 :: "pairing_lib \<Rightarrow> string \<Rightarrow> string \<Rightarrow> string \<Rightarrow> string" where
  "hkdf32 L salt ikm info = take 32 (lib_hkdf_expand L (lib_hkdf_extract L salt ikm) info 32)"

definition derive_session_id :: "pairing_lib \<Rightarrow> string \<Rightarrow> string" where
  "derive_session_id L session_secret = hkdf32 L [] session_secret INFO_SESSION_ID"

text \<open>\<open>u32::from_be_bytes\<close> of the first four bytes.\<close>

definition be_u32 :: "string \<Rightarrow> nat" where
  "be_u32 bs = foldl (\<lambda>n c. 256 * n + byte c) 0 (take 4 bs)"

definition derive_sas :: "pairing_lib \<Rightarrow> string \<Rightarrow> string \<Rightarrow> nat \<times> string" where
  "derive_sas L ecdh_shared session_secret =
     (let sas_input = hkdf32 L session_secret ecdh_shared INFO_SAS
      in (be_u32 sas_input mod 1000000, sas_input))"

definition derive_transcript_hash ::
  "pairing_lib \<Rightarrow> string \<Rightarrow> string \<Rightarrow> string \<Rightarrow> string \<Rightarrow> string \<Rightarrow> string" where
  "derive_transcript_hash L session_id source_pubkey target_pubkey sas_input session_secret =
     hkdf32 L session_secret (session_id @ source_pubkey @ target_pubkey @ sas_input) INFO_TRANSCRIPT"

definition format_sas :: "nat \<Rightarrow> string" where
  "format_sas code = show_padded 6 code"

text \<open>\<open>subtle::ConstantTimeEq\<close>: equality.\<close>

definition ct_eq :: "string \<Rightarrow> string \<Rightarrow> bool" where
  "ct_eq a b \<longleftrightarrow> a = b"

lemma format_sas_six_digits: "length (format_sas (fst (derive_sas L e s))) = 6"
  unfolding format_sas_def derive_sas_def Let_def by (simp add: show_padded_length)

section \<open>The QR URI\<close>

record QrPayload =
  qr_source_pubkey :: pubkey
  qr_session_secret :: string
  qr_relays :: "string list"
  qr_version :: nat

datatype QrError =
    QrTooLong | QrScheme | QrNoQuery | QrPubkeyFormat | QrPubkey | QrVersion nat
  | QrNoSecret | QrSecretFormat | QrSecretHex | QrSecretLength | QrZeroSecret
  | QrNoRelay | QrRelayUrl string | QrRelayScheme string | QrRelayHost string

definition url_encode :: "pairing_lib \<Rightarrow> string \<Rightarrow> string" where
  "url_encode L s = lib_percent_encode L s"

definition url_decode :: "pairing_lib \<Rightarrow> string \<Rightarrow> string" where
  "url_decode L s = lib_percent_decode L s"

definition is_lowercase_hex :: "char \<Rightarrow> bool" where
  "is_lowercase_hex c \<longleftrightarrow> is_ascii_digit c \<or> 97 \<le> byte c \<and> byte c \<le> 102"

definition encode_qr :: "pairing_lib \<Rightarrow> QrPayload \<Rightarrow> string" where
  "encode_qr L payload =
     ''nostrpair://'' @ qr_source_pubkey payload @ ''?secret='' @ lib_hex_encode L (qr_session_secret payload)
     @ concat (map (\<lambda>relay. ''&relay='' @ url_encode L relay) (qr_relays payload)) @ ''&v=1''"

text \<open>The loop over the query: the secret, the relays and the version so far.\<close>

type_synonym qr_scan = "string option \<times> string list \<times> nat option"

definition scan_param :: "pairing_lib \<Rightarrow> string \<Rightarrow> qr_scan \<Rightarrow> qr_scan" where
  "scan_param L pair = (\<lambda>(secret, relays, version). case split_once CHR ''='' pair of
       None \<Rightarrow> (secret, relays, version)
     | Some (key, val) \<Rightarrow>
        if key = ''secret'' then (Some val, relays, version)
        else if key = ''relay'' then (secret, relays @ [url_decode L val], version)
        else if key = ''v'' then (secret, relays, parse_u32 val)
        else (secret, relays, version))"

fun check_relays :: "pairing_lib \<Rightarrow> string list \<Rightarrow> QrError + unit" where
  "check_relays L [] = Inr ()"
| "check_relays L (relay # rest) = (case lib_url_parse L relay of
       None \<Rightarrow> Inl (QrRelayUrl relay)
     | Some (scheme, has_host) \<Rightarrow>
        if scheme \<noteq> ''wss'' \<and> scheme \<noteq> ''ws'' then Inl (QrRelayScheme scheme)
        else if \<not> has_host then Inl (QrRelayHost relay)
        else check_relays L rest)"

definition decode_qr :: "pairing_lib \<Rightarrow> string \<Rightarrow> QrError + QrPayload" where
  "decode_qr L uri =
     (if length uri > 2048 then Inl QrTooLong
      else
        and_then (ok_or QrScheme (strip_prefix ''nostrpair://'' uri)) (\<lambda>rest.
        and_then (ok_or QrNoQuery (split_once CHR ''?'' rest)) (\<lambda>(pubkey_hex, query).
          if length pubkey_hex \<noteq> 64 \<or> \<not> list_all is_lowercase_hex pubkey_hex then Inl QrPubkeyFormat
          else
            and_then (ok_or QrPubkey (lib_pk_from_hex L pubkey_hex)) (\<lambda>source_pubkey.
              let (secret_hex, relays, parsed) = fold (scan_param L) (split_on CHR ''&'' query) (None, [], None);
                  version = (case parsed of None \<Rightarrow> 1 | Some v \<Rightarrow> v)
              in if version \<noteq> 1 then Inl (QrVersion version)
                 else
                   and_then (ok_or QrNoSecret secret_hex) (\<lambda>secret_str.
                     if length secret_str \<noteq> 64 \<or> \<not> list_all is_lowercase_hex secret_str then Inl QrSecretFormat
                     else
                       and_then (ok_or QrSecretHex (lib_hex_decode L secret_str)) (\<lambda>session_secret.
                         if length session_secret \<noteq> 32 then Inl QrSecretLength
                         else if session_secret = replicate 32 (char_of (0 :: nat)) then Inl QrZeroSecret
                         else if relays = [] then Inl QrNoRelay
                         else
                           and_then (check_relays L relays) (\<lambda>_.
                             Inr \<lparr>qr_source_pubkey = source_pubkey, qr_session_secret = session_secret,
                                  qr_relays = relays, qr_version = version\<rparr>)))))))"

end
