(* ===== verification/Pairing_Session.thy ===== *)
theory Pairing_Session
  imports Pairing_Wire Kind
begin

text \<open>
  The pairing session of \<open>buzz-core/src/pairing/session.rs\<close>: one side of a NIP-AB device
  pairing as a state machine. Every method takes the session and returns its result and
  the session after it, also when it fails. Fresh keys, the session secret, the clock, the
  timestamp jitter and the encryption nonce are arguments; memory zeroing is left out.
\<close>

section \<open>State\<close>

datatype Role = Source | Target

datatype SessionState =
    Waiting | Confirming | AwaitingConfirmation | Transferring | PayloadExchanged | Completed | Aborted

record PairingSession =
  ps_role :: Role
  ps_state :: SessionState
  ps_keys :: string
  ps_session_secret :: string
  ps_relay_urls :: "string list"
  ps_peer_pubkey :: "pubkey option"
  ps_session_id :: string
  ps_sas_code :: "nat option"
  ps_sas_input :: "string option"
  ps_processed_ids :: "string set"
  ps_created_at :: nat
  ps_timeout :: nat

datatype PairingError =
    InvalidSessionId | SasMismatch | TranscriptMismatch | SessionExpired | Nip44Error | JsonError | SigningError
  | UnexpectedKind string string
  | UnsupportedVersion nat | CompleteFailed | TerminalState SessionState
  | WrongState SessionState SessionState | WrongRole Role Role
  | ContentLength nat | PlaintextLength nat
  | DuplicateEvent | WrongKind nat | BadSignature | NoPTag | WrongPeer pubkey pubkey | NoPeer

text \<open>Instants and durations are nanoseconds.\<close>

definition DEFAULT_TIMEOUT :: nat where
  "DEFAULT_TIMEOUT = 120 * 10 ^ 9"

definition PAIRING_KIND :: nat where
  "PAIRING_KIND = KIND_PAIRING"

text \<open>What the environment adds to an event that is built: the clock, the jitter and a nonce.\<close>

record build_env =
  be_now :: nat
  be_random :: nat
  be_nonce :: nat

section \<open>Checks\<close>

definition is_expired :: "nat \<Rightarrow> PairingSession \<Rightarrow> bool" where
  "is_expired now s \<longleftrightarrow> now - ps_created_at s > ps_timeout s"

definition check_expired :: "nat \<Rightarrow> PairingSession \<Rightarrow> PairingError + unit" where
  "check_expired now s = (if is_expired now s then Inl SessionExpired else Inr ())"

definition expect_state :: "SessionState \<Rightarrow> PairingSession \<Rightarrow> PairingError + unit" where
  "expect_state st s = (if ps_state s \<noteq> st then Inl (WrongState st (ps_state s)) else Inr ())"

definition expect_role :: "Role \<Rightarrow> PairingSession \<Rightarrow> PairingError + unit" where
  "expect_role ro s = (if ps_role s \<noteq> ro then Inl (WrongRole ro (ps_role s)) else Inr ())"

text \<open>The three checks every protocol method opens with.\<close>

definition expect :: "nat \<Rightarrow> SessionState \<Rightarrow> Role \<Rightarrow> PairingSession \<Rightarrow> PairingError + unit" where
  "expect now st ro s =
     and_then (check_expired now s) (\<lambda>_. and_then (expect_state st s) (\<lambda>_. expect_role ro s))"

definition validate_event_basics :: "pairing_lib \<Rightarrow> nevent \<Rightarrow> PairingSession \<Rightarrow> PairingError + unit" where
  "validate_event_basics L ev s =
     (if \<not> lib_verify L ev then Inl BadSignature
      else if ev_id ev \<in> ps_processed_ids s then Inl DuplicateEvent
      else if ev_kind ev \<noteq> PAIRING_KIND then Inl (WrongKind (ev_kind ev))
      else if \<not> list_ex (\<lambda>t. case tag_slice t of
                 a # b # _ \<Rightarrow> a = ''p'' \<and> b = lib_pubkey L (ps_keys s) | _ \<Rightarrow> False) (ev_tags ev) then Inl NoPTag
      else Inr ())"

definition validate_event_from_peer :: "pairing_lib \<Rightarrow> nevent \<Rightarrow> PairingSession \<Rightarrow> PairingError + unit" where
  "validate_event_from_peer L ev s =
     and_then (validate_event_basics L ev s) (\<lambda>_.
       case ps_peer_pubkey s of
         None \<Rightarrow> Inr ()
       | Some expected \<Rightarrow>
           if ev_pubkey ev \<noteq> expected then Inl (WrongPeer (ev_pubkey ev) expected) else Inr ())"

definition record_event :: "nevent \<Rightarrow> PairingSession \<Rightarrow> PairingSession" where
  "record_event ev s = s\<lparr>ps_processed_ids := insert (ev_id ev) (ps_processed_ids s)\<rparr>"

definition decrypt_message :: "pairing_lib \<Rightarrow> nevent \<Rightarrow> PairingSession \<Rightarrow> PairingError + PairingMessage" where
  "decrypt_message L ev s =
     (let content_len = length (ev_content ev)
      in if \<not> (132 \<le> content_len \<and> content_len \<le> 87472) then Inl (ContentLength content_len)
         else
           and_then (ok_or Nip44Error (lib_decrypt L (ps_keys s) (ev_pubkey ev) (ev_content ev))) (\<lambda>decrypted.
             if length decrypted > 65535 then Inl (PlaintextLength (length decrypted))
             else ok_or JsonError (lib_from_json L decrypted)))"

definition build_event :: "pairing_lib \<Rightarrow> build_env \<Rightarrow> PairingMessage \<Rightarrow> PairingSession \<Rightarrow> PairingError + nevent" where
  "build_event L env message s =
     and_then (ok_or NoPeer (ps_peer_pubkey s)) (\<lambda>peer.
     and_then (ok_or JsonError (lib_to_json L message)) (\<lambda>plaintext.
     and_then (ok_or Nip44Error (lib_encrypt L (ps_keys s) peer plaintext (be_nonce env))) (\<lambda>encrypted.
       let ts = be_now env - be_random env mod 31
       in ok_or SigningError (lib_sign L (ps_keys s) PAIRING_KIND encrypted [[''p'', peer]] ts))))"

fun message_name :: "PairingMessage \<Rightarrow> string" where
  "message_name (Offer _ _) = ''offer''"
| "message_name (SasConfirm _) = ''sas-confirm''"
| "message_name (Payload _ _) = ''payload''"
| "message_name (Complete _) = ''complete''"
| "message_name (Abort _) = ''abort''"

definition unexpected :: "string \<Rightarrow> PairingMessage \<Rightarrow> PairingError" where
  "unexpected expected got = UnexpectedKind expected (message_name got)"

text \<open>A read-only check, then the rest of the method: a failed check leaves the session alone.\<close>

definition check_then ::
  "PairingError + 'a \<Rightarrow> ('a \<Rightarrow> (PairingError + 'b) \<times> PairingSession) \<Rightarrow> PairingSession
   \<Rightarrow> (PairingError + 'b) \<times> PairingSession" where
  "check_then r k s = (case r of Inl e \<Rightarrow> (Inl e, s) | Inr a \<Rightarrow> k a)"

section \<open>The source\<close>

definition new_source :: "pairing_lib \<Rightarrow> string \<Rightarrow> string \<Rightarrow> nat \<Rightarrow> string \<Rightarrow> PairingSession \<times> QrPayload" where
  "new_source L keys session_secret now relay_url =
     (\<lparr>ps_role = Source, ps_state = Waiting, ps_keys = keys, ps_session_secret = session_secret,
       ps_relay_urls = [relay_url], ps_peer_pubkey = None, ps_session_id = derive_session_id L session_secret,
       ps_sas_code = None, ps_sas_input = None, ps_processed_ids = {}, ps_created_at = now,
       ps_timeout = DEFAULT_TIMEOUT\<rparr>,
      \<lparr>qr_source_pubkey = lib_pubkey L keys, qr_session_secret = session_secret, qr_relays = [relay_url],
       qr_version = 1\<rparr>)"

definition handle_offer ::
  "pairing_lib \<Rightarrow> nat \<Rightarrow> nevent \<Rightarrow> PairingSession \<Rightarrow> (PairingError + string) \<times> PairingSession" where
  "handle_offer L now ev s =
     check_then (and_then (expect now Waiting Source s) (\<lambda>_.
                 and_then (validate_event_basics L ev s) (\<lambda>_. decrypt_message L ev s))) (\<lambda>msg.
       case msg of
         Offer session_id_hex version \<Rightarrow>
           if version \<noteq> 1 then (Inl (UnsupportedVersion version), s)
           else if (case lib_hex_decode L session_id_hex of
                      Some b \<Rightarrow> length b \<noteq> 32 \<or> \<not> ct_eq b (ps_session_id s) | None \<Rightarrow> True)
           then (Inl InvalidSessionId, s)
           else
             (let peer = ev_pubkey ev; s1 = s\<lparr>ps_peer_pubkey := Some peer\<rparr>
              in check_then (ok_or SigningError (lib_shared_key L (ps_keys s1) peer)) (\<lambda>ecdh.
                   case derive_sas L ecdh (ps_session_secret s1) of
                     (code, sas_input) \<Rightarrow>
                       (Inr (format_sas code),
                        record_event ev (s1\<lparr>ps_sas_code := Some code, ps_sas_input := Some sas_input,
                          ps_state := Confirming\<rparr>))) s1)
       | other \<Rightarrow> (Inl (unexpected ''offer'' other), s)) s"

definition confirm_sas ::
  "pairing_lib \<Rightarrow> nat \<Rightarrow> build_env \<Rightarrow> PairingSession \<Rightarrow> (PairingError + nevent) \<times> PairingSession" where
  "confirm_sas L now env s =
     check_then (and_then (expect now Confirming Source s) (\<lambda>_.
                 and_then (ok_or SasMismatch (ps_sas_input s)) (\<lambda>sas_input.
                 and_then (ok_or NoPeer (ps_peer_pubkey s)) (\<lambda>peer.
                   let transcript_hash = derive_transcript_hash L (ps_session_id s)
                         (lib_pk_bytes L (lib_pubkey L (ps_keys s))) (lib_pk_bytes L peer) sas_input (ps_session_secret s)
                   in build_event L env (SasConfirm (lib_hex_encode L transcript_hash)) s)))) (\<lambda>event.
       (Inr event, s\<lparr>ps_state := Transferring\<rparr>)) s"

definition handle_return_payload ::
  "pairing_lib \<Rightarrow> nat \<Rightarrow> nevent \<Rightarrow> PairingSession \<Rightarrow> (PairingError + PayloadType \<times> string) \<times> PairingSession" where
  "handle_return_payload L now ev s =
     check_then (and_then (expect now Transferring Source s) (\<lambda>_.
                 and_then (validate_event_from_peer L ev s) (\<lambda>_. decrypt_message L ev s))) (\<lambda>msg.
       case msg of
         Payload ptype payload \<Rightarrow> (Inr (ptype, payload), record_event ev (s\<lparr>ps_state := PayloadExchanged\<rparr>))
       | other \<Rightarrow> (Inl (unexpected ''payload'' other), s)) s"

definition send_source_complete ::
  "pairing_lib \<Rightarrow> nat \<Rightarrow> build_env \<Rightarrow> bool \<Rightarrow> PairingSession \<Rightarrow> (PairingError + nevent) \<times> PairingSession" where
  "send_source_complete L now env success s =
     check_then (and_then (expect now PayloadExchanged Source s) (\<lambda>_. build_event L env (Complete success) s)) (\<lambda>event.
       (Inr event, s\<lparr>ps_state := (if success then Completed else Aborted)\<rparr>)) s"

definition send_payload ::
  "pairing_lib \<Rightarrow> nat \<Rightarrow> build_env \<Rightarrow> PayloadType \<Rightarrow> string \<Rightarrow> PairingSession
   \<Rightarrow> (PairingError + nevent) \<times> PairingSession" where
  "send_payload L now env ptype payload s =
     check_then (and_then (expect now Transferring Source s) (\<lambda>_. build_event L env (Payload ptype payload) s)) (\<lambda>event.
       (Inr event, s\<lparr>ps_state := PayloadExchanged\<rparr>)) s"

definition handle_complete ::
  "pairing_lib \<Rightarrow> nat \<Rightarrow> nevent \<Rightarrow> PairingSession \<Rightarrow> (PairingError + unit) \<times> PairingSession" where
  "handle_complete L now ev s =
     check_then (and_then (expect now PayloadExchanged Source s) (\<lambda>_.
                 and_then (validate_event_from_peer L ev s) (\<lambda>_. decrypt_message L ev s))) (\<lambda>msg.
       case msg of
         Complete success \<Rightarrow>
           if success then (Inr (), record_event ev (s\<lparr>ps_state := Completed\<rparr>))
           else (Inl CompleteFailed, s\<lparr>ps_state := Aborted\<rparr>)
       | other \<Rightarrow> (Inl (unexpected ''complete'' other), s)) s"

section \<open>The target\<close>

definition new_target ::
  "pairing_lib \<Rightarrow> string \<Rightarrow> nat \<Rightarrow> build_env \<Rightarrow> QrPayload \<Rightarrow> PairingError + PairingSession \<times> nevent" where
  "new_target L keys now env qr =
     (let session_id = derive_session_id L (qr_session_secret qr)
      in and_then (ok_or SigningError (lib_shared_key L keys (qr_source_pubkey qr))) (\<lambda>ecdh.
           case derive_sas L ecdh (qr_session_secret qr) of
             (code, sas_input) \<Rightarrow>
               (let session = \<lparr>ps_role = Target, ps_state = Waiting, ps_keys = keys,
                      ps_session_secret = qr_session_secret qr, ps_relay_urls = qr_relays qr,
                      ps_peer_pubkey = Some (qr_source_pubkey qr), ps_session_id = session_id,
                      ps_sas_code = Some code, ps_sas_input = Some sas_input, ps_processed_ids = {},
                      ps_created_at = now, ps_timeout = DEFAULT_TIMEOUT\<rparr>
                in and_then (build_event L env (Offer (lib_hex_encode L session_id) 1) session) (\<lambda>event.
                     Inr (session\<lparr>ps_state := Confirming\<rparr>, event)))))"

definition handle_sas_confirm ::
  "pairing_lib \<Rightarrow> nat \<Rightarrow> nevent \<Rightarrow> PairingSession \<Rightarrow> (PairingError + string) \<times> PairingSession" where
  "handle_sas_confirm L now ev s =
     check_then (and_then (expect now Confirming Target s) (\<lambda>_.
                 and_then (validate_event_from_peer L ev s) (\<lambda>_. decrypt_message L ev s))) (\<lambda>msg.
       case msg of
         SasConfirm received_hash \<Rightarrow>
           check_then (and_then (ok_or SasMismatch (ps_sas_input s)) (\<lambda>sas_input.
                       and_then (ok_or NoPeer (ps_peer_pubkey s)) (\<lambda>peer.
                         Inr (derive_transcript_hash L (ps_session_id s) (lib_pk_bytes L peer)
                               (lib_pk_bytes L (lib_pubkey L (ps_keys s))) sas_input (ps_session_secret s))))) (\<lambda>expected_hash.
             if (case lib_hex_decode L received_hash of
                   Some rb \<Rightarrow> length rb = 32 \<and> ct_eq rb expected_hash | None \<Rightarrow> False)
             then (let s1 = record_event ev (s\<lparr>ps_state := AwaitingConfirmation\<rparr>)
                   in check_then (ok_or SasMismatch (ps_sas_code s1)) (\<lambda>code. (Inr (format_sas code), s1)) s1)
             else (Inl TranscriptMismatch, s\<lparr>ps_state := Aborted\<rparr>)) s
       | other \<Rightarrow> (Inl (unexpected ''sas-confirm'' other), s)) s"

definition confirm_target_sas :: "nat \<Rightarrow> PairingSession \<Rightarrow> (PairingError + unit) \<times> PairingSession" where
  "confirm_target_sas now s =
     check_then (expect now AwaitingConfirmation Target s) (\<lambda>_. (Inr (), s\<lparr>ps_state := Transferring\<rparr>)) s"

definition handle_payload ::
  "pairing_lib \<Rightarrow> nat \<Rightarrow> nevent \<Rightarrow> PairingSession \<Rightarrow> (PairingError + PayloadType \<times> string) \<times> PairingSession" where
  "handle_payload L now ev s =
     check_then (and_then (expect now Transferring Target s) (\<lambda>_.
                 and_then (validate_event_from_peer L ev s) (\<lambda>_. decrypt_message L ev s))) (\<lambda>msg.
       case msg of
         Payload ptype payload \<Rightarrow> (Inr (ptype, payload), record_event ev (s\<lparr>ps_state := PayloadExchanged\<rparr>))
       | other \<Rightarrow> (Inl (unexpected ''payload'' other), s)) s"

definition send_complete ::
  "pairing_lib \<Rightarrow> nat \<Rightarrow> build_env \<Rightarrow> PairingSession \<Rightarrow> (PairingError + nevent) \<times> PairingSession" where
  "send_complete L now env s =
     check_then (and_then (expect now PayloadExchanged Target s) (\<lambda>_. build_event L env (Complete True) s)) (\<lambda>event.
       (Inr event, s\<lparr>ps_state := Completed\<rparr>)) s"

section \<open>Both sides\<close>

definition abort ::
  "pairing_lib \<Rightarrow> build_env \<Rightarrow> AbortReason \<Rightarrow> PairingSession \<Rightarrow> (PairingError + nevent option) \<times> PairingSession" where
  "abort L env reason s =
     (if ps_state s = Completed \<or> ps_state s = Aborted then (Inl (TerminalState (ps_state s)), s)
      else if ps_peer_pubkey s = None then (Inr None, s\<lparr>ps_state := Aborted\<rparr>)
      else check_then (build_event L env (Abort reason) s) (\<lambda>event.
             (Inr (Some event), s\<lparr>ps_state := Aborted\<rparr>)) s)"

definition handle_abort ::
  "pairing_lib \<Rightarrow> nevent \<Rightarrow> PairingSession \<Rightarrow> (PairingError + AbortReason) \<times> PairingSession" where
  "handle_abort L ev s =
     (if ps_state s = Completed \<or> ps_state s = Aborted then (Inl (TerminalState (ps_state s)), s)
      else if ps_peer_pubkey s = None then (Inl NoPeer, s)
      else check_then (and_then (validate_event_from_peer L ev s) (\<lambda>_. decrypt_message L ev s)) (\<lambda>msg.
             case msg of
               Abort reason \<Rightarrow> (Inr reason, record_event ev (s\<lparr>ps_state := Aborted\<rparr>))
             | other \<Rightarrow> (Inl (unexpected ''abort'' other), s)) s)"

definition sas_code :: "PairingSession \<Rightarrow> string option" where
  "sas_code s = map_option format_sas (ps_sas_code s)"

definition qr_uri :: "pairing_lib \<Rightarrow> PairingSession \<Rightarrow> string option" where
  "qr_uri L s =
     (if ps_role s \<noteq> Source then None
      else Some (encode_qr L \<lparr>qr_source_pubkey = lib_pubkey L (ps_keys s), qr_session_secret = ps_session_secret s,
             qr_relays = ps_relay_urls s, qr_version = 1\<rparr>))"

end
