(* ===== verification/Pairing_Protocol.thy ===== *)
theory Pairing_Protocol
  imports Pairing_Session
begin

text \<open>
  What a pairing session promises to its caller: whatever is called on it, in whatever
  order and with whatever events, the calls it accepts follow one script per role.
\<close>

section \<open>Runs\<close>

text \<open>A call of one of the methods that advance a session.\<close>

datatype pairing_call =
    is_CallOffer: CallOffer nevent
  | is_CallConfirm: CallConfirm build_env
  | is_CallReturn: CallReturn nevent
  | is_CallSourceComplete: CallSourceComplete build_env bool
  | is_CallSend: CallSend build_env PayloadType string
  | is_CallComplete: CallComplete nevent
  | is_CallSasConfirm: CallSasConfirm nevent
  | CallTargetConfirm
  | is_CallPayload: CallPayload nevent
  | is_CallSendComplete: CallSendComplete build_env
  | is_CallAbort: CallAbort build_env AbortReason
  | is_CallPeerAbort: CallPeerAbort nevent

definition outcome :: "('e + 'a) \<times> PairingSession \<Rightarrow> bool \<times> PairingSession" where
  "outcome r = (case fst r of Inl _ \<Rightarrow> False | Inr _ \<Rightarrow> True, snd r)"

fun perform :: "pairing_lib \<Rightarrow> nat \<Rightarrow> pairing_call \<Rightarrow> PairingSession \<Rightarrow> bool \<times> PairingSession" where
  "perform L now (CallOffer ev) s = outcome (handle_offer L now ev s)"
| "perform L now (CallConfirm env) s = outcome (confirm_sas L now env s)"
| "perform L now (CallReturn ev) s = outcome (handle_return_payload L now ev s)"
| "perform L now (CallSourceComplete env b) s = outcome (send_source_complete L now env b s)"
| "perform L now (CallSend env t p) s = outcome (send_payload L now env t p s)"
| "perform L now (CallComplete ev) s = outcome (handle_complete L now ev s)"
| "perform L now (CallSasConfirm ev) s = outcome (handle_sas_confirm L now ev s)"
| "perform L now CallTargetConfirm s = outcome (confirm_target_sas now s)"
| "perform L now (CallPayload ev) s = outcome (handle_payload L now ev s)"
| "perform L now (CallSendComplete env) s = outcome (send_complete L now env s)"
| "perform L now (CallAbort env reason) s = outcome (abort L env reason s)"
| "perform L now (CallPeerAbort ev) s = outcome (handle_abort L ev s)"

text \<open>The accepted calls of a run, in order, and the session at its end.\<close>

fun pairing_run :: "pairing_lib \<Rightarrow> (nat \<times> pairing_call) list \<Rightarrow> PairingSession \<Rightarrow> pairing_call list \<times> PairingSession" where
  "pairing_run L [] s = ([], s)"
| "pairing_run L ((now, c) # cs) s =
     (case perform L now c s of (accepted, s1) \<Rightarrow>
        (case pairing_run L cs s1 of (log, s2) \<Rightarrow> (if accepted then c # log else log, s2)))"

section \<open>The script\<close>

definition move :: "SessionState \<Rightarrow> SessionState \<Rightarrow> Role \<Rightarrow> SessionState \<Rightarrow> Role \<Rightarrow> SessionState option" where
  "move from to needs st ro = (if st = from \<and> ro = needs then Some to else None)"

fun script_next :: "Role \<Rightarrow> SessionState \<Rightarrow> pairing_call \<Rightarrow> SessionState option" where
  "script_next ro st (CallOffer _) = move Waiting Confirming Source st ro"
| "script_next ro st (CallConfirm _) = move Confirming Transferring Source st ro"
| "script_next ro st (CallReturn _) = move Transferring PayloadExchanged Source st ro"
| "script_next ro st (CallSend _ _ _) = move Transferring PayloadExchanged Source st ro"
| "script_next ro st (CallSourceComplete _ b) = move PayloadExchanged (if b then Completed else Aborted) Source st ro"
| "script_next ro st (CallComplete _) = move PayloadExchanged Completed Source st ro"
| "script_next ro st (CallSasConfirm _) = move Confirming AwaitingConfirmation Target st ro"
| "script_next ro st CallTargetConfirm = move AwaitingConfirmation Transferring Target st ro"
| "script_next ro st (CallPayload _) = move Transferring PayloadExchanged Target st ro"
| "script_next ro st (CallSendComplete _) = move PayloadExchanged Completed Target st ro"
| "script_next ro st (CallAbort _ _) = (if st = Completed \<or> st = Aborted then None else Some Aborted)"
| "script_next ro st (CallPeerAbort _) = (if st = Completed \<or> st = Aborted then None else Some Aborted)"

fun script_run :: "Role \<Rightarrow> SessionState \<Rightarrow> pairing_call list \<Rightarrow> SessionState option" where
  "script_run ro st [] = Some st"
| "script_run ro st (c # cs) = (case script_next ro st c of None \<Rightarrow> None | Some st' \<Rightarrow> script_run ro st' cs)"

text \<open>What a target session has from its construction on.\<close>

definition session_inv :: "PairingSession \<Rightarrow> bool" where
  "session_inv s \<longleftrightarrow> ps_role s = Target \<longrightarrow> ps_sas_code s \<noteq> None \<and> ps_sas_input s \<noteq> None \<and> ps_peer_pubkey s \<noteq> None"

lemmas session_defs = check_then_def expect_def check_expired_def expect_state_def expect_role_def
  record_event_def outcome_def and_then_def ok_or_def

lemma expect_Inr: "expect now st ro s = Inr u \<longleftrightarrow> \<not> is_expired now s \<and> ps_state s = st \<and> ps_role s = ro"
  by (auto simp: session_defs split: if_splits)

text \<open>
  The fields of a session no call ever changes, and those no call on a target changes.
\<close>

definition same_identity :: "PairingSession \<Rightarrow> PairingSession \<Rightarrow> bool" where
  "same_identity s s' \<longleftrightarrow>
     ps_role s' = ps_role s \<and> ps_keys s' = ps_keys s \<and> ps_session_secret s' = ps_session_secret s
   \<and> ps_session_id s' = ps_session_id s \<and> ps_relay_urls s' = ps_relay_urls s
   \<and> ps_created_at s' = ps_created_at s \<and> ps_timeout s' = ps_timeout s
   \<and> (ps_role s = Target \<longrightarrow> ps_peer_pubkey s' = ps_peer_pubkey s \<and> ps_sas_input s' = ps_sas_input s
        \<and> ps_sas_code s' = ps_sas_code s)"

lemma same_identity_refl [simp]: "same_identity s s"
  by (simp add: same_identity_def)

lemma same_identity_trans: "same_identity s s' \<Longrightarrow> same_identity s' s'' \<Longrightarrow> same_identity s s''"
  by (auto simp: same_identity_def)

lemma same_identity_inv: "same_identity s s' \<Longrightarrow> session_inv s \<Longrightarrow> session_inv s'"
  by (auto simp: same_identity_def session_inv_def)

text \<open>One call: an accepted one is a step of the script; a refused one keeps the state or aborts.\<close>

definition call_ok :: "pairing_call \<Rightarrow> PairingSession \<Rightarrow> bool \<times> PairingSession \<Rightarrow> bool" where
  "call_ok c s r \<longleftrightarrow> same_identity s (snd r)
     \<and> (if fst r then script_next (ps_role s) (ps_state s) c = Some (ps_state (snd r))
        else ps_state (snd r) = ps_state s
          \<or> ps_state (snd r) = Aborted \<and> ps_state s \<noteq> Completed)"

lemma check_then_ok:
  assumes "\<And>a. r = Inr a \<Longrightarrow> call_ok c s (outcome (k a))"
  shows "call_ok c s (outcome (check_then r k s))"
  using assms by (cases r) (auto simp: check_then_def call_ok_def outcome_def)

lemma expect_and_then:
  "and_then (expect now st ro s) f = Inr a \<Longrightarrow> ps_state s = st \<and> ps_role s = ro \<and> f () = Inr a \<and> \<not> is_expired now s"
  by (auto simp: res_simps expect_Inr)

lemma outcome_simps [simp]:
  "outcome (Inl e, s) = (False, s)"
  "outcome (Inr a, s) = (True, s)"
  by (simp_all add: outcome_def)

lemma call_okI:
  "same_identity s s' \<Longrightarrow> script_next (ps_role s) (ps_state s) c = Some (ps_state s') \<Longrightarrow> call_ok c s (True, s')"
  "same_identity s s' \<Longrightarrow> ps_state s' = Aborted \<Longrightarrow> ps_state s \<noteq> Completed \<Longrightarrow> call_ok c s (False, s')"
  "call_ok c s (False, s)"
  by (simp_all add: call_ok_def)

lemmas call_simps = call_ok_def same_identity_def move_def check_then_def ok_or_def record_event_def Let_def

lemma handle_offer_ok: "call_ok (CallOffer ev) s (outcome (handle_offer L now ev s))"
  unfolding handle_offer_def
  by (rule check_then_ok) (auto dest!: expect_and_then simp: call_simps
      split: PairingMessage.split option.split prod.split)

lemma confirm_sas_ok: "call_ok (CallConfirm env) s (outcome (confirm_sas L now env s))"
  unfolding confirm_sas_def by (rule check_then_ok) (auto dest!: expect_and_then simp: call_simps)

lemma handle_return_payload_ok: "call_ok (CallReturn ev) s (outcome (handle_return_payload L now ev s))"
  unfolding handle_return_payload_def
  by (rule check_then_ok) (auto dest!: expect_and_then simp: call_simps split: PairingMessage.split)

lemma send_source_complete_ok:
  "call_ok (CallSourceComplete env b) s (outcome (send_source_complete L now env b s))"
  unfolding send_source_complete_def by (rule check_then_ok) (auto dest!: expect_and_then simp: call_simps)

lemma send_payload_ok: "call_ok (CallSend env t p) s (outcome (send_payload L now env t p s))"
  unfolding send_payload_def by (rule check_then_ok) (auto dest!: expect_and_then simp: call_simps)

lemma handle_complete_ok: "call_ok (CallComplete ev) s (outcome (handle_complete L now ev s))"
  unfolding handle_complete_def
  by (rule check_then_ok) (auto dest!: expect_and_then simp: call_simps split: PairingMessage.split)

lemma handle_sas_confirm_ok:
  assumes "session_inv s"
  shows "call_ok (CallSasConfirm ev) s (outcome (handle_sas_confirm L now ev s))"
  unfolding handle_sas_confirm_def using assms
  by (intro check_then_ok) (auto simp: call_simps session_inv_def res_simps expect_Inr
      split: PairingMessage.split option.split)

lemma confirm_target_sas_ok: "call_ok CallTargetConfirm s (outcome (confirm_target_sas now s))"
  unfolding confirm_target_sas_def by (rule check_then_ok) (auto simp: expect_Inr call_simps)

lemma handle_payload_ok: "call_ok (CallPayload ev) s (outcome (handle_payload L now ev s))"
  unfolding handle_payload_def
  by (rule check_then_ok) (auto dest!: expect_and_then simp: call_simps split: PairingMessage.split)

lemma send_complete_ok: "call_ok (CallSendComplete env) s (outcome (send_complete L now env s))"
  unfolding send_complete_def by (rule check_then_ok) (auto dest!: expect_and_then simp: call_simps)

lemma abort_ok: "call_ok (CallAbort env reason) s (outcome (abort L env reason s))"
  unfolding abort_def
  by (auto simp: call_simps split: sum.split)

lemma handle_abort_ok: "call_ok (CallPeerAbort ev) s (outcome (handle_abort L ev s))"
  unfolding handle_abort_def
  by (auto simp: call_simps split: sum.split PairingMessage.split)

lemmas calls_ok = handle_offer_ok confirm_sas_ok handle_return_payload_ok send_source_complete_ok send_payload_ok
  handle_complete_ok handle_sas_confirm_ok confirm_target_sas_ok handle_payload_ok send_complete_ok abort_ok
  handle_abort_ok

lemma perform_ok: "session_inv s \<Longrightarrow> call_ok c s (perform L now c s)"
  by (cases c) (simp_all add: calls_ok)

section \<open>Runs follow the script\<close>

lemma script_terminal: "script_next ro Completed c = None" "script_next ro Aborted c = None"
  by (cases c; simp add: move_def)+

lemma pairing_run_script:
  "session_inv s \<Longrightarrow> pairing_run L cs s = (log, s') \<Longrightarrow>
     same_identity s s' \<and> (\<exists>st. script_run (ps_role s) (ps_state s) log = Some st \<and> (ps_state s' = st \<or> ps_state s' = Aborted))"
proof (induction cs arbitrary: s log)
  case (Cons nc cs)
  obtain now c where nc: "nc = (now, c)" by fastforce
  obtain acc s1 where s1: "perform L now c s = (acc, s1)" by fastforce
  obtain log1 where run: "pairing_run L cs s1 = (log1, s')" and log: "log = (if acc then c # log1 else log1)"
    using Cons.prems(2) by (auto simp: nc s1 split: prod.splits)
  have ok: "call_ok c s (acc, s1)" using perform_ok [OF Cons.prems(1)] s1 by metis
  then have same: "same_identity s s1" by (simp add: call_ok_def)
  from Cons.IH [OF same_identity_inv [OF same Cons.prems(1)] run]
  obtain st where IH: "same_identity s1 s'" "script_run (ps_role s1) (ps_state s1) log1 = Some st"
    "ps_state s' = st \<or> ps_state s' = Aborted" by blast
  have role: "ps_role s1 = ps_role s" using same by (simp add: same_identity_def)
  show ?case
  proof (cases "acc \<or> ps_state s1 = ps_state s")
    case True
    with ok IH(2) have "script_run (ps_role s) (ps_state s) log = Some st"
      by (auto simp: call_ok_def log role)
    with IH same show ?thesis using same_identity_trans by blast
  next
    case False
    with ok have "ps_state s1 = Aborted" by (auto simp: call_ok_def)
    with IH(2) have "log1 = []" "st = Aborted" by (cases log1; auto simp: script_terminal)+
    with False IH same show ?thesis using same_identity_trans by (auto simp: log)
  qed
qed auto

text \<open>The calls each role's script admits, stage by stage.\<close>

fun stages :: "Role \<Rightarrow> (pairing_call \<Rightarrow> bool) list" where
  "stages Source = [is_CallOffer, is_CallConfirm, \<lambda>c. is_CallSend c \<or> is_CallReturn c,
     \<lambda>c. is_CallComplete c \<or> is_CallSourceComplete c]"
| "stages Target = [is_CallSasConfirm, \<lambda>c. c = CallTargetConfirm, is_CallPayload, is_CallSendComplete]"

definition stage_of :: "Role \<Rightarrow> SessionState \<Rightarrow> nat" where
  "stage_of ro st = (if ro = Source \<and> st = Waiting \<or> ro = Target \<and> st = Confirming then 0
     else if ro = Source \<and> st = Confirming \<or> ro = Target \<and> st = AwaitingConfirmation then 1
     else if st = Transferring then 2 else if st = PayloadExchanged then 3 else 4)"

definition follows_script :: "Role \<Rightarrow> nat \<Rightarrow> pairing_call list \<Rightarrow> bool" where
  "follows_script ro n log \<longleftrightarrow> (\<exists>p q. log = p @ q
     \<and> list_all2 (\<lambda>P c. P c) (take (length p) (drop n (stages ro))) p
     \<and> (q = [] \<or> (\<exists>c. q = [c] \<and> (is_CallAbort c \<or> is_CallPeerAbort c))))"

lemma follows_script_Nil [simp]: "follows_script ro n []"
  by (simp add: follows_script_def)

lemma follows_script_Cons:
  assumes "n < 4" and "(stages ro ! n) c" and "follows_script ro (Suc n) cs"
  shows "follows_script ro n (c # cs)"
proof -
  from assms(3) obtain p q where pq: "cs = p @ q"
    "list_all2 (\<lambda>P c. P c) (take (length p) (drop (Suc n) (stages ro))) p"
    "q = [] \<or> (\<exists>c. q = [c] \<and> (is_CallAbort c \<or> is_CallPeerAbort c))"
    unfolding follows_script_def by blast
  have "drop n (stages ro) = stages ro ! n # drop (Suc n) (stages ro)"
    using assms(1) by (intro Cons_nth_drop_Suc [symmetric]) (cases ro; simp)
  with pq assms(2) show ?thesis
    unfolding follows_script_def by (intro exI [of _ "c # p"] exI [of _ q]) simp
qed

lemma follows_script_abort: "is_CallAbort c \<or> is_CallPeerAbort c \<Longrightarrow> follows_script ro n [c]"
  unfolding follows_script_def by (intro exI [of _ "[]"] exI [of _ "[c]"]) simp

lemma script_next_stage:
  "script_next ro st c = Some st' \<Longrightarrow> is_CallAbort c \<or> is_CallPeerAbort c \<Longrightarrow> st' = Aborted"
  "script_next ro st c = Some st' \<Longrightarrow> \<not> (is_CallAbort c \<or> is_CallPeerAbort c) \<Longrightarrow>
     stage_of ro st < 4 \<and> (stages ro ! stage_of ro st) c \<and> stage_of ro st' = Suc (stage_of ro st)"
  by (cases c; cases ro; auto simp: move_def stage_of_def numeral_2_eq_2 numeral_3_eq_3 split: if_splits)+

lemma script_run_follows: "script_run ro st log = Some st' \<Longrightarrow> follows_script ro (stage_of ro st) log"
proof (induction log arbitrary: st)
  case (Cons c cs)
  then obtain st1 where st1: "script_next ro st c = Some st1" and rest: "script_run ro st1 cs = Some st'"
    by (auto split: option.splits)
  show ?case
  proof (cases "is_CallAbort c \<or> is_CallPeerAbort c")
    case True
    then have "st1 = Aborted" by (rule script_next_stage(1) [OF st1])
    with rest have "cs = []" by (cases cs) (auto simp: script_terminal)
    with True show ?thesis by (simp add: follows_script_abort)
  next
    case False
    then show ?thesis using script_next_stage(2) [OF st1] Cons.IH [OF rest] by (auto intro: follows_script_Cons)
  qed
qed simp

text \<open>A session as its constructor returns it.\<close>

definition initial_session :: "pairing_lib \<Rightarrow> PairingSession \<Rightarrow> bool" where
  "initial_session L s \<longleftrightarrow>
     (\<exists>keys secret now url. s = fst (new_source L keys secret now url))
   \<or> (\<exists>keys now env qr offer. new_target L keys now env qr = Inr (s, offer))"

lemma new_target_session:
  assumes "new_target L keys now env qr = Inr (s, offer)"
  shows "session_inv s \<and> ps_role s = Target \<and> ps_state s = Confirming \<and> ps_keys s = keys
     \<and> ps_peer_pubkey s = Some (qr_source_pubkey qr) \<and> ps_session_secret s = qr_session_secret qr
     \<and> ps_session_id s = derive_session_id L (qr_session_secret qr) \<and> ps_processed_ids s = {}
     \<and> ps_created_at s = now \<and> ps_timeout s = DEFAULT_TIMEOUT
     \<and> (\<exists>ecdh. lib_shared_key L keys (qr_source_pubkey qr) = Some ecdh
         \<and> ps_sas_input s = Some (snd (derive_sas L ecdh (qr_session_secret qr)))
         \<and> ps_sas_code s = Some (fst (derive_sas L ecdh (qr_session_secret qr))))"
proof -
  obtain ecdh where ecdh: "lib_shared_key L keys (qr_source_pubkey qr) = Some ecdh"
    using assms by (auto simp: new_target_def Let_def ok_or_def split: option.splits)
  obtain code input where sas: "derive_sas L ecdh (qr_session_secret qr) = (code, input)" by fastforce
  from assms show ?thesis
    by (auto simp: new_target_def Let_def ok_or_def ecdh sas res_simps session_inv_def)
qed

lemma initial_session_props:
  "initial_session L s \<Longrightarrow> session_inv s \<and> stage_of (ps_role s) (ps_state s) = 0"
  unfolding initial_session_def
  by (auto simp: new_source_def session_inv_def stage_of_def dest: new_target_session)

text \<open>
  C37: whatever is called on a pairing session, in whatever order, with whatever events and
  libraries, the calls it accepts are an initial part of its role's script, each stage at
  most once and in order, possibly ended by one abort: a source takes an offer, its user's
  confirmation, one payload in one direction and a completion; a target takes the source's
  confirmation, its user's confirmation, one payload and sends a completion. In particular no
  payload moves before the user has confirmed, and at most five calls are ever accepted.
\<close>

theorem pairing_follows_script:
  assumes "initial_session L s" and "pairing_run L calls s = (log, s')"
  shows "(\<exists>p q. log = p @ q \<and> list_all2 (\<lambda>P c. P c) (take (length p) (stages (ps_role s))) p
      \<and> (q = [] \<or> (\<exists>c. q = [c] \<and> (is_CallAbort c \<or> is_CallPeerAbort c))))
    \<and> length log \<le> 5"
proof -
  note init = initial_session_props [OF assms(1)]
  from pairing_run_script [OF conjunct1 [OF init] assms(2)]
  obtain st where "script_run (ps_role s) (ps_state s) log = Some st" by blast
  from script_run_follows [OF this] init obtain p q where pq: "log = p @ q"
    "list_all2 (\<lambda>P c. P c) (take (length p) (stages (ps_role s))) p"
    "q = [] \<or> (\<exists>c. q = [c] \<and> (is_CallAbort c \<or> is_CallPeerAbort c))"
    by (auto simp: follows_script_def)
  have "length p \<le> length (stages (ps_role s))" using list_all2_lengthD [OF pq(2)] by simp
  moreover have "length (stages (ps_role s)) = 4" by (cases "ps_role s") simp_all
  ultimately have "length log \<le> 5" using pq(1,3) by auto
  with pq show ?thesis by blast
qed

section \<open>A target only trusts the device whose code it scanned\<close>

text \<open>
  The event is signed by the peer, and decrypts to a confirmation of the transcript hash this
  session derives itself.
\<close>

definition confirms :: "pairing_lib \<Rightarrow> PairingSession \<Rightarrow> nevent \<Rightarrow> bool" where
  "confirms L s ev \<longleftrightarrow> (\<exists>peer sas_input h. ps_peer_pubkey s = Some peer \<and> ps_sas_input s = Some sas_input
     \<and> lib_verify L ev \<and> ev_pubkey ev = peer \<and> decrypt_message L ev s = Inr (SasConfirm h)
     \<and> lib_hex_decode L h = Some (derive_transcript_hash L (ps_session_id s) (lib_pk_bytes L peer)
          (lib_pk_bytes L (lib_pubkey L (ps_keys s))) sas_input (ps_session_secret s)))"

definition signed_by_peer :: "pairing_lib \<Rightarrow> PairingSession \<Rightarrow> nevent \<Rightarrow> bool" where
  "signed_by_peer L s ev \<longleftrightarrow> lib_verify L ev \<and> ps_peer_pubkey s = Some (ev_pubkey ev)"

lemma decrypt_message_keys: "ps_keys s = ps_keys s' \<Longrightarrow> decrypt_message L ev s = decrypt_message L ev s'"
  unfolding decrypt_message_def by (simp only:)

lemma confirms_same: "same_identity s s' \<Longrightarrow> ps_role s = Target \<Longrightarrow> confirms L s' ev = confirms L s ev"
  using decrypt_message_keys [of s' s] unfolding confirms_def same_identity_def by auto

lemma signed_by_peer_same: "same_identity s s' \<Longrightarrow> ps_role s = Target \<Longrightarrow> signed_by_peer L s' ev = signed_by_peer L s ev"
  by (simp add: signed_by_peer_def same_identity_def)

lemma from_peer_Inr:
  "validate_event_from_peer L ev s = Inr u \<Longrightarrow> ps_peer_pubkey s \<noteq> None \<Longrightarrow> signed_by_peer L s ev"
  by (auto simp: validate_event_from_peer_def validate_event_basics_def signed_by_peer_def res_simps split: if_splits)

lemma check_then_Inr: "check_then r k s = (Inr x, s') \<longleftrightarrow> (\<exists>a. r = Inr a \<and> k a = (Inr x, s'))"
  by (cases r) (auto simp: check_then_def)

lemma outcome_accepted: "fst (outcome r) \<longleftrightarrow> (\<exists>x s'. r = (Inr x, s'))"
  by (cases r) (auto simp: outcome_def split: sum.splits)

lemmas accept_simps = outcome_accepted check_then_Inr res_simps expect_Inr ok_or_def

lemma accepted_payload:
  assumes "fst (perform L now (CallPayload ev) s)" and "session_inv s"
  shows "signed_by_peer L s ev"
  using assms
  by (auto simp: handle_payload_def accept_simps session_inv_def intro!: from_peer_Inr)

lemma accepted_confirm:
  assumes "fst (perform L now (CallSasConfirm ev) s)" and "session_inv s"
  shows "confirms L s ev"
proof -
  obtain msg where role: "ps_role s = Target" and val: "validate_event_from_peer L ev s = Inr ()"
    and msg: "decrypt_message L ev s = Inr msg"
    using assms(1) by (auto simp: handle_sas_confirm_def accept_simps)
  obtain peer where peer: "ps_peer_pubkey s = Some peer" using assms(2) role by (auto simp: session_inv_def)
  obtain input where input: "ps_sas_input s = Some input" using assms(2) role by (auto simp: session_inv_def)
  obtain h where "msg = SasConfirm h" "lib_hex_decode L h = Some (derive_transcript_hash L (ps_session_id s)
      (lib_pk_bytes L peer) (lib_pk_bytes L (lib_pubkey L (ps_keys s))) input (ps_session_secret s))"
    using assms(1) by (cases msg)
      (auto simp: handle_sas_confirm_def accept_simps msg val peer input ct_eq_def split: if_splits option.splits)
  with msg peer input from_peer_Inr [OF val] show ?thesis by (auto simp: confirms_def signed_by_peer_def)
qed

lemma run_authentic:
  "session_inv s \<Longrightarrow> ps_role s = Target \<Longrightarrow> pairing_run L cs s = (log, s') \<Longrightarrow>
     (CallPayload ev \<in> set log \<longrightarrow> signed_by_peer L s ev) \<and> (CallSasConfirm ev \<in> set log \<longrightarrow> confirms L s ev)"
proof (induction cs arbitrary: s log)
  case (Cons nc cs)
  obtain now c where nc: "nc = (now, c)" by fastforce
  obtain acc s1 where s1: "perform L now c s = (acc, s1)" by fastforce
  obtain log1 where run: "pairing_run L cs s1 = (log1, s')" and log: "log = (if acc then c # log1 else log1)"
    using Cons.prems(3) by (auto simp: nc s1 split: prod.splits)
  have same: "same_identity s s1" using perform_ok [OF Cons.prems(1), of c L now] by (simp add: s1 call_ok_def)
  with Cons.prems(2) have "ps_role s1 = Target" by (simp add: same_identity_def)
  from Cons.IH [OF same_identity_inv [OF same Cons.prems(1)] this run]
  have "(CallPayload ev \<in> set log1 \<longrightarrow> signed_by_peer L s ev) \<and> (CallSasConfirm ev \<in> set log1 \<longrightarrow> confirms L s ev)"
    by (simp add: confirms_same [OF same Cons.prems(2)] signed_by_peer_same [OF same Cons.prems(2)])
  then show ?case
    using accepted_payload [of L now ev s] accepted_confirm [of L now ev s] Cons.prems(1) s1 by (auto simp: log)
qed simp

lemma follows_target_payload:
  assumes "follows_script Target 0 log" and "CallPayload ev \<in> set log"
  shows "\<exists>ev0 rest. log = CallSasConfirm ev0 # CallTargetConfirm # CallPayload ev # rest"
proof -
  obtain p q where log: "log = p @ q" and p: "list_all2 (\<lambda>P c. P c) (take (length p) (stages Target)) p"
    and q: "q = [] \<or> (\<exists>c. q = [c] \<and> (is_CallAbort c \<or> is_CallPeerAbort c))"
    using assms(1) by (auto simp: follows_script_def)
  have mem: "CallPayload ev \<in> set p" using assms(2) q by (auto simp: log)
  obtain c0 c1 c2 p' where split: "p = c0 # c1 # c2 # p'"
    and st: "is_CallSasConfirm c0" "c1 = CallTargetConfirm" "is_CallPayload c2" "\<forall>c \<in> set p'. is_CallSendComplete c"
  proof (cases p rule: list.exhaust)
    case (Cons c0 p0)
    with p mem obtain c1 p1 where p1: "p0 = c1 # p1" by (cases p0) auto
    with Cons p mem obtain c2 p2 where p2: "p1 = c2 # p2" by (cases p1) auto
    with Cons p1 p have "\<forall>c \<in> set p2. is_CallSendComplete c"
      by (cases p2; cases "tl p2") auto
    with Cons p1 p2 p that show ?thesis by auto
  qed (use mem in simp)
  with mem have "c2 = CallPayload ev" by auto
  with split st log show ?thesis by (cases c0) auto
qed

text \<open>
  C10: a target only takes a secret from the device whose code it scanned, and only after that
  device has proved the same session and the user has agreed: every payload it accepts is
  signed by the key in the code, and is preceded by exactly two accepted calls, a
  confirmation signed by that key which carries the transcript hash of the two keys and of
  the shared secret of this session, and the user's own confirmation.
\<close>

theorem pairing_target_authentic:
  assumes "new_target L keys t env qr = Inr (s, offer)" and "pairing_run L calls s = (log, s')"
    and "CallPayload ev \<in> set log"
  shows "lib_verify L ev \<and> ev_pubkey ev = qr_source_pubkey qr
    \<and> (\<exists>ev0 h ecdh rest. log = CallSasConfirm ev0 # CallTargetConfirm # CallPayload ev # rest
        \<and> lib_verify L ev0 \<and> ev_pubkey ev0 = qr_source_pubkey qr
        \<and> decrypt_message L ev0 s = Inr (SasConfirm h) \<and> lib_shared_key L keys (qr_source_pubkey qr) = Some ecdh
        \<and> lib_hex_decode L h = Some (derive_transcript_hash L (derive_session_id L (qr_session_secret qr))
             (lib_pk_bytes L (qr_source_pubkey qr)) (lib_pk_bytes L (lib_pubkey L keys))
             (snd (derive_sas L ecdh (qr_session_secret qr))) (qr_session_secret qr)))"
proof -
  note new = new_target_session [OF assms(1)]
  then have inv: "session_inv s" and role: "ps_role s = Target" and stage: "stage_of (ps_role s) (ps_state s) = 0"
    by (simp_all add: stage_of_def)
  from pairing_run_script [OF inv assms(2)] obtain st where "script_run (ps_role s) (ps_state s) log = Some st" by blast
  from script_run_follows [OF this] have "follows_script Target 0 log" by (simp only: stage) (simp add: role)
  from follows_target_payload [OF this assms(3)]
  obtain ev0 rest where log: "log = CallSasConfirm ev0 # CallTargetConfirm # CallPayload ev # rest" by blast
  have "signed_by_peer L s ev" using run_authentic [OF inv role assms(2), of ev] assms(3) by blast
  moreover have "confirms L s ev0" using run_authentic [OF inv role assms(2), of ev0] by (simp add: log)
  ultimately show ?thesis
    using new log unfolding signed_by_peer_def confirms_def by force
qed

end
