(* ===== verification/Pairing_Honest.thy ===== *)
theory Pairing_Honest
  imports Pairing_Protocol
begin

text \<open>
  Two honest devices. Given libraries that do what they are documented to do, the exchange
  drawn at the head of \<open>session.rs\<close> runs to its end, and the QR URI is read back as written.
\<close>

section \<open>What the libraries are relied on for\<close>

text \<open>\<open>serde_json\<close> writes the message, within the size NIP-44 takes, and reads it back.\<close>

definition fits :: "pairing_lib \<Rightarrow> PairingMessage \<Rightarrow> bool" where
  "fits L m \<longleftrightarrow> (\<exists>t. lib_to_json L m = Some t \<and> 0 < length t \<and> length t \<le> 65535 \<and> lib_from_json L t = Some m)"

fun short_message :: "PairingMessage \<Rightarrow> bool" where
  "short_message (Offer sid v) \<longleftrightarrow> length sid = 64 \<and> v = 1"
| "short_message (SasConfirm h) \<longleftrightarrow> length h = 64"
| "short_message (Complete _) \<longleftrightarrow> True"
| "short_message _ \<longleftrightarrow> False"

definition ecdh_law :: "pairing_lib \<Rightarrow> bool" where
  "ecdh_law L \<longleftrightarrow> (\<forall>a b. \<exists>k. lib_shared_key L a (lib_pubkey L b) = Some k \<and> lib_shared_key L b (lib_pubkey L a) = Some k)"

definition nip44_law :: "pairing_lib \<Rightarrow> bool" where
  "nip44_law L \<longleftrightarrow> (\<forall>a b t n. 0 < length t \<and> length t \<le> 65535 \<longrightarrow>
     (\<exists>c. lib_encrypt L a (lib_pubkey L b) t n = Some c \<and> lib_decrypt L b (lib_pubkey L a) c = Some t
        \<and> 132 \<le> length c \<and> length c \<le> 87472))"

definition sign_law :: "pairing_lib \<Rightarrow> bool" where
  "sign_law L \<longleftrightarrow> (\<forall>a k c ts time. \<exists>ev. lib_sign L a k c ts time = Some ev \<and> lib_verify L ev
     \<and> ev_pubkey ev = lib_pubkey L a \<and> ev_kind ev = k \<and> ev_content ev = c \<and> map tag_slice (ev_tags ev) = ts)"

text \<open>The id of a verified event is a hash of the event; it has no collisions.\<close>

definition id_law :: "pairing_lib \<Rightarrow> bool" where
  "id_law L \<longleftrightarrow> (\<forall>ev ev'. lib_verify L ev \<and> lib_verify L ev' \<and> ev_id ev = ev_id ev' \<longrightarrow> ev_content ev = ev_content ev')"

definition hex_law :: "pairing_lib \<Rightarrow> bool" where
  "hex_law L \<longleftrightarrow> (\<forall>bs. lib_hex_decode L (lib_hex_encode L bs) = Some bs
     \<and> length (lib_hex_encode L bs) = 2 * length bs \<and> list_all is_lowercase_hex (lib_hex_encode L bs))"

definition hkdf_law :: "pairing_lib \<Rightarrow> bool" where
  "hkdf_law L \<longleftrightarrow> (\<forall>prk info. length (lib_hkdf_expand L prk info 32) = 32)"

definition json_law :: "pairing_lib \<Rightarrow> bool" where
  "json_law L \<longleftrightarrow> (\<forall>m. short_message m \<longrightarrow> fits L m)"

definition pairing_laws :: "pairing_lib \<Rightarrow> bool" where
  "pairing_laws L \<longleftrightarrow> ecdh_law L \<and> nip44_law L \<and> sign_law L \<and> id_law L \<and> hex_law L \<and> hkdf_law L \<and> json_law L"

section \<open>The exchange\<close>

definition and_next ::
  "('e + 'a) \<times> PairingSession \<Rightarrow> ('a \<Rightarrow> PairingSession \<Rightarrow> 'e + 'b) \<Rightarrow> 'e + 'b" where
  "and_next r k = and_then (fst r) (\<lambda>a. k a (snd r))"

text \<open>
  Step \<open>i\<close> happens at \<open>clk i\<close>, and builds its event, if any, with \<open>env i\<close>. The result is
  the two codes shown to the users, what the target received, and the two final states.
\<close>

definition pair_devices ::
  "pairing_lib \<Rightarrow> string \<Rightarrow> string \<Rightarrow> string \<Rightarrow> string \<Rightarrow> (nat \<Rightarrow> nat) \<Rightarrow> (nat \<Rightarrow> build_env) \<Rightarrow> PayloadType \<Rightarrow> string
   \<Rightarrow> PairingError + string \<times> string \<times> (PayloadType \<times> string) \<times> SessionState \<times> SessionState" where
  "pair_devices L source_keys target_keys secret url clk env ptype payload =
     (case new_source L source_keys secret (clk 0) url of (src0, qr) \<Rightarrow>
      and_then (new_target L target_keys (clk 1) (env 1) qr) (\<lambda>(tgt0, offer).
      and_next (handle_offer L (clk 2) offer src0) (\<lambda>source_code src1.
      and_next (confirm_sas L (clk 3) (env 3) src1) (\<lambda>confirmation src2.
      and_next (handle_sas_confirm L (clk 4) confirmation tgt0) (\<lambda>target_code tgt1.
      and_next (confirm_target_sas (clk 5) tgt1) (\<lambda>_ tgt2.
      and_next (send_payload L (clk 6) (env 6) ptype payload src2) (\<lambda>parcel src3.
      and_next (handle_payload L (clk 7) parcel tgt2) (\<lambda>received tgt3.
      and_next (send_complete L (clk 8) (env 8) tgt3) (\<lambda>completion tgt4.
      and_next (handle_complete L (clk 9) completion src3) (\<lambda>_ src4.
        Inr (source_code, target_code, received, ps_state src4, ps_state tgt4)))))))))))"

text \<open>An event the holder of \<open>a\<close> built for the holder of \<open>b\<close> to say \<open>m\<close>.\<close>

definition sent :: "pairing_lib \<Rightarrow> string \<Rightarrow> string \<Rightarrow> PairingMessage \<Rightarrow> nevent \<Rightarrow> bool" where
  "sent L a b m ev \<longleftrightarrow> lib_verify L ev \<and> ev_pubkey ev = lib_pubkey L a \<and> ev_kind ev = PAIRING_KIND
     \<and> map tag_slice (ev_tags ev) = [[''p'', lib_pubkey L b]]
     \<and> (\<forall>s. ps_keys s = b \<longrightarrow> decrypt_message L ev s = Inr m)"

lemma build_sent:
  assumes "pairing_laws L" and "fits L m" and "ps_peer_pubkey s = Some (lib_pubkey L b)"
  shows "\<exists>ev. build_event L env m s = Inr ev \<and> sent L (ps_keys s) b m ev"
proof -
  from assms(2) obtain t where t: "lib_to_json L m = Some t" "0 < length t" "length t \<le> 65535" "lib_from_json L t = Some m"
    unfolding fits_def by blast
  with assms(1) obtain c where c: "lib_encrypt L (ps_keys s) (lib_pubkey L b) t (be_nonce env) = Some c"
    "lib_decrypt L b (lib_pubkey L (ps_keys s)) c = Some t" "132 \<le> length c" "length c \<le> 87472"
    unfolding pairing_laws_def nip44_law_def by blast
  obtain ev where ev: "lib_sign L (ps_keys s) PAIRING_KIND c [[''p'', lib_pubkey L b]] (be_now env - be_random env mod 31) = Some ev"
    "lib_verify L ev" "ev_pubkey ev = lib_pubkey L (ps_keys s)" "ev_kind ev = PAIRING_KIND" "ev_content ev = c"
    "map tag_slice (ev_tags ev) = [[''p'', lib_pubkey L b]]"
    using assms(1) unfolding pairing_laws_def sign_law_def by blast
  have "build_event L env m s = Inr ev" using assms(3) t(1) c(1) ev(1) by (simp add: build_event_def ok_or_def Let_def)
  moreover have "sent L (ps_keys s) b m ev"
    using t c ev by (simp add: sent_def decrypt_message_def Let_def ok_or_def not_less)
  ultimately show ?thesis by blast
qed

lemma sent_valid:
  assumes "sent L a b m ev" and "ps_keys s = b" and "ev_id ev \<notin> ps_processed_ids s"
  shows "validate_event_basics L ev s = Inr ()"
    and "ps_peer_pubkey s = Some (lib_pubkey L a) \<Longrightarrow> validate_event_from_peer L ev s = Inr ()"
    and "decrypt_message L ev s = Inr m"
proof -
  from assms(1) obtain tg where "ev_tags ev = [tg]" "tag_slice tg = [''p'', lib_pubkey L b]"
    by (auto simp: sent_def)
  with assms show basics: "validate_event_basics L ev s = Inr ()"
    by (simp add: validate_event_basics_def sent_def)
  show "ps_peer_pubkey s = Some (lib_pubkey L a) \<Longrightarrow> validate_event_from_peer L ev s = Inr ()"
    using basics assms(1) by (simp add: validate_event_from_peer_def sent_def)
  show "decrypt_message L ev s = Inr m" using assms(1,2) by (simp add: sent_def)
qed

lemma sent_distinct:
  assumes "pairing_laws L" and "sent L a b m ev" and "sent L a b m' ev'" and "m \<noteq> m'"
  shows "ev_id ev \<noteq> ev_id ev'"
proof
  assume "ev_id ev = ev_id ev'"
  with assms(1-3) have "ev_content ev = ev_content ev'"
    unfolding pairing_laws_def id_law_def sent_def by blast
  moreover have "ev_pubkey ev = ev_pubkey ev'" using assms(2,3) by (simp add: sent_def)
  ultimately have same: "decrypt_message L ev s = decrypt_message L ev' s" for s
    unfolding decrypt_message_def by (simp only:)
  have "ps_keys (undefined\<lparr>ps_keys := b\<rparr>) = b" by simp
  with assms(2,3) same have "m = m'" unfolding sent_def by (metis sum.inject(2))
  with assms(4) show False by simp
qed

lemma expect_ok: "\<not> is_expired now s \<Longrightarrow> ps_state s = st \<Longrightarrow> ps_role s = ro \<Longrightarrow> expect now st ro s = Inr ()"
  by (simp add: expect_Inr)

lemma and_next_Inr [simp]: "and_next (Inr a, s) k = k a s"
  by (simp add: and_next_def)

lemma offer_accepted:
  assumes "\<not> is_expired now s" "ps_state s = Waiting" "ps_role s = Source"
    and "sent L a (ps_keys s) (Offer h 1) ev" "ev_id ev \<notin> ps_processed_ids s"
    and "lib_hex_decode L h = Some (ps_session_id s)" "length (ps_session_id s) = 32"
    and "lib_shared_key L (ps_keys s) (lib_pubkey L a) = Some k" "derive_sas L k (ps_session_secret s) = (code, input)"
  shows "handle_offer L now ev s = (Inr (format_sas code), record_event ev (s\<lparr>ps_peer_pubkey := Some (lib_pubkey L a),
    ps_sas_code := Some code, ps_sas_input := Some input, ps_state := Confirming\<rparr>))"
proof -
  have "ev_pubkey ev = lib_pubkey L a" using assms(4) by (simp add: sent_def)
  with assms(6-9) sent_valid(1,3) [OF assms(4) refl assms(5)] expect_ok [OF assms(1-3)] show ?thesis
    by (simp add: handle_offer_def check_then_def ct_eq_def ok_or_def)
qed

lemma confirmation_accepted:
  assumes "\<not> is_expired now s" "ps_state s = Confirming" "ps_role s = Target"
    and "sent L a (ps_keys s) (SasConfirm h) ev" "ev_id ev \<notin> ps_processed_ids s" "ps_peer_pubkey s = Some (lib_pubkey L a)"
    and "ps_sas_code s = Some code" "ps_sas_input s = Some input"
    and "lib_hex_decode L h = Some (derive_transcript_hash L (ps_session_id s) (lib_pk_bytes L (lib_pubkey L a))
           (lib_pk_bytes L (lib_pubkey L (ps_keys s))) input (ps_session_secret s))"
    and "hkdf_law L"
  shows "handle_sas_confirm L now ev s = (Inr (format_sas code), record_event ev (s\<lparr>ps_state := AwaitingConfirmation\<rparr>))"
proof -
  have "length (derive_transcript_hash L x y z u w) = 32" for x y z u w
    using assms(10) by (simp add: derive_transcript_hash_def hkdf32_def hkdf_law_def)
  with assms(6-9) sent_valid(2,3) [OF assms(4) refl assms(5)] expect_ok [OF assms(1-3)] show ?thesis
    by (simp add: handle_sas_confirm_def check_then_def ct_eq_def ok_or_def record_event_def)
qed

lemma payload_accepted:
  assumes "\<not> is_expired now s" "ps_state s = Transferring" "ps_role s = Target"
    and "sent L a (ps_keys s) (Payload t x) ev" "ev_id ev \<notin> ps_processed_ids s" "ps_peer_pubkey s = Some (lib_pubkey L a)"
  shows "handle_payload L now ev s = (Inr (t, x), record_event ev (s\<lparr>ps_state := PayloadExchanged\<rparr>))"
  using assms(6) sent_valid(2,3) [OF assms(4) refl assms(5)] expect_ok [OF assms(1-3)]
  by (simp add: handle_payload_def check_then_def)

lemma completion_accepted:
  assumes "\<not> is_expired now s" "ps_state s = PayloadExchanged" "ps_role s = Source"
    and "sent L a (ps_keys s) (Complete True) ev" "ev_id ev \<notin> ps_processed_ids s" "ps_peer_pubkey s = Some (lib_pubkey L a)"
  shows "handle_complete L now ev s = (Inr (), record_event ev (s\<lparr>ps_state := Completed\<rparr>))"
  using assms(6) sent_valid(2,3) [OF assms(4) refl assms(5)] expect_ok [OF assms(1-3)]
  by (simp add: handle_complete_def check_then_def)

section \<open>The two sessions along the exchange\<close>

definition honest_source ::
  "pairing_lib \<Rightarrow> string \<Rightarrow> string \<Rightarrow> string \<Rightarrow> nat \<Rightarrow> SessionState \<Rightarrow> string option \<Rightarrow> nat option \<Rightarrow> string option
   \<Rightarrow> string set \<Rightarrow> PairingSession" where
  "honest_source L keys secret url t0 st peer cd inp ids = \<lparr>ps_role = Source, ps_state = st, ps_keys = keys,
     ps_session_secret = secret, ps_relay_urls = [url], ps_peer_pubkey = peer, ps_session_id = derive_session_id L secret,
     ps_sas_code = cd, ps_sas_input = inp, ps_processed_ids = ids, ps_created_at = t0, ps_timeout = DEFAULT_TIMEOUT\<rparr>"

definition honest_target ::
  "pairing_lib \<Rightarrow> string \<Rightarrow> string \<Rightarrow> string \<Rightarrow> string \<Rightarrow> nat \<Rightarrow> nat \<Rightarrow> string \<Rightarrow> SessionState \<Rightarrow> string set \<Rightarrow> PairingSession" where
  "honest_target L keys peer secret url t0 code input st ids = \<lparr>ps_role = Target, ps_state = st, ps_keys = keys,
     ps_session_secret = secret, ps_relay_urls = [url], ps_peer_pubkey = Some peer, ps_session_id = derive_session_id L secret,
     ps_sas_code = Some code, ps_sas_input = Some input, ps_processed_ids = ids, ps_created_at = t0,
     ps_timeout = DEFAULT_TIMEOUT\<rparr>"

lemma honest_source_simps [simp]:
  "ps_role (honest_source L ks sec url t0 st peer cd inp ids) = Source"
  "ps_state (honest_source L ks sec url t0 st peer cd inp ids) = st"
  "ps_keys (honest_source L ks sec url t0 st peer cd inp ids) = ks"
  "ps_peer_pubkey (honest_source L ks sec url t0 st peer cd inp ids) = peer"
  "ps_session_secret (honest_source L ks sec url t0 st peer cd inp ids) = sec"
  "ps_session_id (honest_source L ks sec url t0 st peer cd inp ids) = derive_session_id L sec"
  "ps_sas_input (honest_source L ks sec url t0 st peer cd inp ids) = inp"
  "ps_processed_ids (honest_source L ks sec url t0 st peer cd inp ids) = ids"
  "(honest_source L ks sec url t0 st peer cd inp ids)\<lparr>ps_state := st'\<rparr> = honest_source L ks sec url t0 st' peer cd inp ids"
  "record_event ev (honest_source L ks sec url t0 st peer cd inp ids)
     = honest_source L ks sec url t0 st peer cd inp (insert (ev_id ev) ids)"
  "(honest_source L ks sec url t0 st peer cd inp ids)\<lparr>ps_peer_pubkey := p', ps_sas_code := c', ps_sas_input := i', ps_state := st'\<rparr>
     = honest_source L ks sec url t0 st' p' c' i' ids"
  "is_expired now (honest_source L ks sec url t0 st peer cd inp ids) \<longleftrightarrow> DEFAULT_TIMEOUT < now - t0"
  by (simp_all add: honest_source_def record_event_def is_expired_def)

lemma honest_target_simps [simp]:
  "ps_role (honest_target L ks pa sec url t0 code input st ids) = Target"
  "ps_state (honest_target L ks pa sec url t0 code input st ids) = st"
  "ps_keys (honest_target L ks pa sec url t0 code input st ids) = ks"
  "ps_peer_pubkey (honest_target L ks pa sec url t0 code input st ids) = Some pa"
  "ps_session_secret (honest_target L ks pa sec url t0 code input st ids) = sec"
  "ps_session_id (honest_target L ks pa sec url t0 code input st ids) = derive_session_id L sec"
  "ps_sas_code (honest_target L ks pa sec url t0 code input st ids) = Some code"
  "ps_sas_input (honest_target L ks pa sec url t0 code input st ids) = Some input"
  "ps_processed_ids (honest_target L ks pa sec url t0 code input st ids) = ids"
  "(honest_target L ks pa sec url t0 code input st ids)\<lparr>ps_state := st'\<rparr> = honest_target L ks pa sec url t0 code input st' ids"
  "record_event ev (honest_target L ks pa sec url t0 code input st ids)
     = honest_target L ks pa sec url t0 code input st (insert (ev_id ev) ids)"
  "is_expired now (honest_target L ks pa sec url t0 code input st ids) \<longleftrightarrow> DEFAULT_TIMEOUT < now - t0"
  by (simp_all add: honest_target_def record_event_def is_expired_def)

lemma hex_law_bytes:
  assumes "hex_law L"
  shows "lib_hex_decode L (lib_hex_encode L bs) = Some bs" and "length (lib_hex_encode L bs) = 2 * length bs"
  using assms by (simp_all add: hex_law_def)

lemma derived_lengths:
  assumes "hkdf_law L"
  shows "length (derive_session_id L secret) = 32" and "length (derive_transcript_hash L x y z u w) = 32"
  using assms by (simp_all add: derive_session_id_def derive_transcript_hash_def hkdf_law_def hkdf32_def)

text \<open>What the source does at each of its turns.\<close>

lemma source_turns:
  fixes L keys secret url t0 peer code input
  defines "S \<equiv> \<lambda>st ids. honest_source L keys secret url t0 st (Some (lib_pubkey L peer)) (Some code) (Some input) ids"
  assumes time: "now - t0 \<le> DEFAULT_TIMEOUT" and laws: "hex_law L" "hkdf_law L"
  shows "sent L peer keys (Offer (lib_hex_encode L (derive_session_id L secret)) 1) oev
      \<Longrightarrow> lib_shared_key L keys (lib_pubkey L peer) = Some k \<Longrightarrow> derive_sas L k secret = (code, input)
      \<Longrightarrow> handle_offer L now oev (honest_source L keys secret url t0 Waiting None None None {})
          = (Inr (format_sas code), S Confirming {ev_id oev})"
    and "build_event L env (SasConfirm (lib_hex_encode L (derive_transcript_hash L (derive_session_id L secret)
           (lib_pk_bytes L (lib_pubkey L keys)) (lib_pk_bytes L (lib_pubkey L peer)) input secret))) (S Confirming ids) = Inr cev
      \<Longrightarrow> confirm_sas L now env (S Confirming ids) = (Inr cev, S Transferring ids)"
    and "build_event L env (Payload t x) (S Transferring ids) = Inr pev
      \<Longrightarrow> send_payload L now env t x (S Transferring ids) = (Inr pev, S PayloadExchanged ids)"
    and "sent L peer keys (Complete True) fev \<Longrightarrow> ev_id fev \<notin> ids
      \<Longrightarrow> handle_complete L now fev (S PayloadExchanged ids) = (Inr (), S Completed (insert (ev_id fev) ids))"
proof -
  show "handle_offer L now oev (honest_source L keys secret url t0 Waiting None None None {})
      = (Inr (format_sas code), S Confirming {ev_id oev})"
    if "sent L peer keys (Offer (lib_hex_encode L (derive_session_id L secret)) 1) oev"
      "lib_shared_key L keys (lib_pubkey L peer) = Some k" "derive_sas L k secret = (code, input)"
    using offer_accepted [of now "honest_source L keys secret url t0 Waiting None None None {}" L peer _ oev k code input] that time
    by (simp add: S_def hex_law_bytes [OF laws(1)] derived_lengths [OF laws(2)])
  show "confirm_sas L now env (S Confirming ids) = (Inr cev, S Transferring ids)"
    if "build_event L env (SasConfirm (lib_hex_encode L (derive_transcript_hash L (derive_session_id L secret)
           (lib_pk_bytes L (lib_pubkey L keys)) (lib_pk_bytes L (lib_pubkey L peer)) input secret))) (S Confirming ids) = Inr cev"
    using that time by (simp add: S_def confirm_sas_def check_then_def expect_ok ok_or_def Let_def)
  show "send_payload L now env t x (S Transferring ids) = (Inr pev, S PayloadExchanged ids)"
    if "build_event L env (Payload t x) (S Transferring ids) = Inr pev"
    using that time by (simp add: S_def send_payload_def check_then_def expect_ok)
  show "handle_complete L now fev (S PayloadExchanged ids) = (Inr (), S Completed (insert (ev_id fev) ids))"
    if "sent L peer keys (Complete True) fev" "ev_id fev \<notin> ids"
    using completion_accepted [of now "S PayloadExchanged ids" L peer fev] that time by (simp add: S_def)
qed

text \<open>What the target does at each of its turns.\<close>

lemma target_turns:
  fixes L keys secret url t0 peer code input
  defines "T \<equiv> honest_target L keys (lib_pubkey L peer) secret url t0 code input"
  assumes time: "now - t0 \<le> DEFAULT_TIMEOUT" and laws: "hex_law L" "hkdf_law L"
  shows "sent L peer keys (SasConfirm (lib_hex_encode L (derive_transcript_hash L (derive_session_id L secret)
           (lib_pk_bytes L (lib_pubkey L peer)) (lib_pk_bytes L (lib_pubkey L keys)) input secret))) cev
      \<Longrightarrow> handle_sas_confirm L now cev (T Confirming {}) = (Inr (format_sas code), T AwaitingConfirmation {ev_id cev})"
    and "confirm_target_sas now (T AwaitingConfirmation ids) = (Inr (), T Transferring ids)"
    and "sent L peer keys (Payload t x) pev \<Longrightarrow> ev_id pev \<notin> ids
      \<Longrightarrow> handle_payload L now pev (T Transferring ids) = (Inr (t, x), T PayloadExchanged (insert (ev_id pev) ids))"
    and "build_event L env (Complete True) (T PayloadExchanged ids) = Inr fev
      \<Longrightarrow> send_complete L now env (T PayloadExchanged ids) = (Inr fev, T Completed ids)"
proof -
  show "handle_sas_confirm L now cev (T Confirming {}) = (Inr (format_sas code), T AwaitingConfirmation {ev_id cev})"
    if "sent L peer keys (SasConfirm (lib_hex_encode L (derive_transcript_hash L (derive_session_id L secret)
           (lib_pk_bytes L (lib_pubkey L peer)) (lib_pk_bytes L (lib_pubkey L keys)) input secret))) cev"
    using confirmation_accepted [of now "T Confirming {}" L peer _ cev code input] that time laws(2)
    by (simp add: T_def hex_law_bytes [OF laws(1)])
  show "confirm_target_sas now (T AwaitingConfirmation ids) = (Inr (), T Transferring ids)"
    using time by (simp add: T_def confirm_target_sas_def check_then_def expect_ok)
  show "handle_payload L now pev (T Transferring ids) = (Inr (t, x), T PayloadExchanged (insert (ev_id pev) ids))"
    if "sent L peer keys (Payload t x) pev" "ev_id pev \<notin> ids"
    using payload_accepted [of now "T Transferring ids" L peer _ _ pev] that time by (simp add: T_def)
  show "send_complete L now env (T PayloadExchanged ids) = (Inr fev, T Completed ids)"
    if "build_event L env (Complete True) (T PayloadExchanged ids) = Inr fev"
    using that time by (simp add: T_def send_complete_def check_then_def expect_ok)
qed

text \<open>
  C36: the protocol completes: two devices whose calls reach each other within the two
  minutes, on libraries that keep their laws, show their users the same code, the target
  receives exactly the payload the source sent, and both sessions end completed.
\<close>

theorem pairing_completes:
  assumes "pairing_laws L" and "fits L (Payload ptype payload)"
    and "\<forall>i \<le> 9. clk i - clk 0 \<le> DEFAULT_TIMEOUT \<and> clk i - clk 1 \<le> DEFAULT_TIMEOUT"
  shows "\<exists>code. pair_devices L source_keys target_keys secret url clk env ptype payload
    = Inr (code, code, (ptype, payload), Completed, Completed)"
proof -
  let ?pa = "lib_pubkey L source_keys" and ?pb = "lib_pubkey L target_keys" and ?sid = "derive_session_id L secret"
  have laws: "hex_law L" "hkdf_law L" "ecdh_law L" "json_law L" using assms(1) by (simp_all add: pairing_laws_def)
  obtain k where k: "lib_shared_key L source_keys ?pb = Some k" "lib_shared_key L target_keys ?pa = Some k"
    using laws(3) unfolding ecdh_law_def by blast
  obtain code input where sas: "derive_sas L k secret = (code, input)" by fastforce
  let ?offer = "Offer (lib_hex_encode L ?sid) 1"
    and ?confirm = "SasConfirm (lib_hex_encode L (derive_transcript_hash L ?sid (lib_pk_bytes L ?pa) (lib_pk_bytes L ?pb) input secret))"
    and ?S = "\<lambda>st. honest_source L source_keys secret url (clk 0) st (Some ?pb) (Some code) (Some input)"
    and ?T = "honest_target L target_keys ?pa secret url (clk 1) code input"
  have fits: "fits L ?offer" "fits L ?confirm" "fits L (Complete True)"
    using laws(4) by (simp_all add: json_law_def hex_law_bytes [OF laws(1)] derived_lengths [OF laws(2)])
  obtain oev where oev: "build_event L (env 1) ?offer (?T Waiting {}) = Inr oev" "sent L target_keys source_keys ?offer oev"
    using build_sent [OF assms(1) fits(1), of "?T Waiting {}" source_keys "env 1"] by auto
  obtain cev where cev: "build_event L (env 3) ?confirm (?S Confirming {ev_id oev}) = Inr cev" "sent L source_keys target_keys ?confirm cev"
    using build_sent [OF assms(1) fits(2), of "?S Confirming {ev_id oev}" target_keys "env 3"] by auto
  obtain pev where pev: "build_event L (env 6) (Payload ptype payload) (?S Transferring {ev_id oev}) = Inr pev"
      "sent L source_keys target_keys (Payload ptype payload) pev"
    using build_sent [OF assms(1,2), of "?S Transferring {ev_id oev}" target_keys "env 6"] by auto
  obtain fev where fev: "build_event L (env 8) (Complete True) (?T PayloadExchanged {ev_id pev, ev_id cev}) = Inr fev"
      "sent L target_keys source_keys (Complete True) fev"
    using build_sent [OF assms(1) fits(3), of "?T PayloadExchanged {ev_id pev, ev_id cev}" source_keys "env 8"] by auto
  have new: "ev_id pev \<notin> {ev_id cev}" "ev_id fev \<notin> {ev_id oev}"
    using sent_distinct [OF assms(1) pev(2) cev(2)] sent_distinct [OF assms(1) fev(2) oev(2)] by simp_all
  have start: "new_source L source_keys secret (clk 0) url = (honest_source L source_keys secret url (clk 0) Waiting None None None {},
      \<lparr>qr_source_pubkey = ?pa, qr_session_secret = secret, qr_relays = [url], qr_version = 1\<rparr>)"
    "new_target L target_keys (clk 1) (env 1) \<lparr>qr_source_pubkey = ?pa, qr_session_secret = secret, qr_relays = [url], qr_version = 1\<rparr>
      = Inr (?T Confirming {}, oev)"
    using oev(1) k(2) sas by (simp_all add: new_source_def honest_source_def new_target_def honest_target_def Let_def ok_or_def)
  have at_time: "clk 2 - clk 0 \<le> DEFAULT_TIMEOUT" "clk 3 - clk 0 \<le> DEFAULT_TIMEOUT" "clk 4 - clk 1 \<le> DEFAULT_TIMEOUT"
    "clk 5 - clk 1 \<le> DEFAULT_TIMEOUT" "clk 6 - clk 0 \<le> DEFAULT_TIMEOUT" "clk 7 - clk 1 \<le> DEFAULT_TIMEOUT"
    "clk 8 - clk 1 \<le> DEFAULT_TIMEOUT" "clk 9 - clk 0 \<le> DEFAULT_TIMEOUT"
    using assms(3) by simp_all
  show ?thesis
    by (simp add: pair_devices_def start source_turns(1) [OF at_time(1) laws(1,2) oev(2) k(1) sas]
        source_turns(2) [OF at_time(2) laws(1,2) cev(1)] target_turns(1) [OF at_time(3) laws(1,2) cev(2)]
        target_turns(2) [OF at_time(4) laws(1,2)] source_turns(3) [OF at_time(5) laws(1,2) pev(1)]
        target_turns(3) [OF at_time(6) laws(1,2) pev(2) new(1)] target_turns(4) [OF at_time(7) laws(1,2) fev(1)]
        source_turns(4) [OF at_time(8) laws(1,2) fev(2) new(2)] del: One_nat_def)
qed

section \<open>The QR URI\<close>

definition percent_law :: "pairing_lib \<Rightarrow> bool" where
  "percent_law L \<longleftrightarrow> (\<forall>u. lib_percent_decode L (lib_percent_encode L u) = u
     \<and> list_all (\<lambda>c. is_ascii_alphanumeric c \<or> c = CHR ''%'') (lib_percent_encode L u))"

lemma split_on_sep: "c \<notin> set x \<Longrightarrow> split_on c (x @ c # y) = x # split_on c y"
  by (induction x) (auto split: list.split)

lemma split_on_single: "c \<notin> set x \<Longrightarrow> split_on c x = [x]"
  by (induction x) auto

lemma query_split:
  assumes "CHR ''&'' \<notin> set h" and "CHR ''&'' \<notin> set v" and "\<And>u. CHR ''&'' \<notin> set (f u)"
  shows "split_on CHR ''&'' (h @ concat (map (\<lambda>u. CHR ''&'' # f u) us) @ CHR ''&'' # v) = h # map f us @ [v]"
  using assms(1)
proof (induction us arbitrary: h)
  case Nil
  then show ?case by (simp add: split_on_sep split_on_single assms(2))
next
  case (Cons u us)
  with Cons.IH [OF assms(3), of u] show ?case by (simp add: split_on_sep)
qed

lemma scan_relays:
  assumes "percent_law L"
  shows "fold (scan_param L) (map (\<lambda>u. ''relay='' @ url_encode L u) us) (sec, rs, v) = (sec, rs @ us, v)"
proof (induction us arbitrary: rs)
  case (Cons u us)
  have "split_once CHR ''='' (''relay='' @ url_encode L u) = Some (''relay'', url_encode L u)"
    using split_once_hit [of "CHR ''=''" "''relay''" "url_encode L u"] by simp
  with assms have "scan_param L (''relay='' @ url_encode L u) (sec, rs, v) = (sec, rs @ [u], v)"
    by (simp add: scan_param_def url_decode_def url_encode_def percent_law_def)
  with Cons.IH [of "rs @ [u]"] show ?case by simp
qed simp

lemma lowercase_hex_no_sep: "list_all is_lowercase_hex s \<Longrightarrow> CHR ''&'' \<notin> set s \<and> CHR ''?'' \<notin> set s"
  by (auto simp: list_all_iff is_lowercase_hex_def is_ascii_digit_def byte_def)

text \<open>The URI with another text for the version: what \<open>parse::<u32>().ok()\<close> makes of it decides.\<close>

lemma decode_qr_version:
  assumes "hex_law L" and "percent_law L" and "length (qr_source_pubkey p) = 64"
    and "list_all is_lowercase_hex (qr_source_pubkey p)" and "lib_pk_from_hex L (qr_source_pubkey p) = Some (qr_source_pubkey p)"
    and "length (qr_session_secret p) = 32" and "qr_session_secret p \<noteq> replicate 32 (char_of (0 :: nat))"
    and "qr_relays p \<noteq> []" and "check_relays L (qr_relays p) = Inr ()"
    and "uri = ''nostrpair://'' @ qr_source_pubkey p @ ''?secret='' @ lib_hex_encode L (qr_session_secret p)
           @ concat (map (\<lambda>relay. ''&relay='' @ url_encode L relay) (qr_relays p)) @ ''&v='' @ v"
    and "CHR ''&'' \<notin> set v" and "length uri \<le> 2048"
  shows "decode_qr L uri = (case parse_u32 v of
      None \<Rightarrow> Inr (p\<lparr>qr_version := 1\<rparr>)
    | Some n \<Rightarrow> if n = 1 then Inr (p\<lparr>qr_version := 1\<rparr>) else Inl (QrVersion n))"
proof -
  let ?hex = "lib_hex_encode L (qr_session_secret p)"
  let ?query = "''secret='' @ ?hex @ concat (map (\<lambda>u. CHR ''&'' # ''relay='' @ url_encode L u) (qr_relays p)) @ CHR ''&'' # ''v='' @ v"
  have hex: "length ?hex = 64" "list_all is_lowercase_hex ?hex" "lib_hex_decode L ?hex = Some (qr_session_secret p)"
    using assms(1,6) by (simp_all add: hex_law_def)
  have amp: "\<not> (is_ascii_alphanumeric CHR ''&'' \<or> CHR ''&'' = CHR ''%'')"
    by (simp add: is_ascii_alphanumeric_def is_ascii_digit_def is_ascii_lowercase_def is_ascii_uppercase_def byte_def)
  have "CHR ''&'' \<notin> set (url_encode L u)" for u
    using assms(2) amp unfolding percent_law_def url_encode_def list_all_iff by metis
  then have pieces: "split_on CHR ''&'' ?query =
      (''secret='' @ ?hex) # map (\<lambda>u. ''relay='' @ url_encode L u) (qr_relays p) @ [''v='' @ v]"
    using query_split [of "''secret='' @ ?hex" "''v='' @ v" "\<lambda>u. ''relay='' @ url_encode L u" "qr_relays p"]
      lowercase_hex_no_sep [OF hex(2)] assms(11) by simp
  have "split_once CHR ''='' (''secret='' @ ?hex) = Some (''secret'', ?hex)" "split_once CHR ''='' (''v='' @ v) = Some (''v'', v)"
    using split_once_hit [of "CHR ''=''" "''secret''" ?hex] split_once_hit [of "CHR ''=''" "''v''" v] by simp_all
  then have scan: "fold (scan_param L) (split_on CHR ''&'' ?query) (None, [], None) = (Some ?hex, qr_relays p, parse_u32 v)"
    unfolding pieces using scan_relays [OF assms(2), of "qr_relays p" "Some ?hex" "[]" None]
    by (simp add: scan_param_def)
  have once: "split_once CHR ''?'' (qr_source_pubkey p @ CHR ''?'' # ?query) = Some (qr_source_pubkey p, ?query)"
    by (rule split_once_hit) (use lowercase_hex_no_sep [OF assms(4)] in simp)
  have pre: "strip_prefix ''nostrpair://'' uri = Some (qr_source_pubkey p @ CHR ''?'' # ?query)"
    unfolding assms(10) by (simp add: strip_prefix_def starts_with_def)
  show ?thesis
    unfolding decode_qr_def pre
    using assms(3-9,12) once scan hex
    by (auto simp: ok_or_def Let_def split: option.split)
qed

text \<open>
  The QR URI is read back as it was written, for every payload of a supported device: a
  32-byte secret that is not zero, a valid key, at least one relay, every relay a WebSocket
  URL with a host, and a URI of at most 2048 bytes.
\<close>

theorem qr_roundtrip:
  assumes "hex_law L" and "percent_law L" and "length (qr_source_pubkey p) = 64"
    and "list_all is_lowercase_hex (qr_source_pubkey p)" and "lib_pk_from_hex L (qr_source_pubkey p) = Some (qr_source_pubkey p)"
    and "length (qr_session_secret p) = 32" and "qr_session_secret p \<noteq> replicate 32 (char_of (0 :: nat))"
    and "qr_relays p \<noteq> []" and "check_relays L (qr_relays p) = Inr ()" and "qr_version p = 1"
    and "length (encode_qr L p) \<le> 2048"
  shows "decode_qr L (encode_qr L p) = Inr p"
proof -
  have "parse_u32 ''1'' = Some 1" by (simp add: parse_unsigned_def in_range_def is_ascii_digit_def byte_def)
  moreover have "p\<lparr>qr_version := 1\<rparr> = p" using assms(10) by (cases p) simp
  ultimately show ?thesis
    using decode_qr_version [OF assms(1-9), of "encode_qr L p" "''1''"] assms(11) by (simp add: encode_qr_def)
qed

section \<open>Libraries that keep the laws\<close>

definition hex_digit :: "nat \<Rightarrow> char" where
  "hex_digit n = (if n < 10 then char_of (48 + n) else char_of (87 + n))"

definition unhex :: "char \<Rightarrow> nat" where
  "unhex c = (if byte c < 58 then byte c - 48 else byte c - 87)"

definition hex_pair :: "char \<Rightarrow> string" where
  "hex_pair c = [hex_digit (byte c div 16), hex_digit (byte c mod 16)]"

fun demo_unhex :: "string \<Rightarrow> string option" where
  "demo_unhex [] = Some []"
| "demo_unhex [_] = None"
| "demo_unhex (a # b # r) = map_option (\<lambda>t. char_of (16 * unhex a + unhex b) # t) (demo_unhex r)"

fun demo_unpercent :: "string \<Rightarrow> string" where
  "demo_unpercent (p # a # b # r) = char_of (16 * unhex a + unhex b) # demo_unpercent r"
| "demo_unpercent _ = []"

fun demo_to_json :: "PairingMessage \<Rightarrow> string option" where
  "demo_to_json (Offer sid v) = (if v = 1 then Some (CHR ''O'' # sid) else None)"
| "demo_to_json (SasConfirm h) = Some (CHR ''S'' # h)"
| "demo_to_json (Payload t p) = (if t = Nsec then Some (CHR ''P'' # p) else None)"
| "demo_to_json (Complete b) = Some (if b then ''T'' else ''F'')"
| "demo_to_json (Abort r) = None"

fun demo_from_json :: "string \<Rightarrow> PairingMessage option" where
  "demo_from_json [] = None"
| "demo_from_json (c # r) = (if c = CHR ''O'' then Some (Offer r 1) else if c = CHR ''S'' then Some (SasConfirm r)
     else if c = CHR ''P'' then Some (Payload Nsec r) else if c = CHR ''T'' then Some (Complete True)
     else if c = CHR ''F'' then Some (Complete False) else None)"

definition demo_sign :: "string \<Rightarrow> nat \<Rightarrow> string \<Rightarrow> string list list \<Rightarrow> nat \<Rightarrow> nevent option" where
  "demo_sign a k c ts time = Some \<lparr>ev_id = c, ev_pubkey = a, ev_created_at = time, ev_kind = k,
     ev_tags = map (\<lambda>sl. \<lparr>tag_kind = concat (take 1 sl), tag_content = None, tag_slice = sl\<rparr>) ts, ev_content = c\<rparr>"

definition demo_lib :: pairing_lib where
  "demo_lib = \<lparr>lib_pubkey = (\<lambda>a. a), lib_pk_bytes = (\<lambda>a. a), lib_pk_from_hex = Some,
     lib_shared_key = (\<lambda>a b. Some (if a \<le> b then a @ b else b @ a)),
     lib_hkdf_extract = (\<lambda>salt ikm. salt @ ikm), lib_hkdf_expand = (\<lambda>prk info n. take n (prk @ info @ replicate n CHR ''0'')),
     lib_encrypt = (\<lambda>a b t n. Some (replicate 132 CHR ''x'' @ t)), lib_decrypt = (\<lambda>a b c. Some (drop 132 c)),
     lib_sign = demo_sign, lib_verify = (\<lambda>ev. ev_id ev = ev_content ev),
     lib_to_json = demo_to_json, lib_from_json = demo_from_json,
     lib_hex_encode = (\<lambda>bs. concat (map hex_pair bs)), lib_hex_decode = demo_unhex,
     lib_percent_encode = (\<lambda>u. concat (map (\<lambda>c. CHR ''%'' # hex_pair c) u)), lib_percent_decode = demo_unpercent,
     lib_url_parse = (\<lambda>u. Some (''wss'', True))\<rparr>"

lemma hex_digit_props:
  assumes "n < 16"
  shows "unhex (hex_digit n) = n" and "is_lowercase_hex (hex_digit n)" and "is_ascii_alphanumeric (hex_digit n)"
  using assms
  by (auto simp: hex_digit_def unhex_def byte_def is_lowercase_hex_def is_ascii_digit_def is_ascii_alphanumeric_def
      is_ascii_lowercase_def of_char_of)

lemma byte_less: "byte c < 256"
  by (simp add: byte_def)

lemma hex_pair_back: "char_of (16 * unhex (hex_digit (byte c div 16)) + unhex (hex_digit (byte c mod 16))) = c"
proof -
  have "byte c div 16 < 16" "byte c mod 16 < 16" using byte_less [of c] by auto
  then have "16 * unhex (hex_digit (byte c div 16)) + unhex (hex_digit (byte c mod 16)) = byte c"
    by (simp add: hex_digit_props)
  then show ?thesis by (simp add: byte_def)
qed

lemma demo_hex_law: "hex_law demo_lib"
proof -
  have "demo_unhex (concat (map hex_pair bs)) = Some bs" for bs
    by (induction bs) (simp_all add: hex_pair_def hex_pair_back)
  moreover have "length (concat (map hex_pair bs)) = 2 * length bs" for bs
    by (induction bs) (simp_all add: hex_pair_def)
  moreover have "list_all is_lowercase_hex (concat (map hex_pair bs))" for bs
    using byte_less by (induction bs) (simp_all add: hex_pair_def hex_digit_props less_mult_imp_div_less)
  ultimately show ?thesis by (simp add: hex_law_def demo_lib_def)
qed

lemma demo_percent_law: "percent_law demo_lib"
proof -
  have "demo_unpercent (concat (map (\<lambda>c. CHR ''%'' # hex_pair c) u)) = u" for u
    by (induction u) (simp_all add: hex_pair_def hex_pair_back)
  moreover have "list_all (\<lambda>c. is_ascii_alphanumeric c \<or> c = CHR ''%'') (concat (map (\<lambda>c. CHR ''%'' # hex_pair c) u))" for u
    using byte_less by (induction u) (simp_all add: hex_pair_def hex_digit_props less_mult_imp_div_less)
  ultimately show ?thesis by (simp add: percent_law_def demo_lib_def)
qed

lemma demo_json_law: "json_law demo_lib"
  unfolding json_law_def
proof (intro allI impI)
  fix m assume "short_message m"
  then show "fits demo_lib m" by (cases m) (auto simp: fits_def demo_lib_def)
qed

lemma demo_laws: "pairing_laws demo_lib"
  using demo_hex_law demo_json_law
  by (auto simp: pairing_laws_def ecdh_law_def nip44_law_def sign_law_def id_law_def hkdf_law_def demo_lib_def
      demo_sign_def comp_def)

section \<open>The theorems at work\<close>

lemma target_accepts:
  assumes "pairing_laws L" and "new_target L b t env qr = Inr (s, offer)" and "qr_source_pubkey qr = lib_pubkey L a"
    and "sent L a b (SasConfirm h) cev" and "sent L a b (Payload pt x) pev"
    and "lib_hex_decode L h = Some (derive_transcript_hash L (ps_session_id s) (lib_pk_bytes L (lib_pubkey L a))
           (lib_pk_bytes L (lib_pubkey L b)) (the (ps_sas_input s)) (ps_session_secret s))"
  shows "fst (pairing_run L [(t, CallSasConfirm cev), (t, CallTargetConfirm), (t, CallPayload pev)] s)
    = [CallSasConfirm cev, CallTargetConfirm, CallPayload pev]"
proof -
  note new = new_target_session [OF assms(2)]
  then obtain input code where sas: "ps_sas_input s = Some input" "ps_sas_code s = Some code" by blast
  let ?s1 = "record_event cev (s\<lparr>ps_state := AwaitingConfirmation\<rparr>)"
  let ?s2 = "?s1\<lparr>ps_state := Transferring\<rparr>"
  have live: "\<not> is_expired t s" using new by (simp add: is_expired_def)
  have "hkdf_law L" using assms(1) by (simp add: pairing_laws_def)
  with confirmation_accepted [OF live, of L a h cev code input] assms(3,4,6) new sas
  have s1: "perform L t (CallSasConfirm cev) s = (True, ?s1)" by simp
  have s2: "perform L t CallTargetConfirm ?s1 = (True, ?s2)"
    using live new by (simp add: confirm_target_sas_def check_then_def expect_ok record_event_def is_expired_def)
  have "ev_id pev \<noteq> ev_id cev" using sent_distinct [OF assms(1,5,4)] by simp
  then have s3: "perform L t (CallPayload pev) ?s2 = (True, record_event pev (?s2\<lparr>ps_state := PayloadExchanged\<rparr>))"
    using payload_accepted [of t ?s2 L a pt x pev] live new assms(3,5) by (simp add: record_event_def is_expired_def)
  show ?thesis by (simp del: perform.simps add: s1 s2 s3)
qed

definition demo_qr :: QrPayload where
  "demo_qr = \<lparr>qr_source_pubkey = replicate 64 CHR ''a'', qr_session_secret = replicate 32 CHR ''s'',
     qr_relays = [''wss://r''], qr_version = 1\<rparr>"

definition demo_env :: build_env where
  "demo_env = \<lparr>be_now = 100, be_random = 7, be_nonce = 0\<rparr>"

lemma demo_fits: "fits demo_lib (Payload Nsec ''nsec1'')"
  by (simp add: fits_def demo_lib_def)

lemma demo_target:
  "\<exists>s offer cev pev. new_target demo_lib ''b'' 0 demo_env demo_qr = Inr (s, offer)
     \<and> fst (pairing_run demo_lib [(0, CallSasConfirm cev), (0, CallTargetConfirm), (0, CallPayload pev)] s)
       = [CallSasConfirm cev, CallTargetConfirm, CallPayload pev]"
proof -
  have key: "lib_pubkey demo_lib k = k" "lib_shared_key demo_lib k k' \<noteq> None" for k k' by (simp_all add: demo_lib_def)
  have fits: "fits demo_lib m" if "short_message m" for m
    using that demo_laws by (simp add: pairing_laws_def json_law_def)
  have hex: "lib_hex_decode demo_lib (lib_hex_encode demo_lib bs) = Some bs"
    "length (lib_hex_encode demo_lib bs) = 2 * length bs" for bs
    using demo_hex_law by (simp_all add: hex_law_def)
  have len: "length (hkdf32 demo_lib x y z) = 32" for x y z using demo_laws by (simp add: hkdf32_def pairing_laws_def hkdf_law_def)
  obtain s offer where s: "new_target demo_lib ''b'' 0 demo_env demo_qr = Inr (s, offer)"
  proof -
    obtain k where "lib_shared_key demo_lib ''b'' (qr_source_pubkey demo_qr) = Some k" using key(2) by blast
    moreover have "\<exists>ev. build_event demo_lib demo_env (Offer (lib_hex_encode demo_lib (derive_session_id demo_lib x)) 1) t = Inr ev"
      if "ps_peer_pubkey t = Some p" for t p x
      using build_sent [OF demo_laws fits, of "Offer (lib_hex_encode demo_lib (derive_session_id demo_lib x)) 1" t p demo_env] that
      by (auto simp: key hex len derive_session_id_def)
    ultimately show ?thesis
      using that by (fastforce simp: new_target_def Let_def ok_or_def res_simps split: prod.splits)
  qed
  let ?a = "replicate 64 CHR ''a''"
  let ?h = "lib_hex_encode demo_lib (derive_transcript_hash demo_lib (ps_session_id s) (lib_pk_bytes demo_lib ?a)
    (lib_pk_bytes demo_lib ''b'') (the (ps_sas_input s)) (ps_session_secret s))"
  let ?src = "(fst (new_source demo_lib ?a [] 0 []))\<lparr>ps_peer_pubkey := Some ''b''\<rparr>"
  have src: "ps_keys ?src = ?a" "ps_peer_pubkey ?src = Some (lib_pubkey demo_lib ''b'')" by (simp_all add: new_source_def key)
  have "short_message (SasConfirm ?h)" by (simp add: hex derive_transcript_hash_def len)
  from build_sent [OF demo_laws fits [OF this] src(2), of demo_env] build_sent [OF demo_laws demo_fits src(2), of demo_env]
  obtain cev pev where "sent demo_lib ?a ''b'' (SasConfirm ?h) cev" "sent demo_lib ?a ''b'' (Payload Nsec ''nsec1'') pev"
    unfolding src(1) by blast
  from target_accepts [OF demo_laws s _ this] have
    "fst (pairing_run demo_lib [(0, CallSasConfirm cev), (0, CallTargetConfirm), (0, CallPayload pev)] s)
       = [CallSasConfirm cev, CallTargetConfirm, CallPayload pev]" by (simp add: demo_qr_def key hex)
  with s show ?thesis by blast
qed

lemma pairing_target_authentic_witness:
  "\<exists>s offer log ev h ev0 rest. new_target demo_lib ''b'' 0 demo_env demo_qr = Inr (s, offer)
    \<and> CallPayload ev \<in> set log \<and> lib_verify demo_lib ev \<and> ev_pubkey ev = qr_source_pubkey demo_qr
    \<and> log = CallSasConfirm ev0 # CallTargetConfirm # CallPayload ev # rest
    \<and> decrypt_message demo_lib ev0 s = Inr (SasConfirm h)"
proof -
  obtain s offer cev pev where s: "new_target demo_lib ''b'' 0 demo_env demo_qr = Inr (s, offer)"
    and run: "fst (pairing_run demo_lib [(0, CallSasConfirm cev), (0, CallTargetConfirm), (0, CallPayload pev)] s)
       = [CallSasConfirm cev, CallTargetConfirm, CallPayload pev]"
    using demo_target by blast
  then have "pairing_run demo_lib [(0, CallSasConfirm cev), (0, CallTargetConfirm), (0, CallPayload pev)] s
    = ([CallSasConfirm cev, CallTargetConfirm, CallPayload pev],
       snd (pairing_run demo_lib [(0, CallSasConfirm cev), (0, CallTargetConfirm), (0, CallPayload pev)] s))"
    by (metis prod.collapse)
  from pairing_target_authentic [OF s this, of pev] s show ?thesis
    by (intro exI [of _ s] exI [of _ offer] exI [of _ "[CallSasConfirm cev, CallTargetConfirm, CallPayload pev]"]
        exI [of _ pev]) auto
qed

lemma pairing_follows_script_witness:
  "\<exists>p q. [CallAbort demo_env UserDenied] = p @ q
     \<and> list_all2 (\<lambda>P c. P c) (take (length p) (stages Source)) p
     \<and> (q = [] \<or> (\<exists>c. q = [c] \<and> (is_CallAbort c \<or> is_CallPeerAbort c)))"
proof -
  let ?s = "fst (new_source demo_lib ''a'' ''s'' 0 ''wss://r'')"
  have init: "initial_session demo_lib ?s" unfolding initial_session_def by blast
  have run: "pairing_run demo_lib [(0, CallAbort demo_env UserDenied), (0, CallTargetConfirm)] ?s
    = ([CallAbort demo_env UserDenied], ?s\<lparr>ps_state := Aborted\<rparr>)"
    by (simp add: new_source_def abort_def confirm_target_sas_def check_then_def expect_def
        check_expired_def is_expired_def expect_state_def and_then_def)
  have "ps_role ?s = Source" by (simp add: new_source_def)
  with pairing_follows_script [OF init run] show ?thesis by simp
qed

lemma pairing_completes_witness:
  "\<exists>code. pair_devices demo_lib ''a'' ''b'' ''s'' ''wss://r'' (\<lambda>i. 1000 * i) (\<lambda>_. demo_env) Nsec ''nsec1''
    = Inr (code, code, (Nsec, ''nsec1''), Completed, Completed)"
  by (rule pairing_completes [OF demo_laws demo_fits]) (auto simp: DEFAULT_TIMEOUT_def)

lemma qr_roundtrip_witness: "decode_qr demo_lib (encode_qr demo_lib demo_qr) = Inr demo_qr"
proof (rule qr_roundtrip [OF demo_hex_law demo_percent_law])
  have "length (hex_pair c) = 2" for c by (simp add: hex_pair_def)
  moreover have "length (concat (replicate n (hex_pair c))) = 2 * n" for n c
    by (induction n) (simp_all add: hex_pair_def)
  ultimately show "length (encode_qr demo_lib demo_qr) \<le> 2048"
    by (simp add: encode_qr_def demo_qr_def demo_lib_def url_encode_def)
qed (simp_all add: demo_qr_def demo_lib_def is_lowercase_hex_def is_ascii_digit_def byte_def list_all_iff char_of_def)

end
