(* ===== verification/Mesh_Wire.thy ===== *)
theory Mesh_Wire
  imports Nostr_Event
begin

text \<open>
  The wire contract between relay runtimes: \<open>buzz-relay-mesh/src/wire.rs\<close>, the errors of
  \<open>lib.rs\<close>, the datagram bound of \<open>endpoint.rs\<close> and the length-delimited framing of
  \<open>peer.rs\<close>. \<open>postcard\<close> is the parameter: the bytes it writes for a value and the value it
  reads back from them.
\<close>

section \<open>Frames\<close>

text \<open>The 32 bytes of a runtime id, in big-endian order: their order is that of the arrays.\<close>

type_synonym runtime_id = "256 word"

definition WIRE_VERSION :: nat where
  "WIRE_VERSION = 1"

definition MAX_STREAM_FRAME :: nat where
  "MAX_STREAM_FRAME = 16 * 1024 * 1024"

record FencedHeader =
  fh_session_id :: uuid
  fh_generation :: nat
  fh_owner_runtime_id :: runtime_id

datatype Profile = ReliableStream | RealtimeMedia | HuddleControl

record MeshDatagram =
  md_fenced :: FencedHeader
  md_seq :: nat
  md_payload :: string

datatype StreamRole = Control | Session FencedHeader Profile

record StreamHello =
  sh_sender :: runtime_id
  sh_role :: StreamRole

datatype GoodbyeReason = SessionEnded | Draining | StaleGenerationReason

datatype MeshStreamFrame =
    Hello StreamHello
  | Data FencedHeader string
  | Goodbye FencedHeader GoodbyeReason
  | Gossip string

datatype MeshError =
    EncodeError | DecodeError
  | UnknownWireVersion nat
  | EmptyFrame
  | FrameTooLarge nat nat
  | DatagramTooLarge nat nat
  | PeerNotConnected runtime_id
  | PeerDraining runtime_id
  | StaleGeneration uuid nat nat
  | NoActiveLease uuid nat nat runtime_id
  | OwnerMismatch uuid nat runtime_id runtime_id
  | FutureGeneration uuid nat nat
  | MeshDisabled
  | Transport string
  | RedisFailure

section \<open>Codec\<close>

record 'a postcard =
  pc_write :: "'a \<Rightarrow> string option"
  pc_read :: "string \<Rightarrow> 'a option"

definition encode :: "'a postcard \<Rightarrow> 'a \<Rightarrow> MeshError + string" where
  "encode P frame = map_ok (\<lambda>bs. char_of WIRE_VERSION # bs) (ok_or EncodeError (pc_write P frame))"

definition decode :: "'a postcard \<Rightarrow> string \<Rightarrow> MeshError + 'a" where
  "decode P bytes = (case bytes of
       v # rest \<Rightarrow> if byte v = WIRE_VERSION then ok_or DecodeError (pc_read P rest) else Inl (UnknownWireVersion (byte v))
     | [] \<Rightarrow> Inl EmptyFrame)"

text \<open>\<open>to_le_bytes\<close> and \<open>from_le_bytes\<close>: \<open>k\<close> bytes, least significant first.\<close>

fun le_bytes :: "nat \<Rightarrow> nat \<Rightarrow> string" where
  "le_bytes 0 n = []"
| "le_bytes (Suc k) n = char_of (n mod 256) # le_bytes k (n div 256)"

fun le_value :: "string \<Rightarrow> nat" where
  "le_value [] = 0"
| "le_value (c # cs) = byte c + 256 * le_value cs"

definition u32_to_le :: "nat \<Rightarrow> string" where
  "u32_to_le n = le_bytes 4 n"

definition u32_from_le :: "string \<Rightarrow> nat" where
  "u32_from_le bs = le_value bs"

text \<open>The bytes a frame adds to the stream.\<close>

definition send_frame :: "MeshStreamFrame postcard \<Rightarrow> MeshStreamFrame \<Rightarrow> MeshError + string" where
  "send_frame P frame =
     and_then (encode P frame) (\<lambda>bytes.
       if length bytes > MAX_STREAM_FRAME then Inl (FrameTooLarge (length bytes) MAX_STREAM_FRAME)
       else Inr (u32_to_le (length bytes) @ bytes))"

text \<open>
  One frame from the bytes still to be read, and the bytes after it. The end of the stream
  between two frames is \<open>None\<close>; inside one it is an error.
\<close>

definition recv_frame :: "MeshStreamFrame postcard \<Rightarrow> string \<Rightarrow> MeshError + (MeshStreamFrame \<times> string) option" where
  "recv_frame P bytes =
     (if bytes = [] then Inr None
      else if length bytes < 4 then Inl (Transport ''stream finished early'')
      else
        (let len = u32_from_le (take 4 bytes); rest = drop 4 bytes
         in if len > MAX_STREAM_FRAME then Inl (FrameTooLarge len MAX_STREAM_FRAME)
            else if length rest < len then Inl (Transport ''stream finished early'')
            else map_ok (\<lambda>frame. Some (frame, drop len rest)) (decode P (take len rest))))"

definition encode_datagram_checked :: "MeshDatagram postcard \<Rightarrow> MeshDatagram \<Rightarrow> nat \<Rightarrow> MeshError + string" where
  "encode_datagram_checked P dgram limit =
     and_then (encode P dgram) (\<lambda>bytes.
       if length bytes > limit then Inl (DatagramTooLarge (length bytes) limit) else Inr bytes)"

section \<open>Frames come back as sent\<close>

text \<open>\<open>postcard\<close> reads back what it wrote.\<close>

definition postcard_law :: "'a postcard \<Rightarrow> bool" where
  "postcard_law P \<longleftrightarrow> (\<forall>x bs. pc_write P x = Some bs \<longrightarrow> pc_read P bs = Some x)"

lemma decode_encode: "postcard_law P \<Longrightarrow> encode P x = Inr bs \<Longrightarrow> decode P bs = Inr x"
  by (auto simp: encode_def decode_def postcard_law_def res_simps WIRE_VERSION_def byte_def)

lemma byte_char_of: "byte (char_of n) = n mod 256"
  by (simp add: byte_def of_char_of)

lemma le_bytes_length [simp]: "length (le_bytes k n) = k"
  by (induction k n rule: le_bytes.induct) simp_all

lemma le_bytes_back: "n < 256 ^ k \<Longrightarrow> le_value (le_bytes k n) = n"
  by (induction k n rule: le_bytes.induct) (simp_all add: byte_char_of div_less_iff_less_mult mult.commute)

lemma u32_le_length [simp]: "length (u32_to_le n) = 4" "u32_to_le n \<noteq> []"
  using le_bytes_length [of 4 n] by (auto simp: u32_to_le_def simp del: le_bytes_length)

lemma u32_le_back: "n < 2 ^ 32 \<Longrightarrow> u32_from_le (u32_to_le n) = n"
  using le_bytes_back [of n 4] by (simp add: u32_from_le_def u32_to_le_def)

lemma recv_send:
  assumes "postcard_law P" and "send_frame P frame = Inr bytes"
  shows "recv_frame P (bytes @ rest) = Inr (Some (frame, rest))"
proof -
  obtain body where body: "encode P frame = Inr body" and len: "length body \<le> MAX_STREAM_FRAME"
    and bytes: "bytes = u32_to_le (length body) @ body"
    using assms(2) by (auto simp: send_frame_def res_simps split: if_splits)
  then have "u32_from_le (u32_to_le (length body)) = length body"
    by (intro u32_le_back) (simp add: MAX_STREAM_FRAME_def)
  then show ?thesis
    using decode_encode [OF assms(1) body] len by (simp add: recv_frame_def bytes)
qed

lemma recv_frame_shorter: "recv_frame P bytes = Inr (Some (frame, rest)) \<Longrightarrow> length rest < length bytes"
  by (auto simp: recv_frame_def Let_def res_simps split: if_splits)

text \<open>Every frame of a stream, until its end.\<close>

function recv_all :: "MeshStreamFrame postcard \<Rightarrow> string \<Rightarrow> MeshError + MeshStreamFrame list" where
  "recv_all P bytes = (case recv_frame P bytes of
       Inl e \<Rightarrow> Inl e
     | Inr None \<Rightarrow> Inr []
     | Inr (Some (frame, rest)) \<Rightarrow> map_ok (\<lambda>fs. frame # fs) (recv_all P rest))"
  by pat_completeness auto

termination
  by (relation "measure (\<lambda>(P, bytes). length bytes)") (auto dest: recv_frame_shorter)

declare recv_all.simps [simp del]

text \<open>
  Frames cross a mesh stream unchanged: whatever frames were accepted for sending, read
  back from their concatenated bytes they are the same frames in the same order, and the
  stream then ends cleanly.
\<close>

theorem stream_roundtrip:
  assumes "postcard_law P" and "collect_res (send_frame P) frames = Inr sent"
  shows "recv_all P (concat sent) = Inr frames"
  using assms(2)
proof (induction frames arbitrary: sent)
  case Nil
  then show ?case by (subst recv_all.simps) (simp add: recv_frame_def)
next
  case (Cons frame frames)
  then obtain bytes more where "send_frame P frame = Inr bytes" "collect_res (send_frame P) frames = Inr more"
    "sent = bytes # more" by (auto simp: res_simps list_all2_Cons1)
  with Cons.IH [of more] recv_send [OF assms(1), of frame bytes "concat more"] show ?case
    by (subst recv_all.simps) simp
qed

definition demo_postcard :: "MeshStreamFrame postcard" where
  "demo_postcard = \<lparr>pc_write = (\<lambda>f. case f of Gossip p \<Rightarrow> Some p | _ \<Rightarrow> None), pc_read = (\<lambda>bs. Some (Gossip bs))\<rparr>"

lemma stream_roundtrip_witness:
  "\<exists>sent. collect_res (send_frame demo_postcard) [Gossip ''a'', Gossip ''bc''] = Inr sent
    \<and> recv_all demo_postcard (concat sent) = Inr [Gossip ''a'', Gossip ''bc'']"
proof -
  have law: "postcard_law demo_postcard"
    by (auto simp: postcard_law_def demo_postcard_def split: MeshStreamFrame.splits)
  have "\<exists>sent. collect_res (send_frame demo_postcard) [Gossip ''a'', Gossip ''bc''] = Inr sent"
    by (simp add: send_frame_def encode_def demo_postcard_def MAX_STREAM_FRAME_def)
  then show ?thesis using stream_roundtrip [OF law] by blast
qed

end
