(* ===== verification/Session_Directory.thy ===== *)
theory Session_Directory
  imports Mesh_Wire
begin

text \<open>
  The fenced session directory of \<open>buzz-relay/src/tunnel/directory.rs\<close>: the Lua scripts, the
  Rust functions around them, and the lease value they exchange. Redis is the parameter: its
  commands at an instant (in milliseconds), on a state of its own. Every Rust function returns
  its result and the Redis state after it.
\<close>

section \<open>What is used of Redis and of the libraries\<close>

record 'r redis_lib =
  rd_get :: "nat \<Rightarrow> string \<Rightarrow> 'r \<Rightarrow> string option"
  rd_incr :: "nat \<Rightarrow> string \<Rightarrow> 'r \<Rightarrow> (nat \<times> 'r) option"
  rd_set_px :: "nat \<Rightarrow> string \<Rightarrow> string \<Rightarrow> nat \<Rightarrow> 'r \<Rightarrow> 'r"
  rd_pexpire :: "nat \<Rightarrow> string \<Rightarrow> nat \<Rightarrow> 'r \<Rightarrow> 'r"
  rd_del :: "nat \<Rightarrow> string \<Rightarrow> 'r \<Rightarrow> 'r"
  lua_tostring :: "nat \<Rightarrow> string"
  uuid_show :: "uuid \<Rightarrow> string"
  rt_hex :: "runtime_id \<Rightarrow> string"
  rt_from_hex :: "string \<Rightarrow> runtime_id option"

text \<open>
  \<open>rt_from_hex\<close> is \<open>hex::decode\<close> and the conversion to 32 bytes. A script replies with a
  status, the lease value and the known generation.
\<close>

type_synonym reply = "string \<times> string \<times> string"

definition or_empty :: "string option \<Rightarrow> string" where
  "or_empty x = (case x of None \<Rightarrow> [] | Some s \<Rightarrow> s)"

section \<open>The scripts\<close>

text \<open>\<open>ACQUIRE_SCRIPT\<close>. \<open>None\<close>: a command failed and the script was aborted.\<close>

definition acquire_script ::
  "'r redis_lib \<Rightarrow> nat \<Rightarrow> string \<Rightarrow> string \<Rightarrow> string \<Rightarrow> string \<Rightarrow> nat \<Rightarrow> 'r \<Rightarrow> (reply \<times> 'r) option" where
  "acquire_script R now lease_key generation_key owner profile ttl_ms r =
     (case rd_get R now lease_key r of
        Some current \<Rightarrow> Some ((''exists'', current, or_empty (rd_get R now generation_key r)), r)
      | None \<Rightarrow>
         (case rd_incr R now generation_key r of
            None \<Rightarrow> None
          | Some (generation, r1) \<Rightarrow>
             (let val = owner @ ''|'' @ lua_tostring R generation @ ''|'' @ profile
              in Some ((''acquired'', val, lua_tostring R generation), rd_set_px R now lease_key val ttl_ms r1))))"

text \<open>\<open>string.match(current, '^([^|]+)|([^|]+)|([^|]+)$')\<close>\<close>

definition match_lease :: "string \<Rightarrow> (string \<times> string \<times> string) option" where
  "match_lease current = (case split_on CHR ''|'' current of
       [a, b, c] \<Rightarrow> if a \<noteq> [] \<and> b \<noteq> [] \<and> c \<noteq> [] then Some (a, b, c) else None
     | _ \<Rightarrow> None)"

definition holds_lease :: "string \<Rightarrow> string \<Rightarrow> string \<Rightarrow> bool" where
  "holds_lease owner generation current = (case match_lease current of
       Some (current_owner, current_generation, _) \<Rightarrow> current_owner = owner \<and> current_generation = generation
     | None \<Rightarrow> False)"

definition or_generation :: "string option \<Rightarrow> string \<Rightarrow> string" where
  "or_generation known current = (case known of
       Some g \<Rightarrow> g
     | None \<Rightarrow> (case match_lease current of Some (_, current_generation, _) \<Rightarrow> current_generation | None \<Rightarrow> []))"

definition renew_script ::
  "'r redis_lib \<Rightarrow> nat \<Rightarrow> string \<Rightarrow> string \<Rightarrow> string \<Rightarrow> string \<Rightarrow> nat \<Rightarrow> 'r \<Rightarrow> (reply \<times> 'r) option" where
  "renew_script R now lease_key generation_key owner generation ttl_ms r =
     (case rd_get R now lease_key r of
        None \<Rightarrow> Some ((''missing'', [], or_empty (rd_get R now generation_key r)), r)
      | Some current \<Rightarrow>
         if holds_lease owner generation current
         then (let r1 = rd_pexpire R now lease_key ttl_ms r
               in Some ((''renewed'', current, or_generation (rd_get R now generation_key r1) current), r1))
         else Some ((''lost'', current, or_generation (rd_get R now generation_key r) current), r))"

definition release_script ::
  "'r redis_lib \<Rightarrow> nat \<Rightarrow> string \<Rightarrow> string \<Rightarrow> string \<Rightarrow> string \<Rightarrow> 'r \<Rightarrow> (reply \<times> 'r) option" where
  "release_script R now lease_key generation_key owner generation r =
     (case rd_get R now lease_key r of
        None \<Rightarrow> Some ((''missing'', [], or_empty (rd_get R now generation_key r)), r)
      | Some current \<Rightarrow>
         if holds_lease owner generation current
         then (let r1 = rd_del R now lease_key r
               in Some ((''released'', current, or_generation (rd_get R now generation_key r1) current), r1))
         else Some ((''lost'', current, or_generation (rd_get R now generation_key r) current), r))"

definition validate_script :: "'r redis_lib \<Rightarrow> nat \<Rightarrow> string \<Rightarrow> string \<Rightarrow> 'r \<Rightarrow> string \<times> string" where
  "validate_script R now lease_key generation_key r =
     (or_empty (rd_get R now lease_key r), or_empty (rd_get R now generation_key r))"

section \<open>Leases and keys\<close>

record SessionLease =
  sl_community_id :: community_id
  sl_session_id :: uuid
  sl_owner_runtime_id :: runtime_id
  sl_generation :: nat
  sl_profile :: Profile

datatype AcquireResult = Acquired SessionLease | Exists SessionLease

datatype RenewResult = Renewed SessionLease | Lost "SessionLease option" "nat option"

datatype ReleaseResult = Released SessionLease | NotOwner "SessionLease option" "nat option"

datatype DirectoryError =
    PoolError | RedisError
  | MalformedLease community_id uuid string
  | MalformedGeneration community_id uuid string
  | UnexpectedScriptStatus string
  | InvalidLeaseTtl
  | CommunityWriteFenced string

definition fenced_header :: "SessionLease \<Rightarrow> FencedHeader" where
  "fenced_header lease = \<lparr>fh_session_id = sl_session_id lease, fh_generation = sl_generation lease,
     fh_owner_runtime_id = sl_owner_runtime_id lease\<rparr>"

definition session_base :: "'r redis_lib \<Rightarrow> community_id \<Rightarrow> uuid \<Rightarrow> string" where
  "session_base R community_id session_id =
     ''buzz:'' @ uuid_show R community_id @ '':tunnel:'' @ uuid_show R session_id"

definition lease_key :: "'r redis_lib \<Rightarrow> community_id \<Rightarrow> uuid \<Rightarrow> string" where
  "lease_key R community_id session_id = session_base R community_id session_id @ '':lease''"

definition generation_key :: "'r redis_lib \<Rightarrow> community_id \<Rightarrow> uuid \<Rightarrow> string" where
  "generation_key R community_id session_id = session_base R community_id session_id @ '':generation''"

fun as_wire_str :: "Profile \<Rightarrow> string" where
  "as_wire_str ReliableStream = ''reliable-stream''"
| "as_wire_str RealtimeMedia = ''realtime-media''"
| "as_wire_str HuddleControl = ''huddle-control''"

definition profile_from_wire :: "string \<Rightarrow> Profile option" where
  "profile_from_wire s =
     (if s = ''reliable-stream'' then Some ReliableStream
      else if s = ''realtime-media'' then Some RealtimeMedia
      else if s = ''huddle-control'' then Some HuddleControl
      else None)"

definition parse_lease :: "'r redis_lib \<Rightarrow> community_id \<Rightarrow> uuid \<Rightarrow> string \<Rightarrow> DirectoryError + SessionLease" where
  "parse_lease R community_id session_id val =
     ok_or (MalformedLease community_id session_id val)
       (case split_on CHR ''|'' val of
          [owner_hex, generation, profile] \<Rightarrow>
            (case (parse_u64 generation, profile_from_wire profile, rt_from_hex R owner_hex) of
               (Some g, Some p, Some owner_runtime_id) \<Rightarrow>
                 if g = 0 then None
                 else Some \<lparr>sl_community_id = community_id, sl_session_id = session_id,
                        sl_owner_runtime_id = owner_runtime_id, sl_generation = g, sl_profile = p\<rparr>
             | _ \<Rightarrow> None)
        | _ \<Rightarrow> None)"

definition parse_optional_lease ::
  "'r redis_lib \<Rightarrow> community_id \<Rightarrow> uuid \<Rightarrow> string \<Rightarrow> DirectoryError + SessionLease option" where
  "parse_optional_lease R community_id session_id val =
     (if val = [] then Inr None else map_ok Some (parse_lease R community_id session_id val))"

definition parse_optional_generation :: "community_id \<Rightarrow> uuid \<Rightarrow> string \<Rightarrow> DirectoryError + nat option" where
  "parse_optional_generation community_id session_id val =
     (if val = [] then Inr None
      else and_then (ok_or (MalformedGeneration community_id session_id val) (parse_u64 val)) (\<lambda>generation.
        if generation = 0 then Inl (MalformedGeneration community_id session_id val) else Inr (Some generation)))"

section \<open>The directory\<close>

text \<open>
  What may go wrong around a script: the durable write fence refuses the mutation, no
  connection is to be had, the script is not run, its outcome is lost although it ran, or the
  fence is lost before it is given back.
\<close>

record faults =
  f_begin :: "DirectoryError option"
  f_pool :: "DirectoryError option"
  f_refused :: "DirectoryError option"
  f_unheard :: "DirectoryError option"
  f_finish :: "DirectoryError option"

definition no_faults :: faults where
  "no_faults = \<lparr>f_begin = None, f_pool = None, f_refused = None, f_unheard = None, f_finish = None\<rparr>"

definition fails :: "'e option \<Rightarrow> 'e + unit" where
  "fails x = (case x of Some e \<Rightarrow> Inl e | None \<Rightarrow> Inr ())"

definition DEFAULT_LEASE_TTL :: nat where
  "DEFAULT_LEASE_TTL = 30000"

definition ttl_ms :: "nat \<Rightarrow> DirectoryError + nat" where
  "ttl_ms ttl = (if 0 < ttl \<and> ttl \<le> 9223372036854775807 then Inr ttl else Inl InvalidLeaseTtl)"

text \<open>The script behind its preliminaries.\<close>

definition run_script ::
  "faults \<Rightarrow> DirectoryError + nat \<Rightarrow> (nat \<Rightarrow> 'r \<Rightarrow> (reply \<times> 'r) option) \<Rightarrow> 'r \<Rightarrow> (DirectoryError + reply) \<times> 'r" where
  "run_script f arg script r =
     (case and_then (fails (f_begin f)) (\<lambda>_. and_then arg (\<lambda>a. and_then (fails (f_pool f)) (\<lambda>_.
             and_then (fails (f_refused f)) (\<lambda>_. ok_or RedisError (script a r))))) of
        Inl e \<Rightarrow> (Inl e, r)
      | Inr (reply, r1) \<Rightarrow> (case f_unheard f of Some e \<Rightarrow> (Inl e, r1) | None \<Rightarrow> (Inr reply, r1)))"

definition acquire ::
  "'r redis_lib \<Rightarrow> nat \<Rightarrow> faults \<Rightarrow> nat \<Rightarrow> community_id \<Rightarrow> uuid \<Rightarrow> runtime_id \<Rightarrow> Profile \<Rightarrow> 'r
   \<Rightarrow> (DirectoryError + AcquireResult) \<times> 'r" where
  "acquire R ttl f now community_id session_id owner profile r =
     (case run_script f (ttl_ms ttl) (\<lambda>ms. acquire_script R now (lease_key R community_id session_id)
              (generation_key R community_id session_id) (rt_hex R owner) (as_wire_str profile) ms) r of
        (Inl e, r1) \<Rightarrow> (Inl e, r1)
      | (Inr (status, val, _), r1) \<Rightarrow>
         (and_then (parse_lease R community_id session_id val) (\<lambda>lease.
          and_then (fails (f_finish f)) (\<lambda>_.
            if status = ''acquired'' then Inr (Acquired lease)
            else if status = ''exists'' then Inr (Exists lease)
            else Inl (UnexpectedScriptStatus status))), r1))"

definition takeover ::
  "'r redis_lib \<Rightarrow> nat \<Rightarrow> faults \<Rightarrow> nat \<Rightarrow> community_id \<Rightarrow> uuid \<Rightarrow> runtime_id \<Rightarrow> Profile \<Rightarrow> 'r
   \<Rightarrow> (DirectoryError + AcquireResult) \<times> 'r" where
  "takeover R ttl f now community_id session_id owner profile r =
     acquire R ttl f now community_id session_id owner profile r"

definition renew ::
  "'r redis_lib \<Rightarrow> nat \<Rightarrow> faults \<Rightarrow> nat \<Rightarrow> SessionLease \<Rightarrow> 'r \<Rightarrow> (DirectoryError + RenewResult) \<times> 'r" where
  "renew R ttl f now lease r =
     (let c = sl_community_id lease; s = sl_session_id lease
      in case run_script f (ttl_ms ttl) (\<lambda>ms. renew_script R now (lease_key R c s) (generation_key R c s)
                (rt_hex R (sl_owner_runtime_id lease)) (show_nat (sl_generation lease)) ms) r of
        (Inl e, r1) \<Rightarrow> (Inl e, r1)
      | (Inr (status, val, known), r1) \<Rightarrow>
         (and_then (parse_optional_lease R c s val) (\<lambda>current.
          and_then (fails (f_finish f)) (\<lambda>_.
            if status = ''renewed'' then Inr (Renewed (the current))
            else if status = ''missing'' \<or> status = ''lost''
            then map_ok (Lost current) (parse_optional_generation c s known)
            else Inl (UnexpectedScriptStatus status))), r1))"

definition release ::
  "'r redis_lib \<Rightarrow> faults \<Rightarrow> nat \<Rightarrow> SessionLease \<Rightarrow> 'r \<Rightarrow> (DirectoryError + ReleaseResult) \<times> 'r" where
  "release R f now lease r =
     (let c = sl_community_id lease; s = sl_session_id lease
      in case run_script f (Inr 0) (\<lambda>_. release_script R now (lease_key R c s) (generation_key R c s)
                (rt_hex R (sl_owner_runtime_id lease)) (show_nat (sl_generation lease))) r of
        (Inl e, r1) \<Rightarrow> (Inl e, r1)
      | (Inr (status, val, known), r1) \<Rightarrow>
         (and_then (parse_optional_lease R c s val) (\<lambda>current.
          and_then (fails (f_finish f)) (\<lambda>_.
            if status = ''released'' then Inr (Released (the current))
            else if status = ''missing'' \<or> status = ''lost''
            then map_ok (NotOwner current) (parse_optional_generation c s known)
            else Inl (UnexpectedScriptStatus status))), r1))"

definition lookup ::
  "'r redis_lib \<Rightarrow> faults \<Rightarrow> nat \<Rightarrow> community_id \<Rightarrow> uuid \<Rightarrow> 'r \<Rightarrow> DirectoryError + SessionLease option" where
  "lookup R f now community_id session_id r =
     and_then (fails (f_pool f)) (\<lambda>_. and_then (fails (f_refused f)) (\<lambda>_.
       map_transpose (parse_lease R community_id session_id) (rd_get R now (lease_key R community_id session_id) r)))"

definition known_generation ::
  "'r redis_lib \<Rightarrow> faults \<Rightarrow> nat \<Rightarrow> community_id \<Rightarrow> uuid \<Rightarrow> 'r \<Rightarrow> DirectoryError + nat option" where
  "known_generation R f now community_id session_id r =
     and_then (fails (f_pool f)) (\<lambda>_. and_then (fails (f_refused f)) (\<lambda>_.
       case rd_get R now (generation_key R community_id session_id) r of
         Some val \<Rightarrow> parse_optional_generation community_id session_id val
       | None \<Rightarrow> Inr None))"

definition validate_fenced_header ::
  "'r redis_lib \<Rightarrow> faults \<Rightarrow> nat \<Rightarrow> community_id \<Rightarrow> FencedHeader \<Rightarrow> 'r \<Rightarrow> MeshError + unit" where
  "validate_fenced_header R f now community_id fenced r =
     (let s = fh_session_id fenced
      in and_then (map_err (\<lambda>_. Transport ''redis pool'') (fails (f_pool f))) (\<lambda>_.
         and_then (map_err (\<lambda>_. RedisFailure) (fails (f_refused f))) (\<lambda>_.
         (case validate_script R now (lease_key R community_id s) (generation_key R community_id s) r of
           (lease_value, known_text) \<Rightarrow>
             and_then (map_err (\<lambda>_. Transport ''malformed'') (parse_optional_generation community_id s known_text)) (\<lambda>counter.
             and_then (map_err (\<lambda>_. Transport ''malformed'') (parse_optional_lease R community_id s lease_value)) (\<lambda>current.
               let known_from_counter = (case counter of None \<Rightarrow> 0 | Some g \<Rightarrow> g);
                   known = max (case current of Some lease \<Rightarrow> sl_generation lease | None \<Rightarrow> known_from_counter) known_from_counter
               in if 0 < known \<and> fh_generation fenced < known
                  then Inl (StaleGeneration s (fh_generation fenced) known)
                  else (case current of
                      None \<Rightarrow> Inl (NoActiveLease s (fh_generation fenced) known (fh_owner_runtime_id fenced))
                    | Some lease \<Rightarrow>
                        if fh_generation fenced \<noteq> sl_generation lease
                        then Inl (FutureGeneration s (fh_generation fenced) (sl_generation lease))
                        else if fh_owner_runtime_id fenced \<noteq> sl_owner_runtime_id lease
                        then Inl (OwnerMismatch s (fh_generation fenced) (fh_owner_runtime_id fenced) (sl_owner_runtime_id lease))
                        else Inr ())))))))"

end
