(* ===== verification/Session_Fencing.thy ===== *)
theory Session_Fencing
  imports Session_Directory
begin

text \<open>
  The promise of the session directory: per session a lock whose holder is known by an
  ever-growing generation. The directory of \<open>directory.rs\<close> implements it on any Redis that
  does what its commands are documented to do.
\<close>

section \<open>The documented behaviour relied on\<close>

text \<open>\<open>SET k v PX ttl\<close>, \<open>DEL\<close>, \<open>PEXPIRE\<close> and \<open>INCR\<close>, by what \<open>GET\<close> answers from then on.\<close>

definition set_law :: "'r redis_lib \<Rightarrow> bool" where
  "set_law R \<longleftrightarrow> (\<forall>now t k k' v ttl r. now \<le> t \<longrightarrow> rd_get R t k' (rd_set_px R now k v ttl r) =
     (if k' = k then if t < now + ttl then Some v else None else rd_get R t k' r))"

definition del_law :: "'r redis_lib \<Rightarrow> bool" where
  "del_law R \<longleftrightarrow> (\<forall>now t k k' r. now \<le> t \<longrightarrow> rd_get R t k' (rd_del R now k r) =
     (if k' = k then None else rd_get R t k' r))"

definition expire_law :: "'r redis_lib \<Rightarrow> bool" where
  "expire_law R \<longleftrightarrow> (\<forall>now t k k' ttl r. now \<le> t \<longrightarrow> rd_get R t k' (rd_pexpire R now k ttl r) =
     (if k' = k then if t < now + ttl then rd_get R now k r else None else rd_get R t k' r))"

definition counter_text :: "nat \<Rightarrow> string option" where
  "counter_text n = (if n = 0 then None else Some (show_nat n))"

text \<open>Of a key that never expires; the limit is that of a 64-bit signed integer.\<close>

definition incr_law :: "'r redis_lib \<Rightarrow> bool" where
  "incr_law R \<longleftrightarrow> (\<forall>now k n r. n + 1 < 2 ^ 63 \<and> (\<forall>t \<ge> now. rd_get R t k r = counter_text n) \<longrightarrow>
     (\<exists>r'. rd_incr R now k r = Some (n + 1, r') \<and> (\<forall>t \<ge> now. \<forall>k'. rd_get R t k' r' =
        (if k' = k then Some (show_nat (n + 1)) else rd_get R t k' r))))"

text \<open>Lua writes a whole number below \<open>10^14\<close> with its decimal digits.\<close>

definition tostring_law :: "'r redis_lib \<Rightarrow> bool" where
  "tostring_law R \<longleftrightarrow> (\<forall>n < 10 ^ 14. lua_tostring R n = show_nat n)"

definition text_law :: "'r redis_lib \<Rightarrow> bool" where
  "text_law R \<longleftrightarrow> inj (uuid_show R) \<and> (\<forall>u. CHR '':'' \<notin> set (uuid_show R u))
     \<and> (\<forall>w. rt_from_hex R (rt_hex R w) = Some w \<and> rt_hex R w \<noteq> [] \<and> CHR ''|'' \<notin> set (rt_hex R w))"

definition redis_laws :: "'r redis_lib \<Rightarrow> bool" where
  "redis_laws R \<longleftrightarrow> set_law R \<and> del_law R \<and> expire_law R \<and> incr_law R \<and> tostring_law R \<and> text_law R"

section \<open>The abstract lock\<close>

text \<open>A generation, and the holder with its profile and the instant its lease ends.\<close>

record lock =
  lk_generation :: nat
  lk_holder :: "(runtime_id \<times> Profile \<times> nat) option"

definition lock_live :: "nat \<Rightarrow> lock \<Rightarrow> (runtime_id \<times> Profile) option" where
  "lock_live now L = (case lk_holder L of Some (o', p, d) \<Rightarrow> if now < d then Some (o', p) else None | None \<Rightarrow> None)"

definition lease_of :: "community_id \<Rightarrow> uuid \<Rightarrow> nat \<Rightarrow> runtime_id \<times> Profile \<Rightarrow> SessionLease" where
  "lease_of c s g h = \<lparr>sl_community_id = c, sl_session_id = s, sl_owner_runtime_id = fst h, sl_generation = g,
     sl_profile = snd h\<rparr>"

definition lock_acquire ::
  "community_id \<Rightarrow> uuid \<Rightarrow> nat \<Rightarrow> nat \<Rightarrow> runtime_id \<Rightarrow> Profile \<Rightarrow> lock \<Rightarrow> AcquireResult \<times> lock" where
  "lock_acquire c s now ttl owner p L = (case lock_live now L of
       Some h \<Rightarrow> (Exists (lease_of c s (lk_generation L) h), L)
     | None \<Rightarrow> (Acquired (lease_of c s (lk_generation L + 1) (owner, p)),
                \<lparr>lk_generation = lk_generation L + 1, lk_holder = Some (owner, p, now + ttl)\<rparr>))"

definition known :: "lock \<Rightarrow> nat option" where
  "known L = (if lk_generation L = 0 then None else Some (lk_generation L))"

definition owns :: "nat \<Rightarrow> SessionLease \<Rightarrow> lock \<Rightarrow> bool" where
  "owns now lease L \<longleftrightarrow> (case lock_live now L of
       Some h \<Rightarrow> fst h = sl_owner_runtime_id lease \<and> lk_generation L = sl_generation lease | None \<Rightarrow> False)"

definition current_lease :: "nat \<Rightarrow> SessionLease \<Rightarrow> lock \<Rightarrow> SessionLease option" where
  "current_lease now lease L =
     map_option (lease_of (sl_community_id lease) (sl_session_id lease) (lk_generation L)) (lock_live now L)"

definition lock_renew :: "nat \<Rightarrow> nat \<Rightarrow> SessionLease \<Rightarrow> lock \<Rightarrow> RenewResult \<times> lock" where
  "lock_renew now ttl lease L =
     (if owns now lease L
      then (Renewed (the (current_lease now lease L)),
            L\<lparr>lk_holder := map_option (\<lambda>(o', p, _). (o', p, now + ttl)) (lk_holder L)\<rparr>)
      else (Lost (current_lease now lease L) (known L), L))"

definition lock_release :: "nat \<Rightarrow> SessionLease \<Rightarrow> lock \<Rightarrow> ReleaseResult \<times> lock" where
  "lock_release now lease L =
     (if owns now lease L then (Released (the (current_lease now lease L)), L\<lparr>lk_holder := None\<rparr>)
      else (NotOwner (current_lease now lease L) (known L), L))"

definition lock_validate :: "nat \<Rightarrow> FencedHeader \<Rightarrow> lock \<Rightarrow> MeshError + unit" where
  "lock_validate now fenced L =
     (let s = fh_session_id fenced; g = fh_generation fenced
      in if g < lk_generation L then Inl (StaleGeneration s g (lk_generation L))
         else case lock_live now L of
             None \<Rightarrow> Inl (NoActiveLease s g (lk_generation L) (fh_owner_runtime_id fenced))
           | Some h \<Rightarrow> if g \<noteq> lk_generation L then Inl (FutureGeneration s g (lk_generation L))
               else if fh_owner_runtime_id fenced \<noteq> fst h then Inl (OwnerMismatch s g (fh_owner_runtime_id fenced) (fst h))
               else Inr ())"

section \<open>Implementation\<close>

definition lease_text :: "'r redis_lib \<Rightarrow> nat \<Rightarrow> runtime_id \<times> Profile \<Rightarrow> string" where
  "lease_text R g h = rt_hex R (fst h) @ ''|'' @ show_nat g @ ''|'' @ as_wire_str (snd h)"

text \<open>Redis holds the lock \<open>L\<close> for the session: what it answers now and, left alone, later.\<close>

definition implements :: "'r redis_lib \<Rightarrow> nat \<Rightarrow> community_id \<Rightarrow> uuid \<Rightarrow> 'r \<Rightarrow> lock \<Rightarrow> bool" where
  "implements R now c s r L \<longleftrightarrow> (\<forall>t \<ge> now.
       rd_get R t (generation_key R c s) r = counter_text (lk_generation L)
     \<and> rd_get R t (lease_key R c s) r = map_option (lease_text R (lk_generation L)) (lock_live t L))
   \<and> (lk_holder L \<noteq> None \<longrightarrow> 0 < lk_generation L) \<and> lk_generation L < 10 ^ 14"

lemma implements_later: "implements R now c s r L \<Longrightarrow> now \<le> t \<Longrightarrow> implements R t c s r L"
  by (simp add: implements_def)

lemma implements_get:
  assumes "implements R now c s r L"
  shows "rd_get R now (generation_key R c s) r = counter_text (lk_generation L)"
    and "rd_get R now (lease_key R c s) r = map_option (lease_text R (lk_generation L)) (lock_live now L)"
  using assms by (simp_all add: implements_def)

lemma lock_live_generation: "implements R now c s r L \<Longrightarrow> lock_live t L = Some h \<Longrightarrow> 0 < lk_generation L"
  by (auto simp: implements_def lock_live_def split: option.splits)

subsection \<open>Keys\<close>

lemma colon_split: "CHR '':'' \<notin> set a \<Longrightarrow> CHR '':'' \<notin> set b \<Longrightarrow> a @ CHR '':'' # x = b @ CHR '':'' # y \<Longrightarrow> a = b \<and> x = y"
  by (metis split_once_hit option.inject prod.inject)

lemma key_eq:
  assumes "text_law R"
  shows "lease_key R c s \<noteq> generation_key R c' s'"
    and "lease_key R c s = lease_key R c' s' \<longleftrightarrow> c = c' \<and> s = s'"
    and "generation_key R c s = generation_key R c' s' \<longleftrightarrow> c = c' \<and> s = s'"
proof -
  have no_colon: "CHR '':'' \<notin> set (uuid_show R u)" and inj: "uuid_show R u = uuid_show R v \<longleftrightarrow> u = v" for u v
    using assms by (auto simp: text_law_def inj_eq)
  have keys: "uuid_show R c @ '':tunnel:'' @ uuid_show R s @ CHR '':'' # x = uuid_show R c' @ '':tunnel:'' @ uuid_show R s' @ CHR '':'' # y
      \<longleftrightarrow> c = c' \<and> s = s' \<and> x = y" for c s c' s' x y
    using colon_split [OF no_colon no_colon, of c "''tunnel:'' @ uuid_show R s @ CHR '':'' # x" c']
      colon_split [OF no_colon no_colon, of s x s' y] inj by auto
  show "lease_key R c s \<noteq> generation_key R c' s'" "lease_key R c s = lease_key R c' s' \<longleftrightarrow> c = c' \<and> s = s'"
    "generation_key R c s = generation_key R c' s' \<longleftrightarrow> c = c' \<and> s = s'"
    using keys [of c s "''lease''" c' s' "''generation''"] keys [of c s "''lease''" c' s' "''lease''"]
      keys [of c s "''generation''" c' s' "''generation''"]
    by (simp_all add: lease_key_def generation_key_def session_base_def)
qed

subsection \<open>Lease values\<close>

lemma profile_back: "profile_from_wire (as_wire_str p) = Some p"
  by (cases p) (simp_all add: profile_from_wire_def)

lemma wire_no_bar: "CHR ''|'' \<notin> set (as_wire_str p)" "as_wire_str p \<noteq> []"
  by (cases p; simp)+

lemma split_on_bar: "CHR ''|'' \<notin> set x \<Longrightarrow> split_on CHR ''|'' (x @ CHR ''|'' # y) = x # split_on CHR ''|'' y"
  by (induction x) (auto split: list.split)

lemma split_on_no_bar: "CHR ''|'' \<notin> set x \<Longrightarrow> split_on CHR ''|'' x = [x]"
  by (induction x) auto

lemma split_lease_text:
  assumes "text_law R"
  shows "split_on CHR ''|'' (lease_text R g h) = [rt_hex R (fst h), show_nat g, as_wire_str (snd h)]"
proof -
  have "CHR ''|'' \<notin> set (show_nat g)" using show_nat_digits [of "CHR ''|''" g] by (auto simp: is_ascii_digit_def byte_def)
  with assms show ?thesis
    using split_on_bar [of "rt_hex R (fst h)" "show_nat g @ ''|'' @ as_wire_str (snd h)"]
      split_on_bar [of "show_nat g" "as_wire_str (snd h)"] split_on_no_bar [of "as_wire_str (snd h)"] wire_no_bar(1) [of "snd h"]
    by (simp add: lease_text_def text_law_def)
qed

lemma parse_lease_text:
  assumes "text_law R" and "0 < g" and "g < 10 ^ 14"
  shows "parse_lease R c s (lease_text R g h) = Inr (lease_of c s g h)"
  using assms parse_show_nat [of g 18446744073709551615]
  by (simp add: parse_lease_def split_lease_text [OF assms(1)] profile_back text_law_def lease_of_def)

lemma holds_lease_text:
  assumes "text_law R"
  shows "holds_lease (rt_hex R o') (show_nat g') (lease_text R g h) \<longleftrightarrow> o' = fst h \<and> g' = g"
proof -
  have "rt_hex R a = rt_hex R b \<longleftrightarrow> a = b" for a b using assms unfolding text_law_def by (metis option.inject)
  with assms show ?thesis
    by (auto simp: holds_lease_def match_lease_def split_lease_text [OF assms] text_law_def wire_no_bar show_nat_inj)
qed

lemma lease_text_nonempty: "text_law R \<Longrightarrow> lease_text R g h \<noteq> []"
  by (simp add: lease_text_def)

lemma parse_counter:
  "g < 10 ^ 14 \<Longrightarrow> parse_optional_generation c s (or_empty (counter_text g)) = Inr (if g = 0 then None else Some g)"
  using parse_show_nat [of g 18446744073709551615]
  by (simp add: parse_optional_generation_def or_empty_def counter_text_def)

section \<open>Each operation is the operation of the lock\<close>

lemma run_script_cases:
  assumes "run_script f arg script r = (out, r')"
  shows "isl out \<and> r' = r \<or> (\<exists>a reply. arg = Inr a \<and> script a r = Some (reply, r') \<and> (isl out \<or> out = Inr reply))"
  using assms
  by (auto simp: run_script_def res_simps fails_def and_then_def ok_or_def
      split: sum.splits option.splits prod.splits)

lemma run_script_no_faults:
  "script a r = Some (reply, r') \<Longrightarrow> run_script no_faults (Inr a) script r = (Inr reply, r')"
  by (simp add: run_script_def no_faults_def fails_def)

lemma no_faults_fails [simp]: "fails None = Inr ()"
  by (simp add: fails_def)

lemma acquire_script_refines:
  assumes "redis_laws R" and "implements R now c s r L" and "lk_generation L + 1 < 10 ^ 14" and "0 < ttl"
  shows "\<exists>status g h x r'. acquire_script R now (lease_key R c s) (generation_key R c s) (rt_hex R owner) (as_wire_str p) ttl r
      = Some ((status, lease_text R g h, x), r') \<and> 0 < g \<and> g < 10 ^ 14
    \<and> implements R now c s r' (snd (lock_acquire c s now ttl owner p L))
    \<and> (status, fst (lock_acquire c s now ttl owner p L))
        \<in> {(''acquired'', Acquired (lease_of c s g h)), (''exists'', Exists (lease_of c s g h))}"
proof (cases "lock_live now L")
  case (Some h)
  have "0 < lk_generation L" "lk_generation L < 10 ^ 14"
    using lock_live_generation [OF assms(2) Some] assms(3) by simp_all
  with Some assms(2) implements_get(2) [OF assms(2)] show ?thesis
    by (cases h) (auto simp: acquire_script_def lock_acquire_def)
next
  case None
  have tlaw: "text_law R" and set: "set_law R" and incr: "incr_law R" using assms(1) by (simp_all add: redis_laws_def)
  let ?g = "lk_generation L + 1"
  have "\<forall>t \<ge> now. rd_get R t (generation_key R c s) r = counter_text (lk_generation L)" using assms(2) by (simp add: implements_def)
  moreover have "?g < 2 ^ 63" using assms(3) by simp
  ultimately obtain r1 where r1: "rd_incr R now (generation_key R c s) r = Some (?g, r1)"
    "\<forall>t \<ge> now. \<forall>k'. rd_get R t k' r1 = (if k' = generation_key R c s then Some (show_nat ?g) else rd_get R t k' r)"
    using incr unfolding incr_law_def by blast
  have str: "lua_tostring R ?g = show_nat ?g" using assms(1,3) by (simp add: redis_laws_def tostring_law_def)
  let ?L = "\<lparr>lk_generation = ?g, lk_holder = Some (owner, p, now + ttl)\<rparr>"
  let ?r2 = "rd_set_px R now (lease_key R c s) (lease_text R ?g (owner, p)) ttl r1"
  have "implements R now c s ?r2 ?L"
    using set r1(2) key_eq(1) [OF tlaw, of c s c s] assms(3)
    by (simp add: implements_def set_law_def counter_text_def lock_live_def)
  moreover have "acquire_script R now (lease_key R c s) (generation_key R c s) (rt_hex R owner) (as_wire_str p) ttl r
      = Some ((''acquired'', lease_text R ?g (owner, p), show_nat ?g), ?r2)"
    using implements_get(2) [OF assms(2)] None r1(1) str
    by (simp add: acquire_script_def Let_def lease_text_def)
  ultimately show ?thesis using None assms(3)
    by (intro exI [of _ "''acquired''"] exI [of _ ?g] exI [of _ "(owner, p)"] exI [of _ "show_nat ?g"] exI [of _ ?r2])
      (simp add: lock_acquire_def)
qed

lemma ttl_ms_Inr: "ttl_ms ttl = Inr a \<longleftrightarrow> a = ttl \<and> 0 < ttl \<and> ttl \<le> 9223372036854775807"
  by (auto simp: ttl_ms_def)

text \<open>
  What an operation does to the lock: nothing, reporting an error, or its abstract effect,
  with the abstract result unless that is lost; the latter when nothing goes wrong.
\<close>

definition performs ::
  "'r redis_lib \<Rightarrow> nat \<Rightarrow> community_id \<Rightarrow> uuid \<Rightarrow> lock \<Rightarrow> 'a \<times> lock \<Rightarrow> ('e + 'a) \<times> 'r \<Rightarrow> bool" where
  "performs R now c s L abstract concrete \<longleftrightarrow>
     isl (fst concrete) \<and> implements R now c s (snd concrete) L
   \<or> (isl (fst concrete) \<or> fst concrete = Inr (fst abstract)) \<and> implements R now c s (snd concrete) (snd abstract)"

lemma acquire_performs:
  assumes "redis_laws R" and "implements R now c s r L" and "lk_generation L + 1 < 10 ^ 14"
  shows "performs R now c s L (lock_acquire c s now ttl owner p L) (acquire R ttl f now c s owner p r)"
proof -
  have tlaw: "text_law R" using assms(1) by (simp add: redis_laws_def)
  let ?script = "\<lambda>ms. acquire_script R now (lease_key R c s) (generation_key R c s) (rt_hex R owner) (as_wire_str p) ms"
  obtain out r' where run: "run_script f (ttl_ms ttl) ?script r = (out, r')" by fastforce
  from run_script_cases [OF run] consider "isl out" "r' = r"
    | reply where "0 < ttl" "?script ttl r = Some (reply, r')" "isl out \<or> out = Inr reply" by (auto simp: ttl_ms_Inr)
  then show ?thesis
  proof cases
    case 1
    then obtain e where "out = Inl e" by (cases out) auto
    with 1 run assms(2) show ?thesis by (simp add: performs_def acquire_def)
  next
    case 2
    from acquire_script_refines [OF assms(1-3) 2(1), of owner p] 2(2)
    obtain status g h x where s: "reply = (status, lease_text R g h, x)" "0 < g" "g < 10 ^ 14"
      "implements R now c s r' (snd (lock_acquire c s now ttl owner p L))"
      "(status, fst (lock_acquire c s now ttl owner p L))
        \<in> {(''acquired'', Acquired (lease_of c s g h)), (''exists'', Exists (lease_of c s g h))}" by auto
    from 2(3) run s show ?thesis
      by (cases out; cases "f_finish f") (auto simp: performs_def acquire_def parse_lease_text [OF tlaw s(2,3)] fails_def)
  qed
qed

lemma counter_pos: "0 < g \<Longrightarrow> counter_text g = Some (show_nat g)"
  by (simp add: counter_text_def)

lemma known_parse:
  "lk_generation L < 10 ^ 14 \<Longrightarrow> parse_optional_generation c s (or_empty (counter_text (lk_generation L))) = Inr (known L)"
  by (simp add: parse_counter known_def)

lemma live_holder: "lock_live now L = Some (o', p) \<longleftrightarrow> (\<exists>d. lk_holder L = Some (o', p, d) \<and> now < d)"
  by (auto simp: lock_live_def split: option.splits)

lemma owns_live: "owns now lease L \<Longrightarrow> \<exists>p d. lk_holder L = Some (sl_owner_runtime_id lease, p, d)
    \<and> lock_live now L = Some (sl_owner_runtime_id lease, p) \<and> lk_generation L = sl_generation lease"
  by (auto simp: owns_def lock_live_def split: option.splits if_splits)

text \<open>Renewing and releasing share their shape: they look for the holder, then change its key.\<close>

definition holder_script ::
  "'r redis_lib \<Rightarrow> string \<Rightarrow> ('r \<Rightarrow> 'r) \<Rightarrow> nat \<Rightarrow> string \<Rightarrow> string \<Rightarrow> string \<Rightarrow> string \<Rightarrow> 'r \<Rightarrow> (reply \<times> 'r) option" where
  "holder_script R status change now lk gk owner generation r =
     (case rd_get R now lk r of
        None \<Rightarrow> Some ((''missing'', [], or_empty (rd_get R now gk r)), r)
      | Some current \<Rightarrow>
         if holds_lease owner generation current
         then (let r1 = change r in Some ((status, current, or_generation (rd_get R now gk r1) current), r1))
         else Some ((''lost'', current, or_generation (rd_get R now gk r) current), r))"

lemma renew_holder: "renew_script R now lk gk owner g ttl = holder_script R ''renewed'' (rd_pexpire R now lk ttl) now lk gk owner g"
  by (rule ext) (simp only: renew_script_def holder_script_def)

lemma release_holder: "release_script R now lk gk owner g = holder_script R ''released'' (rd_del R now lk) now lk gk owner g"
  by (rule ext) (simp only: release_script_def holder_script_def)

lemma holder_script_refines:
  assumes "text_law R" and "c = sl_community_id lease" and "s = sl_session_id lease" and "implements R now c s r L"
    and "holder_script R status change now (lease_key R c s) (generation_key R c s)
           (rt_hex R (sl_owner_runtime_id lease)) (show_nat (sl_generation lease)) r = Some (reply, r')"
  shows "owns now lease L \<and> r' = change r \<and> (\<exists>val x l. reply = (status, val, x) \<and> current_lease now lease L = Some l
        \<and> parse_optional_lease R c s val = Inr (Some l))
    \<or> \<not> owns now lease L \<and> r' = r \<and> (\<exists>st val x. st \<in> {''missing'', ''lost''} \<and> reply = (st, val, x)
        \<and> parse_optional_lease R c s val = Inr (current_lease now lease L) \<and> parse_optional_generation c s x = Inr (known L))"
proof (cases "lock_live now L")
  case None
  have "lk_generation L < 10 ^ 14" using assms(4) by (simp add: implements_def)
  with None assms(2,3,5) implements_get [OF assms(4)] show ?thesis
    by (auto simp: holder_script_def owns_def parse_optional_lease_def current_lease_def known_parse)
next
  case (Some h)
  have pos: "0 < lk_generation L" "lk_generation L < 10 ^ 14"
    using lock_live_generation [OF assms(4) Some] assms(4) by (simp_all add: implements_def)
  have parse: "parse_optional_lease R c s (lease_text R (lk_generation L) h) = Inr (current_lease now lease L)"
    using assms(1-3) pos Some
    by (simp add: parse_optional_lease_def lease_text_nonempty parse_lease_text current_lease_def)
  have "holds_lease (rt_hex R (sl_owner_runtime_id lease)) (show_nat (sl_generation lease)) (lease_text R (lk_generation L) h)
      \<longleftrightarrow> owns now lease L"
    using Some by (auto simp: holds_lease_text [OF assms(1)] owns_def)
  moreover have "or_generation (counter_text (lk_generation L)) x = or_empty (counter_text (lk_generation L))" for x
    using pos by (simp add: or_generation_def or_empty_def counter_pos)
  ultimately show ?thesis
    using assms(5) implements_get [OF assms(4)] Some parse known_parse [OF pos(2)] pos(1)
    by (auto simp: holder_script_def Let_def current_lease_def split: if_splits)
qed

lemma renew_performs:
  assumes "redis_laws R" and "implements R now (sl_community_id lease) (sl_session_id lease) r L"
  shows "performs R now (sl_community_id lease) (sl_session_id lease) L (lock_renew now ttl lease L) (renew R ttl f now lease r)"
proof -
  let ?c = "sl_community_id lease" and ?s = "sl_session_id lease"
  have tlaw: "text_law R" and expire: "expire_law R" using assms(1) by (simp_all add: redis_laws_def)
  let ?script = "\<lambda>ms. renew_script R now (lease_key R ?c ?s) (generation_key R ?c ?s)
    (rt_hex R (sl_owner_runtime_id lease)) (show_nat (sl_generation lease)) ms"
  obtain out r' where run: "run_script f (ttl_ms ttl) ?script r = (out, r')" by fastforce
  from run_script_cases [OF run] consider "isl out" "r' = r"
    | reply where "?script ttl r = Some (reply, r')" "isl out \<or> out = Inr reply" by (auto simp: ttl_ms_Inr)
  then show ?thesis
  proof cases
    case 1
    with run assms(2) show ?thesis by (cases out) (simp_all add: performs_def renew_def Let_def)
  next
    case 2
    show ?thesis
    proof (cases "owns now lease L")
      case True
      then obtain p d where h: "lk_holder L = Some (sl_owner_runtime_id lease, p, d)"
        "lock_live now L = Some (sl_owner_runtime_id lease, p)" using owns_live by blast
      have r': "r' = rd_pexpire R now (lease_key R ?c ?s) ttl r"
        using holder_script_refines [OF tlaw refl refl assms(2) 2(1) [unfolded renew_holder]] True by blast
      have "implements R now ?c ?s r' (snd (lock_renew now ttl lease L))"
        using expire assms(2) key_eq(1) [OF tlaw, of ?c ?s ?c ?s, symmetric] implements_get(2) [OF assms(2)] h True
          lock_live_generation [OF assms(2) h(2)]
        unfolding r' by (simp add: implements_def expire_law_def lock_live_def lock_renew_def)
      then show ?thesis
        using holder_script_refines [OF tlaw refl refl assms(2) 2(1) [unfolded renew_holder]] 2(2) run True
        by (cases out; cases "f_finish f") (auto simp: performs_def renew_def lock_renew_def fails_def)
    next
      case False
      then show ?thesis
        using holder_script_refines [OF tlaw refl refl assms(2) 2(1) [unfolded renew_holder]] 2(2) run assms(2)
        by (cases out; cases "f_finish f") (auto simp: performs_def renew_def lock_renew_def fails_def)
    qed
  qed
qed

lemma release_performs:
  assumes "redis_laws R" and "implements R now (sl_community_id lease) (sl_session_id lease) r L"
  shows "performs R now (sl_community_id lease) (sl_session_id lease) L (lock_release now lease L) (release R f now lease r)"
proof -
  let ?c = "sl_community_id lease" and ?s = "sl_session_id lease"
  have tlaw: "text_law R" and del: "del_law R" using assms(1) by (simp_all add: redis_laws_def)
  let ?script = "\<lambda>_. release_script R now (lease_key R ?c ?s) (generation_key R ?c ?s)
    (rt_hex R (sl_owner_runtime_id lease)) (show_nat (sl_generation lease))"
  obtain out r' where run: "run_script f (Inr 0) ?script r = (out, r')" by fastforce
  from run_script_cases [OF run] consider "isl out" "r' = r"
    | reply where "?script (0 :: nat) r = Some (reply, r')" "isl out \<or> out = Inr reply" by auto
  then show ?thesis
  proof cases
    case 1
    with run assms(2) show ?thesis by (cases out) (simp_all add: performs_def release_def Let_def)
  next
    case 2
    note refines = holder_script_refines [OF tlaw refl refl assms(2) 2(1) [unfolded release_holder]]
    show ?thesis
    proof (cases "owns now lease L")
      case True
      with refines have "r' = rd_del R now (lease_key R ?c ?s) r" by blast
      then have "implements R now ?c ?s r' (snd (lock_release now lease L))"
        using del assms(2) key_eq(1) [OF tlaw, of ?c ?s ?c ?s, symmetric] True
        by (simp add: implements_def del_law_def lock_live_def lock_release_def)
      then show ?thesis using refines 2(2) run True
        by (cases out; cases "f_finish f") (auto simp: performs_def release_def lock_release_def fails_def)
    next
      case False
      then show ?thesis using refines 2(2) run assms(2)
        by (cases out; cases "f_finish f") (auto simp: performs_def release_def lock_release_def fails_def)
    qed
  qed
qed

text \<open>Validation reads both keys at once, and answers for the lock.\<close>

lemma validate_refines:
  assumes "text_law R" and "implements R now c (fh_session_id fenced) r L"
  shows "validate_fenced_header R f now c fenced r = Inr () \<Longrightarrow> lock_validate now fenced L = Inr ()"
    and "validate_fenced_header R no_faults now c fenced r = lock_validate now fenced L"
proof -
  have bound: "lk_generation L < 10 ^ 14" using assms(2) by (simp add: implements_def)
  have main: "validate_fenced_header R g now c fenced r =
    and_then (map_err (\<lambda>_. Transport ''redis pool'') (fails (f_pool g))) (\<lambda>_.
    and_then (map_err (\<lambda>_. RedisFailure) (fails (f_refused g))) (\<lambda>_. lock_validate now fenced L))" for g
  proof (cases "lock_live now L")
    case None
    with implements_get [OF assms(2)] bound show ?thesis
      by (simp add: validate_fenced_header_def validate_script_def known_parse parse_optional_lease_def
          or_empty_def [of None] lock_validate_def Let_def known_def)
  next
    case (Some h)
    with implements_get [OF assms(2)] bound lock_live_generation [OF assms(2) Some] show ?thesis
      by (simp add: validate_fenced_header_def validate_script_def known_parse parse_optional_lease_def
          or_empty_def [of "Some _"] lock_validate_def Let_def known_def lease_text_nonempty [OF assms(1)]
          parse_lease_text [OF assms(1)] lease_of_def)
  qed
  show "validate_fenced_header R f now c fenced r = Inr () \<Longrightarrow> lock_validate now fenced L = Inr ()"
    by (auto simp: main res_simps)
  show "validate_fenced_header R no_faults now c fenced r = lock_validate now fenced L"
    by (simp add: main no_faults_def)
qed

section \<open>Sessions do not touch each other\<close>

definition same_elsewhere :: "'r redis_lib \<Rightarrow> nat \<Rightarrow> community_id \<Rightarrow> uuid \<Rightarrow> 'r \<Rightarrow> 'r \<Rightarrow> bool" where
  "same_elsewhere R now c s r r' \<longleftrightarrow> (\<forall>t \<ge> now. \<forall>k. k \<noteq> lease_key R c s \<and> k \<noteq> generation_key R c s \<longrightarrow> rd_get R t k r' = rd_get R t k r)"

lemma same_elsewhere_refl [simp]: "same_elsewhere R now c s r r"
  by (simp add: same_elsewhere_def)

lemma same_elsewhere_implements:
  "text_law R \<Longrightarrow> same_elsewhere R now c s r r' \<Longrightarrow> (c', s') \<noteq> (c, s) \<Longrightarrow> implements R now c' s' r L \<Longrightarrow> implements R now c' s' r' L"
  using key_eq [of R c' s' c s] key_eq(1) [of R c s c' s'] by (auto simp: implements_def same_elsewhere_def)

lemma run_script_elsewhere:
  assumes "\<And>a reply r'. arg = Inr a \<Longrightarrow> script a r = Some (reply, r') \<Longrightarrow> same_elsewhere R now c s r r'"
  shows "same_elsewhere R now c s r (snd (run_script f arg script r))"
proof -
  obtain out r' where "run_script f arg script r = (out, r')" by fastforce
  with run_script_cases [OF this] assms show ?thesis by auto
qed

lemma snd_case_reply:
  "snd (case x of (Inl e, r') \<Rightarrow> (Inl e, r') | (Inr (a, b, d), r') \<Rightarrow> (f a b d, r')) = snd x"
  by (auto split: sum.split prod.split)

lemma acquire_elsewhere:
  assumes "redis_laws R" and "implements R now c s r L" and "lk_generation L + 1 < 10 ^ 14"
  shows "same_elsewhere R now c s r (snd (acquire R ttl f now c s owner p r))"
proof -
  have set: "set_law R" and incr: "incr_law R" using assms(1) by (simp_all add: redis_laws_def)
  have "\<forall>t \<ge> now. rd_get R t (generation_key R c s) r = counter_text (lk_generation L)" using assms(2) by (simp add: implements_def)
  moreover have "lk_generation L + 1 < 2 ^ 63" using assms(3) by simp
  ultimately obtain r1 where "rd_incr R now (generation_key R c s) r = Some (lk_generation L + 1, r1)"
    "\<forall>t \<ge> now. \<forall>k'. rd_get R t k' r1 = (if k' = generation_key R c s then Some (show_nat (lk_generation L + 1)) else rd_get R t k' r)"
    using incr unfolding incr_law_def by blast
  with set show ?thesis
    unfolding acquire_def snd_case_reply
    by (intro run_script_elsewhere)
      (auto simp: acquire_script_def Let_def same_elsewhere_def set_law_def split: option.splits)
qed

lemma renew_elsewhere:
  assumes "expire_law R"
  shows "same_elsewhere R now (sl_community_id lease) (sl_session_id lease) r (snd (renew R ttl f now lease r))"
proof -
  have other: "now \<le> t \<Longrightarrow> k' \<noteq> k \<Longrightarrow> rd_get R t k' (rd_pexpire R now k ms r) = rd_get R t k' r" for t k' k ms r
    using assms by (simp add: expire_law_def)
  show ?thesis unfolding renew_def snd_case_reply Let_def
    by (intro run_script_elsewhere)
      (auto simp: renew_script_def Let_def same_elsewhere_def other split: option.splits if_splits)
qed

lemma release_elsewhere:
  assumes "del_law R"
  shows "same_elsewhere R now (sl_community_id lease) (sl_session_id lease) r (snd (release R f now lease r))"
proof -
  have other: "now \<le> t \<Longrightarrow> k' \<noteq> k \<Longrightarrow> rd_get R t k' (rd_del R now k r) = rd_get R t k' r" for t k' k r
    using assms by (simp add: del_law_def)
  show ?thesis unfolding release_def snd_case_reply Let_def
    by (intro run_script_elsewhere)
      (auto simp: release_script_def Let_def same_elsewhere_def other split: option.splits if_splits)
qed

end
