(* ===== verification/Session_Runs.thy ===== *)
theory Session_Runs
  imports Session_Fencing
begin

text \<open>
  Histories of a session directory: any number of runtimes acquiring, renewing, releasing and
  checking frames, for any sessions, with any delays and faults.
\<close>

section \<open>Histories\<close>

datatype dir_call =
    CallAcquire faults community_id uuid runtime_id Profile
  | CallTakeover faults community_id uuid runtime_id Profile
  | CallRenew faults SessionLease
  | CallRelease faults SessionLease
  | CallValidate faults community_id FencedHeader

datatype dir_outcome =
    OutAcquire "DirectoryError + AcquireResult"
  | OutRenew "DirectoryError + RenewResult"
  | OutRelease "DirectoryError + ReleaseResult"
  | OutValidate "MeshError + unit"

fun dir_perform :: "'r redis_lib \<Rightarrow> nat \<Rightarrow> nat \<Rightarrow> dir_call \<Rightarrow> 'r \<Rightarrow> dir_outcome \<times> 'r" where
  "dir_perform R ttl now (CallAcquire f c s owner p) r = map_prod OutAcquire id (acquire R ttl f now c s owner p r)"
| "dir_perform R ttl now (CallTakeover f c s owner p) r = map_prod OutAcquire id (takeover R ttl f now c s owner p r)"
| "dir_perform R ttl now (CallRenew f lease) r = map_prod OutRenew id (renew R ttl f now lease r)"
| "dir_perform R ttl now (CallRelease f lease) r = map_prod OutRelease id (release R f now lease r)"
| "dir_perform R ttl now (CallValidate f c fenced) r = (OutValidate (validate_fenced_header R f now c fenced r), r)"

text \<open>Each call comes after a delay. The result is what every call answered, the instant and the state.\<close>

fun dir_run ::
  "'r redis_lib \<Rightarrow> nat \<Rightarrow> nat \<Rightarrow> 'r \<Rightarrow> (nat \<times> dir_call) list \<Rightarrow> (dir_call \<times> dir_outcome) list \<times> nat \<times> 'r" where
  "dir_run R ttl now r [] = ([], now, r)"
| "dir_run R ttl now r ((delay, call) # calls) =
     (case dir_perform R ttl (now + delay) call r of (out, r1) \<Rightarrow>
        (case dir_run R ttl (now + delay) r1 calls of (log, now', r') \<Rightarrow> ((call, out) # log, now', r')))"

text \<open>The generation and the owner an answer vouches for, if it is about the session.\<close>

definition of_session :: "community_id \<Rightarrow> uuid \<Rightarrow> SessionLease \<Rightarrow> (nat \<times> runtime_id) option" where
  "of_session c s lease = (if sl_community_id lease = c \<and> sl_session_id lease = s
     then Some (sl_generation lease, sl_owner_runtime_id lease) else None)"

fun vouched :: "community_id \<Rightarrow> uuid \<Rightarrow> dir_call \<times> dir_outcome \<Rightarrow> (nat \<times> runtime_id) option" where
  "vouched c s (_, OutAcquire (Inr (Acquired lease))) = of_session c s lease"
| "vouched c s (_, OutAcquire (Inr (Exists lease))) = of_session c s lease"
| "vouched c s (_, OutRenew (Inr (Renewed lease))) = of_session c s lease"
| "vouched c s (CallValidate _ c' fenced, OutValidate (Inr ())) =
     (if c' = c \<and> fh_session_id fenced = s then Some (fh_generation fenced, fh_owner_runtime_id fenced) else None)"
| "vouched c s _ = None"

fun newly_acquired :: "dir_call \<times> dir_outcome \<Rightarrow> bool" where
  "newly_acquired (_, OutAcquire (Inr (Acquired _))) = True"
| "newly_acquired _ = False"

section \<open>One step\<close>

text \<open>A lock only moves on: a greater generation, or the same one in the same hands or in none.\<close>

definition lock_le :: "lock \<Rightarrow> lock \<Rightarrow> bool" where
  "lock_le L L' \<longleftrightarrow> lk_generation L < lk_generation L' \<or> lk_generation L = lk_generation L'
     \<and> (\<forall>w p d'. lk_holder L' = Some (w, p, d') \<longrightarrow> (\<exists>d. lk_holder L = Some (w, p, d)))"

lemma lock_le_refl [simp]: "lock_le L L"
  by (simp add: lock_le_def)

lemma lock_le_trans: "lock_le L L' \<Longrightarrow> lock_le L' L'' \<Longrightarrow> lock_le L L''"
  unfolding lock_le_def by (metis less_trans)

definition held_by :: "runtime_id \<Rightarrow> lock \<Rightarrow> bool" where
  "held_by w L \<longleftrightarrow> (\<exists>p d. lk_holder L = Some (w, p, d))"

lemma lock_le_held: "lock_le L L' \<Longrightarrow> lk_generation L = lk_generation L' \<Longrightarrow> held_by w L' \<Longrightarrow> held_by w L"
  unfolding lock_le_def held_by_def by (metis less_irrefl)

lemma lock_le_generation: "lock_le L L' \<Longrightarrow> lk_generation L \<le> lk_generation L'"
  by (auto simp: lock_le_def)

text \<open>A lease never lasts longer than the time to live from now on.\<close>

definition ends_by :: "nat \<Rightarrow> lock \<Rightarrow> bool" where
  "ends_by t L \<longleftrightarrow> (\<forall>w p d. lk_holder L = Some (w, p, d) \<longrightarrow> d \<le> t)"

definition good_step :: "nat \<Rightarrow> nat \<Rightarrow> lock \<Rightarrow> lock \<Rightarrow> bool" where
  "good_step now ttl L L' \<longleftrightarrow> lock_le L L' \<and> lk_generation L' \<le> lk_generation L + 1
     \<and> (ends_by (now + ttl) L \<longrightarrow> ends_by (now + ttl) L')"

lemma good_step_refl [simp]: "good_step now ttl L L"
  by (simp add: good_step_def)

lemma good_steps:
  "good_step now ttl L (snd (lock_acquire c s now ttl owner p L))"
  "good_step now ttl L (snd (lock_renew now ttl lease L))"
  "good_step now ttl L (snd (lock_release now lease L))"
  by (auto simp: good_step_def lock_acquire_def lock_renew_def lock_release_def lock_le_def ends_by_def
      split: option.split)

lemma live_held: "lock_live now L = Some h \<Longrightarrow> held_by (fst h) L"
  by (cases h) (auto simp: live_holder held_by_def)

text \<open>What an answer says about the lock after the call.\<close>

definition answer_ok :: "community_id \<Rightarrow> uuid \<Rightarrow> lock \<Rightarrow> lock \<Rightarrow> dir_call \<times> dir_outcome \<Rightarrow> bool" where
  "answer_ok c s L L' entry \<longleftrightarrow> (\<forall>g w. vouched c s entry = Some (g, w) \<longrightarrow>
     g = lk_generation L' \<and> held_by w L' \<and> (newly_acquired entry \<longrightarrow> lk_generation L < g))"

lemma answer_ok_error [simp]: "isl x \<Longrightarrow> answer_ok c s L L' (call, OutAcquire x)"
  "isl y \<Longrightarrow> answer_ok c s L L' (call, OutRenew y)" "answer_ok c s L L' (call, OutRelease z)"
  by (cases x; simp add: answer_ok_def) (cases y; simp add: answer_ok_def; fail)+

lemma lock_acquire_answer:
  assumes "lock_acquire c s now ttl owner p L = (res, L')"
  shows "answer_ok c s L L' (call, OutAcquire (Inr res))"
  using assms live_held [of now L]
  by (auto simp: lock_acquire_def answer_ok_def of_session_def lease_of_def held_by_def split: option.splits if_splits)

lemma lock_renew_answer:
  assumes "lock_renew now ttl lease L = (res, L')"
  shows "answer_ok c s L L' (call, OutRenew (Inr res))"
  using assms owns_live [of now lease L]
  by (auto simp: lock_renew_def answer_ok_def of_session_def current_lease_def lease_of_def held_by_def
      split: option.splits if_splits)

text \<open>An answer is about the session it was asked for, and no other.\<close>

definition only_about :: "community_id \<Rightarrow> uuid \<Rightarrow> dir_call \<times> dir_outcome \<Rightarrow> bool" where
  "only_about c s entry \<longleftrightarrow> (\<forall>c' s'. vouched c' s' entry \<noteq> None \<longrightarrow> c' = c \<and> s' = s)"

lemma only_about_error: "isl x \<Longrightarrow> only_about c s (call, OutAcquire x)"
  "isl y \<Longrightarrow> only_about c s (call, OutRenew y)" "only_about c s (call, OutRelease z)"
  by (cases x; simp add: only_about_def) (cases y; simp add: only_about_def; fail)+

lemma only_about_lock:
  "lock_acquire c s now ttl owner p L = (res, L') \<Longrightarrow> only_about c s (call, OutAcquire (Inr res))"
  "lock_renew now ttl lease L = (res2, L2) \<Longrightarrow>
     only_about (sl_community_id lease) (sl_session_id lease) (call, OutRenew (Inr res2))"
  using owns_live [of now lease L]
  by (auto simp: lock_acquire_def lock_renew_def only_about_def of_session_def lease_of_def current_lease_def
      split: option.splits if_splits)

lemma lock_validate_answer:
  assumes "lock_validate now fenced L = Inr ()"
  shows "fh_generation fenced = lk_generation L \<and> held_by (fh_owner_runtime_id fenced) L"
  using assms live_held [of now L] by (auto simp: lock_validate_def Let_def split: if_splits option.splits)

text \<open>The session a call is about.\<close>

fun call_session :: "dir_call \<Rightarrow> community_id \<times> uuid" where
  "call_session (CallAcquire f c s owner p) = (c, s)"
| "call_session (CallTakeover f c s owner p) = (c, s)"
| "call_session (CallRenew f lease) = (sl_community_id lease, sl_session_id lease)"
| "call_session (CallRelease f lease) = (sl_community_id lease, sl_session_id lease)"
| "call_session (CallValidate f c fenced) = (c, fh_session_id fenced)"

lemma performs_cases:
  assumes "performs R now c s L (res, L1) (out, r')"
  shows "isl out \<and> implements R now c s r' L \<or> (isl out \<or> out = Inr res) \<and> implements R now c s r' L1"
  using assms by (simp add: performs_def)

lemma step_same_session:
  assumes "redis_laws R" and "implements R now c s r L" and "lk_generation L + 1 < 10 ^ 14"
    and "call_session call = (c, s)" and "dir_perform R ttl now call r = (out, r')"
  shows "\<exists>L'. implements R now c s r' L' \<and> good_step now ttl L L' \<and> answer_ok c s L L' (call, out) \<and> only_about c s (call, out)"
proof -
  have acquire: "\<exists>L'. implements R now c s r' L' \<and> good_step now ttl L L' \<and> answer_ok c s L L' (call', OutAcquire x)
        \<and> only_about c s (call', OutAcquire x)"
    if "acquire R ttl f now c s owner p r = (x, r')" for f owner p x call'
  proof -
    obtain res L1 where abs: "lock_acquire c s now ttl owner p L = (res, L1)" by fastforce
    from performs_cases [OF acquire_performs [OF assms(1-3), of ttl owner p f, unfolded abs that]]
      lock_acquire_answer [OF abs] good_steps(1) [of now ttl L c s owner p, unfolded abs]
      only_about_lock(1) [OF abs] only_about_error(1) [of x] show ?thesis
      by (auto intro: exI [of _ L] exI [of _ L1])
  qed
  show ?thesis
  proof (cases call)
    case (CallAcquire f c' s' owner p)
    with acquire [of f owner p _ call] assms(4,5) show ?thesis
      by (cases "acquire R ttl f now c s owner p r") auto
  next
    case (CallTakeover f c' s' owner p)
    with acquire [of f owner p _ call] assms(4,5) show ?thesis
      by (cases "acquire R ttl f now c s owner p r") (auto simp: takeover_def)
  next
    case (CallRenew f lease)
    obtain x where x: "renew R ttl f now lease r = (x, r')" "out = OutRenew x"
      using assms(5) CallRenew by (cases "renew R ttl f now lease r") auto
    obtain res L1 where abs: "lock_renew now ttl lease L = (res, L1)" by fastforce
    have "performs R now c s L (res, L1) (x, r')"
      using renew_performs [OF assms(1), of now lease r L ttl f] assms(2,4) CallRenew by (simp add: abs x)
    from performs_cases [OF this] lock_renew_answer [OF abs] good_steps(2) [of now ttl L lease, unfolded abs] x(2)
      only_about_lock(2) [OF abs] only_about_error(2) [of x] assms(4) CallRenew
    show ?thesis by (auto intro: exI [of _ L] exI [of _ L1])
  next
    case (CallRelease f lease)
    obtain x where x: "release R f now lease r = (x, r')" "out = OutRelease x"
      using assms(5) CallRelease by (cases "release R f now lease r") auto
    obtain res L1 where abs: "lock_release now lease L = (res, L1)" by fastforce
    have "performs R now c s L (res, L1) (x, r')"
      using release_performs [OF assms(1), of now lease r L f] assms(2,4) CallRelease by (simp add: abs x)
    from performs_cases [OF this] good_steps(3) [of now ttl L lease, unfolded abs] x(2) only_about_error(3)
    show ?thesis by (auto intro: exI [of _ L] exI [of _ L1])
  next
    case (CallValidate f c' fenced)
    then have out: "out = OutValidate (validate_fenced_header R f now c fenced r)" "r' = r" "c' = c" "s = fh_session_id fenced"
      using assms(4,5) by auto
    have "text_law R" using assms(1) by (simp add: redis_laws_def)
    from validate_refines(1) [OF this, of now c fenced r L f] assms(2) out(4) lock_validate_answer [of now fenced L]
    have "answer_ok c s L L (call, out)"
      by (cases "validate_fenced_header R f now c fenced r") (auto simp: answer_ok_def out CallValidate)
    moreover have "only_about c s (call, out)"
      by (cases "validate_fenced_header R f now c fenced r") (auto simp: only_about_def out CallValidate)
    ultimately show ?thesis using assms(2) out(2) by (auto intro: exI [of _ L])
  qed
qed

lemma step_elsewhere:
  assumes "redis_laws R" and "implements R now c s r L" and "lk_generation L + 1 < 10 ^ 14"
    and "call_session call = (c, s)" and "dir_perform R ttl now call r = (out, r')"
  shows "same_elsewhere R now c s r r'"
proof -
  have laws: "expire_law R" "del_law R" using assms(1) by (simp_all add: redis_laws_def)
  have r': "r' = snd (dir_perform R ttl now call r)" using assms(5) by simp
  show ?thesis
  proof (cases call)
    case (CallAcquire f c' s' owner p)
    then show ?thesis using acquire_elsewhere [OF assms(1-3), of ttl f owner p] assms(4) by (simp add: r')
  next
    case (CallTakeover f c' s' owner p)
    then show ?thesis using acquire_elsewhere [OF assms(1-3), of ttl f owner p] assms(4) by (simp add: r' takeover_def)
  next
    case (CallRenew f lease)
    then show ?thesis using renew_elsewhere [OF laws(1), of now lease r ttl f] assms(4) by (simp add: r')
  next
    case (CallRelease f lease)
    then show ?thesis using release_elsewhere [OF laws(2), of now lease r f] assms(4) by (simp add: r')
  qed (simp add: r')
qed

type_synonym locks = "community_id \<Rightarrow> uuid \<Rightarrow> lock"

lemma step_all:
  assumes "redis_laws R" and "\<forall>c s. implements R now c s r (K c s) \<and> lk_generation (K c s) + 1 < 10 ^ 14"
    and "dir_perform R ttl now call r = (out, r')"
  shows "\<exists>K'. \<forall>c s. implements R now c s r' (K' c s) \<and> good_step now ttl (K c s) (K' c s)
    \<and> answer_ok c s (K c s) (K' c s) (call, out)"
proof -
  obtain c s where cs: "call_session call = (c, s)" by fastforce
  have impl: "implements R now c s r (K c s)" and bound: "lk_generation (K c s) + 1 < 10 ^ 14" using assms(2) by auto
  have tlaw: "text_law R" using assms(1) by (simp add: redis_laws_def)
  from step_same_session [OF assms(1) impl bound cs assms(3)]
  obtain L' where L': "implements R now c s r' L'" "good_step now ttl (K c s) L'"
    "answer_ok c s (K c s) L' (call, out)" "only_about c s (call, out)" by blast
  note frame = same_elsewhere_implements [OF tlaw step_elsewhere [OF assms(1) impl bound cs assms(3)]]
  show ?thesis
  proof (intro exI allI)
    fix c' s'
    let ?K = "\<lambda>c' s'. if c' = c \<and> s' = s then L' else K c' s'"
    show "implements R now c' s' r' (?K c' s') \<and> good_step now ttl (K c' s') (?K c' s')
        \<and> answer_ok c' s' (K c' s') (?K c' s') (call, out)"
    proof (cases "c' = c \<and> s' = s")
      case True
      with L' show ?thesis by simp
    next
      case False
      then have "vouched c' s' (call, out) = None" using L'(4) unfolding only_about_def by blast
      moreover have "implements R now c' s' r' (K c' s')" using False frame [of c' s'] assms(2) by blast
      ultimately show ?thesis using False by (auto simp: answer_ok_def)
    qed
  qed
qed

section \<open>Whole histories\<close>

fun good_log :: "community_id \<Rightarrow> uuid \<Rightarrow> lock \<Rightarrow> (dir_call \<times> dir_outcome) list \<Rightarrow> lock \<Rightarrow> bool" where
  "good_log c s L [] L' \<longleftrightarrow> L' = L"
| "good_log c s L (e # es) L' \<longleftrightarrow> (\<exists>L1. lock_le L L1 \<and> answer_ok c s L L1 e \<and> good_log c s L1 es L')"

lemma ends_by_later: "ends_by t L \<Longrightarrow> t \<le> t' \<Longrightarrow> ends_by t' L"
  by (auto simp: ends_by_def)

lemma run_all:
  assumes "redis_laws R" and "\<forall>c s. implements R now c s r (K c s) \<and> lk_generation (K c s) + length calls < 10 ^ 14"
    and "dir_run R ttl now r calls = (log, now', r')"
  shows "now \<le> now' \<and> (\<exists>K'. \<forall>c s. implements R now' c s r' (K' c s) \<and> good_log c s (K c s) log (K' c s)
    \<and> lk_generation (K' c s) \<le> lk_generation (K c s) + length calls
    \<and> (ends_by (now + ttl) (K c s) \<longrightarrow> ends_by (now' + ttl) (K' c s)))"
  using assms(2,3)
proof (induction calls arbitrary: now r K log)
  case Nil
  then show ?case by (auto intro: exI [of _ K])
next
  case (Cons dcall calls)
  obtain delay call where dcall: "dcall = (delay, call)" by fastforce
  let ?t = "now + delay"
  obtain out r1 where r1: "dir_perform R ttl ?t call r = (out, r1)" by fastforce
  obtain log1 where run: "dir_run R ttl ?t r1 calls = (log1, now', r')" and log: "log = (call, out) # log1"
    using Cons.prems(2) by (auto simp: dcall r1 split: prod.splits)
  have "\<forall>c s. implements R ?t c s r (K c s) \<and> lk_generation (K c s) + 1 < 10 ^ 14"
  proof (intro allI conjI)
    fix c s
    show "implements R ?t c s r (K c s)" using Cons.prems(1) implements_later [of R now c s r _ ?t] by simp
    have "lk_generation (K c s) + length (dcall # calls) < 10 ^ 14" using Cons.prems(1) by blast
    then show "lk_generation (K c s) + 1 < 10 ^ 14" by simp
  qed
  from step_all [OF assms(1) this r1] obtain K1 where
    K1: "\<forall>c s. implements R ?t c s r1 (K1 c s) \<and> good_step ?t ttl (K c s) (K1 c s) \<and> answer_ok c s (K c s) (K1 c s) (call, out)"
    by blast
  have "\<forall>c s. implements R ?t c s r1 (K1 c s) \<and> lk_generation (K1 c s) + length calls < 10 ^ 14"
  proof (intro allI conjI)
    fix c s
    have "lk_generation (K1 c s) \<le> lk_generation (K c s) + 1" using K1 by (simp add: good_step_def)
    moreover have "lk_generation (K c s) + length (dcall # calls) < 10 ^ 14" using Cons.prems(1) by blast
    ultimately show "lk_generation (K1 c s) + length calls < 10 ^ 14" by simp
  qed (use K1 in blast)
  from Cons.IH [OF this run] obtain K' where le: "?t \<le> now'" and K': "\<forall>c s. implements R now' c s r' (K' c s)
    \<and> good_log c s (K1 c s) log1 (K' c s) \<and> lk_generation (K' c s) \<le> lk_generation (K1 c s) + length calls
    \<and> (ends_by (?t + ttl) (K1 c s) \<longrightarrow> ends_by (now' + ttl) (K' c s))" by blast
  show ?case
  proof (intro conjI exI [of _ K'] allI)
    fix c s
    have step: "good_step ?t ttl (K c s) (K1 c s)" "answer_ok c s (K c s) (K1 c s) (call, out)" using K1 by auto
    show "implements R now' c s r' (K' c s)" using K' by blast
    show "good_log c s (K c s) log (K' c s)" using step K' by (auto simp: log good_step_def)
    have "lk_generation (K' c s) \<le> lk_generation (K1 c s) + length calls" using K' by blast
    with step show "lk_generation (K' c s) \<le> lk_generation (K c s) + length (dcall # calls)" by (simp add: good_step_def)
    show "ends_by (now + ttl) (K c s) \<longrightarrow> ends_by (now' + ttl) (K' c s)"
      using step K' ends_by_later [of "now + ttl" "K c s" "?t + ttl"] by (auto simp: good_step_def)
  qed (use le in simp)
qed

lemma good_log_entry:
  "good_log c s L log L' \<Longrightarrow> j < length log \<Longrightarrow> vouched c s (log ! j) = Some (g, w) \<Longrightarrow>
     lk_generation L \<le> g \<and> (lk_generation L = g \<longrightarrow> held_by w L) \<and> (newly_acquired (log ! j) \<longrightarrow> lk_generation L < g)"
proof (induction log arbitrary: L j)
  case (Cons e log)
  then obtain L1 where L1: "lock_le L L1" "answer_ok c s L L1 e" "good_log c s L1 log L'" by auto
  show ?case
  proof (cases j)
    case 0
    with Cons.prems(3) L1 lock_le_held [OF L1(1), of w] lock_le_generation [OF L1(1)] show ?thesis
      by (auto simp: answer_ok_def)
  next
    case (Suc k)
    with Cons.IH [OF L1(3), of k] Cons.prems(2,3) lock_le_held [OF L1(1), of w] lock_le_generation [OF L1(1)]
    show ?thesis by auto
  qed
qed simp

lemma good_log_pairs:
  "good_log c s L log L' \<Longrightarrow> i < j \<Longrightarrow> j < length log \<Longrightarrow> vouched c s (log ! i) = Some (g, w) \<Longrightarrow>
     vouched c s (log ! j) = Some (g', w') \<Longrightarrow> g \<le> g' \<and> (g = g' \<longrightarrow> w = w') \<and> (newly_acquired (log ! j) \<longrightarrow> g < g')"
proof (induction log arbitrary: L i j)
  case (Cons e log)
  then obtain L1 where L1: "lock_le L L1" "answer_ok c s L L1 e" "good_log c s L1 log L'" by auto
  obtain k where k: "j = Suc k" using Cons.prems(2) by (cases j) auto
  show ?case
  proof (cases i)
    case 0
    with good_log_entry [OF L1(3), of k g' w'] Cons.prems(3-5) L1(2) k show ?thesis
      by (auto simp: answer_ok_def held_by_def)
  next
    case (Suc i')
    with Cons.IH [OF L1(3), of i' k] Cons.prems(2-5) k show ?thesis by simp
  qed
qed simp

text \<open>A Redis without the keys of any session.\<close>

definition fresh :: "'r redis_lib \<Rightarrow> nat \<Rightarrow> 'r \<Rightarrow> bool" where
  "fresh R now r \<longleftrightarrow> (\<forall>t \<ge> now. \<forall>c s. rd_get R t (lease_key R c s) r = None \<and> rd_get R t (generation_key R c s) r = None)"

lemma fresh_implements: "fresh R now r \<Longrightarrow> implements R now c s r \<lparr>lk_generation = 0, lk_holder = None\<rparr>"
  by (simp add: fresh_def implements_def counter_text_def lock_live_def)

lemma run_from_fresh:
  assumes "redis_laws R" and "fresh R now r" and "length calls < 10 ^ 14" and "dir_run R ttl now r calls = (log, now', r')"
  shows "\<exists>L. implements R now' c s r' L \<and> good_log c s \<lparr>lk_generation = 0, lk_holder = None\<rparr> log L
    \<and> lk_generation L \<le> length calls \<and> ends_by (now' + ttl) L"
proof -
  let ?K = "\<lambda>_ _. \<lparr>lk_generation = 0, lk_holder = None\<rparr>"
  have "\<forall>c s. implements R now c s r (?K c s) \<and> lk_generation (?K c s) + length calls < 10 ^ 14"
    using fresh_implements [OF assms(2)] assms(3) by simp
  from run_all [OF assms(1) this assms(4)] obtain K' where "\<forall>c s. implements R now' c s r' (K' c s)
    \<and> good_log c s (?K c s) log (K' c s) \<and> lk_generation (K' c s) \<le> lk_generation (?K c s) + length calls
    \<and> (ends_by (now + ttl) (?K c s) \<longrightarrow> ends_by (now' + ttl) (K' c s))" by blast
  then show ?thesis by (intro exI [of _ "K' c s"]) (auto simp: ends_by_def)
qed

text \<open>
  C3: ownership of a session is fenced. In any history of any number of runtimes, from a
  Redis without sessions, with any delays, faults and lost answers, the answers about one
  session (granted, seen, renewed, or a frame let through) carry generations that never go
  back; one generation always names one owner; and a newly granted lease has a generation
  greater than every one vouched for before. So once a runtime has taken a session over, no
  frame of an earlier owner passes the fence again. (The bound on the number of calls keeps
  the generation within the range Lua prints digit by digit.)
\<close>

theorem ownership_is_fenced:
  assumes "redis_laws R" and "fresh R now r" and "length calls < 10 ^ 14"
    and "dir_run R ttl now r calls = (log, now', r')" and "i < j" and "j < length log"
    and "vouched c s (log ! i) = Some (g, w)" and "vouched c s (log ! j) = Some (g', w')"
  shows "g \<le> g' \<and> (g = g' \<longrightarrow> w = w') \<and> (newly_acquired (log ! j) \<longrightarrow> g < g')"
  using run_from_fresh [OF assms(1-4), of c s] good_log_pairs [OF _ assms(5-8)] by blast

lemma acquire_no_faults:
  assumes "redis_laws R" and "implements R now c s r L" and "lk_generation L + 1 < 10 ^ 14" and "ttl_ms ttl = Inr ttl"
  shows "\<exists>r'. acquire R ttl no_faults now c s owner p r = (Inr (fst (lock_acquire c s now ttl owner p L)), r')
    \<and> implements R now c s r' (snd (lock_acquire c s now ttl owner p L))"
proof -
  have ttl: "0 < ttl" using assms(4) by (simp add: ttl_ms_Inr)
  from acquire_script_refines [OF assms(1-3) ttl, of owner p]
  obtain status g h x r2 where script:
    "acquire_script R now (lease_key R c s) (generation_key R c s) (rt_hex R owner) (as_wire_str p) ttl r
       = Some ((status, lease_text R g h, x), r2)" "0 < g" "g < 10 ^ 14"
    "implements R now c s r2 (snd (lock_acquire c s now ttl owner p L))"
    "(status, fst (lock_acquire c s now ttl owner p L))
        \<in> {(''acquired'', Acquired (lease_of c s g h)), (''exists'', Exists (lease_of c s g h))}" by auto
  have "text_law R" using assms(1) by (simp add: redis_laws_def)
  note parse = parse_lease_text [OF this script(2,3), of c s h]
  have "run_script no_faults (ttl_ms ttl) (\<lambda>ms. acquire_script R now (lease_key R c s) (generation_key R c s)
      (rt_hex R owner) (as_wire_str p) ms) r = (Inr (status, lease_text R g h, x), r2)"
    using run_script_no_faults [of "\<lambda>ms. acquire_script R now (lease_key R c s) (generation_key R c s)
      (rt_hex R owner) (as_wire_str p) ms" ttl r _ r2] script(1) assms(4) by simp
  then show ?thesis using script(4,5) parse by (auto simp: acquire_def no_faults_def)
qed

text \<open>
  A session whose owner is gone is never stuck: after any history, once the time to live
  has passed with no call, the next runtime that asks is granted the session.
\<close>

theorem abandoned_session_recovers:
  assumes "redis_laws R" and "fresh R now r" and "length calls + 1 < 10 ^ 14" and "ttl_ms ttl = Inr ttl"
    and "dir_run R ttl now r calls = (log, now', r')" and "now' + ttl \<le> t"
  shows "\<exists>g. fst (acquire R ttl no_faults t c s owner p r')
    = Inr (Acquired \<lparr>sl_community_id = c, sl_session_id = s, sl_owner_runtime_id = owner, sl_generation = g, sl_profile = p\<rparr>)"
proof -
  from run_from_fresh [OF assms(1,2) _ assms(5), of c s] assms(3) obtain L where
    L: "implements R now' c s r' L" "lk_generation L \<le> length calls" "ends_by (now' + ttl) L" by auto
  have impl: "implements R t c s r' L" using implements_later [OF L(1)] assms(6) by simp
  have "lock_live t L = None" using L(3) assms(6) by (auto simp: lock_live_def ends_by_def split: option.split)
  moreover have "lk_generation L + 1 < 10 ^ 14" using L(2) assms(3) by linarith
  ultimately show ?thesis
    using acquire_no_faults [OF assms(1) impl _ assms(4), of owner p] by (auto simp: lock_acquire_def lease_of_def)
qed

text \<open>
  After any history, a frame passes the fence exactly when a live lease exists whose
  session, generation and owner are those of the frame; a frame of an older generation is
  rejected as stale whether or not a lease is live.
\<close>

theorem fence_check_exact:
  assumes "redis_laws R" and "fresh R now r" and "length calls < 10 ^ 14"
    and "dir_run R ttl now r calls = (log, now', r')"
  shows "(validate_fenced_header R no_faults now' c fenced r' = Inr ()
      \<longleftrightarrow> (\<exists>lease. lookup R no_faults now' c (fh_session_id fenced) r' = Inr (Some lease) \<and> fenced_header lease = fenced))
    \<and> (\<forall>g. known_generation R no_faults now' c (fh_session_id fenced) r' = Inr (Some g) \<and> fh_generation fenced < g
         \<longrightarrow> validate_fenced_header R no_faults now' c fenced r'
             = Inl (StaleGeneration (fh_session_id fenced) (fh_generation fenced) g))"
proof -
  let ?s = "fh_session_id fenced"
  from run_from_fresh [OF assms, of c ?s] obtain L where L: "implements R now' c ?s r' L" by blast
  have tlaw: "text_law R" using assms(1) by (simp add: redis_laws_def)
  have bound: "lk_generation L < 10 ^ 14" using L by (simp add: implements_def)
  note check = validate_refines(2) [OF tlaw L]
  have look: "lookup R no_faults now' c ?s r' = Inr (map_option (lease_of c ?s (lk_generation L)) (lock_live now' L))"
    using implements_get(2) [OF L] lock_live_generation [OF L] bound
    by (cases "lock_live now' L") (auto simp: lookup_def no_faults_def parse_lease_text [OF tlaw])
  have "known_generation R no_faults now' c ?s r' = Inr (known L)"
    using implements_get(1) [OF L] parse_counter [OF bound, of c ?s]
    by (auto simp: known_generation_def no_faults_def known_def counter_text_def or_empty_def)
  then show ?thesis
    unfolding check look
    by (cases fenced; cases "lock_live now' L")
      (auto simp: lock_validate_def Let_def known_def lease_of_def fenced_header_def split: if_splits)
qed

section \<open>A Redis that keeps the laws\<close>

type_synonym demo_state = "(string \<times> string \<times> nat option) list"

definition demo_get :: "nat \<Rightarrow> string \<Rightarrow> demo_state \<Rightarrow> string option" where
  "demo_get t k r = (case map_of r k of
       Some (v, None) \<Rightarrow> Some v
     | Some (v, Some d) \<Rightarrow> if t < d then Some v else None
     | None \<Rightarrow> None)"

definition demo_incr :: "nat \<Rightarrow> string \<Rightarrow> demo_state \<Rightarrow> (nat \<times> demo_state) option" where
  "demo_incr now k r = (case demo_get now k r of
       None \<Rightarrow> Some (1, AList.update k (show_nat 1, None) r)
     | Some v \<Rightarrow> (case parse_u64 v of
          None \<Rightarrow> None
        | Some n \<Rightarrow> Some (n + 1, AList.update k (show_nat (n + 1), snd (the (map_of r k))) r)))"

definition demo_redis :: "demo_state redis_lib" where
  "demo_redis = \<lparr>rd_get = demo_get, rd_incr = demo_incr,
     rd_set_px = (\<lambda>now k v ttl r. AList.update k (v, Some (now + ttl)) r),
     rd_pexpire = (\<lambda>now k ttl r. case demo_get now k r of
        None \<Rightarrow> AList.delete k r | Some v \<Rightarrow> AList.update k (v, Some (now + ttl)) r),
     rd_del = (\<lambda>now k r. AList.delete k r),
     lua_tostring = show_nat, uuid_show = show_nat,
     rt_hex = (\<lambda>w. show_nat (unat w)),
     rt_from_hex = (\<lambda>t. map_option of_nat (parse_unsigned (2 ^ 256 - 1) t))\<rparr>"

lemma demo_get_update [simp]:
  "demo_get t k' (AList.update k (v, d) r) = (if k' = k then case d of None \<Rightarrow> Some v | Some e \<Rightarrow> if t < e then Some v else None
     else demo_get t k' r)"
  by (simp add: demo_get_def store_simps split: option.split)

lemma demo_get_delete [simp]: "demo_get t k' (AList.delete k r) = (if k' = k then None else demo_get t k' r)"
  by (simp add: demo_get_def store_simps)

lemma demo_incr_law: "incr_law demo_redis"
  unfolding incr_law_def
proof (intro allI impI, elim conjE)
  fix now k n r
  assume n: "n + 1 < (2 :: nat) ^ 63" and get: "\<forall>t \<ge> now. rd_get demo_redis t k r = counter_text n"
  show "\<exists>r'. rd_incr demo_redis now k r = Some (n + 1, r')
      \<and> (\<forall>t \<ge> now. \<forall>k'. rd_get demo_redis t k' r' = (if k' = k then Some (show_nat (n + 1)) else rd_get demo_redis t k' r))"
  proof (cases "n = 0")
    case True
    with get show ?thesis by (simp add: demo_redis_def demo_incr_def counter_text_def)
  next
    case False
    then have at: "\<forall>t \<ge> now. demo_get t k r = Some (show_nat n)" using get by (simp add: demo_redis_def counter_text_def)
    have "snd (the (map_of r k)) = None"
    proof (cases "map_of r k")
      case None
      with at show ?thesis by (auto simp: demo_get_def)
    next
      case (Some vd)
      obtain v d where vd: "vd = (v, d)" by fastforce
      show ?thesis
      proof (cases d)
        case (Some e)
        then show ?thesis using at [rule_format, of "max now e"] \<open>map_of r k = Some vd\<close> by (simp add: demo_get_def vd)
      qed (simp add: \<open>map_of r k = Some vd\<close> vd)
    qed
    moreover have "parse_u64 (show_nat n) = Some n" using n by (intro parse_show_nat) simp
    ultimately show ?thesis using at by (simp add: demo_redis_def demo_incr_def)
  qed
qed

lemma demo_redis_laws: "redis_laws demo_redis"
proof -
  have "set_law demo_redis" "del_law demo_redis" by (simp_all add: set_law_def del_law_def demo_redis_def)
  moreover have "expire_law demo_redis"
    by (auto simp: expire_law_def demo_redis_def split: option.split)
  moreover have "tostring_law demo_redis" by (simp add: tostring_law_def demo_redis_def)
  moreover have "text_law demo_redis"
  proof -
    have "rt_from_hex demo_redis (rt_hex demo_redis w) = Some w" for w
    proof -
      have "int (unat w) \<le> 2 ^ 256 - 1" using uint_lt2p [of w] by simp
      from parse_show_nat [OF this] show ?thesis by (simp add: demo_redis_def)
    qed
    moreover have "c \<notin> set (show_nat n)" if "\<not> is_ascii_digit c" for c n using that show_nat_digits by blast
    ultimately show ?thesis
      by (simp add: text_law_def demo_redis_def inj_def show_nat_inj is_ascii_digit_def byte_def)
  qed
  ultimately show ?thesis using demo_incr_law by (simp add: redis_laws_def)
qed

lemma demo_fresh: "fresh demo_redis now []"
  by (simp add: fresh_def demo_redis_def demo_get_def)

definition demo_calls :: "(nat \<times> dir_call) list" where
  "demo_calls = [(0, CallAcquire no_faults 1 2 7 ReliableStream), (40000, CallTakeover no_faults 1 2 9 ReliableStream)]"

lemma demo_history:
  "\<exists>log r. dir_run demo_redis 30000 0 [] demo_calls = (log, 40000, r) \<and> length log = 2
     \<and> vouched 1 2 (log ! 0) = Some (1, 7) \<and> vouched 1 2 (log ! 1) = Some (2, 9)
     \<and> implements demo_redis 40000 1 2 r \<lparr>lk_generation = 2, lk_holder = Some (9, ReliableStream, 70000)\<rparr>"
proof -
  have ttl: "ttl_ms 30000 = Inr 30000" by (simp add: ttl_ms_def)
  note grant = acquire_no_faults [OF demo_redis_laws _ _ ttl]
  obtain r1 where r1: "acquire demo_redis 30000 no_faults 0 1 2 7 ReliableStream [] = (Inr (Acquired (lease_of 1 2 1 (7, ReliableStream))), r1)"
    "implements demo_redis 0 1 2 r1 \<lparr>lk_generation = 1, lk_holder = Some (7, ReliableStream, 30000)\<rparr>"
    using grant [OF fresh_implements [OF demo_fresh], of 0 1 2 7 ReliableStream] by (auto simp: lock_acquire_def lock_live_def)
  obtain r2 where "acquire demo_redis 30000 no_faults 40000 1 2 9 ReliableStream r1
      = (Inr (Acquired (lease_of 1 2 2 (9, ReliableStream))), r2)"
    "implements demo_redis 40000 1 2 r2 \<lparr>lk_generation = 2, lk_holder = Some (9, ReliableStream, 70000)\<rparr>"
    using grant [OF implements_later [OF r1(2), of 40000], of 9 ReliableStream] by (auto simp: lock_acquire_def lock_live_def numeral_2_eq_2)
  with r1(1) show ?thesis
    by (simp add: demo_calls_def takeover_def of_session_def lease_of_def)
qed

lemma ownership_is_fenced_witness:
  "\<exists>log now' r'. dir_run demo_redis 30000 0 [] demo_calls = (log, now', r') \<and> vouched 1 2 (log ! 0) = Some (1, 7)
    \<and> vouched 1 2 (log ! 1) = Some (2, 9) \<and> (1 :: nat) \<le> 2"
proof -
  obtain log r where run: "dir_run demo_redis 30000 0 [] demo_calls = (log, 40000, r)" and len: "length log = 2"
    and at: "vouched 1 2 (log ! 0) = Some (1, 7)" "vouched 1 2 (log ! 1) = Some (2, 9)"
    using demo_history by blast
  have "(1 :: nat) \<le> 2"
    using ownership_is_fenced [OF demo_redis_laws demo_fresh _ run _ _ at] len by (simp add: demo_calls_def)
  with run at show ?thesis by blast
qed

lemma abandoned_session_recovers_witness:
  "\<exists>r' g. snd (dir_run demo_redis 30000 0 [] demo_calls) = (40000, r')
    \<and> fst (acquire demo_redis 30000 no_faults 70000 1 2 5 HuddleControl r')
      = Inr (Acquired \<lparr>sl_community_id = 1, sl_session_id = 2, sl_owner_runtime_id = 5, sl_generation = g, sl_profile = HuddleControl\<rparr>)"
proof -
  obtain log r where run: "dir_run demo_redis 30000 0 [] demo_calls = (log, 40000, r)" using demo_history by blast
  have "ttl_ms 30000 = Inr 30000" by (simp add: ttl_ms_def)
  from abandoned_session_recovers [OF demo_redis_laws demo_fresh _ this run, of 70000 1 2 5 HuddleControl] run
  show ?thesis by (simp add: demo_calls_def)
qed

lemma fence_check_exact_witness:
  "\<exists>r'. snd (dir_run demo_redis 30000 0 [] demo_calls) = (40000, r')
    \<and> (validate_fenced_header demo_redis no_faults 40000 1
          \<lparr>fh_session_id = 2, fh_generation = 1, fh_owner_runtime_id = 7\<rparr> r' = Inr ()
        \<longleftrightarrow> (\<exists>lease. lookup demo_redis no_faults 40000 1 2 r' = Inr (Some lease)
              \<and> fenced_header lease = \<lparr>fh_session_id = 2, fh_generation = 1, fh_owner_runtime_id = 7\<rparr>))"
proof -
  obtain log r where run: "dir_run demo_redis 30000 0 [] demo_calls = (log, 40000, r)" using demo_history by blast
  have "length demo_calls < 10 ^ 14" by (simp add: demo_calls_def)
  from fence_check_exact [OF demo_redis_laws demo_fresh this run, of 1
      "\<lparr>fh_session_id = 2, fh_generation = 1, fh_owner_runtime_id = 7\<rparr>"] run
  show ?thesis by simp
qed

end
