(* ===== verification/Reliable_Tunnel.thy ===== *)
theory Reliable_Tunnel
  imports Session_Runs
begin

text \<open>
  Reliable tunnel streams between relay runtimes, \<open>buzz-relay/src/tunnel/reliable.rs\<close>: the
  decision who owns a session, the frames that carry its bytes, the check every received
  frame passes, and the task that keeps a lease alive. The bytes of a UUID, the mesh
  transport and the faults of the directory are parameters.
\<close>

section \<open>Wire frames\<close>

record uuid_codec =
  uc_bytes :: "uuid \<Rightarrow> string"
  uc_from_bytes :: "string \<Rightarrow> uuid"

definition MAX_RELIABLE_PAYLOAD_BYTES :: nat where
  "MAX_RELIABLE_PAYLOAD_BYTES = 1024 * 1024"

datatype ReliableStreamError =
    Directory DirectoryError
  | Mesh MeshError
  | ProfileMismatch uuid Profile Profile
  | SenderMismatch runtime_id runtime_id
  | UnexpectedStreamRole
  | OwnerIsNotLocal uuid runtime_id runtime_id
  | UnexpectedFrame string
  | FrameFenceMismatch FencedHeader FencedHeader
  | CommunityMismatch community_id community_id
  | MalformedReliableFrame string

datatype ReliableWireFrame =
    WireData (wf_community_id: community_id) string
  | WireGoodbye (wf_community_id: community_id) GoodbyeReason

definition VERSION :: nat where
  "VERSION = 1"

definition DATA :: nat where
  "DATA = 1"

definition GOODBYE :: nat where
  "GOODBYE = 2"

fun to_wire_byte :: "GoodbyeReason \<Rightarrow> nat" where
  "to_wire_byte SessionEnded = 1"
| "to_wire_byte Draining = 2"
| "to_wire_byte StaleGenerationReason = 3"

definition from_wire_byte :: "nat \<Rightarrow> ReliableStreamError + GoodbyeReason" where
  "from_wire_byte b =
     (if b = 1 then Inr SessionEnded
      else if b = 2 then Inr Draining
      else if b = 3 then Inr StaleGenerationReason
      else Inl (MalformedReliableFrame ''unknown goodbye reason''))"

fun wire_encode :: "uuid_codec \<Rightarrow> ReliableWireFrame \<Rightarrow> string" where
  "wire_encode U (WireData community_id payload) =
     [char_of VERSION, char_of DATA] @ uc_bytes U community_id @ payload"
| "wire_encode U (WireGoodbye community_id reason) =
     [char_of VERSION, char_of GOODBYE] @ uc_bytes U community_id @ [char_of (to_wire_byte reason)]"

definition wire_decode :: "uuid_codec \<Rightarrow> string \<Rightarrow> ReliableStreamError + ReliableWireFrame" where
  "wire_decode U bytes =
     (if length bytes < 18 then Inl (MalformedReliableFrame ''too short'')
      else if byte (bytes ! 0) \<noteq> VERSION then Inl (MalformedReliableFrame ''unknown version'')
      else
        (let community_id = uc_from_bytes U (take 16 (drop 2 bytes))
         in if byte (bytes ! 1) = DATA then Inr (WireData community_id (drop 18 bytes))
            else if byte (bytes ! 1) = GOODBYE then
              (if length bytes \<noteq> 19 then Inl (MalformedReliableFrame ''bad goodbye length'')
               else map_ok (WireGoodbye community_id) (from_wire_byte (byte (bytes ! 18))))
            else Inl (MalformedReliableFrame ''unknown kind'')))"

section \<open>Streams\<close>

text \<open>
  A stream pinned to one fence. What was sent on it is kept; what is still to be received is
  a list, an error in it being a read that fails; its end is the end of the stream.
\<close>

record ReliableMeshStream =
  rs_fenced :: FencedHeader
  rs_community_id :: "community_id option"
  rs_sent :: "MeshStreamFrame list"
  rs_incoming :: "(MeshError + MeshStreamFrame) list"
  rs_finished :: bool

datatype ReliableFrame = FrameData string | FrameGoodbye GoodbyeReason

definition stream_new :: "FencedHeader \<Rightarrow> (MeshError + MeshStreamFrame) list \<Rightarrow> ReliableMeshStream" where
  "stream_new fenced incoming = \<lparr>rs_fenced = fenced, rs_community_id = None, rs_sent = [], rs_incoming = incoming,
     rs_finished = False\<rparr>"

definition with_community :: "community_id \<Rightarrow> ReliableMeshStream \<Rightarrow> ReliableMeshStream" where
  "with_community community_id st = st\<lparr>rs_community_id := Some community_id\<rparr>"

definition ensure_outbound_community ::
  "community_id \<Rightarrow> ReliableMeshStream \<Rightarrow> (ReliableStreamError + unit) \<times> ReliableMeshStream" where
  "ensure_outbound_community community_id st = (case rs_community_id st of
       Some expected \<Rightarrow> (if expected \<noteq> community_id then Inl (CommunityMismatch expected community_id) else Inr (), st)
     | None \<Rightarrow> (Inr (), st\<lparr>rs_community_id := Some community_id\<rparr>))"

text \<open>The transport: given what it sent so far, whether it fails on the next frame.\<close>

type_synonym transport = "MeshStreamFrame list \<Rightarrow> MeshStreamFrame \<Rightarrow> MeshError option"

definition send_mesh_frame ::
  "transport \<Rightarrow> MeshStreamFrame \<Rightarrow> ReliableMeshStream \<Rightarrow> (ReliableStreamError + unit) \<times> ReliableMeshStream" where
  "send_mesh_frame T frame st = (case T (rs_sent st) frame of
       Some e \<Rightarrow> (Inl (Mesh e), st)
     | None \<Rightarrow> (Inr (), st\<lparr>rs_sent := rs_sent st @ [frame]\<rparr>))"

function chunks :: "nat \<Rightarrow> 'a list \<Rightarrow> 'a list list" where
  "chunks n xs = (if xs = [] \<or> n = 0 then [] else take n xs # chunks n (drop n xs))"
  by pat_completeness auto

termination
  by (relation "measure (\<lambda>(n, xs). length xs)") auto

declare chunks.simps [simp del]

fun send_chunks ::
  "uuid_codec \<Rightarrow> transport \<Rightarrow> community_id \<Rightarrow> string list \<Rightarrow> ReliableMeshStream
   \<Rightarrow> (ReliableStreamError + unit) \<times> ReliableMeshStream" where
  "send_chunks U T community_id [] st = (Inr (), st)"
| "send_chunks U T community_id (chunk # rest) st =
     (case send_mesh_frame T (Data (rs_fenced st) (wire_encode U (WireData community_id chunk))) st of
        (Inl e, st1) \<Rightarrow> (Inl e, st1)
      | (Inr _, st1) \<Rightarrow> send_chunks U T community_id rest st1)"

definition send_bytes ::
  "uuid_codec \<Rightarrow> transport \<Rightarrow> community_id \<Rightarrow> string \<Rightarrow> ReliableMeshStream
   \<Rightarrow> (ReliableStreamError + unit) \<times> ReliableMeshStream" where
  "send_bytes U T community_id bytes st =
     (case ensure_outbound_community community_id st of
        (Inl e, st1) \<Rightarrow> (Inl e, st1)
      | (Inr _, st1) \<Rightarrow> send_chunks U T community_id (chunks MAX_RELIABLE_PAYLOAD_BYTES bytes) st1)"

definition stream_finish :: "MeshError option \<Rightarrow> ReliableMeshStream \<Rightarrow> (ReliableStreamError + unit) \<times> ReliableMeshStream" where
  "stream_finish fault st = (case fault of
       Some e \<Rightarrow> (Inl (Mesh e), st) | None \<Rightarrow> (Inr (), st\<lparr>rs_finished := True\<rparr>))"

definition send_goodbye ::
  "uuid_codec \<Rightarrow> transport \<Rightarrow> MeshError option \<Rightarrow> community_id \<Rightarrow> GoodbyeReason \<Rightarrow> ReliableMeshStream
   \<Rightarrow> (ReliableStreamError + unit) \<times> ReliableMeshStream" where
  "send_goodbye U T fault community_id reason st =
     (case ensure_outbound_community community_id st of
        (Inl e, st1) \<Rightarrow> (Inl e, st1)
      | (Inr _, st1) \<Rightarrow>
         (case send_mesh_frame T (Data (rs_fenced st1) (wire_encode U (WireGoodbye community_id reason))) st1 of
            (Inl e, st2) \<Rightarrow> (Inl e, st2)
          | (Inr _, st2) \<Rightarrow> stream_finish fault st2))"

section \<open>Receiving\<close>

definition validate_frame_fence ::
  "'r redis_lib \<Rightarrow> faults \<Rightarrow> nat \<Rightarrow> 'r \<Rightarrow> community_id \<Rightarrow> FencedHeader \<Rightarrow> ReliableMeshStream
   \<Rightarrow> (ReliableStreamError + unit) \<times> ReliableMeshStream" where
  "validate_frame_fence R f now r community_id fenced st =
     (if fenced \<noteq> rs_fenced st then (Inl (FrameFenceMismatch (rs_fenced st) fenced), st)
      else if (case rs_community_id st of Some expected \<Rightarrow> expected \<noteq> community_id | None \<Rightarrow> False)
      then (Inl (CommunityMismatch (the (rs_community_id st)) community_id), st)
      else (case validate_fenced_header R f now community_id fenced r of
          Inl e \<Rightarrow> (Inl (Mesh e), st)
        | Inr _ \<Rightarrow>
           (Inr (), if rs_community_id st = None then st\<lparr>rs_community_id := Some community_id\<rparr> else st)))"

fun reliable_frame :: "ReliableWireFrame \<Rightarrow> ReliableFrame" where
  "reliable_frame (WireData _ payload) = FrameData payload"
| "reliable_frame (WireGoodbye _ reason) = FrameGoodbye reason"

definition recv_validated ::
  "uuid_codec \<Rightarrow> 'r redis_lib \<Rightarrow> faults \<Rightarrow> nat \<Rightarrow> 'r \<Rightarrow> ReliableMeshStream
   \<Rightarrow> (ReliableStreamError + ReliableFrame option) \<times> ReliableMeshStream" where
  "recv_validated U R f now r st = (case rs_incoming st of
       [] \<Rightarrow> (Inr None, st)
     | Inl e # rest \<Rightarrow> (Inl (Mesh e), st\<lparr>rs_incoming := rest\<rparr>)
     | Inr frame # rest \<Rightarrow>
        (let st1 = st\<lparr>rs_incoming := rest\<rparr>
         in case frame of
            Data fenced payload \<Rightarrow>
              (case wire_decode U payload of
                 Inl e \<Rightarrow> (Inl e, st1)
               | Inr wire \<Rightarrow>
                  (case validate_frame_fence R f now r (wf_community_id wire) fenced st1 of
                     (Inl e, st2) \<Rightarrow> (Inl e, st2)
                   | (Inr _, st2) \<Rightarrow> (Inr (Some (reliable_frame wire)), st2)))
          | Goodbye _ _ \<Rightarrow> (Inl (UnexpectedFrame ''goodbye''), st1)
          | Hello _ \<Rightarrow> (Inl (UnexpectedFrame ''hello''), st1)
          | Gossip _ \<Rightarrow> (Inl (UnexpectedFrame ''gossip''), st1)))"

section \<open>Joining\<close>

datatype ReliableJoin = Owned SessionLease | Forwarded SessionLease ReliableMeshStream

text \<open>\<open>connect\<close>: the outcome of opening a stream to a runtime with a hello.\<close>

definition join ::
  "'r redis_lib \<Rightarrow> nat \<Rightarrow> faults \<Rightarrow> nat \<Rightarrow> (runtime_id \<Rightarrow> StreamHello \<Rightarrow> MeshError + (MeshError + MeshStreamFrame) list)
   \<Rightarrow> runtime_id \<Rightarrow> community_id \<Rightarrow> uuid \<Rightarrow> 'r \<Rightarrow> (ReliableStreamError + ReliableJoin) \<times> 'r" where
  "join R ttl f now connect local_runtime_id community_id session_id r =
     (case acquire R ttl f now community_id session_id local_runtime_id ReliableStream r of
        (Inl e, r1) \<Rightarrow> (Inl (Directory e), r1)
      | (Inr (Acquired lease), r1) \<Rightarrow> (Inr (Owned lease), r1)
      | (Inr (Exists lease), r1) \<Rightarrow>
         (if sl_profile lease \<noteq> ReliableStream
          then (Inl (ProfileMismatch session_id ReliableStream (sl_profile lease)), r1)
          else if sl_owner_runtime_id lease = local_runtime_id then (Inr (Owned lease), r1)
          else
            (let fenced = fenced_header lease;
                 hello = \<lparr>sh_sender = local_runtime_id, sh_role = Session fenced ReliableStream\<rparr>
             in (case connect (sl_owner_runtime_id lease) hello of
                   Inl e \<Rightarrow> Inl (Mesh e)
                 | Inr incoming \<Rightarrow> Inr (Forwarded lease (stream_new fenced incoming)), r1))))"

record ReliableInbound =
  ri_fenced :: FencedHeader
  ri_from :: runtime_id
  ri_stream :: ReliableMeshStream

definition accept_inbound ::
  "runtime_id \<Rightarrow> runtime_id \<Rightarrow> StreamHello \<Rightarrow> (MeshError + MeshStreamFrame) list \<Rightarrow> ReliableStreamError + ReliableInbound" where
  "accept_inbound local_runtime_id peer hello incoming =
     (if sh_sender hello \<noteq> peer then Inl (SenderMismatch peer (sh_sender hello))
      else (case sh_role hello of
          Control \<Rightarrow> Inl UnexpectedStreamRole
        | Session fenced profile \<Rightarrow>
            if profile \<noteq> ReliableStream then Inl (ProfileMismatch (fh_session_id fenced) ReliableStream profile)
            else if fh_owner_runtime_id fenced \<noteq> local_runtime_id
            then Inl (OwnerIsNotLocal (fh_session_id fenced) (fh_owner_runtime_id fenced) local_runtime_id)
            else Inr \<lparr>ri_fenced = fenced, ri_from = peer, ri_stream = stream_new fenced incoming\<rparr>))"

section \<open>Keeping a lease\<close>

text \<open>What wakes the renewer: the caller cancels, or the interval ticks.\<close>

datatype wake = Cancelled | Tick nat faults

text \<open>
  The loop: whether the caller ended it, whether the loss signal was raised, and Redis after
  it. A list that ends without either is a loop still waiting.
\<close>

fun renew_loop ::
  "'r redis_lib \<Rightarrow> nat \<Rightarrow> SessionLease \<Rightarrow> wake list \<Rightarrow> 'r \<Rightarrow> (bool \<times> bool) option \<times> 'r" where
  "renew_loop R ttl lease [] r = (None, r)"
| "renew_loop R ttl lease (Cancelled # ws) r = (Some (True, False), r)"
| "renew_loop R ttl lease (Tick now f # ws) r =
     (case renew R ttl f now lease r of
        (Inr (Renewed _), r1) \<Rightarrow> renew_loop R ttl lease ws r1
      | (Inr (Lost _ _), r1) \<Rightarrow> (Some (False, True), r1)
      | (Inl _, r1) \<Rightarrow> (Some (False, True), r1))"

text \<open>After the loop the lease is released; the second argument pair is its instant and faults.\<close>

definition lease_renewer ::
  "'r redis_lib \<Rightarrow> nat \<Rightarrow> SessionLease \<Rightarrow> wake list \<Rightarrow> nat \<Rightarrow> faults \<Rightarrow> 'r \<Rightarrow> bool option \<times> 'r" where
  "lease_renewer R ttl lease ws now f r =
     (case renew_loop R ttl lease ws r of
        (None, r1) \<Rightarrow> (None, r1)
      | (Some (caller_cancelled, lost), r1) \<Rightarrow>
         (case release R f now lease r1 of
            (Inr (Released _), r2) \<Rightarrow> (Some lost, r2)
          | (Inr (NotOwner _ _), r2) \<Rightarrow> (Some True, r2)
          | (Inl _, r2) \<Rightarrow> (Some (if caller_cancelled then lost else True), r2)))"

section \<open>Frames come back\<close>

text \<open>A UUID has 128 bits; it is read back from its 16 bytes.\<close>

definition codec_law :: "uuid_codec \<Rightarrow> bool" where
  "codec_law U \<longleftrightarrow> (\<forall>u < 2 ^ 128. length (uc_bytes U u) = 16 \<and> uc_from_bytes U (uc_bytes U u) = u)"

lemma wire_byte_back: "from_wire_byte (byte (char_of (to_wire_byte reason))) = Inr reason"
  by (cases reason) (simp_all add: from_wire_byte_def byte_char_of)

lemma wire_back:
  assumes "codec_law U" and "wf_community_id w < 2 ^ 128"
  shows "wire_decode U (wire_encode U w) = Inr w"
proof -
  have c: "length (uc_bytes U (wf_community_id w)) = 16" "uc_from_bytes U (uc_bytes U (wf_community_id w)) = wf_community_id w"
    using assms by (simp_all add: codec_law_def)
  show ?thesis
  proof (cases w)
    case (WireData u payload)
    with c show ?thesis by (simp add: wire_decode_def VERSION_def DATA_def byte_char_of)
  next
    case (WireGoodbye u reason)
    with c wire_byte_back [of reason] show ?thesis
      by (simp add: wire_decode_def VERSION_def DATA_def GOODBYE_def byte_char_of nth_append)
  qed
qed

lemma concat_chunks: "0 < n \<Longrightarrow> concat (chunks n xs) = xs"
  by (induction n xs rule: chunks.induct) (subst chunks.simps; simp)

lemma chunk_lengths: "0 < n \<Longrightarrow> x \<in> set (chunks n xs) \<Longrightarrow> 0 < length x \<and> length x \<le> n"
proof (induction n xs rule: chunks.induct)
  case (1 n xs)
  from 1(2,3) have "xs \<noteq> []" by (subst (asm) chunks.simps) (auto split: if_splits)
  moreover from this 1(2,3) have "x = take n xs \<or> x \<in> set (chunks n (drop n xs))" by (subst (asm) chunks.simps) auto
  ultimately show ?case using 1 by auto
qed

text \<open>Everything that is received until a read fails or the stream ends.\<close>

fun recv_times ::
  "nat \<Rightarrow> uuid_codec \<Rightarrow> 'r redis_lib \<Rightarrow> faults \<Rightarrow> nat \<Rightarrow> 'r \<Rightarrow> ReliableMeshStream \<Rightarrow> ReliableFrame list \<times> ReliableMeshStream" where
  "recv_times 0 U R f now r st = ([], st)"
| "recv_times (Suc n) U R f now r st = (case recv_validated U R f now r st of
       (Inr (Some frame), st1) \<Rightarrow> (case recv_times n U R f now r st1 of (fs, st2) \<Rightarrow> (frame # fs, st2))
     | (_, st1) \<Rightarrow> ([], st1))"

lemma send_chunks_sent:
  "send_chunks U T c cs st = (Inr u, st') \<Longrightarrow>
     rs_sent st' = rs_sent st @ map (\<lambda>chunk. Data (rs_fenced st) (wire_encode U (WireData c chunk))) cs"
proof (induction cs arbitrary: st)
  case (Cons chunk cs)
  let ?frame = "Data (rs_fenced st) (wire_encode U (WireData c chunk))"
  from Cons.prems have "T (rs_sent st) ?frame = None"
    and rest: "send_chunks U T c cs (st\<lparr>rs_sent := rs_sent st @ [?frame]\<rparr>) = (Inr u, st')"
    by (auto simp: send_mesh_frame_def split: option.splits)
  from Cons.IH [OF rest] show ?case by simp
qed simp

lemma recv_data:
  assumes "codec_law U" and "c < 2 ^ 128" and "rs_incoming st = Inr (Data fenced (wire_encode U (WireData c chunk))) # rest"
    and "rs_fenced st = fenced" and "rs_community_id st \<in> {None, Some c}"
    and "validate_fenced_header R f now c fenced r = Inr ()"
  shows "recv_validated U R f now r st
    = (Inr (Some (FrameData chunk)), st\<lparr>rs_incoming := rest, rs_community_id := Some c\<rparr>)"
  using assms wire_back [OF assms(1), of "WireData c chunk"]
  by (cases st) (auto simp: recv_validated_def validate_frame_fence_def simp del: wire_encode.simps)

lemma recv_all_data:
  assumes "codec_law U" and "c < 2 ^ 128" and "validate_fenced_header R f now c fenced r = Inr ()"
  shows "rs_incoming st = map (\<lambda>chunk. Inr (Data fenced (wire_encode U (WireData c chunk)))) cs \<Longrightarrow>
    rs_fenced st = fenced \<Longrightarrow> rs_community_id st \<in> {None, Some c} \<Longrightarrow>
    fst (recv_times (length cs) U R f now r st) = map FrameData cs"
proof (induction cs arbitrary: st)
  case (Cons chunk cs)
  let ?st = "st\<lparr>rs_incoming := map (\<lambda>chunk. Inr (Data fenced (wire_encode U (WireData c chunk)))) cs, rs_community_id := Some c\<rparr>"
  have "recv_validated U R f now r st = (Inr (Some (FrameData chunk)), ?st)"
    using recv_data [OF assms(1,2) _ Cons.prems(2,3) assms(3)] Cons.prems(1) by simp
  with Cons.IH [of ?st] Cons.prems(2) show ?case by (simp add: case_prod_unfold)
qed simp

text \<open>
  Bytes sent over a reliable stream arrive whole and in order: however they are cut into
  frames of at most one MiB, as long as the fence lets the stream's frames through, the
  receiver at the other end gets chunks that put together are the bytes sent.
\<close>

theorem bytes_arrive_in_order:
  assumes "codec_law U" and "c < 2 ^ 128" and "rs_sent st = []"
    and "send_bytes U T c bytes st = (Inr u, st')"
    and "rs_incoming peer = map Inr (rs_sent st')" and "rs_fenced peer = rs_fenced st" and "rs_community_id peer \<in> {None, Some c}"
    and "validate_fenced_header R f now c (rs_fenced st) r = Inr ()"
  shows "\<exists>cs. fst (recv_times (length (rs_sent st')) U R f now r peer) = map FrameData cs
    \<and> concat cs = bytes \<and> (\<forall>chunk \<in> set cs. 0 < length chunk \<and> length chunk \<le> MAX_RELIABLE_PAYLOAD_BYTES)"
proof -
  let ?cs = "chunks MAX_RELIABLE_PAYLOAD_BYTES bytes"
  obtain st1 where "ensure_outbound_community c st = (Inr (), st1)" and sent: "send_chunks U T c ?cs st1 = (Inr u, st')"
    using assms(4) by (auto simp: send_bytes_def split: sum.splits prod.splits)
  then have st1: "rs_sent st1 = []" "rs_fenced st1 = rs_fenced st"
    using assms(3) by (auto simp: ensure_outbound_community_def split: option.splits if_splits)
  have out: "rs_sent st' = map (\<lambda>chunk. Data (rs_fenced st) (wire_encode U (WireData c chunk))) ?cs"
    using send_chunks_sent [OF sent] by (simp add: st1)
  then have incoming: "rs_incoming peer = map (\<lambda>chunk. Inr (Data (rs_fenced st) (wire_encode U (WireData c chunk)))) ?cs"
    using assms(5) by simp
  have "fst (recv_times (length (rs_sent st')) U R f now r peer) = map FrameData ?cs"
    using recv_all_data [OF assms(1,2,8) incoming assms(6,7)] out by simp
  moreover have "0 < MAX_RELIABLE_PAYLOAD_BYTES" by (simp add: MAX_RELIABLE_PAYLOAD_BYTES_def)
  ultimately show ?thesis using concat_chunks chunk_lengths by blast
qed

section \<open>A superseded owner is cut off\<close>

lemma good_log_final:
  "good_log c s L log L' \<Longrightarrow> lk_generation L \<le> lk_generation L'"
  "good_log c s L log L' \<Longrightarrow> i < length log \<Longrightarrow> vouched c s (log ! i) = Some (g, w) \<Longrightarrow> g \<le> lk_generation L'"
proof (induction log arbitrary: L i)
  case (Cons e log)
  { case 1 then show ?case using Cons.IH(1) lock_le_generation by fastforce }
  { case 2
    then obtain L1 where "answer_ok c s L L1 e" "good_log c s L1 log L'" by auto
    with 2(2,3) Cons.IH(1) [of L1] Cons.IH(2) [of L1 "i - 1"] show ?case
      by (cases i) (auto simp: answer_ok_def) }
qed auto

text \<open>
  C33: a runtime that lost a session is cut off: once any answer of the directory has named a
  newer generation of the session, a stream pinned to an older one never delivers anything
  again, at any later time, whatever frames its peer still sends.
\<close>

theorem superseded_stream_delivers_nothing:
  assumes "redis_laws R" and "fresh R now r" and "length calls < 10 ^ 14"
    and "dir_run R ttl now r calls = (log, now', r')" and "i < length log"
    and "vouched c (fh_session_id (rs_fenced st)) (log ! i) = Some (g, w)"
    and "fh_generation (rs_fenced st) < g" and "rs_community_id st = Some c" and "now' \<le> t"
  shows "fst (recv_validated U R f t r' st) \<noteq> Inr (Some frame)"
proof
  let ?s = "fh_session_id (rs_fenced st)"
  assume "fst (recv_validated U R f t r' st) = Inr (Some frame)"
  then have "validate_fenced_header R f t c (rs_fenced st) r' = Inr ()"
    using assms(8) by (auto simp: recv_validated_def validate_frame_fence_def Let_def
        split: list.splits sum.splits MeshStreamFrame.splits if_splits prod.splits)
  moreover from run_from_fresh [OF assms(1-4), of c ?s] obtain L where L: "implements R now' c ?s r' L"
    and log: "good_log c ?s \<lparr>lk_generation = 0, lk_holder = None\<rparr> log L" by blast
  moreover have "text_law R" using assms(1) by (simp add: redis_laws_def)
  ultimately have "lock_validate t (rs_fenced st) L = Inr ()"
    using validate_refines(1) [OF _ implements_later [OF L assms(9)]] by blast
  moreover have "g \<le> lk_generation L" using good_log_final(2) [OF log assms(5,6)] .
  ultimately show False using assms(7) by (auto simp: lock_validate_def Let_def split: if_splits)
qed

section \<open>A lease that is renewed is kept\<close>

text \<open>Ticks in order, each before the lease renewed by the one before it ends.\<close>

fun in_time :: "nat \<Rightarrow> nat \<Rightarrow> nat list \<Rightarrow> bool" where
  "in_time ttl now [] \<longleftrightarrow> True"
| "in_time ttl now (t # ts) \<longleftrightarrow> now \<le> t \<and> t < now + ttl \<and> in_time ttl t ts"

lemma renew_no_faults:
  assumes "redis_laws R" and "implements R now c s r L" and "owns now lease L" and "ttl_ms ttl = Inr ttl"
    and "c = sl_community_id lease" and "s = sl_session_id lease"
  shows "\<exists>l r'. renew R ttl no_faults now lease r = (Inr (Renewed l), r')
    \<and> implements R now c s r' (snd (lock_renew now ttl lease L))"
proof -
  have tlaw: "text_law R" using assms(1) by (simp add: redis_laws_def)
  let ?script = "\<lambda>ms. renew_script R now (lease_key R c s) (generation_key R c s)
    (rt_hex R (sl_owner_runtime_id lease)) (show_nat (sl_generation lease)) ms"
  obtain reply r' where script: "?script ttl r = Some (reply, r')"
    by (cases "?script ttl r") (auto simp: renew_script_def Let_def split: option.splits if_splits)
  have run: "run_script no_faults (ttl_ms ttl) ?script r = (Inr reply, r')"
    using run_script_no_faults [of ?script, OF script] assms(4) by simp
  from holder_script_refines [OF tlaw assms(5,6,2) script [unfolded renew_holder]] assms(3)
  obtain val x l where "reply = (''renewed'', val, x)" "parse_optional_lease R c s val = Inr (Some l)" by auto
  with run have out: "renew R ttl no_faults now lease r = (Inr (Renewed l), r')"
    using assms(5,6) by (simp add: renew_def Let_def no_faults_def)
  have "performs R now c s L (lock_renew now ttl lease L) (renew R ttl no_faults now lease r)"
    using renew_performs [OF assms(1)] assms(2,5,6) by simp
  with out have "implements R now c s r' (snd (lock_renew now ttl lease L))" by (auto simp: performs_def)
  with out show ?thesis by blast
qed

lemma renew_loop_holds:
  assumes "redis_laws R" and "ttl_ms ttl = Inr ttl"
  shows "implements R now (sl_community_id lease) (sl_session_id lease) r L \<Longrightarrow>
    lk_generation L = sl_generation lease \<Longrightarrow> lk_holder L = Some (sl_owner_runtime_id lease, sl_profile lease, now + ttl) \<Longrightarrow>
    in_time ttl now ts \<Longrightarrow>
    \<exists>r'. renew_loop R ttl lease (map (\<lambda>t. Tick t no_faults) ts) r = (None, r')
      \<and> implements R (last (now # ts)) (sl_community_id lease) (sl_session_id lease) r'
          \<lparr>lk_generation = sl_generation lease,
           lk_holder = Some (sl_owner_runtime_id lease, sl_profile lease, last (now # ts) + ttl)\<rparr>"
proof (induction ts arbitrary: now r L)
  case Nil
  then have "L = \<lparr>lk_generation = sl_generation lease, lk_holder = Some (sl_owner_runtime_id lease, sl_profile lease, now + ttl)\<rparr>"
    by (cases L) simp
  with Nil show ?case by simp
next
  case (Cons t ts)
  let ?c = "sl_community_id lease" and ?s = "sl_session_id lease"
  have impl: "implements R t ?c ?s r L" using implements_later [OF Cons.prems(1)] Cons.prems(4) by simp
  have owns: "owns t lease L" using Cons.prems(2-4) by (simp add: owns_def lock_live_def)
  from renew_no_faults [OF assms(1) impl owns assms(2) refl refl] obtain l r1 where
    r1: "renew R ttl no_faults t lease r = (Inr (Renewed l), r1)"
    "implements R t ?c ?s r1 (snd (lock_renew t ttl lease L))" by blast
  let ?L = "snd (lock_renew t ttl lease L)"
  have "lk_generation ?L = sl_generation lease" "lk_holder ?L = Some (sl_owner_runtime_id lease, sl_profile lease, t + ttl)"
    using owns Cons.prems(2,3) by (simp_all add: lock_renew_def)
  from Cons.IH [OF r1(2) this] Cons.prems(4) r1(1) show ?case by simp
qed

text \<open>
  An owner that renews in time keeps its session: from any history, a runtime granted the
  lease whose renewer ticks before each expiry is renewed at every tick without the loss
  signal, and until its last renewal runs out every other runtime that asks is told of this
  lease and is not granted the session.
\<close>

theorem renewed_lease_is_kept:
  assumes "redis_laws R" and "fresh R now r" and "length calls + 1 < 10 ^ 14" and "ttl_ms ttl = Inr ttl"
    and "dir_run R ttl now r calls = (log, now', r')"
    and "acquire R ttl no_faults now' c s owner p r' = (Inr (Acquired lease), r1)"
    and "in_time ttl now' ts" and "last (now' # ts) \<le> t" and "t < last (now' # ts) + ttl"
  shows "\<exists>r2. renew_loop R ttl lease (map (\<lambda>t. Tick t no_faults) ts) r1 = (None, r2)
    \<and> fst (acquire R ttl no_faults t c s other p' r2) = Inr (Exists lease)"
proof -
  from run_from_fresh [OF assms(1,2) _ assms(5), of c s] assms(3) obtain L where
    L: "implements R now' c s r' L" "lk_generation L \<le> length calls" by auto
  have "lk_generation L + 1 < 10 ^ 14" using L(2) assms(3) by linarith
  from acquire_no_faults [OF assms(1) L(1) this assms(4), of owner p] assms(6)
  have lease: "lease = lease_of c s (lk_generation L + 1) (owner, p)"
    and impl: "implements R now' c s r1 \<lparr>lk_generation = lk_generation L + 1, lk_holder = Some (owner, p, now' + ttl)\<rparr>"
    by (auto simp: lock_acquire_def split: option.splits)
  let ?last = "last (now' # ts)"
  let ?L2 = "\<lparr>lk_generation = lk_generation L + 1, lk_holder = Some (owner, p, ?last + ttl)\<rparr>"
  have fields: "sl_community_id lease = c" "sl_session_id lease = s" "sl_generation lease = lk_generation L + 1"
    "sl_owner_runtime_id lease = owner" "sl_profile lease = p" by (simp_all add: lease lease_of_def)
  obtain r2 where r2: "renew_loop R ttl lease (map (\<lambda>t. Tick t no_faults) ts) r1 = (None, r2)" "implements R ?last c s r2 ?L2"
    using renew_loop_holds [OF assms(1,4), of now' lease r1 "\<lparr>lk_generation = lk_generation L + 1,
      lk_holder = Some (owner, p, now' + ttl)\<rparr>" ts] impl assms(7) unfolding fields by auto
  have live: "lock_live t ?L2 = Some (owner, p)" using assms(9) by (simp add: lock_live_def)
  from implements_later [OF r2(2) assms(8)] have impl2: "implements R t c s r2 ?L2" .
  have tlaw: "text_law R" using assms(1) by (simp add: redis_laws_def)
  have "acquire_script R t (lease_key R c s) (generation_key R c s) (rt_hex R other) (as_wire_str p') ttl r2
      = Some ((''exists'', lease_text R (lk_generation L + 1) (owner, p), show_nat (lk_generation L + 1)), r2)"
    using implements_get [OF impl2] live by (simp add: acquire_script_def counter_text_def or_empty_def)
  then have "run_script no_faults (ttl_ms ttl) (\<lambda>ms. acquire_script R t (lease_key R c s) (generation_key R c s)
      (rt_hex R other) (as_wire_str p') ms) r2
    = (Inr (''exists'', lease_text R (lk_generation L + 1) (owner, p), show_nat (lk_generation L + 1)), r2)"
    using run_script_no_faults [of "\<lambda>ms. acquire_script R t (lease_key R c s) (generation_key R c s)
      (rt_hex R other) (as_wire_str p') ms" ttl r2] assms(4) by simp
  moreover have "lk_generation L + 1 < 10 ^ 14" using impl by (simp add: implements_def)
  ultimately have "fst (acquire R ttl no_faults t c s other p' r2) = Inr (Exists lease)"
    using parse_lease_text [OF tlaw, of "lk_generation L + 1" c s "(owner, p)"]
    by (simp add: acquire_def no_faults_def lease)
  with r2(1) show ?thesis by blast
qed

section \<open>The theorems at work\<close>

definition demo_codec :: uuid_codec where
  "demo_codec = \<lparr>uc_bytes = le_bytes 16, uc_from_bytes = le_value\<rparr>"

lemma demo_codec_law: "codec_law demo_codec"
  using le_bytes_back [of _ 16] by (simp add: codec_law_def demo_codec_def)

definition demo_fence :: FencedHeader where
  "demo_fence = \<lparr>fh_session_id = 2, fh_generation = 2, fh_owner_runtime_id = 9\<rparr>"

lemma bytes_arrive_in_order_witness:
  "\<exists>r st' cs. send_bytes demo_codec (\<lambda>_ _. None) 1 ''hello'' (stream_new demo_fence []) = (Inr (), st')
    \<and> fst (recv_times (length (rs_sent st')) demo_codec demo_redis no_faults 40000 r
        (stream_new demo_fence (map Inr (rs_sent st')))) = map FrameData cs \<and> concat cs = ''hello''"
proof -
  obtain r where impl: "implements demo_redis 40000 1 2 r \<lparr>lk_generation = 2, lk_holder = Some (9, ReliableStream, 70000)\<rparr>"
    using demo_history by blast
  have "text_law demo_redis" using demo_redis_laws by (simp add: redis_laws_def)
  with validate_refines(2) [of demo_redis 40000 1 demo_fence r] impl
  have ok: "validate_fenced_header demo_redis no_faults 40000 1 demo_fence r = Inr ()"
    by (simp add: demo_fence_def lock_validate_def lock_live_def)
  have cs: "chunks MAX_RELIABLE_PAYLOAD_BYTES ''hello'' = [''hello'']"
    by (subst chunks.simps, subst chunks.simps) (simp add: MAX_RELIABLE_PAYLOAD_BYTES_def)
  obtain st' where sent: "send_bytes demo_codec (\<lambda>_ _. None) 1 ''hello'' (stream_new demo_fence []) = (Inr (), st')"
    by (simp add: send_bytes_def ensure_outbound_community_def stream_new_def cs send_mesh_frame_def)
  have st: "rs_fenced (stream_new demo_fence incoming) = demo_fence" "rs_sent (stream_new demo_fence incoming) = []"
    "rs_incoming (stream_new demo_fence incoming) = incoming"
    "rs_community_id (stream_new demo_fence incoming) \<in> {None, Some 1}" for incoming by (simp_all add: stream_new_def)
  from bytes_arrive_in_order [where R = demo_redis and f = no_faults and now = 40000 and r = r,
      OF demo_codec_law _ st(2) sent st(3) _ st(4)] ok
  obtain cs where "fst (recv_times (length (rs_sent st')) demo_codec demo_redis no_faults 40000 r
        (stream_new demo_fence (map Inr (rs_sent st')))) = map FrameData cs" "concat cs = ''hello''"
    by (auto simp: st)
  with sent show ?thesis by blast
qed

lemma superseded_stream_delivers_nothing_witness:
  "\<exists>r'. snd (dir_run demo_redis 30000 0 [] demo_calls) = (40000, r')
    \<and> fst (recv_validated demo_codec demo_redis no_faults 50000 r'
        (with_community 1 (stream_new \<lparr>fh_session_id = 2, fh_generation = 1, fh_owner_runtime_id = 7\<rparr>
          [Inr (Data \<lparr>fh_session_id = 2, fh_generation = 1, fh_owner_runtime_id = 7\<rparr>
             (wire_encode demo_codec (WireData 1 ''late'')))]))) \<noteq> Inr (Some (FrameData ''late''))"
proof -
  obtain log r where run: "dir_run demo_redis 30000 0 [] demo_calls = (log, 40000, r)" and len: "length log = 2"
    and at: "vouched 1 2 (log ! 1) = Some (2, 9)" using demo_history by blast
  let ?st = "with_community 1 (stream_new \<lparr>fh_session_id = 2, fh_generation = 1, fh_owner_runtime_id = 7\<rparr>
          [Inr (Data \<lparr>fh_session_id = 2, fh_generation = 1, fh_owner_runtime_id = 7\<rparr>
             (wire_encode demo_codec (WireData 1 ''late'')))])"
  have st: "rs_fenced ?st = \<lparr>fh_session_id = 2, fh_generation = 1, fh_owner_runtime_id = 7\<rparr>" "rs_community_id ?st = Some 1"
    by (simp_all add: with_community_def stream_new_def)
  have "length demo_calls < 10 ^ 14" "1 < length log" using len by (simp_all add: demo_calls_def)
  from superseded_stream_delivers_nothing [OF demo_redis_laws demo_fresh this(1) run this(2), of 1 ?st 2 9 50000] at run st
  show ?thesis by simp
qed

lemma renewed_lease_is_kept_witness:
  "\<exists>lease r1 r2. acquire demo_redis 30000 no_faults 0 1 2 7 ReliableStream [] = (Inr (Acquired lease), r1)
    \<and> renew_loop demo_redis 30000 lease [Tick 10000 no_faults, Tick 20000 no_faults] r1 = (None, r2)
    \<and> fst (acquire demo_redis 30000 no_faults 45000 1 2 9 ReliableStream r2) = Inr (Exists lease)"
proof -
  have ttl: "ttl_ms 30000 = Inr 30000" by (simp add: ttl_ms_def)
  obtain lease r1 where r1: "acquire demo_redis 30000 no_faults 0 1 2 7 ReliableStream [] = (Inr (Acquired lease), r1)"
    using acquire_no_faults [OF demo_redis_laws fresh_implements [OF demo_fresh] _ ttl, of 0 1 2 7 ReliableStream]
    by (auto simp: lock_acquire_def lock_live_def)
  have run: "dir_run demo_redis 30000 0 [] [] = ([], 0, [])" by simp
  from renewed_lease_is_kept [OF demo_redis_laws demo_fresh _ ttl run r1, of "[10000, 20000]" 45000 9 ReliableStream]
  obtain r2 where "renew_loop demo_redis 30000 lease [Tick 10000 no_faults, Tick 20000 no_faults] r1 = (None, r2)"
    "fst (acquire demo_redis 30000 no_faults 45000 1 2 9 ReliableStream r2) = Inr (Exists lease)" by auto
  with r1 show ?thesis by blast
qed

end
