(* ===== verification/Mesh_Membership.thy ===== *)
theory Mesh_Membership
  imports Mesh_Wire Colony_Interfaces
begin

text \<open>
  Who is in the mesh: \<open>buzz-relay-mesh/src/registry.rs\<close> (the attested ready records),
  \<open>gossip.rs\<close> (versioned records, digests and deltas) and \<open>membership.rs\<close> (the table a
  runtime keeps of its peers). Signatures and hashes are parameters; Redis is the list of
  commands sent to it and of values read from it. Times are milliseconds, as on the wire;
  an \<open>f32\<close> is its bits.
\<close>

section \<open>Ready records\<close>

definition READY_KEY_PREFIX :: string where
  "READY_KEY_PREFIX = ''mesh:ready:''"

definition REGISTRY_EXPIRY_MULTIPLIER :: nat where
  "REGISTRY_EXPIRY_MULTIPLIER = 3"

definition ATTESTATION_CONTEXT :: string where
  "ATTESTATION_CONTEXT = ''buzz-relay-mesh-ready-v1''"

record attest_lib =
  al_hex :: "runtime_id \<Rightarrow> string"
  al_pk_from_hex :: "string \<Rightarrow> pubkey option"
  al_pk_hex :: "pubkey \<Rightarrow> string"
  al_xonly :: "pubkey \<Rightarrow> string option"
  al_sig_from_str :: "string \<Rightarrow> string option"
  al_sha256 :: "string \<Rightarrow> string"
  al_verify :: "string \<Rightarrow> string \<Rightarrow> string \<Rightarrow> bool"
  al_public_key :: "string \<Rightarrow> pubkey"
  al_sign :: "string \<Rightarrow> string \<Rightarrow> string"

record ReadyRecord =
  rr_runtime_id :: runtime_id
  rr_runtime_pubkey :: string
  rr_relay_pubkey :: string
  rr_relay_sig :: string
  rr_endpoint_addrs :: "string list"
  rr_proto_version :: nat
  rr_capabilities :: "string list"

definition attestation_preimage :: "attest_lib \<Rightarrow> runtime_id \<Rightarrow> string \<Rightarrow> string" where
  "attestation_preimage A runtime_id relay_pubkey =
     ATTESTATION_CONTEXT @ [char_of (10 :: nat)] @ ''runtime_pubkey='' @ al_hex A runtime_id
     @ [char_of (10 :: nat)] @ ''relay_pubkey='' @ relay_pubkey"

definition attestation_message :: "attest_lib \<Rightarrow> runtime_id \<Rightarrow> string \<Rightarrow> string" where
  "attestation_message A runtime_id relay_pubkey = al_sha256 A (attestation_preimage A runtime_id relay_pubkey)"

definition attest :: "attest_lib \<Rightarrow> string \<Rightarrow> runtime_id \<Rightarrow> string \<times> string" where
  "attest A relay_keys runtime_id =
     (let relay_pubkey = al_pk_hex A (al_public_key A relay_keys)
      in (relay_pubkey, al_sign A relay_keys (attestation_message A runtime_id relay_pubkey)))"

definition verify_attestation :: "attest_lib \<Rightarrow> runtime_id \<Rightarrow> string \<Rightarrow> string \<Rightarrow> MeshError + unit" where
  "verify_attestation A runtime_id relay_pubkey relay_sig =
     and_then (ok_or (Transport ''invalid relay_pubkey'') (al_pk_from_hex A relay_pubkey)) (\<lambda>pk.
     and_then (ok_or (Transport ''xonly conversion failed'') (al_xonly A pk)) (\<lambda>xonly.
     and_then (ok_or (Transport ''invalid relay_sig'') (al_sig_from_str A relay_sig)) (\<lambda>sig.
       if al_verify A sig (attestation_message A runtime_id (al_pk_hex A pk)) xonly then Inr ()
       else Inl (Transport ''signature verification failed''))))"

definition ready_record ::
  "attest_lib \<Rightarrow> runtime_id \<Rightarrow> string \<Rightarrow> string list \<Rightarrow> nat \<Rightarrow> string list \<Rightarrow> ReadyRecord" where
  "ready_record A runtime_id relay_keys endpoint_addrs proto_version capabilities =
     (case attest A relay_keys runtime_id of (relay_pubkey, relay_sig) \<Rightarrow>
        \<lparr>rr_runtime_id = runtime_id, rr_runtime_pubkey = al_hex A runtime_id, rr_relay_pubkey = relay_pubkey,
         rr_relay_sig = relay_sig, rr_endpoint_addrs = endpoint_addrs, rr_proto_version = proto_version,
         rr_capabilities = capabilities\<rparr>)"

definition ready_verify :: "attest_lib \<Rightarrow> ReadyRecord \<Rightarrow> MeshError + unit" where
  "ready_verify A rec =
     (if rr_runtime_pubkey rec \<noteq> al_hex A (rr_runtime_id rec) then Inl (Transport ''runtime_pubkey mismatch'')
      else verify_attestation A (rr_runtime_id rec) (rr_relay_pubkey rec) (rr_relay_sig rec))"

definition ready_key :: "attest_lib \<Rightarrow> runtime_id \<Rightarrow> string" where
  "ready_key A runtime_id = READY_KEY_PREFIX @ al_hex A runtime_id"

text \<open>
  \<open>Duration::saturating_mul\<close>, in nanoseconds: a duration has at most \<open>2^64 - 1\<close> seconds and
  999,999,999 nanoseconds.
\<close>

definition expiry_for :: "nat \<Rightarrow> nat" where
  "expiry_for refresh = min (refresh * REGISTRY_EXPIRY_MULTIPLIER) (2 ^ 64 * 10 ^ 9 - 1)"

datatype registry_command = RegSet string string nat | RegDel string

text \<open>The commands sent, and the result; \<open>json\<close> is \<open>serde_json::to_string\<close>.\<close>

definition publish_ready ::
  "attest_lib \<Rightarrow> (ReadyRecord \<Rightarrow> string option) \<Rightarrow> nat \<Rightarrow> ReadyRecord \<Rightarrow> (MeshError + unit) \<times> registry_command list" where
  "publish_ready A json refresh rec =
     (case and_then (ready_verify A rec) (\<lambda>_. ok_or (Transport ''ready registry encode'') (json rec)) of
        Inl e \<Rightarrow> (Inl e, [])
      | Inr payload \<Rightarrow> (Inr (), [RegSet (ready_key A (rr_runtime_id rec)) payload (max (expiry_for refresh div 10 ^ 9) 1)]))"

definition clear_ready :: "attest_lib \<Rightarrow> runtime_id \<Rightarrow> (MeshError + unit) \<times> registry_command list" where
  "clear_ready A runtime_id = (Inr (), [RegDel (ready_key A runtime_id)])"

text \<open>The scan, from the keys found and what \<open>GET\<close> answered for each; \<open>parse\<close> is \<open>serde_json\<close>.\<close>

definition scan_ready ::
  "attest_lib \<Rightarrow> (string \<Rightarrow> ReadyRecord option) \<Rightarrow> (string \<times> string option) list \<Rightarrow> ReadyRecord list" where
  "scan_ready A parse found = List.map_filter (\<lambda>(key, raw). case raw of
       None \<Rightarrow> None
     | Some val \<Rightarrow> (case parse val of
          None \<Rightarrow> None
        | Some rec \<Rightarrow> if ready_key A (rr_runtime_id rec) = key \<and> ready_verify A rec = Inr () then Some rec else None)) found"

record ReadyHeartbeat =
  hb_record :: ReadyRecord
  hb_published :: bool

definition tick ::
  "attest_lib \<Rightarrow> (ReadyRecord \<Rightarrow> string option) \<Rightarrow> nat \<Rightarrow> bool \<Rightarrow> ReadyHeartbeat
   \<Rightarrow> (MeshError + unit) \<times> ReadyHeartbeat \<times> registry_command list" where
  "tick A json refresh ready h =
     (if ready then
        (case publish_ready A json refresh (hb_record h) of
           (Inl e, cmds) \<Rightarrow> (Inl e, h, cmds)
         | (Inr _, cmds) \<Rightarrow> (Inr (), h\<lparr>hb_published := True\<rparr>, cmds))
      else if hb_published h then
        (case clear_ready A (rr_runtime_id (hb_record h)) of
           (Inl e, cmds) \<Rightarrow> (Inl e, h, cmds)
         | (Inr _, cmds) \<Rightarrow> (Inr (), h\<lparr>hb_published := False\<rparr>, cmds))
      else (Inr (), h, []))"

definition shutdown :: "attest_lib \<Rightarrow> ReadyHeartbeat \<Rightarrow> (MeshError + unit) \<times> ReadyHeartbeat \<times> registry_command list" where
  "shutdown A h =
     (if hb_published h then
        (case clear_ready A (rr_runtime_id (hb_record h)) of
           (Inl e, cmds) \<Rightarrow> (Inl e, h, cmds)
         | (Inr _, cmds) \<Rightarrow> (Inr (), h\<lparr>hb_published := False\<rparr>, cmds))
      else (Inr (), h, []))"

section \<open>Gossip\<close>

definition GOSSIP_PAYLOAD_VERSION :: nat where
  "GOSSIP_PAYLOAD_VERSION = 1"

record GossipRecord =
  gr_runtime_id :: runtime_id
  gr_endpoint_addrs :: "string list"
  gr_proto_version :: nat
  gr_load :: "32 word"
  gr_draining :: bool
  gr_capabilities :: "string list"
  gr_version :: u64
  gr_heartbeat_millis :: nat

definition gossip_record :: "nat \<Rightarrow> runtime_id \<Rightarrow> string list \<Rightarrow> nat \<Rightarrow> GossipRecord" where
  "gossip_record now runtime_id endpoint_addrs proto_version =
     \<lparr>gr_runtime_id = runtime_id, gr_endpoint_addrs = endpoint_addrs, gr_proto_version = proto_version, gr_load = 0,
      gr_draining = False, gr_capabilities = [], gr_version = 1, gr_heartbeat_millis = now\<rparr>"

type_synonym digest_entry = "runtime_id \<times> u64"

datatype GossipMessage =
    Digest nat "digest_entry list"
  | Delta nat "GossipRecord list"

definition decode_message :: "GossipMessage postcard \<Rightarrow> string \<Rightarrow> MeshError + GossipMessage" where
  "decode_message P bytes = and_then (ok_or DecodeError (pc_read P bytes)) (\<lambda>message.
     let version = (case message of Digest v _ \<Rightarrow> v | Delta v _ \<Rightarrow> v)
     in if version \<noteq> GOSSIP_PAYLOAD_VERSION then Inl (Transport ''unknown gossip payload version'') else Inr message)"

definition encode_message :: "GossipMessage postcard \<Rightarrow> GossipMessage \<Rightarrow> MeshError + string" where
  "encode_message P message = ok_or EncodeError (pc_write P message)"

text \<open>
  A digest and a delta of a list of records, in the order of the hexadecimal ids: shared by
  the two states that gossip. A later entry of a digest replaces an earlier one.
\<close>

definition digest_of :: "(runtime_id \<Rightarrow> string) \<Rightarrow> GossipRecord list \<Rightarrow> GossipMessage" where
  "digest_of hex records =
     Digest GOSSIP_PAYLOAD_VERSION (sort_key (\<lambda>e. hex (fst e)) (map (\<lambda>rec. (gr_runtime_id rec, gr_version rec)) records))"

definition delta_of :: "(runtime_id \<Rightarrow> string) \<Rightarrow> GossipRecord list \<Rightarrow> digest_entry list \<Rightarrow> GossipMessage" where
  "delta_of hex records entries =
     Delta GOSSIP_PAYLOAD_VERSION (sort_key (\<lambda>rec. hex (gr_runtime_id rec)) (filter (\<lambda>rec.
       case map_of (rev entries) (gr_runtime_id rec) of None \<Rightarrow> True | Some remote \<Rightarrow> remote < gr_version rec) records))"

record GossipState =
  gs_records :: "(runtime_id \<times> GossipRecord) list"

definition gossip_new :: "GossipRecord \<Rightarrow> GossipState" where
  "gossip_new local_rec = \<lparr>gs_records = [(gr_runtime_id local_rec, local_rec)]\<rparr>"

definition gossip_get :: "GossipState \<Rightarrow> runtime_id \<Rightarrow> GossipRecord option" where
  "gossip_get g runtime_id = map_of (gs_records g) runtime_id"

definition bump :: "nat \<Rightarrow> (GossipRecord \<Rightarrow> GossipRecord) \<Rightarrow> GossipRecord \<Rightarrow> GossipRecord" where
  "bump now update rec = (let rec1 = update rec
     in rec1\<lparr>gr_version := saturating_add (gr_version rec1) 1, gr_heartbeat_millis := now\<rparr>)"

definition gossip_update_local ::
  "nat \<Rightarrow> runtime_id \<Rightarrow> (GossipRecord \<Rightarrow> GossipRecord) \<Rightarrow> GossipState \<Rightarrow> GossipRecord option \<times> GossipState" where
  "gossip_update_local now runtime_id update g = (case map_of (gs_records g) runtime_id of
       None \<Rightarrow> (None, g)
     | Some rec \<Rightarrow> (Some (bump now update rec), g\<lparr>gs_records := AList.update runtime_id (bump now update rec) (gs_records g)\<rparr>))"

definition gossip_digest :: "(runtime_id \<Rightarrow> string) \<Rightarrow> GossipState \<Rightarrow> GossipMessage" where
  "gossip_digest hex g = digest_of hex (map snd (gs_records g))"

definition gossip_delta_for :: "(runtime_id \<Rightarrow> string) \<Rightarrow> GossipState \<Rightarrow> digest_entry list \<Rightarrow> GossipMessage" where
  "gossip_delta_for hex g entries = delta_of hex (map snd (gs_records g)) entries"

definition apply_one :: "GossipRecord \<Rightarrow> runtime_id list \<times> GossipState \<Rightarrow> runtime_id list \<times> GossipState" where
  "apply_one rec = (\<lambda>(changed, g).
     if (case map_of (gs_records g) (gr_runtime_id rec) of None \<Rightarrow> True | Some existing \<Rightarrow> gr_version existing < gr_version rec)
     then (changed @ [gr_runtime_id rec], g\<lparr>gs_records := AList.update (gr_runtime_id rec) rec (gs_records g)\<rparr>)
     else (changed, g))"

definition apply_delta :: "GossipRecord list \<Rightarrow> GossipState \<Rightarrow> runtime_id list \<times> GossipState" where
  "apply_delta records g = fold apply_one records ([], g)"

section \<open>Suspicion\<close>

record PhiAccrual =
  pa_samples :: "nat list"
  pa_last_heartbeat :: "nat option"
  pa_max_samples :: nat

definition phi_new :: "nat \<Rightarrow> PhiAccrual" where
  "phi_new max_samples = \<lparr>pa_samples = [], pa_last_heartbeat = None, pa_max_samples = max max_samples 1\<rparr>"

definition observe :: "nat \<Rightarrow> PhiAccrual \<Rightarrow> PhiAccrual" where
  "observe at p =
     (let p1 = (case pa_last_heartbeat p of
            None \<Rightarrow> p
          | Some prev \<Rightarrow>
              if prev < at
              then (let samples = pa_samples p @ [at - prev]
                    in p\<lparr>pa_samples := if pa_max_samples p < length samples then tl samples else samples\<rparr>)
              else p)
      in p1\<lparr>pa_last_heartbeat := Some at\<rparr>)"

text \<open>\<open>accrual\<close> is the floating-point formula, of the time since the heartbeat and the samples.\<close>

definition phi_at :: "(nat \<Rightarrow> nat list \<Rightarrow> 'f option) \<Rightarrow> nat \<Rightarrow> PhiAccrual \<Rightarrow> 'f option" where
  "phi_at accrual now p = (case pa_last_heartbeat p of
       None \<Rightarrow> None
     | Some prev \<Rightarrow> if pa_samples p = [] \<or> now < prev then None else accrual (now - prev) (pa_samples p))"

section \<open>Membership\<close>

datatype ConnectionState = Disconnected | Connecting | Connected | Suspect

record MeshPeerCounters =
  mc_streams_opened :: u64
  mc_streams_received :: u64
  mc_datagrams_sent :: u64
  mc_datagrams_received :: u64
  mc_gossip_frames_sent :: u64
  mc_gossip_frames_received :: u64
  mc_stale_generation_rejections :: u64

definition no_counters :: MeshPeerCounters where
  "no_counters = \<lparr>mc_streams_opened = 0, mc_streams_received = 0, mc_datagrams_sent = 0, mc_datagrams_received = 0,
     mc_gossip_frames_sent = 0, mc_gossip_frames_received = 0, mc_stale_generation_rejections = 0\<rparr>"

record PeerState =
  ps_record :: GossipRecord
  ps_phi :: PhiAccrual
  ps_connection_state :: ConnectionState
  ps_counters :: MeshPeerCounters

record MeshMembership =
  mm_local_runtime_id :: runtime_id
  mm_local_record :: GossipRecord
  mm_peers :: "(runtime_id \<times> PeerState) list"
  mm_draining :: bool
  mm_stale_generation_rejections :: u64
  mm_foreign_relay_rejections :: u64
  mm_expected_relay_pubkey :: "string option"

definition membership_new :: "GossipRecord \<Rightarrow> MeshMembership" where
  "membership_new local_record =
     \<lparr>mm_local_runtime_id = gr_runtime_id local_record, mm_local_record = local_record, mm_peers = [],
      mm_draining = False, mm_stale_generation_rejections = 0, mm_foreign_relay_rejections = 0,
      mm_expected_relay_pubkey = None\<rparr>"

definition with_expected_relay_pubkey :: "string \<Rightarrow> MeshMembership \<Rightarrow> MeshMembership" where
  "with_expected_relay_pubkey pubkey_hex m = m\<lparr>mm_expected_relay_pubkey := Some pubkey_hex\<rparr>"

definition apply_gossip_record :: "GossipRecord \<Rightarrow> MeshMembership \<Rightarrow> bool \<times> MeshMembership" where
  "apply_gossip_record rec m =
     (if gr_runtime_id rec = mm_local_runtime_id m then (False, m)
      else case map_of (mm_peers m) (gr_runtime_id rec) of
          Some peer \<Rightarrow>
            if gr_version rec \<le> gr_version (ps_record peer) then (False, m)
            else (True, m\<lparr>mm_peers := AList.update (gr_runtime_id rec)
                   (peer\<lparr>ps_record := rec, ps_connection_state := Connected,
                         ps_phi := observe (gr_heartbeat_millis rec) (ps_phi peer)\<rparr>) (mm_peers m)\<rparr>)
        | None \<Rightarrow>
            (True, m\<lparr>mm_peers := AList.update (gr_runtime_id rec)
               \<lparr>ps_record = rec, ps_phi = observe (gr_heartbeat_millis rec) (phi_new 100),
                ps_connection_state = Connected, ps_counters = no_counters\<rparr> (mm_peers m)\<rparr>))"

text \<open>\<open>fetch_add\<close> on an atomic wraps.\<close>

definition apply_ready_one :: "attest_lib \<Rightarrow> nat \<Rightarrow> ReadyRecord \<Rightarrow> MeshMembership \<Rightarrow> MeshMembership" where
  "apply_ready_one A now ready m =
     (if rr_runtime_id ready = mm_local_runtime_id m then m
      else if mm_expected_relay_pubkey m \<noteq> Some (rr_relay_pubkey ready)
      then m\<lparr>mm_foreign_relay_rejections := mm_foreign_relay_rejections m + 1\<rparr>
      else if ready_verify A ready \<noteq> Inr () then m
      else snd (apply_gossip_record
             ((gossip_record now (rr_runtime_id ready) (rr_endpoint_addrs ready) (rr_proto_version ready))
                \<lparr>gr_capabilities := rr_capabilities ready\<rparr>) m))"

definition apply_ready_records :: "attest_lib \<Rightarrow> nat \<Rightarrow> ReadyRecord list \<Rightarrow> MeshMembership \<Rightarrow> MeshMembership" where
  "apply_ready_records A now records m = fold (apply_ready_one A now) records m"

definition update_peer :: "runtime_id \<Rightarrow> (PeerState \<Rightarrow> PeerState) \<Rightarrow> MeshMembership \<Rightarrow> MeshMembership" where
  "update_peer runtime_id f m = (case map_of (mm_peers m) runtime_id of
       None \<Rightarrow> m | Some peer \<Rightarrow> m\<lparr>mm_peers := AList.update runtime_id (f peer) (mm_peers m)\<rparr>)"

definition mark_connection_state :: "runtime_id \<Rightarrow> ConnectionState \<Rightarrow> MeshMembership \<Rightarrow> MeshMembership" where
  "mark_connection_state runtime_id state m = update_peer runtime_id (\<lambda>peer. peer\<lparr>ps_connection_state := state\<rparr>) m"

definition update_local :: "nat \<Rightarrow> (GossipRecord \<Rightarrow> GossipRecord) \<Rightarrow> MeshMembership \<Rightarrow> MeshMembership" where
  "update_local now update m = m\<lparr>mm_local_record := bump now update (mm_local_record m)\<rparr>"

definition has_peer :: "runtime_id \<Rightarrow> MeshMembership \<Rightarrow> bool" where
  "has_peer runtime_id m \<longleftrightarrow> map_of (mm_peers m) runtime_id \<noteq> None"

definition records :: "MeshMembership \<Rightarrow> GossipRecord list" where
  "records m = map (\<lambda>(_, peer). ps_record peer) (mm_peers m) @ [mm_local_record m]"

definition digest :: "(runtime_id \<Rightarrow> string) \<Rightarrow> MeshMembership \<Rightarrow> GossipMessage" where
  "digest hex m = digest_of hex (records m)"

definition delta_for :: "(runtime_id \<Rightarrow> string) \<Rightarrow> MeshMembership \<Rightarrow> digest_entry list \<Rightarrow> GossipMessage" where
  "delta_for hex m entries = delta_of hex (records m) entries"

definition update_peer_counters :: "runtime_id \<Rightarrow> (MeshPeerCounters \<Rightarrow> MeshPeerCounters) \<Rightarrow> MeshMembership \<Rightarrow> MeshMembership" where
  "update_peer_counters runtime_id f m = update_peer runtime_id (\<lambda>peer. peer\<lparr>ps_counters := f (ps_counters peer)\<rparr>) m"

abbreviation plus_one :: "u64 \<Rightarrow> u64" where
  "plus_one n \<equiv> saturating_add n 1"

definition record_stream_opened :: "runtime_id \<Rightarrow> MeshMembership \<Rightarrow> MeshMembership" where
  "record_stream_opened runtime_id = update_peer_counters runtime_id (mc_streams_opened_update plus_one)"

definition record_stream_received :: "runtime_id \<Rightarrow> MeshMembership \<Rightarrow> MeshMembership" where
  "record_stream_received runtime_id = update_peer_counters runtime_id (mc_streams_received_update plus_one)"

definition record_datagram_sent :: "runtime_id \<Rightarrow> MeshMembership \<Rightarrow> MeshMembership" where
  "record_datagram_sent runtime_id = update_peer_counters runtime_id (mc_datagrams_sent_update plus_one)"

definition record_datagram_received :: "runtime_id \<Rightarrow> MeshMembership \<Rightarrow> MeshMembership" where
  "record_datagram_received runtime_id = update_peer_counters runtime_id (mc_datagrams_received_update plus_one)"

definition record_gossip_frame_sent :: "runtime_id \<Rightarrow> MeshMembership \<Rightarrow> MeshMembership" where
  "record_gossip_frame_sent runtime_id = update_peer_counters runtime_id (mc_gossip_frames_sent_update plus_one)"

definition record_gossip_frame_received :: "runtime_id \<Rightarrow> MeshMembership \<Rightarrow> MeshMembership" where
  "record_gossip_frame_received runtime_id = update_peer_counters runtime_id (mc_gossip_frames_received_update plus_one)"

definition record_stale_generation_rejection :: "runtime_id option \<Rightarrow> MeshMembership \<Rightarrow> MeshMembership" where
  "record_stale_generation_rejection runtime_id m =
     (let m1 = m\<lparr>mm_stale_generation_rejections := mm_stale_generation_rejections m + 1\<rparr>
      in case runtime_id of None \<Rightarrow> m1
       | Some w \<Rightarrow> update_peer_counters w (mc_stale_generation_rejections_update plus_one) m1)"

definition begin_drain :: "nat \<Rightarrow> MeshMembership \<Rightarrow> MeshMembership" where
  "begin_drain now m = update_local now (gr_draining_update (\<lambda>_. True)) (m\<lparr>mm_draining := True\<rparr>)"

record 'f PeerInfo =
  pi_runtime_id :: runtime_id
  pi_draining :: bool
  pi_phi :: "'f option"
  pi_load :: "32 word"

text \<open>\<open>suspect\<close>: the threshold test on a suspicion level.\<close>

definition peers ::
  "(nat \<Rightarrow> nat list \<Rightarrow> 'f option) \<Rightarrow> ('f \<Rightarrow> bool) \<Rightarrow> nat \<Rightarrow> MeshMembership \<Rightarrow> 'f PeerInfo list" where
  "peers accrual suspect now m = List.map_filter (\<lambda>(_, peer).
     let phi = phi_at accrual now (ps_phi peer)
     in if (case phi of Some p \<Rightarrow> suspect p | None \<Rightarrow> False) then None
        else Some \<lparr>pi_runtime_id = gr_runtime_id (ps_record peer), pi_draining = gr_draining (ps_record peer),
               pi_phi = phi, pi_load = gr_load (ps_record peer)\<rparr>) (mm_peers m)"

end
