(* ===== verification/Mesh_Runtime.thy ===== *)
theory Mesh_Runtime
  imports Mesh_Membership
begin

text \<open>
  The running mesh, \<open>buzz-relay-mesh/src/runtime.rs\<close>: which of two simultaneous connections
  is kept, whom a runtime dials and lets in, what it does with a gossip frame and on a gossip
  tick; and the network these steps make, where any frame may be lost, delayed, repeated or
  overtaken.
\<close>

section \<open>Connections\<close>

record PeerEntry =
  pe_connection :: nat
  pe_control :: bool

type_synonym peer_table = "(runtime_id \<times> PeerEntry) list"

definition new_connection_wins :: "runtime_id \<Rightarrow> runtime_id \<Rightarrow> bool \<Rightarrow> bool" where
  "new_connection_wins local_id remote new_dialed_by_us =
     (if local_id < remote then new_dialed_by_us else \<not> new_dialed_by_us)"

definition install_peer ::
  "runtime_id \<Rightarrow> runtime_id \<Rightarrow> nat \<Rightarrow> bool \<Rightarrow> peer_table \<times> MeshMembership \<Rightarrow> bool \<times> peer_table \<times> MeshMembership" where
  "install_peer local_id remote conn dialed_by_us = (\<lambda>(table, m).
     if map_of table remote \<noteq> None \<and> \<not> new_connection_wins local_id remote dialed_by_us
     then (False, table, m)
     else (True, AList.update remote \<lparr>pe_connection = conn, pe_control = dialed_by_us\<rparr> table,
           mark_connection_state remote Connected m))"

definition remove_peer :: "runtime_id \<Rightarrow> peer_table \<times> MeshMembership \<Rightarrow> peer_table \<times> MeshMembership" where
  "remove_peer remote = (\<lambda>(table, m). case map_of table remote of
       None \<Rightarrow> (table, m)
     | Some _ \<Rightarrow> (AList.delete remote table, mark_connection_state remote Disconnected m))"

text \<open>The records dialed by one reconcile pass, given who is connected.\<close>

definition dial_candidates :: "(runtime_id \<Rightarrow> bool) \<Rightarrow> MeshMembership \<Rightarrow> GossipRecord list" where
  "dial_candidates connected m = filter (\<lambda>rec. \<not> connected (gr_runtime_id rec))
     (filter (\<lambda>rec. gr_runtime_id rec \<noteq> mm_local_runtime_id m \<and> \<not> gr_draining rec) (records m))"

text \<open>The admission check; \<open>scan\<close> is the outcome of the registry scan, if there is a registry.\<close>

definition is_known_peer ::
  "attest_lib \<Rightarrow> nat \<Rightarrow> ReadyRecord list option \<Rightarrow> runtime_id \<Rightarrow> MeshMembership \<Rightarrow> bool \<times> MeshMembership" where
  "is_known_peer A now scan runtime_id m =
     (if has_peer runtime_id m then (True, m)
      else (let m1 = (case scan of Some rs \<Rightarrow> apply_ready_records A now rs m | None \<Rightarrow> m)
            in (has_peer runtime_id m1, m1)))"

section \<open>Gossip over a control stream\<close>

definition on_gossip ::
  "GossipMessage postcard \<Rightarrow> (runtime_id \<Rightarrow> string) \<Rightarrow> runtime_id \<Rightarrow> string \<Rightarrow> MeshMembership \<Rightarrow> string option \<times> MeshMembership" where
  "on_gossip P hex remote payload m =
     (let m1 = record_gossip_frame_received remote m
      in case decode_message P payload of
           Inr (Digest _ entries) \<Rightarrow> (ok_of (encode_message P (delta_for hex m1 entries)), m1)
         | Inr (Delta _ recs) \<Rightarrow> (None, fold (\<lambda>rec. snd \<circ> apply_gossip_record rec) recs m1)
         | Inl _ \<Rightarrow> (None, m1))"

definition gossip_tick ::
  "GossipMessage postcard \<Rightarrow> (runtime_id \<Rightarrow> string) \<Rightarrow> nat \<Rightarrow> MeshMembership \<Rightarrow> string option \<times> MeshMembership" where
  "gossip_tick P hex now m =
     (let m1 = update_local now id m in (ok_of (encode_message P (digest hex m1)), m1))"

section \<open>The network\<close>

text \<open>Frames that were ever sent stay available: one may arrive late, often, or never.\<close>

record mesh_net =
  net_nodes :: "runtime_id \<Rightarrow> MeshMembership"
  net_conns :: "(runtime_id \<times> runtime_id) set"
  net_frames :: "(runtime_id \<times> runtime_id \<times> string) set"

definition set_node :: "runtime_id \<Rightarrow> MeshMembership \<Rightarrow> mesh_net \<Rightarrow> mesh_net" where
  "set_node i m n = n\<lparr>net_nodes := (net_nodes n)(i := m)\<rparr>"

definition connected :: "mesh_net \<Rightarrow> runtime_id \<Rightarrow> runtime_id \<Rightarrow> bool" where
  "connected n i j \<longleftrightarrow> (i, j) \<in> net_conns n \<or> (j, i) \<in> net_conns n"

inductive mesh_step ::
  "attest_lib \<Rightarrow> GossipMessage postcard \<Rightarrow> (runtime_id \<Rightarrow> string) \<Rightarrow> mesh_net \<Rightarrow> mesh_net \<Rightarrow> bool"
  for A P hex where
  Scan: "mesh_step A P hex n (set_node i (apply_ready_records A now rs (net_nodes n i)) n)"
| Dial: "rec \<in> set (dial_candidates (connected n i) (net_nodes n i)) \<Longrightarrow>
    is_known_peer A now scan i (net_nodes n (gr_runtime_id rec)) = (True, m) \<Longrightarrow>
    mesh_step A P hex n
      (set_node (gr_runtime_id rec) (mark_connection_state i Connected m)
        (set_node i (mark_connection_state (gr_runtime_id rec) Connected (net_nodes n i))
          (n\<lparr>net_conns := insert (i, gr_runtime_id rec) (net_conns n)\<rparr>)))"
| Tick: "gossip_tick P hex now (net_nodes n i) = (payload, m) \<Longrightarrow> \<forall>j \<in> targets. connected n i j \<Longrightarrow>
    mesh_step A P hex n (set_node i m (n\<lparr>net_frames := net_frames n \<union> {(i, j, p) | j p. j \<in> targets \<and> payload = Some p}\<rparr>))"
| Deliver: "(i, j, p) \<in> net_frames n \<Longrightarrow> on_gossip P hex i p (net_nodes n j) = (reply, m) \<Longrightarrow>
    mesh_step A P hex n (set_node j m (n\<lparr>net_frames := net_frames n \<union> {(j, i, q) | q. reply = Some q}\<rparr>))"
| Drain: "mesh_step A P hex n (set_node i (begin_drain now (net_nodes n i)) n)"
| Hangup: "mesh_step A P hex n (n\<lparr>net_conns := net_conns n - {c}\<rparr>)"

text \<open>Runtimes start with nobody but themselves in the table, anchored to their relay's key.\<close>

definition mesh_start :: "(runtime_id \<Rightarrow> string) \<Rightarrow> mesh_net \<Rightarrow> bool" where
  "mesh_start anchor n \<longleftrightarrow> net_conns n = {} \<and> net_frames n = {}
     \<and> (\<forall>i. \<exists>now addrs v. net_nodes n i
          = with_expected_relay_pubkey (anchor i) (membership_new (gossip_record now i addrs v)))"

section \<open>Two connections at once\<close>

text \<open>
  Both runtimes dial each other: \<open>ca\<close> is dialed by \<open>a\<close>, \<open>cb\<close> by \<open>b\<close>; each side installs
  both, in either order.
\<close>

definition kept :: "runtime_id \<Rightarrow> runtime_id \<Rightarrow> (nat \<times> bool) list \<Rightarrow> MeshMembership \<Rightarrow> nat option" where
  "kept local_id remote conns m = map_option pe_connection (map_of (fst (fold (\<lambda>(conn, dialed) s.
     snd (install_peer local_id remote conn dialed s)) conns ([], m))) remote)"

lemma tie_break:
  assumes "a \<noteq> b" and "xs \<in> {[(ca, True), (cb, False)], [(cb, False), (ca, True)]}"
  shows "kept a b xs m = Some (if a < b then ca else cb)"
  using assms by (auto simp: kept_def install_peer_def new_connection_wins_def store_simps)

text \<open>
  When two runtimes dial each other at once, whatever the order in which each of them
  completes the two connections, both end up with the same one, that of the smaller id.
\<close>

theorem simultaneous_dial_converges:
  assumes "a \<noteq> b" and "xs \<in> {[(ca, True), (cb, False)], [(cb, False), (ca, True)]}"
    and "ys \<in> {[(ca, False), (cb, True)], [(cb, True), (ca, False)]}"
  shows "kept a b xs m = kept b a ys m' \<and> kept a b xs m = Some (if a < b then ca else cb)"
proof -
  have "ys \<in> {[(cb, True), (ca, False)], [(ca, False), (cb, True)]}" using assms(3) by auto
  moreover have "b < a \<longleftrightarrow> \<not> a < b" using assms(1) by auto
  ultimately show ?thesis
    using tie_break [OF assms(1,2), of m] tie_break [of b a ys cb ca m'] assms(1) by auto
qed

lemma simultaneous_dial_converges_witness:
  "kept 3 5 [(10, True), (20, False)] (membership_new (gossip_record 0 3 [] 1))
   = kept 5 3 [(20, True), (10, False)] (membership_new (gossip_record 0 5 [] 1))"
  by (rule simultaneous_dial_converges [of 3 5 "[(10, True), (20, False)]" 10 20 "[(20, True), (10, False)]", THEN conjunct1])
    simp_all

end
