(* ===== verification/Mesh_Gossip.thy ===== *)
theory Mesh_Gossip
  imports Mesh_Membership "HOL-Library.Multiset"
begin

text \<open>
  The gossip state of \<open>gossip.rs\<close> and the table of \<open>membership.rs\<close> are both stores where the
  greatest version wins: instances of the contract \<open>version_store\<close>, whose convergence gives
  that of the mesh.
\<close>

section \<open>Both tables are stores where the greatest version wins\<close>

definition gossip_offer :: "GossipRecord \<Rightarrow> GossipState \<Rightarrow> GossipState" where
  "gossip_offer rec g = snd (apply_one rec ([], g))"

lemma apply_delta_fold: "snd (apply_delta rs g) = fold gossip_offer rs g"
proof -
  have "snd (fold apply_one rs (ch, g)) = fold gossip_offer rs g" for ch
    by (induction rs arbitrary: ch g) (auto simp: apply_one_def gossip_offer_def)
  then show ?thesis by (simp add: apply_delta_def)
qed

lemma version_less: "(a :: u64) < b \<longleftrightarrow> unat a < unat b"
  by (simp add: word_less_nat_alt)

interpretation gossip: version_store gossip_get gossip_offer gr_runtime_id "unat \<circ> gr_version" "\<lambda>_ _. True"
  by unfold_locales
    (auto simp: gossip_get_def gossip_offer_def apply_one_def store_simps version_less split: option.splits)

definition member_get :: "MeshMembership \<Rightarrow> runtime_id \<Rightarrow> GossipRecord option" where
  "member_get m k = map_option ps_record (map_of (mm_peers m) k)"

definition member_offer :: "GossipRecord \<Rightarrow> MeshMembership \<Rightarrow> MeshMembership" where
  "member_offer rec m = snd (apply_gossip_record rec m)"

lemma apply_gossip_fields [simp]:
  "mm_local_runtime_id (snd (apply_gossip_record rec m)) = mm_local_runtime_id m"
  "mm_local_record (snd (apply_gossip_record rec m)) = mm_local_record m"
  "mm_expected_relay_pubkey (snd (apply_gossip_record rec m)) = mm_expected_relay_pubkey m"
  by (simp_all add: apply_gossip_record_def split: option.split)

interpretation member: version_store member_get member_offer gr_runtime_id "unat \<circ> gr_version" "\<lambda>m k. k \<noteq> mm_local_runtime_id m"
  by unfold_locales
    (auto simp: member_get_def member_offer_def apply_gossip_record_def store_simps version_less word_le_nat_alt
      split: option.splits)

section \<open>Replicas converge\<close>

text \<open>The records a replica holds are filed under their own runtime; one entry for each.\<close>

definition gossip_wf :: "GossipState \<Rightarrow> bool" where
  "gossip_wf g \<longleftrightarrow> keys_ok (gs_records g) \<and> (\<forall>k rec. map_of (gs_records g) k = Some rec \<longrightarrow> gr_runtime_id rec = k)"

lemma gossip_wf_new: "gossip_wf (gossip_new rec)"
  by (simp add: gossip_wf_def gossip_new_def keys_ok_def)

lemma gossip_wf_offer: "gossip_wf g \<Longrightarrow> gossip_wf (gossip_offer rec g)"
  by (auto simp: gossip_wf_def gossip_offer_def apply_one_def store_simps)

lemma gossip_wf_fold: "gossip_wf g \<Longrightarrow> gossip_wf (fold gossip_offer rs g)"
  by (induction rs arbitrary: g) (simp_all add: gossip_wf_offer)

text \<open>Everything a replica has seen of a runtime: what it held and what it was sent.\<close>

definition known_records :: "GossipRecord list \<Rightarrow> GossipState \<Rightarrow> runtime_id \<Rightarrow> GossipRecord set" where
  "known_records rs g k = {rec. gossip_get g k = Some rec \<or> rec \<in> set rs \<and> gr_runtime_id rec = k}"

lemma digest_determined:
  assumes "inj hex" and "gossip_wf g" and "gossip_wf g'" and "\<And>k. map_option gr_version (gossip_get g k) = map_option gr_version (gossip_get g' k)"
  shows "gossip_digest hex g = gossip_digest hex g'"
proof -
  let ?entries = "\<lambda>g. map (\<lambda>rec. (gr_runtime_id rec, gr_version rec)) (map snd (gs_records g))"
  have wf: "map fst (?entries x) = map fst (gs_records x)" if "gossip_wf x" for x
    using that by (auto simp: gossip_wf_def keys_ok_mem [symmetric])
  have dist: "distinct (map fst (?entries x))" if "gossip_wf x" for x
    using that by (simp only: wf [OF that]) (simp add: gossip_wf_def keys_ok_def)
  have mem: "e \<in> set (?entries x) \<longleftrightarrow> map_option gr_version (gossip_get x (fst e)) = Some (snd e)" if "gossip_wf x" for x e
    using that unfolding gossip_wf_def gossip_get_def
    by (cases e) (force simp: keys_ok_mem [symmetric] image_iff)
  have "set (?entries g) = set (?entries g')"
    by (intro set_eqI) (simp only: mem [OF assms(2)] mem [OF assms(3)] assms(4))
  then have "mset (?entries g) = mset (?entries g')"
    by (rule set_eq_iff_mset_eq_distinct [THEN iffD1, OF dist [OF assms(2), THEN distinct_map [THEN iffD1], THEN conjunct1]
        dist [OF assms(3), THEN distinct_map [THEN iffD1], THEN conjunct1]])
  moreover have "inj_on (\<lambda>e. hex (fst e)) (set (?entries g))"
  proof (rule inj_onI)
    fix x y assume xy: "x \<in> set (?entries g)" "y \<in> set (?entries g)" "hex (fst x) = hex (fst y)"
    then have "fst x = fst y" using assms(1) by (simp add: inj_eq)
    with dist [OF assms(2), THEN distinct_map [THEN iffD1], THEN conjunct2] show "x = y" using xy(1,2) by (rule inj_onD)
  qed
  ultimately have "sort_key (\<lambda>e. hex (fst e)) (?entries g) = sort_key (\<lambda>e. hex (fst e)) (?entries g')"
    by (intro sort_key_inj_key_eq) auto
  then show ?thesis by (simp add: gossip_digest_def digest_of_def)
qed

text \<open>
  C20: Gossip converges: two replicas that have seen the same records, whatever they started
  with, in whatever order and however often the records reached them, hold the same version of
  each runtime, the greatest that was seen, and have the same digest; of a runtime that published one
  record of each version they hold the same record. Nothing is assumed of the others, for which
  the first record of a version wins on each replica.
\<close>

theorem gossip_converges:
  assumes "gossip_wf g" and "gossip_wf g'" and "inj hex" and "\<And>k. known_records rs g k = known_records rs' g' k"
  shows "map_option gr_version (gossip_get (snd (apply_delta rs g)) k) = map_option gr_version (gossip_get (snd (apply_delta rs' g')) k)
    \<and> gossip_digest hex (snd (apply_delta rs g)) = gossip_digest hex (snd (apply_delta rs' g'))
    \<and> (\<forall>rec\<in>known_records rs g k. \<exists>new\<in>known_records rs g k.
         gossip_get (snd (apply_delta rs g)) k = Some new \<and> gr_version rec \<le> gr_version new)
    \<and> ((\<forall>a\<in>known_records rs g k. \<forall>b\<in>known_records rs g k. gr_version a = gr_version b \<longrightarrow> a = b) \<longrightarrow>
         gossip_get (snd (apply_delta rs g)) k = gossip_get (snd (apply_delta rs' g')) k)"
proof -
  have seen: "gossip.seen rs g k = known_records rs g k" for rs g k
    by (simp add: gossip.seen_def known_records_def)
  have own: "\<forall>rec \<in> known_records rs g k. gr_runtime_id rec = k" for k
    using assms(1) by (auto simp: known_records_def gossip_wf_def gossip_get_def)
  have newest: "new \<in> known_records rs g k \<and> (\<forall>rec\<in>known_records rs g k. gr_version rec \<le> gr_version new)"
    if "gossip_get (fold gossip_offer rs g) k = Some new" for rs g k new
    using gossip.fold_newest [OF that] by (auto simp: seen word_le_nat_alt)
  have none: "gossip_get (fold gossip_offer rs g) k = None \<longleftrightarrow> known_records rs g k = {}" for rs g k
    using gossip.fold_None [of rs g k] by (simp add: seen)
  have same: "map_option gr_version (gossip_get (fold gossip_offer rs g) k) = map_option gr_version (gossip_get (fold gossip_offer rs' g') k)" for k
  proof (cases "gossip_get (fold gossip_offer rs g) k")
    case None
    then have "gossip_get (fold gossip_offer rs' g') k = None" by (metis none assms(4))
    with None show ?thesis by simp
  next
    case (Some a)
    then have "gossip_get (fold gossip_offer rs' g') k \<noteq> None" by (metis none assms(4) option.distinct(1))
    then obtain b where b: "gossip_get (fold gossip_offer rs' g') k = Some b" by blast
    have "gr_version a = gr_version b" using newest [OF Some] newest [OF b] assms(4) [of k] by (metis order_antisym)
    with Some b show ?thesis by simp
  qed
  have held: "\<exists>new\<in>known_records rs g k. gossip_get (fold gossip_offer rs g) k = Some new \<and> gr_version rec \<le> gr_version new"
    if mem: "rec \<in> known_records rs g k" for rec
    using mem none [of rs g k] newest [of rs g k] by (cases "gossip_get (fold gossip_offer rs g) k") auto
  have equal: "gossip_get (fold gossip_offer rs g) k = gossip_get (fold gossip_offer rs' g') k"
    if one: "\<forall>a\<in>known_records rs g k. \<forall>b\<in>known_records rs g k. gr_version a = gr_version b \<longrightarrow> a = b"
  proof -
    have "gossip.one_per_version (known_records rs g k)"
      unfolding gossip.one_per_version_def unfolding comp_def
    proof (intro ballI impI)
      fix a b assume ab: "a \<in> known_records rs g k" "b \<in> known_records rs g k"
        "gr_runtime_id a = gr_runtime_id b \<and> unat (gr_version a) = unat (gr_version b)"
      then have "gr_version a = gr_version b" by (simp add: word_unat_eq_iff)
      then show "a = b" using one ab(1,2) by blast
    qed
    then show ?thesis using gossip.convergence [of rs g k rs' g'] assms(4) own by (simp add: seen)
  qed
  note digest = digest_determined [OF assms(3) gossip_wf_fold [OF assms(1)] gossip_wf_fold [OF assms(2)] same]
  show ?thesis unfolding apply_delta_fold using same [of k] digest held equal by (intro conjI ballI impI) simp_all
qed

theorem gossip_converges_witness:
  "map_option gr_version (gossip_get (snd (apply_delta [gossip_record 5 2 [] 1, (gossip_record 9 2 [] 1)\<lparr>gr_version := 4\<rparr>] (gossip_new (gossip_record 0 1 [] 1)))) 2)
   = map_option gr_version (gossip_get (snd (apply_delta [(gossip_record 9 2 [] 1)\<lparr>gr_version := 4\<rparr>, gossip_record 0 1 [] 1] (gossip_new (gossip_record 5 2 [] 1)))) 2)"
proof (rule gossip_converges [where hex = "\<lambda>w. show_nat (unat w)", THEN conjunct1])
  show "inj (\<lambda>w :: runtime_id. show_nat (unat w))" by (simp add: inj_def show_nat_inj word_unat_eq_iff)
qed (auto simp: gossip_wf_new known_records_def gossip_new_def gossip_get_def gossip_record_def gossip_wf_def keys_ok_def
      split: if_splits)

text \<open>
  Two records of one version, as when a replica makes up a first record of a runtime with its own clock: the
  replicas keep different ones, and their digests do not tell.
\<close>

lemma tie_is_not_seen:
  "gossip_get (snd (apply_delta [gossip_record 9 2 [] 1] (gossip_new (gossip_record 5 2 [] 1)))) 2
     \<noteq> gossip_get (snd (apply_delta [gossip_record 5 2 [] 1] (gossip_new (gossip_record 9 2 [] 1)))) 2
   \<and> gossip_digest hex (snd (apply_delta [gossip_record 9 2 [] 1] (gossip_new (gossip_record 5 2 [] 1))))
     = gossip_digest hex (snd (apply_delta [gossip_record 5 2 [] 1] (gossip_new (gossip_record 9 2 [] 1))))"
  by (simp add: apply_delta_def apply_one_def gossip_new_def gossip_get_def gossip_record_def gossip_digest_def digest_of_def)

end
