(* ===== verification/Mesh_Network.thy ===== *)
theory Mesh_Network
  imports Mesh_Runtime Mesh_Gossip
begin

text \<open>
  What holds in every state the mesh can reach, by induction over its steps: no replica is
  ahead of the runtime a record is about, one exchange of a digest and a delta brings a
  runtime up to date, and deployments with different relay keys never mix.
\<close>

section \<open>What a runtime knows\<close>

text \<open>The record a runtime has for a runtime id: its own, or the one in its table.\<close>

definition view :: "MeshMembership \<Rightarrow> runtime_id \<Rightarrow> GossipRecord option" where
  "view m k = (if k = mm_local_runtime_id m then Some (mm_local_record m) else member_get m k)"

definition node_wf :: "runtime_id \<Rightarrow> MeshMembership \<Rightarrow> bool" where
  "node_wf i m \<longleftrightarrow> mm_local_runtime_id m = i \<and> gr_runtime_id (mm_local_record m) = i \<and> keys_ok (mm_peers m)
     \<and> 1 \<le> gr_version (mm_local_record m)
     \<and> (\<forall>k rec. member_get m k = Some rec \<longrightarrow> gr_runtime_id rec = k \<and> k \<noteq> i)"

lemma records_view: "node_wf i m \<Longrightarrow> rec \<in> set (records m) \<longleftrightarrow> view m (gr_runtime_id rec) = Some rec"
proof -
  assume wf: "node_wf i m"
  have mem: "(k, peer) \<in> set (mm_peers m) \<longleftrightarrow> map_of (mm_peers m) k = Some peer" for k peer
    using wf by (simp add: node_wf_def keys_ok_mem)
  have "rec \<in> (\<lambda>(_, peer). ps_record peer) ` set (mm_peers m) \<longleftrightarrow> (\<exists>k peer. (k, peer) \<in> set (mm_peers m) \<and> ps_record peer = rec)"
    by (fastforce simp: image_iff split_beta)
  also have "\<dots> \<longleftrightarrow> (\<exists>k. member_get m k = Some rec)" unfolding mem by (auto simp: member_get_def)
  finally show ?thesis using wf by (auto simp: records_def view_def node_wf_def)
qed

subsection \<open>Operations that leave the records alone\<close>

lemma update_peer_simps [simp]:
  "mm_local_runtime_id (update_peer k f m) = mm_local_runtime_id m"
  "mm_local_record (update_peer k f m) = mm_local_record m"
  "mm_expected_relay_pubkey (update_peer k f m) = mm_expected_relay_pubkey m"
  "keys_ok (mm_peers m) \<Longrightarrow> keys_ok (mm_peers (update_peer k f m))"
  by (simp_all add: update_peer_def split: option.split)

lemma update_peer_member:
  "(\<And>peer. ps_record (f peer) = ps_record peer) \<Longrightarrow> member_get (update_peer k f m) = member_get m"
  by (rule ext) (simp add: update_peer_def member_get_def store_simps split: option.split)

lemma silent_ops [simp]:
  "member_get (mark_connection_state k st m) = member_get m"
  "member_get (record_gossip_frame_received k m) = member_get m"
  by (simp_all add: mark_connection_state_def record_gossip_frame_received_def update_peer_counters_def update_peer_member)

lemma silent_fields [simp]:
  "mm_local_runtime_id (mark_connection_state k st m) = mm_local_runtime_id m"
  "mm_local_record (mark_connection_state k st m) = mm_local_record m"
  "mm_expected_relay_pubkey (mark_connection_state k st m) = mm_expected_relay_pubkey m"
  "mm_local_runtime_id (record_gossip_frame_received k m) = mm_local_runtime_id m"
  "mm_local_record (record_gossip_frame_received k m) = mm_local_record m"
  "mm_expected_relay_pubkey (record_gossip_frame_received k m) = mm_expected_relay_pubkey m"
  by (simp_all add: mark_connection_state_def record_gossip_frame_received_def update_peer_counters_def)

lemma silent_wf [simp]:
  "node_wf i m \<Longrightarrow> node_wf i (mark_connection_state k st m)"
  "node_wf i m \<Longrightarrow> node_wf i (record_gossip_frame_received k m)"
  unfolding node_wf_def by simp_all (simp_all add: mark_connection_state_def record_gossip_frame_received_def update_peer_counters_def)

lemma silent_view [simp]:
  "view (mark_connection_state k st m) = view m"
  "view (record_gossip_frame_received k m) = view m"
  by (rule ext, simp add: view_def)+

subsection \<open>Records taken in\<close>

lemma member_offer_fields [simp]:
  "mm_local_runtime_id (member_offer rec m) = mm_local_runtime_id m"
  "mm_local_record (member_offer rec m) = mm_local_record m"
  "mm_expected_relay_pubkey (member_offer rec m) = mm_expected_relay_pubkey m"
  by (simp_all add: member_offer_def)

lemma member_offer_wf: "node_wf i m \<Longrightarrow> node_wf i (member_offer rec m)"
proof -
  assume wf: "node_wf i m"
  have "keys_ok (mm_peers (member_offer rec m))"
    using wf by (simp add: node_wf_def member_offer_def apply_gossip_record_def split: option.split)
  with wf show ?thesis unfolding node_wf_def by (auto simp: member.get_offer split: if_splits)
qed

lemma fold_offer_fields [simp]:
  "mm_local_runtime_id (fold member_offer rs m) = mm_local_runtime_id m"
  "mm_local_record (fold member_offer rs m) = mm_local_record m"
  "mm_expected_relay_pubkey (fold member_offer rs m) = mm_expected_relay_pubkey m"
  by (induction rs arbitrary: m) simp_all

lemma fold_offer_wf: "node_wf i m \<Longrightarrow> node_wf i (fold member_offer rs m)"
  by (induction rs arbitrary: m) (simp_all add: member_offer_wf)

lemma fold_offer_fold: "fold (\<lambda>rec. snd \<circ> apply_gossip_record rec) rs m = fold member_offer rs m"
  by (rule arg_cong [where f = "\<lambda>f. fold f rs m"]) (simp add: member_offer_def fun_eq_iff)

text \<open>The record a valid ready record stands for; an invalid one changes no record.\<close>

definition seed_record :: "nat \<Rightarrow> ReadyRecord \<Rightarrow> GossipRecord" where
  "seed_record now ready = (gossip_record now (rr_runtime_id ready) (rr_endpoint_addrs ready) (rr_proto_version ready))
     \<lparr>gr_capabilities := rr_capabilities ready\<rparr>"

definition seed_ok :: "attest_lib \<Rightarrow> MeshMembership \<Rightarrow> ReadyRecord \<Rightarrow> bool" where
  "seed_ok A m ready \<longleftrightarrow> rr_runtime_id ready \<noteq> mm_local_runtime_id m
     \<and> mm_expected_relay_pubkey m = Some (rr_relay_pubkey ready) \<and> ready_verify A ready = Inr ()"

lemma apply_ready_one_cases:
  "\<exists>m0. member_get m0 = member_get m \<and> mm_peers m0 = mm_peers m \<and> mm_local_runtime_id m0 = mm_local_runtime_id m
     \<and> mm_local_record m0 = mm_local_record m \<and> mm_expected_relay_pubkey m0 = mm_expected_relay_pubkey m
     \<and> apply_ready_one A now ready m = (if seed_ok A m ready then member_offer (seed_record now ready) m else m0)"
  by (auto simp: apply_ready_one_def seed_ok_def member_offer_def seed_record_def member_get_def fun_eq_iff
      intro: exI [of _ m] exI [of _ "m\<lparr>mm_foreign_relay_rejections := mm_foreign_relay_rejections m + 1\<rparr>"])

lemma ready_fields [simp]:
  "mm_local_runtime_id (apply_ready_records A now rs m) = mm_local_runtime_id m"
  "mm_local_record (apply_ready_records A now rs m) = mm_local_record m"
  "mm_expected_relay_pubkey (apply_ready_records A now rs m) = mm_expected_relay_pubkey m"
proof -
  have one: "mm_local_runtime_id (apply_ready_one A now r m) = mm_local_runtime_id m
    \<and> mm_local_record (apply_ready_one A now r m) = mm_local_record m
    \<and> mm_expected_relay_pubkey (apply_ready_one A now r m) = mm_expected_relay_pubkey m" for r m
    by (simp add: apply_ready_one_def)
  show "mm_local_runtime_id (apply_ready_records A now rs m) = mm_local_runtime_id m"
    "mm_local_record (apply_ready_records A now rs m) = mm_local_record m"
    "mm_expected_relay_pubkey (apply_ready_records A now rs m) = mm_expected_relay_pubkey m"
    unfolding apply_ready_records_def by (induction rs arbitrary: m) (simp_all add: one)
qed

lemma seed_ok_same: "mm_local_runtime_id m = mm_local_runtime_id m' \<Longrightarrow>
    mm_expected_relay_pubkey m = mm_expected_relay_pubkey m' \<Longrightarrow> seed_ok A m r = seed_ok A m' r"
  by (simp add: seed_ok_def)

lemma apply_ready_wf:
  assumes "node_wf i m"
  shows "node_wf i (apply_ready_records A now rs m)"
  using assms unfolding apply_ready_records_def
proof (induction rs arbitrary: m)
  case (Cons r rs)
  from apply_ready_one_cases [of m A now r] obtain m0 where
    "member_get m0 = member_get m" "mm_peers m0 = mm_peers m" "mm_local_runtime_id m0 = mm_local_runtime_id m"
    "mm_local_record m0 = mm_local_record m"
    "apply_ready_one A now r m = (if seed_ok A m r then member_offer (seed_record now r) m else m0)" by blast
  then have "node_wf i (apply_ready_one A now r m)"
    using Cons.prems member_offer_wf [OF Cons.prems] by (simp add: node_wf_def)
  from Cons.IH [OF this] show ?case by simp
qed simp

lemma seed_record_simps [simp]: "gr_runtime_id (seed_record now r) = rr_runtime_id r" "gr_version (seed_record now r) = 1"
  by (simp_all add: seed_record_def gossip_record_def)

lemma apply_ready_member:
  "member_get (apply_ready_records A now rs m) k = Some rec \<Longrightarrow>
     member_get m k = Some rec \<or> (\<exists>r \<in> set rs. seed_ok A m r \<and> k = rr_runtime_id r \<and> rec = seed_record now r)"
  unfolding apply_ready_records_def
proof (induction rs arbitrary: m)
  case (Cons r rs)
  let ?m = "apply_ready_one A now r m"
  have same: "seed_ok A ?m r' = seed_ok A m r'" for r' by (rule seed_ok_same) (simp_all add: apply_ready_one_def)
  obtain m0 where "member_get m0 = member_get m" "?m = (if seed_ok A m r then member_offer (seed_record now r) m else m0)"
    using apply_ready_one_cases [of m A now r] by blast
  then have "member_get ?m k = Some rec \<Longrightarrow> member_get m k = Some rec \<or> seed_ok A m r \<and> k = rr_runtime_id r \<and> rec = seed_record now r"
    by (cases "seed_ok A m r") (simp_all add: member.get_offer split: if_splits)
  with Cons.IH [of ?m] Cons.prems show ?case by (auto simp: same)
qed simp

subsection \<open>What one step brings\<close>

definition net_wf :: "mesh_net \<Rightarrow> bool" where
  "net_wf n \<longleftrightarrow> (\<forall>i. node_wf i (net_nodes n i))"

definition carries :: "GossipMessage postcard \<Rightarrow> mesh_net \<Rightarrow> runtime_id \<Rightarrow> runtime_id \<Rightarrow> GossipRecord \<Rightarrow> bool" where
  "carries P n i j rec \<longleftrightarrow> (\<exists>p v recs. (i, j, p) \<in> net_frames n \<and> decode_message P p = Inr (Delta v recs) \<and> rec \<in> set recs)"

lemma bump_wf: "gr_runtime_id (update rec) = gr_runtime_id rec \<Longrightarrow> gr_version (update rec) = gr_version rec \<Longrightarrow>
    gr_runtime_id (bump now update rec) = gr_runtime_id rec
    \<and> gr_version (bump now update rec) = saturating_add (gr_version rec) 1"
  by (simp add: bump_def Let_def)

lemma saturating_up: "v \<le> saturating_add v 1" "v < - 1 \<Longrightarrow> v < saturating_add v 1"
proof -
  have bound: "unat v < 2 ^ 64" using unsigned_less [of v, where ?'a = nat] by simp
  then show "v \<le> saturating_add v 1" by (simp add: word_le_nat_alt unat_saturating_add)
  assume "v < - 1"
  then have "unat v < 2 ^ 64 - 1" by (simp add: word_less_nat_alt unsigned_minus_1_eq_mask mask_eq_exp_minus_1)
  then show "v < saturating_add v 1" by (simp add: word_less_nat_alt unat_saturating_add)
qed

lemma decode_encoded:
  assumes "postcard_law P" and "encode_message P msg = Inr p" and "decode_message P p = Inr msg'"
  shows "msg' = msg"
  using assms by (auto simp: encode_message_def decode_message_def postcard_law_def res_simps Let_def split: if_splits)

lemma delta_records: "delta_for hex m entries = Delta v recs \<Longrightarrow> rec \<in> set recs \<Longrightarrow> rec \<in> set (records m)"
  by (auto simp: delta_for_def delta_of_def)

lemma digest_no_delta: "digest hex m \<noteq> Delta v recs"
  by (simp add: digest_def digest_of_def)

lemma on_gossip_view:
  assumes "on_gossip P hex i p m = (reply, m')" and "node_wf j m"
  shows "node_wf j m'" and "mm_local_record m' = mm_local_record m"
    and "mm_expected_relay_pubkey m' = mm_expected_relay_pubkey m"
    and "member_get m' k = Some rec \<Longrightarrow> member_get m k = Some rec
        \<or> k = gr_runtime_id rec \<and> (\<exists>v recs. decode_message P p = Inr (Delta v recs) \<and> rec \<in> set recs)"
    and "postcard_law P \<Longrightarrow> reply = Some q \<Longrightarrow> decode_message P q = Inr (Delta v recs) \<Longrightarrow> rec' \<in> set recs \<Longrightarrow>
        view m (gr_runtime_id rec') = Some rec'"
proof -
  let ?m1 = "record_gossip_frame_received i m"
  have wf1: "node_wf j ?m1" using assms(2) by simp
  have "(reply = None \<or> (\<exists>es. reply = ok_of (encode_message P (delta_for hex ?m1 es)))) \<and>
    (m' = ?m1 \<or> (\<exists>v recs. decode_message P p = Inr (Delta v recs) \<and> m' = fold member_offer recs ?m1))"
    using assms(1) unfolding on_gossip_def Let_def fold_offer_fold
    by (auto split: sum.splits GossipMessage.splits)
  then consider "m' = ?m1" | v recs where "decode_message P p = Inr (Delta v recs)" "m' = fold member_offer recs ?m1" by blast
  then have "node_wf j m' \<and> mm_local_record m' = mm_local_record m \<and> mm_expected_relay_pubkey m' = mm_expected_relay_pubkey m
    \<and> (member_get m' k = Some rec \<longrightarrow> member_get m k = Some rec
        \<or> k = gr_runtime_id rec \<and> (\<exists>v recs. decode_message P p = Inr (Delta v recs) \<and> rec \<in> set recs))"
  proof cases
    case 1
    with wf1 show ?thesis by simp
  next
    case 2
    with fold_offer_wf [OF wf1] member.fold_origin [of recs ?m1 k rec] show ?thesis by auto
  qed
  then show "node_wf j m'" "mm_local_record m' = mm_local_record m" "mm_expected_relay_pubkey m' = mm_expected_relay_pubkey m"
    "member_get m' k = Some rec \<Longrightarrow> member_get m k = Some rec
        \<or> k = gr_runtime_id rec \<and> (\<exists>v recs. decode_message P p = Inr (Delta v recs) \<and> rec \<in> set recs)" by blast+
  assume reply: "postcard_law P" "reply = Some q" "decode_message P q = Inr (Delta v recs)" "rec' \<in> set recs"
  then obtain es where "encode_message P (delta_for hex ?m1 es) = Inr q"
    using \<open>(reply = None \<or> _) \<and> _\<close> ok_of_Some by (metis option.distinct(1))
  from decode_encoded [OF reply(1) this reply(3)] delta_records [of hex ?m1 es v recs rec'] reply(4)
  have "rec' \<in> set (records ?m1)" by simp
  then show "view m (gr_runtime_id rec') = Some rec'" by (simp add: records_view [OF wf1])
qed

definition node_step :: "attest_lib \<Rightarrow> GossipMessage postcard \<Rightarrow> mesh_net \<Rightarrow> runtime_id \<Rightarrow> MeshMembership \<Rightarrow> bool" where
  "node_step A P n i m \<longleftrightarrow> node_wf i m \<and> mm_expected_relay_pubkey m = mm_expected_relay_pubkey (net_nodes n i)
     \<and> (mm_local_record m = mm_local_record (net_nodes n i)
        \<or> gr_version (mm_local_record m) = saturating_add (gr_version (mm_local_record (net_nodes n i))) 1)
     \<and> (\<forall>k rec. member_get m k = Some rec \<longrightarrow> member_get (net_nodes n i) k = Some rec
          \<or> (\<exists>s. carries P n s i rec \<and> k = gr_runtime_id rec)
          \<or> (\<exists>now r. seed_ok A (net_nodes n i) r \<and> k = rr_runtime_id r \<and> rec = seed_record now r))"

lemma node_step_refl: "net_wf n \<Longrightarrow> node_step A P n i (net_nodes n i)"
  by (simp add: node_step_def net_wf_def)

lemma node_step_ready: "net_wf n \<Longrightarrow> node_step A P n i (apply_ready_records A now rs (net_nodes n i))"
  using apply_ready_wf [of i "net_nodes n i" A now rs] apply_ready_member [of A now rs "net_nodes n i"]
  by (fastforce simp: node_step_def net_wf_def)

lemma node_step_known: "net_wf n \<Longrightarrow> is_known_peer A now scan w (net_nodes n i) = (b, m) \<Longrightarrow> node_step A P n i m"
  using node_step_refl [of n A P i] node_step_ready [of n A P i now]
  by (auto simp: is_known_peer_def Let_def split: if_splits option.splits)

lemma node_step_mark: "node_step A P n i m \<Longrightarrow> node_step A P n i (mark_connection_state k st m)"
  by (simp add: node_step_def)

lemma update_local_fields [simp]:
  "mm_local_runtime_id (update_local now f m) = mm_local_runtime_id m"
  "mm_expected_relay_pubkey (update_local now f m) = mm_expected_relay_pubkey m"
  "mm_local_record (update_local now f m) = bump now f (mm_local_record m)"
  "mm_peers (update_local now f m) = mm_peers m"
  "member_get (update_local now f m) = member_get m"
  by (simp_all add: update_local_def member_get_def fun_eq_iff)

lemma node_step_bump:
  assumes "node_wf i m" and "m = net_nodes n i \<or> m = (net_nodes n i)\<lparr>mm_draining := True\<rparr>"
    and "\<And>rec. gr_runtime_id (f rec) = gr_runtime_id rec \<and> gr_version (f rec) = gr_version rec"
  shows "node_step A P n i (update_local now f m)"
proof -
  note b = bump_wf [of f "mm_local_record m" now]
  have "gr_version (mm_local_record m) \<le> gr_version (bump now f (mm_local_record m))"
    using b assms(3) saturating_up(1) by simp
  then have "node_wf i (update_local now f m)"
    using assms(1) b assms(3) unfolding node_wf_def by (auto intro: order_trans)
  then show ?thesis using b assms(2,3) by (auto simp: node_step_def member_get_def)
qed

lemma draining_wf: "node_wf i m \<Longrightarrow> node_wf i (m\<lparr>mm_draining := b\<rparr>)"
proof -
  have "member_get (m\<lparr>mm_draining := b\<rparr>) = member_get m" by (simp add: member_get_def fun_eq_iff)
  then show "node_wf i m \<Longrightarrow> node_wf i (m\<lparr>mm_draining := b\<rparr>)" unfolding node_wf_def by auto
qed

lemma gossip_tick_eq: "gossip_tick P hex now m = (payload, m') \<longleftrightarrow>
    m' = update_local now id m \<and> payload = ok_of (encode_message P (digest hex m'))"
  by (auto simp: gossip_tick_def Let_def)

lemma step_nodes:
  assumes "mesh_step A P hex n n'" and "net_wf n"
  shows "node_step A P n i (net_nodes n' i)"
  using assms(1)
proof (cases rule: mesh_step.cases)
  case (Scan j now rs)
  then show ?thesis using node_step_ready [OF assms(2)] node_step_refl [OF assms(2)] by (simp add: set_node_def)
next
  case (Dial rec j now scan m)
  then show ?thesis
    using node_step_mark [OF node_step_known [OF assms(2) Dial(3)]] node_step_mark [OF node_step_refl [OF assms(2)]]
      node_step_refl [OF assms(2)] by (auto simp: set_node_def)
next
  case (Tick now j payload m targets)
  have "node_wf j (net_nodes n j)" using assms(2) by (simp add: net_wf_def)
  from node_step_bump [OF this, of n id A P now] Tick node_step_refl [OF assms(2)] show ?thesis
    by (auto simp: set_node_def gossip_tick_eq)
next
  case (Deliver s j p reply m)
  have wf: "node_wf j (net_nodes n j)" using assms(2) by (simp add: net_wf_def)
  note g = on_gossip_view [OF Deliver(3) wf]
  have "node_step A P n j m"
    using g(1-4) Deliver(2) unfolding node_step_def carries_def by blast
  then show ?thesis using Deliver node_step_refl [OF assms(2)] by (simp add: set_node_def)
next
  case (Drain j now)
  have "node_wf j (net_nodes n j)" using assms(2) by (simp add: net_wf_def)
  then have "node_wf j ((net_nodes n j)\<lparr>mm_draining := True\<rparr>)" by (rule draining_wf)
  from node_step_bump [OF this, of n "gr_draining_update (\<lambda>_. True)" A P now] Drain node_step_refl [OF assms(2)]
  show ?thesis by (simp add: set_node_def begin_drain_def)
next
  case (Hangup c)
  then show ?thesis using node_step_refl [OF assms(2)] by simp
qed

lemma step_wf: "mesh_step A P hex n n' \<Longrightarrow> net_wf n \<Longrightarrow> net_wf n'"
  using step_nodes [of A P hex n n'] by (simp add: net_wf_def node_step_def)

lemma step_carries:
  assumes "mesh_step A P hex n n'" and "net_wf n" and "postcard_law P" and "carries P n' s d rec"
  shows "carries P n s d rec \<or> view (net_nodes n s) (gr_runtime_id rec) = Some rec"
  using assms(1)
proof (cases rule: mesh_step.cases)
  case (Tick now j payload m targets)
  have "carries P n s d rec"
  proof (rule ccontr)
    assume "\<not> carries P n s d rec"
    with assms(4) Tick obtain p v recs where p: "payload = Some p" "decode_message P p = Inr (Delta v recs)"
      by (auto simp: carries_def set_node_def)
    then have "encode_message P (digest hex m) = Inr p" using Tick(2) by (metis gossip_tick_eq ok_of_Some)
    from decode_encoded [OF assms(3) this p(2)] digest_no_delta [of hex m v recs] show False by simp
  qed
  then show ?thesis ..
next
  case (Deliver i j p reply m)
  have wf: "node_wf j (net_nodes n j)" using assms(2) by (simp add: net_wf_def)
  note g = on_gossip_view(5) [OF Deliver(3) wf assms(3)]
  from assms(4) Deliver(1) g show ?thesis by (auto simp: carries_def set_node_def)
qed (use assms(4) in \<open>simp_all add: carries_def set_node_def\<close>)

lemma step_links:
  assumes "mesh_step A P hex n n'"
  shows "(s, d, p) \<in> net_frames n' \<Longrightarrow> (s, d, p) \<in> net_frames n \<or> connected n s d \<or> (\<exists>q. (d, s, q) \<in> net_frames n)"
    and "(i, j) \<in> net_conns n' \<Longrightarrow> (i, j) \<in> net_conns n
      \<or> (\<exists>rec \<in> set (records (net_nodes n i)). j = gr_runtime_id rec \<and> j \<noteq> mm_local_runtime_id (net_nodes n i))"
  using assms by (cases rule: mesh_step.cases; auto simp: set_node_def dial_candidates_def)+

section \<open>No replica is ahead of its owner\<close>

definition fits_owner :: "mesh_net \<Rightarrow> GossipRecord \<Rightarrow> bool" where
  "fits_owner n rec \<longleftrightarrow> (let own = mm_local_record (net_nodes n (gr_runtime_id rec))
     in gr_version rec \<le> gr_version own \<and> (gr_version rec = gr_version own \<and> 1 < gr_version rec \<longrightarrow> rec = own))"

definition consistent :: "GossipMessage postcard \<Rightarrow> mesh_net \<Rightarrow> bool" where
  "consistent P n \<longleftrightarrow> net_wf n \<and> (\<forall>i k rec. member_get (net_nodes n i) k = Some rec \<longrightarrow> fits_owner n rec)
     \<and> (\<forall>s d rec. carries P n s d rec \<longrightarrow> fits_owner n rec)"

text \<open>No runtime has reached the greatest version, where a record stops counting.\<close>

definition unsaturated :: "mesh_net \<Rightarrow> bool" where
  "unsaturated n \<longleftrightarrow> (\<forall>i. gr_version (mm_local_record (net_nodes n i)) < - 1)"

lemma step_local:
  assumes "mesh_step A P hex n n'" and "net_wf n"
  shows "mm_local_record (net_nodes n' i) = mm_local_record (net_nodes n i)
    \<or> gr_version (mm_local_record (net_nodes n' i)) = saturating_add (gr_version (mm_local_record (net_nodes n i))) 1"
  using step_nodes [OF assms, of i] by (simp add: node_step_def)

lemma step_unsaturated:
  assumes "mesh_step A P hex n n'" and "net_wf n" and "unsaturated n'"
  shows "unsaturated n"
  unfolding unsaturated_def
proof
  fix i
  from step_local [OF assms(1,2), of i] have "gr_version (mm_local_record (net_nodes n i)) \<le> gr_version (mm_local_record (net_nodes n' i))"
    using saturating_up(1) [of "gr_version (mm_local_record (net_nodes n i))"] by (elim disjE) simp_all
  also have "\<dots> < - 1" using assms(3) unfolding unsaturated_def by blast
  finally show "gr_version (mm_local_record (net_nodes n i)) < - 1" .
qed

lemma step_fits_owner:
  assumes "mesh_step A P hex n n'" and "net_wf n" and "unsaturated n" and "fits_owner n rec"
  shows "fits_owner n' rec"
proof -
  let ?own = "mm_local_record (net_nodes n (gr_runtime_id rec))" and ?own' = "mm_local_record (net_nodes n' (gr_runtime_id rec))"
  have fits: "gr_version rec \<le> gr_version ?own" "gr_version rec = gr_version ?own \<and> 1 < gr_version rec \<Longrightarrow> rec = ?own"
    using assms(4) unfolding fits_owner_def Let_def by blast+
  from step_local [OF assms(1,2), of "gr_runtime_id rec"] show ?thesis
  proof
    assume "?own' = ?own"
    with fits show ?thesis unfolding fits_owner_def Let_def by metis
  next
    assume "gr_version ?own' = saturating_add (gr_version ?own) 1"
    moreover have "gr_version ?own < - 1" using assms(3) unfolding unsaturated_def by blast
    ultimately have "gr_version ?own < gr_version ?own'" using saturating_up(2) by metis
    with fits(1) have "gr_version rec < gr_version ?own'" by (rule le_less_trans)
    then show ?thesis unfolding fits_owner_def Let_def by (simp add: less_le)
  qed
qed

lemma own_fits: "net_wf n \<Longrightarrow> fits_owner n (mm_local_record (net_nodes n i))"
proof -
  assume "net_wf n"
  then have "gr_runtime_id (mm_local_record (net_nodes n i)) = i" unfolding net_wf_def node_wf_def by blast
  then show ?thesis by (simp add: fits_owner_def)
qed

lemma step_consistent:
  assumes "mesh_step A P hex n n'" and "consistent P n" and "unsaturated n'" and "postcard_law P"
  shows "consistent P n'"
proof -
  have wf: "net_wf n" and held: "\<And>i k rec. member_get (net_nodes n i) k = Some rec \<Longrightarrow> fits_owner n rec"
    and sent: "\<And>s d rec. carries P n s d rec \<Longrightarrow> fits_owner n rec" using assms(2) by (auto simp: consistent_def)
  have unsat: "unsaturated n" using step_unsaturated [OF assms(1) wf assms(3)] .
  note later = step_fits_owner [OF assms(1) wf unsat]
  have wf': "net_wf n'" using step_wf [OF assms(1) wf] .
  have "fits_owner n' rec" if "member_get (net_nodes n' i) k = Some rec" for i k rec
  proof -
    from step_nodes [OF assms(1) wf, of i] that consider "member_get (net_nodes n i) k = Some rec"
      | s where "carries P n s i rec" | now r where "rec = seed_record now r"
      unfolding node_step_def by blast
    then show ?thesis
    proof cases
      case 3
      have "1 \<le> gr_version (mm_local_record (net_nodes n' j))" for j using wf' unfolding net_wf_def node_wf_def by blast
      with 3 show ?thesis by (simp add: fits_owner_def)
    qed (use held sent later in blast)+
  qed
  moreover have "fits_owner n' rec" if "carries P n' s d rec" for s d rec
  proof -
    from step_carries [OF assms(1) wf assms(4) that] show ?thesis
    proof
      assume "view (net_nodes n s) (gr_runtime_id rec) = Some rec"
      then have "fits_owner n rec" using held own_fits [OF wf, of s] by (auto simp: view_def split: if_splits)
      then show ?thesis by (rule later)
    qed (use sent later in blast)
  qed
  ultimately show ?thesis using wf' by (simp add: consistent_def)
qed

lemma start_consistent: "mesh_start anchor n \<Longrightarrow> consistent P n"
proof -
  assume start: "mesh_start anchor n"
  have "node_wf i (net_nodes n i) \<and> member_get (net_nodes n i) k = None" for i k
  proof -
    from start obtain now addrs v where "net_nodes n i
        = with_expected_relay_pubkey (anchor i) (membership_new (gossip_record now i addrs v))"
      unfolding mesh_start_def by blast
    then show ?thesis
      by (simp add: node_wf_def with_expected_relay_pubkey_def membership_new_def gossip_record_def member_get_def)
  qed
  then show ?thesis using start by (simp add: consistent_def net_wf_def carries_def mesh_start_def)
qed

lemma reachable_wf: "(mesh_step A P hex)\<^sup>*\<^sup>* n0 n \<Longrightarrow> mesh_start anchor n0 \<Longrightarrow> net_wf n"
  by (induction rule: rtranclp_induct) (auto intro: step_wf start_consistent [unfolded consistent_def, THEN conjunct1])

lemma reachable_consistent:
  "(mesh_step A P hex)\<^sup>*\<^sup>* n0 n \<Longrightarrow> mesh_start anchor n0 \<Longrightarrow> postcard_law P \<Longrightarrow> unsaturated n \<Longrightarrow> consistent P n"
proof (induction rule: rtranclp_induct)
  case (step n n')
  from step_unsaturated [OF step.hyps(2) reachable_wf [OF step.hyps(1) step.prems(1)] step.prems(3)]
  show ?case using step_consistent [OF step.hyps(2)] step by blast
qed (rule start_consistent)

text \<open>
  No runtime ever believes something its peer did not publish: however frames are lost,
  repeated or delayed, the record a runtime holds of another never has a version beyond the
  owner's, and when it has the owner's version it is the owner's record, field by field.
  (A record of version 1 may still be the registry's hint.)
\<close>

theorem replicas_never_ahead:
  assumes "(mesh_step A P hex)\<^sup>*\<^sup>* n0 n" and "mesh_start anchor n0" and "postcard_law P" and "unsaturated n"
    and "member_get (net_nodes n i) k = Some rec"
  shows "gr_version rec \<le> gr_version (mm_local_record (net_nodes n k))
    \<and> (gr_version rec = gr_version (mm_local_record (net_nodes n k)) \<and> 1 < gr_version rec
        \<longrightarrow> rec = mm_local_record (net_nodes n k))"
proof -
  have "consistent P n" by (rule reachable_consistent [OF assms(1-4)])
  then have fits: "fits_owner n rec" and id: "gr_runtime_id rec = k"
    using assms(5) unfolding consistent_def net_wf_def node_wf_def by blast+
  from fits show ?thesis unfolding fits_owner_def Let_def id by blast
qed

text \<open>
  Gossip brings a runtime up to date: in any state of the mesh, once a digest of one
  runtime reaches another and the delta it answers with gets back, the first holds exactly
  the other's current record, and of every further runtime the other knows, a record at least
  as new as the other's. So a lost frame only delays the next exchange.
\<close>

theorem exchange_brings_up_to_date:
  assumes "(mesh_step A P hex)\<^sup>*\<^sup>* n0 n" and "mesh_start anchor n0" and "postcard_law P" and "unsaturated n"
    and "i \<noteq> j" and "1 < gr_version (mm_local_record (net_nodes n j))"
    and "encode_message P (digest hex (net_nodes n i)) = Inr p"
    and "on_gossip P hex i p (net_nodes n j) = (Some q, mj)" and "on_gossip P hex j q (net_nodes n i) = (reply, mi)"
  shows "member_get mi j = Some (mm_local_record (net_nodes n j))
    \<and> (\<forall>k rec. k \<noteq> i \<and> member_get (net_nodes n j) k = Some rec
         \<longrightarrow> (\<exists>new. member_get mi k = Some new \<and> gr_version rec \<le> gr_version new))"
proof -
  let ?mi = "net_nodes n i" and ?mj = "net_nodes n j"
  have cons: "consistent P n" by (rule reachable_consistent [OF assms(1-4)])
  then have wf: "node_wf i ?mi" "node_wf j ?mj" unfolding consistent_def net_wf_def by blast+
  obtain entries where entries: "digest hex ?mi = Digest GOSSIP_PAYLOAD_VERSION entries"
    "set entries = (\<lambda>rec. (gr_runtime_id rec, gr_version rec)) ` set (records ?mi)"
    by (simp add: digest_def digest_of_def)
  have "decode_message P p = Inr (digest hex ?mi)"
    using assms(3,7) by (auto simp: encode_message_def decode_message_def postcard_law_def res_simps entries(1))
  then have "Some q = ok_of (encode_message P (delta_for hex (record_gossip_frame_received i ?mj) entries))"
    using assms(8) by (auto simp: on_gossip_def Let_def entries(1))
  then have q: "encode_message P (delta_for hex (record_gossip_frame_received i ?mj) entries) = Inr q"
    by (metis ok_of_Some)
  let ?newer = "\<lambda>rec. case map_of (rev entries) (gr_runtime_id rec) of None \<Rightarrow> True | Some remote \<Rightarrow> remote < gr_version rec"
  obtain recs where delta: "delta_for hex (record_gossip_frame_received i ?mj) entries = Delta GOSSIP_PAYLOAD_VERSION recs"
    "set recs = {rec. view ?mj (gr_runtime_id rec) = Some rec \<and> ?newer rec}"
    using records_view [of j "record_gossip_frame_received i ?mj"] wf(2)
    by (auto simp: delta_for_def delta_of_def)
  have "decode_message P q = Inr (Delta GOSSIP_PAYLOAD_VERSION recs)"
    using assms(3) q by (auto simp: encode_message_def decode_message_def postcard_law_def res_simps delta(1))
  then have mi: "mi = fold member_offer recs (record_gossip_frame_received j ?mi)"
    using assms(9) by (simp add: on_gossip_def Let_def fold_offer_fold)
  have known: "\<exists>new. member_get mi k = Some new \<and> gr_version rec \<le> gr_version new"
    if rec: "view ?mj k = Some rec" and "k \<noteq> i" and id: "gr_runtime_id rec = k" for k rec
  proof (cases "?newer rec")
    case True
    then have "rec \<in> set recs" using delta(2) rec id by simp
    from member.fold_takes [OF this, of "record_gossip_frame_received j ?mi"] \<open>k \<noteq> i\<close> wf(1) show ?thesis
      unfolding mi by (auto simp: node_wf_def id word_le_nat_alt)
  next
    case False
    then obtain remote where remote: "map_of (rev entries) k = Some remote" "gr_version rec \<le> remote"
      by (auto simp: id split: option.splits)
    then have "(k, remote) \<in> set entries" using map_of_SomeD [OF remote(1)] by simp
    then obtain old where old: "old \<in> set (records ?mi)" "gr_runtime_id old = k" "gr_version old = remote"
      by (auto simp: entries(2))
    then have "member_get (record_gossip_frame_received j ?mi) k = Some old"
      using records_view [OF wf(1), of old] \<open>k \<noteq> i\<close> wf(1) by (auto simp: view_def node_wf_def)
    from member.fold_mono [OF this, of recs] remote(2) old(3) show ?thesis
      unfolding mi by (auto simp: word_le_nat_alt)
  qed
  have own: "view ?mj j = Some (mm_local_record ?mj)" "gr_runtime_id (mm_local_record ?mj) = j"
    using wf(2) by (simp_all add: view_def node_wf_def)
  from known [OF own(1) _ own(2)] assms(5) obtain new where
    new: "member_get mi j = Some new" "gr_version (mm_local_record ?mj) \<le> gr_version new" by auto
  have "new = mm_local_record ?mj"
  proof -
    from member.fold_origin [of recs "record_gossip_frame_received j ?mi" j new] new(1)
    consider "member_get ?mi j = Some new" | "new \<in> set recs" "gr_runtime_id new = j" by (auto simp: mi)
    then show ?thesis
    proof cases
      case 1
      with cons have "fits_owner n new" "gr_runtime_id new = j"
        unfolding consistent_def net_wf_def node_wf_def by blast+
      then have "gr_version new \<le> gr_version (mm_local_record ?mj)"
        "gr_version new = gr_version (mm_local_record ?mj) \<and> 1 < gr_version new \<longrightarrow> new = mm_local_record ?mj"
        unfolding fits_owner_def Let_def by metis+
      with new(2) assms(6) show ?thesis by simp
    next
      case 2
      with own(1) show ?thesis by (simp add: delta(2))
    qed
  qed
  moreover have "view ?mj k = Some rec \<and> gr_runtime_id rec = k" if "member_get ?mj k = Some rec" for k rec
    using that wf(2) unfolding view_def node_wf_def by (auto split: if_splits)
  ultimately show ?thesis using new(1) known by blast
qed

section \<open>Deployments stay apart\<close>

text \<open>A relay key signs the runtime ids of its own deployment only, and nobody forges it.\<close>

definition honest_keys :: "attest_lib \<Rightarrow> (runtime_id \<Rightarrow> string) \<Rightarrow> bool" where
  "honest_keys A anchor \<longleftrightarrow> (\<forall>r. ready_verify A r = Inr () \<longrightarrow> anchor (rr_runtime_id r) = rr_relay_pubkey r)"

definition apart :: "GossipMessage postcard \<Rightarrow> (runtime_id \<Rightarrow> string) \<Rightarrow> mesh_net \<Rightarrow> bool" where
  "apart P anchor n \<longleftrightarrow> (\<forall>i. mm_expected_relay_pubkey (net_nodes n i) = Some (anchor i))
     \<and> (\<forall>i k rec. member_get (net_nodes n i) k = Some rec \<longrightarrow> anchor k = anchor i)
     \<and> (\<forall>s d rec. carries P n s d rec \<longrightarrow> anchor (gr_runtime_id rec) = anchor s)
     \<and> (\<forall>s d p. (s, d, p) \<in> net_frames n \<longrightarrow> anchor s = anchor d)
     \<and> (\<forall>i j. (i, j) \<in> net_conns n \<longrightarrow> anchor i = anchor j)"

lemma step_apart:
  assumes "mesh_step A P hex n n'" and "net_wf n" and "postcard_law P" and "honest_keys A anchor" and "apart P anchor n"
  shows "apart P anchor n'"
proof -
  have anch: "mm_expected_relay_pubkey (net_nodes n i) = Some (anchor i)"
    and held: "member_get (net_nodes n i) k = Some rec \<Longrightarrow> anchor k = anchor i"
    and sent: "carries P n s d rec \<Longrightarrow> anchor (gr_runtime_id rec) = anchor s"
    and frames: "(s, d, p) \<in> net_frames n \<Longrightarrow> anchor s = anchor d"
    and conns: "(i, j) \<in> net_conns n \<Longrightarrow> anchor i = anchor j" for i j k s d p rec
    using assms(5) unfolding apart_def by blast+
  have wf: "node_wf i (net_nodes n i)" for i using assms(2) by (simp add: net_wf_def)
  have seen: "anchor k = anchor i" if "view (net_nodes n i) k = Some rec" for i k rec
    using that held wf [of i] unfolding view_def node_wf_def by (auto split: if_splits)
  note nodes = step_nodes [OF assms(1,2)]
  show ?thesis unfolding apart_def
  proof (intro conjI allI impI)
    fix i show "mm_expected_relay_pubkey (net_nodes n' i) = Some (anchor i)"
      using nodes [of i] anch [of i] by (simp add: node_step_def)
  next
    fix i k rec assume "member_get (net_nodes n' i) k = Some rec"
    with nodes [of i] consider "member_get (net_nodes n i) k = Some rec"
      | s where "carries P n s i rec" "k = gr_runtime_id rec"
      | r where "seed_ok A (net_nodes n i) r" "k = rr_runtime_id r" unfolding node_step_def by blast
    then show "anchor k = anchor i"
    proof cases
      case 2
      then have "anchor s = anchor i" using frames by (auto simp: carries_def)
      with 2 sent show ?thesis by simp
    next
      case 3
      then show ?thesis using assms(4) anch [of i] by (auto simp: seed_ok_def honest_keys_def)
    qed (rule held)
  next
    fix s d rec assume "carries P n' s d rec"
    from step_carries [OF assms(1-3) this] sent seen show "anchor (gr_runtime_id rec) = anchor s" by blast
  next
    fix s d p assume "(s, d, p) \<in> net_frames n'"
    from step_links(1) [OF assms(1) this] frames conns show "anchor s = anchor d"
      unfolding connected_def by metis
  next
    fix i j assume "(i, j) \<in> net_conns n'"
    from step_links(2) [OF assms(1) this] show "anchor i = anchor j"
    proof
      assume "\<exists>rec \<in> set (records (net_nodes n i)). j = gr_runtime_id rec \<and> j \<noteq> mm_local_runtime_id (net_nodes n i)"
      then obtain rec where "rec \<in> set (records (net_nodes n i))" "j = gr_runtime_id rec" by blast
      then show ?thesis using records_view [OF wf, of rec i] seen [of i j rec] by simp
    qed (rule conns)
  qed
qed

text \<open>
  Deployments that share a Redis and a network do not mix: if relay keys sign only their
  own runtimes, then whatever ready records a runtime reads and whatever is gossiped, every
  runtime in its table belongs to its own deployment.
\<close>

theorem deployments_stay_apart:
  assumes "(mesh_step A P hex)\<^sup>*\<^sup>* n0 n" and "mesh_start anchor n0" and "postcard_law P" and "honest_keys A anchor"
    and "has_peer k (net_nodes n i)"
  shows "anchor k = anchor i"
proof -
  have "apart P anchor n0"
  proof -
    have "mm_expected_relay_pubkey (net_nodes n0 i) = Some (anchor i) \<and> member_get (net_nodes n0 i) k = None" for i k
    proof -
      from assms(2) obtain now addrs v where "net_nodes n0 i
          = with_expected_relay_pubkey (anchor i) (membership_new (gossip_record now i addrs v))"
        unfolding mesh_start_def by blast
      then show ?thesis by (simp add: with_expected_relay_pubkey_def membership_new_def member_get_def)
    qed
    then show ?thesis using assms(2) by (simp add: apart_def mesh_start_def carries_def)
  qed
  with assms(1) have "apart P anchor n"
  proof (induction rule: rtranclp_induct)
    case (step n n')
    from step_apart [OF step.hyps(2) reachable_wf [OF step.hyps(1) assms(2)] assms(3,4)] step show ?case by blast
  qed
  moreover obtain peer where "map_of (mm_peers (net_nodes n i)) k = Some peer" using assms(5) by (auto simp: has_peer_def)
  then have "member_get (net_nodes n i) k = Some (ps_record peer)" by (simp add: member_get_def)
  ultimately show ?thesis unfolding apart_def by blast
qed

section \<open>The theorems at work\<close>

text \<open>Two runtimes of one deployment, and a third of another.\<close>

definition demo_anchor :: "runtime_id \<Rightarrow> string" where
  "demo_anchor i = (if i = 1 \<or> i = 2 then ''ka'' else ''kb'')"

definition demo_attest :: attest_lib where
  "demo_attest = \<lparr>al_hex = (\<lambda>w. if w = 1 then ''1'' else if w = 2 then ''2'' else ''0''), al_pk_from_hex = Some, al_pk_hex = (\<lambda>k. k), al_xonly = Some,
     al_sig_from_str = Some, al_sha256 = (\<lambda>t. t),
     al_verify = (\<lambda>sig msg x. x = ''ka'' \<and> (sig = ''s1'' \<and> msg = ATTESTATION_CONTEXT @ [char_of (10 :: nat)] @ ''runtime_pubkey=1''
          @ [char_of (10 :: nat)] @ ''relay_pubkey=ka''
        \<or> sig = ''s2'' \<and> msg = ATTESTATION_CONTEXT @ [char_of (10 :: nat)] @ ''runtime_pubkey=2''
          @ [char_of (10 :: nat)] @ ''relay_pubkey=ka'')),
     al_public_key = (\<lambda>k. k), al_sign = (\<lambda>k m. ''s'')\<rparr>"

definition demo_net :: mesh_net where
  "demo_net = \<lparr>net_nodes = (\<lambda>i. with_expected_relay_pubkey (demo_anchor i) (membership_new (gossip_record 0 i [] 1))),
     net_conns = {}, net_frames = {}\<rparr>"

lemma demo_start: "mesh_start demo_anchor demo_net"
  by (auto simp: mesh_start_def demo_net_def)

definition demo_ready :: ReadyRecord where
  "demo_ready = \<lparr>rr_runtime_id = 2, rr_runtime_pubkey = ''2'', rr_relay_pubkey = ''ka'', rr_relay_sig = ''s2'',
     rr_endpoint_addrs = [], rr_proto_version = 1, rr_capabilities = []\<rparr>"

lemma demo_ready_ok: "ready_verify demo_attest demo_ready = Inr ()"
  by (simp add: ready_verify_def demo_ready_def demo_attest_def verify_attestation_def attestation_message_def
      attestation_preimage_def)

lemma demo_honest: "honest_keys demo_attest demo_anchor"
  unfolding honest_keys_def
proof (intro allI impI)
  fix r assume ok: "ready_verify demo_attest r = Inr ()"
  show "demo_anchor (rr_runtime_id r) = rr_relay_pubkey r"
    using ok by (auto simp: ready_verify_def verify_attestation_def demo_attest_def attestation_message_def
        attestation_preimage_def demo_anchor_def split: if_splits)
qed

lemma demo_scan: "has_peer 2 (apply_ready_records demo_attest 5 [demo_ready] (net_nodes demo_net 1))"
proof -
  have "seed_ok demo_attest (net_nodes demo_net 1) demo_ready"
    using demo_ready_ok by (simp add: seed_ok_def demo_net_def demo_anchor_def demo_ready_def with_expected_relay_pubkey_def
        membership_new_def gossip_record_def)
  then show ?thesis
    using demo_ready_ok by (simp add: apply_ready_records_def apply_ready_one_def seed_ok_def has_peer_def
        apply_gossip_record_def demo_ready_def gossip_record_def demo_net_def with_expected_relay_pubkey_def membership_new_def)
qed

definition demo_gossip :: "GossipMessage \<Rightarrow> GossipMessage \<Rightarrow> GossipMessage postcard" where
  "demo_gossip a b = \<lparr>pc_write = (\<lambda>m. if m = a then Some ''a'' else if m = b then Some ''b'' else None),
     pc_read = (\<lambda>t. if t = ''a'' then Some a else if t = ''b'' then Some b else None)\<rparr>"

lemma demo_gossip_law: "postcard_law (demo_gossip a b)"
  by (auto simp: postcard_law_def demo_gossip_def split: if_splits)

lemma deployments_stay_apart_witness:
  "has_peer 2 (apply_ready_records demo_attest 5 [demo_ready] (net_nodes demo_net 1)) \<and> demo_anchor 2 = demo_anchor 1"
proof -
  let ?n = "set_node 1 (apply_ready_records demo_attest 5 [demo_ready] (net_nodes demo_net 1)) demo_net"
  let ?P = "demo_gossip (Delta 1 []) (Delta 1 [])"
  have reach: "(mesh_step demo_attest ?P (\<lambda>_. []))\<^sup>*\<^sup>* demo_net ?n" by (rule r_into_rtranclp, rule Scan)
  have "has_peer 2 (net_nodes ?n 1)" using demo_scan by (simp add: set_node_def)
  from deployments_stay_apart [OF reach demo_start demo_gossip_law demo_honest this] demo_scan show ?thesis by blast
qed

lemma small_versions: "(1 :: u64) < - 1" "(2 :: u64) < - 1"
  by (simp_all add: word_less_nat_alt unsigned_minus_1_eq_mask mask_eq_exp_minus_1)

lemma demo_local: "mm_local_record (net_nodes demo_net i) = gossip_record 0 i [] 1"
  by (simp add: demo_net_def with_expected_relay_pubkey_def membership_new_def)

lemma replicas_never_ahead_witness:
  "\<exists>rec. member_get (apply_ready_records demo_attest 5 [demo_ready] (net_nodes demo_net 1)) 2 = Some rec
    \<and> gr_version rec \<le> gr_version (mm_local_record (net_nodes demo_net 2))"
proof -
  let ?n = "set_node 1 (apply_ready_records demo_attest 5 [demo_ready] (net_nodes demo_net 1)) demo_net"
  let ?P = "demo_gossip (Delta 1 []) (Delta 1 [])"
  have reach: "(mesh_step demo_attest ?P (\<lambda>_. []))\<^sup>*\<^sup>* demo_net ?n" by (rule r_into_rtranclp, rule Scan)
  have own: "mm_local_record (net_nodes ?n i) = gossip_record 0 i [] 1" for i by (simp add: set_node_def demo_local)
  have unsat: "unsaturated ?n" unfolding unsaturated_def own by (simp add: gossip_record_def small_versions)
  obtain rec where rec: "member_get (net_nodes ?n 1) 2 = Some rec"
    using demo_scan by (auto simp: set_node_def has_peer_def member_get_def)
  from replicas_never_ahead [OF reach demo_start demo_gossip_law unsat rec] rec show ?thesis
    by (auto simp: own demo_local set_node_def)
qed

lemma exchange_brings_up_to_date_witness:
  "\<exists>P p q mi mj reply m2. gossip_tick P (\<lambda>w. []) 9 (net_nodes demo_net 2) = (None, m2)
    \<and> on_gossip P (\<lambda>w. []) 1 p m2 = (Some q, mj) \<and> on_gossip P (\<lambda>w. []) 2 q (net_nodes demo_net 1) = (reply, mi)
    \<and> member_get mi 2 = Some (mm_local_record m2)"
proof -
  let ?hex = "\<lambda>w :: runtime_id. []"
  let ?m2 = "update_local 9 id (net_nodes demo_net 2)"
  let ?d = "digest ?hex (net_nodes demo_net 1)"
  obtain v es where d: "?d = Digest v es" by (simp add: digest_def digest_of_def)
  let ?delta = "delta_for ?hex (record_gossip_frame_received 1 ?m2) es"
  have v: "v = GOSSIP_PAYLOAD_VERSION" using d by (simp add: digest_def digest_of_def)
  obtain recs where delta: "?delta = Delta GOSSIP_PAYLOAD_VERSION recs" by (simp add: delta_for_def delta_of_def)
  let ?P = "demo_gossip ?d ?delta"
  have enc: "encode_message ?P ?d = Inr ''a''" "encode_message ?P ?delta = Inr ''b''" "encode_message ?P (digest ?hex ?m2) = Inl EncodeError"
  proof -
    have "gr_version (mm_local_record ?m2) \<noteq> 1" by (simp add: demo_local gossip_record_def bump_def Let_def saturating_add_def)
    then have "digest ?hex ?m2 \<noteq> ?d"
      by (simp add: digest_def digest_of_def records_def demo_local update_local_def demo_net_def with_expected_relay_pubkey_def
          membership_new_def gossip_record_def)
    then show "encode_message ?P ?d = Inr ''a''" "encode_message ?P ?delta = Inr ''b''"
      "encode_message ?P (digest ?hex ?m2) = Inl EncodeError"
      using d delta by (simp_all add: encode_message_def demo_gossip_def digest_no_delta)
  qed
  have dec: "decode_message ?P ''a'' = Inr ?d" "decode_message ?P ''b'' = Inr ?delta"
    using d delta v by (simp_all add: decode_message_def demo_gossip_def)
  let ?n = "set_node 2 ?m2 (demo_net\<lparr>net_frames := net_frames demo_net \<union> {(2, j, p) | j p. j \<in> {} \<and> None = Some p}\<rparr>)"
  have tick: "gossip_tick ?P ?hex 9 (net_nodes demo_net 2) = (None, ?m2)"
    using enc(3) by (simp add: gossip_tick_eq)
  have reach: "(mesh_step demo_attest ?P ?hex)\<^sup>*\<^sup>* demo_net ?n"
    by (rule r_into_rtranclp, rule Tick [OF tick]) simp
  have own: "mm_local_record (net_nodes ?n i) = (if i = 2 then bump 9 id (gossip_record 0 2 [] 1) else gossip_record 0 i [] 1)" for i
    by (simp add: set_node_def demo_local)
  have two: "gr_version (bump 9 id (gossip_record 0 2 [] 1)) = 2"
    by (simp add: bump_def Let_def gossip_record_def saturating_add_def)
  have unsat: "unsaturated ?n" unfolding unsaturated_def own using two by (auto simp: gossip_record_def small_versions)
  have nodes: "net_nodes ?n 1 = net_nodes demo_net 1" "net_nodes ?n 2 = ?m2" by (simp_all add: set_node_def)
  have reply: "on_gossip ?P ?hex 1 ''a'' (net_nodes ?n 2) = (Some ''b'', record_gossip_frame_received 1 ?m2)"
    unfolding nodes using dec(1) d enc(2) by (simp add: on_gossip_def Let_def)
  obtain r mi where answer: "on_gossip ?P ?hex 2 ''b'' (net_nodes ?n 1) = (r, mi)" by fastforce
  have sent: "encode_message ?P (digest ?hex (net_nodes ?n 1)) = Inr ''a''" unfolding nodes by (rule enc(1))
  have new: "1 < gr_version (mm_local_record (net_nodes ?n 2))" unfolding own using two by simp
  have "(1 :: runtime_id) \<noteq> 2" by simp
  from exchange_brings_up_to_date [OF reach demo_start demo_gossip_law unsat this new sent reply answer]
  have "member_get mi 2 = Some (mm_local_record (net_nodes ?n 2))" by blast
  then show ?thesis using tick reply answer unfolding nodes by blast
qed

end
