(* ===== verification/Conformance.thy ===== *)
theory Conformance
  imports Nostr_Event
begin

text \<open>
  \<open>buzz-conformance\<close>: the trace schema (\<open>lib.rs\<close>), the rules a step is judged by
  (\<open>transitions.rs\<close>) and the replay of a whole trace (\<open>checker.rs\<close>). UUID labels are the
  UUIDs, opaque labels their strings. An error carries its step and a short text or the
  labels it names, without the prose around them. The set of required actions is a list of
  its members.
\<close>

section \<open>Schema\<close>

type_synonym CommunityLabel = uuid
type_synonym ChannelLabel = uuid
type_synonym OpaqueId = string
type_synonym HostLabel = string
type_synonym ActorLabel = string

datatype Verdict = Allow | Deny

datatype SanitizedReason = RestrictedReason | InvalidReason | ServerErrorReason

record AbstractState =
  as_resolved_community :: CommunityLabel
  as_bound_host :: HostLabel
  as_actor :: ActorLabel

datatype TraceAction =
    WriteInsert OpaqueId ChannelLabel "CommunityLabel option"
  | WriteInsertGlobal OpaqueId "CommunityLabel option"
  | WriteDuplicate OpaqueId ChannelLabel "CommunityLabel option"
  | SanitizedError SanitizedReason
  | AuthCheck ChannelLabel "CommunityLabel option" Verdict
  | ReadMessageRows "ChannelLabel option" "CommunityLabel list"
  | ReadByIdRows "ChannelLabel option" "CommunityLabel list"
  | ReadHostFeedRows "CommunityLabel list"
  | ImplBug string

fun action_kind :: "TraceAction \<Rightarrow> string" where
  "action_kind (WriteInsert _ _ _) = ''write_insert''"
| "action_kind (WriteInsertGlobal _ _) = ''write_insert_global''"
| "action_kind (WriteDuplicate _ _ _) = ''write_duplicate''"
| "action_kind (SanitizedError _) = ''sanitized_error''"
| "action_kind (AuthCheck _ _ _) = ''auth_check''"
| "action_kind (ReadMessageRows _ _) = ''read_message_rows''"
| "action_kind (ReadByIdRows _ _) = ''read_by_id_rows''"
| "action_kind (ReadHostFeedRows _) = ''read_host_feed_rows''"
| "action_kind (ImplBug _) = ''impl_bug''"

definition is_critical :: "TraceAction \<Rightarrow> bool" where
  "is_critical action = True"

definition TRACE_SCHEMA_VERSION :: nat where
  "TRACE_SCHEMA_VERSION = 1"

record TraceStep =
  ts_schema_version :: nat
  ts_action :: TraceAction
  ts_state_after :: AbstractState

definition TraceStep_new :: "TraceAction \<Rightarrow> AbstractState \<Rightarrow> TraceStep" where
  "TraceStep_new action state_after =
     \<lparr>ts_schema_version = TRACE_SCHEMA_VERSION, ts_action = action, ts_state_after = state_after\<rparr>"

section \<open>Rules\<close>

datatype TransitionError =
    IllegalTransition nat string
  | StateMismatch nat string
  | NonInterference nat CommunityLabel CommunityLabel
  | CoverageBreach "string list"

record ModelState =
  ms_resolved_community :: CommunityLabel
  ms_bound_host :: HostLabel
  ms_actor :: ActorLabel

definition bootstrap :: "AbstractState \<Rightarrow> ModelState" where
  "bootstrap first = \<lparr>ms_resolved_community = as_resolved_community first, ms_bound_host = as_bound_host first,
     ms_actor = as_actor first\<rparr>"

definition check_row_labels :: "nat \<Rightarrow> ModelState \<Rightarrow> CommunityLabel list \<Rightarrow> TransitionError + unit" where
  "check_row_labels i model row_communities =
     (case find (\<lambda>c. c \<noteq> ms_resolved_community model) row_communities of
        Some foreign \<Rightarrow> Inl (NonInterference i foreign (ms_resolved_community model))
      | None \<Rightarrow> Inr ())"

definition check_action :: "nat \<Rightarrow> ModelState \<Rightarrow> TraceAction \<Rightarrow> TransitionError + unit" where
  "check_action i model action = (case action of
       WriteInsert _ _ _ \<Rightarrow> Inr ()
     | WriteInsertGlobal _ _ \<Rightarrow> Inr ()
     | WriteDuplicate _ _ _ \<Rightarrow> Inr ()
     | SanitizedError _ \<Rightarrow> Inr ()
     | AuthCheck _ claimed verdict \<Rightarrow>
         (case (verdict, claimed) of
            (Allow, Some c) \<Rightarrow>
              if c \<noteq> ms_resolved_community model then Inl (IllegalTransition i ''allow with a foreign claim'') else Inr ()
          | _ \<Rightarrow> Inr ())
     | ReadMessageRows _ rows \<Rightarrow> check_row_labels i model rows
     | ReadByIdRows _ rows \<Rightarrow> check_row_labels i model rows
     | ReadHostFeedRows rows \<Rightarrow> check_row_labels i model rows
     | ImplBug k \<Rightarrow> Inl (CoverageBreach [k]))"

definition check_step :: "nat \<Rightarrow> ModelState \<Rightarrow> TraceStep \<Rightarrow> TransitionError + unit" where
  "check_step i model step =
     (let after = ts_state_after step
      in if as_resolved_community after \<noteq> ms_resolved_community model then Inl (StateMismatch i ''resolved_community'')
         else if as_bound_host after \<noteq> ms_bound_host model then Inl (StateMismatch i ''bound_host'')
         else if as_actor after \<noteq> ms_actor model then Inl (StateMismatch i ''actor'')
         else check_action i model (ts_action step))"

fun action_channel :: "TraceAction \<Rightarrow> ChannelLabel option" where
  "action_channel (WriteInsert _ channel _) = Some channel"
| "action_channel (WriteDuplicate _ channel _) = Some channel"
| "action_channel (AuthCheck channel _ _) = Some channel"
| "action_channel (ReadMessageRows channel _) = channel"
| "action_channel (ReadByIdRows channel _) = channel"
| "action_channel _ = None"

section \<open>Replay\<close>

record Scenario =
  sc_trace :: "TraceStep list"
  sc_required :: "string list"

definition unstructured :: "TraceStep list \<Rightarrow> Scenario" where
  "unstructured trace = \<lparr>sc_trace = trace, sc_required = []\<rparr>"

definition require_kind :: "string \<Rightarrow> Scenario \<Rightarrow> Scenario" where
  "require_kind k sc = sc\<lparr>sc_required := List.insert k (sc_required sc)\<rparr>"

fun check_steps :: "nat \<Rightarrow> ModelState \<Rightarrow> TraceStep list \<Rightarrow> TransitionError + unit" where
  "check_steps i model [] = Inr ()"
| "check_steps i model (step # rest) =
     (if ts_schema_version step \<noteq> TRACE_SCHEMA_VERSION then Inl (IllegalTransition i ''schema version'')
      else and_then (check_step i model step) (\<lambda>_. check_steps (i + 1) model rest))"

definition check_coverage :: "string list \<Rightarrow> TraceStep list \<Rightarrow> TransitionError + unit" where
  "check_coverage required trace =
     (let seen = map (\<lambda>step. action_kind (ts_action step)) trace;
          missing = filter (\<lambda>k. k \<notin> set seen) required
      in if missing \<noteq> [] then Inl (CoverageBreach (sort missing)) else Inr ())"

definition check_trace :: "Scenario \<Rightarrow> TransitionError + unit" where
  "check_trace sc = (case sc_trace sc of
       [] \<Rightarrow> Inl (CoverageBreach [''trace is empty''])
     | first # _ \<Rightarrow>
         if ts_schema_version first \<noteq> TRACE_SCHEMA_VERSION then Inl (IllegalTransition 0 ''schema version'')
         else and_then (check_steps 0 (bootstrap (ts_state_after first)) (sc_trace sc)) (\<lambda>_.
           check_coverage (sc_required sc) (sc_trace sc)))"

section \<open>What it accepts\<close>

text \<open>
  The invariants of \<open>docs/spec/MultiTenantRelay.tla\<close> that a trace of one request can show:
  an observation reveals rows of its own community only (\<open>Inv_NonInterference\<close>,
  \<open>Inv_ReadConfinement\<close>), an allowed check was not made for another community, and every
  exit of a seam was observed.
\<close>

fun row_labels :: "TraceAction \<Rightarrow> CommunityLabel list" where
  "row_labels (ReadMessageRows _ rows) = rows"
| "row_labels (ReadByIdRows _ rows) = rows"
| "row_labels (ReadHostFeedRows rows) = rows"
| "row_labels _ = []"

fun allows_for :: "TraceAction \<Rightarrow> CommunityLabel option" where
  "allows_for (AuthCheck _ claimed Allow) = claimed"
| "allows_for _ = None"

fun seam_missed :: "TraceAction \<Rightarrow> bool" where
  "seam_missed (ImplBug _) = True"
| "seam_missed _ = False"

definition confined :: "CommunityLabel \<Rightarrow> TraceAction \<Rightarrow> bool" where
  "confined community action \<longleftrightarrow> set (row_labels action) \<subseteq> {community}
     \<and> (case allows_for action of Some claimed \<Rightarrow> claimed = community | None \<Rightarrow> True) \<and> \<not> seam_missed action"

definition conforms :: "TraceStep list \<Rightarrow> bool" where
  "conforms trace \<longleftrightarrow> (\<exists>observer. \<forall>step \<in> set trace. ts_schema_version step = TRACE_SCHEMA_VERSION
     \<and> ts_state_after step = observer \<and> confined (as_resolved_community observer) (ts_action step))"

lemma check_row_labels_ok: "check_row_labels i model rows = Inr () \<longleftrightarrow> set rows \<subseteq> {ms_resolved_community model}"
  by (induction rows) (auto simp: check_row_labels_def)

lemma check_action_ok: "check_action i model action = Inr () \<longleftrightarrow> confined (ms_resolved_community model) action"
  by (cases action)
    (auto simp: check_action_def confined_def check_row_labels_ok split: Verdict.splits option.splits)

lemma check_step_ok:
  "check_step i (bootstrap s) step = Inr () \<longleftrightarrow> ts_state_after step = s \<and> confined (as_resolved_community s) (ts_action step)"
  by (auto simp: check_step_def Let_def check_action_ok bootstrap_def)

lemma check_steps_ok:
  "check_steps i (bootstrap s) trace = Inr () \<longleftrightarrow> (\<forall>step \<in> set trace. ts_schema_version step = TRACE_SCHEMA_VERSION
     \<and> ts_state_after step = s \<and> confined (as_resolved_community s) (ts_action step))"
  by (induction trace arbitrary: i) (auto simp: and_then_Inr check_step_ok)

lemma check_coverage_ok:
  "check_coverage required trace = Inr () \<longleftrightarrow> set required \<subseteq> (\<lambda>step. action_kind (ts_action step)) ` set trace"
  by (auto simp: check_coverage_def Let_def filter_empty_conv)

lemma check_trace_ok:
  "check_trace sc = Inr () \<longleftrightarrow> sc_trace sc \<noteq> [] \<and> conforms (sc_trace sc)
     \<and> set (sc_required sc) \<subseteq> (\<lambda>step. action_kind (ts_action step)) ` set (sc_trace sc)"
proof (cases "sc_trace sc")
  case (Cons first rest)
  have "conforms (first # rest) \<longleftrightarrow> ts_schema_version first = TRACE_SCHEMA_VERSION
      \<and> check_steps 0 (bootstrap (ts_state_after first)) (first # rest) = Inr ()"
    unfolding check_steps_ok conforms_def by auto
  with Cons show ?thesis by (auto simp: check_trace_def and_then_Inr check_coverage_ok simp del: check_steps.simps)
qed (simp add: check_trace_def)

text \<open>
  C35: the checker accepts exactly the traces that show isolation: a trace passes if and only
  if something was observed, all of it under one tenant, host and actor and at the current
  schema, every row label is the resolved community's, no check was allowed for another
  claimed community, no seam was left without an observation, and every required kind of
  action is there; and a breach anywhere cannot be hidden by what is observed before or after.
\<close>

theorem check_trace_exact:
  "(check_trace sc = Inr () \<longleftrightarrow> sc_trace sc \<noteq> [] \<and> conforms (sc_trace sc)
      \<and> set (sc_required sc) \<subseteq> (\<lambda>step. action_kind (ts_action step)) ` set (sc_trace sc))
   \<and> (\<not> conforms breach \<longrightarrow> check_trace \<lparr>sc_trace = before @ breach @ later, sc_required = required\<rparr> \<noteq> Inr ())"
proof -
  have "conforms (before @ breach @ later) \<Longrightarrow> conforms breach" unfolding conforms_def by auto
  then show ?thesis unfolding check_trace_ok by auto
qed

lemma check_trace_exact_witness:
  "check_trace \<lparr>sc_trace = [TraceStep_new (SanitizedError InvalidReason) \<lparr>as_resolved_community = 1, as_bound_host = [], as_actor = []\<rparr>,
     TraceStep_new (ReadHostFeedRows [1, 2]) \<lparr>as_resolved_community = 1, as_bound_host = [], as_actor = []\<rparr>], sc_required = []\<rparr> \<noteq> Inr ()"
proof -
  let ?s = "\<lparr>as_resolved_community = 1, as_bound_host = [], as_actor = []\<rparr>"
  have "\<not> conforms [TraceStep_new (ReadHostFeedRows [1, 2]) ?s]" by (simp add: conforms_def TraceStep_new_def confined_def)
  with conjunct2 [OF check_trace_exact [where breach = "[TraceStep_new (ReadHostFeedRows [1, 2]) ?s]"
      and before = "[TraceStep_new (SanitizedError InvalidReason) ?s]" and later = "[]" and required = "[]"]]
  show ?thesis by (simp only: append.simps not_False_eq_True simp_thms)
qed

end
