(* ===== verification/Trace_Emitter.thy ===== *)
theory Trace_Emitter
  imports Conformance
begin

text \<open>
  \<open>buzz-relay/src/conformance/\<close>: how the relay observes itself. The tracer is the list of what
  it has recorded, or the one that records nothing; the guard of a seam counts what is
  recorded and, when it is dropped, reports a seam that recorded nothing. A write of the
  trace file that fails, which loses its line, and a poisoned lock are left out. The hex
  spelling and the UUID reader are parameters.
\<close>

section \<open>Labels\<close>

definition actor_label :: "pubkey \<Rightarrow> ActorLabel" where
  "actor_label hex = take (min (length hex) 16) hex"

definition state_for_request :: "community_id \<Rightarrow> HostLabel \<Rightarrow> pubkey \<Rightarrow> AbstractState" where
  "state_for_request community host actor =
     \<lparr>as_resolved_community = community, as_bound_host = host, as_actor = actor_label actor\<rparr>"

definition msg_id_label :: "string \<Rightarrow> OpaqueId" where
  "msg_id_label id_hex = take 16 id_hex"

fun claimed_community :: "(string \<Rightarrow> uuid option) \<Rightarrow> tag list \<Rightarrow> CommunityLabel option" where
  "claimed_community parse_uuid [] = None"
| "claimed_community parse_uuid (t # ts) = (case tag_slice t of
       name # rest \<Rightarrow> if name = ''h'' then (case rest of [] \<Rightarrow> None | val # _ \<Rightarrow> parse_uuid val)
                      else claimed_community parse_uuid ts
     | [] \<Rightarrow> claimed_community parse_uuid ts)"

definition claimed_community_from_event :: "(string \<Rightarrow> uuid option) \<Rightarrow> nevent \<Rightarrow> CommunityLabel option" where
  "claimed_community_from_event parse_uuid ev = claimed_community parse_uuid (ev_tags ev)"

section \<open>Tracers and the guard\<close>

datatype Tracer = NoopTracer | JsonlTracer "TraceStep list"

fun record_step :: "TraceStep \<Rightarrow> Tracer \<Rightarrow> Tracer" where
  "record_step step NoopTracer = NoopTracer"
| "record_step step (JsonlTracer lines) = JsonlTracer (lines @ [step])"

fun tracer_enabled :: "Tracer \<Rightarrow> bool" where
  "tracer_enabled NoopTracer = False"
| "tracer_enabled (JsonlTracer _) = True"

text \<open>The counting wrapper and the guard share the counter and the tracer underneath.\<close>

record EmitGuard =
  eg_inner :: Tracer
  eg_state :: AbstractState
  eg_counter :: nat
  eg_kind :: string

definition arm :: "Tracer \<Rightarrow> AbstractState \<Rightarrow> string \<Rightarrow> EmitGuard" where
  "arm tracer state k = \<lparr>eg_inner = tracer, eg_state = state, eg_counter = 0, eg_kind = k\<rparr>"

definition counting_record :: "TraceStep \<Rightarrow> EmitGuard \<Rightarrow> EmitGuard" where
  "counting_record step g = g\<lparr>eg_counter := eg_counter g + 1, eg_inner := record_step step (eg_inner g)\<rparr>"

definition guard_enabled :: "EmitGuard \<Rightarrow> bool" where
  "guard_enabled g = tracer_enabled (eg_inner g)"

definition drop_guard :: "EmitGuard \<Rightarrow> Tracer" where
  "drop_guard g = (if eg_counter g = 0 then record_step (TraceStep_new (ImplBug (eg_kind g)) (eg_state g)) (eg_inner g) else eg_inner g)"

section \<open>Emitters\<close>

text \<open>
  Each emitter is the step it records. \<open>lookup\<close> are the communities of channels, read for the
  trace alone.
\<close>

definition emit_step :: "TraceAction \<Rightarrow> AbstractState \<Rightarrow> TraceStep" where
  "emit_step action state = TraceStep_new action state"

definition record_req_authcheck :: "AbstractState \<Rightarrow> uuid \<Rightarrow> bool \<Rightarrow> TraceStep" where
  "record_req_authcheck state channel_id is_member =
     TraceStep_new (AuthCheck channel_id None (if is_member then Allow else Deny)) state"

definition project_row_community :: "uuid option \<Rightarrow> CommunityLabel \<Rightarrow> (uuid \<Rightarrow> community_id option) \<Rightarrow> CommunityLabel option" where
  "project_row_community row_channel resolved lookup = (case row_channel of None \<Rightarrow> Some resolved | Some ch \<Rightarrow> lookup ch)"

datatype RowCommunityProjection = ProjectedRows "CommunityLabel list" | MissingLookup string uuid

fun project_row_communities :: "uuid option list \<Rightarrow> CommunityLabel \<Rightarrow> (uuid \<Rightarrow> community_id option) \<Rightarrow> RowCommunityProjection" where
  "project_row_communities [] resolved lookup = ProjectedRows []"
| "project_row_communities (row # rows) resolved lookup = (case project_row_community row resolved lookup of
       Some label \<Rightarrow> (case project_row_communities rows resolved lookup of
           ProjectedRows labels \<Rightarrow> ProjectedRows (label # labels)
         | missing \<Rightarrow> missing)
     | None \<Rightarrow> MissingLookup ''row_community_lookup_missing'' (the row))"

definition record_read_message_rows ::
  "AbstractState \<Rightarrow> uuid option \<Rightarrow> uuid option list \<Rightarrow> (uuid \<Rightarrow> community_id option) \<Rightarrow> TraceStep" where
  "record_read_message_rows state filter_channel rows lookup =
     (case project_row_communities rows (as_resolved_community state) lookup of
        ProjectedRows labels \<Rightarrow> TraceStep_new (ReadMessageRows filter_channel labels) state
      | MissingLookup k _ \<Rightarrow> TraceStep_new (ImplBug k) state)"

definition record_read_by_id_rows ::
  "AbstractState \<Rightarrow> uuid option \<Rightarrow> uuid option list \<Rightarrow> (uuid \<Rightarrow> community_id option) \<Rightarrow> TraceStep" where
  "record_read_by_id_rows state filter_channel rows lookup =
     (case project_row_communities rows (as_resolved_community state) lookup of
        ProjectedRows labels \<Rightarrow> TraceStep_new (ReadByIdRows filter_channel labels) state
      | MissingLookup k _ \<Rightarrow> TraceStep_new (ImplBug k) state)"

datatype IngestError = RejectedEvent string | AuthFailed string | InternalError string

fun sanitized_reason_for :: "IngestError \<Rightarrow> SanitizedReason" where
  "sanitized_reason_for (RejectedEvent _) = InvalidReason"
| "sanitized_reason_for (AuthFailed _) = RestrictedReason"
| "sanitized_reason_for (InternalError _) = ServerErrorReason"

text \<open>
  \<open>ingest_event\<close>: the guard around the actual ingest, which enters as the actions it emits and
  its result; a refusal is observed here.
\<close>

definition ingest_trace :: "Tracer \<Rightarrow> AbstractState \<Rightarrow> TraceAction list \<Rightarrow> IngestError + 'a \<Rightarrow> Tracer" where
  "ingest_trace tracer state emitted result =
     (let g = fold (\<lambda>action. counting_record (emit_step action state)) emitted (arm tracer state ''ingest_event_exited_without_trace'')
      in drop_guard (case result of
           Inl e \<Rightarrow> counting_record (emit_step (SanitizedError (sanitized_reason_for e)) state) g
         | Inr _ \<Rightarrow> g))"

section \<open>What the checker makes of it\<close>

definition rows_of :: "uuid option list \<Rightarrow> (uuid \<Rightarrow> community_id option) \<Rightarrow> CommunityLabel \<Rightarrow> bool" where
  "rows_of rows lookup community \<longleftrightarrow> (\<forall>ch. Some ch \<in> set rows \<longrightarrow> lookup ch = Some community)"

lemma project_rows:
  "(case project_row_communities rows resolved lookup of
      ProjectedRows labels \<Rightarrow> set labels \<subseteq> {resolved} \<longleftrightarrow> rows_of rows lookup resolved
    | MissingLookup k ch \<Rightarrow> Some ch \<in> set rows \<and> lookup ch = None)"
proof (induction rows)
  case (Cons row rows)
  then show ?case
    by (cases row) (auto simp: rows_of_def project_row_community_def split: RowCommunityProjection.splits option.splits)
qed (simp add: rows_of_def)

lemma confined_rows:
  assumes "s = record_read_message_rows state ch rows lookup \<or> s = record_read_by_id_rows state ch rows lookup"
  shows "ts_schema_version s = TRACE_SCHEMA_VERSION \<and> ts_state_after s = state
    \<and> (confined (as_resolved_community state) (ts_action s) \<longleftrightarrow> rows_of rows lookup (as_resolved_community state))"
  using assms project_rows [where rows = rows and resolved = "as_resolved_community state" and lookup = lookup]
  by (auto simp: record_read_message_rows_def record_read_by_id_rows_def TraceStep_new_def confined_def rows_of_def
      split: RowCommunityProjection.splits)

text \<open>
  A leak is always seen: whatever else a request recorded under its tenant, a read that
  returned a row of a channel of another community, or of a channel that cannot be looked up,
  makes the trace fail; and reads whose rows all belong to the resolved community never do.
\<close>

theorem leak_is_always_seen:
  assumes "s = record_read_message_rows state ch rows lookup \<or> s = record_read_by_id_rows state ch rows lookup"
    and "\<forall>t \<in> set (before @ later). ts_state_after t = state"
  shows "check_trace (unstructured (before @ s # later)) = Inr ()
    \<longleftrightarrow> (\<forall>ch. Some ch \<in> set rows \<longrightarrow> lookup ch = Some (as_resolved_community state)) \<and> conforms (before @ later)"
proof -
  note c = confined_rows [OF assms(1)]
  have "conforms (before @ s # later) \<longleftrightarrow> rows_of rows lookup (as_resolved_community state) \<and> conforms (before @ later)"
    using c assms(2) unfolding conforms_def by (cases "before @ later = []") (auto 0 3)
  then show ?thesis unfolding check_trace_ok unstructured_def rows_of_def by simp
qed

lemma leak_is_always_seen_witness:
  "check_trace (unstructured [record_read_message_rows \<lparr>as_resolved_community = 1, as_bound_host = ''h'', as_actor = ''a''\<rparr>
     None [None, Some 7] (\<lambda>ch. if ch = 7 then Some 2 else None)]) \<noteq> Inr ()"
  using leak_is_always_seen [of "record_read_message_rows \<lparr>as_resolved_community = 1, as_bound_host = ''h'', as_actor = ''a''\<rparr>
     None [None, Some 7] (\<lambda>ch. if ch = 7 then Some 2 else None)" "\<lparr>as_resolved_community = 1, as_bound_host = ''h'', as_actor = ''a''\<rparr>"
     None "[None, Some 7]" "\<lambda>ch. if ch = 7 then Some 2 else None" "[]" "[]"]
  by simp

lemma fold_counting:
  "fold (\<lambda>action. counting_record (TraceStep_new action state)) emitted g
    = g\<lparr>eg_counter := eg_counter g + length emitted,
        eg_inner := fold (\<lambda>action. record_step (TraceStep_new action state)) emitted (eg_inner g)\<rparr>"
  by (induction emitted arbitrary: g) (simp_all add: counting_record_def)

lemma fold_record:
  "fold (\<lambda>action. record_step (TraceStep_new action state)) emitted (JsonlTracer lines)
    = JsonlTracer (lines @ map (\<lambda>action. TraceStep_new action state) emitted)"
  by (induction emitted arbitrary: lines) (simp_all)

lemma ingest_trace_lines:
  "ingest_trace (JsonlTracer []) state emitted result = JsonlTracer (map (\<lambda>action. TraceStep_new action state)
     (emitted @ (case result of Inl e \<Rightarrow> [SanitizedError (sanitized_reason_for e)]
        | Inr _ \<Rightarrow> if emitted = [] then [ImplBug ''ingest_event_exited_without_trace''] else [])))"
  by (cases result) (auto simp: ingest_trace_def Let_def fold_counting fold_record arm_def drop_guard_def counting_record_def emit_step_def)

text \<open>
  No ingest goes unobserved: the trace of an ingest that emits through its guard passes
  the checker if and only if what it emitted is confined to its tenant and it emitted
  something or was refused; a silent success fails it. With the production tracer nothing
  is recorded.
\<close>

theorem ingest_never_unobserved:
  "(\<exists>trace. ingest_trace (JsonlTracer []) state emitted result = JsonlTracer trace
      \<and> (check_trace (unstructured trace) = Inr () \<longleftrightarrow>
           (\<forall>action \<in> set emitted. confined (as_resolved_community state) action) \<and> (emitted \<noteq> [] \<or> (\<exists>e. result = Inl e))))
   \<and> ingest_trace NoopTracer state emitted result = NoopTracer"
proof -
  have conf: "conforms (map (\<lambda>action. TraceStep_new action state) actions)
      \<longleftrightarrow> (\<forall>action \<in> set actions. confined (as_resolved_community state) action)" if "actions \<noteq> []" for actions
    using that unfolding conforms_def by (cases actions) (auto simp: TraceStep_new_def)
  have noop: "fold (\<lambda>action. record_step (TraceStep_new action state)) emitted NoopTracer = NoopTracer"
    by (induction emitted) simp_all
  let ?actions = "emitted @ (case result of Inl e \<Rightarrow> [SanitizedError (sanitized_reason_for e)]
        | Inr _ \<Rightarrow> if emitted = [] then [ImplBug ''ingest_event_exited_without_trace''] else [])"
  have extra: "confined c (SanitizedError r)" "\<not> confined c (ImplBug k)" for c r k by (simp_all add: confined_def)
  have ne: "?actions \<noteq> []" by (cases result) auto
  have checked: "check_trace (unstructured (map (\<lambda>action. TraceStep_new action state) ?actions)) = Inr ()
      \<longleftrightarrow> (\<forall>action \<in> set ?actions. confined (as_resolved_community state) action)"
    unfolding check_trace_ok unstructured_def Scenario.simps conf [OF ne] using ne by (simp del: map_append)
  have all: "(\<forall>action \<in> set ?actions. confined (as_resolved_community state) action)
      \<longleftrightarrow> (\<forall>action \<in> set emitted. confined (as_resolved_community state) action) \<and> (emitted \<noteq> [] \<or> (\<exists>e. result = Inl e))"
    by (cases result) (auto simp: extra)
  show ?thesis
  proof (intro conjI exI)
    show "ingest_trace (JsonlTracer []) state emitted result = JsonlTracer (map (\<lambda>action. TraceStep_new action state) ?actions)"
      by (rule ingest_trace_lines)
    show "check_trace (unstructured (map (\<lambda>action. TraceStep_new action state) ?actions)) = Inr ()
      \<longleftrightarrow> (\<forall>action \<in> set emitted. confined (as_resolved_community state) action) \<and> (emitted \<noteq> [] \<or> (\<exists>e. result = Inl e))"
      unfolding checked by (rule all)
    show "ingest_trace NoopTracer state emitted result = NoopTracer"
      by (cases result) (auto simp: ingest_trace_def Let_def fold_counting noop arm_def drop_guard_def counting_record_def emit_step_def)
  qed
qed

lemma ingest_never_unobserved_witness:
  "\<exists>trace. ingest_trace (JsonlTracer []) \<lparr>as_resolved_community = 1, as_bound_host = [], as_actor = []\<rparr> [] (Inr () :: IngestError + unit) = JsonlTracer trace
     \<and> check_trace (unstructured trace) \<noteq> Inr ()"
  using ingest_never_unobserved [of "\<lparr>as_resolved_community = 1, as_bound_host = [], as_actor = []\<rparr>" "[]" "Inr () :: IngestError + unit"]
  by auto

end
