(* ===== verification/Member_Store.thy ===== *)
theory Member_Store
  imports Sql_Table Nostr_Event
begin

text \<open>
  \<open>buzz-db/src/relay_members.rs\<close>: who belongs to a community and in which role. The table is
  keyed by community and public key; a role is one of three words. Ownership changes by
  transactions that make one key owner and demote the others. They run at \<open>READ COMMITTED\<close>: each
  statement reads what was committed when it began, so the tables a transaction read are arguments
  of it, beside the table it commits to, and \<open>Governance\<close> says which they can be.

  \<open>now\<close> is the database clock. The rows of a listing with equal creation times come in the
  order of the storage.
\<close>

section \<open>Rows\<close>

record RelayMember =
  mb_pubkey :: string
  mb_role :: string
  mb_added_by :: "string option"
  mb_created_at :: int
  mb_updated_at :: int

type_synonym member_key = "community_id \<times> string"
type_synonym members_table = "(member_key, RelayMember) table"

definition ROLES :: "string list" where
  "ROLES = [''owner'', ''admin'', ''member'']"

definition role_check :: "member_key \<times> RelayMember \<Rightarrow> bool" where
  "role_check x \<longleftrightarrow> mb_role (snd x) \<in> set ROLES"

text \<open>The table has no unique index beyond its primary key.\<close>

definition no_index :: "'k \<times> 'r \<Rightarrow> 'k \<times> 'r \<Rightarrow> bool" where
  "no_index _ _ \<longleftrightarrow> False"

interpretation members: indexed_table role_check no_index
  by unfold_locales (simp add: no_index_def)

definition role_held :: "community_id \<Rightarrow> string \<Rightarrow> member_key \<times> RelayMember \<Rightarrow> bool" where
  "role_held community pubkey x \<longleftrightarrow> fst x = (community, pubkey)"

definition owner_row :: "community_id \<Rightarrow> member_key \<times> RelayMember \<Rightarrow> bool" where
  "owner_row community x \<longleftrightarrow> fst (fst x) = community \<and> mb_role (snd x) = ''owner''"

section \<open>Reads\<close>

text \<open>The role a key has in a community, if it is in it.\<close>

definition role_of :: "community_id \<Rightarrow> string \<Rightarrow> members_table \<Rightarrow> string option" where
  "role_of community pubkey tbl = map_option mb_role (map_of tbl (community, pubkey))"

definition is_relay_member :: "community_id \<Rightarrow> string \<Rightarrow> members_table \<Rightarrow> bool" where
  "is_relay_member community pubkey tbl \<longleftrightarrow> map_of tbl (community, pubkey) \<noteq> None"

definition has_admin_or_owner :: "community_id \<Rightarrow> members_table \<Rightarrow> bool" where
  "has_admin_or_owner community tbl \<longleftrightarrow>
     list_ex (\<lambda>x. fst (fst x) = community \<and> mb_role (snd x) \<in> {''admin'', ''owner''}) tbl"

definition get_relay_member :: "community_id \<Rightarrow> string \<Rightarrow> members_table \<Rightarrow> RelayMember option" where
  "get_relay_member community pubkey tbl = map_of tbl (community, pubkey)"

definition list_relay_owners :: "community_id \<Rightarrow> nat \<Rightarrow> members_table \<Rightarrow> string list" where
  "list_relay_owners community limit tbl =
     take limit (map mb_pubkey (sort_key mb_created_at (map snd (filter (owner_row community) tbl))))"

definition list_relay_members :: "community_id \<Rightarrow> members_table \<Rightarrow> RelayMember list" where
  "list_relay_members community tbl =
     sort_key mb_created_at (map snd (filter (\<lambda>x. fst (fst x) = community) tbl))"

section \<open>Joining and leaving\<close>

definition member_row :: "int \<Rightarrow> string \<Rightarrow> string \<Rightarrow> string option \<Rightarrow> RelayMember" where
  "member_row now pubkey role added_by =
     \<lparr>mb_pubkey = pubkey, mb_role = role, mb_added_by = added_by, mb_created_at = now, mb_updated_at = now\<rparr>"

definition add_relay_member ::
  "int \<Rightarrow> community_id \<Rightarrow> string \<Rightarrow> string \<Rightarrow> string option \<Rightarrow> members_table \<Rightarrow> (DbError + bool) \<times> members_table" where
  "add_relay_member now community pubkey role added_by =
     sql_insert_ignore role_check no_index (community, pubkey) (member_row now pubkey role added_by)"

text \<open>A claim of an invite and the policy it accepted are one transaction over two tables.\<close>

record roster =
  ro_members :: members_table
  ro_acceptances :: "(community_id \<times> string \<times> string) set"

definition claim_relay_membership ::
  "int \<Rightarrow> community_id \<Rightarrow> string \<Rightarrow> string \<Rightarrow> string option \<Rightarrow> roster \<Rightarrow> (DbError + bool) \<times> roster" where
  "claim_relay_membership now community pubkey role policy_version db =
     (case sql_insert_ignore role_check no_index (community, pubkey) (member_row now pubkey role (Some ''invite''))
             (ro_members db) of
        (Inl e, _) \<Rightarrow> (Inl e, db)
      | (Inr inserted, tbl) \<Rightarrow> (Inr inserted,
          \<lparr>ro_members = tbl,
           ro_acceptances = (case policy_version of None \<Rightarrow> ro_acceptances db
             | Some v \<Rightarrow> insert (community, pubkey, v) (ro_acceptances db))\<rparr>))"

definition has_join_policy_acceptance :: "community_id \<Rightarrow> string \<Rightarrow> string \<Rightarrow> roster \<Rightarrow> bool" where
  "has_join_policy_acceptance community pubkey policy_version db \<longleftrightarrow>
     (community, pubkey, policy_version) \<in> ro_acceptances db"

datatype RemoveResult = Removed | IsOwner | MemberNotFound | RoleMismatch

definition remove_relay_member ::
  "community_id \<Rightarrow> string \<Rightarrow> members_table \<Rightarrow> RemoveResult \<times> members_table" where
  "remove_relay_member community pubkey tbl =
     (case sql_delete (\<lambda>x. role_held community pubkey x \<and> mb_role (snd x) \<noteq> ''owner'') tbl of (n, tbl') \<Rightarrow>
        if n > 0 then (Removed, tbl')
        else if is_relay_member community pubkey tbl' then (IsOwner, tbl')
        else (MemberNotFound, tbl'))"

definition remove_relay_member_if_role ::
  "community_id \<Rightarrow> string \<Rightarrow> string \<Rightarrow> members_table \<Rightarrow> RemoveResult \<times> members_table" where
  "remove_relay_member_if_role community pubkey expected_role tbl =
     (case sql_delete (\<lambda>x. role_held community pubkey x \<and> mb_role (snd x) = expected_role) tbl of (n, tbl') \<Rightarrow>
        if n > 0 then (Removed, tbl')
        else (case get_relay_member community pubkey tbl' of
                None \<Rightarrow> (MemberNotFound, tbl')
              | Some m \<Rightarrow> if mb_role m = ''owner'' then (IsOwner, tbl') else (RoleMismatch, tbl')))"

definition update_relay_member_role ::
  "int \<Rightarrow> community_id \<Rightarrow> string \<Rightarrow> string \<Rightarrow> members_table \<Rightarrow> (DbError + bool) \<times> members_table" where
  "update_relay_member_role now community pubkey new_role tbl =
     map_prod (map_ok (\<lambda>rows. rows \<noteq> [])) id
       (sql_update role_check no_index (\<lambda>x. role_held community pubkey x \<and> mb_role (snd x) \<noteq> ''owner'')
          (\<lambda>m. m\<lparr>mb_role := new_role, mb_updated_at := now\<rparr>) tbl)"

section \<open>Ownership\<close>

text \<open>
  Both transactions make one key owner and then demote every other owner of the community. The
  row of the new owner is locked from its upsert to the commit. The demotion finds the owners
  committed when it began, \<open>swept\<close>, and passes over those that a transaction it waited for has
  demoted meanwhile; the ones it changes stay locked. So it changes, in the table that is
  committed to, the owners that were owners already in \<open>swept\<close>: an owner another transaction
  has committed since is not found.
\<close>

definition upsert_owner :: "int \<Rightarrow> community_id \<Rightarrow> string \<Rightarrow> members_table \<Rightarrow> members_table" where
  "upsert_owner now community pubkey tbl =
     (if is_relay_member community pubkey tbl
      then changed (role_held community pubkey) (\<lambda>m. m\<lparr>mb_role := ''owner'', mb_updated_at := now\<rparr>) tbl
      else tbl @ [((community, pubkey), member_row now pubkey ''owner'' None)])"

definition demote_others :: "int \<Rightarrow> community_id \<Rightarrow> string \<Rightarrow> string \<Rightarrow> members_table \<Rightarrow> members_table \<Rightarrow> members_table" where
  "demote_others now community pubkey role swept =
     changed (\<lambda>x. owner_row community x \<and> snd (fst x) \<noteq> pubkey \<and> role_of community (snd (fst x)) swept = Some ''owner'')
       (\<lambda>m. m\<lparr>mb_role := role, mb_updated_at := now\<rparr>)"

definition bootstrap_owner :: "int \<Rightarrow> community_id \<Rightarrow> string \<Rightarrow> members_table \<Rightarrow> members_table \<Rightarrow> members_table" where
  "bootstrap_owner now community owner_pubkey swept tbl =
     (let pubkey = to_ascii_lowercase owner_pubkey
      in demote_others now community pubkey ''admin'' swept (upsert_owner now community pubkey tbl))"

datatype TransferResult =
  Transferred "string option" | AlreadyOwner | NoOwner | OwnerConflict | LimitReached

definition MAX_COMMUNITIES_PER_OWNER :: int where
  "MAX_COMMUNITIES_PER_OWNER = 5"

definition effective_owner_limit :: "string option \<Rightarrow> int" where
  "effective_owner_limit raw =
     (case Option.bind raw (\<lambda>val. parse_i64 (trim val)) of
        Some limit \<Rightarrow> if 0 < limit then limit else MAX_COMMUNITIES_PER_OWNER
      | None \<Rightarrow> MAX_COMMUNITIES_PER_OWNER)"

text \<open>FNV-1a over the bytes of the key: the lock two grants to one key share.\<close>

definition owner_count_advisory_lock_key :: "string \<Rightarrow> u64" where
  "owner_count_advisory_lock_key pubkey_hex =
     fold (\<lambda>b h. xor h (of_nat (byte b)) * 0x100000001b3) pubkey_hex 0xcbf29ce484222325"

definition owners_of :: "community_id \<Rightarrow> members_table \<Rightarrow> string list" where
  "owners_of community tbl = map (\<lambda>x. snd (fst x)) (filter (owner_row community) tbl)"

definition owned_count :: "string \<Rightarrow> members_table \<Rightarrow> nat" where
  "owned_count pubkey tbl = length (filter (\<lambda>x. snd (fst x) = pubkey \<and> mb_role (snd x) = ''owner'') tbl)"

text \<open>
  What a transfer reads: the table as it was when \<open>SELECT ... FOR UPDATE\<close> began and when it had its
  locks, an owner being returned that is one in both; as it was counted; and as it was swept.
\<close>

record transfer_view =
  tv_selected :: members_table
  tv_locked :: members_table
  tv_counted :: members_table
  tv_swept :: members_table

definition locked_owners :: "community_id \<Rightarrow> transfer_view \<Rightarrow> string list" where
  "locked_owners community V =
     filter (\<lambda>p. role_of community p (tv_locked V) = Some ''owner'') (owners_of community (tv_selected V))"

definition transfer_ownership ::
  "int \<Rightarrow> int \<Rightarrow> community_id \<Rightarrow> string \<Rightarrow> string \<Rightarrow> transfer_view \<Rightarrow> members_table \<Rightarrow> TransferResult \<times> members_table" where
  "transfer_ownership limit now community new_owner_pubkey expected_owner_pubkey V tbl =
     (let pubkey = to_ascii_lowercase new_owner_pubkey;
          expected_owner = to_ascii_lowercase expected_owner_pubkey;
          existing_owners = locked_owners community V
      in if existing_owners = [] then (NoOwner, tbl)
         else if expected_owner \<notin> set existing_owners then (OwnerConflict, tbl)
         else if existing_owners = [pubkey] then (AlreadyOwner, tbl)
         else if int (owned_count pubkey (tv_counted V)) \<ge> limit then (LimitReached, tbl)
         else (Transferred (if length existing_owners = 1 then Some (hd existing_owners)
                            else List.find (\<lambda>p. p \<noteq> pubkey) existing_owners),
               demote_others now community pubkey ''member'' (tv_swept V) (upsert_owner now community pubkey tbl)))"

text \<open>
  \<open>create_community_with_owner\<close> of \<open>buzz-db/src/lib.rs\<close>, over the table of hosts by community, with
  the identifier a new row gets and SQL's \<open>lower\<close>. The advisory lock of both transactions orders grants
  to one key; what follows does not rest on it.
\<close>

datatype CreateResult = CommunityCreated community_id string | HostExists | CreateLimitReached

record host_row =
  hr_host :: string
  hr_archived :: bool

definition create_community_with_owner ::
  "(string \<Rightarrow> string) \<Rightarrow> community_id \<Rightarrow> int \<Rightarrow> int \<Rightarrow> string \<Rightarrow> string \<Rightarrow> members_table \<Rightarrow> (community_id, host_row) table \<Rightarrow> members_table
   \<Rightarrow> CreateResult \<times> (community_id, host_row) table \<times> members_table" where
  "create_community_with_owner sql_lower fresh_id limit now normalized_host owner_pubkey counted hosts tbl =
     (let pubkey = to_ascii_lowercase owner_pubkey
      in if \<not> list_ex (\<lambda>h. sql_lower (hr_host (snd h)) = sql_lower normalized_host) hosts then
           if int (owned_count pubkey counted) \<ge> limit then (CreateLimitReached, hosts, tbl)
           else (CommunityCreated fresh_id normalized_host,
                 hosts @ [(fresh_id, \<lparr>hr_host = normalized_host, hr_archived = False\<rparr>)],
                 tbl @ [((fresh_id, pubkey), member_row now pubkey ''owner'' None)])
         else (case List.find (\<lambda>h. sql_lower (hr_host (snd h)) = sql_lower normalized_host \<and> \<not> hr_archived (snd h)
                   \<and> list_ex (\<lambda>x. owner_row (fst h) x \<and> sql_lower (snd (fst x)) = sql_lower pubkey) counted) hosts of
             Some (i, h) \<Rightarrow> (CommunityCreated i (hr_host h), hosts, tbl)
           | None \<Rightarrow> (HostExists, hosts, tbl)))"

text \<open>The keys of the old allowlist, into a roster that was empty when it was looked at.\<close>

definition backfill_from_allowlist ::
  "(community_id \<times> string \<times> int) list option \<Rightarrow> community_id \<Rightarrow> members_table \<Rightarrow> members_table \<Rightarrow> nat \<times> members_table" where
  "backfill_from_allowlist allowlist community seen tbl =
     (case allowlist of
        None \<Rightarrow> (0, tbl)
      | Some entries \<Rightarrow>
          if list_ex (\<lambda>x. fst (fst x) = community) seen then (0, tbl)
          else let tbl' = fold (\<lambda>(c, pubkey, added_at) t.
                        snd (sql_insert_ignore role_check no_index (c, pubkey) (member_row added_at pubkey ''member'' None) t))
                      (filter (\<lambda>(c, _). c = community) entries) tbl
               in (length tbl' - length tbl, tbl'))"

section \<open>What each statement does to a membership\<close>

abbreviation members_ok :: "members_table \<Rightarrow> bool" where
  "members_ok \<equiv> sql_table_ok role_check no_index"

lemma role_held_iff [simp]: "role_held c p (k, m) \<longleftrightarrow> k = (c, p)"
  by (simp add: role_held_def)

lemma owner_row_iff [simp]: "owner_row c ((c', p), m) \<longleftrightarrow> c' = c \<and> mb_role m = ''owner''"
  by (auto simp: owner_row_def)

lemma no_index_free [simp]: "clash_free no_index tbl"
  by (induction tbl) (simp_all add: no_index_def list_all_iff)

lemma role_of_insert_ignore:
  "role_of c p (snd (sql_insert_ignore role_check no_index (c', p') row tbl)) =
     (if (c, p) = (c', p') \<and> map_of tbl (c', p') = None \<and> mb_role row \<in> set ROLES then Some (mb_role row) else role_of c p tbl)"
  by (auto simp: sql_insert_ignore_def sql_insert_def role_of_def role_check_def no_index_def list_ex_iff
      map_of_eq_None_iff map_of_append_new split: prod.split simp del: map_of_append)

lemma role_of_add:
  "role_of c p (snd (add_relay_member now c' p' r by_whom tbl)) =
     (if (c, p) = (c', p') \<and> role_of c p tbl = None \<and> r \<in> set ROLES then Some r else role_of c p tbl)"
  unfolding add_relay_member_def role_of_insert_ignore by (auto simp: member_row_def role_of_def)

lemma role_of_claim:
  "role_of c p (ro_members (snd (claim_relay_membership now c' p' r v db))) =
     (if (c, p) = (c', p') \<and> role_of c p (ro_members db) = None \<and> r \<in> set ROLES then Some r
      else role_of c p (ro_members db))"
proof -
  have "ro_members (snd (claim_relay_membership now c' p' r v db)) =
      snd (sql_insert_ignore role_check no_index (c', p') (member_row now p' r (Some ''invite'')) (ro_members db))"
    by (auto simp: claim_relay_membership_def sql_insert_ignore_def sql_insert_def)
  then show ?thesis by (simp only: role_of_insert_ignore) (auto simp: member_row_def role_of_def)
qed

lemma remove_state:
  "snd (remove_relay_member c p tbl) = snd (sql_delete (\<lambda>x. role_held c p x \<and> mb_role (snd x) \<noteq> ''owner'') tbl)"
  by (simp add: remove_relay_member_def split: prod.split)

lemma remove_if_state:
  "snd (remove_relay_member_if_role c p r tbl) = snd (sql_delete (\<lambda>x. role_held c p x \<and> mb_role (snd x) = r) tbl)"
  by (auto simp: remove_relay_member_if_role_def split: option.split prod.split)

lemma role_of_remove:
  assumes "keys_ok tbl"
  shows "role_of c p (snd (remove_relay_member c' p' tbl)) =
     (if (c, p) = (c', p') \<and> role_of c p tbl \<noteq> Some ''owner'' then None else role_of c p tbl)"
  by (auto simp: remove_state role_of_def map_of_deleted [OF assms] split: option.split)

lemma role_of_remove_if:
  assumes "keys_ok tbl"
  shows "role_of c p (snd (remove_relay_member_if_role c' p' r tbl)) =
     (if (c, p) = (c', p') \<and> role_of c p tbl = Some r then None else role_of c p tbl)"
  by (auto simp: remove_if_state role_of_def map_of_deleted [OF assms] split: option.split)

lemma update_role_state:
  "snd (update_relay_member_role now c p r tbl) =
     (if r \<in> set ROLES then changed (\<lambda>x. role_held c p x \<and> mb_role (snd x) \<noteq> ''owner'')
        (\<lambda>m. m\<lparr>mb_role := r, mb_updated_at := now\<rparr>) tbl else tbl)"
proof -
  let ?cond = "\<lambda>x. role_held c p x \<and> mb_role (snd x) \<noteq> ''owner''"
  have "list_all role_check (map (\<lambda>x. (fst x, (snd x)\<lparr>mb_role := r, mb_updated_at := now\<rparr>)) (filter ?cond tbl))
      \<longleftrightarrow> filter ?cond tbl = [] \<or> r \<in> set ROLES"
    by (cases "filter ?cond tbl") (auto simp: list_all_iff role_check_def)
  then show ?thesis
    by (auto simp: update_relay_member_role_def sql_update_def Let_def changed_none)
qed

lemma role_of_update:
  "role_of c p (snd (update_relay_member_role now c' p' r tbl)) =
     (if (c, p) = (c', p') \<and> role_of c p tbl \<notin> {None, Some ''owner''} \<and> r \<in> set ROLES then Some r else role_of c p tbl)"
  by (auto simp: update_role_state role_of_def map_of_changed split: option.split)

lemma role_of_upsert:
  "role_of c p (upsert_owner now c' p' tbl) = (if (c, p) = (c', p') then Some ''owner'' else role_of c p tbl)"
proof (cases "is_relay_member c' p' tbl")
  case True
  then show ?thesis unfolding upsert_owner_def
    by (auto simp: role_of_def is_relay_member_def map_of_changed split: option.split)
next
  case False
  then show ?thesis
    by (auto simp: upsert_owner_def is_relay_member_def role_of_def map_of_append_new map_of_eq_None_iff member_row_def
        simp del: map_of_append)
qed

lemma role_of_demote:
  "role_of c p (demote_others now c' p' r swept tbl) =
     (if c = c' \<and> p \<noteq> p' \<and> role_of c p swept = Some ''owner'' \<and> role_of c p tbl = Some ''owner'' then Some r else role_of c p tbl)"
  unfolding demote_others_def
  by (auto simp: role_of_def map_of_changed split: option.split)

text \<open>What either transaction makes of a role.\<close>

lemma role_of_grant:
  "role_of c p (demote_others now c' p' r swept (upsert_owner now c' p' tbl)) =
     (if c \<noteq> c' then role_of c p tbl else if p = p' then Some ''owner''
      else if role_of c p swept = Some ''owner'' \<and> role_of c p tbl = Some ''owner'' then Some r else role_of c p tbl)"
  by (auto simp: role_of_demote role_of_upsert)

lemma upsert_ok: "members_ok tbl \<Longrightarrow> members_ok (upsert_owner now c p tbl)"
  unfolding upsert_owner_def
  by (auto simp: sql_table_ok_def list_all_iff role_check_def ROLES_def is_relay_member_def map_of_eq_None_iff member_row_def
      dest: bspec) (auto simp: changed_def keys_ok_def)

lemma demote_ok: "members_ok tbl \<Longrightarrow> r \<in> set ROLES \<Longrightarrow> members_ok (demote_others now c p r swept tbl)"
  unfolding demote_others_def sql_table_ok_def by (auto simp: list_all_iff role_check_def) (auto simp: changed_def)

lemma owners_of_iff: "members_ok tbl \<Longrightarrow> p \<in> set (owners_of c tbl) \<longleftrightarrow> role_of c p tbl = Some ''owner''"
  by (auto simp: owners_of_def role_of_def sql_table_ok_def keys_ok_mem [symmetric] image_iff)

lemma locked_owners_iff:
  "members_ok (tv_selected V) \<Longrightarrow>
     p \<in> set (locked_owners c V) \<longleftrightarrow> role_of c p (tv_selected V) = Some ''owner'' \<and> role_of c p (tv_locked V) = Some ''owner''"
  by (auto simp: locked_owners_def owners_of_iff)

text \<open>What the other two make of one.\<close>

lemma role_of_append:
  "role_of c p (tbl @ [((c', p'), m)]) = (if role_of c p tbl = None \<and> c = c' \<and> p = p' then Some (mb_role m) else role_of c p tbl)"
  by (auto simp: role_of_def map_add_def split: option.split)

lemma fold_add_ok: "members_ok tbl \<Longrightarrow>
    members_ok (fold (\<lambda>(c, pubkey, at) t. snd (sql_insert_ignore role_check no_index (c, pubkey) (member_row at pubkey ''member'' None) t)) es tbl)"
  by (induction es arbitrary: tbl) (auto intro: members.insert_ignore_ok)

lemma fold_add_role:
  assumes "\<forall>e\<in>set es. fst e = c'"
  shows "role_of c p (fold (\<lambda>(c, pubkey, at) t. snd (sql_insert_ignore role_check no_index (c, pubkey) (member_row at pubkey ''member'' None) t)) es tbl)
      \<in> {role_of c p tbl} \<union> (if c = c' \<and> role_of c p tbl = None then {Some ''member''} else {})"
  using assms
proof (induction es arbitrary: tbl)
  case (Cons e es)
  obtain c1 q at where e: "e = (c1, q, at)" by (cases e)
  show ?case
    using Cons.IH [of "snd (sql_insert_ignore role_check no_index (c1, q) (member_row at q ''member'' None) tbl)"] Cons.prems
    by (auto simp: e role_of_insert_ignore split: if_splits) (auto simp: member_row_def role_of_def)
qed simp

lemma backfill_ok: "members_ok tbl \<Longrightarrow> members_ok (snd (backfill_from_allowlist allowlist c seen tbl))"
  by (auto simp: backfill_from_allowlist_def Let_def fold_add_ok split: option.split)

lemma role_of_backfill:
  "role_of c p (snd (backfill_from_allowlist allowlist c' seen tbl))
     \<in> {role_of c p tbl} \<union> (if c = c' \<and> role_of c p tbl = None then {Some ''member''} else {})"
proof (cases allowlist)
  case (Some es)
  have "\<forall>e\<in>set (filter (\<lambda>(c, _). c = c') es). fst e = c'" by auto
  from fold_add_role [OF this, of c p tbl] Some show ?thesis by (auto simp: backfill_from_allowlist_def Let_def split: if_splits)
qed (simp add: backfill_from_allowlist_def)

end
