(* ===== verification/Invites.thy ===== *)
theory Invites
  imports Member_Store
begin

text \<open>
  Invites: the codes (\<open>buzz-core/src/invite.rs\<close>, \<open>buzz-relay/src/invite_token.rs\<close>), their rows
  (\<open>buzz-db/src/relay_invite.rs\<close>) and the claim of one (\<open>buzz-relay/src/api/invites.rs\<close>). A v2
  code names a row by its hash; the row counts its uses against a budget. A v1 code is a
  payload under the relay's MAC. Both admit as plain member only.

  Base64, SHA-256, HMAC and JSON come from libraries: \<open>invite_env\<close> carries them, with the
  clock in seconds. Digests are their hex spelling.
\<close>

section \<open>Codes\<close>

definition MIN_INVITE_TTL_SECS :: nat where "MIN_INVITE_TTL_SECS = 60"
definition DEFAULT_INVITE_TTL_SECS :: nat where "DEFAULT_INVITE_TTL_SECS = 72 * 60 * 60"
definition MAX_INVITE_TTL_SECS :: nat where "MAX_INVITE_TTL_SECS = 30 * 24 * 60 * 60"
definition MAX_INVITE_USES :: int where "MAX_INVITE_USES = 10000"
definition V2_PREFIX :: string where "V2_PREFIX = ''v2.''"
definition V2_SECRET_LEN :: nat where "V2_SECRET_LEN = 32"
definition MAX_CODE_LEN :: nat where "MAX_CODE_LEN = 1024"
definition KEY_DERIVATION_LABEL :: string where "KEY_DERIVATION_LABEL = ''buzz-invite-v1''"

record InvitePayload =
  ip_c :: string
  ip_r :: string
  ip_e :: nat
  ip_n :: string

record PolicyAcceptancePayload =
  pp_c :: string
  pp_v :: string
  pp_e :: nat

datatype InviteError = Malformed | BadSignature | InviteExpired | WrongCommunity | InvalidRole

record invite_env =
  iv_now :: nat
  iv_b64 :: "string \<Rightarrow> string"
  iv_unb64 :: "string \<Rightarrow> string option"
  iv_sha256 :: "string \<Rightarrow> string"
  iv_hmac :: "string \<Rightarrow> string \<Rightarrow> string"
  iv_payload :: "string \<Rightarrow> InvitePayload option"
  iv_receipt :: "string \<Rightarrow> PolicyAcceptancePayload option"
  iv_receipt_json :: "PolicyAcceptancePayload \<Rightarrow> string"
  iv_show_uuid :: "community_id \<Rightarrow> string"

definition encode_v2_code :: "invite_env \<Rightarrow> string \<Rightarrow> string" where
  "encode_v2_code E secret = V2_PREFIX @ iv_b64 E secret"

definition validate_v2_code :: "invite_env \<Rightarrow> string \<Rightarrow> bool" where
  "validate_v2_code E code =
     (case strip_prefix V2_PREFIX code of
        None \<Rightarrow> False
      | Some encoded \<Rightarrow> (case iv_unb64 E encoded of
          None \<Rightarrow> False
        | Some secret \<Rightarrow> length secret = V2_SECRET_LEN \<and> iv_b64 E secret = encoded))"

definition hash_v2_code :: "invite_env \<Rightarrow> string \<Rightarrow> string" where
  "hash_v2_code E code = iv_sha256 E code"

definition derive_invite_key :: "invite_env \<Rightarrow> string \<Rightarrow> string" where
  "derive_invite_key E relay_secret = iv_sha256 E (relay_secret @ KEY_DERIVATION_LABEL)"

definition sign_payload :: "invite_env \<Rightarrow> string \<Rightarrow> string \<Rightarrow> string" where
  "sign_payload E key payload_bytes = iv_hmac E key payload_bytes"

text \<open>The two dot-separated base64 parts of a token, the second the MAC of the first.\<close>

definition open_token :: "invite_env \<Rightarrow> nat \<Rightarrow> string \<Rightarrow> string \<Rightarrow> InviteError + string" where
  "open_token E max_len key code =
     (if length code > max_len then Inl Malformed else
      and_then (ok_or Malformed (split_once CHR ''.'' code)) (\<lambda>(payload_b64, mac_b64).
      and_then (ok_or Malformed (iv_unb64 E payload_b64)) (\<lambda>bytes.
      and_then (ok_or Malformed (iv_unb64 E mac_b64)) (\<lambda>mac.
      if sign_payload E key bytes \<noteq> mac then Inl BadSignature else Inr bytes))))"

definition verify_invite :: "invite_env \<Rightarrow> string \<Rightarrow> community_id \<Rightarrow> string \<Rightarrow> InviteError + InvitePayload" where
  "verify_invite E key community code =
     and_then (open_token E MAX_CODE_LEN key code) (\<lambda>bytes.
     and_then (ok_or Malformed (iv_payload E bytes)) (\<lambda>payload.
     if ip_e payload < iv_now E then Inl InviteExpired
     else if ip_c payload \<noteq> iv_show_uuid E community then Inl WrongCommunity
     else if ip_r payload \<noteq> ''member'' then Inl InvalidRole
     else Inr payload))"

definition mint_policy_acceptance :: "invite_env \<Rightarrow> string \<Rightarrow> string \<Rightarrow> string \<Rightarrow> string" where
  "mint_policy_acceptance E key code version =
     (let bytes = iv_receipt_json E \<lparr>pp_c = iv_sha256 E code, pp_v = version, pp_e = iv_now E + 10 * 60\<rparr>
      in iv_b64 E bytes @ CHR ''.'' # iv_b64 E (sign_payload E key bytes))"

definition verify_policy_acceptance ::
  "invite_env \<Rightarrow> string \<Rightarrow> string \<Rightarrow> string \<Rightarrow> string \<Rightarrow> InviteError + PolicyAcceptancePayload" where
  "verify_policy_acceptance E key receipt code version =
     and_then (open_token E 2048 key receipt) (\<lambda>bytes.
     and_then (ok_or Malformed (iv_receipt E bytes)) (\<lambda>payload.
     if pp_e payload < iv_now E then Inl InviteExpired
     else if pp_c payload \<noteq> iv_sha256 E code \<or> pp_v payload \<noteq> version then Inl Malformed
     else Inr payload))"

section \<open>Rows\<close>

text \<open>Times of the database are microseconds.\<close>

record InviteRow =
  ir_token_hash :: string
  ir_max_uses :: "int option"
  ir_use_count :: int
  ir_expires_at :: int
  ir_created_by :: string

type_synonym invite_key = "community_id \<times> uuid"
type_synonym invites_table = "(invite_key, InviteRow) table"

definition invite_check :: "invite_key \<times> InviteRow \<Rightarrow> bool" where
  "invite_check x \<longleftrightarrow> length (ir_token_hash (snd x)) = 64 \<and> 0 \<le> ir_use_count (snd x)
     \<and> (case ir_max_uses (snd x) of None \<Rightarrow> True
        | Some n \<Rightarrow> 1 \<le> n \<and> n \<le> 10000 \<and> ir_use_count (snd x) \<le> n)"

definition token_clash :: "invite_key \<times> InviteRow \<Rightarrow> invite_key \<times> InviteRow \<Rightarrow> bool" where
  "token_clash x y \<longleftrightarrow> fst (fst x) = fst (fst y) \<and> ir_token_hash (snd x) = ir_token_hash (snd y)"

interpretation invites: indexed_table invite_check token_clash
  by unfold_locales (simp add: token_clash_def)

definition validate_mint_inputs :: "nat \<Rightarrow> int option \<Rightarrow> bool" where
  "validate_mint_inputs ttl_secs max_uses \<longleftrightarrow>
     MIN_INVITE_TTL_SECS \<le> ttl_secs \<and> ttl_secs \<le> MAX_INVITE_TTL_SECS
     \<and> (case max_uses of None \<Rightarrow> True | Some n \<Rightarrow> 1 \<le> n \<and> n \<le> MAX_INVITE_USES)"

text \<open>
  A new invite; the secret and the id are drawn by the caller and the database, and
  \<open>writable\<close> is the lifecycle gate of the community.
\<close>

definition mint_relay_invite ::
  "invite_env \<Rightarrow> bool \<Rightarrow> uuid \<Rightarrow> string \<Rightarrow> int \<Rightarrow> community_id \<Rightarrow> string \<Rightarrow> nat \<Rightarrow> int option \<Rightarrow> invites_table
   \<Rightarrow> string option \<times> invites_table" where
  "mint_relay_invite E writable invite_id secret now community created_by ttl_secs max_uses tbl =
     (if \<not> validate_mint_inputs ttl_secs max_uses \<or> \<not> writable then (None, tbl)
      else let code = encode_v2_code E secret;
               row = \<lparr>ir_token_hash = hash_v2_code E code, ir_max_uses = max_uses, ir_use_count = 0,
                      ir_expires_at = now + int ttl_secs * 1000000, ir_created_by = created_by\<rparr>
           in case sql_insert invite_check token_clash (community, invite_id) row tbl of
                (Inl _, _) \<Rightarrow> (None, tbl)
              | (Inr _, tbl') \<Rightarrow> (Some code, tbl'))"

definition RETENTION_SWEEP_BATCH_SIZE :: nat where
  "RETENTION_SWEEP_BATCH_SIZE = 1000"

definition reap_expired_relay_invites ::
  "(community_id \<Rightarrow> bool) \<Rightarrow> int \<Rightarrow> invites_table \<Rightarrow> nat \<times> invites_table" where
  "reap_expired_relay_invites writable cutoff tbl =
     (let due = take RETENTION_SWEEP_BATCH_SIZE (sort_key (\<lambda>x. ir_expires_at (snd x))
                  (filter (\<lambda>x. ir_expires_at (snd x) < cutoff \<and> writable (fst (fst x))) tbl))
      in sql_delete (\<lambda>x. fst x \<in> fst ` set due) tbl)"

datatype ClaimOutcome =
    Joined int "int option"
  | AlreadyMember int "int option"
  | Expired
  | Exhausted
  | Invalid

record invite_db =
  db_roster :: roster
  db_invites :: invites_table

definition accept_policy_version :: "community_id \<Rightarrow> string \<Rightarrow> string option \<Rightarrow> roster \<Rightarrow> roster" where
  "accept_policy_version community pubkey policy_version r =
     (case policy_version of None \<Rightarrow> r
      | Some v \<Rightarrow> r\<lparr>ro_acceptances := insert (community, pubkey, v) (ro_acceptances r)\<rparr>)"

text \<open>
  The redemption. The row is locked from the first read to the commit. The membership table
  is not: \<open>seen\<close> says whether the claimer was in it when it was checked, and another
  transaction may have changed that by the time of the insert, which does nothing on a
  conflict. The row of a plain member passes the check of the table.
\<close>

definition claim_relay_invite ::
  "bool \<Rightarrow> int \<Rightarrow> community_id \<Rightarrow> string \<Rightarrow> string \<Rightarrow> string option \<Rightarrow> invite_db \<Rightarrow> ClaimOutcome \<times> invite_db" where
  "claim_relay_invite seen now community token_hash claimer policy_version db =
     (case List.find (\<lambda>x. fst (fst x) = community \<and> ir_token_hash (snd x) = token_hash) (db_invites db) of
        None \<Rightarrow> (Invalid, db)
      | Some (key, invite) \<Rightarrow>
         let max_uses = ir_max_uses invite; use_count = ir_use_count invite;
             accepted = accept_policy_version community claimer policy_version;
             already = AlreadyMember use_count (map_option (\<lambda>mu. mu - use_count) max_uses)
         in if ir_expires_at invite \<le> now then (Expired, db)
            else if seen then (already, db\<lparr>db_roster := accepted (db_roster db)\<rparr>)
            else if (case max_uses of None \<Rightarrow> False | Some mu \<Rightarrow> mu \<le> use_count) then (Exhausted, db)
            else (case add_relay_member now community claimer ''member'' (Some ''invite'') (ro_members (db_roster db)) of
                (Inr True, members) \<Rightarrow>
                  (Joined (use_count + 1) (map_option (\<lambda>mu. mu - (use_count + 1)) max_uses),
                   \<lparr>db_roster = accepted ((db_roster db)\<lparr>ro_members := members\<rparr>),
                    db_invites = changed (\<lambda>x. fst x = key) (\<lambda>r. r\<lparr>ir_use_count := use_count + 1\<rparr>) (db_invites db)\<rparr>)
              | _ \<Rightarrow> (already, db\<lparr>db_roster := accepted (db_roster db)\<rparr>)))"

section \<open>Claiming over HTTP\<close>

definition CLAIM_RATE_LIMIT :: nat where
  "CLAIM_RATE_LIMIT = 10"

text \<open>The request, and the status and body of the reply.\<close>

datatype claim_reply = ClaimOk string | ClaimRefused nat string

text \<open>
  \<open>attempts\<close> is what the limiter had counted for this community and key in the window.
  \<open>policy\<close> is the version of the configured join policy, if there is one.
\<close>

definition check_receipt ::
  "invite_env \<Rightarrow> string \<Rightarrow> string option \<Rightarrow> string \<Rightarrow> string option \<Rightarrow> bool" where
  "check_receipt E key policy code receipt =
     (case policy of None \<Rightarrow> True
      | Some version \<Rightarrow> (case receipt of None \<Rightarrow> False
          | Some r \<Rightarrow> ok_of (verify_policy_acceptance E key r code version) \<noteq> None))"

definition claim_invite ::
  "invite_env \<Rightarrow> string \<Rightarrow> bool \<Rightarrow> int \<Rightarrow> nat \<Rightarrow> string option \<Rightarrow> community_id \<Rightarrow> string \<Rightarrow> string \<Rightarrow> string option
   \<Rightarrow> invite_db \<Rightarrow> claim_reply \<times> invite_db" where
  "claim_invite E relay_secret seen now attempts policy community claimer code receipt db =
     (let key = derive_invite_key E relay_secret in
      if attempts \<ge> CLAIM_RATE_LIMIT then (ClaimRefused 429 ''too many invite claim attempts, slow down'', db)
      else if starts_with code V2_PREFIX then
        if \<not> validate_v2_code E code then (ClaimRefused 403 ''invite_invalid'', db)
        else if \<not> check_receipt E key policy code receipt then (ClaimRefused 403 ''join_policy_required'', db)
        else (case claim_relay_invite seen now community (hash_v2_code E code) claimer policy db of (outcome, db') \<Rightarrow>
           (case outcome of
              Joined _ _ \<Rightarrow> ClaimOk ''joined''
            | AlreadyMember _ _ \<Rightarrow> ClaimOk ''already_member''
            | Expired \<Rightarrow> ClaimRefused 403 ''invite_expired''
            | Exhausted \<Rightarrow> ClaimRefused 403 ''invite_exhausted''
            | Invalid \<Rightarrow> ClaimRefused 403 ''invite_invalid'', db'))
      else (case verify_invite E key community code of
          Inl InviteExpired \<Rightarrow> (ClaimRefused 403 ''invite_expired'', db)
        | Inl _ \<Rightarrow> (ClaimRefused 403 ''invite_invalid'', db)
        | Inr payload \<Rightarrow>
           if \<not> check_receipt E key policy code receipt then (ClaimRefused 403 ''join_policy_required'', db)
           else (case claim_relay_membership now community claimer (ip_r payload) policy (db_roster db) of
               (Inl _, _) \<Rightarrow> (ClaimRefused 500 ''internal'', db)
             | (Inr inserted, roster) \<Rightarrow>
                (ClaimOk (if inserted then ''joined'' else ''already_member''), db\<lparr>db_roster := roster\<rparr>))))"

section \<open>The budget\<close>

abbreviation invites_ok :: "invites_table \<Rightarrow> bool" where
  "invites_ok \<equiv> sql_table_ok invite_check token_clash"

text \<open>What is recorded of the past: the invites minted and the joins through each.\<close>

record invite_log =
  il_minted :: "(invite_key \<times> InviteRow) list"
  il_joined :: "(invite_key \<times> string \<times> int) list"

text \<open>
  A history: invites are minted under fresh ids, claimed and reaped, and between any two of
  these the roster is changed by anything else.
\<close>

inductive invite_history :: "invite_log \<Rightarrow> invite_db \<Rightarrow> bool" where
  start: "invite_history \<lparr>il_minted = [], il_joined = []\<rparr> \<lparr>db_roster = r, db_invites = []\<rparr>"
| elsewhere: "invite_history log db \<Longrightarrow> invite_history log (db\<lparr>db_roster := r\<rparr>)"
| mint: "invite_history log db \<Longrightarrow>
     mint_relay_invite E True i secret now c by_whom ttl max_uses (db_invites db) = (Some code, tbl) \<Longrightarrow>
     (c, i) \<notin> fst ` set (il_minted log) \<Longrightarrow>
     invite_history (log\<lparr>il_minted := il_minted log @ drop (length (db_invites db)) tbl\<rparr>) (db\<lparr>db_invites := tbl\<rparr>)"
| reap: "invite_history log db \<Longrightarrow>
     invite_history log (db\<lparr>db_invites := snd (reap_expired_relay_invites writable cutoff (db_invites db))\<rparr>)"
| joins: "invite_history log db \<Longrightarrow>
     claim_relay_invite seen now c token claimer policy db = (Joined n left, db') \<Longrightarrow>
     List.find (\<lambda>x. fst (fst x) = c \<and> ir_token_hash (snd x) = token) (db_invites db) = Some (key, invite) \<Longrightarrow>
     invite_history (log\<lparr>il_joined := il_joined log @ [(key, claimer, now)]\<rparr>) db'"
| other_claim: "invite_history log db \<Longrightarrow>
     claim_relay_invite seen now c token claimer policy db = (outcome, db') \<Longrightarrow> \<nexists>n left. outcome = Joined n left \<Longrightarrow>
     invite_history log db'"

definition joins_of :: "invite_key \<Rightarrow> invite_log \<Rightarrow> (invite_key \<times> string \<times> int) list" where
  "joins_of key log = filter (\<lambda>j. fst j = key) (il_joined log)"

text \<open>A row counts the joins of its invite and differs from what was minted in nothing else.\<close>

definition budget_inv :: "invite_log \<Rightarrow> invite_db \<Rightarrow> bool" where
  "budget_inv log db \<longleftrightarrow> invites_ok (db_invites db) \<and> keys_ok (il_minted log)
     \<and> (\<forall>(k, row) \<in> set (db_invites db). \<exists>old. (k, old) \<in> set (il_minted log)
          \<and> ir_use_count row = int (length (joins_of k log)) \<and> ir_max_uses row = ir_max_uses old
          \<and> ir_expires_at row = ir_expires_at old)
     \<and> (\<forall>j \<in> set (il_joined log). \<exists>old. (fst j, old) \<in> set (il_minted log) \<and> snd (snd j) < ir_expires_at old)
     \<and> (\<forall>(k, old) \<in> set (il_minted log). case ir_max_uses old of None \<Rightarrow> True
          | Some n \<Rightarrow> int (length (joins_of k log)) \<le> n)"

lemma find_row:
  assumes "List.find P tbl = Some x"
  shows "x \<in> set tbl" and "P x"
  using assms by (auto simp: find_Some_iff)

lemma claim_joined:
  assumes "claim_relay_invite seen now c token claimer policy db = (Joined n left, db')"
  obtains key invite members where
    "List.find (\<lambda>x. fst (fst x) = c \<and> ir_token_hash (snd x) = token) (db_invites db) = Some (key, invite)"
    and "now < ir_expires_at invite" and "\<forall>mu. ir_max_uses invite = Some mu \<longrightarrow> ir_use_count invite < mu"
    and "n = ir_use_count invite + 1"
    and "add_relay_member now c claimer ''member'' (Some ''invite'') (ro_members (db_roster db)) = (Inr True, members)"
    and "ro_members (db_roster db') = members"
    and "db_invites db' = changed (\<lambda>x. fst x = key) (\<lambda>r. r\<lparr>ir_use_count := ir_use_count invite + 1\<rparr>) (db_invites db)"
  using assms unfolding claim_relay_invite_def Let_def
  by (auto simp: accept_policy_version_def split: option.splits if_splits prod.splits sum.splits bool.splits
      intro: that)

lemma claim_other:
  assumes "claim_relay_invite seen now c token claimer policy db = (outcome, db')" and "\<nexists>n left. outcome = Joined n left"
  shows "db_invites db' = db_invites db" and "ro_members (db_roster db') = ro_members (db_roster db)"
  using assms unfolding claim_relay_invite_def Let_def
  by (auto simp: accept_policy_version_def split: option.splits if_splits prod.splits sum.splits bool.splits)

section \<open>No invite is overspent\<close>

lemma changed_count_ok:
  assumes "invites_ok tbl" and "(key, invite) \<in> set tbl" and "\<forall>mu. ir_max_uses invite = Some mu \<longrightarrow> ir_use_count invite < mu"
  shows "invites_ok (changed (\<lambda>x. fst x = key) (\<lambda>r. r\<lparr>ir_use_count := ir_use_count invite + 1\<rparr>) tbl)"
proof -
  let ?f = "\<lambda>r. r\<lparr>ir_use_count := ir_use_count invite + 1\<rparr>"
  have same: "row = invite" if "(key, row) \<in> set tbl" for row
    using assms(1,2) that by (auto simp: sql_table_ok_def keys_ok_mem)
  have "invite_check (key, ?f invite)"
    using assms by (auto simp: sql_table_ok_def list_all_iff invite_check_def split: option.splits)
  moreover have "clash_free token_clash (changed (\<lambda>x. fst x = key) ?f tbl)" if "clash_free token_clash tbl"
    using that by (induction tbl) (auto simp: changed_def list_all_iff token_clash_def split: if_splits)
  ultimately show ?thesis
    using assms(1) same by (auto simp: sql_table_ok_def list_all_iff) (auto simp: changed_def)
qed

lemma joins_of_snoc: "joins_of k (log\<lparr>il_joined := il_joined log @ [j]\<rparr>) = joins_of k log @ (if fst j = k then [j] else [])"
  by (simp add: joins_of_def)

lemma budget_parts:
  assumes "budget_inv log db"
  shows "invites_ok (db_invites db)" and "keys_ok (il_minted log)"
    and "(k, row) \<in> set (db_invites db) \<Longrightarrow> \<exists>old. (k, old) \<in> set (il_minted log)
      \<and> ir_use_count row = int (length (joins_of k log)) \<and> ir_max_uses row = ir_max_uses old \<and> ir_expires_at row = ir_expires_at old"
    and "j \<in> set (il_joined log) \<Longrightarrow> \<exists>old. (fst j, old) \<in> set (il_minted log) \<and> snd (snd j) < ir_expires_at old"
    and "(k, old) \<in> set (il_minted log) \<Longrightarrow> ir_max_uses old = Some n \<Longrightarrow> int (length (joins_of k log)) \<le> n"
  using assms unfolding budget_inv_def by (blast, blast, blast, blast, force)

lemma budgetI:
  assumes "invites_ok (db_invites db)" and "keys_ok (il_minted log)"
    and "\<And>k row. (k, row) \<in> set (db_invites db) \<Longrightarrow> \<exists>old. (k, old) \<in> set (il_minted log)
      \<and> ir_use_count row = int (length (joins_of k log)) \<and> ir_max_uses row = ir_max_uses old \<and> ir_expires_at row = ir_expires_at old"
    and "\<And>j. j \<in> set (il_joined log) \<Longrightarrow> \<exists>old. (fst j, old) \<in> set (il_minted log) \<and> snd (snd j) < ir_expires_at old"
    and "\<And>k old n. (k, old) \<in> set (il_minted log) \<Longrightarrow> ir_max_uses old = Some n \<Longrightarrow> int (length (joins_of k log)) \<le> n"
  shows "budget_inv log db"
  using assms unfolding budget_inv_def by (auto split: option.split)

lemma budget_mint:
  assumes "budget_inv log db" and "(c, i) \<notin> fst ` set (il_minted log)"
    and "mint_relay_invite E True i secret now c by_whom ttl max_uses (db_invites db) = (Some code, tbl)"
  shows "budget_inv (log\<lparr>il_minted := il_minted log @ drop (length (db_invites db)) tbl\<rparr>) (db\<lparr>db_invites := tbl\<rparr>)"
proof -
  note old = budget_parts [OF assms(1)]
  obtain row where row: "sql_insert invite_check token_clash (c, i) row (db_invites db) = (Inr (), tbl)"
    and valid: "validate_mint_inputs ttl max_uses" "ir_use_count row = 0" "ir_max_uses row = max_uses"
    using assms(3) by (auto simp: mint_relay_invite_def Let_def split: if_splits prod.splits sum.splits)
  then have tbl: "tbl = db_invites db @ [((c, i), row)]" by (auto simp: sql_insert_def split: if_splits)
  have none: "joins_of (c, i) log = []"
    unfolding joins_of_def filter_empty_conv using old(4) assms(2) by (metis fst_conv image_eqI)
  have same: "joins_of k (log\<lparr>il_minted := ms\<rparr>) = joins_of k log" for k ms by (simp add: joins_of_def)
  show ?thesis
  proof (rule budgetI)
    show "invites_ok (db_invites (db\<lparr>db_invites := tbl\<rparr>))"
      using invites.insert_ok [OF old(1), of "(c, i)" row] row by simp
    fix k r assume "(k, r) \<in> set (db_invites (db\<lparr>db_invites := tbl\<rparr>))"
    then consider "(k, r) \<in> set (db_invites db)" | "k = (c, i)" "r = row" by (auto simp: tbl)
    then show "\<exists>old. (k, old) \<in> set (il_minted (log\<lparr>il_minted := il_minted log @ drop (length (db_invites db)) tbl\<rparr>))
        \<and> ir_use_count r = int (length (joins_of k (log\<lparr>il_minted := il_minted log @ drop (length (db_invites db)) tbl\<rparr>)))
        \<and> ir_max_uses r = ir_max_uses old \<and> ir_expires_at r = ir_expires_at old"
      using old(3) [of k r] none valid(2) by cases (auto simp: tbl same)
  next
    fix k m n assume "(k, m) \<in> set (il_minted (log\<lparr>il_minted := il_minted log @ drop (length (db_invites db)) tbl\<rparr>))" "ir_max_uses m = Some n"
    then consider "(k, m) \<in> set (il_minted log)" | "k = (c, i)" "max_uses = Some n" using valid(3) by (auto simp: tbl)
    then show "int (length (joins_of k (log\<lparr>il_minted := il_minted log @ drop (length (db_invites db)) tbl\<rparr>))) \<le> n"
      using old(5) \<open>ir_max_uses m = Some n\<close> none valid(1) by cases (auto simp: same validate_mint_inputs_def)
  qed (use old(2,4) assms(2) in \<open>fastforce simp: tbl keys_ok_def\<close>)+
qed

lemma budget_join:
  assumes "budget_inv log db" and "claim_relay_invite seen now c token claimer policy db = (Joined n left, db')"
    and "List.find (\<lambda>x. fst (fst x) = c \<and> ir_token_hash (snd x) = token) (db_invites db) = Some (key, invite)"
  shows "budget_inv (log\<lparr>il_joined := il_joined log @ [(key, claimer, now)]\<rparr>) db'"
proof -
  let ?f = "\<lambda>r. r\<lparr>ir_use_count := ir_use_count invite + 1\<rparr>"
  have live: "now < ir_expires_at invite" "\<forall>mu. ir_max_uses invite = Some mu \<longrightarrow> ir_use_count invite < mu"
    and after: "db_invites db' = changed (\<lambda>x. fst x = key) ?f (db_invites db)"
    using assms(2,3) by (auto elim!: claim_joined)
  have mem: "(key, invite) \<in> set (db_invites db)" using find_row [OF assms(3)] by simp
  have ok: "invites_ok (db_invites db)" and mk: "keys_ok (il_minted log)" using assms(1) by (simp_all add: budget_inv_def)
  obtain old where old: "(key, old) \<in> set (il_minted log)" "ir_use_count invite = int (length (joins_of key log))"
    "ir_max_uses invite = ir_max_uses old" "ir_expires_at invite = ir_expires_at old"
    using assms(1) mem unfolding budget_inv_def by blast
  have rows: "\<exists>m. (k, m) \<in> set (il_minted log) \<and> ir_max_uses row = ir_max_uses m \<and> ir_expires_at row = ir_expires_at m
      \<and> ir_use_count row = int (length (joins_of k log)) + (if k = key then 1 else 0)"
    if "(k, row) \<in> set (db_invites db')" for k row
  proof (cases "k = key")
    case True
    then have "row = ?f invite" using that mem ok by (auto simp: after changed_def sql_table_ok_def keys_ok_mem split: if_splits)
    then show ?thesis using old True by auto
  next
    case False
    then have "(k, row) \<in> set (db_invites db)" using that by (auto simp: after changed_def split: if_splits)
    then show ?thesis using budget_parts(3) [OF assms(1), of k row] False by auto
  qed
  have budget: "case ir_max_uses m of None \<Rightarrow> True | Some b \<Rightarrow> int (length (joins_of k log)) + (if k = key then 1 else 0) \<le> b"
    if "(k, m) \<in> set (il_minted log)" for k m
  proof (cases "k = key")
    case True
    then have "m = old" using that old(1) mk by (simp add: keys_ok_mem)
    then show ?thesis using live(2) old True by (auto split: option.split)
  next
    case False
    then show ?thesis using budget_parts(5) [OF assms(1)] that by (auto split: option.split)
  qed
  show ?thesis
  proof (rule budgetI)
    show "invites_ok (db_invites db')" unfolding after by (rule changed_count_ok [OF ok mem live(2)])
    fix j assume "j \<in> set (il_joined (log\<lparr>il_joined := il_joined log @ [(key, claimer, now)]\<rparr>))"
    then show "\<exists>m. (fst j, m) \<in> set (il_minted (log\<lparr>il_joined := il_joined log @ [(key, claimer, now)]\<rparr>)) \<and> snd (snd j) < ir_expires_at m"
      using budget_parts(4) [OF assms(1), of j] old live(1) by auto
  next
    fix k m b assume "(k, m) \<in> set (il_minted (log\<lparr>il_joined := il_joined log @ [(key, claimer, now)]\<rparr>))" "ir_max_uses m = Some b"
    then show "int (length (joins_of k (log\<lparr>il_joined := il_joined log @ [(key, claimer, now)]\<rparr>))) \<le> b"
      using budget [of k m] by (auto simp: joins_of_snoc split: if_splits)
  next
    fix k row assume "(k, row) \<in> set (db_invites db')"
    then show "\<exists>m. (k, m) \<in> set (il_minted (log\<lparr>il_joined := il_joined log @ [(key, claimer, now)]\<rparr>))
        \<and> ir_use_count row = int (length (joins_of k (log\<lparr>il_joined := il_joined log @ [(key, claimer, now)]\<rparr>)))
        \<and> ir_max_uses row = ir_max_uses m \<and> ir_expires_at row = ir_expires_at m"
      using rows [of k row] by (auto simp: joins_of_snoc)
  qed (use mk in simp)
qed

lemma history_budget: "invite_history log db \<Longrightarrow> budget_inv log db"
proof (induction rule: invite_history.induct)
  case (reap log db writable cutoff)
  then show ?case
    using invites.delete_ok by (fastforce simp: budget_inv_def reap_expired_relay_invites_def Let_def sql_delete_def)
next
  case (mint log db)
  then show ?case by (blast intro: budget_mint)
next
  case (joins log db)
  then show ?case by (blast intro: budget_join)
next
  case (other_claim log db seen now c token claimer policy outcome db')
  then show ?case using claim_other [of seen now c token claimer policy db outcome db'] by (simp add: budget_inv_def)
qed (auto simp: budget_inv_def joins_of_def invites.empty_ok)

text \<open>C27: However claims of one invite are interleaved with each other, with claims of other
  invites and with any other change of the roster, no more members join through it than its
  budget, and none once it has expired.\<close>

theorem invite_within_budget:
  assumes "invite_history log db" and "(k, invite) \<in> set (il_minted log)"
  shows "(\<forall>n. ir_max_uses invite = Some n \<longrightarrow> int (length (joins_of k log)) \<le> n)
     \<and> (\<forall>j \<in> set (joins_of k log). snd (snd j) < ir_expires_at invite)"
proof (rule conjI)
  have inv: "budget_inv log db" using assms(1) by (rule history_budget)
  show "\<forall>n. ir_max_uses invite = Some n \<longrightarrow> int (length (joins_of k log)) \<le> n"
    using budget_parts(5) [OF inv assms(2)] by blast
  show "\<forall>j \<in> set (joins_of k log). snd (snd j) < ir_expires_at invite"
    using budget_parts(2,4) [OF inv] assms(2) by (fastforce simp: joins_of_def keys_ok_mem)
qed

text \<open>An invite for one use, minted and used.\<close>

definition run_codes :: invite_env where
  "run_codes = \<lparr>iv_now = 0, iv_b64 = (\<lambda>s. s), iv_unb64 = Some, iv_sha256 = (\<lambda>_. replicate 64 CHR ''a''),
     iv_hmac = (\<lambda>_ s. s), iv_payload = (\<lambda>_. None), iv_receipt = (\<lambda>_. None), iv_receipt_json = (\<lambda>_. []),
     iv_show_uuid = (\<lambda>_. [])\<rparr>"

definition run_invite :: InviteRow where
  "run_invite = \<lparr>ir_token_hash = replicate 64 CHR ''a'', ir_max_uses = Some 1, ir_use_count = 0,
     ir_expires_at = 60000000, ir_created_by = ''aa''\<rparr>"

definition run_db :: invite_db where
  "run_db = \<lparr>db_roster = \<lparr>ro_members = [], ro_acceptances = {}\<rparr>, db_invites = [((1, 7), run_invite)]\<rparr>"

lemma run_mint:
  "mint_relay_invite run_codes True 7 ''s'' 0 1 ''aa'' 60 (Some 1) [] = (Some ''v2.s'', [((1, 7), run_invite)])"
  by (simp add: mint_relay_invite_def validate_mint_inputs_def MIN_INVITE_TTL_SECS_def MAX_INVITE_TTL_SECS_def
      MAX_INVITE_USES_def encode_v2_code_def hash_v2_code_def run_codes_def V2_PREFIX_def sql_insert_def invite_check_def
      run_invite_def)

lemma run_find:
  "List.find (\<lambda>x. fst (fst x) = 1 \<and> ir_token_hash (snd x) = replicate 64 CHR ''a'') (db_invites run_db) = Some ((1, 7), run_invite)"
  by (simp add: run_db_def run_invite_def)

lemma run_claim:
  "\<exists>db'. claim_relay_invite False 5 1 (replicate 64 CHR ''a'') ''bb'' None run_db = (Joined 1 (Some 0), db')"
  using run_find by (simp add: claim_relay_invite_def run_invite_def run_db_def add_relay_member_def sql_insert_ignore_def
      sql_insert_def role_check_def member_row_def ROLES_def)

theorem invite_within_budget_witness:
  "\<exists>log db. invite_history log db \<and> length (joins_of (1, 7) log) = 1
     \<and> (\<forall>n. ir_max_uses run_invite = Some n \<longrightarrow> int (length (joins_of (1, 7) log)) \<le> n)"
proof -
  obtain db' where db': "claim_relay_invite False 5 1 (replicate 64 CHR ''a'') ''bb'' None run_db = (Joined 1 (Some 0), db')"
    using run_claim by blast
  let ?minted = "\<lparr>il_minted = [((1, 7), run_invite)], il_joined = []\<rparr>"
  let ?log = "?minted\<lparr>il_joined := il_joined ?minted @ [((1, 7), ''bb'', 5)]\<rparr>"
  have "invite_history ?minted run_db"
    using invite_history.mint [OF invite_history.start [of "\<lparr>ro_members = [], ro_acceptances = {}\<rparr>"],
        of run_codes 7 "''s''" 0 1 "''aa''" 60 "Some 1" "''v2.s''" "[((1, 7), run_invite)]"] run_mint
    by (simp add: run_db_def)
  then have h: "invite_history ?log db'" by (rule invite_history.joins [OF _ db' run_find])
  have "((1, 7), run_invite) \<in> set (il_minted ?log)" by simp
  then have "\<forall>n. ir_max_uses run_invite = Some n \<longrightarrow> int (length (joins_of (1, 7) ?log)) \<le> n"
    using invite_within_budget [OF h] by blast
  moreover have "length (joins_of (1, 7) ?log) = 1" by (simp add: joins_of_def)
  ultimately show ?thesis using h by blast
qed

end
