(* ===== verification/Relay_Admin.thy ===== *)
theory Relay_Admin
  imports Invites Kind
begin

text \<open>
  The government of a community: the membership commands of its owners and admins
  (\<open>buzz-relay/src/handlers/relay_admin.rs\<close>), leaving it (\<open>ingest_event\<close> in
  \<open>handlers/ingest.rs\<close>), joining it by an invite, and the two transactions that change its owner.
  The question a history of these answers is who can come to hold which role.

  \<open>admin_env\<close> is one request's view of the world: the clock, what happens to each statement it
  sends, whether the relay enforces membership, and the sender's restriction.
\<close>

section \<open>Tags\<close>

definition extract_p_tag_hex :: "nevent \<Rightarrow> string option" where
  "extract_p_tag_hex ev =
     Option.bind (List.find (\<lambda>t. case tag_slice t of n # val # _ \<Rightarrow>
         n = ''p'' \<and> length val = 64 \<and> list_all is_ascii_hexdigit val | _ \<Rightarrow> False) (ev_tags ev))
       (\<lambda>t. Some (tag_slice t ! 1))"

definition extract_tag_value :: "nevent \<Rightarrow> string \<Rightarrow> string option" where
  "extract_tag_value ev name =
     Option.bind (List.find (\<lambda>t. case tag_slice t of n # _ \<Rightarrow> n = name | [] \<Rightarrow> False) (ev_tags ev))
       (\<lambda>t. case tag_slice t of _ # val # _ \<Rightarrow> Some val | _ \<Rightarrow> None)"

section \<open>The workspace icon\<close>

definition MAX_WORKSPACE_ICON_URL_LEN :: nat where "MAX_WORKSPACE_ICON_URL_LEN = 2048"
definition MAX_WORKSPACE_ICON_DATA_URL_LEN :: nat where "MAX_WORKSPACE_ICON_DATA_URL_LEN = 98304"

text \<open>A control or white-space character somewhere in UTF-8 text.\<close>

fun has_blank_or_control :: "string \<Rightarrow> bool" where
  "has_blank_or_control [] = False"
| "has_blank_or_control (a # r) \<longleftrightarrow>
     ws_len (a # r) \<noteq> 0 \<or> byte a < 32 \<or> byte a = 127
     \<or> byte a = 194 \<and> (case r of b # _ \<Rightarrow> 128 \<le> byte b \<and> byte b \<le> 159 | [] \<Rightarrow> False)
     \<or> has_blank_or_control r"

definition validate_workspace_icon :: "string \<Rightarrow> string + unit" where
  "validate_workspace_icon icon =
     (if icon = [] then Inr ()
      else if has_blank_or_control icon then Inl ''icon contains invalid characters''
      else if starts_with icon ''data:image/'' then
        if length icon > MAX_WORKSPACE_ICON_DATA_URL_LEN then Inl ''icon data URL too long'' else Inr ()
      else if \<not> starts_with icon ''https://'' \<and> \<not> starts_with icon ''http://''
        then Inl ''icon must be an http(s) URL or data:image/* URL''
      else if length icon > MAX_WORKSPACE_ICON_URL_LEN then Inl ''icon URL too long''
      else Inr ())"

definition may_set_workspace_profile :: "string \<Rightarrow> bool \<Rightarrow> bool \<Rightarrow> bool" where
  "may_set_workspace_profile sender_role membership_enforced community_has_steward \<longleftrightarrow>
     (\<not> membership_enforced \<and> \<not> community_has_steward) \<or> sender_role = ''admin'' \<or> sender_role = ''owner''"

section \<open>Commands\<close>

datatype announcement = MemberAdded string | MemberRemoved string | MembershipList

record admin_env =
  ae_now :: int
  ae_db_now :: int
  ae_fault :: "string \<Rightarrow> db_fault"
  ae_error :: "DbError \<Rightarrow> string"
  ae_membership_required :: bool
  ae_banned :: "DbError + bool"

record admin_state =
  as_members :: members_table
  as_icon :: "community_id \<Rightarrow> string option"
  as_announced :: "(community_id \<times> announcement) list"

datatype RelayAdminError = Banned | AdminRejected string | AdminInternal string

text \<open>The distance of two times in an \<open>i64\<close>.\<close>

definition fresh_event :: "int \<Rightarrow> nevent \<Rightarrow> bool" where
  "fresh_event now ev \<longleftrightarrow> \<not> wrap_i64 \<bar>wrap_i64 (wrap_i64 (int (ev_created_at ev)) - now)\<bar> > 120"

definition announce :: "admin_env \<Rightarrow> community_id \<Rightarrow> announcement \<Rightarrow> admin_state \<Rightarrow> admin_state" where
  "announce E community a st =
     run_if (ae_fault E ''announce'') (\<lambda>st. st\<lparr>as_announced := as_announced st @ [(community, a)]\<rparr>) st"

definition member_call ::
  "admin_env \<Rightarrow> string \<Rightarrow> (members_table \<Rightarrow> (DbError + 'a) \<times> members_table) \<Rightarrow> admin_state
   \<Rightarrow> (string + 'a) \<times> admin_state" where
  "member_call E label statement st =
     (case sql_call (ae_fault E label) statement (as_members st) of (res, tbl) \<Rightarrow>
        (map_err (\<lambda>e. ''database error: '' @ ae_error E e) res, st\<lparr>as_members := tbl\<rparr>))"

definition member_read :: "admin_env \<Rightarrow> string \<Rightarrow> 'a \<Rightarrow> string + 'a" where
  "member_read E label answer = map_err (\<lambda>e. ''database error: '' @ ae_error E e) (sql_read (ae_fault E label) answer)"

text \<open>Kind 9033, which targets the community itself.\<close>

definition set_workspace_profile ::
  "admin_env \<Rightarrow> community_id \<Rightarrow> nevent \<Rightarrow> string \<Rightarrow> admin_state \<Rightarrow> (string + unit) \<times> admin_state" where
  "set_workspace_profile E community ev sender_role st =
     (case (if ae_membership_required E then Inr True
            else member_read E ''steward'' (has_admin_or_owner community (as_members st))) of
        Inl e \<Rightarrow> (Inl e, st)
      | Inr steward \<Rightarrow>
          if \<not> may_set_workspace_profile sender_role (ae_membership_required E) steward
          then (Inl ''actor not authorized: must be admin or owner'', st)
          else let icon = (case extract_tag_value ev ''icon'' of Some i \<Rightarrow> i | None \<Rightarrow> [])
               in (case validate_workspace_icon icon of
                  Inl e \<Rightarrow> (Inl e, st)
                | Inr _ \<Rightarrow> (case ae_fault E ''icon'' of
                    NotSent \<Rightarrow> (Inl ''failed to store workspace icon'', st)
                  | fault \<Rightarrow> (if fault = NoFault then Inr () else Inl ''failed to store workspace icon'',
                      st\<lparr>as_icon := (as_icon st)(community := if icon = [] then None else Some icon)\<rparr>))))"

definition add_member_command ::
  "admin_env \<Rightarrow> community_id \<Rightarrow> nevent \<Rightarrow> string \<Rightarrow> string \<Rightarrow> admin_state \<Rightarrow> (string + unit) \<times> admin_state" where
  "add_member_command E community ev sender_role target st =
     (let role = (case extract_tag_value ev ''role'' of Some r \<Rightarrow> r | None \<Rightarrow> ''member'') in
      if sender_role \<noteq> ''admin'' \<and> sender_role \<noteq> ''owner'' then (Inl ''actor not authorized: must be admin or owner'', st)
      else if role = ''owner'' then (Inl ''invalid role: use kind:9032 to promote to owner'', st)
      else if role = ''admin'' \<and> sender_role \<noteq> ''owner'' then (Inl ''actor not authorized: only owner can grant admin role'', st)
      else if role \<noteq> ''admin'' \<and> role \<noteq> ''member'' then (Inl (''invalid role: '' @ role), st)
      else (case member_call E ''add'' (add_relay_member (ae_db_now E) community target role (Some (ev_pubkey ev))) st of
          (Inl e, st1) \<Rightarrow> (Inl e, st1)
        | (Inr inserted, st1) \<Rightarrow> (Inr (),
            if inserted then announce E community MembershipList (announce E community (MemberAdded target) st1) else st1)))"

definition remove_member_command ::
  "admin_env \<Rightarrow> community_id \<Rightarrow> nevent \<Rightarrow> string \<Rightarrow> string \<Rightarrow> admin_state \<Rightarrow> (string + unit) \<times> admin_state" where
  "remove_member_command E community ev sender_role target st =
     (if sender_role \<noteq> ''admin'' \<and> sender_role \<noteq> ''owner'' then (Inl ''actor not authorized: must be admin or owner'', st)
      else if target = ev_pubkey ev then (Inl ''cannot remove yourself'', st)
      else (case member_call E ''remove'' (\<lambda>tbl. map_prod Inr id
               (if sender_role = ''admin'' then remove_relay_member_if_role community target ''member'' tbl
                else remove_relay_member community target tbl)) st of
          (Inl e, st1) \<Rightarrow> (Inl e, st1)
        | (Inr Removed, st1) \<Rightarrow>
            (Inr (), announce E community MembershipList (announce E community (MemberRemoved target) st1))
        | (Inr IsOwner, st1) \<Rightarrow> (Inl ''cannot remove the relay owner'', st1)
        | (Inr MemberNotFound, st1) \<Rightarrow> (Inl (''member not found: '' @ target), st1)
        | (Inr RoleMismatch, st1) \<Rightarrow> (Inl ''actor not authorized: admins can only remove members'', st1)))"

definition change_role_command ::
  "admin_env \<Rightarrow> community_id \<Rightarrow> nevent \<Rightarrow> string \<Rightarrow> string \<Rightarrow> admin_state \<Rightarrow> (string + unit) \<times> admin_state" where
  "change_role_command E community ev sender_role target st =
     (if sender_role \<noteq> ''owner'' then (Inl ''actor not authorized: must be owner'', st)
      else if target = ev_pubkey ev then (Inl ''cannot change your own role'', st)
      else (case extract_tag_value ev ''role'' of
          None \<Rightarrow> (Inl ''missing role tag'', st)
        | Some new_role \<Rightarrow>
            if new_role = ''owner'' then (Inl ''cannot set role to owner'', st)
            else if new_role \<noteq> ''admin'' \<and> new_role \<noteq> ''member'' then (Inl (''invalid role: '' @ new_role), st)
            else (case member_call E ''role'' (update_relay_member_role (ae_db_now E) community target new_role) st of
                (Inl e, st1) \<Rightarrow> (Inl e, st1)
              | (Inr False, st1) \<Rightarrow>
                  (case member_read E ''exists'' (get_relay_member community target (as_members st1)) of
                     Inl e \<Rightarrow> (Inl e, st1)
                   | Inr (Some _) \<Rightarrow> (Inl (''cannot change the relay owner'' @ [CHR 0x27] @ ''s role''), st1)
                   | Inr None \<Rightarrow> (Inl (''member not found: '' @ target), st1))
              | (Inr True, st1) \<Rightarrow> (Inr (), announce E community MembershipList st1))))"

definition dispatch_command ::
  "admin_env \<Rightarrow> community_id \<Rightarrow> nevent \<Rightarrow> string \<Rightarrow> admin_state \<Rightarrow> (string + unit) \<times> admin_state" where
  "dispatch_command E community ev sender_role st =
     (if ev_kind ev = RELAY_ADMIN_SET_WORKSPACE_PROFILE then set_workspace_profile E community ev sender_role st
      else (case map_option to_ascii_lowercase (extract_p_tag_hex ev) of
          None \<Rightarrow> (Inl ''missing or invalid p tag'', st)
        | Some target \<Rightarrow>
            if ev_kind ev = RELAY_ADMIN_ADD_MEMBER then add_member_command E community ev sender_role target st
            else if ev_kind ev = RELAY_ADMIN_REMOVE_MEMBER then remove_member_command E community ev sender_role target st
            else if ev_kind ev = RELAY_ADMIN_CHANGE_ROLE then change_role_command E community ev sender_role target st
            else (Inl ''unexpected relay admin kind'', st)))"

text \<open>\<open>seen\<close> is the roster as it was when the role of the sender was read.\<close>

definition execute_relay_admin_command ::
  "admin_env \<Rightarrow> community_id \<Rightarrow> members_table \<Rightarrow> nevent \<Rightarrow> admin_state \<Rightarrow> (string + unit) \<times> admin_state" where
  "execute_relay_admin_command E community seen ev st =
     (if \<not> fresh_event (ae_now E) ev then (Inl ''event timestamp out of range'', st)
      else (case member_read E ''sender'' (get_relay_member community (ev_pubkey ev) seen) of
          Inl e \<Rightarrow> (Inl e, st)
        | Inr sender \<Rightarrow> dispatch_command E community ev (case sender of Some m \<Rightarrow> mb_role m | None \<Rightarrow> []) st))"

definition admits_relay_admin_command :: "bool \<Rightarrow> RelayAdminError + unit" where
  "admits_relay_admin_command banned = (if banned then Inl Banned else Inr ())"

definition handle_relay_admin_event ::
  "admin_env \<Rightarrow> community_id \<Rightarrow> members_table \<Rightarrow> nevent \<Rightarrow> admin_state \<Rightarrow> (RelayAdminError + unit) \<times> admin_state" where
  "handle_relay_admin_event E community seen ev st =
     (case and_then (map_err (\<lambda>e. AdminInternal (''internal error checking restriction state: '' @ ae_error E e)) (ae_banned E))
             admits_relay_admin_command of
        Inl e \<Rightarrow> (Inl e, st)
      | Inr _ \<Rightarrow> (case execute_relay_admin_command E community seen ev st of (res, st') \<Rightarrow> (map_err AdminRejected res, st')))"

text \<open>The leave request, an arm of \<open>ingest_event\<close>.\<close>

datatype LeaveError = LeaveRejected string | LeaveInternal string

definition handle_leave_request ::
  "admin_env \<Rightarrow> community_id \<Rightarrow> nevent \<Rightarrow> admin_state \<Rightarrow> (LeaveError + string) \<times> admin_state" where
  "handle_leave_request E community ev st =
     (if \<not> ae_membership_required E then (Inl (LeaveRejected ''invalid: relay membership is not enabled''), st)
      else if \<not> fresh_event (ae_now E) ev then (Inl (LeaveRejected ''invalid: leave request timestamp out of range''), st)
      else if \<not> list_ex (\<lambda>t. case tag_slice t of n # _ \<Rightarrow> n = ''-'' | [] \<Rightarrow> False) (ev_tags ev)
        then (Inl (LeaveRejected ''invalid: leave request must include NIP-70 protected event tag''), st)
      else (case member_call E ''remove'' (\<lambda>tbl. map_prod Inr id (remove_relay_member community (ev_pubkey ev) tbl)) st of
          (Inl e, st1) \<Rightarrow> (Inl (LeaveInternal e), st1)
        | (Inr Removed, st1) \<Rightarrow> (Inr ''info: you have left this relay'',
            announce E community MembershipList (announce E community (MemberRemoved (ev_pubkey ev)) st1))
        | (Inr MemberNotFound, st1) \<Rightarrow> (Inl (LeaveRejected ''invalid: you are not a relay member''), st1)
        | (Inr IsOwner, st1) \<Rightarrow> (Inl (LeaveRejected ''invalid: relay owner cannot leave''), st1)
        | (Inr RoleMismatch, st1) \<Rightarrow> (Inl (LeaveInternal ''unexpected RoleMismatch from remove_relay_member''), st1)))"

section \<open>The command line\<close>

text \<open>
  \<open>add-member\<close> and \<open>remove-member\<close> of \<open>buzz-admin\<close>, in the community of the deployment: the exit code,
  and the roster. \<open>parse_key\<close> reads an npub or a hex key into lower-case hex.
\<close>

definition validate_role :: "string \<Rightarrow> string + unit" where
  "validate_role role =
     (if role = ''member'' \<or> role = ''admin'' then Inr ()
      else if role = ''owner'' then Inl ''role owner cannot be set via CLI - use RELAY_OWNER_PUBKEY config''
      else Inl (''invalid role '' @ role @ '': must be member or admin''))"

definition cmd_add_member ::
  "(string \<Rightarrow> string option) \<Rightarrow> db_fault \<Rightarrow> int \<Rightarrow> community_id \<Rightarrow> string \<Rightarrow> string \<Rightarrow> members_table \<Rightarrow> nat \<times> members_table" where
  "cmd_add_member parse_key fault now community pubkey_arg role tbl =
     (case validate_role role of
        Inl _ \<Rightarrow> (1, tbl)
      | Inr _ \<Rightarrow> (case parse_key pubkey_arg of
          None \<Rightarrow> (1, tbl)
        | Some pubkey_hex \<Rightarrow> (case sql_call fault (add_relay_member now community pubkey_hex role None) tbl of
            (Inl _, tbl') \<Rightarrow> (5, tbl')
          | (Inr _, tbl') \<Rightarrow> (0, tbl'))))"

definition cmd_remove_member ::
  "(string \<Rightarrow> string option) \<Rightarrow> db_fault \<Rightarrow> community_id \<Rightarrow> string \<Rightarrow> string option \<Rightarrow> members_table \<Rightarrow> nat \<times> members_table" where
  "cmd_remove_member parse_key fault community pubkey_arg role_filter tbl =
     (case (case role_filter of None \<Rightarrow> Inr () | Some role \<Rightarrow> validate_role role) of
        Inl _ \<Rightarrow> (1, tbl)
      | Inr _ \<Rightarrow> (case parse_key pubkey_arg of
          None \<Rightarrow> (1, tbl)
        | Some pubkey_hex \<Rightarrow>
            (case sql_call fault (\<lambda>t. map_prod Inr id (case role_filter of
                  Some role \<Rightarrow> remove_relay_member_if_role community pubkey_hex role t
                | None \<Rightarrow> remove_relay_member community pubkey_hex t)) tbl of
              (Inl _, tbl') \<Rightarrow> (5, tbl')
            | (Inr Removed, tbl') \<Rightarrow> (0, tbl')
            | (Inr MemberNotFound, tbl') \<Rightarrow> (2, tbl')
            | (Inr IsOwner, tbl') \<Rightarrow> (3, tbl')
            | (Inr RoleMismatch, tbl') \<Rightarrow> (4, tbl'))))"

lemma cli_add_state:
  assumes "cmd_add_member parse_key fault now c arg role tbl = (code, tbl')"
  shows "tbl' = tbl \<or> (\<exists>p. parse_key arg = Some p \<and> role \<in> {''member'', ''admin''} \<and> tbl' = snd (add_relay_member now c p role None tbl))"
proof (cases "parse_key arg")
  case (Some p)
  then show ?thesis using assms sql_call_state [of fault "add_relay_member now c p role None" tbl]
    by (auto simp: cmd_add_member_def validate_role_def split: if_splits prod.splits sum.splits)
qed (use assms in \<open>auto simp: cmd_add_member_def split: sum.splits\<close>)

lemma cli_remove_state:
  assumes "cmd_remove_member parse_key fault c arg filter_role tbl = (code, tbl')"
  shows "tbl' = tbl \<or> (\<exists>p. parse_key arg = Some p \<and>
     (tbl' = snd (remove_relay_member c p tbl) \<or> (\<exists>r\<in>{''member'', ''admin''}. tbl' = snd (remove_relay_member_if_role c p r tbl))))"
proof (cases "parse_key arg")
  case (Some p)
  let ?stmt = "\<lambda>t. map_prod Inr id (case filter_role of Some role \<Rightarrow> remove_relay_member_if_role c p role t
      | None \<Rightarrow> remove_relay_member c p t) :: (DbError + RemoveResult) \<times> members_table"
  obtain res t where call: "sql_call fault ?stmt tbl = (res, t)" by fastforce
  have "tbl' = tbl \<or> (filter_role = None \<or> filter_role \<in> {Some ''member'', Some ''admin''}) \<and> tbl' = t"
    using assms Some call
    by (cases filter_role) (auto simp: cmd_remove_member_def validate_role_def split: if_splits sum.splits RemoveResult.splits)
  moreover have "t \<in> {tbl, snd (?stmt tbl)}" using sql_call_state [of fault ?stmt tbl] call by simp
  ultimately show ?thesis using Some by (cases filter_role) auto
qed (use assms in \<open>auto simp: cmd_remove_member_def split: sum.splits\<close>)

text \<open>Before 2^63 the check is what it says: no more than two minutes from now.\<close>

lemma fresh_event_exact:
  assumes "int (ev_created_at ev) < 2 ^ 63" and "0 \<le> now" and "now < 2 ^ 63"
  shows "fresh_event now ev \<longleftrightarrow> \<bar>int (ev_created_at ev) - now\<bar> \<le> 120"
proof -
  have "wrap_i64 (int (ev_created_at ev)) = int (ev_created_at ev)" using assms by (intro wrap_i64_id) auto
  moreover have "wrap_i64 (int (ev_created_at ev) - now) = int (ev_created_at ev) - now" using assms by (intro wrap_i64_id) auto
  moreover have "wrap_i64 \<bar>int (ev_created_at ev) - now\<bar> = \<bar>int (ev_created_at ev) - now\<bar>" using assms by (intro wrap_i64_id) auto
  ultimately show ?thesis by (simp add: fresh_event_def not_less)
qed

section \<open>What a command does to the roster\<close>

lemma member_call_state:
  assumes "member_call E label statement st = (res, st')"
  shows "as_members st' \<in> {as_members st, snd (statement (as_members st))}"
  using assms sql_call_state [of "ae_fault E label" statement "as_members st"]
  by (auto simp: member_call_def split: prod.splits)

lemma announce_members [simp]: "as_members (announce E c a st) = as_members st"
  by (simp add: announce_def run_if_def)

text \<open>The things a command may do; an admin removes a key only while it is a plain member.\<close>

datatype roster_change =
    Unchanged
  | Added string string
  | RemovedMember string
  | RemovedKey string
  | RoleSet string string

fun change_effect :: "int \<Rightarrow> community_id \<Rightarrow> string \<Rightarrow> roster_change \<Rightarrow> members_table \<Rightarrow> members_table" where
  "change_effect now c actor Unchanged tbl = tbl"
| "change_effect now c actor (Added p r) tbl = snd (add_relay_member now c p r (Some actor) tbl)"
| "change_effect now c actor (RemovedMember p) tbl = snd (remove_relay_member_if_role c p ''member'' tbl)"
| "change_effect now c actor (RemovedKey p) tbl = snd (remove_relay_member c p tbl)"
| "change_effect now c actor (RoleSet p r) tbl = snd (update_relay_member_role now c p r tbl)"

text \<open>What the permission matrix lets a role do.\<close>

fun permitted :: "string option \<Rightarrow> roster_change \<Rightarrow> bool" where
  "permitted role Unchanged = True"
| "permitted role (Added p r) \<longleftrightarrow> role = Some ''owner'' \<and> r = ''admin'' \<or> role \<in> {Some ''owner'', Some ''admin''} \<and> r = ''member''"
| "permitted role (RemovedMember p) \<longleftrightarrow> role = Some ''admin''"
| "permitted role (RemovedKey p) \<longleftrightarrow> role = Some ''owner''"
| "permitted role (RoleSet p r) \<longleftrightarrow> role = Some ''owner'' \<and> (r = ''admin'' \<or> r = ''member'')"

lemma set_workspace_profile_members [simp]:
  "as_members (snd (set_workspace_profile E c ev r st)) = as_members st"
  by (auto simp: set_workspace_profile_def Let_def split: sum.splits db_fault.splits)

lemma add_command_effect:
  assumes "r = (case role_of c (ev_pubkey ev) seen of Some x \<Rightarrow> x | None \<Rightarrow> [])"
  shows "\<exists>ch. permitted (role_of c (ev_pubkey ev) seen) ch
     \<and> as_members (snd (add_member_command E c ev r target st)) = change_effect (ae_db_now E) c (ev_pubkey ev) ch (as_members st)"
proof -
  let ?role = "case extract_tag_value ev ''role'' of Some r \<Rightarrow> r | None \<Rightarrow> ''member''"
  show ?thesis
  proof (cases "r \<noteq> ''admin'' \<and> r \<noteq> ''owner'' \<or> ?role = ''owner'' \<or> ?role = ''admin'' \<and> r \<noteq> ''owner'' \<or> ?role \<noteq> ''admin'' \<and> ?role \<noteq> ''member''")
    case True
    then have "as_members (snd (add_member_command E c ev r target st)) = as_members st"
      by (auto simp: add_member_command_def Let_def)
    then show ?thesis by (intro exI [of _ Unchanged]) simp
  next
    case False
    then have "as_members (snd (add_member_command E c ev r target st)) \<in>
        {as_members st, snd (add_relay_member (ae_db_now E) c target ?role (Some (ev_pubkey ev)) (as_members st))}"
      using member_call_state [of E "''add''" "add_relay_member (ae_db_now E) c target ?role (Some (ev_pubkey ev))" st]
      by (auto simp: add_member_command_def Let_def split: prod.split sum.split)
    moreover have "permitted (role_of c (ev_pubkey ev) seen) (Added target ?role)"
      using False assms by (auto split: option.splits)
    ultimately show ?thesis
      by (auto intro: exI [of _ Unchanged] exI [of _ "Added target ?role"])
  qed
qed

lemma remove_command_effect:
  assumes "r = (case role_of c (ev_pubkey ev) seen of Some x \<Rightarrow> x | None \<Rightarrow> [])"
  shows "\<exists>ch. permitted (role_of c (ev_pubkey ev) seen) ch
     \<and> as_members (snd (remove_member_command E c ev r target st)) = change_effect (ae_db_now E) c (ev_pubkey ev) ch (as_members st)"
proof (cases "r \<noteq> ''admin'' \<and> r \<noteq> ''owner'' \<or> target = ev_pubkey ev")
  case True
  then have "as_members (snd (remove_member_command E c ev r target st)) = as_members st"
    by (auto simp: remove_member_command_def)
  then show ?thesis by (intro exI [of _ Unchanged]) simp
next
  case False
  let ?stmt = "\<lambda>tbl. map_prod Inr id (if r = ''admin'' then remove_relay_member_if_role c target ''member'' tbl
               else remove_relay_member c target tbl)"
  obtain res st1 where call: "member_call E ''remove'' ?stmt st = (res, st1)" by fastforce
  have "as_members (snd (remove_member_command E c ev r target st)) = as_members st1"
  proof (cases res)
    case (Inr b)
    then show ?thesis using False unfolding remove_member_command_def call by (cases b) auto
  qed (use False in \<open>auto simp: remove_member_command_def call\<close>)
  then have "as_members (snd (remove_member_command E c ev r target st)) \<in> {as_members st, snd (?stmt (as_members st))}"
    using member_call_state [OF call] by simp
  moreover have "snd (?stmt (as_members st)) =
      change_effect (ae_db_now E) c (ev_pubkey ev) (if r = ''admin'' then RemovedMember target else RemovedKey target) (as_members st)"
    by simp
  moreover have "permitted (role_of c (ev_pubkey ev) seen) (if r = ''admin'' then RemovedMember target else RemovedKey target)"
    using False assms by (auto split: option.splits)
  ultimately show ?thesis
    by (metis change_effect.simps(1) insertE permitted.simps(1) singletonD)
qed

lemma role_command_effect:
  assumes "r = (case role_of c (ev_pubkey ev) seen of Some x \<Rightarrow> x | None \<Rightarrow> [])"
  shows "\<exists>ch. permitted (role_of c (ev_pubkey ev) seen) ch
     \<and> as_members (snd (change_role_command E c ev r target st)) = change_effect (ae_db_now E) c (ev_pubkey ev) ch (as_members st)"
proof (cases "\<exists>role. r = ''owner'' \<and> target \<noteq> ev_pubkey ev \<and> extract_tag_value ev ''role'' = Some role \<and> (role = ''admin'' \<or> role = ''member'')")
  case False
  then have "as_members (snd (change_role_command E c ev r target st)) = as_members st"
    by (auto simp: change_role_command_def split: option.split)
  then show ?thesis by (intro exI [of _ Unchanged]) simp
next
  case True
  then obtain role where role: "r = ''owner''" "target \<noteq> ev_pubkey ev" "extract_tag_value ev ''role'' = Some role"
    "role = ''admin'' \<or> role = ''member''" by blast
  then have "as_members (snd (change_role_command E c ev r target st)) \<in>
      {as_members st, snd (update_relay_member_role (ae_db_now E) c target role (as_members st))}"
    using member_call_state [of E "''role''" "update_relay_member_role (ae_db_now E) c target role" st]
    by (auto simp: change_role_command_def split: prod.split sum.split bool.split option.split)
  moreover have "permitted (role_of c (ev_pubkey ev) seen) (RoleSet target role)"
    using role assms by (auto split: option.splits)
  ultimately show ?thesis
    by (auto intro: exI [of _ Unchanged] exI [of _ "RoleSet target role"])
qed

text \<open>A command, whatever it says and whatever fails on the way, does one permitted thing.\<close>

lemma execute_effect:
  fixes E c ev st seen
  defines "r \<equiv> (case role_of c (ev_pubkey ev) seen of Some x \<Rightarrow> x | None \<Rightarrow> [])"
  shows "\<exists>ch. permitted (role_of c (ev_pubkey ev) seen) ch
     \<and> as_members (snd (execute_relay_admin_command E c seen ev st)) = change_effect (ae_db_now E) c (ev_pubkey ev) ch (as_members st)"
    (is "?goal (as_members (snd (execute_relay_admin_command E c seen ev st)))")
proof -
  have stay: "?goal (as_members st)" by (intro exI [of _ Unchanged]) simp
  have r: "r = (case role_of c (ev_pubkey ev) seen of Some x \<Rightarrow> x | None \<Rightarrow> [])" by (simp add: r_def)
  have sender: "(case get_relay_member c (ev_pubkey ev) seen of Some m \<Rightarrow> mb_role m | None \<Rightarrow> []) = r"
    by (simp add: role_of_def get_relay_member_def r_def split: option.split)
  have "?goal (as_members (snd (dispatch_command E c ev r st)))"
    using stay add_command_effect [OF r, of E] remove_command_effect [OF r, of E] role_command_effect [OF r, of E]
    unfolding dispatch_command_def by (simp split: option.split)
  then show ?thesis
    using stay by (auto simp: execute_relay_admin_command_def member_read_def sql_read_def sender)
qed

lemma command_effect:
  "\<exists>ch. permitted (role_of c (ev_pubkey ev) seen) ch
     \<and> as_members (snd (handle_relay_admin_event E c seen ev st)) = change_effect (ae_db_now E) c (ev_pubkey ev) ch (as_members st)"
proof -
  have "as_members (snd (handle_relay_admin_event E c seen ev st)) \<in>
      {as_members st, as_members (snd (execute_relay_admin_command E c seen ev st))}"
    by (auto simp: handle_relay_admin_event_def split: sum.split prod.split)
  then show ?thesis
    using execute_effect [of c ev seen E st] by (auto intro: exI [of _ Unchanged])
qed

lemma leave_effect:
  "as_members (snd (handle_leave_request E c ev st)) \<in>
     {as_members st, snd (remove_relay_member c (ev_pubkey ev) (as_members st))}"
  using member_call_state [of E "''remove''" "\<lambda>tbl. map_prod Inr id (remove_relay_member c (ev_pubkey ev) tbl)" st]
  by (auto simp: handle_leave_request_def split: prod.split sum.split RemoveResult.split)

end
