(* ===== verification/Governance.thy ===== *)
theory Governance
  imports Relay_Admin
begin

text \<open>
  Who can come to hold which role. A history of the roster takes the commands of members,
  their leaving, claims of invites, the enrolment of employees, the backfill from the old
  allowlist, the command line, the founding of a community and the two transactions that change
  an owner, each with whatever faults. What a step read before it wrote is any roster that was
  committed earlier, so steps overlap as they may under \<open>READ COMMITTED\<close>. The deletion of a whole
  community is not a step.
\<close>

datatype gov_event =
    Command community_id string members_table
  | Leave community_id string
  | Join community_id string
  | Enrol community_id string
  | Backfill community_id
  | CliAdd community_id string string
  | CliRemove community_id string
  | Found community_id string
  | Bootstrap community_id string members_table
  | Transfer community_id string string transfer_view

text \<open>
  One step on what was committed, newest first. What a transfer has locked keeps its role until
  the commit; a new community has an identifier no row has yet, as its foreign key says.
\<close>

inductive gov_step :: "members_table list \<Rightarrow> gov_event \<Rightarrow> members_table \<Rightarrow> bool" where
  command: "handle_relay_admin_event E c seen ev st = (res, st') \<Longrightarrow> as_members st = tbl \<Longrightarrow> seen \<in> set (tbl # past) \<Longrightarrow>
     gov_step (tbl # past) (Command c (ev_pubkey ev) seen) (as_members st')"
| leave: "handle_leave_request E c ev st = (res', st') \<Longrightarrow> as_members st = tbl \<Longrightarrow>
     gov_step (tbl # past) (Leave c (ev_pubkey ev)) (as_members st')"
| claim: "claim_invite I secret seen' now attempts policy c p code receipt db = (reply, db') \<Longrightarrow> ro_members (db_roster db) = tbl \<Longrightarrow>
     gov_step (tbl # past) (Join c p) (ro_members (db_roster db'))"
| enrol: "sql_call fault (add_relay_member now c p ''member'' by_whom) tbl = (res'', tbl') \<Longrightarrow> gov_step (tbl # past) (Enrol c p) tbl'"
| backfill: "backfill_from_allowlist allowlist c seen tbl = (n, tbl') \<Longrightarrow> seen \<in> set (tbl # past) \<Longrightarrow> gov_step (tbl # past) (Backfill c) tbl'"
| cli_add: "cmd_add_member parse_key fault now c arg role tbl = (code', tbl') \<Longrightarrow> parse_key arg = Some p \<Longrightarrow>
     gov_step (tbl # past) (CliAdd c p role) tbl'"
| cli_remove: "cmd_remove_member parse_key fault c arg filter_role tbl = (code', tbl') \<Longrightarrow> parse_key arg = Some p \<Longrightarrow>
     gov_step (tbl # past) (CliRemove c p) tbl'"
| found: "create_community_with_owner sql_lower c limit now host p counted hosts tbl = (created, hosts', tbl') \<Longrightarrow>
     counted \<in> set (tbl # past) \<Longrightarrow> \<forall>q. role_of c q tbl = None \<Longrightarrow> gov_step (tbl # past) (Found c (to_ascii_lowercase p)) tbl'"
| bootstrap: "bootstrap_owner now c p swept tbl = tbl' \<Longrightarrow> swept \<in> set (tbl # past) \<Longrightarrow>
     gov_step (tbl # past) (Bootstrap c (to_ascii_lowercase p) swept) tbl'"
| transfer: "transfer_ownership limit now c p expected V tbl = (outcome, tbl') \<Longrightarrow>
     {tv_selected V, tv_locked V, tv_counted V, tv_swept V} \<subseteq> set (tbl # past) \<Longrightarrow>
     \<forall>q\<in>set (locked_owners c V). role_of c q tbl = Some ''owner'' \<Longrightarrow>
     gov_step (tbl # past) (Transfer c (to_ascii_lowercase p) (to_ascii_lowercase expected) V) tbl'"

text \<open>A history, newest first, from the empty roster.\<close>

type_synonym gov_run = "(gov_event \<times> members_table) list"

definition committed :: "gov_run \<Rightarrow> members_table list" where
  "committed run = map snd run @ [[]]"

definition roster_of :: "gov_run \<Rightarrow> members_table" where
  "roster_of run = hd (committed run)"

definition gov_move :: "gov_run \<Rightarrow> gov_run \<Rightarrow> bool" where
  "gov_move run run' \<longleftrightarrow> (\<exists>e tbl. run' = (e, tbl) # run \<and> gov_step (committed run) e tbl)"

section \<open>One step\<close>

text \<open>What a step may make of a key's role, by who took it.\<close>

definition role_change_ok :: "gov_event \<Rightarrow> members_table \<Rightarrow> community_id \<Rightarrow> string \<Rightarrow> string option \<Rightarrow> string option \<Rightarrow> bool" where
  "role_change_ok e tbl c p old new \<longleftrightarrow>
     old = new
     \<or> (case e of
          Command c' actor seen \<Rightarrow> c' = c \<and> old \<noteq> Some ''owner''
            \<and> (new = None \<and> (role_of c actor seen = Some ''owner'' \<or> role_of c actor seen = Some ''admin'' \<and> old = Some ''member'')
              \<or> new = Some ''member'' \<and> (role_of c actor seen = Some ''owner'' \<or> role_of c actor seen = Some ''admin'' \<and> old = None)
              \<or> new = Some ''admin'' \<and> role_of c actor seen = Some ''owner'')
        | Leave c' actor \<Rightarrow> c' = c \<and> actor = p \<and> old \<noteq> Some ''owner'' \<and> new = None
        | Join c' q \<Rightarrow> c' = c \<and> q = p \<and> old = None \<and> new = Some ''member''
        | Enrol c' q \<Rightarrow> c' = c \<and> q = p \<and> old = None \<and> new = Some ''member''
        | Backfill c' \<Rightarrow> c' = c \<and> old = None \<and> new = Some ''member''
        | CliAdd c' q r \<Rightarrow> c' = c \<and> q = p \<and> old = None \<and> new = Some r \<and> (r = ''member'' \<or> r = ''admin'')
        | CliRemove c' q \<Rightarrow> c' = c \<and> q = p \<and> old \<noteq> Some ''owner'' \<and> new = None
        | Found c' q \<Rightarrow> c' = c \<and> q = p \<and> (\<forall>x. role_of c x tbl = None) \<and> new = Some ''owner''
        | Bootstrap c' q swept \<Rightarrow> c' = c \<and> (if q = p then new = Some ''owner'' else old = Some ''owner'' \<and> new = Some ''admin'')
        | Transfer c' q expected V \<Rightarrow> c' = c \<and> role_of c expected tbl = Some ''owner''
            \<and> (if q = p then new = Some ''owner'' else old = Some ''owner'' \<and> new = Some ''member''))"

lemma member_role [simp]: "''member'' \<in> set ROLES" "''admin'' \<in> set ROLES" "''owner'' \<in> set ROLES"
  by (simp_all add: ROLES_def)

lemma change_ok:
  assumes "members_ok tbl"
  shows "members_ok (change_effect now c actor ch tbl)"
proof (cases ch)
  case (Added p r)
  then show ?thesis using members.insert_ignore_ok [OF assms] by (simp add: add_relay_member_def)
next
  case (RoleSet p r)
  then show ?thesis using members.update_ok [OF assms] by (simp add: update_relay_member_role_def)
qed (use assms members.delete_ok [OF assms] in \<open>simp_all add: remove_state remove_if_state\<close>)

lemma command_role:
  assumes "members_ok tbl" and "permitted (role_of c actor seen) ch"
  shows "role_change_ok (Command c actor seen) tbl c' p (role_of c' p tbl) (role_of c' p (change_effect now c actor ch tbl))"
proof -
  have keys: "keys_ok tbl" using assms(1) by (simp add: sql_table_ok_def)
  show ?thesis
    using assms(2) by (cases ch) (auto simp: role_change_ok_def role_of_add role_of_update role_of_remove [OF keys] role_of_remove_if [OF keys])
qed

lemma claim_roster:
  "ro_members (db_roster (snd (claim_relay_invite seen now c token p policy db))) \<in>
     {ro_members (db_roster db), snd (add_relay_member now c p ''member'' (Some ''invite'') (ro_members (db_roster db)))}"
proof -
  obtain outcome db' where res: "claim_relay_invite seen now c token p policy db = (outcome, db')" by fastforce
  show ?thesis
  proof (cases "\<exists>n left. outcome = Joined n left")
    case True
    then show ?thesis using res by (auto elim!: claim_joined)
  next
    case False
    then show ?thesis using claim_other(2) [OF res] res by simp
  qed
qed

lemma v1_claim_roster:
  "ro_members (snd (claim_relay_membership now c p ''member'' policy r)) =
     snd (add_relay_member now c p ''member'' (Some ''invite'') (ro_members r))"
  by (auto simp: claim_relay_membership_def add_relay_member_def sql_insert_ignore_def sql_insert_def)

lemma claim_members:
  "ro_members (db_roster (snd (claim_invite I secret seen now attempts policy c p code receipt db))) \<in>
     {ro_members (db_roster db), snd (add_relay_member now c p ''member'' (Some ''invite'') (ro_members (db_roster db)))}"
proof (cases "verify_invite I (derive_invite_key I secret) c code")
  case (Inl e)
  then show ?thesis
    using claim_roster [of seen now c "hash_v2_code I code" p policy db]
    by (cases e) (auto simp: claim_invite_def Let_def split: prod.split)
next
  case (Inr payload)
  then have "ip_r payload = ''member''" by (auto simp: verify_invite_def res_simps split: if_splits)
  then show ?thesis
    using claim_roster [of seen now c "hash_v2_code I code" p policy db] v1_claim_roster [of now c p policy "db_roster db"] Inr
    by (auto simp: claim_invite_def Let_def split: prod.split sum.split)
qed

lemma role_of_join:
  assumes "t \<in> {tbl, snd (add_relay_member now c' q ''member'' by_whom tbl)}"
  shows "role_of c p t = role_of c p tbl \<or> c' = c \<and> q = p \<and> role_of c p tbl = None \<and> role_of c p t = Some ''member''"
  using assms by (auto simp: role_of_add split: if_splits)

lemma add_ok: "members_ok tbl \<Longrightarrow> members_ok (snd (add_relay_member now c p r by_whom tbl))"
  by (simp add: add_relay_member_def members.insert_ignore_ok)

lemma found_state:
  "create_community_with_owner sql_lower c limit now host p counted hosts tbl = (created, hosts', tbl') \<Longrightarrow>
     tbl' = tbl \<or> tbl' = tbl @ [((c, to_ascii_lowercase p), member_row now (to_ascii_lowercase p) ''owner'' None)]"
  by (auto simp: create_community_with_owner_def Let_def split: if_splits option.splits)

lemma transfer_state:
  "transfer_ownership limit now c p expected V tbl = (outcome, tbl') \<Longrightarrow>
     tbl' = tbl \<or> to_ascii_lowercase expected \<in> set (locked_owners c V)
       \<and> tbl' = demote_others now c (to_ascii_lowercase p) ''member'' (tv_swept V) (upsert_owner now c (to_ascii_lowercase p) tbl)"
  by (auto simp: transfer_ownership_def Let_def split: if_splits)

lemma found_ok:
  assumes "members_ok tbl" and "role_of c q tbl = None"
  shows "members_ok (tbl @ [((c, q), member_row now q ''owner'' None)])"
  using assms by (auto simp: sql_table_ok_def role_of_def role_check_def member_row_def map_of_eq_None_iff keys_ok_def)

text \<open>Every step keeps the table's contract and changes roles only as its kind and its actor allow.\<close>

lemma step_ok:
  assumes "gov_step past e tbl'" and "\<forall>t\<in>set past. members_ok t"
  shows "members_ok tbl'"
  using assms
proof (induction rule: gov_step.induct)
  case (command E c seen ev st res st' tbl past)
  then show ?case using command_effect [of c ev seen E st] change_ok [of "as_members st"] by auto
next
  case (leave E c ev st res' st' tbl past)
  then show ?case using leave_effect [of E c ev st] members.delete_ok [of "as_members st"] by (auto simp: remove_state)
next
  case (claim I secret seen' now attempts policy c p code receipt db reply db' tbl past)
  then show ?case
    using claim_members [of I secret seen' now attempts policy c p code receipt db] add_ok by auto
next
  case (enrol fault now c p by_whom tbl res'' tbl' past)
  then show ?case using sql_call_state [of fault "add_relay_member now c p ''member'' by_whom" tbl] add_ok by auto
next
  case (backfill allowlist c seen tbl n tbl' past)
  then show ?case using backfill_ok [of tbl allowlist c seen] by simp
next
  case (cli_add parse_key fault now c arg role tbl code' tbl' p past)
  then show ?case using cli_add_state [OF cli_add(1)] add_ok by auto
next
  case (cli_remove parse_key fault c arg filter_role tbl code' tbl' p past)
  then show ?case using cli_remove_state [OF cli_remove(1)] members.delete_ok [of tbl] by (auto simp: remove_state remove_if_state)
next
  case (found sql_lower c limit now host p counted hosts tbl created hosts' tbl' past)
  then show ?case using found_state [OF found(1)] found_ok [of tbl c] by auto
next
  case (bootstrap now c p swept tbl tbl' past)
  then show ?case by (auto simp: bootstrap_owner_def Let_def intro: demote_ok upsert_ok)
next
  case (transfer limit now c p expected V tbl outcome tbl' past)
  then show ?case using transfer_state [OF transfer(1)] by (auto intro: demote_ok upsert_ok)
qed

lemma step_role:
  assumes "gov_step past e tbl'" and "\<forall>t\<in>set past. members_ok t"
  shows "role_change_ok e (hd past) c p (role_of c p (hd past)) (role_of c p tbl')"
  using assms
proof (induction rule: gov_step.induct)
  case (command E c' seen ev st res st' tbl past)
  then show ?case using command_effect [of c' ev seen E st] command_role [of "as_members st" c' "ev_pubkey ev" seen] by auto
next
  case (leave E c' ev st res' st' tbl past)
  then have "keys_ok (as_members st)" by (simp add: sql_table_ok_def)
  then show ?case using leave leave_effect [of E c' ev st] by (auto simp: role_change_ok_def role_of_remove split: if_splits)
next
  case (claim I secret seen' now attempts policy c' q code receipt db reply db' tbl past)
  then show ?case
    using role_of_join [OF claim_members [of I secret seen' now attempts policy c' q code receipt db], of c p]
    by (auto simp: role_change_ok_def split: if_splits)
next
  case (enrol fault now c' q by_whom tbl res'' tbl' past)
  then show ?case using sql_call_state [of fault "add_relay_member now c' q ''member'' by_whom" tbl]
    role_of_join [of tbl' tbl now c' q by_whom c p] by (auto simp: role_change_ok_def)
next
  case (backfill allowlist c' seen tbl n tbl' past)
  then show ?case using role_of_backfill [of c p allowlist c' seen tbl] by (auto simp: role_change_ok_def split: if_splits)
next
  case (cli_add parse_key fault now c' arg role tbl code' tbl' q past)
  then show ?case using cli_add_state [OF cli_add(1)] cli_add(2) by (auto simp: role_change_ok_def role_of_add split: if_splits)
next
  case (cli_remove parse_key fault c' arg filter_role tbl code' tbl' q past)
  then have "keys_ok tbl" by (simp add: sql_table_ok_def)
  then show ?case using cli_remove_state [OF cli_remove(1)] cli_remove(2)
    by (auto simp: role_change_ok_def role_of_remove role_of_remove_if split: if_splits)
next
  case (found sql_lower c' limit now host q counted hosts tbl created hosts' tbl' past)
  then show ?case using found_state [OF found(1)] by (auto simp: role_change_ok_def role_of_append member_row_def split: if_splits)
next
  case (bootstrap now c' q swept tbl tbl' past)
  then show ?case by (auto simp: bootstrap_owner_def Let_def role_of_grant role_change_ok_def split: if_splits)
next
  case (transfer limit now c' q expected V tbl outcome tbl' past)
  then show ?case using transfer_state [OF transfer(1)]
    by (cases "tbl' = tbl") (simp_all add: role_change_ok_def role_of_grant)
qed

section \<open>Histories\<close>

text \<open>
  A grant of ownership did not overlap another if, when it swept, the owners of its community
  were those of the table it committed to. A community is settled if that holds for the last
  grant that changed its roster.
\<close>

definition same_owners :: "community_id \<Rightarrow> members_table \<Rightarrow> members_table \<Rightarrow> bool" where
  "same_owners c seen tbl \<longleftrightarrow> (\<forall>q. role_of c q seen = Some ''owner'' \<longleftrightarrow> role_of c q tbl = Some ''owner'')"

fun grants :: "community_id \<Rightarrow> gov_event \<Rightarrow> bool" where
  "grants c (Found c' q) = (c' = c)"
| "grants c (Bootstrap c' q swept) = (c' = c)"
| "grants c (Transfer c' q expected V) = (c' = c)"
| "grants c _ = False"

fun alone :: "community_id \<Rightarrow> members_table \<Rightarrow> gov_event \<Rightarrow> bool" where
  "alone c tbl (Bootstrap c' q swept) = same_owners c swept tbl"
| "alone c tbl (Transfer c' q expected V) = same_owners c (tv_swept V) tbl"
| "alone c tbl _ = True"

fun settled :: "community_id \<Rightarrow> gov_run \<Rightarrow> bool" where
  "settled c [] = True"
| "settled c ((e, tbl) # run) =
     (if grants c e \<and> tbl \<noteq> roster_of run then alone c (roster_of run) e else settled c run)"

definition run_sound :: "gov_run \<Rightarrow> bool" where
  "run_sound run \<longleftrightarrow> (\<forall>t\<in>set (committed run). members_ok t)
     \<and> (\<forall>c p q. settled c run \<longrightarrow> role_of c p (roster_of run) = Some ''owner'' \<longrightarrow> role_of c q (roster_of run) = Some ''owner'' \<longrightarrow> p = q)"

lemma committed_simps [simp]:
  "committed [] = [[]]" "committed ((e, tbl) # run) = tbl # committed run"
  "roster_of [] = []" "roster_of ((e, tbl) # run) = tbl" "hd (committed run) = roster_of run"
  by (simp_all add: committed_def roster_of_def)

lemma step_owner:
  assumes "gov_step past e tbl'" and "\<forall>t\<in>set past. members_ok t" and "\<not> grants c e"
  shows "role_of c p tbl' = Some ''owner'' \<longleftrightarrow> role_of c p (hd past) = Some ''owner''"
  using step_role [OF assms(1,2), of c p] assms(3) by (cases e) (auto simp: role_change_ok_def)

text \<open>A grant of ownership leaves an owner, and no other if it was alone.\<close>

lemma grant_step:
  assumes "gov_step past e tbl'" and "grants c e" and "tbl' \<noteq> hd past"
  shows "(\<exists>q. role_of c q tbl' = Some ''owner'')
     \<and> (alone c (hd past) e \<longrightarrow> role_of c p tbl' = Some ''owner'' \<longrightarrow> role_of c q tbl' = Some ''owner'' \<longrightarrow> p = q)"
  using assms
proof (induction rule: gov_step.induct)
  case (found sql_lower c' limit now host r counted hosts tbl created hosts' tbl' past)
  then show ?case using found_state [OF found(1)] by (auto simp: role_of_append member_row_def split: if_splits)
next
  case (bootstrap now c' r swept tbl tbl' past)
  then show ?case by (auto simp: bootstrap_owner_def Let_def role_of_grant same_owners_def split: if_splits)
next
  case (transfer limit now c' r expected V tbl outcome tbl' past)
  then show ?case using transfer_state [OF transfer(1)] by (auto simp: role_of_grant same_owners_def)
qed simp_all

lemma sound_step:
  assumes "gov_step (committed run) e tbl" and "run_sound run"
  shows "run_sound ((e, tbl) # run)"
proof -
  have ok: "\<forall>t\<in>set (committed run). members_ok t" using assms(2) by (simp add: run_sound_def)
  have "p = q" if "settled c ((e, tbl) # run)" "role_of c p tbl = Some ''owner''" "role_of c q tbl = Some ''owner''" for c p q
  proof (cases "grants c e \<and> tbl \<noteq> roster_of run")
    case True
    then show ?thesis using grant_step [OF assms(1), of c p q] that by simp
  next
    case False
    then have "role_of c x tbl = Some ''owner'' \<longleftrightarrow> role_of c x (roster_of run) = Some ''owner''" for x
      using step_owner [OF assms(1) ok, of c x] by auto
    then show ?thesis using that False assms(2) unfolding run_sound_def by (metis settled.simps(2))
  qed
  then show ?thesis using step_ok [OF assms(1) ok] ok by (auto simp: run_sound_def)
qed

interpretation governed: invariant_machine "\<lambda>run. run = []" gov_move run_sound
proof
  show "run = [] \<Longrightarrow> run_sound run" for run by (simp add: run_sound_def role_of_def members.empty_ok)
  show "gov_move run run' \<Longrightarrow> run_sound run \<Longrightarrow> run_sound run'" for run run'
    by (auto simp: gov_move_def intro: sound_step)
qed

lemma moves_keep_an_owner:
  assumes "gov_move\<^sup>*\<^sup>* run run'" and "run_sound run" and "role_of c p (roster_of run) = Some ''owner''"
  shows "\<exists>q. role_of c q (roster_of run') = Some ''owner''"
  using assms(1)
proof (induction rule: rtranclp_induct)
  case base
  show ?case using assms(3) by blast
next
  case (step mid run'')
  obtain e tbl where e: "run'' = (e, tbl) # mid" "gov_step (committed mid) e tbl" using step.hyps(2) by (auto simp: gov_move_def)
  have "\<forall>t\<in>set (committed mid). members_ok t" using governed.inv_steps [OF step.hyps(1) assms(2)] by (simp add: run_sound_def)
  then show ?case using step.IH e(1) step_owner [OF e(2), of c] grant_step [OF e(2), of c] by (cases "grants c e") auto
qed

text \<open>C7: Once a community has an owner it is never without one, whatever commands, leave
  requests, invite claims, enrolments, uses of the command line, bootstraps and transfers follow, with
  whatever faults and however they overlap; and it has exactly one whenever the last grant of ownership that changed
  its roster did not overlap another.\<close>

theorem one_owner_always:
  assumes "gov_move\<^sup>*\<^sup>* [] run" and "gov_move\<^sup>*\<^sup>* run run'" and "role_of c p (roster_of run) = Some ''owner''"
  shows "(\<exists>q. role_of c q (roster_of run') = Some ''owner'')
     \<and> (settled c run' \<longrightarrow> (\<exists>!q. role_of c q (roster_of run') = Some ''owner''))"
proof -
  have "run_sound run" "run_sound run'"
    using governed.inv_reachable [OF refl assms(1)] governed.inv_reachable [OF refl rtranclp_trans [OF assms(1,2)]] by auto
  then show ?thesis using moves_keep_an_owner [OF assms(2) _ assms(3)] unfolding run_sound_def by metis
qed

section \<open>Runs\<close>

text \<open>A community given to one key, by which it is transferred to another; and two grants that overlap.\<close>

definition founded :: members_table where
  "founded = bootstrap_owner 10 2 ''aa'' [] []"

definition founded_run :: gov_run where
  "founded_run = [(Bootstrap 2 ''aa'' [], founded)]"

definition hand_over_view :: transfer_view where
  "hand_over_view = \<lparr>tv_selected = founded, tv_locked = founded, tv_counted = founded, tv_swept = founded\<rparr>"

definition handed_over :: members_table where
  "handed_over = snd (transfer_ownership 5 20 2 ''bb'' ''aa'' hand_over_view founded)"

lemma run_keys: "to_ascii_lowercase ''aa'' = ''aa''" "to_ascii_lowercase ''bb'' = ''bb''"
  by (simp_all add: to_ascii_lowercase_def ascii_lower_def is_ascii_uppercase_def byte_def)

lemma founded_eq: "founded = [((2, ''aa''), member_row 10 ''aa'' ''owner'' None)]"
  by (simp add: founded_def bootstrap_owner_def run_keys upsert_owner_def is_relay_member_def demote_others_def changed_def Let_def)

lemma founded_owner: "role_of 2 q founded = (if q = ''aa'' then Some ''owner'' else None)"
  by (simp add: founded_eq role_of_def member_row_def)

lemma handed_over_owner: "role_of 2 ''bb'' handed_over = Some ''owner''"
  by (simp add: handed_over_def transfer_ownership_def run_keys role_of_grant Let_def locked_owners_def hand_over_view_def)
    (simp add: founded_eq owners_of_def owned_count_def member_row_def role_of_def)

lemma founding: "gov_move [] founded_run"
  unfolding gov_move_def founded_run_def
  using gov_step.bootstrap [where now = 10 and c = 2 and p = "''aa''" and swept = "[]" and tbl = "[]" and past = "[]", OF refl] by (simp add: founded_def run_keys)

lemma handing_over: "gov_step (committed founded_run) (Transfer 2 ''bb'' ''aa'' hand_over_view) handed_over"
  using gov_step.transfer [of 5 20 2 "''bb''" "''aa''" hand_over_view founded "fst (transfer_ownership 5 20 2 ''bb'' ''aa'' hand_over_view founded)"
      handed_over "[[]]"]
  by (simp add: handed_over_def run_keys founded_run_def hand_over_view_def locked_owners_def owners_of_def founded_owner)

definition handed_run :: gov_run where
  "handed_run = (Transfer 2 ''bb'' ''aa'' hand_over_view, handed_over) # founded_run"

lemma handed_move: "gov_move founded_run handed_run"
  using handing_over by (auto simp: gov_move_def handed_run_def)

lemma handed_settled: "settled 2 handed_run"
  by (simp add: handed_run_def founded_run_def same_owners_def hand_over_view_def role_of_def)

theorem one_owner_always_witness: "\<exists>!q. role_of 2 q (roster_of handed_run) = Some ''owner''"
proof -
  have "role_of 2 ''aa'' (roster_of founded_run) = Some ''owner''" by (simp add: founded_run_def founded_owner)
  then show ?thesis
    using one_owner_always [OF r_into_rtranclp [of gov_move, OF founding] r_into_rtranclp [of gov_move, OF handed_move]] handed_settled by blast
qed

text \<open>
  Two bootstraps at the same time leave two owners: neither sees the row of the other.
\<close>

lemma overlapping_bootstraps:
  "\<exists>run. gov_move\<^sup>*\<^sup>* [] run \<and> role_of 2 ''aa'' (roster_of run) = Some ''owner'' \<and> role_of 2 ''bb'' (roster_of run) = Some ''owner''"
proof -
  let ?tbl = "bootstrap_owner 11 2 ''bb'' [] founded"
  have "gov_step (committed founded_run) (Bootstrap 2 ''bb'' []) ?tbl"
    using gov_step.bootstrap [where now = 11 and c = 2 and p = "''bb''" and swept = "[]" and tbl = founded and past = "[[]]", OF refl] by (simp add: founded_run_def run_keys)
  then have "gov_move founded_run ((Bootstrap 2 ''bb'' [], ?tbl) # founded_run)" by (auto simp: gov_move_def)
  then have "gov_move\<^sup>*\<^sup>* [] ((Bootstrap 2 ''bb'' [], ?tbl) # founded_run)" using founding by (meson converse_rtranclp_into_rtranclp rtranclp.rtrancl_refl)
  moreover have "role_of 2 ''aa'' ?tbl = Some ''owner''" "role_of 2 ''bb'' ?tbl = Some ''owner''"
    by (simp_all add: bootstrap_owner_def run_keys role_of_grant founded_owner Let_def) (simp add: role_of_def)
  ultimately show ?thesis by (intro exI [of _ "(Bootstrap 2 ''bb'' [], ?tbl) # founded_run"]) simp
qed

text \<open>C24: In any history, however its steps overlap, a key becomes admin only by a command of a key that was an owner when the relay
  read its role, from the command line, or by losing ownership to a bootstrap; it becomes owner only by
  founding its community, by a bootstrap or by a transfer that names a present owner; and it loses its place
  only by its own leaving, from the command line, or by a command of a key that was read as an owner, or as an
  admin if it was a plain member itself.\<close>

theorem roles_come_from_owners:
  assumes "gov_move\<^sup>*\<^sup>* [] run" and "gov_step (committed run) e tbl'" and "role_of c p tbl' \<noteq> role_of c p (roster_of run)"
  shows "(role_of c p tbl' = Some ''owner'' \<longrightarrow>
        e = Found c p \<and> (\<forall>q. role_of c q (roster_of run) = None) \<or> (\<exists>s. e = Bootstrap c p s)
        \<or> (\<exists>x V. e = Transfer c p x V \<and> role_of c x (roster_of run) = Some ''owner''))
     \<and> (role_of c p tbl' = Some ''admin'' \<longrightarrow>
        (\<exists>a seen. e = Command c a seen \<and> seen \<in> set (committed run) \<and> role_of c a seen = Some ''owner'')
        \<or> e = CliAdd c p ''admin''
        \<or> (\<exists>q s. e = Bootstrap c q s \<and> role_of c p (roster_of run) = Some ''owner''))
     \<and> (role_of c p tbl' = None \<longrightarrow> role_of c p (roster_of run) \<noteq> Some ''owner'' \<and>
        (e = Leave c p \<or> e = CliRemove c p
        \<or> (\<exists>a seen. e = Command c a seen \<and> seen \<in> set (committed run) \<and> (role_of c a seen = Some ''owner''
          \<or> role_of c a seen = Some ''admin'' \<and> role_of c p (roster_of run) = Some ''member''))))"
proof -
  have "\<forall>t\<in>set (committed run). members_ok t" using governed.inv_reachable [OF refl assms(1)] by (simp add: run_sound_def)
  note ok = step_role [OF assms(2) this, of c p]
  have "seen \<in> set (committed run)" if "e = Command c a seen" for a seen using assms(2) that by (auto elim: gov_step.cases)
  then show ?thesis using ok assms(3) by (cases e) (auto simp: role_change_ok_def split: if_splits)
qed

theorem roles_come_from_owners_witness:
  "role_of 2 ''bb'' handed_over = Some ''owner''
   \<and> (\<exists>x V. Transfer 2 ''bb'' ''aa'' hand_over_view = Transfer 2 ''bb'' x V \<and> role_of 2 x (roster_of founded_run) = Some ''owner'')"
proof -
  have "role_of 2 ''bb'' handed_over \<noteq> role_of 2 ''bb'' (roster_of founded_run)"
    by (simp add: handed_over_owner founded_run_def founded_owner)
  from roles_come_from_owners [OF r_into_rtranclp [of gov_move, OF founding] handing_over this]
  show ?thesis by (simp add: handed_over_owner)
qed

end
