(* ===== verification/Event_Store.thy ===== *)
theory Event_Store
  imports Sql_Table Kind Colony_Interfaces
begin

text \<open>
  The event store: \<open>buzz-db/src/event.rs\<close>, the replacement of addressable events in
  \<open>buzz-db/src/lib.rs\<close>, and the tables they work on. A row is an event with the channel it was
  stored under and its materialised columns; it is live until a deletion or a replacement
  marks it deleted. A query is a \<open>WHERE\<close> clause, the order newest first with the lower id first
  within a second, and a page.

  The primary key is the community, the creation time and the id. \<open>BYTEA\<close> values are their
  lower-case hex spelling, whose order is that of the bytes. \<open>T\<close> says which creation times
  the time library can represent. A stored row reads back as the event it was written from.
\<close>

section \<open>Rows\<close>

record EventRow =
  rw_event :: nevent
  rw_received_at :: nat
  rw_channel :: "uuid option"
  rw_d_tag :: "string option"
  rw_not_before :: "int option"
  rw_deleted :: bool

type_synonym event_key = "community_id \<times> nat \<times> string"
type_synonym events_table = "(event_key, EventRow) table"
type_synonym coordinate = "community_id \<times> kind \<times> pubkey \<times> string"

record event_db =
  ed_events :: events_table
  ed_mentions :: "(community_id \<times> string \<times> string) set"
  ed_watermarks :: "(coordinate \<times> (nat \<times> string)) list"

definition any_row :: "'k \<times> 'r \<Rightarrow> bool" where
  "any_row _ \<longleftrightarrow> True"

definition never_clash :: "'k \<times> 'r \<Rightarrow> 'k \<times> 'r \<Rightarrow> bool" where
  "never_clash _ _ \<longleftrightarrow> False"

interpretation events: indexed_table any_row never_clash
  by unfold_locales (simp add: never_clash_def)

definition event_key :: "community_id \<Rightarrow> nevent \<Rightarrow> event_key" where
  "event_key community ev = (community, ev_created_at ev, ev_id ev)"

definition row_to_stored_event :: "EventRow \<Rightarrow> StoredEvent" where
  "row_to_stored_event row = with_received_at (rw_event row) (rw_received_at row) (rw_channel row) True"

definition D_TAG_MAX_LEN :: nat where "D_TAG_MAX_LEN = 1024"

definition DEFAULT_MAX_PAGE_LIMIT :: int where "DEFAULT_MAX_PAGE_LIMIT = 1000"

definition first_tag_value :: "string \<Rightarrow> nevent \<Rightarrow> string option" where
  "first_tag_value name ev =
     Option.bind (List.find (\<lambda>t. 2 \<le> length (tag_slice t) \<and> hd (tag_slice t) = name) (ev_tags ev))
       (\<lambda>t. Some (tag_slice t ! 1))"

definition extract_d_tag :: "nevent \<Rightarrow> string option" where
  "extract_d_tag ev =
     (if \<not> is_parameterized_replaceable (ev_kind ev) then None
      else Some (case first_tag_value ''d'' ev of Some v \<Rightarrow> v | None \<Rightarrow> []))"

definition extract_not_before :: "nevent \<Rightarrow> int option" where
  "extract_not_before ev =
     (if ev_kind ev \<noteq> KIND_EVENT_REMINDER then None
      else Option.bind (List.find (\<lambda>t. 2 \<le> length (tag_slice t) \<and> hd (tag_slice t) = ''not_before''
               \<and> parse_i64 (tag_slice t ! 1) \<noteq> None) (ev_tags ev)) (\<lambda>t. parse_i64 (tag_slice t ! 1)))"

section \<open>Queries\<close>

record EventQuery =
  eq_community :: community_id
  eq_channel :: "uuid option"
  eq_kinds :: "kind list option"
  eq_pubkey :: "pubkey option"
  eq_since :: "nat option"
  eq_until :: "nat option"
  eq_limit :: "int option"
  eq_offset :: "int option"
  eq_p_tag_hex :: "string option"
  eq_d_tag :: "string option"
  eq_d_tags :: "string list option"
  eq_before_id :: "string option"
  eq_global_only :: bool
  eq_authors :: "pubkey list option"
  eq_ids :: "string list option"
  eq_e_tags :: "string list option"
  eq_tag_contains :: "(string \<times> string) option"
  eq_channel_ids :: "uuid list option"
  eq_max_limit :: "int option"
  eq_shared_reader :: "pubkey option"
  eq_exclude_thread_canvas :: bool

definition for_community :: "community_id \<Rightarrow> EventQuery" where
  "for_community c = \<lparr>eq_community = c, eq_channel = None, eq_kinds = None, eq_pubkey = None, eq_since = None,
     eq_until = None, eq_limit = None, eq_offset = None, eq_p_tag_hex = None, eq_d_tag = None, eq_d_tags = None,
     eq_before_id = None, eq_global_only = False, eq_authors = None, eq_ids = None, eq_e_tags = None,
     eq_tag_contains = None, eq_channel_ids = None, eq_max_limit = None, eq_shared_reader = None,
     eq_exclude_thread_canvas = False\<rparr>"

text \<open>\<open>tags @> [[a, b]]\<close>: some tag has both among its elements.\<close>

definition tags_contain :: "string \<Rightarrow> string \<Rightarrow> nevent \<Rightarrow> bool" where
  "tags_contain a b ev \<longleftrightarrow> list_ex (\<lambda>t. a \<in> set (tag_slice t) \<and> b \<in> set (tag_slice t)) (ev_tags ev)"

definition if_some :: "'a option \<Rightarrow> ('a \<Rightarrow> bool) \<Rightarrow> bool" where
  "if_some x P \<longleftrightarrow> (case x of None \<Rightarrow> True | Some a \<Rightarrow> P a)"

definition kind_thread_canvas :: "nevent \<Rightarrow> bool" where
  "kind_thread_canvas ev \<longleftrightarrow> ev_kind ev = 40100
     \<and> list_ex (\<lambda>t. case tag_slice t of n # _ \<Rightarrow> n = ''e'' | [] \<Rightarrow> False) (ev_tags ev)"

text \<open>The clause on the cursor: before \<open>until\<close>, or in its second with a greater id.\<close>

definition before_cursor :: "nat option \<Rightarrow> string option \<Rightarrow> nevent \<Rightarrow> bool" where
  "before_cursor until before_id ev \<longleftrightarrow>
     if_some until (\<lambda>u. case before_id of
         None \<Rightarrow> ev_created_at ev \<le> u
       | Some bid \<Rightarrow> ev_created_at ev < u \<or> ev_created_at ev = u \<and> bid < ev_id ev)"

definition where_clause :: "EventQuery \<Rightarrow> event_db \<Rightarrow> event_key \<times> EventRow \<Rightarrow> bool" where
  "where_clause q db x \<longleftrightarrow>
     (let row = snd x; ev = rw_event row in
      fst (fst x) = eq_community q \<and> \<not> rw_deleted row
      \<and> if_some (eq_p_tag_hex q) (\<lambda>p. (eq_community q, ev_id ev, to_ascii_lowercase p) \<in> ed_mentions db)
      \<and> (case eq_channel q of Some ch \<Rightarrow> rw_channel row = Some ch
         | None \<Rightarrow> eq_global_only q \<longrightarrow> rw_channel row = None)
      \<and> if_some (eq_channel_ids q) (\<lambda>chs. rw_channel row = None \<or> (\<exists>ch\<in>set chs. rw_channel row = Some ch))
      \<and> if_some (eq_kinds q) (\<lambda>ks. ev_kind ev \<in> set ks)
      \<and> if_some (eq_pubkey q) (\<lambda>p. ev_pubkey ev = p)
      \<and> if_some (eq_authors q) (\<lambda>ps. ev_pubkey ev \<in> set ps)
      \<and> if_some (eq_ids q) (\<lambda>is. ev_id ev \<in> set is)
      \<and> (eq_exclude_thread_canvas q \<longrightarrow> \<not> kind_thread_canvas ev)
      \<and> if_some (eq_e_tags q) (\<lambda>es. list_ex (\<lambda>e. tags_contain ''e'' e ev) es)
      \<and> if_some (eq_tag_contains q) (\<lambda>(name, val). tags_contain name val ev)
      \<and> if_some (eq_since q) (\<lambda>s. s \<le> ev_created_at ev)
      \<and> before_cursor (eq_until q) (eq_before_id q) ev
      \<and> (case eq_d_tag q of
           Some d \<Rightarrow> rw_d_tag row = Some d
         | None \<Rightarrow> if_some (eq_d_tags q) (\<lambda>ds. ds = [] \<or> (\<exists>d\<in>set ds. rw_d_tag row = Some d)))
      \<and> if_some (eq_shared_reader q) (\<lambda>reader. ev_kind ev \<notin> set SHARED_GATED_KINDS
           \<or> ev_pubkey ev = reader \<or> tags_contain ''shared'' ''true'' ev))"

text \<open>\<open>ORDER BY created_at DESC, id ASC\<close>\<close>

definition newest_rank :: "event_key \<times> EventRow \<Rightarrow> int \<times> string" where
  "newest_rank x = (case fst x of (_, created, i) \<Rightarrow> (- int created, i))"

definition newest_first :: "events_table \<Rightarrow> events_table" where
  "newest_first = sort_key newest_rank"

definition empty_list :: "'a list option \<Rightarrow> bool" where
  "empty_list x \<longleftrightarrow> x = Some []"

definition query_events_on :: "EventQuery \<Rightarrow> event_db \<Rightarrow> string + StoredEvent list" where
  "query_events_on q db =
     (if eq_before_id q \<noteq> None \<and> eq_until q = None then Inl ''before_id requires until to be set''
      else if eq_global_only q \<and> eq_channel q \<noteq> None then Inl ''global_only and channel_id are mutually exclusive''
      else if empty_list (eq_kinds q) \<or> empty_list (eq_authors q) \<or> empty_list (eq_ids q) \<or> empty_list (eq_e_tags q)
        then Inr []
      else let clamp = (case eq_max_limit q of Some m \<Rightarrow> m | None \<Rightarrow> DEFAULT_MAX_PAGE_LIMIT);
               limit_val = min (case eq_limit q of Some l \<Rightarrow> l | None \<Rightarrow> 100) clamp;
               offset_val = (case eq_offset q of Some off \<Rightarrow> off | None \<Rightarrow> 0)
           in if limit_val < 0 \<or> offset_val < 0 then Inl ''LIMIT and OFFSET must not be negative''
              else Inr (map (row_to_stored_event \<circ> snd)
                (take (nat limit_val) (drop (nat offset_val)
                  (newest_first (filter (where_clause q db) (ed_events db)))))))"

definition query_events :: "EventQuery \<Rightarrow> event_db \<Rightarrow> string + StoredEvent list" where
  "query_events q db = query_events_on q db"

definition live_row :: "community_id \<Rightarrow> event_key \<times> EventRow \<Rightarrow> bool" where
  "live_row community x \<longleftrightarrow> fst (fst x) = community \<and> \<not> rw_deleted (snd x)"

definition newest_of :: "(event_key \<times> EventRow \<Rightarrow> bool) \<Rightarrow> events_table \<Rightarrow> StoredEvent option" where
  "newest_of P tbl = (case newest_first (filter P tbl) of [] \<Rightarrow> None | x # _ \<Rightarrow> Some (row_to_stored_event (snd x)))"

definition get_event_by_id :: "community_id \<Rightarrow> string \<Rightarrow> event_db \<Rightarrow> StoredEvent option" where
  "get_event_by_id community id_bytes db =
     newest_of (\<lambda>x. live_row community x \<and> ev_id (rw_event (snd x)) = id_bytes) (ed_events db)"

definition get_event_by_id_including_deleted :: "community_id \<Rightarrow> string \<Rightarrow> event_db \<Rightarrow> StoredEvent option" where
  "get_event_by_id_including_deleted community id_bytes db =
     newest_of (\<lambda>x. fst (fst x) = community \<and> ev_id (rw_event (snd x)) = id_bytes) (ed_events db)"

definition get_latest_global_replaceable :: "community_id \<Rightarrow> kind \<Rightarrow> pubkey \<Rightarrow> event_db \<Rightarrow> StoredEvent option" where
  "get_latest_global_replaceable community k pubkey db =
     newest_of (\<lambda>x. live_row community x \<and> ev_kind (rw_event (snd x)) = k \<and> ev_pubkey (rw_event (snd x)) = pubkey
        \<and> rw_channel (snd x) = None) (ed_events db)"

definition get_events_by_ids :: "community_id \<Rightarrow> string list \<Rightarrow> event_db \<Rightarrow> StoredEvent list" where
  "get_events_by_ids community ids db =
     map (row_to_stored_event \<circ> snd)
       (filter (\<lambda>x. live_row community x \<and> ev_id (rw_event (snd x)) \<in> set ids) (ed_events db))"

section \<open>Writes\<close>

definition new_event_row :: "nat \<Rightarrow> uuid option \<Rightarrow> string option \<Rightarrow> nevent \<Rightarrow> EventRow" where
  "new_event_row received_at channel_id d_tag ev =
     \<lparr>rw_event = ev, rw_received_at = received_at, rw_channel = channel_id, rw_d_tag = d_tag,
      rw_not_before = extract_not_before ev, rw_deleted = False\<rparr>"

text \<open>\<open>INSERT ... ON CONFLICT DO NOTHING\<close>: whether a row was inserted.\<close>

definition put_row :: "community_id \<Rightarrow> EventRow \<Rightarrow> events_table \<Rightarrow> bool \<times> events_table" where
  "put_row community row tbl =
     (let k = event_key community (rw_event row)
      in if k \<in> fst ` set tbl then (False, tbl) else (True, tbl @ [(k, row)]))"

datatype InsertError = AuthEventRejected | EphemeralEventRejected kind | InvalidTimestamp nat

definition insert_event ::
  "(nat \<Rightarrow> bool) \<Rightarrow> nat \<Rightarrow> community_id \<Rightarrow> nevent \<Rightarrow> uuid option \<Rightarrow> event_db
   \<Rightarrow> (InsertError + StoredEvent \<times> bool) \<times> event_db" where
  "insert_event T received_at community ev channel_id db =
     (if ev_kind ev = KIND_AUTH then (Inl AuthEventRejected, db)
      else if is_ephemeral (ev_kind ev) then (Inl (EphemeralEventRejected (ev_kind ev)), db)
      else if \<not> T (ev_created_at ev) then (Inl (InvalidTimestamp (ev_created_at ev)), db)
      else (case put_row community (new_event_row received_at channel_id (extract_d_tag ev) ev) (ed_events db) of
          (inserted, tbl) \<Rightarrow> (Inr (with_received_at ev received_at channel_id True, inserted), db\<lparr>ed_events := tbl\<rparr>)))"

definition mention_keys :: "nevent \<Rightarrow> string list" where
  "mention_keys ev = map to_ascii_lowercase
     (filter (\<lambda>p. length p = 64 \<and> list_all is_ascii_hexdigit p)
       (map (\<lambda>t. tag_slice t ! 1)
         (filter (\<lambda>t. 2 \<le> length (tag_slice t) \<and> hd (tag_slice t) = ''p'') (ev_tags ev))))"

definition insert_mentions :: "community_id \<Rightarrow> nevent \<Rightarrow> event_db \<Rightarrow> event_db" where
  "insert_mentions community ev db =
     db\<lparr>ed_mentions := ed_mentions db \<union> (\<lambda>p. (community, ev_id ev, p)) ` set (mention_keys ev)\<rparr>"

definition mark_deleted :: "(event_key \<times> EventRow \<Rightarrow> bool) \<Rightarrow> event_db \<Rightarrow> bool \<times> event_db" where
  "mark_deleted P db =
     (list_ex P (ed_events db), db\<lparr>ed_events := changed P (\<lambda>r. r\<lparr>rw_deleted := True\<rparr>) (ed_events db)\<rparr>)"

definition soft_delete_event :: "community_id \<Rightarrow> string \<Rightarrow> event_db \<Rightarrow> bool \<times> event_db" where
  "soft_delete_event community event_id =
     mark_deleted (\<lambda>x. live_row community x \<and> ev_id (rw_event (snd x)) = event_id)"

text \<open>The live rows at an address.\<close>

definition at_coordinate :: "community_id \<Rightarrow> kind \<Rightarrow> pubkey \<Rightarrow> string \<Rightarrow> event_key \<times> EventRow \<Rightarrow> bool" where
  "at_coordinate community k pubkey d_tag x \<longleftrightarrow>
     live_row community x \<and> ev_kind (rw_event (snd x)) = k \<and> ev_pubkey (rw_event (snd x)) = pubkey
     \<and> rw_d_tag (snd x) = Some d_tag"

definition soft_delete_by_coordinate ::
  "(nat \<Rightarrow> bool) \<Rightarrow> community_id \<Rightarrow> kind \<Rightarrow> pubkey \<Rightarrow> string \<Rightarrow> nat \<Rightarrow> event_db \<Rightarrow> (InsertError + bool) \<times> event_db" where
  "soft_delete_by_coordinate T community k pubkey d_tag deletion_created_at db =
     (if \<not> T deletion_created_at then (Inl (InvalidTimestamp deletion_created_at), db)
      else map_prod Inr id (mark_deleted (\<lambda>x. at_coordinate community k pubkey d_tag x
             \<and> ev_created_at (rw_event (snd x)) \<le> deletion_created_at) db))"

section \<open>Replacement\<close>

datatype ReplaceOutcome = Inserted | AlreadyStored | Superseded string

definition was_inserted :: "ReplaceOutcome \<Rightarrow> bool" where
  "was_inserted r \<longleftrightarrow> r = Inserted"

definition is_stored :: "ReplaceOutcome \<Rightarrow> bool" where
  "is_stored r \<longleftrightarrow> r = Inserted \<or> r = AlreadyStored"

text \<open>A version: the later one wins, and within a second the one with the lower id.\<close>

datatype lww = Lww (lww_at: nat) (lww_id: string)

instantiation lww :: linorder
begin

fun less_lww :: "lww \<Rightarrow> lww \<Rightarrow> bool" where
  "less_lww (Lww t i) (Lww u j) \<longleftrightarrow> t < u \<or> t = u \<and> j < i"

definition less_eq_lww :: "lww \<Rightarrow> lww \<Rightarrow> bool" where
  "less_eq_lww v w \<longleftrightarrow> v = w \<or> v < w"

instance
proof
  fix v w x :: lww
  show "(v < w) = (v \<le> w \<and> \<not> w \<le> v)" by (cases v; cases w) (auto simp: less_eq_lww_def)
  show "v \<le> v" by (simp add: less_eq_lww_def)
  show "v \<le> w \<Longrightarrow> w \<le> x \<Longrightarrow> v \<le> x" by (cases v; cases w; cases x) (auto simp: less_eq_lww_def)
  show "v \<le> w \<Longrightarrow> w \<le> v \<Longrightarrow> v = w" by (cases v; cases w) (auto simp: less_eq_lww_def)
  show "v \<le> w \<or> w \<le> v" by (cases v; cases w) (auto simp: less_eq_lww_def)
qed

end

definition version :: "nevent \<Rightarrow> lww" where
  "version ev = Lww (ev_created_at ev) (ev_id ev)"

definition lww_winner :: "lww list \<Rightarrow> lww option" where
  "lww_winner candidates = (case candidates of [] \<Rightarrow> None
     | c # cs \<Rightarrow> Some (fold (\<lambda>next best.
         if lww_at next > lww_at best \<or> lww_at next = lww_at best \<and> lww_id next < lww_id best then next else best) cs c))"

text \<open>The two kinds of address whose superseded rows are really deleted.\<close>

definition is_nip_rs :: "nevent \<Rightarrow> string \<Rightarrow> bool" where
  "is_nip_rs ev d_tag \<longleftrightarrow> ev_kind ev = KIND_READ_STATE
     \<and> length (filter (\<lambda>t. case tag_slice t of n # _ \<Rightarrow> n = ''d'' | [] \<Rightarrow> False) (ev_tags ev)) = 1
     \<and> list_ex (\<lambda>t. case tag_slice t of n # v # _ \<Rightarrow> n = ''d'' \<and> v = d_tag | _ \<Rightarrow> False) (ev_tags ev)
     \<and> (case strip_prefix ''read-state:'' d_tag of None \<Rightarrow> False
        | Some slot \<Rightarrow> length slot = 32 \<and> list_all (\<lambda>b. is_ascii_hexdigit b \<and> \<not> is_ascii_uppercase b) slot)
     \<and> length (filter (\<lambda>t. tag_slice t = [''t'', ''read-state'']) (ev_tags ev)) = 1"

definition is_buzz_mesh_status :: "nevent \<Rightarrow> string \<Rightarrow> bool" where
  "is_buzz_mesh_status ev d_tag \<longleftrightarrow> ev_kind ev = KIND_BOOKMARK_SET \<and> starts_with d_tag ''buzz-mesh-member-status:''
     \<and> list_ex (\<lambda>t. tag_slice t = [''k'', ''buzz-mesh-status'']) (ev_tags ev)"

definition newest_version :: "(event_key \<times> EventRow \<Rightarrow> bool) \<Rightarrow> events_table \<Rightarrow> lww option" where
  "newest_version P tbl = (case newest_first (filter P tbl) of [] \<Rightarrow> None | x # _ \<Rightarrow> Some (version (rw_event (snd x))))"

definition dominates :: "lww \<Rightarrow> lww \<Rightarrow> bool" where
  "dominates accepted incoming \<longleftrightarrow> lww_at incoming < lww_at accepted
     \<or> lww_at incoming = lww_at accepted \<and> lww_id accepted \<le> lww_id incoming"

definition opt_list :: "'a option \<Rightarrow> 'a list" where
  "opt_list x = (case x of None \<Rightarrow> [] | Some a \<Rightarrow> [a])"

definition outcome_of_winner :: "lww \<Rightarrow> lww \<Rightarrow> ReplaceOutcome" where
  "outcome_of_winner winner incoming = (if lww_id winner = lww_id incoming then AlreadyStored else Superseded (lww_id winner))"

definition retire_rows :: "bool \<Rightarrow> community_id \<Rightarrow> lww option \<Rightarrow> (event_key \<times> EventRow \<Rightarrow> bool) \<Rightarrow> event_db \<Rightarrow> event_db" where
  "retire_rows hard community existing P db =
     (case existing of
        None \<Rightarrow> db
      | Some old \<Rightarrow>
          if hard then db\<lparr>ed_events := snd (sql_delete P (ed_events db)),
                          ed_mentions := {m \<in> ed_mentions db. \<not> (fst m = community \<and> fst (snd m) = lww_id old)}\<rparr>
          else snd (mark_deleted P db))"

definition replace_parameterized_event_tx ::
  "(nat \<Rightarrow> bool) \<Rightarrow> nat \<Rightarrow> community_id \<Rightarrow> nevent \<Rightarrow> string \<Rightarrow> uuid option \<Rightarrow> event_db
   \<Rightarrow> (InsertError + ReplaceOutcome) \<times> event_db" where
  "replace_parameterized_event_tx T received_at community ev d_tag channel_id db =
     (if \<not> T (ev_created_at ev) then (Inl (InvalidTimestamp (ev_created_at ev)), db)
      else let P = at_coordinate community (ev_kind ev) (ev_pubkey ev) d_tag;
               coord = (community, ev_kind ev, ev_pubkey ev, d_tag);
               existing = newest_version P (ed_events db);
               watermark = (if is_nip_rs ev d_tag then map_option (\<lambda>(t, i). Lww t i) (map_of (ed_watermarks db) coord) else None);
               dominating = filter (\<lambda>a. dominates a (version ev)) (opt_list existing @ opt_list watermark)
           in (case lww_winner dominating of
                Some winner \<Rightarrow> (Inr (outcome_of_winner winner (version ev)), db)
              | None \<Rightarrow>
                  let db1 = retire_rows (is_nip_rs ev d_tag \<or> is_buzz_mesh_status ev d_tag) community existing P db
                  in (case put_row community (new_event_row received_at channel_id (Some d_tag) ev) (ed_events db1) of
                      (False, _) \<Rightarrow> (Inr AlreadyStored, db1)
                    | (True, tbl) \<Rightarrow> (Inr Inserted,
                        db1\<lparr>ed_events := tbl,
                            ed_watermarks := (if is_nip_rs ev d_tag
                              then AList.update coord (ev_created_at ev, ev_id ev) (ed_watermarks db1)
                              else ed_watermarks db1)\<rparr>))))"

text \<open>The transaction around it commits only an insertion.\<close>

definition replace_parameterized_event ::
  "(nat \<Rightarrow> bool) \<Rightarrow> nat \<Rightarrow> community_id \<Rightarrow> nevent \<Rightarrow> string \<Rightarrow> uuid option \<Rightarrow> event_db
   \<Rightarrow> (InsertError + ReplaceOutcome) \<times> event_db" where
  "replace_parameterized_event T received_at community ev d_tag channel_id db =
     (case replace_parameterized_event_tx T received_at community ev d_tag channel_id db of
        (Inr Inserted, db') \<Rightarrow> (Inr Inserted, insert_mentions community ev db')
      | (res, _) \<Rightarrow> (res, db))"

definition replace_addressable_event ::
  "(nat \<Rightarrow> bool) \<Rightarrow> nat \<Rightarrow> community_id \<Rightarrow> nevent \<Rightarrow> uuid option \<Rightarrow> event_db
   \<Rightarrow> (InsertError + ReplaceOutcome) \<times> event_db" where
  "replace_addressable_event T received_at community ev channel_id db =
     (if \<not> T (ev_created_at ev) then (Inl (InvalidTimestamp (ev_created_at ev)), db)
      else let P = (\<lambda>x. live_row community x \<and> ev_kind (rw_event (snd x)) = ev_kind ev
                 \<and> ev_pubkey (rw_event (snd x)) = ev_pubkey ev \<and> rw_channel (snd x) = channel_id);
               dominated = (case newest_version P (ed_events db) of None \<Rightarrow> None
                 | Some existing \<Rightarrow> if dominates existing (version ev) then Some existing else None)
           in (case dominated of
                Some existing \<Rightarrow> (Inr (outcome_of_winner existing (version ev)), db)
              | None \<Rightarrow>
                  (case put_row community ((new_event_row received_at channel_id (extract_d_tag ev) ev)\<lparr>rw_not_before := None\<rparr>)
                          (ed_events (snd (mark_deleted P db))) of
                     (False, _) \<Rightarrow> (Inr AlreadyStored, db)
                   | (True, tbl) \<Rightarrow> (Inr Inserted, insert_mentions community ev (db\<lparr>ed_events := tbl\<rparr>)))))"

end
