(* ===== verification/Event_Paging.thy ===== *)
theory Event_Paging
  imports Event_Store
begin

text \<open>
  Reading a listing page by page. A page ends where the next cursor starts: the next query asks
  for what comes after the last row in the order newest first, lower id first. The rows of a
  second are told apart by their ids, so the pages of a listing put together are the listing.
\<close>

section \<open>The order of a listing\<close>

text \<open>Every row is stored under the key of its event.\<close>

definition rows_keyed :: "events_table \<Rightarrow> bool" where
  "rows_keyed tbl \<longleftrightarrow> keys_ok tbl \<and> (\<forall>x\<in>set tbl. fst x = event_key (fst (fst x)) (rw_event (snd x)))"

lemma strict_sorted_drop:
  fixes f :: "'a \<Rightarrow> 'b::linorder"
  assumes "sorted_wrt (\<lambda>x y. f x < f y) xs" and "n < length xs"
  shows "filter (\<lambda>y. f (xs ! n) < f y) xs = drop (Suc n) xs"
  using assms
proof (induction xs arbitrary: n)
  case (Cons x xs)
  show ?case
  proof (cases n)
    case 0
    then show ?thesis using Cons.prems by (auto simp: filter_id_conv)
  next
    case (Suc m)
    with Cons.prems have "f x < f (xs ! m)" and "m < length xs" by auto
    then show ?thesis using Suc Cons.prems Cons.IH [of m] by (auto dest: less_not_sym)
  qed
qed simp

lemma sorted_distinct_strict:
  assumes "sorted (map f xs)" and "distinct (map f xs)"
  shows "sorted_wrt (\<lambda>x y. f x < f y) xs"
  using assms by (induction xs) (auto simp: less_le)

lemma rank_inj:
  assumes "rows_keyed tbl" and "list_all (\<lambda>x. fst (fst x) = c) xs" and "set xs \<subseteq> set tbl" and "distinct xs"
  shows "distinct (map newest_rank xs)"
proof -
  have "x = y" if "x \<in> set xs" "y \<in> set xs" "newest_rank x = newest_rank y" for x y
  proof -
    have "fst (fst x) = fst (fst y)" using that(1,2) assms(2) by (auto simp: list_all_iff)
    with that(3) have "fst x = fst y" by (auto simp: newest_rank_def prod_eq_iff split: prod.splits)
    moreover have "x \<in> set tbl" "y \<in> set tbl" using that assms(3) by auto
    ultimately show ?thesis using assms(1) by (auto simp: rows_keyed_def keys_ok_def distinct_map dest: inj_onD)
  qed
  then show ?thesis using assms(4) by (auto simp: distinct_map inj_on_def)
qed

lemma newest_first_strict:
  assumes "rows_keyed tbl" and "\<And>x. P x \<Longrightarrow> fst (fst x) = c"
  shows "sorted_wrt (\<lambda>x y. newest_rank x < newest_rank y) (newest_first (filter P tbl))"
proof (rule sorted_distinct_strict)
  show "sorted (map newest_rank (newest_first (filter P tbl)))" by (simp add: newest_first_def)
  have "distinct tbl" using assms(1) by (auto simp: rows_keyed_def keys_ok_def distinct_map)
  then show "distinct (map newest_rank (newest_first (filter P tbl)))"
    using assms by (intro rank_inj [of tbl c]) (auto simp: newest_first_def list_all_iff)
qed

section \<open>Pages\<close>

text \<open>The query for the page after a row.\<close>

definition next_page :: "EventQuery \<Rightarrow> StoredEvent \<Rightarrow> EventQuery" where
  "next_page q se = q\<lparr>eq_until := Some (ev_created_at (se_event se)), eq_before_id := Some (ev_id (se_event se))\<rparr>"

fun read_pages :: "nat \<Rightarrow> EventQuery \<Rightarrow> event_db \<Rightarrow> StoredEvent list" where
  "read_pages 0 q db = []"
| "read_pages (Suc fuel) q db =
     (case query_events q db of
        Inr (e # es) \<Rightarrow> (e # es) @ read_pages fuel (next_page q (last (e # es))) db
      | _ \<Rightarrow> [])"

text \<open>A query for a first page: no cursor and no offset, at least one row, no empty list to match.\<close>

definition first_page :: "EventQuery \<Rightarrow> bool" where
  "first_page q \<longleftrightarrow> eq_offset q = None
     \<and> (case eq_limit q of Some l \<Rightarrow> 0 < l | None \<Rightarrow> True) \<and> (case eq_max_limit q of Some m \<Rightarrow> 0 < m | None \<Rightarrow> True)
     \<and> \<not> (eq_global_only q \<and> eq_channel q \<noteq> None)
     \<and> \<not> (empty_list (eq_kinds q) \<or> empty_list (eq_authors q) \<or> empty_list (eq_ids q) \<or> empty_list (eq_e_tags q))"

definition page_size :: "EventQuery \<Rightarrow> nat" where
  "page_size q = nat (min (case eq_limit q of Some l \<Rightarrow> l | None \<Rightarrow> 100)
     (case eq_max_limit q of Some m \<Rightarrow> m | None \<Rightarrow> DEFAULT_MAX_PAGE_LIMIT))"

definition listing :: "EventQuery \<Rightarrow> event_db \<Rightarrow> events_table" where
  "listing q db = newest_first (filter (where_clause q db) (ed_events db))"

lemma page_size_pos: "first_page q \<Longrightarrow> 0 < page_size q"
  by (auto simp: first_page_def page_size_def DEFAULT_MAX_PAGE_LIMIT_def split: option.splits)

lemma query_page:
  assumes "first_page q" and "eq_before_id q \<noteq> None \<longrightarrow> eq_until q \<noteq> None"
  shows "query_events q db = Inr (map (row_to_stored_event \<circ> snd) (take (page_size q) (listing q db)))"
  using assms page_size_pos [OF assms(1)]
  by (auto simp: query_events_def query_events_on_def first_page_def page_size_def listing_def Let_def)

lemma where_cursor:
  "where_clause (q\<lparr>eq_until := u, eq_before_id := b\<rparr>) db y \<and> before_cursor (eq_until q) (eq_before_id q) (rw_event (snd y))
     \<longleftrightarrow> where_clause q db y \<and> before_cursor u b (rw_event (snd y))"
  by (auto simp: where_clause_def Let_def cong: option.case_cong)

lemma where_clause_cursor: "where_clause q db y \<Longrightarrow> before_cursor (eq_until q) (eq_before_id q) (rw_event (snd y))"
  by (simp add: where_clause_def Let_def)

text \<open>A cursor keeps of the rows those after it in the order.\<close>

lemma where_next_page:
  assumes "rows_keyed (ed_events db)" and "x \<in> set (ed_events db)" and "y \<in> set (ed_events db)"
    and "where_clause q db x"
    and "eq_before_id q \<noteq> None \<longrightarrow> eq_until q \<noteq> None"
  shows "where_clause (next_page q (row_to_stored_event (snd x))) db y
     \<longleftrightarrow> where_clause q db y \<and> newest_rank x < newest_rank y"
proof -
  let ?e = "rw_event (snd x)" and ?f = "rw_event (snd y)"
  have key: "fst x = (fst (fst x), ev_created_at ?e, ev_id ?e)" "fst y = (fst (fst y), ev_created_at ?f, ev_id ?f)"
    using assms(1-3) by (auto simp: rows_keyed_def event_key_def)
  have rank: "newest_rank x < newest_rank y \<longleftrightarrow>
      ev_created_at ?f < ev_created_at ?e \<or> ev_created_at ?f = ev_created_at ?e \<and> ev_id ?e < ev_id ?f"
    unfolding newest_rank_def by (subst key(1), subst key(2)) (auto simp: less_prod_def')
  have at: "before_cursor (eq_until q) (eq_before_id q) ?e"
    using assms(4) by (simp add: where_clause_def Let_def)
  have cursor: "before_cursor (Some (ev_created_at ?e)) (Some (ev_id ?e)) ?f \<longleftrightarrow> newest_rank x < newest_rank y"
    unfolding rank by (auto simp: before_cursor_def if_some_def)
  have "before_cursor (eq_until q) (eq_before_id q) ?f" if "newest_rank x < newest_rank y"
    using that at assms(5) unfolding rank by (auto simp: before_cursor_def if_some_def split: option.splits)
  with cursor show ?thesis
    using where_cursor [where q = q and u = "Some (ev_created_at ?e)" and b = "Some (ev_id ?e)" and db = db and y = y]
    by (auto simp: next_page_def row_to_stored_event_def with_received_at_def dest: where_clause_cursor)
qed


lemma first_page_next [simp]: "first_page (next_page q se) = first_page q"
  by (simp add: first_page_def next_page_def cong: option.case_cong)

lemma next_page_cursor [simp]: "eq_until (next_page q se) \<noteq> None"
  by (simp add: next_page_def)

lemma page_size_next [simp]: "page_size (next_page q se) = page_size q"
  by (simp add: page_size_def next_page_def cong: option.case_cong)

lemma listing_strict:
  "rows_keyed (ed_events db) \<Longrightarrow> sorted_wrt (\<lambda>x y. newest_rank x < newest_rank y) (listing q db)"
  unfolding listing_def by (rule newest_first_strict [of _ _ "eq_community q"]) (auto simp: where_clause_def Let_def)

lemma set_listing: "set (listing q db) = {x \<in> set (ed_events db). where_clause q db x}"
  by (auto simp: listing_def newest_first_def)

lemma listing_next:
  assumes "rows_keyed (ed_events db)" and "n < length (listing q db)"
    and "eq_before_id q \<noteq> None \<longrightarrow> eq_until q \<noteq> None"
  shows "listing (next_page q (row_to_stored_event (snd (listing q db ! n)))) db = drop (Suc n) (listing q db)"
proof -
  let ?x = "listing q db ! n"
  have x: "?x \<in> set (ed_events db)" "where_clause q db ?x"
    using nth_mem [OF assms(2)] by (auto simp: set_listing)
  have "filter (where_clause (next_page q (row_to_stored_event (snd ?x))) db) (ed_events db) =
      filter (\<lambda>y. newest_rank ?x < newest_rank y) (filter (where_clause q db) (ed_events db))"
    using where_next_page [OF assms(1) x(1) _ x(2) assms(3)] by (auto intro: filter_cong)
  then have "listing (next_page q (row_to_stored_event (snd ?x))) db =
      filter (\<lambda>y. newest_rank ?x < newest_rank y) (listing q db)"
    by (simp add: listing_def newest_first_def filter_sort)
  then show ?thesis
    using strict_sorted_drop [OF listing_strict [OF assms(1)] assms(2)] by simp
qed

lemma pages_are_the_listing:
  assumes "rows_keyed (ed_events db)" and "first_page q" and "eq_before_id q \<noteq> None \<longrightarrow> eq_until q \<noteq> None"
    and "length (listing q db) < fuel"
  shows "read_pages fuel q db = map (row_to_stored_event \<circ> snd) (listing q db)"
  using assms(2-)
proof (induction fuel arbitrary: q)
  case (Suc fuel)
  let ?L = "listing q db" and ?se = "row_to_stored_event \<circ> snd" and ?n = "page_size q"
  show ?case
  proof (cases "?L = []")
    case True
    then show ?thesis by (simp add: query_page [OF Suc.prems(1,2)])
  next
    case False
    let ?m = "min ?n (length ?L) - 1"
    have m: "?m < length ?L" "take (Suc ?m) ?L = take ?n ?L" "drop (Suc ?m) ?L = drop ?n ?L"
      using False page_size_pos [OF Suc.prems(1)] by (auto simp: min_def)
    then have ne: "take ?n ?L \<noteq> []" using False page_size_pos [OF Suc.prems(1)] by auto
    have "last (take ?n ?L) = ?L ! ?m"
      using m by (metis take_Suc_conv_app_nth last_snoc)
    then have last: "last (map ?se (take ?n ?L)) = row_to_stored_event (snd (?L ! ?m))"
      using ne by (simp add: last_map)
    let ?q = "next_page q (row_to_stored_event (snd (?L ! ?m)))"
    have rest: "listing ?q db = drop ?n ?L"
      using listing_next [OF assms(1) m(1) Suc.prems(2)] m(3) by simp
    have "0 < length ?L" using False by simp
    then have "length (drop ?n ?L) < fuel"
      using page_size_pos [OF Suc.prems(1)] Suc.prems(3) unfolding length_drop by linarith
    then have short: "length (listing ?q db) < fuel" by (simp only: rest)
    have "read_pages fuel ?q db = map ?se (listing ?q db)"
      by (rule Suc.IH) (use Suc.prems(1) short in auto)
    then have "read_pages fuel ?q db = map ?se (drop ?n ?L)" by (simp only: rest)
    moreover obtain e es where page: "map ?se (take ?n ?L) = e # es" using ne by (cases "take ?n ?L") auto
    moreover have "query_events q db = Inr (e # es)" using query_page [OF Suc.prems(1,2), of db] page by simp
    ultimately have "read_pages (Suc fuel) q db = map ?se (take ?n ?L) @ map ?se (drop ?n ?L)"
      using last by (simp only: read_pages.simps sum.case list.case)
    then show ?thesis by (simp only: map_append [symmetric] append_take_drop_id)
  qed
qed simp

text \<open>C32: a listing read page by page gives every row that matches once, newest first.\<close>

theorem pages_give_every_row_once:
  assumes "rows_keyed (ed_events db)" and "first_page q" and "eq_until q = None" and "eq_before_id q = None"
  shows "read_pages (Suc (length (ed_events db))) q db =
    map (row_to_stored_event \<circ> snd) (newest_first (filter (where_clause q db) (ed_events db)))"
  using pages_are_the_listing [OF assms(1,2), of "Suc (length (ed_events db))"] assms(3,4)
  by (simp add: listing_def newest_first_def less_Suc_eq_le length_filter_le)

definition demo_note :: "nat \<Rightarrow> string \<Rightarrow> nevent" where
  "demo_note at i = \<lparr>ev_id = i, ev_pubkey = ''a'', ev_created_at = at, ev_kind = 9, ev_tags = [], ev_content = []\<rparr>"

definition demo_notes :: event_db where
  "demo_notes = \<lparr>ed_events = map (\<lambda>ev. (event_key 2 ev, new_event_row 0 None None ev))
       [demo_note 5 ''a'', demo_note 5 ''b'', demo_note 4 ''a''],
     ed_mentions = {}, ed_watermarks = []\<rparr>"

theorem pages_give_every_row_once_witness:
  "length (read_pages 4 ((for_community 2)\<lparr>eq_limit := Some 1\<rparr>) demo_notes) = 3"
proof -
  let ?q = "(for_community 2)\<lparr>eq_limit := Some 1\<rparr>"
  have "rows_keyed (ed_events demo_notes)"
    by (simp add: rows_keyed_def keys_ok_def demo_notes_def demo_note_def event_key_def new_event_row_def)
  moreover have "first_page ?q" by (simp add: first_page_def for_community_def empty_list_def)
  ultimately have "read_pages (Suc (length (ed_events demo_notes))) ?q demo_notes =
      map (row_to_stored_event \<circ> snd) (newest_first (filter (where_clause ?q demo_notes) (ed_events demo_notes)))"
    by (rule pages_give_every_row_once) (simp_all add: for_community_def)
  moreover have "length (ed_events demo_notes) = 3" by (simp add: demo_notes_def)
  moreover have "filter (where_clause ?q demo_notes) (ed_events demo_notes) = ed_events demo_notes"
    by (simp add: demo_notes_def where_clause_def for_community_def if_some_def before_cursor_def event_key_def
        new_event_row_def demo_note_def Let_def)
  ultimately show ?thesis by (simp add: newest_first_def numeral_eq_Suc)
qed

end
