(* ===== verification/Event_Heads.thy ===== *)
theory Event_Heads
  imports Event_Store
begin

text \<open>
  The heads of addressable events. Relays and clients deliver the versions of an address in any
  order and more than once; after any of these the live row is the greatest version delivered.
  The store is an instance of \<open>version_store\<close>, the contract the mesh rests on too.
  A read marker leaves a watermark that outlives its row.
\<close>

section \<open>Versions\<close>

lemma dominates_iff: "dominates a b \<longleftrightarrow> b \<le> a"
  by (cases a; cases b) (auto simp: dominates_def less_eq_lww_def)

lemma version_eq: "version a = version b \<longleftrightarrow> ev_created_at a = ev_created_at b \<and> ev_id a = ev_id b"
  by (simp add: version_def)

lemma lww_winner_None [simp]: "lww_winner xs = None \<longleftrightarrow> xs = []"
  by (simp add: lww_winner_def split: list.split)

definition d_tag_of :: "nevent \<Rightarrow> string" where
  "d_tag_of ev = (case extract_d_tag ev of Some d \<Rightarrow> d | None \<Rightarrow> [])"

type_synonym address = "kind \<times> pubkey \<times> string"

definition address :: "nevent \<Rightarrow> address" where
  "address ev = (ev_kind ev, ev_pubkey ev, d_tag_of ev)"

definition at_address :: "community_id \<Rightarrow> address \<Rightarrow> event_key \<times> EventRow \<Rightarrow> bool" where
  "at_address c k x \<longleftrightarrow> (case k of (kd, p, d) \<Rightarrow> at_coordinate c kd p d x)"

definition head_at :: "community_id \<Rightarrow> address \<Rightarrow> event_db \<Rightarrow> nevent option" where
  "head_at c k db = map_option (rw_event \<circ> snd) (List.find (at_address c k) (ed_events db))"

section \<open>Databases that only replacements have written\<close>

text \<open>
  \<open>U\<close> holds the events there are: an id and a time name one of them, and the time library can
  represent their times.
\<close>

definition coherent :: "(nat \<Rightarrow> bool) \<Rightarrow> nevent set \<Rightarrow> bool" where
  "coherent T U \<longleftrightarrow> (\<forall>a\<in>U. T (ev_created_at a)) \<and> (\<forall>a\<in>U. \<forall>b\<in>U. version a = version b \<longrightarrow> a = b)"

definition heads_rows :: "nevent set \<Rightarrow> community_id \<Rightarrow> events_table \<Rightarrow> bool" where
  "heads_rows U c tbl \<longleftrightarrow> keys_ok tbl \<and> (\<forall>x\<in>set tbl. fst (fst x) = c \<longrightarrow>
     fst x = event_key c (rw_event (snd x)) \<and> rw_event (snd x) \<in> U \<and> rw_d_tag (snd x) = Some (d_tag_of (rw_event (snd x))))"

definition headed :: "community_id \<Rightarrow> events_table \<Rightarrow> bool" where
  "headed c tbl \<longleftrightarrow> (\<forall>y\<in>set tbl. fst (fst y) = c \<longrightarrow>
     (\<exists>x\<in>set tbl. live_row c x \<and> address (rw_event (snd x)) = address (rw_event (snd y))))
   \<and> (\<forall>x\<in>set tbl. \<forall>y\<in>set tbl. live_row c x \<longrightarrow> fst (fst y) = c \<longrightarrow>
        address (rw_event (snd y)) = address (rw_event (snd x)) \<longrightarrow> version (rw_event (snd y)) \<le> version (rw_event (snd x)))"

definition watermarks_below :: "community_id \<Rightarrow> event_db \<Rightarrow> bool" where
  "watermarks_below c db \<longleftrightarrow> (\<forall>k t i. map_of (ed_watermarks db) (c, k) = Some (t, i) \<longrightarrow>
     (\<exists>x\<in>set (ed_events db). live_row c x \<and> address (rw_event (snd x)) = k \<and> Lww t i \<le> version (rw_event (snd x))))"

definition heads_ok :: "(nat \<Rightarrow> bool) \<Rightarrow> nevent set \<Rightarrow> community_id \<Rightarrow> event_db \<Rightarrow> bool" where
  "heads_ok T U c db \<longleftrightarrow> coherent T U \<and> heads_rows U c (ed_events db) \<and> headed c (ed_events db) \<and> watermarks_below c db"

lemma rows_ofD:
  assumes "heads_rows U c tbl" and "x \<in> set tbl" and "fst (fst x) = c"
  shows "fst x = event_key c (rw_event (snd x))" and "rw_event (snd x) \<in> U"
    and "rw_d_tag (snd x) = Some (d_tag_of (rw_event (snd x)))"
  using assms by (auto simp: heads_rows_def)

lemma headedD:
  assumes "headed c tbl" and "y \<in> set tbl" and "fst (fst y) = c"
  shows "\<exists>x\<in>set tbl. live_row c x \<and> address (rw_event (snd x)) = address (rw_event (snd y))"
    and "x \<in> set tbl \<Longrightarrow> live_row c x \<Longrightarrow> address (rw_event (snd y)) = address (rw_event (snd x))
      \<Longrightarrow> version (rw_event (snd y)) \<le> version (rw_event (snd x))"
  using assms unfolding headed_def by blast+

lemma liveD: "live_row c x \<Longrightarrow> fst (fst x) = c"
  by (simp add: live_row_def)

lemma at_address_iff:
  "heads_rows U c tbl \<Longrightarrow> x \<in> set tbl \<Longrightarrow> at_address c k x \<longleftrightarrow> live_row c x \<and> address (rw_event (snd x)) = k"
  by (cases k) (auto simp: at_address_def at_coordinate_def live_row_def heads_rows_def address_def)

lemma live_unique:
  assumes "coherent T U" and "heads_rows U c tbl" and "headed c tbl" and "x \<in> set tbl" and "y \<in> set tbl"
    and "at_address c k x" and "at_address c k y"
  shows "x = y"
proof -
  have at: "live_row c x" "live_row c y" "address (rw_event (snd x)) = address (rw_event (snd y))"
    using assms by (auto simp: at_address_iff [OF assms(2)])
  then have "version (rw_event (snd x)) = version (rw_event (snd y))"
    using headedD(2) [OF assms(3,5) liveD [OF at(2)] assms(4) at(1)] headedD(2) [OF assms(3,4) liveD [OF at(1)] assms(5) at(2)] at(3)
    by simp
  then have "fst x = fst y"
    using rows_ofD(1) [OF assms(2,4) liveD [OF at(1)]] rows_ofD(1) [OF assms(2,5) liveD [OF at(2)]]
    by (simp add: event_key_def version_eq)
  then show ?thesis using assms(2,4,5) by (auto simp: heads_rows_def keys_ok_def distinct_map dest: inj_onD)
qed

lemma found_row: "List.find P xs = Some x \<Longrightarrow> x \<in> set xs \<and> P x"
  by (auto simp: find_Some_iff)

lemma filter_one:
  assumes "distinct xs" and "\<And>x y. x \<in> set xs \<Longrightarrow> y \<in> set xs \<Longrightarrow> P x \<Longrightarrow> P y \<Longrightarrow> x = y"
  shows "filter P xs = (case List.find P xs of None \<Rightarrow> [] | Some x \<Rightarrow> [x])"
proof (cases "List.find P xs")
  case (Some x)
  then have x: "x \<in> set xs" "P x" by (auto dest: found_row)
  then have "set (filter P xs) = {x}" using assms(2) by auto
  moreover have "distinct (filter P xs)" using assms(1) by simp
  ultimately have "filter P xs = [x]"
    by (metis distinct_card distinct_singleton card.empty card_insert_disjoint empty_iff finite.emptyI
        length_0_conv length_Suc_conv list.set_intros(1) singletonD card_1_singleton_iff list.size(3) One_nat_def)
  with Some show ?thesis by simp
next
  case None
  then have "filter P xs = []" by (simp add: find_None_iff filter_empty_conv)
  with None show ?thesis by simp
qed

lemma newest_version_head:
  assumes "heads_ok T U c db"
  shows "newest_version (at_address c k) (ed_events db) = map_option version (head_at c k db)"
proof -
  have ok: "coherent T U" "heads_rows U c (ed_events db)" "headed c (ed_events db)"
    using assms by (simp_all add: heads_ok_def)
  have "distinct (ed_events db)" using ok(2) by (auto simp: heads_rows_def keys_ok_def distinct_map)
  then have "filter (at_address c k) (ed_events db) =
      (case List.find (at_address c k) (ed_events db) of None \<Rightarrow> [] | Some x \<Rightarrow> [x])"
    by (rule filter_one) (use live_unique [OF ok] in auto)
  then show ?thesis by (auto simp: newest_version_def head_at_def newest_first_def split: option.split)
qed

lemma head_row:
  assumes "heads_ok T U c db" and "head_at c k db = Some ev"
  shows "\<exists>x\<in>set (ed_events db). live_row c x \<and> rw_event (snd x) = ev \<and> address ev = k \<and> ev \<in> U"
proof -
  have ok: "heads_rows U c (ed_events db)" using assms(1) by (simp add: heads_ok_def)
  obtain x where x: "List.find (at_address c k) (ed_events db) = Some x" "rw_event (snd x) = ev"
    using assms(2) by (auto simp: head_at_def)
  then have row: "x \<in> set (ed_events db)" "at_address c k x" by (auto dest: found_row)
  then have "live_row c x" "address (rw_event (snd x)) = k" by (simp_all add: at_address_iff [OF ok])
  with row x(2) rows_ofD(2) [OF ok row(1)] show ?thesis by (auto dest: liveD)
qed

lemma head_exists:
  assumes "heads_ok T U c db" and "x \<in> set (ed_events db)" and "fst (fst x) = c" and "address (rw_event (snd x)) = k"
  shows "\<exists>ev. head_at c k db = Some ev \<and> version (rw_event (snd x)) \<le> version ev"
proof -
  have ok: "heads_rows U c (ed_events db)" "headed c (ed_events db)" using assms(1) by (simp_all add: heads_ok_def)
  obtain y where y: "y \<in> set (ed_events db)" "live_row c y" "address (rw_event (snd y)) = k"
    using headedD(1) [OF ok(2) assms(2,3)] assms(4) by blast
  then have "at_address c k y" by (simp add: at_address_iff [OF ok(1)])
  then have "List.find (at_address c k) (ed_events db) \<noteq> None"
    using y(1) by (simp only: find_None_iff) blast
  then obtain z where z: "List.find (at_address c k) (ed_events db) = Some z" by blast
  then have "z \<in> set (ed_events db)" "live_row c z" "address (rw_event (snd z)) = k"
    by (auto simp: at_address_iff [OF ok(1)] dest: found_row)
  then have "version (rw_event (snd x)) \<le> version (rw_event (snd z))"
    using headedD(2) [OF ok(2) assms(2,3)] assms(4) by simp
  with z show ?thesis by (simp add: head_at_def)
qed

section \<open>Replacing a head\<close>

definition watermark_of :: "community_id \<Rightarrow> nevent \<Rightarrow> event_db \<Rightarrow> lww option" where
  "watermark_of c ev db = (if is_nip_rs ev (d_tag_of ev)
     then map_option (\<lambda>(t, i). Lww t i) (map_of (ed_watermarks db) (c, address ev)) else None)"

lemma watermark_le_head:
  assumes "heads_ok T U c db" and "watermark_of c ev db = Some w"
  shows "\<exists>old. head_at c (address ev) db = Some old \<and> w \<le> version old"
proof -
  obtain t i where w: "map_of (ed_watermarks db) (c, address ev) = Some (t, i)" "w = Lww t i"
    using assms(2) by (auto simp: watermark_of_def split: if_splits)
  then obtain x where x: "x \<in> set (ed_events db)" "live_row c x" "address (rw_event (snd x)) = address ev"
      "w \<le> version (rw_event (snd x))"
    using assms(1) unfolding heads_ok_def watermarks_below_def by blast
  from head_exists [OF assms(1) x(1) liveD [OF x(2)] x(3)] obtain old where
    "head_at c (address ev) db = Some old" "version (rw_event (snd x)) \<le> version old" by blast
  with x(4) show ?thesis by (auto intro: order_trans)
qed

text \<open>Of the candidates that stand in the way of a version, one is there exactly when the head is.\<close>

lemma no_candidate:
  assumes "heads_ok T U c db"
  shows "filter (\<lambda>a. dominates a (version ev))
      (opt_list (map_option version (head_at c (address ev) db)) @ opt_list (watermark_of c ev db)) = []
    \<longleftrightarrow> (case head_at c (address ev) db of None \<Rightarrow> True | Some old \<Rightarrow> version old < version ev)"
proof (cases "watermark_of c ev db")
  case None
  then show ?thesis by (auto simp: opt_list_def dominates_iff split: option.split)
next
  case (Some w)
  from watermark_le_head [OF assms Some] obtain old where
    "head_at c (address ev) db = Some old" "w \<le> version old" by blast
  then show ?thesis using Some by (auto simp: opt_list_def dominates_iff)
qed

definition offer_head :: "(nat \<Rightarrow> bool) \<Rightarrow> nat \<Rightarrow> community_id \<Rightarrow> nevent \<Rightarrow> event_db \<Rightarrow> event_db" where
  "offer_head T now c ev db = snd (replace_parameterized_event T now c ev (d_tag_of ev) None db)"

lemma key_fresh:
  assumes "heads_ok T U c db" and "ev \<in> U"
    and "case head_at c (address ev) db of None \<Rightarrow> True | Some old \<Rightarrow> version old < version ev"
  shows "event_key c ev \<notin> fst ` set (ed_events db)"
proof
  assume "event_key c ev \<in> fst ` set (ed_events db)"
  then obtain x where x: "x \<in> set (ed_events db)" "fst x = event_key c ev" by auto
  have ok: "coherent T U" "heads_rows U c (ed_events db)" using assms(1) by (simp_all add: heads_ok_def)
  have c: "fst (fst x) = c" using x(2) by (simp add: event_key_def)
  have "version (rw_event (snd x)) = version ev"
    using rows_ofD(1) [OF ok(2) x(1) c] x(2) by (simp add: event_key_def version_eq)
  then have same: "rw_event (snd x) = ev"
    using ok(1) assms(2) rows_ofD(2) [OF ok(2) x(1) c] by (auto simp: coherent_def)
  from head_exists [OF assms(1) x(1) c] same obtain old where
    "head_at c (address ev) db = Some old" "version ev \<le> version old" by auto
  then show False using assms(3) by auto
qed

text \<open>What the accepted replacement leaves: the rows of the address retired, the new row behind them.\<close>

definition replaced_rows :: "bool \<Rightarrow> community_id \<Rightarrow> nevent \<Rightarrow> events_table \<Rightarrow> events_table" where
  "replaced_rows hard c ev tbl = (if hard then filter (\<lambda>x. \<not> at_address c (address ev) x) tbl
     else changed (at_address c (address ev)) (\<lambda>r. r\<lparr>rw_deleted := True\<rparr>) tbl)"

definition head_row_of :: "nat \<Rightarrow> nevent \<Rightarrow> EventRow" where
  "head_row_of now ev = new_event_row now None (Some (d_tag_of ev)) ev"

lemma head_row_event [simp]: "rw_event (head_row_of now ev) = ev"
  by (simp add: head_row_of_def new_event_row_def)

lemma head_None_filter: "head_at c k db = None \<longleftrightarrow> filter (at_address c k) (ed_events db) = []"
  by (auto simp: head_at_def find_None_iff filter_empty_conv)

lemma retired_events:
  "ed_events (retire_rows hard c (map_option version (head_at c (address ev) db)) (at_address c (address ev)) db) =
     replaced_rows hard c ev (ed_events db)"
  "ed_watermarks (retire_rows hard c old P db) = ed_watermarks db"
proof -
  show "ed_events (retire_rows hard c (map_option version (head_at c (address ev) db)) (at_address c (address ev)) db) =
     replaced_rows hard c ev (ed_events db)"
  proof (cases "head_at c (address ev) db")
    case None
    then have "filter (at_address c (address ev)) (ed_events db) = []" by (simp add: head_None_filter)
    then show ?thesis using None
      by (auto simp: retire_rows_def replaced_rows_def changed_none filter_empty_conv filter_id_conv)
  next
    case (Some old)
    then show ?thesis by (simp add: retire_rows_def replaced_rows_def sql_delete_def mark_deleted_def)
  qed
qed (simp add: retire_rows_def mark_deleted_def split: option.split)

lemma keys_replaced: "fst ` set (replaced_rows hard c ev tbl) \<subseteq> fst ` set tbl"
proof -
  have "fst ` set (changed P f tbl) = fst ` set tbl" for P f by (induction tbl) (auto simp: changed_def)
  then show ?thesis by (auto simp: replaced_rows_def)
qed

text \<open>The versions that stand in the way, as the transaction collects them.\<close>

definition standing :: "community_id \<Rightarrow> nevent \<Rightarrow> event_db \<Rightarrow> lww list" where
  "standing c ev db = filter (\<lambda>a. dominates a (version ev))
     (opt_list (newest_version (at_address c (address ev)) (ed_events db)) @ opt_list (watermark_of c ev db))"

lemma offer_head_eq:
  assumes "T (ev_created_at ev)"
  shows "offer_head T now c ev db = (if standing c ev db \<noteq> [] then db
    else let db1 = retire_rows (is_nip_rs ev (d_tag_of ev) \<or> is_buzz_mesh_status ev (d_tag_of ev)) c
               (newest_version (at_address c (address ev)) (ed_events db)) (at_address c (address ev)) db
         in if event_key c ev \<in> fst ` set (ed_events db1) then db
            else insert_mentions c ev (db1\<lparr>ed_events := ed_events db1 @ [(event_key c ev, head_row_of now ev)],
              ed_watermarks := (if is_nip_rs ev (d_tag_of ev)
                then AList.update (c, address ev) (ev_created_at ev, ev_id ev) (ed_watermarks db1) else ed_watermarks db1)\<rparr>))"
proof -
  have P: "at_coordinate c (ev_kind ev) (ev_pubkey ev) (d_tag_of ev) = at_address c (address ev)"
    by (simp add: fun_eq_iff at_address_def address_def)
  have mark: "(if is_nip_rs ev (d_tag_of ev) then map_option (\<lambda>(t, i). Lww t i)
      (map_of (ed_watermarks db) (c, address ev)) else None) = watermark_of c ev db"
    by (simp add: watermark_of_def)
  have addr: "(c, ev_kind ev, ev_pubkey ev, d_tag_of ev) = (c, address ev)" by (simp add: address_def)
  have row: "new_event_row now None (Some (d_tag_of ev)) ev = head_row_of now ev"
    "rw_event (head_row_of now ev) = ev"
    by (simp_all add: head_row_of_def new_event_row_def)
  have winner: "standing c ev db = [] \<longleftrightarrow> lww_winner (standing c ev db) = None" by simp
  show ?thesis
    using assms unfolding winner
    unfolding offer_head_def replace_parameterized_event_def replace_parameterized_event_tx_def Let_def P addr mark row
      standing_def [symmetric] put_row_def
    by (cases "lww_winner (standing c ev db)") (auto simp: row outcome_of_winner_def simp del: lww_winner_None)
qed

lemma standing_Nil:
  assumes "heads_ok T U c db"
  shows "standing c ev db = [] \<longleftrightarrow> (case head_at c (address ev) db of None \<Rightarrow> True | Some old \<Rightarrow> version old < version ev)"
  unfolding standing_def newest_version_head [OF assms] by (rule no_candidate [OF assms])

lemma offer_head_takes:
  assumes "heads_ok T U c db" and "ev \<in> U"
    and "case head_at c (address ev) db of None \<Rightarrow> True | Some old \<Rightarrow> version old < version ev"
  shows "ed_events (offer_head T now c ev db) =
      replaced_rows (is_nip_rs ev (d_tag_of ev) \<or> is_buzz_mesh_status ev (d_tag_of ev)) c ev (ed_events db)
      @ [(event_key c ev, head_row_of now ev)]"
    and "ed_watermarks (offer_head T now c ev db) = (if is_nip_rs ev (d_tag_of ev)
      then AList.update (c, address ev) (ev_created_at ev, ev_id ev) (ed_watermarks db) else ed_watermarks db)"
proof -
  have T: "T (ev_created_at ev)" using assms(1,2) by (auto simp: heads_ok_def coherent_def)
  have fresh: "event_key c ev \<notin> fst ` set (replaced_rows hard c ev (ed_events db))" for hard
    using key_fresh [OF assms] keys_replaced [of hard c ev "ed_events db"] by blast
  note eq = offer_head_eq [of T ev now c db] standing_Nil [OF assms(1), of ev] newest_version_head [OF assms(1)]
  show "ed_events (offer_head T now c ev db) =
      replaced_rows (is_nip_rs ev (d_tag_of ev) \<or> is_buzz_mesh_status ev (d_tag_of ev)) c ev (ed_events db)
      @ [(event_key c ev, head_row_of now ev)]"
    using T fresh assms(3) by (simp add: eq Let_def retired_events insert_mentions_def)
  show "ed_watermarks (offer_head T now c ev db) = (if is_nip_rs ev (d_tag_of ev)
      then AList.update (c, address ev) (ev_created_at ev, ev_id ev) (ed_watermarks db) else ed_watermarks db)"
    using T fresh assms(3) by (simp add: eq Let_def retired_events insert_mentions_def)
qed

lemma offer_head_keeps:
  assumes "heads_ok T U c db" and "ev \<in> U"
    and "\<not> (case head_at c (address ev) db of None \<Rightarrow> True | Some old \<Rightarrow> version old < version ev)"
  shows "offer_head T now c ev db = db"
proof -
  have T: "T (ev_created_at ev)" using assms(1,2) by (auto simp: heads_ok_def coherent_def)
  have "standing c ev db \<noteq> []" using assms(3) standing_Nil [OF assms(1), of ev] by simp
  with T show ?thesis by (simp add: offer_head_eq)
qed

section \<open>What a replacement keeps\<close>

lemma head_at_live:
  assumes "heads_ok T U c db" and "x \<in> set (ed_events db)" and "live_row c x" and "address (rw_event (snd x)) = k"
  shows "head_at c k db = Some (rw_event (snd x))"
proof -
  have ok: "coherent T U" "heads_rows U c (ed_events db)" "headed c (ed_events db)"
    using assms(1) by (simp_all add: heads_ok_def)
  have at: "at_address c k x" using assms(2-4) by (simp add: at_address_iff [OF ok(2)])
  then obtain y where y: "List.find (at_address c k) (ed_events db) = Some y"
    using assms(2) at by (cases "List.find (at_address c k) (ed_events db)") (simp_all only: find_None_iff, blast+)
  then have "y = x" using live_unique [OF ok _ assms(2) _ at, of y] found_row [OF y] by simp
  with y show ?thesis by (simp add: head_at_def)
qed

lemma replaced_row:
  assumes "x \<in> set (replaced_rows hard c ev tbl)"
  shows "\<exists>x0\<in>set tbl. fst x = fst x0 \<and> rw_event (snd x) = rw_event (snd x0) \<and> rw_d_tag (snd x) = rw_d_tag (snd x0)
    \<and> (live_row c x \<longrightarrow> x = x0 \<and> \<not> at_address c (address ev) x0)"
  using assms by (cases hard) (force simp: replaced_rows_def changed_def live_row_def split: if_splits)+

lemma row_kept: "x \<in> set tbl \<Longrightarrow> \<not> at_address c (address ev) x \<Longrightarrow> x \<in> set (replaced_rows hard c ev tbl)"
  by (force simp: replaced_rows_def changed_def)

text \<open>A table from which an older head has gone and in which the new row stands.\<close>

definition replacing :: "(nat \<Rightarrow> bool) \<Rightarrow> nevent set \<Rightarrow> community_id \<Rightarrow> event_db \<Rightarrow> nevent \<Rightarrow> bool
   \<Rightarrow> event_key \<times> EventRow \<Rightarrow> events_table \<Rightarrow> bool" where
  "replacing T U c db ev hard new tbl' \<longleftrightarrow> heads_ok T U c db \<and> ev \<in> U
     \<and> (case head_at c (address ev) db of None \<Rightarrow> True | Some old \<Rightarrow> version old < version ev)
     \<and> fst new = event_key c ev \<and> rw_event (snd new) = ev \<and> rw_d_tag (snd new) = Some (d_tag_of ev)
     \<and> \<not> rw_deleted (snd new) \<and> tbl' = replaced_rows hard c ev (ed_events db) @ [new]"

lemma replacingD:
  assumes "replacing T U c db ev hard new tbl'"
  shows "heads_ok T U c db" and "ev \<in> U"
    and "case head_at c (address ev) db of None \<Rightarrow> True | Some old \<Rightarrow> version old < version ev"
    and "fst new = event_key c ev" and "rw_event (snd new) = ev" and "rw_d_tag (snd new) = Some (d_tag_of ev)"
    and "\<not> rw_deleted (snd new)" and "tbl' = replaced_rows hard c ev (ed_events db) @ [new]"
    and "coherent T U" and "heads_rows U c (ed_events db)" and "headed c (ed_events db)" and "watermarks_below c db"
  using assms by (simp_all add: replacing_def heads_ok_def)

lemma new_live: "replacing T U c db ev hard new tbl' \<Longrightarrow> live_row c new"
  by (simp add: live_row_def event_key_def replacing_def)

lemma in_tbl': "replacing T U c db ev hard new tbl' \<Longrightarrow> x \<in> set tbl' \<longleftrightarrow> x = new \<or> x \<in> set (replaced_rows hard c ev (ed_events db))"
  by (drule replacingD(8)) auto

lemma older:
  assumes R: "replacing T U c db ev hard new tbl'" and "x \<in> set (ed_events db)" and "fst (fst x) = c" and "address (rw_event (snd x)) = address ev"
  shows "version (rw_event (snd x)) < version ev"
  using head_exists [OF replacingD(1) [OF R] assms(2-4)] replacingD(3) [OF R] by (auto intro: le_less_trans)

lemma heads_rows_new:
  assumes R: "replacing T U c db ev hard new tbl'"
  shows "heads_rows U c tbl'"
proof -
  note ok = replacingD(1) [OF R] and U = replacingD(2) [OF R] and newer = replacingD(3) [OF R]
    and new = replacingD(4-7) [OF R] and parts = replacingD(9-12) [OF R] and in_tbl' = in_tbl' [OF R]
    and new_live = new_live [OF R]
  have "keys_ok (replaced_rows hard c ev (ed_events db))"
    using parts(2) by (auto simp: heads_rows_def replaced_rows_def intro!: keys_ok_filter)
  moreover have "fst new \<notin> fst ` set (replaced_rows hard c ev (ed_events db))"
    using key_fresh [OF ok U newer] keys_replaced [of hard c ev "ed_events db"] new(1) by auto
  ultimately have "keys_ok tbl'" by (simp add: replacingD(8) [OF R] keys_ok_def)
  moreover have "fst x = event_key c (rw_event (snd x)) \<and> rw_event (snd x) \<in> U
      \<and> rw_d_tag (snd x) = Some (d_tag_of (rw_event (snd x)))"
    if x: "x \<in> set tbl'" and c: "fst (fst x) = c" for x
  proof (cases "x = new")
    case True
    then show ?thesis using new U by simp
  next
    case False
    with x replaced_row [of x hard c ev "ed_events db"] obtain x0 where
      "x0 \<in> set (ed_events db)" "fst x = fst x0" "rw_event (snd x) = rw_event (snd x0)" "rw_d_tag (snd x) = rw_d_tag (snd x0)"
      by (auto simp: in_tbl')
    with rows_ofD [OF parts(2), of x0] c show ?thesis by simp
  qed
  ultimately show ?thesis by (simp add: heads_rows_def)
qed

lemma kept_elsewhere:
  assumes R: "replacing T U c db ev hard new tbl'" and "x \<in> set (ed_events db)" and "live_row c x" and "address (rw_event (snd x)) \<noteq> address ev"
  shows "x \<in> set tbl'"
  using assms(2-4) row_kept [of x "ed_events db" c ev hard] at_address_iff [OF replacingD(10) [OF R] assms(2)]
  by (simp add: in_tbl' [OF R])

lemma headed_new:
  assumes R: "replacing T U c db ev hard new tbl'"
  shows "headed c tbl'"
  unfolding headed_def
proof (intro conjI ballI impI)
  note ok = replacingD(1) [OF R] and U = replacingD(2) [OF R] and newer = replacingD(3) [OF R]
    and new = replacingD(4-7) [OF R] and parts = replacingD(9-12) [OF R] and in_tbl' = in_tbl' [OF R]
    and new_live = new_live [OF R]
  fix y assume y: "y \<in> set tbl'" "fst (fst y) = c"
  show "\<exists>x\<in>set tbl'. live_row c x \<and> address (rw_event (snd x)) = address (rw_event (snd y))"
  proof (cases "address (rw_event (snd y)) = address ev")
    case True
    then show ?thesis using new_live new(2) by (intro bexI [of _ new]) (auto simp: in_tbl')
  next
    case False
    then obtain y0 where y0: "y0 \<in> set (ed_events db)" "fst y = fst y0" "rw_event (snd y) = rw_event (snd y0)"
      using y replaced_row [of y hard c ev "ed_events db"] new(2) by (auto simp: in_tbl')
    with headedD(1) [OF parts(3) y0(1)] y(2) obtain x where
      "x \<in> set (ed_events db)" "live_row c x" "address (rw_event (snd x)) = address (rw_event (snd y))" by auto
    with kept_elsewhere [OF R, of x] False show ?thesis by (intro bexI [of _ x]) auto
  qed
next
  note ok = replacingD(1) [OF R] and U = replacingD(2) [OF R] and newer = replacingD(3) [OF R]
    and new = replacingD(4-7) [OF R] and parts = replacingD(9-12) [OF R] and in_tbl' = in_tbl' [OF R]
    and new_live = new_live [OF R]
  fix x y
  assume x: "x \<in> set tbl'" "live_row c x" and y: "y \<in> set tbl'" "fst (fst y) = c"
    and same: "address (rw_event (snd y)) = address (rw_event (snd x))"
  show "version (rw_event (snd y)) \<le> version (rw_event (snd x))"
  proof (cases "y = new")
    case True
    have "x = new"
    proof (rule ccontr)
      assume "x \<noteq> new"
      with x replaced_row [of x hard c ev "ed_events db"] have
        x0: "x \<in> set (ed_events db)" "\<not> at_address c (address ev) x" by (auto simp: in_tbl')
      with at_address_iff [OF parts(2) x0(1)] x(2) same True new(2) show False by simp
    qed
    with True show ?thesis by simp
  next
    case False
    with y replaced_row [of y hard c ev "ed_events db"] obtain y0 where
      y0: "y0 \<in> set (ed_events db)" "fst y = fst y0" "rw_event (snd y) = rw_event (snd y0)" by (auto simp: in_tbl')
    show ?thesis
    proof (cases "x = new")
      case True
      then show ?thesis using older [OF R y0(1)] y0 y(2) same new(2) by simp
    next
      case False
      with x replaced_row [of x hard c ev "ed_events db"] have "x \<in> set (ed_events db)" by (auto simp: in_tbl')
      with headedD(2) [OF parts(3) y0(1)] y0 y(2) x(2) same show ?thesis by simp
    qed
  qed
qed

lemma head_at_new:
  assumes R: "replacing T U c db ev hard new tbl'" and "heads_ok T U c db'" and "ed_events db' = tbl'"
  shows "head_at c k db' = (if k = address ev then Some ev else head_at c k db)"
proof (cases "k = address ev")
  case True
  note ok = replacingD(1) [OF R] and U = replacingD(2) [OF R] and newer = replacingD(3) [OF R]
    and new = replacingD(4-7) [OF R] and parts = replacingD(9-12) [OF R] and in_tbl' = in_tbl' [OF R]
    and new_live = new_live [OF R]
  from True show ?thesis using head_at_live [OF assms(2), of new k] new(2) new_live assms(3) by (simp add: in_tbl')
next
  case False
  note ok = replacingD(1) [OF R] and U = replacingD(2) [OF R] and newer = replacingD(3) [OF R]
    and new = replacingD(4-7) [OF R] and parts = replacingD(9-12) [OF R] and in_tbl' = in_tbl' [OF R]
    and new_live = new_live [OF R]
  show ?thesis
  proof (cases "head_at c k db")
    case (Some e)
    from head_row [OF ok Some] obtain x where
      x: "x \<in> set (ed_events db)" "live_row c x" "rw_event (snd x) = e" "address e = k" by blast
    with kept_elsewhere [OF R, of x] False have "x \<in> set (ed_events db')" using assms(3) by simp
    with head_at_live [OF assms(2) this x(2)] x Some False show ?thesis by simp
  next
    case None
    have "head_at c k db' = None"
    proof (rule ccontr)
      assume "head_at c k db' \<noteq> None"
      then obtain e where "head_at c k db' = Some e" by blast
      from head_row [OF assms(2) this] obtain x where
        x: "x \<in> set tbl'" "live_row c x" "address (rw_event (snd x)) = k" using assms(3) by auto
      with False new(2) replaced_row [of x hard c ev "ed_events db"] have "x \<in> set (ed_events db)" by (auto simp: in_tbl')
      from head_at_live [OF ok this x(2,3)] None show False by simp
    qed
    with None False show ?thesis by simp
  qed
qed

lemma offer_head_ok:
  assumes "heads_ok T U c db" and "ev \<in> U"
  shows "heads_ok T U c (offer_head T now c ev db)"
    and "head_at c k (offer_head T now c ev db) = (if k = address ev
      \<and> (case head_at c k db of None \<Rightarrow> True | Some old \<Rightarrow> version old < version ev) then Some ev else head_at c k db)"
proof -
  let ?db = "offer_head T now c ev db" and ?new = "(event_key c ev, head_row_of now ev)"
  let ?newer = "case head_at c (address ev) db of None \<Rightarrow> True | Some old \<Rightarrow> version old < version ev"
  have "heads_ok T U c ?db \<and> head_at c k ?db = (if k = address ev \<and> ?newer then Some ev else head_at c k db)"
  proof (cases ?newer)
    case False
    then show ?thesis using offer_head_keeps [OF assms False] assms(1) by simp
  next
    case True
    note takes = offer_head_takes [OF assms True, of now]
    have new: "fst ?new = event_key c ev" "rw_event (snd ?new) = ev" "rw_d_tag (snd ?new) = Some (d_tag_of ev)"
      "\<not> rw_deleted (snd ?new)"
      by (simp_all add: head_row_of_def new_event_row_def)
    have R: "\<exists>hard. replacing T U c db ev hard ?new (ed_events ?db)"
      using assms True new takes(1) by (auto simp: replacing_def)
    then obtain hard where R: "replacing T U c db ev hard ?new (ed_events ?db)" by blast
    have live_new: "?new \<in> set (ed_events ?db)" "live_row c ?new" "address (rw_event (snd ?new)) = address ev"
      using takes(1) new by (simp_all add: live_row_def event_key_def head_row_of_def new_event_row_def)
    have "watermarks_below c ?db"
      unfolding watermarks_below_def
    proof (intro allI impI)
      fix k t i assume w: "map_of (ed_watermarks ?db) (c, k) = Some (t, i)"
      show "\<exists>x\<in>set (ed_events ?db). live_row c x \<and> address (rw_event (snd x)) = k \<and> Lww t i \<le> version (rw_event (snd x))"
      proof (cases "is_nip_rs ev (d_tag_of ev) \<and> k = address ev")
        case True
        then have "t = ev_created_at ev" "i = ev_id ev" using w takes(2) by (auto simp: update_conv')
        then show ?thesis using True live_new by (intro bexI [of _ ?new]) (auto simp: version_def head_row_of_def new_event_row_def)
      next
        case False
        then have "map_of (ed_watermarks db) (c, k) = Some (t, i)"
          using w takes(2) by (auto simp: update_conv' split: if_splits)
        then obtain x where x: "x \<in> set (ed_events db)" "live_row c x" "address (rw_event (snd x)) = k"
            "Lww t i \<le> version (rw_event (snd x))"
          using assms(1) unfolding heads_ok_def watermarks_below_def by blast
        show ?thesis
        proof (cases "k = address ev")
          case True
          then have "Lww t i < version ev"
            using older [OF R x(1) liveD [OF x(2)]] x(3,4) by simp
          then show ?thesis using True live_new by (intro bexI [of _ ?new]) (simp_all add: new(2))
        next
          case False
          then show ?thesis using kept_elsewhere [OF R x(1,2)] x by blast
        qed
      qed
    qed
    then have "heads_ok T U c ?db"
      using assms(1) heads_rows_new [OF R] headed_new [OF R] by (simp add: heads_ok_def)
    with head_at_new [OF R this refl] True show ?thesis by simp
  qed
  then show "heads_ok T U c ?db" and "head_at c k ?db = (if k = address ev
      \<and> (case head_at c k db of None \<Rightarrow> True | Some old \<Rightarrow> version old < version ev) then Some ev else head_at c k db)"
    by auto
qed

section \<open>The store of heads\<close>

text \<open>
  The contract is stated of every state and every record: here of a database that only
  replacements have written and of the events there are; a key outside names no head.
\<close>

definition deliver :: "(nat \<Rightarrow> bool) \<Rightarrow> nevent set \<Rightarrow> nat \<Rightarrow> community_id \<Rightarrow> nevent \<Rightarrow> event_db \<Rightarrow> event_db" where
  "deliver T U now c ev db = (if heads_ok T U c db \<and> ev \<in> U then offer_head T now c ev db else db)"

definition known_address :: "nevent set \<Rightarrow> nevent \<Rightarrow> address option" where
  "known_address U ev = (if ev \<in> U then Some (address ev) else None)"

definition head_of :: "community_id \<Rightarrow> event_db \<Rightarrow> address option \<Rightarrow> nevent option" where
  "head_of c db k = Option.bind k (\<lambda>k. head_at c k db)"

interpretation heads: version_store "head_of c" "deliver T U now c" "known_address U" version
  "\<lambda>db k. heads_ok T U c db \<and> k \<noteq> None" for T U now c
proof unfold_locales
  fix ev db k
  show "head_of c (deliver T U now c ev db) k = (if k = known_address U ev \<and> (heads_ok T U c db \<and> k \<noteq> None)
      \<and> (case head_of c db k of None \<Rightarrow> True | Some old \<Rightarrow> version old < version ev) then Some ev else head_of c db k)"
    by (cases k) (auto simp: head_of_def deliver_def known_address_def offer_head_ok(2))
  show "(heads_ok T U c (deliver T U now c ev db) \<and> k \<noteq> None) = (heads_ok T U c db \<and> k \<noteq> None)"
    by (auto simp: deliver_def offer_head_ok(1))
qed

lemma deliver_fold:
  "heads_ok T U c db \<Longrightarrow> set evs \<subseteq> U \<Longrightarrow> fold (deliver T U now c) evs db = fold (offer_head T now c) evs db
     \<and> heads_ok T U c (fold (offer_head T now c) evs db)"
  by (induction evs arbitrary: db) (simp_all add: deliver_def offer_head_ok(1))

lemma empty_heads_ok: "coherent T U \<Longrightarrow> heads_ok T U c \<lparr>ed_events = [], ed_mentions = {}, ed_watermarks = []\<rparr>"
  by (simp add: heads_ok_def heads_rows_def headed_def watermarks_below_def keys_ok_def)

lemma seen_versions:
  assumes "heads_ok T U c db" and "set evs \<subseteq> U"
  shows "heads.seen c U T evs db (Some k) = {ev. head_at c k db = Some ev \<or> ev \<in> set evs \<and> address ev = k}"
  using assms unfolding heads.seen_def by (auto simp: head_of_def known_address_def)

text \<open>
  C8: Into a store that only replacements have written, the versions of an address may be delivered in any
  order and any number of times: there is a live row as soon as one was, it holds one of the versions that
  were delivered or the one that was live before, none of these is newer, and it is the same for every order.
\<close>

theorem replacements_converge:
  assumes "heads_ok T U c db" and "set evs \<subseteq> U" and "set evs' = set evs"
  shows "head_at c k (fold (offer_head T now c) evs db) = head_at c k (fold (offer_head T now c) evs' db)
    \<and> (case head_at c k (fold (offer_head T now c) evs db) of
         None \<Rightarrow> head_at c k db = None \<and> (\<forall>ev\<in>set evs. address ev \<noteq> k)
       | Some m \<Rightarrow> (head_at c k db = Some m \<or> m \<in> set evs \<and> address m = k)
           \<and> (\<forall>ev. head_at c k db = Some ev \<or> ev \<in> set evs \<and> address ev = k \<longrightarrow> version ev \<le> version m))"
proof
  have seen: "heads.seen c U T evs db (Some k) = heads.seen c U T evs' db (Some k)"
    unfolding heads.seen_def using assms(3) by simp
  have addressed: "known_address U e = Some k \<and> e \<in> U" if "e \<in> heads.seen c U T evs db (Some k)" for e
    using that head_row [OF assms(1), of k e] unfolding heads.seen_def
    by (auto simp: head_of_def known_address_def split: if_splits)
  have one: "heads.one_per_version U (heads.seen c U T evs db (Some k))"
    using assms(1) addressed unfolding heads.one_per_version_def heads_ok_def coherent_def by blast
  have "head_of c (fold (deliver T U now c) evs db) (Some k) = head_of c (fold (deliver T U now c) evs' db) (Some k)"
    by (rule heads.convergence [OF seen _ one]) (use addressed in blast)
  then show "head_at c k (fold (offer_head T now c) evs db) = head_at c k (fold (offer_head T now c) evs' db)"
    using deliver_fold [OF assms(1,2), of now] deliver_fold [OF assms(1), of evs' now] assms(2,3)
    by (simp add: head_of_def)
next
  have at: "head_at c k (fold (offer_head T now c) evs db) = head_of c (fold (deliver T U now c) evs db) (Some k)"
    using deliver_fold [OF assms(1,2), of now] by (simp add: head_of_def)
  show "case head_at c k (fold (offer_head T now c) evs db) of
         None \<Rightarrow> head_at c k db = None \<and> (\<forall>ev\<in>set evs. address ev \<noteq> k)
       | Some m \<Rightarrow> (head_at c k db = Some m \<or> m \<in> set evs \<and> address m = k)
           \<and> (\<forall>ev. head_at c k db = Some ev \<or> ev \<in> set evs \<and> address ev = k \<longrightarrow> version ev \<le> version m)"
  proof (cases "head_at c k (fold (offer_head T now c) evs db)")
    case None
    then have "heads.seen c U T evs db (Some k) = {}" by (metis at heads.fold_None)
    then show ?thesis unfolding None seen_versions [OF assms(1,2)] by (cases "head_at c k db") auto
  next
    case (Some m)
    from heads.fold_newest [OF at [symmetric, unfolded Some]] show ?thesis
      unfolding Some seen_versions [OF assms(1,2)] by simp
  qed
qed

section \<open>Read markers\<close>

definition watermark_at :: "event_db \<Rightarrow> coordinate \<Rightarrow> lww option" where
  "watermark_at db coord = map_option (\<lambda>(t, i). Lww t i) (map_of (ed_watermarks db) coord)"

text \<open>What can happen to the store: an event is stored, replaces an address or is deleted.\<close>

inductive store_step :: "(nat \<Rightarrow> bool) \<Rightarrow> event_db \<Rightarrow> event_db \<Rightarrow> bool" for T where
  Insert: "insert_event T now c ev ch db = (res, db') \<Longrightarrow> store_step T db db'"
| Replace: "replace_parameterized_event T now c ev d ch db = (res, db') \<Longrightarrow> store_step T db db'"
| Addressable: "replace_addressable_event T now c ev ch db = (res, db') \<Longrightarrow> store_step T db db'"
| Delete: "soft_delete_event c i db = (hit, db') \<Longrightarrow> store_step T db db'"
| Delete_coordinate: "soft_delete_by_coordinate T c k p d at db = (res', db') \<Longrightarrow> store_step T db db'"

lemma watermark_fields [simp]:
  "ed_watermarks (insert_mentions c ev db) = ed_watermarks db"
  "ed_watermarks (snd (mark_deleted P db)) = ed_watermarks db"
  "ed_watermarks (retire_rows hard c old P db) = ed_watermarks db"
  "ed_watermarks (snd (insert_event T now c ev ch db)) = ed_watermarks db"
  "ed_watermarks (snd (replace_addressable_event T now c ev ch db)) = ed_watermarks db"
  "ed_watermarks (snd (soft_delete_event c i db)) = ed_watermarks db"
  "ed_watermarks (snd (soft_delete_by_coordinate T c k p d at db)) = ed_watermarks db"
  by (auto simp: insert_mentions_def mark_deleted_def retire_rows_def insert_event_def replace_addressable_event_def
      soft_delete_event_def soft_delete_by_coordinate_def put_row_def Let_def split: option.split)

text \<open>A read marker at or below its watermark finds a candidate in its way.\<close>

lemma marker_refused:
  assumes "is_nip_rs ev d" and "watermark_at db (c, ev_kind ev, ev_pubkey ev, d) = Some w" and "version ev \<le> w"
  shows "fst (replace_parameterized_event T now c ev d ch db) \<noteq> Inr Inserted
    \<and> snd (replace_parameterized_event T now c ev d ch db) = db"
proof -
  let ?old = "newest_version (at_coordinate c (ev_kind ev) (ev_pubkey ev) d) (ed_events db)"
  have "filter (\<lambda>a. dominates a (version ev)) (opt_list ?old @ opt_list (Some w)) \<noteq> []"
    using assms(3) by (simp add: opt_list_def dominates_iff)
  then obtain x where "lww_winner (filter (\<lambda>a. dominates a (version ev)) (opt_list ?old @ opt_list (Some w))) = Some x"
    by (metis lww_winner_None not_Some_eq)
  then show ?thesis
    using assms(1,2)
    by (auto simp: replace_parameterized_event_def replace_parameterized_event_tx_def watermark_at_def Let_def
        outcome_of_winner_def split: if_split_asm)
qed

lemma replace_watermark:
  "ed_watermarks (snd (replace_parameterized_event T now c ev d ch db)) =
     (if fst (replace_parameterized_event T now c ev d ch db) = Inr Inserted \<and> is_nip_rs ev d
      then AList.update (c, ev_kind ev, ev_pubkey ev, d) (ev_created_at ev, ev_id ev) (ed_watermarks db) else ed_watermarks db)"
  by (auto simp: replace_parameterized_event_def replace_parameterized_event_tx_def put_row_def Let_def outcome_of_winner_def
      split: option.split)

lemma watermark_step:
  assumes "store_step T db db'" and "watermark_at db coord = Some w"
  shows "\<exists>w'. watermark_at db' coord = Some w' \<and> w \<le> w'"
  using assms
proof (cases rule: store_step.cases)
  case (Replace now c ev d ch res)
  show ?thesis
  proof (cases "fst (replace_parameterized_event T now c ev d ch db) = Inr Inserted \<and> is_nip_rs ev d
      \<and> coord = (c, ev_kind ev, ev_pubkey ev, d)")
    case True
    then have "\<not> version ev \<le> w" using marker_refused [of ev d db c w T now ch] assms(2) by blast
    moreover have "watermark_at db' coord = Some (version ev)"
      using True replace_watermark [of T now c ev d ch db] Replace by (simp add: watermark_at_def update_conv' version_def)
    ultimately show ?thesis by auto
  next
    case False
    then have "map_of (ed_watermarks db') coord = map_of (ed_watermarks db) coord"
      using replace_watermark [of T now c ev d ch db] Replace by (auto simp: update_conv')
    with assms(2) show ?thesis by (auto simp: watermark_at_def)
  qed
qed (auto simp: watermark_at_def dest!: arg_cong [of _ _ snd] arg_cong [of _ _ ed_watermarks])

lemma watermark_steps:
  "(store_step T)\<^sup>*\<^sup>* db db' \<Longrightarrow> watermark_at db coord = Some w \<Longrightarrow> \<exists>w'. watermark_at db' coord = Some w' \<and> w \<le> w'"
proof (induction rule: rtranclp_induct)
  case (step y z)
  then obtain v where "watermark_at y coord = Some v" "w \<le> v" by blast
  with watermark_step [OF step.hyps(2), of coord v] show ?case by (auto intro: order_trans)
qed auto

text \<open>An accepted read marker is never rolled back: whatever is stored, replaced or deleted afterwards, a marker
  of the same slot that is no newer is refused and changes nothing.\<close>

theorem read_marker_never_rolls_back:
  assumes "replace_parameterized_event T now c old d ch db = (Inr Inserted, db1)" and "is_nip_rs old d"
    and "(store_step T)\<^sup>*\<^sup>* db1 db2"
    and "is_nip_rs ev d" and "ev_kind ev = ev_kind old" and "ev_pubkey ev = ev_pubkey old" and "version ev \<le> version old"
  shows "fst (replace_parameterized_event T now' c ev d ch' db2) \<noteq> Inr Inserted
    \<and> snd (replace_parameterized_event T now' c ev d ch' db2) = db2"
proof -
  have "watermark_at db1 (c, ev_kind ev, ev_pubkey ev, d) = Some (version old)"
    using replace_watermark [of T now c old d ch db] assms(1,2,5,6) by (simp add: watermark_at_def update_conv' version_def)
  from watermark_steps [OF assms(3) this] obtain w where
    "watermark_at db2 (c, ev_kind ev, ev_pubkey ev, d) = Some w" "version old \<le> w" by blast
  with marker_refused [OF assms(4)] assms(7) show ?thesis by (meson order_trans)
qed

section \<open>Examples\<close>

definition slot_tag :: string where
  "slot_tag = ''read-state:0123456789abcdef0123456789abcdef''"

definition demo_marker :: "nat \<Rightarrow> string \<Rightarrow> nevent" where
  "demo_marker at i = \<lparr>ev_id = i, ev_pubkey = ''a'', ev_created_at = at, ev_kind = KIND_READ_STATE,
     ev_tags = [\<lparr>tag_kind = ''d'', tag_content = Some slot_tag, tag_slice = [''d'', slot_tag]\<rparr>,
                \<lparr>tag_kind = ''t'', tag_content = Some ''read-state'', tag_slice = [''t'', ''read-state'']\<rparr>],
     ev_content = []\<rparr>"

definition no_events :: event_db where
  "no_events = \<lparr>ed_events = [], ed_mentions = {}, ed_watermarks = []\<rparr>"

lemma demo_marker_rs: "is_nip_rs (demo_marker at i) slot_tag"
  by (simp add: is_nip_rs_def demo_marker_def slot_tag_def is_ascii_hexdigit_def is_ascii_uppercase_def byte_def
      is_ascii_digit_def strip_prefix_def starts_with_def)

theorem replacements_converge_witness:
  "head_at 2 (address (demo_marker 1 ''a'')) (fold (offer_head (\<lambda>_. True) 0 2) [demo_marker 1 ''a'', demo_marker 3 ''b''] no_events)
   = head_at 2 (address (demo_marker 1 ''a'')) (fold (offer_head (\<lambda>_. True) 0 2) [demo_marker 3 ''b'', demo_marker 1 ''a''] no_events)"
proof -
  let ?a = "demo_marker 1 ''a''" and ?b = "demo_marker 3 ''b''"
  have "coherent (\<lambda>_. True) {?a, ?b}" by (simp add: coherent_def version_def demo_marker_def)
  then have "heads_ok (\<lambda>_. True) {?a, ?b} 2 no_events" unfolding no_events_def by (rule empty_heads_ok)
  from replacements_converge [OF this, of "[?a, ?b]" "[?b, ?a]" "address ?a" 0] show ?thesis by (simp add: insert_commute)
qed

theorem read_marker_never_rolls_back_witness:
  "fst (replace_parameterized_event (\<lambda>_. True) 0 2 (demo_marker 1 ''b'') slot_tag None
     (snd (soft_delete_event 2 ''a'' (snd (replace_parameterized_event (\<lambda>_. True) 0 2 (demo_marker 1 ''a'') slot_tag None no_events)))))
   \<noteq> Inr Inserted"
proof -
  let ?T = "\<lambda>_ :: nat. True" and ?a = "demo_marker 1 ''a''"
  let ?r = "replace_parameterized_event ?T 0 2 ?a slot_tag None no_events"
  have "fst ?r = Inr Inserted"
    by (simp add: replace_parameterized_event_def replace_parameterized_event_tx_def no_events_def newest_version_def
        newest_first_def opt_list_def put_row_def retire_rows_def Let_def lww_winner_def)
  then have "?r = (Inr Inserted, snd ?r)" by (metis prod.collapse)
  moreover have "(store_step ?T)\<^sup>*\<^sup>* (snd ?r) (snd (soft_delete_event 2 ''a'' (snd ?r)))"
    by (rule r_into_rtranclp, rule store_step.Delete) (rule prod.collapse [symmetric])
  moreover have "version (demo_marker 1 ''b'') \<le> version ?a"
    by (simp add: version_def demo_marker_def less_eq_lww_def)
  ultimately show ?thesis
    using read_marker_never_rolls_back [of ?T 0 2 ?a slot_tag None no_events _ _ "demo_marker 1 ''b''" 0 None]
      demo_marker_rs by (simp add: demo_marker_def)
qed

end
