(* ===== verification/Employee_Store.thy ===== *)
theory Employee_Store
  imports Sql_Table Nostr_Event
begin

text \<open>
  The payroll, \<open>buzz-db/src/employees.rs\<close>: one row per employee. The schema makes the promises
  the callers rely on: one employee per hire request, one active employee per role, and one row
  per employee that Colony provides. \<open>BYTEA\<close> columns are their lower-case hex spelling, so
  a key of 32 bytes has 64 characters; \<open>now\<close> is the clock of the relay.
\<close>

section \<open>Rows\<close>

record EmployeeRow =
  em_pubkey :: string
  em_sealed_key :: string
  em_role_id :: string
  em_display_name :: string
  em_rank :: string
  em_hired_by :: "string option"
  em_hire_event :: "string option"
  em_manager :: "string option"
  em_provisioned_handle :: "string option"
  em_provisioned_version :: "int option"
  em_status :: string
  em_created_at :: int
  em_updated_at :: int

type_synonym employee_key = "community_id \<times> string"
type_synonym employees_table = "(employee_key, EmployeeRow) table"

definition bytes32 :: "string option \<Rightarrow> bool" where
  "bytes32 x \<longleftrightarrow> (case x of None \<Rightarrow> True | Some b \<Rightarrow> length b = 64)"

text \<open>The \<open>CHECK\<close> constraints.\<close>

definition employee_check :: "employee_key \<times> EmployeeRow \<Rightarrow> bool" where
  "employee_check x \<longleftrightarrow>
     (let r = snd x in em_rank r \<in> {''worker'', ''leader'', ''executive''} \<and> em_status r \<in> {''active'', ''retired''}
      \<and> length (em_pubkey r) = 64 \<and> bytes32 (em_hired_by r) \<and> bytes32 (em_hire_event r) \<and> bytes32 (em_manager r)
      \<and> (em_provisioned_handle r = None \<longleftrightarrow> em_provisioned_version r = None)
      \<and> (em_provisioned_handle r \<noteq> None \<or> em_hired_by r \<noteq> None \<and> em_hire_event r \<noteq> None))"

text \<open>The three unique indexes; two of them are partial.\<close>

definition employee_clash :: "employee_key \<times> EmployeeRow \<Rightarrow> employee_key \<times> EmployeeRow \<Rightarrow> bool" where
  "employee_clash x y \<longleftrightarrow> fst (fst x) = fst (fst y) \<and>
     (let r = snd x; s = snd y in
        em_hire_event r \<noteq> None \<and> em_hire_event r = em_hire_event s
      \<or> em_status r = ''active'' \<and> em_status s = ''active'' \<and> em_role_id r = em_role_id s
      \<or> em_provisioned_handle r \<noteq> None \<and> em_provisioned_handle r = em_provisioned_handle s)"

interpretation payroll: indexed_table employee_check employee_clash
  by unfold_locales (auto simp: employee_clash_def Let_def)

abbreviation payroll_ok :: "employees_table \<Rightarrow> bool" where
  "payroll_ok \<equiv> sql_table_ok employee_check employee_clash"

definition employee_at :: "community_id \<Rightarrow> string \<Rightarrow> employee_key \<times> EmployeeRow \<Rightarrow> bool" where
  "employee_at community pubkey x \<longleftrightarrow> fst x = (community, pubkey)"

section \<open>Reads\<close>

definition first_row :: "('k \<times> 'r \<Rightarrow> bool) \<Rightarrow> ('k \<times> 'r) list \<Rightarrow> 'r option" where
  "first_row P tbl = map_option snd (List.find P tbl)"

definition find_employee_by_hire_event :: "community_id \<Rightarrow> string \<Rightarrow> employees_table \<Rightarrow> EmployeeRow option" where
  "find_employee_by_hire_event community hire_event =
     first_row (\<lambda>x. fst (fst x) = community \<and> em_hire_event (snd x) = Some hire_event)"

definition find_employee :: "community_id \<Rightarrow> string \<Rightarrow> employees_table \<Rightarrow> EmployeeRow option" where
  "find_employee community pubkey tbl = map_of tbl (community, pubkey)"

definition find_active_employee_by_role :: "community_id \<Rightarrow> string \<Rightarrow> employees_table \<Rightarrow> EmployeeRow option" where
  "find_active_employee_by_role community role_id =
     first_row (\<lambda>x. fst (fst x) = community \<and> em_role_id (snd x) = role_id \<and> em_status (snd x) = ''active'')"

text \<open>Oldest first; the sort is stable, so sorting by the second key first orders by both.\<close>

definition list_active_employees :: "community_id \<Rightarrow> employees_table \<Rightarrow> EmployeeRow list" where
  "list_active_employees community tbl =
     sort_key em_created_at (sort_key em_pubkey
       (map snd (filter (\<lambda>x. fst (fst x) = community \<and> em_status (snd x) = ''active'') tbl)))"

definition find_provisioned_employee :: "community_id \<Rightarrow> string \<Rightarrow> employees_table \<Rightarrow> EmployeeRow option" where
  "find_provisioned_employee community handle =
     first_row (\<lambda>x. fst (fst x) = community \<and> em_provisioned_handle (snd x) = Some handle)"

section \<open>Writes\<close>

definition returned_row :: "EmployeeRow \<Rightarrow> (DbError + bool) \<times> employees_table
   \<Rightarrow> (DbError + EmployeeRow option) \<times> employees_table" where
  "returned_row row res = map_prod (map_ok (\<lambda>inserted. if inserted then Some row else None)) id res"

record NewEmployee =
  ne_pubkey :: string
  ne_sealed_key :: string
  ne_role_id :: string
  ne_display_name :: string
  ne_rank :: string
  ne_hired_by :: string
  ne_hire_event :: string
  ne_manager :: "string option"

definition insert_employee :: "int \<Rightarrow> community_id \<Rightarrow> NewEmployee \<Rightarrow> employees_table
   \<Rightarrow> (DbError + EmployeeRow option) \<times> employees_table" where
  "insert_employee now community e tbl =
     (let row = \<lparr>em_pubkey = ne_pubkey e, em_sealed_key = ne_sealed_key e, em_role_id = ne_role_id e,
           em_display_name = ne_display_name e, em_rank = ne_rank e, em_hired_by = Some (ne_hired_by e),
           em_hire_event = Some (ne_hire_event e), em_manager = ne_manager e, em_provisioned_handle = None,
           em_provisioned_version = None, em_status = ''active'', em_created_at = now, em_updated_at = now\<rparr>
      in returned_row row (sql_insert_ignore employee_check employee_clash (community, ne_pubkey e) row tbl))"

text \<open>
  \<open>COALESCE(new, old)\<close> keeps the old value when the new one is null. A \<open>None\<close> and a
  \<open>Some None\<close> are both bound as null.
\<close>

definition coalesce :: "'a option \<Rightarrow> 'a \<Rightarrow> 'a" where
  "coalesce new old = (case new of Some v \<Rightarrow> v | None \<Rightarrow> old)"

definition bound_null :: "'a option option \<Rightarrow> 'a option" where
  "bound_null m = (case m of Some (Some v) \<Rightarrow> Some v | _ \<Rightarrow> None)"

definition coalesce_null :: "'a option \<Rightarrow> 'a option \<Rightarrow> 'a option" where
  "coalesce_null new old = (if new = None then old else new)"

definition set_employee :: "int \<Rightarrow> string option \<Rightarrow> string option option \<Rightarrow> string option \<Rightarrow> EmployeeRow \<Rightarrow> EmployeeRow" where
  "set_employee now rank manager status r =
     r\<lparr>em_rank := coalesce rank (em_rank r), em_manager := coalesce_null (bound_null manager) (em_manager r),
       em_status := coalesce status (em_status r), em_updated_at := now\<rparr>"

definition first_returned :: "(DbError + ('k, 'r) table) \<times> ('k, 'r) table \<Rightarrow> (DbError + 'r option) \<times> ('k, 'r) table" where
  "first_returned res = map_prod (map_ok (\<lambda>rows. case rows of [] \<Rightarrow> None | x # _ \<Rightarrow> Some (snd x))) id res"

definition update_employee ::
  "int \<Rightarrow> community_id \<Rightarrow> string \<Rightarrow> string option \<Rightarrow> string option option \<Rightarrow> string option \<Rightarrow> employees_table
   \<Rightarrow> (DbError + EmployeeRow option) \<times> employees_table" where
  "update_employee now community pubkey rank manager status tbl =
     first_returned (sql_update employee_check employee_clash
       (\<lambda>x. employee_at community pubkey x \<and> em_status (snd x) \<noteq> ''retired'') (set_employee now rank manager status) tbl)"

definition retire_employee :: "int \<Rightarrow> community_id \<Rightarrow> string \<Rightarrow> employees_table \<Rightarrow> (DbError + bool) \<times> employees_table" where
  "retire_employee now community pubkey tbl =
     map_prod (map_ok (\<lambda>rows. rows \<noteq> [])) id
       (sql_update employee_check employee_clash (\<lambda>x. employee_at community pubkey x \<and> em_status (snd x) = ''active'')
          (\<lambda>r. r\<lparr>em_status := ''retired'', em_updated_at := now\<rparr>) tbl)"

record NewProvisionedEmployee =
  np_pubkey :: string
  np_sealed_key :: string
  np_role_id :: string
  np_display_name :: string
  np_rank :: string
  np_provisioned_handle :: string
  np_provisioned_version :: int
  np_manager :: "string option"

definition insert_provisioned_employee :: "int \<Rightarrow> community_id \<Rightarrow> NewProvisionedEmployee \<Rightarrow> employees_table
   \<Rightarrow> (DbError + EmployeeRow option) \<times> employees_table" where
  "insert_provisioned_employee now community e tbl =
     (let row = \<lparr>em_pubkey = np_pubkey e, em_sealed_key = np_sealed_key e, em_role_id = np_role_id e,
           em_display_name = np_display_name e, em_rank = np_rank e, em_hired_by = None, em_hire_event = None,
           em_manager = np_manager e, em_provisioned_handle = Some (np_provisioned_handle e),
           em_provisioned_version = Some (np_provisioned_version e), em_status = ''active'',
           em_created_at = now, em_updated_at = now\<rparr>
      in returned_row row (sql_insert_ignore employee_check employee_clash (community, np_pubkey e) row tbl))"

record ProvisionedEmployeeUpdate =
  pu_handle :: string
  pu_display_name :: string
  pu_role_id :: string
  pu_rank :: string
  pu_version :: int
  pu_manager :: "string option"

definition update_provisioned_employee :: "int \<Rightarrow> community_id \<Rightarrow> ProvisionedEmployeeUpdate \<Rightarrow> employees_table
   \<Rightarrow> (DbError + EmployeeRow option) \<times> employees_table" where
  "update_provisioned_employee now community u tbl =
     first_returned (sql_update employee_check employee_clash
       (\<lambda>x. fst (fst x) = community \<and> em_provisioned_handle (snd x) = Some (pu_handle u))
       (\<lambda>r. r\<lparr>em_display_name := pu_display_name u, em_role_id := pu_role_id u, em_rank := pu_rank u,
          em_provisioned_version := Some (pu_version u), em_manager := coalesce_null (pu_manager u) (em_manager r),
          em_status := ''active'', em_updated_at := now\<rparr>) tbl)"

section \<open>The payroll\<close>

text \<open>Every write keeps the constraints.\<close>

lemma returned_row_state [simp]: "snd (returned_row row res) = snd res"
  by (simp add: returned_row_def)

lemma first_returned_state [simp]: "snd (first_returned res) = snd res"
  by (simp add: first_returned_def)

lemma payroll_writes:
  assumes "payroll_ok tbl"
  shows "payroll_ok (snd (insert_employee now c e tbl))"
    and "payroll_ok (snd (insert_provisioned_employee now c p tbl))"
    and "payroll_ok (snd (update_employee now c k rank manager status tbl))"
    and "payroll_ok (snd (retire_employee now c k tbl))"
    and "payroll_ok (snd (update_provisioned_employee now c u tbl))"
  using assms
  by (simp_all add: insert_employee_def insert_provisioned_employee_def update_employee_def retire_employee_def
      update_provisioned_employee_def Let_def payroll.insert_ignore_ok payroll.update_ok)

lemma first_row_Some: "first_row P tbl = Some r \<Longrightarrow> \<exists>x\<in>set tbl. P x \<and> snd x = r"
  by (auto simp: first_row_def find_Some_iff) (metis nth_mem snd_conv)

lemma first_row_None: "first_row P tbl = None \<longleftrightarrow> (\<forall>x\<in>set tbl. \<not> P x)"
  by (auto simp: first_row_def find_None_iff)

text \<open>An index makes what a read finds the only row there is.\<close>

lemma active_role_unique:
  assumes "payroll_ok tbl" and "x \<in> set tbl" and "y \<in> set tbl" and "fst (fst x) = fst (fst y)"
    and "em_status (snd x) = ''active''" and "em_status (snd y) = ''active''" and "em_role_id (snd x) = em_role_id (snd y)"
  shows "x = y"
  using assms payroll.clash_free_distinct [of tbl x y] by (auto simp: sql_table_ok_def employee_clash_def Let_def)

lemma hire_event_unique:
  assumes "payroll_ok tbl" and "x \<in> set tbl" and "y \<in> set tbl" and "fst (fst x) = fst (fst y)"
    and "em_hire_event (snd x) = Some e" and "em_hire_event (snd y) = Some e"
  shows "x = y"
  using assms payroll.clash_free_distinct [of tbl x y] by (auto simp: sql_table_ok_def employee_clash_def Let_def)

lemma update_employee_row:
  assumes "update_employee now c k rank manager status tbl = (Inr res, tbl')"
  shows "find_employee c' k' tbl' = (case find_employee c' k' tbl of
      None \<Rightarrow> None
    | Some r \<Rightarrow> if (c', k') = (c, k) \<and> em_status r \<noteq> ''retired'' then Some (set_employee now rank manager status r) else Some r)"
proof -
  have "tbl' = changed (\<lambda>x. employee_at c k x \<and> em_status (snd x) \<noteq> ''retired'') (set_employee now rank manager status) tbl"
    using assms by (auto simp: update_employee_def first_returned_def sql_update_def Let_def map_prod_def map_ok_Inr split: if_splits)
  then show ?thesis
    by (auto simp: find_employee_def map_of_changed employee_at_def split: option.split)
qed

end
