(* ===== verification/Thread_Store.thy ===== *)
theory Thread_Store
  imports Event_Store
begin

text \<open>
  Threads, \<open>buzz-db/src/thread.rs\<close>: where a message stands in its thread, how many replies it
  has, and the replies under a root. The metadata of a message is inserted in one transaction
  with the counters of its parent and root; a parent or root without a row gets an empty one.
  The counters are exact: each is the number of messages taken that name the message.
\<close>

section \<open>Rows\<close>

record ThreadRow =
  td_channel :: uuid
  td_parent :: "string option"
  td_root :: "string option"
  td_depth :: int
  td_reply_count :: int
  td_descendant_count :: int
  td_last_reply_at :: "int option"
  td_broadcast :: bool

type_synonym threads_table = "(event_key, ThreadRow) table"

definition thread_id :: "event_key \<times> ThreadRow \<Rightarrow> string" where
  "thread_id x = snd (snd (fst x))"



definition thread_at :: "community_id \<Rightarrow> string \<Rightarrow> event_key \<times> ThreadRow \<Rightarrow> bool" where
  "thread_at community i x \<longleftrightarrow> fst (fst x) = community \<and> thread_id x = i"

section \<open>Writes\<close>





definition decrement_reply_count :: "community_id \<Rightarrow> string \<Rightarrow> string option \<Rightarrow> threads_table \<Rightarrow> threads_table" where
  "decrement_reply_count community parent root tbl =
     (let tbl1 = changed (thread_at community parent) (\<lambda>r. r\<lparr>td_reply_count := max (td_reply_count r - 1) 0\<rparr>) tbl
      in case root of None \<Rightarrow> tbl1
         | Some r \<Rightarrow> changed (thread_at community r)
             (\<lambda>row. row\<lparr>td_descendant_count := max (td_descendant_count row - 1) 0\<rparr>) tbl1)"

section \<open>Reads\<close>

text \<open>
  Oldest first, the greater id first within a second. The cursor is the decoded key of the last
  reply seen: a time and, unless the cursor is an old one, an id.
\<close>

definition chrono_rank :: "event_key \<times> 'a \<Rightarrow> nat" where
  "chrono_rank x = fst (snd (fst x))"

definition oldest_first :: "(event_key \<times> 'a) list \<Rightarrow> (event_key \<times> 'a) list" where
  "oldest_first xs = sort_key chrono_rank (rev (sort_key (\<lambda>x. snd (snd (fst x))) xs))"

definition after_cursor :: "(nat \<times> string option) option \<Rightarrow> event_key \<Rightarrow> bool" where
  "after_cursor cursor k = (case k of (_, created, i) \<Rightarrow> (case cursor of
       None \<Rightarrow> True
     | Some (ts, None) \<Rightarrow> ts < created
     | Some (ts, Some id0) \<Rightarrow> ts < created \<or> created = ts \<and> i < id0))"

definition get_thread_replies ::
  "community_id \<Rightarrow> string \<Rightarrow> int option \<Rightarrow> nat \<Rightarrow> (nat \<times> string option) option \<Rightarrow> events_table \<Rightarrow> threads_table
   \<Rightarrow> (ThreadRow \<times> EventRow) list" where
  "get_thread_replies community root depth_limit limit cursor evs tbl =
     map (\<lambda>x. (snd x, the (map_of evs (fst x))))
       (take limit (oldest_first (filter (\<lambda>x. fst (fst x) = community \<and> td_root (snd x) = Some root
          \<and> (case map_of evs (fst x) of None \<Rightarrow> False | Some e \<Rightarrow> \<not> rw_deleted e)
          \<and> (case depth_limit of None \<Rightarrow> True | Some d \<Rightarrow> td_depth (snd x) \<le> d)
          \<and> after_cursor cursor (fst x)) tbl)))"

section \<open>Exact counters\<close>















lemma keys_changed [simp]: "fst ` set (changed P g tbl) = fst ` set tbl"
  by (induction tbl) (auto simp: changed_def)





record Filing =
  fl_id :: string
  fl_now :: int
  fl_channel :: uuid
  fl_parent :: "string option"
  fl_root :: "string option"
  fl_depth :: int
  fl_broadcast :: bool




text \<open>
  A filing is taken when no row stands under its key yet: none was filed under its id, and none that was
  taken names it as its parent or root, which would have left an empty row in its place.
\<close>

definition filing_names :: "Filing \<Rightarrow> string \<Rightarrow> bool" where
  "filing_names m i \<longleftrightarrow> fl_id m = i \<or> fl_parent m = Some i \<or> fl_root m = Some i"

fun taken_after :: "Filing list \<Rightarrow> Filing list \<Rightarrow> Filing list" where
  "taken_after ds [] = ds"
| "taken_after ds (m # ms) = taken_after (if list_ex (\<lambda>d. filing_names d (fl_id m)) ds then ds else ds @ [m]) ms"









text \<open>Messages filed once each, none after one that names it, are all taken.\<close>

lemma all_taken:
  "sorted_wrt (\<lambda>d m. \<not> filing_names d (fl_id m)) (ds @ ms) \<Longrightarrow> taken_after ds ms = ds @ ms"
proof (induction ms arbitrary: ds)
  case (Cons m ms)
  then have "\<not> list_ex (\<lambda>d. filing_names d (fl_id m)) ds" by (auto simp: sorted_wrt_append list_ex_iff)
  then show ?case using Cons.IH [of "ds @ [m]"] Cons.prems by simp
qed simp





end
