(* ===== verification/Ask_Store.thy ===== *)
theory Ask_Store
  imports Sql_Table Nostr_Event
begin

text \<open>
  The asks, \<open>buzz-db/src/asks.rs\<close>: one row per question an agent has put to someone above it.
  A partial unique index admits one open ask per need of an initiative; an answer, a withdrawal
  or a promotion frees the need, by a statement that only an open row matches. \<open>BYTEA\<close>
  columns are their lower-case hex spelling, whose order is that of the bytes.
\<close>

section \<open>Rows\<close>

record AskRow =
  ak_community :: community_id
  ak_event_id :: string
  ak_type :: string
  ak_initiative :: string
  ak_need :: string
  ak_audience :: string
  ak_filer :: string
  ak_origin_thread :: "string option"
  ak_prior :: "string option"
  ak_category :: "string option"
  ak_default :: "string option"
  ak_deadline :: "int option"
  ak_status :: string
  ak_resolution :: "string option"
  ak_resolved_by :: "string option"
  ak_default_executed :: bool
  ak_created_at :: int
  ak_updated_at :: int

type_synonym ask_key = "community_id \<times> string"
type_synonym asks_table = "(ask_key, AskRow) table"

definition ask_check :: "ask_key \<times> AskRow \<Rightarrow> bool" where
  "ask_check x \<longleftrightarrow> ak_type (snd x) \<in> {''decision'', ''question'', ''credential'', ''blocker'', ''stall''}
     \<and> ak_status (snd x) \<in> {''open'', ''resolved'', ''withdrawn'', ''promoted''}"

definition need_of :: "ask_key \<times> AskRow \<Rightarrow> community_id \<times> string \<times> string" where
  "need_of x = (fst (fst x), ak_initiative (snd x), ak_need (snd x))"

definition is_open :: "ask_key \<times> AskRow \<Rightarrow> bool" where
  "is_open x \<longleftrightarrow> ak_status (snd x) = ''open''"

definition ask_clash :: "ask_key \<times> AskRow \<Rightarrow> ask_key \<times> AskRow \<Rightarrow> bool" where
  "ask_clash x y \<longleftrightarrow> is_open x \<and> is_open y \<and> need_of x = need_of y"

interpretation asks: indexed_table ask_check ask_clash
  by unfold_locales (auto simp: ask_clash_def)

abbreviation asks_ok :: "asks_table \<Rightarrow> bool" where
  "asks_ok \<equiv> sql_table_ok ask_check ask_clash"

section \<open>Filing and reading\<close>

record NewAskRow =
  nk_event_id :: string
  nk_type :: string
  nk_initiative :: string
  nk_need :: string
  nk_audience :: string
  nk_filer :: string
  nk_origin_thread :: "string option"
  nk_prior :: "string option"
  nk_category :: "string option"
  nk_default :: "string option"
  nk_deadline :: "int option"

definition new_ask :: "int \<Rightarrow> community_id \<Rightarrow> NewAskRow \<Rightarrow> AskRow" where
  "new_ask now community n =
     \<lparr>ak_community = community, ak_event_id = nk_event_id n, ak_type = nk_type n, ak_initiative = nk_initiative n,
      ak_need = nk_need n, ak_audience = nk_audience n, ak_filer = nk_filer n, ak_origin_thread = nk_origin_thread n,
      ak_prior = nk_prior n, ak_category = nk_category n, ak_default = nk_default n, ak_deadline = nk_deadline n,
      ak_status = ''open'', ak_resolution = None, ak_resolved_by = None, ak_default_executed = False,
      ak_created_at = now, ak_updated_at = now\<rparr>"

definition insert_ask :: "int \<Rightarrow> community_id \<Rightarrow> NewAskRow \<Rightarrow> asks_table \<Rightarrow> (DbError + unit) \<times> asks_table" where
  "insert_ask now community n = sql_insert ask_check ask_clash (community, nk_event_id n) (new_ask now community n)"

definition found_ask :: "(ask_key \<times> AskRow \<Rightarrow> bool) \<Rightarrow> asks_table \<Rightarrow> AskRow option" where
  "found_ask P tbl = map_option snd (List.find P tbl)"

definition find_open_ask_by_need :: "community_id \<Rightarrow> string \<Rightarrow> string \<Rightarrow> asks_table \<Rightarrow> AskRow option" where
  "find_open_ask_by_need community initiative need =
     found_ask (\<lambda>x. fst (fst x) = community \<and> ak_initiative (snd x) = initiative \<and> ak_need (snd x) = need \<and> is_open x)"

definition find_open_ask_by_event_id :: "community_id \<Rightarrow> string \<Rightarrow> asks_table \<Rightarrow> AskRow option" where
  "find_open_ask_by_event_id community ask_event_id = found_ask (\<lambda>x. fst x = (community, ask_event_id) \<and> is_open x)"

definition find_ask_by_event_id :: "community_id \<Rightarrow> string \<Rightarrow> asks_table \<Rightarrow> AskRow option" where
  "find_ask_by_event_id community ask_event_id tbl = map_of tbl (community, ask_event_id)"

text \<open>\<open>ORDER BY created_at DESC, ask_event_id DESC LIMIT 1\<close>\<close>

definition find_latest_closed_ask_by_need :: "community_id \<Rightarrow> string \<Rightarrow> string \<Rightarrow> asks_table \<Rightarrow> AskRow option" where
  "find_latest_closed_ask_by_need community initiative need tbl =
     (case rev (sort_key (\<lambda>r. (ak_created_at r, ak_event_id r)) (map snd (filter (\<lambda>x. fst (fst x) = community
          \<and> ak_initiative (snd x) = initiative \<and> ak_need (snd x) = need
          \<and> (ak_status (snd x) = ''resolved'' \<or> ak_status (snd x) = ''withdrawn'')) tbl))) of
        [] \<Rightarrow> None | r # _ \<Rightarrow> Some r)"

definition find_open_asks_by_thread :: "community_id \<Rightarrow> string \<Rightarrow> asks_table \<Rightarrow> AskRow list" where
  "find_open_asks_by_thread community thread_root tbl =
     map snd (filter (\<lambda>x. fst (fst x) = community \<and> ak_origin_thread (snd x) = Some thread_root \<and> is_open x) tbl)"

definition find_open_asks_by_category_and_audience :: "community_id \<Rightarrow> string \<Rightarrow> string \<Rightarrow> asks_table \<Rightarrow> AskRow list" where
  "find_open_asks_by_category_and_audience community category audience tbl =
     map snd (filter (\<lambda>x. fst (fst x) = community \<and> map_option to_ascii_lowercase (ak_category (snd x)) = Some (to_ascii_lowercase category)
        \<and> ak_audience (snd x) = audience \<and> is_open x) tbl)"

text \<open>Across every community, by deadline and then id; a null deadline never matches.\<close>

definition is_due :: "int \<Rightarrow> ask_key \<times> AskRow \<Rightarrow> bool" where
  "is_due now_secs x \<longleftrightarrow> is_open x \<and> (case ak_deadline (snd x) of None \<Rightarrow> False | Some d \<Rightarrow> d \<le> now_secs)"

definition due_rank :: "AskRow \<Rightarrow> int \<times> string" where
  "due_rank r = ((case ak_deadline r of Some d \<Rightarrow> d | None \<Rightarrow> 0), ak_event_id r)"

definition query_due_asks :: "int \<Rightarrow> nat \<Rightarrow> asks_table \<Rightarrow> AskRow list" where
  "query_due_asks now_secs limit tbl = take limit (sort_key due_rank (map snd (filter (is_due now_secs) tbl)))"

definition is_orphan :: "int \<Rightarrow> asks_table \<Rightarrow> ask_key \<times> AskRow \<Rightarrow> bool" where
  "is_orphan cutoff tbl x \<longleftrightarrow> ak_status (snd x) = ''promoted'' \<and> ak_updated_at (snd x) \<le> cutoff
     \<and> \<not> list_ex (\<lambda>y. need_of y = need_of x \<and> snd (fst y) \<noteq> snd (fst x) \<and> ak_updated_at (snd x) \<le> ak_created_at (snd y)) tbl"

definition query_orphaned_promoted_asks :: "int \<Rightarrow> nat \<Rightarrow> asks_table \<Rightarrow> AskRow list" where
  "query_orphaned_promoted_asks cutoff limit tbl =
     take limit (sort_key (\<lambda>r. (ak_updated_at r, ak_event_id r)) (map snd (filter (is_orphan cutoff tbl) tbl)))"

section \<open>Closing, reopening, rearming\<close>

definition ask_update :: "(ask_key \<times> AskRow \<Rightarrow> bool) \<Rightarrow> (AskRow \<Rightarrow> AskRow) \<Rightarrow> asks_table \<Rightarrow> (DbError + bool) \<times> asks_table" where
  "ask_update cond change tbl = map_prod (map_ok (\<lambda>rows. rows \<noteq> [])) id (sql_update ask_check ask_clash cond change tbl)"

definition open_at :: "community_id \<Rightarrow> string \<Rightarrow> ask_key \<times> AskRow \<Rightarrow> bool" where
  "open_at community ask_event_id x \<longleftrightarrow> fst x = (community, ask_event_id) \<and> is_open x"

definition resolve_ask :: "int \<Rightarrow> community_id \<Rightarrow> string \<Rightarrow> string \<Rightarrow> string \<Rightarrow> bool \<Rightarrow> asks_table \<Rightarrow> (DbError + bool) \<times> asks_table" where
  "resolve_ask now community ask_event_id resolution_event_id resolved_by default_executed =
     ask_update (open_at community ask_event_id)
       (\<lambda>r. r\<lparr>ak_status := ''resolved'', ak_resolution := Some resolution_event_id, ak_resolved_by := Some resolved_by,
          ak_default_executed := default_executed, ak_updated_at := now\<rparr>)"

definition withdraw_ask :: "int \<Rightarrow> community_id \<Rightarrow> string \<Rightarrow> string \<Rightarrow> asks_table \<Rightarrow> (DbError + bool) \<times> asks_table" where
  "withdraw_ask now community ask_event_id withdrawal_event_id =
     ask_update (open_at community ask_event_id)
       (\<lambda>r. r\<lparr>ak_status := ''withdrawn'', ak_resolution := Some withdrawal_event_id, ak_updated_at := now\<rparr>)"

definition mark_ask_promoted :: "int \<Rightarrow> community_id \<Rightarrow> string \<Rightarrow> string \<Rightarrow> asks_table \<Rightarrow> (DbError + bool) \<times> asks_table" where
  "mark_ask_promoted now community ask_event_id promoted_to =
     ask_update (open_at community ask_event_id)
       (\<lambda>r. r\<lparr>ak_status := ''promoted'', ak_resolution := Some promoted_to, ak_updated_at := now\<rparr>)"

definition promoted_at :: "community_id \<Rightarrow> string \<Rightarrow> string \<Rightarrow> ask_key \<times> AskRow \<Rightarrow> bool" where
  "promoted_at community ask_event_id expected x \<longleftrightarrow>
     fst x = (community, ask_event_id) \<and> ak_status (snd x) = ''promoted'' \<and> ak_resolution (snd x) = Some expected"

definition reopen_promoted_ask :: "int \<Rightarrow> community_id \<Rightarrow> string \<Rightarrow> string \<Rightarrow> asks_table \<Rightarrow> (DbError + bool) \<times> asks_table" where
  "reopen_promoted_ask now community ask_event_id expected_promoted_to =
     ask_update (promoted_at community ask_event_id expected_promoted_to)
       (\<lambda>r. r\<lparr>ak_status := ''open'', ak_resolution := None, ak_updated_at := now\<rparr>)"

definition extend_ask_deadline :: "int \<Rightarrow> community_id \<Rightarrow> string \<Rightarrow> int \<Rightarrow> asks_table \<Rightarrow> (DbError + bool) \<times> asks_table" where
  "extend_ask_deadline now community ask_event_id new_deadline =
     ask_update (open_at community ask_event_id) (\<lambda>r. r\<lparr>ak_deadline := Some new_deadline, ak_updated_at := now\<rparr>)"

section \<open>The states of an ask\<close>

lemma ask_update_state: "snd (ask_update cond change tbl) = snd (sql_update ask_check ask_clash cond change tbl)"
  by (simp add: ask_update_def)

lemma ask_writes:
  assumes "asks_ok tbl"
  shows "asks_ok (snd (insert_ask now c n tbl))" and "asks_ok (snd (ask_update cond change tbl))"
  using assms by (simp_all add: insert_ask_def ask_update_state asks.insert_ok asks.update_ok)

lemmas ask_write_defs = resolve_ask_def withdraw_ask_def mark_ask_promoted_def reopen_promoted_ask_def extend_ask_deadline_def

text \<open>A closing statement cannot fail on the index: it opens nothing.\<close>

lemma clash_free_map: "(\<And>x y. clash (g x) (g y) \<Longrightarrow> clash x y) \<Longrightarrow> clash_free clash xs \<Longrightarrow> clash_free clash (map g xs)"
  by (induction xs) (auto simp: list_all_iff)

lemma sql_update_ok:
  assumes "sql_table_ok check clash tbl" and "\<And>x. x \<in> set tbl \<Longrightarrow> cond x \<Longrightarrow> check (fst x, change (snd x))"
    and "\<And>x y. clash (if cond x then (fst x, change (snd x)) else x) (if cond y then (fst y, change (snd y)) else y) \<Longrightarrow> clash x y"
  shows "sql_update check clash cond change tbl =
     (Inr (map (\<lambda>x. (fst x, change (snd x))) (filter cond tbl)), changed cond change tbl)"
proof -
  have "clash_free clash (changed cond change tbl)"
    unfolding changed_def
  proof (rule clash_free_map)
    show "clash_free clash tbl" using assms(1) by (simp add: sql_table_ok_def)
  qed (rule assms(3))
  moreover have "list_all check (map (\<lambda>x. (fst x, change (snd x))) (filter cond tbl))"
    using assms(2) by (auto simp: list_all_iff)
  ultimately show ?thesis by (simp add: sql_update_def Let_def)
qed

lemma close_ask_eq:
  assumes "asks_ok tbl" and "\<And>r. ak_status (change r) \<in> {''resolved'', ''withdrawn'', ''promoted''}"
    and "\<And>r. ak_type (change r) = ak_type r"
  shows "ask_update cond change tbl = (Inr (filter cond tbl \<noteq> []), changed cond change tbl)"
proof -
  have "ak_status (change r) \<noteq> ''open''" for r using assms(2) [of r] by auto
  then have "sql_update ask_check ask_clash cond change tbl =
      (Inr (map (\<lambda>x. (fst x, change (snd x))) (filter cond tbl)), changed cond change tbl)"
    using assms
    by (intro sql_update_ok) (auto simp: ask_check_def ask_clash_def is_open_def sql_table_ok_def list_all_iff split: if_splits)
  then show ?thesis by (simp add: ask_update_def map_ok_def)
qed

lemma one_open_ask:
  assumes "asks_ok tbl" and "x \<in> set tbl" and "y \<in> set tbl" and "is_open x" and "is_open y" and "need_of x = need_of y"
  shows "x = y"
  using assms asks.clash_free_distinct [of tbl x y] by (auto simp: sql_table_ok_def ask_clash_def)

end
