(* ===== verification/Json.thy ===== *)
theory Json
  imports Colony_Prelude
begin

text \<open>
  The JSON values the event contents carry: the six variants of \<open>serde_json::Value\<close> and the
  accessors the sources call on them. Reading a text into a value (\<open>from_str\<close>) and writing one
  (\<open>to_string\<close>) are not part of the repository: where a definition needs them they are
  parameters, \<open>json_reader\<close> and \<open>json_writer\<close>.

  A number is an integer (\<open>u64\<close> or \<open>i64\<close>) or keeps the text of a float; the fields of an
  object are an association list.
\<close>

datatype json =
    JNull
  | JBool bool
  | JInt int
  | JFloat string
  | JStr string
  | JArr "json list"
  | JObj "(string \<times> json) list"

type_synonym json_reader = "string \<Rightarrow> string + json"
type_synonym json_writer = "json \<Rightarrow> string"

text \<open>\<open>value.get(key)\<close>: a field of an object, nothing of any other value.\<close>

fun json_get :: "string \<Rightarrow> json \<Rightarrow> json option" where
  "json_get k (JObj fs) = map_of fs k"
| "json_get k _ = None"

fun as_str :: "json \<Rightarrow> string option" where
  "as_str (JStr s) = Some s"
| "as_str _ = None"

fun as_bool :: "json \<Rightarrow> bool option" where
  "as_bool (JBool b) = Some b"
| "as_bool _ = None"

fun as_array :: "json \<Rightarrow> json list option" where
  "as_array (JArr xs) = Some xs"
| "as_array _ = None"

fun as_u64 :: "json \<Rightarrow> nat option" where
  "as_u64 (JInt n) = (if 0 \<le> n \<and> n < 2 ^ 64 then Some (nat n) else None)"
| "as_u64 _ = None"

fun as_i64 :: "json \<Rightarrow> int option" where
  "as_i64 (JInt n) = (if - (2 ^ 63) \<le> n \<and> n < 2 ^ 63 then Some n else None)"
| "as_i64 _ = None"

definition get_str :: "string \<Rightarrow> json \<Rightarrow> string option" where
  "get_str k j = Option.bind (json_get k j) as_str"

definition get_bool :: "string \<Rightarrow> json \<Rightarrow> bool option" where
  "get_bool k j = Option.bind (json_get k j) as_bool"

text \<open>A non-negative \<open>i64\<close> that may be absent or \<open>null\<close>; anything else present is an error.\<close>

definition get_amount :: "'e \<Rightarrow> string \<Rightarrow> json \<Rightarrow> 'e + int option" where
  "get_amount e k j =
     (case json_get k j of
        None \<Rightarrow> Inr None
      | Some v \<Rightarrow> if v = JNull then Inr None
          else (case as_i64 v of
                  Some n \<Rightarrow> if 0 \<le> n then Inr (Some n) else Inl e
                | None \<Rightarrow> Inl e))"

lemma as_str_iff [simp]: "as_str j = Some s \<longleftrightarrow> j = JStr s"
  by (cases j) auto

lemma as_bool_iff [simp]: "as_bool j = Some b \<longleftrightarrow> j = JBool b"
  by (cases j) auto

lemma as_i64_bounds: "as_i64 j = Some n \<Longrightarrow> - (2 ^ 63) \<le> n \<and> n < 2 ^ 63"
  by (cases j) (auto split: if_splits)

lemma get_amount_Some: "get_amount e k j = Inr (Some n) \<Longrightarrow> 0 \<le> n \<and> n < 2 ^ 63"
  by (auto simp: get_amount_def dest: as_i64_bounds split: option.splits if_splits)

lemma get_amount_never_silent:
  "get_amount e k j = Inr None \<longleftrightarrow> json_get k j = None \<or> json_get k j = Some JNull"
  by (auto simp: get_amount_def split: option.splits if_splits)

end
