(* ===== verification/Interrupt_Wire.thy ===== *)
theory Interrupt_Wire
  imports Nostr_Event Json Colony_Interfaces
begin

text \<open>
  \<open>buzz-core/src/interrupt.rs\<close>: the events of the interrupt ladder. An ask, its resolution or
  withdrawal, the head the relay publishes for it, the owner's delegation grants and the
  decisions taken under them. The hard list names the categories that always reach a human.

  A decision tag is an exact two-element tag that appears once. The JSON reader is the
  parameter \<open>rd\<close>.
\<close>

section \<open>The hard list\<close>

definition HARD_LIST_CATEGORIES :: "string list" where
  "HARD_LIST_CATEGORIES =
     [''spend'', ''external_send'', ''hiring'', ''legal'', ''pricing'', ''deletion'', ''vendor'']"

definition is_hard_list_category :: "string \<Rightarrow> bool" where
  "is_hard_list_category category \<longleftrightarrow> to_ascii_lowercase category \<in> set HARD_LIST_CATEGORIES"

definition MAX_ASK_WINDOW_SECS :: nat where
  "MAX_ASK_WINDOW_SECS = 30 * 24 * 60 * 60"

definition NO_INITIATIVE :: string where
  "NO_INITIATIVE = ''no-initiative''"

text \<open>No spelling of a hard category escapes the list, and folding a category twice is folding it once.\<close>

lemma ascii_lower_idem [simp]: "ascii_lower (ascii_lower c) = ascii_lower c"
proof -
  have "byte (char_of (byte c + 32)) = byte c + 32" if "is_ascii_uppercase c"
    using that by (simp add: is_ascii_uppercase_def byte_def)
  then show ?thesis by (simp add: ascii_lower_def is_ascii_uppercase_def)
qed

lemma to_ascii_lowercase_idem [simp]: "to_ascii_lowercase (to_ascii_lowercase s) = to_ascii_lowercase s"
  by (simp add: to_ascii_lowercase_def)

lemma to_ascii_lowercase_Nil [simp]: "to_ascii_lowercase s = [] \<longleftrightarrow> s = []"
  by (simp add: to_ascii_lowercase_def)

lemma is_hard_list_fold [simp]: "is_hard_list_category (to_ascii_lowercase c) = is_hard_list_category c"
  by (simp add: is_hard_list_category_def)

section \<open>Vocabularies\<close>

datatype AskType = Decision | Question | Credential | Blocker | Stall

fun ask_type_as_str :: "AskType \<Rightarrow> string" where
  "ask_type_as_str Decision = ''decision''"
| "ask_type_as_str Question = ''question''"
| "ask_type_as_str Credential = ''credential''"
| "ask_type_as_str Blocker = ''blocker''"
| "ask_type_as_str Stall = ''stall''"

definition ask_type_parse :: "string \<Rightarrow> AskType option" where
  "ask_type_parse s =
     (if s = ''decision'' then Some Decision
      else if s = ''question'' then Some Question
      else if s = ''credential'' then Some Credential
      else if s = ''blocker'' then Some Blocker
      else if s = ''stall'' then Some Stall
      else None)"

definition is_fast_path :: "AskType \<Rightarrow> bool" where
  "is_fast_path t \<longleftrightarrow> t = Credential \<or> t = Blocker"

datatype AgentTier = Worker | Leader | Executive

fun agent_tier_as_str :: "AgentTier \<Rightarrow> string" where
  "agent_tier_as_str Worker = ''worker''"
| "agent_tier_as_str Leader = ''leader''"
| "agent_tier_as_str Executive = ''executive''"

definition agent_tier_parse :: "string \<Rightarrow> AgentTier option" where
  "agent_tier_parse s =
     (if s = ''worker'' then Some Worker
      else if s = ''leader'' then Some Leader
      else if s = ''executive'' then Some Executive
      else None)"

fun escalation_target :: "AgentTier \<Rightarrow> AgentTier" where
  "escalation_target Worker = Leader"
| "escalation_target Leader = Executive"
| "escalation_target Executive = Executive"

datatype AskStateStatus = AskOpen | AskResolved | AskWithdrawn | AskPromoted

fun ask_status_as_str :: "AskStateStatus \<Rightarrow> string" where
  "ask_status_as_str AskOpen = ''open''"
| "ask_status_as_str AskResolved = ''resolved''"
| "ask_status_as_str AskWithdrawn = ''withdrawn''"
| "ask_status_as_str AskPromoted = ''promoted''"

definition ask_status_parse :: "string \<Rightarrow> AskStateStatus option" where
  "ask_status_parse s =
     (if s = ''open'' then Some AskOpen
      else if s = ''resolved'' then Some AskResolved
      else if s = ''withdrawn'' then Some AskWithdrawn
      else if s = ''promoted'' then Some AskPromoted
      else None)"

datatype AskExpiryAction = DefaultExecutes | Promotes | Rearms

fun expiry_as_str :: "AskExpiryAction \<Rightarrow> string" where
  "expiry_as_str DefaultExecutes = ''default_executes''"
| "expiry_as_str Promotes = ''promotes''"
| "expiry_as_str Rearms = ''rearms''"

definition expiry_parse :: "string \<Rightarrow> AskExpiryAction option" where
  "expiry_parse s =
     (if s = ''default_executes'' then Some DefaultExecutes
      else if s = ''promotes'' then Some Promotes
      else if s = ''rearms'' then Some Rearms
      else None)"

datatype AskPromotionTarget = ToExecutive | ToOwner

fun promotion_as_str :: "AskPromotionTarget \<Rightarrow> string" where
  "promotion_as_str ToExecutive = ''executive''"
| "promotion_as_str ToOwner = ''owner''"

definition promotion_parse :: "string \<Rightarrow> AskPromotionTarget option" where
  "promotion_parse s =
     (if s = ''executive'' then Some ToExecutive
      else if s = ''owner'' then Some ToOwner
      else None)"

interpretation ask_type: wire_enum ask_type_as_str ask_type_parse
proof
  fix x show "ask_type_parse (ask_type_as_str x) = Some x" by (cases x) (simp_all add: ask_type_parse_def)
next
  fix s x assume "ask_type_parse s = Some x"
  then show "ask_type_as_str x = s" by (auto simp: ask_type_parse_def split: if_splits)
qed

interpretation agent_tier_word: wire_enum agent_tier_as_str agent_tier_parse
proof
  fix x show "agent_tier_parse (agent_tier_as_str x) = Some x" by (cases x) (simp_all add: agent_tier_parse_def)
next
  fix s x assume "agent_tier_parse s = Some x"
  then show "agent_tier_as_str x = s" by (auto simp: agent_tier_parse_def split: if_splits)
qed

interpretation ask_status: wire_enum ask_status_as_str ask_status_parse
proof
  fix x show "ask_status_parse (ask_status_as_str x) = Some x" by (cases x) (simp_all add: ask_status_parse_def)
next
  fix s x assume "ask_status_parse s = Some x"
  then show "ask_status_as_str x = s" by (auto simp: ask_status_parse_def split: if_splits)
qed

interpretation expiry_word: wire_enum expiry_as_str expiry_parse
proof
  fix x show "expiry_parse (expiry_as_str x) = Some x" by (cases x) (simp_all add: expiry_parse_def)
next
  fix s x assume "expiry_parse s = Some x"
  then show "expiry_as_str x = s" by (auto simp: expiry_parse_def split: if_splits)
qed

interpretation promotion_word: wire_enum promotion_as_str promotion_parse
proof
  fix x show "promotion_parse (promotion_as_str x) = Some x" by (cases x) (simp_all add: promotion_parse_def)
next
  fix s x assume "promotion_parse s = Some x"
  then show "promotion_as_str x = s" by (auto simp: promotion_parse_def split: if_splits)
qed

lemma escalation_climbs: "t \<noteq> Executive \<Longrightarrow> escalation_target t \<noteq> t"
  by (cases t) auto

section \<open>Messages\<close>

datatype AskParseError =
    TagCardinality string
  | MissingTaskTag
  | UnknownAskType string
  | AskInvalidHex string string
  | InvalidNeedKey string
  | InvalidJson string
  | EmptyField string
  | DefaultOnHardList string
  | DefaultOptionNotInOptions string
  | StallCarriesDefault
  | DefaultWindowSecsOutOfRange nat nat
  | GrantOnHardList string
  | VagueGrantScope string
  | DecisionOnHardList string
  | InvalidAmount string
  | UnknownAskStateField string string
  | InvalidAskState string

record ParsedAsk =
  ask_kind :: AskType
  ask_audience :: string
  ask_initiative :: string
  ask_tasks :: "string list"
  ask_origin_thread :: "string option"
  ask_need :: string
  ask_prior :: "string option"
  ask_category :: "string option"
  ask_cost_of_delay :: string
  ask_default :: "string option"
  ask_window :: "nat option"
  ask_headline :: string
  ask_filer :: "string option"

record ParsedResolution =
  pres_ask :: string
  pres_answer :: json
  pres_default_executed :: bool

record ParsedWithdrawal =
  wdr_ask :: string
  wdr_reason :: string

record ParsedGrant =
  gra_id :: string
  gra_category :: string
  gra_scope :: string
  gra_cap :: "int option"
  gra_active :: bool

record ParsedDecisionLog =
  dec_grant :: string
  dec_tasks :: "string list"
  dec_decision :: string
  dec_undo_path :: string
  dec_category :: string
  dec_amount :: "int option"

record ParsedAskState =
  ash_ask :: string
  ash_status :: AskStateStatus
  ash_deadline :: "int option"
  ash_on_expiry :: "AskExpiryAction option"
  ash_default :: "string option"
  ash_promotes_to :: "AskPromotionTarget option"
  ash_rearmed_at :: "int option"
  ash_closed_at :: "int option"
  ash_default_executed :: bool
  ash_successor :: "string option"

section \<open>Readers\<close>

definition is_hex64_lowercase :: "string \<Rightarrow> bool" where
  "is_hex64_lowercase s \<longleftrightarrow> length s = 64
     \<and> list_all (\<lambda>b. is_ascii_digit b \<or> is_ascii_lowercase b \<and> byte b \<le> 102) s"

definition validate_hex64_field :: "string \<Rightarrow> string \<Rightarrow> AskParseError + unit" where
  "validate_hex64_field field value =
     (if is_hex64_lowercase value then Inr () else Inl (AskInvalidHex field value))"

definition is_valid_need_slug :: "string \<Rightarrow> bool" where
  "is_valid_need_slug s \<longleftrightarrow> s \<noteq> [] \<and> length s \<le> 64
     \<and> list_all (\<lambda>b. is_ascii_digit b \<or> is_ascii_lowercase b \<or> b = CHR ''-'') s"

definition ask_tag_values :: "nevent \<Rightarrow> string \<Rightarrow> string list" where
  "ask_tag_values ev name =
     List.map_filter (\<lambda>t. case tag_slice t of [n, v] \<Rightarrow> if n = name then Some v else None | _ \<Rightarrow> None) (ev_tags ev)"

definition single_tag_value :: "nevent \<Rightarrow> string \<Rightarrow> AskParseError + string" where
  "single_tag_value ev name =
     (case ask_tag_values ev name of [v] \<Rightarrow> Inr v | _ \<Rightarrow> Inl (TagCardinality name))"

definition optional_tag_value :: "nevent \<Rightarrow> string \<Rightarrow> AskParseError + string option" where
  "optional_tag_value ev name =
     (case ask_tag_values ev name of [] \<Rightarrow> Inr None | [v] \<Rightarrow> Inr (Some v) | _ \<Rightarrow> Inl (TagCardinality name))"

definition required_content_field :: "json \<Rightarrow> string \<Rightarrow> AskParseError + string" where
  "required_content_field content field =
     (let value = trim (case get_str field content of Some s \<Rightarrow> s | None \<Rightarrow> [])
      in if value = [] then Inl (EmptyField field) else Inr value)"

definition required_content_bool_field :: "json \<Rightarrow> string \<Rightarrow> AskParseError + bool" where
  "required_content_bool_field content field = ok_or (EmptyField field) (get_bool field content)"

definition parse_non_negative_amount :: "json \<Rightarrow> string \<Rightarrow> AskParseError + int option" where
  "parse_non_negative_amount content field = get_amount (InvalidAmount field) field content"

definition ask_state_int_field :: "json \<Rightarrow> string \<Rightarrow> AskParseError + int option" where
  "ask_state_int_field content field =
     get_amount (InvalidAskState (field @ '' must be a non-negative integer'')) field content"

definition parse_content :: "json_reader \<Rightarrow> nevent \<Rightarrow> AskParseError + json" where
  "parse_content rd ev = map_err InvalidJson (rd (ev_content ev))"

definition optional_hex_tag :: "nevent \<Rightarrow> string \<Rightarrow> AskParseError + string option" where
  "optional_hex_tag ev name =
     and_then (optional_tag_value ev name) (\<lambda>v.
       case v of None \<Rightarrow> Inr None | Some hex \<Rightarrow> map_ok (\<lambda>_. Some hex) (validate_hex64_field name hex))"

definition single_hex_tag :: "nevent \<Rightarrow> string \<Rightarrow> AskParseError + string" where
  "single_hex_tag ev name =
     and_then (single_tag_value ev name) (\<lambda>hex. map_ok (\<lambda>_. hex) (validate_hex64_field name hex))"

section \<open>Parsers\<close>

text \<open>The options of an ask, by label.\<close>

definition has_option :: "json \<Rightarrow> string \<Rightarrow> bool" where
  "has_option content label \<longleftrightarrow>
     (case Option.bind (json_get ''options'' content) as_array of
        None \<Rightarrow> False
      | Some options \<Rightarrow> list_ex (\<lambda>j. get_str ''label'' j = Some label) options)"

definition check_window :: "nat option \<Rightarrow> AskParseError + unit" where
  "check_window window =
     (case window of
        None \<Rightarrow> Inr ()
      | Some secs \<Rightarrow> if secs > MAX_ASK_WINDOW_SECS
          then Inl (DefaultWindowSecsOutOfRange secs MAX_ASK_WINDOW_SECS) else Inr ())"

definition check_default :: "AskType \<Rightarrow> string option \<Rightarrow> json \<Rightarrow> string option \<Rightarrow> AskParseError + unit" where
  "check_default ask_type category content default_option =
     (case default_option of
        None \<Rightarrow> Inr ()
      | Some label \<Rightarrow>
          if ask_type = Stall then Inl StallCarriesDefault
          else if \<exists>c\<in>set_option category. is_hard_list_category c
            then Inl (DefaultOnHardList (the category))
          else if \<not> has_option content label then Inl (DefaultOptionNotInOptions label)
          else Inr ())"

definition parse_ask :: "json_reader \<Rightarrow> nevent \<Rightarrow> AskParseError + ParsedAsk" where
  "parse_ask rd ev =
     and_then (single_tag_value ev ''ask-type'') (\<lambda>raw.
     and_then (ok_or (UnknownAskType raw) (ask_type_parse raw)) (\<lambda>ask_type.
     and_then (single_hex_tag ev ''p'') (\<lambda>audience.
     and_then (single_tag_value ev ''initiative'') (\<lambda>initiative.
     and_then (single_tag_value ev ''need'') (\<lambda>need.
     if \<not> is_valid_need_slug need then Inl (InvalidNeedKey need) else
     let tasks = ask_tag_values ev ''task'' in
     if tasks = [] then Inl MissingTaskTag else
     and_then (optional_hex_tag ev ''e'') (\<lambda>origin.
     and_then (optional_hex_tag ev ''prior'') (\<lambda>prior.
     and_then (optional_hex_tag ev ''filer'') (\<lambda>filer.
     and_then (optional_tag_value ev ''category'') (\<lambda>category.
     and_then (parse_content rd ev) (\<lambda>content.
     and_then (required_content_field content ''headline'') (\<lambda>headline.
     and_then (required_content_field content ''cost_of_delay'') (\<lambda>cost.
     let default_option = get_str ''default_option'' content;
         window = Option.bind (json_get ''default_window_secs'' content) as_u64 in
     and_then (check_window window) (\<lambda>_.
     and_then (check_default ask_type category content default_option) (\<lambda>_.
     Inr \<lparr>ask_kind = ask_type, ask_audience = audience, ask_initiative = initiative, ask_tasks = tasks,
          ask_origin_thread = origin, ask_need = need, ask_prior = prior, ask_category = category,
          ask_cost_of_delay = cost, ask_default = default_option, ask_window = window,
          ask_headline = headline, ask_filer = filer\<rparr>))))))))))))))"

definition parse_resolution :: "json_reader \<Rightarrow> nevent \<Rightarrow> AskParseError + ParsedResolution" where
  "parse_resolution rd ev =
     and_then (single_hex_tag ev ''e'') (\<lambda>ask.
     and_then (parse_content rd ev) (\<lambda>content.
     Inr \<lparr>pres_ask = ask,
          pres_answer = (case json_get ''answer'' content of Some v \<Rightarrow> v | None \<Rightarrow> JNull),
          pres_default_executed = (case get_bool ''default_executed'' content of Some b \<Rightarrow> b | None \<Rightarrow> False)\<rparr>))"

definition parse_withdrawal :: "json_reader \<Rightarrow> nevent \<Rightarrow> AskParseError + ParsedWithdrawal" where
  "parse_withdrawal rd ev =
     and_then (single_hex_tag ev ''e'') (\<lambda>ask.
     and_then (parse_content rd ev) (\<lambda>content.
     and_then (required_content_field content ''reason'') (\<lambda>reason.
     Inr \<lparr>wdr_ask = ask, wdr_reason = reason\<rparr>)))"

text \<open>An absent or empty word is no word; any other must be in the vocabulary.\<close>

definition vocabulary_field ::
  "(string \<Rightarrow> 'a option) \<Rightarrow> string \<Rightarrow> json \<Rightarrow> AskParseError + 'a option" where
  "vocabulary_field parse field content =
     (case get_str field content of
        None \<Rightarrow> Inr None
      | Some raw \<Rightarrow> if raw = [] then Inr None
          else map_ok Some (ok_or (UnknownAskStateField field raw) (parse raw)))"

definition check_open_head ::
  "AskStateStatus \<Rightarrow> int option \<Rightarrow> AskExpiryAction option \<Rightarrow> string option \<Rightarrow> AskPromotionTarget option
   \<Rightarrow> AskParseError + unit" where
  "check_open_head status deadline on_expiry default_option promotes_to =
     (if status \<noteq> AskOpen then Inr ()
      else if deadline = None then Inl (InvalidAskState ''an open head must carry deadline_at'')
      else case on_expiry of
          None \<Rightarrow> Inl (InvalidAskState ''an open head must name on_expiry'')
        | Some DefaultExecutes \<Rightarrow> if default_option = None
            then Inl (InvalidAskState ''a default-execution head must name default_option'') else Inr ()
        | Some Promotes \<Rightarrow> if promotes_to = None
            then Inl (InvalidAskState ''a promotion head must name promotes_to'') else Inr ()
        | Some Rearms \<Rightarrow> Inr ())"

definition parse_ask_state :: "json_reader \<Rightarrow> nevent \<Rightarrow> AskParseError + ParsedAskState" where
  "parse_ask_state rd ev =
     and_then (single_hex_tag ev ''d'') (\<lambda>ask.
     and_then (parse_content rd ev) (\<lambda>content.
     and_then (ok_or (InvalidAskState ''status is required'') (get_str ''status'' content)) (\<lambda>raw.
     and_then (ok_or (UnknownAskStateField ''status'' raw) (ask_status_parse raw)) (\<lambda>status.
     and_then (ask_state_int_field content ''deadline_at'') (\<lambda>deadline.
     and_then (ask_state_int_field content ''rearmed_at'') (\<lambda>rearmed.
     and_then (ask_state_int_field content ''closed_at'') (\<lambda>closed.
     and_then (vocabulary_field expiry_parse ''on_expiry'' content) (\<lambda>on_expiry.
     let default_option = get_str ''default_option'' content in
     and_then (vocabulary_field promotion_parse ''promotes_to'' content) (\<lambda>promotes_to.
     let executed = (case get_bool ''default_executed'' content of Some b \<Rightarrow> b | None \<Rightarrow> False) in
     and_then (case get_str ''successor_event_id'' content of
         None \<Rightarrow> Inr None
       | Some hex \<Rightarrow> if hex = [] then Inr None
           else map_ok (\<lambda>_. Some hex) (validate_hex64_field ''successor_event_id'' hex)) (\<lambda>successor.
     and_then (check_open_head status deadline on_expiry default_option promotes_to) (\<lambda>_.
     Inr \<lparr>ash_ask = ask, ash_status = status, ash_deadline = deadline, ash_on_expiry = on_expiry,
          ash_default = default_option, ash_promotes_to = promotes_to, ash_rearmed_at = rearmed,
          ash_closed_at = closed, ash_default_executed = executed, ash_successor = successor\<rparr>)))))))))))"

definition VAGUE_GRANT_SCOPES :: "string list" where
  "VAGUE_GRANT_SCOPES = [''*'', ''all'']"

definition parse_grant :: "json_reader \<Rightarrow> nevent \<Rightarrow> AskParseError + ParsedGrant" where
  "parse_grant rd ev =
     and_then (single_tag_value ev ''d'') (\<lambda>grant_id.
     and_then (parse_content rd ev) (\<lambda>content.
     and_then (required_content_field content ''category'') (\<lambda>category.
     if is_hard_list_category category then Inl (GrantOnHardList category) else
     and_then (required_content_field content ''scope'') (\<lambda>scope.
     if to_ascii_lowercase scope \<in> set VAGUE_GRANT_SCOPES then Inl (VagueGrantScope scope) else
     and_then (required_content_bool_field content ''active'') (\<lambda>active.
     and_then (parse_non_negative_amount content ''cap_nano_usd'') (\<lambda>cap.
     Inr \<lparr>gra_id = grant_id, gra_category = to_ascii_lowercase category, gra_scope = to_ascii_lowercase scope,
          gra_cap = cap, gra_active = active\<rparr>))))))"

definition parse_decision_log :: "json_reader \<Rightarrow> nevent \<Rightarrow> AskParseError + ParsedDecisionLog" where
  "parse_decision_log rd ev =
     and_then (single_tag_value ev ''grant'') (\<lambda>grant_id.
     let tasks = ask_tag_values ev ''task'' in
     if tasks = [] then Inl MissingTaskTag else
     and_then (parse_content rd ev) (\<lambda>content.
     and_then (required_content_field content ''decision'') (\<lambda>decision.
     and_then (required_content_field content ''undo_path'') (\<lambda>undo_path.
     and_then (required_content_field content ''category'') (\<lambda>category.
     if is_hard_list_category category then Inl (DecisionOnHardList category) else
     and_then (parse_non_negative_amount content ''amount_nano_usd'') (\<lambda>amount.
     Inr \<lparr>dec_grant = grant_id, dec_tasks = tasks, dec_decision = decision, dec_undo_path = undo_path,
          dec_category = to_ascii_lowercase category, dec_amount = amount\<rparr>))))))"

section \<open>What an accepted message promises\<close>

lemma single_hex_tag_Inr [res_simps]:
  "single_hex_tag ev name = Inr hex \<longleftrightarrow> ask_tag_values ev name = [hex] \<and> is_hex64_lowercase hex"
  by (auto simp: single_hex_tag_def single_tag_value_def validate_hex64_field_def res_simps
      split: list.splits if_splits)

lemma optional_hex_tag_Some: "optional_hex_tag ev name = Inr (Some hex) \<Longrightarrow> is_hex64_lowercase hex"
  by (auto simp: optional_hex_tag_def validate_hex64_field_def res_simps split: option.splits if_splits)

lemma required_content_field_Inr [res_simps]:
  "required_content_field content field = Inr v \<longleftrightarrow>
     v \<noteq> [] \<and> (\<exists>s. get_str field content = Some s \<and> v = trim s)"
proof -
  have "trim [] = []" using length_trim [of "[]"] by simp
  then show ?thesis
    by (auto simp: required_content_field_def Let_def split: option.splits if_splits)
qed

text \<open>Nothing an ask accepted by the parser may do on a timeout is on the hard list.\<close>

definition default_allowed :: "AskType \<Rightarrow> string option \<Rightarrow> string option \<Rightarrow> bool" where
  "default_allowed ask_type category default_option \<longleftrightarrow>
     (default_option \<noteq> None \<longrightarrow> ask_type \<noteq> Stall \<and> (\<forall>c. category = Some c \<longrightarrow> \<not> is_hard_list_category c))"

lemma check_default_Inr [res_simps]:
  "check_default t category content d = Inr u \<longleftrightarrow>
     default_allowed t category d \<and> (\<forall>label. d = Some label \<longrightarrow> has_option content label)"
  by (auto simp: check_default_def default_allowed_def split: option.splits if_splits)

lemma check_window_Inr [res_simps]:
  "check_window w = Inr u \<longleftrightarrow> (\<forall>secs. w = Some secs \<longrightarrow> secs \<le> MAX_ASK_WINDOW_SECS)"
  by (auto simp: check_window_def split: option.splits)

lemma parse_ask_parts:
  assumes "parse_ask rd ev = Inr a"
  obtains content where "rd (ev_content ev) = Inr content"
    and "check_window (ask_window a) = Inr ()"
    and "check_default (ask_kind a) (ask_category a) content (ask_default a) = Inr ()"
    and "single_hex_tag ev ''p'' = Inr (ask_audience a)" and "optional_hex_tag ev ''e'' = Inr (ask_origin_thread a)"
    and "optional_hex_tag ev ''prior'' = Inr (ask_prior a)" and "optional_hex_tag ev ''filer'' = Inr (ask_filer a)"
    and "is_valid_need_slug (ask_need a)" and "ask_tasks a \<noteq> []"
    and "single_tag_value ev ''initiative'' = Inr (ask_initiative a)"
  using assms unfolding parse_ask_def Let_def parse_content_def
  by (elim and_thenE) (simp split: if_split_asm, elim and_thenE, clarsimp simp: map_err_Inr)

lemma parsed_ask_ok:
  assumes "parse_ask rd ev = Inr a"
  shows "default_allowed (ask_kind a) (ask_category a) (ask_default a)"
    and "ask_window a = Some secs \<Longrightarrow> secs \<le> MAX_ASK_WINDOW_SECS"
    and "is_hex64_lowercase (ask_audience a)" and "is_valid_need_slug (ask_need a)" and "ask_tasks a \<noteq> []"
    and "ask_default a = Some label \<Longrightarrow> \<exists>content. rd (ev_content ev) = Inr content \<and> has_option content label"
    and "ask_prior a = Some hex \<Longrightarrow> is_hex64_lowercase hex"
    and "ask_filer a = Some hex \<Longrightarrow> is_hex64_lowercase hex"
    and "ask_origin_thread a = Some hex \<Longrightarrow> is_hex64_lowercase hex"
  using assms by (auto elim!: parse_ask_parts simp: res_simps dest: optional_hex_tag_Some)

lemma parsed_grant_ok:
  assumes "parse_grant rd ev = Inr g"
  shows "\<not> is_hard_list_category (gra_category g)" and "to_ascii_lowercase (gra_category g) = gra_category g"
    and "gra_scope g \<notin> set VAGUE_GRANT_SCOPES" and "gra_category g \<noteq> []"
    and "gra_cap g = Some cap \<Longrightarrow> 0 \<le> cap"
  using assms
  by (auto simp: parse_grant_def res_simps parse_non_negative_amount_def
      dest: get_amount_Some split: if_splits)

lemma parsed_decision_ok:
  assumes "parse_decision_log rd ev = Inr d"
  shows "\<not> is_hard_list_category (dec_category d)" and "dec_undo_path d \<noteq> []" and "dec_tasks d \<noteq> []"
    and "dec_amount d = Some n \<Longrightarrow> 0 \<le> n"
  using assms
  by (auto simp: parse_decision_log_def Let_def res_simps parse_non_negative_amount_def
      dest: get_amount_Some split: if_splits)

text \<open>An open head a client accepts says when the ask expires and what happens then.\<close>

lemma check_open_head_Inr [res_simps]:
  "check_open_head status deadline on_expiry d target = Inr u \<longleftrightarrow>
     (status = AskOpen \<longrightarrow> deadline \<noteq> None
       \<and> (on_expiry = Some Rearms \<or> on_expiry = Some DefaultExecutes \<and> d \<noteq> None \<or> on_expiry = Some Promotes \<and> target \<noteq> None))"
  by (auto simp: check_open_head_def split: option.splits AskExpiryAction.splits if_splits)

lemma parsed_open_head_ok:
  assumes "parse_ask_state rd ev = Inr h" and "ash_status h = AskOpen"
  shows "\<exists>t. ash_deadline h = Some t \<and> 0 \<le> t"
    and "ash_on_expiry h = Some Rearms \<or> ash_on_expiry h = Some DefaultExecutes \<and> ash_default h \<noteq> None
         \<or> ash_on_expiry h = Some Promotes \<and> ash_promotes_to h \<noteq> None"
proof -
  obtain content where "ask_state_int_field content ''deadline_at'' = Inr (ash_deadline h)"
    and "check_open_head (ash_status h) (ash_deadline h) (ash_on_expiry h) (ash_default h) (ash_promotes_to h) = Inr ()"
    using assms(1) unfolding parse_ask_state_def Let_def by (elim and_thenE) clarsimp
  then show "\<exists>t. ash_deadline h = Some t \<and> 0 \<le> t"
    and "ash_on_expiry h = Some Rearms \<or> ash_on_expiry h = Some DefaultExecutes \<and> ash_default h \<noteq> None
         \<or> ash_on_expiry h = Some Promotes \<and> ash_promotes_to h \<noteq> None"
    using assms(2) by (auto simp: res_simps ask_state_int_field_def dest: get_amount_Some)
qed

end
