(* ===== verification/Employee_Wire.thy ===== *)
theory Employee_Wire
  imports Interrupt_Wire Job_Wire
begin

text \<open>
  The events of the payroll, \<open>buzz-core/src/employee.rs\<close>: an owner's request to hire, the head the
  relay publishes of an employee, and an owner's request to change one. What a parser accepts is
  in one form: a role slug and hex keys are lower case, a name is trimmed, and an update asks for
  a change or a retirement and not both.
\<close>

section \<open>Data\<close>

datatype EmployeeParseError =
    EmpMissingTag string
  | EmpDuplicateTag string
  | EmpInvalidRoleSlug string
  | EmpInvalidDisplayName
  | EmpUnknownRank string
  | EmpInvalidHex string
  | EmpInvalidRetireFlag string

definition MAX_DISPLAY_NAME :: nat where "MAX_DISPLAY_NAME = 100"

record ParsedHireRequest =
  hq_role_id :: string
  hq_display_name :: string
  hq_rank :: AgentTier
  hq_manager :: "string option"

record ParsedEmployeeHead =
  hd_pubkey_hex :: string
  hd_role_id :: string
  hd_display_name :: string
  hd_rank :: AgentTier
  hd_hired_by_hex :: string
  hd_hire_event_hex :: string
  hd_manager :: "string option"

record ParsedEmployeeUpdate =
  eu_pubkey_hex :: string
  eu_rank :: "AgentTier option"
  eu_manager :: "string option"
  eu_retire :: bool

section \<open>Readers\<close>

definition slug_head :: "char \<Rightarrow> bool" where
  "slug_head c \<longleftrightarrow> is_ascii_lowercase c \<or> is_ascii_digit c"

definition is_valid_role_slug :: "string \<Rightarrow> bool" where
  "is_valid_role_slug val \<longleftrightarrow> val \<noteq> [] \<and> length val \<le> 64 \<and> slug_head (hd val)
     \<and> list_all (\<lambda>c. slug_head c \<or> c = CHR ''-'' \<or> c = CHR ''_'') val"

definition employee_hex64 :: "string \<Rightarrow> string \<Rightarrow> EmployeeParseError + string" where
  "employee_hex64 field val =
     (let normalized = to_ascii_lowercase (trim val)
      in if length normalized \<noteq> 64 \<or> \<not> list_all is_ascii_hexdigit normalized then Inl (EmpInvalidHex field)
         else Inr normalized)"

definition employee_lookup_error :: "string \<Rightarrow> TagLookupError \<Rightarrow> EmployeeParseError" where
  "employee_lookup_error name e = (case e of Missing \<Rightarrow> EmpMissingTag name | Duplicate \<Rightarrow> EmpDuplicateTag name)"

definition employee_tag :: "nevent \<Rightarrow> string \<Rightarrow> EmployeeParseError + string" where
  "employee_tag ev name = map_err (employee_lookup_error name) (single_tag ev name)"

definition role_and_name :: "nevent \<Rightarrow> EmployeeParseError + string \<times> string" where
  "role_and_name ev =
     and_then (employee_tag ev ''role'') (\<lambda>raw.
       let role_id = to_ascii_lowercase (trim raw)
       in if \<not> is_valid_role_slug role_id then Inl (EmpInvalidRoleSlug role_id)
          else and_then (employee_tag ev ''name'') (\<lambda>raw_name.
            let display_name = trim raw_name
            in if display_name = [] \<or> chars_count display_name > MAX_DISPLAY_NAME then Inl EmpInvalidDisplayName
               else Inr (role_id, display_name)))"

definition employee_rank :: "nevent \<Rightarrow> EmployeeParseError + AgentTier" where
  "employee_rank ev = and_then (employee_tag ev ''rank'') (\<lambda>raw. ok_or (EmpUnknownRank raw) (agent_tier_parse raw))"

definition employee_manager :: "nevent \<Rightarrow> EmployeeParseError + string option" where
  "employee_manager ev =
     (case optional_tag ev ''manager'' of
        Inr (Some val) \<Rightarrow> map_ok Some (employee_hex64 ''manager'' val)
      | Inr None \<Rightarrow> Inr None
      | Inl Missing \<Rightarrow> Inr None
      | Inl Duplicate \<Rightarrow> Inl (EmpDuplicateTag ''manager''))"

definition optional_rank :: "nevent \<Rightarrow> EmployeeParseError + AgentTier option" where
  "optional_rank ev =
     (case employee_tag ev ''rank'' of
        Inr raw \<Rightarrow> ok_or (EmpUnknownRank raw) (map_option Some (agent_tier_parse raw))
      | Inl (EmpMissingTag _) \<Rightarrow> Inr None
      | Inl e \<Rightarrow> Inl e)"

section \<open>Parsers\<close>

definition parse_hire_request :: "nevent \<Rightarrow> EmployeeParseError + ParsedHireRequest" where
  "parse_hire_request ev =
     and_then (role_and_name ev) (\<lambda>(role_id, display_name).
     and_then (employee_rank ev) (\<lambda>rank.
     and_then (employee_manager ev) (\<lambda>manager.
       Inr \<lparr>hq_role_id = role_id, hq_display_name = display_name, hq_rank = rank, hq_manager = manager\<rparr>)))"

definition parse_employee_head :: "nevent \<Rightarrow> EmployeeParseError + ParsedEmployeeHead" where
  "parse_employee_head ev =
     and_then (role_and_name ev) (\<lambda>(role_id, display_name).
     and_then (and_then (employee_tag ev ''d'') (employee_hex64 ''d'')) (\<lambda>pubkey_hex.
     and_then (employee_rank ev) (\<lambda>rank.
     and_then (and_then (employee_tag ev ''hired-by'') (employee_hex64 ''hired-by'')) (\<lambda>hired_by_hex.
     and_then (and_then (employee_tag ev ''e'') (employee_hex64 ''e'')) (\<lambda>hire_event_hex.
     and_then (employee_manager ev) (\<lambda>manager.
       Inr \<lparr>hd_pubkey_hex = pubkey_hex, hd_role_id = role_id, hd_display_name = display_name, hd_rank = rank,
            hd_hired_by_hex = hired_by_hex, hd_hire_event_hex = hire_event_hex, hd_manager = manager\<rparr>))))))"

definition retire_flag :: "nevent \<Rightarrow> EmployeeParseError + bool" where
  "retire_flag ev =
     (case optional_tag ev ''retire'' of
        Inl _ \<Rightarrow> Inl (EmpDuplicateTag ''retire'')
      | Inr (Some val) \<Rightarrow> if val = ''true'' then Inr True else Inl (EmpInvalidRetireFlag val)
      | Inr None \<Rightarrow> Inr False)"

definition parse_employee_update :: "nevent \<Rightarrow> EmployeeParseError + ParsedEmployeeUpdate" where
  "parse_employee_update ev =
     and_then (and_then (employee_tag ev ''p'') (employee_hex64 ''p'')) (\<lambda>pubkey_hex.
     and_then (optional_rank ev) (\<lambda>rank.
     and_then (employee_manager ev) (\<lambda>manager.
     and_then (retire_flag ev) (\<lambda>retire.
       if \<not> retire \<and> rank = None \<and> manager = None then Inl (EmpMissingTag ''rank'')
       else if retire \<and> (rank \<noteq> None \<or> manager \<noteq> None) then Inl (EmpDuplicateTag ''rank'')
       else Inr \<lparr>eu_pubkey_hex = pubkey_hex, eu_rank = rank, eu_manager = manager, eu_retire = retire\<rparr>))))"

section \<open>What is accepted\<close>

lemma employee_hex64_Inr: "employee_hex64 field v = Inr h \<Longrightarrow> length h = 64 \<and> list_all is_lower_hex h"
  using hex64_canonical(1,2) [of field v h] by (auto simp: employee_hex64_def hex64_def Let_def split: if_splits)

lemma employee_manager_Inr:
  "employee_manager ev = Inr (Some h) \<Longrightarrow> length h = 64 \<and> list_all is_lower_hex h"
  by (auto simp: employee_manager_def map_ok_Inr dest: employee_hex64_Inr split: sum.splits option.splits TagLookupError.splits)

lemma role_and_name_Inr:
  "role_and_name ev = Inr (r, n) \<Longrightarrow> is_valid_role_slug r \<and> n \<noteq> [] \<and> chars_count n \<le> 100 \<and> trim n = n"
  by (auto simp: role_and_name_def and_then_Inr Let_def MAX_DISPLAY_NAME_def split: if_splits)

lemma parsed_hire_ok:
  assumes "parse_hire_request ev = Inr q"
  shows "is_valid_role_slug (hq_role_id q)"
    and "\<And>h. hq_manager q = Some h \<Longrightarrow> length h = 64 \<and> list_all is_lower_hex h"
  using assms by (auto simp: parse_hire_request_def and_then_Inr dest: role_and_name_Inr employee_manager_Inr)

lemma parsed_update_ok:
  assumes "parse_employee_update ev = Inr u"
  shows "length (eu_pubkey_hex u) = 64" and "list_all is_lower_hex (eu_pubkey_hex u)"
    and "eu_retire u \<longleftrightarrow> eu_rank u = None \<and> eu_manager u = None"
    and "\<And>h. eu_manager u = Some h \<Longrightarrow> length h = 64 \<and> list_all is_lower_hex h"
  using assms
  by (auto simp: parse_employee_update_def and_then_Inr dest: employee_hex64_Inr employee_manager_Inr split: if_splits)

end
