(* ===== verification/Interrupt_Gate.thy ===== *)
theory Interrupt_Gate
  imports Member_Store Employee_Store Thread_Store Ask_Store Employee_Wire
begin

text \<open>
  The interrupt gate, \<open>buzz-relay/src/interrupt_gate.rs\<close>: who an agent may address. A worker or
  leader reaches an owner only in a thread the owner opened to it; a grant counts only when an
  owner wrote it; a decision is recorded only under a grant that covers it. The gate reads the
  relay's own tables and the events members publish, and trusts of the latter only what a
  current owner has written. When a read fails it refuses.

  \<open>workspace\<close> is the part of the database these parts of the relay share, with the communities
  that have a host and what has been fanned out. \<open>relay_env\<close> is one request's view of the
  world: what happens to each statement it sends, by label, the JSON parser and writer, the key
  parser and the signer of the \<open>nostr\<close> crate, the relay's own key and whether it is a durable
  one, the clock, and \<open>check_channel_membership\<close> of \<open>handlers/ingest.rs\<close>, which reads the channel
  tables.
\<close>

section \<open>The workspace\<close>

record workspace =
  ws_members :: members_table
  ws_employees :: employees_table
  ws_events :: event_db
  ws_threads :: threads_table
  ws_asks :: asks_table
  ws_hosted :: "community_id list"
  ws_fanned :: "(community_id \<times> uuid option \<times> nevent) list"

record relay_env =
  re_fault :: "string list \<Rightarrow> db_fault"
  re_error :: "DbError \<Rightarrow> string"
  re_read_json :: json_reader
  re_write_json :: json_writer
  re_key :: "string \<Rightarrow> pubkey option"
  re_relay_key :: pubkey
  re_durable :: bool
  re_now :: nat
  re_representable :: "nat \<Rightarrow> bool"
  re_sign :: "pubkey \<Rightarrow> nat \<Rightarrow> kind \<Rightarrow> tag list \<Rightarrow> string \<Rightarrow> nevent"
  re_may_post :: "uuid \<Rightarrow> pubkey \<Rightarrow> bool"
  re_show_uuid :: "uuid \<Rightarrow> string"

definition ws_read :: "relay_env \<Rightarrow> string list \<Rightarrow> string \<Rightarrow> 'a \<Rightarrow> string + 'a" where
  "ws_read E label msg answer = map_err (\<lambda>e. msg @ re_error E e) (sql_read (re_fault E label) answer)"

definition ws_query :: "relay_env \<Rightarrow> string list \<Rightarrow> string \<Rightarrow> EventQuery \<Rightarrow> workspace \<Rightarrow> string + StoredEvent list" where
  "ws_query E label msg q ws =
     and_then (ws_read E label msg ()) (\<lambda>_. map_err (\<lambda>e. msg @ e) (query_events q (ws_events ws)))"

definition holds_owner :: "relay_env \<Rightarrow> string \<Rightarrow> community_id \<Rightarrow> string \<Rightarrow> workspace \<Rightarrow> string + bool" where
  "holds_owner E msg community hex ws =
     ws_read E [''member'', hex] msg (case get_relay_member community hex (ws_members ws) of
        None \<Rightarrow> False | Some m \<Rightarrow> mb_role m = ''owner'')"

text \<open>\<open>hex::decode\<close>: bytes are their lower-case spelling.\<close>

definition hex_decode :: "string \<Rightarrow> string option" where
  "hex_decode s = (if even (length s) \<and> list_all is_ascii_hexdigit s then Some (to_ascii_lowercase s) else None)"

section \<open>Tiers\<close>

definition MAX_CANDIDATE_TIER_HEADS :: int where "MAX_CANDIDATE_TIER_HEADS = 20"
definition MAX_CANDIDATE_GRANT_HEADS :: int where "MAX_CANDIDATE_GRANT_HEADS = 20"

definition head_query :: "community_id \<Rightarrow> kind \<Rightarrow> string \<Rightarrow> int \<Rightarrow> EventQuery" where
  "head_query community k d limit = (for_community community)\<lparr>eq_kinds := Some [k], eq_d_tag := Some d,
     eq_global_only := True, eq_limit := Some limit\<rparr>"

text \<open>The loop over candidate heads, newest first: the first one a current owner wrote.\<close>

fun first_owner_head :: "relay_env \<Rightarrow> string \<Rightarrow> community_id \<Rightarrow> workspace \<Rightarrow> StoredEvent list \<Rightarrow> string + nevent option" where
  "first_owner_head E msg community ws [] = Inr None"
| "first_owner_head E msg community ws (se # rest) =
     and_then (holds_owner E msg community (ev_pubkey (se_event se)) ws) (\<lambda>owner.
       if owner then Inr (Some (se_event se)) else first_owner_head E msg community ws rest)"

definition normalize_role_id :: "string \<Rightarrow> string" where
  "normalize_role_id raw = to_ascii_lowercase (trim raw)"

definition rank_or_worker :: "string \<Rightarrow> AgentTier" where
  "rank_or_worker r = (case agent_tier_parse r of Some t \<Rightarrow> t | None \<Rightarrow> Worker)"

text \<open>What the authoritative head says: the rank of the role it names, or else its own tier.\<close>

definition content_tier :: "json \<Rightarrow> AgentTier option" where
  "content_tier content = Option.bind (get_str ''tier'' content) agent_tier_parse"

definition head_tier :: "relay_env \<Rightarrow> community_id \<Rightarrow> workspace \<Rightarrow> nevent \<Rightarrow> string + AgentTier option" where
  "head_tier E community ws ev =
     (case re_read_json E (ev_content ev) of
        Inl _ \<Rightarrow> Inr None
      | Inr content \<Rightarrow> (case map_option normalize_role_id (get_str ''role_id'' content) of
          None \<Rightarrow> Inr (content_tier content)
        | Some role_id \<Rightarrow>
            if \<not> is_valid_role_slug role_id then Inr (content_tier content)
            else and_then (ws_read E [''role'', role_id] ''error: internal error resolving an agent's role: ''
                   (find_active_employee_by_role community role_id (ws_employees ws)))
                 (\<lambda>employee. Inr (case employee of Some e \<Rightarrow> Some (rank_or_worker (em_rank e)) | None \<Rightarrow> content_tier content))))"

definition agent_tier :: "relay_env \<Rightarrow> community_id \<Rightarrow> workspace \<Rightarrow> pubkey \<Rightarrow> string + AgentTier option" where
  "agent_tier E community ws pubkey =
     and_then (ws_read E [''employee'', pubkey] ''error: internal error loading employee record: ''
                (find_employee community pubkey (ws_employees ws))) (\<lambda>employee.
     case employee of
       Some e \<Rightarrow> Inr (Some (rank_or_worker (em_rank e)))
     | None \<Rightarrow>
         and_then (ws_query E [''heads'', pubkey] ''error: internal error loading managed-agent head: ''
                    (head_query community KIND_MANAGED_AGENT pubkey MAX_CANDIDATE_TIER_HEADS) ws) (\<lambda>rows.
         and_then (first_owner_head E ''error: internal error checking managed-agent head author: '' community ws rows) (\<lambda>head.
         case head of None \<Rightarrow> Inr None | Some ev \<Rightarrow> head_tier E community ws ev)))"

section \<open>Reporting lines\<close>

fun event_single_tag_loop :: "string \<Rightarrow> string option \<Rightarrow> tag list \<Rightarrow> string option" where
  "event_single_tag_loop name found [] = found"
| "event_single_tag_loop name found (t # ts) =
     (if tag_kind t \<noteq> name then event_single_tag_loop name found ts
      else if found \<noteq> None then None
      else event_single_tag_loop name (tag_content t) ts)"

definition event_single_tag :: "nevent \<Rightarrow> string \<Rightarrow> string option" where
  "event_single_tag ev name = event_single_tag_loop name None (ev_tags ev)"

definition validated_manager ::
  "relay_env \<Rightarrow> community_id \<Rightarrow> workspace \<Rightarrow> pubkey \<Rightarrow> pubkey option \<Rightarrow> string + pubkey option" where
  "validated_manager E community ws pubkey claimed =
     (case claimed of
        None \<Rightarrow> Inr None
      | Some claimed \<Rightarrow>
          and_then (agent_tier E community ws pubkey) (\<lambda>subject_tier.
          case subject_tier of
            None \<Rightarrow> Inr None
          | Some tier \<Rightarrow>
              if tier = Executive then Inr None
              else and_then (agent_tier E community ws claimed) (\<lambda>manager_tier.
                if manager_tier \<noteq> Some (escalation_target tier) then Inr None else Inr (Some claimed))))"

definition agent_manager :: "relay_env \<Rightarrow> community_id \<Rightarrow> workspace \<Rightarrow> pubkey \<Rightarrow> string + pubkey option" where
  "agent_manager E community ws pubkey =
     and_then (ws_read E [''employee'', pubkey] ''error: internal error loading employee record: ''
                (find_employee community pubkey (ws_employees ws))) (\<lambda>employee.
     case employee of
       Some e \<Rightarrow> validated_manager E community ws pubkey (Option.bind (em_manager e) (re_key E))
     | None \<Rightarrow>
         and_then (ws_query E [''heads'', pubkey] ''error: internal error loading managed-agent head: ''
                    (head_query community KIND_MANAGED_AGENT pubkey MAX_CANDIDATE_TIER_HEADS) ws) (\<lambda>rows.
         and_then (first_owner_head E ''error: internal error checking managed-agent head author: '' community ws rows) (\<lambda>head.
         case head of
           Some ev \<Rightarrow> Inr (Option.bind (event_single_tag ev ''manager'') (re_key E))
         | None \<Rightarrow> validated_manager E community ws pubkey None)))"

section \<open>Addressing an owner\<close>

definition is_gated_kind :: "kind \<Rightarrow> bool" where
  "is_gated_kind k \<longleftrightarrow> k \<in> {KIND_STREAM_MESSAGE, KIND_STREAM_MESSAGE_V2, KIND_STREAM_MESSAGE_EDIT, KIND_DM_OPEN,
     KIND_DM_ADD_MEMBER, KIND_GIFT_WRAP}"

definition is_direct_contact_kind :: "kind \<Rightarrow> bool" where
  "is_direct_contact_kind k \<longleftrightarrow> k \<in> {KIND_DM_OPEN, KIND_DM_ADD_MEMBER, KIND_GIFT_WRAP}"

definition direct_contact_denied :: "kind \<Rightarrow> AgentTier \<Rightarrow> string" where
  "direct_contact_denied k tier = ''restricted: '' @ agent_tier_as_str tier @ '' agents cannot ''
     @ (if k = KIND_DM_OPEN then ''open a DM with an owner''
        else if k = KIND_DM_ADD_MEMBER then ''add an owner to a DM'' else ''send a private message to an owner'')"

definition owner_contact_denied :: "AgentTier \<Rightarrow> string" where
  "owner_contact_denied tier = ''restricted: '' @ agent_tier_as_str tier @ '' agents cannot address an owner''"

definition reply_p_tags_contain :: "nevent \<Rightarrow> string \<Rightarrow> bool" where
  "reply_p_tags_contain ev target_hex \<longleftrightarrow>
     list_ex (\<lambda>t. case tag_slice t of n # v # _ \<Rightarrow> n = ''p'' \<and> v = target_hex | _ \<Rightarrow> False) (ev_tags ev)"

definition extract_p_tags :: "nevent \<Rightarrow> string list" where
  "extract_p_tags ev = List.map_filter (\<lambda>t. if tag_kind t = ''p'' then tag_content t else None) (ev_tags ev)"

definition marked_e_tag :: "string \<Rightarrow> tag \<Rightarrow> string option" where
  "marked_e_tag marker t = (case tag_slice t of
       n # i # _ # m # _ \<Rightarrow> if n = ''e'' \<and> m = marker
         then (case hex_decode i of Some b \<Rightarrow> if length b = 64 then Some b else None | None \<Rightarrow> None) else None
     | _ \<Rightarrow> None)"

definition find_marked_e_tag :: "nevent \<Rightarrow> string \<Rightarrow> string option" where
  "find_marked_e_tag ev marker = (case List.map_filter (marked_e_tag marker) (ev_tags ev) of b # _ \<Rightarrow> Some b | [] \<Rightarrow> None)"

definition extract_thread_root :: "nevent \<Rightarrow> string option" where
  "extract_thread_root ev = (case find_marked_e_tag ev ''root'' of Some b \<Rightarrow> Some b | None \<Rightarrow> find_marked_e_tag ev ''reply'')"

definition MAX_THREAD_REPLIES :: nat where "MAX_THREAD_REPLIES = 500"

definition owner_thread_permits ::
  "relay_env \<Rightarrow> community_id \<Rightarrow> workspace \<Rightarrow> string \<Rightarrow> string \<Rightarrow> string \<Rightarrow> string + bool" where
  "owner_thread_permits E community ws thread_root owner agent =
     and_then (ws_read E [''event'', thread_root] ''error: internal error loading thread root: ''
                (get_event_by_id community thread_root (ws_events ws))) (\<lambda>root.
     case root of
       None \<Rightarrow> Inr False
     | Some root \<Rightarrow>
         if ev_pubkey (se_event root) = owner then Inr True
         else and_then (ws_read E [''replies'', thread_root] ''error: internal error loading thread replies: ''
                (get_thread_replies community thread_root None MAX_THREAD_REPLIES None (ed_events (ws_events ws)) (ws_threads ws)))
              (\<lambda>replies. Inr (list_ex (\<lambda>r. ev_pubkey (rw_event (snd r)) = owner
                 \<and> reply_p_tags_contain (rw_event (snd r)) agent) replies)))"

fun owner_targets :: "relay_env \<Rightarrow> community_id \<Rightarrow> workspace \<Rightarrow> string list \<Rightarrow> string + string list" where
  "owner_targets E community ws [] = Inr []"
| "owner_targets E community ws (target # rest) =
     and_then (holds_owner E ''error: internal error checking relay membership: '' community target ws) (\<lambda>owner.
     and_then (if owner then map_ok (\<lambda>b. [b]) (ok_or ''error: internal error: stored member pubkey is not valid hex'' (hex_decode target))
               else Inr []) (\<lambda>this.
     and_then (owner_targets E community ws rest) (\<lambda>others. Inr (this @ others))))"

fun all_permitted :: "relay_env \<Rightarrow> community_id \<Rightarrow> workspace \<Rightarrow> AgentTier \<Rightarrow> string \<Rightarrow> string \<Rightarrow> string list \<Rightarrow> string + unit" where
  "all_permitted E community ws tier thread_root agent [] = Inr ()"
| "all_permitted E community ws tier thread_root agent (owner # rest) =
     and_then (owner_thread_permits E community ws thread_root owner agent) (\<lambda>permitted.
       if \<not> permitted then Inl (owner_contact_denied tier)
       else all_permitted E community ws tier thread_root agent rest)"

definition contact_owners :: "relay_env \<Rightarrow> community_id \<Rightarrow> workspace \<Rightarrow> nevent \<Rightarrow> pubkey \<Rightarrow> AgentTier \<Rightarrow> string list \<Rightarrow> string + unit" where
  "contact_owners E community ws ev auth tier owners =
     (if owners = [] then Inr ()
      else if is_direct_contact_kind (ev_kind ev) then Inl (direct_contact_denied (ev_kind ev) tier)
      else (case extract_thread_root ev of
          None \<Rightarrow> Inl (owner_contact_denied tier)
        | Some root \<Rightarrow> all_permitted E community ws tier root auth owners))"

definition enforce_owner_contact :: "relay_env \<Rightarrow> community_id \<Rightarrow> workspace \<Rightarrow> nevent \<Rightarrow> pubkey \<Rightarrow> string + unit" where
  "enforce_owner_contact E community ws ev auth =
     (if \<not> is_gated_kind (ev_kind ev) \<or> extract_p_tags ev = [] then Inr ()
      else and_then (agent_tier E community ws auth) (\<lambda>tier.
        case tier of
          None \<Rightarrow> Inr ()
        | Some tier \<Rightarrow>
            if tier = Executive then Inr ()
            else and_then (owner_targets E community ws (extract_p_tags ev))
                   (contact_owners E community ws ev auth tier)))"

section \<open>Grants and decisions\<close>

definition active_grant :: "relay_env \<Rightarrow> community_id \<Rightarrow> workspace \<Rightarrow> string \<Rightarrow> string + ParsedGrant option" where
  "active_grant E community ws grant_id =
     and_then (ws_query E [''grants'', grant_id] ''error: internal error loading delegation grant head: ''
                (head_query community KIND_DELEGATION_GRANT grant_id MAX_CANDIDATE_GRANT_HEADS) ws) (\<lambda>rows.
     and_then (first_owner_head E ''error: internal error checking delegation grant author: '' community ws rows) (\<lambda>head.
     Inr (case head of
            None \<Rightarrow> None
          | Some ev \<Rightarrow> (case parse_grant (re_read_json E) ev of Inr g \<Rightarrow> Some g | Inl _ \<Rightarrow> None))))"

definition enforce_grant_authorship :: "relay_env \<Rightarrow> community_id \<Rightarrow> workspace \<Rightarrow> nevent \<Rightarrow> string + unit" where
  "enforce_grant_authorship E community ws ev =
     and_then (holds_owner E ''error: internal error checking delegation grant author: '' community (ev_pubkey ev) ws) (\<lambda>owner.
       if \<not> owner then Inl ''restricted: delegation grants may only be signed by a current community owner'' else Inr ())"

datatype DecisionRefusal =
    SignerTier
  | NotActive string
  | OtherCategory string string
  | AmountMissing
  | OverCap int int

text \<open>The tests on the grant a decision cites.\<close>

definition covered_by :: "ParsedDecisionLog \<Rightarrow> ParsedGrant \<Rightarrow> DecisionRefusal + unit" where
  "covered_by parsed grant =
     (if dec_category parsed \<noteq> gra_category grant then Inl (OtherCategory (dec_category parsed) (gra_category grant))
      else (case gra_cap grant of
          None \<Rightarrow> Inr ()
        | Some cap \<Rightarrow> (case dec_amount parsed of
             None \<Rightarrow> Inl AmountMissing
           | Some amount \<Rightarrow> if amount > cap then Inl (OverCap amount cap) else Inr ())))"

definition enforce_decision_log_authority ::
  "relay_env \<Rightarrow> community_id \<Rightarrow> workspace \<Rightarrow> nevent \<Rightarrow> ParsedDecisionLog \<Rightarrow> (string + DecisionRefusal) + unit" where
  "enforce_decision_log_authority E community ws ev parsed =
     and_then (map_err Inl (agent_tier E community ws (ev_pubkey ev))) (\<lambda>tier.
     if tier \<noteq> Some Leader \<and> tier \<noteq> Some Executive then Inl (Inr SignerTier)
     else and_then (map_err Inl (active_grant E community ws (dec_grant parsed))) (\<lambda>grant.
       case grant of
         None \<Rightarrow> Inl (Inr (NotActive (dec_grant parsed)))
       | Some g \<Rightarrow> if \<not> gra_active g then Inl (Inr (NotActive (dec_grant parsed)))
           else map_err Inr (covered_by parsed g)))"

end
