(* ===== verification/Relay_Publish.thy ===== *)
theory Relay_Publish
  imports Interrupt_Gate
begin

text \<open>
  What the relay itself signs: an event under its own key, stored and then fanned out, neither
  of which may fail the step that caused it. Every statement has a label; \<open>re_fault\<close> decides by
  label whether it runs, and whether its answer comes back.
\<close>

definition new_tag :: "string list \<Rightarrow> tag" where
  "new_tag sl = \<lparr>tag_kind = (case sl of [] \<Rightarrow> [] | n # _ \<Rightarrow> n), tag_content = (case sl of _ # v # _ \<Rightarrow> Some v | _ \<Rightarrow> None),
     tag_slice = sl\<rparr>"

definition relay_event :: "relay_env \<Rightarrow> kind \<Rightarrow> tag list \<Rightarrow> string \<Rightarrow> nevent" where
  "relay_event E k tags content = re_sign E (re_relay_key E) (re_now E) k tags content"

definition fan_out :: "relay_env \<Rightarrow> community_id \<Rightarrow> uuid option \<Rightarrow> nevent \<Rightarrow> workspace \<Rightarrow> workspace" where
  "fan_out E community topic ev ws =
     run_if (re_fault E [''fan out'', ev_id ev]) (\<lambda>ws. ws\<lparr>ws_fanned := ws_fanned ws @ [(community, topic, ev)]\<rparr>) ws"

text \<open>\<open>insert_event\<close>, and whether it returned \<open>Ok\<close>.\<close>

definition relay_store :: "relay_env \<Rightarrow> community_id \<Rightarrow> nevent \<Rightarrow> uuid option \<Rightarrow> workspace \<Rightarrow> bool \<times> workspace" where
  "relay_store E community ev channel ws =
     (case re_fault E [''store'', ev_id ev] of
        NotSent \<Rightarrow> (False, ws)
      | fault \<Rightarrow> (case insert_event (re_representable E) (re_now E) community ev channel (ws_events ws) of
            (res, db) \<Rightarrow> (fault = NoFault \<and> ok_of res \<noteq> None, ws\<lparr>ws_events := db\<rparr>)))"

definition store_and_fan_out :: "relay_env \<Rightarrow> community_id \<Rightarrow> nevent \<Rightarrow> uuid option \<Rightarrow> uuid option \<Rightarrow> workspace \<Rightarrow> workspace" where
  "store_and_fan_out E community ev channel topic ws =
     (case relay_store E community ev channel ws of
        (True, ws') \<Rightarrow> fan_out E community topic ev ws'
      | (False, ws') \<Rightarrow> ws')"

text \<open>A statement on one of the tables.\<close>

definition asks_call ::
  "relay_env \<Rightarrow> string list \<Rightarrow> string \<Rightarrow> (asks_table \<Rightarrow> (DbError + 'a) \<times> asks_table) \<Rightarrow> workspace \<Rightarrow> (string + 'a) \<times> workspace" where
  "asks_call E label msg statement ws =
     (case sql_call (re_fault E label) statement (ws_asks ws) of
        (res, tbl) \<Rightarrow> (map_err (\<lambda>e. msg @ re_error E e) res, ws\<lparr>ws_asks := tbl\<rparr>))"

section \<open>What these leave alone\<close>

lemma fan_out_keeps [simp]:
  "ws_members (fan_out E c t ev ws) = ws_members ws" "ws_employees (fan_out E c t ev ws) = ws_employees ws"
  "ws_asks (fan_out E c t ev ws) = ws_asks ws" "ws_events (fan_out E c t ev ws) = ws_events ws"
  "ws_threads (fan_out E c t ev ws) = ws_threads ws" "ws_hosted (fan_out E c t ev ws) = ws_hosted ws"
  by (simp_all add: fan_out_def run_if_def)

lemma relay_store_keeps [simp]:
  "ws_members (snd (relay_store E c ev ch ws)) = ws_members ws"
  "ws_employees (snd (relay_store E c ev ch ws)) = ws_employees ws"
  "ws_asks (snd (relay_store E c ev ch ws)) = ws_asks ws"
  "ws_hosted (snd (relay_store E c ev ch ws)) = ws_hosted ws"
  by (simp_all add: relay_store_def split: db_fault.split prod.split)

lemma store_and_fan_out_keeps [simp]:
  "ws_members (store_and_fan_out E c ev ch t ws) = ws_members ws"
  "ws_employees (store_and_fan_out E c ev ch t ws) = ws_employees ws"
  "ws_asks (store_and_fan_out E c ev ch t ws) = ws_asks ws"
  "ws_hosted (store_and_fan_out E c ev ch t ws) = ws_hosted ws"
  using relay_store_keeps [of E c ev ch ws]
  by (auto simp: store_and_fan_out_def split: prod.split bool.split simp del: relay_store_keeps)

lemma asks_call_keeps:
  "ws_members (snd (asks_call E l m s ws)) = ws_members ws" "ws_employees (snd (asks_call E l m s ws)) = ws_employees ws"
  "ws_events (snd (asks_call E l m s ws)) = ws_events ws" "ws_hosted (snd (asks_call E l m s ws)) = ws_hosted ws"
  by (simp_all add: asks_call_def split: prod.split)

lemma asks_call_state:
  assumes "asks_call E l m s ws = (res, ws')"
  shows "ws_asks ws' \<in> {ws_asks ws, snd (s (ws_asks ws))}"
  using assms sql_call_state [of "re_fault E l" s "ws_asks ws"] by (auto simp: asks_call_def split: prod.splits)

lemma asks_call_Inr:
  "asks_call E l m s ws = (Inr a, ws') \<longleftrightarrow>
     re_fault E l = NoFault \<and> (\<exists>tbl. s (ws_asks ws) = (Inr a, tbl) \<and> ws' = ws\<lparr>ws_asks := tbl\<rparr>)"
  by (auto simp: asks_call_def map_err_Inr sql_call_Inr split: prod.splits)

end
