(* ===== verification/Interrupt_Roster.thy ===== *)
theory Interrupt_Roster
  imports Relay_Publish
begin

text \<open>
  Who holds an office: the roster of managed-agent heads that owners wrote, the heads that
  provisioned employees wrote about themselves, and the payroll of active employees
  (\<open>buzz-relay/src/interrupt_runtime.rs\<close>). The relay routes only to a unique holder; a \<open>HashSet\<close>
  is the list of its elements without repetition, of which only the count and the single
  element are read.
\<close>

section \<open>Heads that owners wrote\<close>

text \<open>\<open>SELECT DISTINCT ON\<close>: the first row of each run of equal keys.\<close>

function distinct_on :: "('a \<Rightarrow> 'b) \<Rightarrow> 'a list \<Rightarrow> 'a list" where
  "distinct_on f [] = []"
| "distinct_on f (x # xs) = x # distinct_on f (dropWhile (\<lambda>y. f y = f x) xs)"
  by pat_completeness auto
termination
  by (relation "measure (length \<circ> snd)") (auto simp: less_Suc_eq_le length_dropWhile_le)

definition written_by_owner :: "community_id \<Rightarrow> workspace \<Rightarrow> event_key \<times> EventRow \<Rightarrow> bool" where
  "written_by_owner community ws x \<longleftrightarrow>
     (case get_relay_member community (ev_pubkey (rw_event (snd x))) (ws_members ws) of
        None \<Rightarrow> False | Some m \<Rightarrow> mb_role m = ''owner'')"

definition head_key :: "event_key \<times> EventRow \<Rightarrow> string" where
  "head_key x = (case rw_d_tag (snd x) of Some d \<Rightarrow> d | None \<Rightarrow> [])"

definition query_latest_owner_authored_heads :: "community_id \<Rightarrow> kind \<Rightarrow> nat \<Rightarrow> workspace \<Rightarrow> StoredEvent list" where
  "query_latest_owner_authored_heads community k limit ws =
     map (row_to_stored_event \<circ> snd) (take limit (distinct_on head_key
       (sort_key (\<lambda>x. (head_key x, newest_rank x))
         (filter (\<lambda>x. live_row community x \<and> written_by_owner community ws x \<and> ev_kind (rw_event (snd x)) = k
              \<and> rw_channel (snd x) = None \<and> rw_d_tag (snd x) \<noteq> None) (ed_events (ws_events ws))))))"

type_synonym agent_roster = "(string \<times> json) list"

definition roster_entry :: "relay_env \<Rightarrow> StoredEvent \<Rightarrow> (string \<times> json) option" where
  "roster_entry E se = (case (first_tag_value ''d'' (se_event se), re_read_json E (ev_content (se_event se))) of
       (Some d, Inr content) \<Rightarrow> Some (d, content) | _ \<Rightarrow> None)"

definition MAX_ROSTER_HEADS :: nat where "MAX_ROSTER_HEADS = 500"

definition fetch_owner_authored_managed_agent_roster ::
  "relay_env \<Rightarrow> community_id \<Rightarrow> workspace \<Rightarrow> nat \<Rightarrow> string + agent_roster" where
  "fetch_owner_authored_managed_agent_roster E community ws limit =
     and_then (ws_read E [''roster''] ''database error scanning managed-agent roster: ''
                (query_latest_owner_authored_heads community KIND_MANAGED_AGENT limit ws))
       (\<lambda>rows. Inr (List.map_filter (roster_entry E) rows))"

section \<open>The payroll\<close>

record Payroll =
  pa_role_ranks :: "(string \<times> AgentTier) list"
  pa_provisioned :: "string list"
  pa_provisioned_roles :: "string list"

text \<open>Collecting into a map keeps the last pair of a key.\<close>

definition collect_map :: "('k \<times> 'v) list \<Rightarrow> ('k \<times> 'v) list" where
  "collect_map xs = fold (\<lambda>(k, v) m. AList.update k v m) xs []"

definition payroll_of :: "EmployeeRow list \<Rightarrow> Payroll" where
  "payroll_of employees =
     (let provisioned = filter (\<lambda>e. em_provisioned_handle e \<noteq> None) employees in
      \<lparr>pa_role_ranks = collect_map (List.map_filter (\<lambda>e. map_option (Pair (em_role_id e)) (agent_tier_parse (em_rank e))) employees),
       pa_provisioned = sort (remdups (map em_pubkey provisioned)),
       pa_provisioned_roles = sort (remdups (filter (\<lambda>r. r \<noteq> []) (map (normalize_role_id \<circ> em_role_id) provisioned)))\<rparr>)"

definition active_payroll :: "relay_env \<Rightarrow> community_id \<Rightarrow> workspace \<Rightarrow> string + Payroll" where
  "active_payroll E community ws =
     map_ok payroll_of (ws_read E [''payroll''] ''database error reading the payroll: ''
       (list_active_employees community (ws_employees ws)))"

definition provisioned_entry :: "relay_env \<Rightarrow> string \<Rightarrow> StoredEvent list \<Rightarrow> (string \<times> json) list" where
  "provisioned_entry E pubkey rows = (case rows of [] \<Rightarrow> []
     | se # _ \<Rightarrow> if ev_pubkey (se_event se) \<noteq> pubkey then []
         else (case re_read_json E (ev_content (se_event se)) of Inl _ \<Rightarrow> [] | Inr content \<Rightarrow> [(pubkey, content)]))"

fun extend_roster_with_provisioned_heads ::
  "relay_env \<Rightarrow> community_id \<Rightarrow> workspace \<Rightarrow> string list \<Rightarrow> agent_roster \<Rightarrow> string + agent_roster" where
  "extend_roster_with_provisioned_heads E community ws [] roster = Inr roster"
| "extend_roster_with_provisioned_heads E community ws (pubkey # rest) roster =
     and_then (ws_query E [''provisioned'', pubkey] ''database error reading a provisioned agent definition: ''
                (head_query community KIND_MANAGED_AGENT pubkey 1) ws)
       (\<lambda>rows. extend_roster_with_provisioned_heads E community ws rest (roster @ provisioned_entry E pubkey rows))"

definition fetch_role_holder_roster ::
  "relay_env \<Rightarrow> community_id \<Rightarrow> workspace \<Rightarrow> Payroll \<Rightarrow> nat \<Rightarrow> string + agent_roster" where
  "fetch_role_holder_roster E community ws payroll limit =
     and_then (fetch_owner_authored_managed_agent_roster E community ws limit)
       (extend_roster_with_provisioned_heads E community ws (pa_provisioned payroll))"

definition trusted_assignment_personas :: "relay_env \<Rightarrow> community_id \<Rightarrow> workspace \<Rightarrow> string + string list" where
  "trusted_assignment_personas E community ws =
     and_then (active_payroll E community ws) (\<lambda>payroll.
     and_then (fetch_role_holder_roster E community ws payroll 10000) (\<lambda>roster.
     Inr (remdups (List.map_filter (\<lambda>(pubkey, content).
       if re_key E pubkey = None \<or> get_bool ''is_active'' content = Some False then None
       else (case get_str ''persona_id'' content of Some i \<Rightarrow> if trim i = [] then None else Some i | None \<Rightarrow> None)) roster))))"

section \<open>The executive\<close>

definition head_rank :: "json \<Rightarrow> (string \<times> AgentTier) list \<Rightarrow> AgentTier option" where
  "head_rank content role_ranks =
     (case Option.bind (map_option normalize_role_id (get_str ''role_id'' content)) (map_of role_ranks) of
        Some r \<Rightarrow> Some r | None \<Rightarrow> content_tier content)"

definition head_role :: "json \<Rightarrow> string option" where
  "head_role content = (case map_option normalize_role_id (get_str ''role_id'' content) of
     Some r \<Rightarrow> if r = [] then None else Some r | None \<Rightarrow> None)"

text \<open>The key a head is filed under.\<close>

definition head_agent :: "relay_env \<Rightarrow> string \<Rightarrow> pubkey option" where
  "head_agent E d = Option.bind (hex_decode d) (re_key E)"

definition executives :: "relay_env \<Rightarrow> agent_roster \<Rightarrow> Payroll \<Rightarrow> (string \<times> json) list" where
  "executives E roster payroll =
     filter (\<lambda>(d, content). head_rank content (pa_role_ranks payroll) = Some Executive \<and> head_agent E d \<noteq> None) roster"

definition agents_where :: "relay_env \<Rightarrow> (pubkey \<Rightarrow> json \<Rightarrow> bool) \<Rightarrow> (string \<times> json) list \<Rightarrow> pubkey list" where
  "agents_where E P heads = remdups (List.map_filter (\<lambda>(d, content).
     case head_agent E d of Some p \<Rightarrow> if P p content then Some p else None | None \<Rightarrow> None) heads)"

definition names_provisioned_office :: "Payroll \<Rightarrow> json \<Rightarrow> bool" where
  "names_provisioned_office payroll content \<longleftrightarrow> (case head_role content of None \<Rightarrow> False
     | Some role \<Rightarrow> role \<in> set (pa_provisioned_roles payroll))"

definition the_agent :: "relay_env \<Rightarrow> pubkey \<Rightarrow> string + pubkey option" where
  "the_agent E p = (case re_key E p of Some q \<Rightarrow> Inr (Some q) | None \<Rightarrow> Inl ''resolved executive pubkey is invalid'')"

definition unique_executive_in_roster :: "relay_env \<Rightarrow> agent_roster \<Rightarrow> Payroll \<Rightarrow> string + pubkey option" where
  "unique_executive_in_roster E roster payroll =
     (let heads = executives E roster payroll;
          provisioned = agents_where E (\<lambda>p _. p \<in> set (pa_provisioned payroll)) heads;
          workspace_own = agents_where E (\<lambda>p content. p \<notin> set (pa_provisioned payroll)
                            \<and> \<not> names_provisioned_office payroll content) heads
      in case workspace_own of
           [p] \<Rightarrow> the_agent E p
         | [] \<Rightarrow> (case provisioned of [p] \<Rightarrow> the_agent E p | _ \<Rightarrow> Inr None)
         | _ \<Rightarrow> Inr None)"

definition find_unique_executive :: "relay_env \<Rightarrow> community_id \<Rightarrow> workspace \<Rightarrow> string + pubkey option" where
  "find_unique_executive E community ws =
     and_then (active_payroll E community ws) (\<lambda>payroll.
     and_then (fetch_role_holder_roster E community ws payroll MAX_ROSTER_HEADS) (\<lambda>roster.
     unique_executive_in_roster E roster payroll))"

definition find_unique_owner :: "relay_env \<Rightarrow> community_id \<Rightarrow> workspace \<Rightarrow> string + pubkey option" where
  "find_unique_owner E community ws =
     and_then (ws_read E [''owners''] ''database error resolving the community owner: ''
                (list_relay_owners community 2 (ws_members ws))) (\<lambda>owners.
     case owners of
       [owner] \<Rightarrow> (case re_key E owner of Some p \<Rightarrow> Inr (Some p) | None \<Rightarrow> Inl ''stored owner pubkey is not valid hex'')
     | _ \<Rightarrow> Inr None)"

section \<open>Leads and routes\<close>

definition persona_of :: "json \<Rightarrow> string option" where
  "persona_of content = get_str ''persona_id'' content"

definition persona_pubkey_in_roster :: "relay_env \<Rightarrow> agent_roster \<Rightarrow> string \<Rightarrow> string + pubkey option" where
  "persona_pubkey_in_roster E roster persona =
     (case agents_where E (\<lambda>_ content. persona_of content = Some persona) roster of
        [p] \<Rightarrow> the_agent E p
      | _ \<Rightarrow> Inr None)"

text \<open>\<open>Iterator::find_map\<close>\<close>

definition find_map :: "('a \<Rightarrow> 'b option) \<Rightarrow> 'a list \<Rightarrow> 'b option" where
  "find_map f xs = (case List.map_filter f xs of [] \<Rightarrow> None | y # _ \<Rightarrow> Some y)"

definition owns_persona :: "string \<Rightarrow> json \<Rightarrow> bool" where
  "owns_persona persona team \<longleftrightarrow> (case Option.bind (json_get ''persona_ids'' team) as_array of
     None \<Rightarrow> False | Some ids \<Rightarrow> list_ex (\<lambda>i. as_str i = Some persona) ids)"

definition fetch_owner_authored_teams :: "relay_env \<Rightarrow> community_id \<Rightarrow> workspace \<Rightarrow> nat \<Rightarrow> string + agent_roster" where
  "fetch_owner_authored_teams E community ws limit =
     and_then (ws_read E [''teams''] ''database error scanning team roster: ''
                (query_latest_owner_authored_heads community KIND_TEAM limit ws))
       (\<lambda>rows. Inr (List.map_filter (roster_entry E) rows))"

definition team_lead_in_rosters ::
  "relay_env \<Rightarrow> agent_roster \<Rightarrow> agent_roster \<Rightarrow> (string \<times> AgentTier) list \<Rightarrow> pubkey \<Rightarrow> string + pubkey option" where
  "team_lead_in_rosters E heads teams role_ranks worker =
     (case find_map (\<lambda>(d, content). if d = worker then persona_of content else None) heads of
        None \<Rightarrow> Inr None
      | Some worker_persona \<Rightarrow>
         (case filter (\<lambda>(_, content). owns_persona worker_persona content) teams of
            [(_, team)] \<Rightarrow>
              (case get_str ''lead_persona_id'' team of
                 None \<Rightarrow> Inr None
               | Some lead_persona \<Rightarrow>
                   and_then (persona_pubkey_in_roster E heads lead_persona) (\<lambda>lead.
                   case lead of
                     None \<Rightarrow> Inr None
                   | Some p \<Rightarrow>
                       if find_map (\<lambda>(_, content). if persona_of content = Some lead_persona
                            then head_rank content role_ranks else None) heads \<noteq> Some Leader
                       then Inr None else Inr (Some p)))
          | _ \<Rightarrow> Inr None))"

datatype OwnerMentionRoute = KeepMention | RouteTo pubkey

definition resolve_owner_mention_route ::
  "relay_env \<Rightarrow> community_id \<Rightarrow> workspace \<Rightarrow> pubkey \<Rightarrow> string + OwnerMentionRoute" where
  "resolve_owner_mention_route E community ws actor =
     and_then (agent_tier E community ws actor) (\<lambda>tier.
     case tier of
       None \<Rightarrow> Inr KeepMention
     | Some Executive \<Rightarrow> Inr KeepMention
     | Some Leader \<Rightarrow>
         and_then (find_unique_executive E community ws) (\<lambda>executive.
         case executive of
           None \<Rightarrow> Inl (''leader '' @ actor @ '' has no unique community executive to route to (never guessing)'')
         | Some p \<Rightarrow> Inr (RouteTo p))
     | Some Worker \<Rightarrow>
         and_then (active_payroll E community ws) (\<lambda>payroll.
         and_then (fetch_role_holder_roster E community ws payroll MAX_ROSTER_HEADS) (\<lambda>heads.
         and_then (fetch_owner_authored_teams E community ws MAX_ROSTER_HEADS) (\<lambda>teams.
         and_then (team_lead_in_rosters E heads teams (pa_role_ranks payroll) actor) (\<lambda>lead.
         case lead of
           Some p \<Rightarrow> Inr (RouteTo p)
         | None \<Rightarrow>
             and_then (unique_executive_in_roster E heads payroll) (\<lambda>executive.
             case executive of
               None \<Rightarrow> Inl (''worker '' @ actor @ '' has no unique team lead or community executive to route to (never guessing)'')
             | Some p \<Rightarrow> Inr (RouteTo p)))))))"

end
