(* ===== verification/Ask_Heads.thy ===== *)
theory Ask_Heads
  imports Interrupt_Roster
begin

text \<open>
  The head of an ask (\<open>buzz-relay/src/ask_state_head.rs\<close>): a replaceable event of the relay that
  says whether the ask is open, when its deadline is and what happens then. It is published
  after the row has changed; losing it fails nothing.
\<close>

datatype ExpiryOutcome =
    ExecutesDefault string
  | PromotesTo AskPromotionTarget
  | JustRearms

fun expiry_action :: "ExpiryOutcome \<Rightarrow> AskExpiryAction" where
  "expiry_action (ExecutesDefault _) = DefaultExecutes"
| "expiry_action (PromotesTo _) = Promotes"
| "expiry_action JustRearms = Rearms"

fun outcome_fields :: "ExpiryOutcome \<Rightarrow> (string \<times> json) list" where
  "outcome_fields (ExecutesDefault option) = [(''on_expiry'', JStr (expiry_as_str DefaultExecutes)), (''default_option'', JStr option)]"
| "outcome_fields (PromotesTo target) = [(''on_expiry'', JStr (expiry_as_str Promotes)), (''promotes_to'', JStr (promotion_as_str target))]"
| "outcome_fields JustRearms = [(''on_expiry'', JStr (expiry_as_str Rearms))]"

text \<open>What the sweep will do with an ask of this audience when its deadline passes.\<close>

definition predict_expiry_outcome ::
  "relay_env \<Rightarrow> community_id \<Rightarrow> workspace \<Rightarrow> pubkey \<Rightarrow> string option \<Rightarrow> string + ExpiryOutcome" where
  "predict_expiry_outcome E community ws audience default_option =
     and_then (holds_owner E ''database error checking ask audience: '' community audience ws) (\<lambda>owner.
     if owner then Inr (case default_option of Some option \<Rightarrow> ExecutesDefault option | None \<Rightarrow> JustRearms)
     else and_then (ok_or ''internal error: audience hex is not a valid pubkey'' (re_key E audience)) (\<lambda>agent.
     and_then (agent_tier E community ws agent) (\<lambda>tier.
     case tier of
       Some Leader \<Rightarrow> map_ok (\<lambda>executive. if executive \<noteq> None then PromotesTo ToExecutive else JustRearms)
                        (find_unique_executive E community ws)
     | Some Executive \<Rightarrow> map_ok (\<lambda>owner. if owner \<noteq> None then PromotesTo ToOwner else JustRearms)
                        (find_unique_owner E community ws)
     | _ \<Rightarrow> Inr JustRearms)))"

definition ask_head_query :: "relay_env \<Rightarrow> community_id \<Rightarrow> string \<Rightarrow> EventQuery" where
  "ask_head_query E community ask = (for_community community)\<lparr>eq_kinds := Some [KIND_ASK_STATE],
     eq_pubkey := Some (re_relay_key E), eq_d_tag := Some ask, eq_limit := Some 1\<rparr>"

text \<open>Never before the head it replaces.\<close>

definition ask_head_time :: "relay_env \<Rightarrow> community_id \<Rightarrow> string \<Rightarrow> workspace \<Rightarrow> nat" where
  "ask_head_time E community ask ws =
     (case ws_query E [''ask head'', ask] [] (ask_head_query E community ask) ws of
        Inr (previous # _) \<Rightarrow> max (re_now E) (ev_created_at (se_event previous) + 1)
      | _ \<Rightarrow> re_now E)"

definition sign_store_and_fan_out_head ::
  "relay_env \<Rightarrow> community_id \<Rightarrow> string \<Rightarrow> json \<Rightarrow> workspace \<Rightarrow> workspace" where
  "sign_store_and_fan_out_head E community ask content ws =
     (let ev = re_sign E (re_relay_key E) (ask_head_time E community ask ws) KIND_ASK_STATE [new_tag [''d'', ask]] (re_write_json E content)
      in case re_fault E [''put head'', ev_id ev] of
           NotSent \<Rightarrow> ws
         | fault \<Rightarrow> (case replace_parameterized_event (re_representable E) (re_now E) community ev ask None (ws_events ws) of
             (res, db) \<Rightarrow>
                let ws' = ws\<lparr>ws_events := db\<rparr>
                in if fault = NoFault \<and> res = Inr Inserted then fan_out E community None ev ws' else ws'))"

definition open_head :: "int \<Rightarrow> (string \<times> json) list \<Rightarrow> ExpiryOutcome \<Rightarrow> json" where
  "open_head deadline extra outcome =
     JObj ([(''status'', JStr (ask_status_as_str AskOpen)), (''deadline_at'', JInt deadline)] @ extra @ outcome_fields outcome)"

definition publish_head_for_new_ask ::
  "relay_env \<Rightarrow> community_id \<Rightarrow> string \<Rightarrow> int \<Rightarrow> pubkey \<Rightarrow> string option \<Rightarrow> workspace \<Rightarrow> workspace" where
  "publish_head_for_new_ask E community ask deadline_at audience default_option ws =
     (case predict_expiry_outcome E community ws audience default_option of
        Inl _ \<Rightarrow> ws
      | Inr outcome \<Rightarrow> sign_store_and_fan_out_head E community ask (open_head deadline_at [] outcome) ws)"

definition community_host :: "relay_env \<Rightarrow> community_id \<Rightarrow> workspace \<Rightarrow> string + bool" where
  "community_host E community ws =
     ws_read E [''host''] ''database error loading community host: '' (community \<in> set (ws_hosted ws))"

definition publish_rearmed_head ::
  "relay_env \<Rightarrow> community_id \<Rightarrow> AskRow \<Rightarrow> int \<Rightarrow> int \<Rightarrow> workspace \<Rightarrow> workspace" where
  "publish_rearmed_head E community row new_deadline rearmed_at ws =
     (if community_host E community ws \<noteq> Inr True then ws
      else (case predict_expiry_outcome E community ws (ak_audience row) (ak_default row) of
          Inl _ \<Rightarrow> ws
        | Inr outcome \<Rightarrow> sign_store_and_fan_out_head E community (ak_event_id row)
            (open_head new_deadline [(''rearmed_at'', JInt rearmed_at)] outcome) ws))"

datatype AskClosure =
    ClosedResolved bool "string option"
  | ClosedWithdrawn
  | ClosedPromoted string

fun closed_status :: "AskClosure \<Rightarrow> AskStateStatus" where
  "closed_status (ClosedResolved _ _) = AskResolved"
| "closed_status ClosedWithdrawn = AskWithdrawn"
| "closed_status (ClosedPromoted _) = AskPromoted"

fun closure_fields :: "AskClosure \<Rightarrow> (string \<times> json) list" where
  "closure_fields (ClosedResolved executed option) = (''default_executed'', JBool executed)
     # (case option of Some o' \<Rightarrow> [(''default_option'', JStr o')] | None \<Rightarrow> [])"
| "closure_fields ClosedWithdrawn = []"
| "closure_fields (ClosedPromoted successor) = [(''successor_event_id'', JStr successor)]"

definition publish_closed_head :: "relay_env \<Rightarrow> community_id \<Rightarrow> string \<Rightarrow> AskClosure \<Rightarrow> workspace \<Rightarrow> workspace" where
  "publish_closed_head E community ask closure ws =
     sign_store_and_fan_out_head E community ask
       (JObj ([(''status'', JStr (ask_status_as_str (closed_status closure))), (''closed_at'', JInt (int (re_now E)))]
          @ closure_fields closure)) ws"

section \<open>What a head leaves alone\<close>

lemma sign_store_keeps [simp]:
  "ws_members (sign_store_and_fan_out_head E c a j ws) = ws_members ws"
  "ws_employees (sign_store_and_fan_out_head E c a j ws) = ws_employees ws"
  "ws_asks (sign_store_and_fan_out_head E c a j ws) = ws_asks ws"
  "ws_hosted (sign_store_and_fan_out_head E c a j ws) = ws_hosted ws"
  by (simp_all add: sign_store_and_fan_out_head_def Let_def split: db_fault.split prod.split)

lemma heads_keep [simp]:
  "ws_members (publish_head_for_new_ask E c a t p d ws) = ws_members ws"
  "ws_employees (publish_head_for_new_ask E c a t p d ws) = ws_employees ws"
  "ws_asks (publish_head_for_new_ask E c a t p d ws) = ws_asks ws"
  "ws_hosted (publish_head_for_new_ask E c a t p d ws) = ws_hosted ws"
  "ws_members (publish_rearmed_head E c row t r ws) = ws_members ws"
  "ws_employees (publish_rearmed_head E c row t r ws) = ws_employees ws"
  "ws_asks (publish_rearmed_head E c row t r ws) = ws_asks ws"
  "ws_hosted (publish_rearmed_head E c row t r ws) = ws_hosted ws"
  "ws_members (publish_closed_head E c a k ws) = ws_members ws"
  "ws_employees (publish_closed_head E c a k ws) = ws_employees ws"
  "ws_asks (publish_closed_head E c a k ws) = ws_asks ws"
  "ws_hosted (publish_closed_head E c a k ws) = ws_hosted ws"
  by (simp_all add: publish_head_for_new_ask_def publish_rearmed_head_def publish_closed_head_def split: sum.split)

end
