(* ===== verification/Ask_Broker.thy ===== *)
theory Ask_Broker
  imports Ask_Heads
begin

text \<open>
  The ask broker (\<open>buzz-relay/src/ask_broker.rs\<close>): asks are filed one rung up the ladder, one
  open ask per need, and are resolved, withdrawn or answered by an owner's reply in the thread.
  A refusal is an outcome, a failing database an error. \<open>handle_ask\<close> checks for a duplicate
  before it inserts; \<open>seen\<close> is the workspace when it checked and \<open>ws\<close> when it inserts, so that
  whatever was filed in between is part of the model.
\<close>

definition DEFAULT_ASK_WINDOW_SECS :: nat where "DEFAULT_ASK_WINDOW_SECS = 3600"

datatype AskRefusal = BadAskEvent AskParseError | AskDenied string

datatype AskBrokerOutcome =
    AskApplied
  | AskDuplicate string
  | AskRefused AskRefusal

definition is_ask_candidate :: "nevent \<Rightarrow> bool" where
  "is_ask_candidate ev \<longleftrightarrow> ev_kind ev \<in> {KIND_ASK, KIND_ASK_RESOLUTION, KIND_ASK_WITHDRAWAL}"

section \<open>The ladder\<close>

definition signed_by_relay :: "relay_env \<Rightarrow> nevent \<Rightarrow> bool" where
  "signed_by_relay E ev \<longleftrightarrow> re_durable E \<and> ev_pubkey ev = re_relay_key E"

fun rung :: "AgentTier \<Rightarrow> nat" where
  "rung Worker = 0"
| "rung Leader = 1"
| "rung Executive = 2"

definition audience_key :: "relay_env \<Rightarrow> string \<Rightarrow> string + pubkey" where
  "audience_key E audience = ok_or ''internal error: audience hex is not a valid pubkey'' (re_key E audience)"

definition audience_altitude :: "relay_env \<Rightarrow> community_id \<Rightarrow> workspace \<Rightarrow> string \<Rightarrow> string + nat option" where
  "audience_altitude E community ws audience =
     and_then (holds_owner E ''database error checking ask audience role: '' community audience ws) (\<lambda>owner.
     if owner then Inr (Some 3)
     else and_then (audience_key E audience) (\<lambda>agent.
       map_ok (map_option rung) (agent_tier E community ws agent)))"

text \<open>The reason for a refusal, if there is one.\<close>

definition check_altitude ::
  "relay_env \<Rightarrow> community_id \<Rightarrow> workspace \<Rightarrow> nevent \<Rightarrow> ParsedAsk \<Rightarrow> string + string option" where
  "check_altitude E community ws ev parsed =
     (if signed_by_relay E ev then Inr None
      else and_then (agent_tier E community ws (ev_pubkey ev)) (\<lambda>signer.
        case signer of
          None \<Rightarrow> Inr (Some ''owners answer asks; they do not file them'')
        | Some tier \<Rightarrow>
            and_then (audience_key E (ask_audience parsed)) (\<lambda>audience.
            case tier of
              Worker \<Rightarrow> map_ok (\<lambda>t. if t \<noteq> Some Leader then Some ''workers may only raise asks to their own leader'' else None)
                          (agent_tier E community ws audience)
            | Leader \<Rightarrow> map_ok (\<lambda>t. if t \<noteq> Some Executive then Some ''leaders may only escalate asks to the executive'' else None)
                          (agent_tier E community ws audience)
            | Executive \<Rightarrow> map_ok (\<lambda>owner. if \<not> owner then Some ''the executive may only file asks to a community owner'' else None)
                          (holds_owner E ''database error checking ask audience: '' community (ask_audience parsed) ws))))"

definition resolve_filer :: "relay_env \<Rightarrow> nevent \<Rightarrow> ParsedAsk \<Rightarrow> string + pubkey" where
  "resolve_filer E ev parsed =
     (if \<not> signed_by_relay E ev then Inr (ev_pubkey ev)
      else (case ask_filer parsed of
          Some hex \<Rightarrow> ok_or ''internal error: filer hex is not a valid pubkey'' (re_key E hex)
        | None \<Rightarrow> Inr (ev_pubkey ev)))"

section \<open>Receipts\<close>

text \<open>A message of the relay into the thread the filer waits in, naming the filer.\<close>

definition emit_ask_receipt ::
  "relay_env \<Rightarrow> community_id \<Rightarrow> string \<Rightarrow> string \<Rightarrow> pubkey \<Rightarrow> uuid option \<Rightarrow> workspace \<Rightarrow> workspace" where
  "emit_ask_receipt E community origin content blocked ask_channel ws =
     (case hex_decode origin of
        None \<Rightarrow> ws
      | Some root_id \<Rightarrow>
         (case ws_read E [''origin'', root_id] [] (get_event_by_id community root_id (ws_events ws)) of
            Inr (Some root) \<Rightarrow>
              (case se_channel_id root of
                 None \<Rightarrow> ws
               | Some channel \<Rightarrow>
                   if ask_channel \<noteq> Some channel \<and> \<not> re_may_post E channel blocked then ws
                   else store_and_fan_out E community
                          (relay_event E KIND_STREAM_MESSAGE
                            [new_tag [''h'', re_show_uuid E channel], new_tag [''e'', origin, [], ''root''], new_tag [''p'', blocked]]
                            content)
                          (Some channel) (Some channel) ws)
          | _ \<Rightarrow> ws))"

section \<open>Filing\<close>

definition company_ask_window_secs :: "relay_env \<Rightarrow> community_id \<Rightarrow> workspace \<Rightarrow> nat" where
  "company_ask_window_secs E community ws =
     (case ws_query E [''company''] [] ((for_community community)\<lparr>eq_kinds := Some [KIND_COMPANY_PROFILE],
              eq_pubkey := Some (re_relay_key E), eq_global_only := True, eq_limit := Some 1\<rparr>) ws of
        Inr (se # _) \<Rightarrow>
          (case re_read_json E (ev_content (se_event se)) of
             Inl _ \<Rightarrow> DEFAULT_ASK_WINDOW_SECS
           | Inr content \<Rightarrow> (case Option.bind (json_get ''ask_window_secs'' content) as_u64 of
               Some n \<Rightarrow> n | None \<Rightarrow> DEFAULT_ASK_WINDOW_SECS))
      | _ \<Rightarrow> DEFAULT_ASK_WINDOW_SECS)"

text \<open>\<open>saturating_add\<close> of a \<open>u64\<close>, cast to an \<open>i64\<close>.\<close>

definition filing_deadline :: "nat \<Rightarrow> nat \<Rightarrow> int" where
  "filing_deadline created_at window = wrap_i64 (int (min (2 ^ 64 - 1) (created_at + min window MAX_ASK_WINDOW_SECS)))"

definition decode_hex64 :: "string option \<Rightarrow> string + string option" where
  "decode_hex64 v = (case v of None \<Rightarrow> Inr None
     | Some hex \<Rightarrow> map_ok Some (ok_or ''internal error: a validated hex64 field failed to decode'' (hex_decode hex)))"

definition ask_row_event_id :: "AskRow \<Rightarrow> string + string" where
  "ask_row_event_id row = (if length (ak_event_id row) = 64 then Inr (ak_event_id row)
     else Inl ''internal error: stored ask event id is not 32 bytes'')"

definition duplicate_of :: "AskRow \<Rightarrow> string + AskBrokerOutcome" where
  "duplicate_of row = map_ok AskDuplicate (ask_row_event_id row)"

definition chosen_window :: "relay_env \<Rightarrow> community_id \<Rightarrow> workspace \<Rightarrow> ParsedAsk \<Rightarrow> nat" where
  "chosen_window E community ws parsed =
     (case ask_window parsed of Some secs \<Rightarrow> secs | None \<Rightarrow> company_ask_window_secs E community ws)"

text \<open>The row an ask is filed as.\<close>

definition new_ask_row :: "relay_env \<Rightarrow> nat \<Rightarrow> nevent \<Rightarrow> ParsedAsk \<Rightarrow> string + NewAskRow" where
  "new_ask_row E window ev parsed =
     and_then (audience_key E (ask_audience parsed)) (\<lambda>audience.
     and_then (decode_hex64 (ask_origin_thread parsed)) (\<lambda>origin.
     and_then (decode_hex64 (ask_prior parsed)) (\<lambda>prior.
     and_then (resolve_filer E ev parsed) (\<lambda>filer.
     Inr \<lparr>nk_event_id = ev_id ev, nk_type = ask_type_as_str (ask_kind parsed), nk_initiative = ask_initiative parsed,
          nk_need = ask_need parsed, nk_audience = audience, nk_filer = filer, nk_origin_thread = origin, nk_prior = prior,
          nk_category = ask_category parsed, nk_default = ask_default parsed,
          nk_deadline = Some (filing_deadline (ev_created_at ev) window)\<rparr>))))"

definition close_superseded_prior ::
  "relay_env \<Rightarrow> community_id \<Rightarrow> string \<Rightarrow> nevent \<Rightarrow> ParsedAsk \<Rightarrow> workspace \<Rightarrow> workspace" where
  "close_superseded_prior E community prior_id successor parsed ws =
     (if \<not> re_durable E then ws
      else (case ws_read E [''prior'', prior_id] [] (find_open_ask_by_event_id community prior_id (ws_asks ws)) of
          Inr (Some prior) \<Rightarrow>
            if ak_audience prior \<noteq> ev_pubkey successor \<or> ak_type prior = ask_type_as_str Stall then ws
            else (case (audience_altitude E community ws (ak_audience prior), audience_altitude E community ws (ask_audience parsed)) of
                (Inr (Some prior_rank), Inr (Some successor_rank)) \<Rightarrow>
                  if successor_rank \<le> prior_rank then ws
                  else let withdrawal = relay_event E KIND_ASK_WITHDRAWAL [new_tag [''e'', prior_id]]
                             (re_write_json E (JObj [(''reason'', JStr (''superseded by ask '' @ ev_id successor
                               @ '', filed one tier higher; this ask is no longer waiting on anyone''))]))
                       in (case asks_call E [''supersede'', prior_id] []
                                  (withdraw_ask (int (re_now E)) community prior_id (ev_id withdrawal)) ws of
                            (Inr True, wsa) \<Rightarrow> store_and_fan_out E community withdrawal None None wsa
                          | (_, wsa) \<Rightarrow> wsa)
              | _ \<Rightarrow> ws)
        | _ \<Rightarrow> ws))"

definition file_ask ::
  "relay_env \<Rightarrow> community_id \<Rightarrow> nevent \<Rightarrow> ParsedAsk \<Rightarrow> NewAskRow \<Rightarrow> workspace \<Rightarrow> (string + AskBrokerOutcome) \<times> workspace" where
  "file_ask E community ev parsed row ws =
     (case sql_call (re_fault E [''file'', ev_id ev]) (insert_ask (int (re_now E)) community row) (ws_asks ws) of
        (Inr _, tbl) \<Rightarrow>
          let wsa = publish_head_for_new_ask E community (ev_id ev) (case nk_deadline row of Some d \<Rightarrow> d | None \<Rightarrow> 0)
                      (ask_audience parsed) (ask_default parsed) (ws\<lparr>ws_asks := tbl\<rparr>)
          in (Inr AskApplied, case nk_prior row of None \<Rightarrow> wsa
                | Some prior \<Rightarrow> close_superseded_prior E community prior ev parsed wsa)
      | (Inl UniqueViolation, tbl) \<Rightarrow>
          (and_then (ws_read E [''winner'', ev_id ev] ''database error re-checking after a filing race: ''
                      (find_open_ask_by_need community (ask_initiative parsed) (ask_need parsed) (ws_asks ws))) (\<lambda>winner.
           and_then (ok_or ''internal error: lost an insert race but no open ask now exists for this need'' winner) duplicate_of), ws)
      | (Inl e, tbl) \<Rightarrow> (Inl (''database error filing ask: '' @ re_error E e), ws\<lparr>ws_asks := tbl\<rparr>))"

definition handle_ask ::
  "relay_env \<Rightarrow> community_id \<Rightarrow> workspace \<Rightarrow> nevent \<Rightarrow> workspace \<Rightarrow> (string + AskBrokerOutcome) \<times> workspace" where
  "handle_ask E community seen ev ws =
     (case parse_ask (re_read_json E) ev of
        Inl e \<Rightarrow> (Inr (AskRefused (BadAskEvent e)), ws)
      | Inr parsed \<Rightarrow>
        (case check_altitude E community seen ev parsed of
           Inl e \<Rightarrow> (Inl e, ws)
         | Inr (Some message) \<Rightarrow> (Inr (AskRefused (AskDenied message)), ws)
         | Inr None \<Rightarrow>
           (case ws_read E [''open'', ask_need parsed] ''database error checking for a duplicate ask: ''
                   (find_open_ask_by_need community (ask_initiative parsed) (ask_need parsed) (ws_asks seen)) of
              Inl e \<Rightarrow> (Inl e, ws)
            | Inr (Some existing) \<Rightarrow> (duplicate_of existing, ws)
            | Inr None \<Rightarrow>
              (case new_ask_row E (chosen_window E community seen parsed) ev parsed of
                 Inl e \<Rightarrow> (Inl e, ws)
               | Inr row \<Rightarrow> file_ask E community ev parsed row ws))))"

end
