(* ===== verification/Ask_Answers.thy ===== *)
theory Ask_Answers
  imports Ask_Broker
begin

text \<open>
  How an open ask ends at the hands of a person or the executive (\<open>buzz-relay/src/ask_broker.rs\<close>):
  a resolution, a withdrawal, or an owner's reply in the thread the ask was raised from.
\<close>

section \<open>Waking the filer of what was superseded\<close>

definition wakes_already :: "relay_env \<Rightarrow> nevent \<Rightarrow> ParsedAsk \<Rightarrow> pubkey \<Rightarrow> bool" where
  "wakes_already E ev ask filer \<longleftrightarrow> ask_origin_thread ask \<noteq> None \<and> resolve_filer E ev ask = Inr filer"

definition stored_channel :: "relay_env \<Rightarrow> community_id \<Rightarrow> string \<Rightarrow> workspace \<Rightarrow> uuid option" where
  "stored_channel E community ask ws =
     (case ws_read E [''prior event'', ask] [] (get_event_by_id community ask (ws_events ws)) of
        Inr (Some se) \<Rightarrow> se_channel_id se | _ \<Rightarrow> None)"

definition wake_superseded_prior_filer :: "relay_env \<Rightarrow> community_id \<Rightarrow> nevent \<Rightarrow> ParsedAsk \<Rightarrow> workspace \<Rightarrow> workspace" where
  "wake_superseded_prior_filer E community ev ask ws =
     (case Option.bind (ask_prior ask) hex_decode of
        None \<Rightarrow> ws
      | Some prior_id \<Rightarrow>
        (case ws_read E [''upstream'', prior_id] [] (find_ask_by_event_id community prior_id (ws_asks ws)) of
           Inr (Some prior) \<Rightarrow>
             if ak_status prior \<noteq> ''withdrawn'' \<or> ak_audience prior \<noteq> ev_pubkey ev \<or> ak_type prior = ask_type_as_str Stall then ws
             else (case (ak_origin_thread prior, re_key E (ak_filer prior)) of
                 (Some origin, Some filer) \<Rightarrow>
                   if wakes_already E ev ask filer then ws
                   else emit_ask_receipt E community origin (''Ask resolved upstream: '' @ ask_headline ask) filer
                          (stored_channel E community (ak_event_id prior) ws) ws
               | _ \<Rightarrow> ws)
         | _ \<Rightarrow> ws))"

section \<open>Resolution\<close>

definition resolution_signer_authorized ::
  "relay_env \<Rightarrow> community_id \<Rightarrow> workspace \<Rightarrow> pubkey \<Rightarrow> string \<Rightarrow> string + bool" where
  "resolution_signer_authorized E community ws signer audience =
     (if signer = audience then Inr True
      else and_then (holds_owner E ''database error checking ask audience: '' community audience ws) (\<lambda>audience_is_owner.
        if \<not> audience_is_owner then Inr False
        else holds_owner E ''database error checking resolution signer: '' community signer ws))"

text \<open>The ask an answer refers to, with its stored event, or the refusal.\<close>

definition load_ask ::
  "relay_env \<Rightarrow> community_id \<Rightarrow> workspace \<Rightarrow> string \<Rightarrow> string + (AskRefusal + StoredEvent \<times> ParsedAsk)" where
  "load_ask E community ws ask_id =
     and_then (ws_read E [''ask'', ask_id] ''database error loading the referenced ask: ''
                (get_event_by_id community ask_id (ws_events ws))) (\<lambda>stored.
     Inr (case stored of
            None \<Rightarrow> Inl (AskDenied ''the referenced ask does not exist'')
          | Some se \<Rightarrow> (case parse_ask (re_read_json E) (se_event se) of
              Inl _ \<Rightarrow> Inl (AskDenied ''the referenced event is not a valid ask'')
            | Inr ask \<Rightarrow> Inr (se, ask))))"

definition needs_answer :: "AskType \<Rightarrow> bool" where
  "needs_answer t \<longleftrightarrow> t = Decision \<or> t = Question"

text \<open>The receipt of a closed ask goes to whoever is blocked on it.\<close>

definition wake_filer ::
  "relay_env \<Rightarrow> community_id \<Rightarrow> StoredEvent \<Rightarrow> ParsedAsk \<Rightarrow> string \<Rightarrow> workspace \<Rightarrow> (string + unit) \<times> workspace" where
  "wake_filer E community stored ask content ws =
     (case ask_origin_thread ask of
        None \<Rightarrow> (Inr (), ws)
      | Some origin \<Rightarrow>
         (case resolve_filer E (se_event stored) ask of
            Inl e \<Rightarrow> (Inl e, ws)
          | Inr blocked \<Rightarrow> (Inr (), emit_ask_receipt E community origin content blocked (se_channel_id stored) ws)))"

definition close_resolved ::
  "relay_env \<Rightarrow> community_id \<Rightarrow> nevent \<Rightarrow> ParsedResolution \<Rightarrow> string \<Rightarrow> StoredEvent \<Rightarrow> ParsedAsk \<Rightarrow> workspace
   \<Rightarrow> (string + AskBrokerOutcome) \<times> workspace" where
  "close_resolved E community ev parsed ask_id stored ask ws =
     (case asks_call E [''resolve'', ask_id] ''database error resolving ask: ''
             (resolve_ask (int (re_now E)) community ask_id (ev_id ev) (ev_pubkey ev) (pres_default_executed parsed)) ws of
        (Inl e, wsa) \<Rightarrow> (Inl e, wsa)
      | (Inr False, wsa) \<Rightarrow> (Inr (AskRefused (AskDenied ''that ask is not open'')), wsa)
      | (Inr True, wsa) \<Rightarrow>
         (case wake_filer E community stored ask (''Ask resolved: '' @ ask_headline ask)
                 (publish_closed_head E community ask_id (ClosedResolved (pres_default_executed parsed) None) wsa) of
            (Inl e, wsb) \<Rightarrow> (Inl e, wsb)
          | (Inr _, wsb) \<Rightarrow> (Inr AskApplied, wake_superseded_prior_filer E community (se_event stored) ask wsb)))"

definition handle_resolution ::
  "relay_env \<Rightarrow> community_id \<Rightarrow> nevent \<Rightarrow> workspace \<Rightarrow> (string + AskBrokerOutcome) \<times> workspace" where
  "handle_resolution E community ev ws =
     (if \<not> re_durable E then (Inl ''ask resolution requires a durable relay signing key (set BUZZ_RELAY_PRIVATE_KEY)'', ws)
      else (case parse_resolution (re_read_json E) ev of
          Inl e \<Rightarrow> (Inr (AskRefused (BadAskEvent e)), ws)
        | Inr parsed \<Rightarrow>
          (case and_then (ok_or ''internal error: a validated hex64 field failed to decode'' (hex_decode (pres_ask parsed)))
                  (\<lambda>ask_id. map_ok (Pair ask_id) (load_ask E community ws ask_id)) of
             Inl e \<Rightarrow> (Inl e, ws)
           | Inr (_, Inl refusal) \<Rightarrow> (Inr (AskRefused refusal), ws)
           | Inr (ask_id, Inr (stored, ask)) \<Rightarrow>
             (case (if ev_pubkey ev = re_relay_key E then Inr True
                    else resolution_signer_authorized E community ws (ev_pubkey ev) (ask_audience ask)) of
                Inl e \<Rightarrow> (Inl e, ws)
              | Inr False \<Rightarrow> (Inr (AskRefused (AskDenied (''only the ask'' @ [CHR 0x27] @ ''s audience, an owner, or the relay may resolve it''))), ws)
              | Inr True \<Rightarrow>
                  if needs_answer (ask_kind ask) \<and> pres_answer parsed = JNull
                  then (Inr (AskRefused (AskDenied ''decision and question asks require a non-null answer'')), ws)
                  else close_resolved E community ev parsed ask_id stored ask ws))))"

section \<open>Withdrawal\<close>

definition close_withdrawn ::
  "relay_env \<Rightarrow> community_id \<Rightarrow> nevent \<Rightarrow> ParsedWithdrawal \<Rightarrow> string \<Rightarrow> StoredEvent \<Rightarrow> ParsedAsk \<Rightarrow> workspace
   \<Rightarrow> (string + AskBrokerOutcome) \<times> workspace" where
  "close_withdrawn E community ev parsed ask_id stored ask ws =
     (case asks_call E [''withdraw'', ask_id] ''database error withdrawing ask: ''
             (withdraw_ask (int (re_now E)) community ask_id (ev_id ev)) ws of
        (Inl e, wsa) \<Rightarrow> (Inl e, wsa)
      | (Inr False, wsa) \<Rightarrow> (Inr (AskRefused (AskDenied ''that ask is not open'')), wsa)
      | (Inr True, wsa) \<Rightarrow>
          map_prod (map_ok (\<lambda>_. AskApplied)) id
            (wake_filer E community stored ask (''Ask withdrawn: '' @ wdr_reason parsed)
               (publish_closed_head E community ask_id ClosedWithdrawn wsa)))"

definition handle_withdrawal ::
  "relay_env \<Rightarrow> community_id \<Rightarrow> nevent \<Rightarrow> workspace \<Rightarrow> (string + AskBrokerOutcome) \<times> workspace" where
  "handle_withdrawal E community ev ws =
     (if \<not> re_durable E then (Inl ''ask withdrawal requires a durable relay signing key (set BUZZ_RELAY_PRIVATE_KEY)'', ws)
      else (case parse_withdrawal (re_read_json E) ev of
          Inl e \<Rightarrow> (Inr (AskRefused (BadAskEvent e)), ws)
        | Inr parsed \<Rightarrow>
          (case (if ev_pubkey ev = re_relay_key E then Inr True
                 else map_ok (\<lambda>t. t = Some Executive) (agent_tier E community ws (ev_pubkey ev))) of
             Inl e \<Rightarrow> (Inl e, ws)
           | Inr False \<Rightarrow> (Inr (AskRefused (AskDenied ''only the executive or the relay may withdraw an ask'')), ws)
           | Inr True \<Rightarrow>
             (case and_then (ok_or ''internal error: a validated hex64 field failed to decode'' (hex_decode (wdr_ask parsed)))
                     (\<lambda>ask_id. map_ok (Pair ask_id) (load_ask E community ws ask_id)) of
                Inl e \<Rightarrow> (Inl e, ws)
              | Inr (_, Inl refusal) \<Rightarrow> (Inr (AskRefused refusal), ws)
              | Inr (ask_id, Inr (stored, ask)) \<Rightarrow> close_withdrawn E community ev parsed ask_id stored ask ws))))"

definition handle_ask_event ::
  "relay_env \<Rightarrow> community_id \<Rightarrow> workspace \<Rightarrow> nevent \<Rightarrow> workspace \<Rightarrow> (string + AskBrokerOutcome) \<times> workspace" where
  "handle_ask_event E community seen ev ws =
     (if ev_kind ev = KIND_ASK then handle_ask E community seen ev ws
      else if ev_kind ev = KIND_ASK_RESOLUTION then handle_resolution E community ev ws
      else if ev_kind ev = KIND_ASK_WITHDRAWAL then handle_withdrawal E community ev ws
      else (Inl ''internal error: event is not an ask-protocol kind'', ws))"

section \<open>An owner's reply\<close>

definition wake_filer_after_auto_resolve :: "relay_env \<Rightarrow> community_id \<Rightarrow> AskRow \<Rightarrow> string \<Rightarrow> workspace \<Rightarrow> workspace" where
  "wake_filer_after_auto_resolve E community row root ws =
     (case re_key E (ak_filer row) of
        None \<Rightarrow> ws
      | Some filer \<Rightarrow>
         (case ws_read E [''answered'', ak_event_id row] [] (get_event_by_id community (ak_event_id row) (ws_events ws)) of
            Inr (Some stored) \<Rightarrow>
              emit_ask_receipt E community root
                (''Ask resolved: '' @ (case parse_ask (re_read_json E) (se_event stored) of Inr ask \<Rightarrow> ask_headline ask | Inl _ \<Rightarrow> []))
                filer (se_channel_id stored) ws
          | _ \<Rightarrow> ws))"

definition try_resolve_one_candidate ::
  "relay_env \<Rightarrow> community_id \<Rightarrow> AskRow \<Rightarrow> nevent \<Rightarrow> string \<Rightarrow> workspace \<Rightarrow> (string + unit) \<times> workspace" where
  "try_resolve_one_candidate E community row ev root ws =
     (case holds_owner E ''database error checking ask audience for auto-resolve: '' community (ak_audience row) ws of
        Inl e \<Rightarrow> (Inl e, ws)
      | Inr False \<Rightarrow> (Inr (), ws)
      | Inr True \<Rightarrow>
         (case asks_call E [''resolve'', ak_event_id row] ''database error auto-resolving ask from reply: ''
                 (resolve_ask (int (re_now E)) community (ak_event_id row) (ev_id ev) (ev_pubkey ev) False) ws of
            (Inl e, wsa) \<Rightarrow> (Inl e, wsa)
          | (Inr False, wsa) \<Rightarrow> (Inr (), wsa)
          | (Inr True, wsa) \<Rightarrow> (Inr (), wake_filer_after_auto_resolve E community row root
               (publish_closed_head E community (ak_event_id row) (ClosedResolved False None) wsa))))"

definition try_auto_resolve_from_reply ::
  "relay_env \<Rightarrow> community_id \<Rightarrow> nevent \<Rightarrow> workspace \<Rightarrow> (string + unit) \<times> workspace" where
  "try_auto_resolve_from_reply E community ev ws =
     (if ev_kind ev \<noteq> KIND_STREAM_MESSAGE \<and> ev_kind ev \<noteq> KIND_STREAM_MESSAGE_V2 then (Inr (), ws)
      else (case holds_owner E ''database error checking owner role for auto-resolve: '' community (ev_pubkey ev) ws of
          Inl e \<Rightarrow> (Inl e, ws)
        | Inr False \<Rightarrow> (Inr (), ws)
        | Inr True \<Rightarrow>
          (case extract_thread_root ev of
             None \<Rightarrow> (Inr (), ws)
           | Some root \<Rightarrow>
             (case ws_read E [''bound'', root] ''database error loading asks bound to this thread for auto-resolve: ''
                     (find_open_asks_by_thread community root (ws_asks ws)) of
                Inl e \<Rightarrow> (Inl e, ws)
              | Inr candidates \<Rightarrow>
                  (Inr (), fold (\<lambda>row ws. snd (try_resolve_one_candidate E community row ev root ws)) candidates ws)))))"

end
