(* ===== verification/Ask_Sweep.thy ===== *)
theory Ask_Sweep
  imports Ask_Answers
begin

text \<open>
  The sweep over asks whose deadline has passed (\<open>buzz-relay/src/interrupt_runtime.rs\<close>): an ask
  before an owner takes its stated default, one before an agent goes one rung up, and whatever
  cannot be decided is armed again, so that it does not hold up the asks behind it. A row is
  claimed by one conditional statement before anything else is done about it.
\<close>

definition MIN_REDEADLINE_WINDOW_SECS :: int where "MIN_REDEADLINE_WINDOW_SECS = 60"

record InterruptTickStats =
  ts_promoted :: nat
  ts_defaults_executed :: nat

section \<open>Arming again\<close>

definition saturating_add_i64 :: "int \<Rightarrow> int \<Rightarrow> int" where
  "saturating_add_i64 a b = max (- (2 ^ 63)) (min (2 ^ 63 - 1) (a + b))"

definition rearmed_deadline :: "int \<Rightarrow> int \<Rightarrow> AskRow \<Rightarrow> int" where
  "rearmed_deadline now_secs deadline row =
     saturating_add_i64 now_secs (max (wrap_i64 (deadline - ak_created_at row)) MIN_REDEADLINE_WINDOW_SECS)"

definition redeadline ::
  "relay_env \<Rightarrow> community_id \<Rightarrow> AskRow \<Rightarrow> int \<Rightarrow> workspace \<Rightarrow> (string + unit) \<times> workspace" where
  "redeadline E community row now_secs ws =
     (case ak_deadline row of
        None \<Rightarrow> (Inl ''internal error: a due ask row has no deadline'', ws)
      | Some deadline \<Rightarrow>
         (case asks_call E [''rearm'', ak_event_id row] ''database error extending ask deadline: ''
                 (extend_ask_deadline (int (re_now E)) community (ak_event_id row) (rearmed_deadline now_secs deadline row)) ws of
            (Inl e, wsa) \<Rightarrow> (Inl e, wsa)
          | (Inr _, wsa) \<Rightarrow> (Inr (), publish_rearmed_head E community row (rearmed_deadline now_secs deadline row) now_secs wsa)))"

section \<open>An ask whose event is gone\<close>

definition close_ask_with_no_backing_event ::
  "relay_env \<Rightarrow> community_id \<Rightarrow> AskRow \<Rightarrow> workspace \<Rightarrow> (string + unit) \<times> workspace" where
  "close_ask_with_no_backing_event E community row ws =
     (let withdrawal = relay_event E KIND_ASK_WITHDRAWAL [new_tag [''e'', ak_event_id row]]
            (re_write_json E (JObj [(''reason'', JStr (''closed by the relay: this ask'' @ [CHR 0x27] @ ''s own event (id ''
               @ ak_event_id row @ '') could not be loaded -- it was never stored, or has been deleted since -- ''
               @ ''so the ask could not be answered, withdrawn, or re-filed. Releasing the need so it can be raised again.''))]))
      in case asks_call E [''release'', ak_event_id row] ''database error closing an ask with no backing event: ''
                (withdraw_ask (int (re_now E)) community (ak_event_id row) (ev_id withdrawal)) ws of
           (Inl e, wsa) \<Rightarrow> (Inl e, wsa)
         | (Inr False, wsa) \<Rightarrow> (Inr (), wsa)
         | (Inr True, wsa) \<Rightarrow> (Inr (), store_and_fan_out E community withdrawal None None
               (publish_closed_head E community (ak_event_id row) ClosedWithdrawn wsa)))"

section \<open>A stated default\<close>

definition default_resolution :: "relay_env \<Rightarrow> AskRow \<Rightarrow> string \<Rightarrow> nevent" where
  "default_resolution E row option = relay_event E KIND_ASK_RESOLUTION [new_tag [''e'', ak_event_id row]]
     (re_write_json E (JObj [(''answer'', JObj [(''option'', JStr option)]), (''default_executed'', JBool True)]))"

definition execute_default ::
  "relay_env \<Rightarrow> community_id \<Rightarrow> AskRow \<Rightarrow> StoredEvent \<Rightarrow> string \<Rightarrow> InterruptTickStats \<Rightarrow> workspace
   \<Rightarrow> (string + InterruptTickStats) \<times> workspace" where
  "execute_default E community row stored option stats ws =
     (case parse_ask (re_read_json E) (se_event stored) of
        Inl _ \<Rightarrow> (Inl ''stored ask event failed to parse'', ws)
      | Inr ask \<Rightarrow>
         (case asks_call E [''default'', ak_event_id row] ''database error resolving ask with default: ''
                 (resolve_ask (int (re_now E)) community (ak_event_id row) (ev_id (default_resolution E row option))
                    (re_relay_key E) True) ws of
            (Inl e, wsa) \<Rightarrow> (Inl e, wsa)
          | (Inr False, wsa) \<Rightarrow> (Inr stats, wsa)
          | (Inr True, wsa) \<Rightarrow>
              let wsb = snd (relay_store E community (default_resolution E row option) None
                          (publish_closed_head E community (ak_event_id row) (ClosedResolved True (Some option)) wsa));
                  counted = stats\<lparr>ts_defaults_executed := Suc (ts_defaults_executed stats)\<rparr>
              in case ak_origin_thread row of
                   None \<Rightarrow> (Inr counted, wsb)
                 | Some origin \<Rightarrow>
                    (case re_key E (ak_filer row) of
                       None \<Rightarrow> (Inl ''stored filer pubkey is invalid'', wsb)
                     | Some filer \<Rightarrow> (Inr counted, emit_ask_receipt E community origin
                         (''Default executed: '' @ ask_headline ask @ '' -> '' @ option) filer (se_channel_id stored) wsb))))"

section \<open>One rung up\<close>

definition names_promotion :: "tag \<Rightarrow> bool" where
  "names_promotion t \<longleftrightarrow> (case tag_slice t of [] \<Rightarrow> False | n # _ \<Rightarrow> n \<in> {''p'', ''prior'', ''filer''})"

definition promoted_ask :: "relay_env \<Rightarrow> nevent \<Rightarrow> pubkey \<Rightarrow> pubkey \<Rightarrow> nevent" where
  "promoted_ask E ask target filer =
     relay_event E KIND_ASK (filter (\<lambda>t. \<not> names_promotion t) (ev_tags ask)
       @ [new_tag [''p'', target], new_tag [''prior'', ev_id ask], new_tag [''filer'', filer]]) (ev_content ask)"

definition reopen_after_promotion_failure ::
  "relay_env \<Rightarrow> community_id \<Rightarrow> AskRow \<Rightarrow> string \<Rightarrow> workspace \<Rightarrow> workspace" where
  "reopen_after_promotion_failure E community row promoted_event_id ws =
     snd (asks_call E [''reopen'', ak_event_id row] []
            (reopen_promoted_ask (int (re_now E)) community (ak_event_id row) promoted_event_id) ws)"

text \<open>What follows the claim: the successor is filed like any ask.\<close>

definition file_promoted_ask ::
  "relay_env \<Rightarrow> community_id \<Rightarrow> AskRow \<Rightarrow> StoredEvent \<Rightarrow> nevent \<Rightarrow> InterruptTickStats \<Rightarrow> workspace \<Rightarrow> workspace
   \<Rightarrow> (string + InterruptTickStats) \<times> workspace" where
  "file_promoted_ask E community row stored ev stats seen ws =
     (case handle_ask_event E community seen ev ws of
        (Inl e, wsa) \<Rightarrow> (Inl e, reopen_after_promotion_failure E community row (ev_id ev) wsa)
      | (Inr (AskRefused _), wsa) \<Rightarrow>
          (Inl ''internal error: relay-signed promotion was refused'', reopen_after_promotion_failure E community row (ev_id ev) wsa)
      | (Inr (AskDuplicate _), wsa) \<Rightarrow> (Inr stats, wsa)
      | (Inr AskApplied, wsa) \<Rightarrow>
          (Inr (stats\<lparr>ts_promoted := Suc (ts_promoted stats)\<rparr>),
           store_and_fan_out E community ev (se_channel_id stored) (se_channel_id stored) wsa))"

definition promote_to ::
  "relay_env \<Rightarrow> community_id \<Rightarrow> AskRow \<Rightarrow> StoredEvent \<Rightarrow> pubkey \<Rightarrow> InterruptTickStats \<Rightarrow> workspace
   \<Rightarrow> (string + InterruptTickStats) \<times> workspace" where
  "promote_to E community row stored target stats ws =
     (case re_key E (ak_filer row) of
        None \<Rightarrow> (Inl ''stored filer pubkey is invalid'', ws)
      | Some filer \<Rightarrow>
         let ev = promoted_ask E (se_event stored) target filer
         in case asks_call E [''promote'', ak_event_id row] ''database error marking ask promoted: ''
                   (mark_ask_promoted (int (re_now E)) community (ak_event_id row) (ev_id ev)) ws of
              (Inl e, wsa) \<Rightarrow> (Inl e, wsa)
            | (Inr False, wsa) \<Rightarrow> (Inr stats, wsa)
            | (Inr True, wsa) \<Rightarrow>
                let wsb = publish_closed_head E community (ak_event_id row) (ClosedPromoted (ev_id ev)) wsa
                in file_promoted_ask E community row stored ev stats wsb wsb)"

definition promote_or_redeadline ::
  "relay_env \<Rightarrow> community_id \<Rightarrow> AskRow \<Rightarrow> StoredEvent \<Rightarrow> int \<Rightarrow> InterruptTickStats \<Rightarrow> workspace
   \<Rightarrow> (string + InterruptTickStats) \<times> workspace" where
  "promote_or_redeadline E community row stored now_secs stats ws =
     (let declined = (\<lambda>_::unit. map_prod (map_ok (\<lambda>_. stats)) id (redeadline E community row now_secs ws));
          next_rung = and_then (ok_or ''stored audience pubkey is invalid'' (re_key E (ak_audience row))) (\<lambda>audience.
            and_then (agent_tier E community ws audience) (\<lambda>tier.
            case tier of
              Some Leader \<Rightarrow> find_unique_executive E community ws
            | Some Executive \<Rightarrow> find_unique_owner E community ws
            | _ \<Rightarrow> Inr None))
      in case next_rung of
           Inl e \<Rightarrow> (Inl e, ws)
         | Inr None \<Rightarrow> declined ()
         | Inr (Some target) \<Rightarrow> promote_to E community row stored target stats ws)"

section \<open>A pass\<close>

definition process_due_ask ::
  "relay_env \<Rightarrow> AskRow \<Rightarrow> int \<Rightarrow> InterruptTickStats \<Rightarrow> workspace \<Rightarrow> (string + InterruptTickStats) \<times> workspace" where
  "process_due_ask E row now_secs stats ws =
     (let community = ak_community row in
      case ws_read E [''due host'', ak_event_id row] ''database error loading community host: '' (community \<in> set (ws_hosted ws)) of
        Inl e \<Rightarrow> (Inl e, ws)
      | Inr False \<Rightarrow> map_prod (map_ok (\<lambda>_. stats)) id (redeadline E community row now_secs ws)
      | Inr True \<Rightarrow>
        (case ws_read E [''due event'', ak_event_id row] ''database error loading ask event: ''
                (get_event_by_id community (ak_event_id row) (ws_events ws)) of
           Inl e \<Rightarrow> (Inl e, ws)
         | Inr None \<Rightarrow> (Inl ''ask row exists with no backing event'', snd (close_ask_with_no_backing_event E community row ws))
         | Inr (Some stored) \<Rightarrow>
           (case holds_owner E ''database error checking ask audience: '' community (ak_audience row) ws of
              Inl e \<Rightarrow> (Inl e, ws)
            | Inr True \<Rightarrow>
               (case ak_default row of
                  Some option \<Rightarrow> execute_default E community row stored option stats ws
                | None \<Rightarrow> map_prod (map_ok (\<lambda>_. stats)) id (redeadline E community row now_secs ws))
            | Inr False \<Rightarrow> promote_or_redeadline E community row stored now_secs stats ws)))"

text \<open>One row's failure is logged and the next is taken.\<close>

fun process_due_asks :: "relay_env \<Rightarrow> int \<Rightarrow> AskRow list \<Rightarrow> InterruptTickStats \<Rightarrow> workspace \<Rightarrow> InterruptTickStats \<times> workspace" where
  "process_due_asks E now_secs [] stats ws = (stats, ws)"
| "process_due_asks E now_secs (row # due) stats ws =
     (case process_due_ask E row now_secs stats ws of
        (Inl _, ws') \<Rightarrow> process_due_asks E now_secs due stats ws'
      | (Inr stats', ws') \<Rightarrow> process_due_asks E now_secs due stats' ws')"

definition run_interrupt_tick ::
  "relay_env \<Rightarrow> int \<Rightarrow> nat \<Rightarrow> workspace \<Rightarrow> (string + InterruptTickStats) \<times> workspace" where
  "run_interrupt_tick E now_secs batch_limit ws =
     (if \<not> re_durable E then (Inl ''interrupt sweep requires a durable relay signing key (set BUZZ_RELAY_PRIVATE_KEY)'', ws)
      else (case ws_read E [''due''] ''database error querying due asks: '' (query_due_asks now_secs batch_limit (ws_asks ws)) of
          Inl e \<Rightarrow> (Inl e, ws)
        | Inr due \<Rightarrow> (case process_due_asks E now_secs due \<lparr>ts_promoted = 0, ts_defaults_executed = 0\<rparr> ws of
            (stats, ws') \<Rightarrow> (Inr stats, ws'))))"

section \<open>Promotions that never arrived\<close>

definition MAX_ORPHANED_PROMOTIONS :: nat where "MAX_ORPHANED_PROMOTIONS = 100"

definition reopen_orphan :: "relay_env \<Rightarrow> AskRow \<Rightarrow> workspace \<Rightarrow> workspace" where
  "reopen_orphan E row ws =
     (case ak_resolution row of
        None \<Rightarrow> ws
      | Some successor \<Rightarrow> snd (asks_call E [''orphan'', ak_event_id row] []
          (reopen_promoted_ask (int (re_now E)) (ak_community row) (ak_event_id row) successor) ws))"

definition reopen_orphaned_promotions :: "relay_env \<Rightarrow> int \<Rightarrow> int \<Rightarrow> workspace \<Rightarrow> workspace" where
  "reopen_orphaned_promotions E now_secs stall_after_secs ws =
     (case ws_read E [''orphans''] [] (query_orphaned_promoted_asks (saturating_add_i64 now_secs (- stall_after_secs))
              MAX_ORPHANED_PROMOTIONS (ws_asks ws)) of
        Inl _ \<Rightarrow> ws
      | Inr orphans \<Rightarrow> fold (reopen_orphan E) orphans ws)"

end
