(* ===== verification/Employee_Broker.thy ===== *)
theory Employee_Broker
  imports Ask_Answers
begin

text \<open>
  The employee broker (\<open>buzz-relay/src/employee_broker.rs\<close>): a hire mints a key and a row and may
  close the ask it answers; an update is checked against the reporting lines and changes the row
  before the head. The keypair and the sealing of its secret (\<open>employee_key.rs\<close>, AES-GCM) are the
  record \<open>key_env\<close>; keys are named by their public half. \<open>seen\<close> is the workspace a handler read
  and \<open>ws\<close> the one it writes. Refusals carry a shorter text than the code's.
\<close>

record key_env =
  ke_configured :: bool
  ke_new :: pubkey
  ke_seal :: "community_id \<Rightarrow> pubkey \<Rightarrow> string + string"
  ke_open :: "community_id \<Rightarrow> string \<Rightarrow> string \<Rightarrow> string + pubkey"

datatype HireOutcome = Hired | AlreadyHired | RoleTaken

datatype UpdateOutcome = EmployeeUpdated | EmployeeRetired | NoActiveRow

definition key_not_configured :: string where
  "key_not_configured = ''employee key sealing is not configured (set BUZZ_EMPLOYEE_KEK)''"

definition open_employee_keys :: "key_env \<Rightarrow> community_id \<Rightarrow> EmployeeRow \<Rightarrow> string + pubkey" where
  "open_employee_keys K community row =
     (if \<not> ke_configured K then Inl key_not_configured
      else if length (em_pubkey row) \<noteq> 64 then Inl ''stored employee pubkey is not 32 bytes''
      else ke_open K community (em_pubkey row) (em_sealed_key row))"

section \<open>Heads\<close>

record HeadFields =
  hf_role_id :: string
  hf_display_name :: string
  hf_rank :: AgentTier
  hf_manager :: "string option"
  hf_hired_by :: "string option"
  hf_hire_event :: "string option"
  hf_provisioned :: "(string \<times> int) option"

definition tag_of_option :: "string \<Rightarrow> string option \<Rightarrow> tag list" where
  "tag_of_option name v = (case v of None \<Rightarrow> [] | Some s \<Rightarrow> [new_tag [name, s]])"

definition employee_head_tags :: "pubkey \<Rightarrow> HeadFields \<Rightarrow> tag list" where
  "employee_head_tags keys f =
     [new_tag [''d'', keys], new_tag [''role'', hf_role_id f], new_tag [''name'', hf_display_name f],
      new_tag [''rank'', agent_tier_as_str (hf_rank f)]]
     @ tag_of_option ''hired-by'' (hf_hired_by f) @ tag_of_option ''e'' (hf_hire_event f)
     @ (case hf_provisioned f of None \<Rightarrow> []
        | Some (handle, v) \<Rightarrow> [new_tag [''provisioned'', handle], new_tag [''version'', show_int v]])
     @ tag_of_option ''manager'' (hf_manager f)"

text \<open>The fan-out does not wait for the insert to succeed.\<close>

definition publish_employee_head :: "relay_env \<Rightarrow> community_id \<Rightarrow> pubkey \<Rightarrow> HeadFields \<Rightarrow> workspace \<Rightarrow> workspace" where
  "publish_employee_head E community keys f ws =
     (let ev = re_sign E keys (re_now E) KIND_EMPLOYEE (employee_head_tags keys f) []
      in fan_out E community None ev (snd (relay_store E community ev None ws)))"

definition new_hire_fields :: "ParsedHireRequest \<Rightarrow> nevent \<Rightarrow> HeadFields" where
  "new_hire_fields request ev =
     \<lparr>hf_role_id = hq_role_id request, hf_display_name = hq_display_name request, hf_rank = hq_rank request,
      hf_manager = Option.bind (hq_manager request) hex_decode, hf_hired_by = Some (ev_pubkey ev),
      hf_hire_event = Some (ev_id ev), hf_provisioned = None\<rparr>"

definition row_fields :: "EmployeeRow \<Rightarrow> AgentTier \<Rightarrow> HeadFields" where
  "row_fields row rank =
     \<lparr>hf_role_id = em_role_id row, hf_display_name = em_display_name row, hf_rank = rank,
      hf_manager = em_manager row, hf_hired_by = em_hired_by row, hf_hire_event = em_hire_event row,
      hf_provisioned = (case (em_provisioned_handle row, em_provisioned_version row) of
         (Some handle, Some v) \<Rightarrow> Some (handle, v) | _ \<Rightarrow> None)\<rparr>"

definition republish_employee_head :: "relay_env \<Rightarrow> community_id \<Rightarrow> pubkey \<Rightarrow> EmployeeRow \<Rightarrow> workspace \<Rightarrow> workspace" where
  "republish_employee_head E community keys row ws =
     (case agent_tier_parse (em_rank row) of
        None \<Rightarrow> ws
      | Some rank \<Rightarrow> publish_employee_head E community keys (row_fields row rank) ws)"

section \<open>The ask a hire answers\<close>

definition HIRING_CATEGORY :: string where "HIRING_CATEGORY = ''hiring''"

definition select_hiring_ask :: "HireOutcome \<Rightarrow> AskRow option \<Rightarrow> AskRow list \<Rightarrow> AskRow option" where
  "select_hiring_ask outcome explicit candidates =
     (if outcome \<noteq> Hired then None
      else case explicit of
          Some row \<Rightarrow> Some row
        | None \<Rightarrow> (case candidates of [row] \<Rightarrow> Some row | _ \<Rightarrow> None))"

definition explicit_open_ask :: "relay_env \<Rightarrow> community_id \<Rightarrow> nevent \<Rightarrow> workspace \<Rightarrow> string + AskRow option" where
  "explicit_open_ask E community hire ws =
     (case optional_tag hire ''e'' of
        Inr (Some t) \<Rightarrow>
          (case hex_decode t of
             None \<Rightarrow> Inr None
           | Some ask \<Rightarrow> ws_read E [''explicit'', ask] [] (find_open_ask_by_event_id community ask (ws_asks ws)))
      | _ \<Rightarrow> Inr None)"

definition hire_resolution :: "relay_env \<Rightarrow> AskRow \<Rightarrow> ParsedHireRequest \<Rightarrow> pubkey \<Rightarrow> nevent" where
  "hire_resolution E row request keys = relay_event E KIND_ASK_RESOLUTION [new_tag [''e'', ak_event_id row]]
     (re_write_json E (JObj [(''answer'', JObj [(''hired'', JObj [(''role'', JStr (hq_role_id request)),
         (''name'', JStr (hq_display_name request)), (''pubkey'', JStr keys)])]), (''default_executed'', JBool False)]))"

definition wake_hiring_filer :: "relay_env \<Rightarrow> community_id \<Rightarrow> AskRow \<Rightarrow> ParsedHireRequest \<Rightarrow> workspace \<Rightarrow> workspace" where
  "wake_hiring_filer E community row request ws =
     (case (ak_origin_thread row, re_key E (ak_filer row)) of
        (Some origin, Some filer) \<Rightarrow>
          (case ws_read E [''hiring ask'', ak_event_id row] [] (get_event_by_id community (ak_event_id row) (ws_events ws)) of
             Inl _ \<Rightarrow> ws
           | Inr stored \<Rightarrow> emit_ask_receipt E community origin
               (''Hired '' @ hq_display_name request @ '' as '' @ hq_role_id request @ ''. You asked for this; you can carry on.'')
               filer (Option.bind stored se_channel_id) ws)
      | _ \<Rightarrow> ws)"

definition resolve_hiring_ask_for_hire ::
  "relay_env \<Rightarrow> community_id \<Rightarrow> nevent \<Rightarrow> HireOutcome \<Rightarrow> ParsedHireRequest \<Rightarrow> pubkey \<Rightarrow> workspace \<Rightarrow> workspace" where
  "resolve_hiring_ask_for_hire E community hire outcome request keys ws =
     (if \<not> re_durable E then ws
      else (case and_then (explicit_open_ask E community hire ws) (\<lambda>explicit.
              map_ok (select_hiring_ask outcome explicit)
                (ws_read E [''hiring'', ev_id hire] []
                   (find_open_asks_by_category_and_audience community HIRING_CATEGORY (ev_pubkey hire) (ws_asks ws)))) of
          Inr (Some row) \<Rightarrow>
            let resolution = hire_resolution E row request keys
            in (case asks_call E [''hire resolves'', ak_event_id row] []
                      (resolve_ask (int (re_now E)) community (ak_event_id row) (ev_id resolution) (ev_pubkey hire) False) ws of
                  (Inr True, wsa) \<Rightarrow> wake_hiring_filer E community row request
                    (snd (relay_store E community resolution None
                       (publish_closed_head E community (ak_event_id row) (ClosedResolved False None) wsa)))
                | (_, wsa) \<Rightarrow> wsa)
        | _ \<Rightarrow> ws))"

section \<open>Hiring\<close>

definition validate_manager_for_rank ::
  "relay_env \<Rightarrow> community_id \<Rightarrow> workspace \<Rightarrow> AgentTier \<Rightarrow> string \<Rightarrow> pubkey option \<Rightarrow> string + unit" where
  "validate_manager_for_rank E community ws new_rank manager_hex subject =
     and_then (ok_or (''update refused: manager `'' @ manager_hex @ ''` is not a valid pubkey'') (re_key E manager_hex)) (\<lambda>manager.
     if Some manager = subject then Inl ''update refused: an agent cannot be its own manager''
     else and_then (agent_tier E community ws manager) (\<lambda>tier.
       case tier of
         None \<Rightarrow> Inl (''manager refused: '' @ manager_hex @ '' has no resolvable place in this community'')
       | Some actual \<Rightarrow>
           if actual \<noteq> escalation_target new_rank
           then Inl (''manager refused: '' @ manager_hex @ '' is rank `'' @ agent_tier_as_str actual @ ''`'')
           else Inr ()))"

definition hire_manager :: "relay_env \<Rightarrow> community_id \<Rightarrow> workspace \<Rightarrow> ParsedHireRequest \<Rightarrow> string + string option" where
  "hire_manager E community ws request =
     (if hq_rank request = Executive then
        (if hq_manager request \<noteq> None then Inl ''hire refused: executives carry no manager'' else Inr None)
      else (case hq_manager request of
          None \<Rightarrow> Inr None
        | Some manager_hex \<Rightarrow>
            and_then (validate_manager_for_rank E community ws (hq_rank request) manager_hex None) (\<lambda>_.
              map_ok Some (ok_or ''internal error: a validated hex64 field failed to decode'' (hex_decode manager_hex)))))"

definition record_hire ::
  "relay_env \<Rightarrow> key_env \<Rightarrow> community_id \<Rightarrow> nevent \<Rightarrow> ParsedHireRequest \<Rightarrow> string option \<Rightarrow> string \<Rightarrow> workspace
   \<Rightarrow> (string + HireOutcome) \<times> workspace" where
  "record_hire E K community ev request manager sealed ws =
     (case sql_call (re_fault E [''hire'', ev_id ev])
             (insert_employee (int (re_now E)) community
                \<lparr>ne_pubkey = ke_new K, ne_sealed_key = sealed, ne_role_id = hq_role_id request,
                 ne_display_name = hq_display_name request, ne_rank = agent_tier_as_str (hq_rank request),
                 ne_hired_by = ev_pubkey ev, ne_hire_event = ev_id ev, ne_manager = manager\<rparr>)
             (ws_employees ws) of
        (Inl e, tbl) \<Rightarrow> (Inl (''database error recording the hire: '' @ re_error E e), ws\<lparr>ws_employees := tbl\<rparr>)
      | (Inr None, tbl) \<Rightarrow> (Inr RoleTaken, ws\<lparr>ws_employees := tbl\<rparr>)
      | (Inr (Some _), tbl) \<Rightarrow>
          (Inr Hired, resolve_hiring_ask_for_hire E community ev Hired request (ke_new K)
             (publish_employee_head E community (ke_new K) (new_hire_fields request ev) (ws\<lparr>ws_employees := tbl\<rparr>))))"

definition handle_hire_request ::
  "relay_env \<Rightarrow> key_env \<Rightarrow> community_id \<Rightarrow> workspace \<Rightarrow> nevent \<Rightarrow> workspace \<Rightarrow> (string + HireOutcome) \<times> workspace" where
  "handle_hire_request E K community seen ev ws =
     (case parse_hire_request ev of
        Inl _ \<Rightarrow> (Inl ''invalid hire request'', ws)
      | Inr request \<Rightarrow>
        (case holds_owner E ''database error checking hire authority: '' community (ev_pubkey ev) seen of
           Inl e \<Rightarrow> (Inl e, ws)
         | Inr False \<Rightarrow> (Inl (''hire refused: '' @ ev_pubkey ev @ '' is not an owner of this community''), ws)
         | Inr True \<Rightarrow>
           (case hire_manager E community seen request of
              Inl e \<Rightarrow> (Inl e, ws)
            | Inr manager \<Rightarrow>
                if \<not> ke_configured K then (Inl key_not_configured, ws)
                else (case ws_read E [''prior hire'', ev_id ev] ''database error looking up prior hire: ''
                            (find_employee_by_hire_event community (ev_id ev) (ws_employees seen)) of
                    Inl e \<Rightarrow> (Inl e, ws)
                  | Inr (Some existing) \<Rightarrow>
                      (case open_employee_keys K community existing of
                         Inl e \<Rightarrow> (Inl e, ws)
                       | Inr keys \<Rightarrow> (Inr AlreadyHired, republish_employee_head E community keys existing ws))
                  | Inr None \<Rightarrow>
                      (case ke_seal K community (ke_new K) of
                         Inl e \<Rightarrow> (Inl (''could not seal the employee key: '' @ e), ws)
                       | Inr sealed \<Rightarrow> record_hire E K community ev request manager sealed ws)))))"

section \<open>Reports\<close>

definition MAX_REPORT_HEADS :: int where "MAX_REPORT_HEADS = 200"

definition report_d_tag :: "StoredEvent \<Rightarrow> string option" where
  "report_d_tag se = find_map (\<lambda>t. if tag_kind t = ''d'' then tag_content t else None) (ev_tags (se_event se))"

text \<open>Keyed by the d tag alone; the first of a key is kept.\<close>

definition newest_by_d :: "StoredEvent list \<Rightarrow> (string \<times> StoredEvent) list" where
  "newest_by_d rows = fold (\<lambda>se m. case report_d_tag se of
       None \<Rightarrow> m
     | Some d \<Rightarrow> if map_of m d = None then m @ [(d, se)] else m) rows []"

definition head_still_names_manager ::
  "relay_env \<Rightarrow> community_id \<Rightarrow> workspace \<Rightarrow> kind \<Rightarrow> string \<Rightarrow> pubkey \<Rightarrow> string + bool" where
  "head_still_names_manager E community ws k d manager =
     map_ok (\<lambda>rows. case rows of [] \<Rightarrow> False | se # _ \<Rightarrow> event_single_tag (se_event se) ''manager'' = Some manager)
       (ws_query E [''report head'', d] ''database error re-checking a report head: '' (head_query community k d 1) ws)"

definition counts_as_report ::
  "relay_env \<Rightarrow> community_id \<Rightarrow> workspace \<Rightarrow> pubkey \<Rightarrow> string \<Rightarrow> StoredEvent \<Rightarrow> string + pubkey option" where
  "counts_as_report E community ws manager d se =
     (case head_agent E d of
        None \<Rightarrow> Inr None
      | Some report \<Rightarrow>
          and_then (head_still_names_manager E community ws (ev_kind (se_event se)) d manager) (\<lambda>still.
          if \<not> still then Inr None
          else map_ok (\<lambda>counts. if counts then Some report else None)
            (if ev_kind (se_event se) = KIND_MANAGED_AGENT
             then holds_owner E ''database error checking report-head author: '' community (ev_pubkey (se_event se)) ws
             else map_ok (\<lambda>e. case e of None \<Rightarrow> False | Some row \<Rightarrow> em_status row = ''active'')
                    (ws_read E [''report'', report] ''database error checking report status: ''
                       (find_employee community report (ws_employees ws))))))"

fun collect_reports ::
  "relay_env \<Rightarrow> community_id \<Rightarrow> workspace \<Rightarrow> pubkey \<Rightarrow> (string \<times> StoredEvent) list \<Rightarrow> string + pubkey list" where
  "collect_reports E community ws manager [] = Inr []"
| "collect_reports E community ws manager ((d, se) # rest) =
     and_then (counts_as_report E community ws manager d se) (\<lambda>this.
     and_then (collect_reports E community ws manager rest) (\<lambda>others.
       Inr (case this of None \<Rightarrow> others | Some report \<Rightarrow> report # others)))"

definition direct_reports :: "relay_env \<Rightarrow> community_id \<Rightarrow> workspace \<Rightarrow> pubkey \<Rightarrow> string + pubkey list" where
  "direct_reports E community ws manager =
     and_then (ws_query E [''reports'', manager] ''database error finding direct reports: ''
        ((for_community community)\<lparr>eq_kinds := Some [KIND_EMPLOYEE, KIND_MANAGED_AGENT],
           eq_tag_contains := Some (''manager'', manager), eq_global_only := True, eq_limit := Some MAX_REPORT_HEADS\<rparr>) ws)
       (\<lambda>rows. map_ok sort (collect_reports E community ws manager (newest_by_d rows)))"

section \<open>Updates\<close>

text \<open>Whether every report still answers to the rung above its own.\<close>

fun reports_placed :: "relay_env \<Rightarrow> community_id \<Rightarrow> workspace \<Rightarrow> AgentTier \<Rightarrow> pubkey list \<Rightarrow> string + bool" where
  "reports_placed E community ws new_rank [] = Inr True"
| "reports_placed E community ws new_rank (report # rest) =
     and_then (agent_tier E community ws report) (\<lambda>tier.
       map_ok (\<lambda>others. others \<and> (case tier of Some t \<Rightarrow> escalation_target t = new_rank | None \<Rightarrow> False))
         (reports_placed E community ws new_rank rest))"

definition check_retire :: "relay_env \<Rightarrow> community_id \<Rightarrow> workspace \<Rightarrow> ParsedEmployeeUpdate \<Rightarrow> pubkey \<Rightarrow> string + unit" where
  "check_retire E community ws parsed target =
     and_then (direct_reports E community ws target) (\<lambda>reports.
       if reports \<noteq> [] then Inl (''retire refused: agents still report to '' @ eu_pubkey_hex parsed @ ''; reassign them first'')
       else Inr ())"

definition check_line ::
  "relay_env \<Rightarrow> community_id \<Rightarrow> workspace \<Rightarrow> ParsedEmployeeUpdate \<Rightarrow> EmployeeRow \<Rightarrow> AgentTier \<Rightarrow> pubkey \<Rightarrow> string + unit" where
  "check_line E community ws parsed row new_rank target =
     (if new_rank = Executive then
        (if eu_manager parsed \<noteq> None then Inl ''update refused: executives carry no manager'' else Inr ())
      else (case (case eu_manager parsed of Some m \<Rightarrow> Some m | None \<Rightarrow> em_manager row) of
          None \<Rightarrow> Inr ()
        | Some manager_hex \<Rightarrow> validate_manager_for_rank E community ws new_rank manager_hex (Some target)))"

definition check_stranded ::
  "relay_env \<Rightarrow> community_id \<Rightarrow> workspace \<Rightarrow> ParsedEmployeeUpdate \<Rightarrow> AgentTier \<Rightarrow> AgentTier \<Rightarrow> pubkey \<Rightarrow> string + unit" where
  "check_stranded E community ws parsed current_rank new_rank target =
     (if eu_rank parsed = None \<or> eu_rank parsed = Some current_rank then Inr ()
      else and_then (direct_reports E community ws target) (\<lambda>reports.
           and_then (reports_placed E community ws new_rank reports) (\<lambda>placed.
             if placed then Inr ()
             else Inl (''update refused: moving '' @ eu_pubkey_hex parsed @ '' to '' @ agent_tier_as_str new_rank
               @ '' would leave a report without a valid escalation path''))))"

definition check_update ::
  "relay_env \<Rightarrow> community_id \<Rightarrow> workspace \<Rightarrow> ParsedEmployeeUpdate \<Rightarrow> EmployeeRow \<Rightarrow> string + unit" where
  "check_update E community ws parsed row =
     (if em_status row \<noteq> ''active'' then Inl (''update refused: '' @ eu_pubkey_hex parsed @ '' is already retired'')
      else if em_provisioned_handle row \<noteq> None then
        Inl (em_display_name row @ '' is provided by Colony and cannot be '' @ (if eu_retire parsed then ''retired'' else ''changed'') @ ''.'')
      else and_then (ok_or ''internal error: stored employee pubkey is not valid'' (re_key E (eu_pubkey_hex parsed))) (\<lambda>target.
        if eu_retire parsed then check_retire E community ws parsed target
        else and_then (ok_or ''internal error: stored employee rank does not parse'' (agent_tier_parse (em_rank row))) (\<lambda>current_rank.
          let new_rank = (case eu_rank parsed of Some r \<Rightarrow> r | None \<Rightarrow> current_rank)
          in and_then (check_line E community ws parsed row new_rank target)
               (\<lambda>_. check_stranded E community ws parsed current_rank new_rank target))))"

definition enforce_employee_update :: "relay_env \<Rightarrow> community_id \<Rightarrow> workspace \<Rightarrow> nevent \<Rightarrow> string + ParsedEmployeeUpdate" where
  "enforce_employee_update E community ws ev =
     and_then (map_err (\<lambda>_. ''invalid employee update'') (parse_employee_update ev)) (\<lambda>parsed.
     and_then (holds_owner E ''database error checking update authority: '' community (ev_pubkey ev) ws) (\<lambda>owner.
     if \<not> owner then Inl (''update refused: '' @ ev_pubkey ev @ '' is not an owner of this community'')
     else and_then (ok_or ''internal error: a validated hex64 field failed to decode'' (hex_decode (eu_pubkey_hex parsed))) (\<lambda>bytes.
     and_then (ws_read E [''employee row'', bytes] ''database error loading the employee: ''
                (find_employee community bytes (ws_employees ws))) (\<lambda>row.
     case row of
       None \<Rightarrow> Inl (''update refused: '' @ eu_pubkey_hex parsed @ '' is not an employee of this community'')
     | Some row \<Rightarrow> map_ok (\<lambda>_. parsed) (check_update E community ws parsed row)))))"

definition manager_update :: "ParsedEmployeeUpdate \<Rightarrow> string option \<Rightarrow> string option option" where
  "manager_update parsed decoded =
     (case decoded of
        Some m \<Rightarrow> Some (Some m)
      | None \<Rightarrow> if eu_rank parsed = Some Executive then Some None else None)"

definition employees_call ::
  "relay_env \<Rightarrow> string list \<Rightarrow> string \<Rightarrow> (employees_table \<Rightarrow> (DbError + 'a) \<times> employees_table) \<Rightarrow> workspace \<Rightarrow> (string + 'a) \<times> workspace" where
  "employees_call E label msg statement ws =
     (case sql_call (re_fault E label) statement (ws_employees ws) of
        (res, tbl) \<Rightarrow> (map_err (\<lambda>e. msg @ re_error E e) res, ws\<lparr>ws_employees := tbl\<rparr>))"

definition apply_update ::
  "relay_env \<Rightarrow> key_env \<Rightarrow> community_id \<Rightarrow> nevent \<Rightarrow> ParsedEmployeeUpdate \<Rightarrow> string \<Rightarrow> workspace
   \<Rightarrow> (string + UpdateOutcome) \<times> workspace" where
  "apply_update E K community ev parsed target ws =
     (if eu_retire parsed then
        map_prod (map_ok (\<lambda>_. EmployeeRetired)) id
          (employees_call E [''retire'', ev_id ev] ''database error retiring the employee: ''
             (update_employee (int (re_now E)) community target None None (Some ''retired'')) ws)
      else (case (case eu_manager parsed of
                    None \<Rightarrow> Inr None
                  | Some m \<Rightarrow> map_ok Some (ok_or ''internal error: a validated hex64 field failed to decode'' (hex_decode m))) of
          Inl e \<Rightarrow> (Inl e, ws)
        | Inr decoded \<Rightarrow>
          (case employees_call E [''update'', ev_id ev] ''database error updating the employee: ''
                  (update_employee (int (re_now E)) community target (map_option agent_tier_as_str (eu_rank parsed))
                     (manager_update parsed decoded) None) ws of
             (Inl e, wsa) \<Rightarrow> (Inl e, wsa)
           | (Inr None, wsa) \<Rightarrow> (Inr NoActiveRow, wsa)
           | (Inr (Some updated), wsa) \<Rightarrow>
             (case open_employee_keys K community updated of
                Inl e \<Rightarrow> (Inl e, wsa)
              | Inr keys \<Rightarrow> (Inr EmployeeUpdated, republish_employee_head E community keys updated wsa)))))"

definition handle_employee_update ::
  "relay_env \<Rightarrow> key_env \<Rightarrow> community_id \<Rightarrow> workspace \<Rightarrow> nevent \<Rightarrow> workspace \<Rightarrow> (string + UpdateOutcome) \<times> workspace" where
  "handle_employee_update E K community seen ev ws =
     (case enforce_employee_update E community seen ev of
        Inl e \<Rightarrow> (Inl e, ws)
      | Inr parsed \<Rightarrow>
         (case hex_decode (eu_pubkey_hex parsed) of
            None \<Rightarrow> (Inl ''internal error: a validated hex64 field failed to decode'', ws)
          | Some target \<Rightarrow> apply_update E K community ev parsed target ws))"

end
