(* ===== verification/Ask_History.thy ===== *)
theory Ask_History
  imports Ask_Sweep Employee_Broker
begin

text \<open>
  What happens to the table of asks, whoever acts on it: every handler and sweep changes it by
  the six statements of \<open>asks.rs\<close> and nothing else, whatever its reads answer and whichever of
  its statements fail.
\<close>

section \<open>The statements\<close>

definition default_permitted :: "AskRow \<Rightarrow> bool" where
  "default_permitted r \<longleftrightarrow> (ak_default r \<noteq> None \<longrightarrow> ak_type r \<noteq> ask_type_as_str Stall
     \<and> (\<forall>c. ak_category r = Some c \<longrightarrow> \<not> is_hard_list_category c))"

datatype ask_verb = Files | Resolves | Withdraws | MarksPromoted | Reopens | Arms

inductive ask_change :: "ask_verb \<Rightarrow> asks_table \<Rightarrow> asks_table \<Rightarrow> bool" where
  change_file: "default_permitted (new_ask now c n) \<Longrightarrow> ask_change Files tbl (snd (insert_ask now c n tbl))"
| change_resolve: "ask_change Resolves tbl (snd (resolve_ask now c i e p d tbl))"
| change_withdraw: "ask_change Withdraws tbl (snd (withdraw_ask now c i e tbl))"
| change_promote: "ask_change MarksPromoted tbl (snd (mark_ask_promoted now c i e tbl))"
| change_reopen: "ask_change Reopens tbl (snd (reopen_promoted_ask now c i e tbl))"
| change_rearm: "ask_change Arms tbl (snd (extend_ask_deadline now c i t tbl))"

definition change_by :: "ask_verb set \<Rightarrow> asks_table \<Rightarrow> asks_table \<Rightarrow> bool" where
  "change_by V t t' \<longleftrightarrow> (\<exists>v\<in>V. ask_change v t t')"

abbreviation asks_evolve :: "ask_verb set \<Rightarrow> workspace \<Rightarrow> workspace \<Rightarrow> bool" where
  "asks_evolve V ws ws' \<equiv> (change_by V)\<^sup>*\<^sup>* (ws_asks ws) (ws_asks ws')"

text \<open>Everything but an answer; what filing an ask may do.\<close>

abbreviation quiet :: "ask_verb set" where
  "quiet \<equiv> - {Resolves}"

abbreviation filing :: "ask_verb set" where
  "filing \<equiv> {Files, Withdraws}"

lemma change_once: "ask_change v t t' \<Longrightarrow> v \<in> V \<Longrightarrow> (change_by V)\<^sup>*\<^sup>* t t'"
  by (rule r_into_rtranclp) (auto simp: change_by_def)

lemma asks_call_evolve:
  "(\<And>tbl. ask_change v tbl (snd (s tbl))) \<Longrightarrow> v \<in> V \<Longrightarrow> asks_evolve V ws (snd (asks_call E l m s ws))"
  using sql_call_state [of "re_fault E l" s "ws_asks ws"] change_once [of v "ws_asks ws" "snd (s (ws_asks ws))" V]
  by (auto simp: asks_call_def split: prod.split)

lemma asks_call_result:
  assumes "asks_call E l m s ws = (res, ws')" and "\<And>tbl. ask_change v tbl (snd (s tbl))" and "v \<in> V"
  shows "asks_evolve V ws ws'"
  using asks_call_evolve [OF assms(2,3), of ws E l m] assms(1) by simp

lemma evolve_mono:
  assumes "(change_by V)\<^sup>*\<^sup>* t t'" and "V \<subseteq> W"
  shows "(change_by W)\<^sup>*\<^sup>* t t'"
proof -
  have "change_by V \<le> change_by W" using assms(2) unfolding change_by_def by blast
  then show ?thesis using rtranclp_mono assms(1) by blast
qed

lemmas evolve_any = evolve_mono [OF _ subset_UNIV]

lemmas evolve_trans = rtranclp_trans [of "change_by V" for V]

lemmas filing_results = asks_call_result [OF _ change_withdraw, where V = filing, simplified]

lemmas quiet_results =
  asks_call_result [OF _ change_withdraw, where V = quiet, simplified]
  asks_call_result [OF _ change_promote, where V = quiet, simplified]
  asks_call_result [OF _ change_reopen, where V = quiet, simplified]
  asks_call_result [OF _ change_rearm, where V = quiet, simplified]

lemmas call_results =
  asks_call_result [OF _ change_resolve, where V = UNIV, simplified]
  asks_call_result [OF _ change_withdraw, where V = UNIV, simplified]

section \<open>The handlers\<close>

lemma emit_ask_receipt_asks [simp]: "ws_asks (emit_ask_receipt E c root content p ch ws) = ws_asks ws"
  by (simp add: emit_ask_receipt_def split: option.split sum.split)

lemma close_superseded_evolve: "asks_evolve filing ws (close_superseded_prior E c prior ev a ws)"
  by (auto simp: close_superseded_prior_def Let_def split: sum.split option.split prod.split bool.split dest!: filing_results)

lemma wake_superseded_asks [simp]: "ws_asks (wake_superseded_prior_filer E c ev a ws) = ws_asks ws"
  by (simp add: wake_superseded_prior_filer_def split: option.split sum.split)

lemma wake_filer_asks [simp]: "ws_asks (snd (wake_filer E c st a m ws)) = ws_asks ws"
  by (simp add: wake_filer_def split: option.split sum.split)

lemma new_row_permitted:
  assumes "parse_ask rd ev = Inr a" and "new_ask_row E w ev a = Inr row"
  shows "default_permitted (new_ask now c row)"
  using parsed_ask_ok(1) [OF assms(1)] assms(2)
  by (auto simp: new_ask_row_def and_then_Inr new_ask_def default_permitted_def default_allowed_def
      elim: ask_type_as_str.elims)

lemma file_ask_evolve:
  assumes "\<And>now. default_permitted (new_ask now c row)"
  shows "asks_evolve filing ws (snd (file_ask E c ev a row ws))"
proof -
  obtain res tbl where call: "sql_call (re_fault E [''file'', ev_id ev]) (insert_ask (int (re_now E)) c row) (ws_asks ws) = (res, tbl)"
    by fastforce
  have tbl: "(change_by filing)\<^sup>*\<^sup>* (ws_asks ws) tbl"
    using sql_call_state [of "re_fault E [''file'', ev_id ev]" "insert_ask (int (re_now E)) c row" "ws_asks ws"]
      change_once [OF change_file [OF assms, of "ws_asks ws" "int (re_now E)"], of filing] call by auto
  have "asks_evolve filing ws (close_superseded_prior E c p ev a (publish_head_for_new_ask E c i t aud d (ws\<lparr>ws_asks := tbl\<rparr>)))"
    for p i t aud d
    using evolve_trans [OF tbl, of "ws_asks (close_superseded_prior E c p ev a (publish_head_for_new_ask E c i t aud d (ws\<lparr>ws_asks := tbl\<rparr>)))"]
      close_superseded_evolve [of "publish_head_for_new_ask E c i t aud d (ws\<lparr>ws_asks := tbl\<rparr>)" E c p ev a] by simp
  then show ?thesis
    using tbl by (auto simp: file_ask_def call Let_def split: sum.split DbError.split option.split)
qed

lemma handle_ask_evolve: "asks_evolve filing ws (snd (handle_ask E c seen ev ws))"
  by (auto simp: handle_ask_def split: sum.split option.split intro!: file_ask_evolve new_row_permitted)

lemma handle_resolution_evolve: "asks_evolve UNIV ws (snd (handle_resolution E c ev ws))"
proof -
  have "asks_evolve UNIV ws (snd (close_resolved E c ev p i st a ws))" for p i st a
    using wake_filer_asks [of E c st a]
    by (auto simp: close_resolved_def split: prod.split sum.split bool.split dest!: call_results simp del: wake_filer_asks)
       (metis heads_keep(11) snd_conv)+
  then show ?thesis
    by (simp add: handle_resolution_def split: sum.split prod.split bool.split)
qed

lemma handle_withdrawal_evolve: "asks_evolve UNIV ws (snd (handle_withdrawal E c ev ws))"
proof -
  have "asks_evolve UNIV ws (snd (close_withdrawn E c ev p i st a ws))" for p i st a
    by (auto simp: close_withdrawn_def split: prod.split sum.split bool.split dest!: call_results)
  then show ?thesis
    by (simp add: handle_withdrawal_def split: sum.split prod.split bool.split)
qed

lemma handle_ask_event_evolve: "asks_evolve UNIV ws (snd (handle_ask_event E c seen ev ws))"
  by (simp add: handle_ask_event_def evolve_any [OF handle_ask_evolve] handle_resolution_evolve handle_withdrawal_evolve)

lemma wake_auto_asks [simp]: "ws_asks (wake_filer_after_auto_resolve E c row root ws) = ws_asks ws"
  by (simp add: wake_filer_after_auto_resolve_def split: option.split sum.split)

lemma try_resolve_evolve: "asks_evolve UNIV ws (snd (try_resolve_one_candidate E c row ev root ws))"
  by (auto simp: try_resolve_one_candidate_def split: prod.split sum.split bool.split dest!: call_results)

lemma fold_evolve: "(\<And>x ws. asks_evolve UNIV ws (f x ws)) \<Longrightarrow> asks_evolve UNIV ws (fold f xs ws)"
  by (induction xs arbitrary: ws) (auto intro: evolve_trans)

lemma auto_resolve_evolve: "asks_evolve UNIV ws (snd (try_auto_resolve_from_reply E c ev ws))"
  by (simp add: try_auto_resolve_from_reply_def fold_evolve try_resolve_evolve split: sum.split option.split bool.split)

section \<open>Hires\<close>

lemma publish_employee_head_asks [simp]: "ws_asks (publish_employee_head E c k f ws) = ws_asks ws"
  by (simp add: publish_employee_head_def Let_def)

lemma republish_asks [simp]: "ws_asks (republish_employee_head E c k r ws) = ws_asks ws"
  by (simp add: republish_employee_head_def split: option.split)

lemma wake_hiring_asks [simp]: "ws_asks (wake_hiring_filer E c row q ws) = ws_asks ws"
  by (simp add: wake_hiring_filer_def split: option.split sum.split)

lemma hire_resolves_evolve: "asks_evolve UNIV ws (resolve_hiring_ask_for_hire E c ev out q k ws)"
  by (auto simp: resolve_hiring_ask_for_hire_def Let_def split: sum.split option.split prod.split bool.split dest!: call_results)

lemma hire_evolve: "asks_evolve UNIV ws (snd (handle_hire_request E K c seen ev ws))"
proof -
  have "asks_evolve UNIV ws (snd (record_hire E K c ev q m s ws))" for q m s
    using hire_resolves_evolve [of "publish_employee_head E c (ke_new K) (new_hire_fields q ev) (ws\<lparr>ws_employees := t\<rparr>)" E c ev Hired q "ke_new K" for t]
    by (auto simp: record_hire_def split: prod.split sum.split option.split)
  then show ?thesis
    by (simp add: handle_hire_request_def split: sum.split option.split bool.split)
qed

section \<open>The sweeps\<close>

lemma redeadline_evolve: "asks_evolve quiet ws (snd (redeadline E c row now ws))"
  by (auto simp: redeadline_def split: prod.split sum.split option.split dest!: quiet_results)

lemma close_ghost_evolve: "asks_evolve quiet ws (snd (close_ask_with_no_backing_event E c row ws))"
  by (auto simp: close_ask_with_no_backing_event_def Let_def split: prod.split sum.split bool.split dest!: quiet_results)

lemma execute_default_evolve: "asks_evolve UNIV ws (snd (execute_default E c row st d stats ws))"
  by (auto simp: execute_default_def Let_def split: prod.split sum.split bool.split option.split dest!: call_results)

lemma reopen_evolve: "asks_evolve quiet ws (reopen_after_promotion_failure E c row e ws)"
  unfolding reopen_after_promotion_failure_def by (rule asks_call_evolve) (rule change_reopen, simp)

lemma file_promoted_evolve:
  assumes "asks_evolve V wsb (snd (handle_ask_event E c seen ev wsb))" and "Reopens \<in> V"
  shows "asks_evolve V wsb (snd (file_promoted_ask E c row st ev stats seen wsb))"
proof -
  obtain res wsa where call: "handle_ask_event E c seen ev wsb = (res, wsa)" by fastforce
  then have "asks_evolve V wsb wsa" using assms(1) by simp
  moreover have "asks_evolve V wsa (reopen_after_promotion_failure E c row (ev_id ev) wsa)"
    unfolding reopen_after_promotion_failure_def by (rule asks_call_evolve) (rule change_reopen, rule assms(2))
  ultimately show ?thesis
    by (auto simp: file_promoted_ask_def call split: sum.split AskBrokerOutcome.split intro: evolve_trans)
qed

lemma promote_to_evolve:
  assumes "\<And>seen filer ws. asks_evolve V ws (snd (handle_ask_event E c seen (promoted_ask E (se_event st) target filer) ws))"
    and "Reopens \<in> V" and "MarksPromoted \<in> V"
  shows "asks_evolve V ws (snd (promote_to E c row st target stats ws))"
proof -
  have "asks_evolve V ws (snd (file_promoted_ask E c row st (promoted_ask E (se_event st) target filer) s
          (publish_closed_head E c i k wsa) (publish_closed_head E c i k wsa)))"
    if "asks_evolve V ws wsa" for filer s i k wsa
    using that file_promoted_evolve [where ev = "promoted_ask E (se_event st) target filer"
        and wsb = "publish_closed_head E c i k wsa" and seen = "publish_closed_head E c i k wsa", OF assms(1,2), of row st s]
    by (auto intro: evolve_trans)
  then show ?thesis
    using assms(3)
    by (auto simp: promote_to_def Let_def split: prod.split sum.split bool.split option.split
        dest!: asks_call_result [OF _ change_promote, where V = V])
qed

lemma process_due_evolve: "asks_evolve UNIV ws (snd (process_due_ask E row now stats ws))"
  by (simp add: process_due_ask_def promote_or_redeadline_def Let_def evolve_any [OF redeadline_evolve] evolve_any [OF close_ghost_evolve]
      execute_default_evolve promote_to_evolve handle_ask_event_evolve split: sum.split option.split bool.split)

lemma process_all_evolve: "asks_evolve UNIV ws (snd (process_due_asks E now due stats ws))"
proof (induction due arbitrary: stats ws)
  case (Cons row due)
  obtain res wsa where call: "process_due_ask E row now stats ws = (res, wsa)" by fastforce
  then have "asks_evolve UNIV ws wsa" using process_due_evolve [of ws E row now stats] by simp
  then show ?case using Cons.IH [of wsa] by (auto simp: call split: sum.split intro: evolve_trans)
qed simp

lemma tick_evolve: "asks_evolve UNIV ws (snd (run_interrupt_tick E now limit ws))"
  using process_all_evolve [of ws E now]
  by (auto simp: run_interrupt_tick_def split: sum.split prod.split) (metis snd_conv)

lemma reopen_orphan_evolve: "asks_evolve UNIV ws (reopen_orphan E row ws)"
  by (auto simp: reopen_orphan_def split: option.split intro: asks_call_evolve [OF change_reopen])

lemma orphans_evolve: "asks_evolve UNIV ws (reopen_orphaned_promotions E now stall ws)"
  by (simp add: reopen_orphaned_promotions_def fold_evolve reopen_orphan_evolve split: sum.split)

section \<open>Histories\<close>

inductive ask_step :: "workspace \<Rightarrow> workspace \<Rightarrow> bool" where
  step_event: "ask_step ws (snd (handle_ask_event E c seen ev ws))"
| step_reply: "ask_step ws (snd (try_auto_resolve_from_reply E c ev ws))"
| step_hire: "ask_step ws (snd (handle_hire_request E K c seen ev ws))"
| step_sweep: "ask_step ws (snd (run_interrupt_tick E now limit ws))"
| step_orphans: "ask_step ws (reopen_orphaned_promotions E now stall ws)"
| step_other: "ws_asks ws' = ws_asks ws \<Longrightarrow> ask_step ws ws'"

lemma ask_step_evolve: "ask_step ws ws' \<Longrightarrow> asks_evolve UNIV ws ws'"
  by (induction rule: ask_step.induct)
     (simp_all add: handle_ask_event_evolve auto_resolve_evolve hire_evolve tick_evolve orphans_evolve)

lemma ask_steps_evolve: "ask_step\<^sup>*\<^sup>* ws ws' \<Longrightarrow> asks_evolve UNIV ws ws'"
  by (induction rule: rtranclp_induct) (auto intro: evolve_trans ask_step_evolve)

end
