(* ===== verification/Gate_Laws.thy ===== *)
theory Gate_Laws
  imports Interrupt_Gate
begin

text \<open>
  What the interrupt gate gives: a worker or leader reaches an owner only in a thread that is open
  to it; a failing read never opens the gate; a decision that passes is covered by an owner's
  active grant; and heads that others publish about an agent do not move its tier.
\<close>

section \<open>Failing reads\<close>

definition calm :: "relay_env \<Rightarrow> relay_env" where
  "calm E = E\<lparr>re_fault := \<lambda>_. NoFault\<rparr>"

lemma ws_read_Inr: "ws_read E label msg x = Inr a \<longleftrightarrow> re_fault E label = NoFault \<and> a = x"
  by (auto simp: ws_read_def map_err_def sql_read_Inr split: sum.split)

lemma ws_read_calm: "ws_read (calm E) label msg x = Inr x"
  by (simp add: ws_read_Inr calm_def)

lemma calm_fields [simp]: "re_read_json (calm E) = re_read_json E" "re_key (calm E) = re_key E"
  by (simp_all add: calm_def)

text \<open>An answer is the answer of a database without faults.\<close>

lemma and_then_mono:
  assumes "and_then r f = Inr b" and "\<And>a. r = Inr a \<Longrightarrow> r' = Inr a" and "\<And>a. f a = Inr b \<Longrightarrow> f' a = Inr b"
  shows "and_then r' f' = Inr b"
  using assms by (cases r) auto

lemma read_calm: "ws_read E label msg x = Inr a \<Longrightarrow> ws_read (calm E) label' msg' x = Inr a"
  by (simp add: ws_read_Inr calm_def)

lemma query_calm: "ws_query E label msg q ws = Inr r \<Longrightarrow> ws_query (calm E) label' msg q ws = Inr r"
  unfolding ws_query_def by (erule and_then_mono) (simp_all add: read_calm)

lemma holds_owner_calm: "holds_owner E msg c hex ws = Inr b \<Longrightarrow> holds_owner (calm E) msg c hex ws = Inr b"
  unfolding holds_owner_def by (rule read_calm)

lemma first_owner_head_calm: "first_owner_head E msg c ws xs = Inr r \<Longrightarrow> first_owner_head (calm E) msg c ws xs = Inr r"
proof (induction xs)
  case (Cons x xs)
  from Cons.prems show ?case
    unfolding first_owner_head.simps
    by (rule and_then_mono) (use Cons.IH in \<open>auto simp: holds_owner_calm split: if_splits\<close>)
qed simp

lemma head_tier_calm: "head_tier E c ws ev = Inr r \<Longrightarrow> head_tier (calm E) c ws ev = Inr r"
  unfolding head_tier_def calm_fields
  by (auto split: sum.splits option.splits if_splits elim!: and_then_mono intro: read_calm)

lemma agent_tier_calm:
  assumes "agent_tier E c ws p = Inr r"
  shows "agent_tier (calm E) c ws p = Inr r"
  using assms unfolding agent_tier_def
proof (rule and_then_mono, goal_cases)
  case (2 employee)
  then show ?case
    by (auto split: option.splits elim!: and_then_mono intro: query_calm first_owner_head_calm head_tier_calm)
qed (rule read_calm)

lemma owner_thread_permits_calm:
  assumes "owner_thread_permits E c ws root owner agent = Inr r"
  shows "owner_thread_permits (calm E) c ws root owner agent = Inr r"
  using assms unfolding owner_thread_permits_def
proof (rule and_then_mono, goal_cases)
  case (2 root)
  then show ?case by (auto split: option.splits if_splits elim!: and_then_mono intro: read_calm)
qed (rule read_calm)

lemma owner_targets_calm: "owner_targets E c ws ps = Inr r \<Longrightarrow> owner_targets (calm E) c ws ps = Inr r"
proof (induction ps arbitrary: r)
  case (Cons p ps)
  from Cons.prems show ?case
    unfolding owner_targets.simps
  proof (rule and_then_mono, goal_cases)
    case (2 owner)
    then show ?case by (auto simp: and_then_Inr dest!: Cons.IH)
  qed (rule holds_owner_calm)
qed simp

lemma all_permitted_calm:
  "all_permitted E c ws tier root agent os = Inr () \<Longrightarrow> all_permitted (calm E) c ws tier root agent os = Inr ()"
proof (induction os)
  case (Cons x xs)
  from Cons.prems show ?case
    unfolding all_permitted.simps
    by (rule and_then_mono) (use Cons.IH in \<open>auto simp: owner_thread_permits_calm split: if_splits\<close>)
qed simp

lemma contact_owners_calm:
  "contact_owners E c ws ev auth tier os = Inr () \<Longrightarrow> contact_owners (calm E) c ws ev auth tier os = Inr ()"
  by (auto simp: contact_owners_def intro: all_permitted_calm split: option.splits if_splits)

lemma active_grant_calm: "active_grant E c ws i = Inr r \<Longrightarrow> active_grant (calm E) c ws i = Inr r"
  unfolding active_grant_def calm_fields
  by (auto elim!: and_then_mono intro: query_calm first_owner_head_calm)

text \<open>C34: the gate fails closed: whatever reads fail, what it lets through it also lets through when none fails,
  a message to an owner and a decision log alike.\<close>

theorem gate_fails_closed:
  "(enforce_owner_contact E c ws ev auth = Inr () \<longrightarrow> enforce_owner_contact (calm E) c ws ev auth = Inr ())
   \<and> (enforce_grant_authorship E c ws ev = Inr () \<longrightarrow> enforce_grant_authorship (calm E) c ws ev = Inr ())
   \<and> (enforce_decision_log_authority E c ws ev d = Inr () \<longrightarrow> enforce_decision_log_authority (calm E) c ws ev d = Inr ())"
proof (intro conjI impI)
  assume "enforce_owner_contact E c ws ev auth = Inr ()"
  then show "enforce_owner_contact (calm E) c ws ev auth = Inr ()"
    unfolding enforce_owner_contact_def
    by (auto split: option.splits if_splits elim!: and_then_mono intro: agent_tier_calm owner_targets_calm contact_owners_calm)
next
  assume "enforce_grant_authorship E c ws ev = Inr ()"
  then show "enforce_grant_authorship (calm E) c ws ev = Inr ()"
    unfolding enforce_grant_authorship_def by (rule and_then_mono) (auto simp: holds_owner_calm)
next
  assume "enforce_decision_log_authority E c ws ev d = Inr ()"
  then show "enforce_decision_log_authority (calm E) c ws ev d = Inr ()"
    unfolding enforce_decision_log_authority_def
  proof (rule and_then_mono, goal_cases)
    case (2 tier)
    then show ?case
      by (cases "tier \<noteq> Some Leader \<and> tier \<noteq> Some Executive")
        (auto elim!: and_then_mono simp: map_err_Inr active_grant_calm)
  qed (simp add: map_err_Inr agent_tier_calm)
qed

section \<open>Reaching an owner\<close>

definition is_owner :: "community_id \<Rightarrow> workspace \<Rightarrow> string \<Rightarrow> bool" where
  "is_owner c ws p \<longleftrightarrow> role_of c p (ws_members ws) = Some ''owner''"

lemma holds_owner_Inr: "holds_owner E msg c p ws = Inr b \<longleftrightarrow> re_fault E [''member'', p] = NoFault \<and> b = is_owner c ws p"
  by (auto simp: holds_owner_def ws_read_Inr is_owner_def role_of_def get_relay_member_def split: option.split)

lemma owner_targets_Inr:
  "owner_targets E c ws ps = Inr os \<Longrightarrow> p \<in> set ps \<Longrightarrow> is_owner c ws p \<Longrightarrow> \<exists>b\<in>set os. hex_decode p = Some b"
  by (induction ps arbitrary: os) (fastforce simp: and_then_Inr holds_owner_Inr map_ok_Inr ok_or_def split: option.splits)+

lemma all_permitted_Inr:
  "all_permitted E c ws tier root agent os = Inr () \<Longrightarrow> owner \<in> set os \<Longrightarrow> owner_thread_permits E c ws root owner agent = Inr True"
  by (induction os) (auto simp: and_then_Inr split: if_splits)

text \<open>The two ways a thread is open to an agent.\<close>

definition thread_open_to :: "community_id \<Rightarrow> workspace \<Rightarrow> string \<Rightarrow> string \<Rightarrow> pubkey \<Rightarrow> bool" where
  "thread_open_to c ws root owner agent \<longleftrightarrow>
     (\<exists>r. get_event_by_id c root (ws_events ws) = Some r \<and> (ev_pubkey (se_event r) = owner
        \<or> (\<exists>reply\<in>set (get_thread_replies c root None MAX_THREAD_REPLIES None (ed_events (ws_events ws)) (ws_threads ws)).
             ev_pubkey (rw_event (snd reply)) = owner \<and> reply_p_tags_contain (rw_event (snd reply)) agent)))"

lemma owner_thread_permits_True: "owner_thread_permits E c ws root owner agent = Inr True \<Longrightarrow> thread_open_to c ws root owner agent"
  by (auto simp: owner_thread_permits_def thread_open_to_def and_then_Inr ws_read_Inr list_ex_iff split: option.splits if_splits)

text \<open>C9: When the gate lets through an event of a gated kind by a worker or a leader, one of whose p tags is the key
  of an owner spelled as it is stored, the event is not a direct message or a gift wrap, and it is inside a
  thread that this owner started or in which this owner has named the agent. A tag that spells the key in another way is
  not covered: the gate lets it pass, as \<open>other_spelling_passes_gate\<close> shows.\<close>

theorem owner_reached_only_in_thread:
  assumes "enforce_owner_contact E c ws ev auth = Inr ()" and "is_gated_kind (ev_kind ev)"
    and "agent_tier E c ws auth = Inr (Some tier)" and "tier \<noteq> Executive"
    and "p \<in> set (extract_p_tags ev)" and "is_owner c ws p"
  shows "\<not> is_direct_contact_kind (ev_kind ev)
    \<and> (\<exists>root owner. extract_thread_root ev = Some root \<and> hex_decode p = Some owner \<and> thread_open_to c ws root owner auth)"
proof -
  have "extract_p_tags ev \<noteq> []" using assms(5) by auto
  with assms(1-4) obtain os where os: "owner_targets E c ws (extract_p_tags ev) = Inr os"
    "contact_owners E c ws ev auth tier os = Inr ()"
    by (auto simp: enforce_owner_contact_def and_then_Inr)
  from owner_targets_Inr [OF os(1) assms(5,6)] obtain b where b: "b \<in> set os" "hex_decode p = Some b" by blast
  with os(2) obtain root where "\<not> is_direct_contact_kind (ev_kind ev)" "extract_thread_root ev = Some root"
    "all_permitted E c ws tier root auth os = Inr ()"
    by (auto simp: contact_owners_def split: if_splits option.splits)
  with all_permitted_Inr [OF _ b(1)] owner_thread_permits_True b(2) show ?thesis by blast
qed

section \<open>What others publish about an agent\<close>

lemma first_owner_head_found:
  assumes "\<And>l. re_fault E l = NoFault"
  shows "first_owner_head E msg c ws xs =
     Inr (case filter (\<lambda>se. is_owner c ws (ev_pubkey (se_event se))) xs of [] \<Rightarrow> None | se # _ \<Rightarrow> Some (se_event se))"
  by (induction xs) (auto simp: holds_owner_def ws_read_def assms is_owner_def role_of_def get_relay_member_def
      split: option.split)

lemma se_event_row [simp]: "se_event (row_to_stored_event r) = rw_event r"
  by (simp add: row_to_stored_event_def with_received_at_def)

definition candidate_heads :: "community_id \<Rightarrow> kind \<Rightarrow> string \<Rightarrow> workspace \<Rightarrow> events_table" where
  "candidate_heads c k d ws = newest_first (filter (where_clause (head_query c k d 20) (ws_events ws)) (ed_events (ws_events ws)))"

lemma head_query_page:
  "query_events (head_query c k d 20) (ws_events ws) = Inr (map (row_to_stored_event \<circ> snd) (take 20 (candidate_heads c k d ws)))"
  by (simp add: query_events_def query_events_on_def head_query_def for_community_def empty_list_def candidate_heads_def
      DEFAULT_MAX_PAGE_LIMIT_def Let_def)

text \<open>The newest head at a name that a current owner wrote, among the newest twenty.\<close>

definition owner_head :: "community_id \<Rightarrow> kind \<Rightarrow> string \<Rightarrow> workspace \<Rightarrow> nevent option" where
  "owner_head c k d ws =
     (case filter (\<lambda>x. is_owner c ws (ev_pubkey (rw_event (snd x)))) (take 20 (candidate_heads c k d ws)) of
        [] \<Rightarrow> None | x # _ \<Rightarrow> Some (rw_event (snd x)))"

lemma owner_head_found:
  assumes "\<And>l. re_fault E l = NoFault"
  shows "and_then (ws_query E label msg (head_query c k d 20) ws) (\<lambda>rows. and_then (first_owner_head E msg' c ws rows) f)
     = f (owner_head c k d ws)"
  by (simp add: ws_query_def ws_read_def assms head_query_page first_owner_head_found [OF assms] owner_head_def filter_map comp_def
      split: list.split)

lemma agent_tier_heads:
  assumes "\<And>l. re_fault E l = NoFault"
  shows "agent_tier E c ws p = (case find_employee c p (ws_employees ws) of
      Some e \<Rightarrow> Inr (Some (rank_or_worker (em_rank e)))
    | None \<Rightarrow> (case owner_head c KIND_MANAGED_AGENT p ws of None \<Rightarrow> Inr None | Some ev \<Rightarrow> head_tier E c ws ev))"
  by (simp add: agent_tier_def ws_read_def assms MAX_CANDIDATE_TIER_HEADS_def owner_head_found [OF assms]
      split: option.split)

text \<open>More events, none of them by an owner.\<close>

definition with_events :: "events_table \<Rightarrow> workspace \<Rightarrow> workspace" where
  "with_events extra ws = ws\<lparr>ws_events := (ws_events ws)\<lparr>ed_events := ed_events (ws_events ws) @ extra\<rparr>\<rparr>"

lemma owner_head_all:
  assumes "length (candidate_heads c k d ws) \<le> 20"
  shows "owner_head c k d ws = (case newest_first (filter (\<lambda>x. where_clause (head_query c k d 20) (ws_events ws) x
      \<and> is_owner c ws (ev_pubkey (rw_event (snd x)))) (ed_events (ws_events ws))) of [] \<Rightarrow> None | x # _ \<Rightarrow> Some (rw_event (snd x)))"
  using assms
  by (simp add: owner_head_def candidate_heads_def newest_first_def filter_sort filter_filter conj_commute)

lemma where_with_events: "where_clause (head_query c k d n) (ws_events (with_events extra ws)) = where_clause (head_query c k d n) (ws_events ws)"
  by (simp add: fun_eq_iff where_clause_def head_query_def for_community_def if_some_def with_events_def Let_def)

lemma owner_head_impostors:
  assumes "\<forall>x\<in>set extra. \<not> is_owner c ws (ev_pubkey (rw_event (snd x)))"
    and "length (candidate_heads c k d (with_events extra ws)) \<le> 20"
  shows "owner_head c k d (with_events extra ws) = owner_head c k d ws"
proof -
  have W: "where_clause (head_query c k d 20) (ws_events (with_events extra ws)) = where_clause (head_query c k d 20) (ws_events ws)"
    by (rule where_with_events)
  have own: "is_owner c (with_events extra ws) = is_owner c ws" by (simp add: fun_eq_iff is_owner_def with_events_def)
  have evs: "ed_events (ws_events (with_events extra ws)) = ed_events (ws_events ws) @ extra" by (simp add: with_events_def)
  have "length (candidate_heads c k d ws) \<le> 20"
    using assms(2) by (simp add: candidate_heads_def newest_first_def W evs)
  moreover have "filter (\<lambda>x. where_clause (head_query c k d 20) (ws_events ws) x \<and> is_owner c ws (ev_pubkey (rw_event (snd x)))) extra = []"
    using assms(1) by (auto simp: filter_empty_conv)
  ultimately show ?thesis
    by (simp only: owner_head_all [OF assms(2)] owner_head_all W own evs filter_append append_Nil2)
qed

text \<open>Heads that members who are not owners publish about an agent neither raise its tier nor hide the one an
  owner gave it, as long as no more than twenty heads stand at its name.\<close>

theorem impostor_heads_do_not_move_tier:
  assumes "\<And>l. re_fault E l = NoFault"
    and "\<forall>x\<in>set extra. \<not> is_owner c ws (ev_pubkey (rw_event (snd x)))"
    and "length (candidate_heads c KIND_MANAGED_AGENT p (with_events extra ws)) \<le> 20"
  shows "agent_tier E c (with_events extra ws) p = agent_tier E c ws p"
proof -
  have employees: "ws_employees (with_events extra ws) = ws_employees ws" by (simp add: with_events_def)
  then have "head_tier E c (with_events extra ws) = head_tier E c ws" by (simp only: fun_eq_iff head_tier_def) simp
  with employees show ?thesis
    by (simp only: agent_tier_heads [OF assms(1)] owner_head_impostors [OF assms(2,3)])
qed

section \<open>Decisions\<close>

text \<open>C25: a decision log that passes is signed by a leader or executive, and the newest head an owner wrote at the
  grant it cites is an active grant of its category whose cap, if it has one, the declared amount keeps to.\<close>

theorem recorded_decision_is_covered:
  assumes "enforce_decision_log_authority E c ws ev d = Inr ()"
  shows "agent_tier (calm E) c ws (ev_pubkey ev) \<in> {Inr (Some Leader), Inr (Some Executive)}
    \<and> (\<exists>head g. owner_head c KIND_DELEGATION_GRANT (dec_grant d) ws = Some head \<and> is_owner c ws (ev_pubkey head)
        \<and> parse_grant (re_read_json E) head = Inr g \<and> gra_active g \<and> gra_category g = dec_category d
        \<and> (\<forall>cap. gra_cap g = Some cap \<longrightarrow> (\<exists>a. dec_amount d = Some a \<and> a \<le> cap)))"
proof -
  from assms obtain tier g where
    tier: "agent_tier E c ws (ev_pubkey ev) = Inr tier" "tier = Some Leader \<or> tier = Some Executive"
    and g: "active_grant E c ws (dec_grant d) = Inr (Some g)" "gra_active g" "covered_by d g = Inr ()"
    by (auto simp: enforce_decision_log_authority_def and_then_Inr map_err_Inr split: option.splits if_splits)
  have calm: "\<And>l. re_fault (calm E) l = NoFault" by (simp add: calm_def)
  have "active_grant (calm E) c ws (dec_grant d) = Inr (Some g)" using g(1) by (rule active_grant_calm)
  then obtain head where head: "owner_head c KIND_DELEGATION_GRANT (dec_grant d) ws = Some head"
      "parse_grant (re_read_json E) head = Inr g"
    by (auto simp: active_grant_def MAX_CANDIDATE_GRANT_HEADS_def owner_head_found [OF calm] split: option.splits sum.splits)
  then obtain x xs where "filter (\<lambda>x. is_owner c ws (ev_pubkey (rw_event (snd x)))) (take 20 (candidate_heads c KIND_DELEGATION_GRANT (dec_grant d) ws)) = x # xs"
      "rw_event (snd x) = head"
    by (auto simp: owner_head_def split: list.splits)
  then have "is_owner c ws (ev_pubkey head)" by (metis (mono_tags, lifting) filter_eq_ConsD)
  moreover have "gra_category g = dec_category d" "\<forall>cap. gra_cap g = Some cap \<longrightarrow> (\<exists>a. dec_amount d = Some a \<and> a \<le> cap)"
    using g(3) by (auto simp: covered_by_def split: if_splits option.splits)
  ultimately show ?thesis using head g(2) tier agent_tier_calm [OF tier(1)] by auto
qed

section \<open>Where the gate does not hold\<close>

text \<open>The gate compares a \<open>p\<close> tag with the member table as it is spelled, while the mention index folds its
  case: a worker that spells an owner's key otherwise is not stopped, and the owner is mentioned.\<close>

theorem other_spelling_passes_gate:
  assumes "\<And>l. re_fault E l = NoFault" and "agent_tier E c ws auth = Inr tier"
    and "\<forall>p\<in>set (extract_p_tags ev). get_relay_member c p (ws_members ws) = None"
    and "owner \<in> set (mention_keys ev)"
  shows "enforce_owner_contact E c ws ev auth = Inr () \<and> (c, ev_id ev, owner) \<in> ed_mentions (insert_mentions c ev (ws_events ws))"
proof -
  have "owner_targets E c ws ps = Inr []" if "set ps \<subseteq> set (extract_p_tags ev)" for ps
    using that assms(3)
    by (induction ps) (auto simp: holds_owner_def ws_read_def assms(1))
  then have "owner_targets E c ws (extract_p_tags ev) = Inr []" by simp
  then have "enforce_owner_contact E c ws ev auth = Inr ()"
    using assms(2) by (auto simp: enforce_owner_contact_def contact_owners_def split: option.split)
  then show ?thesis using assms(4) by (simp add: insert_mentions_def)
qed

text \<open>The reporting line an owner's head names is returned as it stands, whatever the tiers of the two agents.\<close>

theorem head_line_not_validated:
  assumes "\<And>l. re_fault E l = NoFault" and "find_employee c p (ws_employees ws) = None"
    and "owner_head c KIND_MANAGED_AGENT p ws = Some ev" and "event_single_tag ev ''manager'' = Some m" and "re_key E m = Some m"
  shows "agent_manager E c ws p = Inr (Some m)"
  by (simp add: agent_manager_def ws_read_def assms MAX_CANDIDATE_TIER_HEADS_def owner_head_found [OF assms(1)])

section \<open>Instances\<close>

definition key_of :: "char \<Rightarrow> string" where
  "key_of ch = replicate 64 ch"

definition demo_member :: "string \<Rightarrow> string \<Rightarrow> member_key \<times> RelayMember" where
  "demo_member p role = ((2, p), \<lparr>mb_pubkey = p, mb_role = role, mb_added_by = None, mb_created_at = 0, mb_updated_at = 0\<rparr>)"

definition demo_worker :: "string \<Rightarrow> string \<Rightarrow> employee_key \<times> EmployeeRow" where
  "demo_worker p rank = ((2, p), \<lparr>em_pubkey = p, em_sealed_key = ''k'', em_role_id = ''ops'', em_display_name = ''Ops'',
     em_rank = rank, em_hired_by = None, em_hire_event = None, em_manager = None, em_provisioned_handle = Some ''h'',
     em_provisioned_version = Some 1, em_status = ''active'', em_created_at = 0, em_updated_at = 0\<rparr>)"

definition gate_event :: "string \<Rightarrow> pubkey \<Rightarrow> nat \<Rightarrow> kind \<Rightarrow> tag list \<Rightarrow> string \<Rightarrow> nevent" where
  "gate_event i p t k tags content = \<lparr>ev_id = i, ev_pubkey = p, ev_created_at = t, ev_kind = k, ev_tags = tags, ev_content = content\<rparr>"

definition gate_row :: "nevent \<Rightarrow> string option \<Rightarrow> event_key \<times> EventRow" where
  "gate_row ev d = ((2, ev_created_at ev, ev_id ev), \<lparr>rw_event = ev, rw_received_at = 0, rw_channel = None, rw_d_tag = d,
     rw_not_before = None, rw_deleted = False\<rparr>)"

definition demo_workspace :: "members_table \<Rightarrow> employees_table \<Rightarrow> events_table \<Rightarrow> workspace" where
  "demo_workspace ms es evs = \<lparr>ws_members = ms, ws_employees = es,
     ws_events = \<lparr>ed_events = evs, ed_mentions = {}, ed_watermarks = []\<rparr>, ws_threads = [], ws_asks = [], ws_hosted = [2], ws_fanned = []\<rparr>"

definition gate_env :: "(string list \<Rightarrow> db_fault) \<Rightarrow> json_reader \<Rightarrow> relay_env" where
  "gate_env fault rd = \<lparr>re_fault = fault, re_error = (\<lambda>_. ''database error''), re_read_json = rd,
     re_write_json = (\<lambda>_. ''{}''), re_key = Some, re_relay_key = key_of (CHR ''f''), re_durable = True, re_now = 100,
     re_representable = (\<lambda>_. True), re_sign = (\<lambda>p t k tags content. gate_event ''signed'' p t k tags content),
     re_may_post = (\<lambda>_ _. True), re_show_uuid = show_nat\<rparr>"

lemmas gate_defs = demo_member_def demo_worker_def gate_event_def gate_row_def demo_workspace_def gate_env_def

definition gate_tag :: "string list \<Rightarrow> tag" where
  "gate_tag sl = \<lparr>tag_kind = hd sl, tag_content = Some (sl ! 1), tag_slice = sl\<rparr>"

text \<open>An owner \<open>b\<close>, a worker \<open>a\<close>, and a message of the owner that the worker replies to.\<close>

definition demo_root :: nevent where
  "demo_root = gate_event (key_of (CHR ''0'')) (key_of (CHR ''b'')) 5 KIND_STREAM_MESSAGE [] ''hello''"

definition demo_reply_to_owner :: "string \<Rightarrow> nevent" where
  "demo_reply_to_owner p = gate_event ''reply'' (key_of (CHR ''a'')) 6 KIND_STREAM_MESSAGE
     [gate_tag [''p'', p], gate_tag [''e'', key_of (CHR ''0''), [], ''root'']] ''hi''"

definition demo_office :: "events_table \<Rightarrow> workspace" where
  "demo_office evs = demo_workspace [demo_member (key_of (CHR ''b'')) ''owner''] 
     [demo_worker (key_of (CHR ''a'')) ''worker'', demo_worker (key_of (CHR ''c'')) ''leader''] evs"

definition demo_quiet :: relay_env where
  "demo_quiet = gate_env (\<lambda>_. NoFault) (\<lambda>_. Inl ''not json'')"

lemma key_of_simps [simp]:
  "key_of a = key_of b \<longleftrightarrow> a = b" "length (key_of a) = 64"
  "list_all P (key_of a) = P a" "to_ascii_lowercase (key_of a) = key_of (ascii_lower a)"
  by (auto simp: key_of_def list_all_iff to_ascii_lowercase_def map_replicate)

lemma key_of_compare [simp]: "is_ascii_hexdigit a \<Longrightarrow> hex_decode (key_of a) = Some (key_of (ascii_lower a))"
  by (simp add: hex_decode_def)

lemma digit_facts [simp]:
  "is_ascii_hexdigit (CHR ''a'')" "is_ascii_hexdigit (CHR ''b'')" "is_ascii_hexdigit (CHR ''0'')" "is_ascii_hexdigit (CHR ''B'')"
  "ascii_lower (CHR ''a'') = CHR ''a''" "ascii_lower (CHR ''b'') = CHR ''b''" "ascii_lower (CHR ''0'') = CHR ''0''"
  "ascii_lower (CHR ''B'') = CHR ''b''"
  using char_of_char [where ?'a = nat, of "CHR ''b''"]
  by (simp_all add: is_ascii_hexdigit_def is_ascii_digit_def ascii_lower_def is_ascii_uppercase_def byte_def)

lemma demo_p_tags: "extract_p_tags (demo_reply_to_owner p) = [p]" "ev_kind (demo_reply_to_owner p) = KIND_STREAM_MESSAGE"
  by (simp_all add: extract_p_tags_def demo_reply_to_owner_def gate_event_def gate_tag_def List.map_filter_def)

lemma demo_reply_root: "extract_thread_root (demo_reply_to_owner p) = Some (key_of (CHR ''0''))"
  by (simp add: extract_thread_root_def find_marked_e_tag_def marked_e_tag_def demo_reply_to_owner_def gate_event_def
      gate_tag_def List.map_filter_def)

text \<open>Reading replies fails; every content reads as a grant.\<close>

definition demo_shaken :: relay_env where
  "demo_shaken = gate_env (\<lambda>l. if hd l = ''replies'' then NotSent else NoFault)
     (\<lambda>_. Inr (JObj [(''category'', JStr ''travel''), (''scope'', JStr ''trains''), (''active'', JBool True), (''cap_nano_usd'', JInt 5)]))"

definition demo_grant :: nevent where
  "demo_grant = gate_event ''grant'' (key_of (CHR ''b'')) 4 KIND_DELEGATION_GRANT [gate_tag [''d'', ''g1'']] ''{}''"

definition demo_log :: nevent where
  "demo_log = gate_event ''log'' (key_of (CHR ''c'')) 8 0 [] ''{}''"

definition demo_decision :: ParsedDecisionLog where
  "demo_decision = \<lparr>dec_grant = ''g1'', dec_tasks = [''t''], dec_decision = ''book'', dec_undo_path = ''cancel'',
     dec_category = ''travel'', dec_amount = Some 5\<rparr>"

lemma shaken_fault: "hd l \<noteq> ''replies'' \<Longrightarrow> re_fault demo_shaken l = NoFault"
  by (simp add: demo_shaken_def gate_env_def)

lemma demo_tier:
  "agent_tier demo_shaken 2 (demo_office evs) (key_of (CHR ''a'')) = Inr (Some Worker)"
  "agent_tier demo_shaken 2 (demo_office evs) (key_of (CHR ''c'')) = Inr (Some Leader)"
  by (simp_all add: agent_tier_def ws_read_def shaken_fault demo_office_def gate_defs find_employee_def rank_or_worker_def
      agent_tier_parse_def)

lemma demo_owner: "is_owner 2 (demo_office evs) p \<longleftrightarrow> p = key_of (CHR ''b'')"
  by (simp add: is_owner_def role_of_def demo_office_def demo_workspace_def demo_member_def)

lemma demo_holds: "holds_owner demo_shaken msg 2 p (demo_office evs) = Inr (p = key_of (CHR ''b''))"
  by (simp only: holds_owner_Inr demo_owner) (simp add: shaken_fault)

definition demo_desk :: workspace where
  "demo_desk = demo_office [gate_row demo_root None, gate_row demo_grant (Some ''g1'')]"

lemma demo_desk_holds: "holds_owner demo_shaken msg 2 p demo_desk = Inr (p = key_of (CHR ''b''))"
  by (simp add: demo_desk_def demo_holds)

lemma gate_row_event [simp]: "rw_event (snd (gate_row ev d)) = ev"
  by (simp add: gate_row_def)

lemma demo_root_found:
  "get_event_by_id 2 (key_of (CHR ''0'')) (ws_events demo_desk) = Some (row_to_stored_event (snd (gate_row demo_root None)))"
  by (simp add: get_event_by_id_def newest_of_def newest_first_def live_row_def demo_desk_def demo_office_def demo_root_def
      demo_grant_def gate_defs key_of_def eval_nat_numeral)

lemma demo_grant_rows:
  "query_events (head_query 2 KIND_DELEGATION_GRANT ''g1'' 20) (ws_events demo_desk) = Inr [row_to_stored_event (snd (gate_row demo_grant (Some ''g1'')))]"
  unfolding head_query_page
  by (simp add: candidate_heads_def newest_first_def demo_desk_def demo_office_def demo_root_def where_clause_def
      head_query_def for_community_def if_some_def before_cursor_def demo_grant_def gate_defs Let_def)

lemma graphic_no_ws: "list_all is_ascii_graphic s \<Longrightarrow> ws_len s = 0"
proof (cases s)
  case (Cons a r)
  assume "list_all is_ascii_graphic s"
  with Cons have "33 \<le> byte a" "byte a \<le> 126" by (auto simp: is_ascii_graphic_def)
  then have "\<not> ws1 (byte a)" "\<And>b. \<not> ws2 (byte a) b" "\<And>b c. \<not> ws3 (byte a) b c"
    by (auto simp: ws1_def ws2_def ws3_def)
  with Cons show ?thesis by (auto split: list.split)
qed simp

lemma graphic_trim: "list_all is_ascii_graphic s \<Longrightarrow> trim s = s"
proof -
  assume h: "list_all is_ascii_graphic s"
  have "ws_len (drop n s) = 0" for n
    using h by (intro graphic_no_ws) (auto simp: list_all_iff dest: in_set_dropD)
  then have "ws_suffix_len s = 0" by (simp add: ws_suffix_len_def)
  with graphic_no_ws [OF h] show ?thesis by (simp add: trim_def trim_start_id trim_end_id)
qed

lemma demo_grant_parsed:
  "parse_grant (re_read_json demo_shaken) demo_grant = Inr \<lparr>gra_id = ''g1'', gra_category = ''travel'', gra_scope = ''trains'', gra_cap = Some 5, gra_active = True\<rparr>"
  by (simp add: parse_grant_def single_tag_value_def ask_tag_values_def demo_grant_def gate_event_def gate_tag_def
      List.map_filter_def parse_content_def demo_shaken_def gate_env_def required_content_field_def get_str_def
      graphic_trim is_ascii_graphic_def byte_def is_hard_list_category_def HARD_LIST_CATEGORIES_def to_ascii_lowercase_def
      ascii_lower_def is_ascii_uppercase_def VAGUE_GRANT_SCOPES_def required_content_bool_field_def get_bool_def
      parse_non_negative_amount_def get_amount_def res_simps)

lemma demo_gate_passes:
  "enforce_owner_contact demo_shaken 2 demo_desk (demo_reply_to_owner (key_of (CHR ''b''))) (key_of (CHR ''a'')) = Inr ()"
proof -
  have "owner_thread_permits demo_shaken 2 demo_desk (key_of (CHR ''0'')) (key_of (CHR ''b'')) (key_of (CHR ''a'')) = Inr True"
    by (simp add: owner_thread_permits_def ws_read_def shaken_fault demo_root_found demo_root_def gate_defs)
  then show ?thesis
    by (simp add: enforce_owner_contact_def demo_p_tags is_gated_kind_def demo_tier demo_desk_def demo_holds contact_owners_def
        demo_reply_root is_direct_contact_kind_def KIND_STREAM_MESSAGE_def KIND_DM_OPEN_def KIND_DM_ADD_MEMBER_def KIND_GIFT_WRAP_def)
qed

lemma demo_grant_authored: "enforce_grant_authorship demo_shaken 2 demo_desk demo_grant = Inr ()"
  by (simp add: enforce_grant_authorship_def demo_desk_def demo_holds demo_grant_def gate_event_def)

lemma demo_decision_passes: "enforce_decision_log_authority demo_shaken 2 demo_desk demo_log demo_decision = Inr ()"
proof -
  have "active_grant demo_shaken 2 demo_desk ''g1'' = Inr (Some \<lparr>gra_id = ''g1'', gra_category = ''travel'', gra_scope = ''trains'', gra_cap = Some 5, gra_active = True\<rparr>)"
    by (simp add: active_grant_def ws_query_def ws_read_def shaken_fault MAX_CANDIDATE_GRANT_HEADS_def demo_grant_rows
        demo_desk_holds demo_grant_parsed) (simp add: demo_grant_def gate_event_def)
  then show ?thesis
    using demo_tier(2) [where evs = "[gate_row demo_root None, gate_row demo_grant (Some ''g1'')]"]
    by (simp add: enforce_decision_log_authority_def demo_log_def gate_event_def demo_decision_def covered_by_def map_err_def demo_desk_def)
qed

theorem gate_fails_closed_witness:
  "enforce_owner_contact (calm demo_shaken) 2 demo_desk (demo_reply_to_owner (key_of (CHR ''b''))) (key_of (CHR ''a'')) = Inr ()
   \<and> enforce_grant_authorship (calm demo_shaken) 2 demo_desk demo_grant = Inr ()
   \<and> enforce_decision_log_authority (calm demo_shaken) 2 demo_desk demo_log demo_decision = Inr ()"
  using gate_fails_closed [of demo_shaken 2 demo_desk] demo_gate_passes demo_grant_authored demo_decision_passes by blast

theorem owner_reached_only_in_thread_witness:
  "thread_open_to 2 demo_desk (key_of (CHR ''0'')) (key_of (CHR ''b'')) (key_of (CHR ''a''))"
  using owner_reached_only_in_thread [OF demo_gate_passes, of Worker "key_of (CHR ''b'')"]
  by (simp add: demo_p_tags is_gated_kind_def demo_tier demo_desk_def demo_owner demo_reply_root)

theorem recorded_decision_is_covered_witness:
  "\<exists>head. owner_head 2 KIND_DELEGATION_GRANT ''g1'' demo_desk = Some head \<and> is_owner 2 demo_desk (ev_pubkey head)"
  using recorded_decision_is_covered [OF demo_decision_passes] by (auto simp: demo_decision_def)

text \<open>An agent \<open>e\<close> with no employee row, its head by the owner, and one by the worker.\<close>

definition demo_calm :: relay_env where
  "demo_calm = gate_env (\<lambda>_. NoFault) (\<lambda>_. Inr (JObj [(''tier'', JStr ''leader'')]))"

definition demo_agent_head :: "string \<Rightarrow> pubkey \<Rightarrow> nat \<Rightarrow> event_key \<times> EventRow" where
  "demo_agent_head i author t =
     gate_row (gate_event i author t KIND_MANAGED_AGENT [gate_tag [''manager'', key_of (CHR ''a'')]] ''{}'') (Some (key_of (CHR ''e'')))"

lemma calm_fault: "re_fault demo_calm l = NoFault"
  by (simp add: demo_calm_def gate_env_def)

lemma calm_reader: "re_read_json demo_calm s = Inr (JObj [(''tier'', JStr ''leader'')])"
  by (simp add: demo_calm_def gate_env_def)

lemma no_row: "find_employee 2 (key_of (CHR ''e'')) (ws_employees (demo_office evs)) = None"
  by (simp add: find_employee_def demo_office_def gate_defs)

lemmas demo_rows = candidate_heads_def newest_first_def newest_rank_def demo_office_def where_clause_def head_query_def for_community_def
  if_some_def before_cursor_def demo_agent_head_def gate_defs Let_def

theorem impostor_heads_do_not_move_tier_witness:
  "agent_tier demo_calm 2 (with_events [demo_agent_head ''h2'' (key_of (CHR ''a'')) 9] (demo_office [demo_agent_head ''h1'' (key_of (CHR ''b'')) 7]))
      (key_of (CHR ''e'')) = Inr (Some Leader)"
proof -
  let ?ws = "demo_office [demo_agent_head ''h1'' (key_of (CHR ''b'')) 7]"
  let ?head = "rw_event (snd (demo_agent_head ''h1'' (key_of (CHR ''b'')) 7))"
  have "candidate_heads 2 KIND_MANAGED_AGENT (key_of (CHR ''e'')) ?ws = [demo_agent_head ''h1'' (key_of (CHR ''b'')) 7]"
    by (simp add: demo_rows)
  then have "owner_head 2 KIND_MANAGED_AGENT (key_of (CHR ''e'')) ?ws = Some ?head"
    by (simp add: owner_head_def demo_owner) (simp add: demo_agent_head_def gate_row_def gate_event_def)
  then have "agent_tier demo_calm 2 ?ws (key_of (CHR ''e'')) = Inr (Some Leader)"
    by (simp add: agent_tier_heads [OF calm_fault] no_row head_tier_def calm_reader content_tier_def get_str_def
        agent_tier_parse_def)
  moreover have "agent_tier demo_calm 2 (with_events [demo_agent_head ''h2'' (key_of (CHR ''a'')) 9] ?ws) (key_of (CHR ''e'')) = agent_tier demo_calm 2 ?ws (key_of (CHR ''e''))"
  proof (rule impostor_heads_do_not_move_tier)
    show "\<forall>x\<in>set [demo_agent_head ''h2'' (key_of (CHR ''a'')) 9]. \<not> is_owner 2 ?ws (ev_pubkey (rw_event (snd x)))"
      by (simp add: demo_owner) (simp add: demo_agent_head_def gate_row_def gate_event_def)
    show "length (candidate_heads 2 KIND_MANAGED_AGENT (key_of (CHR ''e'')) (with_events [demo_agent_head ''h2'' (key_of (CHR ''a'')) 9] ?ws)) \<le> 20"
      by (simp add: candidate_heads_def newest_first_def with_events_def demo_office_def demo_workspace_def)
  qed (rule calm_fault)
  ultimately show ?thesis by simp
qed

theorem other_spelling_passes_gate_witness:
  "enforce_owner_contact demo_calm 2 (demo_office []) (demo_reply_to_owner (key_of (CHR ''B''))) (key_of (CHR ''a'')) = Inr ()
   \<and> (2, ''reply'', key_of (CHR ''b'')) \<in> ed_mentions (insert_mentions 2 (demo_reply_to_owner (key_of (CHR ''B''))) (ws_events (demo_office [])))"
proof -
  have "agent_tier demo_calm 2 (demo_office []) (key_of (CHR ''a'')) = Inr (Some Worker)"
    by (simp add: agent_tier_def ws_read_def calm_fault demo_office_def gate_defs find_employee_def rank_or_worker_def agent_tier_parse_def)
  moreover have "\<forall>p\<in>set (extract_p_tags (demo_reply_to_owner (key_of (CHR ''B'')))). get_relay_member 2 p (ws_members (demo_office [])) = None"
    by (simp add: demo_p_tags get_relay_member_def demo_office_def gate_defs)
  moreover have "key_of (CHR ''b'') \<in> set (mention_keys (demo_reply_to_owner (key_of (CHR ''B''))))"
    by (simp add: mention_keys_def demo_reply_to_owner_def gate_event_def gate_tag_def)
  moreover have "ev_id (demo_reply_to_owner (key_of (CHR ''B''))) = ''reply''" by (simp add: demo_reply_to_owner_def gate_event_def)
  ultimately show ?thesis using other_spelling_passes_gate [OF calm_fault] by metis
qed

theorem head_line_not_validated_witness:
  "agent_manager demo_calm 2 (demo_office [demo_agent_head ''h1'' (key_of (CHR ''b'')) 7]) (key_of (CHR ''e'')) = Inr (Some (key_of (CHR ''a'')))"
proof (rule head_line_not_validated [OF calm_fault])
  let ?ws = "demo_office [demo_agent_head ''h1'' (key_of (CHR ''b'')) 7]"
  have "candidate_heads 2 KIND_MANAGED_AGENT (key_of (CHR ''e'')) ?ws = [demo_agent_head ''h1'' (key_of (CHR ''b'')) 7]"
    by (simp add: demo_rows)
  then show "owner_head 2 KIND_MANAGED_AGENT (key_of (CHR ''e'')) ?ws = Some (rw_event (snd (demo_agent_head ''h1'' (key_of (CHR ''b'')) 7)))"
    by (simp add: owner_head_def demo_owner) (simp add: demo_agent_head_def gate_row_def gate_event_def)
  show "find_employee 2 (key_of (CHR ''e'')) (ws_employees ?ws) = None" by (rule no_row)
  show "event_single_tag (rw_event (snd (demo_agent_head ''h1'' (key_of (CHR ''b'')) 7))) ''manager'' = Some (key_of (CHR ''a''))"
    by (simp add: demo_agent_head_def gate_row_def gate_event_def event_single_tag_def gate_tag_def)
  show "re_key demo_calm (key_of (CHR ''a'')) = Some (key_of (CHR ''a''))" by (simp add: demo_calm_def gate_env_def)
qed

end
