(* ===== verification/Ask_Laws.thy ===== *)
theory Ask_Laws
  imports Ask_History Gate_Laws
begin

text \<open>
  What the ask protocol gives: the terms of an ask never change and what is settled stays
  settled; an ask is filed one rung up; only those it was put to may answer it; a default is
  taken only when it is due, stated and permitted; and a row the sweep has handled does not
  hold up the rows behind it.
\<close>

section \<open>The terms of an ask\<close>

definition ask_terms ::
  "AskRow \<Rightarrow> (community_id \<times> string) \<times> (string \<times> string \<times> string) \<times> (string \<times> string) \<times> (string option \<times> string option \<times> string option \<times> string option) \<times> int" where
  "ask_terms r = ((ak_community r, ak_event_id r), (ak_type r, ak_initiative r, ak_need r), (ak_audience r, ak_filer r),
     (ak_origin_thread r, ak_prior r, ak_category r, ak_default r), ak_created_at r)"

definition settled :: "AskRow \<Rightarrow> bool" where
  "settled r \<longleftrightarrow> ak_status r = ''resolved'' \<or> ak_status r = ''withdrawn''"

definition asks_sound :: "asks_table \<Rightarrow> bool" where
  "asks_sound tbl \<longleftrightarrow> asks_ok tbl \<and> (\<forall>x\<in>set tbl. default_permitted (snd x) \<and> fst x = (ak_community (snd x), ak_event_id (snd x)))"

lemma ask_update_rows:
  assumes "map_of tbl k = Some r"
  shows "\<exists>r'. map_of (snd (ask_update cond change tbl)) k = Some r' \<and> (r' = r \<or> cond (k, r) \<and> r' = change r)"
  using assms by (auto simp: ask_update_def sql_update_def Let_def map_of_changed)


lemma insert_ask_rows:
  "map_of tbl k = Some r \<Longrightarrow> map_of (snd (insert_ask now c n tbl)) k = Some r"
  by (auto simp: insert_ask_def sql_insert_def map_add_Some_iff)


text \<open>An update that keeps the terms and leaves settled rows alone.\<close>

lemma ask_update_keeps_terms:
  assumes "\<And>r. cond (k, r) \<Longrightarrow> ask_terms (change r) = ask_terms r \<and> \<not> settled r" and "map_of tbl k = Some r"
  shows "\<exists>r'. map_of (snd (ask_update cond change tbl)) k = Some r' \<and> ask_terms r' = ask_terms r \<and> (settled r \<longrightarrow> r' = r)"
  using ask_update_rows [OF assms(2), of cond change] assms(1) [of r] by auto

lemmas cond_defs = open_at_def promoted_at_def is_open_def settled_def

lemma ask_change_row:
  assumes "ask_change v tbl tbl'" and "map_of tbl k = Some r"
  shows "\<exists>r'. map_of tbl' k = Some r' \<and> ask_terms r' = ask_terms r \<and> (settled r \<longrightarrow> r' = r)"
  using assms
proof (induction rule: ask_change.induct)
  case (change_file now c n tbl)
  then show ?case using insert_ask_rows by blast
qed (unfold ask_write_defs, (rule ask_update_keeps_terms; auto simp: cond_defs ask_terms_def)+)

lemma ask_changes_row:
  assumes "(change_by V)\<^sup>*\<^sup>* tbl tbl'" and "map_of tbl k = Some r"
  shows "\<exists>r'. map_of tbl' k = Some r' \<and> ask_terms r' = ask_terms r \<and> (settled r \<longrightarrow> r' = r)"
  using assms
proof (induction rule: rtranclp_induct)
  case (step t u)
  then obtain r1 where r1: "map_of t k = Some r1" "ask_terms r1 = ask_terms r" "settled r \<longrightarrow> r1 = r" by auto
  obtain v where "ask_change v t u" using step.hyps(2) by (auto simp: change_by_def)
  from ask_change_row [OF this r1(1)] r1 show ?case by (auto simp: ask_terms_def)
qed simp

lemma update_sound:
  assumes "asks_sound tbl" and "\<And>x. cond x \<Longrightarrow> ask_terms (change (snd x)) = ask_terms (snd x)"
  shows "asks_sound (snd (ask_update cond change tbl))"
proof -
  have terms: "default_permitted (change (snd x)) = default_permitted (snd x)"
    "ak_community (change (snd x)) = ak_community (snd x)" "ak_event_id (change (snd x)) = ak_event_id (snd x)" if "cond x" for x
    using assms(2) [OF that] by (auto simp: ask_terms_def default_permitted_def)
  have "default_permitted (snd x) \<and> fst x = (ak_community (snd x), ak_event_id (snd x))"
    if "x \<in> set (snd (ask_update cond change tbl))" for x
    using that assms(1) terms
    by (auto simp: asks_sound_def ask_update_def sql_update_def Let_def changed_def split: if_splits)
  then show ?thesis using assms(1) ask_writes(2) by (auto simp: asks_sound_def)
qed

lemma ask_change_sound: "ask_change v tbl tbl' \<Longrightarrow> asks_sound tbl \<Longrightarrow> asks_sound tbl'"
proof (induction rule: ask_change.induct)
  case (change_file now c n tbl)
  have "asks_ok (snd (insert_ask now c n tbl))" using change_file.prems ask_writes(1) by (auto simp: asks_sound_def)
  moreover have "set (snd (insert_ask now c n tbl)) \<subseteq> insert ((c, nk_event_id n), new_ask now c n) (set tbl)"
    by (auto simp: insert_ask_def sql_insert_def)
  ultimately show ?case using change_file by (auto simp: asks_sound_def new_ask_def)
qed (unfold ask_write_defs, (rule update_sound; auto simp: ask_terms_def)+)

lemma ask_changes_sound: "(change_by V)\<^sup>*\<^sup>* tbl tbl' \<Longrightarrow> asks_sound tbl \<Longrightarrow> asks_sound tbl'"
  by (induction rule: rtranclp_induct) (auto simp: change_by_def dest: ask_change_sound)


section \<open>What is left open\<close>




text \<open>Filing an ask opens nothing that was there before.\<close>

lemma filing_change_closed:
  assumes "ask_change v tbl tbl'" and "v \<in> filing" and "map_of tbl k = Some r" and "ak_status r \<noteq> ''open''"
  shows "map_of tbl' k = Some r"
  using assms
proof (induction rule: ask_change.induct)
  case (change_file now c n tbl)
  then show ?case using insert_ask_rows by blast
next
  case (change_withdraw tbl now c i e)
  then show ?case unfolding withdraw_ask_def
    using ask_update_rows [of tbl k r "open_at c i"] by (fastforce simp: cond_defs)
qed simp_all

lemma filing_changes_closed:
  "(change_by filing)\<^sup>*\<^sup>* tbl tbl' \<Longrightarrow> map_of tbl k = Some r \<Longrightarrow> ak_status r \<noteq> ''open'' \<Longrightarrow> map_of tbl' k = Some r"
  by (induction rule: rtranclp_induct) (auto simp: change_by_def intro: filing_change_closed)

section \<open>The sweep changes no member\<close>

lemma asks_call_members: "asks_call E l m s ws = (res, ws') \<Longrightarrow> ws_members ws' = ws_members ws"
  using asks_call_keeps(1) [of E l m s ws] by simp

lemma receipt_members [simp]: "ws_members (emit_ask_receipt E c root content p ch ws) = ws_members ws"
  by (simp add: emit_ask_receipt_def split: option.split sum.split)

lemma superseded_members [simp]: "ws_members (close_superseded_prior E c prior ev a ws) = ws_members ws"
  by (auto simp: close_superseded_prior_def Let_def split: sum.split option.split prod.split bool.split dest: asks_call_members)








section \<open>A default\<close>

text \<open>The signer of the \<open>nostr\<close> crate signs what it is given.\<close>

definition signer_ok :: "relay_env \<Rightarrow> bool" where
  "signer_ok E \<longleftrightarrow> (\<forall>p t k tags c. let ev = re_sign E p t k tags c in
     ev_pubkey ev = p \<and> ev_created_at ev = t \<and> ev_kind ev = k \<and> ev_tags ev = tags \<and> ev_content ev = c)"

lemma promoted_ask_fields:
  assumes "signer_ok E"
  shows "ev_kind (promoted_ask E ask target filer) = KIND_ASK" and "ev_content (promoted_ask E ask target filer) = ev_content ask"
    and "ev_pubkey (promoted_ask E ask target filer) = re_relay_key E"
    and "ev_tags (promoted_ask E ask target filer) = filter (\<lambda>t. \<not> names_promotion t) (ev_tags ask)
       @ [new_tag [''p'', target], new_tag [''prior'', ev_id ask], new_tag [''filer'', filer]]"
  using assms by (simp_all add: signer_ok_def promoted_ask_def relay_event_def Let_def)


lemma holds_owner_True: "holds_owner E msg c hex ws = Inr True \<Longrightarrow> is_owner c ws hex"
  by (auto simp: holds_owner_Inr)







lemma empty_asks_sound: "asks_sound []"
  by (simp add: asks_sound_def asks.empty_ok)

interpretation asking: invariant_machine "\<lambda>ws. ws_asks ws = []" ask_step "\<lambda>ws. asks_sound (ws_asks ws)"
  by unfold_locales (auto simp: empty_asks_sound dest: ask_changes_sound [OF ask_step_evolve])

text \<open>
  C12: In any history the terms of an ask never change, no row is lost, an ask that was answered or
  withdrawn is never touched again, and each need of an initiative has at most one open ask.
\<close>

theorem asks_keep_their_terms:
  assumes "ws_asks ws\<^sub>0 = []" and "ask_step\<^sup>*\<^sup>* ws\<^sub>0 ws" and "ask_step\<^sup>*\<^sup>* ws ws'"
  shows "(map_of (ws_asks ws) k = Some r \<longrightarrow>
       (\<exists>r'. map_of (ws_asks ws') k = Some r' \<and> ask_terms r' = ask_terms r
          \<and> (ak_status r \<in> {''resolved'', ''withdrawn''} \<longrightarrow> r' = r)))
     \<and> (\<forall>x\<in>set (ws_asks ws'). \<forall>y\<in>set (ws_asks ws'). is_open x \<and> is_open y \<and> need_of x = need_of y \<longrightarrow> x = y)"
proof
  show "map_of (ws_asks ws) k = Some r \<longrightarrow> (\<exists>r'. map_of (ws_asks ws') k = Some r' \<and> ask_terms r' = ask_terms r
          \<and> (ak_status r \<in> {''resolved'', ''withdrawn''} \<longrightarrow> r' = r))"
    using ask_changes_row [OF ask_steps_evolve [OF assms(3)]] by (auto simp: settled_def)
  have "asks_ok (ws_asks ws')"
    using asking.inv_reachable [of ws\<^sub>0 ws'] rtranclp_trans [OF assms(2,3)] assms(1) by (simp add: asks_sound_def)
  then show "\<forall>x\<in>set (ws_asks ws'). \<forall>y\<in>set (ws_asks ws'). is_open x \<and> is_open y \<and> need_of x = need_of y \<longrightarrow> x = y"
    using one_open_ask by blast
qed


section \<open>One rung up\<close>

lemma file_ask_row:
  assumes "file_ask E c ev a row ws = (Inr AskApplied, ws')"
  shows "\<exists>r. map_of (ws_asks ws') (c, nk_event_id row) = Some r \<and> ask_terms r = ask_terms (new_ask (int (re_now E)) c row)"
    and "find_open_ask_by_need c (nk_initiative row) (nk_need row) (ws_asks ws) = None"
proof -
  obtain tbl where ins: "insert_ask (int (re_now E)) c row (ws_asks ws) = (Inr (), tbl)"
    and ws': "ws' = (let ws1 = publish_head_for_new_ask E c (ev_id ev) (case nk_deadline row of Some d \<Rightarrow> d | None \<Rightarrow> 0)
         (ask_audience a) (ask_default a) (ws\<lparr>ws_asks := tbl\<rparr>)
       in case nk_prior row of None \<Rightarrow> ws1 | Some prior \<Rightarrow> close_superseded_prior E c prior ev a ws1)"
    using assms
    by (auto simp: file_ask_def Let_def sql_call_Inr and_then_Inr duplicate_of_def map_ok_Inr
        split: prod.splits sum.splits DbError.splits)
  have row: "map_of tbl (c, nk_event_id row) = Some (new_ask (int (re_now E)) c row)"
    using ins by (auto simp: insert_ask_def sql_insert_def map_of_append_new simp del: map_of_append split: if_splits)
  have "(change_by filing)\<^sup>*\<^sup>* tbl (ws_asks ws')"
    using close_superseded_evolve [of "publish_head_for_new_ask E c (ev_id ev) (case nk_deadline row of Some d \<Rightarrow> d | None \<Rightarrow> 0)
         (ask_audience a) (ask_default a) (ws\<lparr>ws_asks := tbl\<rparr>)" E c _ ev a]
    by (simp add: ws' Let_def split: option.split)
  from ask_changes_row [OF this row]
  show "\<exists>r. map_of (ws_asks ws') (c, nk_event_id row) = Some r \<and> ask_terms r = ask_terms (new_ask (int (re_now E)) c row)" by auto
  have "\<not> list_ex (ask_clash ((c, nk_event_id row), new_ask (int (re_now E)) c row)) (ws_asks ws)"
    using ins by (auto simp: insert_ask_def sql_insert_def split: if_splits)
  then show "find_open_ask_by_need c (nk_initiative row) (nk_need row) (ws_asks ws) = None"
    by (auto simp: find_open_ask_by_need_def found_ask_def find_None_iff list_ex_iff ask_clash_def need_of_def is_open_def new_ask_def)
qed

lemma handle_ask_applied:
  assumes "handle_ask E c seen ev ws = (Inr AskApplied, ws')"
  obtains a row where "parse_ask (re_read_json E) ev = Inr a" and "check_altitude E c seen ev a = Inr None"
    and "new_ask_row E (chosen_window E c seen a) ev a = Inr row" and "file_ask E c ev a row ws = (Inr AskApplied, ws')"
  using assms by (auto simp: handle_ask_def duplicate_of_def map_ok_Inr split: sum.splits option.splits)

text \<open>
  C14: An ask is accepted only from the relay itself, under its durable key, or one rung up the ladder:
  from a worker to a leader, from a leader to an executive, from an executive to an owner. It is
  then a row with the audience, the need and the type its event names, and no other ask for this
  need was open.
\<close>

theorem ask_goes_one_rung_up:
  assumes "handle_ask E c seen ev ws = (Inr AskApplied, ws')"
  shows "\<exists>a p r. parse_ask (re_read_json E) ev = Inr a \<and> re_key E (ask_audience a) = Some p
     \<and> (signed_by_relay E ev \<or> (\<exists>tier. agent_tier E c seen (ev_pubkey ev) = Inr (Some tier) \<and>
          (case tier of
             Worker \<Rightarrow> agent_tier E c seen p = Inr (Some Leader)
           | Leader \<Rightarrow> agent_tier E c seen p = Inr (Some Executive)
           | Executive \<Rightarrow> is_owner c seen (ask_audience a))))
     \<and> map_of (ws_asks ws') (c, ev_id ev) = Some r \<and> ak_audience r = p \<and> ak_initiative r = ask_initiative a
     \<and> ak_need r = ask_need a \<and> ak_type r = ask_type_as_str (ask_kind a)
     \<and> find_open_ask_by_need c (ask_initiative a) (ask_need a) (ws_asks ws) = None"
proof -
  obtain a row where a: "parse_ask (re_read_json E) ev = Inr a" "check_altitude E c seen ev a = Inr None"
    "new_ask_row E (chosen_window E c seen a) ev a = Inr row" "file_ask E c ev a row ws = (Inr AskApplied, ws')"
    using handle_ask_applied [OF assms] .
  obtain p where p: "re_key E (ask_audience a) = Some p" and row: "nk_event_id row = ev_id ev" "nk_audience row = p"
    "nk_initiative row = ask_initiative a" "nk_need row = ask_need a" "nk_type row = ask_type_as_str (ask_kind a)"
    using a(3) by (auto simp: new_ask_row_def and_then_Inr audience_key_def ok_or_Inr)
  obtain r where r: "map_of (ws_asks ws') (c, ev_id ev) = Some r" "ask_terms r = ask_terms (new_ask (int (re_now E)) c row)"
    using file_ask_row(1) [OF a(4)] row(1) by auto
  have "signed_by_relay E ev \<or> (\<exists>tier. agent_tier E c seen (ev_pubkey ev) = Inr (Some tier) \<and>
          (case tier of
             Worker \<Rightarrow> agent_tier E c seen p = Inr (Some Leader)
           | Leader \<Rightarrow> agent_tier E c seen p = Inr (Some Executive)
           | Executive \<Rightarrow> is_owner c seen (ask_audience a)))"
    using a(2) p by (auto simp: check_altitude_def and_then_Inr map_ok_Inr audience_key_def ok_or_Inr
        split: if_splits option.splits AgentTier.splits dest: holds_owner_True)
  then show ?thesis
    using a(1) p r row file_ask_row(2) [OF a(4)] by (auto simp: ask_terms_def new_ask_def)
qed

section \<open>Who may answer\<close>

text \<open>A conditional statement on one row: whether it hit, and what it left.\<close>

lemma ask_update_hit:
  assumes "ask_update cond change tbl = (Inr True, tbl')" and "keys_ok tbl" and "\<And>x. cond x \<Longrightarrow> fst x = k"
  obtains r where "map_of tbl k = Some r" and "cond (k, r)" and "map_of tbl' k = Some (change r)"
proof -
  have tbl': "tbl' = changed cond change tbl" and "filter cond tbl \<noteq> []"
    using assms(1) by (auto simp: ask_update_def sql_update_def Let_def map_prod_def map_ok_Inr split: if_splits)
  then obtain x where x: "x \<in> set tbl" "cond x" by (auto simp: filter_empty_conv)
  define r where "r = snd x"
  then have r: "x = (k, r)" using assms(3) [OF x(2)] by auto
  have "map_of tbl k = Some r" using x(1) assms(2) by (simp add: r keys_ok_def)
  then show thesis using that x(2) by (simp add: tbl' map_of_changed r)
qed

lemma ask_update_miss:
  assumes "ask_update cond change tbl = (Inr False, tbl')"
  shows "tbl' = tbl" and "map_of tbl k = Some r \<Longrightarrow> \<not> cond (k, r)"
proof -
  have none: "filter cond tbl = []" and tbl': "tbl' = changed cond change tbl"
    using assms by (auto simp: ask_update_def sql_update_def Let_def map_prod_def map_ok_Inr split: if_splits)
  then show "tbl' = tbl" using changed_none by blast
  show "map_of tbl k = Some r \<Longrightarrow> \<not> cond (k, r)" using none by (auto simp: filter_empty_conv dest: map_of_SomeD)
qed

lemma ask_call_hit:
  assumes "asks_call E l m (ask_update cond change) ws = (Inr True, ws')" and "keys_ok (ws_asks ws)" and "\<And>x. cond x \<Longrightarrow> fst x = k"
  obtains r where "map_of (ws_asks ws) k = Some r" and "cond (k, r)" and "map_of (ws_asks ws') k = Some (change r)"
proof -
  obtain tbl where hit: "ask_update cond change (ws_asks ws) = (Inr True, tbl)" and ws': "ws' = ws\<lparr>ws_asks := tbl\<rparr>"
    using assms(1) by (auto simp: asks_call_Inr)
  show thesis by (rule ask_update_hit [OF hit assms(2,3)]) (auto simp: ws' intro: that)
qed

lemma open_at_key: "open_at c i x \<Longrightarrow> fst x = (c, i)"
  by (simp add: open_at_def)

lemma handle_resolution_applied:
  assumes "handle_resolution E c ev ws = (Inr AskApplied, ws')"
  obtains parsed i st a where "parse_resolution (re_read_json E) ev = Inr parsed" and "hex_decode (pres_ask parsed) = Some i"
    and "re_durable E" and "load_ask E c ws i = Inr (Inr (st, a))"
    and "ev_pubkey ev = re_relay_key E \<or> resolution_signer_authorized E c ws (ev_pubkey ev) (ask_audience a) = Inr True"
    and "needs_answer (ask_kind a) \<longrightarrow> pres_answer parsed \<noteq> JNull"
    and "close_resolved E c ev parsed i st a ws = (Inr AskApplied, ws')"
  using assms
  by (auto simp: handle_resolution_def and_then_Inr map_ok_Inr ok_or_Inr split: if_splits sum.splits prod.splits bool.splits)

text \<open>
  C18: A resolution is accepted only from the relay, from the very agent or owner the ask was put to, or
  from an owner when it was put to an owner. It needs a durable relay key, and an answer when a
  decision or a question was asked; it closes an open ask, once, in the name of its signer.
\<close>

theorem answered_by_right:
  assumes "handle_resolution E c ev ws = (Inr AskApplied, ws')" and "asks_sound (ws_asks ws)"
  shows "\<exists>parsed i st a r r'. parse_resolution (re_read_json E) ev = Inr parsed \<and> hex_decode (pres_ask parsed) = Some i
     \<and> re_durable E \<and> get_event_by_id c i (ws_events ws) = Some st \<and> parse_ask (re_read_json E) (se_event st) = Inr a
     \<and> (ev_pubkey ev = re_relay_key E \<or> ev_pubkey ev = ask_audience a
        \<or> is_owner c ws (ask_audience a) \<and> is_owner c ws (ev_pubkey ev))
     \<and> (ask_kind a \<in> {Decision, Question} \<longrightarrow> pres_answer parsed \<noteq> JNull)
     \<and> map_of (ws_asks ws) (c, i) = Some r \<and> ak_status r = ''open''
     \<and> map_of (ws_asks ws') (c, i) = Some r' \<and> ak_status r' = ''resolved'' \<and> ak_resolution r' = Some (ev_id ev)
     \<and> ak_resolved_by r' = Some (ev_pubkey ev)"
proof -
  obtain parsed i st a where h: "parse_resolution (re_read_json E) ev = Inr parsed" "hex_decode (pres_ask parsed) = Some i"
    "re_durable E" "load_ask E c ws i = Inr (Inr (st, a))"
    "ev_pubkey ev = re_relay_key E \<or> resolution_signer_authorized E c ws (ev_pubkey ev) (ask_audience a) = Inr True"
    "needs_answer (ask_kind a) \<longrightarrow> pres_answer parsed \<noteq> JNull" "close_resolved E c ev parsed i st a ws = (Inr AskApplied, ws')"
    using handle_resolution_applied [OF assms(1)] .
  have stored: "get_event_by_id c i (ws_events ws) = Some st" "parse_ask (re_read_json E) (se_event st) = Inr a"
    using h(4) by (auto simp: load_ask_def and_then_Inr ws_read_def map_err_Inr res_simps split: option.splits sum.splits)
  have signer: "ev_pubkey ev = re_relay_key E \<or> ev_pubkey ev = ask_audience a
        \<or> is_owner c ws (ask_audience a) \<and> is_owner c ws (ev_pubkey ev)"
    using h(5) by (auto simp: resolution_signer_authorized_def and_then_Inr split: if_splits dest: holds_owner_True)
  obtain wsa where call: "asks_call E [''resolve'', i] ''database error resolving ask: ''
      (resolve_ask (int (re_now E)) c i (ev_id ev) (ev_pubkey ev) (pres_default_executed parsed)) ws = (Inr True, wsa)"
    and asks: "ws_asks ws' = ws_asks wsa"
    using h(7) wake_filer_asks [of E c st a]
    by (auto simp: close_resolved_def simp del: wake_filer_asks split: prod.splits sum.splits bool.splits)
       (metis heads_keep(11) snd_conv)
  have keys: "keys_ok (ws_asks ws)" using assms(2) by (simp add: asks_sound_def sql_table_ok_def)
  obtain r where "map_of (ws_asks ws) (c, i) = Some r" "open_at c i ((c, i), r)"
    "map_of (ws_asks wsa) (c, i) = Some (r\<lparr>ak_status := ''resolved'', ak_resolution := Some (ev_id ev),
        ak_resolved_by := Some (ev_pubkey ev), ak_default_executed := pres_default_executed parsed, ak_updated_at := int (re_now E)\<rparr>)"
    by (rule ask_call_hit [OF call [unfolded resolve_ask_def] keys open_at_key])
  then show ?thesis using h stored signer asks by (fastforce simp: needs_answer_def open_at_def is_open_def)
qed

section \<open>No row holds up the rows behind it\<close>

lemma ask_call_row:
  assumes "asks_call E l m (ask_update cond change) ws = (Inr b, wsa)" and "map_of (ws_asks wsa) k = Some r'"
  shows "\<exists>r. map_of (ws_asks ws) k = Some r \<and> (cond (k, r) \<and> r' = change r \<or> \<not> cond (k, r) \<and> r' = r)"
  using assms
  by (auto simp: asks_call_Inr ask_update_def sql_update_def Let_def map_prod_def map_ok_Inr map_of_changed split: if_splits option.splits)

lemma ask_call_some:
  assumes "asks_call E l m (ask_update cond change) ws = (Inr True, wsa)" and "\<And>x. cond x \<Longrightarrow> fst x = k"
  shows "map_of (ws_asks wsa) k \<noteq> None"
proof -
  have wsa: "ws_asks wsa = changed cond change (ws_asks ws)" and "filter cond (ws_asks ws) \<noteq> []"
    using assms(1) by (auto simp: asks_call_Inr ask_update_def sql_update_def Let_def map_prod_def map_ok_Inr split: if_splits)
  then obtain x where x: "x \<in> set (ws_asks ws)" "cond x" by (auto simp: filter_empty_conv)
  have "k \<in> fst ` set (ws_asks ws)" using x(1) assms(2) [OF x(2)] by (auto intro: rev_image_eqI)
  then show ?thesis by (auto simp: wsa map_of_changed map_of_eq_None_iff split: option.splits)
qed

text \<open>A row that no sweep takes up before an instant.\<close>

definition rests_until :: "int \<Rightarrow> AskRow \<Rightarrow> bool" where
  "rests_until t r \<longleftrightarrow> ak_status r \<noteq> ''open'' \<or> (\<exists>d. ak_deadline r = Some d \<and> t \<le> d)"

lemma not_open_rests: "ak_status r \<noteq> ''open'' \<Longrightarrow> rests_until t r"
  by (simp add: rests_until_def)

lemma resting_not_due: "rests_until t r \<Longrightarrow> now < t \<Longrightarrow> \<not> is_due now (k, r)"
  by (auto simp: rests_until_def is_due_def is_open_def)

lemma rearmed_later: "now + 60 < 2 ^ 63 \<Longrightarrow> now + 60 \<le> rearmed_deadline now t row"
  by (simp add: rearmed_deadline_def saturating_add_i64_def MIN_REDEADLINE_WINDOW_SECS_def)

lemma redeadline_rests:
  assumes "redeadline E c row now ws = (Inr u, ws')" and "now + 60 < 2 ^ 63"
    and "map_of (ws_asks ws') (c, ak_event_id row) = Some r'"
  shows "rests_until (now + 60) r'"
proof -
  obtain t b wsa where call: "asks_call E [''rearm'', ak_event_id row] ''database error extending ask deadline: ''
      (extend_ask_deadline (int (re_now E)) c (ak_event_id row) (rearmed_deadline now t row)) ws = (Inr b, wsa)"
    and asks: "ws_asks ws' = ws_asks wsa"
    using assms(1) by (auto simp: redeadline_def split: option.splits prod.splits sum.splits)
  show ?thesis
    using ask_call_row [OF call [unfolded extend_ask_deadline_def] assms(3) [unfolded asks]] rearmed_later [OF assms(2), of t row]
    by (auto simp: open_at_def is_open_def rests_until_def)
qed

lemma execute_default_rests:
  assumes "execute_default E c row st d stats ws = (Inr s, ws')" and "map_of (ws_asks ws') (c, ak_event_id row) = Some r'"
  shows "rests_until t r'"
proof -
  obtain b wsa where call: "asks_call E [''default'', ak_event_id row] ''database error resolving ask with default: ''
      (resolve_ask (int (re_now E)) c (ak_event_id row) (ev_id (default_resolution E row d)) (re_relay_key E) True) ws = (Inr b, wsa)"
    and asks: "ws_asks ws' = ws_asks wsa"
    using assms(1) by (auto simp: execute_default_def Let_def split: sum.splits prod.splits bool.splits option.splits)
  show ?thesis
    using ask_call_row [OF call [unfolded resolve_ask_def] assms(2) [unfolded asks]]
    by (auto simp: open_at_def is_open_def rests_until_def)
qed

lemma file_promoted_closed:
  assumes "signer_ok E" and "file_promoted_ask E c row st (promoted_ask E a p f) stats seen ws = (Inr s, ws')"
    and "map_of (ws_asks ws) k = Some r" and "ak_status r \<noteq> ''open''"
  shows "map_of (ws_asks ws') k = Some r"
proof -
  have filed: "asks_evolve filing ws (snd (handle_ask_event E c seen (promoted_ask E a p f) ws))"
    using handle_ask_evolve by (simp add: handle_ask_event_def promoted_ask_fields [OF assms(1)])
  have "ws_asks ws' = ws_asks (snd (handle_ask_event E c seen (promoted_ask E a p f) ws))"
    using assms(2) by (auto simp: file_promoted_ask_def split: prod.splits sum.splits AskBrokerOutcome.splits)
  then show ?thesis using filing_changes_closed [OF filed assms(3,4)] by simp
qed

lemma promote_to_rests:
  assumes "signer_ok E" and "promote_to E c row st target stats ws = (Inr s, ws')"
    and "map_of (ws_asks ws') (c, ak_event_id row) = Some r'"
  shows "rests_until t r'"
proof -
  obtain f where f: "re_key E (ak_filer row) = Some f" using assms(2) by (auto simp: promote_to_def split: option.splits)
  define ev where "ev = promoted_ask E (se_event st) target f"
  obtain b wsa where call: "asks_call E [''promote'', ak_event_id row] ''database error marking ask promoted: ''
      (mark_ask_promoted (int (re_now E)) c (ak_event_id row) (ev_id ev)) ws = (Inr b, wsa)"
    using assms(2) f by (auto simp: promote_to_def Let_def ev_def split: prod.splits sum.splits)
  have closed: "ak_status r \<noteq> ''open''" if "map_of (ws_asks wsa) (c, ak_event_id row) = Some r" for r
    using ask_call_row [OF call [unfolded mark_ask_promoted_def] that] by (auto simp: open_at_def is_open_def)
  have hit: "map_of (ws_asks wsa) (c, ak_event_id row) \<noteq> None" if b
    using ask_call_some [OF _ open_at_key] call that by (simp add: mark_ask_promoted_def)
  show ?thesis
  proof (cases b)
    case False
    then have "ws' = wsa" using assms(2) call by (simp add: promote_to_def f ev_def Let_def)
    then show ?thesis using closed assms(3) not_open_rests by blast
  next
    case True
    then obtain r where r: "map_of (ws_asks wsa) (c, ak_event_id row) = Some r" using hit by auto
    let ?w = "publish_closed_head E c (ak_event_id row) (ClosedPromoted (ev_id ev)) wsa"
    have "file_promoted_ask E c row st ev stats ?w ?w = (Inr s, ws')"
      using assms(2) call True by (simp add: promote_to_def f ev_def Let_def)
    from file_promoted_closed [OF assms(1) this [unfolded ev_def]] r closed [OF r] assms(3)
    show ?thesis using not_open_rests by (auto simp: ev_def)
  qed
qed

text \<open>
  C31: A row the sweep has handled without an error is out of the way for a minute at least: it was
  answered, promoted or closed meanwhile, or its deadline is now sixty seconds ahead or more.
\<close>

theorem handled_ask_yields:
  assumes "process_due_ask E row now stats ws = (Inr stats', ws')" and "signer_ok E" and "now + 60 < 2 ^ 63"
    and "map_of (ws_asks ws') (ak_community row, ak_event_id row) = Some r'"
  shows "(ak_status r' \<noteq> ''open'' \<or> (\<exists>d. ak_deadline r' = Some d \<and> now + 60 \<le> d))
    \<and> \<not> is_due now ((ak_community row, ak_event_id row), r')"
proof -
  let ?c = "ak_community row"
  have rearm: "rests_until (now + 60) r'"
    if "map_prod (map_ok (\<lambda>_. stats)) id (redeadline E ?c row now ws) = (Inr stats', ws')"
    using that redeadline_rests [OF _ assms(3,4)] by (auto simp: map_prod_def map_ok_Inr split: prod.splits)
  have promote: "rests_until (now + 60) r'" if "promote_or_redeadline E ?c row st now stats ws = (Inr stats', ws')" for st
    using that rearm promote_to_rests [OF assms(2) _ assms(4)]
    by (auto simp: promote_or_redeadline_def Let_def split: sum.splits option.splits)
  have "rests_until (now + 60) r'"
    using assms(1) rearm promote execute_default_rests [OF _ assms(4)]
    by (auto simp: process_due_ask_def Let_def split: sum.splits option.splits bool.splits)
  then show ?thesis using resting_not_due [of "now + 60" r' now] by (simp add: rests_until_def)
qed

section \<open>A promoted ask is the same ask\<close>

lemma map_filter_kept: "(\<And>t. f t \<noteq> None \<Longrightarrow> P t) \<Longrightarrow> List.map_filter f (filter P ts) = List.map_filter f ts"
  by (induction ts) (auto simp: map_filter_def)

lemma map_filter_gone: "(\<And>t. f t \<noteq> None \<Longrightarrow> \<not> P t) \<Longrightarrow> List.map_filter f (filter P ts) = []"
  by (induction ts) (auto simp: map_filter_def)

lemma tag_value_name:
  assumes "(case tag_slice t of [n, v] \<Rightarrow> if n = name then Some v else None | _ \<Rightarrow> None) \<noteq> None"
  shows "names_promotion t \<longleftrightarrow> name \<in> {''p'', ''prior'', ''filer''}"
proof -
  obtain v where "tag_slice t = [name, v]"
    using assms by (cases "tag_slice t" rule: remdups_adj.cases) (auto split: list.splits if_splits)
  then show ?thesis by (simp add: names_promotion_def)
qed

lemma promoted_tag_values:
  assumes "signer_ok E"
  shows "name \<notin> {''p'', ''prior'', ''filer''} \<Longrightarrow> ask_tag_values (promoted_ask E ask target filer) name = ask_tag_values ask name"
    and "ask_tag_values (promoted_ask E ask target filer) ''p'' = [target]"
    and "ask_tag_values (promoted_ask E ask target filer) ''prior'' = [ev_id ask]"
    and "ask_tag_values (promoted_ask E ask target filer) ''filer'' = [filer]"
proof -
  let ?read = "\<lambda>name. List.map_filter (\<lambda>t. case tag_slice t of [n, v] \<Rightarrow> if n = name then Some v else None | _ \<Rightarrow> None)"
  have kept: "?read name (filter (\<lambda>t. \<not> names_promotion t) ts) = ?read name ts" if "name \<notin> {''p'', ''prior'', ''filer''}" for name ts
    by (rule map_filter_kept) (use tag_value_name that in blast)
  have gone: "?read name (filter (\<lambda>t. \<not> names_promotion t) ts) = []" if "name \<in> {''p'', ''prior'', ''filer''}" for name ts
    by (rule map_filter_gone) (use tag_value_name that in blast)
  have all: "ask_tag_values (promoted_ask E ask target filer) name =
      ?read name (filter (\<lambda>t. \<not> names_promotion t) (ev_tags ask))
      @ ?read name [new_tag [''p'', target], new_tag [''prior'', ev_id ask], new_tag [''filer'', filer]]" for name
    by (simp only: ask_tag_values_def promoted_ask_fields [OF assms]) (simp add: map_filter_def)
  show "name \<notin> {''p'', ''prior'', ''filer''} \<Longrightarrow> ask_tag_values (promoted_ask E ask target filer) name = ask_tag_values ask name"
    unfolding all by (auto simp: kept new_tag_def map_filter_simps ask_tag_values_def)
  show "ask_tag_values (promoted_ask E ask target filer) ''p'' = [target]"
    "ask_tag_values (promoted_ask E ask target filer) ''prior'' = [ev_id ask]"
    "ask_tag_values (promoted_ask E ask target filer) ''filer'' = [filer]"
    unfolding all by (simp_all add: gone new_tag_def map_filter_simps)
qed

text \<open>
  The ask the sweep files in place of one it promotes is the same ask: the same type, initiative,
  need, tasks, thread, category, default, window and headline. Only the audience is the next rung,
  the prior is the ask promoted, and the filer is still who is blocked.
\<close>

theorem promotion_keeps_the_ask:
  assumes "signer_ok E" and "parse_ask rd ask = Inr a"
    and "is_hex64_lowercase target" and "is_hex64_lowercase (ev_id ask)" and "is_hex64_lowercase filer"
  shows "parse_ask rd (promoted_ask E ask target filer) =
    Inr (a\<lparr>ask_audience := target, ask_prior := Some (ev_id ask), ask_filer := Some filer\<rparr>)"
proof -
  note vals = promoted_tag_values [OF assms(1), where ask = ask and target = target and filer = filer]
  have hex: "single_hex_tag (promoted_ask E ask target filer) ''p'' = Inr target"
    "optional_hex_tag (promoted_ask E ask target filer) ''prior'' = Inr (Some (ev_id ask))"
    "optional_hex_tag (promoted_ask E ask target filer) ''filer'' = Inr (Some filer)"
    using assms(3-5)
    by (simp_all add: single_hex_tag_def single_tag_value_def optional_hex_tag_def optional_tag_value_def vals
        validate_hex64_field_def and_then_def map_ok_def)
  have same: "single_tag_value (promoted_ask E ask target filer) n = single_tag_value ask n"
    "optional_tag_value (promoted_ask E ask target filer) n = optional_tag_value ask n"
    "optional_hex_tag (promoted_ask E ask target filer) n = optional_hex_tag ask n"
    "ask_tag_values (promoted_ask E ask target filer) n = ask_tag_values ask n" if "n \<notin> {''p'', ''prior'', ''filer''}" for n
    using vals(1) [OF that] by (simp_all add: single_tag_value_def optional_tag_value_def optional_hex_tag_def)
  have content: "parse_content rd (promoted_ask E ask target filer) = parse_content rd ask"
    by (simp add: parse_content_def promoted_ask_fields [OF assms(1)])
  obtain raw content' where parts: "single_tag_value ask ''ask-type'' = Inr raw" "ok_or (UnknownAskType raw) (ask_type_parse raw) = Inr (ask_kind a)"
    "single_tag_value ask ''initiative'' = Inr (ask_initiative a)" "single_tag_value ask ''need'' = Inr (ask_need a)"
    "is_valid_need_slug (ask_need a)" "ask_tag_values ask ''task'' = ask_tasks a" "ask_tasks a \<noteq> []"
    "optional_hex_tag ask ''e'' = Inr (ask_origin_thread a)" "optional_tag_value ask ''category'' = Inr (ask_category a)"
    "parse_content rd ask = Inr content'" "required_content_field content' ''headline'' = Inr (ask_headline a)"
    "required_content_field content' ''cost_of_delay'' = Inr (ask_cost_of_delay a)"
    "get_str ''default_option'' content' = ask_default a" "Option.bind (json_get ''default_window_secs'' content') as_u64 = ask_window a"
    "check_window (ask_window a) = Inr ()" "check_default (ask_kind a) (ask_category a) content' (ask_default a) = Inr ()"
    using assms(2) unfolding parse_ask_def Let_def
    by (elim and_thenE) (simp split: if_split_asm, elim and_thenE, clarsimp)
  show ?thesis
    unfolding parse_ask_def Let_def content hex by (simp add: same parts and_then_def)
qed

end
