(* ===== verification/Employee_Laws.thy ===== *)
theory Employee_Laws
  imports Employee_Broker Gate_Laws
begin

text \<open>
  What hiring and updating give: one request hires one employee, whoever repeats it; only a current
  owner hires or changes anyone; and no update leaves a report that is found without the rung above it.
\<close>

section \<open>The payroll over time\<close>

text \<open>Who an employee is: its key, the seal on its secret, the hire it came from, the bundled entry.\<close>

definition identity :: "EmployeeRow \<Rightarrow> string \<times> string \<times> string option \<times> string option \<times> string option" where
  "identity r = (em_pubkey r, em_sealed_key r, em_hired_by r, em_hire_event r, em_provisioned_handle r)"

inductive employee_step :: "workspace \<Rightarrow> workspace \<Rightarrow> bool" where
  emp_hire: "employee_step ws (snd (handle_hire_request E K c seen ev ws))"
| emp_update: "employee_step ws (snd (handle_employee_update E K c seen ev ws))"
| emp_provision: "employee_step ws (ws\<lparr>ws_employees := snd (insert_provisioned_employee now c p (ws_employees ws))\<rparr>)"
| emp_reprovision: "employee_step ws (ws\<lparr>ws_employees := snd (update_provisioned_employee now c u (ws_employees ws))\<rparr>)"
| emp_elsewhere: "ws_employees ws' = ws_employees ws \<Longrightarrow> employee_step ws ws'"

lemma receipt_employees [simp]: "ws_employees (emit_ask_receipt E c root content p ch ws) = ws_employees ws"
  by (simp add: emit_ask_receipt_def split: option.split sum.split)

lemma publish_head_employees [simp]: "ws_employees (publish_employee_head E c k f ws) = ws_employees ws"
  by (simp add: publish_employee_head_def Let_def)

lemma republish_employees [simp]: "ws_employees (republish_employee_head E c k r ws) = ws_employees ws"
  by (simp add: republish_employee_head_def split: option.split)

lemma asks_call_employees: "asks_call E l m s ws = (res, ws') \<Longrightarrow> ws_employees ws' = ws_employees ws"
  using asks_call_keeps(2) [of E l m s ws] by simp

lemma wake_hiring_employees [simp]: "ws_employees (wake_hiring_filer E c row q ws) = ws_employees ws"
  by (simp add: wake_hiring_filer_def split: option.split sum.split)

lemma hire_resolves_employees [simp]: "ws_employees (resolve_hiring_ask_for_hire E c ev out q k ws) = ws_employees ws"
  by (auto simp: resolve_hiring_ask_for_hire_def Let_def split: sum.split option.split prod.split bool.split dest: asks_call_employees)

text \<open>Every write on the payroll inserts a row or keeps the identities.\<close>

lemma insert_ignore_rows:
  "map_of tbl k = Some r \<Longrightarrow> map_of (snd (sql_insert_ignore check clash k' row tbl)) k = Some r"
  by (auto simp: sql_insert_ignore_def sql_insert_def)

lemma update_rows:
  assumes "map_of tbl k = Some r" and "\<And>r. identity (change r) = identity r"
  shows "\<exists>r'. map_of (snd (sql_update check clash cond change tbl)) k = Some r' \<and> identity r' = identity r"
  using assms by (auto simp: sql_update_def Let_def map_of_changed)

lemma update_employee_identity:
  "map_of tbl k = Some r \<Longrightarrow> \<exists>r'. map_of (snd (update_employee now c p rank manager status tbl)) k = Some r' \<and> identity r' = identity r"
  by (simp add: update_employee_def, rule update_rows) (simp_all add: identity_def set_employee_def)

lemma sql_call_rows:
  assumes "\<And>r. map_of tbl k = Some r \<Longrightarrow> \<exists>r'. map_of (snd (s tbl)) k = Some r' \<and> identity r' = identity r" and "map_of tbl k = Some r"
  shows "\<exists>r'. map_of (snd (sql_call fault s tbl)) k = Some r' \<and> identity r' = identity r"
  using sql_call_state [of fault s tbl] assms by auto

lemma insert_employee_rows:
  "map_of tbl k = Some r \<Longrightarrow> map_of (snd (insert_employee now c e tbl)) k = Some r"
  "map_of tbl k = Some r \<Longrightarrow> map_of (snd (insert_provisioned_employee now c p tbl)) k = Some r"
  by (simp_all add: insert_employee_def insert_provisioned_employee_def Let_def insert_ignore_rows)

lemma provisioned_identity:
  "map_of tbl k = Some r \<Longrightarrow> \<exists>r'. map_of (snd (update_provisioned_employee now c u tbl)) k = Some r' \<and> identity r' = identity r"
  by (simp add: update_provisioned_employee_def, rule update_rows) (simp_all add: identity_def)

definition hire_row :: "relay_env \<Rightarrow> key_env \<Rightarrow> nevent \<Rightarrow> ParsedHireRequest \<Rightarrow> string option \<Rightarrow> string \<Rightarrow> NewEmployee" where
  "hire_row E K ev request manager sealed =
     \<lparr>ne_pubkey = ke_new K, ne_sealed_key = sealed, ne_role_id = hq_role_id request, ne_display_name = hq_display_name request,
      ne_rank = agent_tier_as_str (hq_rank request), ne_hired_by = ev_pubkey ev, ne_hire_event = ev_id ev, ne_manager = manager\<rparr>"

lemma record_hire_employees:
  "ws_employees (snd (record_hire E K c ev q m s ws)) =
     snd (sql_call (re_fault E [''hire'', ev_id ev]) (insert_employee (int (re_now E)) c (hire_row E K ev q m s)) (ws_employees ws))"
  by (simp add: record_hire_def hire_row_def split: prod.split sum.split option.split)

lemma handle_hire_employees:
  obtains "ws_employees (snd (handle_hire_request E K c seen ev ws)) = ws_employees ws"
  | q m s where "handle_hire_request E K c seen ev ws = record_hire E K c ev q m s ws"
proof -
  have "ws_employees (snd (handle_hire_request E K c seen ev ws)) = ws_employees ws
      \<or> (\<exists>q m s. handle_hire_request E K c seen ev ws = record_hire E K c ev q m s ws)"
    by (auto simp: handle_hire_request_def split: sum.split option.split bool.split)
  then show thesis using that by blast
qed

lemma employee_step_rows:
  assumes "employee_step ws ws'" and "map_of (ws_employees ws) k = Some r"
  shows "\<exists>r'. map_of (ws_employees ws') k = Some r' \<and> identity r' = identity r"
  using assms
proof (induction rule: employee_step.induct)
  case (emp_hire ws E K c seen ev)
  show ?case
  proof (cases rule: handle_hire_employees [of E K c seen ev ws])
    case (2 q m s)
    then show ?thesis
      using sql_call_rows [where tbl = "ws_employees ws" and s = "insert_employee (int (re_now E)) c (hire_row E K ev q m s)"]
        insert_employee_rows(1) emp_hire by (auto simp: record_hire_employees)
  qed (use emp_hire in simp)
next
  case (emp_update ws E K c seen ev)
  have call: "\<exists>r'. map_of (ws_employees (snd (employees_call E l msg (update_employee now c p rank manager status) ws))) k = Some r'
      \<and> identity r' = identity r" for l msg now p rank manager status
    using sql_call_rows [where s = "update_employee now c p rank manager status", OF update_employee_identity emp_update]
    by (simp add: employees_call_def split: prod.split) (metis snd_conv)
  have "\<exists>r'. map_of (ws_employees (snd (apply_update E K c ev u p ws))) k = Some r' \<and> identity r' = identity r" for u p
    using call emp_update
    by (auto simp: apply_update_def split: sum.split prod.split option.split) (metis snd_conv)+
  then show ?case
    using emp_update by (auto simp: handle_employee_update_def split: sum.split option.split)
qed (use insert_employee_rows(2) provisioned_identity in auto)

lemma employee_steps_rows:
  assumes "employee_step\<^sup>*\<^sup>* ws ws'" and "map_of (ws_employees ws) k = Some r"
  shows "\<exists>r'. map_of (ws_employees ws') k = Some r' \<and> identity r' = identity r"
  using assms
proof (induction rule: rtranclp_induct)
  case (step v w)
  then show ?case using employee_step_rows by metis
qed simp

section \<open>One hire\<close>

lemma insert_employee_clash:
  assumes "((c, p), r) \<in> set tbl" and "em_hire_event r = Some (ne_hire_event e)"
  shows "snd (insert_employee now c e tbl) = tbl" and "fst (insert_employee now c e tbl) \<noteq> Inr (Some row)"
proof -
  have "list_ex (employee_clash ((c, ne_pubkey e), x)) tbl" if "em_hire_event x = Some (ne_hire_event e)" for x
    using assms that by (auto simp: list_ex_iff employee_clash_def Let_def intro!: bexI [of _ "((c, p), r)"])
  then show "snd (insert_employee now c e tbl) = tbl" and "fst (insert_employee now c e tbl) \<noteq> Inr (Some row)"
    by (auto simp: insert_employee_def returned_row_def sql_insert_ignore_def sql_insert_def Let_def map_ok_def)
qed

lemma insert_employee_done:
  assumes "insert_employee now c e tbl = (Inr (Some row), tbl')"
  shows "map_of tbl' (c, ne_pubkey e) = Some row" and "em_hire_event row = Some (ne_hire_event e)" and "em_hired_by row = Some (ne_hired_by e)"
  using assms
  by (auto simp: insert_employee_def returned_row_def sql_insert_ignore_def sql_insert_def Let_def map_prod_def map_ok_Inr
      map_of_append_new simp del: map_of_append split: if_splits prod.splits sum.splits DbError.splits)

lemma hire_hired:
  assumes "handle_hire_request E K c seen ev ws = (Inr Hired, ws')"
  obtains q m s row tbl where "parse_hire_request ev = Inr q" and "is_owner c seen (ev_pubkey ev)" and "hire_manager E c seen q = Inr m"
    and "insert_employee (int (re_now E)) c (hire_row E K ev q m s) (ws_employees ws) = (Inr (Some row), ws_employees ws')"
proof -
  obtain q m s where h: "parse_hire_request ev = Inr q" "is_owner c seen (ev_pubkey ev)" "hire_manager E c seen q = Inr m"
    "record_hire E K c ev q m s ws = (Inr Hired, ws')"
    using assms by (auto simp: handle_hire_request_def holds_owner_Inr split: sum.splits option.splits bool.splits if_splits)
  have "\<exists>row. insert_employee (int (re_now E)) c (hire_row E K ev q m s) (ws_employees ws) = (Inr (Some row), ws_employees ws')"
    using h(4) by (auto simp: record_hire_def hire_row_def sql_call_Inr split: prod.splits sum.splits option.splits)
  then show thesis using that h by blast
qed

text \<open>
  C30: A hire that is answered with success was asked for by a current owner and recorded one employee
  under that request; whatever happens to the payroll afterwards, the same request, however often
  and wherever it is handled again, hires nobody else.
\<close>

theorem hired_once:
  assumes "handle_hire_request E K c seen ev ws = (Inr Hired, ws\<^sub>1)" and "employee_step\<^sup>*\<^sup>* ws\<^sub>1 ws\<^sub>2"
    and "handle_hire_request E' K' c seen' ev ws\<^sub>2 = (res, ws\<^sub>3)"
  shows "is_owner c seen (ev_pubkey ev)
     \<and> (\<exists>r. map_of (ws_employees ws\<^sub>1) (c, ke_new K) = Some r \<and> em_hire_event r = Some (ev_id ev) \<and> em_hired_by r = Some (ev_pubkey ev))
     \<and> res \<noteq> Inr Hired \<and> ws_employees ws\<^sub>3 = ws_employees ws\<^sub>2"
proof -
  obtain q m s row where h: "is_owner c seen (ev_pubkey ev)"
    "insert_employee (int (re_now E)) c (hire_row E K ev q m s) (ws_employees ws) = (Inr (Some row), ws_employees ws\<^sub>1)"
    using hire_hired [OF assms(1)] .
  have row: "map_of (ws_employees ws\<^sub>1) (c, ke_new K) = Some row" "em_hire_event row = Some (ev_id ev)" "em_hired_by row = Some (ev_pubkey ev)"
    using insert_employee_done [OF h(2)] by (simp_all add: hire_row_def)
  obtain r where r: "map_of (ws_employees ws\<^sub>2) (c, ke_new K) = Some r" "em_hire_event r = Some (ev_id ev)"
    using employee_steps_rows [OF assms(2) row(1)] row(2) by (auto simp: identity_def)
  have clash: "snd (insert_employee now c (hire_row E' K' ev q' m' s') (ws_employees ws\<^sub>2)) = ws_employees ws\<^sub>2"
    "fst (insert_employee now c (hire_row E' K' ev q' m' s') (ws_employees ws\<^sub>2)) \<noteq> Inr (Some x)" for now q' m' s' x
    using insert_employee_clash [OF map_of_SomeD [OF r(1)], of "hire_row E' K' ev q' m' s'"] r(2) by (simp_all add: hire_row_def)
  have "res \<noteq> Inr Hired"
    using hire_hired [of E' K' c seen' ev ws\<^sub>2 ws\<^sub>3] assms(3) clash(2) by (metis fst_conv)
  moreover have "ws_employees ws\<^sub>3 = ws_employees ws\<^sub>2"
  proof (cases rule: handle_hire_employees [of E' K' c seen' ev ws\<^sub>2])
    case (2 q' m' s')
    then have "ws\<^sub>3 = snd (record_hire E' K' c ev q' m' s' ws\<^sub>2)" using assms(3) by (metis snd_conv)
    then show ?thesis
      using record_hire_employees [of E' K' c ev q' m' s' ws\<^sub>2] clash(1)
        sql_call_state [of "re_fault E' [''hire'', ev_id ev]" "insert_employee (int (re_now E')) c (hire_row E' K' ev q' m' s')" "ws_employees ws\<^sub>2"]
      by auto
  qed (use assms(3) in simp)
  ultimately show ?thesis using h(1) row by blast
qed

section \<open>Updates\<close>









lemma check_line_ok:
  assumes "check_line E c ws parsed row new_rank target = Inr ()"
  shows "new_rank = Executive \<Longrightarrow> eu_manager parsed = None"
    and "new_rank \<noteq> Executive \<Longrightarrow> (case eu_manager parsed of Some m \<Rightarrow> Some m | None \<Rightarrow> em_manager row) = Some m \<Longrightarrow>
       \<exists>p. re_key E m = Some p \<and> p \<noteq> target \<and> agent_tier E c ws p = Inr (Some (escalation_target new_rank))"
  using assms
  by (auto simp: check_line_def validate_manager_for_rank_def and_then_Inr ok_or_Inr split: if_splits option.splits)


lemma check_update_ok:
  assumes "check_update E c ws u row = Inr ()"
  shows "em_status row = ''active''" and "em_provisioned_handle row = None"
    and "\<exists>target. re_key E (eu_pubkey_hex u) = Some target \<and> (eu_retire u \<longrightarrow> direct_reports E c ws target = Inr [])
      \<and> (\<not> eu_retire u \<longrightarrow> (\<exists>current. agent_tier_parse (em_rank row) = Some current
       \<and> check_line E c ws u row (case eu_rank u of Some r \<Rightarrow> r | None \<Rightarrow> current) target = Inr ()
       \<and> check_stranded E c ws u current (case eu_rank u of Some r \<Rightarrow> r | None \<Rightarrow> current) target = Inr ()))"
  using assms by (auto simp: check_update_def check_retire_def Let_def and_then_Inr ok_or_Inr split: if_splits)

lemma enforced_update:
  assumes "enforce_employee_update E c ws ev = Inr u"
  obtains b row where "is_owner c ws (ev_pubkey ev)" and "hex_decode (eu_pubkey_hex u) = Some b"
    and "find_employee c b (ws_employees ws) = Some row" and "check_update E c ws u row = Inr ()" and "parse_employee_update ev = Inr u"
  using assms
  by (auto simp: enforce_employee_update_def and_then_Inr map_ok_Inr map_err_Inr ok_or_Inr holds_owner_Inr ws_read_def sql_read_Inr
      split: if_splits option.splits)


text \<open>
  A promotion to executive is meant to clear the reporting line, since an executive has none. The row
  keeps it: the null that asks for this is taken for no change.
\<close>

theorem promotion_keeps_reporting_line:
  assumes "handle_employee_update E K c seen ev ws = (Inr EmployeeUpdated, ws')" and "parse_employee_update ev = Inr u"
    and "eu_rank u = Some Executive" and "hex_decode (eu_pubkey_hex u) = Some b"
    and "find_employee c b (ws_employees ws) = Some row" and "em_status row = ''active''"
  shows "\<exists>row'. find_employee c b (ws_employees ws') = Some row' \<and> em_rank row' = ''executive'' \<and> em_manager row' = em_manager row"
proof -
  have enforced: "enforce_employee_update E c seen ev = Inr u" "eu_manager u = None" "\<not> eu_retire u"
  proof -
    obtain v where v: "enforce_employee_update E c seen ev = Inr v" using assms(1) by (auto simp: handle_employee_update_def split: sum.splits)
    obtain q where q: "check_update E c seen v q = Inr ()" "parse_employee_update ev = Inr v" by (rule enforced_update [OF v])
    then have "v = u" using assms(2) by simp
    moreover show "\<not> eu_retire u" using parsed_update_ok(3) [OF assms(2)] assms(3) by simp
    ultimately show "eu_manager u = None" "enforce_employee_update E c seen ev = Inr u"
      using check_update_ok(3) [OF q(1)] assms(3) check_line_ok(1) v by auto
  qed
  then have "apply_update E K c ev u b ws = (Inr EmployeeUpdated, ws')"
    using assms(1,4) by (simp add: handle_employee_update_def)
  then obtain updated where upd: "update_employee (int (re_now E)) c b (Some ''executive'') (Some None) None (ws_employees ws) = (Inr (Some updated), ws_employees ws')"
    using enforced(2,3) assms(3)
    by (auto simp: apply_update_def employees_call_def sql_call_Inr map_err_Inr manager_update_def split: sum.splits prod.splits option.splits)
  show ?thesis
    using update_employee_row [OF upd, of c b] assms(5,6)
    by (simp add: set_employee_def coalesce_def coalesce_null_def bound_null_def)
qed

end
