(* ===== verification/Ask_Examples.thy ===== *)
theory Ask_Examples
  imports Ask_Laws Employee_Laws
begin

text \<open>
  One need, evaluated: a decision the relay has put to the owner \<open>b\<close>, with a default and a window
  of a minute, and a question a worker puts to its leader. Then a hire and an
  update. The theorems on asks and on the payroll are applied to them.
\<close>

definition demo_words :: json where
  "demo_words = JObj [(''headline'', JStr ''trip''), (''cost_of_delay'', JStr ''seat''), (''default_option'', JStr ''go''),
     (''options'', JArr [JObj [(''label'', JStr ''go'')]]), (''default_window_secs'', JInt 60), (''answer'', JStr ''go'')]"

definition demo_asking :: relay_env where
  "demo_asking = gate_env (\<lambda>l. if hd l = ''put head'' then NotSent else NoFault) (\<lambda>_. Inr demo_words)"

definition demo_ask :: "char \<Rightarrow> char \<Rightarrow> string \<Rightarrow> nevent" where
  "demo_ask signer audience t = gate_event (key_of (CHR ''1'')) (key_of signer) 5 KIND_ASK
     [gate_tag [''ask-type'', t], gate_tag [''p'', key_of audience], gate_tag [''initiative'', ''i''], gate_tag [''need'', ''n''],
      gate_tag [''task'', ''t'']] ''{}''"

lemma demo_ask_fields [simp]:
  "ev_id (demo_ask p a t) = key_of (CHR ''1'')" "ev_pubkey (demo_ask p a t) = key_of p" "ev_kind (demo_ask p a t) = KIND_ASK"
  "ev_created_at (demo_ask p a t) = 5"
  by (simp_all add: demo_ask_def gate_event_def)

definition demo_parsed :: "char \<Rightarrow> AskType \<Rightarrow> ParsedAsk" where
  "demo_parsed audience k = \<lparr>ask_kind = k, ask_audience = key_of audience, ask_initiative = ''i'', ask_tasks = [''t''],
     ask_origin_thread = None, ask_need = ''n'', ask_prior = None, ask_category = None, ask_cost_of_delay = ''seat'',
     ask_default = Some ''go'', ask_window = Some 60, ask_headline = ''trip'', ask_filer = None\<rparr>"

lemma asking_env [simp]:
  "re_fault demo_asking (h # l) = (if h = ''put head'' then NotSent else NoFault)" "re_read_json demo_asking s = Inr demo_words" "re_key demo_asking s = Some s"
  "re_durable demo_asking" "re_relay_key demo_asking = key_of (CHR ''f'')" "re_now demo_asking = 100" "signer_ok demo_asking"
  by (simp_all add: demo_asking_def gate_env_def signer_ok_def gate_event_def)

lemma key_is_hex: "is_ascii_digit c \<Longrightarrow> is_hex64_lowercase (key_of c)" "c \<in> set ''abcdef'' \<Longrightarrow> is_hex64_lowercase (key_of c)"
  by (auto simp: is_hex64_lowercase_def is_ascii_lowercase_def byte_def)

lemma demo_ask_parsed:
  assumes "is_hex64_lowercase (key_of audience)" and "k = Decision \<or> k = Question"
  shows "parse_ask (re_read_json demo_asking) (demo_ask signer audience (ask_type_as_str k)) = Inr (demo_parsed audience k)"
proof -
  have tags: "ask_tag_values (demo_ask signer audience t) name =
     (if name = ''ask-type'' then [t] else if name = ''p'' then [key_of audience] else if name = ''initiative'' then [''i'']
      else if name = ''need'' then [''n''] else if name = ''task'' then [''t''] else [])" for t name
    by (simp add: ask_tag_values_def demo_ask_def gate_event_def gate_tag_def List.map_filter_def)
  have words: "required_content_field demo_words ''headline'' = Inr ''trip''" "required_content_field demo_words ''cost_of_delay'' = Inr ''seat''"
    by (simp_all add: required_content_field_def get_str_def demo_words_def graphic_trim is_ascii_graphic_def byte_def)
  have need: "is_valid_need_slug ''n''" by (simp add: is_valid_need_slug_def is_ascii_lowercase_def byte_def)
  have rest: "get_str ''default_option'' demo_words = Some ''go''" "Option.bind (json_get ''default_window_secs'' demo_words) as_u64 = Some 60"
    "has_option demo_words ''go''"
    by (simp_all add: get_str_def demo_words_def has_option_def)
  show ?thesis
    using assms
    by (auto simp: parse_ask_def Let_def single_tag_value_def single_hex_tag_def optional_hex_tag_def optional_tag_value_def tags
        validate_hex64_field_def map_ok_def and_then_def ok_or_def need parse_content_def map_err_def words rest check_window_def
        MAX_ASK_WINDOW_SECS_def check_default_def demo_parsed_def ask_type_parse_def)
qed

section \<open>Filing\<close>

definition demo_desk_of :: "nevent \<Rightarrow> workspace" where
  "demo_desk_of ev = demo_office [gate_row ev None]"

lemma asking_read [simp]: "h \<noteq> ''put head'' \<Longrightarrow> ws_read demo_asking (h # l) m x = Inr x"
  by (simp add: ws_read_def map_err_def)

lemma desk_fields [simp]:
  "ws_asks (demo_desk_of ev) = []" "ws_hosted (demo_desk_of ev) = [2]"
  "is_owner 2 (demo_desk_of ev) p \<longleftrightarrow> p = key_of (CHR ''b'')"
  by (simp_all add: demo_desk_of_def demo_owner) (simp_all add: demo_office_def demo_workspace_def)

lemma asking_holds [simp]: "holds_owner demo_asking m c p ws = Inr (is_owner c ws p)"
  by (simp add: holds_owner_Inr)

lemma demo_files:
  assumes "c \<in> set ''bc''" and "k = Decision \<or> k = Question"
    and "check_altitude demo_asking 2 (demo_desk_of ev) (demo_ask signer c (ask_type_as_str k)) (demo_parsed c k) = Inr None"
  shows "fst (handle_ask demo_asking 2 (demo_desk_of ev) (demo_ask signer c (ask_type_as_str k)) (demo_desk_of ev)) = Inr AskApplied"
proof -
  have hex: "is_hex64_lowercase (key_of c)" using assms(1) by (auto intro: key_is_hex)
  have filer: "resolve_filer demo_asking (demo_ask signer c (ask_type_as_str k)) (demo_parsed c k) = Inr (key_of signer)"
    by (simp add: resolve_filer_def demo_parsed_def demo_ask_def gate_event_def)
  let ?ev = "demo_ask signer c (ask_type_as_str k)"
  let ?w = "chosen_window demo_asking 2 (demo_desk_of ev) (demo_parsed c k)"
  obtain row where row: "new_ask_row demo_asking ?w ?ev (demo_parsed c k) = Inr row" "nk_type row = ask_type_as_str k"
    by (auto simp: new_ask_row_def filer and_then_def) (auto simp: demo_parsed_def audience_key_def ok_or_def decode_hex64_def)
  have none: "find_open_ask_by_need 2 i n [] = None" for i n
    by (simp add: find_open_ask_by_need_def found_ask_def)
  have "fst (file_ask demo_asking 2 ?ev (demo_parsed c k) row (demo_desk_of ev)) = Inr AskApplied"
    using assms(2) row(2)
    by (auto simp: file_ask_def insert_ask_def sql_insert_def ask_check_def new_ask_def Let_def split: option.split)
  then show ?thesis
    by (simp add: handle_ask_def demo_ask_parsed [OF hex assms(2)] assms(3) none row)
qed

lemma relay_files:
  "fst (handle_ask demo_asking 2 (demo_desk_of ev) (demo_ask (CHR ''f'') (CHR ''b'') ''decision'') (demo_desk_of ev)) = Inr AskApplied"
  using demo_files [of "CHR ''b''" Decision ev "CHR ''f''"]
  by (simp add: check_altitude_def signed_by_relay_def)

lemma worker_files:
  "fst (handle_ask demo_asking 2 (demo_desk_of ev) (demo_ask (CHR ''a'') (CHR ''c'') ''question'') (demo_desk_of ev)) = Inr AskApplied"
proof -
  have tier: "agent_tier demo_asking 2 (demo_desk_of ev) (key_of (CHR ''a'')) = Inr (Some Worker)"
    "agent_tier demo_asking 2 (demo_desk_of ev) (key_of (CHR ''c'')) = Inr (Some Leader)"
    by (simp_all add: agent_tier_def demo_desk_of_def demo_office_def gate_defs find_employee_def rank_or_worker_def agent_tier_parse_def
        and_then_def)
  show ?thesis
    using demo_files [of "CHR ''c''" Question ev "CHR ''a''"]
    by (simp add: check_altitude_def signed_by_relay_def tier audience_key_def and_then_def ok_or_def map_ok_def)
      (simp add: demo_parsed_def tier)
qed

theorem ask_goes_one_rung_up_witness:
  "\<exists>r. map_of (ws_asks (snd (handle_ask demo_asking 2 (demo_desk_of demo_root) (demo_ask (CHR ''a'') (CHR ''c'') ''question'') (demo_desk_of demo_root))))
      (2, key_of (CHR ''1'')) = Some r \<and> ak_audience r = key_of (CHR ''c'') \<and> ak_type r = ''question''"
proof -
  let ?ev = "demo_ask (CHR ''a'') (CHR ''c'') ''question''" and ?ws = "demo_desk_of demo_root"
  have "handle_ask demo_asking 2 ?ws ?ev ?ws = (Inr AskApplied, snd (handle_ask demo_asking 2 ?ws ?ev ?ws))"
    using worker_files [of demo_root] by (simp add: prod_eq_iff)
  from ask_goes_one_rung_up [OF this]
  show ?thesis
    using demo_ask_parsed [of "CHR ''c''" Question "CHR ''a''"] key_is_hex(2) [of "CHR ''c''"]
    by (auto simp: demo_parsed_def)
qed

section \<open>What becomes of the decision\<close>

definition demo_open_row :: AskRow where
  "demo_open_row = \<lparr>ak_community = 2, ak_event_id = key_of (CHR ''1''), ak_type = ''decision'', ak_initiative = ''i'', ak_need = ''n'',
     ak_audience = key_of (CHR ''b''), ak_filer = key_of (CHR ''f''), ak_origin_thread = None, ak_prior = None, ak_category = None,
     ak_default = Some ''go'', ak_deadline = Some 65, ak_status = ''open'', ak_resolution = None, ak_resolved_by = None,
     ak_default_executed = False, ak_created_at = 100, ak_updated_at = 100\<rparr>"

abbreviation demo_decision_ask :: nevent where
  "demo_decision_ask \<equiv> demo_ask (CHR ''f'') (CHR ''b'') ''decision''"

definition demo_asked :: workspace where
  "demo_asked = snd (handle_ask_event demo_asking 2 (demo_desk_of demo_decision_ask) demo_decision_ask (demo_desk_of demo_decision_ask))"

lemma no_head [simp]: "publish_head_for_new_ask demo_asking c a t p d ws = ws" "publish_closed_head demo_asking c a k ws = ws"
  by (simp_all add: publish_head_for_new_ask_def publish_closed_head_def sign_store_and_fan_out_head_def Let_def split: sum.split)

lemma demo_asked_eq: "demo_asked = (demo_desk_of demo_decision_ask)\<lparr>ws_asks := [((2, key_of (CHR ''1'')), demo_open_row)]\<rparr>"
proof -
  let ?D = "demo_desk_of demo_decision_ask"
  have hex: "is_hex64_lowercase (key_of (CHR ''b''))" by (simp add: key_is_hex)
  have parsed: "parse_ask (re_read_json demo_asking) demo_decision_ask = Inr (demo_parsed (CHR ''b'') Decision)"
    using demo_ask_parsed [OF hex, of Decision] by simp
  have alt: "check_altitude demo_asking 2 ?D demo_decision_ask (demo_parsed (CHR ''b'') Decision) = Inr None"
    by (simp add: check_altitude_def signed_by_relay_def)
  have none: "find_open_ask_by_need 2 i n [] = None" for i n
    by (simp add: find_open_ask_by_need_def found_ask_def)
  have row: "new_ask_row demo_asking (chosen_window demo_asking 2 ?D (demo_parsed (CHR ''b'') Decision)) demo_decision_ask (demo_parsed (CHR ''b'') Decision) =
      Inr \<lparr>nk_event_id = key_of (CHR ''1''), nk_type = ''decision'', nk_initiative = ''i'', nk_need = ''n'',
        nk_audience = key_of (CHR ''b''), nk_filer = key_of (CHR ''f''), nk_origin_thread = None, nk_prior = None,
        nk_category = None, nk_default = Some ''go'', nk_deadline = Some 65\<rparr>"
    by (simp add: new_ask_row_def and_then_def resolve_filer_def demo_parsed_def audience_key_def ok_or_def decode_hex64_def
        signed_by_relay_def chosen_window_def filing_deadline_def wrap_i64_def MAX_ASK_WINDOW_SECS_def)
  have "snd (file_ask demo_asking 2 demo_decision_ask (demo_parsed (CHR ''b'') Decision)
     \<lparr>nk_event_id = key_of (CHR ''1''), nk_type = ''decision'', nk_initiative = ''i'', nk_need = ''n'',
        nk_audience = key_of (CHR ''b''), nk_filer = key_of (CHR ''f''), nk_origin_thread = None, nk_prior = None,
        nk_category = None, nk_default = Some ''go'', nk_deadline = Some 65\<rparr> ?D) = ?D\<lparr>ws_asks := [((2, key_of (CHR ''1'')), demo_open_row)]\<rparr>"
    by (simp add: file_ask_def insert_ask_def sql_insert_def ask_check_def new_ask_def Let_def demo_open_row_def)
  then show ?thesis
    by (simp add: demo_asked_def handle_ask_event_def handle_ask_def parsed alt none row)
qed

lemma demo_asked_row [simp]: "ws_asks demo_asked = [((2, key_of (CHR ''1'')), demo_open_row)]"
  by (simp add: demo_asked_eq)

lemma demo_asked_reached: "ask_step\<^sup>*\<^sup>* (demo_desk_of demo_decision_ask) demo_asked"
  unfolding demo_asked_def by (rule r_into_rtranclp) (rule step_event)

lemma demo_asked_sound: "asks_sound (ws_asks demo_asked)"
  using asking.inv_reachable [OF _ demo_asked_reached] by simp

theorem asks_keep_their_terms_witness:
  "\<exists>r. map_of (ws_asks (snd (handle_ask_event demo_asking 2 demo_asked demo_decision_ask demo_asked))) (2, key_of (CHR ''1'')) = Some r
     \<and> ak_audience r = key_of (CHR ''b'') \<and> ak_need r = ''n''"
proof -
  have "ask_step\<^sup>*\<^sup>* demo_asked (snd (handle_ask_event demo_asking 2 demo_asked demo_decision_ask demo_asked))"
    by (rule r_into_rtranclp) (rule step_event)
  from asks_keep_their_terms [OF _ demo_asked_reached this, of "(2, key_of (CHR ''1''))" demo_open_row]
  show ?thesis by (auto simp: demo_asked_row ask_terms_def demo_open_row_def)
qed

lemma demo_asked_event:
  "get_event_by_id 2 (key_of (CHR ''1'')) (ws_events demo_asked) = Some (row_to_stored_event (snd (gate_row demo_decision_ask None)))"
  by (simp add: demo_asked_eq demo_desk_of_def demo_office_def demo_workspace_def get_event_by_id_def
      newest_of_def newest_first_def live_row_def gate_row_def)

definition demo_stored :: StoredEvent where
  "demo_stored = row_to_stored_event (snd (gate_row demo_decision_ask None))"

lemma demo_stored_event [simp]: "se_event demo_stored = demo_decision_ask"
  by (simp add: demo_stored_def)

lemma decision_parsed: "parse_ask (re_read_json demo_asking) demo_decision_ask = Inr (demo_parsed (CHR ''b'') Decision)"
  using demo_ask_parsed [of "CHR ''b''" Decision "CHR ''f''"] key_is_hex(2) [of "CHR ''b''"] by simp

definition demo_answered :: "string \<Rightarrow> string \<Rightarrow> bool \<Rightarrow> AskRow" where
  "demo_answered e p d = demo_open_row\<lparr>ak_status := ''resolved'', ak_resolution := Some e, ak_resolved_by := Some p,
     ak_default_executed := d\<rparr>"

lemma demo_resolve:
  "resolve_ask 100 2 (key_of (CHR ''1'')) e p d [((2, key_of (CHR ''1'')), demo_open_row)] =
     (Inr True, [((2, key_of (CHR ''1'')), demo_answered e p d)])"
  by (simp add: resolve_ask_def ask_update_def sql_update_def changed_def open_at_def is_open_def ask_check_def demo_open_row_def
      demo_answered_def map_ok_def Let_def)

lemma demo_processed:
  obtains s w where "process_due_ask demo_asking demo_open_row 100 stats demo_asked = (Inr s, w)"
    and "ws_asks w = [((2, key_of (CHR ''1'')), demo_answered ''signed'' (key_of (CHR ''f'')) True)]"
proof -
  have row: "ak_community demo_open_row = 2" "ak_event_id demo_open_row = key_of (CHR ''1'')" "ak_audience demo_open_row = key_of (CHR ''b'')"
    "ak_default demo_open_row = Some ''go''" "ak_origin_thread demo_open_row = None"
    by (simp_all add: demo_open_row_def)
  have signed: "ev_id (default_resolution demo_asking demo_open_row ''go'') = ''signed''"
    by (simp add: default_resolution_def relay_event_def demo_asking_def gate_env_def gate_event_def)
  have "is_owner 2 demo_asked (key_of (CHR ''b''))" "2 \<in> set (ws_hosted demo_asked)"
    using desk_fields(3) [of demo_decision_ask "key_of (CHR ''b'')"] by (simp_all add: demo_asked_eq is_owner_def)
  then have "process_due_ask demo_asking demo_open_row 100 stats demo_asked = execute_default demo_asking 2 demo_open_row demo_stored ''go'' stats demo_asked"
    by (simp add: process_due_ask_def row demo_asked_event demo_stored_def)
  then show thesis
    using that
    by (simp add: execute_default_def decision_parsed asks_call_def demo_resolve row signed Let_def map_err_def)
qed

theorem handled_ask_yields_witness:
  "\<exists>r. map_of (ws_asks (snd (process_due_ask demo_asking demo_open_row 100 \<lparr>ts_promoted = 0, ts_defaults_executed = 0\<rparr> demo_asked)))
      (2, key_of (CHR ''1'')) = Some r \<and> \<not> is_due 100 ((2, key_of (CHR ''1'')), r)"
proof -
  obtain s w where w: "process_due_ask demo_asking demo_open_row 100 \<lparr>ts_promoted = 0, ts_defaults_executed = 0\<rparr> demo_asked = (Inr s, w)"
    "ws_asks w = [((2, key_of (CHR ''1'')), demo_answered ''signed'' (key_of (CHR ''f'')) True)]"
    using demo_processed .
  have key: "(ak_community demo_open_row, ak_event_id demo_open_row) = (2, key_of (CHR ''1''))" by (simp add: demo_open_row_def)
  from handled_ask_yields [OF w(1), unfolded key] show ?thesis by (simp add: w)
qed


section \<open>An answer and a promotion\<close>

definition demo_answer :: nevent where
  "demo_answer = gate_event ''answer'' (key_of (CHR ''b'')) 50 KIND_ASK_RESOLUTION [gate_tag [''e'', key_of (CHR ''1'')]] ''{}''"

theorem answered_by_right_witness:
  "\<exists>r. map_of (ws_asks (snd (handle_resolution demo_asking 2 demo_answer demo_asked))) (2, key_of (CHR ''1'')) = Some r
     \<and> ak_resolved_by r = Some (key_of (CHR ''b''))"
proof -
  let ?i = "key_of (CHR ''1'')"
  have id: "hex_decode ?i = Some ?i"
    using key_of_compare [of "CHR ''1''"] by (simp add: ascii_lower_def is_ascii_uppercase_def is_ascii_hexdigit_def is_ascii_digit_def byte_def)
  have hex: "is_hex64_lowercase ?i" by (rule key_is_hex) (simp add: is_ascii_digit_def byte_def)
  have tags: "ask_tag_values demo_answer ''e'' = [?i]"
    by (simp add: ask_tag_values_def demo_answer_def gate_event_def gate_tag_def List.map_filter_def)
  have words: "json_get ''answer'' demo_words = Some (JStr ''go'')" "get_bool ''default_executed'' demo_words = None"
    by (simp_all add: demo_words_def get_bool_def)
  have parsed: "parse_resolution (re_read_json demo_asking) demo_answer =
      Inr \<lparr>pres_ask = ?i, pres_answer = JStr ''go'', pres_default_executed = False\<rparr>"
    by (simp add: parse_resolution_def single_hex_tag_def single_tag_value_def tags validate_hex64_field_def hex parse_content_def
        and_then_def map_ok_def map_err_def words)
  have signer: "ev_pubkey demo_answer = key_of (CHR ''b'')" "ev_id demo_answer = ''answer''"
    by (simp_all add: demo_answer_def gate_event_def)
  have "load_ask demo_asking 2 demo_asked ?i = Inr (Inr (demo_stored, demo_parsed (CHR ''b'') Decision))"
    by (simp add: load_ask_def demo_asked_event and_then_def demo_stored_def [symmetric] decision_parsed)
  then have "fst (handle_resolution demo_asking 2 demo_answer demo_asked) = Inr AskApplied"
    by (simp add: handle_resolution_def parsed id and_then_def ok_or_def map_ok_def signer resolution_signer_authorized_def
        demo_parsed_def close_resolved_def asks_call_def demo_resolve map_err_def wake_filer_def)
  then have "handle_resolution demo_asking 2 demo_answer demo_asked = (Inr AskApplied, snd (handle_resolution demo_asking 2 demo_answer demo_asked))"
    by (simp add: prod_eq_iff)
  from answered_by_right [OF this demo_asked_sound] show ?thesis
    by (auto simp: parsed id signer)
qed

theorem promotion_keeps_the_ask_witness:
  "parse_ask (re_read_json demo_asking) (promoted_ask demo_asking demo_decision_ask (key_of (CHR ''d'')) (key_of (CHR ''a''))) =
     Inr ((demo_parsed (CHR ''b'') Decision)\<lparr>ask_audience := key_of (CHR ''d''), ask_prior := Some (key_of (CHR ''1'')),
        ask_filer := Some (key_of (CHR ''a''))\<rparr>)"
  using promotion_keeps_the_ask [OF _ decision_parsed, of demo_asking "key_of (CHR ''d'')" "key_of (CHR ''a'')"]
  by (simp add: key_is_hex is_ascii_digit_def byte_def)

section \<open>A hire and an update\<close>

definition firm_staff :: "char \<Rightarrow> string \<Rightarrow> string option \<Rightarrow> employee_key \<times> EmployeeRow" where
  "firm_staff p rank m = ((2, key_of p), \<lparr>em_pubkey = key_of p, em_sealed_key = ''k'', em_role_id = [p], em_display_name = ''Ops'',
     em_rank = rank, em_hired_by = Some (key_of (CHR ''b'')), em_hire_event = Some (key_of p), em_manager = m,
     em_provisioned_handle = None, em_provisioned_version = None, em_status = ''active'', em_created_at = 0, em_updated_at = 0\<rparr>)"

definition demo_firm :: workspace where
  "demo_firm = demo_workspace [demo_member (key_of (CHR ''b'')) ''owner'']
     [firm_staff (CHR ''a'') ''worker'' (Some (key_of (CHR ''c''))), firm_staff (CHR ''c'') ''leader'' None] []"

definition demo_keys :: key_env where
  "demo_keys = \<lparr>ke_configured = True, ke_new = key_of (CHR ''d''), ke_seal = (\<lambda>_ _. Inr ''sealed''), ke_open = (\<lambda>_ p _. Inr p)\<rparr>"

lemma firm_owner [simp]: "is_owner 2 demo_firm p \<longleftrightarrow> p = key_of (CHR ''b'')"
  by (simp add: is_owner_def role_of_def demo_firm_def demo_workspace_def demo_member_def get_relay_member_def)

lemma firm_tier: "agent_tier demo_asking 2 demo_firm (key_of (CHR ''c'')) = Inr (Some Leader)"
  by (simp add: agent_tier_def and_then_def find_employee_def demo_firm_def demo_workspace_def firm_staff_def rank_or_worker_def
      agent_tier_parse_def)

lemma key_decodes: "is_ascii_digit ch \<or> ch \<in> set ''abcdef'' \<Longrightarrow> hex_decode (key_of ch) = Some (key_of ch)"
  using key_of_compare [of ch] by (auto simp: ascii_lower_def is_ascii_uppercase_def is_ascii_hexdigit_def is_ascii_digit_def byte_def)

definition demo_hire :: nevent where
  "demo_hire = gate_event (key_of (CHR ''2'')) (key_of (CHR ''b'')) 5 KIND_HIRE_REQUEST
     [gate_tag [''role'', ''cook''], gate_tag [''name'', ''Ann''], gate_tag [''rank'', ''worker''], gate_tag [''manager'', key_of (CHR ''c'')]] []"

lemma demo_hire_fields [simp]: "ev_pubkey demo_hire = key_of (CHR ''b'')" "ev_id demo_hire = key_of (CHR ''2'')"
  by (simp_all add: demo_hire_def gate_event_def)

lemma key_trims: "employee_hex64 f (key_of (CHR ''c'')) = Inr (key_of (CHR ''c''))" "employee_hex64 f (key_of (CHR ''a'')) = Inr (key_of (CHR ''a''))"
  by (simp_all add: employee_hex64_def graphic_trim is_ascii_graphic_def is_ascii_hexdigit_def byte_def ascii_lower_def
      is_ascii_uppercase_def Let_def)

lemma demo_hire_parsed:
  "parse_hire_request demo_hire = Inr \<lparr>hq_role_id = ''cook'', hq_display_name = ''Ann'', hq_rank = Worker, hq_manager = Some (key_of (CHR ''c''))\<rparr>"
proof -
  have "optional_tag demo_hire ''role'' = Inr (Some ''cook'')" "optional_tag demo_hire ''name'' = Inr (Some ''Ann'')"
    "optional_tag demo_hire ''rank'' = Inr (Some ''worker'')" "optional_tag demo_hire ''manager'' = Inr (Some (key_of (CHR ''c'')))"
    by (simp_all add: optional_tag_def demo_hire_def gate_event_def gate_tag_def)
  then show ?thesis
    by (simp add: parse_hire_request_def role_and_name_def employee_rank_def employee_manager_def employee_tag_def single_tag_def
        and_then_def ok_or_def map_ok_def map_err_def Let_def graphic_trim is_ascii_graphic_def byte_def to_ascii_lowercase_def
        ascii_lower_def is_ascii_uppercase_def is_valid_role_slug_def slug_head_def is_ascii_lowercase_def chars_count_def
        MAX_DISPLAY_NAME_def agent_tier_parse_def key_trims)
qed

definition demo_hired :: workspace where
  "demo_hired = snd (handle_hire_request demo_asking demo_keys 2 demo_firm demo_hire demo_firm)"

lemma demo_hires: "handle_hire_request demo_asking demo_keys 2 demo_firm demo_hire demo_firm = (Inr Hired, demo_hired)"
proof -
  have "hire_manager demo_asking 2 demo_firm \<lparr>hq_role_id = ''cook'', hq_display_name = ''Ann'', hq_rank = Worker, hq_manager = Some (key_of (CHR ''c''))\<rparr>
      = Inr (Some (key_of (CHR ''c'')))"
    by (simp add: hire_manager_def validate_manager_for_rank_def and_then_def ok_or_def firm_tier map_ok_def key_decodes)
  moreover have "find_employee_by_hire_event 2 (key_of (CHR ''2'')) (ws_employees demo_firm) = None"
    by (simp add: find_employee_by_hire_event_def first_row_def demo_firm_def demo_workspace_def firm_staff_def)
  moreover have "fst (record_hire demo_asking demo_keys 2 demo_hire
      \<lparr>hq_role_id = ''cook'', hq_display_name = ''Ann'', hq_rank = Worker, hq_manager = Some (key_of (CHR ''c''))\<rparr>
      (Some (key_of (CHR ''c''))) ''sealed'' demo_firm) = Inr Hired"
    by (simp add: record_hire_def insert_employee_def returned_row_def sql_insert_ignore_def sql_insert_def employee_check_def
        employee_clash_def bytes32_def Let_def demo_firm_def demo_workspace_def firm_staff_def demo_keys_def map_ok_def)
  ultimately have "fst (handle_hire_request demo_asking demo_keys 2 demo_firm demo_hire demo_firm) = Inr Hired"
    by (simp add: handle_hire_request_def demo_hire_parsed) (simp add: demo_keys_def)
  then show ?thesis by (simp add: demo_hired_def prod_eq_iff)
qed

theorem hired_once_witness:
  "ws_employees (snd (handle_hire_request demo_asking demo_keys 2 demo_hired demo_hire demo_hired)) = ws_employees demo_hired"
proof -
  obtain res w where again: "handle_hire_request demo_asking demo_keys 2 demo_hired demo_hire demo_hired = (res, w)" by fastforce
  show ?thesis using hired_once [OF demo_hires rtranclp.rtrancl_refl again] by (simp add: again)
qed

definition firm_update :: "string \<Rightarrow> string list \<Rightarrow> nevent" where
  "firm_update name vals = gate_event (key_of (CHR ''3'')) (key_of (CHR ''b'')) 5 KIND_EMPLOYEE_UPDATE
     [gate_tag [''p'', key_of (CHR ''a'')], gate_tag (name # vals)] []"

lemma firm_update_parsed:
  "parse_employee_update (firm_update ''manager'' [key_of (CHR ''c'')]) =
     Inr \<lparr>eu_pubkey_hex = key_of (CHR ''a''), eu_rank = None, eu_manager = Some (key_of (CHR ''c'')), eu_retire = False\<rparr>"
  "parse_employee_update (firm_update ''rank'' [''executive'']) =
     Inr \<lparr>eu_pubkey_hex = key_of (CHR ''a''), eu_rank = Some Executive, eu_manager = None, eu_retire = False\<rparr>"
  by (simp_all add: parse_employee_update_def optional_rank_def employee_manager_def retire_flag_def employee_tag_def single_tag_def
      optional_tag_def firm_update_def gate_event_def gate_tag_def and_then_def ok_or_def map_ok_def map_err_def key_trims
      employee_lookup_error_def agent_tier_parse_def)

definition demo_firm_row :: EmployeeRow where
  "demo_firm_row = snd (firm_staff (CHR ''a'') ''worker'' (Some (key_of (CHR ''c''))))"

lemma firm_row: "find_employee 2 (key_of (CHR ''a'')) (ws_employees demo_firm) = Some demo_firm_row"
  by (simp add: find_employee_def demo_firm_def demo_workspace_def demo_firm_row_def firm_staff_def)

lemma firm_row_fields [simp]: "em_status demo_firm_row = ''active''" "em_provisioned_handle demo_firm_row = None"
  "em_rank demo_firm_row = ''worker''" "em_manager demo_firm_row = Some (key_of (CHR ''c''))"
  by (simp_all add: demo_firm_row_def firm_staff_def)

lemma demo_enforced:
  "enforce_employee_update demo_asking 2 demo_firm (firm_update ''manager'' [key_of (CHR ''c'')]) =
     Inr \<lparr>eu_pubkey_hex = key_of (CHR ''a''), eu_rank = None, eu_manager = Some (key_of (CHR ''c'')), eu_retire = False\<rparr>"
  "enforce_employee_update demo_asking 2 demo_firm (firm_update ''rank'' [''executive'']) =
     Inr \<lparr>eu_pubkey_hex = key_of (CHR ''a''), eu_rank = Some Executive, eu_manager = None, eu_retire = False\<rparr>"
proof -
  have author: "ev_pubkey (firm_update n v) = key_of (CHR ''b'')" for n v by (simp add: firm_update_def gate_event_def)
  have reports: "direct_reports demo_asking 2 demo_firm t = Inr []" for t
    by (simp add: direct_reports_def ws_query_def query_events_def query_events_on_def for_community_def MAX_REPORT_HEADS_def
        demo_firm_def demo_workspace_def newest_first_def and_then_def map_err_def map_ok_def newest_by_d_def Let_def DEFAULT_MAX_PAGE_LIMIT_def)
  show "enforce_employee_update demo_asking 2 demo_firm (firm_update ''manager'' [key_of (CHR ''c'')]) =
     Inr \<lparr>eu_pubkey_hex = key_of (CHR ''a''), eu_rank = None, eu_manager = Some (key_of (CHR ''c'')), eu_retire = False\<rparr>"
    "enforce_employee_update demo_asking 2 demo_firm (firm_update ''rank'' [''executive'']) =
     Inr \<lparr>eu_pubkey_hex = key_of (CHR ''a''), eu_rank = Some Executive, eu_manager = None, eu_retire = False\<rparr>"
    by (simp_all add: enforce_employee_update_def firm_update_parsed author map_err_def and_then_def ok_or_def key_decodes firm_row
        check_update_def agent_tier_parse_def check_line_def validate_manager_for_rank_def firm_tier check_stranded_def reports
        map_ok_def Let_def)
qed


theorem promotion_keeps_reporting_line_witness:
  "\<exists>row. find_employee 2 (key_of (CHR ''a'')) (ws_employees (snd (handle_employee_update demo_asking demo_keys 2 demo_firm
       (firm_update ''rank'' [''executive'']) demo_firm))) = Some row
     \<and> em_rank row = ''executive'' \<and> em_manager row = Some (key_of (CHR ''c''))"
proof -
  let ?r = "handle_employee_update demo_asking demo_keys 2 demo_firm (firm_update ''rank'' [''executive'']) demo_firm"
  have id: "ev_id (firm_update n v) = key_of (CHR ''3'')" for n v by (simp add: firm_update_def gate_event_def)
  obtain r tbl where upd: "update_employee 100 2 (key_of (CHR ''a'')) (Some ''executive'') (Some None) None (ws_employees demo_firm) = (Inr (Some r), tbl)"
    and r: "length (em_pubkey r) = 64"
    by (simp add: update_employee_def first_returned_def sql_update_def changed_def demo_firm_def demo_workspace_def firm_staff_def
        employee_at_def set_employee_def coalesce_def coalesce_null_def bound_null_def employee_check_def employee_clash_def
        bytes32_def Let_def map_ok_def)
  have "fst ?r = Inr EmployeeUpdated"
    using upd r
    by (simp add: handle_employee_update_def demo_enforced(2) key_decodes apply_update_def employees_call_def id manager_update_def
        map_err_def open_employee_keys_def demo_keys_def)
  then have "?r = (Inr EmployeeUpdated, snd ?r)" by (simp add: prod_eq_iff)
  from promotion_keeps_reporting_line [OF this firm_update_parsed(2), of "key_of (CHR ''a'')" demo_firm_row]
  show ?thesis by (simp add: key_decodes firm_row)
qed

end
