(* ===== verification/Credit_Store.thy ===== *)
theory Credit_Store
  imports Sql_Table Price_Book
begin

text \<open>
  The prepaid accounts and the append-only credit ledger (\<open>buzz-db/src/credits.rs\<close>), with the
  constraints and triggers of their tables in \<open>schema.sql\<close>, and the two transactions of
  \<open>buzz-db/src/discovery.rs\<close> that post to the ledger as well.

  Money is whole nano-dollars in 64-bit columns: a value that leaves the range is an error of the
  statement. A transaction is one atomic step, all or nothing; where the sources run several
  statements without one, each can fail on its own, as the argument \<open>F\<close> says. An id from an
  identity column is any unused one.
\<close>

section \<open>Values and errors\<close>

datatype CreditError =
    CreditDb DbError
  | CreditOutOfRange
  | CreditRowMissing
  | CreditInvalidAmount
  | CreditNotFound
  | CreditInvalidData
  | CreditAccessDenied

definition bigint :: "int \<Rightarrow> bool" where
  "bigint n \<longleftrightarrow> - (2 ^ 63) \<le> n \<and> n < 2 ^ 63"

definition as_bigint :: "int \<Rightarrow> CreditError + int" where
  "as_bigint n = (if bigint n then Inr n else Inl CreditOutOfRange)"

definition saturating_i64 :: "int \<Rightarrow> int" where
  "saturating_i64 n = max (- (2 ^ 63)) (min (2 ^ 63 - 1) n)"

text \<open>\<open>i64::try_from\<close> of a \<open>u64\<close>.\<close>

definition cost_i64 :: "nat \<Rightarrow> CreditError + int" where
  "cost_i64 cost = (if int cost < 2 ^ 63 then Inr (int cost) else Inl CreditInvalidAmount)"

lemma as_bigint_Inr [res_simps]: "as_bigint n = Inr m \<longleftrightarrow> m = n \<and> bigint n"
  by (auto simp: as_bigint_def)

lemma cost_i64_Inr [res_simps]: "cost_i64 c = Inr n \<longleftrightarrow> n = int c \<and> int c < 2 ^ 63"
  by (auto simp: cost_i64_def)

section \<open>Tables\<close>

record AccountRow =
  ac_balance :: int
  ac_typical_call_cost :: "int option"
  ac_max_in_flight :: "int option"
  ac_hourly_burn_cap :: "int option"

record CreditEntry =
  ce_pubkey :: string
  ce_delta :: int
  ce_kind :: string
  ce_reference :: string
  ce_model :: "string option"
  ce_observed_cost :: "int option"
  ce_request_id :: "string option"
  ce_settle_basis :: "string option"
  ce_service :: "string option"
  ce_quantity :: "int option"
  ce_unit_price :: "int option"
  ce_run :: "(string \<times> string \<times> string) option"
  ce_created_at :: int

record GatewaySettlementIntent =
  gi_pubkey :: string
  gi_reference :: string
  gi_model :: string
  gi_state :: string
  gi_provider_request_id :: "string option"
  gi_observed_cost :: "int option"
  gi_provider_status :: "int option"
  gi_reason :: "string option"
  gi_correction_ref :: "string option"
  gi_reserved :: int
  gi_created_at :: int
  gi_updated_at :: int
  gi_resolved_at :: "int option"

record ReconciliationOutcome =
  rc_model :: string
  rc_http_status :: int
  rc_reason :: string
  rc_intent_id :: "nat option"
  rc_provider_request_id :: "string option"
  rc_observed_cost :: "int option"
  rc_correction_ref :: "string option"
  rc_resolved_at :: "int option"

text \<open>
  Outcomes stand under their account and reference. Of the campaigns of \<open>discovery.rs\<close> only
  the payer and the reserved part of the budget matter here.
\<close>

record credit_db =
  cd_accounts :: "(string, AccountRow) table"
  cd_ledger :: "(nat, CreditEntry) table"
  cd_intents :: "(nat, GatewaySettlementIntent) table"
  cd_outcomes :: "(string \<times> string, ReconciliationOutcome) table"
  cd_campaigns :: "(string \<times> int) list"

definition key_octets :: "string \<Rightarrow> bool" where
  "key_octets p \<longleftrightarrow> length p = 64"

definition account_check :: "string \<times> AccountRow \<Rightarrow> bool" where
  "account_check x \<longleftrightarrow> key_octets (fst x)
     \<and> (\<forall>t\<in>set_option (ac_typical_call_cost (snd x)). 0 < t)
     \<and> (\<forall>m\<in>set_option (ac_max_in_flight (snd x)). 1 \<le> m \<and> m \<le> 4)
     \<and> (\<forall>h\<in>set_option (ac_hourly_burn_cap (snd x)). 0 < h)"

definition attribution_complete :: "CreditEntry \<Rightarrow> bool" where
  "attribution_complete e \<longleftrightarrow>
     (ce_service e = None \<and> ce_model e = None \<and> ce_quantity e = None \<and> ce_unit_price e = None \<and> ce_run e = None)
   \<or> (ce_service e = Some ''model'' \<and> ce_model e \<noteq> None \<and> ce_quantity e = None \<and> ce_unit_price e = None \<and> ce_run e = None)
   \<or> (ce_service e = Some ''discovery''
      \<and> (ce_kind e \<in> {''debit'', ''hold''} \<and> ce_delta e < 0 \<or> ce_kind e = ''release'' \<and> 0 < ce_delta e)
      \<and> ce_model e = None \<and> ce_observed_cost e = None \<and> ce_request_id e = None \<and> ce_settle_basis e = None
      \<and> ce_run e \<noteq> None
      \<and> (case (ce_quantity e, ce_unit_price e) of
           (Some q, Some u) \<Rightarrow> \<bar>ce_delta e\<bar> = q * u
         | _ \<Rightarrow> False))"

definition entry_check :: "nat \<times> CreditEntry \<Rightarrow> bool" where
  "entry_check x \<longleftrightarrow> (let e = snd x in key_octets (ce_pubkey e)
     \<and> ce_kind e \<in> {''debit'', ''credit'', ''seed'', ''correction'', ''hold'', ''release''}
     \<and> (\<forall>c\<in>set_option (ce_observed_cost e). 0 \<le> c)
     \<and> set_option (ce_settle_basis e) \<subseteq> {''observed'', ''estimated''}
     \<and> set_option (ce_service e) \<subseteq> {''model'', ''discovery''}
     \<and> (\<forall>q\<in>set_option (ce_quantity e). 0 < q)
     \<and> (\<forall>u\<in>set_option (ce_unit_price e). 0 < u)
     \<and> attribution_complete e
     \<and> (ce_model e = None \<or> ce_service e = Some ''model''))"

text \<open>\<open>UNIQUE (pubkey, ref)\<close>, and one charge for a discovery run.\<close>

definition same_reference :: "nat \<times> CreditEntry \<Rightarrow> nat \<times> CreditEntry \<Rightarrow> bool" where
  "same_reference x y \<longleftrightarrow> ce_pubkey (snd x) = ce_pubkey (snd y) \<and> ce_reference (snd x) = ce_reference (snd y)"

definition same_run_charge :: "CreditEntry \<Rightarrow> CreditEntry \<Rightarrow> bool" where
  "same_run_charge e d \<longleftrightarrow> (\<forall>x\<in>{e, d}. ce_service x = Some ''discovery'' \<and> ce_kind x = ''debit'')
     \<and> ce_pubkey e = ce_pubkey d \<and> map_option (snd \<circ> snd) (ce_run e) = map_option (snd \<circ> snd) (ce_run d)"

text \<open>The trigger \<open>credit_ledger_compat_attribution\<close>.\<close>

definition compat_attribution :: "CreditEntry \<Rightarrow> CreditEntry" where
  "compat_attribution e = (if ce_model e \<noteq> None \<and> ce_service e = None then e\<lparr>ce_service := Some ''model''\<rparr> else e)"

definition held_states :: "string set" where
  "held_states = {''admitted'', ''provider_completed'', ''reconciliation''}"

definition intent_check :: "nat \<times> GatewaySettlementIntent \<Rightarrow> bool" where
  "intent_check x \<longleftrightarrow> (let i = snd x in key_octets (gi_pubkey i)
     \<and> (\<forall>c\<in>set_option (gi_observed_cost i). 0 \<le> c) \<and> 0 \<le> gi_reserved i
     \<and> (gi_state i \<in> held_states \<and> 0 < gi_reserved i
        \<or> gi_state i \<in> {''debited'', ''resolved''} \<and> gi_reserved i = 0))"

definition same_intent :: "nat \<times> GatewaySettlementIntent \<Rightarrow> nat \<times> GatewaySettlementIntent \<Rightarrow> bool" where
  "same_intent x y \<longleftrightarrow> gi_pubkey (snd x) = gi_pubkey (snd y) \<and> gi_reference (snd x) = gi_reference (snd y)"

text \<open>The trigger \<open>gateway_settlement_intent_reservation_compat\<close>.\<close>

definition reservation_compat :: "(string, AccountRow) table \<Rightarrow> GatewaySettlementIntent \<Rightarrow> GatewaySettlementIntent" where
  "reservation_compat accounts i =
     (if gi_state i \<in> held_states then
        if gi_reserved i = 0 then
          i\<lparr>gi_reserved := max (case Option.bind (map_of accounts (gi_pubkey i)) ac_typical_call_cost of
              Some t \<Rightarrow> t | None \<Rightarrow> 50000000) 1\<rparr>
        else i
      else if gi_state i \<in> {''debited'', ''resolved''} then i\<lparr>gi_reserved := 0\<rparr>
      else i)"

definition outcome_check :: "(string \<times> string) \<times> ReconciliationOutcome \<Rightarrow> bool" where
  "outcome_check x \<longleftrightarrow> key_octets (fst (fst x)) \<and> (\<forall>c\<in>set_option (rc_observed_cost (snd x)). 0 \<le> c)"

definition unused_id :: "(nat, 'r) table \<Rightarrow> nat" where
  "unused_id tbl = Suc (fold max (map fst tbl) 0)"

section \<open>Sending transactions and statements\<close>

definition credit_tx :: "db_fault \<Rightarrow> (credit_db \<Rightarrow> CreditError + 'a \<times> credit_db) \<Rightarrow> credit_db \<Rightarrow> (CreditError + 'a) \<times> credit_db" where
  "credit_tx fault body db =
     (if fault = NotSent then (Inl (CreditDb Unavailable), db)
      else (case body db of
          Inl e \<Rightarrow> (Inl e, db)
        | Inr (a, db') \<Rightarrow> (if fault = AnswerLost then Inl (CreditDb Unavailable) else Inr a, db')))"

definition credit_read :: "db_fault \<Rightarrow> 'a \<Rightarrow> CreditError + 'a" where
  "credit_read fault a = (if fault = NoFault then Inr a else Inl (CreditDb Unavailable))"

lemma credit_read_Inr [res_simps]: "credit_read fault x = Inr a \<longleftrightarrow> fault = NoFault \<and> a = x"
  by (auto simp: credit_read_def)

lemma credit_tx_state: "snd (credit_tx fault body db) = db \<or> (\<exists>a. body db = Inr (a, snd (credit_tx fault body db)))"
  by (auto simp: credit_tx_def split: sum.split prod.split)

lemma credit_tx_Inr: "credit_tx fault body db = (Inr a, db') \<longleftrightarrow> fault = NoFault \<and> body db = Inr (a, db')"
  by (cases fault) (auto simp: credit_tx_def split: sum.splits)

lemma credit_tx_NoFault: "body db = Inr (a, db') \<Longrightarrow> credit_tx NoFault body db = (Inr a, db')"
  by (simp add: credit_tx_def)

section \<open>Reading an account\<close>

definition discovery_reserved :: "string \<Rightarrow> credit_db \<Rightarrow> int" where
  "discovery_reserved pubkey db = sum_list (map snd (filter (\<lambda>c. fst c = pubkey) (cd_campaigns db)))"

definition open_holds :: "string \<Rightarrow> (nat, GatewaySettlementIntent) table \<Rightarrow> int" where
  "open_holds pubkey intents =
     sum_list (map (gi_reserved \<circ> snd)
       (filter (\<lambda>x. gi_pubkey (snd x) = pubkey \<and> gi_state (snd x) \<noteq> ''resolved'') intents))"

definition account_balance :: "string \<Rightarrow> credit_db \<Rightarrow> CreditError + int" where
  "account_balance pubkey db = (case map_of (cd_accounts db) pubkey of
       None \<Rightarrow> Inr 0
     | Some a \<Rightarrow> and_then (as_bigint (discovery_reserved pubkey db)) (\<lambda>r. as_bigint (ac_balance a + r)))"

record AdmissionAccount =
  aa_balance :: int
  aa_discovery_reserved :: int
  aa_gateway_reserved :: int
  aa_typical_call_cost :: "int option"
  aa_max_in_flight :: "int option"
  aa_hourly_burn_cap :: "int option"

definition admission_account :: "string \<Rightarrow> credit_db \<Rightarrow> CreditError + AdmissionAccount" where
  "admission_account pubkey db = (case map_of (cd_accounts db) pubkey of
       None \<Rightarrow> Inr \<lparr>aa_balance = 0, aa_discovery_reserved = 0, aa_gateway_reserved = 0, aa_typical_call_cost = None,
                aa_max_in_flight = None, aa_hourly_burn_cap = None\<rparr>
     | Some a \<Rightarrow>
         and_then (as_bigint (discovery_reserved pubkey db)) (\<lambda>discovery.
         and_then (as_bigint (open_holds pubkey (cd_intents db))) (\<lambda>gateway.
         Inr \<lparr>aa_balance = saturating_i64 (ac_balance a + discovery), aa_discovery_reserved = discovery,
              aa_gateway_reserved = gateway, aa_typical_call_cost = ac_typical_call_cost a,
              aa_max_in_flight = ac_max_in_flight a, aa_hourly_burn_cap = ac_hourly_burn_cap a\<rparr>)))"

record RecentDebit =
  rd_id :: nat
  rd_reference :: string
  rd_pubkey :: string
  rd_cost_nanousd :: int
  rd_created_at :: int

definition recent_debits :: "int \<Rightarrow> credit_db \<Rightarrow> RecentDebit list" where
  "recent_debits since db =
     map (\<lambda>(i, e). \<lparr>rd_id = i, rd_reference = ce_reference e, rd_pubkey = ce_pubkey e,
                     rd_cost_nanousd = the (ce_observed_cost e), rd_created_at = ce_created_at e\<rparr>)
       (sort_key (\<lambda>(i, e). (ce_pubkey e, ce_created_at e, i))
         (filter (\<lambda>(i, e). ce_kind e = ''debit'' \<and> (case ce_observed_cost e of None \<Rightarrow> False | Some c \<Rightarrow> 0 < c)
                    \<and> since \<le> ce_created_at e) (cd_ledger db)))"

text \<open>The sum of the debits of a day, given its first instant and that of the next.\<close>

definition debits_on_day :: "int \<Rightarrow> int \<Rightarrow> credit_db \<Rightarrow> CreditError + int" where
  "debits_on_day start finish db =
     as_bigint (sum_list (map (\<lambda>(i, e). case ce_observed_cost e of None \<Rightarrow> 0 | Some c \<Rightarrow> c)
       (filter (\<lambda>(i, e). ce_kind e = ''debit'' \<and> start \<le> ce_created_at e \<and> ce_created_at e < finish) (cd_ledger db))))"

section \<open>Posting an entry\<close>

record EntryParams =
  ep_pubkey :: string
  ep_delta :: int
  ep_kind :: string
  ep_reference :: string
  ep_model :: "string option"
  ep_observed_cost :: "int option"
  ep_request_id :: "string option"
  ep_settle_basis :: "string option"

record AppliedLedgerEntry =
  al_id :: nat
  al_entry :: CreditEntry
  al_applied :: bool

definition open_account :: "string \<Rightarrow> credit_db \<Rightarrow> CreditError + credit_db" where
  "open_account pubkey db =
     (case sql_insert_ignore account_check (\<lambda>_ _. False) pubkey
             \<lparr>ac_balance = 0, ac_typical_call_cost = None, ac_max_in_flight = None, ac_hourly_burn_cap = None\<rparr> (cd_accounts db) of
        (Inl e, _) \<Rightarrow> Inl (CreditDb e)
      | (Inr _, tbl) \<Rightarrow> Inr (db\<lparr>cd_accounts := tbl\<rparr>))"

definition change_balance :: "string \<Rightarrow> int \<Rightarrow> credit_db \<Rightarrow> CreditError + credit_db" where
  "change_balance pubkey delta db = (case map_of (cd_accounts db) pubkey of
       None \<Rightarrow> Inr db
     | Some a \<Rightarrow> map_ok (\<lambda>b. db\<lparr>cd_accounts := changed (\<lambda>x. fst x = pubkey) (\<lambda>r. r\<lparr>ac_balance := b\<rparr>) (cd_accounts db)\<rparr>)
                   (as_bigint (ac_balance a + delta)))"

text \<open>\<open>INSERT ... ON CONFLICT (pubkey, ref) DO NOTHING RETURNING id\<close>.\<close>

definition insert_credit_entry :: "CreditEntry \<Rightarrow> credit_db \<Rightarrow> CreditError + nat option \<times> credit_db" where
  "insert_credit_entry e db =
     (let i = unused_id (cd_ledger db); row = compat_attribution e
      in case sql_insert_ignore entry_check same_reference i row (cd_ledger db) of
           (Inl err, _) \<Rightarrow> Inl (CreditDb err)
         | (Inr False, _) \<Rightarrow> Inr (None, db)
         | (Inr True, tbl) \<Rightarrow>
             if list_ex (\<lambda>x. same_run_charge row (snd x)) (cd_ledger db) then Inl (CreditDb UniqueViolation)
             else Inr (Some i, db\<lparr>cd_ledger := tbl\<rparr>))"

definition new_credit_entry :: "int \<Rightarrow> EntryParams \<Rightarrow> CreditEntry" where
  "new_credit_entry now q =
     \<lparr>ce_pubkey = ep_pubkey q, ce_delta = ep_delta q, ce_kind = ep_kind q, ce_reference = ep_reference q,
      ce_model = ep_model q, ce_observed_cost = ep_observed_cost q, ce_request_id = ep_request_id q,
      ce_settle_basis = ep_settle_basis q,
      ce_service = (if ep_kind q = ''debit'' \<and> ep_model q \<noteq> None then Some ''model'' else None),
      ce_quantity = None, ce_unit_price = None, ce_run = None, ce_created_at = now\<rparr>"

definition apply_entry_tx :: "int \<Rightarrow> EntryParams \<Rightarrow> credit_db \<Rightarrow> CreditError + AppliedLedgerEntry \<times> credit_db" where
  "apply_entry_tx now q db =
     and_then (open_account (ep_pubkey q) db) (\<lambda>db1.
     and_then (insert_credit_entry (new_credit_entry now q) db1) (\<lambda>(new, db2).
     case new of
       Some i \<Rightarrow> map_ok (Pair \<lparr>al_id = i, al_entry = compat_attribution (new_credit_entry now q), al_applied = True\<rparr>)
                   (change_balance (ep_pubkey q) (ep_delta q) db2)
     | None \<Rightarrow> (case find (\<lambda>x. ce_pubkey (snd x) = ep_pubkey q \<and> ce_reference (snd x) = ep_reference q) (cd_ledger db2) of
           None \<Rightarrow> Inl CreditRowMissing
         | Some (i, e) \<Rightarrow> Inr (\<lparr>al_id = i, al_entry = e, al_applied = False\<rparr>, db2))))"

definition apply_entry_applied ::
  "db_fault \<Rightarrow> int \<Rightarrow> EntryParams \<Rightarrow> credit_db \<Rightarrow> (CreditError + AppliedLedgerEntry) \<times> credit_db" where
  "apply_entry_applied fault now q db =
     (if ep_kind q = ''credit'' \<or> ep_kind q = ''seed''
      then if ep_delta q \<le> 0 then (Inl CreditInvalidAmount, db) else credit_tx fault (apply_entry_tx now q) db
      else if ep_kind q = ''debit'' \<and> 0 < ep_delta q then (Inl CreditInvalidAmount, db)
      else credit_tx fault (apply_entry_tx now q) db)"

definition apply_entry :: "db_fault \<Rightarrow> int \<Rightarrow> EntryParams \<Rightarrow> credit_db \<Rightarrow> (CreditError + nat \<times> CreditEntry) \<times> credit_db" where
  "apply_entry fault now q db = map_prod (map_ok (\<lambda>a. (al_id a, al_entry a))) id (apply_entry_applied fault now q db)"

definition money_in :: "string \<Rightarrow> string \<Rightarrow> int \<Rightarrow> string \<Rightarrow> EntryParams" where
  "money_in kind pubkey delta ref =
     \<lparr>ep_pubkey = pubkey, ep_delta = delta, ep_kind = kind, ep_reference = ref, ep_model = None,
      ep_observed_cost = None, ep_request_id = None, ep_settle_basis = None\<rparr>"

definition credit_account :: "db_fault \<Rightarrow> int \<Rightarrow> string \<Rightarrow> int \<Rightarrow> string \<Rightarrow> credit_db \<Rightarrow> (CreditError + nat \<times> CreditEntry) \<times> credit_db" where
  "credit_account fault now pubkey delta ref = apply_entry fault now (money_in ''credit'' pubkey delta ref)"

definition seed_account :: "db_fault \<Rightarrow> int \<Rightarrow> string \<Rightarrow> int \<Rightarrow> string \<Rightarrow> credit_db \<Rightarrow> (CreditError + nat \<times> CreditEntry) \<times> credit_db" where
  "seed_account fault now pubkey delta ref = apply_entry fault now (money_in ''seed'' pubkey delta ref)"

definition money_out :: "string \<Rightarrow> int \<Rightarrow> string \<Rightarrow> string option \<Rightarrow> string option \<Rightarrow> string option \<Rightarrow> EntryParams" where
  "money_out pubkey cost ref model request_id basis =
     \<lparr>ep_pubkey = pubkey, ep_delta = - cost, ep_kind = ''debit'', ep_reference = ref, ep_model = model,
      ep_observed_cost = Some cost, ep_request_id = request_id, ep_settle_basis = basis\<rparr>"

text \<open>\<open>debit_observed\<close> and \<open>debit_estimated\<close> are this with their basis.\<close>

definition debit_internal ::
  "db_fault \<Rightarrow> int \<Rightarrow> string \<Rightarrow> nat \<Rightarrow> string \<Rightarrow> string option \<Rightarrow> string option \<Rightarrow> string option \<Rightarrow> credit_db
   \<Rightarrow> (CreditError + AppliedLedgerEntry) \<times> credit_db" where
  "debit_internal fault now pubkey cost ref model request_id basis db =
     (case cost_i64 cost of
        Inl e \<Rightarrow> (Inl e, db)
      | Inr c \<Rightarrow> apply_entry_applied fault now (money_out pubkey c ref model request_id basis) db)"

section \<open>Settlement intents\<close>

text \<open>\<open>UPDATE gateway_settlement_intents SET ... WHERE id = $1 RETURNING ...\<close>, under its trigger.\<close>

definition update_intent ::
  "nat \<Rightarrow> (GatewaySettlementIntent \<Rightarrow> GatewaySettlementIntent) \<Rightarrow> credit_db \<Rightarrow> CreditError + GatewaySettlementIntent \<times> credit_db" where
  "update_intent i change db = (case map_of (cd_intents db) i of
       None \<Rightarrow> Inl CreditRowMissing
     | Some row \<Rightarrow>
         (case sql_update intent_check same_intent (\<lambda>x. fst x = i) (\<lambda>r. reservation_compat (cd_accounts db) (change r)) (cd_intents db) of
            (Inl e, _) \<Rightarrow> Inl (CreditDb e)
          | (Inr _, tbl) \<Rightarrow> Inr (reservation_compat (cd_accounts db) (change row), db\<lparr>cd_intents := tbl\<rparr>)))"

datatype GatewayIntentReservation =
    Reserved nat GatewaySettlementIntent AdmissionAccount
  | Insufficient int int

definition new_intent :: "int \<Rightarrow> string \<Rightarrow> string \<Rightarrow> string \<Rightarrow> int \<Rightarrow> GatewaySettlementIntent" where
  "new_intent now pubkey ref model hold =
     \<lparr>gi_pubkey = pubkey, gi_reference = ref, gi_model = model, gi_state = ''admitted'', gi_provider_request_id = None,
      gi_observed_cost = None, gi_provider_status = None, gi_reason = None, gi_correction_ref = None, gi_reserved = hold,
      gi_created_at = now, gi_updated_at = now, gi_resolved_at = None\<rparr>"

text \<open>The intent, whether it was created here, and the tables with it.\<close>

definition find_or_insert_intent ::
  "int \<Rightarrow> string \<Rightarrow> string \<Rightarrow> string \<Rightarrow> int \<Rightarrow> credit_db \<Rightarrow> CreditError + (nat \<times> GatewaySettlementIntent \<times> bool) \<times> credit_db" where
  "find_or_insert_intent now pubkey ref model hold db =
     (case find (\<lambda>x. gi_pubkey (snd x) = pubkey \<and> gi_reference (snd x) = ref) (cd_intents db) of
        Some (i, intent) \<Rightarrow> Inr ((i, intent, False), db)
      | None \<Rightarrow>
          let i = unused_id (cd_intents db); row = reservation_compat (cd_accounts db) (new_intent now pubkey ref model hold)
          in (case sql_insert intent_check same_intent i row (cd_intents db) of
                (Inl e, _) \<Rightarrow> Inl (CreditDb e)
              | (Inr _, tbl) \<Rightarrow> Inr ((i, row, True), db\<lparr>cd_intents := tbl\<rparr>)))"

definition admission_answer ::
  "credit_db \<Rightarrow> nat \<Rightarrow> GatewaySettlementIntent \<Rightarrow> bool \<Rightarrow> AccountRow \<Rightarrow> credit_db
   \<Rightarrow> CreditError + GatewayIntentReservation \<times> credit_db" where
  "admission_answer before i intent created account db =
     and_then (as_bigint (discovery_reserved (gi_pubkey intent) db)) (\<lambda>discovery.
     and_then (as_bigint (open_holds (gi_pubkey intent) (cd_intents db))) (\<lambda>gateway.
     let prior = saturating_i64 (gateway - gi_reserved intent);
         available = saturating_i64 (ac_balance account - prior)
     in if created \<and> available < gi_reserved intent
        then Inr (Insufficient available (gi_reserved intent), before)
        else Inr (Reserved i intent
               \<lparr>aa_balance = saturating_i64 (ac_balance account + discovery), aa_discovery_reserved = discovery,
                aa_gateway_reserved = gateway, aa_typical_call_cost = ac_typical_call_cost account,
                aa_max_in_flight = ac_max_in_flight account, aa_hourly_burn_cap = ac_hourly_burn_cap account\<rparr>, db)))"

definition size_hold ::
  "int \<Rightarrow> int \<Rightarrow> int \<Rightarrow> nat \<Rightarrow> GatewaySettlementIntent \<Rightarrow> bool \<Rightarrow> AccountRow \<Rightarrow> credit_db
   \<Rightarrow> CreditError + GatewaySettlementIntent \<times> credit_db" where
  "size_hold now default_cost minimum i intent created account db =
     (let required = max (max (case ac_typical_call_cost account of Some t \<Rightarrow> t | None \<Rightarrow> default_cost) minimum) 1
      in if created \<and> gi_reserved intent \<noteq> required
         then update_intent i (\<lambda>r. r\<lparr>gi_reserved := required, gi_updated_at := now\<rparr>) db
         else Inr (intent, db))"

definition create_intent_tx ::
  "int \<Rightarrow> string \<Rightarrow> string \<Rightarrow> string \<Rightarrow> int \<Rightarrow> int \<Rightarrow> credit_db \<Rightarrow> CreditError + GatewayIntentReservation \<times> credit_db" where
  "create_intent_tx now pubkey ref model default_cost minimum db =
     and_then (find_or_insert_intent now pubkey ref model (max (max default_cost minimum) 1) db) (\<lambda>((i, intent, created), db1).
     case map_of (cd_accounts db1) pubkey of
       None \<Rightarrow> Inr (Insufficient 0 (max default_cost minimum), db)
     | Some account \<Rightarrow>
         and_then (size_hold now default_cost minimum i intent created account db1) (\<lambda>(intent', db2).
         admission_answer db i intent' created account db2))"

definition create_gateway_settlement_intent ::
  "db_fault \<Rightarrow> int \<Rightarrow> string \<Rightarrow> string \<Rightarrow> string \<Rightarrow> int \<Rightarrow> int \<Rightarrow> credit_db
   \<Rightarrow> (CreditError + GatewayIntentReservation) \<times> credit_db" where
  "create_gateway_settlement_intent fault now pubkey ref model default_cost minimum =
     credit_tx fault (create_intent_tx now pubkey ref model default_cost minimum)"

section \<open>The life of an intent\<close>

definition mark_gateway_provider_completed ::
  "db_fault \<Rightarrow> int \<Rightarrow> nat \<Rightarrow> string option \<Rightarrow> int option \<Rightarrow> int \<Rightarrow> credit_db \<Rightarrow> (CreditError + GatewaySettlementIntent) \<times> credit_db" where
  "mark_gateway_provider_completed fault now i request_id cost status =
     credit_tx fault (update_intent i (\<lambda>r. r\<lparr>
       gi_state := (if gi_state r \<in> {''debited'', ''resolved''} then gi_state r else ''provider_completed''),
       gi_provider_request_id := or_else request_id (gi_provider_request_id r),
       gi_observed_cost := or_else cost (gi_observed_cost r),
       gi_provider_status := Some status, gi_updated_at := now\<rparr>))"

definition mark_gateway_intent_debited ::
  "db_fault \<Rightarrow> int \<Rightarrow> nat \<Rightarrow> credit_db \<Rightarrow> (CreditError + GatewaySettlementIntent) \<times> credit_db" where
  "mark_gateway_intent_debited fault now i =
     credit_tx fault (update_intent i (\<lambda>r. r\<lparr>
       gi_state := (if gi_state r = ''resolved'' then gi_state r else ''debited''), gi_reserved := 0, gi_updated_at := now\<rparr>))"

definition resolve_gateway_intent_no_charge ::
  "db_fault \<Rightarrow> int \<Rightarrow> nat \<Rightarrow> int \<Rightarrow> credit_db \<Rightarrow> (CreditError + GatewaySettlementIntent) \<times> credit_db" where
  "resolve_gateway_intent_no_charge fault now i status =
     credit_tx fault (update_intent i (\<lambda>r. r\<lparr>
       gi_state := ''resolved'', gi_reserved := 0, gi_observed_cost := or_else (gi_observed_cost r) (Some 0),
       gi_provider_status := Some status, gi_reason := or_else (gi_reason r) (Some ''provider_non_success''),
       gi_resolved_at := or_else (gi_resolved_at r) (Some now), gi_updated_at := now\<rparr>))"

text \<open>\<open>INSERT ... ON CONFLICT (pubkey, reference) DO UPDATE\<close>.\<close>

definition record_outcome ::
  "string \<times> string \<Rightarrow> ReconciliationOutcome \<Rightarrow> credit_db \<Rightarrow> CreditError + credit_db" where
  "record_outcome k new db =
     (case map_of (cd_outcomes db) k of
        None \<Rightarrow> (case sql_insert outcome_check (\<lambda>_ _. False) k new (cd_outcomes db) of
            (Inl e, _) \<Rightarrow> Inl (CreditDb e)
          | (Inr _, tbl) \<Rightarrow> Inr (db\<lparr>cd_outcomes := tbl\<rparr>))
      | Some _ \<Rightarrow>
          if \<not> outcome_check (k, new) then Inl (CreditDb CheckViolation)
          else Inr (db\<lparr>cd_outcomes := changed (\<lambda>x. fst x = k) (\<lambda>r. r\<lparr>
            rc_intent_id := or_else (rc_intent_id r) (rc_intent_id new),
            rc_provider_request_id := or_else (rc_provider_request_id r) (rc_provider_request_id new),
            rc_observed_cost := or_else (rc_observed_cost r) (rc_observed_cost new),
            rc_reason := rc_reason new\<rparr>) (cd_outcomes db)\<rparr>))"

definition mark_gateway_intent_reconciliation ::
  "db_fault \<Rightarrow> int \<Rightarrow> nat \<Rightarrow> string \<Rightarrow> string option \<Rightarrow> int option \<Rightarrow> int \<Rightarrow> credit_db
   \<Rightarrow> (CreditError + GatewaySettlementIntent) \<times> credit_db" where
  "mark_gateway_intent_reconciliation fault now i reason request_id cost status =
     credit_tx fault (\<lambda>db.
       and_then (update_intent i (\<lambda>r. r\<lparr>
         gi_state := (if gi_state r = ''resolved'' then gi_state r else ''reconciliation''), gi_reason := Some reason,
         gi_provider_request_id := or_else request_id (gi_provider_request_id r),
         gi_observed_cost := or_else cost (gi_observed_cost r),
         gi_provider_status := Some status, gi_updated_at := now\<rparr>) db) (\<lambda>(intent, db1).
       map_ok (Pair intent) (record_outcome (gi_pubkey intent, gi_reference intent)
         \<lparr>rc_model = gi_model intent, rc_http_status = status, rc_reason = reason, rc_intent_id = Some i,
          rc_provider_request_id = request_id, rc_observed_cost = cost, rc_correction_ref = None, rc_resolved_at = None\<rparr> db1)))"

text \<open>The older form, which leaves an outcome that is there alone.\<close>

definition record_gateway_reconciliation ::
  "db_fault \<Rightarrow> string \<Rightarrow> string \<Rightarrow> string \<Rightarrow> int \<Rightarrow> string \<Rightarrow> credit_db \<Rightarrow> (CreditError + unit) \<times> credit_db" where
  "record_gateway_reconciliation fault pubkey ref model status reason =
     credit_tx fault (\<lambda>db.
       case sql_insert_ignore outcome_check (\<lambda>_ _. False) (pubkey, ref)
              \<lparr>rc_model = model, rc_http_status = status, rc_reason = reason, rc_intent_id = None,
               rc_provider_request_id = None, rc_observed_cost = None, rc_correction_ref = None, rc_resolved_at = None\<rparr>
              (cd_outcomes db) of
         (Inl e, _) \<Rightarrow> Inl (CreditDb e)
       | (Inr _, tbl) \<Rightarrow> Inr ((), db\<lparr>cd_outcomes := tbl\<rparr>))"

section \<open>Charging an intent\<close>

definition debit_intent_tx ::
  "int \<Rightarrow> nat \<Rightarrow> string \<Rightarrow> int \<Rightarrow> string \<Rightarrow> string \<Rightarrow> string option \<Rightarrow> string \<Rightarrow> credit_db
   \<Rightarrow> CreditError + AppliedLedgerEntry \<times> credit_db" where
  "debit_intent_tx now i pubkey cost ref model request_id basis db =
     (case map_of (cd_intents db) i of
        None \<Rightarrow> Inl CreditNotFound
      | Some intent \<Rightarrow>
          if gi_pubkey intent \<noteq> pubkey \<or> gi_model intent \<noteq> model then Inl CreditInvalidData
          else and_then (apply_entry_tx now (money_out pubkey cost ref (Some model) request_id (Some basis)) db) (\<lambda>(applied, db1).
               map_ok (\<lambda>(_, db2). (applied, db2))
                 (update_intent i (\<lambda>r. r\<lparr>
                    gi_state := (if gi_state r = ''resolved'' then gi_state r else ''debited''),
                    gi_reserved := 0, gi_updated_at := now\<rparr>) db1)))"

definition debit_gateway_intent_internal ::
  "db_fault \<Rightarrow> int \<Rightarrow> nat \<Rightarrow> string \<Rightarrow> nat \<Rightarrow> string \<Rightarrow> string \<Rightarrow> string option \<Rightarrow> string \<Rightarrow> credit_db
   \<Rightarrow> (CreditError + AppliedLedgerEntry) \<times> credit_db" where
  "debit_gateway_intent_internal fault now i pubkey cost ref model request_id basis db =
     (case cost_i64 cost of
        Inl e \<Rightarrow> (Inl e, db)
      | Inr c \<Rightarrow> credit_tx fault (debit_intent_tx now i pubkey c ref model request_id basis) db)"

definition debit_observed_for_gateway_intent where
  "debit_observed_for_gateway_intent fault now i pubkey cost ref model request_id =
     debit_gateway_intent_internal fault now i pubkey cost ref model request_id ''observed''"

definition debit_estimated_for_gateway_intent where
  "debit_estimated_for_gateway_intent fault now i pubkey cost ref model request_id =
     debit_gateway_intent_internal fault now i pubkey cost ref model request_id ''estimated''"

section \<open>Resolving from the export of the provider\<close>

record GatewayProviderUsage =
  pu_pubkey :: string
  pu_reference :: string
  pu_model :: string
  pu_cost_nanousd :: nat
  pu_provider_request_id :: "string option"

definition pending_gateway_settlement_intents :: "credit_db \<Rightarrow> (nat \<times> GatewaySettlementIntent) list" where
  "pending_gateway_settlement_intents db =
     sort_key fst (filter (\<lambda>x. gi_state (snd x) \<noteq> ''resolved'') (cd_intents db))"

text \<open>The debit a settlement may have left although its answer was lost.\<close>

definition normal_debit :: "db_fault \<Rightarrow> string \<Rightarrow> GatewayProviderUsage \<Rightarrow> credit_db \<Rightarrow> CreditError + string option" where
  "normal_debit fault pubkey usage db = (case pu_provider_request_id usage of
       None \<Rightarrow> Inr None
     | Some request_id \<Rightarrow>
         and_then (cost_i64 (pu_cost_nanousd usage)) (\<lambda>cost.
         credit_read fault (map_option (\<lambda>x. ce_reference (snd x))
           (find (\<lambda>x. ce_pubkey (snd x) = pubkey \<and> ce_request_id (snd x) = Some request_id
                    \<and> ce_kind (snd x) = ''debit'' \<and> ce_observed_cost (snd x) = Some cost) (cd_ledger db)))))"

definition correction_reference ::
  "string option \<Rightarrow> nat \<Rightarrow> GatewaySettlementIntent \<Rightarrow> GatewayProviderUsage \<Rightarrow> string" where
  "correction_reference existing i intent usage =
     (case or_else existing (gi_correction_ref intent) of
        Some ref \<Rightarrow> ref
      | None \<Rightarrow> (if pu_provider_request_id usage = None then gi_reference intent else ''gateway-intent:'' @ show_nat i))"

definition close_intent ::
  "int \<Rightarrow> nat \<Rightarrow> string option \<Rightarrow> int \<Rightarrow> string \<Rightarrow> credit_db \<Rightarrow> CreditError + GatewaySettlementIntent \<times> credit_db" where
  "close_intent now i request_id cost ref =
     update_intent i (\<lambda>r. r\<lparr>gi_state := ''resolved'', gi_reserved := 0,
       gi_provider_request_id := or_else request_id (gi_provider_request_id r), gi_observed_cost := Some cost,
       gi_correction_ref := Some ref, gi_resolved_at := or_else (gi_resolved_at r) (Some now), gi_updated_at := now\<rparr>)"

definition close_outcomes :: "int \<Rightarrow> nat \<Rightarrow> GatewaySettlementIntent \<Rightarrow> int \<Rightarrow> string \<Rightarrow> credit_db \<Rightarrow> CreditError + unit \<times> credit_db" where
  "close_outcomes now i intent cost ref db =
     (case sql_update outcome_check (\<lambda>_ _. False)
             (\<lambda>x. rc_intent_id (snd x) = Some i \<or> fst x = (gi_pubkey intent, gi_reference intent))
             (\<lambda>r. r\<lparr>rc_resolved_at := or_else (rc_resolved_at r) (Some now),
                rc_correction_ref := or_else (rc_correction_ref r) (Some ref),
                rc_observed_cost := or_else (rc_observed_cost r) (Some cost)\<rparr>) (cd_outcomes db) of
        (Inl e, _) \<Rightarrow> Inl (CreditDb e)
      | (Inr _, tbl) \<Rightarrow> Inr ((), db\<lparr>cd_outcomes := tbl\<rparr>))"

definition finish_resolution ::
  "(string \<Rightarrow> db_fault) \<Rightarrow> int \<Rightarrow> nat \<Rightarrow> GatewaySettlementIntent \<Rightarrow> GatewayProviderUsage \<Rightarrow> string \<Rightarrow> credit_db
   \<Rightarrow> (CreditError + GatewaySettlementIntent option) \<times> credit_db" where
  "finish_resolution F now i intent usage ref db =
     (case cost_i64 (pu_cost_nanousd usage) of
        Inl e \<Rightarrow> (Inl e, db)
      | Inr cost \<Rightarrow>
          (case credit_tx (F ''close'') (close_intent now i (pu_provider_request_id usage) cost ref) db of
             (Inl e, db1) \<Rightarrow> (Inl e, db1)
           | (Inr closed, db1) \<Rightarrow>
               map_prod (map_ok (\<lambda>_. Some closed)) id (credit_tx (F ''outcomes'') (close_outcomes now i intent cost ref) db1)))"

definition resolve_gateway_settlement_intent ::
  "(string \<Rightarrow> db_fault) \<Rightarrow> int \<Rightarrow> nat \<Rightarrow> GatewayProviderUsage \<Rightarrow> credit_db
   \<Rightarrow> (CreditError + GatewaySettlementIntent option) \<times> credit_db" where
  "resolve_gateway_settlement_intent F now i usage db =
     (case credit_read (F ''load'') (map_of (cd_intents db) i) of
        Inl e \<Rightarrow> (Inl e, db)
      | Inr None \<Rightarrow> (Inr None, db)
      | Inr (Some intent) \<Rightarrow>
          if gi_state intent = ''resolved'' then (Inr (Some intent), db)
          else if gi_pubkey intent \<noteq> pu_pubkey usage \<or> gi_reference intent \<noteq> pu_reference usage \<or> gi_model intent \<noteq> pu_model usage
          then (Inl CreditInvalidData, db)
          else (case normal_debit (F ''correlate'') (gi_pubkey intent) usage db of
              Inl e \<Rightarrow> (Inl e, db)
            | Inr existing \<Rightarrow>
                let ref = correction_reference existing i intent usage
                in if existing \<noteq> None then finish_resolution F now i intent usage ref db
                   else (case debit_observed_for_gateway_intent (F ''debit'') now i (gi_pubkey intent) (pu_cost_nanousd usage) ref
                                (pu_model usage) (pu_provider_request_id usage) db of
                       (Inl e, db1) \<Rightarrow> (Inl e, db1)
                     | (Inr _, db1) \<Rightarrow> finish_resolution F now i intent usage ref db1)))"

fun resolve_each ::
  "(nat \<Rightarrow> string \<Rightarrow> db_fault) \<Rightarrow> int \<Rightarrow> GatewayProviderUsage list \<Rightarrow> (nat \<times> GatewaySettlementIntent) list \<Rightarrow> nat \<Rightarrow> credit_db
   \<Rightarrow> (CreditError + nat) \<times> credit_db" where
  "resolve_each F now usages [] resolved db = (Inr resolved, db)"
| "resolve_each F now usages ((i, intent) # pending) resolved db =
     (case find (\<lambda>u. pu_pubkey u = gi_pubkey intent \<and> pu_reference u = gi_reference intent) usages of
        None \<Rightarrow> resolve_each F now usages pending resolved db
      | Some usage \<Rightarrow>
          (case resolve_gateway_settlement_intent (F i) now i usage db of
             (Inl e, db1) \<Rightarrow> (Inl e, db1)
           | (Inr res, db1) \<Rightarrow>
               resolve_each F now usages pending
                 (if \<exists>r\<in>set_option res. gi_state r = ''resolved'' then Suc resolved else resolved) db1))"

definition resolve_pending_gateway_settlements ::
  "db_fault \<Rightarrow> (nat \<Rightarrow> string \<Rightarrow> db_fault) \<Rightarrow> int \<Rightarrow> GatewayProviderUsage list \<Rightarrow> credit_db \<Rightarrow> (CreditError + nat) \<times> credit_db" where
  "resolve_pending_gateway_settlements fault F now usages db =
     (case credit_read fault (pending_gateway_settlement_intents db) of
        Inl e \<Rightarrow> (Inl e, db)
      | Inr pending \<Rightarrow> resolve_each F now usages pending 0 db)"

section \<open>Paid discovery runs\<close>

text \<open>What \<open>discovery.rs\<close> posts: the hold of a run, and at its end the release and the charge.\<close>

definition discovery_entry ::
  "int \<Rightarrow> string \<Rightarrow> int \<Rightarrow> string \<Rightarrow> string \<Rightarrow> int \<Rightarrow> int \<Rightarrow> string \<times> string \<times> string \<Rightarrow> CreditEntry" where
  "discovery_entry now payer delta kind ref quantity price run =
     \<lparr>ce_pubkey = payer, ce_delta = delta, ce_kind = kind, ce_reference = ref, ce_model = None, ce_observed_cost = None,
      ce_request_id = None, ce_settle_basis = None, ce_service = Some ''discovery'', ce_quantity = Some quantity,
      ce_unit_price = Some price, ce_run = Some run, ce_created_at = now\<rparr>"

definition escrow_paid_discovery_run_tx ::
  "int \<Rightarrow> string \<Rightarrow> int \<Rightarrow> int \<Rightarrow> int \<Rightarrow> string \<times> string \<times> string \<Rightarrow> credit_db \<Rightarrow> CreditError + credit_db" where
  "escrow_paid_discovery_run_tx now payer reserved limit price run db =
     and_then (insert_credit_entry (discovery_entry now payer (- reserved) ''hold''
                 (''discovery-hold:'' @ fst run @ '':'' @ snd (snd run)) limit price run) db) (\<lambda>(new, db1).
       if new = None then Inl CreditAccessDenied else change_balance payer (- reserved) db1)"

definition charge_retained ::
  "int \<Rightarrow> string \<Rightarrow> int \<Rightarrow> int \<Rightarrow> int \<Rightarrow> string \<times> string \<times> string \<Rightarrow> credit_db \<Rightarrow> CreditError + credit_db" where
  "charge_retained now payer settled retained price run db =
     (let charge = discovery_entry now payer (- settled) ''debit'' (''discovery:'' @ fst run @ '':'' @ snd (snd run)) retained price run
      in and_then (insert_credit_entry charge db) (\<lambda>(new, db1).
         if new \<noteq> None then change_balance payer (- settled) db1
         else if list_ex (\<lambda>x. ce_pubkey (snd x) = payer \<and> ce_reference (snd x) = ce_reference charge
                  \<and> ce_service (snd x) = Some ''discovery'' \<and> ce_delta (snd x) = - settled
                  \<and> ce_quantity (snd x) = Some retained \<and> ce_unit_price (snd x) = Some price \<and> ce_run (snd x) = Some run) (cd_ledger db1)
         then Inr db1 else Inl CreditAccessDenied))"

definition post_run_settlement ::
  "int \<Rightarrow> string \<Rightarrow> int \<Rightarrow> int \<Rightarrow> int \<Rightarrow> int \<Rightarrow> int \<Rightarrow> string \<times> string \<times> string \<Rightarrow> credit_db \<Rightarrow> CreditError + credit_db" where
  "post_run_settlement now payer reserved limit settled retained price run db =
     and_then (insert_credit_entry (discovery_entry now payer reserved ''release''
                 (''discovery-release:'' @ fst run @ '':'' @ snd (snd run)) limit price run) db) (\<lambda>(new, db1).
     and_then (if new \<noteq> None then change_balance payer reserved db1 else Inr db1) (\<lambda>db2.
       if 0 < retained then charge_retained now payer settled retained price run db2 else Inr db2))"

end
