(* ===== verification/Gateway_Admission.thy ===== *)
theory Gateway_Admission
  imports Credit_Store Price_Book "HOL-Library.Multiset"
begin

text \<open>
  The admission controller and the settlement of the hosted model gateway
  (\<open>buzz-relay/src/gateway/mod.rs\<close>), on the credit store. Instants are nanoseconds. An admission, a
  settlement and the dropping of a permit are each taken apart where the code awaits or gives up a lock, and
  their parts interleave with those of every other account and of other calls of the same one, which only the gate
  keeps apart. A user of a gate and a permit are known by their account: that its entry is never dropped
  under them is what \<open>slots_are_counted\<close> shows. What the response
  of the provider says about its use is an argument; the streaming of its body is not modelled.
\<close>

section \<open>Constants\<close>

definition ADMISSION_FLOOR_NANOUSD :: int where "ADMISSION_FLOOR_NANOUSD = 50000000"
definition DEFAULT_TYPICAL_CALL_COST_NANOUSD :: int where "DEFAULT_TYPICAL_CALL_COST_NANOUSD = 50000000"
definition DEFAULT_MAX_IN_FLIGHT :: nat where "DEFAULT_MAX_IN_FLIGHT = 4"
definition MAX_MAX_IN_FLIGHT :: nat where "MAX_MAX_IN_FLIGHT = 4"
definition DEFAULT_HOURLY_BURN_CAP_NANOUSD :: int where "DEFAULT_HOURLY_BURN_CAP_NANOUSD = 5000000000"
definition BURN_WINDOW :: int where "BURN_WINDOW = 3600 * 10 ^ 9"
definition SETTLE_MAX_ATTEMPTS :: nat where "SETTLE_MAX_ATTEMPTS = 3"
definition MAX_ADMISSION_ENTRIES :: nat where "MAX_ADMISSION_ENTRIES = 4096"
definition ADMISSION_IDLE_TTL :: int where "ADMISSION_IDLE_TTL = 3600 * 10 ^ 9"

section \<open>The spend of an account in the last hour\<close>

record AdmissionDefaults =
  ad_typical_call_cost :: int
  ad_max_in_flight :: nat
  ad_hourly_burn_cap :: int

record SpendPoint =
  sp_ledger_id :: nat
  sp_reference :: string
  sp_at :: int
  sp_cost :: int

record AccountRuntime =
  ar_in_flight :: nat
  ar_spend_nanousd :: int
  ar_spend :: "SpendPoint list"
  ar_last_touched :: "int option"

definition new_runtime :: AccountRuntime where
  "new_runtime = \<lparr>ar_in_flight = 0, ar_spend_nanousd = 0, ar_spend = [], ar_last_touched = None\<rparr>"

fun drop_expired :: "int \<Rightarrow> SpendPoint list \<Rightarrow> int \<Rightarrow> SpendPoint list \<times> int" where
  "drop_expired cutoff [] spent = ([], spent)"
| "drop_expired cutoff (point # spend) spent =
     (if sp_at point \<le> cutoff then drop_expired cutoff spend (saturating_i64 (spent - sp_cost point)) else (point # spend, spent))"

definition prune :: "int \<Rightarrow> AccountRuntime \<Rightarrow> AccountRuntime" where
  "prune now rt = (case drop_expired (now - BURN_WINDOW) (ar_spend rt) (ar_spend_nanousd rt) of
     (spend, spent) \<Rightarrow> rt\<lparr>ar_spend := spend, ar_spend_nanousd := spent\<rparr>)"

fun insert_point :: "SpendPoint \<Rightarrow> SpendPoint list \<Rightarrow> SpendPoint list" where
  "insert_point point [] = [point]"
| "insert_point point (current # spend) =
     (if sp_at current > sp_at point then point # current # spend else current # insert_point point spend)"

definition push_spend :: "SpendPoint \<Rightarrow> AccountRuntime \<Rightarrow> AccountRuntime" where
  "push_spend point rt =
     (if sp_cost point \<le> 0 then rt
      else if 0 < sp_ledger_id point \<and> list_ex (\<lambda>c. sp_ledger_id c = sp_ledger_id point) (ar_spend rt)
            \<or> sp_reference point \<noteq> [] \<and> list_ex (\<lambda>c. sp_reference c = sp_reference point) (ar_spend rt) then rt
      else rt\<lparr>ar_spend_nanousd := saturating_i64 (ar_spend_nanousd rt + sp_cost point),
              ar_spend := insert_point point (ar_spend rt)\<rparr>)"

definition touch :: "int \<Rightarrow> AccountRuntime \<Rightarrow> AccountRuntime" where
  "touch now rt = rt\<lparr>ar_last_touched := Some now\<rparr>"

fun retry_scan :: "int \<Rightarrow> int \<Rightarrow> int \<Rightarrow> SpendPoint list \<Rightarrow> int" where
  "retry_scan cap now remaining [] = 1"
| "retry_scan cap now remaining (point # spend) =
     (let remaining' = saturating_i64 (remaining - sp_cost point) in
      if remaining' < cap
      then let millis = max ((sp_at point + BURN_WINDOW - now) div 10 ^ 6) 1
           in min (max ((millis + 999) div 1000) 1) (BURN_WINDOW div 10 ^ 9 + 1)
      else retry_scan cap now remaining' spend)"

definition retry_after_secs :: "int \<Rightarrow> int \<Rightarrow> AccountRuntime \<Rightarrow> int" where
  "retry_after_secs cap now rt = retry_scan cap now (ar_spend_nanousd rt) (ar_spend rt)"

text \<open>Releasing a slot that is not taken is logged and ignored.\<close>

definition release_runtime :: "AccountRuntime \<Rightarrow> AccountRuntime" where
  "release_runtime rt = (if ar_in_flight rt = 0 then rt else rt\<lparr>ar_in_flight := ar_in_flight rt - 1\<rparr>)"

section \<open>The controller\<close>

record AccountAdmissionEntry =
  ae_gate_users :: nat
  ae_runtime :: AccountRuntime

record AdmissionController =
  ct_entries :: "(string \<times> AccountAdmissionEntry) list"
  ct_defaults :: AdmissionDefaults
  ct_closed :: bool

datatype AdmissionError =
    Payment int int
  | Rate string int
  | AdmissionDatabase CreditError

definition entry_runtime :: "string \<Rightarrow> AdmissionController \<Rightarrow> AccountRuntime" where
  "entry_runtime pubkey ct = (case map_of (ct_entries ct) pubkey of Some e \<Rightarrow> ae_runtime e | None \<Rightarrow> new_runtime)"

definition change_entry ::
  "string \<Rightarrow> (AccountAdmissionEntry \<Rightarrow> AccountAdmissionEntry) \<Rightarrow> AdmissionController \<Rightarrow> AdmissionController" where
  "change_entry pubkey f ct =
     ct\<lparr>ct_entries := map (\<lambda>(p, e). (p, if p = pubkey then f e else e)) (ct_entries ct)\<rparr>"

definition change_runtime :: "string \<Rightarrow> (AccountRuntime \<Rightarrow> AccountRuntime) \<Rightarrow> AdmissionController \<Rightarrow> AdmissionController" where
  "change_runtime pubkey f = change_entry pubkey (\<lambda>e. e\<lparr>ae_runtime := f (ae_runtime e)\<rparr>)"

text \<open>\<open>retain\<close>, which prunes the ring of each entry it looks at.\<close>

definition entry_idle :: "int \<Rightarrow> AccountAdmissionEntry \<Rightarrow> bool" where
  "entry_idle now e \<longleftrightarrow> ae_gate_users e = 0 \<and> ar_in_flight (ae_runtime e) = 0 \<and> ar_spend (ae_runtime e) = []
     \<and> (case ar_last_touched (ae_runtime e) of None \<Rightarrow> False | Some t \<Rightarrow> t + ADMISSION_IDLE_TTL \<le> now)"

definition prune_idle_entries :: "int \<Rightarrow> AdmissionController \<Rightarrow> AdmissionController" where
  "prune_idle_entries now ct =
     ct\<lparr>ct_entries := filter (\<lambda>(p, e). \<not> entry_idle now e)
        (map (\<lambda>(p, e). (p, e\<lparr>ae_runtime := prune now (ae_runtime e)\<rparr>)) (ct_entries ct))\<rparr>"

definition entry_unchecked :: "string \<Rightarrow> AdmissionController \<Rightarrow> AdmissionController" where
  "entry_unchecked pubkey ct =
     (if map_of (ct_entries ct) pubkey \<noteq> None then ct
      else ct\<lparr>ct_entries := (pubkey, \<lparr>ae_gate_users = 0, ae_runtime = new_runtime\<rparr>) # ct_entries ct\<rparr>)"

definition entry_for_admission :: "int \<Rightarrow> string \<Rightarrow> AdmissionController \<Rightarrow> (AdmissionError + unit) \<times> AdmissionController" where
  "entry_for_admission now pubkey ct =
     (let ct' = prune_idle_entries now ct in
      if map_of (ct_entries ct') pubkey \<noteq> None
      then (Inr (), change_entry pubkey (\<lambda>e. e\<lparr>ae_gate_users := Suc (ae_gate_users e)\<rparr>) ct')
      else if MAX_ADMISSION_ENTRIES \<le> length (ct_entries ct') then (Inl (Rate ''gateway admission capacity exhausted'' 1), ct')
      else (Inr (), ct'\<lparr>ct_entries := (pubkey, \<lparr>ae_gate_users = 1, ae_runtime = new_runtime\<rparr>) # ct_entries ct'\<rparr>))"

definition leave_gate :: "string \<Rightarrow> AdmissionController \<Rightarrow> AdmissionController" where
  "leave_gate pubkey = change_entry pubkey (\<lambda>e. e\<lparr>ae_gate_users := ae_gate_users e - 1\<rparr>)"

definition try_new_admission ::
  "AdmissionDefaults \<Rightarrow> int \<Rightarrow> RecentDebit list \<Rightarrow> AdmissionController option" where
  "try_new_admission defaults now recent =
     (if MAX_ADMISSION_ENTRIES < card (set (map rd_pubkey recent)) then None
      else Some (fold (\<lambda>debit ct.
             change_runtime (rd_pubkey debit) (\<lambda>rt. touch now (push_spend
               \<lparr>sp_ledger_id = rd_id debit, sp_reference = rd_reference debit, sp_at = rd_created_at debit,
                sp_cost = rd_cost_nanousd debit\<rparr> rt)) (entry_unchecked (rd_pubkey debit) ct)) recent
           \<lparr>ct_entries = [], ct_defaults = defaults\<lparr>ad_max_in_flight := min (ad_max_in_flight defaults) MAX_MAX_IN_FLIGHT\<rparr>,
            ct_closed = False\<rparr>))"

definition close_admission :: "AdmissionController \<Rightarrow> AdmissionController" where
  "close_admission ct = ct\<lparr>ct_closed := True\<rparr>"

section \<open>Admission\<close>

definition in_flight_limit :: "AdmissionDefaults \<Rightarrow> AdmissionAccount \<Rightarrow> nat" where
  "in_flight_limit defaults account =
     min (case aa_max_in_flight account of Some m \<Rightarrow> (if 0 \<le> m then nat m else ad_max_in_flight defaults)
          | None \<Rightarrow> ad_max_in_flight defaults) MAX_MAX_IN_FLIGHT"

definition burn_cap :: "AdmissionDefaults \<Rightarrow> AdmissionAccount \<Rightarrow> int" where
  "burn_cap defaults account = (case aa_hourly_burn_cap account of Some c \<Rightarrow> c | None \<Rightarrow> ad_hourly_burn_cap defaults)"

text \<open>The check under the lock of the account: the refusal, if any, and the entry after it.\<close>

definition take_slot :: "int \<Rightarrow> AdmissionDefaults \<Rightarrow> AdmissionAccount \<Rightarrow> AccountRuntime \<Rightarrow> (AdmissionError + unit) \<times> AccountRuntime" where
  "take_slot now defaults account rt0 =
     (let rt = touch now (prune now rt0) in
      if in_flight_limit defaults account \<le> ar_in_flight rt then (Inl (Rate ''gateway concurrency limit reached'' 1), rt)
      else if burn_cap defaults account \<le> ar_spend_nanousd rt
      then (Inl (Rate ''gateway hourly spend limit reached'' (retry_after_secs (burn_cap defaults account) now rt)), rt)
      else (Inr (), rt\<lparr>ar_in_flight := Suc (ar_in_flight rt)\<rparr>))"

section \<open>Settlement\<close>

record ParsedUsage =
  pz_tokens :: "UsageBreakdown option"
  pz_model :: "string option"
  pz_request_id :: "string option"
  pz_observed_cost :: "nat option"

record SettleJob =
  sj_pubkey :: string
  sj_model_id :: string
  sj_intent_id :: nat
  sj_intent_reference :: string
  sj_parsed :: ParsedUsage
  sj_http_status :: nat
  sj_parseable :: bool
  sj_reference :: string

record SettledDebit =
  sd_ledger_id :: nat
  sd_reference :: string
  sd_cost_nanousd :: int
  sd_created_at :: int

definition is_success :: "nat \<Rightarrow> bool" where
  "is_success status \<longleftrightarrow> 200 \<le> status \<and> status < 300"

text \<open>\<open>take_job\<close>: the reference a call is charged under.\<close>

definition settle_reference :: "ParsedUsage \<Rightarrow> string \<Rightarrow> string" where
  "settle_reference parsed intent_reference =
     (case pz_request_id parsed of
        Some r \<Rightarrow> (if r \<noteq> [] then r else intent_reference)
      | None \<Rightarrow> intent_reference)"

definition settled_debit :: "AppliedLedgerEntry \<Rightarrow> CreditError + SettledDebit option" where
  "settled_debit a = (case ce_observed_cost (al_entry a) of
       None \<Rightarrow> Inl CreditInvalidData
     | Some c \<Rightarrow> Inr (Some \<lparr>sd_ledger_id = al_id a, sd_reference = ce_reference (al_entry a), sd_cost_nanousd = c,
                           sd_created_at = ce_created_at (al_entry a)\<rparr>))"

definition settle_estimate ::
  "db_fault \<Rightarrow> PriceBook \<Rightarrow> int \<Rightarrow> SettleJob \<Rightarrow> UsageBreakdown \<Rightarrow> credit_db \<Rightarrow> (CreditError + SettledDebit option) \<times> credit_db" where
  "settle_estimate fault book now job tokens db =
     (case price_tokens book (sj_model_id job) tokens (nat (max (now div 10 ^ 9) 0)) of
        None \<Rightarrow> (Inr None, db)
      | Some cost \<Rightarrow>
          if 2 ^ 64 \<le> unat cost then (Inl CreditInvalidAmount, db)
          else map_prod (\<lambda>r. and_then r settled_debit) id
            (debit_estimated_for_gateway_intent fault now (sj_intent_id job) (sj_pubkey job) (unat cost) (sj_reference job)
               (sj_model_id job) (pz_request_id (sj_parsed job)) db))"

definition settle_charge ::
  "db_fault \<Rightarrow> PriceBook \<Rightarrow> int \<Rightarrow> SettleJob \<Rightarrow> credit_db \<Rightarrow> (CreditError + SettledDebit option) \<times> credit_db" where
  "settle_charge fault book now job db =
     (case pz_observed_cost (sj_parsed job) of
        Some cost \<Rightarrow>
          map_prod (\<lambda>r. and_then r settled_debit) id
            (debit_observed_for_gateway_intent fault now (sj_intent_id job) (sj_pubkey job) cost (sj_reference job)
               (sj_model_id job) (pz_request_id (sj_parsed job)) db)
      | None \<Rightarrow> (case pz_tokens (sj_parsed job) of
            None \<Rightarrow> (Inr None, db)
          | Some tokens \<Rightarrow> settle_estimate fault book now job tokens db))"

definition observed_i64 :: "ParsedUsage \<Rightarrow> CreditError + int option" where
  "observed_i64 parsed = (case pz_observed_cost parsed of None \<Rightarrow> Inr None | Some c \<Rightarrow> map_ok Some (cost_i64 c))"

definition settle_one ::
  "(string \<Rightarrow> db_fault) \<Rightarrow> PriceBook \<Rightarrow> int \<Rightarrow> SettleJob \<Rightarrow> credit_db \<Rightarrow> (CreditError + SettledDebit option) \<times> credit_db" where
  "settle_one F book now job db =
     (if \<not> is_success (sj_http_status job) then (Inr None, db)
      else (case observed_i64 (sj_parsed job) of
          Inl e \<Rightarrow> (Inl e, db)
        | Inr observed \<Rightarrow>
            (case mark_gateway_provider_completed (F ''complete'') now (sj_intent_id job) (pz_request_id (sj_parsed job)) observed
                    (int (sj_http_status job)) db of
               (Inl e, db1) \<Rightarrow> (Inl e, db1)
             | (Inr _, db1) \<Rightarrow> settle_charge (F ''debit'') book now job db1)))"

text \<open>Up to three attempts; attempt \<open>n\<close> runs at \<open>clk n\<close>.\<close>

fun settle_attempts ::
  "(nat \<Rightarrow> string \<Rightarrow> db_fault) \<Rightarrow> PriceBook \<Rightarrow> (nat \<Rightarrow> int) \<Rightarrow> SettleJob \<Rightarrow> nat list \<Rightarrow> CreditError \<Rightarrow> credit_db
   \<Rightarrow> (CreditError + SettledDebit option) \<times> credit_db" where
  "settle_attempts F book clk job [] err db = (Inl err, db)"
| "settle_attempts F book clk job (n # attempts) err db =
     (case settle_one (F n) book (clk n) job db of
        (Inr settled, db1) \<Rightarrow> (Inr settled, db1)
      | (Inl e, db1) \<Rightarrow> settle_attempts F book clk job attempts e db1)"

definition settle_with_retry ::
  "(nat \<Rightarrow> string \<Rightarrow> db_fault) \<Rightarrow> PriceBook \<Rightarrow> (nat \<Rightarrow> int) \<Rightarrow> SettleJob \<Rightarrow> credit_db
   \<Rightarrow> (CreditError + SettledDebit option) \<times> credit_db" where
  "settle_with_retry F book clk job = settle_attempts F book clk job [0..<SETTLE_MAX_ATTEMPTS] CreditInvalidData"

definition record_reconciliation_outcome ::
  "db_fault \<Rightarrow> int \<Rightarrow> SettleJob \<Rightarrow> string \<Rightarrow> credit_db \<Rightarrow> credit_db" where
  "record_reconciliation_outcome fault now job reason db =
     snd (mark_gateway_intent_reconciliation fault now (sj_intent_id job) reason (pz_request_id (sj_parsed job))
            (Option.bind (pz_observed_cost (sj_parsed job)) (\<lambda>c. ok_of (cost_i64 c))) (int (sj_http_status job)) db)"

definition settle_job ::
  "(nat \<Rightarrow> string \<Rightarrow> db_fault) \<Rightarrow> db_fault \<Rightarrow> PriceBook \<Rightarrow> (nat \<Rightarrow> int) \<Rightarrow> SettleJob option \<Rightarrow> credit_db
   \<Rightarrow> SettledDebit option \<times> credit_db" where
  "settle_job F last_fault book clk job db = (case job of
       None \<Rightarrow> (None, db)
     | Some job \<Rightarrow>
         if \<not> is_success (sj_http_status job)
         then (None, snd (resolve_gateway_intent_no_charge last_fault (clk 0) (sj_intent_id job) (int (sj_http_status job)) db))
         else (case settle_with_retry F book clk job db of
             (Inr (Some settled), db1) \<Rightarrow> (Some settled, db1)
           | (Inr None, db1) \<Rightarrow>
               (None, record_reconciliation_outcome last_fault (clk SETTLE_MAX_ATTEMPTS) job
                  (if sj_parseable job then ''missing_or_unusable_usage'' else ''unsupported_content_encoding'') db1)
           | (Inl _, db1) \<Rightarrow>
               (None, record_reconciliation_outcome last_fault (clk SETTLE_MAX_ATTEMPTS) job ''settle_failed_after_retries'' db1)))"

section \<open>Giving a permit back\<close>

definition finish_runtime :: "int \<Rightarrow> SettledDebit option \<Rightarrow> AccountRuntime \<Rightarrow> AccountRuntime" where
  "finish_runtime now settled rt = release_runtime (case settled of
       None \<Rightarrow> touch now rt
     | Some s \<Rightarrow> push_spend \<lparr>sp_ledger_id = sd_ledger_id s, sp_reference = sd_reference s, sp_at = sd_created_at s,
                           sp_cost = sd_cost_nanousd s\<rparr> (touch now rt))"

section \<open>The parts of an operation\<close>

text \<open>
  Where an operation on an account stands between two of its parts. \<open>Called\<close> has found the
  controller open and not yet registered; the others are counted in \<open>gate_users\<close>.
\<close>

datatype gate_stage =
    Called string string
  | Waiting string string
  | Checking nat GatewaySettlementIntent AdmissionAccount
  | Refusing nat AdmissionError
  | Admitted nat GatewaySettlementIntent
  | Settling "SettleJob option"
  | Releasing "SettledDebit option"
  | Dropping
  | Leaving "AdmissionError option"

text \<open>The parts of \<open>admit\<close>: the reservation, once it has the gate; the check; the closing of a refused intent.\<close>

definition admit_reserve ::
  "db_fault \<Rightarrow> int \<Rightarrow> string \<Rightarrow> string \<Rightarrow> string \<Rightarrow> AdmissionDefaults \<Rightarrow> credit_db \<Rightarrow> gate_stage \<times> credit_db" where
  "admit_reserve fault now pubkey ref model defaults db =
     (case create_gateway_settlement_intent fault now pubkey ref model (ad_typical_call_cost defaults) ADMISSION_FLOOR_NANOUSD db of
        (Inl e, db1) \<Rightarrow> (Leaving (Some (AdmissionDatabase e)), db1)
      | (Inr (Insufficient available required), db1) \<Rightarrow> (Leaving (Some (Payment available required)), db1)
      | (Inr (Reserved i intent account), db1) \<Rightarrow> (Checking i intent account, db1))"

definition admit_check ::
  "int \<Rightarrow> string \<Rightarrow> nat \<Rightarrow> GatewaySettlementIntent \<Rightarrow> AdmissionAccount \<Rightarrow> AdmissionController \<Rightarrow> gate_stage \<times> AdmissionController" where
  "admit_check now pubkey i intent account ct =
     (case take_slot now (ct_defaults ct) account (entry_runtime pubkey ct) of
        (Inr _, rt) \<Rightarrow> (Admitted i intent, change_runtime pubkey (\<lambda>_. rt) ct)
      | (Inl refusal, rt) \<Rightarrow> (Refusing i refusal, change_runtime pubkey (\<lambda>_. rt) ct))"

definition admit_refuse :: "db_fault \<Rightarrow> int \<Rightarrow> nat \<Rightarrow> AdmissionError \<Rightarrow> credit_db \<Rightarrow> gate_stage \<times> credit_db" where
  "admit_refuse fault now i refusal db =
     (case resolve_gateway_intent_no_charge fault now i 0 db of
        (Inl e, db1) \<Rightarrow> (Leaving (Some (AdmissionDatabase e)), db1)
      | (Inr _, db1) \<Rightarrow> (Leaving (Some refusal), db1))"

section \<open>The gateway\<close>

text \<open>
  Its operations are the bag of their stages, and its permits that of their accounts. A permit that is
  finished or dropped becomes a user of the gate again; one dropped outside the runtime is released at once.
  An admission whose caller goes away is cancelled where it awaits, and does not leave the gate; a
  cancelled settlement drops its permit. The store may change in any way between two steps.
\<close>

definition register_user :: "string \<Rightarrow> AdmissionController \<Rightarrow> AdmissionController" where
  "register_user pubkey = change_entry pubkey (\<lambda>e. e\<lparr>ae_gate_users := Suc (ae_gate_users e)\<rparr>)"

fun holds_gate :: "gate_stage \<Rightarrow> bool" where
  "holds_gate (Checking i intent account) = True"
| "holds_gate (Refusing i refusal) = True"
| "holds_gate (Releasing settled) = True"
| "holds_gate _ = False"

definition gate_free :: "string \<Rightarrow> (string \<times> gate_stage) multiset \<Rightarrow> bool" where
  "gate_free pubkey us \<longleftrightarrow> (\<forall>u\<in>#us. fst u = pubkey \<longrightarrow> \<not> holds_gate (snd u))"

fun cancellable :: "gate_stage \<Rightarrow> bool" where
  "cancellable (Called ref model) = True"
| "cancellable (Waiting ref model) = True"
| "cancellable (Checking i intent account) = True"
| "cancellable (Refusing i refusal) = True"
| "cancellable _ = False"

type_synonym gateway_state = "AdmissionController \<times> credit_db \<times> (string \<times> gate_stage) multiset \<times> string multiset"

inductive gateway_step :: "gateway_state \<Rightarrow> gateway_state \<Rightarrow> bool" where
  gw_called: "\<not> ct_closed ct \<Longrightarrow> gateway_step (ct, db, us, ps) (ct, db, add_mset (q, Called ref model) us, ps)"
| gw_registered: "entry_for_admission now q ct = (Inr u, ct') \<Longrightarrow>
    gateway_step (ct, db, add_mset (q, Called ref model) us, ps) (ct', db, add_mset (q, Waiting ref model) us, ps)"
| gw_full: "entry_for_admission now q ct = (Inl e, ct') \<Longrightarrow>
    gateway_step (ct, db, add_mset (q, Called ref model) us, ps) (ct', db, us, ps)"
| gw_reserved: "gate_free q us \<Longrightarrow> admit_reserve fault now q ref model (ct_defaults ct) db = (st, db') \<Longrightarrow>
    gateway_step (ct, db, add_mset (q, Waiting ref model) us, ps) (ct, db', add_mset (q, st) us, ps)"
| gw_checked: "admit_check now q i intent account ct = (st, ct') \<Longrightarrow>
    gateway_step (ct, db, add_mset (q, Checking i intent account) us, ps) (ct', db, add_mset (q, st) us, ps)"
| gw_refused: "admit_refuse fault now i refusal db = (st, db') \<Longrightarrow>
    gateway_step (ct, db, add_mset (q, Refusing i refusal) us, ps) (ct, db', add_mset (q, st) us, ps)"
| gw_admitted: "gateway_step (ct, db, add_mset (q, Admitted i intent) us, ps) (leave_gate q ct, db, us, add_mset q ps)"
| gw_left: "gateway_step (ct, db, add_mset (q, Leaving outcome) us, ps) (leave_gate q ct, db, us, ps)"
| gw_finishing: "gateway_step (ct, db, us, add_mset q ps) (register_user q ct, db, add_mset (q, Settling job) us, ps)"
| gw_settled: "gate_free q us \<Longrightarrow> settle_job F f book clk job db = (settled, db') \<Longrightarrow>
    gateway_step (ct, db, add_mset (q, Settling job) us, ps) (ct, db', add_mset (q, Releasing settled) us, ps)"
| gw_released: "gateway_step (ct, db, add_mset (q, Releasing settled) us, ps)
    (change_runtime q (finish_runtime now settled) ct, db, add_mset (q, Leaving None) us, ps)"
| gw_dropping: "gateway_step (ct, db, us, add_mset q ps) (register_user q ct, db, add_mset (q, Dropping) us, ps)"
| gw_dropped: "gate_free q us \<Longrightarrow> gateway_step (ct, db, add_mset (q, Dropping) us, ps)
    (change_runtime q (\<lambda>rt. release_runtime (touch now rt)) ct, db, add_mset (q, Leaving None) us, ps)"
| gw_lost: "gateway_step (ct, db, us, add_mset q ps) (change_runtime q release_runtime ct, db, us, ps)"
| gw_cancelled: "cancellable st \<Longrightarrow> gateway_step (ct, db, add_mset (q, st) us, ps) (ct, db, us, ps)"
| gw_interrupted: "gateway_step (ct, db, add_mset (q, Settling job) us, ps) (ct, db, us, add_mset q ps)"
| gw_closed: "gateway_step (ct, db, us, ps) (close_admission ct, db, us, ps)"
| gw_store: "gateway_step (ct, db, us, ps) (ct, db', us, ps)"

definition gateway_start :: "gateway_state \<Rightarrow> bool" where
  "gateway_start s \<longleftrightarrow> (case s of (ct, db, us, ps) \<Rightarrow>
     (\<exists>defaults now recent. try_new_admission defaults now recent = Some ct) \<and> us = {#} \<and> ps = {#})"

end
