(* ===== verification/Credit_Laws.thy ===== *)
theory Credit_Laws
  imports Credit_Store Colony_Interfaces
begin

text \<open>
  What holds of the money in every history: the balances are the sums of the ledger, the ledger
  only grows, and a reference is posted once.
\<close>

section \<open>Sound stores\<close>

definition balance_of :: "string \<Rightarrow> credit_db \<Rightarrow> int" where
  "balance_of p db = (case map_of (cd_accounts db) p of None \<Rightarrow> 0 | Some a \<Rightarrow> ac_balance a)"

definition posted :: "string \<Rightarrow> (nat, CreditEntry) table \<Rightarrow> int" where
  "posted p ledger = sum_list (map (ce_delta \<circ> snd) (filter (\<lambda>x. ce_pubkey (snd x) = p) ledger))"

definition credit_sound :: "credit_db \<Rightarrow> bool" where
  "credit_sound db \<longleftrightarrow> keys_ok (cd_accounts db) \<and> sql_table_ok entry_check same_reference (cd_ledger db)
     \<and> sql_table_ok intent_check same_intent (cd_intents db) \<and> list_all outcome_check (cd_outcomes db)
     \<and> (\<forall>p. balance_of p db = posted p (cd_ledger db))"

interpretation ledger_table: indexed_table entry_check same_reference
  by unfold_locales (auto simp: same_reference_def)

interpretation intent_table: indexed_table intent_check same_intent
  by unfold_locales (auto simp: same_intent_def)

lemma posted_append [simp]:
  "posted p (ledger @ [(i, e)]) = posted p ledger + (if ce_pubkey e = p then ce_delta e else 0)"
  by (simp add: posted_def)

lemma fold_max_ge: "a \<le> fold max xs (a :: nat) \<and> (\<forall>x\<in>set xs. x \<le> fold max xs a)"
proof (induction xs arbitrary: a)
  case (Cons y xs)
  then have "max y a \<le> fold max xs (max y a)" "\<forall>x\<in>set xs. x \<le> fold max xs (max y a)" by blast+
  then show ?case by simp
qed simp

lemma unused_id_fresh: "unused_id tbl \<notin> fst ` set tbl"
proof
  assume "unused_id tbl \<in> fst ` set tbl"
  then have "unused_id tbl \<le> fold max (map fst tbl) 0" using fold_max_ge [of 0 "map fst tbl"] by auto
  then show False by (simp add: unused_id_def)
qed

section \<open>What each statement does\<close>

lemma open_account_done:
  assumes "open_account p db = Inr db'"
  shows "cd_ledger db' = cd_ledger db" "cd_intents db' = cd_intents db" "cd_outcomes db' = cd_outcomes db"
    "cd_campaigns db' = cd_campaigns db" "balance_of q db' = balance_of q db" "map_of (cd_accounts db') p \<noteq> None"
    "key_octets p \<or> map_of (cd_accounts db) p \<noteq> None" "keys_ok (cd_accounts db) \<Longrightarrow> keys_ok (cd_accounts db')"
    "map_of (cd_accounts db) q = Some a \<Longrightarrow> map_of (cd_accounts db') q = Some a"
proof -
  let ?zero = "\<lparr>ac_balance = 0, ac_typical_call_cost = None, ac_max_in_flight = None, ac_hourly_burn_cap = None\<rparr>"
  consider (old) "db' = db" "map_of (cd_accounts db) p \<noteq> None"
    | (new) "key_octets p" "p \<notin> fst ` set (cd_accounts db)" "db' = db\<lparr>cd_accounts := cd_accounts db @ [(p, ?zero)]\<rparr>"
    using assms by (auto simp: open_account_def sql_insert_ignore_def sql_insert_def account_check_def list_ex_iff map_of_eq_None_iff
        split: if_splits sum.splits prod.splits bool.splits DbError.splits)
  note cases = this
  show "cd_ledger db' = cd_ledger db" by (rule cases) simp_all
  show "cd_intents db' = cd_intents db" by (rule cases) simp_all
  show "cd_outcomes db' = cd_outcomes db" by (rule cases) simp_all
  show "cd_campaigns db' = cd_campaigns db" by (rule cases) simp_all
  show "balance_of q db' = balance_of q db"
    by (rule cases) (auto simp: balance_of_def map_of_append_new split: option.split if_splits dest: map_of_SomeD)
  show "map_of (cd_accounts db') p \<noteq> None" by (rule cases) (simp_all add: map_of_append_new)
  show "map_of (cd_accounts db) q = Some a \<Longrightarrow> map_of (cd_accounts db') q = Some a"
    by (rule cases) (auto simp: map_of_append_new dest: map_of_SomeD)
  show "key_octets p \<or> map_of (cd_accounts db) p \<noteq> None" using cases by blast
  show "keys_ok (cd_accounts db) \<Longrightarrow> keys_ok (cd_accounts db')" by (rule cases) (auto simp: keys_ok_def)
qed

lemma change_balance_done:
  assumes "change_balance p delta db = Inr db'" and "map_of (cd_accounts db) p \<noteq> None"
  shows "cd_ledger db' = cd_ledger db" "cd_intents db' = cd_intents db" "cd_outcomes db' = cd_outcomes db"
    "cd_campaigns db' = cd_campaigns db" "balance_of q db' = balance_of q db + (if q = p then delta else 0)"
    "keys_ok (cd_accounts db') = keys_ok (cd_accounts db)" "bigint (balance_of p db + delta)"
proof -
  obtain a where a: "map_of (cd_accounts db) p = Some a" using assms(2) by auto
  then have db': "bigint (ac_balance a + delta)"
    "db' = db\<lparr>cd_accounts := changed (\<lambda>x. fst x = p) (\<lambda>r. r\<lparr>ac_balance := ac_balance a + delta\<rparr>) (cd_accounts db)\<rparr>"
    using assms(1) by (auto simp: change_balance_def res_simps)
  show "cd_ledger db' = cd_ledger db" "cd_intents db' = cd_intents db" "cd_outcomes db' = cd_outcomes db"
    "cd_campaigns db' = cd_campaigns db" "keys_ok (cd_accounts db') = keys_ok (cd_accounts db)"
    using db'(2) by simp_all
  show "balance_of q db' = balance_of q db + (if q = p then delta else 0)"
    using a by (auto simp: db'(2) balance_of_def map_of_changed split: option.split)
  show "bigint (balance_of p db + delta)" using db'(1) a by (simp add: balance_of_def)
qed

lemma insert_credit_entry_done:
  assumes "insert_credit_entry e db = Inr (Some i, db')"
  shows "db' = db\<lparr>cd_ledger := cd_ledger db @ [(i, compat_attribution e)]\<rparr>" "entry_check (i, compat_attribution e)"
    "sql_table_ok entry_check same_reference (cd_ledger db) \<Longrightarrow> sql_table_ok entry_check same_reference (cd_ledger db')"
proof -
  let ?i = "unused_id (cd_ledger db)" and ?row = "compat_attribution e"
  have ins: "sql_insert entry_check same_reference ?i ?row (cd_ledger db) = (Inr (), cd_ledger db')" "i = ?i"
    "db' = db\<lparr>cd_ledger := cd_ledger db'\<rparr>"
    using assms by (auto simp: insert_credit_entry_def Let_def sql_insert_ignore_def split: prod.splits sum.splits bool.splits if_splits DbError.splits)
  then have new: "cd_ledger db' = cd_ledger db @ [(i, ?row)]" "entry_check (i, ?row)"
    by (auto simp: sql_insert_def split: if_splits)
  show "db' = db\<lparr>cd_ledger := cd_ledger db @ [(i, compat_attribution e)]\<rparr>" using ins(3) new(1) by simp
  show "entry_check (i, compat_attribution e)" by (rule new(2))
  show "sql_table_ok entry_check same_reference (cd_ledger db')" if "sql_table_ok entry_check same_reference (cd_ledger db)"
    using ledger_table.insert_ok [OF that, of ?i ?row] ins(1) by simp
qed

lemma insert_credit_entry_replay:
  assumes "insert_credit_entry e db = Inr (None, db')"
  shows "db' = db" "\<exists>x\<in>set (cd_ledger db). same_reference x (i, e)"
proof -
  have "sql_insert entry_check same_reference (unused_id (cd_ledger db)) (compat_attribution e) (cd_ledger db) = (Inl UniqueViolation, cd_ledger db)"
    using assms
    by (auto simp: insert_credit_entry_def Let_def sql_insert_ignore_def sql_insert_def split: prod.splits sum.splits bool.splits if_splits)
  then have "list_ex (same_reference (unused_id (cd_ledger db), compat_attribution e)) (cd_ledger db)"
    using unused_id_fresh [of "cd_ledger db"] by (auto simp: sql_insert_def split: if_splits)
  then obtain x where "x \<in> set (cd_ledger db)" "same_reference (unused_id (cd_ledger db), compat_attribution e) x"
    by (auto simp: list_ex_iff)
  then show "\<exists>x\<in>set (cd_ledger db). same_reference x (i, e)"
    by (intro bexI [of _ x]) (auto simp: same_reference_def compat_attribution_def split: if_splits)
  show "db' = db"
    using assms by (auto simp: insert_credit_entry_def Let_def split: prod.splits sum.splits bool.splits if_splits)
qed

text \<open>An entry posted with its change of the balance, under an account that is there.\<close>

lemma post_sound:
  assumes "insert_credit_entry e db = Inr (Some i, db1)" and "change_balance (ce_pubkey e) (ce_delta e) db1 = Inr db2"
    and "map_of (cd_accounts db) (ce_pubkey e) \<noteq> None" and "credit_sound db"
  shows "credit_sound db2" "cd_ledger db2 = cd_ledger db @ [(i, compat_attribution e)]" "cd_intents db2 = cd_intents db"
    "cd_outcomes db2 = cd_outcomes db" "cd_campaigns db2 = cd_campaigns db"
    "balance_of q db2 = balance_of q db + (if q = ce_pubkey e then ce_delta e else 0)"
proof -
  note ins = insert_credit_entry_done [OF assms(1)]
  have acct: "map_of (cd_accounts db1) (ce_pubkey e) \<noteq> None" using assms(3) ins(1) by simp
  note bal = change_balance_done [OF assms(2) acct]
  have e: "ce_pubkey (compat_attribution e) = ce_pubkey e" "ce_delta (compat_attribution e) = ce_delta e"
    by (simp_all add: compat_attribution_def)
  have same: "balance_of q db1 = balance_of q db" for q using ins(1) by (simp add: balance_of_def)
  show "cd_ledger db2 = cd_ledger db @ [(i, compat_attribution e)]" "cd_intents db2 = cd_intents db"
    "cd_outcomes db2 = cd_outcomes db" "cd_campaigns db2 = cd_campaigns db"
    using bal(1-4) ins(1) by simp_all
  show "balance_of q db2 = balance_of q db + (if q = ce_pubkey e then ce_delta e else 0)" using bal(5) same by simp
  show "credit_sound db2"
    using assms(4) ins(3) bal(1-3,5,6) same e by (auto simp: credit_sound_def ins(1))
qed

lemma open_account_sound: "open_account p db = Inr db' \<Longrightarrow> credit_sound db \<Longrightarrow> credit_sound db'"
  using open_account_done [of p db db'] by (simp add: credit_sound_def)

lemma update_intent_done:
  assumes "update_intent i change db = Inr (r, db')"
  shows "cd_ledger db' = cd_ledger db" "cd_accounts db' = cd_accounts db" "cd_outcomes db' = cd_outcomes db"
    "cd_campaigns db' = cd_campaigns db" "credit_sound db \<Longrightarrow> credit_sound db'"
    "\<exists>row. map_of (cd_intents db) i = Some row \<and> r = reservation_compat (cd_accounts db) (change row)"
    "map_of (cd_intents db') j = (if j = i then Some r else map_of (cd_intents db) j)"
proof -
  let ?f = "\<lambda>r. reservation_compat (cd_accounts db) (change r)"
  obtain row hit where row: "map_of (cd_intents db) i = Some row" "r = ?f row"
    "sql_update intent_check same_intent (\<lambda>x. fst x = i) ?f (cd_intents db) = (Inr hit, cd_intents db')"
    "db' = db\<lparr>cd_intents := cd_intents db'\<rparr>"
    using assms by (auto simp: update_intent_def split: option.splits prod.splits sum.splits)
  have rows: "cd_intents db' = changed (\<lambda>x. fst x = i) ?f (cd_intents db)"
    using row(3) by (auto simp: sql_update_def Let_def split: if_splits)
  have same: "cd_ledger db' = cd_ledger db" "cd_accounts db' = cd_accounts db" "cd_outcomes db' = cd_outcomes db"
    "cd_campaigns db' = cd_campaigns db"
    by (subst row(4), simp)+
  then show "cd_ledger db' = cd_ledger db" "cd_accounts db' = cd_accounts db" "cd_outcomes db' = cd_outcomes db"
    "cd_campaigns db' = cd_campaigns db" by blast+
  show "credit_sound db'" if "credit_sound db"
    using that intent_table.update_ok [of "cd_intents db" "\<lambda>x. fst x = i" ?f] row(3) same
    by (simp add: credit_sound_def balance_of_def)
  show "\<exists>row. map_of (cd_intents db) i = Some row \<and> r = ?f row" using row(1,2) by blast
  show "map_of (cd_intents db') j = (if j = i then Some r else map_of (cd_intents db) j)"
    using row(1,2) by (auto simp: rows map_of_changed split: option.split)
qed

section \<open>Posting an entry\<close>

lemma found_entry: "find P xs = Some x \<Longrightarrow> x \<in> set xs \<and> P x"
  by (auto simp: find_Some_iff)

lemma apply_entry_tx_done:
  assumes "apply_entry_tx now q db = Inr (a, db')" and "credit_sound db"
  shows "credit_sound db'" "cd_intents db' = cd_intents db" "cd_outcomes db' = cd_outcomes db"
    "cd_campaigns db' = cd_campaigns db"
    "(al_applied a \<and> cd_ledger db' = cd_ledger db @ [(al_id a, al_entry a)] \<and> al_entry a = compat_attribution (new_credit_entry now q)
       \<and> (\<forall>p. balance_of p db' = balance_of p db + (if p = ep_pubkey q then ep_delta q else 0)))
     \<or> (\<not> al_applied a \<and> cd_ledger db' = cd_ledger db \<and> (\<forall>p. balance_of p db' = balance_of p db)
       \<and> (al_id a, al_entry a) \<in> set (cd_ledger db) \<and> ce_pubkey (al_entry a) = ep_pubkey q \<and> ce_reference (al_entry a) = ep_reference q)"
    (is "?posted \<or> ?replayed")
proof -
  let ?e = "new_credit_entry now q"
  have e: "ce_pubkey ?e = ep_pubkey q" "ce_delta ?e = ep_delta q" by (simp_all add: new_credit_entry_def)
  obtain db1 new db2 where o: "open_account (ep_pubkey q) db = Inr db1" and n: "insert_credit_entry ?e db1 = Inr (new, db2)"
    and rest: "(case new of
       Some i \<Rightarrow> map_ok (Pair \<lparr>al_id = i, al_entry = compat_attribution ?e, al_applied = True\<rparr>) (change_balance (ep_pubkey q) (ep_delta q) db2)
     | None \<Rightarrow> (case find (\<lambda>x. ce_pubkey (snd x) = ep_pubkey q \<and> ce_reference (snd x) = ep_reference q) (cd_ledger db2) of
           None \<Rightarrow> Inl CreditRowMissing
         | Some (i, e) \<Rightarrow> Inr (\<lparr>al_id = i, al_entry = e, al_applied = False\<rparr>, db2))) = Inr (a, db')"
    using assms(1) by (auto simp: apply_entry_tx_def and_then_Inr)
  note op = open_account_done [OF o] and sound1 = open_account_sound [OF o assms(2)]
  have all: "credit_sound db' \<and> cd_intents db' = cd_intents db \<and> cd_outcomes db' = cd_outcomes db
    \<and> cd_campaigns db' = cd_campaigns db \<and> (?posted \<or> ?replayed)"
  proof (cases new)
    case (Some i)
    then have a: "a = \<lparr>al_id = i, al_entry = compat_attribution ?e, al_applied = True\<rparr>"
      "change_balance (ce_pubkey ?e) (ce_delta ?e) db2 = Inr db'"
      using rest e by (auto simp: res_simps)
    have acct: "map_of (cd_accounts db1) (ce_pubkey ?e) \<noteq> None" using op(6) e by simp
    show ?thesis using post_sound [OF n [unfolded Some] a(2) acct sound1] op(1-5) a(1) e by simp
  next
    case None
    then have db2: "db2 = db1" using insert_credit_entry_replay(1) n by simp
    with None rest obtain i r where "find (\<lambda>x. ce_pubkey (snd x) = ep_pubkey q \<and> ce_reference (snd x) = ep_reference q) (cd_ledger db1) = Some (i, r)"
      "a = \<lparr>al_id = i, al_entry = r, al_applied = False\<rparr>" "db' = db1"
      by (auto split: option.splits)
    then show ?thesis using sound1 op(1-5) found_entry by fastforce
  qed
  then show "credit_sound db'" "cd_intents db' = cd_intents db" "cd_outcomes db' = cd_outcomes db"
    "cd_campaigns db' = cd_campaigns db" "?posted \<or> ?replayed" by blast+
qed

section \<open>Every operation keeps the store sound and only adds to the ledger\<close>

definition credit_grows :: "credit_db \<Rightarrow> credit_db \<Rightarrow> bool" where
  "credit_grows db db' \<longleftrightarrow> (credit_sound db \<longrightarrow> credit_sound db' \<and> prefix (cd_ledger db) (cd_ledger db'))"

lemma grows_refl [simp, intro]: "credit_grows db db"
  by (simp add: credit_grows_def)

lemma grows_trans [trans]: "credit_grows a b \<Longrightarrow> credit_grows b c \<Longrightarrow> credit_grows a c"
  using prefix_order.trans by (auto simp: credit_grows_def)

lemma tx_grows:
  assumes "\<And>a db'. body db = Inr (a, db') \<Longrightarrow> credit_grows db db'"
  shows "credit_grows db (snd (credit_tx fault body db))"
  using credit_tx_state [of fault body db] assms by (metis grows_refl)

lemma apply_entry_tx_grows: "apply_entry_tx now q db = Inr (a, db') \<Longrightarrow> credit_grows db db'"
  using apply_entry_tx_done [of now q db a db'] by (auto simp: credit_grows_def)

lemma apply_entry_applied_grows: "credit_grows db (snd (apply_entry_applied fault now q db))"
  by (simp add: apply_entry_applied_def tx_grows apply_entry_tx_grows)

lemma apply_entry_grows:
  "credit_grows db (snd (apply_entry fault now q db))"
  "credit_grows db (snd (credit_account fault now p d ref db))" "credit_grows db (snd (seed_account fault now p d ref db))"
  "credit_grows db (snd (debit_internal fault now p c ref model rid basis db))"
  by (simp_all add: apply_entry_def credit_account_def seed_account_def debit_internal_def apply_entry_applied_grows split: sum.split)

lemma update_intent_grows: "update_intent i change db = Inr (r, db') \<Longrightarrow> credit_grows db db'"
  using update_intent_done(1,5) [of i change db r db'] by (simp add: credit_grows_def)

lemma intent_marks_grow:
  "credit_grows db (snd (mark_gateway_provider_completed fault now i rid cost status db))"
  "credit_grows db (snd (mark_gateway_intent_debited fault now i db))"
  "credit_grows db (snd (resolve_gateway_intent_no_charge fault now i status db))"
  by (simp_all add: mark_gateway_provider_completed_def mark_gateway_intent_debited_def resolve_gateway_intent_no_charge_def
      tx_grows update_intent_grows)

lemma debit_intent_tx_grows: "debit_intent_tx now i p c ref m rid basis db = Inr (a, db') \<Longrightarrow> credit_grows db db'"
  by (auto simp: debit_intent_tx_def and_then_Inr res_simps split: option.splits if_splits
      intro: grows_trans apply_entry_tx_grows update_intent_grows)

lemma debit_intent_grows: "credit_grows db (snd (debit_gateway_intent_internal fault now i p c ref m rid basis db))"
  by (auto simp: debit_gateway_intent_internal_def split: sum.split intro: tx_grows debit_intent_tx_grows)

lemma find_or_insert_done:
  assumes "find_or_insert_intent now p ref m hold db = Inr ((i, intent, created), db')"
  shows "cd_ledger db' = cd_ledger db" "cd_accounts db' = cd_accounts db" "cd_outcomes db' = cd_outcomes db"
    "cd_campaigns db' = cd_campaigns db" "credit_sound db \<Longrightarrow> credit_sound db'"
    "gi_pubkey intent = p \<and> gi_reference intent = ref" "(i, intent) \<in> set (cd_intents db')"
    "created \<Longrightarrow> cd_intents db' = cd_intents db @ [(i, intent)] \<and> i \<notin> fst ` set (cd_intents db)
       \<and> intent = reservation_compat (cd_accounts db) (new_intent now p ref m hold) \<and> intent_check (i, intent)"
    "\<not> created \<Longrightarrow> db' = db"
proof -
  let ?row = "reservation_compat (cd_accounts db) (new_intent now p ref m hold)"
  have key: "gi_pubkey ?row = p" "gi_reference ?row = ref" by (simp_all add: reservation_compat_def new_intent_def)
  have outcome: "created = False \<and> db' = db \<and> (i, intent) \<in> set (cd_intents db) \<and> gi_pubkey intent = p \<and> gi_reference intent = ref
    \<or> created = True \<and> intent = ?row \<and> i = unused_id (cd_intents db) \<and> db' = db\<lparr>cd_intents := cd_intents db @ [(i, ?row)]\<rparr>
      \<and> sql_insert intent_check same_intent i ?row (cd_intents db) = (Inr (), cd_intents db @ [(i, ?row)]) \<and> intent_check (i, ?row)"
  proof (cases "find (\<lambda>x. gi_pubkey (snd x) = p \<and> gi_reference (snd x) = ref) (cd_intents db)")
    case (Some x)
    then show ?thesis using assms found_entry [OF Some] by (cases x) (auto simp: find_or_insert_intent_def)
  next
    case None
    obtain res tbl where ins: "sql_insert intent_check same_intent (unused_id (cd_intents db)) ?row (cd_intents db) = (res, tbl)"
      by fastforce
    with None assms have "res = Inr ()" "created = True" "intent = ?row" "i = unused_id (cd_intents db)" "db' = db\<lparr>cd_intents := tbl\<rparr>"
      by (auto simp: find_or_insert_intent_def Let_def split: sum.splits)
    with ins show ?thesis by (auto simp: sql_insert_def split: if_splits)
  qed
  then consider (old) "created = False" "db' = db" "(i, intent) \<in> set (cd_intents db)" "gi_pubkey intent = p" "gi_reference intent = ref"
    | (new) "created = True" "intent = ?row" "sql_insert intent_check same_intent i ?row (cd_intents db) = (Inr (), cd_intents db @ [(i, ?row)])"
      "db' = db\<lparr>cd_intents := cd_intents db @ [(i, ?row)]\<rparr>" "i \<notin> fst ` set (cd_intents db)" "intent_check (i, ?row)"
    using unused_id_fresh [of "cd_intents db"] by metis
  note cases = this
  show "cd_ledger db' = cd_ledger db" by (rule cases) simp_all
  show "cd_accounts db' = cd_accounts db" by (rule cases) simp_all
  show "cd_outcomes db' = cd_outcomes db" by (rule cases) simp_all
  show "cd_campaigns db' = cd_campaigns db" by (rule cases) simp_all
  show "gi_pubkey intent = p \<and> gi_reference intent = ref" using cases key by metis
  show "(i, intent) \<in> set (cd_intents db')" by (rule cases) simp_all
  show "created \<Longrightarrow> cd_intents db' = cd_intents db @ [(i, intent)] \<and> i \<notin> fst ` set (cd_intents db)
      \<and> intent = ?row \<and> intent_check (i, intent)" by (rule cases) simp_all
  show "\<not> created \<Longrightarrow> db' = db" by (rule cases) simp_all
  show "credit_sound db \<Longrightarrow> credit_sound db'"
  proof (rule cases)
    assume sound: "credit_sound db" and new: "db' = db\<lparr>cd_intents := cd_intents db @ [(i, ?row)]\<rparr>"
      "sql_insert intent_check same_intent i ?row (cd_intents db) = (Inr (), cd_intents db @ [(i, ?row)])"
    then have "sql_table_ok intent_check same_intent (cd_intents db @ [(i, ?row)])"
      using intent_table.insert_ok [of "cd_intents db" i ?row] by (simp add: credit_sound_def)
    then show "credit_sound db'" using sound new(1) by (simp add: credit_sound_def balance_of_def)
  qed simp
qed

lemma admission_answer_done:
  assumes "admission_answer before i intent created account db = Inr (answer, db')"
  shows "db' = before \<or> db' = db"
  using assms by (auto simp: admission_answer_def and_then_Inr Let_def split: if_splits)

lemma create_intent_grows:
  assumes "create_intent_tx now p ref m d k db = Inr (a, db')"
  shows "credit_grows db db'"
proof -
  obtain i intent created db1 where f: "find_or_insert_intent now p ref m (max (max d k) 1) db = Inr ((i, intent, created), db1)"
    using assms by (auto simp: create_intent_tx_def and_then_Inr)
  have g1: "credit_grows db db1" using find_or_insert_done(1,5) [OF f] by (simp add: credit_grows_def)
  show ?thesis
  proof (cases "map_of (cd_accounts db1) p")
    case None
    then show ?thesis using assms f by (simp add: create_intent_tx_def and_then_def)
  next
    case (Some account)
    then obtain intent' db2 where size: "size_hold now d k i intent created account db1 = Inr (intent', db2)"
      "admission_answer db i intent' created account db2 = Inr (a, db')"
      using assms f by (auto simp: create_intent_tx_def and_then_Inr)
    then have "credit_grows db1 db2" by (auto simp: size_hold_def Let_def split: if_splits intro: update_intent_grows)
    then show ?thesis using g1 admission_answer_done [OF size(2)] grows_trans grows_refl by metis
  qed
qed

lemma record_outcome_done:
  assumes "record_outcome k new db = Inr db'"
  shows "cd_ledger db' = cd_ledger db" "cd_accounts db' = cd_accounts db" "cd_intents db' = cd_intents db"
    "credit_sound db \<Longrightarrow> credit_sound db'"
proof -
  have upd: "list_all outcome_check (changed (\<lambda>x. fst x = k) f tbl)"
    if "list_all outcome_check tbl" "outcome_check (k, new)"
      "\<And>r. rc_observed_cost (f r) = or_else (rc_observed_cost r) (rc_observed_cost new)" for f tbl
    using that by (auto simp: list_all_iff changed_def outcome_check_def or_else_def split: option.splits)
  consider (old) f where "db' = db\<lparr>cd_outcomes := changed (\<lambda>x. fst x = k) f (cd_outcomes db)\<rparr>" "outcome_check (k, new)"
      "\<And>r. rc_observed_cost (f r) = or_else (rc_observed_cost r) (rc_observed_cost new)"
    | (new) "db' = db\<lparr>cd_outcomes := cd_outcomes db @ [(k, new)]\<rparr>" "outcome_check (k, new)"
    using assms by (auto simp: record_outcome_def sql_insert_def split: option.splits prod.splits sum.splits if_splits)
  note cases = this
  show "cd_ledger db' = cd_ledger db" by (rule cases) simp_all
  show "cd_accounts db' = cd_accounts db" by (rule cases) simp_all
  show "cd_intents db' = cd_intents db" by (rule cases) simp_all
  show "credit_sound db \<Longrightarrow> credit_sound db'"
    by (rule cases) (simp_all add: credit_sound_def balance_of_def upd)
qed

lemma record_outcome_grows: "record_outcome k new db = Inr db' \<Longrightarrow> credit_grows db db'"
  using record_outcome_done(1,4) [of k new db db'] by (simp add: credit_grows_def)

lemma reconciliation_grows:
  "credit_grows db (snd (mark_gateway_intent_reconciliation fault now i reason rid cost status db))"
  unfolding mark_gateway_intent_reconciliation_def
  by (rule tx_grows) (auto simp: and_then_Inr res_simps intro: grows_trans update_intent_grows record_outcome_grows)

lemma record_gateway_reconciliation_grows:
  "credit_grows db (snd (record_gateway_reconciliation fault p ref m status reason db))"
  unfolding record_gateway_reconciliation_def
  by (rule tx_grows) (auto simp: sql_insert_ignore_def sql_insert_def credit_grows_def credit_sound_def balance_of_def
      split: prod.splits sum.splits if_splits bool.splits DbError.splits)

lemma update_checked: "list_all check tbl \<Longrightarrow> list_all check (snd (sql_update check clash cond change tbl))"
  by (auto simp: sql_update_def Let_def changed_def list_all_iff)

lemma close_outcomes_grows: "close_outcomes now i intent cost ref db = Inr ((), db') \<Longrightarrow> credit_grows db db'"
proof -
  assume closed: "close_outcomes now i intent cost ref db = Inr ((), db')"
  let ?cond = "\<lambda>x. rc_intent_id (snd x) = Some i \<or> fst x = (gi_pubkey intent, gi_reference intent)"
    and ?change = "\<lambda>r. r\<lparr>rc_resolved_at := or_else (rc_resolved_at r) (Some now),
      rc_correction_ref := or_else (rc_correction_ref r) (Some ref), rc_observed_cost := or_else (rc_observed_cost r) (Some cost)\<rparr>"
  obtain res tbl where u: "sql_update outcome_check (\<lambda>_ _. False) ?cond ?change (cd_outcomes db) = (res, tbl)"
    by fastforce
  with closed have "db' = db\<lparr>cd_outcomes := tbl\<rparr>" by (auto simp: close_outcomes_def split: sum.splits)
  moreover have "list_all outcome_check (cd_outcomes db) \<Longrightarrow> list_all outcome_check tbl"
    using update_checked [where check = outcome_check and clash = "\<lambda>_ _. False" and cond = ?cond and change = ?change and tbl = "cd_outcomes db"]
    unfolding u by simp
  ultimately show ?thesis by (simp add: credit_grows_def credit_sound_def balance_of_def)
qed

lemma finish_resolution_grows: "credit_grows db (snd (finish_resolution F now i intent usage ref db))"
proof -
  have c: "credit_grows d (snd (credit_tx f (close_intent now i rid c r) d))" for f rid c r d
    by (rule tx_grows) (simp add: close_intent_def update_intent_grows)
  have o: "credit_grows d (snd (credit_tx f (close_outcomes now i intent c r) d))" for f c r d
    by (rule tx_grows) (simp add: close_outcomes_grows)
  show ?thesis
  proof (cases "cost_i64 (pu_cost_nanousd usage)")
    case (Inr cost)
    obtain res db1 where r: "credit_tx (F ''close'') (close_intent now i (pu_provider_request_id usage) cost ref) db = (res, db1)"
      by fastforce
    then have "credit_grows db db1" using c [of db "F ''close''"] by (metis snd_conv)
    then show ?thesis using Inr r o grows_trans by (simp add: finish_resolution_def split: sum.split)
  qed (simp add: finish_resolution_def)
qed

lemma resolve_intent_grows: "credit_grows db (snd (resolve_gateway_settlement_intent F now i usage db))"
proof -
  have step: "credit_grows db (snd (case debit_observed_for_gateway_intent f now i p c ref m rid db of
      (Inl e, db1) \<Rightarrow> (Inl e, db1) | (Inr _, db1) \<Rightarrow> finish_resolution F now i intent usage ref db1))" for f p c ref m rid intent
  proof -
    obtain res db1 where r: "debit_observed_for_gateway_intent f now i p c ref m rid db = (res, db1)" by fastforce
    then have "credit_grows db db1"
      using debit_intent_grows [of db f now i p c ref m rid "''observed''"] by (simp add: debit_observed_for_gateway_intent_def)
    then show ?thesis using r finish_resolution_grows grows_trans by (simp split: sum.split)
  qed
  show ?thesis
    by (auto simp: resolve_gateway_settlement_intent_def Let_def step finish_resolution_grows
        split: sum.split option.split)
qed

lemma resolve_each_grows: "credit_grows db (snd (resolve_each F now usages pending n db))"
proof (induction F now usages pending n db rule: resolve_each.induct)
  case (2 F now usages i intent pending resolved db)
  show ?case
  proof (cases "find (\<lambda>u. pu_pubkey u = gi_pubkey intent \<and> pu_reference u = gi_reference intent) usages")
    case (Some usage)
    obtain res db1 where r: "resolve_gateway_settlement_intent (F i) now i usage db = (res, db1)" by fastforce
    then have "credit_grows db db1" using resolve_intent_grows [of db "F i" now i usage] by simp
    then show ?thesis using 2(2) [OF Some r [symmetric]] Some r by (auto split: sum.split intro: grows_trans)
  qed (use 2 in simp)
qed simp

lemma resolve_pending_grows: "credit_grows db (snd (resolve_pending_gateway_settlements f F now usages db))"
  by (simp add: resolve_pending_gateway_settlements_def resolve_each_grows split: sum.split)

lemma post_grows:
  assumes "insert_credit_entry e db = Inr (new, db1)" and "map_of (cd_accounts db) (ce_pubkey e) \<noteq> None"
    and "if new \<noteq> None then change_balance (ce_pubkey e) (ce_delta e) db1 = Inr db2 else db2 = db1"
  shows "credit_grows db db2 \<and> (map_of (cd_accounts db2) p \<noteq> None \<longleftrightarrow> map_of (cd_accounts db) p \<noteq> None)"
proof (cases new)
  case None
  then show ?thesis using assms(3) insert_credit_entry_replay(1) assms(1) by auto
next
  case (Some i)
  have "cd_accounts db1 = cd_accounts db" using insert_credit_entry_done(1) [OF assms(1) [unfolded Some]] by simp
  then have "map_of (cd_accounts db2) p \<noteq> None \<longleftrightarrow> map_of (cd_accounts db) p \<noteq> None"
    using assms(3) Some by (auto simp: change_balance_def res_simps map_of_changed split: option.splits)
  then show ?thesis using post_sound(1,2) assms Some by (auto simp: credit_grows_def)
qed

lemma escrow_grows:
  assumes "escrow_paid_discovery_run_tx now payer reserved limit price run db = Inr db'" and "map_of (cd_accounts db) payer \<noteq> None"
  shows "credit_grows db db'"
proof -
  let ?e = "discovery_entry now payer (- reserved) ''hold'' (''discovery-hold:'' @ fst run @ '':'' @ snd (snd run)) limit price run"
  obtain new db1 where "insert_credit_entry ?e db = Inr (new, db1)" "new \<noteq> None" "change_balance payer (- reserved) db1 = Inr db'"
    using assms(1) by (auto simp: escrow_paid_discovery_run_tx_def and_then_Inr split: if_splits)
  then show ?thesis using post_grows [of ?e db new db1 db'] assms(2) by (simp add: discovery_entry_def)
qed

lemma charge_retained_grows:
  assumes "charge_retained now payer settled retained price run db = Inr db'" and "map_of (cd_accounts db) payer \<noteq> None"
  shows "credit_grows db db'"
proof -
  let ?e = "discovery_entry now payer (- settled) ''debit'' (''discovery:'' @ fst run @ '':'' @ snd (snd run)) retained price run"
  obtain new db1 where "insert_credit_entry ?e db = Inr (new, db1)"
    "if new \<noteq> None then change_balance payer (- settled) db1 = Inr db' else db' = db1"
    using assms(1) by (auto simp: charge_retained_def Let_def and_then_Inr split: if_splits)
  then show ?thesis using post_grows [of ?e db new db1 db'] assms(2) by (simp add: discovery_entry_def)
qed

lemma run_settlement_grows:
  assumes "post_run_settlement now payer reserved limit settled retained price run db = Inr db'"
    and "map_of (cd_accounts db) payer \<noteq> None"
  shows "credit_grows db db'"
proof -
  let ?e = "discovery_entry now payer reserved ''release'' (''discovery-release:'' @ fst run @ '':'' @ snd (snd run)) limit price run"
  obtain x where x: "insert_credit_entry ?e db = Inr x" "(case x of (new, db1) \<Rightarrow>
     and_then (if new \<noteq> None then change_balance payer reserved db1 else Inr db1) (\<lambda>db2.
       if 0 < retained then charge_retained now payer settled retained price run db2 else Inr db2)) = Inr db'"
    using assms(1) unfolding post_run_settlement_def by (rule and_thenE)
  obtain new db1 where "x = (new, db1)" by fastforce
  with x have new: "insert_credit_entry ?e db = Inr (new, db1)"
    "and_then (if new \<noteq> None then change_balance payer reserved db1 else Inr db1) (\<lambda>db2.
       if 0 < retained then charge_retained now payer settled retained price run db2 else Inr db2) = Inr db'"
    by simp_all
  then obtain db2 where "(if new \<noteq> None then change_balance payer reserved db1 else Inr db1) = Inr db2"
    "(if 0 < retained then charge_retained now payer settled retained price run db2 else Inr db2) = Inr db'"
    unfolding and_then_Inr by blast
  with new(1) have ins: "insert_credit_entry ?e db = Inr (new, db1)"
    "if new \<noteq> None then change_balance payer reserved db1 = Inr db2 else db2 = db1"
    "if 0 < retained then charge_retained now payer settled retained price run db2 = Inr db' else db' = db2"
    by (auto split: if_splits)
  then have "credit_grows db db2 \<and> map_of (cd_accounts db2) payer \<noteq> None"
    using post_grows [of ?e db new db1 db2 payer] assms(2) by (simp add: discovery_entry_def)
  then show ?thesis using ins(3) charge_retained_grows grows_trans by (auto split: if_splits)
qed

section \<open>Histories\<close>

text \<open>
  Anyone may send anything at any time, and any statement may fail before or after it ran. The
  transactions of \<open>discovery.rs\<close> open the account of the payer before they escrow and read it
  before they settle. What else is changed elsewhere (the limits of an account, the budgets of
  campaigns) leaves the money alone.
\<close>

inductive credit_step :: "credit_db \<Rightarrow> credit_db \<Rightarrow> bool" where
  credit_in: "credit_step db (snd (credit_account fault now p d ref db))"
| credit_seed: "credit_step db (snd (seed_account fault now p d ref db))"
| credit_debit: "credit_step db (snd (debit_internal fault now p c ref model rid basis db))"
| credit_reserve: "credit_step db (snd (create_gateway_settlement_intent fault now p ref m d k db))"
| credit_completed: "credit_step db (snd (mark_gateway_provider_completed fault now i rid cost status db))"
| credit_debited: "credit_step db (snd (mark_gateway_intent_debited fault now i db))"
| credit_no_charge: "credit_step db (snd (resolve_gateway_intent_no_charge fault now i status db))"
| credit_reconcile: "credit_step db (snd (mark_gateway_intent_reconciliation fault now i reason rid cost status db))"
| credit_outcome: "credit_step db (snd (record_gateway_reconciliation fault p ref m status reason db))"
| credit_charge: "credit_step db (snd (debit_gateway_intent_internal fault now i p c ref m rid basis db))"
| credit_resolve: "credit_step db (snd (resolve_pending_gateway_settlements fault F now usages db))"
| credit_escrow: "open_account payer db = Inr db\<^sub>1 \<Longrightarrow> escrow_paid_discovery_run_tx now payer reserved limit price run db\<^sub>1 = Inr db\<^sub>2
    \<Longrightarrow> credit_step db db\<^sub>2"
| credit_run_end: "map_of (cd_accounts db) payer \<noteq> None
    \<Longrightarrow> post_run_settlement now payer reserved limit settled retained price run db = Inr db\<^sub>2 \<Longrightarrow> credit_step db db\<^sub>2"
| credit_elsewhere: "cd_ledger db' = cd_ledger db \<Longrightarrow> cd_intents db' = cd_intents db \<Longrightarrow> cd_outcomes db' = cd_outcomes db
    \<Longrightarrow> keys_ok (cd_accounts db') \<Longrightarrow> \<forall>p. balance_of p db' = balance_of p db \<Longrightarrow> credit_step db db'"

lemma credit_step_grows: "credit_step db db' \<Longrightarrow> credit_grows db db'"
proof (induction rule: credit_step.induct)
  case (credit_reserve db fault now p ref m d k)
  show ?case unfolding create_gateway_settlement_intent_def by (rule tx_grows) (rule create_intent_grows)
next
  case (credit_escrow payer db db1 now reserved limit price run db2)
  then have "credit_grows db db1 \<and> map_of (cd_accounts db1) payer \<noteq> None"
    using open_account_done(1,6) open_account_sound by (simp add: credit_grows_def)
  then show ?case using escrow_grows [OF credit_escrow(2)] grows_trans by blast
next
  case (credit_run_end db payer now reserved limit settled retained price run db2)
  then show ?case using run_settlement_grows by blast
next
  case (credit_elsewhere db' db)
  then show ?case by (simp add: credit_grows_def credit_sound_def)
qed (simp_all only: apply_entry_grows intent_marks_grow reconciliation_grows record_gateway_reconciliation_grows debit_intent_grows
    resolve_pending_grows)

definition empty_store :: "credit_db \<Rightarrow> bool" where
  "empty_store db \<longleftrightarrow> cd_accounts db = [] \<and> cd_ledger db = [] \<and> cd_intents db = [] \<and> cd_outcomes db = []"

lemma empty_store_sound: "empty_store db \<Longrightarrow> credit_sound db"
  by (simp add: empty_store_def credit_sound_def keys_ok_def sql_table_ok_def balance_of_def posted_def)

lemma credit_steps_grow: "credit_step\<^sup>*\<^sup>* db db' \<Longrightarrow> credit_grows db db'"
  by (induction rule: rtranclp_induct) (auto intro: grows_trans credit_step_grows)

interpretation crediting: invariant_machine empty_store credit_step credit_sound
  by unfold_locales (use empty_store_sound credit_step_grows in \<open>auto simp: credit_grows_def\<close>)

text \<open>
  C6: In any history of the credit store the balance of every account is the sum of the entries
  posted to it, the ledger only grows, and an account has one entry under a reference.
\<close>

theorem credits_add_up:
  assumes "empty_store db\<^sub>0" and "credit_step\<^sup>*\<^sup>* db\<^sub>0 db" and "credit_step\<^sup>*\<^sup>* db db'"
  shows "balance_of p db' = posted p (cd_ledger db') \<and> prefix (cd_ledger db) (cd_ledger db')
     \<and> (\<forall>x\<in>set (cd_ledger db'). \<forall>y\<in>set (cd_ledger db'). same_reference x y \<longrightarrow> x = y)"
proof -
  have "credit_sound db" "credit_grows db db'"
    using crediting.inv_reachable [OF assms(1,2)] credit_steps_grow [OF assms(3)] .
  then have sound: "credit_sound db'" and pre: "prefix (cd_ledger db) (cd_ledger db')" by (simp_all add: credit_grows_def)
  have "clash_free same_reference (cd_ledger db')" using sound by (simp add: credit_sound_def sql_table_ok_def)
  then show ?thesis using sound pre ledger_table.clash_free_distinct by (auto simp: credit_sound_def)
qed

section \<open>Admission\<close>

lemma sum_list_member:
  fixes f :: "'a \<Rightarrow> int"
  assumes "x \<in> set xs" and "\<forall>y\<in>set xs. 0 \<le> f y"
  shows "f x \<le> sum_list (map f xs)"
proof -
  obtain as bs where xs: "xs = as @ x # bs" using assms(1) split_list by metis
  have "0 \<le> sum_list (map f as)" "0 \<le> sum_list (map f bs)" using assms(2) by (auto simp: xs intro!: sum_list_nonneg)
  then show ?thesis by (simp add: xs)
qed

lemma intent_row_ok:
  assumes "credit_sound db" and "(i, r) \<in> set (cd_intents db)"
  shows "intent_check (i, r)"
  using assms by (auto simp: credit_sound_def sql_table_ok_def list_all_iff)

lemma hold_le_open:
  assumes "credit_sound db" and "(i, r) \<in> set (cd_intents db)" and "gi_state r \<noteq> ''resolved''"
  shows "0 \<le> gi_reserved r" "gi_reserved r \<le> open_holds (gi_pubkey r) (cd_intents db)"
proof -
  have pos: "0 \<le> gi_reserved (snd x)" if "x \<in> set (cd_intents db)" for x
    using intent_row_ok [OF assms(1), of "fst x" "snd x"] that by (simp add: intent_check_def Let_def)
  show "0 \<le> gi_reserved r" using pos assms(2) by force
  show "gi_reserved r \<le> open_holds (gi_pubkey r) (cd_intents db)"
    using sum_list_member [of "(i, r)" "filter (\<lambda>x. gi_pubkey (snd x) = gi_pubkey r \<and> gi_state (snd x) \<noteq> ''resolved'') (cd_intents db)"
        "gi_reserved \<circ> snd"] assms(2,3) pos by (simp add: open_holds_def)
qed

lemma admitted_intent:
  assumes "create_intent_tx now p ref m d k db = Inr (Reserved i intent account, db')" and "i \<notin> fst ` set (cd_intents db)"
  obtains a where "map_of (cd_accounts db) p = Some a"
    and "intent = (new_intent now p ref m (max (max (case ac_typical_call_cost a of Some t \<Rightarrow> t | None \<Rightarrow> d) k) 1))
           \<lparr>gi_updated_at := gi_updated_at intent\<rparr>"
    and "map_of (cd_intents db') i = Some intent" and "admission_answer db i intent True a db' = Inr (Reserved i intent account, db')"
    and "cd_accounts db' = cd_accounts db" and "cd_ledger db' = cd_ledger db"
proof -
  let ?new = "new_intent now p ref m" and ?hold = "max (max d k) 1"
  obtain j first created db1 where x: "find_or_insert_intent now p ref m ?hold db = Inr ((j, first, created), db1)"
    "(case map_of (cd_accounts db1) p of None \<Rightarrow> Inr (Insufficient 0 (max d k), db)
      | Some account \<Rightarrow> and_then (size_hold now d k j first created account db1)
          (\<lambda>(intent', db2). admission_answer db j intent' created account db2)) = Inr (Reserved i intent account, db')"
    using assms(1) unfolding create_intent_tx_def and_then_Inr by auto
  note f = find_or_insert_done [OF x(1)]
  obtain a where a: "map_of (cd_accounts db1) p = Some a" using x(2) by (auto split: option.splits)
  let ?required = "max (max (case ac_typical_call_cost a of Some t \<Rightarrow> t | None \<Rightarrow> d) k) 1"
  obtain second db2 where y: "size_hold now d k j first created a db1 = Inr (second, db2)"
    "admission_answer db j second created a db2 = Inr (Reserved i intent account, db')"
    using x(2) unfolding a option.case and_then_Inr by auto
  have ans: "j = i" "second = intent" "db2 = db'"
    using y(2) by (auto simp: admission_answer_def and_then_Inr Let_def split: if_splits)
  have created: created
  proof (rule ccontr)
    assume "\<not> created"
    then have "(i, first) \<in> set (cd_intents db)" using f(7,9) ans by simp
    then show False using assms(2) by force
  qed
  have first: "cd_intents db1 = cd_intents db @ [(i, first)]" "first = ?new ?hold"
    using f(8) [OF created] ans by (auto simp: reservation_compat_def new_intent_def held_states_def)
  have row: "map_of (cd_intents db1) i = Some first" using first(1) map_of_append_new [OF assms(2)] by simp
  have keep: "reservation_compat t (r\<lparr>gi_reserved := ?required, gi_updated_at := now\<rparr>) = r\<lparr>gi_reserved := ?required, gi_updated_at := now\<rparr>"
    if "gi_state r = ''admitted''" for t r using that by (simp add: reservation_compat_def held_states_def)
  have final: "intent = (?new ?required)\<lparr>gi_updated_at := gi_updated_at intent\<rparr> \<and> map_of (cd_intents db') i = Some intent
    \<and> cd_accounts db' = cd_accounts db1 \<and> cd_ledger db' = cd_ledger db1"
  proof (cases "gi_reserved first = ?required")
    case True
    then have "intent = first" "db' = db1" using y(1) ans by (simp_all add: size_hold_def)
    then show ?thesis using True row first(2) by (simp add: new_intent_def)
  next
    case False
    then have "update_intent i (\<lambda>r. r\<lparr>gi_reserved := ?required, gi_updated_at := now\<rparr>) db1 = Inr (intent, db')"
      using y(1) created ans by (simp add: size_hold_def)
    note u = update_intent_done [OF this]
    have "intent = first\<lparr>gi_reserved := ?required, gi_updated_at := now\<rparr>"
      using u(6) row first(2) keep [of first] by (auto simp: new_intent_def)
    then show ?thesis using u(1,2,7) first(2) by (simp add: new_intent_def)
  qed
  show thesis
    using that [of a] a final f(1,2) y(2) ans created by simp
qed

text \<open>
  C13: When a call is admitted, in any history, its hold is at least the stated minimum and the typical
  cost of its account, and all the holds of the account that are open, this one included, are
  covered by its balance; nothing is charged.
\<close>

theorem admission_keeps_to_balance:
  assumes "empty_store db\<^sub>0" and "credit_step\<^sup>*\<^sup>* db\<^sub>0 db"
    and "create_gateway_settlement_intent fault now p ref m d k db = (Inr (Reserved i intent account), db')"
    and "i \<notin> fst ` set (cd_intents db)"
  shows "map_of (cd_intents db') i = Some intent \<and> gi_state intent = ''admitted'' \<and> max k 1 \<le> gi_reserved intent
     \<and> (\<forall>a. map_of (cd_accounts db) p = Some a \<longrightarrow> (\<forall>t. ac_typical_call_cost a = Some t \<longrightarrow> t \<le> gi_reserved intent))
     \<and> open_holds p (cd_intents db') \<le> balance_of p db' \<and> cd_ledger db' = cd_ledger db"
proof -
  have sound: "credit_sound db" using crediting.inv_reachable [OF assms(1,2)] .
  have tx: "create_intent_tx now p ref m d k db = Inr (Reserved i intent account, db')"
    using assms(3) by (simp add: create_gateway_settlement_intent_def credit_tx_Inr)
  obtain a where a: "map_of (cd_accounts db) p = Some a"
    "intent = (new_intent now p ref m (max (max (case ac_typical_call_cost a of Some t \<Rightarrow> t | None \<Rightarrow> d) k) 1))
       \<lparr>gi_updated_at := gi_updated_at intent\<rparr>"
    "map_of (cd_intents db') i = Some intent" "admission_answer db i intent True a db' = Inr (Reserved i intent account, db')"
    "cd_accounts db' = cd_accounts db" "cd_ledger db' = cd_ledger db"
    using admitted_intent [OF tx assms(4)] .
  define required where "required = max (max (case ac_typical_call_cost a of Some t \<Rightarrow> t | None \<Rightarrow> d) k) 1"
  have i: "gi_pubkey intent = p" "gi_state intent = ''admitted''" "gi_reserved intent = required"
    by (subst a(2), simp add: new_intent_def required_def)+
  have "credit_sound db'" using create_intent_grows [OF tx] sound by (simp add: credit_grows_def)
  then have hold: "required \<le> open_holds p (cd_intents db')"
    using hold_le_open(2) [of db' i intent] map_of_SomeD [OF a(3)] i by simp
  have cover: "bigint (open_holds p (cd_intents db'))"
    "required \<le> saturating_i64 (ac_balance a - saturating_i64 (open_holds p (cd_intents db') - required))"
    using a(4) by (auto simp: admission_answer_def and_then_Inr res_simps Let_def i split: if_splits)
  have one: "1 \<le> required" by (simp add: required_def)
  have "open_holds p (cd_intents db') \<le> ac_balance a"
    using cover hold one by (auto simp: saturating_i64_def bigint_def min_def max_def split: if_splits)
  then show ?thesis using a(1,3,5,6) i by (auto simp: balance_of_def required_def)
qed

end
