(* ===== verification/Gateway_Laws.thy ===== *)
theory Gateway_Laws
  imports Gateway_Admission Credit_Laws
begin

text \<open>
  A call through the gateway is charged once, whatever is lost on the way, and the slots of an
  account are counted exactly.
\<close>

section \<open>Statements that go through\<close>

lemma clash_free_image:
  "(\<And>x y. clash (g x) (g y) = clash x y) \<Longrightarrow> clash_free clash (map g tbl) = clash_free clash tbl"
  by (induction tbl) (simp_all add: list_all_iff)

lemma changed_clash_free:
  assumes "\<And>r. gi_pubkey (f r) = gi_pubkey r \<and> gi_reference (f r) = gi_reference r"
  shows "clash_free same_intent (changed cond f tbl) = clash_free same_intent tbl"
proof -
  let ?g = "\<lambda>x. if cond x then (fst x, f (snd x)) else x"
  have "same_intent (?g x) (?g y) = same_intent x y" for x y using assms by (simp add: same_intent_def)
  then show ?thesis unfolding changed_def by (rule clash_free_image)
qed

lemma reservation_compat_keeps:
  "gi_pubkey (reservation_compat t r) = gi_pubkey r" "gi_reference (reservation_compat t r) = gi_reference r"
  "gi_model (reservation_compat t r) = gi_model r" "gi_state (reservation_compat t r) = gi_state r"
  "gi_correction_ref (reservation_compat t r) = gi_correction_ref r"
  "gi_observed_cost (reservation_compat t r) = gi_observed_cost r"
  by (simp_all add: reservation_compat_def)

lemma update_intent_succeeds:
  assumes "credit_sound db" and "map_of (cd_intents db) i = Some row"
    and "\<And>r. gi_pubkey (change r) = gi_pubkey r \<and> gi_reference (change r) = gi_reference r"
    and "intent_check (i, reservation_compat (cd_accounts db) (change row))"
  shows "\<exists>db'. update_intent i change db = Inr (reservation_compat (cd_accounts db) (change row), db')"
proof -
  have "clash_free same_intent (changed (\<lambda>x. fst x = i) (\<lambda>r. reservation_compat (cd_accounts db) (change r)) (cd_intents db))"
    using assms(1,3) by (subst changed_clash_free) (simp_all add: reservation_compat_keeps credit_sound_def sql_table_ok_def)
  moreover have "snd x = row" if "x \<in> set (cd_intents db)" "fst x = i" for x
    using that assms(1,2) map_of_eq_Some_iff [of "cd_intents db" i "snd x"] by (cases x) (auto simp: credit_sound_def sql_table_ok_def keys_ok_def)
  ultimately show ?thesis
    using assms(2,4) by (auto simp: update_intent_def sql_update_def Let_def list_all_iff split: prod.split)
qed


lemma apply_entry_tx_succeeds:
  assumes "credit_sound db" and "key_octets p" and "0 \<le> c" and "b \<in> {''observed'', ''estimated''}"
    and "\<forall>x\<in>set (cd_ledger db). ce_pubkey (snd x) = p \<longrightarrow> ce_reference (snd x) \<noteq> ref"
    and "bigint (balance_of p db - c)"
  shows "\<exists>a db'. apply_entry_tx now (money_out p c ref (Some m) rid (Some b)) db = Inr (a, db') \<and> al_applied a"
proof -
  let ?q = "money_out p c ref (Some m) rid (Some b)"
  let ?zero = "\<lparr>ac_balance = 0, ac_typical_call_cost = None, ac_max_in_flight = None, ac_hourly_burn_cap = None\<rparr>"
  have "\<exists>db1. open_account p db = Inr db1"
    using assms(2) by (auto simp: open_account_def sql_insert_ignore_def sql_insert_def account_check_def)
  then obtain db1 where o: "open_account p db = Inr db1" ..
  note op = open_account_done [OF o]
  let ?e = "compat_attribution (new_credit_entry now ?q)"
  have check: "entry_check (i, ?e)" for i
    using assms(2-4) by (auto simp: entry_check_def Let_def compat_attribution_def new_credit_entry_def money_out_def attribution_complete_def)
  have fresh: "\<not> list_ex (same_reference (i, ?e)) (cd_ledger db1)" for i
    using assms(5) op(1) by (auto simp: list_ex_iff same_reference_def compat_attribution_def new_credit_entry_def money_out_def)
  have "\<not> list_ex (\<lambda>x. same_run_charge ?e (snd x)) (cd_ledger db1)"
    by (auto simp: list_ex_iff same_run_charge_def compat_attribution_def new_credit_entry_def money_out_def)
  with check fresh have n: "insert_credit_entry (new_credit_entry now ?q) db1
      = Inr (Some (unused_id (cd_ledger db1)), db1\<lparr>cd_ledger := cd_ledger db1 @ [(unused_id (cd_ledger db1), ?e)]\<rparr>)"
    using unused_id_fresh [of "cd_ledger db1"] by (simp add: insert_credit_entry_def Let_def sql_insert_ignore_def sql_insert_def)
  obtain a where "map_of (cd_accounts db1) p = Some a" using op(6) by auto
  moreover have "ac_balance a = balance_of p db" using op(5) [of p] calculation by (simp add: balance_of_def)
  ultimately show ?thesis
    using o n assms(6) by (simp add: apply_entry_tx_def money_out_def change_balance_def as_bigint_def)
qed

section \<open>What a settlement leaves\<close>

text \<open>The intent as it was admitted, as far as who and what it is for; open.\<close>

definition open_for :: "nat \<Rightarrow> GatewaySettlementIntent \<Rightarrow> credit_db \<Rightarrow> bool" where
  "open_for i r db \<longleftrightarrow> (\<exists>r'. map_of (cd_intents db) i = Some r' \<and> gi_pubkey r' = gi_pubkey r \<and> gi_reference r' = gi_reference r
     \<and> gi_model r' = gi_model r \<and> gi_correction_ref r' = None \<and> gi_state r' \<noteq> ''resolved'')"

text \<open>Since \<open>db\<close> the account was charged nothing, or once, under this reference and for this request.\<close>

definition charged_with :: "credit_db \<Rightarrow> string \<Rightarrow> string \<Rightarrow> int \<Rightarrow> credit_db \<Rightarrow> bool" where
  "charged_with db p rid c d \<longleftrightarrow> (\<exists>k e. cd_ledger d = cd_ledger db @ [(k, e)] \<and> ce_pubkey e = p \<and> ce_delta e = - c
     \<and> ce_kind e = ''debit'' \<and> ce_observed_cost e = Some c \<and> ce_request_id e = Some rid \<and> ce_reference e = rid)"

definition settling :: "credit_db \<Rightarrow> nat \<Rightarrow> GatewaySettlementIntent \<Rightarrow> string \<Rightarrow> int \<Rightarrow> credit_db \<Rightarrow> bool" where
  "settling db i r rid c d \<longleftrightarrow> credit_sound d \<and> open_for i r d
     \<and> (cd_ledger d = cd_ledger db \<or> charged_with db (gi_pubkey r) rid c d)"

lemma tx_keeps: "\<lbrakk>P d; \<And>a d'. body d = Inr (a, d') \<Longrightarrow> P d'\<rbrakk> \<Longrightarrow> P (snd (credit_tx f body d))"
  using credit_tx_state [of f body d] by metis

lemma update_keeps_settling:
  assumes "settling db i r rid c d" and "update_intent j change d = Inr (r', d')"
    and "\<And>r. gi_pubkey (change r) = gi_pubkey r \<and> gi_reference (change r) = gi_reference r \<and> gi_model (change r) = gi_model r
      \<and> gi_correction_ref (change r) = gi_correction_ref r \<and> (gi_state (change r) = ''resolved'' \<longrightarrow> gi_state r = ''resolved'')"
  shows "settling db i r rid c d'"
proof -
  note u = update_intent_done [OF assms(2)]
  have "open_for i r d'"
    using assms(1,3) u(6,7) by (auto simp: settling_def open_for_def reservation_compat_keeps)
  then show ?thesis using assms(1) u(1,5) by (simp add: settling_def charged_with_def)
qed

lemma posted_keeps_settling:
  assumes "settling db i r rid c d"
    and "apply_entry_tx now (money_out (gi_pubkey r) c rid (Some m) (Some rid) (Some b)) d = Inr (a, d')"
  shows "settling db i r rid c d'"
proof -
  have sound: "credit_sound d" using assms(1) by (simp add: settling_def)
  note posted = apply_entry_tx_done [OF assms(2) sound]
  let ?e = "compat_attribution (new_credit_entry now (money_out (gi_pubkey r) c rid (Some m) (Some rid) (Some b)))"
  have e: "ce_pubkey ?e = gi_pubkey r" "ce_delta ?e = - c" "ce_kind ?e = ''debit''" "ce_observed_cost ?e = Some c"
    "ce_request_id ?e = Some rid" "ce_reference ?e = rid"
    by (simp_all add: compat_attribution_def new_credit_entry_def money_out_def)
  have ledger: "cd_ledger d' = cd_ledger db \<or> charged_with db (gi_pubkey r) rid c d'"
  proof (cases "al_applied a")
    case False
    then have "cd_ledger d' = cd_ledger d" using posted(5) by blast
    then show ?thesis using assms(1) by (simp add: settling_def charged_with_def)
  next
    case True
    then have new: "cd_ledger d' = cd_ledger d @ [(al_id a, ?e)]" using posted(5) by auto
    have "\<not> charged_with db (gi_pubkey r) rid c d"
    proof
      assume "charged_with db (gi_pubkey r) rid c d"
      then obtain k e' where old: "(k, e') \<in> set (cd_ledger d)" "ce_pubkey e' = gi_pubkey r" "ce_reference e' = rid"
        unfolding charged_with_def by force
      have "clash_free same_reference (cd_ledger d @ [(al_id a, ?e)])"
        using posted(1) new by (simp add: credit_sound_def sql_table_ok_def)
      then have "\<not> same_reference (k, e') (al_id a, ?e)"
        using old(1) by (auto simp: ledger_table.clash_free_append)
      then show False using old(2,3) e by (simp add: same_reference_def)
    qed
    then have "cd_ledger d' = cd_ledger db @ [(al_id a, ?e)]" using new assms(1) by (simp add: settling_def)
    then show ?thesis using e unfolding charged_with_def by blast
  qed
  show ?thesis using ledger posted(1,2) assms(1) by (simp add: settling_def open_for_def)
qed

lemma debit_keeps_settling:
  assumes "settling db i r rid (int cost) d"
  shows "settling db i r rid (int cost) (snd (debit_gateway_intent_internal f now i (gi_pubkey r) cost rid m (Some rid) basis d))"
proof -
  have body: "settling db i r rid (int cost) d'"
    if tx: "debit_intent_tx now i (gi_pubkey r) (int cost) rid m (Some rid) basis d = Inr (a, d')" for a d'
  proof -
    obtain intent where "map_of (cd_intents d) i = Some intent" "\<not> (gi_pubkey intent \<noteq> gi_pubkey r \<or> gi_model intent \<noteq> m)"
      using tx by (auto simp: debit_intent_tx_def split: option.splits if_splits)
    then obtain d1 r' where "apply_entry_tx now (money_out (gi_pubkey r) (int cost) rid (Some m) (Some rid) (Some basis)) d = Inr (a, d1)"
      and u: "update_intent i (\<lambda>r. r\<lparr>gi_state := (if gi_state r = ''resolved'' then gi_state r else ''debited''),
                gi_reserved := 0, gi_updated_at := now\<rparr>) d1 = Inr (r', d')"
      using tx by (auto simp: debit_intent_tx_def and_then_Inr res_simps)
    from posted_keeps_settling [OF assms this(1)] u show ?thesis by (rule update_keeps_settling) simp
  qed
  show ?thesis
    using assms body by (auto simp: debit_gateway_intent_internal_def cost_i64_def intro!: tx_keeps [where P = "settling db i r rid (int cost)"])
qed

lemma reconciliation_keeps_settling:
  assumes "settling db i r rid c d"
  shows "settling db i r rid c (snd (mark_gateway_intent_reconciliation f now j reason q cost status d))"
  unfolding mark_gateway_intent_reconciliation_def
proof (rule tx_keeps [where P = "settling db i r rid c", OF assms])
  fix a d'
  assume *: "and_then (update_intent j (\<lambda>r. r\<lparr>
         gi_state := (if gi_state r = ''resolved'' then gi_state r else ''reconciliation''), gi_reason := Some reason,
         gi_provider_request_id := or_else q (gi_provider_request_id r),
         gi_observed_cost := or_else cost (gi_observed_cost r),
         gi_provider_status := Some status, gi_updated_at := now\<rparr>) d) (\<lambda>(intent, db1).
       map_ok (Pair intent) (record_outcome (gi_pubkey intent, gi_reference intent)
         \<lparr>rc_model = gi_model intent, rc_http_status = status, rc_reason = reason, rc_intent_id = Some j,
          rc_provider_request_id = q, rc_observed_cost = cost, rc_correction_ref = None, rc_resolved_at = None\<rparr> db1)) = Inr (a, d')"
  then obtain r' d1 k new where u: "update_intent j (\<lambda>r. r\<lparr>
         gi_state := (if gi_state r = ''resolved'' then gi_state r else ''reconciliation''), gi_reason := Some reason,
         gi_provider_request_id := or_else q (gi_provider_request_id r),
         gi_observed_cost := or_else cost (gi_observed_cost r),
         gi_provider_status := Some status, gi_updated_at := now\<rparr>) d = Inr (r', d1)" "record_outcome k new d1 = Inr d'"
    by (auto simp: and_then_Inr res_simps)
  have "settling db i r rid c d1" using assms u(1) by (rule update_keeps_settling) simp
  then show "settling db i r rid c d'" using record_outcome_done [OF u(2)] by (simp add: settling_def open_for_def charged_with_def)
qed

lemma completed_keeps_settling:
  assumes "settling db i r rid c d"
  shows "settling db i r rid c (snd (mark_gateway_provider_completed f now j q cost status d))"
  unfolding mark_gateway_provider_completed_def
  by (rule tx_keeps [where P = "settling db i r rid c", OF assms]) (erule update_keeps_settling [OF assms], simp)

text \<open>The job of a call whose provider named it and stated its cost.\<close>

definition stated_call :: "nat \<Rightarrow> GatewaySettlementIntent \<Rightarrow> string \<Rightarrow> nat \<Rightarrow> SettleJob \<Rightarrow> bool" where
  "stated_call i r rid cost job \<longleftrightarrow> sj_intent_id job = i \<and> sj_pubkey job = gi_pubkey r \<and> sj_model_id job = gi_model r
     \<and> pz_request_id (sj_parsed job) = Some rid \<and> pz_observed_cost (sj_parsed job) = Some cost
     \<and> sj_reference job = settle_reference (sj_parsed job) (sj_intent_reference job) \<and> rid \<noteq> [] \<and> is_success (sj_http_status job)"

lemma settle_one_keeps:
  assumes "settling db i r rid (int cost) d" and "stated_call i r rid cost job"
  shows "settling db i r rid (int cost) (snd (settle_one F book now job d))"
proof -
  let ?P = "settling db i r rid (int cost)"
  have job: "sj_intent_id job = i" "sj_pubkey job = gi_pubkey r" "pz_request_id (sj_parsed job) = Some rid"
    "pz_observed_cost (sj_parsed job) = Some cost" "sj_reference job = rid" "is_success (sj_http_status job)"
    using assms(2) by (simp_all add: stated_call_def settle_reference_def)
  have charge: "?P (snd (settle_charge f book now job d1))" if "?P d1" for f d1
    using debit_keeps_settling [OF that, of f now "sj_model_id job" "''observed''"] job
    by (simp add: settle_charge_def debit_observed_for_gateway_intent_def)
  obtain res d1 where m: "mark_gateway_provider_completed (F ''complete'') now (sj_intent_id job) (pz_request_id (sj_parsed job))
      (Some (int cost)) (int (sj_http_status job)) d = (res, d1)" by fastforce
  have "?P d1" using completed_keeps_settling [OF assms(1)] m by (metis snd_conv)
  then show ?thesis
    using m job charge assms(1) by (simp add: settle_one_def observed_i64_def cost_i64_def split: sum.split)
qed

lemma settle_job_keeps:
  assumes "settling db i r rid (int cost) d" and "stated_call i r rid cost job"
  shows "settling db i r rid (int cost) (snd (settle_job F f book clk (Some job) d))"
proof -
  let ?P = "settling db i r rid (int cost)"
  have loop: "?P (snd (settle_attempts F book clk job ns err d'))" if "?P d'" for ns err d'
    using that
  proof (induction ns arbitrary: err d')
    case (Cons n ns)
    obtain res d1 where o: "settle_one (F n) book (clk n) job d' = (res, d1)" by fastforce
    then have "?P d1" using settle_one_keeps [OF Cons.prems assms(2)] by (metis snd_conv)
    then show ?case using o Cons.IH by (simp split: sum.split)
  qed simp
  obtain res d1 where s: "settle_with_retry F book clk job d = (res, d1)" by fastforce
  then have "?P d1" using loop [OF assms(1)] unfolding settle_with_retry_def by (metis snd_conv)
  then show ?thesis
    using s assms(2) by (auto simp: settle_job_def stated_call_def record_reconciliation_outcome_def reconciliation_keeps_settling
        split: sum.split option.split)
qed

section \<open>Resolving from the export\<close>

lemma clash_free_never: "clash_free (\<lambda>_ _. False) tbl"
  by (induction tbl) (simp_all add: list_all_iff)

lemma finish_closes:
  assumes "credit_sound d" and "map_of (cd_intents d) i = Some r'" and "int (pu_cost_nanousd usage) < 2 ^ 63"
  shows "\<exists>closed d'. finish_resolution (\<lambda>_. NoFault) now i intent usage ref d = (Inr (Some closed), d') \<and> gi_state closed = ''resolved''
    \<and> gi_reserved closed = 0 \<and> cd_ledger d' = cd_ledger d \<and> cd_accounts d' = cd_accounts d"
proof -
  let ?c = "int (pu_cost_nanousd usage)"
  let ?ch = "\<lambda>r. r\<lparr>gi_state := ''resolved'', gi_reserved := 0,
       gi_provider_request_id := or_else (pu_provider_request_id usage) (gi_provider_request_id r), gi_observed_cost := Some ?c,
       gi_correction_ref := Some ref, gi_resolved_at := or_else (gi_resolved_at r) (Some now), gi_updated_at := now\<rparr>"
  let ?closed = "reservation_compat (cd_accounts d) (?ch r')"
  have "key_octets (gi_pubkey r')" using intent_row_ok [OF assms(1) map_of_SomeD [OF assms(2)]] by (simp add: intent_check_def Let_def)
  then have "intent_check (i, ?closed)" by (simp add: intent_check_def reservation_compat_def held_states_def Let_def)
  then obtain d1 where u: "update_intent i ?ch d = Inr (?closed, d1)" using update_intent_succeeds [OF assms(1,2), of ?ch] by auto
  note u' = update_intent_done [OF u]
  have "list_all outcome_check (cd_outcomes d1)" using u'(5) assms(1) by (simp add: credit_sound_def)
  then have "\<exists>d2. close_outcomes now i intent ?c ref d1 = Inr ((), d2) \<and> cd_ledger d2 = cd_ledger d1 \<and> cd_accounts d2 = cd_accounts d1"
    by (auto simp: close_outcomes_def sql_update_def Let_def clash_free_never list_all_iff outcome_check_def or_else_def split: option.split)
  then obtain d2 where "close_outcomes now i intent ?c ref d1 = Inr ((), d2)" "cd_ledger d2 = cd_ledger d1" "cd_accounts d2 = cd_accounts d1"
    by blast
  moreover have "gi_state ?closed = ''resolved''" "gi_reserved ?closed = 0" by (simp_all add: reservation_compat_def held_states_def)
  ultimately show ?thesis
    using u u'(1,2) assms(3) by (simp add: finish_resolution_def cost_i64_def close_intent_def credit_tx_def)
qed

text \<open>An export row for an open intent, that names the request.\<close>

definition exported :: "nat \<Rightarrow> GatewaySettlementIntent \<Rightarrow> string \<Rightarrow> nat \<Rightarrow> GatewayProviderUsage \<Rightarrow> bool" where
  "exported i r rid cost usage \<longleftrightarrow> pu_pubkey usage = gi_pubkey r \<and> pu_reference usage = gi_reference r \<and> pu_model usage = gi_model r
     \<and> pu_provider_request_id usage = Some rid \<and> pu_cost_nanousd usage = cost"

definition request_debit :: "string \<Rightarrow> string \<Rightarrow> int \<Rightarrow> nat \<times> CreditEntry \<Rightarrow> bool" where
  "request_debit p rid c x \<longleftrightarrow> ce_pubkey (snd x) = p \<and> ce_request_id (snd x) = Some rid \<and> ce_kind (snd x) = ''debit''
     \<and> ce_observed_cost (snd x) = Some c"

lemma find_none: "find P xs = None \<longleftrightarrow> (\<forall>x\<in>set xs. \<not> P x)"
  by (auto simp: find_None_iff)

lemma normal_debit_found:
  assumes "exported i r rid cost usage" and "int cost < 2 ^ 63"
  shows "normal_debit NoFault (gi_pubkey r) usage d
     = Inr (map_option (\<lambda>x. ce_reference (snd x)) (find (request_debit (gi_pubkey r) rid (int cost)) (cd_ledger d)))"
  using assms by (simp add: normal_debit_def exported_def cost_i64_def credit_read_def request_debit_def [abs_def])

lemma resolve_matches:
  assumes "credit_sound d" and "open_for i r d" and "exported i r rid cost usage" and "int cost < 2 ^ 63"
    and "x \<in> set (cd_ledger d)" and "request_debit (gi_pubkey r) rid (int cost) x"
  shows "\<exists>closed d'. resolve_gateway_settlement_intent (\<lambda>_. NoFault) now i usage d = (Inr (Some closed), d')
    \<and> gi_state closed = ''resolved'' \<and> gi_reserved closed = 0 \<and> cd_ledger d' = cd_ledger d \<and> cd_accounts d' = cd_accounts d"
proof -
  obtain r' where r': "map_of (cd_intents d) i = Some r'" "gi_pubkey r' = gi_pubkey r" "gi_reference r' = gi_reference r"
    "gi_model r' = gi_model r" "gi_state r' \<noteq> ''resolved''"
    using assms(2) by (auto simp: open_for_def)
  obtain y where "find (request_debit (gi_pubkey r) rid (int cost)) (cd_ledger d) = Some y"
    using find_none [of _ "cd_ledger d"] assms(5,6) by (cases "find (request_debit (gi_pubkey r) rid (int cost)) (cd_ledger d)") auto
  then have n: "normal_debit NoFault (gi_pubkey r) usage d = Inr (Some (ce_reference (snd y)))"
    using normal_debit_found [OF assms(3,4)] by simp
  have "int (pu_cost_nanousd usage) < 2 ^ 63" using assms(3,4) by (simp add: exported_def)
  from finish_closes [OF assms(1) r'(1) this]
  show ?thesis using r' n assms(3) by (simp add: resolve_gateway_settlement_intent_def credit_read_def exported_def Let_def)
qed

lemma resolve_charges:
  assumes "credit_sound d" and "open_for i r d" and "exported i r rid cost usage" and "int cost < 2 ^ 63"
    and "\<forall>x\<in>set (cd_ledger d). \<not> request_debit (gi_pubkey r) rid (int cost) x"
    and "\<forall>x\<in>set (cd_ledger d). ce_pubkey (snd x) = gi_pubkey r \<longrightarrow> ce_reference (snd x) \<noteq> ''gateway-intent:'' @ show_nat i"
    and "bigint (balance_of (gi_pubkey r) d - int cost)"
  shows "\<exists>closed d' k e. resolve_gateway_settlement_intent (\<lambda>_. NoFault) now i usage d = (Inr (Some closed), d')
    \<and> gi_state closed = ''resolved'' \<and> gi_reserved closed = 0 \<and> cd_ledger d' = cd_ledger d @ [(k, e)]
    \<and> ce_pubkey e = gi_pubkey r \<and> ce_delta e = - int cost
    \<and> balance_of (gi_pubkey r) d' = balance_of (gi_pubkey r) d - int cost"
proof -
  let ?p = "gi_pubkey r" and ?ref = "''gateway-intent:'' @ show_nat i"
  let ?q = "money_out ?p (int cost) ?ref (Some (gi_model r)) (Some rid) (Some ''observed'')"
  obtain r' where r': "map_of (cd_intents d) i = Some r'" "gi_pubkey r' = ?p" "gi_reference r' = gi_reference r"
    "gi_model r' = gi_model r" "gi_state r' \<noteq> ''resolved''" "gi_correction_ref r' = None"
    using assms(2) by (auto simp: open_for_def)
  have key: "key_octets ?p" using intent_row_ok [OF assms(1) map_of_SomeD [OF r'(1)]] r'(2) by (simp add: intent_check_def Let_def)
  obtain a d1 where p: "apply_entry_tx now ?q d = Inr (a, d1)" "al_applied a"
    using apply_entry_tx_succeeds [OF assms(1) key of_nat_0_le_iff insertI1 assms(6,7), where now = now and m = "gi_model r" and rid = "Some rid"]
    by blast
  note posted = apply_entry_tx_done [OF p(1) assms(1)]
  have entry: "cd_ledger d1 = cd_ledger d @ [(al_id a, compat_attribution (new_credit_entry now ?q))]"
    "balance_of ?p d1 = balance_of ?p d - int cost"
    using posted(5) p(2) by (auto simp: money_out_def)
  let ?ch = "\<lambda>r. r\<lparr>gi_state := (if gi_state r = ''resolved'' then gi_state r else ''debited''), gi_reserved := 0, gi_updated_at := now\<rparr>"
  have row: "map_of (cd_intents d1) i = Some r'" using r'(1) posted(2) by simp
  have "intent_check (i, reservation_compat (cd_accounts d1) (?ch r'))"
    using intent_row_ok [OF posted(1) map_of_SomeD [OF row]] r'(5)
    by (simp add: intent_check_def reservation_compat_def held_states_def Let_def)
  then obtain d2 where u: "update_intent i ?ch d1 = Inr (reservation_compat (cd_accounts d1) (?ch r'), d2)"
    using update_intent_succeeds [OF posted(1) row, of ?ch] by auto
  note u' = update_intent_done [OF u]
  have debit: "debit_observed_for_gateway_intent NoFault now i ?p cost ?ref (gi_model r) (Some rid) d = (Inr a, d2)"
    using r' p(1) u assms(4)
    by (simp add: debit_observed_for_gateway_intent_def debit_gateway_intent_internal_def cost_i64_def credit_tx_def debit_intent_tx_def
        and_then_def map_ok_def)
  have n: "normal_debit NoFault ?p usage d = Inr None"
    using normal_debit_found [OF assms(3,4)] assms(5) find_none [of "request_debit ?p rid (int cost)"] by simp
  have "map_of (cd_intents d2) i \<noteq> None" using u'(7) by simp
  then obtain r2 where r2: "map_of (cd_intents d2) i = Some r2" by auto
  have cost: "int (pu_cost_nanousd usage) < 2 ^ 63" using assms(3,4) by (simp add: exported_def)
  obtain closed d3 where fin: "finish_resolution (\<lambda>_. NoFault) now i r' usage ?ref d2 = (Inr (Some closed), d3)" "gi_state closed = ''resolved''"
    "gi_reserved closed = 0" "cd_ledger d3 = cd_ledger d2" "cd_accounts d3 = cd_accounts d2"
    using finish_closes [OF u'(5) [OF posted(1)] r2 cost] by blast
  have "resolve_gateway_settlement_intent (\<lambda>_. NoFault) now i usage d = (Inr (Some closed), d3)"
    using r' n debit fin(1) assms(3)
    by (simp add: resolve_gateway_settlement_intent_def credit_read_def exported_def Let_def correction_reference_def or_else_def)
  moreover have "balance_of ?p d3 = balance_of ?p d - int cost" using entry(2) fin(5) u'(2) by (simp add: balance_of_def)
  ultimately show ?thesis
    using fin(2-4) entry(1) u'(1) by (auto simp: compat_attribution_def new_credit_entry_def money_out_def)
qed

text \<open>
  C5: A call whose provider names it and states its cost is charged exactly once: whatever is lost
  while it is settled, every statement of every attempt included, once the export of the provider is
  resolved the account has paid this cost in one entry, and the hold is released.
\<close>

theorem call_charged_once:
  assumes "empty_store db\<^sub>0" and "credit_step\<^sup>*\<^sup>* db\<^sub>0 db" and "open_for i r db"
    and "stated_call i r rid cost job" and "exported i r rid cost usage"
    and "\<forall>x\<in>set (cd_ledger db). ce_pubkey (snd x) = gi_pubkey r \<longrightarrow> ce_request_id (snd x) \<noteq> Some rid
           \<and> ce_reference (snd x) \<notin> {rid, ''gateway-intent:'' @ show_nat i}"
    and "int cost < 2 ^ 63" and "bigint (balance_of (gi_pubkey r) db - int cost)"
    and "settle_job F f book clk (Some job) db = (settled, db\<^sub>1)"
    and "resolve_gateway_settlement_intent (\<lambda>_. NoFault) now i usage db\<^sub>1 = (res, db\<^sub>2)"
  shows "\<exists>closed k e. res = Inr (Some closed) \<and> gi_state closed = ''resolved'' \<and> gi_reserved closed = 0
     \<and> cd_ledger db\<^sub>2 = cd_ledger db @ [(k, e)] \<and> ce_pubkey e = gi_pubkey r \<and> ce_delta e = - int cost
     \<and> balance_of (gi_pubkey r) db\<^sub>2 = balance_of (gi_pubkey r) db - int cost"
proof -
  let ?p = "gi_pubkey r"
  have sound: "credit_sound db" using crediting.inv_reachable [OF assms(1,2)] .
  then have "settling db i r rid (int cost) db" using assms(3) by (simp add: settling_def)
  then have "settling db i r rid (int cost) db\<^sub>1" using settle_job_keeps [OF _ assms(4)] assms(9) by (metis snd_conv)
  then have s: "credit_sound db\<^sub>1" "open_for i r db\<^sub>1" "cd_ledger db\<^sub>1 = cd_ledger db \<or> charged_with db ?p rid (int cost) db\<^sub>1"
    by (simp_all add: settling_def)
  have sum: "balance_of ?p db = posted ?p (cd_ledger db)" "balance_of ?p db\<^sub>1 = posted ?p (cd_ledger db\<^sub>1)"
    using sound s(1) by (simp_all add: credit_sound_def)
  from s(3) show ?thesis
  proof
    assume same: "cd_ledger db\<^sub>1 = cd_ledger db"
    then have "\<forall>x\<in>set (cd_ledger db\<^sub>1). \<not> request_debit ?p rid (int cost) x"
      "\<forall>x\<in>set (cd_ledger db\<^sub>1). ce_pubkey (snd x) = ?p \<longrightarrow> ce_reference (snd x) \<noteq> ''gateway-intent:'' @ show_nat i"
      "bigint (balance_of ?p db\<^sub>1 - int cost)"
      using assms(6,8) sum by (auto simp: request_debit_def)
    from resolve_charges [OF s(1,2) assms(5,7) this, of now] show ?thesis using assms(10) same sum by auto
  next
    assume "charged_with db ?p rid (int cost) db\<^sub>1"
    then obtain k e where e: "cd_ledger db\<^sub>1 = cd_ledger db @ [(k, e)]" "ce_pubkey e = ?p" "ce_delta e = - int cost"
      "request_debit ?p rid (int cost) (k, e)"
      by (auto simp: charged_with_def request_debit_def)
    then have "(k, e) \<in> set (cd_ledger db\<^sub>1)" by simp
    from resolve_matches [OF s(1,2) assms(5,7) this e(4), of now]
    obtain closed where "res = Inr (Some closed)" "gi_state closed = ''resolved''" "gi_reserved closed = 0"
      "cd_ledger db\<^sub>2 = cd_ledger db\<^sub>1" "cd_accounts db\<^sub>2 = cd_accounts db\<^sub>1" using assms(10) by auto
    moreover have "balance_of ?p db\<^sub>1 = balance_of ?p db - int cost" using sum e(1-3) by simp
    ultimately show ?thesis using e(1-3) by (auto simp: balance_of_def)
  qed
qed

text \<open>
  A call that was charged at an estimate is charged again in full when the export of the provider
  states another cost: the debit is looked up with the exact cost, and so not found.
\<close>

lemma estimate_charged_again:
  assumes "credit_sound db" and "open_for i r db" and "exported i r rid cost usage"
    and "\<forall>x\<in>set (cd_ledger db). ce_pubkey (snd x) = gi_pubkey r \<longrightarrow> ce_request_id (snd x) \<noteq> Some rid
           \<and> ce_reference (snd x) \<notin> {rid, ''gateway-intent:'' @ show_nat i}"
    and "int cost < 2 ^ 63" and "estimate \<noteq> cost" and "rid \<noteq> ''gateway-intent:'' @ show_nat i"
    and "bigint (balance_of (gi_pubkey r) db - int estimate - int cost)"
    and "debit_estimated_for_gateway_intent f now i (gi_pubkey r) estimate rid m (Some rid) db = (Inr a, db\<^sub>1)" and "al_applied a"
    and "resolve_gateway_settlement_intent (\<lambda>_. NoFault) now' i usage db\<^sub>1 = (res, db\<^sub>2)"
  shows "balance_of (gi_pubkey r) db\<^sub>2 = balance_of (gi_pubkey r) db - int estimate - int cost"
proof -
  let ?p = "gi_pubkey r"
  have "settling db i r rid (int estimate) db" using assms(1,2) by (simp add: settling_def)
  then have s: "settling db i r rid (int estimate) db\<^sub>1"
    using debit_keeps_settling [of db i r rid estimate db f now m "''estimated''"] assms(9)
    by (simp add: debit_estimated_for_gateway_intent_def)
  have "cd_ledger db\<^sub>1 \<noteq> cd_ledger db"
  proof -
    have cost: "int estimate < 2 ^ 63" and tx: "debit_intent_tx now i ?p (int estimate) rid m (Some rid) ''estimated'' db = Inr (a, db\<^sub>1)"
      using assms(9) by (auto simp: debit_estimated_for_gateway_intent_def debit_gateway_intent_internal_def credit_tx_Inr cost_i64_def
          split: if_splits)
    obtain intent where "map_of (cd_intents db) i = Some intent" "\<not> (gi_pubkey intent \<noteq> ?p \<or> gi_model intent \<noteq> m)"
      using tx by (auto simp: debit_intent_tx_def split: option.splits if_splits)
    then obtain d1 ch r' where "apply_entry_tx now (money_out ?p (int estimate) rid (Some m) (Some rid) (Some ''estimated'')) db = Inr (a, d1)"
      "update_intent i ch d1 = Inr (r', db\<^sub>1)"
      using tx by (auto simp: debit_intent_tx_def and_then_Inr res_simps)
    then show ?thesis using apply_entry_tx_done(5) [OF _ assms(1)] update_intent_done(1) assms(10) by fastforce
  qed
  then obtain k e where e: "cd_ledger db\<^sub>1 = cd_ledger db @ [(k, e)]" "ce_pubkey e = ?p" "ce_delta e = - int estimate"
    "ce_observed_cost e = Some (int estimate)" "ce_reference e = rid"
    using s by (auto simp: settling_def charged_with_def)
  have "\<forall>x\<in>set (cd_ledger db\<^sub>1). \<not> request_debit ?p rid (int cost) x"
    "\<forall>x\<in>set (cd_ledger db\<^sub>1). ce_pubkey (snd x) = ?p \<longrightarrow> ce_reference (snd x) \<noteq> ''gateway-intent:'' @ show_nat i"
    using assms(4,6,7) e by (auto simp: request_debit_def)
  moreover have bal: "balance_of ?p db\<^sub>1 = balance_of ?p db - int estimate"
    using assms(1) s e(1-3) by (simp add: settling_def credit_sound_def)
  ultimately show ?thesis
    using resolve_charges [OF _ _ assms(3,5), of db\<^sub>1 now'] s assms(8,11) by (auto simp: settling_def)
qed

section \<open>The slots of the gateway\<close>

text \<open>
  The counter of an account is the number of its calls that have a slot, which never exceeds four, and an
  account with a call in flight or with an operation at its gate is never forgotten.
\<close>

subsection \<open>The map of entries\<close>

declare map_of_eq_Some_iff [simp del]

lemma map_of_change_one:
  "map_of (map (\<lambda>(p, e). (p, if p = q then f e else e)) xs) p = (if p = q then map_option f (map_of xs p) else map_of xs p)"
  by (induction xs) auto

lemma entries_change [simp]:
  "map_of (ct_entries (change_entry q f ct)) p = (if p = q then map_option f (map_of (ct_entries ct) p) else map_of (ct_entries ct) p)"
  by (simp add: change_entry_def map_of_change_one)

lemma keys_change [simp]: "map fst (ct_entries (change_entry q f ct)) = map fst (ct_entries ct)"
  by (simp add: change_entry_def comp_def case_prod_beta)

lemma length_change [simp]: "length (ct_entries (change_entry q f ct)) = length (ct_entries ct)"
  by (simp add: change_entry_def)

lemma in_flight_prune [simp]: "ar_in_flight (prune now rt) = ar_in_flight rt"
  by (simp add: prune_def split: prod.split)

lemma in_flight_touch [simp]: "ar_in_flight (touch now rt) = ar_in_flight rt"
  by (simp add: touch_def)

lemma in_flight_push [simp]: "ar_in_flight (push_spend point rt) = ar_in_flight rt"
  by (simp add: push_spend_def)

lemma in_flight_release [simp]: "ar_in_flight (release_runtime rt) = ar_in_flight rt - 1"
  by (simp add: release_runtime_def)

lemma in_flight_finish [simp]: "ar_in_flight (finish_runtime now settled rt) = ar_in_flight rt - 1"
  by (simp add: finish_runtime_def split: option.split)

lemma map_of_kept:
  "distinct (map fst xs) \<Longrightarrow> map_of (filter (\<lambda>(p, e). Q e) (map (\<lambda>(p, e). (p, g e)) xs)) p =
     (case map_of xs p of None \<Rightarrow> None | Some e \<Rightarrow> if Q (g e) then Some (g e) else None)"
proof (induction xs)
  case (Cons x xs)
  obtain q e where x: "x = (q, e)" by (cases x)
  then have "map_of xs q = None" using Cons.prems by (simp add: map_of_eq_None_iff)
  then show ?case using Cons x by (cases "Q (g e)"; cases "p = q") simp_all
qed simp

subsection \<open>The invariant\<close>

fun has_slot :: "gate_stage \<Rightarrow> bool" where
  "has_slot (Admitted i intent) = True"
| "has_slot (Settling job) = True"
| "has_slot (Releasing settled) = True"
| "has_slot Dropping = True"
| "has_slot _ = False"

fun registered :: "gate_stage \<Rightarrow> bool" where
  "registered (Called ref model) = False"
| "registered _ = True"

text \<open>The calls of an account that have a slot: its permits, and its users that have not given theirs back.\<close>

definition slots_of :: "string \<Rightarrow> (string \<times> gate_stage) multiset \<Rightarrow> string multiset \<Rightarrow> nat" where
  "slots_of p us ps = count ps p + size {#u \<in># us. fst u = p \<and> has_slot (snd u)#}"

definition users_of :: "string \<Rightarrow> (string \<times> gate_stage) multiset \<Rightarrow> nat" where
  "users_of p us = size {#u \<in># us. fst u = p \<and> registered (snd u)#}"

lemma slots_of_add [simp]:
  "slots_of p (add_mset (q, st) us) ps = slots_of p us ps + (if p = q \<and> has_slot st then 1 else 0)"
  "slots_of p us (add_mset q ps) = slots_of p us ps + (if p = q then 1 else 0)"
  by (auto simp: slots_of_def)

lemma users_of_add [simp]: "users_of p (add_mset (q, st) us) = users_of p us + (if p = q \<and> registered st then 1 else 0)"
  by (auto simp: users_of_def)

text \<open>An operation that was cancelled is still counted among the users of its gate.\<close>

definition account_ok :: "AccountAdmissionEntry option \<Rightarrow> nat \<Rightarrow> nat \<Rightarrow> bool" where
  "account_ok entry users slots \<longleftrightarrow> (case entry of
       None \<Rightarrow> slots = 0 \<and> users = 0
     | Some e \<Rightarrow> users \<le> ae_gate_users e \<and> ar_in_flight (ae_runtime e) = slots \<and> slots \<le> MAX_MAX_IN_FLIGHT)"

lemma account_ok_simps [simp]:
  "account_ok None users slots \<longleftrightarrow> slots = 0 \<and> users = 0"
  "account_ok (Some e) users slots \<longleftrightarrow> users \<le> ae_gate_users e \<and> ar_in_flight (ae_runtime e) = slots \<and> slots \<le> MAX_MAX_IN_FLIGHT"
  by (simp_all add: account_ok_def)

definition slots_ok :: "AdmissionController \<Rightarrow> (string \<times> gate_stage) multiset \<Rightarrow> string multiset \<Rightarrow> bool" where
  "slots_ok ct us ps \<longleftrightarrow> distinct (map fst (ct_entries ct)) \<and> length (ct_entries ct) \<le> MAX_ADMISSION_ENTRIES
     \<and> (\<forall>p. account_ok (map_of (ct_entries ct) p) (users_of p us) (slots_of p us ps))"

lemma slots_ok_account: "slots_ok ct us ps \<Longrightarrow> account_ok (map_of (ct_entries ct) p) (users_of p us) (slots_of p us ps)"
  by (simp add: slots_ok_def)

lemma slots_okD:
  assumes "slots_ok ct us ps" and "0 < slots_of p us ps \<or> 0 < users_of p us"
  obtains e where "map_of (ct_entries ct) p = Some e" and "users_of p us \<le> ae_gate_users e"
    and "ar_in_flight (ae_runtime e) = slots_of p us ps" and "slots_of p us ps \<le> MAX_MAX_IN_FLIGHT"
  using slots_ok_account [OF assms(1), of p] assms(2) by (cases "map_of (ct_entries ct) p") auto

text \<open>A change at one account, of its entry and of what is counted there.\<close>

lemma slots_change:
  assumes "slots_ok ct us ps" and "map_of (ct_entries ct) q = Some e"
    and "users_of q us' \<le> ae_gate_users (f e)" and "ar_in_flight (ae_runtime (f e)) = slots_of q us' ps'"
    and "slots_of q us' ps' \<le> MAX_MAX_IN_FLIGHT"
    and "\<And>p. p \<noteq> q \<Longrightarrow> users_of p us' = users_of p us \<and> slots_of p us' ps' = slots_of p us ps"
  shows "slots_ok (change_entry q f ct) us' ps'"
proof -
  have "account_ok (map_of (ct_entries (change_entry q f ct)) p) (users_of p us') (slots_of p us' ps')" for p
    using slots_ok_account [OF assms(1), of p] assms(2-6) by (cases "p = q") simp_all
  then show ?thesis using assms(1) by (simp add: slots_ok_def)
qed

lemma slots_same:
  assumes "slots_ok ct us ps" and "\<And>p. users_of p us' \<le> users_of p us" and "\<And>p. slots_of p us' ps' = slots_of p us ps"
  shows "slots_ok ct us' ps'"
proof -
  have "account_ok (map_of (ct_entries ct) p) (users_of p us') (slots_of p us' ps')" for p
    using slots_ok_account [OF assms(1), of p] assms(2,3) [of p]
    by (cases "map_of (ct_entries ct) p") auto
  then show ?thesis using assms(1) by (simp add: slots_ok_def)
qed

lemma prune_idle_slots:
  assumes "slots_ok ct us ps"
  shows "slots_ok (prune_idle_entries now ct) us ps"
proof -
  let ?g = "\<lambda>e. e\<lparr>ae_runtime := prune now (ae_runtime e)\<rparr>"
  have entry: "map_of (ct_entries (prune_idle_entries now ct)) p =
      (case map_of (ct_entries ct) p of None \<Rightarrow> None | Some e \<Rightarrow> if \<not> entry_idle now (?g e) then Some (?g e) else None)" for p
    using map_of_kept [of "ct_entries ct" "\<lambda>e. \<not> entry_idle now e" ?g p] assms
    unfolding prune_idle_entries_def slots_ok_def by simp
  have "map fst (ct_entries (prune_idle_entries now ct)) = map fst (filter (\<lambda>x. \<not> entry_idle now (?g (snd x))) (ct_entries ct))"
    by (simp add: prune_idle_entries_def filter_map comp_def case_prod_beta)
  then have "distinct (map fst (ct_entries (prune_idle_entries now ct)))" using assms by (simp add: slots_ok_def distinct_map_filter)
  moreover have "length (ct_entries (prune_idle_entries now ct)) \<le> length (ct_entries ct)"
    unfolding prune_idle_entries_def using length_filter_le [of "\<lambda>(p, e). \<not> entry_idle now e"] by (simp add: order.trans [OF length_filter_le])
  moreover have "account_ok (map_of (ct_entries (prune_idle_entries now ct)) p) (users_of p us) (slots_of p us ps)" for p
    using slots_ok_account [OF assms, of p] by (auto simp: entry entry_idle_def split: option.splits)
  ultimately show ?thesis using assms by (simp add: slots_ok_def)
qed

subsection \<open>Steps\<close>

lemma take_slot_cases:
  "take_slot now d a rt = (Inr (), rt') \<Longrightarrow> ar_in_flight rt' = Suc (ar_in_flight rt) \<and> ar_in_flight rt < MAX_MAX_IN_FLIGHT"
  "take_slot now d a rt = (Inl e, rt') \<Longrightarrow> ar_in_flight rt' = ar_in_flight rt"
  by (auto simp: take_slot_def Let_def in_flight_limit_def min_def split: if_splits)

lemma register_ok:
  assumes "slots_ok ct (add_mset (q, Called ref model) us) ps" and "entry_for_admission now q ct = (res, ct')"
  shows "case res of Inl _ \<Rightarrow> slots_ok ct' us ps | Inr _ \<Rightarrow> slots_ok ct' (add_mset (q, Waiting ref model) us) ps"
proof -
  let ?ct = "prune_idle_entries now ct"
  have p: "slots_ok ?ct us ps" using slots_same [OF prune_idle_slots [OF assms(1)], of us ps] by simp
  show ?thesis
  proof (cases "map_of (ct_entries ?ct) q")
    case (Some e)
    then have res: "res = Inr ()" "ct' = register_user q ?ct" using assms(2) by (auto simp: entry_for_admission_def register_user_def Let_def)
    have "users_of q us \<le> ae_gate_users e" "ar_in_flight (ae_runtime e) = slots_of q us ps" "slots_of q us ps \<le> MAX_MAX_IN_FLIGHT"
      using slots_ok_account [OF p, of q] Some by simp_all
    then have "slots_ok ct' (add_mset (q, Waiting ref model) us) ps"
      unfolding res register_user_def by (intro slots_change [OF p Some]) simp_all
    then show ?thesis using res by simp
  next
    case None
    show ?thesis
    proof (cases "MAX_ADMISSION_ENTRIES \<le> length (ct_entries ?ct)")
      case True
      then show ?thesis using assms(2) p None by (auto simp: entry_for_admission_def Let_def)
    next
      case False
      let ?new = "?ct\<lparr>ct_entries := (q, \<lparr>ae_gate_users = 1, ae_runtime = new_runtime\<rparr>) # ct_entries ?ct\<rparr>"
      have res: "res = Inr ()" "ct' = ?new" using False assms(2) None by (auto simp: entry_for_admission_def Let_def)
      have "slots_of q us ps = 0" "users_of q us = 0" using slots_ok_account [OF p, of q] None by simp_all
      then have "account_ok (map_of (ct_entries ?new) p) (users_of p (add_mset (q, Waiting ref model) us))
          (slots_of p (add_mset (q, Waiting ref model) us) ps)" for p
        using slots_ok_account [OF p, of p] by (cases "p = q") (simp_all add: new_runtime_def)
      then have "slots_ok ?new (add_mset (q, Waiting ref model) us) ps"
        using p None False by (simp add: slots_ok_def map_of_eq_None_iff)
      then show ?thesis using res by simp
    qed
  qed
qed

lemma check_ok:
  assumes "slots_ok ct (add_mset (q, Checking i intent account) us) ps" and "admit_check now q i intent account ct = (st, ct')"
  shows "slots_ok ct' (add_mset (q, st) us) ps"
proof -
  obtain e where e: "map_of (ct_entries ct) q = Some e" "users_of q us < ae_gate_users e"
    "ar_in_flight (ae_runtime e) = slots_of q us ps" "slots_of q us ps \<le> MAX_MAX_IN_FLIGHT"
    using slots_okD [OF assms(1), of q] by (auto simp: Suc_le_eq)
  obtain slot rt where t: "take_slot now (ct_defaults ct) account (ae_runtime e) = (slot, rt)" by fastforce
  have ct': "ct' = change_entry q (\<lambda>e. e\<lparr>ae_runtime := rt\<rparr>) ct"
    using t assms(2) e(1) by (auto simp: admit_check_def entry_runtime_def change_runtime_def split: sum.splits)
  have "registered st \<and> ar_in_flight rt = ar_in_flight (ae_runtime e) + (if has_slot st then 1 else 0)
      \<and> (has_slot st \<longrightarrow> ar_in_flight (ae_runtime e) < MAX_MAX_IN_FLIGHT)"
  proof (cases slot)
    case (Inl refusal)
    then have "st = Refusing i refusal" using t assms(2) e(1) by (simp add: admit_check_def entry_runtime_def)
    then show ?thesis using take_slot_cases(2) [OF t [unfolded Inl]] by simp
  next
    case (Inr u)
    then have "st = Admitted i intent" using t assms(2) e(1) by (simp add: admit_check_def entry_runtime_def)
    then show ?thesis using take_slot_cases(1) [of now "ct_defaults ct" account "ae_runtime e" rt] t Inr by simp
  qed
  then show ?thesis unfolding ct' by (intro slots_change [OF assms(1) e(1)]) (use e in \<open>auto simp: Suc_le_eq\<close>)
qed

lemma reserve_stage:
  "admit_reserve fault now q ref model defaults db = (st, db') \<Longrightarrow> registered st \<and> \<not> has_slot st"
  "admit_refuse fault now i refusal db = (st', db'') \<Longrightarrow> registered st' \<and> \<not> has_slot st'"
  by (auto simp: admit_reserve_def admit_refuse_def split: prod.splits sum.splits GatewayIntentReservation.splits)

text \<open>A user that registers with a permit, that gives its slot back, and that leaves.\<close>

lemma permit_registered:
  assumes "slots_ok ct us (add_mset q ps)" and "has_slot st" and "registered st"
  shows "slots_ok (register_user q ct) (add_mset (q, st) us) ps"
proof -
  obtain e where e: "map_of (ct_entries ct) q = Some e" "users_of q us \<le> ae_gate_users e"
    "ar_in_flight (ae_runtime e) = Suc (slots_of q us ps)" "Suc (slots_of q us ps) \<le> MAX_MAX_IN_FLIGHT"
    using slots_okD [OF assms(1), of q] by auto
  show ?thesis unfolding register_user_def by (rule slots_change [OF assms(1) e(1)]) (use e assms(2,3) in auto)
qed

lemma slot_released:
  assumes "slots_ok ct (add_mset (q, st) us) ps" and "has_slot st" and "registered st" and "\<And>rt. ar_in_flight (f rt) = ar_in_flight rt - 1"
  shows "slots_ok (change_runtime q f ct) (add_mset (q, Leaving out) us) ps"
proof -
  obtain e where e: "map_of (ct_entries ct) q = Some e" "Suc (users_of q us) \<le> ae_gate_users e"
    "ar_in_flight (ae_runtime e) = Suc (slots_of q us ps)" "Suc (slots_of q us ps) \<le> MAX_MAX_IN_FLIGHT"
    using slots_okD [OF assms(1), of q] assms(2,3) by auto
  show ?thesis unfolding change_runtime_def by (rule slots_change [OF assms(1) e(1)]) (use e assms(4) in auto)
qed

lemma user_left:
  assumes "slots_ok ct (add_mset (q, st) us) ps" and "registered st" and "slots_of q us ps' = slots_of q (add_mset (q, st) us) ps"
    and "\<And>p. p \<noteq> q \<Longrightarrow> count ps' p = count ps p"
  shows "slots_ok (leave_gate q ct) us ps'"
proof -
  obtain e where e: "map_of (ct_entries ct) q = Some e" "Suc (users_of q us) \<le> ae_gate_users e"
    "ar_in_flight (ae_runtime e) = slots_of q (add_mset (q, st) us) ps" "slots_of q (add_mset (q, st) us) ps \<le> MAX_MAX_IN_FLIGHT"
    using slots_okD [OF assms(1), of q] assms(2) by auto
  show ?thesis unfolding leave_gate_def
    by (rule slots_change [OF assms(1) e(1)]) (use e assms(3,4) in \<open>auto simp: slots_of_def\<close>)
qed

lemma permit_lost:
  assumes "slots_ok ct us (add_mset q ps)"
  shows "slots_ok (change_runtime q release_runtime ct) us ps"
proof -
  obtain e where e: "map_of (ct_entries ct) q = Some e" "users_of q us \<le> ae_gate_users e"
    "ar_in_flight (ae_runtime e) = Suc (slots_of q us ps)" "Suc (slots_of q us ps) \<le> MAX_MAX_IN_FLIGHT"
    using slots_okD [OF assms, of q] by auto
  show ?thesis unfolding change_runtime_def by (rule slots_change [OF assms e(1)]) (use e in auto)
qed

lemma gateway_start_ok: "gateway_start (ct, db, us, ps) \<Longrightarrow> slots_ok ct us ps"
proof -
  assume "gateway_start (ct, db, us, ps)"
  then obtain defaults now recent where start: "try_new_admission defaults now recent = Some ct" and us: "us = {#}" "ps = {#}"
    by (auto simp: gateway_start_def)
  let ?add = "\<lambda>debit ct. change_runtime (rd_pubkey debit) (\<lambda>rt. touch now (push_spend
      \<lparr>sp_ledger_id = rd_id debit, sp_reference = rd_reference debit, sp_at = rd_created_at debit, sp_cost = rd_cost_nanousd debit\<rparr> rt))
      (entry_unchecked (rd_pubkey debit) ct)"
  let ?ok = "\<lambda>ct keys. distinct (map fst (ct_entries ct)) \<and> fst ` set (ct_entries ct) = keys
    \<and> (\<forall>p e. map_of (ct_entries ct) p = Some e \<longrightarrow> ae_gate_users e = 0 \<and> ar_in_flight (ae_runtime e) = 0)"
  have add: "?ok (?add debit c) (insert (rd_pubkey debit) keys)" if "?ok c keys" for debit c keys
  proof -
    have key: "fst ` set (ct_entries (change_entry q f c')) = fst ` set (ct_entries c')" for q f c'
      by (metis keys_change set_map)
    have keyed: "p \<in> keys \<longleftrightarrow> map_of (ct_entries c) p \<noteq> None" for p using that by (simp add: map_of_eq_None_iff)
    show ?thesis
    proof (cases "map_of (ct_entries c) (rd_pubkey debit)")
      case None
      then show ?thesis using that keyed [of "rd_pubkey debit"]
        by (auto simp: change_runtime_def key entry_unchecked_def new_runtime_def split: if_splits)
    next
      case (Some e)
      then show ?thesis using that keyed [of "rd_pubkey debit"]
        by (auto simp: change_runtime_def key entry_unchecked_def split: if_splits)
    qed
  qed
  have all: "?ok (fold ?add recent c) (keys \<union> set (map rd_pubkey recent))" if "?ok c keys" for c keys
    using that
  proof (induction recent arbitrary: c keys)
    case (Cons debit recent)
    show ?case using Cons.IH [OF add [OF Cons.prems, of debit]] by simp
  qed simp
  let ?c = "\<lparr>ct_entries = [], ct_defaults = defaults\<lparr>ad_max_in_flight := min (ad_max_in_flight defaults) MAX_MAX_IN_FLIGHT\<rparr>,
      ct_closed = False\<rparr>"
  have ct: "ct = fold ?add recent ?c" "card (set (map rd_pubkey recent)) \<le> MAX_ADMISSION_ENTRIES"
    using start by (auto simp: try_new_admission_def split: if_splits)
  have ok: "?ok ct (set (map rd_pubkey recent))" using all [of ?c "{}"] ct(1) by simp
  then have "length (ct_entries ct) = card (set (map rd_pubkey recent))"
    using distinct_card [of "map fst (ct_entries ct)"] by simp
  moreover have "account_ok (map_of (ct_entries ct) p) 0 0" for p
    using ok by (cases "map_of (ct_entries ct) p") auto
  ultimately show ?thesis using ok ct(2) us by (simp add: slots_ok_def slots_of_def users_of_def)
qed

definition gateway_ok :: "gateway_state \<Rightarrow> bool" where
  "gateway_ok s \<longleftrightarrow> (case s of (ct, db, us, ps) \<Rightarrow> slots_ok ct us ps)"

lemma gateway_step_ok: "gateway_step s t \<Longrightarrow> gateway_ok s \<Longrightarrow> gateway_ok t"
proof (induction rule: gateway_step.induct)
  case (gw_registered now q ct u ct' db ref model us ps)
  then show ?case using register_ok [of ct q ref model us ps now "Inr u" ct'] by (simp add: gateway_ok_def)
next
  case (gw_full now q ct e ct' db ref model us ps)
  then show ?case using register_ok [of ct q ref model us ps now "Inl e" ct'] by (simp add: gateway_ok_def)
next
  case (gw_reserved q us fault now ref model ct db st db' ps)
  then show ?case using reserve_stage(1) [OF gw_reserved(2)] by (auto simp: gateway_ok_def intro: slots_same)
next
  case (gw_checked now q i intent account ct st ct' db us ps)
  then show ?case using check_ok by (auto simp: gateway_ok_def)
next
  case (gw_refused fault now i refusal db st db' ct q us ps)
  then show ?case using reserve_stage(2) [OF gw_refused(1)] by (auto simp: gateway_ok_def intro: slots_same)
next
  case (gw_cancelled st ct db q us ps)
  then have "\<not> has_slot st" by (cases st) simp_all
  then show ?case using gw_cancelled by (auto simp: gateway_ok_def intro: slots_same)
next
  case (gw_closed ct db us ps)
  then show ?case by (simp add: gateway_ok_def close_admission_def slots_ok_def)
next
  case (gw_dropped q us ct db ps now)
  then show ?case using slot_released [of ct q Dropping us ps "\<lambda>rt. release_runtime (touch now rt)" None] by (simp add: gateway_ok_def)
qed (auto simp: gateway_ok_def intro: slots_same permit_registered slot_released user_left permit_lost)

interpretation slots: invariant_machine gateway_start gateway_step gateway_ok
  by unfold_locales (use gateway_start_ok gateway_step_ok in \<open>auto simp: gateway_ok_def\<close>)

text \<open>
  C23: However the parts of admissions, settlements and drops interleave, of one account or of many, and
  whichever are refused, lost or cancelled, the counter of an account is the number of its calls that have a slot, at most
  four; the entry of an account with such a call, or with any operation registered at its gate, is never
  dropped from the table; and the table never holds more than 4096 accounts.
\<close>

theorem slots_are_counted:
  assumes "gateway_start s" and "gateway_step\<^sup>*\<^sup>* s (ct, db, us, ps)"
  shows "ar_in_flight (entry_runtime p ct) = slots_of p us ps \<and> slots_of p us ps \<le> 4
     \<and> (p \<in># ps \<or> (\<exists>st. (p, st) \<in># us \<and> registered st) \<longrightarrow> map_of (ct_entries ct) p \<noteq> None) \<and> length (ct_entries ct) \<le> 4096"
proof -
  have ok: "slots_ok ct us ps" using slots.inv_reachable [OF assms] by (simp add: gateway_ok_def)
  have "0 < slots_of p us ps" if "p \<in># ps" using that by (simp add: slots_of_def count_greater_zero_iff [symmetric] del: count_greater_zero_iff)
  moreover have "0 < users_of p us" if "(p, st) \<in># us" "registered st" for st
    using that by (auto dest: multi_member_split)
  ultimately have "p \<in># ps \<or> (\<exists>st. (p, st) \<in># us \<and> registered st) \<longrightarrow> map_of (ct_entries ct) p \<noteq> None"
    using slots_okD [OF ok, of p] by (metis option.distinct(1))
  moreover have "ar_in_flight (entry_runtime p ct) = slots_of p us ps \<and> slots_of p us ps \<le> 4"
    using slots_ok_account [OF ok, of p]
    by (auto simp: entry_runtime_def new_runtime_def MAX_MAX_IN_FLIGHT_def split: option.splits)
  ultimately show ?thesis using ok by (simp add: slots_ok_def MAX_ADMISSION_ENTRIES_def)
qed

section \<open>An account and a call\<close>

text \<open>A concrete account, on which the witnesses of the properties run.\<close>

definition payer_key :: string where
  "payer_key = replicate 64 CHR ''a''"

definition credits\<^sub>0 :: credit_db where
  "credits\<^sub>0 = \<lparr>cd_accounts = [], cd_ledger = [], cd_intents = [], cd_outcomes = [], cd_campaigns = []\<rparr>"

definition seeded :: credit_db where
  "seeded = \<lparr>cd_accounts = [(payer_key, \<lparr>ac_balance = 1000000000, ac_typical_call_cost = None, ac_max_in_flight = None,
       ac_hourly_burn_cap = None\<rparr>)],
     cd_ledger = [(1, \<lparr>ce_pubkey = payer_key, ce_delta = 1000000000, ce_kind = ''seed'', ce_reference = ''gift'', ce_model = None,
       ce_observed_cost = None, ce_request_id = None, ce_settle_basis = None, ce_service = None, ce_quantity = None,
       ce_unit_price = None, ce_run = None, ce_created_at = 5\<rparr>)],
     cd_intents = [], cd_outcomes = [], cd_campaigns = []\<rparr>"

definition held :: GatewaySettlementIntent where
  "held = new_intent 7 payer_key ''call-1'' ''m'' 50000000"

definition reserved_call :: credit_db where
  "reserved_call = seeded\<lparr>cd_intents := [(1, held)]\<rparr>"

lemma payer_octets [simp]: "key_octets payer_key"
  by (simp add: key_octets_def payer_key_def)

lemmas example_simps = or_else_def unused_id_def as_bigint_def bigint_def saturating_i64_def and_then_def map_ok_def
  sql_insert_def sql_insert_ignore_def sql_update_def changed_def same_reference_def same_intent_def same_run_charge_def
  entry_check_def intent_check_def account_check_def outcome_check_def attribution_complete_def compat_attribution_def
  held_states_def reservation_compat_def new_intent_def credit_tx_def credit_read_def discovery_reserved_def open_holds_def
  key_octets_def [of payer_key, symmetric]

lemma example_seed: "seed_account NoFault 5 payer_key 1000000000 ''gift'' credits\<^sub>0 = (Inr (1, snd (hd (cd_ledger seeded))), seeded)"
  by (simp add: seed_account_def apply_entry_def apply_entry_applied_def apply_entry_tx_def open_account_def insert_credit_entry_def
      change_balance_def new_credit_entry_def money_in_def credits\<^sub>0_def seeded_def example_simps)

lemma example_insert:
  "find_or_insert_intent 7 payer_key ''call-1'' ''m'' 50000000 seeded = Inr ((1, held, True), reserved_call)"
  by (simp add: find_or_insert_intent_def seeded_def reserved_call_def held_def Let_def example_simps)

lemma example_account: "map_of (cd_accounts reserved_call) payer_key
    = Some \<lparr>ac_balance = 1000000000, ac_typical_call_cost = None, ac_max_in_flight = None, ac_hourly_burn_cap = None\<rparr>"
  by (simp add: reserved_call_def seeded_def)

lemma example_holds: "open_holds payer_key (cd_intents reserved_call) = 50000000" "discovery_reserved payer_key reserved_call = 0"
  by (simp_all add: open_holds_def discovery_reserved_def reserved_call_def seeded_def held_def new_intent_def)

lemma example_held: "gi_reserved held = 50000000" "gi_pubkey held = payer_key"
  by (simp_all add: held_def new_intent_def)

lemma example_reserve:
  "create_gateway_settlement_intent NoFault 7 payer_key ''call-1'' ''m'' 50000000 50000000 seeded
     = (Inr (Reserved 1 held \<lparr>aa_balance = 1000000000, aa_discovery_reserved = 0, aa_gateway_reserved = 50000000,
          aa_typical_call_cost = None, aa_max_in_flight = None, aa_hourly_burn_cap = None\<rparr>), reserved_call)"
  by (simp add: create_gateway_settlement_intent_def create_intent_tx_def example_insert example_account size_hold_def
      admission_answer_def example_holds example_held as_bigint_def bigint_def saturating_i64_def credit_tx_def Let_def)

lemma example_empty: "empty_store credits\<^sub>0"
  by (simp add: empty_store_def credits\<^sub>0_def)

lemma example_seeded: "credit_step\<^sup>*\<^sup>* credits\<^sub>0 seeded"
  using credit_seed [of credits\<^sub>0 NoFault 5 payer_key 1000000000 "''gift''"] example_seed by auto

lemma example_reserved: "credit_step seeded reserved_call"
  using credit_reserve [of seeded NoFault 7 payer_key "''call-1''" "''m''" 50000000 50000000] example_reserve by simp

lemma credits_add_up_witness:
  "posted payer_key (cd_ledger reserved_call) = 1000000000 \<and> prefix (cd_ledger seeded) (cd_ledger reserved_call)"
  using credits_add_up [OF example_empty example_seeded r_into_rtranclp [of credit_step, OF example_reserved], of payer_key]
  by (simp add: balance_of_def reserved_call_def seeded_def)

lemma admission_keeps_to_balance_witness:
  "map_of (cd_intents reserved_call) 1 = Some held \<and> open_holds payer_key (cd_intents reserved_call) \<le> balance_of payer_key reserved_call
     \<and> gi_reserved held = 50000000"
  using admission_keeps_to_balance [OF example_empty example_seeded example_reserve]
  by (simp add: seeded_def held_def new_intent_def)

subsection \<open>A call that is settled, and resolved from the export\<close>

definition call_job :: SettleJob where
  "call_job = \<lparr>sj_pubkey = payer_key, sj_model_id = ''m'', sj_intent_id = 1, sj_intent_reference = ''call-1'',
     sj_parsed = \<lparr>pz_tokens = None, pz_model = None, pz_request_id = Some ''req-9'', pz_observed_cost = Some 12345\<rparr>,
     sj_http_status = 200, sj_parseable = True, sj_reference = ''req-9''\<rparr>"

definition call_usage :: GatewayProviderUsage where
  "call_usage = \<lparr>pu_pubkey = payer_key, pu_reference = ''call-1'', pu_model = ''m'', pu_cost_nanousd = 12345,
     pu_provider_request_id = Some ''req-9''\<rparr>"

text \<open>The answers of the first attempt are lost, those of the others too.\<close>

lemma call_charged_once_witness:
  "\<exists>settled db\<^sub>1 res db\<^sub>2 closed k e.
     settle_job (\<lambda>_ _. AnswerLost) NotSent \<lparr>pb_entries = []\<rparr> (\<lambda>_. 9) (Some call_job) reserved_call = (settled, db\<^sub>1)
     \<and> resolve_gateway_settlement_intent (\<lambda>_. NoFault) 20 1 call_usage db\<^sub>1 = (res, db\<^sub>2)
     \<and> res = Inr (Some closed) \<and> gi_state closed = ''resolved'' \<and> cd_ledger db\<^sub>2 = cd_ledger reserved_call @ [(k, e)] \<and> ce_delta e = - 12345
     \<and> balance_of payer_key db\<^sub>2 = 999987655"
proof -
  obtain settled db\<^sub>1 where s: "settle_job (\<lambda>_ _. AnswerLost) NotSent \<lparr>pb_entries = []\<rparr> (\<lambda>_. 9) (Some call_job) reserved_call = (settled, db\<^sub>1)"
    by fastforce
  obtain res db\<^sub>2 where r: "resolve_gateway_settlement_intent (\<lambda>_. NoFault) 20 1 call_usage db\<^sub>1 = (res, db\<^sub>2)" by fastforce
  have reach: "credit_step\<^sup>*\<^sup>* credits\<^sub>0 reserved_call" using example_seeded example_reserved by (rule rtranclp.rtrancl_into_rtrancl)
  have key: "gi_pubkey held = payer_key" by (simp add: held_def new_intent_def)
  have row: "open_for 1 held reserved_call" by (simp add: open_for_def reserved_call_def held_def new_intent_def)
  have job: "stated_call 1 held ''req-9'' 12345 call_job"
    by (simp add: stated_call_def call_job_def held_def new_intent_def settle_reference_def is_success_def)
  have usage: "exported 1 held ''req-9'' 12345 call_usage" by (simp add: exported_def call_usage_def held_def new_intent_def)
  have bal: "balance_of payer_key reserved_call = 1000000000" by (simp add: balance_of_def reserved_call_def seeded_def)
  show ?thesis
    using call_charged_once [OF example_empty reach row job usage _ _ _ s r] s r key bal
    by (auto simp: reserved_call_def seeded_def bigint_def)
qed

subsection \<open>The slots of the gateway\<close>

definition opened_gateway :: AdmissionController where
  "opened_gateway = \<lparr>ct_entries = [], ct_defaults = \<lparr>ad_typical_call_cost = 50000000, ad_max_in_flight = 4, ad_hourly_burn_cap = 5000000000\<rparr>,
     ct_closed = False\<rparr>"

definition gateway_entry :: "nat \<Rightarrow> nat \<Rightarrow> AdmissionController" where
  "gateway_entry users calls = opened_gateway\<lparr>ct_entries := [(payer_key, \<lparr>ae_gate_users = users,
     ae_runtime = \<lparr>ar_in_flight = calls, ar_spend_nanousd = 0, ar_spend = [], ar_last_touched = (if calls = 0 then None else Some 7)\<rparr>\<rparr>)]\<rparr>"

definition payer_terms :: AdmissionAccount where
  "payer_terms = \<lparr>aa_balance = 1000000000, aa_discovery_reserved = 0, aa_gateway_reserved = 50000000, aa_typical_call_cost = None, aa_max_in_flight = None, aa_hourly_burn_cap = None\<rparr>"

lemmas gateway_simps = opened_gateway_def gateway_entry_def payer_terms_def entry_for_admission_def prune_idle_entries_def entry_idle_def
  MAX_ADMISSION_ENTRIES_def new_runtime_def prune_def change_entry_def admit_reserve_def admit_check_def take_slot_def in_flight_limit_def
  burn_cap_def MAX_MAX_IN_FLIGHT_def entry_runtime_def touch_def change_runtime_def leave_gate_def ADMISSION_FLOOR_NANOUSD_def Let_def

lemma example_reserved_stage:
  "admit_reserve NoFault 7 payer_key ''call-1'' ''m'' (ct_defaults opened_gateway) seeded = (Checking 1 held payer_terms, reserved_call)"
  using example_reserve by (simp add: gateway_simps)

text \<open>One call has its slot while another of the same account is registered and waits for the gate.\<close>

lemma slots_are_counted_witness:
  "gateway_step\<^sup>*\<^sup>* (opened_gateway, seeded, {#}, {#}) (gateway_entry 1 1, reserved_call, {#(payer_key, Waiting ''call-2'' ''m'')#}, {#payer_key#})
     \<and> ar_in_flight (entry_runtime payer_key (gateway_entry 1 1)) = slots_of payer_key {#(payer_key, Waiting ''call-2'' ''m'')#} {#payer_key#}"
proof -
  let ?w = "(payer_key, Waiting ''call-2'' ''m'')" and ?step = "gateway_step\<^sup>*\<^sup>* (opened_gateway, seeded, {#}, {#})"
  have start: "gateway_start (opened_gateway, seeded, {#}, {#})"
    unfolding gateway_start_def prod.case
    by (intro conjI refl exI [of _ "ct_defaults opened_gateway"] exI [of _ 0] exI [of _ "[]"])
      (simp add: try_new_admission_def opened_gateway_def MAX_MAX_IN_FLIGHT_def)
  have "?step (opened_gateway, seeded, {#(payer_key, Called ''call-1'' ''m'')#}, {#})"
    by (rule r_into_rtranclp, rule gw_called) (simp add: opened_gateway_def)
  then have "?step (gateway_entry 1 0, seeded, {#(payer_key, Waiting ''call-1'' ''m'')#}, {#})"
    by (rule rtranclp.rtrancl_into_rtrancl) (rule gw_registered [where now = 7 and u = "()"], simp add: gateway_simps)
  then have "?step (gateway_entry 1 0, reserved_call, {#(payer_key, Checking 1 held payer_terms)#}, {#})"
    by (rule rtranclp.rtrancl_into_rtrancl) (rule gw_reserved [where now = 7 and fault = NoFault],
        simp add: gate_free_def, use example_reserved_stage in \<open>simp add: gateway_entry_def\<close>)
  then have "?step (gateway_entry 1 0, reserved_call, {#(payer_key, Called ''call-2'' ''m''), (payer_key, Checking 1 held payer_terms)#}, {#})"
    by (rule rtranclp.rtrancl_into_rtrancl) (rule gw_called, simp add: gateway_entry_def opened_gateway_def)
  then have "?step (gateway_entry 2 0, reserved_call, {#?w, (payer_key, Checking 1 held payer_terms)#}, {#})"
    by (rule rtranclp.rtrancl_into_rtrancl) (rule gw_registered [where now = 7 and u = "()"], simp add: gateway_simps)
  then have "?step (gateway_entry 2 0, reserved_call, {#(payer_key, Checking 1 held payer_terms), ?w#}, {#})"
    by (simp add: add_mset_commute)
  then have "?step (gateway_entry 2 1, reserved_call, {#(payer_key, Admitted 1 held), ?w#}, {#})"
    by (rule rtranclp.rtrancl_into_rtrancl) (rule gw_checked [where now = 7], simp add: gateway_simps)
  then have "?step (leave_gate payer_key (gateway_entry 2 1), reserved_call, {#?w#}, {#payer_key#})"
    by (rule rtranclp.rtrancl_into_rtrancl) (rule gw_admitted)
  moreover have "leave_gate payer_key (gateway_entry 2 1) = gateway_entry 1 1" by (simp add: gateway_simps)
  ultimately have run: "?step (gateway_entry 1 1, reserved_call, {#?w#}, {#payer_key#})" by simp
  then show ?thesis using slots_are_counted [OF start run, of payer_key] by blast
qed

end
