(* ===== verification/Audit_Log.thy ===== *)
theory Audit_Log
  imports Sql_Table Json Colony_Interfaces
begin

text \<open>
  The audit log of a community, a hash chain in the database (\<open>buzz-audit\<close>): the action names,
  the canonical form and the hash of an entry, appending under the lock of the community,
  verifying a range and listing. Instants are nanoseconds. SHA-256, the text of a scalar and of an
  instant, and what \<open>JSONB\<close> gives back for a value are parameters. The lock serialises the
  appends of a community, so one append is one step; the row of a deleted community and its
  write fence are left out, as is a \<open>NULL\<close> in the column of the details, which no statement writes.
  A limit is not negative.
\<close>

section \<open>Actions\<close>

datatype AuditAction =
    EventCreated | EventDeleted | ChannelCreated | ChannelUpdated | ChannelDeleted | MemberAdded | MemberRemoved
  | AuthSuccess | AuthFailure | RateLimitExceeded | MediaUploaded | EmployeeKeyReleased

primrec action_as_str :: "AuditAction \<Rightarrow> string" where
  "action_as_str EventCreated = ''event_created''"
| "action_as_str EventDeleted = ''event_deleted''"
| "action_as_str ChannelCreated = ''channel_created''"
| "action_as_str ChannelUpdated = ''channel_updated''"
| "action_as_str ChannelDeleted = ''channel_deleted''"
| "action_as_str MemberAdded = ''member_added''"
| "action_as_str MemberRemoved = ''member_removed''"
| "action_as_str AuthSuccess = ''auth_success''"
| "action_as_str AuthFailure = ''auth_failure''"
| "action_as_str RateLimitExceeded = ''rate_limit_exceeded''"
| "action_as_str MediaUploaded = ''media_uploaded''"
| "action_as_str EmployeeKeyReleased = ''employee_key_released''"

definition ALL_ACTIONS :: "AuditAction list" where
  "ALL_ACTIONS = [EventCreated, EventDeleted, ChannelCreated, ChannelUpdated, ChannelDeleted, MemberAdded, MemberRemoved,
     AuthSuccess, AuthFailure, RateLimitExceeded, MediaUploaded, EmployeeKeyReleased]"

definition action_from_str :: "string \<Rightarrow> AuditAction option" where
  "action_from_str s = find (\<lambda>a. action_as_str a = s) ALL_ACTIONS"

lemma action_listed: "a \<in> set ALL_ACTIONS"
  by (cases a) (simp_all add: ALL_ACTIONS_def)

interpretation audit_action: wire_enum action_as_str action_from_str
proof
  show "action_from_str (action_as_str x) = Some x" for x
    by (cases x) (simp_all add: action_from_str_def ALL_ACTIONS_def)
  show "action_as_str x = s" if "action_from_str s = Some x" for s x
    using that by (auto simp: action_from_str_def find_Some_iff)
qed

section \<open>Entries and their hash\<close>

record audit_env =
  ve_sha256 :: "string \<Rightarrow> string"
  ve_scalar :: "json \<Rightarrow> string + string"
  ve_rfc3339 :: "int \<Rightarrow> string"
  ve_jsonb :: "json \<Rightarrow> json"

datatype AuditError =
    AuditDatabase DbError
  | ChainViolation int
  | HashMismatch int
  | UnknownAction
  | Serialization string

record AuditEntry =
  an_community_id :: string
  an_seq :: int
  an_hash :: string
  an_prev_hash :: "string option"
  an_action :: AuditAction
  an_actor_pubkey :: "string option"
  an_object_id :: "string option"
  an_detail :: json
  an_created_at :: int

record NewAuditEntry =
  nw_community_id :: string
  nw_action :: AuditAction
  nw_actor_pubkey :: "string option"
  nw_object_id :: "string option"
  nw_detail :: json

definition GENESIS_HASH :: string where
  "GENESIS_HASH = replicate 32 (CHR 0x00)"

definition to_storage_precision :: "int \<Rightarrow> int" where
  "to_storage_precision t = t - t mod 1000"

text \<open>\<open>to_be_bytes\<close> of an \<open>i64\<close>.\<close>

fun be_bytes :: "nat \<Rightarrow> nat \<Rightarrow> string" where
  "be_bytes 0 n = []"
| "be_bytes (Suc k) n = be_bytes k (n div 256) @ [char_of (n mod 256)]"

definition i64_be_bytes :: "int \<Rightarrow> string" where
  "i64_be_bytes n = be_bytes 8 (nat (n mod 2 ^ 64))"

text \<open>The keys of an object are distinct; a \<open>BTreeMap\<close> yields them in order.\<close>

primrec canonical_json :: "audit_env \<Rightarrow> json \<Rightarrow> string + string" where
  "canonical_json E JNull = ve_scalar E JNull"
| "canonical_json E (JBool b) = ve_scalar E (JBool b)"
| "canonical_json E (JInt n) = ve_scalar E (JInt n)"
| "canonical_json E (JFloat f) = ve_scalar E (JFloat f)"
| "canonical_json E (JStr s) = ve_scalar E (JStr s)"
| "canonical_json E (JArr xs) = map_ok (\<lambda>ys. ''['' @ join_with CHR '','' ys @ '']'') (collect_res id (map (canonical_json E) xs))"
| "canonical_json E (JObj fs) =
     map_ok (\<lambda>ys. ''{'' @ join_with CHR '','' ys @ ''}'')
       (collect_res (\<lambda>(k, r). and_then (ve_scalar E (JStr k)) (\<lambda>key. map_ok (\<lambda>v. key @ '':'' @ v) r))
         (sort_key fst (map (map_prod id (canonical_json E)) fs)))"

definition presence :: "string option \<Rightarrow> string" where
  "presence x = (case x of Some v \<Rightarrow> CHR 0x01 # v | None \<Rightarrow> [CHR 0x00])"

definition audit_preimage :: "audit_env \<Rightarrow> AuditEntry \<Rightarrow> AuditError + string" where
  "audit_preimage E e =
     map_ok (\<lambda>detail. an_community_id e @ i64_be_bytes (an_seq e) @ ve_rfc3339 E (to_storage_precision (an_created_at e))
         @ action_as_str (an_action e) @ presence (an_actor_pubkey e) @ presence (an_object_id e) @ detail
         @ (case an_prev_hash e of Some h \<Rightarrow> h | None \<Rightarrow> GENESIS_HASH))
       (map_err Serialization (canonical_json E (an_detail e)))"

definition compute_hash :: "audit_env \<Rightarrow> AuditEntry \<Rightarrow> AuditError + string" where
  "compute_hash E e = map_ok (ve_sha256 E) (audit_preimage E e)"

section \<open>The table\<close>

record audit_row =
  lr_hash :: string
  lr_prev_hash :: "string option"
  lr_action :: string
  lr_actor_pubkey :: "string option"
  lr_object_id :: "string option"
  lr_detail :: json
  lr_created_at :: int

type_synonym audit_db = "(string \<times> int, audit_row) table"

definition audit_check :: "(string \<times> int) \<times> audit_row \<Rightarrow> bool" where
  "audit_check x \<longleftrightarrow> length (lr_action (snd x)) \<le> 64 \<and> - (2 ^ 63) \<le> snd (fst x) \<and> snd (fst x) < 2 ^ 63"

text \<open>The unique index on the hashes of a community.\<close>

definition same_hash :: "(string \<times> int) \<times> audit_row \<Rightarrow> (string \<times> int) \<times> audit_row \<Rightarrow> bool" where
  "same_hash x y \<longleftrightarrow> fst (fst x) = fst (fst y) \<and> lr_hash (snd x) = lr_hash (snd y)"

interpretation audit_table: indexed_table audit_check same_hash
  by unfold_locales (auto simp: same_hash_def)

definition row_to_audit_entry :: "(string \<times> int) \<times> audit_row \<Rightarrow> AuditError + AuditEntry" where
  "row_to_audit_entry x =
     map_ok (\<lambda>action. \<lparr>an_community_id = fst (fst x), an_seq = snd (fst x), an_hash = lr_hash (snd x),
         an_prev_hash = lr_prev_hash (snd x), an_action = action, an_actor_pubkey = lr_actor_pubkey (snd x),
         an_object_id = lr_object_id (snd x), an_detail = lr_detail (snd x), an_created_at = lr_created_at (snd x)\<rparr>)
       (ok_or UnknownAction (action_from_str (lr_action (snd x))))"

definition chain_of :: "string \<Rightarrow> audit_db \<Rightarrow> audit_db" where
  "chain_of c db = sort_key (\<lambda>x. snd (fst x)) (filter (\<lambda>x. fst (fst x) = c) db)"

section \<open>Appending\<close>

definition chain_head :: "string \<Rightarrow> audit_db \<Rightarrow> int \<times> string option" where
  "chain_head c db = (case rev (chain_of c db) of
       [] \<Rightarrow> (0, None)
     | x # _ \<Rightarrow> (snd (fst x), Some (lr_hash (snd x))))"

definition audit_entry_for :: "audit_env \<Rightarrow> int \<Rightarrow> NewAuditEntry \<Rightarrow> audit_db \<Rightarrow> AuditError + AuditEntry" where
  "audit_entry_for E now new db =
     (case chain_head (nw_community_id new) db of
        (prev_seq, prev_hash) \<Rightarrow>
          let entry = \<lparr>an_community_id = nw_community_id new, an_seq = wrap_i64 (prev_seq + 1), an_hash = [], an_prev_hash = prev_hash,
                an_action = nw_action new, an_actor_pubkey = nw_actor_pubkey new, an_object_id = nw_object_id new,
                an_detail = nw_detail new, an_created_at = to_storage_precision now\<rparr>
          in map_ok (\<lambda>h. entry\<lparr>an_hash := h\<rparr>) (compute_hash E entry))"

definition stored_row :: "audit_env \<Rightarrow> AuditEntry \<Rightarrow> audit_row" where
  "stored_row E e = \<lparr>lr_hash = an_hash e, lr_prev_hash = an_prev_hash e, lr_action = action_as_str (an_action e),
     lr_actor_pubkey = an_actor_pubkey e, lr_object_id = an_object_id e, lr_detail = ve_jsonb E (an_detail e),
     lr_created_at = an_created_at e\<rparr>"

definition log_inner :: "audit_env \<Rightarrow> int \<Rightarrow> NewAuditEntry \<Rightarrow> audit_db \<Rightarrow> (AuditError + AuditEntry) \<times> audit_db" where
  "log_inner E now new db =
     (case audit_entry_for E now new db of
        Inl e \<Rightarrow> (Inl e, db)
      | Inr entry \<Rightarrow>
          map_prod (\<lambda>r. map_err AuditDatabase (map_ok (\<lambda>_. entry) r)) id
            (sql_insert audit_check same_hash (an_community_id entry, an_seq entry) (stored_row E entry) db))"

text \<open>The lock, the transaction (which may fail anywhere, or after it committed), and the unlock, whose failure is ignored.\<close>

definition audit_log_entry ::
  "audit_env \<Rightarrow> (string \<Rightarrow> db_fault) \<Rightarrow> int \<Rightarrow> NewAuditEntry \<Rightarrow> audit_db \<Rightarrow> (AuditError + AuditEntry) \<times> audit_db" where
  "audit_log_entry E F now new db =
     (if F ''lock'' \<noteq> NoFault then (Inl (AuditDatabase Unavailable), db)
      else case F ''append'' of
          NotSent \<Rightarrow> (Inl (AuditDatabase Unavailable), db)
        | AnswerLost \<Rightarrow> (Inl (AuditDatabase Unavailable), snd (log_inner E now new db))
        | NoFault \<Rightarrow> log_inner E now new db)"

section \<open>Reading and verifying\<close>

fun verify_rows :: "audit_env \<Rightarrow> string option \<Rightarrow> audit_db \<Rightarrow> AuditError + bool" where
  "verify_rows E expected [] = Inr True"
| "verify_rows E expected (row # rows) =
     and_then (row_to_audit_entry row) (\<lambda>entry.
       if expected \<noteq> None \<and> an_prev_hash entry \<noteq> expected then Inl (ChainViolation (an_seq entry))
       else and_then (compute_hash E entry) (\<lambda>computed.
         if computed \<noteq> an_hash entry then Inl (HashMismatch (an_seq entry))
         else verify_rows E (Some (an_hash entry)) rows))"

definition chain_segment :: "string \<Rightarrow> int \<Rightarrow> int \<Rightarrow> audit_db \<Rightarrow> audit_db" where
  "chain_segment c from_seq to_seq db = filter (\<lambda>x. from_seq \<le> snd (fst x) \<and> snd (fst x) \<le> to_seq) (chain_of c db)"

definition verify_chain :: "audit_env \<Rightarrow> db_fault \<Rightarrow> string \<Rightarrow> int \<Rightarrow> int \<Rightarrow> audit_db \<Rightarrow> AuditError + bool" where
  "verify_chain E fault c from_seq to_seq db =
     and_then (map_err AuditDatabase (sql_read fault (chain_segment c from_seq to_seq db))) (\<lambda>rows.
       if rows = [] then Inr False else verify_rows E None rows)"

definition get_entries :: "db_fault \<Rightarrow> string \<Rightarrow> int \<Rightarrow> nat \<Rightarrow> audit_db \<Rightarrow> AuditError + AuditEntry list" where
  "get_entries fault c from_seq limit db =
     and_then (map_err AuditDatabase (sql_read fault (take limit (filter (\<lambda>x. from_seq \<le> snd (fst x)) (chain_of c db)))))
       (collect_res row_to_audit_entry)"

end
