(* ===== verification/Audit_Laws.thy ===== *)
theory Audit_Laws
  imports Audit_Log
begin

text \<open>
  What the chain is good for: what is logged verifies, where JSONB keeps the text of its details, and whoever remembers the newest hash of a
  range notices any change to what was hashed before it.
\<close>

section \<open>Chains\<close>


definition last_hash :: "string option \<Rightarrow> audit_db \<Rightarrow> string option" where
  "last_hash p rows = (if rows = [] then p else Some (lr_hash (snd (last rows))))"


lemma entry_of_row:
  "row_to_audit_entry row = Inr e \<Longrightarrow> an_community_id e = fst (fst row) \<and> an_seq e = snd (fst row) \<and> an_hash e = lr_hash (snd row)
     \<and> an_prev_hash e = lr_prev_hash (snd row) \<and> an_detail e = lr_detail (snd row)"
  by (auto simp: row_to_audit_entry_def res_simps)



section \<open>Segments\<close>

abbreviation row_seq :: "(string \<times> int) \<times> audit_row \<Rightarrow> int" where
  "row_seq x \<equiv> snd (fst x)"





section \<open>What is logged\<close>

text \<open>Details that come back from the database with the text they were hashed with.\<close>

definition kept_detail :: "audit_env \<Rightarrow> json \<Rightarrow> bool" where
  "kept_detail E d \<longleftrightarrow> canonical_json E (ve_jsonb E d) = canonical_json E d"







lemma precision_idem [simp]: "to_storage_precision (to_storage_precision t) = to_storage_precision t"
  by (simp add: to_storage_precision_def)





section \<open>Histories\<close>








text \<open>A stored entry whose details JSONB gave another text, unless its hash collides.\<close>

lemma changed_text_unverified:
  assumes "audit_entry_for E now new db = Inr e" and "\<not> kept_detail E (nw_detail new)"
    and "\<And>p q. ve_sha256 E p = ve_sha256 E q \<Longrightarrow> p = q"
  shows "verify_rows E prev (((an_community_id e, an_seq e), stored_row E e) # rows) \<noteq> Inr True"
proof -
  have e: "an_detail e = nw_detail new" "an_created_at e = to_storage_precision now" "compute_hash E e = Inr (an_hash e)"
    using assms(1) by (auto simp: audit_entry_for_def Let_def res_simps compute_hash_def audit_preimage_def split: prod.splits)
  let ?e = "e\<lparr>an_detail := ve_jsonb E (an_detail e)\<rparr>"
  have read: "row_to_audit_entry ((an_community_id e, an_seq e), stored_row E e) = Inr ?e"
    by (simp add: row_to_audit_entry_def stored_row_def audit_action.from_as)
  have "compute_hash E ?e \<noteq> Inr (an_hash e)"
  proof
    assume "compute_hash E ?e = Inr (an_hash e)"
    then obtain p where "audit_preimage E ?e = Inr p" "audit_preimage E e = Inr p"
      using e(3) assms(3) by (auto simp: compute_hash_def map_ok_Inr)
    then have "canonical_json E (ve_jsonb E (an_detail e)) = canonical_json E (an_detail e)"
      by (auto simp: audit_preimage_def res_simps)
    then show False using assms(2) e(1) by (simp add: kept_detail_def)
  qed
  then show ?thesis using read by (auto simp: res_simps)
qed

section \<open>Tampering\<close>

definition hashed :: "audit_env \<Rightarrow> (string \<times> int) \<times> audit_row \<Rightarrow> AuditError + string" where
  "hashed E row = and_then (row_to_audit_entry row) (audit_preimage E)"

definition no_collision :: "audit_env \<Rightarrow> audit_db \<Rightarrow> audit_db \<Rightarrow> bool" where
  "no_collision E xs ys \<longleftrightarrow> (\<forall>x\<in>set xs. \<forall>y\<in>set ys. \<forall>p q. hashed E x = Inr p \<longrightarrow> hashed E y = Inr q
     \<longrightarrow> ve_sha256 E p = ve_sha256 E q \<longrightarrow> p = q)"

lemma last_hash_Cons [simp]: "last_hash p (x # xs) = last_hash (Some (lr_hash (snd x))) xs"
  by (simp add: last_hash_def)

lemma verify_rows_Cons:
  "verify_rows E p (row # rows) = Inr True \<longleftrightarrow> (\<exists>h. hashed E row = Inr h \<and> lr_hash (snd row) = ve_sha256 E h)
     \<and> (p = None \<or> lr_prev_hash (snd row) = p) \<and> verify_rows E (Some (lr_hash (snd row))) rows = Inr True"
proof (cases "row_to_audit_entry row")
  case (Inl e)
  then show ?thesis by (simp add: hashed_def)
next
  case (Inr e)
  then show ?thesis using entry_of_row [OF Inr]
    by (cases "audit_preimage E e") (auto simp: hashed_def compute_hash_def)
qed

lemma verify_rows_snoc:
  "verify_rows E p (xs @ [y]) = Inr True \<longleftrightarrow> verify_rows E p xs = Inr True
     \<and> (\<exists>h. hashed E y = Inr h \<and> lr_hash (snd y) = ve_sha256 E h) \<and> (last_hash p xs = None \<or> lr_prev_hash (snd y) = last_hash p xs)"
proof (induction xs arbitrary: p)
  case Nil
  show ?case unfolding append_Nil verify_rows_Cons by (auto simp: last_hash_def)
next
  case (Cons x xs)
  show ?case unfolding append_Cons verify_rows_Cons Cons.IH by simp
qed

lemma hashed_bytes:
  assumes "hashed E row = Inr p"
  obtains body where "p = fst (fst row) @ i64_be_bytes (snd (fst row)) @ body
    @ (case lr_prev_hash (snd row) of Some h \<Rightarrow> h | None \<Rightarrow> GENESIS_HASH)"
  using assms entry_of_row [of row] by (auto simp: hashed_def audit_preimage_def and_then_Inr map_ok_Inr)

lemma be_bytes_inj: "be_bytes k m = be_bytes k n \<Longrightarrow> m < 256 ^ k \<Longrightarrow> n < 256 ^ k \<Longrightarrow> m = n"
proof (induction k arbitrary: m n)
  case (Suc k)
  have "be_bytes k (m div 256) = be_bytes k (n div 256)" "(char_of (m mod 256) :: char) = char_of (n mod 256)"
    using Suc.prems(1) by simp_all
  moreover have "m div 256 < 256 ^ k" "n div 256 < 256 ^ k" using Suc.prems(2,3) by (simp_all add: less_mult_imp_div_less mult.commute)
  ultimately have "m div 256 = n div 256" "of_char (char_of (m mod 256) :: char) = (of_char (char_of (n mod 256) :: char) :: nat)"
    using Suc.IH by simp_all
  then show ?case by (metis of_char_of mod_mod_trivial div_mod_decomp)
qed simp

lemma be_bytes_length [simp]: "length (be_bytes k n) = k"
  by (induction k arbitrary: n) simp_all

lemma seq_bytes_inj:
  assumes "i64_be_bytes m = i64_be_bytes n" and "- (2 ^ 63) \<le> m" "m < 2 ^ 63" "- (2 ^ 63) \<le> n" "n < 2 ^ 63"
  shows "m = n"
proof -
  have "nat (m mod 2 ^ 64) = nat (n mod 2 ^ 64)" using assms(1) unfolding i64_be_bytes_def by (rule be_bytes_inj) auto
  then have "m mod 2 ^ 64 = n mod 2 ^ 64" by (simp add: eq_nat_nat_iff)
  then have "wrap_i64 m = wrap_i64 n" unfolding wrap_i64_def by (metis mod_add_left_eq)
  then show ?thesis using assms(2-5) by (simp add: wrap_i64_id)
qed

lemma hashed_key:
  assumes "hashed E x = Inr p" and "hashed E y = Inr p" and "fst (fst x) = fst (fst y)" and "audit_check x" and "audit_check y"
  shows "fst x = fst y"
proof -
  obtain u v where "p = fst (fst x) @ i64_be_bytes (snd (fst x)) @ u" "p = fst (fst y) @ i64_be_bytes (snd (fst y)) @ v"
    using hashed_bytes [OF assms(1)] hashed_bytes [OF assms(2)] by metis
  then have "i64_be_bytes (snd (fst x)) = i64_be_bytes (snd (fst y))"
    using assms(3) by (auto simp: i64_be_bytes_def append_eq_append_conv)
  then have "snd (fst x) = snd (fst y)" using assms(4,5) by (intro seq_bytes_inj) (auto simp: audit_check_def)
  then show ?thesis using assms(3) by (simp add: prod_eq_iff)
qed

lemma no_collision_butlast: "no_collision E (xs @ [x]) (ys @ [y]) \<Longrightarrow> no_collision E xs ys"
  unfolding no_collision_def set_append by blast

lemma same_end:
  assumes "\<forall>p. length (ve_sha256 E p) = 32"
  shows "\<lbrakk>verify_rows E None xs = Inr True; verify_rows E None ys = Inr True; last_hash None xs = last_hash None ys;
     length xs \<le> length ys; no_collision E xs ys; \<forall>x\<in>set xs \<union> set ys. fst (fst x) = c \<and> audit_check x\<rbrakk>
   \<Longrightarrow> suffix (map (\<lambda>x. (fst x, hashed E x)) xs) (map (\<lambda>x. (fst x, hashed E x)) ys)"
proof (induction xs arbitrary: ys rule: rev_induct)
  case (snoc x xs)
  obtain ys' y where ys: "ys = ys' @ [y]" using snoc.prems(4) by (cases ys rule: rev_cases) auto
  obtain p where p: "hashed E x = Inr p" "lr_hash (snd x) = ve_sha256 E p" "verify_rows E None xs = Inr True"
    "last_hash None xs = None \<or> lr_prev_hash (snd x) = last_hash None xs"
    using snoc.prems(1) by (auto simp: verify_rows_snoc)
  obtain q where q: "hashed E y = Inr q" "lr_hash (snd y) = ve_sha256 E q" "verify_rows E None ys' = Inr True"
    "last_hash None ys' = None \<or> lr_prev_hash (snd y) = last_hash None ys'"
    using snoc.prems(2) ys by (auto simp: verify_rows_snoc)
  have "ve_sha256 E p = ve_sha256 E q" using snoc.prems(3) p(2) q(2) ys by (simp add: last_hash_def)
  then have pq: "p = q" using snoc.prems(5) p(1) q(1) ys by (auto simp: no_collision_def)
  then have key: "fst x = fst y" using hashed_key [of E x p y] p(1) q(1) snoc.prems(6) ys by auto
  have rest: "suffix (map (\<lambda>x. (fst x, hashed E x)) xs) (map (\<lambda>x. (fst x, hashed E x)) ys')"
  proof (cases "xs = []")
    case False
    then have "ys' \<noteq> []" using snoc.prems(4) ys by auto
    have len: "length (lr_hash (snd (last zs))) = 32" if "verify_rows E None zs = Inr True" "zs \<noteq> []" for zs
      using that assms by (cases zs rule: rev_cases) (auto simp: verify_rows_snoc)
    obtain u v where "p = u @ lr_hash (snd (last xs))" "q = v @ lr_hash (snd (last ys'))"
      using hashed_bytes [OF p(1)] hashed_bytes [OF q(1)] p(4) q(4) False \<open>ys' \<noteq> []\<close>
      by (auto simp: last_hash_def) (metis append.assoc)
    then have "lr_hash (snd (last xs)) = lr_hash (snd (last ys'))"
      using pq len [OF p(3) False] len [OF q(3) \<open>ys' \<noteq> []\<close>] by (metis append_eq_append_conv)
    then have "last_hash None xs = last_hash None ys'" using False \<open>ys' \<noteq> []\<close> by (simp add: last_hash_def)
    moreover have "length xs \<le> length ys'" "no_collision E xs ys'" using snoc.prems(4,5) ys no_collision_butlast by auto
    moreover have "\<forall>x\<in>set xs \<union> set ys'. fst (fst x) = c \<and> audit_check x" using snoc.prems(6) ys by simp
    ultimately show ?thesis by (rule snoc.IH [OF p(3) q(3)])
  qed simp
  then show ?case using ys p(1) q(1) pq key by (simp add: suffix_def)
qed simp

text \<open>
  C15: The newest hash of a verified range commits to all of it: of two ranges of a community's chain
  that verify and end in the same hash, in any two states of the table, the shorter is the end of
  the longer, number by number and in every byte that was hashed, unless SHA-256 collides on them.
\<close>

theorem tampering_shows:
  assumes "sql_table_ok audit_check same_hash db" and "sql_table_ok audit_check same_hash db'"
    and "verify_chain E NoFault c a b db = Inr True" and "verify_chain E NoFault c a' b' db' = Inr True"
    and "lr_hash (snd (last (chain_segment c a b db))) = lr_hash (snd (last (chain_segment c a' b' db')))"
    and "length (chain_segment c a b db) \<le> length (chain_segment c a' b' db')"
    and "\<forall>p. length (ve_sha256 E p) = 32" and "no_collision E (chain_segment c a b db) (chain_segment c a' b' db')"
  shows "suffix (map (\<lambda>x. (fst x, hashed E x)) (chain_segment c a b db)) (map (\<lambda>x. (fst x, hashed E x)) (chain_segment c a' b' db'))"
proof -
  have rows: "fst (fst x) = c \<and> x \<in> set d" if "x \<in> set (chain_segment c s t d)" for x s t d
    using that by (simp add: chain_segment_def chain_of_def)
  then have "\<forall>x\<in>set (chain_segment c a b db) \<union> set (chain_segment c a' b' db'). fst (fst x) = c \<and> audit_check x"
    using assms(1,2) by (fastforce simp: sql_table_ok_def list_all_iff)
  then show ?thesis
    using assms(3-8) same_end [OF assms(7), of "chain_segment c a b db" "chain_segment c a' b' db'" c]
    by (auto simp: verify_chain_def last_hash_def split: if_splits)
qed

text \<open>What does not show: that the oldest entries of a chain are gone, and where an object ends and its details begin.\<close>

lemma oldest_removed_unseen:
  "verify_chain E fault c a b (filter (\<lambda>x. \<not> (fst (fst x) = c \<and> row_seq x \<le> k)) db) = verify_chain E fault c (max a (k + 1)) b db"
proof -
  have "chain_segment c a b (filter (\<lambda>x. \<not> (fst (fst x) = c \<and> row_seq x \<le> k)) db) = chain_segment c (max a (k + 1)) b db"
    unfolding chain_segment_def chain_of_def filter_sort filter_filter
    by (rule arg_cong [where f = "sort_key row_seq"], rule filter_cong) auto
  then show ?thesis by (simp add: verify_chain_def)
qed

lemma object_and_detail_run_together:
  assumes "ve_scalar E (JInt 12) = Inr ''12''" and "ve_scalar E (JInt 2) = Inr ''2''"
  shows "compute_hash E (e\<lparr>an_object_id := Some ''x'', an_detail := JInt 12\<rparr>)
    = compute_hash E (e\<lparr>an_object_id := Some ''x1'', an_detail := JInt 2\<rparr>)"
  using assms by (simp add: compute_hash_def audit_preimage_def presence_def)

section \<open>A log of two entries\<close>

definition log_env :: audit_env where
  "log_env = \<lparr>ve_sha256 = (\<lambda>p. replicate 31 CHR ''h'' @ [if 23 < length p then p ! 23 else CHR ''h'']),
     ve_scalar = (\<lambda>_. Inr ''null''), ve_rfc3339 = (\<lambda>_. ''t''), ve_jsonb = (\<lambda>j. j)\<rparr>"

definition log_community :: string where
  "log_community = replicate 16 CHR ''c''"

definition log_request :: "AuditAction \<Rightarrow> NewAuditEntry" where
  "log_request a = \<lparr>nw_community_id = log_community, nw_action = a, nw_actor_pubkey = None, nw_object_id = Some ''o'', nw_detail = JNull\<rparr>"

definition logged_one :: audit_db where
  "logged_one = snd (audit_log_entry log_env (\<lambda>_. NoFault) 5000 (log_request EventCreated) [])"

definition logged_two :: audit_db where
  "logged_two = snd (audit_log_entry log_env (\<lambda>_. NoFault) 6000 (log_request EventDeleted) logged_one)"


lemma be_bytes_numeral [simp]:
  "be_bytes (numeral k) n = be_bytes (pred_numeral k) (n div 256) @ [char_of (n mod 256)]"
  using be_bytes.simps(2) [of "pred_numeral k" n] by (simp only: numeral_eq_Suc [of k, symmetric])

definition log_hash :: "char \<Rightarrow> string" where
  "log_hash x = replicate 31 CHR ''h'' @ [x]"

definition log_row :: "AuditAction \<Rightarrow> string option \<Rightarrow> char \<Rightarrow> int \<Rightarrow> audit_row" where
  "log_row a prev x t = \<lparr>lr_hash = log_hash x, lr_prev_hash = prev, lr_action = action_as_str a, lr_actor_pubkey = None,
     lr_object_id = Some ''o'', lr_detail = JNull, lr_created_at = t\<rparr>"

lemma log_community_length [simp]: "length log_community = 16"
  by (simp add: log_community_def)

lemma log_chars [simp]: "char_of (Suc 0) = CHR 0x01" "char_of (2 :: nat) = CHR 0x02"
  by (simp_all add: char_of_def bit_0)

lemma log_scalar [simp]: "ve_scalar log_env j = Inr ''null''" "ve_jsonb log_env j = j"
  by (simp_all add: log_env_def)

lemma log_entry_hash:
  assumes "an_community_id e = log_community" and "an_seq e \<in> {0..<256}" and "an_detail e = JNull"
  shows "compute_hash log_env e = Inr (log_hash (char_of (nat (an_seq e))))"
proof -
  have "be_bytes 8 n ! 7 = char_of n" if "n < 256" for n using that by (simp add: nth_append)
  moreover have "nat (an_seq e mod 2 ^ 64) = nat (an_seq e)" using assms(2) by simp
  ultimately have "i64_be_bytes (an_seq e) ! 7 = char_of (nat (an_seq e))" using assms(2) by (simp only: i64_be_bytes_def) auto
  moreover have "length (i64_be_bytes (an_seq e)) = 8" by (simp add: i64_be_bytes_def)
  ultimately have "ve_sha256 log_env (log_community @ i64_be_bytes (an_seq e) @ rest) = log_hash (char_of (nat (an_seq e)))" for rest
    by (simp add: log_env_def log_hash_def nth_append)
  then show ?thesis using assms by (simp add: compute_hash_def audit_preimage_def)
qed

lemmas log_simps = audit_log_entry_def log_inner_def audit_entry_for_def chain_head_def chain_of_def log_request_def
  log_entry_hash stored_row_def sql_insert_def audit_check_def same_hash_def log_row_def to_storage_precision_def wrap_i64_def

lemma logged_one_is: "logged_one = [((log_community, 1), log_row EventCreated None CHR 0x01 5000)]"
  by (simp add: logged_one_def log_simps)

lemma logged_two_is: "logged_two = [((log_community, 1), log_row EventCreated None CHR 0x01 5000),
     ((log_community, 2), log_row EventDeleted (Some (log_hash CHR 0x01)) CHR 0x02 6000)]"
  by (simp add: logged_two_def logged_one_is log_simps log_hash_def)


lemma logged_facts:
  "sql_table_ok audit_check same_hash logged_two"
  "chain_segment log_community 2 2 logged_two = [last logged_two]" "chain_segment log_community 1 2 logged_two = logged_two"
  "verify_chain log_env NoFault log_community 2 2 logged_two = Inr True" "verify_chain log_env NoFault log_community 1 2 logged_two = Inr True"
proof -
  show "chain_segment log_community 2 2 logged_two = [last logged_two]" "chain_segment log_community 1 2 logged_two = logged_two"
    by (simp_all add: chain_segment_def chain_of_def logged_two_is)
  show "sql_table_ok audit_check same_hash logged_two"
    by (simp add: sql_table_ok_def keys_ok_def logged_two_is audit_check_def same_hash_def log_row_def log_hash_def)
  show "verify_chain log_env NoFault log_community 2 2 logged_two = Inr True" "verify_chain log_env NoFault log_community 1 2 logged_two = Inr True"
    by (simp_all add: verify_chain_def chain_segment_def chain_of_def logged_two_is row_to_audit_entry_def log_row_def
        audit_action.from_as [of EventCreated, simplified] audit_action.from_as [of EventDeleted, simplified] log_entry_hash)
qed

lemma tampering_shows_witness:
  "suffix (map (\<lambda>x. (fst x, hashed log_env x)) [last logged_two]) (map (\<lambda>x. (fst x, hashed log_env x)) logged_two)"
proof -
  have len: "\<forall>p. length (ve_sha256 log_env p) = 32" by (simp add: log_env_def)
  have hash: "ve_sha256 log_env p = log_hash (char_of (nat (an_seq e)))"
    if "row_to_audit_entry x = Inr e" "hashed log_env x = Inr p" "x \<in> set logged_two" for x e p
  proof -
    have "compute_hash log_env e = Inr (ve_sha256 log_env p)" using that by (simp add: hashed_def compute_hash_def)
    moreover have "an_community_id e = log_community" "an_seq e \<in> {0..<256}" "an_detail e = JNull"
      using entry_of_row [OF that(1)] that(3) by (auto simp: logged_two_is log_row_def)
    ultimately show ?thesis using log_entry_hash [of e] by simp
  qed
  have "no_collision log_env [last logged_two] logged_two"
    unfolding no_collision_def
  proof (intro ballI allI impI)
    fix x y p q
    assume a: "x \<in> set [last logged_two]" "y \<in> set logged_two" "hashed log_env x = Inr p" "hashed log_env y = Inr q"
      "ve_sha256 log_env p = ve_sha256 log_env q"
    then have x: "x \<in> set logged_two" by (simp add: logged_two_is)
    obtain d e where r: "row_to_audit_entry x = Inr d" "row_to_audit_entry y = Inr e" using a by (auto simp: hashed_def and_then_Inr)
    have "(char_of (nat (an_seq d)) :: char) = char_of (nat (an_seq e))"
      using hash [OF r(1) a(3) x] hash [OF r(2) a(4,2)] a(5) by (simp add: log_hash_def)
    then have "x = y" using a(1,2) entry_of_row [OF r(1)] entry_of_row [OF r(2)] by (auto simp: logged_two_is)
    then show "p = q" using a(3,4) by simp
  qed
  then show ?thesis
    using tampering_shows [of logged_two logged_two log_env log_community 2 2 1 2] logged_facts len
    by (simp add: logged_two_is)
qed

end
