(* ===== verification/Http_Auth.thy ===== *)
theory Http_Auth
  imports Nostr_Event Sql_Table
begin

text \<open>
  Signed HTTP requests: the verification of a NIP-98 event (\<open>buzz-auth/src/nip98.rs\<close>) and of the answer to a challenge (\<open>nip42.rs\<close>), the seen-set
  against replay (\<open>nip98_replay.rs\<close> of \<open>buzz-auth\<close> and \<open>buzz-pubsub\<close>), the check the routes that
  take an event once make of both (\<open>api/bridge.rs\<close>, \<open>gateway/mod.rs\<close>) and that of the operator routes
  (\<open>api/operator_auth.rs\<close>). The Git routes (\<open>api/git/transport.rs\<close>) make no such check: Git sends one
  signed event with each request of a session, so they take it as often as it comes while it is fresh. They are not modelled. Instants are milliseconds of one clock, which the relays and Redis share.
  Parsing of JSON, base64 and URLs, SHA-256, the check of a signature and SQL's \<open>lower\<close> are
  parameters, as is Redis. The community of a request is that of its host (\<open>buzz-core/src/tenant.rs\<close>,
  \<open>buzz-relay/src/tenant.rs\<close>). Of an error only the status and the fixed part of its text are kept.
\<close>

section \<open>What is used of the libraries\<close>

record 'u auth_lib =
  hb_unbase64 :: "string \<Rightarrow> string option"
  hb_is_utf8 :: "string \<Rightarrow> bool"
  hb_event_json :: "string \<Rightarrow> nevent option"
  hb_verify_event :: "nevent \<Rightarrow> bool"
  hb_sha256_hex :: "string \<Rightarrow> string"
  hb_url_parse :: "string \<Rightarrow> 'u option"
  hb_url_path :: "'u \<Rightarrow> string"
  hb_url_set_path :: "string \<Rightarrow> 'u \<Rightarrow> 'u"
  hb_url_show :: "'u \<Rightarrow> string"
  hb_lowercase :: "string \<Rightarrow> string"
  hb_pubkey_from_hex :: "string \<Rightarrow> pubkey option"
  hb_url_authority :: "'u \<Rightarrow> (string \<times> nat option) option"
  hb_url_host_str :: "'u \<Rightarrow> string option"
  hb_url_set_host :: "string \<Rightarrow> 'u \<Rightarrow> 'u"
  hb_sql_lower :: "string \<Rightarrow> string"

text \<open>\<open>SET key 1 NX EX ttl\<close> at an instant: whether it replied \<open>OK\<close>; and until when a key is held.\<close>

record 'r seen_lib =
  sn_set_nx_ex :: "nat \<Rightarrow> string \<Rightarrow> nat \<Rightarrow> 'r \<Rightarrow> bool \<times> 'r"
  sn_until :: "string \<Rightarrow> 'r \<Rightarrow> nat option"

datatype AuthError = InvalidSignature | ChallengeMismatch | RelayUrlMismatch | EventExpired | Nip98Invalid string
  | Nip98Replay | PubkeyMismatch | InsufficientScope string "string list" | ChannelAccessDenied | AuthInternal string

datatype http_error = HttpError nat string

section \<open>Verifying an event\<close>

definition TIMESTAMP_TOLERANCE_SECS :: nat where
  "TIMESTAMP_TOLERANCE_SECS = 60"

definition trim_end_slashes :: "string \<Rightarrow> string" where
  "trim_end_slashes s = rev (dropWhile (\<lambda>c. c = CHR ''/'') (rev s))"

definition normalize_url :: "'u auth_lib \<Rightarrow> string \<Rightarrow> string" where
  "normalize_url H raw = (case hb_url_parse H raw of
       Some u \<Rightarrow> hb_url_show H (hb_url_set_path H (trim_end_slashes (hb_url_path H u)) u)
     | None \<Rightarrow> hb_lowercase H raw)"

definition first_content :: "string \<Rightarrow> nevent \<Rightarrow> string option" where
  "first_content name ev = Option.bind (find (\<lambda>t. tag_kind t = name) (ev_tags ev)) tag_content"

definition secs_diff :: "nat \<Rightarrow> nat \<Rightarrow> nat" where
  "secs_diff a b = (if a < b then b - a else a - b)"

text \<open>The checks on a parsed event, in their order.\<close>

definition check_nip98 :: "'u auth_lib \<Rightarrow> nat \<Rightarrow> string \<Rightarrow> string \<Rightarrow> string option \<Rightarrow> nevent \<Rightarrow> AuthError + pubkey" where
  "check_nip98 H now expected_url expected_method body ev =
     (if ev_kind ev \<noteq> 27235 then Inl (Nip98Invalid ''expected kind 27235'')
      else if \<not> hb_verify_event H ev then Inl (Nip98Invalid ''invalid Schnorr signature'')
      else if TIMESTAMP_TOLERANCE_SECS < secs_diff (now div 1000) (ev_created_at ev)
      then Inl (Nip98Invalid ''event timestamp outside window'')
      else (case first_content ''u'' ev of
          None \<Rightarrow> Inl (Nip98Invalid ''missing u tag'')
        | Some u \<Rightarrow>
            if normalize_url H u \<noteq> normalize_url H expected_url then Inl (Nip98Invalid ''URL mismatch'')
            else (case first_content ''method'' ev of
                None \<Rightarrow> Inl (Nip98Invalid ''missing method tag'')
              | Some m \<Rightarrow>
                  if \<not> eq_ignore_ascii_case m expected_method then Inl (Nip98Invalid ''method mismatch'')
                  else (case (first_content ''payload'' ev, body) of
                      (Some hash, Some bytes) \<Rightarrow>
                        if hb_sha256_hex H bytes \<noteq> hash then Inl (Nip98Invalid ''payload tag SHA-256 mismatch'')
                        else Inr (ev_pubkey ev)
                    | _ \<Rightarrow> Inr (ev_pubkey ev)))))"

definition verify_nip98_event ::
  "'u auth_lib \<Rightarrow> nat \<Rightarrow> string \<Rightarrow> string \<Rightarrow> string \<Rightarrow> string option \<Rightarrow> AuthError + pubkey" where
  "verify_nip98_event H now event_json expected_url expected_method body =
     (case hb_event_json H event_json of
        None \<Rightarrow> Inl (Nip98Invalid ''event JSON parse error'')
      | Some ev \<Rightarrow> check_nip98 H now expected_url expected_method body ev)"

section \<open>The challenge of a connection\<close>

text \<open>NIP-42 (\<open>nip42.rs\<close>), with the same tolerance. A host that cannot be set is left as it is.\<close>

definition normalize_relay_url :: "'u auth_lib \<Rightarrow> string \<Rightarrow> string" where
  "normalize_relay_url H raw = (case hb_url_parse H raw of
       None \<Rightarrow> raw
     | Some parsed \<Rightarrow>
         let parsed = (if hb_url_host_str H parsed \<in> {Some ''localhost'', Some ''::1''} then hb_url_set_host H ''127.0.0.1'' parsed else parsed)
         in hb_url_show H (hb_url_set_path H (trim_end_slashes (hb_url_path H parsed)) parsed))"

definition verify_nip42_event :: "'u auth_lib \<Rightarrow> nat \<Rightarrow> nevent \<Rightarrow> string \<Rightarrow> string \<Rightarrow> AuthError + unit" where
  "verify_nip42_event H now ev expected_challenge relay_url =
     (if ev_kind ev \<noteq> 22242 then Inl InvalidSignature
      else if \<not> hb_verify_event H ev then Inl InvalidSignature
      else (case first_content ''challenge'' ev of
          None \<Rightarrow> Inl ChallengeMismatch
        | Some challenge \<Rightarrow>
            if challenge \<noteq> expected_challenge then Inl ChallengeMismatch
            else (case first_content ''relay'' ev of
                None \<Rightarrow> Inl RelayUrlMismatch
              | Some relay \<Rightarrow>
                  if normalize_relay_url H relay \<noteq> normalize_relay_url H relay_url then Inl RelayUrlMismatch
                  else if TIMESTAMP_TOLERANCE_SECS < secs_diff (now div 1000) (ev_created_at ev) then Inl EventExpired
                  else Inr ())))"

section \<open>The seen-set\<close>

definition DEFAULT_REPLAY_TTL_SECS :: nat where "DEFAULT_REPLAY_TTL_SECS = 120"
definition MAX_REPLAY_TTL_SECS :: nat where "MAX_REPLAY_TTL_SECS = 3600"

definition nip98_replay_key_for_scope :: "string \<Rightarrow> string \<Rightarrow> string" where
  "nip98_replay_key_for_scope scope event_id = ''buzz:'' @ scope @ '':nip98:'' @ event_id"

definition nip98_replay_key :: "string \<Rightarrow> string \<Rightarrow> string" where
  "nip98_replay_key community event_id = nip98_replay_key_for_scope community event_id"

definition clamp :: "nat \<Rightarrow> nat \<Rightarrow> nat \<Rightarrow> nat" where
  "clamp lo hi n = (if n < lo then lo else if hi < n then hi else n)"

definition try_mark_in_scope ::
  "'r seen_lib \<Rightarrow> db_fault \<Rightarrow> nat \<Rightarrow> string \<Rightarrow> string \<Rightarrow> nat \<Rightarrow> 'r \<Rightarrow> (AuthError + bool) \<times> 'r" where
  "try_mark_in_scope R fault now scope event_id ttl_secs r =
     (let (ok, r') = sn_set_nx_ex R now (nip98_replay_key_for_scope scope event_id)
            (clamp DEFAULT_REPLAY_TTL_SECS MAX_REPLAY_TTL_SECS ttl_secs) r
      in case fault of
           NotSent \<Rightarrow> (Inl (AuthInternal ''Redis pool''), r)
         | AnswerLost \<Rightarrow> (Inl (AuthInternal ''Redis SET NX EX''), r')
         | NoFault \<Rightarrow> (Inr ok, r'))"

text \<open>\<open>community\<close> is the text of the community's identifier.\<close>

definition try_mark ::
  "'r seen_lib \<Rightarrow> db_fault \<Rightarrow> nat \<Rightarrow> string \<Rightarrow> string \<Rightarrow> nat \<Rightarrow> 'r \<Rightarrow> (AuthError + bool) \<times> 'r" where
  "try_mark R fault now community event_id ttl_secs r = try_mark_in_scope R fault now community event_id ttl_secs r"

definition ZERO_EVENT_ID :: string where
  "ZERO_EVENT_ID = replicate 64 CHR ''0''"

definition check_nip98_replay ::
  "'r seen_lib \<Rightarrow> db_fault \<Rightarrow> nat \<Rightarrow> string \<Rightarrow> string \<Rightarrow> 'r \<Rightarrow> (http_error + unit) \<times> 'r" where
  "check_nip98_replay R fault now community event_id r =
     (if event_id = ZERO_EVENT_ID then (Inr (), r)
      else (case try_mark R fault now community event_id DEFAULT_REPLAY_TTL_SECS r of
          (Inr True, r') \<Rightarrow> (Inr (), r')
        | (Inr False, r') \<Rightarrow> (Inl (HttpError 401 ''NIP-98: replay detected''), r')
        | (Inl _, r') \<Rightarrow> (Inl (HttpError 401 ''NIP-98: replay check unavailable''), r')))"

section \<open>What a route asks\<close>

text \<open>Headers whose value is text, by lower-case name.\<close>

type_synonym headers = "string \<Rightarrow> string option"

definition nip98_auth ::
  "'u auth_lib \<Rightarrow> nat \<Rightarrow> string \<Rightarrow> string \<Rightarrow> string \<Rightarrow> string option \<Rightarrow> bool \<Rightarrow> http_error + pubkey \<times> string" where
  "nip98_auth H now auth_str meth url body require_payload =
     and_then (ok_or (HttpError 401 ''invalid base64 in Nostr auth'') (hb_unbase64 H auth_str)) (\<lambda>event_json.
     if \<not> hb_is_utf8 H event_json then Inl (HttpError 401 ''invalid UTF-8 in Nostr auth'')
     else and_then (ok_or (HttpError 401 ''invalid NIP-98 event JSON'') (hb_event_json H event_json)) (\<lambda>ev.
       if require_payload \<and> \<not> list_ex (\<lambda>t. tag_kind t = ''payload'') (ev_tags ev)
       then Inl (HttpError 401 ''NIP-98: missing payload tag'')
       else map_ok (\<lambda>pubkey. (pubkey, ev_id ev))
              (map_err (\<lambda>_. HttpError 401 ''NIP-98: '') (verify_nip98_event H now event_json url meth body))))"

definition verify_bridge_auth_with_options ::
  "'u auth_lib \<Rightarrow> nat \<Rightarrow> headers \<Rightarrow> string \<Rightarrow> string \<Rightarrow> string option \<Rightarrow> bool \<Rightarrow> bool \<Rightarrow> http_error + pubkey \<times> string" where
  "verify_bridge_auth_with_options H now hs meth url body require_auth_token require_payload =
     (case Option.bind (hs ''authorization'') (strip_prefix ''Nostr '') of
        Some auth_str \<Rightarrow> nip98_auth H now auth_str meth url body require_payload
      | None \<Rightarrow>
          if require_auth_token then Inl (HttpError 401 ''missing Nostr auth'')
          else (case hs ''x-pubkey'' of
              Some hex_val \<Rightarrow> map_ok (\<lambda>pk. (pk, ZERO_EVENT_ID)) (ok_or (HttpError 401 ''invalid X-Pubkey hex'') (hb_pubkey_from_hex H hex_val))
            | None \<Rightarrow> Inl (HttpError 401 ''missing Nostr auth'')))"

definition verify_bridge_auth where
  "verify_bridge_auth H now hs meth url body require_auth_token =
     verify_bridge_auth_with_options H now hs meth url body require_auth_token False"

definition nip98_expected_url :: "string \<Rightarrow> string \<Rightarrow> string \<Rightarrow> string" where
  "nip98_expected_url config_relay_url host path =
     (if starts_with (trim_start config_relay_url) ''wss://'' then ''https'' else ''http'') @ ''://'' @ host @ path"

definition nip42_expected_relay_url :: "string \<Rightarrow> string \<Rightarrow> string" where
  "nip42_expected_relay_url config_relay_url host =
     (if starts_with (trim_start config_relay_url) ''wss://'' then ''wss'' else ''ws'') @ ''://'' @ host"

section \<open>The community of a host\<close>

text \<open>A community is the text of its identifier, as it is written in keys.\<close>

record TenantContext =
  tn_community :: string
  tn_host :: string

record community_host =
  ch_id :: string
  ch_host :: string
  ch_archived :: bool

datatype BindError = UnmappedHost | Lookup DbError

definition strip_suffix :: "string \<Rightarrow> string \<Rightarrow> string option" where
  "strip_suffix p s = (if drop (length s - length p) s = p then Some (take (length s - length p) s) else None)"

definition normalize_host :: "string \<Rightarrow> string" where
  "normalize_host raw =
     (let host = to_ascii_lowercase (trim raw);
          host = (case strip_suffix '':443'' host of Some stripped \<Rightarrow> stripped
                  | None \<Rightarrow> (case strip_suffix '':80'' host of Some stripped \<Rightarrow> stripped | None \<Rightarrow> host))
      in case strip_suffix ''.'' host of Some stripped \<Rightarrow> stripped | None \<Rightarrow> host)"

text \<open>\<open>hb_url_authority\<close> is \<open>host()\<close>, an IPv6 address in brackets, with \<open>port()\<close>.\<close>

definition relay_url_authority :: "'u auth_lib \<Rightarrow> string \<Rightarrow> string" where
  "relay_url_authority H relay_url = (case Option.bind (hb_url_parse H relay_url) (hb_url_authority H) of
       None \<Rightarrow> []
     | Some (host, port) \<Rightarrow> normalize_host (case port of Some p \<Rightarrow> host @ '':'' @ show_nat p | None \<Rightarrow> host))"

definition lookup_community_by_host :: "'u auth_lib \<Rightarrow> string \<Rightarrow> community_host list \<Rightarrow> community_host option" where
  "lookup_community_by_host H host rows =
     find (\<lambda>c. hb_sql_lower H (ch_host c) = hb_sql_lower H host \<and> \<not> ch_archived c) rows"

text \<open>What the lookup of each host meets: whether it fails, and the table it sees.\<close>

type_synonym hosts_seen = "string \<Rightarrow> db_fault \<times> community_host list"

definition resolve_host :: "'u auth_lib \<Rightarrow> hosts_seen \<Rightarrow> string \<Rightarrow> DbError + string option" where
  "resolve_host H seen host = (case seen host of (fault, rows) \<Rightarrow>
     map_ok (map_option ch_id) (sql_read fault (lookup_community_by_host H host rows)))"

definition LOOPBACK_HOSTS :: "string list" where
  "LOOPBACK_HOSTS = [''localhost'', ''127.0.0.1'', ''[::1]'']"

text \<open>\<open>rsplit_once(':')\<close> gives the parts beside the last colon.\<close>

definition split_port :: "string \<Rightarrow> string \<times> string" where
  "split_port authority = (case split_once (CHR '':'') (rev authority) of
       Some (port, host) \<Rightarrow> if port \<noteq> [] \<and> list_all is_ascii_digit port then (rev host, '':'' @ rev port) else (authority, [])
     | None \<Rightarrow> (authority, []))"

fun try_aliases :: "(string \<Rightarrow> DbError + string option) \<Rightarrow> string \<Rightarrow> string list \<Rightarrow> BindError + TenantContext" where
  "try_aliases resolver port [] = Inl UnmappedHost"
| "try_aliases resolver port (alias # aliases) = (case resolver (alias @ port) of
       Inr (Some community) \<Rightarrow> Inr \<lparr>tn_community = community, tn_host = alias @ port\<rparr>
     | Inr None \<Rightarrow> try_aliases resolver port aliases
     | Inl e \<Rightarrow> Inl (Lookup e))"

definition resolve_loopback_alias :: "(string \<Rightarrow> DbError + string option) \<Rightarrow> string \<Rightarrow> BindError + TenantContext" where
  "resolve_loopback_alias resolver host = (case split_port host of (bare, port) \<Rightarrow>
     if bare \<notin> set LOOPBACK_HOSTS then Inl UnmappedHost
     else try_aliases resolver port (filter (\<lambda>candidate. candidate \<noteq> bare) LOOPBACK_HOSTS))"

definition bind_community :: "(string \<Rightarrow> DbError + string option) \<Rightarrow> string \<Rightarrow> BindError + TenantContext" where
  "bind_community resolver raw_host =
     (let host = normalize_host raw_host
      in if host = [] then Inl UnmappedHost
         else (case resolver host of
             Inr (Some community) \<Rightarrow> Inr \<lparr>tn_community = community, tn_host = host\<rparr>
           | Inr None \<Rightarrow> resolve_loopback_alias resolver host
           | Inl e \<Rightarrow> Inl (Lookup e)))"

definition bind_deployment_community ::
  "'u auth_lib \<Rightarrow> (string \<Rightarrow> DbError + string option) \<Rightarrow> string \<Rightarrow> BindError + TenantContext" where
  "bind_deployment_community H resolver relay_url = bind_community resolver (relay_url_authority H relay_url)"

section \<open>A request\<close>

text \<open>A request, with the instants of its verification and of its marking.\<close>

record http_request =
  rq_headers :: headers
  rq_method :: string
  rq_path :: string
  rq_body :: "string option"
  rq_require_payload :: bool
  rq_verified_at :: nat
  rq_marked_at :: nat
  rq_fault :: db_fault
  rq_hosts :: hosts_seen

text \<open>
  \<open>authenticate\<close> of the model gateway. The routes of \<open>api/bridge.rs\<close>, \<open>api/payments.rs\<close>, \<open>api/invites.rs\<close>,
  \<open>api/self_provisioning.rs\<close>, \<open>api/provisioned_employees.rs\<close> and \<open>discovery_gateway.rs\<close> make the same calls in this order, with
  their own method, path and demand for a payload, the ones of the bridge with others in between. The Git routes do not.
\<close>

definition authenticate ::
  "'u auth_lib \<Rightarrow> 'r seen_lib \<Rightarrow> string \<Rightarrow> http_request \<Rightarrow> 'r
   \<Rightarrow> (http_error + TenantContext \<times> pubkey) \<times> 'r" where
  "authenticate H R relay_url q r =
     (case bind_community (resolve_host H (rq_hosts q)) (case rq_headers q ''host'' of Some h \<Rightarrow> h | None \<Rightarrow> []) of
        Inl _ \<Rightarrow> (Inl (HttpError 404 ''relay: no community is configured for this host''), r)
      | Inr tenant \<Rightarrow>
          (case verify_bridge_auth_with_options H (rq_verified_at q) (rq_headers q) (rq_method q)
                  (nip98_expected_url relay_url (tn_host tenant) (rq_path q)) (rq_body q) True (rq_require_payload q) of
             Inl e \<Rightarrow> (Inl e, r)
           | Inr (pubkey, event_id) \<Rightarrow>
               map_prod (map_ok (\<lambda>_. (tenant, pubkey))) id
                 (check_nip98_replay R (rq_fault q) (rq_marked_at q) (tn_community tenant) event_id r)))"

section \<open>Operator routes\<close>

definition OPERATOR_MANAGEMENT_REPLAY_SCOPE :: string where "OPERATOR_MANAGEMENT_REPLAY_SCOPE = ''operator-management''"
definition OPERATOR_ANALYTICS_REPLAY_SCOPE :: string where "OPERATOR_ANALYTICS_REPLAY_SCOPE = ''operator-analytics''"

definition canonical_operator_url :: "string \<Rightarrow> string \<Rightarrow> string option \<Rightarrow> string" where
  "canonical_operator_url origin path raw_query = (case raw_query of
       Some query \<Rightarrow> (if query \<noteq> [] then origin @ path @ ''?'' @ query else origin @ path)
     | None \<Rightarrow> origin @ path)"

definition check_operator_replay ::
  "'r seen_lib \<Rightarrow> db_fault \<Rightarrow> nat \<Rightarrow> string \<Rightarrow> string \<Rightarrow> 'r \<Rightarrow> (http_error + unit) \<times> 'r" where
  "check_operator_replay R fault now scope event_id r =
     (case try_mark_in_scope R fault now scope event_id DEFAULT_REPLAY_TTL_SECS r of
        (Inr True, r') \<Rightarrow> (Inr (), r')
      | (Inr False, r') \<Rightarrow> (Inl (HttpError 401 ''NIP-98: replay detected''), r')
      | (Inl _, r') \<Rightarrow> (Inl (HttpError 401 ''NIP-98: replay check unavailable''), r'))"

definition verify_operator_request ::
  "'u auth_lib \<Rightarrow> 'r seen_lib \<Rightarrow> string option \<Rightarrow> string option \<Rightarrow> string \<Rightarrow> http_request \<Rightarrow> 'r \<Rightarrow> (http_error + pubkey) \<times> 'r" where
  "verify_operator_request H R operator_origin raw_query scope q r =
     (case operator_origin of
        None \<Rightarrow> (Inl (HttpError 500 ''internal server error''), r)
      | Some origin \<Rightarrow>
          (case verify_bridge_auth_with_options H (rq_verified_at q) (rq_headers q) (rq_method q)
                  (canonical_operator_url origin (rq_path q) raw_query) (rq_body q) True (rq_body q \<noteq> None) of
             Inl e \<Rightarrow> (Inl e, r)
           | Inr (pubkey, event_id) \<Rightarrow>
               map_prod (map_ok (\<lambda>_. pubkey)) id (check_operator_replay R (rq_fault q) (rq_marked_at q) scope event_id r)))"

definition operator_is_allowed :: "string list \<Rightarrow> pubkey \<Rightarrow> bool" where
  "operator_is_allowed operators pubkey \<longleftrightarrow> list_ex (\<lambda>configured. configured = pubkey) operators"

definition authorize_operator_request ::
  "'u auth_lib \<Rightarrow> 'r seen_lib \<Rightarrow> string option \<Rightarrow> string list \<Rightarrow> string option \<Rightarrow> string \<Rightarrow> http_request \<Rightarrow> 'r
   \<Rightarrow> (http_error + pubkey) \<times> 'r" where
  "authorize_operator_request H R operator_origin operators raw_query scope q r =
     (case verify_operator_request H R operator_origin raw_query scope q r of
        (Inl e, r') \<Rightarrow> (Inl e, r')
      | (Inr pubkey, r') \<Rightarrow>
          if operator_is_allowed operators pubkey then (Inr pubkey, r')
          else (Inl (HttpError 403 ''actor not authorized: not a relay operator''), r'))"

section \<open>One use of an event\<close>

text \<open>
  What is documented of \<open>SET NX EX\<close>: a key that is held keeps the command from doing anything, a key
  that is not is held for the seconds asked for, and no other key is touched. At the very instant a
  hold runs out either may happen.
\<close>

definition seen_law :: "'r seen_lib \<Rightarrow> bool" where
  "seen_law R \<longleftrightarrow> (\<forall>now k ttl r. case sn_set_nx_ex R now k ttl r of (ok, r') \<Rightarrow>
     (\<forall>j. sn_until R j r' = (if ok \<and> j = k then Some (now + 1000 * ttl) else sn_until R j r))
     \<and> (\<forall>d. sn_until R k r = Some d \<longrightarrow> (now < d \<longrightarrow> \<not> ok) \<and> (d < now \<longrightarrow> ok)) \<and> (sn_until R k r = None \<longrightarrow> ok))"

lemma mark_done:
  assumes "seen_law R" and "try_mark_in_scope R f now c i ttl r = (res, r')"
  shows "sn_until R (nip98_replay_key_for_scope c i) r = Some d \<Longrightarrow> now < d \<Longrightarrow> res \<noteq> Inr True \<and> (\<forall>j. sn_until R j r' = sn_until R j r)"
    and "res = Inr True \<Longrightarrow> sn_until R (nip98_replay_key_for_scope c i) r' = Some (now + 1000 * clamp DEFAULT_REPLAY_TTL_SECS MAX_REPLAY_TTL_SECS ttl)"
    and "j \<noteq> nip98_replay_key_for_scope c i \<Longrightarrow> sn_until R j r' = sn_until R j r"
proof -
  obtain ok r1 where s: "sn_set_nx_ex R now (nip98_replay_key_for_scope c i) (clamp DEFAULT_REPLAY_TTL_SECS MAX_REPLAY_TTL_SECS ttl) r = (ok, r1)"
    by fastforce
  note law = assms(1) [unfolded seen_law_def, THEN spec [of _ now], THEN spec [of _ "nip98_replay_key_for_scope c i"],
      THEN spec [of _ "clamp DEFAULT_REPLAY_TTL_SECS MAX_REPLAY_TTL_SECS ttl"], THEN spec [of _ r], unfolded s prod.case]
  have res: "res = Inr True \<longleftrightarrow> f = NoFault \<and> ok" "r' = (if f = NotSent then r else r1)"
    using assms(2) s by (cases f; auto simp: try_mark_in_scope_def)+
  show "sn_until R (nip98_replay_key_for_scope c i) r = Some d \<Longrightarrow> now < d \<Longrightarrow> res \<noteq> Inr True \<and> (\<forall>j. sn_until R j r' = sn_until R j r)"
    "res = Inr True \<Longrightarrow> sn_until R (nip98_replay_key_for_scope c i) r' = Some (now + 1000 * clamp DEFAULT_REPLAY_TTL_SECS MAX_REPLAY_TTL_SECS ttl)"
    "j \<noteq> nip98_replay_key_for_scope c i \<Longrightarrow> sn_until R j r' = sn_until R j r"
    using res law by auto
qed

text \<open>Requests of anyone, in the order in which they reach the seen-set, on any relays; what each was answered.\<close>

fun authenticate_all ::
  "'u auth_lib \<Rightarrow> 'r seen_lib \<Rightarrow> string \<Rightarrow> http_request list \<Rightarrow> 'r
   \<Rightarrow> (http_request \<times> (http_error + TenantContext \<times> pubkey)) list" where
  "authenticate_all H R relay_url [] r = []"
| "authenticate_all H R relay_url (q # qs) r =
     (case authenticate H R relay_url q r of (res, r') \<Rightarrow> (q, res) # authenticate_all H R relay_url qs r')"

text \<open>The event a request carries.\<close>

definition carried :: "'u auth_lib \<Rightarrow> http_request \<Rightarrow> nevent option" where
  "carried H q = Option.bind (Option.bind (Option.bind (rq_headers q ''authorization'') (strip_prefix ''Nostr '')) (hb_unbase64 H))
     (hb_event_json H)"

lemma nip98_auth_done:
  "nip98_auth H now auth_str meth url body payload = Inr (pk, i) \<Longrightarrow>
     \<exists>json ev. hb_unbase64 H auth_str = Some json \<and> hb_event_json H json = Some ev \<and> check_nip98 H now url meth body ev = Inr pk \<and> i = ev_id ev"
  by (auto simp: nip98_auth_def res_simps verify_nip98_event_def split: if_splits)

lemma authenticated:
  assumes "authenticate H R relay_url q r = (Inr (tenant, pk), r')"
  shows "\<exists>ev. carried H q = Some ev
     \<and> check_nip98 H (rq_verified_at q) (nip98_expected_url relay_url (tn_host tenant) (rq_path q)) (rq_method q) (rq_body q) ev = Inr pk
     \<and> check_nip98_replay R (rq_fault q) (rq_marked_at q) (tn_community tenant) (ev_id ev) r = (Inr (), r')"
proof -
  let ?url = "nip98_expected_url relay_url (tn_host tenant) (rq_path q)"
  obtain i where v: "verify_bridge_auth_with_options H (rq_verified_at q) (rq_headers q) (rq_method q) ?url (rq_body q) True
      (rq_require_payload q) = Inr (pk, i)" and m: "check_nip98_replay R (rq_fault q) (rq_marked_at q) (tn_community tenant) i r = (Inr (), r')"
    using assms by (auto simp: authenticate_def map_prod_def map_ok_Inr split: option.splits sum.splits prod.splits)
  obtain auth_str where a: "Option.bind (rq_headers q ''authorization'') (strip_prefix ''Nostr '') = Some auth_str"
    "nip98_auth H (rq_verified_at q) auth_str (rq_method q) ?url (rq_body q) (rq_require_payload q) = Inr (pk, i)"
    using v by (auto simp: verify_bridge_auth_with_options_def split: option.splits)
  show ?thesis using nip98_auth_done [OF a(2)] a(1) m by (auto simp: carried_def)
qed

lemma check_nip98_done:
  "check_nip98 H now url meth body ev = Inr pk \<Longrightarrow> pk = ev_pubkey ev \<and> ev_kind ev = 27235 \<and> hb_verify_event H ev
     \<and> now div 1000 \<le> ev_created_at ev + 60 \<and> ev_created_at ev \<le> now div 1000 + 60"
  by (auto simp: check_nip98_def secs_diff_def TIMESTAMP_TOLERANCE_SECS_def split: if_splits option.splits)

lemma mark_keeps:
  assumes "seen_law R" and "sn_until R k r = Some d" and "now < d" and "try_mark_in_scope R f now c i ttl r = (res, r')"
  shows "sn_until R k r' = Some d"
  using mark_done(1) [OF assms(1,4)] mark_done(3) [OF assms(1,4)] assms(2,3)
  by (cases "k = nip98_replay_key_for_scope c i") auto

lemma replay_check_keeps:
  assumes "seen_law R" and "sn_until R k r = Some d" and "now < d"
  shows "sn_until R k (snd (check_nip98_replay R f now c i r)) = Some d"
proof -
  obtain res r' where m: "try_mark_in_scope R f now c i DEFAULT_REPLAY_TTL_SECS r = (res, r')" by fastforce
  show ?thesis using mark_keeps [OF assms m] m assms(2) by (simp add: check_nip98_replay_def try_mark_def split: sum.split bool.split)
qed

lemma authenticate_keeps:
  assumes "seen_law R" and "sn_until R k r = Some d" and "rq_marked_at q < d"
  shows "sn_until R k (snd (authenticate H R relay_url q r)) = Some d"
  using replay_check_keeps [OF assms] assms(2) by (simp add: authenticate_def split: option.split sum.split)

lemma replay_checked:
  assumes "check_nip98_replay R f now c i r = (Inr (), r')" and "i \<noteq> ZERO_EVENT_ID"
  shows "try_mark_in_scope R f now c i DEFAULT_REPLAY_TTL_SECS r = (Inr True, r')"
  using assms by (auto simp: check_nip98_replay_def try_mark_def split: prod.splits sum.splits bool.splits)

lemma held_event_refused:
  assumes "seen_law R" and "sn_until R (nip98_replay_key_for_scope c i) r = Some d" and "i \<noteq> ZERO_EVENT_ID"
    and "sorted (map rq_marked_at qs)"
    and "(q, Inr (tenant, pk)) \<in> set (authenticate_all H R relay_url qs r)" and "tn_community tenant = c"
    and "carried H q = Some ev" and "ev_id ev = i"
  shows "d \<le> rq_marked_at q"
  using assms(2,4,5)
proof (induction qs arbitrary: r)
  case (Cons q' qs)
  let ?k = "nip98_replay_key_for_scope c i"
  obtain res r' where a: "authenticate H R relay_url q' r = (res, r')" by fastforce
  show ?case
  proof (cases "d \<le> rq_marked_at q'")
    case True
    have "q \<in> set (q' # qs)"
    proof -
      have "q \<in> fst ` set (authenticate_all H R relay_url qs s) \<Longrightarrow> q \<in> set qs" for s
        by (induction qs arbitrary: s) (auto split: prod.splits)
      then show ?thesis using Cons.prems(3) a by force
    qed
    then show ?thesis using True Cons.prems(2) by auto
  next
    case False
    have keep: "sn_until R ?k r' = Some d"
      using authenticate_keeps [OF assms(1) Cons.prems(1), of q' H relay_url] a False by simp
    have "(q, Inr (tenant, pk)) \<noteq> (q', res)"
    proof
      assume "(q, Inr (tenant, pk)) = (q', res)"
      then have "check_nip98_replay R (rq_fault q') (rq_marked_at q') c i r = (Inr (), r')"
        using authenticated [of H R relay_url q' r tenant pk r'] a assms(6-8) by auto
      from replay_checked [OF this assms(3)] show False using mark_done(1) [OF assms(1)] Cons.prems(1) False by fastforce
    qed
    then have "(q, Inr (tenant, pk)) \<in> set (authenticate_all H R relay_url qs r')" using Cons.prems(3) a by auto
    then show ?thesis using Cons.IH [of r'] keep Cons.prems(2) by simp
  qed
qed simp

lemma answered_at:
  assumes "n < length qs" and "authenticate_all H R relay_url qs r ! n = (q, res)"
  shows "\<exists>s s'. q = qs ! n \<and> authenticate H R relay_url q s = (res, s')
     \<and> drop (Suc n) (authenticate_all H R relay_url qs r) = authenticate_all H R relay_url (drop (Suc n) qs) s'"
  using assms
proof (induction qs arbitrary: r n)
  case (Cons q1 qs)
  obtain res1 r1 where a: "authenticate H R relay_url q1 r = (res1, r1)" by fastforce
  show ?case using Cons.prems a Cons.IH [of _ r1] by (cases n) auto
qed simp

lemma answers_length: "length (authenticate_all H R relay_url qs r) = length qs"
  by (induction qs arbitrary: r) (auto split: prod.split)

lemma honoured_is_held:
  assumes "seen_law R" and "authenticate H R relay_url q r = (Inr (tenant, pk), r')" and "carried H q = Some ev"
    and "ev_id ev \<noteq> ZERO_EVENT_ID"
  shows "sn_until R (nip98_replay_key_for_scope (tn_community tenant) (ev_id ev)) r' = Some (rq_marked_at q + 120000)"
proof -
  have "check_nip98_replay R (rq_fault q) (rq_marked_at q) (tn_community tenant) (ev_id ev) r = (Inr (), r')"
    using authenticated [OF assms(2)] assms(3) by auto
  from mark_done(2) [OF assms(1) replay_checked [OF this assms(4)]] show ?thesis
    by (simp add: clamp_def DEFAULT_REPLAY_TTL_SECS_def MAX_REPLAY_TTL_SECS_def)
qed

text \<open>
  C16: On the routes that check for replay, those that call \<open>authenticate\<close> or repeat it, a signed request
  is honoured once: however requests of anyone reach these routes on the relays of a deployment,
  with any delays and failures of Redis, an event that was accepted is accepted again in that community only
  120 seconds after it was first marked, when the last second in which it is fresh has begun, and on a request that was
  verified before this second was over. Both times it is a verified event of the signer the request is
  attributed to. The Git routes are outside this: they accept one event for every request of a session.
\<close>

theorem request_honoured_once:
  assumes "seen_law R" and "sorted (map rq_marked_at qs)" and "m < n" and "n < length qs"
    and "authenticate_all H R relay_url qs r ! m = (q, Inr (tenant, pk))"
    and "authenticate_all H R relay_url qs r ! n = (q', Inr (tenant', pk'))"
    and "tn_community tenant' = tn_community tenant" and "carried H q = Some ev" and "carried H q' = Some ev"
    and "ev_id ev \<noteq> ZERO_EVENT_ID" and "rq_verified_at q \<le> rq_marked_at q"
  shows "rq_marked_at q + 120000 \<le> rq_marked_at q'
     \<and> 1000 * (ev_created_at ev + 60) \<le> rq_marked_at q' \<and> rq_verified_at q' < 1000 * (ev_created_at ev + 61)
     \<and> pk = ev_pubkey ev \<and> pk' = ev_pubkey ev \<and> hb_verify_event H ev"
proof -
  obtain s s' where first: "authenticate H R relay_url q s = (Inr (tenant, pk), s')"
    and rest: "drop (Suc m) (authenticate_all H R relay_url qs r) = authenticate_all H R relay_url (drop (Suc m) qs) s'"
    using answered_at [OF _ assms(5)] assms(3,4) by auto
  obtain t t' where second: "authenticate H R relay_url q' t = (Inr (tenant', pk'), t')"
    using answered_at [OF assms(4,6)] by auto
  have "drop (Suc m) (authenticate_all H R relay_url qs r) ! (n - Suc m) = (q', Inr (tenant', pk'))"
    using assms(3,4,6) by (simp add: answers_length)
  then have "(q', Inr (tenant', pk')) \<in> set (authenticate_all H R relay_url (drop (Suc m) qs) s')"
    using rest assms(3,4) by (metis answers_length diff_less_mono length_drop nth_mem Suc_leI)
  from held_event_refused [OF assms(1) honoured_is_held [OF assms(1) first assms(8,10)] assms(10) _ this assms(7,9) refl]
  have later: "rq_marked_at q + 120000 \<le> rq_marked_at q'" using assms(2) by (simp add: sorted_wrt_drop flip: drop_map)
  obtain url url' where "check_nip98 H (rq_verified_at q) url (rq_method q) (rq_body q) ev = Inr pk"
    "check_nip98 H (rq_verified_at q') url' (rq_method q') (rq_body q') ev = Inr pk'"
    using authenticated [OF first] authenticated [OF second] assms(8,9) by auto
  then show ?thesis using later assms(11) by (auto dest!: check_nip98_done)
qed

lemma challenge_answered:
  "verify_nip42_event H now ev challenge url = Inr () \<Longrightarrow> hb_verify_event H ev \<and> first_content ''challenge'' ev = Some challenge
     \<and> (\<exists>relay. first_content ''relay'' ev = Some relay \<and> normalize_relay_url H relay = normalize_relay_url H url)
     \<and> now div 1000 \<le> ev_created_at ev + 60 \<and> ev_created_at ev \<le> now div 1000 + 60"
  by (auto simp: verify_nip42_event_def secs_diff_def TIMESTAMP_TOLERANCE_SECS_def split: if_splits option.splits)

section \<open>The community a request is bound to\<close>

lemma alias_found:
  "try_aliases resolver port aliases = Inr t \<Longrightarrow>
     resolver (tn_host t) = Inr (Some (tn_community t)) \<and> (\<exists>a\<in>set aliases. tn_host t = a @ port)"
  by (induction aliases) (auto split: sum.splits option.splits)

lemma bound_host:
  assumes "bind_community resolver raw = Inr t"
  shows "normalize_host raw \<noteq> [] \<and> resolver (tn_host t) = Inr (Some (tn_community t))
     \<and> (tn_host t = normalize_host raw
        \<or> resolver (normalize_host raw) = Inr None
          \<and> (\<exists>a b port. split_port (normalize_host raw) = (a, port) \<and> tn_host t = b @ port \<and> a \<noteq> b \<and> {a, b} \<subseteq> set LOOPBACK_HOSTS))"
proof (cases "resolver (normalize_host raw) = Inr None")
  case True
  then have "resolve_loopback_alias resolver (normalize_host raw) = Inr t" "normalize_host raw \<noteq> []"
    using assms by (auto simp: bind_community_def Let_def split: if_splits)
  then show ?thesis using True
    by (auto simp: resolve_loopback_alias_def split: prod.splits if_splits dest!: alias_found)
qed (use assms in \<open>auto simp: bind_community_def Let_def split: if_splits sum.splits option.splits\<close>)

section \<open>What an operator request shows\<close>

lemma signed_request_checked:
  assumes "check_nip98 H now url meth body ev = Inr pk"
  shows "\<exists>u m. first_content ''u'' ev = Some u \<and> normalize_url H u = normalize_url H url
     \<and> first_content ''method'' ev = Some m \<and> eq_ignore_ascii_case m meth
     \<and> (\<forall>b hash. body = Some b \<longrightarrow> first_content ''payload'' ev = Some hash \<longrightarrow> hb_sha256_hex H b = hash)"
  using assms by (auto simp: check_nip98_def split: if_splits option.splits)

lemma operator_request_checked:
  assumes "authorize_operator_request H R origin operators raw_query scope q r = (Inr pk, r')"
  shows "\<exists>ev url. carried H q = Some ev \<and> origin = Some url \<and> pk = ev_pubkey ev \<and> pk \<in> set operators
     \<and> check_nip98 H (rq_verified_at q) (canonical_operator_url url (rq_path q) raw_query) (rq_method q) (rq_body q) ev = Inr pk
     \<and> try_mark_in_scope R (rq_fault q) (rq_marked_at q) scope (ev_id ev) DEFAULT_REPLAY_TTL_SECS r = (Inr True, r')"
proof -
  have v: "verify_operator_request H R origin raw_query scope q r = (Inr pk, r')" and "pk \<in> set operators"
    using assms by (auto simp: authorize_operator_request_def operator_is_allowed_def list_ex_iff split: prod.splits sum.splits if_splits)
  then obtain url i where u: "origin = Some url" and b: "verify_bridge_auth_with_options H (rq_verified_at q) (rq_headers q) (rq_method q)
      (canonical_operator_url url (rq_path q) raw_query) (rq_body q) True (rq_body q \<noteq> None) = Inr (pk, i)"
    and m: "check_operator_replay R (rq_fault q) (rq_marked_at q) scope i r = (Inr (), r')"
    by (auto simp: verify_operator_request_def map_prod_def map_ok_Inr split: option.splits sum.splits prod.splits)
  obtain a where "Option.bind (rq_headers q ''authorization'') (strip_prefix ''Nostr '') = Some a"
    "nip98_auth H (rq_verified_at q) a (rq_method q) (canonical_operator_url url (rq_path q) raw_query) (rq_body q) (rq_body q \<noteq> None) = Inr (pk, i)"
    using b by (auto simp: verify_bridge_auth_with_options_def split: option.splits)
  moreover have "try_mark_in_scope R (rq_fault q) (rq_marked_at q) scope i DEFAULT_REPLAY_TTL_SECS r = (Inr True, r')"
    using m by (auto simp: check_operator_replay_def split: prod.splits sum.splits bool.splits)
  ultimately show ?thesis using u \<open>pk \<in> set operators\<close> by (auto simp: carried_def dest!: nip98_auth_done dest: check_nip98_done)
qed

section \<open>Examples\<close>

definition demo_seen :: "(string \<times> nat) list seen_lib" where
  "demo_seen = \<lparr>sn_set_nx_ex = (\<lambda>now k ttl r. case map_of r k of
       Some d \<Rightarrow> if now < d then (False, r) else (True, (k, now + 1000 * ttl) # r)
     | None \<Rightarrow> (True, (k, now + 1000 * ttl) # r)), sn_until = (\<lambda>k r. map_of r k)\<rparr>"

lemma demo_seen_law: "seen_law demo_seen"
  by (auto simp: seen_law_def demo_seen_def split: option.split)

definition token_tag :: "string \<Rightarrow> string option \<Rightarrow> tag" where
  "token_tag name v = \<lparr>tag_kind = name, tag_content = v, tag_slice = name # (case v of None \<Rightarrow> [] | Some x \<Rightarrow> [x])\<rparr>"

definition token_event :: "tag list \<Rightarrow> nevent" where
  "token_event tags = \<lparr>ev_id = ''e'', ev_pubkey = ''ann'', ev_created_at = 1000, ev_kind = 27235,
     ev_tags = [token_tag ''u'' (Some ''https://a.io/token''), token_tag ''method'' (Some ''POST'')] @ tags, ev_content = []\<rparr>"

text \<open>A library for which the text of a header is the event itself and its signature is good.\<close>

definition demo_auth :: "nevent \<Rightarrow> string auth_lib" where
  "demo_auth ev = \<lparr>hb_unbase64 = Some, hb_is_utf8 = (\<lambda>_. True), hb_event_json = (\<lambda>_. Some ev), hb_verify_event = (\<lambda>_. True),
     hb_sha256_hex = id, hb_url_parse = Some, hb_url_path = id, hb_url_set_path = (\<lambda>p _. p), hb_url_show = id,
     hb_lowercase = id, hb_pubkey_from_hex = Some, hb_url_authority = (\<lambda>u. Some (u, None)),
     hb_url_host_str = Some, hb_url_set_host = (\<lambda>h _. h), hb_sql_lower = id\<rparr>"

definition token_request :: "nat \<Rightarrow> string option \<Rightarrow> http_request" where
  "token_request now body = \<lparr>rq_headers = [''authorization'' \<mapsto> ''Nostr x'', ''host'' \<mapsto> ''a.io''], rq_method = ''POST'', rq_path = ''/token'',
     rq_body = body, rq_require_payload = body \<noteq> None, rq_verified_at = now, rq_marked_at = now, rq_fault = NoFault,
     rq_hosts = (\<lambda>_. (NoFault, [\<lparr>ch_id = ''c'', ch_host = ''a.io'', ch_archived = False\<rparr>]))\<rparr>"

definition demo_tenant :: TenantContext where
  "demo_tenant = \<lparr>tn_community = ''c'', tn_host = ''a.io''\<rparr>"

lemmas auth_run = authenticate_def verify_bridge_auth_with_options_def nip98_auth_def verify_nip98_event_def check_nip98_def
  check_nip98_replay_def try_mark_def try_mark_in_scope_def nip98_expected_url_def normalize_url_def trim_end_slashes_def first_content_def
  secs_diff_def TIMESTAMP_TOLERANCE_SECS_def DEFAULT_REPLAY_TTL_SECS_def MAX_REPLAY_TTL_SECS_def clamp_def
  nip98_replay_key_for_scope_def eq_ignore_ascii_case_def strip_prefix_def starts_with_def res_simps
  token_tag_def token_event_def demo_auth_def token_request_def demo_tenant_def demo_seen_def

lemma demo_event_id [simp]: "''e'' \<noteq> ZERO_EVENT_ID"
proof
  assume "''e'' = ZERO_EVENT_ID"
  from arg_cong [OF this, of length] show False by (simp add: ZERO_EVENT_ID_def)
qed

lemma demo_relay_url [simp]: "trim_start ''wss://a.io'' = ''wss://a.io''"
  by (rule trim_start_id) (simp add: ws1_def ws2_def ws3_def byte_def)

lemma demo_trim: "trim ''a.io'' = ''a.io''" "trim ''a.io:443'' = ''a.io:443''" "trim ''a.io:443.'' = ''a.io:443.''" "trim ''localhost'' = ''localhost''"
  by (simp_all add: trim_def trim_start_id trim_end_id ws_suffix_len_def ws1_def ws2_def ws3_def byte_def)

lemma demo_lower: "to_ascii_lowercase ''a.io'' = ''a.io''" "to_ascii_lowercase ''a.io:443'' = ''a.io:443''"
    "to_ascii_lowercase ''a.io:443.'' = ''a.io:443.''" "to_ascii_lowercase ''localhost'' = ''localhost''"
  by (simp_all add: to_ascii_lowercase_def ascii_lower_def is_ascii_uppercase_def byte_def)

lemma demo_hosts: "normalize_host ''a.io'' = ''a.io''" "normalize_host ''localhost'' = ''localhost''"
  by (simp_all add: normalize_host_def demo_trim demo_lower strip_suffix_def)

lemma demo_bound [simp]:
  "bind_community (resolve_host H (\<lambda>_. (NoFault, [\<lparr>ch_id = ''c'', ch_host = ''a.io'', ch_archived = False\<rparr>]))) ''a.io''
   = Inr \<lparr>tn_community = ''c'', tn_host = ''a.io''\<rparr>"
  by (simp add: bind_community_def demo_hosts resolve_host_def lookup_community_by_host_def sql_read_def)

text \<open>A host whose root dot follows its port is not brought to the same form as the others.\<close>

lemma dot_after_port_kept: "normalize_host ''a.io:443'' = ''a.io''" "normalize_host ''a.io:443.'' = ''a.io:443''"
  by (simp_all add: normalize_host_def demo_trim demo_lower strip_suffix_def)

text \<open>
  The seen-set forgets an event before it stops being fresh: signed 60 seconds ahead, it is accepted at
  the start of second 940 and again in second 1060.
\<close>

lemma replayed_in_the_last_second:
  "authenticate_all (demo_auth (token_event [])) demo_seen ''wss://a.io''
     [token_request 940000 None, token_request 1060500 None] []
   = [(token_request 940000 None, Inr (demo_tenant, ''ann'')), (token_request 1060500 None, Inr (demo_tenant, ''ann''))]"
  by (simp add: auth_run)

text \<open>
  A community of this machine found under another of its names does not accept what is signed for the
  address that was used: the address that is expected has the name the community was found under.
\<close>

lemma alias_request_refused:
  "fst (authenticate (demo_auth (token_event [] \<lparr>ev_tags := [token_tag ''u'' (Some ''http://localhost/token''), token_tag ''method'' (Some ''POST'')]\<rparr>))
     demo_seen ''ws://localhost'' ((token_request 1000000 None) \<lparr>rq_headers := [''authorization'' \<mapsto> ''Nostr x'', ''host'' \<mapsto> ''localhost''],
       rq_hosts := \<lambda>_. (NoFault, [\<lparr>ch_id = ''c'', ch_host = ''127.0.0.1'', ch_archived = False\<rparr>])\<rparr>) [])
   = Inl (HttpError 401 ''NIP-98: '')"
proof -
  have "bind_community (resolve_host (demo_auth ev) (\<lambda>_. (NoFault, [\<lparr>ch_id = ''c'', ch_host = ''127.0.0.1'', ch_archived = False\<rparr>]))) ''localhost''
      = Inr \<lparr>tn_community = ''c'', tn_host = ''127.0.0.1''\<rparr>" for ev
    by (simp add: bind_community_def demo_hosts resolve_host_def lookup_community_by_host_def sql_read_def demo_auth_def
        resolve_loopback_alias_def split_port_def split_once_def LOOPBACK_HOSTS_def)
  moreover have "trim_start ''ws://localhost'' = ''ws://localhost''"
    by (rule trim_start_id) (simp add: ws1_def ws2_def ws3_def byte_def)
  ultimately show ?thesis by (simp add: auth_run)
qed

text \<open>A \<open>payload\<close> tag with no value passes for one, and the body is then anything.\<close>

lemma bare_payload_tag_binds_nothing:
  "fst (authenticate (demo_auth (token_event [token_tag ''payload'' None])) demo_seen ''wss://a.io''
     (token_request 1000000 (Some body)) []) = Inr (demo_tenant, ''ann'')"
  by (simp add: auth_run)

theorem request_honoured_once_witness:
  "rq_marked_at (token_request 940000 None) + 120000 \<le> rq_marked_at (token_request 1060500 None)
     \<and> rq_verified_at (token_request 1060500 None) < 1000 * (ev_created_at (token_event []) + 61)"
proof -
  let ?H = "demo_auth (token_event [])" and ?q = "token_request 940000 None" and ?q' = "token_request 1060500 None"
  have "carried ?H ?q = Some (token_event [])" "carried ?H ?q' = Some (token_event [])" "ev_id (token_event []) \<noteq> ZERO_EVENT_ID"
    "sorted (map rq_marked_at [?q, ?q'])" "rq_verified_at ?q \<le> rq_marked_at ?q"
    by (simp_all add: carried_def auth_run)
  moreover note run = replayed_in_the_last_second
  ultimately show ?thesis
    using request_honoured_once [OF demo_seen_law, of "[?q, ?q']" 0 1 ?H "''wss://a.io''" "[]" ?q demo_tenant "''ann''"
        ?q' demo_tenant "''ann''" "token_event []"]
    unfolding run by simp
qed

end
