(* ===== verification/Spec2Isabelle.thy ===== *)
theory Spec2Isabelle
  imports Subscription_Race Git_Perms Reconcile Event_Queue Job_Examples Block_Action
    Pairing_Honest Reliable_Tunnel Mesh_Network Trace_Emitter
    Governance Event_Paging Event_Heads Ask_Examples Gateway_Laws Audit_Laws Http_Auth
begin

text \<open>
  A verification of the core logic of Colony (the Rust crates under \<open>src/crates/\<close>): a
  multi-tenant Nostr relay with agents as employees, a git server, a job queue, a cost ledger,
  and the pairing, tunnel and mesh protocols between devices and relays.

  \<^bold>\<open>The program and its parts.\<close> Clients hold WebSocket connections to the relay
  (\<open>buzz-relay\<close>) and register subscriptions. An event that is accepted is stored
  (\<open>buzz-db\<close>), matched against the subscriptions (\<open>buzz-core/src/filter.rs\<close>, by kind as
  registered in \<open>kind.rs\<close>) and fanned out. A community has owners, admins and members, who
  come by invite or by command. Agents are employees with a tier; the interrupt gate decides
  whom an agent may address and which decisions it may record, and asks carry what an agent
  may not decide one tier up. The agent harness (\<open>buzz-acp\<close>) queues events per channel and
  gives them to agents one turn per channel at a time. Pushes are judged by the push policy.
  Work is filed as jobs, leased to one machine at a time and settled by an outcome. Every
  model call leaves a usage record, which the ledger prices, attributes and sums; a call through
  the hosted gateway is paid from prepaid credits, held when it is admitted and charged at its
  end. Devices are
  paired by a code and a short string to compare; relays find each other by gossip and carry
  sessions of each other's clients over streams fenced by the session directory. Every
  request of the relay can leave a trace that the conformance checker judges.

  \<^bold>\<open>Theories\<close>, with the sources they translate:

  \<^item> Shared: \<open>Colony_Prelude\<close> (\<open>Result\<close> and \<open>Option\<close>, UTF-8 strings with \<open>trim\<close>, \<open>split\<close> and
    number parsing, fixed widths, maps), \<open>Colony_Interfaces\<close> (the locales \<open>wire_enum\<close>,
    \<open>posting_index\<close>, \<open>invariant_machine\<close>, \<open>append_only_book\<close>, \<open>last_selection\<close>,
    \<open>first_selection\<close>), \<open>Sql_Table\<close> (rows under a key with \<open>CHECK\<close>s and unique indexes, and the
    faults of a call; locale \<open>indexed_table\<close>), \<open>Json\<close>. Every locale is interpreted in the
    theory of the component that provides it.
  \<^item> Events: \<open>Nostr_Event\<close>, \<open>Kind\<close>, \<open>Event_Filter\<close>, \<open>Channel\<close> (\<open>buzz-core/src/\<close>).
    \<open>Subscription\<close> is \<open>buzz-relay/src/subscription.rs\<close>, each method one step;
    \<open>Subscription_Race\<close> has its methods cut into map accesses. \<open>Event_Store\<close>, \<open>Event_Paging\<close>
    and \<open>Event_Heads\<close> are \<open>buzz-db/src/event.rs\<close> and the replacement code of
    \<open>buzz-db/src/lib.rs\<close>; \<open>Thread_Store\<close> is \<open>thread.rs\<close>.
  \<^item> Community: \<open>Member_Store\<close> (\<open>buzz-db/src/relay_members.rs\<close>), \<open>Relay_Admin\<close>
    (\<open>handlers/relay_admin.rs\<close>, the leave request of \<open>ingest.rs\<close> and the membership commands of
    \<open>buzz-admin/src/main.rs\<close>), \<open>Invites\<close>
    (\<open>buzz-core/src/invite.rs\<close>, \<open>relay_invite.rs\<close>, \<open>invite_token.rs\<close>, \<open>api/invites.rs\<close>),
    \<open>Governance\<close> (histories of these).
  \<^item> Agents and interrupts: \<open>Employee_Wire\<close>, \<open>Employee_Store\<close>, \<open>Interrupt_Wire\<close>, \<open>Ask_Store\<close>
    (the contracts in \<open>buzz-core\<close> and the tables in \<open>buzz-db\<close>), \<open>Interrupt_Gate\<close> and
    \<open>Gate_Laws\<close> (\<open>buzz-relay/src/interrupt_gate.rs\<close>).
  \<^item> Asks and payroll: \<open>Relay_Publish\<close> (what the relay signs, stores and fans out),
    \<open>Interrupt_Roster\<close> (who holds which office: the roster part of \<open>interrupt_runtime.rs\<close>),
    \<open>Ask_Heads\<close> (\<open>ask_state_head.rs\<close>), \<open>Ask_Broker\<close> and \<open>Ask_Answers\<close> (\<open>ask_broker.rs\<close>: filing,
    and then answering, withdrawing and replying), \<open>Ask_Sweep\<close> (the sweep of due asks in
    \<open>interrupt_runtime.rs\<close>) and \<open>Employee_Broker\<close> (\<open>employee_broker.rs\<close>). \<open>Ask_History\<close> sums up what
    each does to the table of asks, \<open>Ask_Laws\<close> and \<open>Employee_Laws\<close> hold the theorems,
    \<open>Ask_Examples\<close> a small community in which they apply.
  \<^item> Git: \<open>Git_Perms\<close>. Agent harness: \<open>Event_Queue\<close>, \<open>Block_Action\<close>
    (\<open>buzz-acp/src/queue.rs\<close>).
  \<^item> Ledger: \<open>Usage_Record\<close>, \<open>Price_Conditions\<close>, \<open>Price_Book\<close>, \<open>Attribution\<close>,
    \<open>Ledger_Engine\<close>, \<open>Reconcile\<close> (\<open>usage_record.rs\<close> and \<open>buzz-core/src/ledger/\<close>). The long
    body of \<open>compute_ledger\<close> is one definition per numbered stage, composed in its order.
  \<^item> Credits: \<open>Credit_Store\<close> (\<open>buzz-db/src/credits.rs\<close> with its tables in \<open>schema.sql\<close>, and what
    \<open>discovery.rs\<close> posts), \<open>Gateway_Admission\<close> (\<open>buzz-relay/src/gateway/mod.rs\<close>: admission and
    settlement); \<open>Credit_Laws\<close> and \<open>Gateway_Laws\<close> hold the theorems, and an account and a call
    in which they apply.
  \<^item> Jobs: \<open>Job_Wire\<close> (\<open>job.rs\<close>), \<open>Job_Store\<close> (\<open>buzz-db/src/jobs.rs\<close>), \<open>Job_Broker\<close> and
    \<open>Job_Timers\<close> (\<open>job_broker.rs\<close>, \<open>job_runtime.rs\<close>); \<open>Job_Lease\<close> is the abstract lease they
    refine, and \<open>Job_Queue\<close>, \<open>Job_Duties\<close>, \<open>Job_Heads\<close>, \<open>Job_Outcomes\<close>, \<open>Job_Evidence\<close>,
    \<open>Job_Recovery\<close>, \<open>Job_Fencing\<close> and \<open>Job_Examples\<close> hold what follows.
  \<^item> Pairing: \<open>Pairing_Wire\<close>, \<open>Pairing_Session\<close> (\<open>buzz-core/src/pairing/\<close>),
    \<open>Pairing_Protocol\<close> (any caller) and \<open>Pairing_Honest\<close> (two honest devices).
  \<^item> Tunnels: \<open>Session_Directory\<close>, \<open>Session_Fencing\<close>, \<open>Session_Runs\<close>
    (\<open>tunnel/directory.rs\<close>) and \<open>Reliable_Tunnel\<close> (\<open>tunnel/reliable.rs\<close>).
  \<^item> Mesh: \<open>Mesh_Wire\<close>, \<open>Mesh_Membership\<close>, \<open>Mesh_Runtime\<close>, \<open>Mesh_Gossip\<close>, \<open>Mesh_Network\<close>
    (\<open>buzz-relay-mesh\<close>).
  \<^item> Conformance: \<open>Conformance\<close> (\<open>buzz-conformance\<close>) and \<open>Trace_Emitter\<close>
    (\<open>buzz-relay/src/conformance/\<close>).
  \<^item> Audit: \<open>Audit_Log\<close> (\<open>buzz-audit\<close>) and \<open>Audit_Laws\<close>.
  \<^item> HTTP: \<open>Http_Auth\<close> (\<open>buzz-auth/src/nip98.rs\<close>, \<open>nip98_replay.rs\<close>, \<open>tenant.rs\<close>, and the checks of
    \<open>api/bridge.rs\<close>, \<open>api/operator_auth.rs\<close> and the gateway).

  \<^bold>\<open>What is shown.\<close>

  \<^item> Registry: in every reachable state each index holds exactly the live subscriptions filed
    under its keys; fan-out through the indexes is the scan of the table (C1).
  \<^item> Events: the live row of an address ends as the newest version whatever the order of
    arrival (C8), paging gives every row once
    (C32), thread counters are exact
    (C28), but for a message filed after its own reply; beside these, read markers never roll back.
  \<^item> Community: never without an owner, and with exactly one unless grants of ownership overlap
    (C7); roles come from owners or from the command line
    (C24); invites keep to their budget (C27).
  \<^item> Gate: an owner whose key is spelled as it is stored is reached only in a thread open to the agent
    (C9), decisions are covered by a grant
    (C25), failing reads never open it
    (C34); and, beside these, that impostors do not move a tier and two
    ways in which it is weaker than it means to be.
  \<^item> Asks: the terms of an ask never change, an answer is final and a need has one open ask
    (C12); an ask goes one rung up
    (C14), is answered by who may (C18), by its
    default only when due and before an owner (C17), and once
    handled is out of the sweep's way for a minute (C31); beside these, it is the same ask when the
    sweep promotes it.
  \<^item> Payroll: a request hires once (C30), no update leaves a report that is found
    without a next rung (C29).
  \<^item> Git: the push decision refines the specification \<open>push_permitted\<close>
    (C19).
  \<^item> Ledger: conservation (C4), exact prices below the stated bounds
    (C38), and when a whole ledger reconciles (C40).
  \<^item> Queue: a flush conserves events, but for those its expiry gives up beyond the cap of a channel
    (C21); beside it, one turn per channel.
  \<^item> Jobs: the rows stay sound (C22); a worker is fenced
    (C2), a delivery has evidence
    (C11), a head reads back as its row
    (C39); beside these, a lease is exclusive, the sweep of lapsed leases
    drains and every job has a human.
  \<^item> Pairing: a target accepts a payload only from the device it scanned and after the codes
    were compared (C10), sessions follow their script
    (C37), honest devices complete
    (C36).
  \<^item> Tunnels: ownership of a session is fenced in any history (C3),
    superseded streams deliver nothing (C33);
    beside these, renewed leases are kept.
  \<^item> Mesh: gossip converges to the greatest versions (C20); beside it, two
    records of one version that it never reconciles, and no replica is ahead of the
    runtime it describes.
  \<^item> Conformance: what a passing trace means (C35); beside it, that a
    leak recorded by the relay is always seen.
  \<^item> Credits: in any history the balances are the sums of the ledger
    (C6) and admitted calls are covered by them
    (C13); a call is charged once whatever is lost
    (C5); the slots of an account are counted exactly, and it is not
    forgotten under a call or an operation at its gate (C23). Beside these: a call charged at an estimate is charged
    again from the export.
  \<^item> Audit: what is logged is numbered, linked, and verifies where JSONB keeps the text of the details
    (C26), and the newest hash
    commits to what was hashed before it (C15); beside these, two changes
    that verification does not see.
  \<^item> HTTP: on the routes that check for replay (all but Git's) a signed request is honoured once, but for its
    last second (C16); beside it, what a host is bound to and what an operator
    request shows, a replay in that second, and a body that is not bound.

  Many further theorems of the same kind stand beside these in the theories.

  \<^bold>\<open>Modelling.\<close> Code outside the repository is a parameter: \<open>Uuid\<close> printing and parsing,
  \<open>serde_json\<close>, \<open>chrono\<close>, NIP-44, HKDF, HMAC, SHA-256, base64, \<open>postcard\<close>, the QUIC library, and
  the key parser and signer of the \<open>nostr\<close> crate; its values are records of the observations
  made of them. A statement sent to Postgres is one atomic step on the rows under the
  constraints and indexes of \<open>schema.sql\<close>; a transaction is its statements in order, all or
  none, and where two can overlap to effect (the grants of ownership) what each statement read is an
  argument, since the database runs at \<open>READ COMMITTED\<close>. A statement may fail before it runs or lose its answer after; which do is an argument
  of every handler. Redis runs each script atomically. A \<open>HashMap\<close> is an association list of
  arbitrary order; \<open>BTreeMap\<close>s are kept sorted. Prices and token counts are 64-bit words,
  money 128-bit words, and additions that can wrap do; ids and instants are natural numbers
  or integers with the checks of the source. The clock is an argument. Panics and early
  returns are results. Concurrency is the order of steps: a history is any interleaving of the
  atomic steps of any callers, and where a handler reads before it writes, what it read may be
  of an earlier state (the argument \<open>seen\<close>); an admission and a settlement of the gateway are cut where they await; the sweep's handling of one due ask is one step. Of
  the texts that refuse a request only the fixed part is kept. No definition of the program needs fuel: every loop terminates on a
  measure, is structural or a fold. The bounds the properties name (two hundred lapsed leases
  in a pass, three attempts, twenty candidate heads, one MiB frames) are the constants of the
  source.

  \<^bold>\<open>Not modelled.\<close> The deletion of a community; connections, logging and metrics; cryptography; generated \<open>serde\<close> code; user
  interfaces; the ledger's catalog and cross-checks; the remaining company contracts; media,
  payments, audio, push and search; the process management of agents; the workflow engine;
  authorisation scopes and rate limits. Of modelled parts: the deletion of
  join-policy acceptances with a member and the policy pages of invites, the stored summaries
  of threads, the check of channel membership (a parameter of the gate), failures of
  signing, which the sources log; of \<open>interrupt_runtime.rs\<close> the sweep that looks for stalled agents
  and the waking of snoozed asks, and of an event that is dispatched all but its storage and
  fan-out; the sealing of an employee's key, which is a parameter; of the model gateway the HTTP
  routes, tokens and the streaming of bodies, and of paid discovery all but its postings.
\<close>

section \<open>From usage records to the reconciliation\<close>

text \<open>
  C40: reconciling the report of a ledger raises nothing exactly when the provider's report
  has the same provider-days as the metered, priced entries of the ledger, and on each of
  them the two totals differ by at most the tolerance.
\<close>

theorem ledger_reconciles:
  fixes rfc3339 usage prices rules corrections budgets
  defines "rep \<equiv> compute_ledger rfc3339 usage prices rules corrections budgets"
  shows "reconcile (lr_by_day rep) provider_rows tol = [] \<longleftrightarrow>
    (\<forall>k. rel_option (\<lambda>l q. abs_diff l q \<le> tol)
       (day_total (\<lambda>e. (le_provider e, le_day e)) entry_cost (filter metered_priced (lr_entries rep)) k)
       (day_total (\<lambda>r. (pd_provider r, pd_day r)) pd_amount_nanousd provider_rows k))"
  unfolding reconcile_empty rep_def ledger_by_day_total ..

end
